(* ===== verification/Prelude.thy ===== *)
theory Prelude
  imports Main "HOL-Library.AList" "HOL-Library.Multiset" "HOL-Library.Char_ord" "HOL-Library.List_Lexorder"
begin

text \<open>
  Shared vocabulary of the development: the JavaScript values every component uses and the
  generic lemmas about them.

  \<^item> Timestamps are the strings \<open>Date.prototype.toISOString\<close> writes. \<open>At t\<close> is such a string, for the
    epoch millisecond \<open>t\<close>; \<open>Text s\<close> is any other string, which \<open>Date.parse\<close> reads as \<open>NaN\<close>.
  \<^item> A field that is \<open>null\<close> or \<open>undefined\<close> is \<open>None\<close>; \<open>??\<close> is \<open>coalesce\<close>.
  \<^item> A \<open>Map\<close> is an association list in insertion order: \<open>set\<close> is \<open>AList.update\<close> (it replaces in
    place or appends), \<open>delete\<close> is \<open>AList.delete\<close>, \<open>get\<close> is \<open>map_of\<close>.
  \<^item> A \<open>Set\<close> is a list in insertion order, built by \<open>set_add\<close>.
  \<^item> \<open>sort_cmp\<close> is \<open>Array.prototype.sort\<close> with a comparator (stable).

  The locale \<open>keyed_sweep\<close> is the interface of every loop of the program that visits the entries
  of a registry one by one; its lemmas say that such a loop acts on each entry exactly once.
\<close>

named_theorems registry_frame \<open>what an operation leaves alone\<close>

section \<open>Timestamps\<close>

datatype stamp = At int | Text string

text \<open>\<open>Date.parse\<close>: \<open>None\<close> is \<open>NaN\<close>.\<close>

fun date_parse :: "stamp \<Rightarrow> int option" where
  "date_parse (At t) = Some t"
| "date_parse (Text s) = None"

text \<open>A string is truthy when it is not empty.\<close>

fun stamp_truthy :: "stamp option \<Rightarrow> bool" where
  "stamp_truthy None = False"
| "stamp_truthy (Some (At t)) = True"
| "stamp_truthy (Some (Text s)) = (s \<noteq> '''')"

fun str_truthy :: "string option \<Rightarrow> bool" where
  "str_truthy None = False"
| "str_truthy (Some s) = (s \<noteq> '''')"

text \<open>The nullish coalescing operator.\<close>

fun coalesce :: "'a option \<Rightarrow> 'a option \<Rightarrow> 'a option" where
  "coalesce (Some x) y = Some x"
| "coalesce None y = y"

text \<open>\<open>x ?? []\<close>, \<open>x || new Set()\<close> and \<open>x?.values() || []\<close>.\<close>

fun or_empty :: "'a list option \<Rightarrow> 'a list" where
  "or_empty None = []"
| "or_empty (Some xs) = xs"

lemma coalesce_None [simp]: "coalesce x None = x"
  by (cases x) simp_all

lemma str_truthy_iff: "str_truthy x \<longleftrightarrow> (\<exists>s. x = Some s \<and> s \<noteq> '''')"
  by (cases x) simp_all

section \<open>Sets and maps in insertion order\<close>

definition set_add :: "'a \<Rightarrow> 'a list \<Rightarrow> 'a list" where
  "set_add x xs = (if x \<in> set xs then xs else xs @ [x])"

text \<open>\<open>Array.from(new Set(xs))\<close>: the first occurrences, in order.\<close>

definition uniq :: "'a list \<Rightarrow> 'a list" where
  "uniq xs = fold set_add xs []"

lemma set_set_add [simp]: "set (set_add x xs) = insert x (set xs)"
  by (auto simp: set_add_def)

lemma distinct_set_add [simp]: "distinct (set_add x xs) = distinct xs"
  by (auto simp: set_add_def)

lemma set_fold_set_add: "set (fold set_add xs ys) = set xs \<union> set ys"
  by (induction xs arbitrary: ys) auto

lemma distinct_fold_set_add: "distinct ys \<Longrightarrow> distinct (fold set_add xs ys)"
  by (induction xs arbitrary: ys) auto

lemma set_uniq [simp]: "set (uniq xs) = set xs"
  by (simp add: uniq_def set_fold_set_add)

lemma distinct_uniq [simp]: "distinct (uniq xs)"
  by (simp add: uniq_def distinct_fold_set_add)

lemma uniq_single [simp]: "uniq [x] = [x]"
  by (simp add: uniq_def set_add_def)

text \<open>Facts about association lists that the components share.\<close>

lemma map_of_update [simp]:
  "map_of (AList.update k v m) k' = (if k' = k then Some v else map_of m k')"
  by (simp add: update_conv')

lemma map_of_delete [simp]:
  "map_of (AList.delete k m) k' = (if k' = k then None else map_of m k')"
  by (simp add: AList.delete_conv')

lemma map_of_map_entry [simp]:
  "map_of (AList.map_entry k f m) k' = (if k' = k then map_option f (map_of m k) else map_of m k')"
  by (induction m) auto

lemma fst_map_entry [simp]: "map fst (AList.map_entry k f m) = map fst m"
  by (induction m) auto

text \<open>The entry of a key, taken out of its list: what \<open>map_entry\<close> changes.\<close>

lemma map_entry_split:
  assumes "map_of m k = Some v"
  obtains A B where "m = A @ (k, v) # B" and "\<And>f. AList.map_entry k f m = A @ (k, f v) # B" and "k \<notin> set (map fst A)"
  using assms
proof (induction m arbitrary: thesis)
  case Nil
  then show ?case by simp
next
  case (Cons p m)
  show ?case
  proof (cases "fst p = k")
    case True
    with Cons.prems(2) have p: "p = (k, v)" by (cases p) simp
    show ?thesis by (rule Cons.prems(1) [of "[]" m]) (simp_all add: p)
  next
    case False
    with Cons.prems(2) have "map_of m k = Some v" by (cases p) simp
    with Cons.IH obtain A B where "m = A @ (k, v) # B" "\<And>f. AList.map_entry k f m = A @ (k, f v) # B" "k \<notin> set (map fst A)"
      by blast
    with False show ?thesis by (intro Cons.prems(1) [of "p # A" B]) auto
  qed
qed

lemma distinct_singleton: "distinct xs \<Longrightarrow> set xs = {x} \<Longrightarrow> xs = [x]"
  by (cases xs; cases "tl xs") auto

lemma update_fresh: "k \<notin> set (map fst m) \<Longrightarrow> AList.update k v m = m @ [(k, v)]"
  by (induction m) auto

text \<open>The development reasons by lookup, not by membership of the entry list.\<close>

declare map_of_eq_Some_iff [simp del] Some_eq_map_of_iff [simp del]

lemma map_of_in_keys: "map_of m k = Some v \<Longrightarrow> k \<in> set (map fst m)"
  by (metis map_of_eq_None_iff option.distinct(1) set_map)

lemma in_keys_map_of: "k \<in> set (map fst m) \<Longrightarrow> \<exists>v. map_of m k = Some v"
  by (metis map_of_eq_None_iff not_None_eq set_map)

lemma map_of_valuesD: "v \<in> set (map snd m) \<Longrightarrow> distinct (map fst m) \<Longrightarrow> \<exists>k. map_of m k = Some v"
  by (auto simp: image_iff map_of_eq_Some_iff)

lemma map_of_values: "map_of m k = Some v \<Longrightarrow> v \<in> set (map snd m)"
  by (force dest: map_of_SomeD)

lemma values_update: "set (map snd (AList.update k v m)) \<subseteq> insert v (set (map snd m))"
  by (induction m) auto

lemma values_delete: "set (map snd (AList.delete k m)) \<subseteq> set (map snd m)"
  by (induction m) auto

lemma removeAll_Nil: "removeAll x xs = [] \<longleftrightarrow> (\<forall>y \<in> set xs. y = x)"
  by (induction xs) auto

lemma find_SomeD: "find P xs = Some x \<Longrightarrow> P x \<and> x \<in> set xs"
  by (induction xs) (auto split: if_splits)

lemma find_NoneD: "find P xs = None \<Longrightarrow> x \<in> set xs \<Longrightarrow> \<not> P x"
  by (auto simp: find_None_iff)

section \<open>Strings\<close>

text \<open>\<open>String.prototype.trim\<close> on Latin-1 text, and \<open>split\<close> at a character.\<close>

definition space_char :: "char \<Rightarrow> bool" where
  "space_char ch = (let n = of_char ch :: nat in n = 32 \<or> (9 \<le> n \<and> n \<le> 13) \<or> n = 160)"

definition trim :: "string \<Rightarrow> string" where
  "trim s = rev (dropWhile space_char (rev (dropWhile space_char s)))"

text \<open>\<open>toLowerCase\<close> and \<open>toUpperCase\<close> of a character, on ASCII text.\<close>

definition lower_char :: "char \<Rightarrow> char" where
  "lower_char ch = (if 65 \<le> (of_char ch :: nat) \<and> (of_char ch :: nat) \<le> 90 then char_of ((of_char ch :: nat) + 32) else ch)"

definition upper_char :: "char \<Rightarrow> char" where
  "upper_char ch = (if 97 \<le> (of_char ch :: nat) \<and> (of_char ch :: nat) \<le> 122 then char_of ((of_char ch :: nat) - 32) else ch)"

fun split_on :: "char \<Rightarrow> string \<Rightarrow> string list" where
  "split_on d [] = [[]]"
| "split_on d (ch # cs) =
     (if ch = d then [] # split_on d cs
      else (case split_on d cs of p # ps \<Rightarrow> (ch # p) # ps | [] \<Rightarrow> [[ch]]))"

lemma split_on_not_Nil [simp]: "split_on d s \<noteq> []"
  by (cases s) (auto split: list.split)

lemma split_on_none: "d \<notin> set s \<Longrightarrow> split_on d s = [s]"
  by (induction s) auto

lemma split_on_append: "d \<notin> set s \<Longrightarrow> split_on d (s @ d # t) = s # split_on d t"
  by (induction s) auto

section \<open>Changing one element of an array\<close>

text \<open>
  \<open>const x = xs.find(P)\<close> followed by assignments to \<open>x\<close>: the first element that satisfies \<open>P\<close> is
  the array's own object, so it changes in place.
\<close>

fun update_first :: "('a \<Rightarrow> bool) \<Rightarrow> ('a \<Rightarrow> 'a) \<Rightarrow> 'a list \<Rightarrow> 'a list" where
  "update_first P f [] = []"
| "update_first P f (x # xs) = (if P x then f x # xs else x # update_first P f xs)"

lemma update_first_set: "p \<in> set (update_first P f ps) \<Longrightarrow> p \<in> set ps \<or> (\<exists>q \<in> set ps. P q \<and> p = f q)"
  by (induction ps) (auto split: if_splits)

lemma map_update_first: "(\<And>x. g (f x) = g x) \<Longrightarrow> map g (update_first P f xs) = map g xs"
  by (induction xs) simp_all

lemma update_first_nth:
  "distinct (map g ps) \<Longrightarrow> i < length ps \<Longrightarrow> update_first (\<lambda>p. g p = g (ps ! i)) f ps = ps[i := f (ps ! i)]"
proof (induction ps arbitrary: i)
  case Nil
  then show ?case by simp
next
  case (Cons p ps)
  then show ?case by (cases i) auto
qed

lemma update_first_none: "find P xs = None \<Longrightarrow> update_first P f xs = xs"
  by (induction xs) (auto split: if_splits)

lemma length_update_first [simp]: "length (update_first P f xs) = length xs"
  by (induction xs) simp_all

section \<open>Sorting with a comparator\<close>

fun insort_cmp :: "('a \<Rightarrow> 'a \<Rightarrow> int) \<Rightarrow> 'a \<Rightarrow> 'a list \<Rightarrow> 'a list" where
  "insort_cmp cmp x [] = [x]"
| "insort_cmp cmp x (y # ys) = (if cmp x y \<le> 0 then x # y # ys else y # insort_cmp cmp x ys)"

text \<open>\<open>xs.sort(cmp)\<close>: stable, ascending in \<open>cmp\<close>.\<close>

definition sort_cmp :: "('a \<Rightarrow> 'a \<Rightarrow> int) \<Rightarrow> 'a list \<Rightarrow> 'a list" where
  "sort_cmp cmp xs = foldr (insort_cmp cmp) xs []"

lemma set_insort_cmp [simp]: "set (insort_cmp cmp x xs) = insert x (set xs)"
  by (induction xs) auto

lemma length_insort_cmp [simp]: "length (insort_cmp cmp x xs) = Suc (length xs)"
  by (induction xs) auto

lemma set_sort_cmp [simp]: "set (sort_cmp cmp xs) = set xs"
  by (induction xs) (simp_all add: sort_cmp_def)

lemma length_sort_cmp [simp]: "length (sort_cmp cmp xs) = length xs"
  by (induction xs) (simp_all add: sort_cmp_def)

lemma distinct_insort_cmp: "distinct (insort_cmp cmp x xs) = (x \<notin> set xs \<and> distinct xs)"
  by (induction xs) auto

lemma distinct_sort_cmp [simp]: "distinct (sort_cmp cmp xs) = distinct xs"
  by (induction xs) (simp_all add: sort_cmp_def distinct_insort_cmp set_sort_cmp [unfolded sort_cmp_def])

lemma mset_insort_cmp [simp]: "mset (insort_cmp cmp x xs) = add_mset x (mset xs)"
  by (induction xs) auto

lemma mset_sort_cmp [simp]: "mset (sort_cmp cmp xs) = mset xs"
  by (induction xs) (simp_all add: sort_cmp_def)

lemma length_filter_sort_cmp [simp]: "length (filter P (sort_cmp cmp xs)) = length (filter P xs)"
  by (metis mset_filter mset_sort_cmp size_mset)

lemma distinct_map_sort_cmp [simp]: "distinct (map f (sort_cmp cmp xs)) = distinct (map f xs)"
  by (rule mset_eq_imp_distinct_iff) simp

lemma sort_cmp_Nil [simp]: "sort_cmp cmp xs = [] \<longleftrightarrow> xs = []"
  by (metis length_0_conv length_sort_cmp)

text \<open>A comparator that agrees with a linear order on keys sorts by that key.\<close>

lemma insort_cmp_key:
  "(\<And>y. y \<in> set xs \<Longrightarrow> cmp x y \<le> 0 \<longleftrightarrow> f x \<le> f y) \<Longrightarrow> insort_cmp cmp x xs = insort_key f x xs"
  by (induction xs) simp_all

lemma sort_cmp_key:
  "(\<And>a b. a \<in> set xs \<Longrightarrow> b \<in> set xs \<Longrightarrow> cmp a b \<le> 0 \<longleftrightarrow> f a \<le> f b) \<Longrightarrow> sort_cmp cmp xs = sort_key f xs"
proof (induction xs)
  case Nil
  then show ?case by (simp add: sort_cmp_def)
next
  case (Cons a xs)
  then have "sort_cmp cmp xs = sort_key f xs" by simp
  then have "sort_cmp cmp (a # xs) = insort_cmp cmp a (sort_key f xs)"
    by (simp add: sort_cmp_def)
  also have "\<dots> = insort_key f a (sort_key f xs)"
    using Cons.prems by (intro insort_cmp_key) simp
  finally show ?case by simp
qed

text \<open>The first \<open>n\<close> of a sorted list precede what is cut off.\<close>

lemma take_sorted_le:
  "sorted (map f xs) \<Longrightarrow> x \<in> set (take n xs) \<Longrightarrow> y \<in> set (drop n xs) \<Longrightarrow> f x \<le> f y"
  using sorted_append [of "map f (take n xs)" "map f (drop n xs)"]
  by (simp flip: map_append)

section \<open>Sweeps over a registry\<close>

text \<open>
  The contract of a loop body, under an invariant of the registry: visiting key \<open>k\<close> may change the
  entry at \<open>k\<close> only, and what it does to it depends on that entry and on a context the loop does not
  change.
\<close>

locale keyed_sweep =
  fixes inv :: "'s \<Rightarrow> bool"
    and view :: "'s \<Rightarrow> 'k \<Rightarrow> 'v option"
    and ctx :: "'s \<Rightarrow> 'c"
    and visit :: "'k \<Rightarrow> 's \<Rightarrow> 's"
  assumes inv_kept: "inv s \<Longrightarrow> inv (visit k s)"
    and frame: "inv s \<Longrightarrow> k \<noteq> k' \<Longrightarrow> view (visit k s) k' = view s k'"
    and ctx_kept: "inv s \<Longrightarrow> ctx (visit k s) = ctx s"
    and entry_local: "inv s \<Longrightarrow> inv t \<Longrightarrow> view s k = view t k \<Longrightarrow> ctx s = ctx t \<Longrightarrow>
      view (visit k s) k = view (visit k t) k"
begin

lemma sweep_inv: "inv s \<Longrightarrow> inv (fold visit ks s)"
  by (induction ks arbitrary: s) (simp_all add: inv_kept)

lemma sweep_ctx: "inv s \<Longrightarrow> ctx (fold visit ks s) = ctx s"
  by (induction ks arbitrary: s) (simp_all add: ctx_kept inv_kept)

lemma sweep_outside: "inv s \<Longrightarrow> k \<notin> set ks \<Longrightarrow> view (fold visit ks s) k = view s k"
  by (induction ks arbitrary: s) (auto simp: frame inv_kept)

lemma sweep_inside:
  assumes "inv s" and "distinct ks" and "k \<in> set ks"
  shows "view (fold visit ks s) k = view (visit k s) k"
  using assms
proof (induction ks arbitrary: s)
  case Nil
  then show ?case by simp
next
  case (Cons a ks)
  show ?case
  proof (cases "a = k")
    case True
    with Cons.prems show ?thesis by (simp add: sweep_outside inv_kept)
  next
    case False
    with Cons have "view (fold visit ks (visit a s)) k = view (visit k (visit a s)) k"
      by (auto simp: inv_kept)
    also have "\<dots> = view (visit k s) k"
      using False Cons.prems by (intro entry_local) (simp_all add: frame ctx_kept inv_kept)
    finally show ?thesis by simp
  qed
qed

text \<open>A loop over distinct keys acts on each entry as one visit to it.\<close>

lemma sweep_entry:
  "inv s \<Longrightarrow> distinct ks \<Longrightarrow>
     view (fold visit ks s) k = (if k \<in> set ks then view (visit k s) k else view s k)"
  by (simp add: sweep_inside sweep_outside)

end

text \<open>A loop that counts or collects visits at most one entry per key.\<close>

lemma fold_invariant_pred: "(\<And>k s. P s \<Longrightarrow> P (f k s)) \<Longrightarrow> P s \<Longrightarrow> P (fold f ks s)"
  by (induction ks arbitrary: s) simp_all

end
