(* ===== verification/Presence.thy ===== *)
theory Presence
  imports Prelude
begin

text \<open>
  The in-memory presence, session, device and connection collections of a server instance
  (\<open>server/src/lib/state.ts\<close>, record types from \<open>server/src/stores/contracts.ts\<close>).

  \<open>stores\<close> is the part of the \<open>Stores\<close> bundle these helpers use. Each operation takes the bundle and
  returns the changed bundle; where the code returns a value as well, the model returns a pair.
  The clock reading an operation makes is its argument \<open>now\<close> (epoch milliseconds).
\<close>

section \<open>Records\<close>

record session_record =
  ses_id :: string
  ses_user :: string
  ses_device :: string
  ses_platform :: "string option"
  ses_created :: stamp
  ses_expires :: "stamp option"

record device_record =
  d_id :: string
  d_user :: string
  d_platform :: "string option"
  d_session :: "string option"
  d_provider :: "string option"
  d_token :: "string option"
  d_registered :: "stamp option"
  d_unregistered :: "stamp option"
  d_revoked :: "stamp option"
  d_updated :: "stamp option"

record connection =
  cn_user :: string
  cn_socket :: string
  cn_device :: string
  cn_session :: "string option"

record stores =
  sessions :: "(string \<times> session_record) list"
  user_sessions :: "(string \<times> string list) list"
  devices :: "(string \<times> device_record) list"
  user_devices :: "(string \<times> string list) list"
  user_connections :: "(string \<times> (string \<times> connection) list) list"
  user_presence :: "(string \<times> stamp option) list"

definition empty_stores :: stores where
  "empty_stores = \<lparr>sessions = [], user_sessions = [], devices = [], user_devices = [],
     user_connections = [], user_presence = []\<rparr>"

section \<open>Presence\<close>

definition ensurePresenceRecord :: "string \<Rightarrow> stores \<Rightarrow> stores" where
  "ensurePresenceRecord user st =
     (if user = '''' then st
      else case map_of (user_presence st) user of
        None \<Rightarrow> st\<lparr>user_presence := AList.update user None (user_presence st)\<rparr>
      | Some _ \<Rightarrow> st)"

definition set_last_seen :: "string \<Rightarrow> stamp option \<Rightarrow> stores \<Rightarrow> stores" where
  "set_last_seen user seen st =
     (let st1 = ensurePresenceRecord user st
      in if user = '''' then st1
         else st1\<lparr>user_presence := AList.update user seen (user_presence st1)\<rparr>)"

section \<open>Owner indexes\<close>

text \<open>
  \<open>userSessions\<close> and \<open>userDevices\<close> are maps from a user to the set of ids the user owns. Adding
  creates the set on first use; removing drops the user's key with the last id.
\<close>

definition members :: "(string \<times> string list) list \<Rightarrow> string \<Rightarrow> string list" where
  "members idx user = or_empty (map_of idx user)"

definition link_index :: "string \<Rightarrow> string \<Rightarrow> (string \<times> string list) list \<Rightarrow> (string \<times> string list) list" where
  "link_index user x idx = AList.update user (set_add x (members idx user)) idx"

definition unindex :: "string \<Rightarrow> string \<Rightarrow> (string \<times> string list) list \<Rightarrow> (string \<times> string list) list" where
  "unindex user x idx =
     (case map_of idx user of
        None \<Rightarrow> idx
      | Some xs \<Rightarrow>
          (let ys = removeAll x xs
           in if ys = [] then AList.delete user idx else AList.update user ys idx))"

text \<open>
  The contract of an owner index, and what it gives a registry whose entries have one owner each:
  re-homing, enrolling and retiring an entry keep the index exact.
\<close>

locale owner_index =
  fixes owned :: "'i \<Rightarrow> 'u \<Rightarrow> 'x set"
    and link :: "'u \<Rightarrow> 'x \<Rightarrow> 'i \<Rightarrow> 'i"
    and unlink :: "'u \<Rightarrow> 'x \<Rightarrow> 'i \<Rightarrow> 'i"
  assumes owned_link: "owned (link u x i) v = (if v = u then insert x (owned i u) else owned i v)"
    and owned_unlink: "owned (unlink u x i) v = (if v = u then owned i u - {x} else owned i v)"
begin

lemma enrol:
  assumes "\<And>x u. x \<in> owned i u \<longleftrightarrow> owner x = Some u" and "owner y = None \<or> owner y = Some w"
  shows "x \<in> owned (link w y i) u \<longleftrightarrow> (owner(y \<mapsto> w)) x = Some u"
  using assms(2) by (auto simp: owned_link assms(1))

lemma retire:
  assumes "\<And>x u. x \<in> owned i u \<longleftrightarrow> owner x = Some u" and "owner y = Some v"
  shows "x \<in> owned (unlink v y i) u \<longleftrightarrow> (owner(y := None)) x = Some u"
  using assms(2) by (auto simp: owned_unlink assms(1))

lemma rehome:
  assumes "\<And>x u. x \<in> owned i u \<longleftrightarrow> owner x = Some u" and "owner y = Some v"
  shows "x \<in> owned (link w y (unlink v y i)) u \<longleftrightarrow> (owner(y \<mapsto> w)) x = Some u"
  using assms(2) by (auto simp: owned_link owned_unlink assms(1))

end

lemma members_link: "set (members (link_index u x idx) v) = (if v = u then insert x (set (members idx u)) else set (members idx v))"
  by (auto simp: members_def link_index_def split: option.splits)

lemma members_unindex: "set (members (unindex u x idx) v) = (if v = u then set (members idx u) - {x} else set (members idx v))"
  by (auto simp: members_def unindex_def Let_def removeAll_Nil split: option.splits)

interpretation user_index: owner_index "\<lambda>idx u. set (members idx u)" link_index unindex
  by unfold_locales (rule members_link members_unindex)+

text \<open>Both operations keep the keys distinct and leave no empty set behind.\<close>

definition tidy_index :: "(string \<times> string list) list \<Rightarrow> bool" where
  "tidy_index idx = (distinct (map fst idx) \<and> [] \<notin> set (map snd idx))"

lemma tidy_update: "tidy_index idx \<Longrightarrow> xs \<noteq> [] \<Longrightarrow> tidy_index (AList.update u xs idx)"
  using values_update [of u xs idx] by (auto simp: tidy_index_def distinct_update simp del: set_map)

lemma tidy_delete: "tidy_index idx \<Longrightarrow> tidy_index (AList.delete u idx)"
  using values_delete [of u idx] by (auto simp: tidy_index_def distinct_delete simp del: set_map)

lemma tidy_link: "tidy_index idx \<Longrightarrow> tidy_index (link_index u x idx)"
  by (auto simp: link_index_def set_add_def intro!: tidy_update)

lemma tidy_unindex: "tidy_index idx \<Longrightarrow> tidy_index (unindex u x idx)"
  by (auto simp: unindex_def Let_def intro!: tidy_update tidy_delete split: option.splits)

section \<open>Sessions\<close>

definition addSessionToUser :: "session_record \<Rightarrow> stores \<Rightarrow> stores" where
  "addSessionToUser ses st =
     st\<lparr>user_sessions := link_index (ses_user ses) (ses_id ses) (user_sessions st)\<rparr>"

text \<open>\<open>!Number.isFinite(expiresAtMs) || expiresAtMs > now\<close> keeps a session.\<close>

definition session_expiry_ms :: "session_record \<Rightarrow> int option" where
  "session_expiry_ms ses =
     (if stamp_truthy (ses_expires ses) then Option.bind (ses_expires ses) date_parse else None)"

definition session_expired :: "int \<Rightarrow> session_record \<Rightarrow> bool" where
  "session_expired now ses = (case session_expiry_ms ses of None \<Rightarrow> False | Some t \<Rightarrow> t \<le> now)"

definition prune_visit :: "int \<Rightarrow> string \<Rightarrow> stores \<times> nat \<Rightarrow> stores \<times> nat" where
  "prune_visit now sid = (\<lambda>(st, n).
     case map_of (sessions st) sid of
       None \<Rightarrow> (st, n)
     | Some ses \<Rightarrow>
         if session_expired now ses
         then (st\<lparr>sessions := AList.delete sid (sessions st),
                  user_sessions := unindex (ses_user ses) sid (user_sessions st)\<rparr>, Suc n)
         else (st, n))"

definition pruneExpiredSessions :: "int \<Rightarrow> stores \<Rightarrow> stores \<times> nat" where
  "pruneExpiredSessions now st = fold (prune_visit now) (map fst (sessions st)) (st, 0)"

section \<open>Devices\<close>

text \<open>
  The argument of \<open>upsertDevice\<close>: \<open>platform\<close> and \<open>sessionId\<close> go through \<open>??\<close>, so absent and null are
  the same; for the others \<open>None\<close> is "not an own property" and \<open>Some x\<close> the property's value.
\<close>

record device_patch =
  dp_id :: string
  dp_user :: string
  dp_platform :: "string option"
  dp_session :: "string option"
  dp_provider :: "string option option"
  dp_token :: "string option option"
  dp_registered :: "stamp option option"
  dp_unregistered :: "stamp option option"
  dp_revoked :: "stamp option option"

definition findDeviceHoldingToken :: "stores \<Rightarrow> string option \<Rightarrow> string \<Rightarrow> device_record option" where
  "findDeviceHoldingToken st tok except =
     (if \<not> str_truthy tok then None
      else find (\<lambda>d. d_id d \<noteq> except \<and> d_token d = tok) (map snd (devices st)))"

definition unlinkDeviceFromUser :: "string \<Rightarrow> string \<Rightarrow> stores \<Rightarrow> stores" where
  "unlinkDeviceFromUser user dev st = st\<lparr>user_devices := unindex user dev (user_devices st)\<rparr>"

fun own_or :: "'a option option \<Rightarrow> 'a option \<Rightarrow> 'a option" where
  "own_or (Some x) old = x"
| "own_or None old = old"

definition patched_device :: "int \<Rightarrow> device_record option \<Rightarrow> device_patch \<Rightarrow> device_record" where
  "patched_device now old p =
     \<lparr>d_id = dp_id p, d_user = dp_user p,
      d_platform = coalesce (dp_platform p) (Option.bind old d_platform),
      d_session = coalesce (dp_session p) (Option.bind old d_session),
      d_provider = own_or (dp_provider p) (Option.bind old d_provider),
      d_token = own_or (dp_token p) (Option.bind old d_token),
      d_registered = own_or (dp_registered p) (Option.bind old d_registered),
      d_unregistered = own_or (dp_unregistered p) (Option.bind old d_unregistered),
      d_revoked = own_or (dp_revoked p) (Option.bind old d_revoked),
      d_updated = Some (At now)\<rparr>"

definition evict_token :: "int \<Rightarrow> device_record \<Rightarrow> stores \<Rightarrow> stores" where
  "evict_token now dev st =
     (if str_truthy (d_token dev) then
        (case findDeviceHoldingToken st (d_token dev) (d_id dev) of
           None \<Rightarrow> st
         | Some holder \<Rightarrow>
             st\<lparr>devices := AList.map_entry (d_id holder)
                 (\<lambda>h. h\<lparr>d_token := None, d_provider := None, d_updated := Some (At now)\<rparr>) (devices st)\<rparr>)
      else st)"

definition upsertDevice :: "int \<Rightarrow> device_patch \<Rightarrow> stores \<Rightarrow> stores \<times> device_record" where
  "upsertDevice now p st =
     (let old = map_of (devices st) (dp_id p);
          st1 = (case old of
                   Some e \<Rightarrow> if d_user e \<noteq> dp_user p then unlinkDeviceFromUser (d_user e) (d_id e) st else st
                 | None \<Rightarrow> st);
          dev = patched_device now old p;
          st2 = evict_token now dev st1;
          st3 = st2\<lparr>devices := AList.update (d_id dev) dev (devices st2)\<rparr>
      in (st3\<lparr>user_devices := link_index (d_user dev) (d_id dev) (user_devices st3)\<rparr>, dev))"

definition removeDevice :: "string \<Rightarrow> stores \<Rightarrow> stores \<times> bool" where
  "removeDevice dev st =
     (case map_of (devices st) dev of
        None \<Rightarrow> (st, False)
      | Some d \<Rightarrow>
          (unlinkDeviceFromUser (d_user d) dev (st\<lparr>devices := AList.delete dev (devices st)\<rparr>), True))"

section \<open>Connections\<close>

definition connections_of :: "stores \<Rightarrow> string \<Rightarrow> (string \<times> connection) list" where
  "connections_of st user = or_empty (map_of (user_connections st) user)"

definition addConnection :: "connection \<Rightarrow> stores \<Rightarrow> stores" where
  "addConnection cn st =
     set_last_seen (cn_user cn) None
       (st\<lparr>user_connections := AList.update (cn_user cn)
             (AList.update (cn_socket cn) cn (connections_of st (cn_user cn))) (user_connections st)\<rparr>)"

definition removeConnection :: "int \<Rightarrow> string \<Rightarrow> string \<Rightarrow> stores \<Rightarrow> stores" where
  "removeConnection now user socket st =
     (if user = '''' then st
      else case map_of (user_connections st) user of
        None \<Rightarrow> st
      | Some cs \<Rightarrow>
          (let cs' = AList.delete socket cs
           in if cs' = []
              then set_last_seen user (Some (At now))
                     (st\<lparr>user_connections := AList.delete user (user_connections st)\<rparr>)
              else st\<lparr>user_connections := AList.update user cs' (user_connections st)\<rparr>))"

definition drain_visit :: "int \<Rightarrow> string \<Rightarrow> stores \<Rightarrow> stores" where
  "drain_visit now user st =
     set_last_seen user (Some (At now)) (st\<lparr>user_connections := AList.delete user (user_connections st)\<rparr>)"

definition drainLocalPresence :: "int \<Rightarrow> stores \<Rightarrow> stores" where
  "drainLocalPresence now st = fold (drain_visit now) (map fst (user_connections st)) st"

section \<open>Directory and presence snapshots\<close>

record device_snapshot =
  ds_id :: string
  ds_platform :: "string option"
  ds_push :: bool
  ds_connected :: bool

record presence_snapshot =
  ps_user :: string
  ps_online :: bool
  ps_last_seen :: "stamp option"
  ps_active :: nat
  ps_devices :: "device_snapshot list"

definition devices_of :: "stores \<Rightarrow> string \<Rightarrow> string list" where
  "devices_of st user = members (user_devices st) user"

definition connected_device_ids :: "stores \<Rightarrow> string \<Rightarrow> string list" where
  "connected_device_ids st user = uniq (map (cn_device \<circ> snd) (connections_of st user))"

definition push_registered :: "device_record \<Rightarrow> bool" where
  "push_registered d = (str_truthy (d_provider d) \<and> str_truthy (d_token d))"

definition getPresenceSnapshot :: "string \<Rightarrow> stores \<Rightarrow> stores \<times> presence_snapshot" where
  "getPresenceSnapshot user st0 =
     (let st = ensurePresenceRecord user st0;
          conns = connections_of st user;
          online = (conns \<noteq> []);
          connected = connected_device_ids st user
      in (st, \<lparr>ps_user = user, ps_online = online,
               ps_last_seen = (if online then None
                               else case map_of (user_presence st) user of None \<Rightarrow> None | Some x \<Rightarrow> x),
               ps_active = length conns,
               ps_devices = map (\<lambda>did.
                 \<lparr>ds_id = did,
                  ds_platform = Option.bind (map_of (devices st) did) d_platform,
                  ds_push = (case map_of (devices st) did of None \<Rightarrow> False | Some d \<Rightarrow> push_registered d),
                  ds_connected = (did \<in> set connected)\<rparr>) (devices_of st user)\<rparr>))"

definition hasKnownUser :: "stores \<Rightarrow> string \<Rightarrow> bool" where
  "hasKnownUser st user =
     (if user \<in> set (map fst (user_connections st)) \<or> user \<in> set (map fst (user_devices st)) \<or>
         user \<in> set (map fst (user_sessions st)) then True
      else user \<in> set (map fst (user_presence st)))"

definition listKnownUsers :: "stores \<Rightarrow> string list" where
  "listKnownUsers st =
     fold set_add (map fst (user_presence st))
       (fold set_add (map fst (user_connections st))
         (fold set_add (map fst (user_devices st))
           (fold set_add (map fst (user_sessions st)) [])))"

definition deviceFreshnessTimestamp :: "device_record \<Rightarrow> stamp option" where
  "deviceFreshnessTimestamp d = coalesce (d_registered d) (d_updated d)"

definition resolveMaxPushDevicesPerUser :: "int option \<Rightarrow> int \<Rightarrow> int" where
  "resolveMaxPushDevicesPerUser configured dflt =
     (case configured of Some n \<Rightarrow> if 0 < n then n else dflt | None \<Rightarrow> dflt)"

text \<open>An unparseable expiry counts as "not expired" here.\<close>

definition session_keeps_device :: "int \<Rightarrow> device_record \<Rightarrow> session_record \<Rightarrow> bool" where
  "session_keeps_device now d ses =
     (ses_device ses = d_id d \<and> (case session_expiry_ms ses of None \<Rightarrow> True | Some t \<Rightarrow> now < t))"

definition isDeviceInActiveUse :: "int \<Rightarrow> stores \<Rightarrow> device_record \<Rightarrow> bool" where
  "isDeviceInActiveUse now st d =
     ((\<exists>cn \<in> set (map snd (connections_of st (d_user d))). cn_device cn = d_id d) \<or>
      (\<exists>ses \<in> set (map snd (sessions st)). session_keeps_device now d ses))"

record fanout_summary =
  fs_total :: nat
  fs_push :: nat
  fs_users :: nat
  fs_max :: nat
  fs_threshold :: nat
  fs_over :: nat

definition summarizeDeviceFanout :: "nat \<Rightarrow> stores \<Rightarrow> fanout_summary" where
  "summarizeDeviceFanout threshold st =
     (let sizes = map (length \<circ> snd) (user_devices st)
      in \<lparr>fs_total = length (devices st),
          fs_push = length (filter push_registered (map snd (devices st))),
          fs_users = length (user_devices st),
          fs_max = fold (\<lambda>n m. if m < n then n else m) sizes 0,
          fs_threshold = threshold,
          fs_over = length (filter (\<lambda>n. threshold < n) sizes)\<rparr>)"

section \<open>Reachable channels\<close>

datatype channel =
    Websocket string string "string option"   \<comment> \<open>socket, device, session\<close>
  | Push string string string                 \<comment> \<open>device, provider, push token\<close>

text \<open>A push candidate with the timestamp it is ordered by.\<close>

definition push_candidate :: "stores \<Rightarrow> string \<Rightarrow> (channel \<times> stamp option) option" where
  "push_candidate st did =
     (case map_of (devices st) did of
        None \<Rightarrow> None
      | Some d \<Rightarrow>
          (case (d_provider d, d_token d) of
             (Some pr, Some tok) \<Rightarrow>
               if pr = '''' \<or> tok = '''' then None
               else Some (Push did pr tok, deviceFreshnessTimestamp d)
           | _ \<Rightarrow> None))"

text \<open>\<open>bTime - aTime\<close>, where a missing timestamp is 0 and a \<open>NaN\<close> comparison counts as equal.\<close>

definition freshness_ms :: "stamp option \<Rightarrow> int option" where
  "freshness_ms t = (if stamp_truthy t then Option.bind t date_parse else Some 0)"

definition fresher :: "channel \<times> stamp option \<Rightarrow> channel \<times> stamp option \<Rightarrow> int" where
  "fresher a b =
     (case (freshness_ms (snd a), freshness_ms (snd b)) of
        (Some x, Some y) \<Rightarrow> y - x
      | _ \<Rightarrow> 0)"

definition resolveReachableChannels :: "int \<Rightarrow> stores \<Rightarrow> string \<Rightarrow> channel list" where
  "resolveReachableChannels maxPush st user =
     (let sockets = map (\<lambda>cn. Websocket (cn_socket cn) (cn_device cn) (cn_session cn))
                      (map snd (connections_of st user));
          push = sort_cmp fresher (List.map_filter (push_candidate st) (devices_of st user));
          delivered = (if 0 < maxPush then take (nat maxPush) push else push)
      in sockets @ map fst delivered)"

definition is_push_offline :: "string list \<Rightarrow> channel \<Rightarrow> bool" where
  "is_push_offline connected ch =
     (case ch of Push did _ _ \<Rightarrow> did \<notin> set connected | Websocket _ _ _ \<Rightarrow> False)"

definition resolveOfflinePushChannels :: "int \<Rightarrow> stores \<Rightarrow> string \<Rightarrow> channel list" where
  "resolveOfflinePushChannels maxPush st user =
     filter (is_push_offline (connected_device_ids st user)) (resolveReachableChannels maxPush st user)"

section \<open>Device rows and their index\<close>

definition device_owner :: "stores \<Rightarrow> string \<Rightarrow> string option" where
  "device_owner st x = map_option d_user (map_of (devices st) x)"

text \<open>
  What the code relies on: rows are keyed by their id, the user index lists exactly the rows of
  each user and holds no empty set, and no two rows hold the same live push token.
\<close>

definition wf_devices :: "stores \<Rightarrow> bool" where
  "wf_devices st =
     (distinct (map fst (devices st)) \<and> (\<forall>(k, d) \<in> set (devices st). d_id d = k) \<and>
      tidy_index (user_devices st) \<and>
      (\<forall>(u, xs) \<in> set (user_devices st). \<forall>x \<in> set xs. device_owner st x = Some u) \<and>
      (\<forall>(k, d) \<in> set (devices st). k \<in> set (devices_of st (d_user d))) \<and>
      (\<forall>(k, d) \<in> set (devices st). \<forall>(k', d') \<in> set (devices st).
         str_truthy (d_token d) \<and> d_token d = d_token d' \<longrightarrow> k = k'))"

text \<open>The same by lookup.\<close>

lemma ball_map_of:
  "distinct (map fst m) \<Longrightarrow> (\<forall>(k, v) \<in> set m. P k v) \<longleftrightarrow> (\<forall>k v. map_of m k = Some v \<longrightarrow> P k v)"
  by (auto simp: map_of_eq_Some_iff)

lemma in_members: "x \<in> set (members idx u) \<longleftrightarrow> (\<exists>xs. map_of idx u = Some xs \<and> x \<in> set xs)"
  by (cases "map_of idx u") (simp_all add: members_def)

lemma exact_index:
  "tidy_index idx \<Longrightarrow>
     (\<forall>(u, xs) \<in> set idx. \<forall>x \<in> set xs. P x u) \<longleftrightarrow> (\<forall>u x. x \<in> set (members idx u) \<longrightarrow> P x u)"
  unfolding in_members by (simp only: tidy_index_def ball_map_of) blast

lemma wf_devices_iff:
  "wf_devices st \<longleftrightarrow>
     distinct (map fst (devices st)) \<and> (\<forall>k d. map_of (devices st) k = Some d \<longrightarrow> d_id d = k) \<and>
     tidy_index (user_devices st) \<and>
     (\<forall>x u. x \<in> set (devices_of st u) \<longleftrightarrow> device_owner st x = Some u) \<and>
     (\<forall>k d. map_of (devices st) k = Some d \<longrightarrow>
        (\<forall>k' d'. map_of (devices st) k' = Some d' \<longrightarrow>
          str_truthy (d_token d) \<and> d_token d = d_token d' \<longrightarrow> k = k'))"
proof (cases "distinct (map fst (devices st)) \<and> tidy_index (user_devices st)")
  case True
  then have keys: "distinct (map fst (devices st))" and tidy: "tidy_index (user_devices st)"
    by simp_all
  have merged:
    "(\<forall>x u. x \<in> set (devices_of st u) \<longleftrightarrow> device_owner st x = Some u) \<longleftrightarrow>
     (\<forall>u x. x \<in> set (devices_of st u) \<longrightarrow> device_owner st x = Some u) \<and>
     (\<forall>k d. map_of (devices st) k = Some d \<longrightarrow> k \<in> set (devices_of st (d_user d)))"
    by (rule iffI) (simp add: device_owner_def, auto simp: device_owner_def)
  show ?thesis
    unfolding wf_devices_def merged
    unfolding ball_map_of [OF keys] devices_of_def exact_index [OF tidy]
    by (simp only: conj_assoc)
next
  case False
  then show ?thesis by (simp only: wf_devices_def) blast
qed

lemma wf_devicesI:
  assumes "distinct (map fst (devices st))" and "tidy_index (user_devices st)"
    and "\<And>k d. map_of (devices st) k = Some d \<Longrightarrow> d_id d = k"
    and "\<And>x u. x \<in> set (devices_of st u) \<longleftrightarrow> device_owner st x = Some u"
    and "\<And>k d k' d'. map_of (devices st) k = Some d \<Longrightarrow> map_of (devices st) k' = Some d' \<Longrightarrow>
           str_truthy (d_token d) \<Longrightarrow> d_token d = d_token d' \<Longrightarrow> k = k'"
  shows "wf_devices st"
  unfolding wf_devices_iff using assms(1,2)
  by (intro conjI allI impI) (simp_all add: assms(3,4), erule conjE, rule assms(5))

lemma wf_device_key: "wf_devices st \<Longrightarrow> map_of (devices st) k = Some d \<Longrightarrow> d_id d = k"
  and wf_device_owner: "wf_devices st \<Longrightarrow> x \<in> set (devices_of st u) \<longleftrightarrow> device_owner st x = Some u"
  by (simp_all add: wf_devices_iff)

lemma wf_device_token:
  "wf_devices st \<Longrightarrow> map_of (devices st) k = Some d \<Longrightarrow> map_of (devices st) k' = Some d' \<Longrightarrow>
     str_truthy (d_token d) \<Longrightarrow> d_token d = d_token d' \<Longrightarrow> k = k'"
  by (simp only: wf_devices_iff)

definition cleared :: "int \<Rightarrow> device_record \<Rightarrow> device_record" where
  "cleared now d = d\<lparr>d_token := None, d_provider := None, d_updated := Some (At now)\<rparr>"

lemma cleared_simps [simp]:
  "d_id (cleared now d) = d_id d" "d_user (cleared now d) = d_user d" "d_token (cleared now d) = None"
  by (simp_all add: cleared_def)

lemma cleared_fixed: "cleared now d = d \<Longrightarrow> d_token d = None"
  by (metis cleared_simps(3))

text \<open>With unique tokens, clearing the one holder found clears the token everywhere else.\<close>

lemma evict_lookup:
  assumes "wf_devices st"
  shows "map_of (devices (evict_token now dev st)) k =
    map_option (\<lambda>d. if str_truthy (d_token dev) \<and> k \<noteq> d_id dev \<and> d_token d = d_token dev
                     then cleared now d else d) (map_of (devices st) k)"
proof (cases "if str_truthy (d_token dev) then findDeviceHoldingToken st (d_token dev) (d_id dev) else None")
  case None
  have none: "map_of (devices st) k = Some d \<Longrightarrow> str_truthy (d_token dev) \<Longrightarrow> k \<noteq> d_id dev \<Longrightarrow> d_token d \<noteq> d_token dev" for d
    using None assms map_of_values [of "devices st" k d]
    by (auto simp: findDeviceHoldingToken_def find_None_iff wf_devices_iff split: if_splits)
  have "evict_token now dev st = st"
    using None by (auto simp: evict_token_def)
  then show ?thesis using none by (cases "map_of (devices st) k") auto
next
  case (Some h)
  then have tok: "str_truthy (d_token dev)" and h: "d_id h \<noteq> d_id dev" "d_token h = d_token dev"
    and "h \<in> set (map snd (devices st))"
    by (auto simp: findDeviceHoldingToken_def simp del: set_map split: if_splits dest: find_SomeD)
  then have hk: "map_of (devices st) (d_id h) = Some h"
    using assms map_of_valuesD [of h "devices st"] unfolding wf_devices_iff by (metis (no_types))
  have uniq: "map_of (devices st) k = Some d \<Longrightarrow> d_token d = d_token dev \<Longrightarrow> k = d_id h" for d
    using assms hk h tok unfolding wf_devices_iff by (metis (no_types))
  have ev: "evict_token now dev st = st\<lparr>devices := AList.map_entry (d_id h) (cleared now) (devices st)\<rparr>"
    using Some tok by (simp add: evict_token_def cleared_def [abs_def])
  show ?thesis
    using hk h tok uniq by (cases "map_of (devices st) k") (auto simp: ev)
qed

lemma evict_frame [registry_frame]:
  "user_devices (evict_token now dev st) = user_devices st"
  "user_connections (evict_token now dev st) = user_connections st"
  "map fst (devices (evict_token now dev st)) = map fst (devices st)"
  by (simp_all add: evict_token_def split: option.splits)

lemma upsert_devices:
  assumes "wf_devices st"
  shows "map_of (devices (fst (upsertDevice now p st))) k =
    (let dev = patched_device now (map_of (devices st) (dp_id p)) p
     in if k = dp_id p then Some dev
        else map_option (\<lambda>d. if str_truthy (d_token dev) \<and> d_token d = d_token dev
                              then cleared now d else d) (map_of (devices st) k))"
proof -
  have ev: "devices (evict_token now dev (unlinkDeviceFromUser u i st)) = devices (evict_token now dev st)" for dev u i
    by (simp add: evict_token_def findDeviceHoldingToken_def unlinkDeviceFromUser_def split: option.splits)
  have "d_id (patched_device now old p) = dp_id p" for old
    by (simp add: patched_device_def)
  then show ?thesis
    using evict_lookup [OF assms, of now "patched_device now (map_of (devices st) (dp_id p)) p" k]
    by (auto simp: upsertDevice_def Let_def ev split: option.splits)
qed

lemma upsert_index:
  "user_devices (fst (upsertDevice now p st)) =
     link_index (dp_user p) (dp_id p)
       (case map_of (devices st) (dp_id p) of
          Some e \<Rightarrow> if d_user e \<noteq> dp_user p then unindex (d_user e) (d_id e) (user_devices st) else user_devices st
        | None \<Rightarrow> user_devices st)"
  by (simp add: upsertDevice_def Let_def patched_device_def registry_frame unlinkDeviceFromUser_def split: option.splits)

lemma upsert_keys: "wf_devices st \<Longrightarrow> distinct (map fst (devices (fst (upsertDevice now p st))))"
  by (simp add: upsertDevice_def Let_def distinct_update registry_frame unlinkDeviceFromUser_def
      wf_devices_def split: option.splits)

lemma upsert_owner:
  "wf_devices st \<Longrightarrow> device_owner (fst (upsertDevice now p st)) = (device_owner st)(dp_id p \<mapsto> dp_user p)"
  by (rule ext) (auto simp: device_owner_def upsert_devices Let_def patched_device_def option.map_comp comp_def
      intro!: arg_cong [of _ _ "\<lambda>f. map_option f _"])

lemma upsert_index_exact:
  assumes "wf_devices st"
  shows "x \<in> set (devices_of (fst (upsertDevice now p st)) u)
    \<longleftrightarrow> device_owner (fst (upsertDevice now p st)) x = Some u"
proof -
  have exact: "\<And>x u. x \<in> set (members (user_devices st) u) \<longleftrightarrow> device_owner st x = Some u"
    and key: "\<And>k d. map_of (devices st) k = Some d \<Longrightarrow> d_id d = k"
    using assms by (simp_all add: wf_devices_iff devices_of_def)
  show ?thesis
  proof (cases "device_owner st (dp_id p) = None \<or> device_owner st (dp_id p) = Some (dp_user p)")
    case True
    then have "user_devices (fst (upsertDevice now p st)) = link_index (dp_user p) (dp_id p) (user_devices st)"
      by (auto simp: upsert_index device_owner_def)
    then show ?thesis
      using user_index.enrol [OF exact True] by (simp add: devices_of_def upsert_owner [OF assms])
  next
    case False
    then obtain e where e: "map_of (devices st) (dp_id p) = Some e" "d_user e \<noteq> dp_user p"
      by (auto simp: device_owner_def)
    then have "device_owner st (dp_id p) = Some (d_user e)"
      by (simp add: device_owner_def)
    from user_index.rehome [OF exact this] e key [OF e(1)] show ?thesis
      by (simp add: devices_of_def upsert_index upsert_owner [OF assms])
  qed
qed

lemma upsert_wf:
  assumes "wf_devices st"
  shows "wf_devices (fst (upsertDevice now p st))"
proof -
  let ?st = "fst (upsertDevice now p st)"
  have tidy: "tidy_index (user_devices ?st)"
    using assms unfolding upsert_index wf_devices_def
    by (auto intro!: tidy_link tidy_unindex split: option.splits)
  have key: "map_of (devices ?st) k = Some d \<Longrightarrow> d_id d = k" for k d
    using assms by (auto simp: upsert_devices Let_def patched_device_def wf_devices_iff split: if_splits)
  have tok: "map_of (devices ?st) k = Some d \<Longrightarrow> map_of (devices ?st) k' = Some d' \<Longrightarrow>
      str_truthy (d_token d) \<Longrightarrow> d_token d = d_token d' \<Longrightarrow> k = k'" for k k' d d'
    using assms unfolding wf_devices_iff upsert_devices [OF assms]
    by (auto simp: Let_def split: if_splits dest: cleared_fixed)
  show ?thesis
    unfolding wf_devices_iff
    using tidy key tok upsert_keys [OF assms] upsert_index_exact [OF assms] by blast
qed

lemma remove_wf:
  assumes "wf_devices st"
  shows "wf_devices (fst (removeDevice dev st))"
proof (cases "map_of (devices st) dev")
  case None
  with assms show ?thesis by (simp add: removeDevice_def)
next
  case (Some d)
  let ?st = "fst (removeDevice dev st)"
  have exact: "\<And>x u. x \<in> set (members (user_devices st) u) \<longleftrightarrow> device_owner st x = Some u"
    using assms by (simp add: wf_devices_iff devices_of_def)
  have st: "devices ?st = AList.delete dev (devices st)" "user_devices ?st = unindex (d_user d) dev (user_devices st)"
    using Some by (simp_all add: removeDevice_def unlinkDeviceFromUser_def)
  have owner: "device_owner ?st = (device_owner st)(dev := None)"
    by (rule ext) (simp add: device_owner_def st)
  have "device_owner st dev = Some (d_user d)"
    using Some by (simp add: device_owner_def)
  from user_index.retire [OF exact this]
  have index: "x \<in> set (devices_of ?st u) \<longleftrightarrow> device_owner ?st x = Some u" for x u
    by (simp add: devices_of_def st owner)
  have rows: "map_of (devices ?st) k = Some e \<Longrightarrow> map_of (devices st) k = Some e" for k e
    by (simp add: st split: if_splits)
  have tidy: "tidy_index (user_devices ?st)" and keys: "distinct (map fst (devices ?st))"
    using assms by (simp_all add: st distinct_delete tidy_unindex wf_devices_def)
  show ?thesis
    by (rule wf_devicesI [OF keys tidy _ index])
      (blast intro: wf_device_key [OF assms] wf_device_token [OF assms] dest: rows)+
qed

lemma wf_devices_empty: "wf_devices empty_stores"
  by (simp add: wf_devices_def empty_stores_def tidy_index_def)

section \<open>Live connections\<close>

text \<open>
  A user's key is in \<open>userConnections\<close> only while the user has a socket, and a user with a socket has
  a presence record without \<open>lastSeen\<close>.
\<close>

definition wf_connections :: "stores \<Rightarrow> bool" where
  "wf_connections st =
     (distinct (map fst (user_connections st)) \<and>
      (\<forall>(u, cs) \<in> set (user_connections st). cs \<noteq> [] \<and> distinct (map fst cs) \<and> u \<noteq> '''' \<and>
         map_of (user_presence st) u = Some None))"

lemma wf_connections_iff:
  "wf_connections st \<longleftrightarrow> distinct (map fst (user_connections st)) \<and>
     (\<forall>u cs. map_of (user_connections st) u = Some cs \<longrightarrow>
        cs \<noteq> [] \<and> distinct (map fst cs) \<and> u \<noteq> '''' \<and> map_of (user_presence st) u = Some None)"
  unfolding wf_connections_def by (rule conj_cong [OF refl]) (simp only: ball_map_of)

lemma wf_connectionsI:
  assumes "distinct (map fst (user_connections st))"
    and "\<And>u cs. map_of (user_connections st) u = Some cs \<Longrightarrow>
        cs \<noteq> [] \<and> distinct (map fst cs) \<and> u \<noteq> '''' \<and> map_of (user_presence st) u = Some None"
  shows "wf_connections st"
  using assms unfolding wf_connections_iff by blast

lemma wf_connectionsD:
  assumes "wf_connections st" and "map_of (user_connections st) u = Some cs"
  shows "cs \<noteq> []" and "distinct (map fst cs)" and "u \<noteq> ''''" and "map_of (user_presence st) u = Some None"
  using assms unfolding wf_connections_iff by blast+

lemma update_not_Nil [simp]: "AList.update k v m \<noteq> []"
  by (cases m) auto

lemma set_last_seen_lookup:
  "map_of (user_presence (set_last_seen u t st)) v =
     (if u = '''' then map_of (user_presence st) v else if v = u then Some t else map_of (user_presence st) v)"
  by (auto simp: set_last_seen_def ensurePresenceRecord_def Let_def split: option.splits)

lemma set_last_seen_frame [registry_frame]:
  "user_connections (set_last_seen u t st) = user_connections st"
  "devices (set_last_seen u t st) = devices st"
  "user_devices (set_last_seen u t st) = user_devices st"
  by (simp_all add: set_last_seen_def ensurePresenceRecord_def Let_def split: option.splits)

lemma addConnection_wf:
  assumes "wf_connections st" and "cn_user cn \<noteq> ''''"
  shows "wf_connections (addConnection cn st)"
proof -
  have cs: "distinct (map fst (connections_of st (cn_user cn)))"
    by (cases "map_of (user_connections st) (cn_user cn)")
      (simp_all add: connections_of_def wf_connectionsD [OF assms(1)])
  show ?thesis
  proof (rule wf_connectionsI)
    show "distinct (map fst (user_connections (addConnection cn st)))"
      using assms(1) by (simp add: addConnection_def registry_frame distinct_update wf_connections_def)
  qed (auto simp: addConnection_def registry_frame set_last_seen_lookup distinct_update cs assms(2)
      wf_connectionsD [OF assms(1)] split: if_splits)
qed

lemma removeConnection_wf:
  assumes "wf_connections st"
  shows "wf_connections (removeConnection now u sk st)"
proof (rule wf_connectionsI)
  show "distinct (map fst (user_connections (removeConnection now u sk st)))"
    using assms by (auto simp: removeConnection_def registry_frame distinct_update distinct_delete
        wf_connections_def Let_def split: option.splits)
qed (auto simp: removeConnection_def registry_frame set_last_seen_lookup distinct_delete Let_def
    wf_connectionsD [OF assms] split: option.splits if_splits)

section \<open>Session pruning\<close>

definition session_owner :: "stores \<Rightarrow> string \<Rightarrow> string option" where
  "session_owner st x = map_option ses_user (map_of (sessions st) x)"

text \<open>The session index lists exactly the sessions of each user.\<close>

definition wf_sessions :: "stores \<Rightarrow> bool" where
  "wf_sessions st =
     (distinct (map fst (sessions st)) \<and> tidy_index (user_sessions st) \<and>
      (\<forall>(u, xs) \<in> set (user_sessions st). \<forall>x \<in> set xs. session_owner st x = Some u) \<and>
      (\<forall>(k, s) \<in> set (sessions st). k \<in> set (members (user_sessions st) (ses_user s))))"

lemma wf_sessions_iff:
  "wf_sessions st \<longleftrightarrow> distinct (map fst (sessions st)) \<and> tidy_index (user_sessions st) \<and>
     (\<forall>x u. x \<in> set (members (user_sessions st) u) \<longleftrightarrow> session_owner st x = Some u)"
proof (cases "distinct (map fst (sessions st)) \<and> tidy_index (user_sessions st)")
  case True
  then have keys: "distinct (map fst (sessions st))" and tidy: "tidy_index (user_sessions st)"
    by simp_all
  have merged:
    "(\<forall>x u. x \<in> set (members (user_sessions st) u) \<longleftrightarrow> session_owner st x = Some u) \<longleftrightarrow>
     (\<forall>u x. x \<in> set (members (user_sessions st) u) \<longrightarrow> session_owner st x = Some u) \<and>
     (\<forall>k s. map_of (sessions st) k = Some s \<longrightarrow> k \<in> set (members (user_sessions st) (ses_user s)))"
    by (rule iffI) (simp add: session_owner_def, auto simp: session_owner_def)
  show ?thesis
    unfolding wf_sessions_def merged
    unfolding ball_map_of [OF keys] exact_index [OF tidy] by (simp only: conj_assoc)
next
  case False
  then show ?thesis by (simp only: wf_sessions_def) blast
qed

interpretation session_sweep:
  keyed_sweep "\<lambda>_. True" "\<lambda>sn. map_of (sessions (fst sn))" "\<lambda>_. ()" "prune_visit now" for now
  by unfold_locales (auto simp: prune_visit_def split: option.splits prod.splits)

lemma prune_lookup:
  assumes "distinct (map fst (sessions st))"
  shows "map_of (sessions (fst (pruneExpiredSessions now st))) k =
    (case map_of (sessions st) k of
       None \<Rightarrow> None | Some ses \<Rightarrow> if session_expired now ses then None else Some ses)"
proof (cases "k \<in> set (map fst (sessions st))")
  case True
  then have "map_of (sessions (fst (fold (prune_visit now) (map fst (sessions st)) (st, 0)))) k =
      map_of (sessions (fst (prune_visit now k (st, 0)))) k"
    by (rule session_sweep.sweep_inside [OF TrueI assms])
  then show ?thesis
    by (simp add: pruneExpiredSessions_def prune_visit_def split: option.split)
next
  case False
  then have "map_of (sessions st) k = None" by (simp add: map_of_eq_None_iff)
  then show ?thesis
    using session_sweep.sweep_outside [OF TrueI False, of now "(st, 0)"] by (simp add: pruneExpiredSessions_def)
qed

lemma prune_visit_wf: "wf_sessions (fst sn) \<Longrightarrow> wf_sessions (fst (prune_visit now sid sn))"
proof (cases sn)
  case (Pair st n)
  assume "wf_sessions (fst sn)"
  then have wf: "wf_sessions st" by (simp add: Pair)
  show ?thesis
  proof (cases "\<exists>ses. map_of (sessions st) sid = Some ses \<and> session_expired now ses")
    case True
    then obtain ses where ses: "map_of (sessions st) sid = Some ses" "session_expired now ses" by blast
    then have owner: "session_owner st sid = Some (ses_user ses)" by (simp add: session_owner_def)
    have exact: "\<And>x u. x \<in> set (members (user_sessions st) u) \<longleftrightarrow> session_owner st x = Some u"
      using wf by (simp add: wf_sessions_iff)
    let ?st = "fst (prune_visit now sid sn)"
    have st: "sessions ?st = AList.delete sid (sessions st)"
      "user_sessions ?st = unindex (ses_user ses) sid (user_sessions st)"
      using ses by (simp_all add: Pair prune_visit_def)
    have own: "session_owner ?st = (session_owner st)(sid := None)"
      by (rule ext) (simp add: session_owner_def st)
    show ?thesis
      using wf user_index.retire [OF exact owner]
      by (simp add: wf_sessions_iff st own distinct_delete tidy_unindex)
  next
    case False
    then have "prune_visit now sid sn = sn"
      by (auto simp: Pair prune_visit_def split: option.split)
    with wf show ?thesis by (simp add: Pair)
  qed
qed

lemma prune_wf: "wf_sessions st \<Longrightarrow> wf_sessions (fst (pruneExpiredSessions now st))"
proof -
  have "wf_sessions (fst sn) \<Longrightarrow> wf_sessions (fst (fold (prune_visit now) ks sn))" for ks sn
    by (induction ks arbitrary: sn) (simp_all add: prune_visit_wf)
  then show "wf_sessions st \<Longrightarrow> ?thesis" by (simp add: pruneExpiredSessions_def)
qed

lemma prune_count_fold:
  "distinct ks \<Longrightarrow> snd (fold (prune_visit now) ks (st, n)) =
     n + length (filter (\<lambda>k. \<exists>ses. map_of (sessions st) k = Some ses \<and> session_expired now ses) ks)"
proof (induction ks arbitrary: st n)
  case Nil
  then show ?case by simp
next
  case (Cons a ks)
  have "filter (\<lambda>k. \<exists>ses. map_of (AList.delete a (sessions st)) k = Some ses \<and> session_expired now ses) ks
      = filter (\<lambda>k. \<exists>ses. map_of (sessions st) k = Some ses \<and> session_expired now ses) ks"
    using Cons.prems by (intro filter_cong) auto
  with Cons show ?case by (auto simp: prune_visit_def split: option.splits)
qed

section \<open>Channel resolution\<close>

lemma push_candidate_Some:
  "push_candidate st did = Some (ch, t) \<longleftrightarrow>
     (\<exists>d pr tok. map_of (devices st) did = Some d \<and> d_provider d = Some pr \<and> d_token d = Some tok \<and>
        pr \<noteq> '''' \<and> tok \<noteq> '''' \<and> ch = Push did pr tok \<and> t = deviceFreshnessTimestamp d)"
  by (auto simp: push_candidate_def split: option.splits)

lemma set_map_filter: "set (List.map_filter f xs) = {y. \<exists>x \<in> set xs. f x = Some y}"
  by (induction xs) (auto simp: List.map_filter_def)

lemma length_map_filter_le: "length (List.map_filter f xs) \<le> length xs"
  by (simp add: List.map_filter_def)

text \<open>Every channel resolved names a device of the user with a provider and a token.\<close>

lemma push_channel_sound:
  assumes "Push did pr tok \<in> set (resolveReachableChannels m st u)"
  shows "did \<in> set (devices_of st u) \<and> pr \<noteq> '''' \<and> tok \<noteq> '''' \<and>
    (\<exists>d. map_of (devices st) did = Some d \<and> d_provider d = Some pr \<and> d_token d = Some tok)"
proof -
  let ?cands = "List.map_filter (push_candidate st) (devices_of st u)"
  have "Push did pr tok \<in> fst ` set (sort_cmp fresher ?cands)"
    using assms set_take_subset [of "nat m" "sort_cmp fresher ?cands"]
    by (auto simp: resolveReachableChannels_def Let_def simp del: set_sort_cmp split: if_splits)
  then obtain t where "(Push did pr tok, t) \<in> set ?cands" by auto
  then show ?thesis by (auto simp: set_map_filter push_candidate_Some)
qed

end
