(* ===== verification/CallState.thy ===== *)
theory CallState
  imports Presence
begin

text \<open>
  The call record, the state of one server instance and the constants of the call lifecycle
  (\<open>server/src/stores/contracts.ts\<close>, \<open>server/src/config.ts\<close>, \<open>shared/signaling/timing.ts\<close>).

  \<open>server_state\<close> is the part of \<open>ServerState\<close> the call domain reads and writes. Its last two fields
  record the environment: \<open>uuid_count\<close> is how many \<open>randomUUID\<close> values have been drawn, and \<open>outbox\<close>
  lists, in order, the effects the code fires without waiting for them (database writes, cache
  invalidations, writes to the shared store, telemetry, callbacks).
\<close>

section \<open>Call records\<close>

text \<open>\<open>status\<close> is a plain string in the code: a row from the database may hold any text.\<close>

datatype call_status =
    Ringing | Accepted | Connecting_Media | In_Call
  | Ended | Declined | Missed | Busy | Unreachable
  | Other_Status string

fun status_text :: "call_status \<Rightarrow> string" where
  "status_text Ringing = ''ringing''"
| "status_text Accepted = ''accepted''"
| "status_text Connecting_Media = ''connecting_media''"
| "status_text In_Call = ''in_call''"
| "status_text Ended = ''ended''"
| "status_text Declined = ''declined''"
| "status_text Missed = ''missed''"
| "status_text Busy = ''busy''"
| "status_text Unreachable = ''unreachable''"
| "status_text (Other_Status s) = s"

datatype participant_state =
  P_Invited | P_Ringing | P_Joined | P_Left | P_Declined | P_Missed | P_Busy | P_Unreachable

fun participant_text :: "participant_state \<Rightarrow> string" where
  "participant_text P_Invited = ''invited''"
| "participant_text P_Ringing = ''ringing''"
| "participant_text P_Joined = ''joined''"
| "participant_text P_Left = ''left''"
| "participant_text P_Declined = ''declined''"
| "participant_text P_Missed = ''missed''"
| "participant_text P_Busy = ''busy''"
| "participant_text P_Unreachable = ''unreachable''"

datatype media_type = Audio | Video

record participant =
  p_user :: string
  p_state :: participant_state
  p_ring_timeout :: "stamp option"
  p_joined :: "stamp option"
  p_left :: "stamp option"
  p_device :: "string option"

record call_record =
  c_id :: string
  c_media :: "media_type option"
  c_caller :: string
  c_callee :: string
  c_parts :: "participant list option"
  c_status :: call_status
  c_end_reason :: "string option"
  c_duration :: "int option"
  c_created :: stamp
  c_updated :: "stamp option"
  c_missed_read :: "stamp option"
  c_ring_timeout :: "stamp option"
  c_answered :: "stamp option"
  c_heartbeat :: "stamp option"
  c_caller_device :: "string option"
  c_callee_device :: "string option"

record call_event =
  ev_id :: string
  ev_call :: string
  ev_event :: string
  ev_actor :: "string option"
  ev_reason :: "string option"
  ev_timestamp :: stamp

record rtc_signal =
  sg_event :: string
  sg_data_key :: string
  sg_from :: string
  sg_to :: string
  sg_value :: string

section \<open>Server state\<close>

datatype effect =
    Invalidate_History "string list"                  \<comment> \<open>\<open>invalidateCallHistoryCache\<close>, truthy ids only\<close>
  | Persist_Call call_record                          \<comment> \<open>\<open>persistCallRecord\<close>\<close>
  | Persist_Event call_event                          \<comment> \<open>\<open>persistCallEvent\<close>\<close>
  | Mirror_Call call_record                           \<comment> \<open>\<open>state.callState.save\<close>, not awaited\<close>
  | Record_Transition call_record call_status         \<comment> \<open>\<open>telemetry.recordCallTransition\<close>\<close>
  | Notify_Transition call_record call_status string  \<comment> \<open>\<open>onTransition(call, previous, reason)\<close>\<close>
  | Notify_Ring_Timeout call_record string            \<comment> \<open>\<open>onParticipantTimeout(call, user)\<close>\<close>
  | Buffer_Outcome string nat                         \<comment> \<open>\<open>telemetry.recordRtcBufferOutcome\<close>\<close>
  | Relay_Signal string string rtc_signal             \<comment> \<open>\<open>emitVersionedRtcSignal\<close> to a user, about a call\<close>

record server_state =
  stores :: stores
  calls :: "(string \<times> call_record) list"
  call_events :: "(string \<times> call_event list) list"
  message_bus :: bool
  has_db :: bool
  has_cache :: bool
  call_state :: bool
  synced_at :: "(string \<times> int) list"
  pending_rtc :: "(string \<times> rtc_signal list) list"
  uuid_count :: nat
  outbox :: "effect list"

text \<open>
  What one operation reads of its surroundings: the clock (one reading per operation), the
  \<open>randomUUID\<close> stream and \<open>MAX_PUSH_DEVICES_PER_USER\<close> as resolved.
\<close>

record env =
  now :: int
  uuid :: "nat \<Rightarrow> string"
  max_push :: int

definition initial_state :: "bool \<Rightarrow> bool \<Rightarrow> bool \<Rightarrow> bool \<Rightarrow> server_state" where
  "initial_state bus db cache shared =
     \<lparr>stores = empty_stores, calls = [], call_events = [], message_bus = bus, has_db = db,
      has_cache = cache, call_state = shared, synced_at = [], pending_rtc = [], uuid_count = 0,
      outbox = []\<rparr>"

definition get_call :: "server_state \<Rightarrow> string \<Rightarrow> call_record option" where
  "get_call s k = map_of (calls s) k"

text \<open>
  A record taken from \<open>state.calls\<close> is the map's own object: assigning to its fields changes the
  entry. \<open>store_call\<close> writes the changed record back at its id and adds no entry.
\<close>

definition store_call :: "call_record \<Rightarrow> server_state \<Rightarrow> server_state" where
  "store_call c s = s\<lparr>calls := AList.map_entry (c_id c) (\<lambda>_. c) (calls s)\<rparr>"

definition put_call :: "call_record \<Rightarrow> server_state \<Rightarrow> server_state" where
  "put_call c s = s\<lparr>calls := AList.update (c_id c) c (calls s)\<rparr>"

definition emit :: "effect list \<Rightarrow> server_state \<Rightarrow> server_state" where
  "emit es s = s\<lparr>outbox := outbox s @ es\<rparr>"

section \<open>Constants\<close>

definition TERMINAL_CALL_STATES :: "call_status list" where
  "TERMINAL_CALL_STATES = [Ended, Declined, Missed, Busy, Unreachable]"

fun CALL_TRANSITIONS :: "call_status \<Rightarrow> call_status list" where
  "CALL_TRANSITIONS Ringing = [Accepted, Declined, Missed, Busy, Unreachable, Ended]"
| "CALL_TRANSITIONS Accepted = [Connecting_Media, In_Call, Ended]"
| "CALL_TRANSITIONS Connecting_Media = [In_Call, Ended]"
| "CALL_TRANSITIONS In_Call = [Ended]"
| "CALL_TRANSITIONS _ = []"

definition RTC_ACTIVE_CALL_STATES :: "call_status list" where
  "RTC_ACTIVE_CALL_STATES = [Accepted, Connecting_Media, In_Call]"

definition DEFAULT_CALL_STATE_FRESHNESS_MS :: int where
  "DEFAULT_CALL_STATE_FRESHNESS_MS = 1000"

definition MAX_BUFFERED_RTC_SIGNALS_PER_CALL :: nat where
  "MAX_BUFFERED_RTC_SIGNALS_PER_CALL = 32"

definition DEFAULT_CALL_RETENTION_MS :: int where
  "DEFAULT_CALL_RETENTION_MS = 24 * 60 * 60 * 1000"

definition DEFAULT_MAX_RETAINED_CALLS :: int where
  "DEFAULT_MAX_RETAINED_CALLS = 500"

definition CALL_HEARTBEAT_INTERVAL_MS :: int where "CALL_HEARTBEAT_INTERVAL_MS = 30000"
definition CALL_HEARTBEAT_MISSED_BEAT_ALLOWANCE :: int where "CALL_HEARTBEAT_MISSED_BEAT_ALLOWANCE = 5"

definition DEFAULT_CALL_HEARTBEAT_TIMEOUT_MS :: int where
  "DEFAULT_CALL_HEARTBEAT_TIMEOUT_MS = CALL_HEARTBEAT_INTERVAL_MS * CALL_HEARTBEAT_MISSED_BEAT_ALLOWANCE"

definition CALL_RECOVERY_BUDGET_MS :: int where "CALL_RECOVERY_BUDGET_MS = 30000"
definition CALL_RECOVERY_MAX_EPISODE_MS :: int where
  "CALL_RECOVERY_MAX_EPISODE_MS = CALL_RECOVERY_BUDGET_MS * 3"
definition PARTICIPANT_DISCONNECT_DETECTION_ALLOWANCE_MS :: int where
  "PARTICIPANT_DISCONNECT_DETECTION_ALLOWANCE_MS = 20000"
definition DEFAULT_PARTICIPANT_DISCONNECT_GRACE_MS :: int where
  "DEFAULT_PARTICIPANT_DISCONNECT_GRACE_MS =
     CALL_RECOVERY_BUDGET_MS + PARTICIPANT_DISCONNECT_DETECTION_ALLOWANCE_MS"

text \<open>The timeout windows of \<open>getCallExpiry\<close>.\<close>

record timeouts =
  ringing_ms :: int
  media_ms :: int
  max_duration_ms :: int
  heartbeat_ms :: int

definition default_timeouts :: timeouts where
  "default_timeouts = \<lparr>ringing_ms = 120000, media_ms = 90000, max_duration_ms = 4 * 60 * 60 * 1000,
     heartbeat_ms = DEFAULT_CALL_HEARTBEAT_TIMEOUT_MS\<rparr>"

abbreviation terminal :: "call_status \<Rightarrow> bool" where
  "terminal st \<equiv> st \<in> set TERMINAL_CALL_STATES"

lemma terminal_iff:
  "terminal st \<longleftrightarrow> st = Ended \<or> st = Declined \<or> st = Missed \<or> st = Busy \<or> st = Unreachable"
  by (simp add: TERMINAL_CALL_STATES_def)

lemma terminal_simps [simp]:
  "terminal Ended" "terminal Declined" "terminal Missed" "terminal Busy" "terminal Unreachable"
  "\<not> terminal Ringing" "\<not> terminal Accepted" "\<not> terminal Connecting_Media" "\<not> terminal In_Call"
  by (simp_all add: terminal_iff)

section \<open>Frame\<close>

lemma emit_frame [simp]:
  "stores (emit es s) = stores s" "calls (emit es s) = calls s" "call_events (emit es s) = call_events s"
  "message_bus (emit es s) = message_bus s" "has_db (emit es s) = has_db s"
  "has_cache (emit es s) = has_cache s" "call_state (emit es s) = call_state s"
  "synced_at (emit es s) = synced_at s" "pending_rtc (emit es s) = pending_rtc s"
  "uuid_count (emit es s) = uuid_count s" "outbox (emit es s) = outbox s @ es"
  "get_call (emit es s) = get_call s"
  by (simp_all add: emit_def get_call_def [abs_def])

lemma store_call_frame [simp]:
  "stores (store_call c s) = stores s" "call_events (store_call c s) = call_events s"
  "message_bus (store_call c s) = message_bus s" "has_db (store_call c s) = has_db s"
  "has_cache (store_call c s) = has_cache s" "call_state (store_call c s) = call_state s"
  "synced_at (store_call c s) = synced_at s" "pending_rtc (store_call c s) = pending_rtc s"
  "uuid_count (store_call c s) = uuid_count s" "outbox (store_call c s) = outbox s"
  "map fst (calls (store_call c s)) = map fst (calls s)"
  by (simp_all add: store_call_def)

lemma put_call_frame [simp]:
  "stores (put_call c s) = stores s" "call_events (put_call c s) = call_events s"
  "message_bus (put_call c s) = message_bus s" "has_db (put_call c s) = has_db s"
  "has_cache (put_call c s) = has_cache s" "call_state (put_call c s) = call_state s"
  "synced_at (put_call c s) = synced_at s" "pending_rtc (put_call c s) = pending_rtc s"
  "uuid_count (put_call c s) = uuid_count s" "outbox (put_call c s) = outbox s"
  by (simp_all add: put_call_def)

lemma get_store_call [simp]:
  "get_call (store_call c s) k = (if k = c_id c then map_option (\<lambda>_. c) (get_call s k) else get_call s k)"
  by (simp add: store_call_def get_call_def)

lemma get_put_call [simp]: "get_call (put_call c s) k = (if k = c_id c then Some c else get_call s k)"
  by (simp add: put_call_def get_call_def)

lemma get_call_field [simp]:
  "get_call (s\<lparr>stores := x\<rparr>) = get_call s" "get_call (s\<lparr>call_events := y\<rparr>) = get_call s"
  "get_call (s\<lparr>synced_at := z\<rparr>) = get_call s" "get_call (s\<lparr>pending_rtc := r\<rparr>) = get_call s"
  "get_call (s\<lparr>uuid_count := n\<rparr>) = get_call s" "get_call (s\<lparr>outbox := es\<rparr>) = get_call s"
  by (simp_all add: get_call_def [abs_def])

end
