(* ===== verification/Calls.thy ===== *)
theory Calls
  imports CallState
begin

text \<open>
  The call lifecycle domain, \<open>server/src/domain/calls.ts\<close>: creating call records, the transition
  table, participants, and the reads other components decide by. The sweeps over all calls are in
  theory \<open>CallSweeps\<close>.

  A function that mutates the shared \<open>state\<close> returns the changed state; \<open>e\<close> is what it reads of its
  environment. A refusal is a \<open>call_failure\<close>, the exception of \<open>createCallRecord\<close> an \<open>Inl\<close>.
\<close>

section \<open>Reading a record\<close>

definition toTimestamp :: "stamp option \<Rightarrow> int \<Rightarrow> int" where
  "toTimestamp v fallback =
     (if stamp_truthy v
      then (case Option.bind v date_parse of Some t \<Rightarrow> t | None \<Rightarrow> fallback)
      else fallback)"

definition active_state :: "participant_state \<Rightarrow> bool" where
  "active_state ps \<longleftrightarrow> ps = P_Joined \<or> ps = P_Ringing \<or> ps = P_Invited"

definition find_participant :: "call_record \<Rightarrow> string \<Rightarrow> participant option" where
  "find_participant c u = find (\<lambda>p. p_user p = u) (or_empty (c_parts c))"

definition isCallParticipant :: "call_record \<Rightarrow> string \<Rightarrow> bool" where
  "isCallParticipant c u =
     (case c_parts c of
        Some ps \<Rightarrow> (\<exists>p \<in> set ps. p_user p = u)
      | None \<Rightarrow> c_caller c = u \<or> c_callee c = u)"

definition lastActivityAt :: "call_record \<Rightarrow> int \<Rightarrow> int" where
  "lastActivityAt c fallback =
     max (max (toTimestamp (Some (c_created c)) fallback) (toTimestamp (c_updated c) 0))
         (max (toTimestamp (c_answered c) 0) (toTimestamp (c_heartbeat c) 0))"

text \<open>The four \<open>continue\<close> guards of \<open>getActiveCallsForUser\<close>.\<close>

definition active_for :: "int \<Rightarrow> int \<Rightarrow> string \<Rightarrow> call_record \<Rightarrow> bool" where
  "active_for nw stale u c =
     (\<not> terminal (c_status c) \<and> isCallParticipant c u \<and>
      (case find_participant c u of Some p \<Rightarrow> active_state (p_state p) | None \<Rightarrow> True) \<and>
      \<not> (0 < stale \<and> stale < nw - lastActivityAt c nw))"

definition getActiveCallsForUser :: "int \<Rightarrow> int \<Rightarrow> string \<Rightarrow> server_state \<Rightarrow> call_record list" where
  "getActiveCallsForUser nw stale u s = filter (active_for nw stale u) (map snd (calls s))"

definition callPeerId :: "call_record \<Rightarrow> string \<Rightarrow> string" where
  "callPeerId c u =
     (case find (\<lambda>p. p_user p \<noteq> u \<and> active_state (p_state p)) (or_empty (c_parts c)) of
        Some p \<Rightarrow> p_user p
      | None \<Rightarrow> if c_caller c = u then c_callee c else c_caller c)"

definition ownerDeviceIdForUser :: "call_record \<Rightarrow> string \<Rightarrow> string option" where
  "ownerDeviceIdForUser c u =
     (let pd = Option.bind (find_participant c u) p_device
      in if str_truthy pd then pd
         else if c_caller c = u then c_caller_device c
         else if c_callee c = u then c_callee_device c
         else None)"

definition isCallOwnedByAnotherDevice :: "call_record \<Rightarrow> string \<Rightarrow> string option \<Rightarrow> bool" where
  "isCallOwnedByAnotherDevice c u dev =
     (let owner = ownerDeviceIdForUser c u
      in str_truthy owner \<and> str_truthy dev \<and> owner \<noteq> dev)"

definition isSupersededRedial :: "call_record \<Rightarrow> string \<Rightarrow> string \<Rightarrow> bool" where
  "isSupersededRedial c caller callee =
     (c_status c = Ringing \<and> c_caller c = caller \<and> c_callee c = callee)"

definition findCallerBlockingCall :: "int \<Rightarrow> int \<Rightarrow> string \<Rightarrow> string \<Rightarrow> server_state \<Rightarrow> call_record option" where
  "findCallerBlockingCall nw stale caller callee s =
     find (\<lambda>c. \<not> isSupersededRedial c caller callee \<and> \<not> (c_status c = Ringing \<and> c_callee c = caller))
       (getActiveCallsForUser nw stale caller s)"

definition isCalleeUnreachable :: "env \<Rightarrow> string \<Rightarrow> server_state \<Rightarrow> bool" where
  "isCalleeUnreachable e u s =
     (resolveReachableChannels (max_push e) (stores s) u = [] \<and> \<not> hasKnownUser (stores s) u)"

definition isSingleInstanceMode :: "server_state \<Rightarrow> bool" where
  "isSingleInstanceMode s = (\<not> message_bus s)"

definition hasLiveSockets :: "string \<Rightarrow> server_state \<Rightarrow> bool" where
  "hasLiveSockets u s = (0 < length (connections_of (stores s) u))"

definition hasPendingCallInvitee :: "call_record \<Rightarrow> bool" where
  "hasPendingCallInvitee c =
     (case c_parts c of
        Some ps \<Rightarrow> (\<exists>p \<in> set ps. p_user p \<noteq> c_caller c \<and> active_state (p_state p))
      | None \<Rightarrow> False)"

record call_description =
  cd_id :: string
  cd_status :: call_status
  cd_caller :: string
  cd_callee :: string
  cd_created :: stamp
  cd_updated :: "stamp option"
  cd_age :: int
  cd_stale :: int

definition describeActiveCallsForUser :: "int \<Rightarrow> int \<Rightarrow> string \<Rightarrow> server_state \<Rightarrow> call_description list" where
  "describeActiveCallsForUser clock nw u s =
     map (\<lambda>c. \<lparr>cd_id = c_id c, cd_status = c_status c, cd_caller = c_caller c, cd_callee = c_callee c,
               cd_created = c_created c, cd_updated = c_updated c,
               cd_age = max 0 (nw - toTimestamp (Some (c_created c)) nw),
               cd_stale = max 0 (nw - lastActivityAt c nw)\<rparr>)
       (getActiveCallsForUser clock 0 u s)"

section \<open>Effects\<close>

definition invalidateCallHistoryCache :: "string list \<Rightarrow> server_state \<Rightarrow> server_state" where
  "invalidateCallHistoryCache users s =
     (if \<not> has_cache s \<or> users = [] then s
      else let us = filter (\<lambda>u. u \<noteq> '''') users
           in if us = [] then s else emit [Invalidate_History us] s)"

definition persistCallRecord :: "call_record \<Rightarrow> server_state \<Rightarrow> server_state" where
  "persistCallRecord c s = (if \<not> has_db s \<or> c_id c = '''' then s else emit [Persist_Call c] s)"

definition persistCallEvent :: "call_event \<Rightarrow> server_state \<Rightarrow> server_state" where
  "persistCallEvent ev s = (if \<not> has_db s \<or> ev_id ev = '''' then s else emit [Persist_Event ev] s)"

definition mirrorCallToShared :: "call_record \<Rightarrow> server_state \<Rightarrow> server_state" where
  "mirrorCallToShared c s = (if \<not> call_state s then s else emit [Mirror_Call c] s)"

definition blank_to_null :: "string option \<Rightarrow> string option" where
  "blank_to_null x = (if x = Some '''' then None else x)"

definition appendCallEvent ::
  "env \<Rightarrow> string \<Rightarrow> string \<Rightarrow> string option \<Rightarrow> string option \<Rightarrow> server_state \<Rightarrow> server_state" where
  "appendCallEvent e cid event actor reason s =
     (case map_of (call_events s) cid of
        None \<Rightarrow> s
      | Some evs \<Rightarrow>
          (let ev = \<lparr>ev_id = uuid e (uuid_count s), ev_call = cid, ev_event = event,
                     ev_actor = blank_to_null actor, ev_reason = blank_to_null reason,
                     ev_timestamp = At (now e)\<rparr>
           in persistCallEvent ev
                (s\<lparr>call_events := AList.update cid (evs @ [ev]) (call_events s),
                   uuid_count := Suc (uuid_count s)\<rparr>)))"

section \<open>Creating a call\<close>

definition invitee_state :: "env \<Rightarrow> int \<Rightarrow> server_state \<Rightarrow> string \<Rightarrow> participant_state" where
  "invitee_state e ringingMs s u =
     (if getActiveCallsForUser (now e) ringingMs u s \<noteq> [] then P_Busy
      else if isSingleInstanceMode s \<and> isCalleeUnreachable e u s then P_Unreachable
      else P_Ringing)"

definition resolveInitialInviteeStates ::
  "env \<Rightarrow> string list \<Rightarrow> int \<Rightarrow> server_state \<Rightarrow> (string \<times> participant_state) list \<times> call_status \<times> string option" where
  "resolveInitialInviteeStates e invitees ringingMs s =
     (let states = fold (\<lambda>u m. AList.update u (invitee_state e ringingMs s u) m) invitees []
      in if \<forall>u \<in> set invitees. map_of states u = Some P_Busy then (states, Busy, Some ''busy'')
         else if \<forall>u \<in> set invitees. map_of states u \<noteq> Some P_Ringing
              then (states, Unreachable, Some ''unreachable'')
         else (states, Ringing, None))"

record create_args =
  ca_caller :: string
  ca_callee :: "string option"
  ca_callees :: "string list option"
  ca_ringing_ms :: int
  ca_device :: "string option"
  ca_media :: media_type

definition create_invitees :: "create_args \<Rightarrow> string list" where
  "create_invitees a =
     uniq (if or_empty (ca_callees a) \<noteq> [] then or_empty (ca_callees a)
           else if str_truthy (ca_callee a) then [the (ca_callee a)] else [])"

definition first_callee :: "create_args \<Rightarrow> string option" where
  "first_callee a = coalesce (ca_callee a) (case create_invitees a of [] \<Rightarrow> None | u # _ \<Rightarrow> Some u)"

definition new_participant :: "env \<Rightarrow> int \<Rightarrow> (string \<times> participant_state) list \<Rightarrow> string \<Rightarrow> participant" where
  "new_participant e ringingMs states u =
     \<lparr>p_user = u,
      p_state = (case map_of states u of Some st \<Rightarrow> st | None \<Rightarrow> P_Ringing),
      p_ring_timeout = (if map_of states u = Some P_Ringing then Some (At (now e + ringingMs)) else None),
      p_joined = None, p_left = None, p_device = None\<rparr>"

definition new_call :: "env \<Rightarrow> create_args \<Rightarrow> string \<Rightarrow> string \<Rightarrow> server_state \<Rightarrow> call_record" where
  "new_call e a cid callee s =
     (let (states, st, reason) = resolveInitialInviteeStates e (create_invitees a) (ca_ringing_ms a) s
      in \<lparr>c_id = cid, c_media = Some (ca_media a), c_caller = ca_caller a, c_callee = callee,
          c_parts = Some (\<lparr>p_user = ca_caller a, p_state = P_Joined, p_ring_timeout = None,
                           p_joined = Some (At (now e)), p_left = None, p_device = ca_device a\<rparr>
                          # map (new_participant e (ca_ringing_ms a) states) (create_invitees a)),
          c_status = st, c_end_reason = reason,
          c_duration = (if terminal st then Some 0 else None),
          c_created = At (now e), c_updated = Some (At (now e)), c_missed_read = None,
          c_ring_timeout = (if st = Ringing then Some (At (now e + ca_ringing_ms a)) else None),
          c_answered = None, c_heartbeat = None,
          c_caller_device = ca_device a, c_callee_device = None\<rparr>)"

definition createCallRecord ::
  "env \<Rightarrow> create_args \<Rightarrow> server_state \<Rightarrow> string + (call_record \<times> server_state)" where
  "createCallRecord e a s =
     (if \<not> str_truthy (first_callee a) then Inl ''at least one callee is required''
      else
        (let cid = uuid e (uuid_count s);
             c = new_call e a cid (the (first_callee a)) s;
             s1 = put_call c (s\<lparr>uuid_count := Suc (uuid_count s)\<rparr>);
             s2 = s1\<lparr>call_events := AList.update cid [] (call_events s1)\<rparr>;
             s3 = invalidateCallHistoryCache (ca_caller a # create_invitees a) s2;
             s4 = persistCallRecord c s3;
             s5 = appendCallEvent e cid ''created'' (Some (ca_caller a)) None s4;
             s6 = (if c_status c \<noteq> Ringing
                   then appendCallEvent e cid (status_text (c_status c)) None (c_end_reason c) s5 else s5)
         in Inr (c, s6)))"

section \<open>Transitions\<close>

definition connected_status :: "call_status \<Rightarrow> bool" where
  "connected_status st \<longleftrightarrow> st = Accepted \<or> st = Connecting_Media \<or> st = In_Call"

text \<open>\<open>Math.max(0, Math.round(ms / 1000))\<close>.\<close>

definition whole_seconds :: "int \<Rightarrow> int" where
  "whole_seconds ms = max 0 ((ms + 500) div 1000)"

definition computeDurationSeconds :: "call_record \<Rightarrow> call_status \<Rightarrow> int \<Rightarrow> int" where
  "computeDurationSeconds c prev endedAt =
     (if \<not> connected_status prev then 0
      else let startedAt = (if stamp_truthy (c_answered c) then toTimestamp (c_answered c) endedAt
                            else toTimestamp (coalesce (c_updated c) (Some (c_created c))) endedAt)
           in whole_seconds (endedAt - startedAt))"

definition close_participant :: "int \<Rightarrow> participant \<Rightarrow> participant" where
  "close_participant nw p =
     (if active_state (p_state p)
      then p\<lparr>p_state := P_Left, p_left := Some (At nw), p_ring_timeout := None\<rparr> else p)"

record call_failure =
  f_status :: nat
  f_error :: string
  f_message :: "string option"

definition transitioned :: "int \<Rightarrow> call_status \<Rightarrow> string option \<Rightarrow> string option \<Rightarrow> call_record \<Rightarrow> call_record" where
  "transitioned nw to reason dev c =
     (let c1 = c\<lparr>c_status := to, c_end_reason := (if terminal to then reason else None),
                 c_updated := Some (At nw)\<rparr>;
          c2 = (if to = Accepted
                then c1\<lparr>c_answered := Some (At nw),
                        c_callee_device := (if str_truthy dev then dev else c_callee_device c1)\<rparr>
                else c1)
      in if terminal to
         then c2\<lparr>c_ring_timeout := None,
                 c_duration := Some (computeDurationSeconds c (c_status c) nw),
                 c_parts := map_option (map (close_participant nw)) (c_parts c2)\<rparr>
         else c2)"

definition transitionCall ::
  "env \<Rightarrow> string \<Rightarrow> call_status \<Rightarrow> string option \<Rightarrow> string option \<Rightarrow> string option \<Rightarrow> server_state \<Rightarrow>
   (call_failure + call_record) \<times> server_state" where
  "transitionCall e cid to actor reason dev s =
     (case get_call s cid of
        None \<Rightarrow> (Inl \<lparr>f_status = 404, f_error = ''not_found'', f_message = None\<rparr>, s)
      | Some c \<Rightarrow>
          if c_status c = to then (Inr c, s)
          else if terminal (c_status c) then
            (Inl \<lparr>f_status = 409, f_error = ''terminal_state'',
                  f_message = Some (''call is already in terminal state: '' @ status_text (c_status c))\<rparr>, s)
          else if to \<notin> set (CALL_TRANSITIONS (c_status c)) then
            (Inl \<lparr>f_status = 409, f_error = ''invalid_transition'',
                  f_message = Some (''cannot transition from '' @ status_text (c_status c) @
                                    '' to '' @ status_text to)\<rparr>, s)
          else
            (let c' = transitioned (now e) to reason dev c
             in (Inr c',
                 appendCallEvent e cid (status_text to) actor reason
                   (persistCallRecord c'
                     (invalidateCallHistoryCache [c_caller c', c_callee c'] (store_call c' s))))))"

definition finalized :: "int \<Rightarrow> call_status \<Rightarrow> string \<Rightarrow> call_record \<Rightarrow> call_record" where
  "finalized nw to reason c =
     c\<lparr>c_status := to, c_end_reason := Some reason, c_updated := Some (At nw), c_ring_timeout := None,
       c_duration := Some (computeDurationSeconds c (c_status c) nw),
       c_parts := map_option (map (close_participant nw)) (c_parts c)\<rparr>"

definition finalizeCall :: "env \<Rightarrow> int \<Rightarrow> call_status \<Rightarrow> string \<Rightarrow> call_record \<Rightarrow> server_state \<Rightarrow> server_state" where
  "finalizeCall e nw to reason c s =
     (let c' = finalized nw to reason c
      in appendCallEvent e (c_id c') (status_text to) None (Some reason)
           (mirrorCallToShared c'
             (persistCallRecord c'
               (invalidateCallHistoryCache [c_caller c', c_callee c'] (store_call c' s)))))"

section \<open>Participants and liveness\<close>

definition default_participants :: "call_record \<Rightarrow> participant list" where
  "default_participants c =
     [\<lparr>p_user = c_caller c, p_state = P_Joined, p_ring_timeout = None, p_joined = Some (c_created c),
       p_left = None, p_device = None\<rparr>,
      \<lparr>p_user = c_callee c, p_state = (if c_status c = Ringing then P_Ringing else P_Joined),
       p_ring_timeout = None, p_joined = None, p_left = None, p_device = None\<rparr>]"

definition moved_participant :: "int \<Rightarrow> participant_state \<Rightarrow> string option \<Rightarrow> participant \<Rightarrow> participant" where
  "moved_participant nw pst dev p =
     (if pst = P_Joined
      then p\<lparr>p_state := pst, p_ring_timeout := None, p_joined := coalesce (p_joined p) (Some (At nw)),
             p_device := (if str_truthy dev then dev else p_device p)\<rparr>
      else p\<lparr>p_state := pst, p_ring_timeout := None, p_left := Some (At nw)\<rparr>)"

definition call_participants :: "call_record \<Rightarrow> participant list" where
  "call_participants c = (case c_parts c of Some ps \<Rightarrow> ps | None \<Rightarrow> default_participants c)"

definition with_participant :: "int \<Rightarrow> string \<Rightarrow> participant_state \<Rightarrow> string option \<Rightarrow> call_record \<Rightarrow> call_record" where
  "with_participant nw u pst dev c =
     (if u \<in> set (map p_user (call_participants c))
      then c\<lparr>c_parts := Some (update_first (\<lambda>p. p_user p = u) (moved_participant nw pst dev) (call_participants c)),
             c_updated := Some (At nw)\<rparr>
      else c\<lparr>c_parts := Some (call_participants c)\<rparr>)"

definition updateCallParticipant ::
  "env \<Rightarrow> call_record \<Rightarrow> string \<Rightarrow> participant_state \<Rightarrow> string option \<Rightarrow> bool \<Rightarrow> server_state \<Rightarrow> server_state" where
  "updateCallParticipant e c u pst dev mirror s =
     (let c' = with_participant (now e) u pst dev c
      in if u \<notin> set (map p_user (call_participants c)) then store_call c' s
         else
           (let s1 = store_call c' s;
                s2 = invalidateCallHistoryCache (map p_user (call_participants c')) s1;
                s3 = persistCallRecord c' s2;
                s4 = appendCallEvent e (c_id c') (''participant_'' @ participant_text pst) (Some u) None s3
            in if mirror then mirrorCallToShared c' s4 else s4))"

definition recordCallHeartbeat :: "string \<Rightarrow> int \<Rightarrow> server_state \<Rightarrow> bool \<times> server_state" where
  "recordCallHeartbeat cid nw s =
     (case get_call s cid of
        None \<Rightarrow> (False, s)
      | Some c \<Rightarrow>
          if terminal (c_status c) then (False, s)
          else let c' = c\<lparr>c_heartbeat := Some (At nw)\<rparr>
               in (True, mirrorCallToShared c' (store_call c' s)))"

section \<open>Timeouts of a record\<close>

record expiry =
  x_status :: call_status
  x_reason :: string
  x_deadline :: int

text \<open>\<open>clock\<close> is the \<open>Date.now()\<close> that stands in for an unparseable timestamp.\<close>

definition getCallExpiry :: "int \<Rightarrow> timeouts \<Rightarrow> call_record \<Rightarrow> expiry option" where
  "getCallExpiry clock tm c =
     (if terminal (c_status c) then None
      else
        (let entered = toTimestamp (coalesce (c_updated c) (Some (c_created c))) clock
         in case c_status c of
              Ringing \<Rightarrow> Some \<lparr>x_status = Missed, x_reason = ''timeout'',
                x_deadline = (if stamp_truthy (c_ring_timeout c)
                              then toTimestamp (c_ring_timeout c) (entered + ringing_ms tm)
                              else entered + ringing_ms tm)\<rparr>
            | Accepted \<Rightarrow> Some \<lparr>x_status = Ended, x_reason = ''media_connect_timeout'', x_deadline = entered + media_ms tm\<rparr>
            | Connecting_Media \<Rightarrow> Some \<lparr>x_status = Ended, x_reason = ''media_connect_timeout'', x_deadline = entered + media_ms tm\<rparr>
            | In_Call \<Rightarrow>
                (let durationDeadline = entered + max_duration_ms tm
                 in if \<not> stamp_truthy (c_heartbeat c)
                    then Some \<lparr>x_status = Ended, x_reason = ''max_duration_exceeded'', x_deadline = durationDeadline\<rparr>
                    else
                      (let heartbeatDeadline = toTimestamp (c_heartbeat c) entered + heartbeat_ms tm
                       in if heartbeatDeadline < durationDeadline
                          then Some \<lparr>x_status = Ended, x_reason = ''heartbeat_timeout'', x_deadline = heartbeatDeadline\<rparr>
                          else Some \<lparr>x_status = Ended, x_reason = ''max_duration_exceeded'', x_deadline = durationDeadline\<rparr>))
            | _ \<Rightarrow> None))"

end
