(* ===== verification/CallSweeps.thy ===== *)
theory CallSweeps
  imports Calls
begin

text \<open>
  The loops of \<open>server/src/domain/calls.ts\<close> that go over many calls: closing a caller's stale rings,
  the timeout sweep, the disconnect cleanup, client reconciliation, retention and the sanitation of
  hydrated records. Each is a \<open>fold\<close> of its loop body over the ids the loop visits; a body touches
  the entry it visits only, so every loop is an instance of \<open>keyed_sweep\<close>.
\<close>

section \<open>Closing calls one by one\<close>

text \<open>\<open>finalizeCall\<close>, \<open>telemetry.recordCallTransition\<close> and \<open>onTransition\<close>, as the loops call them.\<close>

definition end_call :: "env \<Rightarrow> int \<Rightarrow> call_status \<Rightarrow> string \<Rightarrow> call_record \<Rightarrow> server_state \<Rightarrow> server_state" where
  "end_call e nw to reason c s =
     (let c' = finalized nw to reason c
      in emit [Record_Transition c' (c_status c), Notify_Transition c' (c_status c) reason]
           (finalizeCall e nw to reason c s))"

text \<open>
  The body shared by \<open>supersedeRedialledCalls\<close>, \<open>endCallsForDisconnectedParticipant\<close> and
  \<open>reconcileClientCallState\<close>: skip the call unless \<open>cond\<close> holds, else end it and collect it.
\<close>

definition close_visit ::
  "env \<Rightarrow> (stores \<Rightarrow> call_record \<Rightarrow> bool) \<Rightarrow> string \<Rightarrow> string \<Rightarrow>
   server_state \<times> call_record list \<Rightarrow> server_state \<times> call_record list" where
  "close_visit e cond reason cid = (\<lambda>(s, closed).
     case get_call s cid of
       None \<Rightarrow> (s, closed)
     | Some c \<Rightarrow>
         if cond (stores s) c
         then (end_call e (now e) Ended reason c s, closed @ [finalized (now e) Ended reason c])
         else (s, closed))"

definition close_calls ::
  "env \<Rightarrow> (stores \<Rightarrow> call_record \<Rightarrow> bool) \<Rightarrow> string \<Rightarrow> call_record list \<Rightarrow> server_state \<Rightarrow>
   server_state \<times> call_record list" where
  "close_calls e cond reason cs s = fold (close_visit e cond reason) (map c_id cs) (s, [])"

definition supersedeRedialledCalls ::
  "env \<Rightarrow> string \<Rightarrow> string \<Rightarrow> server_state \<Rightarrow> server_state \<times> call_record list" where
  "supersedeRedialledCalls e caller callee s =
     close_calls e (\<lambda>_ c. isSupersededRedial c caller callee) ''superseded''
       (getActiveCallsForUser (now e) 0 caller s) s"

definition participants_gone :: "stores \<Rightarrow> call_record \<Rightarrow> bool" where
  "participants_gone st c =
     (c_status c \<noteq> Ringing \<and>
      \<not> (0 < length (connections_of st (c_caller c)) \<or> 0 < length (connections_of st (c_callee c))))"

definition endCallsForDisconnectedParticipant ::
  "env \<Rightarrow> string \<Rightarrow> string \<Rightarrow> server_state \<Rightarrow> server_state \<times> nat" where
  "endCallsForDisconnectedParticipant e u reason s =
     (if u = '''' then (s, 0)
      else if \<not> isSingleInstanceMode s then (s, 0)
      else (let (s', closed) = close_calls e participants_gone reason (getActiveCallsForUser (now e) 0 u s) s
            in (s', length closed)))"

definition reconcilable :: "string \<Rightarrow> string list \<Rightarrow> string option \<Rightarrow> call_record \<Rightarrow> bool" where
  "reconcilable u claimed dev c =
     (c_id c \<notin> set claimed \<and> \<not> (c_status c = Ringing \<and> c_caller c \<noteq> u) \<and>
      \<not> (str_truthy dev \<and> str_truthy (ownerDeviceIdForUser c u) \<and> ownerDeviceIdForUser c u \<noteq> dev))"

definition reconcileClientCallState ::
  "env \<Rightarrow> string \<Rightarrow> string list \<Rightarrow> string option \<Rightarrow> server_state \<Rightarrow> server_state \<times> call_record list" where
  "reconcileClientCallState e u claimed dev s =
     (if u = '''' then (s, [])
      else close_calls e (\<lambda>_. reconcilable u claimed dev) ''client_state_reconciled''
             (getActiveCallsForUser (now e) 0 u s) s)"

section \<open>The timeout sweep\<close>

text \<open>\<open>Date.parse(ringTimeoutAt) > now\<close> skips; \<open>NaN\<close> does not.\<close>

definition ring_expired :: "int \<Rightarrow> participant \<Rightarrow> bool" where
  "ring_expired nw p =
     (p_state p = P_Ringing \<and> stamp_truthy (p_ring_timeout p) \<and>
      (case Option.bind (p_ring_timeout p) date_parse of Some t \<Rightarrow> t \<le> nw | None \<Rightarrow> True))"

definition expire_at :: "env \<Rightarrow> int \<Rightarrow> string \<Rightarrow> nat \<Rightarrow> server_state \<times> bool \<Rightarrow> server_state \<times> bool" where
  "expire_at e nw cid i = (\<lambda>(s, timedOut).
     case get_call s cid of
       None \<Rightarrow> (s, timedOut)
     | Some c \<Rightarrow>
         (let ps = or_empty (c_parts c)
          in if i < length ps \<and> ring_expired nw (ps ! i)
             then (emit [Notify_Ring_Timeout (with_participant (now e) (p_user (ps ! i)) P_Missed None c) (p_user (ps ! i))]
                     (updateCallParticipant e c (p_user (ps ! i)) P_Missed None True s), True)
             else (s, timedOut)))"

definition expireRingingParticipants :: "env \<Rightarrow> int \<Rightarrow> call_record \<Rightarrow> server_state \<Rightarrow> server_state \<times> bool" where
  "expireRingingParticipants e nw c s =
     fold (expire_at e nw (c_id c)) [0..<length (or_empty (c_parts c))] (s, False)"

definition tick_visit :: "env \<Rightarrow> int \<Rightarrow> timeouts \<Rightarrow> string \<Rightarrow> server_state \<times> nat \<Rightarrow> server_state \<times> nat" where
  "tick_visit e nw tm cid = (\<lambda>(s0, n).
     case get_call s0 cid of
       None \<Rightarrow> (s0, n)
     | Some c0 \<Rightarrow>
         (let (s, timedOut) = expireRingingParticipants e nw c0 s0
          in case get_call s cid of
               None \<Rightarrow> (s, n)
             | Some c \<Rightarrow>
                 if timedOut \<and> c_status c = Ringing \<and> hasPendingCallInvitee c then (s, n)
                 else if timedOut \<and> c_status c = Ringing \<and> \<not> hasPendingCallInvitee c
                 then (end_call e nw Missed ''timeout'' c s, Suc n)
                 else (case getCallExpiry (now e) tm c of
                         None \<Rightarrow> (s, n)
                       | Some x \<Rightarrow>
                           if nw < x_deadline x then (s, n)
                           else (end_call e nw (x_status x) (x_reason x) c s, Suc n))))"

definition tickRingingTimeouts :: "env \<Rightarrow> int \<Rightarrow> timeouts \<Rightarrow> server_state \<Rightarrow> server_state \<times> nat" where
  "tickRingingTimeouts e nw tm s = fold (tick_visit e nw tm) (map fst (calls s)) (s, 0)"

section \<open>Retention\<close>

definition evictCall :: "string \<Rightarrow> server_state \<Rightarrow> server_state" where
  "evictCall cid s = s\<lparr>calls := AList.delete cid (calls s), call_events := AList.delete cid (call_events s)\<rparr>"

definition ended_at :: "int \<Rightarrow> call_record \<Rightarrow> int" where
  "ended_at nw c = toTimestamp (coalesce (c_updated c) (Some (c_created c))) nw"

definition age_visit ::
  "int \<Rightarrow> int \<Rightarrow> string \<times> call_record \<Rightarrow> server_state \<times> (string \<times> int) list \<times> nat \<Rightarrow>
   server_state \<times> (string \<times> int) list \<times> nat" where
  "age_visit nw maxAge = (\<lambda>(_, c) (s, retained, evicted).
     if \<not> terminal (c_status c) then (s, retained, evicted)
     else if 0 < maxAge \<and> maxAge \<le> nw - ended_at nw c
     then (evictCall (c_id c) s, retained, Suc evicted)
     else (s, retained @ [(c_id c, ended_at nw c)], evicted))"

definition pruneTerminalCalls :: "int \<Rightarrow> int \<Rightarrow> int \<Rightarrow> server_state \<Rightarrow> server_state \<times> nat" where
  "pruneTerminalCalls maxAge maxRetained nw s0 =
     (let (s, retained, evicted) = fold (age_visit nw maxAge) (calls s0) (s0, [], 0)
      in if 0 < maxRetained \<and> maxRetained < int (length retained)
         then (let excess = take (length retained - nat maxRetained) (sort_key snd retained)
               in (fold (\<lambda>(cid, _). evictCall cid) excess s, evicted + length excess))
         else (s, evicted))"

section \<open>Hydrated records\<close>

definition sanitize_visit :: "env \<Rightarrow> int \<Rightarrow> timeouts \<Rightarrow> string \<Rightarrow> server_state \<times> nat \<Rightarrow> server_state \<times> nat" where
  "sanitize_visit e nw tm cid = (\<lambda>(s, n).
     case get_call s cid of
       None \<Rightarrow> (s, n)
     | Some c \<Rightarrow>
         (case getCallExpiry (now e) tm c of
            None \<Rightarrow> (s, n)
          | Some x \<Rightarrow>
              if nw < x_deadline x then (s, n)
              else (finalizeCall e nw (x_status x) ''stale_cleanup'' c s, Suc n)))"

definition sanitizeHydratedCalls :: "env \<Rightarrow> int \<Rightarrow> timeouts \<Rightarrow> server_state \<Rightarrow> server_state \<times> nat" where
  "sanitizeHydratedCalls e nw tm s = fold (sanitize_visit e nw tm) (map fst (calls s)) (s, 0)"

end
