(* ===== verification/CallInvariants.thy ===== *)
theory CallInvariants
  imports CallSweeps
begin

text \<open>
  What every operation of \<open>server/src/domain/calls.ts\<close> keeps of the registry of calls: the frame of
  the fire-and-forget effects, the well-formedness \<open>wf_registry\<close>, the step relation
  \<open>registry_step\<close> of the operations the server runs, and the loops as instances of \<open>keyed_sweep\<close>.
\<close>

section \<open>Frame\<close>

lemma invalidate_frame [simp, registry_frame]:
  "stores (invalidateCallHistoryCache us s) = stores s" "calls (invalidateCallHistoryCache us s) = calls s"
  "call_events (invalidateCallHistoryCache us s) = call_events s"
  "message_bus (invalidateCallHistoryCache us s) = message_bus s"
  "call_state (invalidateCallHistoryCache us s) = call_state s"
  "synced_at (invalidateCallHistoryCache us s) = synced_at s"
  "pending_rtc (invalidateCallHistoryCache us s) = pending_rtc s"
  "uuid_count (invalidateCallHistoryCache us s) = uuid_count s"
  "get_call (invalidateCallHistoryCache us s) = get_call s"
  by (simp_all add: invalidateCallHistoryCache_def Let_def)

lemma persist_call_frame [simp, registry_frame]:
  "stores (persistCallRecord c s) = stores s" "calls (persistCallRecord c s) = calls s"
  "call_events (persistCallRecord c s) = call_events s"
  "message_bus (persistCallRecord c s) = message_bus s" "call_state (persistCallRecord c s) = call_state s"
  "synced_at (persistCallRecord c s) = synced_at s" "pending_rtc (persistCallRecord c s) = pending_rtc s"
  "uuid_count (persistCallRecord c s) = uuid_count s" "get_call (persistCallRecord c s) = get_call s"
  by (simp_all add: persistCallRecord_def)

lemma persist_event_frame [simp, registry_frame]:
  "stores (persistCallEvent ev s) = stores s" "calls (persistCallEvent ev s) = calls s"
  "call_events (persistCallEvent ev s) = call_events s"
  "message_bus (persistCallEvent ev s) = message_bus s" "call_state (persistCallEvent ev s) = call_state s"
  "synced_at (persistCallEvent ev s) = synced_at s" "pending_rtc (persistCallEvent ev s) = pending_rtc s"
  "uuid_count (persistCallEvent ev s) = uuid_count s" "get_call (persistCallEvent ev s) = get_call s"
  by (simp_all add: persistCallEvent_def)

lemma mirror_frame [simp, registry_frame]:
  "stores (mirrorCallToShared c s) = stores s" "calls (mirrorCallToShared c s) = calls s"
  "call_events (mirrorCallToShared c s) = call_events s"
  "message_bus (mirrorCallToShared c s) = message_bus s" "call_state (mirrorCallToShared c s) = call_state s"
  "synced_at (mirrorCallToShared c s) = synced_at s" "pending_rtc (mirrorCallToShared c s) = pending_rtc s"
  "uuid_count (mirrorCallToShared c s) = uuid_count s" "get_call (mirrorCallToShared c s) = get_call s"
  by (simp_all add: mirrorCallToShared_def)

lemma append_event_frame [simp, registry_frame]:
  "stores (appendCallEvent e cid ev a r s) = stores s" "calls (appendCallEvent e cid ev a r s) = calls s"
  "message_bus (appendCallEvent e cid ev a r s) = message_bus s"
  "call_state (appendCallEvent e cid ev a r s) = call_state s"
  "synced_at (appendCallEvent e cid ev a r s) = synced_at s"
  "pending_rtc (appendCallEvent e cid ev a r s) = pending_rtc s"
  "get_call (appendCallEvent e cid ev a r s) = get_call s"
  by (simp_all add: appendCallEvent_def Let_def split: option.split)

text \<open>An event is appended to a log that exists; no log is created or dropped.\<close>

lemma append_event_logs [simp]:
  "map_of (call_events (appendCallEvent e cid ev a r s)) k \<noteq> None \<longleftrightarrow> map_of (call_events s) k \<noteq> None"
  "(map_of (call_events (appendCallEvent e cid ev a r s)) k = None) = (map_of (call_events s) k = None)"
  by (auto simp: appendCallEvent_def Let_def split: option.split)

lemma append_event_distinct [simp]:
  "distinct (map fst (call_events s)) \<Longrightarrow> distinct (map fst (call_events (appendCallEvent e cid ev a r s)))"
  by (simp add: appendCallEvent_def Let_def distinct_update split: option.split)

lemma append_event_uuid: "uuid_count s \<le> uuid_count (appendCallEvent e cid ev a r s)"
  by (simp add: appendCallEvent_def Let_def split: option.split)

section \<open>The fields an operation keeps\<close>

lemma finalized_simps [simp]:
  "c_id (finalized nw to r c) = c_id c" "c_status (finalized nw to r c) = to"
  "c_caller (finalized nw to r c) = c_caller c" "c_callee (finalized nw to r c) = c_callee c"
  "c_end_reason (finalized nw to r c) = Some r" "c_updated (finalized nw to r c) = Some (At nw)"
  "c_ring_timeout (finalized nw to r c) = None" "c_answered (finalized nw to r c) = c_answered c"
  "c_created (finalized nw to r c) = c_created c"
  "c_duration (finalized nw to r c) = Some (computeDurationSeconds c (c_status c) nw)"
  "c_parts (finalized nw to r c) = map_option (map (close_participant nw)) (c_parts c)"
  by (simp_all add: finalized_def)

lemma transitioned_simps [simp]:
  "c_id (transitioned nw to r d c) = c_id c" "c_status (transitioned nw to r d c) = to"
  "c_caller (transitioned nw to r d c) = c_caller c" "c_callee (transitioned nw to r d c) = c_callee c"
  "c_updated (transitioned nw to r d c) = Some (At nw)" "c_created (transitioned nw to r d c) = c_created c"
  by (simp_all add: transitioned_def Let_def)

lemma with_participant_simps [simp]:
  "c_id (with_participant nw u ps d c) = c_id c" "c_status (with_participant nw u ps d c) = c_status c"
  "c_caller (with_participant nw u ps d c) = c_caller c" "c_callee (with_participant nw u ps d c) = c_callee c"
  "c_answered (with_participant nw u ps d c) = c_answered c"
  "c_duration (with_participant nw u ps d c) = c_duration c"
  "c_end_reason (with_participant nw u ps d c) = c_end_reason c"
  "c_ring_timeout (with_participant nw u ps d c) = c_ring_timeout c"
  "c_created (with_participant nw u ps d c) = c_created c"
  by (simp_all add: with_participant_def)

lemma get_finalizeCall [simp]:
  "get_call (finalizeCall e nw to r c s) k =
     (if k = c_id c then map_option (\<lambda>_. finalized nw to r c) (get_call s k) else get_call s k)"
  by (simp add: finalizeCall_def Let_def)

lemma get_end_call [simp]:
  "get_call (end_call e nw to r c s) k =
     (if k = c_id c then map_option (\<lambda>_. finalized nw to r c) (get_call s k) else get_call s k)"
  by (simp add: end_call_def Let_def)

lemma get_update_participant [simp]:
  "get_call (updateCallParticipant e c u ps d m s) k =
     (if k = c_id c then map_option (\<lambda>_. with_participant (now e) u ps d c) (get_call s k) else get_call s k)"
  by (simp add: updateCallParticipant_def Let_def)

lemma end_call_frame [simp, registry_frame]:
  "stores (end_call e nw to r c s) = stores s" "message_bus (end_call e nw to r c s) = message_bus s"
  "map fst (calls (end_call e nw to r c s)) = map fst (calls s)"
  "call_state (end_call e nw to r c s) = call_state s" "synced_at (end_call e nw to r c s) = synced_at s"
  "pending_rtc (end_call e nw to r c s) = pending_rtc s"
  by (simp_all add: end_call_def finalizeCall_def Let_def)

lemma finalize_frame [simp, registry_frame]:
  "stores (finalizeCall e nw to r c s) = stores s" "message_bus (finalizeCall e nw to r c s) = message_bus s"
  "map fst (calls (finalizeCall e nw to r c s)) = map fst (calls s)"
  by (simp_all add: finalizeCall_def Let_def)

lemma update_participant_frame [simp, registry_frame]:
  "stores (updateCallParticipant e c u ps d m s) = stores s"
  "message_bus (updateCallParticipant e c u ps d m s) = message_bus s"
  "map fst (calls (updateCallParticipant e c u ps d m s)) = map fst (calls s)"
  "call_state (updateCallParticipant e c u ps d m s) = call_state s"
  "synced_at (updateCallParticipant e c u ps d m s) = synced_at s"
  by (simp_all add: updateCallParticipant_def Let_def)


section \<open>Well-formed registries\<close>

definition has_log :: "server_state \<Rightarrow> string \<Rightarrow> bool" where
  "has_log s k = (map_of (call_events s) k \<noteq> None)"

lemma has_log_append [simp]: "has_log (appendCallEvent e cid ev a r s) = has_log s"
  by (rule ext) (simp add: has_log_def)

lemma has_log_frame [simp]:
  "has_log (invalidateCallHistoryCache us s) = has_log s" "has_log (persistCallRecord c s) = has_log s"
  "has_log (mirrorCallToShared c s) = has_log s" "has_log (emit es s) = has_log s"
  "has_log (store_call c s) = has_log s"
  by (simp_all add: has_log_def fun_eq_iff)

lemma has_log_ops [simp]:
  "has_log (finalizeCall e nw to r c s) = has_log s" "has_log (end_call e nw to r c s) = has_log s"
  "has_log (updateCallParticipant e c u ps d m s) = has_log s"
  by (simp_all add: end_call_def finalizeCall_def updateCallParticipant_def Let_def)

text \<open>
  A record agrees with its status: a finished call has a duration and no ring left in it, a running
  call has neither a duration nor an end reason, a connected call was answered, and no user takes
  part twice.
\<close>

definition wf_call :: "call_record \<Rightarrow> bool" where
  "wf_call c =
     (c_status c \<in> {Ringing, Accepted, Connecting_Media, In_Call, Ended, Declined, Missed, Busy, Unreachable} \<and>
      (if terminal (c_status c)
       then c_ring_timeout c = None \<and> (\<exists>d. c_duration c = Some d \<and> 0 \<le> d) \<and>
            (\<forall>p \<in> set (or_empty (c_parts c)). p_state p \<noteq> P_Ringing)
       else c_duration c = None \<and> c_end_reason c = None) \<and>
      (connected_status (c_status c) \<longrightarrow> c_answered c \<noteq> None) \<and>
      distinct (map p_user (call_participants c)))"

definition wf_registry :: "server_state \<Rightarrow> bool" where
  "wf_registry s =
     (distinct (map fst (calls s)) \<and>
      (\<forall>k c. get_call s k = Some c \<longrightarrow> c_id c = k \<and> wf_call c \<and> has_log s k))"

definition keyed :: "server_state \<Rightarrow> bool" where
  "keyed s = (\<forall>k c. get_call s k = Some c \<longrightarrow> c_id c = k)"

lemma wf_registryI:
  "distinct (map fst (calls s)) \<Longrightarrow>
   (\<And>k c. get_call s k = Some c \<Longrightarrow> c_id c = k \<and> wf_call c \<and> has_log s k) \<Longrightarrow> wf_registry s"
  by (simp add: wf_registry_def)

lemma wf_registryD:
  "wf_registry s \<Longrightarrow> get_call s k = Some c \<Longrightarrow> c_id c = k \<and> wf_call c \<and> has_log s k"
  by (simp add: wf_registry_def)

lemma wf_registry_distinct: "wf_registry s \<Longrightarrow> distinct (map fst (calls s))"
  by (simp add: wf_registry_def)

lemma wf_registry_keyed: "wf_registry s \<Longrightarrow> keyed s"
  by (simp add: wf_registry_def keyed_def)

lemma keyedD: "keyed s \<Longrightarrow> get_call s k = Some c \<Longrightarrow> c_id c = k"
  by (simp add: keyed_def)

text \<open>Changing one record to a well-formed one with the same id keeps the registry well-formed.\<close>

lemma wf_registry_change:
  assumes wf: "wf_registry s"
    and keys: "map fst (calls t) = map fst (calls s)"
    and logs: "has_log t = has_log s"
    and get: "\<And>k. get_call t k = (if k = c_id c' then map_option (\<lambda>_. c') (get_call s k) else get_call s k)"
    and c': "wf_call c'"
  shows "wf_registry t"
proof (rule wf_registryI)
  show "distinct (map fst (calls t))"
    using wf keys by (simp add: wf_registry_def)
next
  fix k c
  assume "get_call t k = Some c"
  then show "c_id c = k \<and> wf_call c \<and> has_log t k"
    using wf_registryD [OF wf] c' logs unfolding get by (auto split: if_splits)
qed

text \<open>Well-formedness of the changed records.\<close>

lemma whole_seconds_nonneg [simp]: "0 \<le> whole_seconds ms"
  by (simp add: whole_seconds_def)

lemma computeDuration_nonneg [simp]: "0 \<le> computeDurationSeconds c st nw"
  by (simp add: computeDurationSeconds_def Let_def)

lemma connected_iff: "connected_status st \<longleftrightarrow> st \<in> {Accepted, Connecting_Media, In_Call}"
  by (auto simp: connected_status_def)

lemma terminal_not_connected: "terminal st \<Longrightarrow> \<not> connected_status st"
  by (auto simp: terminal_iff connected_status_def)

lemma close_participant_idle [simp]: "p_state (close_participant nw p) \<noteq> P_Ringing"
  by (simp add: close_participant_def active_state_def)

lemma close_participants_idle [simp]:
  "p \<in> set (or_empty (map_option (map (close_participant nw)) ps)) \<Longrightarrow> p_state p \<noteq> P_Ringing"
  by (cases ps) auto

lemma close_participant_user [simp]: "p_user (close_participant nw p) = p_user p"
  by (simp add: close_participant_def)

lemma call_participants_users:
  "c_caller c' = c_caller c \<Longrightarrow> c_callee c' = c_callee c \<Longrightarrow>
     map_option (map p_user) (c_parts c') = map_option (map p_user) (c_parts c) \<Longrightarrow>
     map p_user (call_participants c') = map p_user (call_participants c)"
  by (cases "c_parts c"; cases "c_parts c'") (auto simp: call_participants_def default_participants_def)

lemma finalized_users [simp]:
  "map p_user (call_participants (finalized nw to r c)) = map p_user (call_participants c)"
  by (rule call_participants_users) (simp_all add: option.map_comp comp_def)

lemma transitioned_users [simp]:
  "map p_user (call_participants (transitioned nw to r d c)) = map p_user (call_participants c)"
  by (rule call_participants_users) (simp_all add: transitioned_def Let_def option.map_comp comp_def)

lemma finalized_wf: "terminal to \<Longrightarrow> wf_call c \<Longrightarrow> wf_call (finalized nw to r c)"
  by (auto simp: wf_call_def [of "finalized nw to r c"] wf_call_def [of c] terminal_not_connected)
     (auto simp: terminal_iff)

lemma transition_allowed:
  "to \<in> set (CALL_TRANSITIONS st) \<Longrightarrow>
     \<not> terminal st \<and> to \<noteq> Ringing \<and> to \<in> {Accepted, Connecting_Media, In_Call, Ended, Declined, Missed, Busy, Unreachable} \<and>
     (connected_status to \<longrightarrow> to = Accepted \<or> connected_status st)"
  by (cases st) (auto simp: connected_status_def)

lemma transitioned_wf:
  assumes "wf_call c" and "to \<in> set (CALL_TRANSITIONS (c_status c))"
  shows "wf_call (transitioned nw to r d c)"
proof -

  have "distinct (map p_user (call_participants (transitioned nw to r d c)))"
    using assms(1) by (simp add: wf_call_def)
  then show ?thesis
    using transition_allowed [OF assms(2)] assms(1)
    unfolding wf_call_def
    by (auto simp: transitioned_def Let_def connected_status_def)
qed

lemma moved_participant_state [simp]: "p_state (moved_participant nw ps d p) = ps"
  by (simp add: moved_participant_def)

lemma moved_participant_user [simp]: "p_user (moved_participant nw ps d p) = p_user p"
  by (simp add: moved_participant_def)

lemma with_participant_users [simp]:
  "map p_user (call_participants (with_participant nw u ps d c)) = map p_user (call_participants c)"
  by (simp add: with_participant_def call_participants_def [of "_\<lparr>c_parts := _\<rparr>"]
      call_participants_def [of "_\<lparr>c_parts := _, c_updated := _\<rparr>"] map_update_first)

lemma call_participants_idle:
  "terminal (c_status c) \<Longrightarrow> \<forall>p \<in> set (or_empty (c_parts c)). p_state p \<noteq> P_Ringing \<Longrightarrow>
     p \<in> set (call_participants c) \<Longrightarrow> p_state p \<noteq> P_Ringing"
  by (auto simp: call_participants_def default_participants_def split: option.splits if_splits)

lemma with_participant_wf:
  assumes wf: "wf_call c" and ps: "ps \<noteq> P_Ringing"
  shows "wf_call (with_participant nw u ps d c)"
proof -
  have "p_state p \<noteq> P_Ringing"
    if "terminal (c_status c)" and "p \<in> set (or_empty (c_parts (with_participant nw u ps d c)))" for p
    using that ps wf call_participants_idle [of c]
    by (auto simp: wf_call_def with_participant_def dest!: update_first_set split: if_splits)
  with wf show ?thesis
    by (simp add: wf_call_def split: if_splits)
qed

section \<open>The loops as sweeps\<close>

text \<open>
  A \<open>close_visit\<close> touches its own entry, and what it does there depends on that entry and on the
  presence stores, which it leaves alone.
\<close>

lemma get_close_visit:
  "keyed s \<Longrightarrow> get_call (fst (close_visit e cond reason k (s, cl))) k' =
     (if k' = k then map_option (\<lambda>c. if cond (stores s) c then finalized (now e) Ended reason c else c) (get_call s k)
      else get_call s k')"
  by (auto simp: close_visit_def dest: keyedD split: option.split)

lemma close_visit_keyed: "keyed (fst a) \<Longrightarrow> keyed (fst (close_visit e cond reason k a))"
  by (cases a) (auto simp: close_visit_def keyed_def split: option.split if_splits)

lemma close_visit_stores [simp]: "stores (fst (close_visit e cond reason k a)) = stores (fst a)"
  by (cases a) (auto simp: close_visit_def split: option.split)

interpretation closing: keyed_sweep
  "\<lambda>a. keyed (fst a)" "\<lambda>a. get_call (fst a)" "\<lambda>a. stores (fst a)" "close_visit e cond reason" for e cond reason
proof unfold_locales
  fix a :: "server_state \<times> call_record list" and k k' :: string
  assume "keyed (fst a)"
  then show "keyed (fst (close_visit e cond reason k a))"
    by (rule close_visit_keyed)
  show "stores (fst (close_visit e cond reason k a)) = stores (fst a)"
    by simp
  assume "k \<noteq> k'"
  with \<open>keyed (fst a)\<close> show "get_call (fst (close_visit e cond reason k a)) k' = get_call (fst a) k'"
    by (cases a) (simp add: get_close_visit)
next
  fix a b :: "server_state \<times> call_record list" and k :: string
  assume "keyed (fst a)" "keyed (fst b)" "get_call (fst a) k = get_call (fst b) k" "stores (fst a) = stores (fst b)"
  then show "get_call (fst (close_visit e cond reason k a)) k = get_call (fst (close_visit e cond reason k b)) k"
    by (cases a, cases b) (simp add: get_close_visit)
qed

lemma close_calls_get:
  assumes "keyed s" and "distinct (map c_id cs)"
  shows "get_call (fst (close_calls e cond reason cs s)) k =
     (if k \<in> set (map c_id cs)
      then map_option (\<lambda>c. if cond (stores s) c then finalized (now e) Ended reason c else c) (get_call s k)
      else get_call s k)"
  using closing.sweep_entry [of "(s, [])" "map c_id cs" e cond reason k] assms
  by (simp add: close_calls_def get_close_visit)

text \<open>
  The timeout sweep as a function of one record: which rings it expires, then what becomes of the
  call. \<open>tick_visit\<close> replaces the entry it visits by \<open>tick_record\<close> of it.
\<close>

definition ring_record_at :: "env \<Rightarrow> int \<Rightarrow> nat \<Rightarrow> call_record \<times> bool \<Rightarrow> call_record \<times> bool" where
  "ring_record_at e nw i = (\<lambda>(c, timedOut).
     let ps = or_empty (c_parts c)
     in if i < length ps \<and> ring_expired nw (ps ! i)
        then (with_participant (now e) (p_user (ps ! i)) P_Missed None c, True) else (c, timedOut))"

definition ring_record :: "env \<Rightarrow> int \<Rightarrow> call_record \<Rightarrow> call_record \<times> bool" where
  "ring_record e nw c = fold (ring_record_at e nw) [0..<length (or_empty (c_parts c))] (c, False)"

definition tick_record :: "env \<Rightarrow> int \<Rightarrow> timeouts \<Rightarrow> call_record \<Rightarrow> call_record" where
  "tick_record e nw tm c0 =
     (let (c, timedOut) = ring_record e nw c0
      in if timedOut \<and> c_status c = Ringing \<and> hasPendingCallInvitee c then c
         else if timedOut \<and> c_status c = Ringing then finalized nw Missed ''timeout'' c
         else (case getCallExpiry (now e) tm c of
                 None \<Rightarrow> c
               | Some x \<Rightarrow> if nw < x_deadline x then c else finalized nw (x_status x) (x_reason x) c))"

lemma expire_at_sim:
  assumes "keyed s" and "get_call s cid = Some c"
  shows "keyed (fst (expire_at e nw cid i (s, b)))"
    and "get_call (fst (expire_at e nw cid i (s, b))) cid = Some (fst (ring_record_at e nw i (c, b)))"
    and "snd (expire_at e nw cid i (s, b)) = snd (ring_record_at e nw i (c, b))"
    and "k \<noteq> cid \<Longrightarrow> get_call (fst (expire_at e nw cid i (s, b))) k = get_call s k"
  using assms keyedD [OF assms]
  by (auto simp: expire_at_def ring_record_at_def Let_def keyed_def)

lemma expire_fold_sim:
  "keyed s \<Longrightarrow> get_call s cid = Some c \<Longrightarrow>
     keyed (fst (fold (expire_at e nw cid) is (s, b))) \<and>
     get_call (fst (fold (expire_at e nw cid) is (s, b))) cid = Some (fst (fold (ring_record_at e nw) is (c, b))) \<and>
     snd (fold (expire_at e nw cid) is (s, b)) = snd (fold (ring_record_at e nw) is (c, b)) \<and>
     (\<forall>k. k \<noteq> cid \<longrightarrow> get_call (fst (fold (expire_at e nw cid) is (s, b))) k = get_call s k)"
proof (induction "is" arbitrary: s c b)
  case Nil
  then show ?case by simp
next
  case (Cons i "is")
  obtain s' b' where s': "expire_at e nw cid i (s, b) = (s', b')" by fastforce
  obtain c' b'' where c': "ring_record_at e nw i (c, b) = (c', b'')" by fastforce
  note sim = expire_at_sim [OF Cons.prems, where e = e and nw = nw and i = i and b = b, unfolded s' c' fst_conv snd_conv]
  show ?case
    using Cons.IH [OF sim(1,2), of b'] sim(3,4) by (simp add: s' c')
qed

lemma ring_record_status [simp]:
  "c_id (fst (fold (ring_record_at e nw) is (c, b))) = c_id c"
  "c_status (fst (fold (ring_record_at e nw) is (c, b))) = c_status c"
  by (induction "is" arbitrary: c b) (simp_all add: ring_record_at_def Let_def)

lemma ring_record_id [simp]:
  "c_id (fst (ring_record e nw c)) = c_id c" "c_status (fst (ring_record e nw c)) = c_status c"
  by (simp_all add: ring_record_def)

lemma expireRinging_sim:
  assumes "keyed s" and "get_call s cid = Some c"
  shows "keyed (fst (expireRingingParticipants e nw c s))"
    and "get_call (fst (expireRingingParticipants e nw c s)) cid = Some (fst (ring_record e nw c))"
    and "snd (expireRingingParticipants e nw c s) = snd (ring_record e nw c)"
    and "k \<noteq> cid \<Longrightarrow> get_call (fst (expireRingingParticipants e nw c s)) k = get_call s k"
  using expire_fold_sim [OF assms, of e nw "[0..<length (or_empty (c_parts c))]" False] keyedD [OF assms]
  by (simp_all add: expireRingingParticipants_def ring_record_def)

lemma get_tick_visit:
  assumes "keyed s"
  shows "get_call (fst (tick_visit e nw tm k (s, n))) k' =
     (if k' = k then map_option (tick_record e nw tm) (get_call s k) else get_call s k')"
proof (cases "get_call s k")
  case None
  then show ?thesis by (simp add: tick_visit_def)
next
  case (Some c)
  obtain s' b where s': "expireRingingParticipants e nw c s = (s', b)" by fastforce
  obtain c' b' where c': "ring_record e nw c = (c', b')" by fastforce
  note sim = expireRinging_sim [OF assms Some, where e = e and nw = nw, unfolded s' c' fst_conv snd_conv]
  have "c_id c' = k" using sim(1,2) keyedD by blast
  with sim Some show ?thesis
    by (auto simp: tick_visit_def tick_record_def s' c' split: option.split)
qed

lemma tick_record_id [simp]: "c_id (tick_record e nw tm c) = c_id c"
proof -
  obtain c' b where c': "ring_record e nw c = (c', b)" by fastforce
  have "c_id c' = c_id c" using ring_record_id(1) [of e nw c] by (simp add: c')
  then show ?thesis by (simp add: tick_record_def c' split: option.split)
qed

lemma tick_visit_keyed: "keyed (fst a) \<Longrightarrow> keyed (fst (tick_visit e nw tm k a))"
  by (cases a) (auto simp: keyed_def [of "fst (tick_visit _ _ _ _ _)"] get_tick_visit dest: keyedD split: if_splits)

interpretation ticking: keyed_sweep
  "\<lambda>a. keyed (fst a)" "\<lambda>a. get_call (fst a)" "\<lambda>_. ()" "tick_visit e nw tm" for e nw tm
proof unfold_locales
  fix a :: "server_state \<times> nat" and k k' :: string
  assume "keyed (fst a)"
  then show "keyed (fst (tick_visit e nw tm k a))"
    by (rule tick_visit_keyed)
  show "() = ()" ..
  assume "k \<noteq> k'"
  with \<open>keyed (fst a)\<close> show "get_call (fst (tick_visit e nw tm k a)) k' = get_call (fst a) k'"
    by (cases a) (simp add: get_tick_visit)
next
  fix a b :: "server_state \<times> nat" and k :: string
  assume "keyed (fst a)" "keyed (fst b)" "get_call (fst a) k = get_call (fst b) k"
  then show "get_call (fst (tick_visit e nw tm k a)) k = get_call (fst (tick_visit e nw tm k b)) k"
    by (cases a, cases b) (simp add: get_tick_visit)
qed

lemma get_call_keys: "get_call s k \<noteq> None \<longleftrightarrow> k \<in> set (map fst (calls s))"
  by (metis get_call_def in_keys_map_of map_of_in_keys not_None_eq)

lemma tick_get:
  assumes "keyed s" and "distinct (map fst (calls s))"
  shows "get_call (fst (tickRingingTimeouts e nw tm s)) k = map_option (tick_record e nw tm) (get_call s k)"
  using ticking.sweep_entry [of "(s, 0)" "map fst (calls s)" e nw tm k] assms get_call_keys [of s k]
  by (auto simp: tickRingingTimeouts_def get_tick_visit)

text \<open>The same for the sanitation of hydrated records.\<close>

definition sanitize_record :: "env \<Rightarrow> int \<Rightarrow> timeouts \<Rightarrow> call_record \<Rightarrow> call_record" where
  "sanitize_record e nw tm c =
     (case getCallExpiry (now e) tm c of
        None \<Rightarrow> c
      | Some x \<Rightarrow> if nw < x_deadline x then c else finalized nw (x_status x) ''stale_cleanup'' c)"

lemma get_sanitize_visit:
  "keyed s \<Longrightarrow> get_call (fst (sanitize_visit e nw tm k (s, n))) k' =
     (if k' = k then map_option (sanitize_record e nw tm) (get_call s k) else get_call s k')"
  by (auto simp: sanitize_visit_def sanitize_record_def dest: keyedD split: option.split)

lemma sanitize_record_id [simp]: "c_id (sanitize_record e nw tm c) = c_id c"
  by (simp add: sanitize_record_def split: option.split)

interpretation sanitizing: keyed_sweep
  "\<lambda>a. keyed (fst a)" "\<lambda>a. get_call (fst a)" "\<lambda>_. ()" "sanitize_visit e nw tm" for e nw tm
proof unfold_locales
  fix a :: "server_state \<times> nat" and k k' :: string
  assume keyed: "keyed (fst a)"
  then show "keyed (fst (sanitize_visit e nw tm k a))"
    by (cases a) (auto simp: keyed_def [of "fst (sanitize_visit _ _ _ _ _)"] get_sanitize_visit dest: keyedD split: if_splits)
  show "() = ()" ..
  assume "k \<noteq> k'"
  with keyed show "get_call (fst (sanitize_visit e nw tm k a)) k' = get_call (fst a) k'"
    by (cases a) (simp add: get_sanitize_visit)
next
  fix a b :: "server_state \<times> nat" and k :: string
  assume "keyed (fst a)" "keyed (fst b)" "get_call (fst a) k = get_call (fst b) k"
  then show "get_call (fst (sanitize_visit e nw tm k a)) k = get_call (fst (sanitize_visit e nw tm k b)) k"
    by (cases a, cases b) (simp add: get_sanitize_visit)
qed

lemma sanitize_get:
  assumes "keyed s" and "distinct (map fst (calls s))"
  shows "get_call (fst (sanitizeHydratedCalls e nw tm s)) k = map_option (sanitize_record e nw tm) (get_call s k)"
  using sanitizing.sweep_entry [of "(s, 0)" "map fst (calls s)" e nw tm k] assms get_call_keys [of s k]
  by (auto simp: sanitizeHydratedCalls_def get_sanitize_visit)

section \<open>Every operation keeps the registry well-formed\<close>

lemma wf_registry_call: "wf_registry s \<Longrightarrow> get_call s k = Some c \<Longrightarrow> wf_call c"
  by (simp add: wf_registryD)

lemma call_participants_heartbeat [simp]:
  "call_participants (c\<lparr>c_heartbeat := x\<rparr>) = call_participants c"
  by (cases "c_parts c") (simp_all add: call_participants_def default_participants_def)

lemma wf_registry_emit [simp]: "wf_registry (emit es s) = wf_registry s"
  by (simp add: wf_registry_def)

lemma wf_change_frame:
  "wf_registry s \<Longrightarrow> calls t = calls s \<Longrightarrow> call_events t = call_events s \<Longrightarrow> wf_registry t"
  by (simp add: wf_registry_def get_call_def has_log_def)

lemma end_call_wf: "wf_registry s \<Longrightarrow> wf_call c \<Longrightarrow> terminal to \<Longrightarrow> wf_registry (end_call e nw to r c s)"
  by (erule wf_registry_change [where c' = "finalized nw to r c"]) (simp_all add: finalized_wf)

lemma finalize_wf: "wf_registry s \<Longrightarrow> wf_call c \<Longrightarrow> terminal to \<Longrightarrow> wf_registry (finalizeCall e nw to r c s)"
  by (erule wf_registry_change [where c' = "finalized nw to r c"]) (simp_all add: finalized_wf)

lemma update_participant_wf:
  "wf_registry s \<Longrightarrow> wf_call c \<Longrightarrow> ps \<noteq> P_Ringing \<Longrightarrow> wf_registry (updateCallParticipant e c u ps d m s)"
  by (erule wf_registry_change [where c' = "with_participant (now e) u ps d c"])
    (simp_all add: with_participant_wf)

lemma close_calls_wf: "wf_registry s \<Longrightarrow> wf_registry (fst (close_calls e cond reason cs s))"
  unfolding close_calls_def
  by (rule fold_invariant_pred [where P = "\<lambda>a. wf_registry (fst a)"])
    (auto simp: close_visit_def intro!: end_call_wf intro: wf_registry_call split: option.split if_splits)

lemma expire_wf: "wf_registry s \<Longrightarrow> wf_registry (fst (expireRingingParticipants e nw c s))"
  unfolding expireRingingParticipants_def
  by (rule fold_invariant_pred [where P = "\<lambda>a. wf_registry (fst a)"])
    (auto simp: expire_at_def Let_def intro!: update_participant_wf intro: wf_registry_call
      split: option.split if_splits)

lemma expiry_terminal: "getCallExpiry clock tm c = Some x \<Longrightarrow> terminal (x_status x)"
  by (auto simp: getCallExpiry_def Let_def split: call_status.splits if_splits)

lemma tick_visit_wf: "wf_registry (fst a) \<Longrightarrow> wf_registry (fst (tick_visit e nw tm k a))"
proof (cases a)
  case (Pair s n)
  assume wf: "wf_registry (fst a)"
  show ?thesis
  proof (cases "get_call s k")
    case None
    with Pair wf show ?thesis by (simp add: tick_visit_def)
  next
    case (Some c0)
    obtain s' b where s': "expireRingingParticipants e nw c0 s = (s', b)" by fastforce
    have wf': "wf_registry s'" using expire_wf [of s e nw c0] wf Pair s' by simp
    show ?thesis
      using wf' wf_registryD [OF wf']
      by (auto simp: Pair tick_visit_def Some s' end_call_wf expiry_terminal split: option.split)
  qed
qed

lemma tick_wf: "wf_registry s \<Longrightarrow> wf_registry (fst (tickRingingTimeouts e nw tm s))"
  unfolding tickRingingTimeouts_def
  by (rule fold_invariant_pred [where P = "\<lambda>a. wf_registry (fst a)"]) (simp_all add: tick_visit_wf)

lemma sanitize_wf: "wf_registry s \<Longrightarrow> wf_registry (fst (sanitizeHydratedCalls e nw tm s))"
  unfolding sanitizeHydratedCalls_def
  by (rule fold_invariant_pred [where P = "\<lambda>a. wf_registry (fst a)"])
    (auto simp: sanitize_visit_def intro!: finalize_wf intro: wf_registry_call expiry_terminal
      split: option.split)

lemma heartbeat_wf: "wf_registry s \<Longrightarrow> wf_registry (snd (recordCallHeartbeat cid nw s))"
proof (cases "get_call s cid")
  case None
  moreover assume "wf_registry s"
  ultimately show ?thesis by (simp add: recordCallHeartbeat_def)
next
  case (Some c)
  assume wf: "wf_registry s"
  have "wf_call (c\<lparr>c_heartbeat := Some (At nw)\<rparr>)"
    using wf_registryD [OF wf Some]
    by (simp add: wf_call_def)
  then show ?thesis
    using wf Some by (auto simp: recordCallHeartbeat_def Let_def
        intro!: wf_registry_change [OF wf, where c' = "c\<lparr>c_heartbeat := Some (At nw)\<rparr>"])
qed

lemma transitionCall_cases:
  obtains (refused) f where "transitionCall e cid to actor r d s = (Inl f, s)"
      "case get_call s cid of None \<Rightarrow> f = \<lparr>f_status = 404, f_error = ''not_found'', f_message = None\<rparr>
       | Some c \<Rightarrow> c_status c \<noteq> to \<and> to \<notin> set (CALL_TRANSITIONS (c_status c)) \<and> f_status f = 409 \<and>
           f_error f = (if terminal (c_status c) then ''terminal_state'' else ''invalid_transition'')"
  | (same) c where "get_call s cid = Some c" "c_status c = to" "transitionCall e cid to actor r d s = (Inr c, s)"
  | (moved) c t where "get_call s cid = Some c" "to \<in> set (CALL_TRANSITIONS (c_status c))"
      "c_status c \<noteq> to" "transitionCall e cid to actor r d s = (Inr (transitioned (now e) to r d c), t)"
      "map fst (calls t) = map fst (calls s)" "has_log t = has_log s" "stores t = stores s"
      "\<And>k. get_call t k = (if k = c_id c then map_option (\<lambda>_. transitioned (now e) to r d c) (get_call s k)
            else get_call s k)"
proof (cases "get_call s cid")
  case None
  then show ?thesis by (intro refused) (simp_all add: transitionCall_def)
next
  case (Some c)
  consider "c_status c = to" | "c_status c \<noteq> to" "to \<notin> set (CALL_TRANSITIONS (c_status c))"
    | "c_status c \<noteq> to" "to \<in> set (CALL_TRANSITIONS (c_status c))" by blast
  then show ?thesis
  proof cases
    case 1
    with Some show ?thesis by (intro same [OF Some]) (simp_all add: transitionCall_def)
  next
    case 2
    then show ?thesis
      by (cases "terminal (c_status c)") (auto intro: refused simp: transitionCall_def Some)
  next
    case 3
    have "transitionCall e cid to actor r d s = (Inr (transitioned (now e) to r d c),
        appendCallEvent e cid (status_text to) actor r
          (persistCallRecord (transitioned (now e) to r d c)
            (invalidateCallHistoryCache [c_caller c, c_callee c]
              (store_call (transitioned (now e) to r d c) s))))"
      using 3 transition_allowed [OF 3(2)] by (simp add: transitionCall_def Some Let_def)
    from moved [OF Some 3(2,1) this] show ?thesis by simp
  qed
qed

lemma transition_wf: "wf_registry s \<Longrightarrow> wf_registry (snd (transitionCall e cid to actor r d s))"
proof (rule transitionCall_cases [of e cid to actor r d s])
  fix c t
  assume wf: "wf_registry s" and c: "get_call s cid = Some c" "to \<in> set (CALL_TRANSITIONS (c_status c))"
    and t: "transitionCall e cid to actor r d s = (Inr (transitioned (now e) to r d c), t)"
      "map fst (calls t) = map fst (calls s)" "has_log t = has_log s"
      "\<And>k. get_call t k = (if k = c_id c then map_option (\<lambda>_. transitioned (now e) to r d c) (get_call s k)
            else get_call s k)"
  have "wf_registry t"
    by (rule wf_registry_change [OF wf t(2,3), where c' = "transitioned (now e) to r d c"])
      (simp_all add: t(4) transitioned_wf [OF wf_registry_call [OF wf c(1)] c(2)])
  with t(1) show ?thesis by simp
qed simp_all

subsection \<open>Creation\<close>

text \<open>The verdict on a new call: busy when everyone is, unreachable when no one rings, else a ring.\<close>

lemma fold_update_lookup:
  "map_of (fold (\<lambda>u m. AList.update u (g u) m) us m) k = (if k \<in> set us then Some (g k) else map_of m k)"
  by (induction us arbitrary: m) auto

lemma resolve_states:
  "map_of (fst (resolveInitialInviteeStates e us ms s)) u =
     (if u \<in> set us then Some (invitee_state e ms s u) else None)"
  by (simp add: resolveInitialInviteeStates_def Let_def fold_update_lookup)

lemma resolve_verdict:
  "snd (resolveInitialInviteeStates e us ms s) =
     (if \<forall>u \<in> set us. invitee_state e ms s u = P_Busy then (Busy, Some ''busy'')
      else if \<forall>u \<in> set us. invitee_state e ms s u \<noteq> P_Ringing then (Unreachable, Some ''unreachable'')
      else (Ringing, None))"
  by (simp add: resolveInitialInviteeStates_def Let_def fold_update_lookup)

lemma new_call_fields:
  fixes e a cid u s
  defines "c \<equiv> new_call e a cid u s"
    and "verdict \<equiv> snd (resolveInitialInviteeStates e (create_invitees a) (ca_ringing_ms a) s)"
  shows "c_id c = cid" "c_status c = fst verdict" "c_end_reason c = snd verdict"
    "c_duration c = (if terminal (fst verdict) then Some 0 else None)"
    "c_ring_timeout c = (if fst verdict = Ringing then Some (At (now e + ca_ringing_ms a)) else None)"
    "c_answered c = None" "c_caller c = ca_caller a" "c_callee c = u" "c_created c = At (now e)"
    "c_updated c = Some (At (now e))" "c_heartbeat c = None"
    "map p_user (call_participants c) = ca_caller a # create_invitees a"
    "p \<in> set (or_empty (c_parts c)) \<Longrightarrow> p_state p = P_Ringing \<Longrightarrow>
       \<exists>i \<in> set (create_invitees a). invitee_state e (ca_ringing_ms a) s i = P_Ringing"
  unfolding c_def verdict_def
  by (auto simp: new_call_def new_participant_def call_participants_def comp_def split_beta resolve_states
      split: if_splits)

lemma new_call_wf:
  assumes "ca_caller a \<notin> set (create_invitees a)"
  shows "wf_call (new_call e a cid u s)"
proof -
  let ?v = "snd (resolveInitialInviteeStates e (create_invitees a) (ca_ringing_ms a) s)"
  let ?c = "new_call e a cid u s"
  have st: "fst ?v = Busy \<or> fst ?v = Unreachable \<or> ?v = (Ringing, None)"
    by (simp add: resolve_verdict)
  have idle: "p_state p \<noteq> P_Ringing" if "fst ?v \<noteq> Ringing" "p \<in> set (or_empty (c_parts ?c))" for p
  proof
    assume "p_state p = P_Ringing"
    with that(2) have "\<exists>i \<in> set (create_invitees a). invitee_state e (ca_ringing_ms a) s i = P_Ringing"
      by (rule new_call_fields(13))
    then have "?v = (Ringing, None)" by (force simp: resolve_verdict)
    with that(1) show False by simp
  qed
  have "distinct (map p_user (call_participants ?c))"
    using assms by (simp add: new_call_fields(12)) (simp add: create_invitees_def)
  with st idle show ?thesis
    by (auto simp: wf_call_def new_call_fields(1-6) connected_status_def)
qed

lemma createCallRecord_cases:
  assumes "createCallRecord e a s = Inr (c, t)"
  obtains u where "first_callee a = Some u" "c = new_call e a (uuid e (uuid_count s)) u s"
    "\<And>k. get_call t k = (if k = uuid e (uuid_count s) then Some c else get_call s k)"
    "map fst (calls t) = map fst (AList.update (uuid e (uuid_count s)) c (calls s))"
    "\<And>k. has_log t k = (k = uuid e (uuid_count s) \<or> has_log s k)" "stores t = stores s"
proof -
  from assms obtain u where u: "first_callee a = Some u"
    by (cases "first_callee a") (simp_all add: createCallRecord_def)
  let ?cid = "uuid e (uuid_count s)"
  let ?s2 = "s\<lparr>uuid_count := Suc (uuid_count s), calls := AList.update ?cid c (calls s),
               call_events := AList.update ?cid [] (call_events s)\<rparr>"
  from assms u have c: "c = new_call e a ?cid u s"
    by (auto simp: createCallRecord_def Let_def split: if_splits)
  have "calls t = calls ?s2 \<and> has_log t = has_log ?s2 \<and> stores t = stores ?s2"
    using assms u by (auto simp: createCallRecord_def Let_def put_call_def new_call_fields(1) split: if_splits)
  then have t: "calls t = AList.update ?cid c (calls s)" "has_log t = has_log ?s2" "stores t = stores s" by auto
  show ?thesis
    by (rule that [OF u c]) (auto simp: t get_call_def has_log_def)
qed

lemma create_wf:
  assumes wf: "wf_registry s" and create: "createCallRecord e a s = Inr (c, t)"
    and other: "ca_caller a \<notin> set (create_invitees a)"
  shows "wf_registry t"
  using create
proof (rule createCallRecord_cases)
  fix u
  assume c: "c = new_call e a (uuid e (uuid_count s)) u s"
    and t: "\<And>k. get_call t k = (if k = uuid e (uuid_count s) then Some c else get_call s k)"
      "map fst (calls t) = map fst (AList.update (uuid e (uuid_count s)) c (calls s))"
      "\<And>k. has_log t k = (k = uuid e (uuid_count s) \<or> has_log s k)"
  show ?thesis
  proof (rule wf_registryI)
    show "distinct (map fst (calls t))"
      using wf by (simp add: t(2) distinct_update wf_registry_def)
    show "c_id d = k \<and> wf_call d \<and> has_log t k" if "get_call t k = Some d" for k d
      using that new_call_wf [OF other] wf_registryD [OF wf]
      by (auto simp: t(1,3) c new_call_fields(1) split: if_splits)
  qed
qed

subsection \<open>Closing loops\<close>

lemma active_calls:
  "c \<in> set (getActiveCallsForUser nw st u s) \<Longrightarrow> wf_registry s \<Longrightarrow>
     get_call s (c_id c) = Some c \<and> active_for nw st u c"
proof -
  assume c: "c \<in> set (getActiveCallsForUser nw st u s)" and wf: "wf_registry s"
  then obtain k where "get_call s k = Some c"
    using map_of_valuesD [of c "calls s"] by (auto simp: getActiveCallsForUser_def wf_registry_def get_call_def)
  with wf_registryD [OF wf this] c show ?thesis
    by (simp add: getActiveCallsForUser_def)
qed

lemma active_ids_distinct: "wf_registry s \<Longrightarrow> distinct (map c_id (getActiveCallsForUser nw st u s))"
proof -
  assume wf: "wf_registry s"
  have "map c_id (map snd (calls s)) = map fst (calls s)"
  proof (rule nth_equalityI)
    fix i assume i: "i < length (map c_id (map snd (calls s)))"
    then have "get_call s (fst (calls s ! i)) = Some (snd (calls s ! i))"
      using wf by (simp add: get_call_def wf_registry_def map_of_eq_Some_iff)
    with i wf_registryD [OF wf this] show "map c_id (map snd (calls s)) ! i = map fst (calls s) ! i" by simp
  qed simp
  with wf_registry_distinct [OF wf] show ?thesis
    unfolding getActiveCallsForUser_def by (metis distinct_map_filter)
qed

lemma active_ids_iff:
  assumes wf: "wf_registry s"
  shows "k \<in> set (map c_id (getActiveCallsForUser nw st u s)) \<longleftrightarrow> (\<exists>c. get_call s k = Some c \<and> active_for nw st u c)"
proof
  assume "k \<in> set (map c_id (getActiveCallsForUser nw st u s))"
  then show "\<exists>c. get_call s k = Some c \<and> active_for nw st u c"
    using active_calls [OF _ wf] by auto
next
  assume "\<exists>c. get_call s k = Some c \<and> active_for nw st u c"
  then obtain c where c: "get_call s k = Some c" "active_for nw st u c" by blast
  then have "c \<in> set (getActiveCallsForUser nw st u s)"
    using map_of_values [of "calls s" k c] by (simp add: getActiveCallsForUser_def get_call_def)
  with wf_registryD [OF wf c(1)] show "k \<in> set (map c_id (getActiveCallsForUser nw st u s))" by force
qed

text \<open>
  What a closing loop over a user's active calls does to the call at \<open>k\<close>: it is ended exactly when it
  is active for the user and the condition holds of it, and it is left alone otherwise.
\<close>

lemma close_active_get:
  assumes wf: "wf_registry s"
  shows "get_call (fst (close_calls e cond reason (getActiveCallsForUser nw st u s) s)) k =
     map_option (\<lambda>c. if active_for nw st u c \<and> cond (stores s) c then finalized (now e) Ended reason c else c)
       (get_call s k)"
  using close_calls_get [OF wf_registry_keyed [OF wf] active_ids_distinct [OF wf], of e cond reason nw st u k]
  unfolding active_ids_iff [OF wf] by (cases "get_call s k") auto

subsection \<open>Retention\<close>

lemma get_evict [simp]: "get_call (evictCall cid s) k = (if k = cid then None else get_call s k)"
  by (simp add: evictCall_def get_call_def)

lemma get_evict_fold: "get_call (fold evictCall ids s) k = (if k \<in> set ids then None else get_call s k)"
  by (induction ids arbitrary: s) auto

lemma evict_wf: "wf_registry s \<Longrightarrow> wf_registry (evictCall cid s)"
  by (rule wf_registryI)
    (auto simp: evictCall_def wf_registry_def get_call_def has_log_def distinct_delete split: if_splits)

lemma evict_fold_wf: "wf_registry s \<Longrightarrow> wf_registry (fold evictCall ids s)"
  by (rule fold_invariant_pred) (simp_all add: evict_wf)

definition aged :: "int \<Rightarrow> int \<Rightarrow> call_record \<Rightarrow> bool" where
  "aged nw maxAge c = (terminal (c_status c) \<and> 0 < maxAge \<and> maxAge \<le> nw - ended_at nw c)"

definition kept_ended :: "int \<Rightarrow> int \<Rightarrow> (string \<times> call_record) list \<Rightarrow> (string \<times> int) list" where
  "kept_ended nw maxAge xs =
     map (\<lambda>(_, c). (c_id c, ended_at nw c)) (filter (\<lambda>(_, c). terminal (c_status c) \<and> \<not> aged nw maxAge c) xs)"

definition over_ceiling :: "int \<Rightarrow> (string \<times> int) list \<Rightarrow> string list" where
  "over_ceiling maxRetained r =
     (if 0 < maxRetained \<and> maxRetained < int (length r)
      then map fst (take (length r - nat maxRetained) (sort_key snd r)) else [])"

lemma age_fold:
  "fold (age_visit nw maxAge) xs (s, r, n) =
     (fold evictCall (map (c_id \<circ> snd) (filter (aged nw maxAge \<circ> snd) xs)) s,
      r @ kept_ended nw maxAge xs, n + length (filter (aged nw maxAge \<circ> snd) xs))"
  by (induction xs arbitrary: s r n) (auto simp: age_visit_def kept_ended_def aged_def)

lemma prune_as_evictions:
  "fst (pruneTerminalCalls maxAge maxRetained nw s) =
     fold evictCall (map (c_id \<circ> snd) (filter (aged nw maxAge \<circ> snd) (calls s)) @
                     over_ceiling maxRetained (kept_ended nw maxAge (calls s))) s"
proof -
  have "fold (\<lambda>(cid, _). evictCall cid) xs = fold evictCall (map fst xs)" for xs :: "(string \<times> int) list"
    by (induction xs) (auto simp: fun_eq_iff)
  then show ?thesis
    by (simp add: pruneTerminalCalls_def age_fold over_ceiling_def)
qed

lemma prune_registry_wf: "wf_registry s \<Longrightarrow> wf_registry (fst (pruneTerminalCalls maxAge maxRetained nw s))"
  by (simp add: prune_as_evictions evict_fold_wf)

lemma prune_get:
  "get_call (fst (pruneTerminalCalls maxAge maxRetained nw s)) k =
     (if k \<in> (c_id \<circ> snd) ` set (filter (aged nw maxAge \<circ> snd) (calls s)) \<union>
            set (over_ceiling maxRetained (kept_ended nw maxAge (calls s)))
      then None else get_call s k)"
  by (simp add: prune_as_evictions get_evict_fold)

lemma over_ceiling_subset: "k \<in> set (over_ceiling mr r) \<Longrightarrow> k \<in> fst ` set r"
  by (auto simp: over_ceiling_def dest!: in_set_takeD split: if_splits)

text \<open>An evicted call was terminal.\<close>

lemma evicted_terminal:
  assumes wf: "wf_registry s" and c: "get_call s k = Some c"
    and gone: "get_call (fst (pruneTerminalCalls maxAge maxRetained nw s)) k = None"
  shows "terminal (c_status c)"
proof -
  have "\<exists>k' d. (k', d) \<in> set (calls s) \<and> terminal (c_status d) \<and> c_id d = k"
    using gone c unfolding prune_get
    by (auto simp: aged_def kept_ended_def dest!: over_ceiling_subset split: if_splits) blast+
  then obtain k' d where d: "(k', d) \<in> set (calls s)" "terminal (c_status d)" "c_id d = k" by blast
  then have "get_call s k' = Some d"
    using wf_registry_distinct [OF wf] by (simp add: get_call_def map_of_eq_Some_iff)
  with wf_registryD [OF wf this] d c show ?thesis by simp
qed

section \<open>The operations of a running server\<close>

text \<open>
  One step of an instance that has no shared store: an operation of the domain, or a change of the
  presence stores. A new call's id is fresh (\<open>randomUUID\<close>), and the routes refuse a caller who
  calls themselves; participant changes are made to running calls
  (\<open>validateParticipantAction\<close> refuses terminal ones).
\<close>

inductive registry_step :: "server_state \<Rightarrow> server_state \<Rightarrow> bool" where
  step_create: "createCallRecord e a s = Inr (c, t) \<Longrightarrow> get_call s (uuid e (uuid_count s)) = None \<Longrightarrow>
     ca_caller a \<notin> set (create_invitees a) \<Longrightarrow> registry_step s t"
| step_transition: "transitionCall e cid to actor reason dev s = (r, t) \<Longrightarrow> registry_step s t"
| step_participant: "get_call s cid = Some c \<Longrightarrow> \<not> terminal (c_status c) \<Longrightarrow>
     ps \<in> {P_Joined, P_Left, P_Declined, P_Missed} \<Longrightarrow>
     updateCallParticipant e c u ps dev mirror s = t \<Longrightarrow> registry_step s t"
| step_heartbeat: "recordCallHeartbeat cid nw s = (b, t) \<Longrightarrow> registry_step s t"
| step_tick: "tickRingingTimeouts e nw tm s = (t, n) \<Longrightarrow> registry_step s t"
| step_supersede: "supersedeRedialledCalls e caller callee s = (t, cs) \<Longrightarrow> registry_step s t"
| step_disconnect: "endCallsForDisconnectedParticipant e u reason s = (t, n) \<Longrightarrow> registry_step s t"
| step_reconcile: "reconcileClientCallState e u claimed dev s = (t, cs) \<Longrightarrow> registry_step s t"
| step_sanitize: "sanitizeHydratedCalls e nw tm s = (t, n) \<Longrightarrow> registry_step s t"
| step_prune: "pruneTerminalCalls maxAge maxRetained nw s = (t, n) \<Longrightarrow> registry_step s t"
| step_presence: "t = s\<lparr>stores := st\<rparr> \<Longrightarrow> registry_step s t"

inductive registry_reachable :: "server_state \<Rightarrow> bool" where
  boot: "registry_reachable (initial_state bus db cache shared)"
| run: "registry_reachable s \<Longrightarrow> registry_step s t \<Longrightarrow> registry_reachable t"

inductive_cases registry_stepE: "registry_step s t"

lemma step_wf: "registry_step s t \<Longrightarrow> wf_registry s \<Longrightarrow> wf_registry t"
proof (induction rule: registry_step.induct)
  case (step_create e a s c t)
  then show ?case by (simp add: create_wf)
next
  case (step_transition e cid to actor reason dev s r t)
  then show ?case using transition_wf [of s e cid to actor reason dev] by simp
next
  case (step_participant s cid c ps e u dev mirror t)
  then show ?case by (auto intro!: update_participant_wf intro: wf_registry_call)
next
  case (step_heartbeat cid nw s b t)
  then show ?case using heartbeat_wf [of s cid nw] by simp
next
  case (step_tick e nw tm s t n)
  then show ?case using tick_wf [of s e nw tm] by simp
next
  case (step_supersede e caller callee s t cs)
  then show ?case
    using close_calls_wf [of s e _ "''superseded''"] by (metis fst_conv supersedeRedialledCalls_def)
next
  case (step_disconnect e u reason s t n)
  then show ?case
    using close_calls_wf [of s e participants_gone reason]
    by (auto simp: endCallsForDisconnectedParticipant_def split_beta split: if_splits)
next
  case (step_reconcile e u claimed dev s t cs)
  then show ?case
    using close_calls_wf [of s e "\<lambda>_. reconcilable u claimed dev" "''client_state_reconciled''"]
    by (auto simp: reconcileClientCallState_def split: if_splits) (metis fst_conv)
next
  case (step_sanitize e nw tm s t n)
  then show ?case using sanitize_wf [of s e nw tm] by simp
next
  case (step_prune maxAge maxRetained nw s t n)
  then show ?case using prune_registry_wf [of s maxAge maxRetained nw] by simp
next
  case (step_presence t s st)
  then show ?case by (simp add: wf_registry_def has_log_def)
qed

lemma initial_registry_wf: "wf_registry (initial_state bus db cache shared)"
  by (simp add: wf_registry_def initial_state_def get_call_def)

lemma reachable_wf: "registry_reachable s \<Longrightarrow> wf_registry s"
  by (induction rule: registry_reachable.induct) (simp_all add: initial_registry_wf step_wf)

section \<open>What a step does to one call\<close>

definition same_call :: "call_record \<Rightarrow> call_record \<Rightarrow> bool" where
  "same_call c c' = (c_id c' = c_id c \<and> c_caller c' = c_caller c \<and> c_callee c' = c_callee c \<and> c_created c' = c_created c)"

text \<open>
  The life of one registry entry: it appears ringing or already refused, changes along
  \<open>CALL_TRANSITIONS\<close> only, and disappears only once terminal.
\<close>

inductive entry_step :: "call_record option \<Rightarrow> call_record option \<Rightarrow> bool" where
  stays: "entry_step x x"
| appears: "c_status c \<in> {Ringing, Busy, Unreachable} \<Longrightarrow> entry_step None (Some c)"
| changes: "\<not> terminal (c_status c) \<Longrightarrow> same_call c c' \<Longrightarrow>
     c_status c' = c_status c \<or> c_status c' \<in> set (CALL_TRANSITIONS (c_status c)) \<Longrightarrow> entry_step (Some c) (Some c')"
| vanishes: "terminal (c_status c) \<Longrightarrow> entry_step (Some c) None"

inductive_simps entry_step_None: "entry_step None y"
inductive_simps entry_step_Some: "entry_step (Some c) y"

lemma same_call_refl [simp]: "same_call c c"
  by (simp add: same_call_def)

lemma same_call_simps [simp]:
  "same_call c (finalized nw to r d) = same_call c d" "same_call c (transitioned nw to ro dv d) = same_call c d"
  "same_call c (with_participant nw u ps dv d) = same_call c d" "same_call c (d\<lparr>c_heartbeat := h\<rparr>) = same_call c d"
  by (simp_all add: same_call_def)

lemma ring_record_same [simp]: "same_call c (fst (ring_record e nw c))"
proof -
  have "same_call c (fst (fold (ring_record_at e nw) is (d, b))) = same_call c d" for "is" d b
    by (induction "is" arbitrary: d b) (simp_all add: ring_record_at_def Let_def)
  then show ?thesis by (simp add: ring_record_def)
qed

lemma ring_record_idle:
  assumes "\<forall>p \<in> set (or_empty (c_parts c)). \<not> ring_expired nw p"
  shows "ring_record e nw c = (c, False)"
proof -
  have "fold (ring_record_at e nw) is (c, False) = (c, False)" for "is"
    using assms by (induction "is") (auto simp: ring_record_at_def Let_def)
  then show ?thesis by (simp add: ring_record_def)
qed

lemma expiry_allowed: "getCallExpiry clock tm c = Some x \<Longrightarrow> x_status x \<in> set (CALL_TRANSITIONS (c_status c))"
  by (auto simp: getCallExpiry_def Let_def split: call_status.splits if_splits)

lemma expiry_not_terminal: "getCallExpiry clock tm c = Some x \<Longrightarrow> \<not> terminal (c_status c)"
  by (auto simp: getCallExpiry_def split: if_splits)

lemma tick_record_terminal: "wf_call c \<Longrightarrow> terminal (c_status c) \<Longrightarrow> tick_record e nw tm c = c"
  using ring_record_idle [of c nw e]
  by (auto simp: tick_record_def wf_call_def ring_expired_def getCallExpiry_def)

lemma tick_record_step: "wf_call c \<Longrightarrow> entry_step (Some c) (Some (tick_record e nw tm c))"
proof (cases "terminal (c_status c)")
  case True
  then show "wf_call c \<Longrightarrow> ?thesis" by (simp add: tick_record_terminal stays)
next
  case False
  obtain c' b where c': "ring_record e nw c = (c', b)" by fastforce
  have same: "same_call c c'" "c_status c' = c_status c"
    using ring_record_same [of c e nw] ring_record_id(2) [of e nw c] by (simp_all add: c')
  have "same_call c (tick_record e nw tm c) \<and>
      (c_status (tick_record e nw tm c) = c_status c \<or>
       c_status (tick_record e nw tm c) \<in> set (CALL_TRANSITIONS (c_status c)))"
    using same expiry_allowed [of "now e" tm c'] by (auto simp: tick_record_def c' split: option.split)
  with False show ?thesis by (auto intro: changes)
qed

lemma sanitize_record_step: "entry_step (Some c) (Some (sanitize_record e nw tm c))"
proof (cases "getCallExpiry (now e) tm c")
  case None
  then show ?thesis by (simp add: sanitize_record_def stays)
next
  case (Some x)
  then show ?thesis
    using expiry_allowed [OF Some] expiry_not_terminal [OF Some]
    by (auto simp: sanitize_record_def stays intro: changes)
qed

lemma finalized_step:
  "wf_call c \<Longrightarrow> \<not> terminal (c_status c) \<Longrightarrow> entry_step (Some c) (Some (finalized nw Ended r c))"
  by (rule changes) (auto simp: wf_call_def)

lemma close_active_step:
  "wf_registry s \<Longrightarrow>
     entry_step (get_call s k) (get_call (fst (close_calls e cond r (getActiveCallsForUser nw st u s) s)) k)"
  by (cases "get_call s k")
    (auto simp: close_active_get active_for_def intro: stays finalized_step wf_registry_call)

lemma map_entry_step:
  "(\<And>c. get_call s k = Some c \<Longrightarrow> entry_step (Some c) (Some (f c))) \<Longrightarrow>
     entry_step (get_call s k) (map_option f (get_call s k))"
  by (cases "get_call s k") (auto intro: stays)

lemma step_entry:
  assumes "registry_step s t" and wf: "wf_registry s"
  shows "entry_step (get_call s k) (get_call t k)"
  using assms(1)
proof cases
  case (step_create e a c)
  from step_create(1) show ?thesis
  proof (rule createCallRecord_cases)
    fix u
    assume c: "c = new_call e a (uuid e (uuid_count s)) u s"
      and t: "\<And>k. get_call t k = (if k = uuid e (uuid_count s) then Some c else get_call s k)"
    have "c_status c \<in> {Ringing, Busy, Unreachable}"
      by (simp add: c new_call_fields(2) resolve_verdict)
    with step_create(2) show ?thesis by (auto simp: t intro: stays appears)
  qed
next
  case (step_transition e cid to actor reason dev r)
  show ?thesis
  proof (rule transitionCall_cases [of e cid to actor reason dev s])
    fix c t'
    assume c: "get_call s cid = Some c" "to \<in> set (CALL_TRANSITIONS (c_status c))"
      and t': "transitionCall e cid to actor reason dev s = (Inr (transitioned (now e) to reason dev c), t')"
        "\<And>k. get_call t' k = (if k = c_id c then map_option (\<lambda>_. transitioned (now e) to reason dev c) (get_call s k)
              else get_call s k)"
    have "t = t'" using step_transition t' by simp
    moreover have "entry_step (Some c) (Some (transitioned (now e) to reason dev c))"
      using transition_allowed [OF c(2)] c(2) by (auto intro: changes)
    ultimately show ?thesis
      using wf_registryD [OF wf c(1)] c(1) by (auto simp: t'(2) intro: stays)
  qed (use step_transition in \<open>simp_all add: stays\<close>)
next
  case (step_participant cid c ps e u dev mirror)
  have "entry_step (Some c) (Some (with_participant (now e) u ps dev c))"
    using step_participant by (auto intro: changes)
  with step_participant wf_registryD [OF wf step_participant(1)] show ?thesis
    by (auto simp: stays)
next
  case (step_heartbeat cid nw b)
  then show ?thesis
    using wf_registryD [OF wf, of cid]
    by (auto simp: recordCallHeartbeat_def Let_def stays intro!: changes split: option.splits if_splits)
next
  case (step_tick e nw tm n)
  then have t: "t = fst (tickRingingTimeouts e nw tm s)" by simp
  show ?thesis
    unfolding t tick_get [OF wf_registry_keyed [OF wf] wf_registry_distinct [OF wf]]
    by (rule map_entry_step) (rule tick_record_step [OF wf_registry_call [OF wf]])
next
  case (step_supersede e caller callee cs)
  then show ?thesis using close_active_step [OF wf] by (metis fst_conv supersedeRedialledCalls_def)
next
  case (step_disconnect e u reason n)
  then show ?thesis
    using close_active_step [OF wf, of k e participants_gone reason "now e" 0 u]
    by (auto simp: endCallsForDisconnectedParticipant_def split_beta stays split: if_splits)
next
  case (step_reconcile e u claimed dev cs)
  then show ?thesis
    using close_active_step [OF wf, of k e "\<lambda>_. reconcilable u claimed dev" "''client_state_reconciled''" "now e" 0 u]
    by (auto simp: reconcileClientCallState_def stays split: if_splits)
next
  case (step_sanitize e nw tm n)
  then have t: "t = fst (sanitizeHydratedCalls e nw tm s)" by simp
  show ?thesis
    unfolding t sanitize_get [OF wf_registry_keyed [OF wf] wf_registry_distinct [OF wf]]
    by (rule map_entry_step) (rule sanitize_record_step)
next
  case (step_prune maxAge maxRetained nw n)
  then have t: "t = fst (pruneTerminalCalls maxAge maxRetained nw s)" by simp
  show ?thesis
  proof (cases "get_call t k = get_call s k")
    case False
    then have None: "get_call t k = None" by (auto simp: t prune_get split: if_splits)
    with False obtain c where "get_call s k = Some c" by (cases "get_call s k") auto
    with None evicted_terminal [OF wf this] show ?thesis
      unfolding t by (auto intro: vanishes)
  qed (simp add: stays)
next
  case (step_presence st)
  then show ?thesis by (simp add: stays)
qed

section \<open>The sweep leaves no overdue ring\<close>

lemma with_participant_parts:
  assumes "c_parts c = Some ps" and "distinct (map p_user ps)" and "i < length ps"
  shows "c_parts (with_participant nw (p_user (ps ! i)) pst d c) = Some (ps[i := moved_participant nw pst d (ps ! i)])"
  using assms by (simp add: with_participant_def call_participants_def update_first_nth)

lemma missed_not_expired [simp]: "\<not> ring_expired nw (moved_participant nw' P_Missed d p)"
  by (simp add: ring_expired_def)

text \<open>One round of the loop settles participant \<open>i\<close> and no other.\<close>

lemma ring_record_at_parts:
  assumes "c_parts c = Some ps" and "distinct (map p_user ps)" and "ring_record_at e nw i (c, b) = (c', b')"
  obtains ps' where "c_parts c' = Some ps'" "map p_user ps' = map p_user ps"
    "\<And>j. j < length ps \<Longrightarrow> ring_expired nw (ps' ! j) \<longleftrightarrow> j \<noteq> i \<and> ring_expired nw (ps ! j)"
proof (cases "i < length ps \<and> ring_expired nw (ps ! i)")
  case True
  let ?ps = "ps[i := moved_participant (now e) P_Missed None (ps ! i)]"
  have "c_parts c' = Some ?ps"
    using True assms with_participant_parts [OF assms(1,2)] by (auto simp: ring_record_at_def Let_def)
  moreover have "map p_user ?ps = map p_user ps"
    using True by (metis list_update_id map_update moved_participant_user)
  moreover have "ring_expired nw (?ps ! j) \<longleftrightarrow> j \<noteq> i \<and> ring_expired nw (ps ! j)" if "j < length ps" for j
    using that by (cases "j = i") simp_all
  ultimately show ?thesis by (rule that)
next
  case False
  then have "c' = c" using assms by (auto simp: ring_record_at_def Let_def)
  with False assms show ?thesis by (intro that [of ps]) auto
qed

lemma ring_fold_settles:
  assumes "c_parts c = Some ps" and "distinct (map p_user ps)" and "fold (ring_record_at e nw) is (c, b) = (c', b')"
  shows "\<exists>ps'. c_parts c' = Some ps' \<and> map p_user ps' = map p_user ps \<and>
     (\<forall>j < length ps. ring_expired nw (ps' ! j) \<longleftrightarrow> j \<notin> set is \<and> ring_expired nw (ps ! j))"
  using assms
proof (induction "is" arbitrary: c b ps)
  case Nil
  then show ?case by simp
next
  case (Cons i "is")
  obtain c1 b1 where c1: "ring_record_at e nw i (c, b) = (c1, b1)" by fastforce
  from ring_record_at_parts [OF Cons.prems(1,2) c1] obtain ps1 where ps1: "c_parts c1 = Some ps1"
    "map p_user ps1 = map p_user ps"
    "\<And>j. j < length ps \<Longrightarrow> ring_expired nw (ps1 ! j) \<longleftrightarrow> j \<noteq> i \<and> ring_expired nw (ps ! j)" by blast
  have len: "length ps1 = length ps" using ps1(2) by (metis length_map)
  have "\<exists>ps'. c_parts c' = Some ps' \<and> map p_user ps' = map p_user ps1 \<and>
     (\<forall>j < length ps1. ring_expired nw (ps' ! j) \<longleftrightarrow> j \<notin> set is \<and> ring_expired nw (ps1 ! j))"
    by (rule Cons.IH [OF ps1(1)]) (use Cons.prems ps1(2) c1 in simp_all)
  with ps1(2,3) len show ?case by auto
qed

lemma ring_record_settled:
  assumes "wf_call c" and "p \<in> set (or_empty (c_parts (fst (ring_record e nw c))))"
  shows "\<not> ring_expired nw p"
proof (cases "c_parts c")
  case None
  with assms show ?thesis by (simp add: ring_record_def)
next
  case (Some ps)
  obtain c' b where c': "ring_record e nw c = (c', b)" by fastforce
  have dist: "distinct (map p_user ps)"
    using assms(1) Some by (simp add: wf_call_def call_participants_def)
  have run: "fold (ring_record_at e nw) [0..<length ps] (c, False) = (c', b)"
    using c' by (simp add: ring_record_def Some)
  from ring_fold_settles [OF Some dist run] obtain ps' where ps': "c_parts c' = Some ps'"
    "map p_user ps' = map p_user ps"
    "\<forall>j < length ps. ring_expired nw (ps' ! j) \<longleftrightarrow> j \<notin> set [0..<length ps] \<and> ring_expired nw (ps ! j)"
    by blast
  have "length ps' = length ps" using ps'(2) by (metis length_map)
  with ps'(1,3) assms(2) c' show ?thesis by (auto simp: in_set_conv_nth)
qed

lemma ring_record_timed_out:
  "snd (ring_record e nw c) \<Longrightarrow> c_updated (fst (ring_record e nw c)) = Some (At (now e))"
proof -
  have "snd (fold (ring_record_at e nw) is (d, b)) \<Longrightarrow> (b \<longrightarrow> c_updated d = Some (At (now e))) \<Longrightarrow>
      c_updated (fst (fold (ring_record_at e nw) is (d, b))) = Some (At (now e))" for "is" d b
  proof (induction "is" arbitrary: d b)
    case (Cons i "is")
    obtain d1 b1 where d1: "ring_record_at e nw i (d, b) = (d1, b1)" by fastforce
    have "b1 \<longrightarrow> c_updated d1 = Some (At (now e))"
      using d1 Cons.prems(2)
      by (auto simp: ring_record_at_def Let_def with_participant_def call_participants_def
          split: if_splits option.splits)
    with Cons.IH [of d1 b1] Cons.prems(1) show ?case by (simp add: d1)
  qed simp
  then show "snd (ring_record e nw c) \<Longrightarrow> ?thesis" by (simp add: ring_record_def)
qed

lemma closed_not_expired [simp]: "\<not> ring_expired nw (close_participant nw' p)"
  by (simp add: ring_expired_def)

lemma tick_record_settled:
  assumes wf: "wf_call c" and p: "p \<in> set (or_empty (c_parts (tick_record e nw tm c)))"
  shows "\<not> ring_expired nw p"
proof -
  obtain c' b where c': "ring_record e nw c = (c', b)" by fastforce
  have "tick_record e nw tm c = c' \<or> (\<exists>to r. tick_record e nw tm c = finalized nw to r c')"
    by (cases "getCallExpiry (now e) tm c'") (auto simp: tick_record_def c')
  then consider "tick_record e nw tm c = c'" | to r where "tick_record e nw tm c = finalized nw to r c'" by blast
  then show ?thesis
  proof cases
    case 1
    with p ring_record_settled [OF wf, of p e nw] c' show ?thesis by simp
  next
    case (2 to r)
    with p show ?thesis by (cases "c_parts c'") auto
  qed
qed

lemma expiry_total:
  "wf_call c \<Longrightarrow> \<not> terminal (c_status c) \<Longrightarrow> getCallExpiry clock tm c \<noteq> None"
  by (auto simp: wf_call_def getCallExpiry_def Let_def)

lemma ring_record_wf: "wf_call c \<Longrightarrow> wf_call (fst (ring_record e nw c))"
proof -
  have "wf_call d \<Longrightarrow> wf_call (fst (fold (ring_record_at e nw) is (d, b)))" for "is" d b
    by (induction "is" arbitrary: d b) (simp_all add: ring_record_at_def Let_def with_participant_wf)
  then show "wf_call c \<Longrightarrow> ?thesis" by (simp add: ring_record_def)
qed

text \<open>A call the sweep leaves running has not reached its deadline, or has just had one of its rings expire.\<close>

lemma tick_record_due:
  assumes wf: "wf_call c" and live: "\<not> terminal (c_status (tick_record e nw tm c))"
  shows "(\<exists>x. getCallExpiry (now e) tm (tick_record e nw tm c) = Some x \<and> nw < x_deadline x) \<or>
     (c_status (tick_record e nw tm c) = Ringing \<and> hasPendingCallInvitee (tick_record e nw tm c) \<and>
      c_updated (tick_record e nw tm c) = Some (At (now e)) \<and> (\<exists>p \<in> set (or_empty (c_parts c)). ring_expired nw p))"
proof -
  obtain c' b where c': "ring_record e nw c = (c', b)" by fastforce
  have wf': "wf_call c'" using ring_record_wf [OF wf, of e nw] by (simp add: c')
  have status: "c_status c' = c_status c" using ring_record_id(2) [of e nw c] by (simp add: c')
  show ?thesis
  proof (cases "b \<and> c_status c' = Ringing \<and> hasPendingCallInvitee c'")
    case True
    moreover from this have "\<exists>p \<in> set (or_empty (c_parts c)). ring_expired nw p" using ring_record_idle [of c nw e] c' by auto
    ultimately show ?thesis using ring_record_timed_out [of e nw c] c' by (simp add: tick_record_def)
  next
    case False
    note undecided = this
    then show ?thesis
    proof (cases "b \<and> c_status c' = Ringing")
      case True
      with undecided live show ?thesis by (simp add: tick_record_def c')
    next
      case not_rung: False
      have "\<not> terminal (c_status c')"
      proof
        assume "terminal (c_status c')"
        then have "terminal (c_status c)" by (simp add: status)
        with live tick_record_terminal [OF wf] show False by simp
      qed
      then obtain x where x: "getCallExpiry (now e) tm c' = Some x"
        using expiry_total [OF wf'] by blast
      have "nw < x_deadline x"
      proof (rule ccontr)
        assume "\<not> nw < x_deadline x"
        then have "tick_record e nw tm c = finalized nw (x_status x) (x_reason x) c'"
          using not_rung x by (auto simp: tick_record_def c')
        with live expiry_terminal [OF x] show False by simp
      qed
      with x not_rung show ?thesis by (auto simp: tick_record_def c')
    qed
  qed
qed

lemma wf_call_connected: "wf_call c \<Longrightarrow> \<not> terminal (c_status c) \<Longrightarrow> connected_status (c_status c) \<longleftrightarrow> c_status c \<noteq> Ringing"
  by (cases "c_status c") (simp_all add: wf_call_def connected_status_def)

lemma whole_seconds_round:
  assumes "0 \<le> ms"
  shows "\<bar>2 * (1000 * whole_seconds ms - ms)\<bar> \<le> 1000"
proof -
  obtain q r where q: "(ms + 500) div 1000 = q" and r: "(ms + 500) mod 1000 = r" by simp
  have "ms + 500 = 1000 * q + r" "0 \<le> r" "r < 1000"
    using q r mult_div_mod_eq [of 1000 "ms + 500"] by auto
  moreover from this assms have "0 \<le> q" by linarith
  ultimately show ?thesis by (simp add: whole_seconds_def q abs_le_iff)
qed

end
