(* ===== verification/CallRetention.thy ===== *)
theory CallRetention
  imports CallInvariants
begin

text \<open>
  What \<open>pruneTerminalCalls\<close> keeps and evicts, by lookup: the age bound, the ceiling, which calls the
  ceiling takes and how many are evicted.
\<close>

lemma calls_entry: "wf_registry s \<Longrightarrow> (k, c) \<in> set (calls s) \<longleftrightarrow> get_call s k = Some c"
  by (simp add: get_call_def map_of_eq_Some_iff wf_registry_distinct)

lemma kept_ended_iff:
  "wf_registry s \<Longrightarrow> (k, x) \<in> set (kept_ended nw ma (calls s)) \<longleftrightarrow>
     (\<exists>c. get_call s k = Some c \<and> terminal (c_status c) \<and> \<not> aged nw ma c \<and> x = ended_at nw c)"
  by (auto simp: kept_ended_def calls_entry dest: wf_registryD intro!: image_eqI)
    (metis calls_entry wf_registryD)

lemma kept_ended_distinct: "wf_registry s \<Longrightarrow> distinct (map fst (kept_ended nw ma (calls s)))"
proof -
  assume wf: "wf_registry s"
  have "map fst (kept_ended nw ma (calls s)) =
      map fst (filter (\<lambda>(_, c). terminal (c_status c) \<and> \<not> aged nw ma c) (calls s))"
    using wf_registryD [OF wf] by (auto simp: kept_ended_def calls_entry [OF wf])
  with wf_registry_distinct [OF wf] show ?thesis by (simp add: distinct_map_filter)
qed

lemma aged_ids:
  "wf_registry s \<Longrightarrow> k \<in> (c_id \<circ> snd) ` set (filter (aged nw ma \<circ> snd) (calls s)) \<longleftrightarrow>
     (\<exists>c. get_call s k = Some c \<and> aged nw ma c)"
proof -
  assume wf: "wf_registry s"
  show ?thesis
  proof
    assume "k \<in> (c_id \<circ> snd) ` set (filter (aged nw ma \<circ> snd) (calls s))"
    then obtain k' c where c: "(k', c) \<in> set (calls s)" "aged nw ma c" "k = c_id c" by auto
    then have "get_call s k' = Some c" by (simp add: calls_entry [OF wf])
    with wf_registryD [OF wf this] c show "\<exists>c. get_call s k = Some c \<and> aged nw ma c" by auto
  next
    assume "\<exists>c. get_call s k = Some c \<and> aged nw ma c"
    then obtain c where c: "get_call s k = Some c" "aged nw ma c" by blast
    then have "(k, c) \<in> set (filter (aged nw ma \<circ> snd) (calls s))" by (simp add: calls_entry [OF wf])
    moreover have "k = (c_id \<circ> snd) (k, c)" using wf_registryD [OF wf c(1)] by simp
    ultimately show "k \<in> (c_id \<circ> snd) ` set (filter (aged nw ma \<circ> snd) (calls s))" by (rule rev_image_eqI)
  qed
qed

lemma over_ceiling_take:
  "0 < mr \<Longrightarrow> over_ceiling mr r = map fst (take (length r - nat mr) (sort_key snd r))"
  by (auto simp: over_ceiling_def)

lemma ceiling_parts:
  assumes "0 < mr" and "distinct (map fst r)"
  defines "rest \<equiv> drop (length r - nat mr) (sort_key snd r)"
  shows "length rest \<le> nat mr" and "fst ` set r - set (over_ceiling mr r) = fst ` set rest"
    and "x \<in> set r \<Longrightarrow> fst x \<in> set (over_ceiling mr r) \<Longrightarrow> y \<in> set rest \<Longrightarrow> snd x \<le> snd y"
proof -
  let ?m = "length r - nat mr"
  let ?q = "sort_key snd r"
  show "length rest \<le> nat mr" by (simp add: rest_def)
  have split: "set ?q = set (take ?m ?q) \<union> set rest"
    unfolding rest_def by (metis append_take_drop_id set_append)
  have "distinct (map fst ?q)"
    using assms(2) by (metis distinct_map distinct_sort set_sort)
  then have dist: "distinct (map fst (take ?m ?q) @ map fst rest)"
    unfolding rest_def by (metis append_take_drop_id map_append)
  have over: "set (over_ceiling mr r) = fst ` set (take ?m ?q)"
    by (simp add: over_ceiling_take [OF assms(1)])
  have disj: "fst ` set (take ?m ?q) \<inter> fst ` set rest = {}" using dist by auto
  have "fst ` set r = fst ` set (take ?m ?q) \<union> fst ` set rest"
    using split by (simp flip: image_Un)
  then show "fst ` set r - set (over_ceiling mr r) = fst ` set rest"
    using disj unfolding over by (simp add: Un_Diff Diff_triv Int_commute)
  assume x: "x \<in> set r" "fst x \<in> set (over_ceiling mr r)" and y: "y \<in> set rest"
  have "x \<in> set (take ?m ?q)"
  proof (rule ccontr)
    assume "x \<notin> set (take ?m ?q)"
    with x(1) split have "x \<in> set rest" by auto
    with x(2) over disj show False by blast
  qed
  with y show "snd x \<le> snd y"
    unfolding rest_def by (intro take_sorted_le [of snd ?q]) simp_all
qed

text \<open>The whole effect of the retention sweep, by lookup.\<close>

lemma prune_lookup_calls:
  assumes wf: "wf_registry s"
  shows "get_call (fst (pruneTerminalCalls ma mr nw s)) k =
     (case get_call s k of
        None \<Rightarrow> None
      | Some c \<Rightarrow> if aged nw ma c \<or> k \<in> set (over_ceiling mr (kept_ended nw ma (calls s))) then None else Some c)"
proof -
  have "\<exists>c. get_call s k = Some c" if "k \<in> set (over_ceiling mr (kept_ended nw ma (calls s)))"
    using over_ceiling_subset [OF that] kept_ended_iff [OF wf, of _ _ nw ma] by fastforce
  then show ?thesis
    unfolding prune_get Un_iff aged_ids [OF wf] by (cases "get_call s k") auto
qed

lemma over_ceiling_kept:
  "wf_registry s \<Longrightarrow> k \<in> set (over_ceiling mr (kept_ended nw ma (calls s))) \<Longrightarrow> get_call s k = Some c \<Longrightarrow>
     terminal (c_status c) \<and> \<not> aged nw ma c \<and> (k, ended_at nw c) \<in> set (kept_ended nw ma (calls s))"
  by (drule over_ceiling_subset) (auto simp: kept_ended_iff)

lemma prune_count:
  assumes wf: "wf_registry s"
  shows "snd (pruneTerminalCalls ma mr nw s) =
     card {k. get_call s k \<noteq> None \<and> get_call (fst (pruneTerminalCalls ma mr nw s)) k = None}"
proof -
  let ?r = "kept_ended nw ma (calls s)"
  let ?a = "map fst (filter (aged nw ma \<circ> snd) (calls s))"
  have count: "snd (pruneTerminalCalls ma mr nw s) = length ?a + length (over_ceiling mr ?r)"
    by (simp add: pruneTerminalCalls_def age_fold over_ceiling_def)
  have a: "distinct ?a" using wf_registry_distinct [OF wf] by (simp add: distinct_map_filter)
  have "distinct (map fst (sort_key snd ?r))"
    using kept_ended_distinct [OF wf, of nw ma] by (metis distinct_map distinct_sort set_sort)
  then have o: "distinct (over_ceiling mr ?r)"
    by (simp add: over_ceiling_def take_map [symmetric])
  have a_iff: "k \<in> set ?a \<longleftrightarrow> (\<exists>c. get_call s k = Some c \<and> aged nw ma c)" for k
    by (auto simp: calls_entry [OF wf] image_iff)
  have disj: "set ?a \<inter> set (over_ceiling mr ?r) = {}"
    using over_ceiling_kept [OF wf] a_iff by blast
  have "{k. get_call s k \<noteq> None \<and> get_call (fst (pruneTerminalCalls ma mr nw s)) k = None} =
      set ?a \<union> set (over_ceiling mr ?r)"
  proof (rule set_eqI)
    fix k
    have "k \<in> set (over_ceiling mr ?r) \<Longrightarrow> get_call s k \<noteq> None"
      using over_ceiling_subset [of k mr ?r] kept_ended_iff [OF wf, of k _ nw ma] by fastforce
    then show "k \<in> {k. get_call s k \<noteq> None \<and> get_call (fst (pruneTerminalCalls ma mr nw s)) k = None} \<longleftrightarrow>
        k \<in> set ?a \<union> set (over_ceiling mr ?r)"
      unfolding Un_iff a_iff mem_Collect_eq prune_lookup_calls [OF wf] by (cases "get_call s k") auto
  qed
  with a o disj show ?thesis
    by (simp add: count card_Un_disjoint distinct_card del: set_map)
qed

end
