(* ===== verification/CallProperties.thy ===== *)
theory CallProperties
  imports CallRetention
begin

text \<open>
  The properties of the call registry (\<open>server/src/domain/calls.ts\<close>), each over the definitions of
  \<open>Calls\<close> and \<open>CallSweeps\<close>, with the concrete registry their witnesses run on: one ring from alice to
  bob, placed at time 1000000 on an instance with a message bus.
\<close>

section \<open>A concrete run\<close>

definition demo_env :: env where
  "demo_env = \<lparr>now = 1000000, uuid = (\<lambda>n. ''id-'' @ replicate n (CHR ''1'')), max_push = 3\<rparr>"

definition demo_later :: "int \<Rightarrow> env" where
  "demo_later d = demo_env\<lparr>now := 1000000 + d\<rparr>"

definition demo_args :: create_args where
  "demo_args = \<lparr>ca_caller = ''alice'', ca_callee = Some ''bob'', ca_callees = None, ca_ringing_ms = 120000,
     ca_device = Some ''phone'', ca_media = Audio\<rparr>"

definition demo_idle :: server_state where
  "demo_idle = initial_state True False False False"

definition demo_call :: call_record where
  "demo_call = \<lparr>c_id = ''id-'', c_media = Some Audio, c_caller = ''alice'', c_callee = ''bob'',
     c_parts = Some [\<lparr>p_user = ''alice'', p_state = P_Joined, p_ring_timeout = None,
                      p_joined = Some (At 1000000), p_left = None, p_device = Some ''phone''\<rparr>,
                     \<lparr>p_user = ''bob'', p_state = P_Ringing, p_ring_timeout = Some (At 1120000),
                      p_joined = None, p_left = None, p_device = None\<rparr>],
     c_status = Ringing, c_end_reason = None, c_duration = None, c_created = At 1000000,
     c_updated = Some (At 1000000), c_missed_read = None, c_ring_timeout = Some (At 1120000),
     c_answered = None, c_heartbeat = None, c_caller_device = Some ''phone'', c_callee_device = None\<rparr>"

definition demo_ringing :: server_state where
  "demo_ringing = demo_idle\<lparr>calls := [(''id-'', demo_call)],
     call_events := [(''id-'', [\<lparr>ev_id = ''id-1'', ev_call = ''id-'', ev_event = ''created'',
       ev_actor = Some ''alice'', ev_reason = None, ev_timestamp = At 1000000\<rparr>])],
     uuid_count := 2\<rparr>"

lemma demo_create: "createCallRecord demo_env demo_args demo_idle = Inr (demo_call, demo_ringing)"
  by code_simp

lemma demo_get: "get_call demo_ringing k = (if k = ''id-'' then Some demo_call else None)"
  by (simp add: demo_ringing_def get_call_def)

lemma demo_idle_get: "get_call demo_idle k = None"
  by (simp add: demo_idle_def initial_state_def get_call_def)

lemma demo_reachable: "registry_reachable demo_ringing"
proof (rule registry_reachable.run)
  show "registry_reachable demo_idle"
    unfolding demo_idle_def by (rule registry_reachable.boot)
  show "registry_step demo_idle demo_ringing"
    by (rule registry_step.step_create [OF demo_create])
      (simp add: demo_idle_get, code_simp)
qed

lemma demo_wf: "wf_registry demo_ringing"
  by (rule reachable_wf [OF demo_reachable])

text \<open>The same call, ended a minute later, and as a running conversation.\<close>

definition demo_over :: server_state where
  "demo_over = snd (transitionCall (demo_later 60000) ''id-'' Ended (Some ''alice'') (Some ''user_hangup'') None demo_ringing)"

definition demo_ended :: call_record where
  "demo_ended = the (get_call demo_over ''id-'')"

lemma demo_over_reachable: "registry_reachable demo_over"
  by (rule registry_reachable.run [OF demo_reachable],
      rule registry_step.step_transition [where e = "demo_later 60000" and cid = "''id-''" and to = Ended])
    (simp add: demo_over_def prod_eq_iff)

lemma demo_over_get: "get_call demo_over ''id-'' = Some demo_ended" "terminal (c_status demo_ended)"
  by code_simp+

section \<open>Transitions\<close>

text \<open>
  The complete behaviour of \<open>transitionCall\<close>: unknown call 404; the status it already has, an
  idempotent success; a terminal call 409 \<open>terminal_state\<close>; a step the table does not list 409
  \<open>invalid_transition\<close>; in all of these the whole server state is untouched. Otherwise the record is
  rewritten in place, and no other call changes.
\<close>

theorem transitionCall_spec:
  "case get_call s cid of
     None \<Rightarrow> transitionCall e cid to actor r d s = (Inl \<lparr>f_status = 404, f_error = ''not_found'', f_message = None\<rparr>, s)
   | Some c \<Rightarrow>
       (if c_status c = to then transitionCall e cid to actor r d s = (Inr c, s)
        else if to \<in> set (CALL_TRANSITIONS (c_status c)) then
          (\<exists>t. transitionCall e cid to actor r d s = (Inr (transitioned (now e) to r d c), t) \<and>
               stores t = stores s \<and>
               (\<forall>k. get_call t k = (if k = c_id c then map_option (\<lambda>_. transitioned (now e) to r d c) (get_call s k)
                                   else get_call s k)))
        else (\<exists>f. transitionCall e cid to actor r d s = (Inl f, s) \<and> f_status f = 409 \<and>
               f_error f = (if terminal (c_status c) then ''terminal_state'' else ''invalid_transition'')))"
proof (cases "get_call s cid")
  case None
  then show ?thesis by (simp add: transitionCall_def)
next
  case (Some c)
  show ?thesis
  proof (rule transitionCall_cases [of e cid to actor r d s])
    fix f
    assume "transitionCall e cid to actor r d s = (Inl f, s)"
    moreover assume "case get_call s cid of None \<Rightarrow> f = \<lparr>f_status = 404, f_error = ''not_found'', f_message = None\<rparr>
       | Some c \<Rightarrow> c_status c \<noteq> to \<and> to \<notin> set (CALL_TRANSITIONS (c_status c)) \<and> f_status f = 409 \<and>
           f_error f = (if terminal (c_status c) then ''terminal_state'' else ''invalid_transition'')"
    ultimately show ?thesis using Some by simp
  qed (use Some in auto)
qed

text \<open>
  The duration of a finished call: zero unless it was connected, else the seconds since it was
  answered, rounded to the nearest; the rounding error is at most half a second.
\<close>

theorem call_duration_correct:
  assumes "registry_reachable s" and "get_call s cid = Some c" and "terminal to"
    and "c_status c \<noteq> to" and "to \<in> set (CALL_TRANSITIONS (c_status c))"
    and "c_status c \<noteq> Ringing \<Longrightarrow> c_answered c = Some (At t0)" and "t0 \<le> now e"
  shows "\<exists>c' t d. transitionCall e cid to actor r dev s = (Inr c', t) \<and> c_duration c' = Some d \<and>
     (if c_status c = Ringing then d = 0 else \<bar>2 * (1000 * d - (now e - t0))\<bar> \<le> 1000)"
proof -
  note wf = wf_registry_call [OF reachable_wf [OF assms(1)] assms(2)]
  have connected: "connected_status (c_status c) \<longleftrightarrow> c_status c \<noteq> Ringing"
    using wf_call_connected [OF wf] transition_allowed [OF assms(5)] by blast

  show ?thesis
  proof (rule transitionCall_cases [of e cid to actor r dev s])
    fix c1 t
    assume "get_call s cid = Some c1"
      and t: "transitionCall e cid to actor r dev s = (Inr (transitioned (now e) to r dev c1), t)"
    then have "c1 = c" using assms(2) by simp
    moreover have "c_duration (transitioned (now e) to r dev c) =
        Some (if c_status c = Ringing then 0 else whole_seconds (now e - t0))"
      using assms(3,6) connected
      by (simp add: transitioned_def Let_def computeDurationSeconds_def toTimestamp_def)
    ultimately show ?thesis using t whole_seconds_round [of "now e - t0"] assms(7) by auto
  next
    fix f assume "case get_call s cid of None \<Rightarrow> f = \<lparr>f_status = 404, f_error = ''not_found'', f_message = None\<rparr>
       | Some c \<Rightarrow> c_status c \<noteq> to \<and> to \<notin> set (CALL_TRANSITIONS (c_status c)) \<and> f_status f = 409 \<and>
           f_error f = (if terminal (c_status c) then ''terminal_state'' else ''invalid_transition'')"
    then show ?thesis using assms(2,5) by simp
  qed (use assms(2,4) in auto)
qed

lemma call_duration_correct_witness:
  "\<exists>c' t d. transitionCall (demo_later 60000) ''id-'' Ended None None None demo_ringing = (Inr c', t) \<and>
     c_duration c' = Some d \<and> d = 0"
  using call_duration_correct [OF demo_reachable, of "''id-''" demo_call Ended 0 "demo_later 60000" None None None]
  by (simp add: demo_get demo_call_def demo_later_def demo_env_def)

section \<open>Creation\<close>

text \<open>
  The verdict on a new call: it rings exactly when some invitee has no live call of their own and
  (on a single instance) can be reached; if every invitee is in a call it is recorded as busy, else as
  unreachable. The verdict is stored under a fresh id and every other call is left alone; only a
  ringing call carries a ring timeout, and a refused one is closed with duration 0.
\<close>

theorem createCallRecord_verdict:
  assumes "createCallRecord e a s = Inr (c, t)"
  defines "free u \<equiv> getActiveCallsForUser (now e) (ca_ringing_ms a) u s = []"
    and "reachable u \<equiv> \<not> (isSingleInstanceMode s \<and> isCalleeUnreachable e u s)"
  shows "c_status c =
      (if \<exists>u \<in> set (create_invitees a). free u \<and> reachable u then Ringing
       else if \<exists>u \<in> set (create_invitees a). free u then Unreachable else Busy) \<and>
    c_ring_timeout c = (if c_status c = Ringing then Some (At (now e + ca_ringing_ms a)) else None) \<and>
    c_duration c = (if c_status c = Ringing then None else Some 0) \<and>
    get_call t k = (if k = uuid e (uuid_count s) then Some c else get_call s k)"
proof -
  obtain u where c: "c = new_call e a (uuid e (uuid_count s)) u s"
    and t: "get_call t k = (if k = uuid e (uuid_count s) then Some c else get_call s k)"
    using assms(1) by (rule createCallRecord_cases) blast
  have busy: "invitee_state e (ca_ringing_ms a) s u = P_Busy \<longleftrightarrow> \<not> free u"
    and ring: "invitee_state e (ca_ringing_ms a) s u = P_Ringing \<longleftrightarrow> free u \<and> reachable u" for u
    by (auto simp: invitee_state_def free_def reachable_def)
  have status: "c_status c =
      (if \<exists>u \<in> set (create_invitees a). free u \<and> reachable u then Ringing
       else if \<exists>u \<in> set (create_invitees a). free u then Unreachable else Busy)"
    unfolding c new_call_fields resolve_verdict busy ring by auto
  have "c_ring_timeout c = (if c_status c = Ringing then Some (At (now e + ca_ringing_ms a)) else None)"
    by (simp add: c new_call_fields)
  moreover have "c_duration c = (if c_status c = Ringing then None else Some 0)"
    using status by (auto simp: c new_call_fields(2,4))
  ultimately show ?thesis using status t by blast
qed

lemma createCallRecord_verdict_witness:
  "c_status demo_call = Ringing \<and> getActiveCallsForUser 1000000 120000 ''bob'' demo_idle = []"
proof
  have free: "getActiveCallsForUser (now demo_env) (ca_ringing_ms demo_args) ''bob'' demo_idle = []"
    by code_simp
  have multi: "\<not> isSingleInstanceMode demo_idle" by code_simp
  have invitees: "create_invitees demo_args = [''bob'']" by code_simp
  show "c_status demo_call = Ringing"
    using createCallRecord_verdict [OF demo_create] free multi by (simp add: invitees)
  show "getActiveCallsForUser 1000000 120000 ''bob'' demo_idle = []" by code_simp
qed

section \<open>Timeouts\<close>

text \<open>
  Every state has a finite lifetime: a running call always has an expiry, it leads to a terminal
  state the table allows, and its deadline is bounded by the ring timeout, the media window or the
  duration cap counted from the record's last change. A terminal call has none. A heartbeat can only
  shorten the life of a call, never extend it past the cap.
\<close>

theorem getCallExpiry_total:
  assumes "registry_reachable s" and "get_call s k = Some c" and "c_updated c = Some (At u)"
  shows "if terminal (c_status c) then getCallExpiry clock tm c = None
     else \<exists>x. getCallExpiry clock tm c = Some x \<and>
       x_status x \<in> set (CALL_TRANSITIONS (c_status c)) \<and> terminal (x_status x) \<and>
       x_deadline x \<le> (if c_status c = Ringing then toTimestamp (c_ring_timeout c) (u + ringing_ms tm)
                      else if c_status c = In_Call then u + max_duration_ms tm
                      else u + media_ms tm)"
proof (cases "terminal (c_status c)")
  case True
  then show ?thesis by (simp add: getCallExpiry_def)
next
  case False
  with expiry_total [OF wf_registry_call [OF reachable_wf [OF assms(1)] assms(2)]]
  obtain x where x: "getCallExpiry clock tm c = Some x" by blast
  have "x_deadline x \<le> (if c_status c = Ringing then toTimestamp (c_ring_timeout c) (u + ringing_ms tm)
                      else if c_status c = In_Call then u + max_duration_ms tm else u + media_ms tm)"
    using x assms(3)
    by (cases "c_status c") (auto simp: getCallExpiry_def Let_def toTimestamp_def split: if_splits)
  with False x expiry_allowed [OF x] expiry_terminal [OF x] show ?thesis by simp
qed

lemma getCallExpiry_total_witness:
  "\<exists>x. getCallExpiry 0 default_timeouts demo_call = Some x \<and> terminal (x_status x) \<and> x_deadline x \<le> 1120000"
proof -
  have demo: "get_call demo_ringing ''id-'' = Some demo_call" "c_updated demo_call = Some (At 1000000)"
    "c_status demo_call = Ringing" "toTimestamp (c_ring_timeout demo_call) y = 1120000" for y
    by (simp_all add: demo_get demo_call_def toTimestamp_def)
  from getCallExpiry_total [OF demo_reachable demo(1,2), of 0 default_timeouts] demo(3,4)
  show ?thesis by auto
qed

text \<open>
  C4. After the timeout sweep at \<open>nw\<close> no participant's ring is past its deadline, and every call left running is before
  its own deadline, with one exception: a call that still rings for a pending invitee and that the sweep has just
  touched, because the ring of another invitee ran out. Calls that were over are untouched.
\<close>

theorem tick_leaves_nothing_overdue:
  assumes "registry_reachable s" and "tickRingingTimeouts e nw tm s = (t, n)" and "get_call t k = Some c"
  shows "(\<forall>p \<in> set (or_empty (c_parts c)). \<not> ring_expired nw p) \<and>
    (terminal (c_status c) \<or>
      (\<exists>x. getCallExpiry (now e) tm c = Some x \<and> nw < x_deadline x) \<or>
      (c_status c = Ringing \<and> hasPendingCallInvitee c \<and> c_updated c = Some (At (now e)) \<and>
        (\<exists>c0. get_call s k = Some c0 \<and> (\<exists>p \<in> set (or_empty (c_parts c0)). ring_expired nw p)))) \<and>
    (\<forall>c0. get_call s k = Some c0 \<and> terminal (c_status c0) \<longrightarrow> c = c0)"
proof -
  note wf = reachable_wf [OF assms(1)]
  have "get_call t k = map_option (tick_record e nw tm) (get_call s k)"
    using tick_get [OF wf_registry_keyed [OF wf] wf_registry_distinct [OF wf], of e nw tm k] assms(2) by simp
  with assms(3) obtain d where d: "get_call s k = Some d" "c = tick_record e nw tm d" by auto
  note wf' = wf_registry_call [OF wf d(1)]
  have "\<forall>p \<in> set (or_empty (c_parts c)). \<not> ring_expired nw p"
    using tick_record_settled [OF wf'] d(2) by blast
  moreover have "\<forall>c0. get_call s k = Some c0 \<and> terminal (c_status c0) \<longrightarrow> c = c0"
    using d tick_record_terminal [OF wf'] by simp
  ultimately show ?thesis using tick_record_due [OF wf', of e nw tm] d by blast
qed

definition demo_swept :: server_state where
  "demo_swept = fst (tickRingingTimeouts (demo_later 200000) 1200000 default_timeouts demo_ringing)"

lemma tick_leaves_nothing_overdue_witness:
  "\<exists>c. get_call demo_swept ''id-'' = Some c \<and> map (ring_expired 1200000) (or_empty (c_parts c)) = [False, False]"
proof -
  obtain t n where t: "tickRingingTimeouts (demo_later 200000) 1200000 default_timeouts demo_ringing = (t, n)" by fastforce
  have swept: "map_option (\<lambda>c. length (or_empty (c_parts c))) (get_call demo_swept ''id-'') = Some 2" by code_simp
  then obtain c p q where c: "get_call demo_swept ''id-'' = Some c" "or_empty (c_parts c) = [p, q]"
    by (auto simp: numeral_2_eq_2 length_Suc_conv)
  with t have "get_call t ''id-'' = Some c" by (simp add: demo_swept_def)
  from tick_leaves_nothing_overdue [OF demo_reachable t this] c show ?thesis by simp
qed

section \<open>Retention\<close>

text \<open>
  The retention sweep: it never touches a running call and changes no record it keeps; with an age
  bound no terminal call of that age is left; with a ceiling at most that many terminal calls are
  left, and any call the ceiling evicted ended no later than every terminal call it kept; the returned
  count is the number of calls that disappeared.
\<close>

theorem pruneTerminalCalls_spec:
  assumes "registry_reachable s" and "pruneTerminalCalls maxAge maxRetained nw s = (t, n)"
  defines "over u \<equiv> {k. \<exists>c. get_call u k = Some c \<and> terminal (c_status c)}"
    and "gone \<equiv> {k. get_call s k \<noteq> None \<and> get_call t k = None}"
  shows "(\<forall>k c. get_call s k = Some c \<longrightarrow> \<not> terminal (c_status c) \<longrightarrow> get_call t k = Some c) \<and>
    (\<forall>k c. get_call t k = Some c \<longrightarrow> get_call s k = Some c) \<and>
    (0 < maxAge \<longrightarrow> (\<forall>k \<in> over t. nw - ended_at nw (the (get_call t k)) < maxAge)) \<and>
    (0 < maxRetained \<longrightarrow> int (card (over t)) \<le> maxRetained) \<and>
    (\<forall>k \<in> gone. (0 < maxAge \<and> maxAge \<le> nw - ended_at nw (the (get_call s k))) \<or>
       (\<forall>k' \<in> over t. ended_at nw (the (get_call s k)) \<le> ended_at nw (the (get_call t k')))) \<and>
    n = card gone"
proof -
  note wf = reachable_wf [OF assms(1)]
  let ?r = "kept_ended nw maxAge (calls s)"
  let ?rest = "drop (length ?r - nat maxRetained) (sort_key snd ?r)"
  have t: "get_call t k = (case get_call s k of None \<Rightarrow> None
      | Some c \<Rightarrow> if aged nw maxAge c \<or> k \<in> set (over_ceiling maxRetained ?r) then None else Some c)" for k
    using prune_lookup_calls [OF wf, of maxAge maxRetained nw k] assms(2) by simp
  have n: "n = card gone"
    using prune_count [OF wf, of maxAge maxRetained nw] assms(2) by (simp add: gone_def)
  have sub: "get_call s k = Some c \<and> \<not> aged nw maxAge c \<and> k \<notin> set (over_ceiling maxRetained ?r)"
    if "get_call t k = Some c" for k c
    using that by (auto simp: t split: option.splits if_splits)
  have live: "get_call t k = Some c" if "get_call s k = Some c" "\<not> terminal (c_status c)" for k c
    using that over_ceiling_kept [OF wf, of k maxRetained nw maxAge c] by (auto simp: t aged_def)
  have over_t: "over t \<subseteq> fst ` set ?r - set (over_ceiling maxRetained ?r)"
  proof
    fix k assume "k \<in> over t"
    then obtain c where c: "get_call t k = Some c" "terminal (c_status c)" by (auto simp: over_def)
    with sub have "(k, ended_at nw c) \<in> set ?r" by (auto simp: kept_ended_iff [OF wf])
    then have "k \<in> fst ` set ?r" by force
    with sub [OF c(1)] show "k \<in> fst ` set ?r - set (over_ceiling maxRetained ?r)" by blast
  qed
  have bound: "int (card (over t)) \<le> maxRetained" if "0 < maxRetained"
  proof -
    note parts = ceiling_parts [OF that kept_ended_distinct [OF wf, of nw maxAge]]
    have "over t \<subseteq> fst ` set ?rest"
      using over_t parts(2) by simp
    then have "card (over t) \<le> card (fst ` set ?rest)" by (simp add: card_mono)
    also have "\<dots> \<le> length ?rest" by (metis card_length length_map set_map)
    also have "\<dots> \<le> nat maxRetained" by (rule parts(1))
    finally show ?thesis using that by simp
  qed
  have oldest: "ended_at nw (the (get_call s k)) \<le> ended_at nw (the (get_call t k'))"
    if k: "k \<in> gone" "\<not> (0 < maxAge \<and> maxAge \<le> nw - ended_at nw (the (get_call s k)))" and k': "k' \<in> over t" for k k'
  proof -
    obtain c where c: "get_call s k = Some c" "k \<in> set (over_ceiling maxRetained ?r)"
      using k by (auto simp: gone_def t aged_def split: option.splits if_splits)
    have pos: "0 < maxRetained" using c(2) by (auto simp: over_ceiling_def split: if_splits)
    note parts = ceiling_parts [OF pos kept_ended_distinct [OF wf, of nw maxAge]]
    obtain c' where c': "get_call t k' = Some c'" using k' by (auto simp: over_def)
    have "k' \<in> fst ` set ?rest" using k' over_t parts(2) by blast
    then obtain y where y: "y \<in> set ?rest" "fst y = k'" by auto
    then have "(k', snd y) \<in> set ?r" by (metis in_set_dropD prod.collapse set_sort)
    then have "snd y = ended_at nw c'" using sub [OF c'] by (simp add: kept_ended_iff [OF wf])
    with parts(3) [of "(k, ended_at nw c)" y] over_ceiling_kept [OF wf c(2) c(1)] c y(1) c'
    show ?thesis by simp
  qed
  have age: "nw - ended_at nw (the (get_call t k)) < maxAge" if "0 < maxAge" "k \<in> over t" for k
    using that sub by (fastforce simp: over_def aged_def)
  show ?thesis
  proof (intro conjI)
    show "\<forall>k c. get_call s k = Some c \<longrightarrow> \<not> terminal (c_status c) \<longrightarrow> get_call t k = Some c"
      using live by simp
    show "\<forall>k c. get_call t k = Some c \<longrightarrow> get_call s k = Some c"
      using sub by simp
    show "\<forall>k \<in> gone. (0 < maxAge \<and> maxAge \<le> nw - ended_at nw (the (get_call s k))) \<or>
       (\<forall>k' \<in> over t. ended_at nw (the (get_call s k)) \<le> ended_at nw (the (get_call t k')))"
      using oldest by blast
  qed (simp_all add: age bound n)
qed

lemma pruneTerminalCalls_spec_witness:
  "get_call (fst (pruneTerminalCalls 1 1 99999999 demo_over)) ''id-'' = None \<and>
   get_call (fst (pruneTerminalCalls 1 1 99999999 demo_ringing)) ''id-'' = Some demo_call"
proof
  obtain t n where t: "pruneTerminalCalls 1 1 99999999 demo_over = (t, n)" by fastforce
  have ended: "terminal (c_status demo_ended)" "ended_at 99999999 demo_ended = 1060000" by code_simp+
  note spec = pruneTerminalCalls_spec [OF demo_over_reachable t]
  note kept = spec [THEN conjunct2, THEN conjunct1] and age = spec [THEN conjunct2, THEN conjunct2, THEN conjunct1]
  show "get_call (fst (pruneTerminalCalls 1 1 99999999 demo_over)) ''id-'' = None"
  proof (cases "get_call t ''id-''")
    case (Some c)
    then have "c = demo_ended" using kept demo_over_get(1) by simp
    with Some have "get_call t ''id-'' = Some demo_ended" by simp
    moreover from this age ended(1) have "99999998 < ended_at 99999999 (the (get_call t ''id-''))" by auto
    ultimately show ?thesis using ended(2) by simp
  qed (simp add: t)
next
  obtain t n where t: "pruneTerminalCalls 1 1 99999999 demo_ringing = (t, n)" by fastforce
  have "\<not> terminal (c_status demo_call)" by (simp add: demo_call_def)
  with pruneTerminalCalls_spec [OF demo_reachable t, THEN conjunct1] have "get_call t ''id-'' = Some demo_call"
    by (simp add: demo_get)
  then show "get_call (fst (pruneTerminalCalls 1 1 99999999 demo_ringing)) ''id-'' = Some demo_call"
    by (simp add: t)
qed

section \<open>Server-side closings\<close>

text \<open>
  A client's reconciliation closes exactly the phantoms: a call is ended when the user is live on
  it, the client does not claim it, it is not somebody else's ring, and no other device of the user
  owns it. Every other call keeps its record.
\<close>

theorem reconcile_exact:
  assumes "registry_reachable s" and "u \<noteq> ''''"
  shows "get_call (fst (reconcileClientCallState e u claimed dev s)) k =
     map_option (\<lambda>c. if active_for (now e) 0 u c \<and> k \<notin> set claimed \<and>
                        \<not> (c_status c = Ringing \<and> c_caller c \<noteq> u) \<and> \<not> isCallOwnedByAnotherDevice c u dev
                     then finalized (now e) Ended ''client_state_reconciled'' c else c)
       (get_call s k)"
proof -
  note wf = reachable_wf [OF assms(1)]
  have "str_truthy dev \<and> str_truthy (ownerDeviceIdForUser c u) \<and> ownerDeviceIdForUser c u \<noteq> dev \<longleftrightarrow>
      isCallOwnedByAnotherDevice c u dev" for c
    by (auto simp: isCallOwnedByAnotherDevice_def Let_def)
  then show ?thesis
    using assms(2) wf_registryD [OF wf, of k]
    by (cases "get_call s k") (auto simp: reconcileClientCallState_def close_active_get [OF wf] reconcilable_def)
qed

lemma reconcile_exact_witness:
  "get_call (fst (reconcileClientCallState (demo_later 5000) ''alice'' [] (Some ''tablet'') demo_ringing)) ''id-'' = Some demo_call"
proof -
  have "isCallOwnedByAnotherDevice demo_call ''alice'' (Some ''tablet'')" by code_simp
  with reconcile_exact [OF demo_reachable, of "''alice''" "demo_later 5000" "[]" "Some ''tablet''" "''id-''"]
  show ?thesis by (simp add: demo_get)
qed

text \<open>
  Losing a socket ends a conversation only on a single instance, only when it was answered, and
  only when neither side has a socket left: with a message bus the registry is untouched.
\<close>

theorem disconnect_exact:
  assumes "registry_reachable s" and "u \<noteq> ''''"
  shows "get_call (fst (endCallsForDisconnectedParticipant e u reason s)) k =
     map_option (\<lambda>c. if \<not> message_bus s \<and> active_for (now e) 0 u c \<and> c_status c \<noteq> Ringing \<and>
                        \<not> hasLiveSockets (c_caller c) s \<and> \<not> hasLiveSockets (c_callee c) s
                     then finalized (now e) Ended reason c else c)
       (get_call s k)"
  using assms(2) close_active_get [OF reachable_wf [OF assms(1)], of e participants_gone reason "now e" 0 u k]
  by (cases "get_call s k")
    (auto simp: endCallsForDisconnectedParticipant_def isSingleInstanceMode_def split_beta participants_gone_def
      hasLiveSockets_def)

lemma disconnect_exact_witness:
  "get_call (fst (endCallsForDisconnectedParticipant (demo_later 5000) ''bob'' ''gone'' demo_ringing)) ''id-'' = Some demo_call"
  using disconnect_exact [OF demo_reachable, of "''bob''" "demo_later 5000" "''gone''" "''id-''"]
  by (simp add: demo_get demo_call_def)

end
