(* ===== verification/SharedStore.thy ===== *)
theory SharedStore
  imports CallInvariants
begin

text \<open>
  The call state several instances share: the record keys and per-user index of
  \<open>server/src/stores/redis.ts\<close> (the Lua scripts \<open>SAVE_CALL_LUA\<close>, \<open>REMOVE_CALL_LUA\<close>,
  \<open>LIST_USER_CALLS_LUA\<close>, \<open>TRANSITION_CALL_LUA\<close> and the \<open>bundle.callState\<close> methods around them).

  A script runs atomically, so each operation is one function of the store; the read the method makes
  before its script is part of the same step. Key expiry is not modelled, and neither are the paths
  for a client without \<open>EVAL\<close>.
\<close>

section \<open>The store\<close>

record shared_store =
  rcalls :: "(string \<times> call_record) list"
  rindex :: "(string \<times> string list) list"

definition empty_shared :: shared_store where
  "empty_shared = \<lparr>rcalls = [], rindex = []\<rparr>"

definition participant_ids :: "call_record \<Rightarrow> string list" where
  "participant_ids c = map p_user (or_empty (c_parts c))"

definition activeCallParticipantIds :: "call_record \<Rightarrow> string list" where
  "activeCallParticipantIds c =
     uniq (case or_empty (c_parts c) of
             [] \<Rightarrow> [c_caller c, c_callee c]
           | ps \<Rightarrow> map p_user (filter (\<lambda>p. active_state (p_state p)) ps))"

definition shared_get :: "shared_store \<Rightarrow> string \<Rightarrow> call_record option" where
  "shared_get r k = map_of (rcalls r) k"

text \<open>The users whose index a save touches: the parties of the new and of the previous record.\<close>

definition save_users :: "call_record \<Rightarrow> call_record option \<Rightarrow> string list" where
  "save_users c prev =
     uniq ([c_caller c, c_callee c] @ participant_ids c @
           (case prev of Some p \<Rightarrow> participant_ids p @ [c_caller p, c_callee p] | None \<Rightarrow> []))"

definition reindex :: "call_record \<Rightarrow> string \<Rightarrow> (string \<times> string list) list \<Rightarrow> (string \<times> string list) list" where
  "reindex c u idx =
     (if terminal (c_status c) \<or> u \<notin> set (activeCallParticipantIds c)
      then unindex u (c_id c) idx else link_index u (c_id c) idx)"

definition shared_save :: "call_record \<Rightarrow> shared_store \<Rightarrow> shared_store" where
  "shared_save c r =
     \<lparr>rcalls = AList.update (c_id c) c (rcalls r),
      rindex = fold (reindex c) (save_users c (shared_get r (c_id c))) (rindex r)\<rparr>"

text \<open>The script is given the ids of the users as its arguments, and takes each user's id out of the set of that user.\<close>

definition call_users :: "call_record option \<Rightarrow> string list" where
  "call_users x = (case x of None \<Rightarrow> [] | Some c \<Rightarrow> uniq ([c_caller c, c_callee c] @ participant_ids c))"

definition shared_remove :: "string \<Rightarrow> shared_store \<Rightarrow> shared_store" where
  "shared_remove cid r =
     \<lparr>rcalls = AList.delete cid (rcalls r),
      rindex = (case shared_get r cid of
                  None \<Rightarrow> rindex r
                | Some c \<Rightarrow> fold (\<lambda>u. unindex u u) (call_users (shared_get r cid)) (rindex r))\<rparr>"

definition live_call :: "shared_store \<Rightarrow> string \<Rightarrow> call_record option" where
  "live_call r k = (case shared_get r k of Some c \<Rightarrow> if terminal (c_status c) then None else Some c | None \<Rightarrow> None)"

definition shared_list :: "string \<Rightarrow> shared_store \<Rightarrow> call_record list \<times> shared_store" where
  "shared_list u r =
     (let ids = members (rindex r) u
      in (List.map_filter (live_call r) ids,
          r\<lparr>rindex := fold (\<lambda>k. unindex u k) (filter (\<lambda>k. live_call r k = None) ids) (rindex r)\<rparr>))"

datatype atomic_error = Not_Found | Stale_Call_State | Terminal_State

definition moved_call :: "int \<Rightarrow> call_status \<Rightarrow> string option \<Rightarrow> call_record \<Rightarrow> call_record" where
  "moved_call nw to reason c =
     (let c1 = c\<lparr>c_status := to, c_updated := Some (At nw)\<rparr>
      in if str_truthy reason then c1\<lparr>c_end_reason := reason\<rparr> else c1)"

definition transitionAtomic ::
  "int \<Rightarrow> string \<Rightarrow> call_status \<Rightarrow> call_status \<Rightarrow> string option \<Rightarrow> shared_store \<Rightarrow>
   (atomic_error + call_record \<times> bool) \<times> shared_store" where
  "transitionAtomic nw cid from to reason r =
     (case shared_get r cid of
        None \<Rightarrow> (Inl Not_Found, r)
      | Some c \<Rightarrow>
          if c_status c = to then (Inr (c, True), r)
          else if terminal (c_status c) then (Inl Terminal_State, r)
          else if c_status c \<noteq> from then (Inl Stale_Call_State, r)
          else
            (let c' = moved_call nw to reason c;
                 users = uniq ([c_caller c, c_callee c] @ participant_ids c)
             in (Inr (c', False),
                 \<lparr>rcalls = AList.update cid c' (rcalls r),
                  rindex = (if terminal to then fold (\<lambda>u. unindex u (c_id c)) users (rindex r) else rindex r)\<rparr>)))"

section \<open>The interface\<close>

text \<open>
  What the instances rely on: a lookup returns the record last saved, and a transition is a
  compare-and-swap on the status: it succeeds from the expected status only, then the record has the
  new one, and a refused or idempotent transition changes no record.
\<close>

locale shared_registry =
  fixes get :: "'r \<Rightarrow> string \<Rightarrow> call_record option"
    and save :: "call_record \<Rightarrow> 'r \<Rightarrow> 'r"
    and cas :: "int \<Rightarrow> string \<Rightarrow> call_status \<Rightarrow> call_status \<Rightarrow> string option \<Rightarrow> 'r \<Rightarrow>
      (atomic_error + call_record \<times> bool) \<times> 'r"
  assumes get_save: "get (save c r) k = (if k = c_id c then Some c else get r k)"
    and cas_swapped: "cas nw cid from to reason r = (Inr (c', False), r') \<Longrightarrow>
      \<exists>c. get r cid = Some c \<and> c_status c = from \<and> from \<noteq> to \<and> \<not> terminal from \<and>
          c' = moved_call nw to reason c \<and> (\<forall>k. get r' k = (if k = cid then Some c' else get r k))"
    and cas_idle: "cas nw cid from to reason r = (res, r') \<Longrightarrow> (\<nexists>c'. res = Inr (c', False)) \<Longrightarrow> r' = r"
    and cas_idempotent: "cas nw cid from to reason r = (Inr (c', True), r') \<Longrightarrow> get r cid = Some c' \<and> c_status c' = to"
begin

text \<open>Of two instances that both saw \<open>from\<close> and race to different states, at most one swaps.\<close>

lemma single_winner:
  assumes "cas nw cid from to reason r = (Inr (c, False), r1)"
    and "cas nw' cid from to' reason' r1 = (res, r2)" and "to \<noteq> to'"
  shows "(\<exists>err. res = Inl err) \<and> r2 = r1"
proof -
  obtain c0 where c0: "get r cid = Some c0" "c_status c0 = from" "from \<noteq> to" "c = moved_call nw to reason c0"
      "get r1 cid = Some c"
    using cas_swapped [OF assms(1)] by auto
  have status: "c_status c = to" by (simp add: c0(4) moved_call_def Let_def)
  have no_swap: "\<nexists>c'. res = Inr (c', False)"
  proof
    assume "\<exists>c'. res = Inr (c', False)"
    then obtain c' where "res = Inr (c', False)" by blast
    with cas_swapped [of nw' cid "from" to' reason' r1 c' r2] assms(2) c0(3,5) status show False by auto
  qed
  with cas_idle [OF assms(2)] have "r2 = r1" by simp
  moreover have "\<nexists>c'. res = Inr (c', True)"
    using cas_idempotent [of nw' cid "from" to' reason' r1 _ r2] assms(2,3) c0(5) status by auto
  ultimately show ?thesis
    using no_swap by (cases res) auto
qed

text \<open>A finished call never swaps again.\<close>

lemma terminal_stays:
  assumes "get r cid = Some c" and "terminal (c_status c)" and "cas nw cid from to reason r = (res, r')"
  shows "r' = r"
proof -
  have "\<nexists>c'. res = Inr (c', False)"
    using cas_swapped [of nw cid "from" to reason r _ r'] assms by auto
  with cas_idle [OF assms(3)] show ?thesis by simp
qed

end

lemma transitionAtomic_cases:
  obtains (missing) "shared_get r cid = None" "transitionAtomic nw cid from to reason r = (Inl Not_Found, r)"
  | (idempotent) c where "shared_get r cid = Some c" "c_status c = to"
      "transitionAtomic nw cid from to reason r = (Inr (c, True), r)"
  | (over) c where "shared_get r cid = Some c" "c_status c \<noteq> to" "terminal (c_status c)"
      "transitionAtomic nw cid from to reason r = (Inl Terminal_State, r)"
  | (stale) c where "shared_get r cid = Some c" "c_status c \<noteq> to" "\<not> terminal (c_status c)" "c_status c \<noteq> from"
      "transitionAtomic nw cid from to reason r = (Inl Stale_Call_State, r)"
  | (swapped) c where "shared_get r cid = Some c" "c_status c = from" "from \<noteq> to" "\<not> terminal from"
      "transitionAtomic nw cid from to reason r =
         (Inr (moved_call nw to reason c, False),
          \<lparr>rcalls = AList.update cid (moved_call nw to reason c) (rcalls r),
           rindex = (if terminal to
             then fold (\<lambda>u. unindex u (c_id c)) (uniq ([c_caller c, c_callee c] @ participant_ids c)) (rindex r)
             else rindex r)\<rparr>)"
proof (cases "shared_get r cid")
  case None
  then show ?thesis by (intro missing) (simp_all add: transitionAtomic_def)
next
  case (Some c)
  show ?thesis
  proof (cases "c_status c = to")
    case True
    with Some show ?thesis by (intro idempotent [OF Some]) (simp_all add: transitionAtomic_def)
  next
    case moves: False
    show ?thesis
    proof (cases "terminal (c_status c)")
      case True
      with Some moves show ?thesis by (intro over [OF Some]) (simp_all add: transitionAtomic_def)
    next
      case live: False
      show ?thesis
      proof (cases "c_status c = from")
        case True
        with Some moves live show ?thesis
          by (intro swapped [OF Some]) (simp_all add: transitionAtomic_def Let_def)
      next
        case False
        with Some moves live show ?thesis by (intro stale [OF Some]) (simp_all add: transitionAtomic_def)
      qed
    qed
  qed
qed

interpretation redis_calls: shared_registry shared_get shared_save transitionAtomic
proof unfold_locales
  fix c r k
  show "shared_get (shared_save c r) k = (if k = c_id c then Some c else shared_get r k)"
    by (simp add: shared_get_def shared_save_def)
next
  fix nw cid "from" to reason r c' r'
  assume swap: "transitionAtomic nw cid from to reason r = (Inr (c', False), r')"
  show "\<exists>c. shared_get r cid = Some c \<and> c_status c = from \<and> from \<noteq> to \<and> \<not> terminal from \<and>
      c' = moved_call nw to reason c \<and> (\<forall>k. shared_get r' k = (if k = cid then Some c' else shared_get r k))"
    by (rule transitionAtomic_cases [of r cid nw "from" to reason]) (use swap in \<open>auto simp: shared_get_def\<close>)
next
  fix nw cid "from" to reason r res r'
  assume run: "transitionAtomic nw cid from to reason r = (res, r')" "\<nexists>c'. res = Inr (c', False)"
  show "r' = r"
    by (rule transitionAtomic_cases [of r cid nw "from" to reason]) (use run in auto)
next
  fix nw cid "from" to reason r c' r'
  assume same: "transitionAtomic nw cid from to reason r = (Inr (c', True), r')"
  show "shared_get r cid = Some c' \<and> c_status c' = to"
    by (rule transitionAtomic_cases [of r cid nw "from" to reason]) (use same in auto)
qed

section \<open>The index invariant\<close>

text \<open>
  Every record is filed under its own id, and a running call is listed for each of its active
  participants. The converse may fail between sweeps: a listed call may be over, and listing it
  removes it.
\<close>

definition wf_shared :: "shared_store \<Rightarrow> bool" where
  "wf_shared r =
     ((\<forall>k c. shared_get r k = Some c \<longrightarrow> c_id c = k) \<and>
      (\<forall>k c u. live_call r k = Some c \<longrightarrow> u \<in> set (activeCallParticipantIds c) \<longrightarrow> k \<in> set (members (rindex r) u)))"

lemma wf_sharedI:
  "(\<And>k c. shared_get r k = Some c \<Longrightarrow> c_id c = k) \<Longrightarrow>
   (\<And>k c u. live_call r k = Some c \<Longrightarrow> u \<in> set (activeCallParticipantIds c) \<Longrightarrow> k \<in> set (members (rindex r) u)) \<Longrightarrow>
   wf_shared r"
  by (simp add: wf_shared_def)

lemma wf_shared_id: "wf_shared r \<Longrightarrow> shared_get r k = Some c \<Longrightarrow> c_id c = k"
  by (simp add: wf_shared_def)

lemma wf_shared_listed:
  "wf_shared r \<Longrightarrow> live_call r k = Some c \<Longrightarrow> u \<in> set (activeCallParticipantIds c) \<Longrightarrow> k \<in> set (members (rindex r) u)"
  by (simp add: wf_shared_def)

lemma live_call_iff: "live_call r k = Some c \<longleftrightarrow> shared_get r k = Some c \<and> \<not> terminal (c_status c)"
  by (auto simp: live_call_def split: option.splits)

lemma members_reindex:
  "set (members (fold (reindex c) us idx) u) =
     (if u \<in> set us
      then (if terminal (c_status c) \<or> u \<notin> set (activeCallParticipantIds c)
            then set (members idx u) - {c_id c} else insert (c_id c) (set (members idx u)))
      else set (members idx u))"
  by (induction us arbitrary: idx) (auto simp: reindex_def members_link members_unindex)

lemma members_unindex_users:
  "set (members (fold (\<lambda>u. unindex u k) us idx) u) = set (members idx u) - (if u \<in> set us then {k} else {})"
  by (induction us arbitrary: idx) (auto simp: members_unindex)

lemma members_unindex_ids:
  "set (members (fold (\<lambda>k. unindex u k) ks idx) v) = set (members idx v) - (if v = u then set ks else {})"
  by (induction ks arbitrary: idx) (auto simp: members_unindex)

lemma active_ids_subset: "set (activeCallParticipantIds c) \<subseteq> set ([c_caller c, c_callee c] @ participant_ids c)"
  by (cases "or_empty (c_parts c)") (auto simp: activeCallParticipantIds_def participant_ids_def)

lemma save_index:
  "k \<in> set (members (rindex (shared_save c r)) u) \<longleftrightarrow>
     (if k = c_id c \<and> u \<in> set (save_users c (shared_get r (c_id c)))
      then \<not> terminal (c_status c) \<and> u \<in> set (activeCallParticipantIds c)
      else k \<in> set (members (rindex r) u))"
  by (auto simp: shared_save_def members_reindex)

lemma save_wf: "wf_shared r \<Longrightarrow> wf_shared (shared_save c r)"
proof (rule wf_sharedI)
  fix k d
  assume "wf_shared r" "shared_get (shared_save c r) k = Some d"
  then show "c_id d = k"
    by (auto simp: redis_calls.get_save dest: wf_shared_id split: if_splits)
next
  fix k d u
  assume wf: "wf_shared r" and d: "live_call (shared_save c r) k = Some d" and u: "u \<in> set (activeCallParticipantIds d)"
  show "k \<in> set (members (rindex (shared_save c r)) u)"
  proof (cases "k = c_id c")
    case True
    with d have "d = c" "\<not> terminal (c_status c)" by (auto simp: live_call_iff redis_calls.get_save)
    moreover have "u \<in> set (save_users c (shared_get r (c_id c)))"
      using active_ids_subset [of c] u \<open>d = c\<close> by (auto simp: save_users_def)
    ultimately show ?thesis using True u by (simp add: save_index)
  next
    case False
    with d have "live_call r k = Some d" by (auto simp: live_call_iff redis_calls.get_save)
    from wf_shared_listed [OF wf this u] False show ?thesis by (simp add: save_index)
  qed
qed

lemma list_get [simp]: "shared_get (snd (shared_list u r)) = shared_get r" "live_call (snd (shared_list u r)) = live_call r"
  by (simp_all add: fun_eq_iff live_call_def shared_get_def shared_list_def Let_def)

lemma list_index:
  "set (members (rindex (snd (shared_list u r))) v) =
     set (members (rindex r) v) - (if v = u then {k. live_call r k = None} else {})"
  by (auto simp: shared_list_def Let_def members_unindex_ids)

lemma list_wf: "wf_shared r \<Longrightarrow> wf_shared (snd (shared_list u r))"
  by (rule wf_sharedI) (auto simp: list_index dest: wf_shared_id wf_shared_listed)

lemma list_calls:
  "c \<in> set (fst (shared_list u r)) \<longleftrightarrow> (\<exists>k \<in> set (members (rindex r) u). live_call r k = Some c)"
  by (force simp: shared_list_def Let_def List.map_filter_def)

lemma transition_wf_shared: "wf_shared r \<Longrightarrow> wf_shared (snd (transitionAtomic nw cid from to reason r))"
proof -
  assume wf: "wf_shared r"
  show ?thesis
  proof (rule transitionAtomic_cases [of r cid nw "from" to reason])
    fix c
    assume c: "shared_get r cid = Some c" "c_status c = from" "\<not> terminal from"
      and run: "transitionAtomic nw cid from to reason r =
         (Inr (moved_call nw to reason c, False),
          \<lparr>rcalls = AList.update cid (moved_call nw to reason c) (rcalls r),
           rindex = (if terminal to
             then fold (\<lambda>u. unindex u (c_id c)) (uniq ([c_caller c, c_callee c] @ participant_ids c)) (rindex r)
             else rindex r)\<rparr>)"
    let ?c = "moved_call nw to reason c"
    let ?r = "snd (transitionAtomic nw cid from to reason r)"
    have get: "shared_get ?r k = (if k = cid then Some ?c else shared_get r k)" for k
      by (simp add: run shared_get_def)
    have same: "c_id ?c = c_id c" "activeCallParticipantIds ?c = activeCallParticipantIds c" "c_status ?c = to"
      by (simp_all add: moved_call_def Let_def activeCallParticipantIds_def split: list.split)
    have listed: "k \<in> set (members (rindex ?r) u)" if "k \<in> set (members (rindex r) u)" "k = cid \<Longrightarrow> \<not> terminal to" for k u
      using that wf_shared_id [OF wf c(1)] by (auto simp: run members_unindex_users)
    show ?thesis
    proof (rule wf_sharedI)
      show "c_id d = k" if "shared_get ?r k = Some d" for k d
        using that wf_shared_id [OF wf] c(1) same(1) by (auto simp: get split: if_splits)
      fix k d u
      assume d: "live_call ?r k = Some d" and u: "u \<in> set (activeCallParticipantIds d)"
      show "k \<in> set (members (rindex ?r) u)"
      proof (cases "k = cid")
        case True
        with d same u have "u \<in> set (activeCallParticipantIds c)" "\<not> terminal to"
          by (auto simp: live_call_iff get)
        with wf_shared_listed [OF wf, of cid c u] c listed True show ?thesis by (simp add: live_call_iff)
      next
        case False
        with d have "live_call r k = Some d" by (simp add: live_call_iff get)
        with wf_shared_listed [OF wf _ u] listed False show ?thesis by simp
      qed
    qed
  qed (simp_all add: wf)
qed

end
