(* ===== verification/RtcBuffer.thy ===== *)
theory RtcBuffer
  imports CallInvariants
begin

text \<open>
  Hold-and-replay of ICE candidates that arrive while a call still rings
  (\<open>server/src/signaling/rtcBuffer.ts\<close>). A queue per call, filled up to
  \<open>MAX_BUFFERED_RTC_SIGNALS_PER_CALL\<close>, replayed once in order when the call becomes media-ready and
  dropped when it ends. The queues are an instance of the locale \<open>bounded_queues\<close>.
\<close>

section \<open>The interface\<close>

text \<open>A family of bounded queues: putting an item appends it to its queue unless the queue is full.\<close>

locale bounded_queues =
  fixes contents :: "'s \<Rightarrow> 'k \<Rightarrow> 'a list"
    and put :: "'k \<Rightarrow> 'a \<Rightarrow> 's \<Rightarrow> 's"
    and bound :: nat
  assumes contents_put: "contents (put k x s) k' =
    (if k' = k \<and> length (contents s k) < bound then contents s k @ [x] else contents s k')"
begin

lemma put_bounded: "length (contents s k') \<le> bound \<Longrightarrow> length (contents (put k x s) k') \<le> bound"
  by (simp add: contents_put)

text \<open>A queue holds the first items that were put into it, up to the bound, in order.\<close>

lemma contents_puts:
  "length (contents s k) \<le> bound \<Longrightarrow>
   contents (fold (\<lambda>(k, x). put k x) kxs s) k =
     take bound (contents s k @ map snd (filter (\<lambda>(k', _). k' = k) kxs))"
proof (induction kxs arbitrary: s)
  case Nil
  then show ?case by simp
next
  case (Cons kx kxs)
  obtain k' x where kx: "kx = (k', x)" by fastforce
  have "length (contents (put k' x s) k) \<le> bound"
    using Cons.prems by (rule put_bounded)
  from Cons.IH [OF this] Cons.prems show ?case
    by (auto simp: kx contents_put not_less take_Cons')
qed

end

section \<open>The operations\<close>

definition BUFFERABLE_CALL_STATES :: "call_status list" where
  "BUFFERABLE_CALL_STATES = [Ringing]"

definition BUFFERABLE_RTC_EVENTS :: "string list" where
  "BUFFERABLE_RTC_EVENTS = [''rtc.candidate'', ''rtc.ice'']"

definition isBufferableSignal :: "string \<Rightarrow> call_status \<Rightarrow> bool" where
  "isBufferableSignal event st = (event \<in> set BUFFERABLE_RTC_EVENTS \<and> st \<in> set BUFFERABLE_CALL_STATES)"

definition pending :: "server_state \<Rightarrow> string \<Rightarrow> rtc_signal list" where
  "pending s cid = or_empty (map_of (pending_rtc s) cid)"

definition bufferRtcSignal :: "string \<Rightarrow> rtc_signal \<Rightarrow> server_state \<Rightarrow> bool \<times> server_state" where
  "bufferRtcSignal cid sg s =
     (let held = pending s cid
      in if MAX_BUFFERED_RTC_SIGNALS_PER_CALL \<le> length held then (False, s)
         else (True, emit [Buffer_Outcome ''buffered'' 1]
                 (s\<lparr>pending_rtc := AList.update cid (held @ [sg]) (pending_rtc s)\<rparr>)))"

definition countBufferedRtcSignals :: "string \<Rightarrow> server_state \<Rightarrow> nat" where
  "countBufferedRtcSignals cid s = length (pending s cid)"

definition discardBufferedRtcSignals :: "string \<Rightarrow> string \<Rightarrow> server_state \<Rightarrow> nat \<times> server_state" where
  "discardBufferedRtcSignals cid outcome s =
     (let held = countBufferedRtcSignals cid s;
          s1 = s\<lparr>pending_rtc := AList.delete cid (pending_rtc s)\<rparr>
      in (held, if 0 < held then emit [Buffer_Outcome outcome held] s1 else s1))"

definition flushBufferedRtcSignals :: "string \<Rightarrow> call_status \<Rightarrow> server_state \<Rightarrow> nat \<times> server_state" where
  "flushBufferedRtcSignals cid st s =
     (if terminal st then (0, snd (discardBufferedRtcSignals cid ''stranded_local'' s))
      else if st \<notin> set RTC_ACTIVE_CALL_STATES then (0, s)
      else
        (let held = pending s cid
         in if held = [] then (0, s)
            else (length held,
                  emit (Buffer_Outcome ''replayed'' (length held) # map (\<lambda>sg. Relay_Signal (sg_to sg) cid sg) held)
                    (s\<lparr>pending_rtc := AList.delete cid (pending_rtc s)\<rparr>))))"

text \<open>\<open>holdOrRejectRtcSignal\<close> of \<open>signaling/callHandlers.ts\<close>: buffer what races the accept, else reject.\<close>

definition heldSignal :: "string \<Rightarrow> string \<Rightarrow> string \<Rightarrow> string \<Rightarrow> call_record \<Rightarrow> rtc_signal" where
  "heldSignal event key u v c = \<lparr>sg_event = event, sg_data_key = key, sg_from = u, sg_to = callPeerId c u, sg_value = v\<rparr>"

definition holdOrRejectRtcSignal ::
  "string \<Rightarrow> string \<Rightarrow> string \<Rightarrow> string \<Rightarrow> call_record \<Rightarrow> string \<Rightarrow> server_state \<Rightarrow> nat option \<times> server_state" where
  "holdOrRejectRtcSignal event key u v c cid s =
     (if isBufferableSignal event (c_status c)
      then (case bufferRtcSignal cid (heldSignal event key u v c) s of
              (True, s') \<Rightarrow> (Some (countBufferedRtcSignals cid s'), s')
            | (False, s') \<Rightarrow> (None, s'))
      else (None, s))"

section \<open>Lemmas\<close>

lemma pending_update [simp]:
  "pending (s\<lparr>pending_rtc := AList.update cid sgs (pending_rtc s)\<rparr>) k = (if k = cid then sgs else pending s k)"
  "pending (s\<lparr>pending_rtc := AList.delete cid (pending_rtc s)\<rparr>) k = (if k = cid then [] else pending s k)"
  "pending (emit es s) = pending s"
  by (simp_all add: pending_def fun_eq_iff)

interpretation rtc_queues: bounded_queues pending "\<lambda>cid sg s. snd (bufferRtcSignal cid sg s)"
  MAX_BUFFERED_RTC_SIGNALS_PER_CALL
  by unfold_locales (auto simp: bufferRtcSignal_def Let_def)

lemma pending_discard [simp]:
  "pending (snd (discardBufferedRtcSignals cid oc s)) k = (if k = cid then [] else pending s k)"
  by (simp add: discardBufferedRtcSignals_def Let_def)

lemma pending_flush:
  "pending (snd (flushBufferedRtcSignals cid st s)) k =
     (if k = cid \<and> (terminal st \<or> st \<in> set RTC_ACTIVE_CALL_STATES) then [] else pending s k)"
  by (simp add: flushBufferedRtcSignals_def Let_def)

text \<open>The signals an instance has relayed for a call.\<close>

fun relays :: "string \<Rightarrow> effect list \<Rightarrow> rtc_signal list" where
  "relays cid [] = []"
| "relays cid (Relay_Signal u c sg # es) = (if c = cid then sg # relays cid es else relays cid es)"
| "relays cid (_ # es) = relays cid es"

lemma relays_append [simp]: "relays cid (es @ es') = relays cid es @ relays cid es'"
  by (induction cid es rule: relays.induct) simp_all

definition relayed :: "string \<Rightarrow> server_state \<Rightarrow> rtc_signal list" where
  "relayed cid s = relays cid (outbox s)"

lemma relayed_emit: "relayed cid (emit es s) = relayed cid s @ relays cid es"
  by (simp add: relayed_def)

lemma relayed_field [simp]: "relayed cid (s\<lparr>pending_rtc := p\<rparr>) = relayed cid s"
  by (simp add: relayed_def)

lemma relayed_buffer [simp]: "relayed cid (snd (bufferRtcSignal k sg s)) = relayed cid s"
  by (simp add: bufferRtcSignal_def Let_def relayed_emit)

lemma relayed_buffers [simp]:
  "relayed cid (fold (\<lambda>(k, sg) s. snd (bufferRtcSignal k sg s)) kxs s) = relayed cid s"
  by (induction kxs arbitrary: s) (simp_all add: split_beta)

lemma relays_signals: "relays cid (map (\<lambda>sg. Relay_Signal (sg_to sg) k sg) sgs) = (if k = cid then sgs else [])"
  by (cases "k = cid"; induction sgs) simp_all

lemma relayed_flush:
  "relayed k (snd (flushBufferedRtcSignals cid st s)) =
     relayed k s @ (if k = cid \<and> st \<in> set RTC_ACTIVE_CALL_STATES then pending s cid else [])"
proof -
  have "\<not> terminal st" if "st \<in> set RTC_ACTIVE_CALL_STATES"
    using that by (auto simp: RTC_ACTIVE_CALL_STATES_def)
  then show ?thesis
    by (auto simp: flushBufferedRtcSignals_def discardBufferedRtcSignals_def Let_def relayed_emit
        relays_signals)
qed

section \<open>Properties\<close>

text \<open>
  Candidates held during a ring are replayed exactly once and in order: after any interleaving of
  arrivals for any calls, a call's queue holds its first 32 signals; becoming media-ready relays
  exactly those, in the order they arrived, and empties the queue, so a second flush relays nothing;
  other calls' queues are not touched.
\<close>

theorem buffered_signals_replayed_once:
  fixes arrivals :: "(string \<times> rtc_signal) list"
  assumes "pending s cid = []" and "st \<in> set RTC_ACTIVE_CALL_STATES" and "st' \<in> set RTC_ACTIVE_CALL_STATES"
  defines "s1 \<equiv> fold (\<lambda>(k, sg) s. snd (bufferRtcSignal k sg s)) arrivals s"
  shows "relayed cid (snd (flushBufferedRtcSignals cid st s1)) =
      relayed cid s @ take 32 (map snd (filter (\<lambda>(k, _). k = cid) arrivals)) \<and>
    relayed cid (snd (flushBufferedRtcSignals cid st' (snd (flushBufferedRtcSignals cid st s1)))) =
      relayed cid (snd (flushBufferedRtcSignals cid st s1)) \<and>
    (\<forall>k. k \<noteq> cid \<longrightarrow> pending (snd (flushBufferedRtcSignals cid st s1)) k = pending s1 k)"
proof -
  have "pending s1 cid = take 32 (map snd (filter (\<lambda>(k, _). k = cid) arrivals))"
    using rtc_queues.contents_puts [of s cid arrivals] assms(1)
    by (simp add: s1_def MAX_BUFFERED_RTC_SIGNALS_PER_CALL_def)
  then show ?thesis
    using assms(2,3) by (simp add: relayed_flush pending_flush s1_def)
qed

definition demo_signal :: "string \<Rightarrow> rtc_signal" where
  "demo_signal v = \<lparr>sg_event = ''rtc.candidate'', sg_data_key = ''candidate'', sg_from = ''alice'', sg_to = ''bob'', sg_value = v\<rparr>"

lemma buffered_signals_replayed_once_witness:
  "relayed ''c1'' (snd (flushBufferedRtcSignals ''c1'' Accepted
     (snd (bufferRtcSignal ''c1'' (demo_signal ''b'') (snd (bufferRtcSignal ''c2'' (demo_signal ''x'')
       (snd (bufferRtcSignal ''c1'' (demo_signal ''a'') (initial_state True False False False))))))))) =
   [demo_signal ''a'', demo_signal ''b'']"
  using buffered_signals_replayed_once [of "initial_state True False False False" "''c1''" Accepted In_Call
      "[(''c1'', demo_signal ''a''), (''c2'', demo_signal ''x''), (''c1'', demo_signal ''b'')]"]
  by (simp add: pending_def initial_state_def RTC_ACTIVE_CALL_STATES_def relayed_def)

text \<open>
  A call that ends before it was media-ready loses what it held: nothing is relayed, the queue is
  empty afterwards, and the number lost is reported to telemetry once, when there was any.
\<close>

theorem buffered_signals_dropped_at_end:
  assumes "terminal st"
  shows "relayed k (snd (flushBufferedRtcSignals cid st s)) = relayed k s \<and>
    pending (snd (flushBufferedRtcSignals cid st s)) cid = [] \<and>
    fst (flushBufferedRtcSignals cid st s) = 0 \<and>
    outbox (snd (flushBufferedRtcSignals cid st s)) =
      outbox s @ (if pending s cid = [] then [] else [Buffer_Outcome ''stranded_local'' (length (pending s cid))])"
proof -
  have "st \<notin> set RTC_ACTIVE_CALL_STATES"
    using assms by (auto simp: RTC_ACTIVE_CALL_STATES_def)
  then show ?thesis
    using assms by (simp add: relayed_flush pending_flush)
      (simp add: flushBufferedRtcSignals_def discardBufferedRtcSignals_def countBufferedRtcSignals_def Let_def)
qed

lemma buffered_signals_dropped_at_end_witness:
  "relayed ''c1'' (snd (flushBufferedRtcSignals ''c1'' Missed (initial_state True False False False))) = []"
  using buffered_signals_dropped_at_end [of Missed "''c1''" "''c1''" "initial_state True False False False"]
  by (simp add: relayed_def initial_state_def)

end
