(* ===== verification/SharedCalls.thy ===== *)
theory SharedCalls
  imports SharedStore RtcBuffer
begin

text \<open>
  Calls on a fleet (\<open>server/src/domain/sharedCalls.ts\<close>, \<open>domain/callSync.ts\<close>): each instance keeps a
  local registry as a cache of the shared store. A function takes the pair of the instance's state and
  the shared store; with \<open>call_state\<close> off there is no shared store and the pair's second half is
  untouched. \<open>ok\<close> says whether a read the code guards with \<open>try\<close> succeeds. An asynchronous function
  runs to its end as one step; \<open>Promise.all\<close> runs its parts in order.
\<close>

type_synonym node = "server_state \<times> shared_store"

section \<open>Cache of the shared store\<close>

definition isActiveParticipant :: "call_record \<Rightarrow> string \<Rightarrow> bool" where
  "isActiveParticipant c u =
     (case find_participant c u of
        Some p \<Rightarrow> active_state (p_state p)
      | None \<Rightarrow> c_caller c = u \<or> c_callee c = u)"

definition markCallSynced :: "string \<Rightarrow> int \<Rightarrow> server_state \<Rightarrow> server_state" where
  "markCallSynced cid nw s =
     (if \<not> call_state s then s else s\<lparr>synced_at := AList.update cid nw (synced_at s)\<rparr>)"

definition adoptSharedCall :: "int \<Rightarrow> call_record \<Rightarrow> server_state \<Rightarrow> server_state" where
  "adoptSharedCall nw c s =
     (let s1 = put_call c s;
          s2 = (if map_of (call_events s1) (c_id c) = None
                then s1\<lparr>call_events := AList.update (c_id c) [] (call_events s1)\<rparr> else s1)
      in markCallSynced (c_id c) nw s2)"

definition callRecordTimestamp :: "call_record \<Rightarrow> int" where
  "callRecordTimestamp c =
     (case Option.bind (coalesce (c_updated c) (Some (c_created c))) date_parse of Some t \<Rightarrow> t | None \<Rightarrow> 0)"

definition isSharedCallNewer :: "call_record \<Rightarrow> call_record \<Rightarrow> bool" where
  "isSharedCallNewer local shared = (callRecordTimestamp local < callRecordTimestamp shared)"

definition is_fresh :: "int \<Rightarrow> string \<Rightarrow> int \<Rightarrow> server_state \<Rightarrow> bool" where
  "is_fresh nw cid maxAge s =
     (nw - (case map_of (synced_at s) cid of Some t \<Rightarrow> t | None \<Rightarrow> 0) < maxAge)"

definition hydrateCallFromShared :: "env \<Rightarrow> string \<Rightarrow> int \<Rightarrow> node \<Rightarrow> call_record option \<times> server_state" where
  "hydrateCallFromShared e cid maxAge = (\<lambda>(s, r).
     let local = get_call s cid
     in if \<not> call_state s then (local, s)
        else if local \<noteq> None \<and> (terminal (c_status (the local)) \<or> is_fresh (now e) cid maxAge s) then (local, s)
        else (case shared_get r cid of
                None \<Rightarrow> (local, s)
              | Some shared \<Rightarrow>
                  if local \<noteq> None \<and> \<not> isSharedCallNewer (the local) shared
                  then (local, markCallSynced cid (now e) s)
                  else (Some shared, adoptSharedCall (now e) shared s)))"

definition persistCallToShared :: "env \<Rightarrow> call_record \<Rightarrow> node \<Rightarrow> node" where
  "persistCallToShared e c = (\<lambda>(s, r).
     if \<not> call_state s then (s, r) else (markCallSynced (c_id c) (now e) s, shared_save c r))"

definition is_orphan :: "string \<Rightarrow> string list \<Rightarrow> call_record \<Rightarrow> bool" where
  "is_orphan u active c =
     (\<not> terminal (c_status c) \<and> isCallParticipant c u \<and> isActiveParticipant c u \<and> c_id c \<notin> set active)"

definition settle_orphan :: "int \<Rightarrow> shared_store \<Rightarrow> string \<Rightarrow> server_state \<Rightarrow> server_state" where
  "settle_orphan nw r cid s =
     (case shared_get r cid of
        Some latest \<Rightarrow> adoptSharedCall nw latest s
      | None \<Rightarrow> s\<lparr>calls := AList.delete cid (calls s), synced_at := AList.delete cid (synced_at s)\<rparr>)"

definition refreshActiveCallsForUser :: "env \<Rightarrow> bool \<Rightarrow> string \<Rightarrow> node \<Rightarrow> node" where
  "refreshActiveCallsForUser e ok u = (\<lambda>(s, r).
     if \<not> call_state s \<or> \<not> ok then (s, r)
     else
       (let (shared, r1) = shared_list u r;
            s1 = fold (adoptSharedCall (now e)) shared s;
            orphans = map c_id (filter (is_orphan u (map c_id shared)) (map snd (calls s1)))
        in (fold (settle_orphan (now e) r1) orphans s1, r1)))"

definition createCallRecordWithShared :: "env \<Rightarrow> create_args \<Rightarrow> node \<Rightarrow> string + (call_record \<times> node)" where
  "createCallRecordWithShared e a = (\<lambda>(s, r).
     case createCallRecord e a s of
       Inl err \<Rightarrow> Inl err
     | Inr (c, s') \<Rightarrow> Inr (c, persistCallToShared e c (s', r)))"

definition overdue :: "int \<Rightarrow> timeouts \<Rightarrow> call_record \<Rightarrow> bool" where
  "overdue nw tm c = (case getCallExpiry nw tm c of Some x \<Rightarrow> x_deadline x \<le> nw | None \<Rightarrow> False)"

definition refresh_expired :: "int \<Rightarrow> (string \<Rightarrow> bool) \<Rightarrow> shared_store \<Rightarrow> string \<Rightarrow> server_state \<times> nat \<Rightarrow> server_state \<times> nat" where
  "refresh_expired nw ok r cid = (\<lambda>(s, n).
     case shared_get r cid of
       Some shared \<Rightarrow> if ok cid then (adoptSharedCall nw shared s, Suc n) else (s, n)
     | None \<Rightarrow> (s, n))"

definition refreshExpiredCallsFromShared :: "env \<Rightarrow> (string \<Rightarrow> bool) \<Rightarrow> timeouts \<Rightarrow> node \<Rightarrow> server_state \<times> nat" where
  "refreshExpiredCallsFromShared e ok tm = (\<lambda>(s, r).
     if \<not> call_state s then (s, 0)
     else fold (refresh_expired (now e) ok r) (map c_id (filter (overdue (now e) tm) (map snd (calls s)))) (s, 0))"

section \<open>Placing a call\<close>

record place_args =
  pa_caller :: string
  pa_callee :: string
  pa_callees :: "string list option"
  pa_ringing_ms :: int
  pa_device :: "string option"
  pa_media :: media_type

datatype place_result = Placed call_record "call_record list" | Call_In_Progress call_record string

definition place_invitees :: "place_args \<Rightarrow> string list" where
  "place_invitees a = uniq (if or_empty (pa_callees a) \<noteq> [] then or_empty (pa_callees a) else [pa_callee a])"

definition place_create :: "place_args \<Rightarrow> create_args" where
  "place_create a = \<lparr>ca_caller = pa_caller a, ca_callee = Some (pa_callee a), ca_callees = Some (place_invitees a),
     ca_ringing_ms = pa_ringing_ms a, ca_device = pa_device a, ca_media = pa_media a\<rparr>"

definition placeCallWithShared ::
  "env \<Rightarrow> (string \<Rightarrow> bool) \<Rightarrow> place_args \<Rightarrow> node \<Rightarrow> (string + place_result) \<times> node" where
  "placeCallWithShared e ok a n =
     (let invitees = place_invitees a;
          (s, r) = fold (\<lambda>u. refreshActiveCallsForUser e (ok u) u) (pa_caller a # invitees) n
      in case findCallerBlockingCall (now e) (pa_ringing_ms a) (pa_caller a) (hd invitees) s of
           Some blocking \<Rightarrow> (Inr (Call_In_Progress blocking (callPeerId blocking (pa_caller a))), (s, r))
         | None \<Rightarrow>
             (let (s1, superseded) = supersedeRedialledCalls e (pa_caller a) (hd invitees) s;
                  n1 = fold (persistCallToShared e) superseded (s1, r)
              in case createCallRecordWithShared e (place_create a) n1 of
                   Inl err \<Rightarrow> (Inl err, n1)
                 | Inr (c, n2) \<Rightarrow> (Inr (Placed c superseded), n2)))"

section \<open>Transitions\<close>

definition primeLocalCallForTransition :: "env \<Rightarrow> string \<Rightarrow> call_record \<Rightarrow> call_status \<Rightarrow> server_state \<Rightarrow> server_state" where
  "primeLocalCallForTransition e cid atomicCall from s =
     (case get_call s cid of
        Some local \<Rightarrow> store_call (local\<lparr>c_status := from\<rparr>) s
      | None \<Rightarrow> adoptSharedCall (now e) (atomicCall\<lparr>c_status := from\<rparr>) s)"

definition handleAtomicTransitionFailure :: "env \<Rightarrow> string \<Rightarrow> atomic_error \<Rightarrow> node \<Rightarrow> call_failure \<times> node" where
  "handleAtomicTransitionFailure e cid err = (\<lambda>(s, r).
     case err of
       Not_Found \<Rightarrow> (\<lparr>f_status = 404, f_error = ''not_found'', f_message = None\<rparr>, (s, r))
     | Stale_Call_State \<Rightarrow>
         (\<lparr>f_status = 409, f_error = ''stale_call_state'',
           f_message = Some ''call state changed on another instance''\<rparr>,
          (case shared_get r cid of Some latest \<Rightarrow> adoptSharedCall (now e) latest s | None \<Rightarrow> s, r))
     | Terminal_State \<Rightarrow>
         (\<lparr>f_status = 409, f_error = ''terminal_state'',
           f_message = Some ''call is already in terminal state''\<rparr>, (s, r)))"

text \<open>The result of a call action: a failure, or the record and whether it was already done (\<open>stale\<close>).\<close>

type_synonym action_result = "call_failure + call_record \<times> bool"

definition transitionCallWithShared ::
  "env \<Rightarrow> string \<Rightarrow> call_status \<Rightarrow> string option \<Rightarrow> string option \<Rightarrow> string option \<Rightarrow> node \<Rightarrow> action_result \<times> node" where
  "transitionCallWithShared e cid to actor reason dev = (\<lambda>(s0, r).
     case hydrateCallFromShared e cid DEFAULT_CALL_STATE_FRESHNESS_MS (s0, r) of
       (None, s) \<Rightarrow> (Inl \<lparr>f_status = 404, f_error = ''not_found'', f_message = None\<rparr>, (s, r))
     | (Some c, s) \<Rightarrow>
         if \<not> call_state s then
           (case transitionCall e cid to actor reason dev s of
              (Inl f, s') \<Rightarrow> (Inl f, (s', r))
            | (Inr c', s') \<Rightarrow> (Inr (c', False), (s', r)))
         else
           (case transitionAtomic (now e) cid (c_status c) to reason r of
              (Inl err, r') \<Rightarrow>
                (case handleAtomicTransitionFailure e cid err (s, r') of (f, n) \<Rightarrow> (Inl f, n))
            | (Inr (c', True), r') \<Rightarrow> (Inr (c', True), (adoptSharedCall (now e) c' s, r'))
            | (Inr (c', False), r') \<Rightarrow>
                (case transitionCall e cid to actor reason dev
                        (primeLocalCallForTransition e cid c' (c_status c) s) of
                   (Inl f, s') \<Rightarrow> (Inl f, (s', r'))
                 | (Inr c'', s') \<Rightarrow> (Inr (c'', False), persistCallToShared e c'' (s', r')))))"

section \<open>Participant actions\<close>

datatype participant_action = Join | Leave | Decline

definition participant_state_of :: "call_record \<Rightarrow> string \<Rightarrow> participant_state option" where
  "participant_state_of c u = map_option p_state (find_participant c u)"

definition isIdempotentParticipantAction :: "call_record \<Rightarrow> string \<Rightarrow> participant_action \<Rightarrow> bool" where
  "isIdempotentParticipantAction c u act =
     (if act = Join \<and> participant_state_of c u = Some P_Joined then True
      else if act = Decline \<and> participant_state_of c u = Some P_Declined then True
      else act = Leave \<and> c_status c = Ended \<and> participant_state_of c u = Some P_Left)"

definition canParticipantJoinOrDecline :: "call_record \<Rightarrow> string \<Rightarrow> participant_action \<Rightarrow> bool" where
  "canParticipantJoinOrDecline c u act =
     (act = Leave \<or>
      (u \<noteq> c_caller c \<and> (participant_state_of c u = Some P_Ringing \<or> participant_state_of c u = Some P_Invited)))"

definition hasOtherActiveInvitee :: "call_record \<Rightarrow> bool" where
  "hasOtherActiveInvitee c =
     (\<exists>p \<in> set (or_empty (c_parts c)). p_user p \<noteq> c_caller c \<and> isActiveParticipant c (p_user p))"

definition hasActiveParticipant :: "call_record \<Rightarrow> bool" where
  "hasActiveParticipant c = (\<exists>p \<in> set (or_empty (c_parts c)). isActiveParticipant c (p_user p))"

definition validateParticipantAction :: "call_record \<Rightarrow> string \<Rightarrow> participant_action \<Rightarrow> action_result option" where
  "validateParticipantAction c u act =
     (if \<not> isCallParticipant c u then Some (Inl \<lparr>f_status = 403, f_error = ''not_participant'', f_message = None\<rparr>)
      else if terminal (c_status c) then
        (if isIdempotentParticipantAction c u act then Some (Inr (c, True))
         else Some (Inl \<lparr>f_status = 409, f_error = ''terminal_state'', f_message = Some ''call is already over''\<rparr>))
      else if isIdempotentParticipantAction c u act then Some (Inr (c, True))
      else if \<not> canParticipantJoinOrDecline c u act then
        Some (Inl \<lparr>f_status = 403, f_error = ''not_invited'',
                   f_message = Some ''only an invited participant can join or decline''\<rparr>)
      else None)"

fun action_state :: "participant_action \<Rightarrow> participant_state" where
  "action_state Join = P_Joined"
| "action_state Decline = P_Declined"
| "action_state Leave = P_Left"

definition joinParticipantOnCall ::
  "env \<Rightarrow> call_record \<Rightarrow> string \<Rightarrow> string \<Rightarrow> string option \<Rightarrow> node \<Rightarrow> action_result \<times> node" where
  "joinParticipantOnCall e c cid u dev n =
     (if c_status c \<noteq> Ringing then (Inr (c, False), persistCallToShared e c n)
      else transitionCallWithShared e cid Accepted (Some u) None dev n)"

definition finishCallAfterParticipantAction ::
  "env \<Rightarrow> string \<Rightarrow> string \<Rightarrow> participant_action \<Rightarrow> call_status \<Rightarrow> string option \<Rightarrow> node \<Rightarrow> action_result \<times> node" where
  "finishCallAfterParticipantAction e cid u act prev dev n =
     transitionCallWithShared e cid (if act = Decline \<and> prev = Ringing then Declined else Ended) (Some u)
       (Some (if act = Decline then ''declined'' else ''user_hangup'')) dev n"

definition participantActionWithShared ::
  "env \<Rightarrow> string \<Rightarrow> string \<Rightarrow> participant_action \<Rightarrow> string option \<Rightarrow> node \<Rightarrow> action_result \<times> node" where
  "participantActionWithShared e cid u act dev = (\<lambda>(s0, r).
     case hydrateCallFromShared e cid 0 (s0, r) of
       (None, s) \<Rightarrow> (Inl \<lparr>f_status = 404, f_error = ''not_found'', f_message = None\<rparr>, (s, r))
     | (Some c0, s) \<Rightarrow>
         (case validateParticipantAction c0 u act of
            Some res \<Rightarrow> (res, (s, r))
          | None \<Rightarrow>
              (let c = with_participant (now e) u (action_state act) dev c0;
                   n = (updateCallParticipant e c0 u (action_state act) dev False s, r)
               in if act = Join then joinParticipantOnCall e c cid u dev n
                  else if \<not> (if act = Leave then hasActiveParticipant c else hasOtherActiveInvitee c)
                  then finishCallAfterParticipantAction e cid u act (c_status c0) dev n
                  else (Inr (c, False), persistCallToShared e c n))))"

section \<open>Transitions of other instances\<close>

text \<open>
  \<open>domain/callSync.ts\<close>. The message is already parsed; \<open>clearIncomingCallPushState\<close> belongs to the
  notifications and is not part of this state.
\<close>

definition releaseCallResources :: "string \<Rightarrow> server_state \<Rightarrow> server_state" where
  "releaseCallResources cid s = snd (discardBufferedRtcSignals cid ''stranded_remote'' s)"

definition applyRemoteTransition :: "env \<Rightarrow> string \<Rightarrow> call_status \<Rightarrow> node \<Rightarrow> server_state" where
  "applyRemoteTransition e cid st = (\<lambda>(s, r).
     let s1 = (case (if call_state s then shared_get r cid else None) of
                 Some shared \<Rightarrow> adoptSharedCall (now e) shared s
               | None \<Rightarrow>
                   (case get_call s cid of
                      Some local \<Rightarrow>
                        if c_status local \<noteq> st
                        then markCallSynced cid (now e)
                               (store_call (local\<lparr>c_status := st, c_updated := Some (At (now e))\<rparr>) s)
                        else s
                    | None \<Rightarrow> s));
         status = (case get_call s1 cid of Some c \<Rightarrow> c_status c | None \<Rightarrow> st)
     in if terminal status then releaseCallResources cid s1 else s1)"

end
