(* ===== verification/SharedProperties.thy ===== *)
theory SharedProperties
  imports SharedCalls CallProperties
begin

text \<open>
  The properties of calls on a fleet: the compare-and-swap of the shared store, its per-user index,
  the agreement of an instance with the store after a transition, and the exclusivity of placing a
  call across instances.
\<close>

section \<open>Lemmas on the cache\<close>

lemma synced_get [simp]: "get_call (markCallSynced cid nw s) = get_call s"
  by (simp add: markCallSynced_def)

lemma synced_frame [simp]:
  "call_state (markCallSynced cid nw s) = call_state s" "stores (markCallSynced cid nw s) = stores s"
  "message_bus (markCallSynced cid nw s) = message_bus s" "calls (markCallSynced cid nw s) = calls s"
  by (simp_all add: markCallSynced_def)

lemma adopt_get [simp]:
  "get_call (adoptSharedCall nw c s) k = (if k = c_id c then Some c else get_call s k)"
  by (simp add: adoptSharedCall_def Let_def)

lemma adopt_frame [simp]:
  "call_state (adoptSharedCall nw c s) = call_state s" "stores (adoptSharedCall nw c s) = stores s"
  by (simp_all add: adoptSharedCall_def Let_def put_call_def)

lemma adopt_keyed: "keyed s \<Longrightarrow> keyed (adoptSharedCall nw c s)"
  by (simp add: keyed_def)

text \<open>What hydration returns is the instance's own entry afterwards; no other entry changes.\<close>

lemma hydrate_result:
  assumes "keyed s" and "wf_shared r" and "hydrateCallFromShared e cid ma (s, r) = (res, s1)"
  shows "get_call s1 cid = res" and "k \<noteq> cid \<Longrightarrow> get_call s1 k = get_call s k" and "call_state s1 = call_state s"
    and "keyed s1"
proof -
  consider "res = get_call s cid" "s1 = s \<or> s1 = markCallSynced cid (now e) s"
    | sh where "shared_get r cid = Some sh" "res = Some sh" "s1 = adoptSharedCall (now e) sh s"
    using assms(3) by (auto simp: hydrateCallFromShared_def Let_def split: if_splits option.splits)
  then show "get_call s1 cid = res" and "k \<noteq> cid \<Longrightarrow> get_call s1 k = get_call s k" and "call_state s1 = call_state s"
    and "keyed s1"
    using assms(1) wf_shared_id [OF assms(2), of cid] by (cases; auto simp: adopt_keyed keyed_def)+
qed

lemma prime_get:
  assumes "keyed s" and "c_id c' = cid"
  shows "\<exists>x. get_call (primeLocalCallForTransition e cid c' st s) cid = Some x \<and> c_status x = st \<and> c_id x = cid"
    and "k \<noteq> cid \<Longrightarrow> get_call (primeLocalCallForTransition e cid c' st s) k = get_call s k"
    and "call_state (primeLocalCallForTransition e cid c' st s) = call_state s"
  using assms by (auto simp: primeLocalCallForTransition_def keyed_def split: option.split)

lemma transitionCall_frame [simp]:
  "call_state (snd (transitionCall e cid to actor r d s)) = call_state s"
  by (simp add: transitionCall_def Let_def split: option.split)

lemma moved_call_simps [simp]:
  "c_id (moved_call nw to reason c) = c_id c" "c_status (moved_call nw to reason c) = to"
  by (simp_all add: moved_call_def Let_def)

lemma persist_get [simp]:
  "get_call (fst (persistCallToShared e c (s, r))) = get_call s"
  "shared_get (snd (persistCallToShared e c (s, r))) k =
     (if call_state s \<and> k = c_id c then Some c else shared_get r k)"
  "call_state (fst (persistCallToShared e c (s, r))) = call_state s"
  by (simp_all add: persistCallToShared_def redis_calls.get_save)

section \<open>The shared store\<close>

text \<open>
  C5. The shared transition is a compare-and-swap with a single winner: when one instance has moved a
  call away from the status both had read, a second instance that asks for a different status is
  refused and changes nothing in the store.
\<close>

theorem transitionAtomic_single_winner:
  assumes "transitionAtomic nw cid from to reason r = (Inr (c, False), r1)" and "to \<noteq> to'"
  shows "(\<exists>err. transitionAtomic nw' cid from to' reason' r1 = (Inl err, r1)) \<and>
    shared_get r1 cid = Some c \<and> c_status c = to"
proof -
  obtain res r2 where second: "transitionAtomic nw' cid from to' reason' r1 = (res, r2)" by fastforce
  from redis_calls.single_winner [OF assms(1) second assms(2)] second
  have "\<exists>err. transitionAtomic nw' cid from to' reason' r1 = (Inl err, r1)" by auto
  with redis_calls.cas_swapped [OF assms(1)] show ?thesis by auto
qed

definition demo_shared :: shared_store where
  "demo_shared = shared_save demo_call empty_shared"

lemma transitionAtomic_single_winner_witness:
  "\<exists>err r1. transitionAtomic 5 ''id-'' Ringing Declined None r1 = (Inl err, r1) \<and>
     r1 = snd (transitionAtomic 4 ''id-'' Ringing Accepted None demo_shared)"
proof -
  have "case fst (transitionAtomic 4 ''id-'' Ringing Accepted None demo_shared) of Inr (c, b) \<Rightarrow> \<not> b | _ \<Rightarrow> False"
    by code_simp
  then obtain c r1 where run: "transitionAtomic 4 ''id-'' Ringing Accepted None demo_shared = (Inr (c, False), r1)"
    by (auto split: sum.splits simp: prod_eq_iff)
  with transitionAtomic_single_winner [OF run, of Declined 5 None] show ?thesis by auto
qed

lemma unindexed_members:
  "set (members (fold (\<lambda>u. unindex u u) us x) v) = set (members x v) - (if v \<in> set us then {v} else {})"
  by (induction us arbitrary: x) (auto simp: members_unindex)

lemma removed_get: "shared_get (shared_remove cid r) k = (if k = cid then None else shared_get r k)"
  by (simp add: shared_remove_def shared_get_def delete_conv')

lemma removed_members:
  "set (members (rindex (shared_remove cid r)) v) =
     set (members (rindex r) v) - (if v \<in> set (call_users (shared_get r cid)) then {v} else {})"
  by (auto simp: shared_remove_def unindexed_members call_users_def split: option.split)

lemma removed_wf:
  assumes "wf_shared r" and "\<forall>x \<in> set (call_users (shared_get r cid)). shared_get r x = None"
  shows "wf_shared (shared_remove cid r)"
proof (rule wf_sharedI)
  fix k c
  assume "shared_get (shared_remove cid r) k = Some c"
  then show "c_id c = k" using wf_shared_id [OF assms(1)] by (simp add: removed_get split: if_splits)
next
  fix k c u
  assume live: "live_call (shared_remove cid r) k = Some c" and u: "u \<in> set (activeCallParticipantIds c)"
  from live have "live_call r k = Some c" by (auto simp: live_call_def removed_get split: if_splits)
  with assms(1) u have "k \<in> set (members (rindex r) u)" by (simp add: wf_shared_def)
  moreover from \<open>live_call r k = Some c\<close> have "shared_get r k \<noteq> None" by (auto simp: live_call_def split: option.splits)
  ultimately show "k \<in> set (members (rindex (shared_remove cid r)) u)"
    using assms(2) by (auto simp: removed_members)
qed

text \<open>
  C6. The per-user index of the shared store: saving, moving, listing and removing keep each running call listed under
  each of its active participants, and so the list an instance reads for a user contains every running call the user
  is active on, and only running records of the store. Removing does so as long as no call has the id of a user of the
  removed call, for the script takes the ids of the users, and not the id of the call, out of the index; the
  removed call is gone from the store, and its id stays in the index of each user it was listed under.
\<close>

theorem shared_index_complete:
  assumes "wf_shared r"
  shows "wf_shared (shared_save c r) \<and> wf_shared (snd (transitionAtomic nw cid from to reason r)) \<and>
    wf_shared (snd (shared_list v r)) \<and>
    ((\<forall>x \<in> set (call_users (shared_get r cid)). shared_get r x = None) \<longrightarrow>
       wf_shared (shared_remove cid r) \<and> shared_get (shared_remove cid r) k' = (if k' = cid then None else shared_get r k') \<and>
       (cid \<in> set (members (rindex r) v) \<and> v \<noteq> cid \<longrightarrow> cid \<in> set (members (rindex (shared_remove cid r)) v))) \<and>
    (\<forall>k d. shared_get r k = Some d \<and> \<not> terminal (c_status d) \<and> u \<in> set (activeCallParticipantIds d) \<longrightarrow>
       d \<in> set (fst (shared_list u r))) \<and>
    (\<forall>d \<in> set (fst (shared_list u r)). shared_get r (c_id d) = Some d \<and> \<not> terminal (c_status d))"
proof -
  have "d \<in> set (fst (shared_list u r))"
    if "shared_get r k = Some d" "\<not> terminal (c_status d)" "u \<in> set (activeCallParticipantIds d)" for k d
  proof -
    have "live_call r k = Some d" using that by (simp add: live_call_iff)
    with wf_shared_listed [OF assms this that(3)] show ?thesis unfolding list_calls by blast
  qed
  moreover have "shared_get r (c_id d) = Some d \<and> \<not> terminal (c_status d)" if "d \<in> set (fst (shared_list u r))" for d
    using that wf_shared_id [OF assms] unfolding list_calls live_call_iff by auto
  moreover have "cid \<in> set (members (rindex r) v) \<and> v \<noteq> cid \<longrightarrow> cid \<in> set (members (rindex (shared_remove cid r)) v)"
    by (auto simp: removed_members)
  ultimately show ?thesis
    using save_wf [OF assms] transition_wf_shared [OF assms] list_wf [OF assms] removed_wf [OF assms, of cid] removed_get
    by blast
qed

lemma empty_shared_wf: "wf_shared empty_shared"
  by (rule wf_sharedI) (simp_all add: empty_shared_def shared_get_def live_call_def)

lemma demo_shared_wf: "wf_shared demo_shared"
  by (simp add: demo_shared_def save_wf empty_shared_wf)

lemma demo_shared_get: "shared_get demo_shared k = (if k = ''id-'' then Some demo_call else None)"
  by (simp add: demo_shared_def redis_calls.get_save demo_call_def) (simp add: empty_shared_def shared_get_def)

lemma shared_index_complete_witness: "demo_call \<in> set (fst (shared_list ''bob'' demo_shared))"
proof -
  have "shared_get demo_shared ''id-'' = Some demo_call" "\<not> terminal (c_status demo_call)"
    "''bob'' \<in> set (activeCallParticipantIds demo_call)"
    by (simp add: demo_shared_get, code_simp, code_simp)
  with shared_index_complete [OF demo_shared_wf, THEN conjunct2, THEN conjunct2, THEN conjunct2, THEN conjunct2, THEN conjunct1]
  show ?thesis by blast
qed

section \<open>Agreement after a transition\<close>

text \<open>
  C7. After a transition that succeeded on a fleet, the instance that ran it and the shared store hold
  the same record of the call, the one that was returned, in the requested status; no other call of
  either changes.
\<close>

theorem transition_coherent:
  assumes "keyed s" and "wf_shared r" and "call_state s"
    and run: "transitionCallWithShared e cid to actor reason dev (s, r) = (Inr (c, stale), (s', r'))"
  shows "get_call s' cid = Some c \<and> shared_get r' cid = Some c \<and> c_status c = to \<and>
    (\<forall>k. k \<noteq> cid \<longrightarrow> get_call s' k = get_call s k \<and> shared_get r' k = shared_get r k)"
proof -
  obtain res s1 where hyd: "hydrateCallFromShared e cid DEFAULT_CALL_STATE_FRESHNESS_MS (s, r) = (res, s1)" by fastforce
  note h = hydrate_result [OF assms(1,2) hyd]
  from run hyd obtain c0 where c0: "res = Some c0"
    by (cases res) (simp_all add: transitionCallWithShared_def)
  obtain ares r1 where cas: "transitionAtomic (now e) cid (c_status c0) to reason r = (ares, r1)" by fastforce
  have "call_state s1" using h(3) assms(3) by simp
  note unfold = run [unfolded transitionCallWithShared_def, simplified, unfolded hyd c0, simplified, unfolded cas]
  from unfold \<open>call_state s1\<close> obtain a idem where a: "ares = Inr (a, idem)"
    by (cases ares) (auto split: prod.splits)
  show ?thesis
  proof (cases idem)
    case True
    have "r1 = r" "shared_get r cid = Some a" "c_status a = to"
      using redis_calls.cas_idle [OF cas] redis_calls.cas_idempotent [of "now e" cid _ to reason r a r1] cas a True by auto
    moreover have "c = a" "s' = adoptSharedCall (now e) a s1" "r' = r1"
      using unfold \<open>call_state s1\<close> a True by auto
    ultimately show ?thesis
      using wf_shared_id [OF assms(2), of cid a] h(2) by auto
  next
    case False
    obtain b where b: "shared_get r cid = Some b" "c_status b = c_status c0" "c_status c0 \<noteq> to"
        "a = moved_call (now e) to reason b" "\<And>k. shared_get r1 k = (if k = cid then Some a else shared_get r k)"
      using redis_calls.cas_swapped [of "now e" cid "c_status c0" to reason r a r1] cas a False by auto
    have "c_id a = cid" using wf_shared_id [OF assms(2) b(1)] b(4) by simp
    let ?s2 = "primeLocalCallForTransition e cid a (c_status c0) s1"
    note p = prime_get [OF h(4) \<open>c_id a = cid\<close>, where e = e and st = "c_status c0"]
    obtain x where x: "get_call ?s2 cid = Some x" "c_status x = c_status c0" "c_id x = cid" using p(1) by blast
    obtain tres s3 where t: "transitionCall e cid to actor reason dev ?s2 = (tres, s3)" by fastforce
    from unfold \<open>call_state s1\<close> a False t obtain c' where c': "tres = Inr c'"
      and res: "c = c'" "(s', r') = persistCallToShared e c' (s3, r1)"
      by (cases tres) auto
    have moved: "c' = transitioned (now e) to reason dev x \<and> (\<forall>k. get_call s3 k = (if k = cid then Some c' else get_call ?s2 k))"
    proof (rule transitionCall_cases [of e cid to actor reason dev ?s2])
      fix y t'
      assume "get_call ?s2 cid = Some y"
        "transitionCall e cid to actor reason dev ?s2 = (Inr (transitioned (now e) to reason dev y), t')"
        "\<And>k. get_call t' k = (if k = c_id y then map_option (\<lambda>_. transitioned (now e) to reason dev y) (get_call ?s2 k)
            else get_call ?s2 k)"
      with x t c' show ?thesis by auto
    qed (use t c' x b(3) in auto)
    have "call_state s3"
      using transitionCall_frame [of e cid to actor reason dev ?s2] t p(3) \<open>call_state s1\<close> by simp
    moreover have "s' = fst (persistCallToShared e c' (s3, r1))" "r' = snd (persistCallToShared e c' (s3, r1))"
      using res(2) by (metis fst_conv, metis snd_conv)
    ultimately show ?thesis
      using moved x(3) p(2) h(2) b(5) res(1) by auto
  qed
qed

definition demo_fleet :: server_state where
  "demo_fleet = initial_state True False False True"

lemma demo_fleet_keyed: "keyed demo_fleet" "call_state demo_fleet"
  by (simp_all add: demo_fleet_def initial_state_def keyed_def get_call_def)

definition demo_accept :: "action_result \<times> node" where
  "demo_accept = transitionCallWithShared (demo_later 3000) ''id-'' Accepted (Some ''bob'') None (Some ''tablet'') (demo_fleet, demo_shared)"

lemma transition_coherent_witness:
  "\<exists>c s' r'. demo_accept = (Inr (c, False), (s', r')) \<and> c_status c = Accepted \<and>
     get_call s' ''id-'' = Some c \<and> shared_get r' ''id-'' = Some c"
proof -
  have ok: "case fst demo_accept of Inr (c, b) \<Rightarrow> \<not> b | _ \<Rightarrow> False" by code_simp
  obtain res s' r' where eq: "demo_accept = (res, (s', r'))" by (cases demo_accept) auto
  from ok have "case res of Inr (c, b) \<Rightarrow> \<not> b | _ \<Rightarrow> False" unfolding eq fst_conv .
  then obtain c where "res = Inr (c, False)" by (auto split: sum.splits)
  with eq have run: "demo_accept = (Inr (c, False), (s', r'))" by simp
  from transition_coherent [OF demo_fleet_keyed(1) demo_shared_wf demo_fleet_keyed(2) run [unfolded demo_accept_def]] run
  show ?thesis by blast
qed

lemma transitionCall_refused:
  "get_call s cid = Some c \<Longrightarrow> \<not> terminal (c_status c) \<Longrightarrow> c_status c \<noteq> to \<Longrightarrow>
     to \<notin> set (CALL_TRANSITIONS (c_status c)) \<Longrightarrow>
     \<exists>f. transitionCall e cid to actor reason dev s = (Inl f, s) \<and> f_error f = ''invalid_transition''"
  by (simp add: transitionCall_def)

text \<open>
  C8. The shared script does not consult \<open>CALL_TRANSITIONS\<close>: when an instance holds no copy of a call that is still
  running, a transition the table does not list is refused to the client with \<open>invalid_transition\<close>, but the shared
  store has already taken it, while the instance keeps the old status.
\<close>

theorem unlisted_transition_diverges:
  assumes "wf_shared r" and "call_state s" and "get_call s cid = None" and "shared_get r cid = Some c"
    and "\<not> terminal (c_status c)" and "to \<noteq> c_status c" and "to \<notin> set (CALL_TRANSITIONS (c_status c))"
  shows "\<exists>f s' r' d x. transitionCallWithShared e cid to actor reason dev (s, r) = (Inl f, (s', r')) \<and>
    f_error f = ''invalid_transition'' \<and> shared_get r' cid = Some d \<and> c_status d = to \<and>
    get_call s' cid = Some x \<and> c_status x = c_status c"
proof -
  let ?s1 = "adoptSharedCall (now e) c s"
  have id: "c_id c = cid" using wf_shared_id [OF assms(1,4)] .
  have hyd: "hydrateCallFromShared e cid DEFAULT_CALL_STATE_FRESHNESS_MS (s, r) = (Some c, ?s1)"
    using assms(2-4) by (simp add: hydrateCallFromShared_def)
  obtain r' where cas: "transitionAtomic (now e) cid (c_status c) to reason r = (Inr (moved_call (now e) to reason c, False), r')"
    using assms(4-6) by (simp add: transitionAtomic_def Let_def)
  have get: "shared_get r' cid = Some (moved_call (now e) to reason c)"
    using redis_calls.cas_swapped [OF cas] by auto
  let ?s2 = "primeLocalCallForTransition e cid (moved_call (now e) to reason c) (c_status c) ?s1"
  have prime: "get_call ?s2 cid = Some (c\<lparr>c_status := c_status c\<rparr>)"
    using id by (simp add: primeLocalCallForTransition_def)
  obtain f where t: "transitionCall e cid to actor reason dev ?s2 = (Inl f, ?s2)" "f_error f = ''invalid_transition''"
    using transitionCall_refused [OF prime, of to e actor reason dev] assms(5-7) by auto
  show ?thesis
    using hyd cas t get prime assms(2)
    by (auto simp: transitionCallWithShared_def)
qed

lemma unlisted_transition_diverges_witness:
  "\<exists>f s' r' d x. transitionCallWithShared (demo_later 3000) ''id-'' In_Call (Some ''alice'') None None (demo_fleet, demo_shared) =
      (Inl f, (s', r')) \<and> shared_get r' ''id-'' = Some d \<and> c_status d = In_Call \<and>
      get_call s' ''id-'' = Some x \<and> c_status x = Ringing"
proof -
  have "get_call demo_fleet ''id-'' = None" "shared_get demo_shared ''id-'' = Some demo_call"
    "\<not> terminal (c_status demo_call)" "In_Call \<noteq> c_status demo_call"
    "In_Call \<notin> set (CALL_TRANSITIONS (c_status demo_call))"
    by (code_simp, simp add: demo_shared_get, code_simp, code_simp, code_simp)
  from unlisted_transition_diverges [OF demo_shared_wf demo_fleet_keyed(2) this, of "demo_later 3000" "Some ''alice''" None None]
  show ?thesis by (auto simp: demo_call_def)
qed

section \<open>Lemmas on refreshing\<close>

lemma active_for_listed: "active_for nw st u c \<Longrightarrow> u \<in> set (activeCallParticipantIds c)"
proof -
  assume act: "active_for nw st u c"
  show ?thesis
  proof (cases "or_empty (c_parts c)")
    case Nil
    with act show ?thesis
      by (cases "c_parts c") (auto simp: active_for_def isCallParticipant_def activeCallParticipantIds_def)
  next
    case (Cons p ps)
    then have parts: "c_parts c = Some (p # ps)" by (cases "c_parts c") auto
    with act have "\<exists>x \<in> set (p # ps). p_user x = u" by (auto simp: active_for_def isCallParticipant_def)
    then obtain x where x: "x \<in> set (p # ps)" "p_user x = u" by blast
    have "find_participant c u \<noteq> None"
    proof
      assume "find_participant c u = None"
      then have "find (\<lambda>p. p_user p = u) (p # ps) = None"
        by (simp only: find_participant_def parts or_empty.simps)
      from find_NoneD [OF this x(1)] x(2) show False by simp
    qed
    with act obtain q where "find_participant c u = Some q" "active_state (p_state q)"
      by (auto simp: active_for_def)
    with parts find_SomeD [of "\<lambda>p. p_user p = u" "p # ps" q] show ?thesis
      by (auto simp: find_participant_def activeCallParticipantIds_def)
  qed
qed

lemma adopt_fold_get:
  "(\<forall>d \<in> set ds. c_id d = k \<longrightarrow> d = c) \<Longrightarrow>
     get_call (fold (adoptSharedCall nw) ds s) k = (if c \<in> set ds \<and> c_id c = k then Some c else get_call s k)"
proof (induction ds arbitrary: s)
  case (Cons d ds)
  have d: "c_id d = k \<Longrightarrow> d = c" and ds: "\<forall>d \<in> set ds. c_id d = k \<longrightarrow> d = c" using Cons.prems by simp_all
  have "get_call (fold (adoptSharedCall nw) (d # ds) s) k =
      (if c \<in> set ds \<and> c_id c = k then Some c else get_call (adoptSharedCall nw d s) k)"
    using Cons.IH [OF ds, of "adoptSharedCall nw d s"] by simp
  also have "\<dots> = (if c \<in> set (d # ds) \<and> c_id c = k then Some c else get_call s k)"
  proof (cases "c_id d = k")
    case True
    with d [OF True] show ?thesis by simp
  next
    case False
    then show ?thesis by auto
  qed
  finally show ?case .
qed simp

lemma adopt_fold_frame [simp]: "call_state (fold (adoptSharedCall nw) ds s) = call_state s"
  by (induction ds arbitrary: s) simp_all

lemma settle_frame [simp]: "call_state (settle_orphan nw r k s) = call_state s"
  by (simp add: settle_orphan_def split: option.split)

lemma settle_fold_frame [simp]: "call_state (fold (settle_orphan nw r) ks s) = call_state s"
  by (induction ks arbitrary: s) simp_all

lemma settle_fold_keeps:
  "wf_shared r \<Longrightarrow> shared_get r k = Some c \<Longrightarrow> get_call s k = Some c \<Longrightarrow>
     get_call (fold (settle_orphan nw r) ks s) k = Some c"
proof (induction ks arbitrary: s)
  case (Cons a ks)
  have "get_call (settle_orphan nw r a s) k = Some c"
  proof (cases "shared_get r a")
    case None
    with Cons.prems(2,3) have "a \<noteq> k" by auto
    with None Cons.prems(3) show ?thesis by (simp add: settle_orphan_def get_call_def)
  next
    case (Some d)
    with Cons.prems(2,3) wf_shared_id [OF Cons.prems(1) Some] show ?thesis by (auto simp: settle_orphan_def)
  qed
  with Cons show ?case by simp
qed simp

text \<open>One refresh: the running calls of the user are in the local registry, and no confirmed record is lost.\<close>

lemma refresh_user:
  assumes wf: "wf_shared r" and shared: "call_state s"
    and run: "refreshActiveCallsForUser e ok u (s, r) = (s', r')"
  shows "wf_shared r'" and "shared_get r' = shared_get r" and "call_state s'"
    and "shared_get r k = Some c \<Longrightarrow> get_call s k = Some c \<Longrightarrow> get_call s' k = Some c"
    and "ok \<Longrightarrow> shared_get r k = Some c \<Longrightarrow> \<not> terminal (c_status c) \<Longrightarrow> u \<in> set (activeCallParticipantIds c) \<Longrightarrow>
      get_call s' k = Some c"
proof -
  obtain ds r1 where ds: "shared_list u r = (ds, r1)" by fastforce
  have r1: "wf_shared r1" "shared_get r1 = shared_get r"
    using list_wf [OF wf, of u] list_get(1) [of u r] by (simp_all add: ds)
  have mem: "d \<in> set ds \<longleftrightarrow> (\<exists>k \<in> set (members (rindex r) u). live_call r k = Some d)" for d
    using list_calls [of d u r] by (simp add: ds)
  have ids: "d = c" if "d \<in> set ds" "c_id d = k" "shared_get r k = Some c" for d k c
    using that wf_shared_id [OF wf] by (auto simp: mem live_call_iff)
  show "wf_shared r'" "shared_get r' = shared_get r" "call_state s'"
    using run r1 wf shared by (auto simp: refreshActiveCallsForUser_def ds Let_def split: if_splits)
  have main: "get_call s' k = Some c" if c: "shared_get r k = Some c"
    and keep: "get_call s k = Some c \<or> (ok \<and> \<not> terminal (c_status c) \<and> u \<in> set (activeCallParticipantIds c))"
  proof (cases ok)
    case True
    have id: "c_id c = k" by (rule wf_shared_id [OF wf c])
    have listed: "c \<in> set ds" if "\<not> terminal (c_status c)" "u \<in> set (activeCallParticipantIds c)"
      using wf_shared_listed [OF wf, of k c u] that c unfolding mem live_call_iff by blast
    have "\<forall>d \<in> set ds. c_id d = k \<longrightarrow> d = c" using ids [OF _ _ c] by blast
    note adopted = adopt_fold_get [OF this, of "now e" s]
    have "get_call (fold (adoptSharedCall (now e)) ds s) k = Some c"
      using keep
    proof
      assume "get_call s k = Some c"
      then show ?thesis by (simp add: adopted id)
    next
      assume "ok \<and> \<not> terminal (c_status c) \<and> u \<in> set (activeCallParticipantIds c)"
      then show ?thesis using listed by (simp add: adopted id)
    qed
    from settle_fold_keeps [OF r1(1) _ this] c r1(2) True shared run show ?thesis
      by (auto simp: refreshActiveCallsForUser_def ds Let_def)
  qed (use run keep shared in \<open>auto simp: refreshActiveCallsForUser_def\<close>)
  show "shared_get r k = Some c \<Longrightarrow> get_call s k = Some c \<Longrightarrow> get_call s' k = Some c"
    using main by simp
  show "ok \<Longrightarrow> shared_get r k = Some c \<Longrightarrow> \<not> terminal (c_status c) \<Longrightarrow> u \<in> set (activeCallParticipantIds c) \<Longrightarrow>
      get_call s' k = Some c"
    using main by simp
qed

lemma refresh_users:
  assumes "wf_shared r" and "call_state s"
    and "fold (\<lambda>u. refreshActiveCallsForUser e (ok u) u) us (s, r) = (s', r')"
    and "shared_get r k = Some c" and "get_call s k = Some c"
  shows "get_call s' k = Some c \<and> shared_get r' = shared_get r \<and> wf_shared r'"
  using assms
proof (induction us arbitrary: s r)
  case Nil
  then show ?case by simp
next
  case (Cons u us)
  obtain s1 r1 where one: "refreshActiveCallsForUser e (ok u) u (s, r) = (s1, r1)" by fastforce
  note step = refresh_user [OF Cons.prems(1,2) one]
  have "get_call s' k = Some c \<and> shared_get r' = shared_get r1 \<and> wf_shared r'"
    by (rule Cons.IH [OF step(1,3)]) (use Cons.prems one step(2,4) in auto)
  with step(2) show ?case by simp
qed

text \<open>
  One call per user across the fleet: when the shared store says the caller is live on a call,
  whichever instance runs it, a new call is refused with \<open>call_in_progress\<close> and no record of the store
  changes, unless that call is the caller's own unanswered ring to the same callee or an incoming ring
  the caller has not answered.
\<close>

theorem place_refuses_busy_caller:
  assumes "wf_shared r" and "call_state s" and "ok (pa_caller a)"
    and "shared_get r k = Some c" and "active_for (now e) (pa_ringing_ms a) (pa_caller a) c"
    and "\<not> isSupersededRedial c (pa_caller a) (hd (place_invitees a))"
    and "\<not> (c_status c = Ringing \<and> c_callee c = pa_caller a)"
  shows "\<exists>b s' r'. placeCallWithShared e ok a (s, r) =
      (Inr (Call_In_Progress b (callPeerId b (pa_caller a))), (s', r')) \<and>
    shared_get r' = shared_get r \<and> active_for (now e) (pa_ringing_ms a) (pa_caller a) b"
proof -
  obtain s1 r1 where one: "refreshActiveCallsForUser e (ok (pa_caller a)) (pa_caller a) (s, r) = (s1, r1)" by fastforce
  note step = refresh_user [OF assms(1,2) one]
  obtain s2 r2 where rest: "fold (\<lambda>u. refreshActiveCallsForUser e (ok u) u) (place_invitees a) (s1, r1) = (s2, r2)"
    by fastforce
  have "\<not> terminal (c_status c)" using assms(5) by (simp add: active_for_def)
  with step(5) [OF assms(3,4)] active_for_listed [OF assms(5)] have "get_call s1 k = Some c" by blast
  from refresh_users [OF step(1,3) rest _ this] step(2) assms(4)
  have get: "get_call s2 k = Some c" "shared_get r2 = shared_get r" by auto
  have c: "c \<in> set (getActiveCallsForUser (now e) (pa_ringing_ms a) (pa_caller a) s2)"
    using map_of_values [OF get(1) [unfolded get_call_def]] assms(5) by (simp add: getActiveCallsForUser_def)
  let ?P = "\<lambda>c. \<not> isSupersededRedial c (pa_caller a) (hd (place_invitees a)) \<and>
      \<not> (c_status c = Ringing \<and> c_callee c = pa_caller a)"
  obtain b where b: "find ?P (getActiveCallsForUser (now e) (pa_ringing_ms a) (pa_caller a) s2) = Some b"
    using find_NoneD [OF _ c, of ?P] assms(6,7) by (cases "find ?P (getActiveCallsForUser (now e) (pa_ringing_ms a) (pa_caller a) s2)") auto
  then have "active_for (now e) (pa_ringing_ms a) (pa_caller a) b"
    using find_SomeD [OF b] by (simp add: getActiveCallsForUser_def)
  with b get(2) one rest show ?thesis
    by (simp add: placeCallWithShared_def Let_def findCallerBlockingCall_def)
qed

definition demo_place :: place_args where
  "demo_place = \<lparr>pa_caller = ''alice'', pa_callee = ''carol'', pa_callees = None, pa_ringing_ms = 120000,
     pa_device = None, pa_media = Video\<rparr>"

lemma place_refuses_busy_caller_witness:
  "\<exists>b s' r'. placeCallWithShared (demo_later 1000) (\<lambda>_. True) demo_place (demo_fleet, demo_shared) =
     (Inr (Call_In_Progress b (callPeerId b ''alice'')), (s', r')) \<and> shared_get r' = shared_get demo_shared"
proof -
  have "active_for (now (demo_later 1000)) (pa_ringing_ms demo_place) (pa_caller demo_place) demo_call"
    "\<not> isSupersededRedial demo_call (pa_caller demo_place) (hd (place_invitees demo_place))"
    "\<not> (c_status demo_call = Ringing \<and> c_callee demo_call = pa_caller demo_place)"
    by code_simp+
  from place_refuses_busy_caller [OF demo_shared_wf demo_fleet_keyed(2) _ _ this, of "\<lambda>_. True" "''id-''"]
  show ?thesis by (auto simp: demo_shared_get) (auto simp: demo_place_def)
qed

end
