(* ===== verification/PresenceProperties.thy ===== *)
theory PresenceProperties
  imports Presence
begin

text \<open>
  The properties of devices, connections and sessions (\<open>server/src/lib/state.ts\<close>): one live push token
  per device whatever the order of registrations, exact presence, the session sweep and the fan-out
  of a user's channels.
\<close>

section \<open>Runs of the presence operations\<close>

datatype presence_op =
    Upsert int device_patch
  | Remove string
  | Connect connection
  | Disconnect int string string
  | Drain int
  | Prune int

fun run_presence :: "presence_op \<Rightarrow> stores \<Rightarrow> stores" where
  "run_presence (Upsert nw p) st = fst (upsertDevice nw p st)"
| "run_presence (Remove dev) st = fst (removeDevice dev st)"
| "run_presence (Connect cn) st = addConnection cn st"
| "run_presence (Disconnect nw u sk) st = removeConnection nw u sk st"
| "run_presence (Drain nw) st = drainLocalPresence nw st"
| "run_presence (Prune nw) st = fst (pruneExpiredSessions nw st)"

lemma wf_devices_frame:
  "wf_devices st \<Longrightarrow> devices st' = devices st \<Longrightarrow> user_devices st' = user_devices st \<Longrightarrow> wf_devices st'"
proof -
  assume wf: "wf_devices st" and eqs: "devices st' = devices st" "user_devices st' = user_devices st"
  have "wf_devices st' = wf_devices st"
    by (simp only: wf_devices_def devices_of_def device_owner_def eqs)
  with wf show ?thesis by (simp only:)
qed

lemma wf_connections_frame:
  "wf_connections st \<Longrightarrow> user_connections st' = user_connections st \<Longrightarrow> user_presence st' = user_presence st \<Longrightarrow>
     wf_connections st'"
  by (simp add: wf_connections_def)

lemma add_connection_devices: "wf_devices st \<Longrightarrow> wf_devices (addConnection cn st)"
  by (erule wf_devices_frame) (simp_all add: addConnection_def registry_frame)

lemma remove_connection_devices: "wf_devices st \<Longrightarrow> wf_devices (removeConnection nw u sk st)"
  by (erule wf_devices_frame) (simp_all add: removeConnection_def registry_frame Let_def split: option.split)

lemma drain_devices: "devices (drainLocalPresence nw st) = devices st \<and> user_devices (drainLocalPresence nw st) = user_devices st"
proof -
  have "devices (fold (drain_visit nw) us st) = devices st \<and> user_devices (fold (drain_visit nw) us st) = user_devices st" for us
    by (induction us arbitrary: st) (simp_all add: drain_visit_def registry_frame)
  then show ?thesis by (simp add: drainLocalPresence_def)
qed

lemma prune_stores:
  "devices (fst (pruneExpiredSessions nw st)) = devices st"
  "user_devices (fst (pruneExpiredSessions nw st)) = user_devices st"
  "user_connections (fst (pruneExpiredSessions nw st)) = user_connections st"
  "user_presence (fst (pruneExpiredSessions nw st)) = user_presence st"
proof -
  let ?same = "\<lambda>sn. devices (fst sn) = devices st \<and> user_devices (fst sn) = user_devices st \<and>
      user_connections (fst sn) = user_connections st \<and> user_presence (fst sn) = user_presence st"
  have "?same (fold (prune_visit nw) ks (st, 0))" for ks
    by (rule fold_invariant_pred [where P = ?same]) (auto simp: prune_visit_def split: option.splits)
  then show "devices (fst (pruneExpiredSessions nw st)) = devices st"
    "user_devices (fst (pruneExpiredSessions nw st)) = user_devices st"
    "user_connections (fst (pruneExpiredSessions nw st)) = user_connections st"
    "user_presence (fst (pruneExpiredSessions nw st)) = user_presence st"
    by (simp_all add: pruneExpiredSessions_def)
qed

lemma run_devices_wf: "wf_devices st \<Longrightarrow> wf_devices (run_presence op st)"
  by (cases op) (auto simp: upsert_wf remove_wf add_connection_devices remove_connection_devices
      drain_devices prune_stores intro: wf_devices_frame)

text \<open>
  One device per push token: whatever registrations, removals, connections and sweeps happened, a
  live push token belongs to exactly one device row, rows are filed under their own id, and the
  per-user index lists exactly the rows of each user.
\<close>

theorem push_token_unique:
  "wf_devices (fold run_presence ops empty_stores)"
proof -
  have "wf_devices st \<Longrightarrow> wf_devices (fold run_presence ops st)" for st
    by (induction ops arbitrary: st) (simp_all add: run_devices_wf)
  then show ?thesis using wf_devices_empty by blast
qed

text \<open>
  A freshly registered token wins: after a registration that carries a token, the row of that
  device holds it, no other row does, and the row belongs to the registering user.
\<close>

theorem upsertDevice_takes_token:
  assumes "wf_devices st" and "dp_token p = Some (Some tok)" and "tok \<noteq> ''''"
  shows "\<exists>d. map_of (devices (fst (upsertDevice nw p st))) (dp_id p) = Some d \<and>
     d_token d = Some tok \<and> d_user d = dp_user p \<and>
     dp_id p \<in> set (devices_of (fst (upsertDevice nw p st)) (dp_user p)) \<and>
     (\<forall>k e. map_of (devices (fst (upsertDevice nw p st))) k = Some e \<and> d_token e = Some tok \<longrightarrow> k = dp_id p)"
proof -
  let ?st = "fst (upsertDevice nw p st)"
  obtain d where d: "map_of (devices ?st) (dp_id p) = Some d" "d_token d = Some tok" "d_user d = dp_user p"
    using assms(2) by (auto simp: upsert_devices [OF assms(1)] Let_def patched_device_def)
  have wf: "wf_devices ?st" by (rule upsert_wf [OF assms(1)])
  have "dp_id p \<in> set (devices_of ?st (dp_user p))"
    using d by (simp add: wf_device_owner [OF wf] device_owner_def)
  moreover have "k = dp_id p" if "map_of (devices ?st) k = Some e" "d_token e = Some tok" for k e
    using wf_device_token [OF wf that(1) d(1)] that(2) d(2) assms(3) by simp
  ultimately show ?thesis using d by blast
qed

definition demo_patch :: "string \<Rightarrow> string \<Rightarrow> device_patch" where
  "demo_patch dev u = \<lparr>dp_id = dev, dp_user = u, dp_platform = None, dp_session = None,
     dp_provider = Some (Some ''fcm''), dp_token = Some (Some ''T''), dp_registered = None,
     dp_unregistered = None, dp_revoked = None\<rparr>"

lemma upsertDevice_takes_token_witness:
  "\<exists>d. map_of (devices (fst (upsertDevice 2 (demo_patch ''d2'' ''bob'')
      (fst (upsertDevice 1 (demo_patch ''d1'' ''alice'') empty_stores))))) ''d2'' = Some d \<and> d_token d = Some ''T''"
  using upsertDevice_takes_token [of "fst (upsertDevice 1 (demo_patch ''d1'' ''alice'') empty_stores)"
      "demo_patch ''d2'' ''bob''" "''T''" 2] upsert_wf [OF wf_devices_empty]
  by (auto simp: demo_patch_def)

section \<open>Sessions\<close>

text \<open>
  The session sweep removes exactly the sessions whose declared expiry has passed, keeps every
  other one unchanged (sessions without a readable expiry included), keeps the per-user index exact,
  and returns how many it removed.
\<close>

theorem pruneExpiredSessions_exact:
  assumes "wf_sessions st" and "pruneExpiredSessions nw st = (st', n)"
  shows "map_of (sessions st') k =
      (case map_of (sessions st) k of
         None \<Rightarrow> None | Some ses \<Rightarrow> if session_expired nw ses then None else Some ses) \<and>
    wf_sessions st' \<and>
    n = card {k. \<exists>ses. map_of (sessions st) k = Some ses \<and> session_expired nw ses}"
proof -
  have keys: "distinct (map fst (sessions st))" using assms(1) by (simp add: wf_sessions_def)
  let ?P = "\<lambda>k. \<exists>ses. map_of (sessions st) k = Some ses \<and> session_expired nw ses"
  have "n = length (filter ?P (map fst (sessions st)))"
    using prune_count_fold [OF keys, of nw st 0] assms(2) by (simp add: pruneExpiredSessions_def)
  also have "\<dots> = card (set (filter ?P (map fst (sessions st))))"
    using keys by (simp only: distinct_card [OF distinct_filter])
  also have "set (filter ?P (map fst (sessions st))) = {k. ?P k}"
    by (auto dest: map_of_in_keys simp del: set_map)
  finally show ?thesis
    using prune_lookup [OF keys, of nw k] prune_wf [OF assms(1), of nw] assms(2) by simp
qed

definition demo_session :: "string \<Rightarrow> int \<Rightarrow> session_record" where
  "demo_session sid t = \<lparr>ses_id = sid, ses_user = ''alice'', ses_device = ''d1'', ses_platform = None,
     ses_created = At 0, ses_expires = Some (At t)\<rparr>"

definition demo_sessions :: stores where
  "demo_sessions = empty_stores\<lparr>sessions := [(''s1'', demo_session ''s1'' 10), (''s2'', demo_session ''s2'' 99)],
     user_sessions := [(''alice'', [''s1'', ''s2''])]\<rparr>"

lemma pruneExpiredSessions_exact_witness:
  "map_of (sessions (fst (pruneExpiredSessions 50 demo_sessions))) ''s1'' = None \<and>
   map_of (sessions (fst (pruneExpiredSessions 50 demo_sessions))) ''s2'' = Some (demo_session ''s2'' 99)"
proof -
  have wf: "wf_sessions demo_sessions"
    by (auto simp: wf_sessions_def demo_sessions_def empty_stores_def tidy_index_def session_owner_def
        members_def demo_session_def)
  obtain st n where run: "pruneExpiredSessions 50 demo_sessions = (st, n)" by fastforce
  show ?thesis
    using pruneExpiredSessions_exact [OF wf run, of "''s1''"] pruneExpiredSessions_exact [OF wf run, of "''s2''"] run
    by (simp add: demo_sessions_def demo_session_def session_expired_def session_expiry_ms_def)
qed

section \<open>Channels\<close>

lemma fresher_key:
  assumes "freshness_ms (snd a) = Some x" and "freshness_ms (snd b) = Some y"
  shows "fresher a b \<le> 0 \<longleftrightarrow> - x \<le> - y"
  using assms by (simp add: fresher_def)

text \<open>
  The channels a user is reached on: one websocket channel per live socket, then push channels of
  the user's own registered devices only, at most the configured number, and (timestamps readable)
  the most recently registered devices first, so what the cap cuts off is never fresher than what is
  kept.
\<close>

theorem reachable_channels_bounded:
  assumes "0 < m"
    and "\<And>did ch t. did \<in> set (devices_of st u) \<Longrightarrow> push_candidate st did = Some (ch, t) \<Longrightarrow> freshness_ms t \<noteq> None"
  defines "push \<equiv> filter (\<lambda>ch. case ch of Push _ _ _ \<Rightarrow> True | _ \<Rightarrow> False) (resolveReachableChannels m st u)"
  shows "int (length push) \<le> m \<and>
    length (resolveReachableChannels m st u) = length (connections_of st u) + length push \<and>
    (\<forall>did ch t. did \<in> set (devices_of st u) \<and> push_candidate st did = Some (ch, t) \<and> ch \<notin> set push \<longrightarrow>
       (\<forall>did' ch' t'. did' \<in> set (devices_of st u) \<and> push_candidate st did' = Some (ch', t') \<and> ch' \<in> set push \<longrightarrow>
          the (freshness_ms t) \<le> the (freshness_ms t')))"
proof -
  let ?c = "List.map_filter (push_candidate st) (devices_of st u)"
  let ?q = "sort_cmp fresher ?c"
  let ?key = "\<lambda>x. - the (freshness_ms (snd x))"
  have cand: "x \<in> set ?c \<Longrightarrow> (\<exists>did pr tok. fst x = Push did pr tok) \<and> freshness_ms (snd x) \<noteq> None" for x
    using assms(2) by (cases x) (auto simp: set_map_filter push_candidate_Some)
  have sorted: "?q = sort_key ?key ?c"
  proof (rule sort_cmp_key)
    fix a b assume "a \<in> set ?c" "b \<in> set ?c"
    then obtain x y where "freshness_ms (snd a) = Some x" "freshness_ms (snd b) = Some y"
      using cand by (meson not_None_eq)
    then show "fresher a b \<le> 0 \<longleftrightarrow> ?key a \<le> ?key b" by (simp add: fresher_key)
  qed
  have push: "push = map fst (take (nat m) ?q)"
  proof -
    have "filter (\<lambda>ch. case ch of Push _ _ _ \<Rightarrow> True | _ \<Rightarrow> False) (map fst (take (nat m) ?q)) = map fst (take (nat m) ?q)"
    proof (rule filter_True, rule ballI)
      fix ch assume "ch \<in> set (map fst (take (nat m) ?q))"
      then obtain x where x: "x \<in> set (take (nat m) ?q)" "ch = fst x" by auto
      have "x \<in> set ?c" using in_set_takeD [OF x(1)] by simp
      with cand [of x] x(2) show "case ch of Push _ _ _ \<Rightarrow> True | _ \<Rightarrow> False" by auto
    qed
    moreover have "filter (\<lambda>ch. case ch of Push _ _ _ \<Rightarrow> True | _ \<Rightarrow> False)
        (map (\<lambda>cn. Websocket (cn_socket cn) (cn_device cn) (cn_session cn)) cs) = []" for cs
      by (induction cs) simp_all
    ultimately show ?thesis using assms(1) by (simp add: push_def resolveReachableChannels_def Let_def)
  qed
  have older: "the (freshness_ms (snd x)) \<le> the (freshness_ms (snd y))"
    if x: "x \<in> set ?c" "x \<notin> set (take (nat m) ?q)" and y: "y \<in> set (take (nat m) ?q)" for x y
  proof -
    have "x \<in> set (drop (nat m) ?q)"
      using x set_append [of "take (nat m) ?q" "drop (nat m) ?q"] by simp
    with y have "?key y \<le> ?key x"
      unfolding sorted by (intro take_sorted_le [of ?key "sort_key ?key ?c"]) simp_all
    then show ?thesis by simp
  qed
  have "the (freshness_ms t) \<le> the (freshness_ms t')"
    if "did \<in> set (devices_of st u)" "push_candidate st did = Some (ch, t)" "ch \<notin> set push" "ch' \<in> set push"
      "push_candidate st did' = Some (ch', t')"
    for did ch t did' ch' t'
  proof -
    note prems = that
    have x: "(ch, t) \<in> set ?c" using that by (auto simp: set_map_filter)
    have x': "(ch, t) \<notin> set (take (nat m) ?q)" using that(3) by (force simp: push)
    obtain y where y: "y \<in> set (take (nat m) ?q)" "ch' = fst y" using prems(4) by (auto simp: push)
    have "y \<in> set ?c" using in_set_takeD [OF y(1)] by simp
    then obtain did'' where "push_candidate st did'' = Some y" by (auto simp: set_map_filter)
    with prems(5) y(2) have "snd y = t'"
      by (cases y) (auto simp: push_candidate_Some)
    with older [OF x x' y(1)] show ?thesis by simp
  qed
  moreover have "int (length push) \<le> m" using assms(1) by (simp add: push)
  moreover have "length (resolveReachableChannels m st u) = length (connections_of st u) + length push"
    using assms(1) by (simp add: resolveReachableChannels_def Let_def push)
  ultimately show ?thesis by blast
qed

definition demo_devices :: stores where
  "demo_devices = fst (upsertDevice 7 ((demo_patch ''d2'' ''alice'')\<lparr>dp_token := Some (Some ''T2''), dp_registered := Some (Some (At 5))\<rparr>)
     (fst (upsertDevice 6 ((demo_patch ''d1'' ''alice'')\<lparr>dp_registered := Some (Some (At 9))\<rparr>) empty_stores)))"

lemma reachable_channels_bounded_witness:
  "length (resolveReachableChannels 1 demo_devices ''alice'') = 1"
proof -
  have two: "devices_of demo_devices ''alice'' = [''d1'', ''d2'']" by code_simp
  have c1: "push_candidate demo_devices ''d1'' = Some (Push ''d1'' ''fcm'' ''T'', Some (At 9))"
    and c2: "push_candidate demo_devices ''d2'' = Some (Push ''d2'' ''fcm'' ''T2'', Some (At 5))" by code_simp+
  have "freshness_ms t \<noteq> None"
    if "did \<in> set (devices_of demo_devices ''alice'')" "push_candidate demo_devices did = Some (ch, t)" for did ch t
    using that c1 c2 by (auto simp: two freshness_ms_def)
  note spec = reachable_channels_bounded [of 1 demo_devices "''alice''", OF zero_less_one this]
  have none: "connections_of demo_devices ''alice'' = []" by code_simp
  have "filter (\<lambda>ch. case ch of Push _ _ _ \<Rightarrow> True | _ \<Rightarrow> False) (resolveReachableChannels 1 demo_devices ''alice'') \<noteq> []"
    by code_simp
  with spec none show ?thesis
    by (cases "filter (\<lambda>ch. case ch of Push _ _ _ \<Rightarrow> True | _ \<Rightarrow> False) (resolveReachableChannels 1 demo_devices ''alice'')") auto
qed

end
