(* ===== verification/Messages.thy ===== *)
theory Messages
  imports Prelude
begin

text \<open>
  Chat messages: the pure record logic (\<open>server/src/messageStore/records.ts\<close>, \<open>queries.ts\<close>,
  \<open>conversations.ts\<close>, \<open>changeCursor.ts\<close>, \<open>shared/messages.ts\<close>) and the in-process store
  (\<open>messageStore/memoryStore.ts\<close>).

  A timestamp of a message is the epoch millisecond of its ISO string: ISO strings compare as the
  instants they name. Attachments are opaque. A reactions object is an association list. What a method
  returns is a value: the shallow copies of the code share arrays with the stored row, which no caller
  of the repository writes to. \<open>BigInt\<close> change ids are naturals.
\<close>

section \<open>Message types\<close>

definition KNOWN_MESSAGE_TYPES :: "string list" where
  "KNOWN_MESSAGE_TYPES = [''text'', ''image'', ''file'', ''voice'', ''system'']"

definition DEFAULT_MESSAGE_TYPE :: string where
  "DEFAULT_MESSAGE_TYPE = ''text''"

definition isSupportedMessageType :: "string option \<Rightarrow> bool" where
  "isSupportedMessageType t = (\<exists>s \<in> set KNOWN_MESSAGE_TYPES. t = Some s)"

section \<open>Records\<close>

type_synonym reactions = "(string \<times> string list) list"

record message =
  m_id :: string
  m_client :: "string option"
  m_conv :: string
  m_sender :: string
  m_recipient :: string
  m_body :: string
  m_type :: string
  m_attachment :: "string option"
  m_reply :: "string option"
  m_reactions :: reactions
  m_deleted :: "int option"
  m_created :: int
  m_delivered :: "string list"
  m_read :: "int option"

text \<open>\<open>NewMessageInput\<close>: what a caller gives; \<open>None\<close> is an absent field.\<close>

record new_message =
  n_id :: "string option"
  n_client :: "string option"
  n_conv :: "string option"
  n_sender :: string
  n_recipient :: string
  n_body :: string
  n_type :: "string option"
  n_attachment :: "string option"
  n_reply :: "string option"
  n_reactions :: reactions
  n_deleted :: "int option"
  n_created :: "int option"
  n_delivered :: "string list option"
  n_read :: "int option"

text \<open>The generator's last value and the clock.\<close>

definition nextTimestamp :: "int \<Rightarrow> int \<Rightarrow> int" where
  "nextTimestamp clock prev = (if prev < clock then clock else prev + 1)"

definition normaliseReactions :: "reactions \<Rightarrow> reactions" where
  "normaliseReactions rs =
     filter (\<lambda>(_, us). us \<noteq> []) (map (\<lambda>(em, us). (em, uniq (filter (\<lambda>u. u \<noteq> '''') us))) rs)"

text \<open>\<open>[a, b].sort().join(':')\<close>.\<close>

definition deriveConversationId :: "string \<Rightarrow> string \<Rightarrow> string" where
  "deriveConversationId a b = (if b < a then b @ '':'' @ a else a @ '':'' @ b)"

definition or_else :: "string option \<Rightarrow> string \<Rightarrow> string" where
  "or_else x d = (if str_truthy x then the x else d)"

definition createMessageRecord :: "string \<Rightarrow> int \<Rightarrow> new_message \<Rightarrow> message" where
  "createMessageRecord fresh stamp n =
     \<lparr>m_id = or_else (n_id n) fresh,
      m_client = (if str_truthy (n_client n) then n_client n else None),
      m_conv = or_else (n_conv n) (deriveConversationId (n_sender n) (n_recipient n)),
      m_sender = n_sender n, m_recipient = n_recipient n, m_body = n_body n,
      m_type = (if isSupportedMessageType (n_type n) then the (n_type n) else DEFAULT_MESSAGE_TYPE),
      m_attachment = n_attachment n, m_reply = n_reply n, m_reactions = normaliseReactions (n_reactions n),
      m_deleted = n_deleted n,
      m_created = (case n_created n of Some t \<Rightarrow> t | None \<Rightarrow> stamp),
      m_delivered = or_empty (n_delivered n), m_read = n_read n\<rparr>"

definition applyTombstone :: "int \<Rightarrow> 'a message_scheme \<Rightarrow> 'a message_scheme" where
  "applyTombstone t m = m\<lparr>m_body := '''', m_attachment := None, m_reactions := [], m_deleted := Some t\<rparr>"

datatype react = Add_Reaction | Remove_Reaction

definition applyReaction :: "string \<Rightarrow> string \<Rightarrow> react \<Rightarrow> reactions \<Rightarrow> reactions" where
  "applyReaction em u act rs =
     (let next = normaliseReactions rs;
          current = or_empty (map_of next em)
      in case act of
           Add_Reaction \<Rightarrow> (if u \<in> set current then next else AList.update em (current @ [u]) next)
         | Remove_Reaction \<Rightarrow>
             (let remaining = filter (\<lambda>v. v \<noteq> u) current
              in if remaining \<noteq> [] then AList.update em remaining next else AList.delete em next))"

definition peerIdOf :: "message \<Rightarrow> string \<Rightarrow> string" where
  "peerIdOf m u = (if m_sender m = u then m_recipient m else m_sender m)"

definition byNewestFirst :: "'a message_scheme \<Rightarrow> 'a message_scheme \<Rightarrow> int" where
  "byNewestFirst a b =
     (if m_created a \<noteq> m_created b then (if m_created a < m_created b then 1 else - 1)
      else if m_id a = m_id b then 0
      else if m_id a < m_id b then 1 else - 1)"

section \<open>Queries\<close>

definition DEFAULT_MESSAGE_LIMIT :: int where "DEFAULT_MESSAGE_LIMIT = 50"
definition MAX_MESSAGE_LIMIT :: int where "MAX_MESSAGE_LIMIT = 100"
definition MAX_MESSAGE_EXPORT_READ_LIMIT :: int where "MAX_MESSAGE_EXPORT_READ_LIMIT = MAX_MESSAGE_LIMIT + 1"
definition MAX_CONVERSATION_LIMIT :: nat where "MAX_CONVERSATION_LIMIT = 100"

text \<open>\<open>Number(limit)\<close> as a floored integer, \<open>None\<close> when it is not finite.\<close>

definition clampLimit :: "int option \<Rightarrow> int" where
  "clampLimit l = (case l of None \<Rightarrow> DEFAULT_MESSAGE_LIMIT | Some n \<Rightarrow> min (max n 1) MAX_MESSAGE_LIMIT)"

definition clampExportReadLimit :: "int option \<Rightarrow> int" where
  "clampExportReadLimit l =
     (case l of None \<Rightarrow> DEFAULT_MESSAGE_LIMIT | Some n \<Rightarrow> min (max n 1) MAX_MESSAGE_EXPORT_READ_LIMIT)"

text \<open>\<open>toLowerCase\<close> and the tokens of \<open>/[\p{L}\p{N}_]+/gu\<close>, on ASCII text.\<close>

definition word_char :: "char \<Rightarrow> bool" where
  "word_char ch =
     (let n = of_char ch :: nat
      in (97 \<le> n \<and> n \<le> 122) \<or> (65 \<le> n \<and> n \<le> 90) \<or> (48 \<le> n \<and> n \<le> 57) \<or> n = 95)"

fun word_tokens :: "string \<Rightarrow> string \<Rightarrow> string list" where
  "word_tokens acc [] = (if acc = [] then [] else [acc])"
| "word_tokens acc (ch # cs) =
     (if word_char ch then word_tokens (acc @ [ch]) cs
      else (if acc = [] then [] else [acc]) @ word_tokens [] cs)"

definition search_terms :: "string \<Rightarrow> string list" where
  "search_terms s = word_tokens [] (map lower_char s)"

definition bodyMatches :: "string \<Rightarrow> string \<Rightarrow> bool" where
  "bodyMatches body query =
     (search_terms query \<noteq> [] \<and> set (search_terms query) \<subseteq> set (search_terms body))"

definition normaliseSearchTerm :: "string option \<Rightarrow> string" where
  "normaliseSearchTerm q = trim (case q of Some s \<Rightarrow> s | None \<Rightarrow> '''')"

section \<open>Conversation summaries\<close>

record summary =
  su_conv :: string
  su_peer :: string
  su_last :: message
  su_unread :: nat

definition is_party :: "string \<Rightarrow> message \<Rightarrow> bool" where
  "is_party u m = (m_sender m = u \<or> m_recipient m = u)"

definition unread_for :: "string \<Rightarrow> message \<Rightarrow> bool" where
  "unread_for u m = (m_recipient m = u \<and> m_read m = None)"

definition count_unread :: "string \<Rightarrow> message \<Rightarrow> summary \<Rightarrow> summary" where
  "count_unread u m su = (if unread_for u m then su\<lparr>su_unread := Suc (su_unread su)\<rparr> else su)"

definition summarise_step :: "string \<Rightarrow> message \<Rightarrow> (string \<times> summary) list \<Rightarrow> (string \<times> summary) list" where
  "summarise_step u m acc =
     (if \<not> is_party u m then acc
      else (case map_of acc (m_conv m) of
              None \<Rightarrow> AList.update (m_conv m)
                (count_unread u m \<lparr>su_conv = m_conv m, su_peer = peerIdOf m u, su_last = m, su_unread = 0\<rparr>) acc
            | Some su \<Rightarrow> AList.update (m_conv m)
                (count_unread u m (if byNewestFirst m (su_last su) < 0 then su\<lparr>su_last := m\<rparr> else su)) acc))"

definition summariseConversations :: "message list \<Rightarrow> string \<Rightarrow> summary list" where
  "summariseConversations ms u =
     sort_cmp (\<lambda>a b. byNewestFirst (su_last a) (su_last b)) (map snd (fold (summarise_step u) ms []))"

section \<open>The memory store\<close>

datatype change_type = New_Change | Edited_Change | Deleted_Change | Reactions_Change | Read_Change

record change =
  ch_id :: nat
  ch_type :: change_type
  ch_at :: int
  ch_message :: message

text \<open>\<open>last_ms\<close> and \<open>sequence\<close> are module-level counters of \<open>records.ts\<close> and \<open>changeCursor.ts\<close>.\<close>

record message_store =
  msgs :: "message list"
  changes :: "change list"
  last_ms :: int
  sequence :: nat

definition empty_message_store :: message_store where
  "empty_message_store = \<lparr>msgs = [], changes = [], last_ms = 0, sequence = 0\<rparr>"

definition recordChange :: "change_type \<Rightarrow> int \<Rightarrow> message \<Rightarrow> message_store \<Rightarrow> message_store" where
  "recordChange ty t m st =
     st\<lparr>changes := changes st @ [\<lparr>ch_id = Suc (sequence st), ch_type = ty, ch_at = t, ch_message = m\<rparr>],
        sequence := Suc (sequence st)\<rparr>"

definition same_message :: "message \<Rightarrow> message \<Rightarrow> bool" where
  "same_message r c =
     ((str_truthy (m_client r) \<and> m_sender c = m_sender r \<and> m_client c = m_client r) \<or>
      (m_conv c = m_conv r \<and> m_id c = m_id r))"

text \<open>\<open>fresh\<close> is the \<open>randomUUID\<close> the record would get. The clock is read only when no \<open>createdAt\<close> is given.\<close>

definition saveMessageWithStatus ::
  "int \<Rightarrow> string \<Rightarrow> new_message \<Rightarrow> message_store \<Rightarrow> (message \<times> bool) \<times> message_store" where
  "saveMessageWithStatus clock fresh n st =
     (let stamp = nextTimestamp clock (last_ms st);
          st1 = (if n_created n = None then st\<lparr>last_ms := stamp\<rparr> else st);
          r = createMessageRecord fresh stamp n
      in case find (same_message r) (msgs st1) of
           Some existing \<Rightarrow> ((existing, False), st1)
         | None \<Rightarrow> ((r, True), recordChange New_Change (m_created r) r (st1\<lparr>msgs := msgs st1 @ [r]\<rparr>)))"

definition before_cursor :: "(int \<times> string option) option \<Rightarrow> 'a message_scheme \<Rightarrow> bool" where
  "before_cursor cur m =
     (case cur of
        None \<Rightarrow> True
      | Some (t, mid) \<Rightarrow> m_created m < t \<or> (m_created m = t \<and> (case mid of Some i \<Rightarrow> m_id m < i | None \<Rightarrow> False)))"

definition page :: "('a message_scheme \<Rightarrow> bool) \<Rightarrow> int \<Rightarrow> 'a message_scheme list \<Rightarrow> 'a message_scheme list" where
  "page P cap ms = take (nat cap) (sort_cmp byNewestFirst (filter P ms))"

definition listMessages ::
  "string \<Rightarrow> int option \<Rightarrow> (int \<times> string option) option \<Rightarrow> bool \<Rightarrow> message_store \<Rightarrow> message list" where
  "listMessages conv limit cur lookahead st =
     page (\<lambda>m. m_conv m = conv \<and> before_cursor cur m)
       (if lookahead then clampExportReadLimit limit else clampLimit limit) (msgs st)"

definition getMessage :: "string \<Rightarrow> string \<Rightarrow> message_store \<Rightarrow> message option" where
  "getMessage conv mid st = find (\<lambda>m. m_conv m = conv \<and> m_id m = mid) (msgs st)"

definition searchMessages ::
  "string \<Rightarrow> string option \<Rightarrow> string option \<Rightarrow> string list \<Rightarrow> int option \<Rightarrow> int option \<Rightarrow>
   (int \<times> string option) option \<Rightarrow> bool \<Rightarrow> message_store \<Rightarrow> message list" where
  "searchMessages u q conv excluded after limit cur lookahead st =
     (let term = normaliseSearchTerm q
      in if term = '''' \<or> u = '''' then []
         else page (\<lambda>m. is_party u m \<and> (\<not> str_truthy conv \<or> Some (m_conv m) = conv) \<and> m_deleted m = None \<and>
                        (case after of Some t \<Rightarrow> t \<le> m_created m | None \<Rightarrow> True) \<and>
                        peerIdOf m u \<notin> set excluded \<and> before_cursor cur m \<and> bodyMatches (m_body m) term)
                (if lookahead then clampExportReadLimit limit else clampLimit limit) (msgs st))"

definition after_change :: "(int \<times> nat) option \<Rightarrow> change \<Rightarrow> bool" where
  "after_change cur c =
     (case cur of None \<Rightarrow> True | Some (t, i) \<Rightarrow> t < ch_at c \<or> (ch_at c = t \<and> i < ch_id c))"

definition by_change :: "change \<Rightarrow> change \<Rightarrow> int" where
  "by_change a b = (if ch_at a = ch_at b then int (ch_id a) - int (ch_id b) else if ch_at a < ch_at b then - 1 else 1)"

definition listMessageChanges ::
  "string \<Rightarrow> int \<Rightarrow> (int \<times> nat) option \<Rightarrow> string list \<Rightarrow> int option \<Rightarrow> int option \<Rightarrow> message_store \<Rightarrow> change list" where
  "listMessageChanges u since cur excluded after limit st =
     take (nat (clampExportReadLimit limit))
       (sort_cmp by_change
         (filter (\<lambda>c. is_party u (ch_message c) \<and> peerIdOf (ch_message c) u \<notin> set excluded \<and>
                      (case after of Some t \<Rightarrow> t \<le> m_created (ch_message c) | None \<Rightarrow> True) \<and>
                      since < ch_at c \<and> after_change cur c) (changes st)))"

definition live_messages :: "string \<Rightarrow> message_store \<Rightarrow> (string \<times> message) list" where
  "live_messages conv st =
     fold (\<lambda>m. AList.update (m_id m) m) (filter (\<lambda>m. m_conv m = conv) (msgs st)) []"

definition refreshed_change :: "(string \<times> message) list \<Rightarrow> int option \<Rightarrow> change \<Rightarrow> change option" where
  "refreshed_change live after c =
     (case map_of live (m_id (ch_message c)) of
        None \<Rightarrow> None
      | Some m \<Rightarrow> (case after of
                    Some t \<Rightarrow> if m_created m < t then None else Some (c\<lparr>ch_message := m\<rparr>)
                  | None \<Rightarrow> Some (c\<lparr>ch_message := m\<rparr>)))"

definition listConversationChanges ::
  "string \<Rightarrow> (int \<times> nat) option \<Rightarrow> int option \<Rightarrow> int option \<Rightarrow> message_store \<Rightarrow> change list" where
  "listConversationChanges conv cur after limit st =
     take (nat (clampExportReadLimit limit))
       (List.map_filter (refreshed_change (live_messages conv st) after)
         (sort_cmp by_change (filter (\<lambda>c. m_conv (ch_message c) = conv \<and> after_change cur c) (changes st))))"

definition listUserMessages ::
  "string \<Rightarrow> int option \<Rightarrow> (int \<times> string option) option \<Rightarrow> message_store \<Rightarrow> message list" where
  "listUserMessages u limit cur st =
     (if u = '''' then []
      else page (\<lambda>m. is_party u m \<and> before_cursor cur m) (clampExportReadLimit limit) (msgs st))"

definition with_delivery :: "string \<Rightarrow> message \<Rightarrow> message" where
  "with_delivery u m = m\<lparr>m_delivered := set_add u (m_delivered m)\<rparr>"

definition markDelivered :: "string \<Rightarrow> string \<Rightarrow> message_store \<Rightarrow> message option \<times> message_store" where
  "markDelivered mid u st =
     (let st' = st\<lparr>msgs := update_first (\<lambda>m. m_id m = mid) (with_delivery u) (msgs st)\<rparr>
      in (find (\<lambda>m. m_id m = mid) (msgs st'), st'))"

definition enqueueDeliveryReceipt :: "string \<Rightarrow> string \<Rightarrow> message_store \<Rightarrow> message_store" where
  "enqueueDeliveryReceipt mid u st =
     st\<lparr>msgs := update_first (\<lambda>m. m_id m = mid) (with_delivery u) (msgs st)\<rparr>"

text \<open>\<open>close\<close> empties the rows and keeps the change log.\<close>

definition close_messages :: "message_store \<Rightarrow> message_store" where
  "close_messages st = st\<lparr>msgs := []\<rparr>"

definition listConversations :: "string \<Rightarrow> message_store \<Rightarrow> summary list" where
  "listConversations u st = take MAX_CONVERSATION_LIMIT (summariseConversations (msgs st) u)"

definition mark_one_read :: "string \<Rightarrow> string \<Rightarrow> int \<Rightarrow> message \<Rightarrow> message list \<times> message_store \<times> nat \<Rightarrow>
  message list \<times> message_store \<times> nat" where
  "mark_one_read conv u t m = (\<lambda>(done, st, n).
     if m_conv m = conv \<and> unread_for u m
     then let m' = with_delivery u (m\<lparr>m_read := Some t\<rparr>)
          in (done @ [m'], recordChange Read_Change t m' st, Suc n)
     else (done @ [m], st, n))"

definition markRead :: "int \<Rightarrow> string \<Rightarrow> string \<Rightarrow> message_store \<Rightarrow> nat \<times> message_store" where
  "markRead clock conv u st =
     (let t = nextTimestamp clock (last_ms st);
          (ms, st', n) = fold (mark_one_read conv u t) (msgs st) ([], st\<lparr>last_ms := t\<rparr>, 0)
      in (n, st'\<lparr>msgs := ms\<rparr>))"

definition deletable :: "string \<Rightarrow> string \<Rightarrow> string \<Rightarrow> message \<Rightarrow> bool" where
  "deletable conv mid u m = (m_conv m = conv \<and> m_id m = mid \<and> m_sender m = u \<and> m_deleted m = None)"

definition deleteMessage :: "int \<Rightarrow> string \<Rightarrow> string \<Rightarrow> string \<Rightarrow> message_store \<Rightarrow> message option \<times> message_store" where
  "deleteMessage clock conv mid u st =
     (case find (deletable conv mid u) (msgs st) of
        None \<Rightarrow> (None, st)
      | Some m \<Rightarrow>
          (let t = nextTimestamp clock (last_ms st);
               m' = applyTombstone t m
           in (Some m', recordChange Deleted_Change t m'
                 (st\<lparr>last_ms := t, msgs := update_first (deletable conv mid u) (applyTombstone t) (msgs st)\<rparr>))))"

definition reactable :: "string \<Rightarrow> string \<Rightarrow> message \<Rightarrow> bool" where
  "reactable conv mid m = (m_conv m = conv \<and> m_id m = mid \<and> m_deleted m = None)"

definition reactToMessage ::
  "int \<Rightarrow> string \<Rightarrow> string \<Rightarrow> string \<Rightarrow> string \<Rightarrow> react \<Rightarrow> message_store \<Rightarrow> message option \<times> message_store" where
  "reactToMessage clock conv mid u em act st =
     (case find (reactable conv mid) (msgs st) of
        None \<Rightarrow> (None, st)
      | Some m \<Rightarrow>
          (let rs = applyReaction em u act (m_reactions m)
           in if rs = m_reactions m then (Some m, st)
              else
                (let t = nextTimestamp clock (last_ms st);
                     m' = m\<lparr>m_reactions := rs\<rparr>
                 in (Some m', recordChange Reactions_Change t m'
                       (st\<lparr>last_ms := t,
                          msgs := update_first (reactable conv mid) (\<lambda>m. m\<lparr>m_reactions := rs\<rparr>) (msgs st)\<rparr>)))))"

end
