(* ===== verification/MessageHistory.thy ===== *)
theory MessageHistory
  imports MessageProperties
begin

text \<open>
  What a client reads and does to its history: pages that partition it, idempotent sends, read
  receipts, converging reactions, deletions and the conversation list.
\<close>

section \<open>Pages\<close>

text \<open>The whole history of a conversation, and a client that follows the cursor of the last row it got.\<close>

definition history :: "string \<Rightarrow> message_store \<Rightarrow> message list" where
  "history conv st = sort_cmp byNewestFirst (filter (\<lambda>m. m_conv m = conv) (msgs st))"

fun walk_pages :: "nat \<Rightarrow> string \<Rightarrow> int option \<Rightarrow> (int \<times> string option) option \<Rightarrow> message_store \<Rightarrow> message list" where
  "walk_pages 0 conv limit cur st = []"
| "walk_pages (Suc k) conv limit cur st =
     (let p = listMessages conv limit cur False st
      in if p = [] then []
         else p @ walk_pages k conv limit (Some (m_created (last p), Some (m_id (last p)))) st)"

lemma clampLimit_bounds: "1 \<le> clampLimit l \<and> clampLimit l \<le> MAX_MESSAGE_LIMIT"
  by (auto simp: clampLimit_def MAX_MESSAGE_LIMIT_def DEFAULT_MESSAGE_LIMIT_def split: option.split)

lemma wf_messages_keys:
  assumes "wf_messages st"
  shows "distinct (map newest_key (filter (\<lambda>m. m_conv m = conv) (msgs st)))"
proof -
  have d: "distinct (msgs st)" "inj_on message_key (set (msgs st))"
    using wf_messagesD(1) [OF assms] by (simp_all add: distinct_map)
  have "inj_on newest_key (set (filter (\<lambda>m. m_conv m = conv) (msgs st)))"
    by (rule inj_onI) (use d(2) in \<open>auto simp: newest_key_def message_key_def inj_on_def\<close>)
  with d(1) show ?thesis by (simp add: distinct_map)
qed

lemma first_page: "listMessages conv limit None False st = take (nat (clampLimit limit)) (history conv st)"
  by (simp add: listMessages_def page_def history_def before_cursor_def)

lemma next_page:
  assumes "wf_messages st" and "n < length (history conv st)"
  shows "listMessages conv limit (Some (m_created (history conv st ! n), Some (m_id (history conv st ! n)))) False st =
    take (nat (clampLimit limit)) (drop (Suc n) (history conv st))"
  using page_after [OF wf_messages_keys [OF assms(1)], of n conv "clampLimit limit"] assms(2)
  by (simp add: listMessages_def history_def)

lemma page_last:
  fixes xs :: "'a list" and c n :: nat
  defines "i \<equiv> n + length (take c (drop n xs)) - 1"
  assumes "0 < c" and "n < length xs"
  shows "last (take c (drop n xs)) = xs ! i" and "n \<le> i" and "i < length xs"
    and "drop n xs = take c (drop n xs) @ drop (Suc i) xs"
proof -
  let ?p = "take c (drop n xs)"
  have len: "0 < length ?p" "length ?p \<le> c" "n + length ?p \<le> length xs" using assms(2,3) by auto
  then show "n \<le> i" "i < length xs" by (auto simp: i_def)
  have "last ?p = ?p ! (length ?p - 1)" using len(1) by (intro last_conv_nth) simp
  also have "\<dots> = drop n xs ! (length ?p - 1)" using len(1,2) by (intro nth_take) linarith
  also have "\<dots> = xs ! (n + (length ?p - 1))" using assms(3) by (intro nth_drop) simp
  also have "n + (length ?p - 1) = i" using len(1) unfolding i_def by linarith
  finally show "last ?p = xs ! i" .
  have "drop (Suc i) xs = drop (length ?p) (drop n xs)" using len(1) by (simp add: i_def add.commute)
  also have "\<dots> = drop c (drop n xs)" by (cases "c \<le> length (drop n xs)") simp_all
  finally show "drop n xs = ?p @ drop (Suc i) xs" by (simp only: append_take_drop_id)
qed

text \<open>A cursor whose next page is what follows position \<open>n\<close> leads through all of what follows it.\<close>

lemma walk_from:
  assumes wf: "wf_messages st"
  shows "listMessages conv limit cur False st = take (nat (clampLimit limit)) (drop n (history conv st)) \<Longrightarrow>
    length (history conv st) - n < k \<Longrightarrow> walk_pages k conv limit cur st = drop n (history conv st)"
proof (induction k arbitrary: n cur)
  case 0
  then show ?case by simp
next
  case (Suc k)
  let ?h = "history conv st" and ?c = "nat (clampLimit limit)"
  have c: "0 < ?c" using clampLimit_bounds [of limit] by simp
  show ?case
  proof (cases "n < length ?h")
    case False
    then show ?thesis using Suc.prems(1) by simp
  next
    case True
    define i where "i = n + length (take ?c (drop n ?h)) - 1"
    note p = page_last [OF c True, folded i_def]
    have "length ?h - Suc i < k" using Suc.prems(2) p(2,3) by simp
    from Suc.IH [OF next_page [OF wf p(3), of limit] this]
    show ?thesis using Suc.prems(1) True c p(1) p(4) [symmetric] by (simp add: Let_def)
  qed
qed

section \<open>Sends\<close>

lemma same_message_created:
  assumes "str_truthy (n_client n)" and "or_else (n_id n) fresh \<notin> m_id ` set ms" and "c \<in> set ms"
  shows "same_message (createMessageRecord fresh t n) c \<longleftrightarrow> m_sender c = n_sender n \<and> m_client c = n_client n"
proof -
  have "m_id c \<noteq> or_else (n_id n) fresh" using assms(2,3) by (metis imageI)
  with assms(1) show ?thesis by (auto simp: same_message_def createMessageRecord_def)
qed

lemma find_cong_on: "(\<And>x. x \<in> set xs \<Longrightarrow> P x = Q x) \<Longrightarrow> find P xs = find Q xs"
  by (induction xs) auto

lemma find_append: "find P (xs @ ys) = (case find P xs of Some x \<Rightarrow> Some x | None \<Rightarrow> find P ys)"
  by (induction xs) auto

lemma find_created:
  assumes "str_truthy (n_client n)" and "or_else (n_id n) fresh \<notin> m_id ` set ms"
  shows "find (same_message (createMessageRecord fresh t n)) ms =
    find (\<lambda>c. m_sender c = n_sender n \<and> m_client c = n_client n) ms"
  by (rule find_cong_on) (rule same_message_created [OF assms])

lemma saved_rows:
  "msgs (snd (saveMessageWithStatus clock fresh n st)) =
     (case find (same_message (createMessageRecord fresh (nextTimestamp clock (last_ms st)) n)) (msgs st) of
        Some _ \<Rightarrow> msgs st
      | None \<Rightarrow> msgs st @ [createMessageRecord fresh (nextTimestamp clock (last_ms st)) n])"
  "fst (fst (saveMessageWithStatus clock fresh n st)) =
     (case find (same_message (createMessageRecord fresh (nextTimestamp clock (last_ms st)) n)) (msgs st) of
        Some e \<Rightarrow> e
      | None \<Rightarrow> createMessageRecord fresh (nextTimestamp clock (last_ms st)) n)"
  by (simp_all add: saveMessageWithStatus_def Let_def split: option.split)

lemma save_existing:
  "find (same_message (createMessageRecord fresh (nextTimestamp clock (last_ms st)) n)) (msgs st) = Some e \<Longrightarrow>
   fst (saveMessageWithStatus clock fresh n st) = (e, False) \<and>
   msgs (snd (saveMessageWithStatus clock fresh n st)) = msgs st \<and>
   changes (snd (saveMessageWithStatus clock fresh n st)) = changes st"
  by (simp add: saveMessageWithStatus_def Let_def)

section \<open>Reactions and deletions\<close>

text \<open>Who reacted with an emoji.\<close>

definition reactors :: "string \<Rightarrow> reactions \<Rightarrow> string set" where
  "reactors em rs = set (or_empty (map_of rs em))"

lemma reactors_update: "reactors em' (AList.update em us rs) = (if em' = em then set us else reactors em' rs)"
  by (simp add: reactors_def update_conv')

lemma reactors_delete: "reactors em' (AList.delete em rs) = (if em' = em then {} else reactors em' rs)"
  by (simp add: reactors_def delete_conv')

lemma applyReaction_reactors:
  "reactors em' (applyReaction em u act rs) =
     (if em' \<noteq> em then reactors em' (normaliseReactions rs)
      else case act of Add_Reaction \<Rightarrow> insert u (reactors em (normaliseReactions rs))
                     | Remove_Reaction \<Rightarrow> reactors em (normaliseReactions rs) - {u})"
proof (cases act)
  case Add_Reaction
  then show ?thesis by (auto simp: applyReaction_def Let_def reactors_update reactors_def)
next
  case Remove_Reaction
  let ?c = "or_empty (map_of (normaliseReactions rs) em)"
  have "{} = reactors em (normaliseReactions rs) - {u}" if "filter (\<lambda>v. v \<noteq> u) ?c = []"
    using that by (auto simp: filter_empty_conv reactors_def)
  moreover have "set (filter (\<lambda>v. v \<noteq> u) ?c) = reactors em (normaliseReactions rs) - {u}"
    by (auto simp: reactors_def)
  ultimately show ?thesis
    by (simp add: Remove_Reaction applyReaction_def Let_def reactors_update reactors_delete)
qed

lemma update_same: "map_of rs em = Some us \<Longrightarrow> AList.update em us rs = rs"
  by (induction rs) (auto split: if_splits)

lemma applyReaction_again:
  assumes "u \<noteq> ''''"
  shows "applyReaction em u act (applyReaction em u act rs) = applyReaction em u act rs"
proof -
  let ?rs = "applyReaction em u act rs"
  have n: "normaliseReactions ?rs = ?rs" by (rule applyReaction_normalised [OF assms])
  have c: "set (or_empty (map_of ?rs em)) =
      (case act of Add_Reaction \<Rightarrow> insert u (reactors em (normaliseReactions rs))
                 | Remove_Reaction \<Rightarrow> reactors em (normaliseReactions rs) - {u})"
    using applyReaction_reactors [of em em u act rs] by (simp add: reactors_def)
  show ?thesis
  proof (cases act)
    case Add_Reaction
    with c show ?thesis unfolding applyReaction_def [of _ _ _ ?rs] n by simp
  next
    case Remove_Reaction
    have "filter (\<lambda>v. v \<noteq> u) (or_empty (map_of ?rs em)) = or_empty (map_of ?rs em)"
      using c by (auto simp: filter_id_conv Remove_Reaction)
    moreover have "or_empty (map_of ?rs em) \<noteq> [] \<Longrightarrow> AList.update em (or_empty (map_of ?rs em)) ?rs = ?rs"
      by (cases "map_of ?rs em") (simp_all add: update_same)
    moreover have "or_empty (map_of ?rs em) = [] \<Longrightarrow> AList.delete em ?rs = ?rs"
      using normalised_members [OF n, of em] by (cases "map_of ?rs em") (auto simp: map_of_eq_None_iff)
    ultimately show ?thesis unfolding applyReaction_def [of _ _ _ ?rs] n by (simp add: Let_def Remove_Reaction)
  qed
qed

lemma stored_row_unique:
  assumes "wf_messages st" and "x \<in> set (msgs st)" and "y \<in> set (msgs st)" and "m_conv x = m_conv y" and "m_id x = m_id y"
  shows "x = y"
proof -
  have "inj_on message_key (set (msgs st))" using wf_messagesD(1) [OF assms(1)] by (simp add: distinct_map)
  moreover have "message_key x = message_key y" using assms(4,5) by (simp add: message_key_def)
  ultimately show ?thesis using assms(2,3) by (rule inj_onD)
qed

lemma getMessage_stored:
  assumes "wf_messages st" and "m \<in> set (msgs st)"
  shows "getMessage (m_conv m) (m_id m) st = Some m"
proof (cases "getMessage (m_conv m) (m_id m) st")
  case None
  then show ?thesis using find_NoneD [OF None [unfolded getMessage_def] assms(2)] by simp
next
  case (Some x)
  then have "x \<in> set (msgs st)" "m_conv x = m_conv m" "m_id x = m_id m"
    by (auto simp: getMessage_def dest: find_SomeD)
  with stored_row_unique [OF assms(1) _ assms(2)] Some show ?thesis by blast
qed

lemma update_first_found: "find P xs = Some x \<Longrightarrow> f x \<in> set (update_first P f xs)"
  by (induction xs) (auto split: if_splits)

lemma live_lookup:
  "map_of (fold (\<lambda>m. AList.update (m_id m) m) ms acc) i = Some x \<Longrightarrow>
   (x \<in> set ms \<and> m_id x = i) \<or> map_of acc i = Some x"
proof (induction ms arbitrary: acc)
  case Nil
  then show ?case by simp
next
  case (Cons m ms)
  from Cons.prems have "map_of (fold (\<lambda>m. AList.update (m_id m) m) ms (AList.update (m_id m) m acc)) i = Some x" by simp
  from Cons.IH [OF this] show ?case by (auto simp: update_conv' split: if_splits)
qed

text \<open>A change of the conversation feed carries the current row of its message.\<close>

lemma conversation_change_current:
  assumes "c \<in> set (listConversationChanges conv cur after limit st)"
  shows "ch_message c \<in> set (msgs st) \<and> m_conv (ch_message c) = conv"
proof -
  obtain c0 where "refreshed_change (live_messages conv st) after c0 = Some c"
    using assms by (auto simp: listConversationChanges_def map_filter_def dest!: in_set_takeD)
  then have "map_of (live_messages conv st) (m_id (ch_message c0)) = Some (ch_message c)"
    by (auto simp: refreshed_change_def split: option.splits if_splits)
  from live_lookup [OF this [unfolded live_messages_def]] show ?thesis by auto
qed

section \<open>The conversation list\<close>

text \<open>What a summary of conversation \<open>k\<close> says: its last message in the newest-first order and the unread count.\<close>

definition good_summary :: "string \<Rightarrow> message list \<Rightarrow> string \<Rightarrow> summary \<Rightarrow> bool" where
  "good_summary u ms k su =
     (su_conv su = k \<and> su_last su \<in> set ms \<and> m_conv (su_last su) = k \<and> is_party u (su_last su) \<and>
      (\<forall>m \<in> set ms. is_party u m \<and> m_conv m = k \<longrightarrow> newest_key (su_last su) \<le> newest_key m) \<and>
      su_unread su = length (filter (unread_in k u) ms))"

definition summaries_of :: "string \<Rightarrow> message list \<Rightarrow> (string \<times> summary) list \<Rightarrow> bool" where
  "summaries_of u ms acc =
     (distinct (map fst acc) \<and>
      (\<forall>k. case map_of acc k of
             None \<Rightarrow> (\<forall>m \<in> set ms. \<not> (is_party u m \<and> m_conv m = k))
           | Some su \<Rightarrow> good_summary u ms k su))"

lemma count_unread_fields [simp]:
  "su_conv (count_unread u m su) = su_conv su" "su_last (count_unread u m su) = su_last su"
  "su_unread (count_unread u m su) = su_unread su + (if unread_for u m then 1 else 0)"
  by (simp_all add: count_unread_def)

lemma unread_party: "unread_for u m \<Longrightarrow> is_party u m"
  by (simp add: unread_for_def is_party_def)

lemma good_summary_other: "good_summary u ms k su \<Longrightarrow> m_conv m \<noteq> k \<Longrightarrow> good_summary u (ms @ [m]) k su"
  by (simp add: good_summary_def)

lemma good_summary_bystander: "good_summary u ms k su \<Longrightarrow> \<not> is_party u m \<Longrightarrow> good_summary u (ms @ [m]) k su"
  by (auto simp: good_summary_def dest: unread_party)

lemma good_summary_first:
  assumes "\<forall>m' \<in> set ms. \<not> (is_party u m' \<and> m_conv m' = m_conv m)" and "is_party u m"
  shows "good_summary u (ms @ [m]) (m_conv m)
    (count_unread u m \<lparr>su_conv = m_conv m, su_peer = peerIdOf m u, su_last = m, su_unread = 0\<rparr>)"
proof -
  have "filter (unread_in (m_conv m) u) ms = []" using assms(1) unread_party by (auto simp: filter_empty_conv)
  with assms show ?thesis by (auto simp: good_summary_def)
qed

lemma good_summary_next:
  assumes "good_summary u ms (m_conv m) su" and "is_party u m"
  shows "good_summary u (ms @ [m]) (m_conv m)
    (count_unread u m (if byNewestFirst m (su_last su) < 0 then su\<lparr>su_last := m\<rparr> else su))"
  using assms by (auto simp: good_summary_def byNewestFirst_less not_less intro: order.trans [OF less_imp_le])

lemma summarise_step_of:
  assumes "summaries_of u ms acc"
  shows "summaries_of u (ms @ [m]) (summarise_step u m acc)"
proof (cases "is_party u m")
  case False
  have "case map_of acc k of None \<Rightarrow> \<forall>x \<in> set (ms @ [m]). \<not> (is_party u x \<and> m_conv x = k)
      | Some su \<Rightarrow> good_summary u (ms @ [m]) k su" for k
    using spec [OF conjunct2 [OF assms [unfolded summaries_of_def]], of k] False
    by (cases "map_of acc k") (auto simp: good_summary_bystander)
  with assms False show ?thesis by (simp add: summaries_of_def summarise_step_def)
next
  case True
  define s where "s = (case map_of acc (m_conv m) of
      None \<Rightarrow> count_unread u m \<lparr>su_conv = m_conv m, su_peer = peerIdOf m u, su_last = m, su_unread = 0\<rparr>
    | Some su \<Rightarrow> count_unread u m (if byNewestFirst m (su_last su) < 0 then su\<lparr>su_last := m\<rparr> else su))"
  have step: "summarise_step u m acc = AList.update (m_conv m) s acc"
    using True by (simp add: summarise_step_def s_def split: option.split)
  have lookup: "case map_of acc k of None \<Rightarrow> \<forall>m \<in> set ms. \<not> (is_party u m \<and> m_conv m = k)
      | Some su \<Rightarrow> good_summary u ms k su" for k
    using assms by (simp add: summaries_of_def)
  have s: "good_summary u (ms @ [m]) (m_conv m) s"
    using lookup [of "m_conv m"] True
    by (cases "map_of acc (m_conv m)") (simp_all add: s_def good_summary_first good_summary_next)
  have "case map_of (AList.update (m_conv m) s acc) k of None \<Rightarrow> \<forall>x \<in> set (ms @ [m]). \<not> (is_party u x \<and> m_conv x = k)
      | Some su \<Rightarrow> good_summary u (ms @ [m]) k su" for k
  proof (cases "k = m_conv m")
    case True
    with s show ?thesis by (simp add: update_conv')
  next
    case False
    then show ?thesis using lookup [of k]
      by (cases "map_of acc k") (auto simp: update_conv' good_summary_other)
  qed
  with assms show ?thesis by (simp add: step summaries_of_def distinct_update)
qed

lemma summaries_fold: "summaries_of u ms (fold (summarise_step u) ms [])"
proof (induction ms rule: rev_induct)
  case Nil
  show ?case by (simp add: summaries_of_def)
next
  case (snoc m ms)
  then show ?case by (simp add: summarise_step_of)
qed

lemma summaries_values:
  assumes "summaries_of u ms acc"
  shows "distinct (map su_conv (map snd acc))"
    and "su_conv ` set (map snd acc) = m_conv ` {m \<in> set ms. is_party u m}"
    and "\<forall>su \<in> set (map snd acc). good_summary u ms (su_conv su) su"
proof -
  have d: "distinct (map fst acc)" and l: "\<And>k. case map_of acc k of
      None \<Rightarrow> \<forall>m \<in> set ms. \<not> (is_party u m \<and> m_conv m = k) | Some su \<Rightarrow> good_summary u ms k su"
    using assms by (simp_all add: summaries_of_def)
  have good: "good_summary u ms (fst p) (snd p)" if "p \<in> set acc" for p
    using l [of "fst p"] map_of_is_SomeI [OF d, of "fst p" "snd p"] that by simp
  then have convs: "map su_conv (map snd acc) = map fst acc" by (simp add: good_summary_def)
  then show "distinct (map su_conv (map snd acc))" using d by (simp del: map_map)
  show "\<forall>su \<in> set (map snd acc). good_summary u ms (su_conv su) su"
    using good by (auto simp: good_summary_def)
  have "k \<in> set (map fst acc) \<longleftrightarrow> k \<in> m_conv ` {m \<in> set ms. is_party u m}" for k
  proof (cases "map_of acc k")
    case None
    with l [of k] show ?thesis by (auto simp: map_of_eq_None_iff)
  next
    case (Some su)
    with l [of k] have "su_last su \<in> {m \<in> set ms. is_party u m} \<and> m_conv (su_last su) = k"
      by (simp add: good_summary_def)
    moreover have "k \<in> set (map fst acc)" using Some map_of_eq_None_iff [of acc k] by force
    ultimately show ?thesis by blast
  qed
  then have "set (map su_conv (map snd acc)) = m_conv ` {m \<in> set ms. is_party u m}"
    unfolding convs by (rule set_eqI)
  then show "su_conv ` set (map snd acc) = m_conv ` {m \<in> set ms. is_party u m}" by (simp only: set_map)
qed

section \<open>Properties\<close>

text \<open>
  Pagination loses and repeats nothing: a client that keeps asking for the page before the last row
  it received, with any page size, gets exactly the conversation's history, newest first.
\<close>

theorem pages_cover_history:
  assumes "wf_messages st"
  shows "walk_pages (Suc (length (msgs st))) conv limit None st = history conv st"
proof -
  have "length (history conv st) < Suc (length (msgs st))" by (simp add: history_def le_imp_less_Suc)
  with walk_from [OF assms, of conv limit None 0] first_page show ?thesis by (simp del: walk_pages.simps)
qed

definition hello :: "string \<Rightarrow> string \<Rightarrow> new_message" where
  "hello key body =
     \<lparr>n_id = None, n_client = Some key, n_conv = None, n_sender = ''ann'', n_recipient = ''bob'', n_body = body,
      n_type = None, n_attachment = None, n_reply = None, n_reactions = [], n_deleted = None, n_created = None,
      n_delivered = None, n_read = None\<rparr>"

definition demo_messages :: message_store where
  "demo_messages = fold run_message
     [Save 100 ''m1'' (hello ''k1'' ''hi''), Save 100 ''m2'' (hello ''k2'' ''there''), Save 90 ''m3'' (hello ''k3'' ''bob'')]
     empty_message_store"

lemma demo_messages_wf: "wf_messages demo_messages"
  unfolding demo_messages_def by (rule fold_run_wf)

theorem pages_cover_history_witness:
  "walk_pages (Suc (length (msgs demo_messages))) ''ann:bob'' (Some 2) None demo_messages = history ''ann:bob'' demo_messages \<and>
   map m_id (history ''ann:bob'' demo_messages) = [''m3'', ''m2'', ''m1'']"
  by (intro conjI pages_cover_history demo_messages_wf) code_simp

text \<open>
  A retried send is the same send: with the client's key, the second call returns the row of the
  first and reports it as not inserted; no row and no change is added, whatever the clock, the content
  and the id the server would have given. A message id already in use is what the hypothesis excludes.
\<close>

theorem save_retry_idempotent:
  assumes "str_truthy (n_client n)" and "n_client n' = n_client n" and "n_sender n' = n_sender n"
    and "or_else (n_id n) fresh \<notin> m_id ` set (msgs st)" and "or_else (n_id n') fresh' \<notin> m_id ` set (msgs st)"
    and "saveMessageWithStatus clock fresh n st = ((r, inserted), st1)"
  shows "fst (saveMessageWithStatus clock' fresh' n' st1) = (r, False) \<and>
    msgs (snd (saveMessageWithStatus clock' fresh' n' st1)) = msgs st1 \<and>
    changes (snd (saveMessageWithStatus clock' fresh' n' st1)) = changes st1"
proof (rule save_existing)
  let ?r = "createMessageRecord fresh (nextTimestamp clock (last_ms st)) n"
  let ?r' = "createMessageRecord fresh' (nextTimestamp clock' (last_ms st1)) n'"
  note rows = saved_rows [of clock fresh n st, unfolded assms(6) find_created [OF assms(1,4)], simplified]
  have n': "str_truthy (n_client n')" using assms(1,2) by simp
  note first = find_created [OF n' assms(5), of "nextTimestamp clock' (last_ms st1)", unfolded assms(2,3)]
  have "same_message ?r' ?r"
    using assms(1-3) by (simp add: same_message_def createMessageRecord_def)
  then show "find (same_message ?r') (msgs st1) = Some r"
    using rows first by (simp add: find_append split: option.splits)
qed

theorem save_retry_idempotent_witness:
  "fst (saveMessageWithStatus 120 ''m5'' (hello ''k4'' ''other text'')
     (snd (saveMessageWithStatus 110 ''m4'' (hello ''k4'' ''text'') demo_messages))) =
   (fst (fst (saveMessageWithStatus 110 ''m4'' (hello ''k4'' ''text'') demo_messages)), False)"
proof -
  have "fst (saveMessageWithStatus 120 ''m5'' (hello ''k4'' ''other text'') st1) = (r, False)"
    if "saveMessageWithStatus 110 ''m4'' (hello ''k4'' ''text'') demo_messages = ((r, b), st1)" for r b st1
    by (rule save_retry_idempotent [OF _ _ _ _ _ that, THEN conjunct1]) code_simp+
  then show ?thesis by (metis prod.collapse)
qed

text \<open>
  Reactions converge: adding makes the user one of those who reacted with the emoji, removing makes
  them not one, no other emoji changes, and repeating the request changes nothing.
\<close>

theorem applyReaction_converges:
  assumes "u \<noteq> ''''" and "normaliseReactions rs = rs"
  shows "reactors em (applyReaction em u Add_Reaction rs) = insert u (reactors em rs) \<and>
    reactors em (applyReaction em u Remove_Reaction rs) = reactors em rs - {u} \<and>
    (\<forall>em'. em' = em \<or> reactors em' (applyReaction em u act rs) = reactors em' rs) \<and>
    applyReaction em u act (applyReaction em u act rs) = applyReaction em u act rs"
  using applyReaction_again [OF assms(1)] assms(2) by (simp add: applyReaction_reactors)

definition demo_reactions :: reactions where
  "demo_reactions = [(''+1'', [''ann'', ''bob'']), (''heart'', [''bob''])]"

theorem applyReaction_converges_witness:
  "reactors ''heart'' (applyReaction ''heart'' ''bob'' Remove_Reaction demo_reactions) = {} \<and>
   reactors ''heart'' (applyReaction ''heart'' ''cid'' Add_Reaction demo_reactions) = {''cid'', ''bob''}"
proof -
  have n: "normaliseReactions demo_reactions = demo_reactions" by code_simp
  have r: "reactors ''heart'' demo_reactions = {''bob''}" by code_simp
  show ?thesis
    using applyReaction_converges [of "''bob''", OF _ n, of "''heart''" Add_Reaction]
      applyReaction_converges [of "''cid''", OF _ n, of "''heart''" Add_Reaction] by (simp add: r)
qed

lemma read_row_read: "\<not> unread_for u (read_row v t m)"
  by (simp add: unread_for_def with_delivery_def)

text \<open>
  Reading a conversation marks exactly the messages addressed to the reader in it that were unread:
  their number is returned, each gets the read time and the delivery it implies and is logged once, all
  other rows are untouched, none is left unread and a second call returns zero.
\<close>

theorem markRead_exact:
  "fst (markRead clock conv u st) = length (filter (unread_in conv u) (msgs st)) \<and>
   msgs (snd (markRead clock conv u st)) =
     map (\<lambda>m. if unread_in conv u m then read_row u (nextTimestamp clock (last_ms st)) m else m) (msgs st) \<and>
   length (changes (snd (markRead clock conv u st))) =
     length (changes st) + fst (markRead clock conv u st) \<and>
   filter (unread_in conv u) (msgs (snd (markRead clock conv u st))) = [] \<and>
   fst (markRead clock' conv u (snd (markRead clock conv u st))) = 0"
proof -
  note e = markRead_effect [where clock = clock and conv = conv and u = u and st = st]
  have none: "filter (unread_in conv u) (msgs (snd (markRead clock conv u st))) = []"
    by (auto simp: e(2) filter_empty_conv read_row_read)
  moreover have "length (changes (snd (markRead clock conv u st))) = length (changes st) + fst (markRead clock conv u st)"
    using arg_cong [OF e(3), of length] e(1) by simp
  moreover have "fst (markRead clock' conv u (snd (markRead clock conv u st))) = 0"
    using markRead_effect(1) [where clock = clock' and conv = conv and u = u and st = "snd (markRead clock conv u st)"] none by simp
  ultimately show ?thesis using e(1,2) by blast
qed

text \<open>
  C23. Deleting is the author's and final: the row that results is a tombstone with the time of the deletion, it is what
  is read back, alone and on every page of the history, nobody can delete it again, and the conversation's change feed
  carries that tombstone for every change of the message, also those recorded before the deletion. The account-wide
  feed, which keeps what it recorded, is apart (\<open>account_feed_keeps_content\<close>).
\<close>

theorem deleteMessage_final:
  assumes "wf_messages st" and "deleteMessage clock conv mid u st = (Some m', st')"
  shows "m_sender m' = u \<and> m_body m' = '''' \<and> m_attachment m' = None \<and> m_reactions m' = [] \<and>
    m_deleted m' = Some (nextTimestamp clock (last_ms st)) \<and> getMessage conv mid st' = Some m' \<and>
    deleteMessage clock' conv mid v st' = (None, st') \<and>
    (\<forall>x \<in> set (listMessages conv n before lookahead st'). m_id x \<noteq> mid \<or> x = m') \<and>
    (\<forall>c \<in> set (listConversationChanges conv cur after limit st'). m_id (ch_message c) \<noteq> mid \<or> ch_message c = m')"
proof -
  let ?t = "nextTimestamp clock (last_ms st)"
  obtain m where m: "find (deletable conv mid u) (msgs st) = Some m"
    using assms(2) by (cases "find (deletable conv mid u) (msgs st)") (simp_all add: deleteMessage_def)
  have m': "m' = applyTombstone ?t m"
    and st': "msgs st' = update_first (deletable conv mid u) (applyTombstone ?t) (msgs st)"
    using assms(2) m by (auto simp: deleteMessage_def Let_def)
  have d: "deletable conv mid u m" using find_SomeD [OF m] by simp
  then have k: "m_conv m' = conv" "m_id m' = mid" "m_sender m' = u"
    by (simp_all add: m' deletable_def applyTombstone_def)
  have wf: "wf_messages st'" using delete_wf [OF assms(1), of clock conv mid u] assms(2) by simp
  have i: "m' \<in> set (msgs st')" unfolding st' m' by (rule update_first_found [OF m])
  have only: "x = m'" if "x \<in> set (msgs st')" "m_conv x = conv" "m_id x = mid" for x
    using stored_row_unique [OF wf that(1) i] that k by simp
  have "find (deletable conv mid v) (msgs st') = None"
  proof (cases "find (deletable conv mid v) (msgs st')")
    case (Some x)
    with only [of x] find_SomeD [OF Some] show ?thesis by (auto simp: deletable_def m' applyTombstone_def)
  qed
  then have "deleteMessage clock' conv mid v st' = (None, st')" by (simp add: deleteMessage_def)
  moreover have "getMessage conv mid st' = Some m'" using getMessage_stored [OF wf i] k by simp
  moreover have "\<forall>c \<in> set (listConversationChanges conv cur after limit st').
      m_id (ch_message c) \<noteq> mid \<or> ch_message c = m'"
    using conversation_change_current only by blast
  moreover have "\<forall>x \<in> set (listMessages conv n before lookahead st'). m_id x \<noteq> mid \<or> x = m'"
    using only by (auto simp: listMessages_def page_def dest: in_set_takeD)
  ultimately show ?thesis using k by (simp add: m' applyTombstone_def)
qed

theorem deleteMessage_final_witness:
  "map (\<lambda>c. (ch_type c, m_body (ch_message c)))
     (filter (\<lambda>c. m_id (ch_message c) = ''m1'')
       (listConversationChanges ''ann:bob'' None None None (snd (deleteMessage 200 ''ann:bob'' ''m1'' ''ann'' demo_messages)))) =
     [(New_Change, ''''), (Deleted_Change, '''')] \<and>
   fst (deleteMessage 300 ''ann:bob'' ''m1'' ''ann'' (snd (deleteMessage 200 ''ann:bob'' ''m1'' ''ann'' demo_messages))) = None"
proof -
  have "deleteMessage 300 ''ann:bob'' ''m1'' ''ann'' st' = (None, st')"
    if "deleteMessage 200 ''ann:bob'' ''m1'' ''ann'' demo_messages = (Some m', st')" for m' st'
    using deleteMessage_final [OF demo_messages_wf that] by blast
  moreover have "fst (deleteMessage 200 ''ann:bob'' ''m1'' ''ann'' demo_messages) \<noteq> None" by code_simp
  ultimately have "fst (deleteMessage 300 ''ann:bob'' ''m1'' ''ann''
      (snd (deleteMessage 200 ''ann:bob'' ''m1'' ''ann'' demo_messages))) = None"
    by (cases "deleteMessage 200 ''ann:bob'' ''m1'' ''ann'' demo_messages") auto
  then show ?thesis by (intro conjI) code_simp
qed

text \<open>
  The conversation list is exact: one summary per conversation in which the user sent or received a
  message, ordered newest first; each shows the newest of its messages and counts exactly those addressed
  to the user and not read.
\<close>

theorem summariseConversations_exact:
  "distinct (map su_conv (summariseConversations ms u)) \<and>
   set (map su_conv (summariseConversations ms u)) = m_conv ` {m \<in> set ms. is_party u m} \<and>
   sorted (map (\<lambda>su. newest_key (su_last su)) (summariseConversations ms u)) \<and>
   list_all (\<lambda>su. good_summary u ms (su_conv su) su) (summariseConversations ms u)"
proof -
  let ?f = "\<lambda>su. newest_key (su_last su)"
  let ?S = "summariseConversations ms u"
  define ss where "ss = map snd (fold (summarise_step u) ms [])"
  note a = summaries_values [OF summaries_fold [of u ms], folded ss_def]
  have S: "?S = sort_key ?f ss"
    unfolding summariseConversations_def ss_def by (rule sort_cmp_key) (rule byNewestFirst_le)
  have s: "set ?S = set ss" by (simp add: S)
  have "distinct ss \<and> inj_on su_conv (set ss)" using a(1) by (simp only: distinct_map)
  then have "distinct (map su_conv ?S)" by (simp only: distinct_map s) (simp add: S)
  moreover have "set (map su_conv ?S) = m_conv ` {m \<in> set ms. is_party u m}" using a(2) s by simp
  moreover have "sorted (map ?f ?S)" unfolding S by (rule sorted_sort_key)
  moreover have "list_all (\<lambda>su. good_summary u ms (su_conv su) su) ?S" using a(3) s by (simp add: list_all_iff)
  ultimately show ?thesis by blast
qed

text \<open>
  \<open>listMessageChanges\<close>, which \<open>GET /messages/sync\<close> serves, returns each change as it was recorded: a reader who asks from
  before the deletion is given the deleted text.
\<close>

lemma account_feed_keeps_content:
  "map (\<lambda>c. m_body (ch_message c))
     (filter (\<lambda>c. m_id (ch_message c) = ''m1'')
       (listMessageChanges ''bob'' 0 None [] None None (snd (deleteMessage 200 ''ann:bob'' ''m1'' ''ann'' demo_messages)))) =
     [''hi'', []]"
  by code_simp

end
