(* ===== verification/GroupStore.thy ===== *)
theory GroupStore
  imports Messages
begin

text \<open>
  Group conversations, membership and invitations: \<open>conversationStore/types.ts\<close>,
  \<open>authorization.ts\<close> and the membership part of \<open>memoryStore.ts\<close>.

  A \<open>Map\<close> is an association list in insertion order; its values are objects the code changes in
  place, so a change is an update under the same key. A thrown \<open>ConversationStoreError\<close> is \<open>Inl\<close> of
  its code, paired with the store as the throw leaves it. Instants are epoch milliseconds.
  \<open>localeCompare\<close> on identifiers is the order of their characters.
\<close>

section \<open>Records\<close>

datatype role = Owner | Admin | Plain

record group =
  gr_id :: string
  gr_name :: string
  gr_creator :: string
  gr_version :: nat
  gr_created :: int
  gr_updated :: int
  gr_deleted :: "int option"

record gmember =
  gm_id :: string
  gm_conv :: string
  gm_user :: string
  gm_role :: role
  gm_joined :: int
  gm_left :: "int option"
  gm_removed :: "int option"
  gm_actor :: "string option"
  gm_reason :: "string option"
  gm_created :: int
  gm_updated :: int

record invitation =
  iv_id :: string
  iv_conv :: string
  iv_invitee :: string
  iv_issuer :: string
  iv_version :: nat
  iv_created :: int
  iv_expires :: int
  iv_accepted :: "int option"
  iv_cancelled :: "int option"

record gevent =
  ge_id :: string
  ge_conv :: string
  ge_version :: nat
  ge_event :: string
  ge_actor :: string
  ge_user :: "string option"
  ge_reason :: "string option"
  ge_created :: int

datatype gparticipant_status = GP_Ringing | GP_Accepted | GP_Declined | GP_Left

record gparticipant =
  gp_call :: string
  gp_user :: string
  gp_status :: gparticipant_status
  gp_invited :: int
  gp_accepted :: "int option"
  gp_left :: "int option"
  gp_updated :: int

datatype gcall_status = GC_Ringing | GC_Active | GC_Ended

record gcall =
  gc_id :: string
  gc_conv :: string
  gc_initiator :: string
  gc_video :: bool
  gc_status :: gcall_status
  gc_version :: nat
  gc_ring_timeout :: "int option"
  gc_created :: int
  gc_updated :: int
  gc_ended :: "int option"

text \<open>A group message is a stored message with \<open>readBy\<close>; of its attachment only the url is used.\<close>

record gmessage = message +
  m_read_by :: "string list"

record gchange =
  gh_id :: nat
  gh_type :: change_type
  gh_at :: int
  gh_key :: "string \<times> string"

text \<open>\<open>gsequence\<close> is the module-level counter of \<open>changeCursor.ts\<close>; \<open>uuids\<close> counts \<open>randomUUID\<close> calls.\<close>

record group_store =
  groups :: "(string \<times> group) list"
  gmembers :: "(string \<times> gmember) list"
  gmessages :: "((string \<times> string) \<times> gmessage) list"
  gchanges :: "gchange list"
  gcalls :: "(string \<times> gcall) list"
  gparts :: "((string \<times> string) \<times> gparticipant) list"
  invitations :: "(string \<times> invitation) list"
  gevents :: "gevent list"
  cleanup :: "string list"
  gsequence :: nat
  uuids :: nat

definition empty_group_store :: group_store where
  "empty_group_store = \<lparr>groups = [], gmembers = [], gmessages = [], gchanges = [], gcalls = [], gparts = [],
     invitations = [], gevents = [], cleanup = [], gsequence = 0, uuids = 0\<rparr>"

datatype store_error = Not_Member | Forbidden | Group_Full | Group_Call_Full | Invalid_Members | Invalid_Invitation

text \<open>The clock, \<open>randomUUID\<close> and the visibility check the store is created with.\<close>

record genv =
  g_now :: int
  g_uuid :: "nat \<Rightarrow> string"
  g_can_invite :: "string \<Rightarrow> string \<Rightarrow> bool"

section \<open>Authorization\<close>

definition activeGroupMember :: "gmember \<Rightarrow> bool" where
  "activeGroupMember m = (gm_left m = None \<and> gm_removed m = None)"

definition assertActiveGroupMember :: "gmember option \<Rightarrow> store_error + gmember" where
  "assertActiveGroupMember m =
     (case m of Some x \<Rightarrow> if activeGroupMember x then Inr x else Inl Not_Member | None \<Rightarrow> Inl Not_Member)"

definition requireGroupAdmin :: "gmember \<Rightarrow> store_error option" where
  "requireGroupAdmin m = (if gm_role m \<noteq> Owner \<and> gm_role m \<noteq> Admin then Some Forbidden else None)"

definition validateInvitees :: "string \<Rightarrow> string list \<Rightarrow> store_error option" where
  "validateInvitees actor us =
     (if 15 < length us \<or> \<not> distinct us \<or> actor \<in> set us \<or> (\<exists>u \<in> set us. u = '''' \<or> 128 < length u)
      then Some Invalid_Members else None)"

definition INVITATION_TTL_MS :: int where "INVITATION_TTL_MS = 7 * 24 * 60 * 60 * 1000"
definition MAX_GROUP_MEMBERS :: nat where "MAX_GROUP_MEMBERS = 16"
definition MAX_GROUP_CALL_PARTICIPANTS :: nat where "MAX_GROUP_CALL_PARTICIPANTS = 4"

definition assertGroupCallMembership :: "gmember list \<Rightarrow> string list \<Rightarrow> store_error option" where
  "assertGroupCallMembership ms excluded =
     (if MAX_GROUP_CALL_PARTICIPANTS < length ms then Some Group_Call_Full
      else if \<exists>m \<in> set ms. gm_user m \<in> set excluded then Some Forbidden else None)"

section \<open>Reading the store\<close>

definition activityTime :: "genv \<Rightarrow> group \<Rightarrow> int" where
  "activityTime env g = max (g_now env) (gr_updated g + 1)"

definition by_joined :: "gmember \<Rightarrow> gmember \<Rightarrow> int" where
  "by_joined a b =
     (if gm_joined a < gm_joined b then - 1 else if gm_joined b < gm_joined a then 1
      else if gm_user a < gm_user b then - 1 else if gm_user b < gm_user a then 1 else 0)"

definition listMembers :: "string \<Rightarrow> group_store \<Rightarrow> gmember list" where
  "listMembers cid st =
     sort_cmp by_joined (filter (\<lambda>m. gm_conv m = cid \<and> activeGroupMember m) (map snd (gmembers st)))"

definition member_of :: "string \<Rightarrow> string \<Rightarrow> group_store \<Rightarrow> gmember option" where
  "member_of cid u st = find (\<lambda>m. gm_user m = u) (listMembers cid st)"

text \<open>\<open>conversation && !conversation.deletedAt\<close>.\<close>

definition live_group :: "string \<Rightarrow> group_store \<Rightarrow> group option" where
  "live_group cid st =
     (case map_of (groups st) cid of Some g \<Rightarrow> if gr_deleted g = None then Some g else None | None \<Rightarrow> None)"

definition requireActiveMember :: "string \<Rightarrow> string \<Rightarrow> group_store \<Rightarrow> store_error + gmember" where
  "requireActiveMember cid u st =
     assertActiveGroupMember (case live_group cid st of Some _ \<Rightarrow> member_of cid u st | None \<Rightarrow> None)"

definition recipientsFor :: "string \<Rightarrow> group_store \<Rightarrow> string list" where
  "recipientsFor cid st = map gm_user (listMembers cid st)"

record snapshot =
  sn_group :: group
  sn_owner :: string
  sn_members :: "string list"

definition snapshot_of :: "group_store \<Rightarrow> group \<Rightarrow> snapshot" where
  "snapshot_of st g =
     \<lparr>sn_group = g,
      sn_owner = (case find (\<lambda>m. gm_role m = Owner) (listMembers (gr_id g) st) of
                    Some m \<Rightarrow> gm_user m | None \<Rightarrow> gr_creator g),
      sn_members = map gm_user (listMembers (gr_id g) st)\<rparr>"

record group_change =
  cg_snapshot :: snapshot
  cg_members :: "gmember list"
  cg_changed :: "gmember option"
  cg_calls :: "(gcall \<times> gparticipant list) list"
  cg_invitations :: "invitation list"

definition group_change_of :: "group_store \<Rightarrow> string \<Rightarrow> string option \<Rightarrow> group_change option" where
  "group_change_of st cid mid =
     map_option (\<lambda>g. \<lparr>cg_snapshot = snapshot_of st g, cg_members = listMembers cid st,
        cg_changed = (case mid of Some k \<Rightarrow> map_of (gmembers st) k | None \<Rightarrow> None), cg_calls = [], cg_invitations = []\<rparr>)
       (map_of (groups st) cid)"

section \<open>Changing the store\<close>

definition set_group :: "string \<Rightarrow> (group \<Rightarrow> group) \<Rightarrow> group_store \<Rightarrow> group_store" where
  "set_group cid f st = st\<lparr>groups := AList.map_entry cid f (groups st)\<rparr>"

definition set_member :: "string \<Rightarrow> (gmember \<Rightarrow> gmember) \<Rightarrow> group_store \<Rightarrow> group_store" where
  "set_member mid f st = st\<lparr>gmembers := AList.map_entry mid f (gmembers st)\<rparr>"

definition fresh_uuid :: "genv \<Rightarrow> group_store \<Rightarrow> string" where
  "fresh_uuid env st = g_uuid env (uuids st)"

text \<open>\<open>record\<close>: an event with the group's version and time as they are now.\<close>

definition record_event :: "genv \<Rightarrow> string \<Rightarrow> string \<Rightarrow> string \<Rightarrow> string option \<Rightarrow> string option \<Rightarrow> group_store \<Rightarrow> group_store" where
  "record_event env cid ev actor u reason st =
     (case map_of (groups st) cid of
        None \<Rightarrow> st
      | Some g \<Rightarrow> st\<lparr>gevents := gevents st @
           [\<lparr>ge_id = fresh_uuid env st, ge_conv = cid, ge_version = gr_version g, ge_event = ev, ge_actor = actor,
             ge_user = u, ge_reason = reason, ge_created = gr_updated g\<rparr>], uuids := Suc (uuids st)\<rparr>)"

text \<open>The two assignments every membership change makes.\<close>

definition advance :: "int \<Rightarrow> group \<Rightarrow> group" where
  "advance t g = g\<lparr>gr_updated := t, gr_version := Suc (gr_version g)\<rparr>"

definition join_group :: "genv \<Rightarrow> string \<Rightarrow> string \<Rightarrow> role \<Rightarrow> int \<Rightarrow> group_store \<Rightarrow> string \<times> group_store" where
  "join_group env cid u r t st =
     (let mid = fresh_uuid env st
      in (mid, st\<lparr>gmembers := AList.update mid
           \<lparr>gm_id = mid, gm_conv = cid, gm_user = u, gm_role = r, gm_joined = t, gm_left = None, gm_removed = None,
            gm_actor = None, gm_reason = None, gm_created = t, gm_updated = t\<rparr> (gmembers st),
          uuids := Suc (uuids st)\<rparr>))"

definition pending_invitation :: "int \<Rightarrow> string \<Rightarrow> string \<Rightarrow> invitation \<Rightarrow> bool" where
  "pending_invitation t cid u i =
     (iv_conv i = cid \<and> iv_invitee i = u \<and> iv_accepted i = None \<and> iv_cancelled i = None \<and> t < iv_expires i)"

definition issue_invitation :: "genv \<Rightarrow> string \<Rightarrow> string \<Rightarrow> int \<Rightarrow> nat \<Rightarrow> string \<Rightarrow>
  invitation list \<times> group_store \<Rightarrow> invitation list \<times> group_store" where
  "issue_invitation env cid actor t v u = (\<lambda>(issued, st).
     let i = \<lparr>iv_id = fresh_uuid env st, iv_conv = cid, iv_invitee = u, iv_issuer = actor, iv_version = v, iv_created = t,
              iv_expires = t + INVITATION_TTL_MS, iv_accepted = None, iv_cancelled = None\<rparr>
     in (issued @ [i],
         record_event env cid ''invited'' actor (Some u) None
           (st\<lparr>invitations := AList.update (iv_id i) i (invitations st), uuids := Suc (uuids st)\<rparr>)))"

text \<open>\<open>invite\<close>: the group is the caller's live one.\<close>

definition invite :: "genv \<Rightarrow> string \<Rightarrow> group \<Rightarrow> string \<Rightarrow> string list \<Rightarrow> group_store \<Rightarrow>
  (store_error + invitation list) \<times> group_store" where
  "invite env cid g actor us st =
     (case validateInvitees actor us of
        Some e \<Rightarrow> (Inl e, st)
      | None \<Rightarrow>
          if us = [] then (Inl Invalid_Members, st)
          else if MAX_GROUP_MEMBERS \<le> length (listMembers cid st) then (Inl Group_Full, st)
          else if \<exists>u \<in> set us. u \<in> set (map gm_user (listMembers cid st)) \<or>
                     (\<exists>i \<in> set (map snd (invitations st)). pending_invitation (g_now env) cid u i)
          then (Inl Invalid_Members, st)
          else
            (let t = activityTime env g;
                 (issued, st1) = fold (issue_invitation env cid actor t (Suc (gr_version g))) us
                                   ([], set_group cid (advance t) st)
             in (Inr issued, st1)))"

end
