(* ===== verification/GroupMembership.thy ===== *)
theory GroupMembership
  imports GroupStore
begin

text \<open>
  The operations on membership and invitations of \<open>conversationStore/memoryStore.ts\<close>, what a departure
  does to the group's calls, and the erasure of an account.
\<close>

type_synonym 'a outcome = "(store_error + 'a) \<times> group_store"

section \<open>Invitations\<close>

definition listInvitations :: "genv \<Rightarrow> string \<Rightarrow> group_store \<Rightarrow> invitation list" where
  "listInvitations env u st =
     filter (\<lambda>i. iv_invitee i = u \<and> iv_accepted i = None \<and> iv_cancelled i = None \<and> g_now env < iv_expires i)
       (map snd (invitations st))"

definition acceptInvitation :: "genv \<Rightarrow> string \<Rightarrow> string \<Rightarrow> string \<Rightarrow> group_store \<Rightarrow> group_change option outcome" where
  "acceptInvitation env cid iid u st =
     (case (live_group cid st, map_of (invitations st) iid) of
        (Some g, Some i) \<Rightarrow>
          if iv_conv i \<noteq> cid \<or> iv_invitee i \<noteq> u \<or> iv_accepted i \<noteq> None \<or> iv_cancelled i \<noteq> None \<or>
             iv_expires i \<le> g_now env
          then (Inl Invalid_Invitation, st)
          else if u \<in> set (map gm_user (listMembers cid st)) then (Inl Invalid_Members, st)
          else if MAX_GROUP_MEMBERS \<le> length (listMembers cid st) then (Inl Group_Full, st)
          else
            (let t = activityTime env g;
                 st1 = st\<lparr>invitations := AList.map_entry iid (\<lambda>i. i\<lparr>iv_accepted := Some t\<rparr>) (invitations st)\<rparr>;
                 (mid, st2) = join_group env cid u Plain t st1;
                 st3 = record_event env cid ''accepted'' u (Some u) None (set_group cid (advance t) st2)
             in (Inr (group_change_of st3 cid (Some mid)), st3))
      | _ \<Rightarrow> (Inl Invalid_Invitation, st))"

text \<open>Version first, then the time: \<open>activityTime\<close> reads the time only.\<close>

definition touch_group :: "genv \<Rightarrow> group \<Rightarrow> group" where
  "touch_group env g = advance (activityTime env g) g"

definition cancelInvitation :: "genv \<Rightarrow> string \<Rightarrow> string \<Rightarrow> string \<Rightarrow> group_store \<Rightarrow> unit outcome" where
  "cancelInvitation env cid iid actor st =
     (case requireActiveMember cid actor st of
        Inl e \<Rightarrow> (Inl e, st)
      | Inr m \<Rightarrow> (case requireGroupAdmin m of
          Some e \<Rightarrow> (Inl e, st)
        | None \<Rightarrow> (case map_of (invitations st) iid of
            None \<Rightarrow> (Inl Invalid_Invitation, st)
          | Some i \<Rightarrow>
              if iv_conv i \<noteq> cid \<or> iv_accepted i \<noteq> None \<or> iv_cancelled i \<noteq> None then (Inl Invalid_Invitation, st)
              else (Inr (), record_event env cid ''invitation_cancelled'' actor (Some (iv_invitee i)) None
                 (set_group cid (touch_group env)
                   (st\<lparr>invitations := AList.map_entry iid (\<lambda>i. i\<lparr>iv_cancelled := Some (g_now env)\<rparr>) (invitations st)\<rparr>))))))"

definition listMembershipEvents :: "string \<Rightarrow> string \<Rightarrow> group_store \<Rightarrow> store_error + gevent list" where
  "listMembershipEvents cid u st =
     (case requireActiveMember cid u st of
        Inl e \<Rightarrow> Inl e
      | Inr m \<Rightarrow> Inr (filter (\<lambda>e. ge_conv e = cid \<and> gm_joined m \<le> ge_created e) (gevents st)))"

definition exportMemberships :: "string \<Rightarrow> group_store \<Rightarrow> gmember list" where
  "exportMemberships u st = filter (\<lambda>m. gm_user m = u) (map snd (gmembers st))"

section \<open>Roles\<close>

fun role_name :: "role \<Rightarrow> string" where
  "role_name Owner = ''owner''"
| "role_name Admin = ''admin''"
| "role_name Plain = ''member''"

definition setRole :: "genv \<Rightarrow> string \<Rightarrow> string \<Rightarrow> string \<Rightarrow> role \<Rightarrow> group_store \<Rightarrow> group_change option outcome" where
  "setRole env cid actor u r st =
     (case requireActiveMember cid actor st of
        Inl e \<Rightarrow> (Inl e, st)
      | Inr a \<Rightarrow> (case requireActiveMember cid u st of
          Inl e \<Rightarrow> (Inl e, st)
        | Inr m \<Rightarrow>
            if gm_role a \<noteq> Owner \<or> gm_role m = Owner then (Inl Forbidden, st)
            else
              (let st1 = set_member (gm_id m) (\<lambda>m. m\<lparr>gm_role := r, gm_updated := g_now env\<rparr>) st;
                   st2 = record_event env cid ''role_changed'' actor (Some u) (Some (role_name r))
                           (set_group cid (touch_group env) st1)
               in (Inr (group_change_of st2 cid (Some (gm_id m))), st2))))"

definition transferOwnership :: "genv \<Rightarrow> string \<Rightarrow> string \<Rightarrow> string \<Rightarrow> group_store \<Rightarrow> group_change option outcome" where
  "transferOwnership env cid actor u st =
     (case requireActiveMember cid actor st of
        Inl e \<Rightarrow> (Inl e, st)
      | Inr a \<Rightarrow> (case requireActiveMember cid u st of
          Inl e \<Rightarrow> (Inl e, st)
        | Inr m \<Rightarrow>
            if gm_role a \<noteq> Owner \<or> gm_role m \<noteq> Admin then (Inl Forbidden, st)
            else
              (let t = (case map_of (groups st) cid of Some g \<Rightarrow> activityTime env g | None \<Rightarrow> g_now env);
                   st1 = set_member (gm_id a) (\<lambda>a. a\<lparr>gm_role := Admin, gm_updated := t\<rparr>) st;
                   st2 = set_member (gm_id m) (\<lambda>m. m\<lparr>gm_role := Owner, gm_updated := t\<rparr>) st1;
                   st3 = record_event env cid ''ownership_transferred'' actor (Some u) None
                           (set_group cid (touch_group env) st2)
               in (Inr (group_change_of st3 cid (Some (gm_id m))), st3))))"

section \<open>Groups\<close>

definition departed :: "int \<Rightarrow> bool \<Rightarrow> string \<Rightarrow> string \<Rightarrow> gmember \<Rightarrow> gmember" where
  "departed t removed actor reason m =
     m\<lparr>gm_left := Some t, gm_removed := (if removed then Some t else gm_removed m), gm_actor := Some actor,
       gm_reason := Some reason, gm_updated := t\<rparr>"

definition deleteGroup :: "genv \<Rightarrow> string \<Rightarrow> string \<Rightarrow> group_store \<Rightarrow> unit outcome" where
  "deleteGroup env cid actor st =
     (case requireActiveMember cid actor st of
        Inl e \<Rightarrow> (Inl e, st)
      | Inr a \<Rightarrow>
          if gm_role a \<noteq> Owner \<or> length (listMembers cid st) \<noteq> 1 then (Inl Forbidden, st)
          else
            (let t = (case map_of (groups st) cid of Some g \<Rightarrow> activityTime env g | None \<Rightarrow> g_now env);
                 st1 = set_member (gm_id a)
                   (\<lambda>m. m\<lparr>gm_left := Some t, gm_actor := Some actor, gm_reason := Some ''group_deleted''\<rparr>) st;
                 st2 = set_group cid (\<lambda>g. (advance t g)\<lparr>gr_deleted := Some t\<rparr>) st1;
                 st3 = st2\<lparr>invitations := map (\<lambda>(k, i).
                    (k, if iv_conv i = cid \<and> iv_accepted i = None \<and> iv_cancelled i = None
                        then i\<lparr>iv_cancelled := Some t\<rparr> else i)) (invitations st2)\<rparr>
             in (Inr (), record_event env cid ''deleted'' actor (Some actor) None st3)))"

definition create :: "genv \<Rightarrow> string \<Rightarrow> string \<Rightarrow> string list \<Rightarrow> group_store \<Rightarrow> group_change option outcome" where
  "create env name creator us st =
     (case validateInvitees creator us of
        Some e \<Rightarrow> (Inl e, st)
      | None \<Rightarrow>
          if \<exists>u \<in> set us. \<not> g_can_invite env creator u then (Inl Forbidden, st)
          else
            (let t = g_now env;
                 cid = fresh_uuid env st;
                 g = \<lparr>gr_id = cid, gr_name = name, gr_creator = creator, gr_version = 1, gr_created = t, gr_updated = t,
                      gr_deleted = None\<rparr>;
                 st1 = st\<lparr>groups := AList.update cid g (groups st), uuids := Suc (uuids st)\<rparr>;
                 (mid, st2) = join_group env cid creator Owner t st1;
                 st3 = record_event env cid ''created'' creator (Some creator) None st2
             in case (if us = [] then (Inr [], st3) else invite env cid g creator us st3) of
                  (Inl e, st4) \<Rightarrow> (Inl e, st4)
                | (Inr issued, st4) \<Rightarrow>
                    (Inr (map_option (\<lambda>c. c\<lparr>cg_invitations := issued\<rparr>) (group_change_of st4 cid (Some mid))), st4)))"

definition get_group :: "string \<Rightarrow> string option \<Rightarrow> group_store \<Rightarrow> store_error + snapshot option" where
  "get_group cid u st =
     (let found = Inr (map_option (snapshot_of st) (live_group cid st))
      in if str_truthy u
         then (case requireActiveMember cid (the u) st of Inl e \<Rightarrow> Inl e | Inr _ \<Rightarrow> found)
         else found)"

definition getMember :: "string \<Rightarrow> string \<Rightarrow> group_store \<Rightarrow> gmember option" where
  "getMember cid u st = (case live_group cid st of Some _ \<Rightarrow> member_of cid u st | None \<Rightarrow> None)"

definition by_activity :: "snapshot \<Rightarrow> snapshot \<Rightarrow> int" where
  "by_activity a b = gr_updated (sn_group b) - gr_updated (sn_group a)"

definition listForUser :: "string \<Rightarrow> group_store \<Rightarrow> snapshot list" where
  "listForUser u st =
     sort_cmp by_activity (map (snapshot_of st)
       (filter (\<lambda>g. gr_deleted g = None \<and> u \<in> set (map gm_user (listMembers (gr_id g) st))) (map snd (groups st))))"

definition updateName :: "genv \<Rightarrow> string \<Rightarrow> string \<Rightarrow> string \<Rightarrow> group_store \<Rightarrow> group_change option outcome" where
  "updateName env cid actor name st =
     (case live_group cid st of
        None \<Rightarrow> (Inr None, st)
      | Some g \<Rightarrow> (case requireActiveMember cid actor st of
          Inl e \<Rightarrow> (Inl e, st)
        | Inr a \<Rightarrow> (case requireGroupAdmin a of
            Some e \<Rightarrow> (Inl e, st)
          | None \<Rightarrow>
              (let st1 = record_event env cid ''renamed'' actor None None
                     (set_group cid (\<lambda>g. touch_group env (g\<lparr>gr_name := name\<rparr>)) st)
               in (Inr (group_change_of st1 cid None), st1)))))"

definition addMembers :: "genv \<Rightarrow> string \<Rightarrow> string \<Rightarrow> string list \<Rightarrow> group_store \<Rightarrow> group_change option outcome" where
  "addMembers env cid actor us st =
     (case validateInvitees actor us of
        Some e \<Rightarrow> (Inl e, st)
      | None \<Rightarrow>
          if \<exists>u \<in> set us. \<not> g_can_invite env actor u then (Inl Forbidden, st)
          else (case live_group cid st of
            None \<Rightarrow> (Inr None, st)
          | Some g \<Rightarrow> (case requireActiveMember cid actor st of
              Inl e \<Rightarrow> (Inl e, st)
            | Inr a \<Rightarrow> (case requireGroupAdmin a of
                Some e \<Rightarrow> (Inl e, st)
              | None \<Rightarrow> (case invite env cid g actor us st of
                  (Inl e, st1) \<Rightarrow> (Inl e, st1)
                | (Inr issued, st1) \<Rightarrow>
                    (Inr (map_option (\<lambda>c. c\<lparr>cg_invitations := issued\<rparr>) (group_change_of st1 cid None)), st1))))))"

section \<open>Leaving and removal\<close>

definition part_live :: "gparticipant \<Rightarrow> bool" where
  "part_live p = (gp_status p = GP_Ringing \<or> gp_status p = GP_Accepted)"

definition call_occupied :: "string \<Rightarrow> group_store \<Rightarrow> bool" where
  "call_occupied k st = (\<exists>p \<in> set (map snd (gparts st)). gp_call p = k \<and> part_live p)"

definition by_invited :: "gparticipant \<Rightarrow> gparticipant \<Rightarrow> int" where
  "by_invited a b =
     (if gp_invited a < gp_invited b then - 1 else if gp_invited b < gp_invited a then 1
      else if gp_user a < gp_user b then - 1 else if gp_user b < gp_user a then 1 else 0)"

definition call_participants_of :: "string \<Rightarrow> group_store \<Rightarrow> gparticipant list" where
  "call_participants_of k st = sort_cmp by_invited (filter (\<lambda>p. gp_call p = k) (map snd (gparts st)))"

definition callChange :: "string \<Rightarrow> group_store \<Rightarrow> (gcall \<times> gparticipant list) option" where
  "callChange k st = map_option (\<lambda>c. (c, call_participants_of k st)) (map_of (gcalls st) k)"

definition set_gcall :: "string \<Rightarrow> (gcall \<Rightarrow> gcall) \<Rightarrow> group_store \<Rightarrow> group_store" where
  "set_gcall k f st = st\<lparr>gcalls := AList.map_entry k f (gcalls st)\<rparr>"

definition set_gpart :: "string \<times> string \<Rightarrow> (gparticipant \<Rightarrow> gparticipant) \<Rightarrow> group_store \<Rightarrow> group_store" where
  "set_gpart k f st = st\<lparr>gparts := AList.map_entry k f (gparts st)\<rparr>"

definition gone :: "gparticipant_status \<Rightarrow> int \<Rightarrow> gparticipant \<Rightarrow> gparticipant" where
  "gone s t p = p\<lparr>gp_status := s, gp_left := Some t, gp_updated := t\<rparr>"

definition end_if_empty :: "bool \<Rightarrow> int \<Rightarrow> gcall \<Rightarrow> gcall" where
  "end_if_empty occupied t c = (if occupied then c else c\<lparr>gc_status := GC_Ended, gc_ended := Some t\<rparr>)"

definition bump_call :: "int \<Rightarrow> gcall \<Rightarrow> gcall" where
  "bump_call t c = c\<lparr>gc_updated := t, gc_version := Suc (gc_version c)\<rparr>"

text \<open>One participant entry of the loop that takes a departing member out of the group's calls.\<close>

definition leave_call :: "int \<Rightarrow> string \<Rightarrow> string \<Rightarrow> string \<times> string \<Rightarrow>
  (gcall \<times> gparticipant list) list \<times> group_store \<Rightarrow> (gcall \<times> gparticipant list) list \<times> group_store" where
  "leave_call t cid u k = (\<lambda>(out, st).
     case map_of (gparts st) k of
       None \<Rightarrow> (out, st)
     | Some p \<Rightarrow>
         if gp_user p \<noteq> u \<or> \<not> part_live p then (out, st)
         else (case map_of (gcalls st) (gp_call p) of
           None \<Rightarrow> (out, st)
         | Some c \<Rightarrow>
             if gc_conv c \<noteq> cid \<or> gc_status c = GC_Ended then (out, st)
             else
               (let st1 = set_gpart k (gone GP_Left t) st;
                    st2 = set_gcall (gp_call p) (\<lambda>c. bump_call t (end_if_empty (call_occupied (gp_call p) st1) t c)) st1
                in (out @ (case callChange (gp_call p) st2 of Some ch \<Rightarrow> [ch] | None \<Rightarrow> []), st2))))"

definition leave_calls :: "int \<Rightarrow> string \<Rightarrow> string \<Rightarrow> group_store \<Rightarrow> (gcall \<times> gparticipant list) list \<times> group_store" where
  "leave_calls t cid u st = fold (leave_call t cid u) (map fst (gparts st)) ([], st)"

text \<open>What \<open>removeMember\<close> and \<open>leave\<close> have in common after their guards.\<close>

definition depart :: "genv \<Rightarrow> string \<Rightarrow> group \<Rightarrow> gmember \<Rightarrow> bool \<Rightarrow> string \<Rightarrow> string \<Rightarrow> string \<Rightarrow> group_store \<Rightarrow>
  group_change option \<times> group_store" where
  "depart env cid g m removed ev actor reason st =
     (let t = activityTime env g;
          st1 = set_member (gm_id m) (departed t removed actor reason) st;
          st2 = record_event env cid ev actor (Some (gm_user m)) (Some reason) (set_group cid (advance t) st1);
          (changed, st3) = leave_calls t cid (gm_user m) st2
      in (map_option (\<lambda>c. c\<lparr>cg_calls := changed\<rparr>) (group_change_of st3 cid (Some (gm_id m))), st3))"

definition removeMember :: "genv \<Rightarrow> string \<Rightarrow> string \<Rightarrow> string \<Rightarrow> string option \<Rightarrow> group_store \<Rightarrow> group_change option outcome" where
  "removeMember env cid actor u reason st =
     (case live_group cid st of
        None \<Rightarrow> (Inr None, st)
      | Some g \<Rightarrow> (case requireActiveMember cid actor st of
          Inl e \<Rightarrow> (Inl e, st)
        | Inr a \<Rightarrow> (case requireActiveMember cid u st of
            Inl e \<Rightarrow> (Inl e, st)
          | Inr m \<Rightarrow> (case requireGroupAdmin a of
              Some e \<Rightarrow> (Inl e, st)
            | None \<Rightarrow>
                if gm_role m = Owner \<or> actor = u then (Inl Forbidden, st)
                else
                  (let (ch, st1) = depart env cid g m True ''removed'' actor
                         (case reason of Some r \<Rightarrow> r | None \<Rightarrow> ''removed'') st
                   in (Inr ch, st1))))))"

definition leave :: "genv \<Rightarrow> string \<Rightarrow> string \<Rightarrow> group_store \<Rightarrow> group_change option outcome" where
  "leave env cid u st =
     (case live_group cid st of
        None \<Rightarrow> (Inr None, st)
      | Some g \<Rightarrow> (case requireActiveMember cid u st of
          Inl e \<Rightarrow> (Inl e, st)
        | Inr m \<Rightarrow>
            if gm_role m = Owner then (Inl Forbidden, st)
            else (let (ch, st1) = depart env cid g m False ''left'' u ''left'' st in (Inr ch, st1))))"

section \<open>Account erasure\<close>

definition or_some :: "'a option \<Rightarrow> 'a \<Rightarrow> 'a option" where
  "or_some x d = (case x of Some _ \<Rightarrow> x | None \<Rightarrow> Some d)"

text \<open>The owner's erasure hands the group on, or closes it.\<close>

definition hand_on :: "int \<Rightarrow> gmember \<Rightarrow> group_store \<Rightarrow> group_store" where
  "hand_on t m st =
     (if gm_role m = Owner \<and> activeGroupMember m \<and> map_of (groups st) (gm_conv m) \<noteq> None
      then (case find (\<lambda>x. gm_user x \<noteq> gm_user m) (listMembers (gm_conv m) st) of
              Some x \<Rightarrow> set_member (gm_id x) (\<lambda>x. x\<lparr>gm_role := Owner, gm_updated := t\<rparr>) st
            | None \<Rightarrow> set_group (gm_conv m) (\<lambda>g. g\<lparr>gr_deleted := Some t\<rparr>) st)
      else st)"

definition erased_member :: "int \<Rightarrow> string \<Rightarrow> gmember \<Rightarrow> gmember" where
  "erased_member t pseud m =
     m\<lparr>gm_left := or_some (gm_left m) t, gm_actor := or_some (gm_actor m) pseud,
       gm_reason := or_some (gm_reason m) ''account_erasure'', gm_role := Plain, gm_user := pseud, gm_updated := t\<rparr>"

definition eraseMembership :: "genv \<Rightarrow> string \<Rightarrow> string \<Rightarrow> group_store \<Rightarrow> group_store" where
  "eraseMembership env pseud mid st =
     (case map_of (gmembers st) mid of
        None \<Rightarrow> st
      | Some m \<Rightarrow>
          (let g = map_of (groups st) (gm_conv m);
               t = (case g of Some g \<Rightarrow> activityTime env g | None \<Rightarrow> g_now env);
               st1 = set_member mid (erased_member t pseud) (hand_on (g_now env) m st)
           in case g of
                None \<Rightarrow> st1
              | Some _ \<Rightarrow> record_event env (gm_conv m) ''erased'' pseud (Some pseud) (Some ''account_erasure'')
                  (set_group (gm_conv m)
                     (\<lambda>g. (advance t g)\<lparr>gr_creator := (if gr_creator g = gm_user m then pseud else gr_creator g)\<rparr>) st1)))"

definition rename_user :: "string \<Rightarrow> string \<Rightarrow> string \<Rightarrow> string" where
  "rename_user u pseud x = (if x = u then pseud else x)"

definition anonymized_invitation :: "string \<Rightarrow> string \<Rightarrow> int \<Rightarrow> invitation \<Rightarrow> invitation" where
  "anonymized_invitation u pseud t i =
     (if iv_invitee i \<noteq> u \<and> iv_issuer i \<noteq> u then i
      else i\<lparr>iv_cancelled := (if iv_accepted i = None then or_some (iv_cancelled i) t else iv_cancelled i),
             iv_invitee := rename_user u pseud (iv_invitee i), iv_issuer := rename_user u pseud (iv_issuer i)\<rparr>)"

definition anonymizeInvitationsAndEvents :: "string \<Rightarrow> string \<Rightarrow> int \<Rightarrow> group_store \<Rightarrow> group_store" where
  "anonymizeInvitationsAndEvents u pseud t st =
     st\<lparr>invitations := map (\<lambda>(k, i). (k, anonymized_invitation u pseud t i)) (invitations st),
        gevents := map (\<lambda>e. e\<lparr>ge_actor := rename_user u pseud (ge_actor e),
                              ge_user := map_option (rename_user u pseud) (ge_user e)\<rparr>) (gevents st),
        gmembers := map (\<lambda>(k, m). (k, m\<lparr>gm_actor := map_option (rename_user u pseud) (gm_actor m)\<rparr>)) (gmembers st)\<rparr>"

definition captureGroupAttachments :: "string \<Rightarrow> group_store \<Rightarrow> group_store" where
  "captureGroupAttachments cid st =
     st\<lparr>cleanup := fold (\<lambda>m. set_add (trim (the (m_attachment m))))
          (filter (\<lambda>m. m_conv m = cid \<and> m_deleted m = None \<and> m_attachment m \<noteq> None) (map snd (gmessages st)))
          (cleanup st)\<rparr>"

definition collectGroupCalls :: "string \<Rightarrow> group_store \<Rightarrow> group_store" where
  "collectGroupCalls cid st =
     (let ids = map gc_id (filter (\<lambda>c. gc_conv c = cid) (map snd (gcalls st)))
      in st\<lparr>gcalls := filter (\<lambda>(k, _). k \<notin> set ids) (gcalls st),
            gparts := filter (\<lambda>(_, p). gp_call p \<notin> set ids) (gparts st)\<rparr>)"

definition collectEmptyGroup :: "string \<Rightarrow> group_store \<Rightarrow> group_store" where
  "collectEmptyGroup cid st =
     (if listMembers cid st \<noteq> [] then st
      else
        (let st1 = captureGroupAttachments cid st
         in collectGroupCalls cid
              (st1\<lparr>groups := AList.delete cid (groups st1),
                   gmembers := filter (\<lambda>(_, m). gm_conv m \<noteq> cid) (gmembers st1),
                   invitations := filter (\<lambda>(_, i). iv_conv i \<noteq> cid) (invitations st1),
                   gevents := filter (\<lambda>e. ge_conv e \<noteq> cid) (gevents st1),
                   gmessages := filter (\<lambda>(_, m). m_conv m \<noteq> cid) (gmessages st1)\<rparr>)))"

definition anonymizeMemberships :: "genv \<Rightarrow> string \<Rightarrow> string \<Rightarrow> group_store \<Rightarrow> string list \<times> group_store" where
  "anonymizeMemberships env u pseud st =
     (let affected = filter (\<lambda>(_, m). gm_user m = u) (gmembers st);
          cids = uniq (map (gm_conv \<circ> snd) affected);
          st1 = fold (eraseMembership env pseud) (map fst affected) st;
          st2 = anonymizeInvitationsAndEvents u pseud (g_now env) st1
      in (cids, fold collectEmptyGroup cids st2))"

definition erased_reactions :: "string \<Rightarrow> gmessage \<Rightarrow> gmessage" where
  "erased_reactions u m =
     m\<lparr>m_reactions := filter (\<lambda>(_, us). us \<noteq> []) (map (\<lambda>(em, us). (em, filter (\<lambda>v. v \<noteq> u) us)) (m_reactions m)),
       m_read_by := filter (\<lambda>v. v \<noteq> u) (m_read_by m), m_delivered := filter (\<lambda>v. v \<noteq> u) (m_delivered m)\<rparr>"

definition eraseReactions :: "string \<Rightarrow> group_store \<Rightarrow> group_store" where
  "eraseReactions u st = st\<lparr>gmessages := map (\<lambda>(k, m). (k, erased_reactions u m)) (gmessages st)\<rparr>"

end
