(* ===== verification/GroupMessages.thy ===== *)
theory GroupMessages
  imports GroupMembership
begin

text \<open>
  The messages of a group and the timeline entries of its calls: the message operations of
  \<open>conversationStore/memoryStore.ts\<close> and \<open>shared/groupCalls.ts\<close>. A member reads what was written since
  they joined.
\<close>

section \<open>Timeline entries of calls\<close>

definition GROUP_CALL_MESSAGE_PREFIX :: string where "GROUP_CALL_MESSAGE_PREFIX = ''group-call:''"

datatype call_outcome = Joined | Missed_Outcome | Ringing_Outcome

definition callOutcome :: "gcall_status \<Rightarrow> gparticipant \<Rightarrow> call_outcome" where
  "callOutcome s p =
     (if gp_accepted p \<noteq> None then Joined
      else if s = GC_Ended \<or> gp_status p = GP_Declined \<or> gp_status p = GP_Left then Missed_Outcome
      else Ringing_Outcome)"

fun outcome_label :: "call_outcome \<Rightarrow> string" where
  "outcome_label Joined = ''Joined''"
| "outcome_label Missed_Outcome = ''Missed''"
| "outcome_label Ringing_Outcome = ''Ringing''"

text \<open>\<open>separator\<close> is a space, a middle dot and a space.\<close>

definition separator :: string where "separator = '' '' @ [char_of (183 :: nat)] @ '' ''"

definition groupCallTimelineMessage :: "gcall \<Rightarrow> gparticipant \<Rightarrow> gmessage" where
  "groupCallTimelineMessage c p =
     \<lparr>m_id = GROUP_CALL_MESSAGE_PREFIX @ gc_id c, m_client = None, m_conv = gc_conv c, m_sender = gc_initiator c,
      m_recipient = gc_conv c,
      m_body = ''Group '' @ (if gc_video c then ''video'' else ''audio'') @ '' call'' @ separator @
        outcome_label (callOutcome (gc_status c) p) @ (if gc_status c = GC_Ended then separator @ ''Ended'' else ''''),
      m_type = ''system'', m_attachment = None, m_reply = None, m_reactions = [], m_deleted = None,
      m_created = gc_created c, m_delivered = [], m_read = None, m_read_by = []\<rparr>"

datatype history_status = H_Ringing | H_Active | H_Ended | H_Missed

record call_entry =
  ce_call :: gcall
  ce_name :: string
  ce_status :: history_status
  ce_outcome :: call_outcome

fun history_status_of :: "gcall_status \<Rightarrow> history_status" where
  "history_status_of GC_Ringing = H_Ringing"
| "history_status_of GC_Active = H_Active"
| "history_status_of GC_Ended = H_Ended"

definition groupCallHistoryEntry :: "gcall \<Rightarrow> gparticipant \<Rightarrow> string \<Rightarrow> call_entry" where
  "groupCallHistoryEntry c p name =
     (let out = callOutcome (gc_status c) p
      in \<lparr>ce_call = c, ce_name = name,
          ce_status = (if out = Missed_Outcome then H_Missed else history_status_of (gc_status c)), ce_outcome = out\<rparr>)"

section \<open>Writing\<close>

definition recordMessageChange :: "gmessage \<Rightarrow> change_type \<Rightarrow> int \<Rightarrow> group_store \<Rightarrow> group_store" where
  "recordMessageChange m ty t st =
     st\<lparr>gchanges := gchanges st @ [\<lparr>gh_id = Suc (gsequence st), gh_type = ty, gh_at = t, gh_key = (m_conv m, m_id m)\<rparr>],
        gsequence := Suc (gsequence st)\<rparr>"

definition ATTACHMENT_PATH_PREFIX :: string where "ATTACHMENT_PATH_PREFIX = ''chatblobs''"

definition attachmentScopeFromKey :: "string \<Rightarrow> string option" where
  "attachmentScopeFromKey key =
     (let parts = split_on (CHR ''/'') key
      in if length parts < 3 \<or> parts ! 0 \<noteq> ATTACHMENT_PATH_PREFIX then None
         else if parts ! 1 = '''' then None else Some (parts ! 1))"

definition save_refused :: "gmessage \<Rightarrow> gmember \<Rightarrow> group_store \<Rightarrow> bool" where
  "save_refused m me st =
     ((case m_attachment m of None \<Rightarrow> False
       | Some url \<Rightarrow> attachmentScopeFromKey (trim url) \<noteq> Some (''group_'' @ m_conv m)) \<or>
      (str_truthy (m_reply m) \<and>
       (case map_of (gmessages st) (m_conv m, the (m_reply m)) of
          None \<Rightarrow> True | Some parent \<Rightarrow> m_created parent < gm_joined me)))"

definition stored_duplicate :: "gmessage \<Rightarrow> group_store \<Rightarrow> gmessage option" where
  "stored_duplicate m st =
     (let stored = map_of (gmessages st) (m_conv m, m_id m)
      in if str_truthy (m_client m)
         then (case find (\<lambda>x. m_sender x = m_sender m \<and> m_client x = m_client m) (map snd (gmessages st)) of
                 Some x \<Rightarrow> Some x | None \<Rightarrow> stored)
         else stored)"

definition is_prefix :: "string \<Rightarrow> string \<Rightarrow> bool" where
  "is_prefix p s = (take (length p) s = p)"

definition saveGroupMessage :: "genv \<Rightarrow> gmessage \<Rightarrow> group_store \<Rightarrow> (gmessage \<times> string list \<times> bool) outcome" where
  "saveGroupMessage env m st =
     (if is_prefix GROUP_CALL_MESSAGE_PREFIX (m_id m) then (Inl Forbidden, st)
      else (case requireActiveMember (m_conv m) (m_sender m) st of
        Inl e \<Rightarrow> (Inl e, st)
      | Inr me \<Rightarrow>
          if save_refused m me st then (Inl Forbidden, st)
          else (case stored_duplicate m st of
            Some x \<Rightarrow>
              if m_conv x \<noteq> m_conv m \<or> m_created x < gm_joined me then (Inl Forbidden, st)
              else (Inr (x, recipientsFor (m_conv m) st, False), st)
          | None \<Rightarrow>
              (let t = (case map_of (groups st) (m_conv m) of Some g \<Rightarrow> activityTime env g | None \<Rightarrow> g_now env);
                   m' = m\<lparr>m_created := t, m_read_by := []\<rparr>;
                   st1 = set_group (m_conv m) (\<lambda>g. g\<lparr>gr_updated := t\<rparr>) st;
                   st2 = recordMessageChange m' New_Change t
                           (st1\<lparr>gmessages := AList.update (m_conv m, m_id m) m' (gmessages st1)\<rparr>)
               in (Inr (m', recipientsFor (m_conv m) st2, True), st2)))))"

text \<open>A message the member may see: stored, and not older than the membership.\<close>

definition visible_message :: "string \<Rightarrow> string \<Rightarrow> gmember \<Rightarrow> group_store \<Rightarrow> gmessage option" where
  "visible_message cid mid me st =
     (case map_of (gmessages st) (cid, mid) of
        Some m \<Rightarrow> if gm_joined me \<le> m_created m then Some m else None
      | None \<Rightarrow> None)"

definition getGroupMessage :: "string \<Rightarrow> string \<Rightarrow> string \<Rightarrow> group_store \<Rightarrow> store_error + gmessage option" where
  "getGroupMessage cid mid u st =
     (case requireActiveMember cid u st of Inl e \<Rightarrow> Inl e | Inr me \<Rightarrow> Inr (visible_message cid mid me st))"

definition set_gmessage :: "string \<times> string \<Rightarrow> (gmessage \<Rightarrow> gmessage) \<Rightarrow> group_store \<Rightarrow> group_store" where
  "set_gmessage k f st = st\<lparr>gmessages := AList.map_entry k f (gmessages st)\<rparr>"

definition group_time :: "genv \<Rightarrow> string \<Rightarrow> group_store \<Rightarrow> int" where
  "group_time env cid st = (case map_of (groups st) cid of Some g \<Rightarrow> activityTime env g | None \<Rightarrow> g_now env)"

definition deleteGroupMessage :: "genv \<Rightarrow> string \<Rightarrow> string \<Rightarrow> string \<Rightarrow> group_store \<Rightarrow> (gmessage \<times> string list) option outcome" where
  "deleteGroupMessage env cid mid u st =
     (case requireActiveMember cid u st of
        Inl e \<Rightarrow> (Inl e, st)
      | Inr me \<Rightarrow> (case visible_message cid mid me st of
          None \<Rightarrow> (Inr None, st)
        | Some m \<Rightarrow>
            if m_deleted m \<noteq> None \<or> m_sender m \<noteq> u then (Inr None, st)
            else
              (let t = group_time env cid st;
                   m' = applyTombstone t m;
                   st1 = recordMessageChange m' Deleted_Change t
                           (set_gmessage (cid, mid) (applyTombstone t) (set_group cid (\<lambda>g. g\<lparr>gr_updated := t\<rparr>) st))
               in (Inr (Some (m', recipientsFor cid st1)), st1))))"

definition reactToGroupMessage ::
  "genv \<Rightarrow> string \<Rightarrow> string \<Rightarrow> string \<Rightarrow> string \<Rightarrow> react \<Rightarrow> group_store \<Rightarrow> (gmessage \<times> string list) option outcome" where
  "reactToGroupMessage env cid mid u em act st =
     (case requireActiveMember cid u st of
        Inl e \<Rightarrow> (Inl e, st)
      | Inr me \<Rightarrow> (case visible_message cid mid me st of
          None \<Rightarrow> (Inr None, st)
        | Some m \<Rightarrow>
            if m_deleted m \<noteq> None then (Inr None, st)
            else
              (let rs = applyReaction em u act (m_reactions m)
               in if rs = m_reactions m then (Inr (Some (m, recipientsFor cid st)), st)
                  else
                    (let t = group_time env cid st;
                         m' = m\<lparr>m_reactions := rs\<rparr>;
                         st1 = recordMessageChange m' Reactions_Change t
                                 (set_group cid (\<lambda>g. g\<lparr>gr_updated := t\<rparr>)
                                   (set_gmessage (cid, mid) (\<lambda>m. m\<lparr>m_reactions := rs\<rparr>) st))
                     in (Inr (Some (m', recipientsFor cid st1)), st1)))))"

definition unread_by :: "string \<Rightarrow> string \<Rightarrow> gmember \<Rightarrow> gmessage \<Rightarrow> bool" where
  "unread_by cid u me m =
     (m_conv m = cid \<and> m_sender m \<noteq> u \<and> gm_joined me \<le> m_created m \<and> m_deleted m = None \<and> u \<notin> set (m_read_by m))"

definition read_by_row :: "string \<Rightarrow> gmessage \<Rightarrow> gmessage" where
  "read_by_row u m = m\<lparr>m_read_by := m_read_by m @ [u], m_delivered := set_add u (m_delivered m)\<rparr>"

definition mark_group_read :: "string \<Rightarrow> string \<Rightarrow> gmember \<Rightarrow> int \<Rightarrow> string \<times> string \<Rightarrow> nat \<times> group_store \<Rightarrow> nat \<times> group_store" where
  "mark_group_read cid u me t k = (\<lambda>(n, st).
     case map_of (gmessages st) k of
       None \<Rightarrow> (n, st)
     | Some m \<Rightarrow>
         if unread_by cid u me m
         then (Suc n, recordMessageChange (read_by_row u m) Edited_Change t (set_gmessage k (read_by_row u) st))
         else (n, st))"

definition markGroupRead :: "genv \<Rightarrow> string \<Rightarrow> string \<Rightarrow> group_store \<Rightarrow> nat outcome" where
  "markGroupRead env cid u st =
     (case requireActiveMember cid u st of
        Inl e \<Rightarrow> (Inl e, st)
      | Inr me \<Rightarrow>
          (let t = group_time env cid st;
               (n, st1) = fold (mark_group_read cid u me t) (map fst (gmessages st)) (0, st)
           in (Inr n, if n = 0 then st1 else set_group cid (\<lambda>g. g\<lparr>gr_updated := t\<rparr>) st1)))"

definition markGroupDelivered :: "string \<Rightarrow> string \<Rightarrow> string \<Rightarrow> group_store \<Rightarrow> gmessage option outcome" where
  "markGroupDelivered cid mid u st =
     (case requireActiveMember cid u st of
        Inl e \<Rightarrow> (Inl e, st)
      | Inr me \<Rightarrow> (case visible_message cid mid me st of
          None \<Rightarrow> (Inr None, st)
        | Some m \<Rightarrow>
            (let add = (\<lambda>m. m\<lparr>m_delivered := set_add u (m_delivered m)\<rparr>)
             in (Inr (Some (add m)), set_gmessage (cid, mid) add st))))"

section \<open>Reading\<close>

text \<open>\<open>Math.floor(limit) || 1\<close>, \<open>None\<close> for \<open>NaN\<close>.\<close>

definition clamp_group_limit :: "int option \<Rightarrow> int" where
  "clamp_group_limit l = min (max (case l of Some n \<Rightarrow> n | None \<Rightarrow> 1) 1) 101"

definition timeline :: "string \<Rightarrow> string \<Rightarrow> group_store \<Rightarrow> gmessage list" where
  "timeline cid u st =
     List.map_filter (\<lambda>c. case map_of (gparts st) (gc_id c, u) of
         Some p \<Rightarrow> if gc_conv c = cid then Some (groupCallTimelineMessage c p) else None
       | None \<Rightarrow> None) (map snd (gcalls st))"

definition listGroupMessages ::
  "string \<Rightarrow> string \<Rightarrow> int option \<Rightarrow> (int \<times> string option) option \<Rightarrow> group_store \<Rightarrow> store_error + gmessage list" where
  "listGroupMessages cid u limit cur st =
     (case requireActiveMember cid u st of
        Inl e \<Rightarrow> Inl e
      | Inr me \<Rightarrow> Inr (page (\<lambda>m. m_conv m = cid \<and> gm_joined me \<le> m_created m \<and> before_cursor cur m)
          (clamp_group_limit limit) (map snd (gmessages st) @ timeline cid u st)))"

definition group_readable :: "string \<Rightarrow> gmessage \<Rightarrow> group_store \<Rightarrow> bool" where
  "group_readable u m st =
     ((case member_of (m_conv m) u st of Some me \<Rightarrow> gm_joined me \<le> m_created m | None \<Rightarrow> False) \<and>
      (case map_of (groups st) (m_conv m) of Some g \<Rightarrow> gr_deleted g = None | None \<Rightarrow> True))"

definition searchGroupMessages ::
  "string option \<Rightarrow> string \<Rightarrow> string \<Rightarrow> int option \<Rightarrow> (int \<times> string option) option \<Rightarrow> int option \<Rightarrow> group_store \<Rightarrow>
   store_error + gmessage list" where
  "searchGroupMessages conv u q limit cur after st =
     (let found = page (\<lambda>m. group_readable u m st \<and> (\<not> str_truthy conv \<or> Some (m_conv m) = conv) \<and> m_deleted m = None \<and>
                (case after of Some t \<Rightarrow> t \<le> m_created m | None \<Rightarrow> True) \<and> bodyMatches (m_body m) q \<and> before_cursor cur m)
              (clampExportReadLimit limit) (map snd (gmessages st))
      in if str_truthy conv
         then (case requireActiveMember (the conv) u st of Inl e \<Rightarrow> Inl e | Inr _ \<Rightarrow> Inr found)
         else Inr found)"

definition exportMessages ::
  "string \<Rightarrow> string \<Rightarrow> int option \<Rightarrow> (int \<times> string option) option \<Rightarrow> group_store \<Rightarrow> gmessage list" where
  "exportMessages u cid limit cur st =
     page (\<lambda>m. m_sender m = u \<and> m_conv m = cid \<and> before_cursor cur m) (clamp_group_limit limit) (map snd (gmessages st))"

definition compareMessageChanges :: "gchange \<times> gmessage \<Rightarrow> gchange \<times> gmessage \<Rightarrow> int" where
  "compareMessageChanges a b =
     (if gh_at (fst a) < gh_at (fst b) then - 1 else if gh_at (fst b) < gh_at (fst a) then 1
      else if gh_id (fst a) < gh_id (fst b) then - 1 else if gh_id (fst b) < gh_id (fst a) then 1 else 0)"

definition served_change :: "string \<Rightarrow> int \<Rightarrow> (int \<times> nat) option \<Rightarrow> int option \<Rightarrow> group_store \<Rightarrow> gchange \<Rightarrow>
  (gchange \<times> gmessage) option" where
  "served_change u since cur after st c =
     (case map_of (gmessages st) (gh_key c) of
        None \<Rightarrow> None
      | Some m \<Rightarrow>
          if group_readable u m st \<and> (case after of Some t \<Rightarrow> t \<le> m_created m | None \<Rightarrow> True) \<and> since < gh_at c \<and>
             (case cur of None \<Rightarrow> True | Some (t, i) \<Rightarrow> t < gh_at c \<or> (gh_at c = t \<and> i < gh_id c))
          then Some (c, m) else None)"

definition listGroupChanges ::
  "string \<Rightarrow> int \<Rightarrow> (int \<times> nat) option \<Rightarrow> int option \<Rightarrow> int option \<Rightarrow> group_store \<Rightarrow> (gchange \<times> gmessage) list" where
  "listGroupChanges u since cur after limit st =
     take (nat (clampExportReadLimit limit))
       (sort_cmp compareMessageChanges (List.map_filter (served_change u since cur after st) (gchanges st)))"

end
