(* ===== verification/GroupCalls.thy ===== *)
theory GroupCalls
  imports GroupMessages
begin

text \<open>
  Group calls: the call operations of \<open>conversationStore/memoryStore.ts\<close>, and the erasure of an account's
  calls, reactions and messages. Participants are keyed by call and user.
\<close>

section \<open>Participants\<close>

datatype call_action = Accept | Decline | Leave

definition accepted_in :: "string \<Rightarrow> gparticipant \<Rightarrow> bool" where
  "accepted_in k p = (gp_call p = k \<and> gp_status p = GP_Accepted)"

definition assertGroupCallCapacity :: "string \<Rightarrow> gparticipant list \<Rightarrow> store_error option" where
  "assertGroupCallCapacity k ps =
     (if MAX_GROUP_CALL_PARTICIPANTS \<le> length (filter (accepted_in k) ps) then Some Group_Call_Full else None)"

definition accepted_part :: "int \<Rightarrow> gparticipant \<Rightarrow> gparticipant" where
  "accepted_part t p =
     p\<lparr>gp_status := GP_Accepted, gp_accepted := Some (case gp_accepted p of Some a \<Rightarrow> max t (a + 1) | None \<Rightarrow> t),
       gp_left := None, gp_updated := t\<rparr>"

text \<open>\<open>None\<close>: the action changes nothing. The new participant otherwise, or the refusal.\<close>

definition transitionGroupCallParticipant ::
  "string \<Rightarrow> gparticipant \<Rightarrow> call_action \<Rightarrow> int \<Rightarrow> gparticipant list \<Rightarrow> store_error + gparticipant option" where
  "transitionGroupCallParticipant k p act t ps =
     (case act of
        Accept \<Rightarrow>
          if gp_status p \<noteq> GP_Accepted
          then (case assertGroupCallCapacity k ps of Some e \<Rightarrow> Inl e | None \<Rightarrow> Inr (Some (accepted_part t p)))
          else Inr None
      | Decline \<Rightarrow> Inr (if gp_status p = GP_Ringing then Some (gone GP_Declined t p) else None)
      | Leave \<Rightarrow> Inr (if part_live p then Some (gone GP_Left t p) else None))"

section \<open>Starting a call\<close>

record start_args =
  sa_conv :: string
  sa_initiator :: string
  sa_video :: bool
  sa_ring_ms :: int
  sa_excluded :: "string list"
  sa_reach :: "string \<Rightarrow> bool"

definition new_gcall :: "genv \<Rightarrow> start_args \<Rightarrow> string \<Rightarrow> int \<Rightarrow> gcall" where
  "new_gcall env a k t =
     \<lparr>gc_id = k, gc_conv = sa_conv a, gc_initiator = sa_initiator a, gc_video = sa_video a, gc_status = GC_Ringing,
      gc_version = 1, gc_ring_timeout = Some (g_now env + sa_ring_ms a), gc_created = t, gc_updated = t, gc_ended = None\<rparr>"

definition new_gpart :: "start_args \<Rightarrow> string \<Rightarrow> int \<Rightarrow> string \<Rightarrow> gparticipant" where
  "new_gpart a k t u =
     \<lparr>gp_call = k, gp_user = u, gp_status = (if u = sa_initiator a then GP_Accepted else GP_Ringing), gp_invited = t,
      gp_accepted = (if u = sa_initiator a then Some t else None), gp_left = None, gp_updated = t\<rparr>"

definition place_gcall :: "genv \<Rightarrow> start_args \<Rightarrow> group \<Rightarrow> string list \<Rightarrow> group_store \<Rightarrow>
  (gcall \<times> gparticipant list) option \<times> group_store" where
  "place_gcall env a g us st =
     (let t = activityTime env g;
          k = fresh_uuid env st;
          st1 = set_group (sa_conv a) (\<lambda>g. g\<lparr>gr_updated := t\<rparr>) (st\<lparr>uuids := Suc (uuids st)\<rparr>);
          st2 = st1\<lparr>gcalls := AList.update k (new_gcall env a k t) (gcalls st1),
                    gparts := fold (\<lambda>u. AList.update (k, u) (new_gpart a k t u)) (sa_initiator a # us) (gparts st1)\<rparr>
      in (callChange k st2, st2))"

text \<open>
  The visibility checks are awaited, so the store may change meanwhile. Each element of the list is what
  the other requests do to the store during one round of the loop; when the list is exhausted nothing
  interferes any more. A group that was collected during the await had been marked deleted by the
  departure of its last owner.
\<close>

fun start_rounds :: "genv \<Rightarrow> start_args \<Rightarrow> (group_store \<Rightarrow> group_store) list \<Rightarrow> group_store \<Rightarrow>
  (gcall \<times> gparticipant list) option outcome" where
  "start_rounds env a fs st =
     (case requireActiveMember (sa_conv a) (sa_initiator a) st of
        Inl e \<Rightarrow> (Inl e, st)
      | Inr _ \<Rightarrow> (case assertGroupCallMembership (listMembers (sa_conv a) st) (sa_excluded a) of
          Some e \<Rightarrow> (Inl e, st)
        | None \<Rightarrow>
            (let us = filter (\<lambda>u. u \<noteq> sa_initiator a) (map gm_user (listMembers (sa_conv a) st));
                 reachable = (\<forall>u \<in> set us. g_can_invite env (sa_initiator a) u \<and> sa_reach a u);
                 version = map_option gr_version (map_of (groups st) (sa_conv a));
                 st1 = (case fs of [] \<Rightarrow> st | f # _ \<Rightarrow> f st)
             in case live_group (sa_conv a) st1 of
                  None \<Rightarrow> (Inr None, st1)
                | Some g \<Rightarrow>
                    if Some (gr_version g) \<noteq> version
                    then (case fs of [] \<Rightarrow> (Inr None, st1) | _ # fs' \<Rightarrow> start_rounds env a fs' st1)
                    else if \<not> reachable then (Inl Forbidden, st1)
                    else if us = [] then (Inr None, st1)
                    else (let (ch, st2) = place_gcall env a g us st1 in (Inr ch, st2)))))"

definition startCall :: "genv \<Rightarrow> start_args \<Rightarrow> (group_store \<Rightarrow> group_store) list \<Rightarrow> group_store \<Rightarrow>
  (gcall \<times> gparticipant list) option outcome" where
  "startCall env a fs st =
     (case live_group (sa_conv a) st of None \<Rightarrow> (Inr None, st) | Some _ \<Rightarrow> start_rounds env a fs st)"

section \<open>Expiry and transitions\<close>

definition ringing_in :: "string \<Rightarrow> gparticipant \<Rightarrow> bool" where
  "ringing_in k p = (gp_call p = k \<and> gp_status p = GP_Ringing)"

definition ring_overdue :: "int \<Rightarrow> gcall \<Rightarrow> group_store \<Rightarrow> bool" where
  "ring_overdue t c st =
     (gc_status c \<noteq> GC_Ended \<and> (case gc_ring_timeout c of Some d \<Rightarrow> d \<le> t | None \<Rightarrow> False) \<and>
      (\<exists>p \<in> set (map snd (gparts st)). ringing_in (gc_id c) p))"

definition change_parts :: "(gparticipant \<Rightarrow> bool) \<Rightarrow> (gparticipant \<Rightarrow> gparticipant) \<Rightarrow> group_store \<Rightarrow> group_store" where
  "change_parts P f st = st\<lparr>gparts := map (\<lambda>(k, p). (k, if P p then f p else p)) (gparts st)\<rparr>"

definition expireCall :: "string \<Rightarrow> int \<Rightarrow> group_store \<Rightarrow> (gcall \<times> gparticipant list) option \<times> group_store" where
  "expireCall k t st =
     (case map_of (gcalls st) k of
        None \<Rightarrow> (None, st)
      | Some c \<Rightarrow>
          if \<not> ring_overdue t c st then (None, st)
          else
            (let at = max t (gc_updated c + 1);
                 st1 = change_parts (ringing_in k) (gone GP_Declined at) st;
                 st2 = (if gc_status c = GC_Ringing then change_parts (accepted_in k) (gone GP_Left at) st1 else st1);
                 over = (gc_status c = GC_Ringing \<or> \<not> (\<exists>p \<in> set (map snd (gparts st2)). accepted_in k p));
                 st3 = set_gcall k (\<lambda>c. bump_call at (end_if_empty (\<not> over) at c)) st2
             in (callChange k st3, st3)))"

definition listExpiredCallIds :: "int \<Rightarrow> group_store \<Rightarrow> string list" where
  "listExpiredCallIds t st = map gc_id (filter (\<lambda>c. ring_overdue t c st) (map snd (gcalls st)))"

text \<open>The answer of \<open>transitionCall\<close>: the call and whether the ring had expired.\<close>

definition transitionGroupCall :: "genv \<Rightarrow> string \<Rightarrow> string \<Rightarrow> call_action \<Rightarrow> group_store \<Rightarrow>
  ((gcall \<times> gparticipant list) \<times> bool) option outcome" where
  "transitionGroupCall env k u act st =
     (case map_of (gcalls st) k of
        None \<Rightarrow> (Inr None, st)
      | Some c \<Rightarrow>
          if gc_status c = GC_Ended then (Inr None, st)
          else (case requireActiveMember (gc_conv c) u st of
            Inl e \<Rightarrow> (Inl e, st)
          | Inr _ \<Rightarrow>
              (let t = max (g_now env) (gc_updated c + 1)
               in case map_of (gparts st) (k, u) of
                    None \<Rightarrow> (Inr None, st)
                  | Some p \<Rightarrow>
                      if gp_status p = GP_Ringing \<and> (case gc_ring_timeout c of Some d \<Rightarrow> d \<le> g_now env | None \<Rightarrow> False)
                      then (case expireCall k (g_now env) st of
                              (Some ch, st1) \<Rightarrow> (Inr (Some (ch, True)), st1)
                            | (None, st1) \<Rightarrow> (Inr None, st1))
                      else (case transitionGroupCallParticipant k p act t (map snd (gparts st)) of
                              Inl e \<Rightarrow> (Inl e, st)
                            | Inr None \<Rightarrow> (Inr (map_option (\<lambda>ch. (ch, False)) (callChange k st)), st)
                            | Inr (Some p') \<Rightarrow>
                                (let st1 = set_gpart (k, u) (\<lambda>_. p') st;
                                     st2 = set_gcall k (\<lambda>c. end_if_empty (call_occupied k st1) t
                                             ((bump_call t c)\<lparr>gc_status :=
                                                (if act = Accept then GC_Active else gc_status c)\<rparr>)) st1
                                 in (Inr (map_option (\<lambda>ch. (ch, False)) (callChange k st2)), st2))))))"

section \<open>History\<close>

definition was_member :: "string \<Rightarrow> gcall \<Rightarrow> gmember \<Rightarrow> bool" where
  "was_member u c m =
     (gm_conv m = gc_conv c \<and> gm_user m = u \<and> gm_joined m \<le> gc_created c \<and>
      (case gm_left m of Some t \<Rightarrow> gc_created c \<le> t | None \<Rightarrow> True) \<and>
      (case gm_removed m of Some t \<Rightarrow> gc_created c \<le> t | None \<Rightarrow> True))"

definition history_entry :: "string \<Rightarrow> history_status option \<Rightarrow> group_store \<Rightarrow> gcall \<Rightarrow> call_entry option" where
  "history_entry u f st c =
     (case (map_of (groups st) (gc_conv c), find (was_member u c) (map snd (gmembers st)), map_of (gparts st) (gc_id c, u)) of
        (Some g, Some _, Some p) \<Rightarrow>
          (let e = groupCallHistoryEntry c p (gr_name g)
           in case f of None \<Rightarrow> Some e | Some s \<Rightarrow> if ce_status e = s then Some e else None)
      | _ \<Rightarrow> None)"

definition by_history :: "call_entry \<Rightarrow> call_entry \<Rightarrow> int" where
  "by_history a b =
     (let x = ce_call a; y = ce_call b
      in if gc_updated x \<noteq> gc_updated y then gc_updated y - gc_updated x
         else if gc_created x \<noteq> gc_created y then gc_created y - gc_created x
         else if gc_id y < gc_id x then - 1 else if gc_id x < gc_id y then 1 else 0)"

definition listCallHistory :: "string \<Rightarrow> history_status option \<Rightarrow> nat \<Rightarrow> nat \<Rightarrow> group_store \<Rightarrow> call_entry list \<times> nat" where
  "listCallHistory u f limit offset st =
     (let h = sort_cmp by_history (List.map_filter (history_entry u f st) (map snd (gcalls st)))
      in (take limit (drop offset h), length h))"

section \<open>Account erasure\<close>

definition leave_if_live :: "int \<Rightarrow> gparticipant \<Rightarrow> gparticipant" where
  "leave_if_live t p = (if part_live p then gone GP_Left t p else p)"

text \<open>A renamed participant moves to the end of the \<open>Map\<close>, under its new key.\<close>

definition rename_part :: "string \<Rightarrow> int \<Rightarrow> gparticipant \<Rightarrow> group_store \<Rightarrow> group_store" where
  "rename_part pseud t p st =
     st\<lparr>gparts := AList.update (gp_call p, pseud) ((leave_if_live t p)\<lparr>gp_user := pseud\<rparr>)
          (AList.delete (gp_call p, gp_user p) (gparts st))\<rparr>"

definition settle_call :: "int \<Rightarrow> string \<Rightarrow> group_store \<Rightarrow> group_store" where
  "settle_call t k st = set_gcall k (\<lambda>c. bump_call t (end_if_empty (call_occupied k st) t c)) st"

definition anonymizeCalls :: "string \<Rightarrow> string \<Rightarrow> int \<Rightarrow> group_store \<Rightarrow> group_store" where
  "anonymizeCalls u pseud t st =
     (let initiated = map gc_id (filter (\<lambda>c. gc_initiator c = u) (map snd (gcalls st)));
          st1 = st\<lparr>gcalls := map (\<lambda>(k, c). (k, c\<lparr>gc_initiator := rename_user u pseud (gc_initiator c)\<rparr>)) (gcalls st)\<rparr>;
          renamed = filter (\<lambda>p. gp_user p = u) (map snd (gparts st1));
          st2 = fold (rename_part pseud t) renamed st1
      in fold (settle_call t) (uniq (initiated @ map gp_call renamed)) st2)"

definition eraseUserData :: "genv \<Rightarrow> string \<Rightarrow> string \<Rightarrow> group_store \<Rightarrow> string list \<times> group_store" where
  "eraseUserData env u pseud st =
     (let (cids, st1) = anonymizeMemberships env u pseud st
      in (cids, anonymizeCalls u pseud (g_now env) (eraseReactions u st1)))"

definition clamp_batch :: "int option \<Rightarrow> int" where
  "clamp_batch l = min (max (case l of Some n \<Rightarrow> n | None \<Rightarrow> 1) 1) 500"

definition tombstone_row :: "int \<Rightarrow> string \<Rightarrow> string \<times> string \<Rightarrow> string list \<times> nat \<times> group_store \<Rightarrow>
  string list \<times> nat \<times> group_store" where
  "tombstone_row t pseud k = (\<lambda>(urls, n, st).
     case map_of (gmessages st) k of
       None \<Rightarrow> (urls, n, st)
     | Some m \<Rightarrow>
         (let rename = set_gmessage k (\<lambda>m. m\<lparr>m_sender := pseud\<rparr>)
          in if m_deleted m \<noteq> None then (urls, n, rename st)
             else ((case m_attachment m of Some url \<Rightarrow> set_add (trim url) urls | None \<Rightarrow> urls), Suc n,
                   rename (recordMessageChange (applyTombstone t m) Deleted_Change t
                     (set_gmessage k (applyTombstone t) st)))))"

record erasure =
  er_urls :: "string list"
  er_convs :: "string list"
  er_tombstoned :: nat
  er_processed :: nat

definition eraseUserMessages :: "genv \<Rightarrow> string \<Rightarrow> string \<Rightarrow> int option \<Rightarrow> group_store \<Rightarrow> erasure \<times> group_store" where
  "eraseUserMessages env u pseud limit st =
     (let rows = take (nat (clamp_batch limit)) (filter (\<lambda>(_, m). m_sender m = u) (gmessages st));
          cids = uniq (map (m_conv \<circ> snd) rows);
          (urls, n, st1) = fold (tombstone_row (g_now env) pseud) (map fst rows) ([], 0, st);
          surviving = map (\<lambda>m. trim (the (m_attachment m)))
            (filter (\<lambda>m. m_deleted m = None \<and> m_attachment m \<noteq> None) (map snd (gmessages st1)));
          gone_urls = filter (\<lambda>x. x \<notin> set surviving) urls;
          st2 = fold collectEmptyGroup cids (st1\<lparr>cleanup := fold set_add gone_urls (cleanup st1)\<rparr>)
      in (\<lparr>er_urls = gone_urls, er_convs = cids, er_tombstoned = n, er_processed = length rows\<rparr>, st2))"

definition listAttachmentCleanup :: "int option \<Rightarrow> string option \<Rightarrow> group_store \<Rightarrow> string list" where
  "listAttachmentCleanup limit after st =
     take (nat (clamp_batch limit))
       (filter (\<lambda>url. case after of Some a \<Rightarrow> a < url | None \<Rightarrow> True) (sort (cleanup st)))"

definition acknowledgeAttachmentCleanup :: "string \<Rightarrow> group_store \<Rightarrow> group_store" where
  "acknowledgeAttachmentCleanup url st = st\<lparr>cleanup := removeAll url (cleanup st)\<rparr>"

end
