(* ===== verification/GroupInvariants.thy ===== *)
theory GroupInvariants
  imports GroupCalls
begin

text \<open>
  The membership invariant of the group store and its preservation: every live group has one owner among
  at most sixteen distinct active members; a deleted or collected group has none.
\<close>

section \<open>The invariant\<close>

definition active_of :: "string \<Rightarrow> group_store \<Rightarrow> gmember list" where
  "active_of cid st = filter (\<lambda>m. gm_conv m = cid \<and> activeGroupMember m) (map snd (gmembers st))"

definition good_members :: "gmember list \<Rightarrow> bool" where
  "good_members ms =
     (distinct (map gm_user ms) \<and> length ms \<le> MAX_GROUP_MEMBERS \<and> length (filter (\<lambda>m. gm_role m = Owner) ms) = 1)"

definition good_group :: "string \<Rightarrow> group_store \<Rightarrow> bool" where
  "good_group cid st = (if live_group cid st = None then active_of cid st = [] else good_members (active_of cid st))"

definition used_ids :: "(nat \<Rightarrow> string) \<Rightarrow> group_store \<Rightarrow> string set" where
  "used_ids uu st = uu ` {..<uuids st}"

definition wf_ids :: "(nat \<Rightarrow> string) \<Rightarrow> group_store \<Rightarrow> bool" where
  "wf_ids uu st =
     (distinct (map fst (groups st)) \<and> distinct (map fst (gmembers st)) \<and>
      (\<forall>k. map_of (groups st) k \<noteq> None \<longrightarrow> k \<in> used_ids uu st) \<and>
      (\<forall>k m. map_of (gmembers st) k = Some m \<longrightarrow> gm_id m = k \<and> k \<in> used_ids uu st \<and> gm_conv m \<in> used_ids uu st))"

definition wf_groups :: "(nat \<Rightarrow> string) \<Rightarrow> group_store \<Rightarrow> bool" where
  "wf_groups uu st = (wf_ids uu st \<and> (\<forall>cid. good_group cid st))"

lemma listMembers_active: "listMembers cid st = sort_cmp by_joined (active_of cid st)"
  by (simp add: listMembers_def active_of_def)

lemma good_listMembers: "good_members (listMembers cid st) = good_members (active_of cid st)"
  by (simp add: good_members_def listMembers_active)

lemma active_iff: "m \<in> set (active_of cid st) \<longleftrightarrow> m \<in> set (map snd (gmembers st)) \<and> gm_conv m = cid \<and> activeGroupMember m"
  by (auto simp: active_of_def)

lemma member_stored:
  assumes "wf_ids uu st" and "m \<in> set (map snd (gmembers st))"
  shows "map_of (gmembers st) (gm_id m) = Some m"
proof -
  obtain k where "map_of (gmembers st) k = Some m"
    using map_of_valuesD [OF assms(2)] assms(1) by (auto simp: wf_ids_def)
  with assms(1) show ?thesis by (auto simp: wf_ids_def)
qed

lemma wf_groupsD:
  assumes "wf_groups uu st"
  shows "live_group cid st \<noteq> None \<Longrightarrow> good_members (active_of cid st)"
    and "live_group cid st = None \<Longrightarrow> active_of cid st = []" and "wf_ids uu st"
proof -
  have "good_group cid st" and w: "wf_ids uu st" using assms by (simp_all add: wf_groups_def)
  then show "live_group cid st \<noteq> None \<Longrightarrow> good_members (active_of cid st)"
    and "live_group cid st = None \<Longrightarrow> active_of cid st = []" by (simp_all add: good_group_def)
  show "wf_ids uu st" by (rule w)
qed

lemma wf_groupsI:
  assumes "wf_ids uu st" and "\<And>cid. live_group cid st \<noteq> None \<Longrightarrow> good_members (active_of cid st)"
    and "\<And>cid. live_group cid st = None \<Longrightarrow> active_of cid st = []"
  shows "wf_groups uu st"
  using assms by (simp add: wf_groups_def good_group_def)

text \<open>What a guard found is a stored, active member.\<close>

lemma required_member:
  assumes "requireActiveMember cid u st = Inr m"
  shows "live_group cid st \<noteq> None" and "m \<in> set (active_of cid st)" and "gm_user m = u"
proof -
  from assms obtain g where g: "live_group cid st = Some g" and f: "member_of cid u st = Some m"
    by (auto simp: requireActiveMember_def assertActiveGroupMember_def split: option.splits if_splits)
  show "live_group cid st \<noteq> None" using g by simp
  show "m \<in> set (active_of cid st)" "gm_user m = u"
    using f find_SomeD [of "\<lambda>m. gm_user m = u" "listMembers cid st" m] by (auto simp: member_of_def listMembers_active)
qed

text \<open>The guard succeeds for exactly the active members.\<close>

lemma required_of_active:
  assumes "wf_groups uu st" and "m \<in> set (active_of cid st)"
  shows "requireActiveMember cid (gm_user m) st = Inr m"
proof -
  have live: "live_group cid st \<noteq> None"
    using wf_groupsD(2) [OF assms(1), of cid] assms(2) by (metis empty_iff list.set(1))
  have d: "distinct (map gm_user (listMembers cid st))"
    using wf_groupsD(1) [OF assms(1) live] by (simp add: good_members_def listMembers_active)
  have i: "m \<in> set (listMembers cid st)" using assms(2) by (simp add: listMembers_active)
  have "find (\<lambda>x. gm_user x = gm_user m) (listMembers cid st) = Some m"
  proof (cases "find (\<lambda>x. gm_user x = gm_user m) (listMembers cid st)")
    case None
    from find_NoneD [OF this i] show ?thesis by simp
  next
    case (Some x)
    then have "x \<in> set (listMembers cid st)" "gm_user x = gm_user m" by (auto dest: find_SomeD)
    with d i Some show ?thesis by (auto simp: distinct_map dest: inj_onD)
  qed
  moreover have "activeGroupMember m" using assms(2) by (simp add: active_iff)
  ultimately show ?thesis using live
    by (auto simp: requireActiveMember_def member_of_def assertActiveGroupMember_def)
qed

section \<open>Steps that change members\<close>

text \<open>Everything the invariant reads.\<close>

lemma wf_groups_cong:
  assumes "groups st' = groups st" "gmembers st' = gmembers st" "uuids st \<le> uuids st'"
  shows "wf_groups uu st \<Longrightarrow> wf_groups uu st'"
proof -
  assume wf: "wf_groups uu st"
  have "used_ids uu st \<subseteq> used_ids uu st'" using assms(3) by (auto simp: used_ids_def)
  then have "wf_ids uu st'" using wf assms(1,2) unfolding wf_groups_def wf_ids_def by (simp, blast)
  moreover have "good_group cid st' = good_group cid st" for cid
    using assms(1,2) by (simp add: good_group_def live_group_def active_of_def)
  ultimately show ?thesis using wf by (simp add: wf_groups_def)
qed

lemma record_event_simps [simp]:
  "groups (record_event env cid ev a u r st) = groups st" "gmembers (record_event env cid ev a u r st) = gmembers st"
  "invitations (record_event env cid ev a u r st) = invitations st" "gcalls (record_event env cid ev a u r st) = gcalls st"
  "gparts (record_event env cid ev a u r st) = gparts st" "gmessages (record_event env cid ev a u r st) = gmessages st"
  "uuids st \<le> uuids (record_event env cid ev a u r st)"
  by (simp_all add: record_event_def split: option.split)

lemma wf_record_event [simp]: "wf_groups uu st \<Longrightarrow> wf_groups uu (record_event env cid ev a u r st)"
  by (rule wf_groups_cong) simp_all

lemma set_group_simps [simp]:
  "gmembers (set_group cid f st) = gmembers st" "invitations (set_group cid f st) = invitations st"
  "gcalls (set_group cid f st) = gcalls st" "gparts (set_group cid f st) = gparts st"
  "uuids (set_group cid f st) = uuids st" "groups (set_group cid f st) = AList.map_entry cid f (groups st)"
  "gmessages (set_group cid f st) = gmessages st"
  by (simp_all add: set_group_def)

lemma set_member_simps [simp]:
  "groups (set_member k f st) = groups st" "invitations (set_member k f st) = invitations st"
  "gcalls (set_member k f st) = gcalls st" "gparts (set_member k f st) = gparts st" "uuids (set_member k f st) = uuids st"
  "gmembers (set_member k f st) = AList.map_entry k f (gmembers st)" "gmessages (set_member k f st) = gmessages st"
  by (simp_all add: set_member_def)

lemma live_set_group:
  "live_group k (set_group cid f st) =
     (if k = cid then (case map_of (groups st) cid of Some g \<Rightarrow> if gr_deleted (f g) = None then Some (f g) else None | None \<Rightarrow> None)
      else live_group k st)"
  by (simp add: live_group_def split: option.split)

lemma touched [simp]: "gr_deleted (advance t g) = gr_deleted g" "gr_deleted (touch_group env g) = gr_deleted g"
  by (simp_all add: advance_def touch_group_def)

lemma wf_ids_set_group: "wf_ids uu st \<Longrightarrow> wf_ids uu (set_group cid f st)"
  by (auto simp: wf_ids_def used_ids_def split: if_splits)

text \<open>A change of the group's record that does not delete it.\<close>

lemma wf_set_group:
  assumes "wf_groups uu st" and "\<And>g. gr_deleted (f g) = gr_deleted g"
  shows "wf_groups uu (set_group cid f st)"
proof -
  have "(live_group k (set_group cid f st) = None) = (live_group k st = None)" for k
    by (auto simp: live_set_group live_group_def assms(2) split: option.splits)
  then have "good_group k (set_group cid f st) = good_group k st" for k
    by (simp add: good_group_def active_of_def)
  moreover have "wf_ids uu (set_group cid f st)"
    using assms(1) by (intro wf_ids_set_group) (simp add: wf_groups_def)
  ultimately show ?thesis using assms(1) by (simp add: wf_groups_def)
qed

text \<open>One member changes, seen in the list of active members.\<close>

lemma map_entry_map:
  "distinct (map fst xs) \<Longrightarrow> AList.map_entry k f xs = map (\<lambda>(k', v). (k', if k' = k then f v else v)) xs"
proof (induction xs)
  case Nil
  then show ?case by simp
next
  case (Cons p xs)
  then show ?case by (cases p) (force intro!: map_idI [symmetric])
qed

lemma set_member_values:
  assumes "wf_ids uu st"
  shows "map snd (gmembers (set_member k f st)) = map (\<lambda>m. if gm_id m = k then f m else m) (map snd (gmembers st))"
proof -
  have d: "distinct (map fst (gmembers st))" using assms by (simp add: wf_ids_def)
  have "gm_id m = k'" if "(k', m) \<in> set (gmembers st)" for k' m
    using assms map_of_is_SomeI [OF d that] by (auto simp: wf_ids_def)
  then show ?thesis by (auto simp: map_entry_map [OF d])
qed

lemma filter_map_same: "(\<And>x. P (h x) = P x) \<Longrightarrow> filter P (map h xs) = map h (filter P xs)"
  by (induction xs) auto

lemma filter_map_gone:
  "(\<And>x. \<not> P (f x)) \<Longrightarrow> filter P (map (\<lambda>x. if Q x then f x else x) xs) = filter (\<lambda>x. \<not> Q x) (filter P xs)"
  by (induction xs) auto

lemma active_map:
  assumes "wf_ids uu st" and "\<And>m. gm_conv (f m) = gm_conv m" and "\<And>m. activeGroupMember (f m) = activeGroupMember m"
  shows "active_of cid (set_member k f st) = map (\<lambda>m. if gm_id m = k then f m else m) (active_of cid st)"
  unfolding active_of_def set_member_values [OF assms(1)]
  by (rule filter_map_same) (simp add: assms(2,3))

lemma active_filter:
  assumes "wf_ids uu st" and "\<And>m. \<not> activeGroupMember (f m)"
  shows "active_of cid (set_member k f st) = filter (\<lambda>m. gm_id m \<noteq> k) (active_of cid st)"
  unfolding active_of_def set_member_values [OF assms(1)]
  by (rule filter_map_gone) (simp add: assms(2))

lemma wf_ids_set_member:
  assumes "wf_ids uu st" and "\<And>m. gm_id (f m) = gm_id m" "\<And>m. gm_conv (f m) = gm_conv m"
  shows "wf_ids uu (set_member k f st)"
  using assms by (auto simp: wf_ids_def used_ids_def split: if_splits)

lemma live_set_member [simp]: "live_group cid (set_member k f st) = live_group cid st"
  by (simp add: live_group_def)

section \<open>Good member lists\<close>

lemma active_stored:
  assumes "wf_ids uu st" and "x \<in> set (active_of k st)"
  shows "map_of (gmembers st) (gm_id x) = Some x"
  by (rule member_stored [OF assms(1)]) (use assms(2) in \<open>simp only: active_iff\<close>)

lemma stored_unique: "map_of ms k = Some x \<Longrightarrow> map_of ms l = Some y \<Longrightarrow> k = l \<Longrightarrow> x = y"
  by simp

lemma same_member:
  assumes "wf_ids uu st" and "x \<in> set (active_of k st)" and "y \<in> set (active_of l st)" and "gm_id x = gm_id y"
  shows "x = y"
  by (rule stored_unique [OF active_stored [OF assms(1,2)] active_stored [OF assms(1,3)] assms(4)])

lemma good_distinct: "good_members ms \<Longrightarrow> distinct ms"
  by (simp add: good_members_def distinct_map)

lemma good_users: "good_members ms \<Longrightarrow> distinct (map gm_user ms)"
  and good_size: "good_members ms \<Longrightarrow> length ms \<le> MAX_GROUP_MEMBERS"
  by (simp_all add: good_members_def)

lemma one_filter: "distinct ms \<Longrightarrow> x \<in> set ms \<Longrightarrow> (\<And>y. y \<in> set ms \<Longrightarrow> P y \<longleftrightarrow> y = x) \<Longrightarrow> length (filter P ms) = 1"
proof -
  assume a: "distinct ms" "x \<in> set ms" "\<And>y. y \<in> set ms \<Longrightarrow> P y \<longleftrightarrow> y = x"
  then have "{y. P y} \<inter> set ms = {x}" by blast
  with a(1) show ?thesis by (simp add: distinct_length_filter)
qed

lemma sole_owner:
  assumes "good_members ms" and "x \<in> set ms" and "y \<in> set ms" and "gm_role x = Owner" and "gm_role y = Owner"
  shows "x = y"
proof -
  have "length (filter (\<lambda>m. gm_role m = Owner) ms) = 1" using assms(1) by (simp add: good_members_def)
  then obtain z where z: "filter (\<lambda>m. gm_role m = Owner) ms = [z]" by (auto simp: length_Suc_conv)
  have "x \<in> set (filter (\<lambda>m. gm_role m = Owner) ms)" "y \<in> set (filter (\<lambda>m. gm_role m = Owner) ms)"
    using assms(2-5) by simp_all
  then show ?thesis unfolding z by simp
qed

lemma has_owner: "good_members ms \<Longrightarrow> \<exists>x \<in> set ms. gm_role x = Owner"
proof (rule ccontr)
  assume "good_members ms" and "\<not> (\<exists>x \<in> set ms. gm_role x = Owner)"
  then show False by (simp add: good_members_def filter_False)
qed

text \<open>Re-roling keeps the list good when exactly one owner results.\<close>

lemma good_map:
  assumes "distinct (map gm_user ms)" and "length ms \<le> MAX_GROUP_MEMBERS" and "\<And>m. gm_user (h m) = gm_user m"
    and "x \<in> set ms" and "\<And>y. y \<in> set ms \<Longrightarrow> gm_role (h y) = Owner \<longleftrightarrow> y = x"
  shows "good_members (map h ms)"
proof -
  have "length (filter (\<lambda>m. gm_role m = Owner) (map h ms)) = length (filter (\<lambda>m. gm_role (h m) = Owner) ms)"
    by (simp add: filter_map comp_def)
  also have "\<dots> = 1" using assms(1,4,5) by (intro one_filter [of ms x]) (simp_all add: distinct_map)
  finally show ?thesis using assms(1-3) by (simp add: good_members_def comp_def)
qed

lemmas good_remap = good_map [OF good_users good_size]

text \<open>Taking a plain member away keeps it good.\<close>

lemma good_filter:
  assumes "good_members ms" and "\<And>m. m \<in> set ms \<Longrightarrow> gm_role m = Owner \<Longrightarrow> P m"
  shows "good_members (filter P ms)"
proof -
  have "filter (\<lambda>m. gm_role m = Owner) (filter P ms) = filter (\<lambda>m. gm_role m = Owner) ms"
    using assms(2) by (induction ms) auto
  with assms(1) show ?thesis
    by (simp add: good_members_def distinct_map_filter le_trans [OF length_filter_le])
qed

section \<open>Preservation\<close>

lemma owner_only: "good_members ms \<Longrightarrow> a \<in> set ms \<Longrightarrow> gm_role a = Owner \<Longrightarrow> y \<in> set ms \<Longrightarrow> gm_role y = Owner \<longleftrightarrow> y = a"
  using sole_owner by blast

text \<open>A plain or admin member gets another such role.\<close>

lemma wf_set_role:
  assumes wf: "wf_groups uu st" and "r \<noteq> Owner" and m: "m \<in> set (active_of cid st)" "gm_role m \<noteq> Owner"
  shows "wf_groups uu (set_member (gm_id m) (\<lambda>m. m\<lparr>gm_role := r, gm_updated := t\<rparr>) st)" (is "wf_groups uu ?st")
proof (rule wf_groupsI)
  let ?h = "\<lambda>x. if gm_id x = gm_id m then x\<lparr>gm_role := r, gm_updated := t\<rparr> else x"
  note ids = wf_groupsD(3) [OF wf]
  show "wf_ids uu ?st" by (rule wf_ids_set_member [OF ids]) simp_all
  have act: "active_of k ?st = map ?h (active_of k st)" for k
    by (rule active_map [OF ids]) (simp_all add: activeGroupMember_def)
  show "good_members (active_of k ?st)" if "live_group k ?st \<noteq> None" for k
  proof -
    have g: "good_members (active_of k st)" using wf_groupsD(1) [OF wf] that by simp
    obtain a where a: "a \<in> set (active_of k st)" "gm_role a = Owner" using has_owner [OF g] by blast
    show ?thesis unfolding act
    proof (rule good_remap [OF g g _ a(1)])
      show "(gm_role (?h y) = Owner) = (y = a)" if y: "y \<in> set (active_of k st)" for y
      proof (cases "gm_id y = gm_id m")
        case True
        have "y = m" by (rule same_member [OF ids y m(1) True])
        with m(2) a(2) assms(2) show ?thesis by auto
      qed (use owner_only [OF g a y] in simp)
    qed simp
  qed
  show "active_of k ?st = []" if "live_group k ?st = None" for k
    using wf_groupsD(2) [OF wf] that by (simp add: act)
qed

text \<open>Ownership moves.\<close>

lemma wf_move_owner:
  assumes wf: "wf_groups uu st" and a: "a \<in> set (active_of cid st)" "gm_role a = Owner"
    and m: "m \<in> set (active_of cid st)" "gm_role m \<noteq> Owner"
  shows "wf_groups uu (set_member (gm_id m) (\<lambda>m. m\<lparr>gm_role := Owner, gm_updated := t\<rparr>)
    (set_member (gm_id a) (\<lambda>a. a\<lparr>gm_role := Admin, gm_updated := t\<rparr>) st))" (is "wf_groups uu (set_member _ ?f ?s1)")
proof (rule wf_groupsI)
  note ids = wf_groupsD(3) [OF wf]
  have ids1: "wf_ids uu ?s1" by (rule wf_ids_set_member [OF ids]) simp_all
  show "wf_ids uu (set_member (gm_id m) ?f ?s1)" by (rule wf_ids_set_member [OF ids1]) simp_all
  let ?h = "\<lambda>x. let y = (if gm_id x = gm_id a then x\<lparr>gm_role := Admin, gm_updated := t\<rparr> else x)
    in if gm_id y = gm_id m then y\<lparr>gm_role := Owner, gm_updated := t\<rparr> else y"
  have "active_of k (set_member (gm_id m) ?f ?s1) = map (\<lambda>y. if gm_id y = gm_id m then ?f y else y) (active_of k ?s1)" for k
    by (rule active_map [OF ids1]) (simp_all add: activeGroupMember_def)
  moreover have "active_of k ?s1 = map (\<lambda>x. if gm_id x = gm_id a then x\<lparr>gm_role := Admin, gm_updated := t\<rparr> else x) (active_of k st)" for k
    by (rule active_map [OF ids]) (simp_all add: activeGroupMember_def)
  ultimately have act: "active_of k (set_member (gm_id m) ?f ?s1) = map ?h (active_of k st)" for k
    by (simp add: comp_def Let_def)
  have am: "gm_id a \<noteq> gm_id m" using same_member [OF ids a(1) m(1)] a(2) m(2) by metis
  show "good_members (active_of k (set_member (gm_id m) ?f ?s1))"
    if "live_group k (set_member (gm_id m) ?f ?s1) \<noteq> None" for k
  proof -
    have g: "good_members (active_of k st)" using wf_groupsD(1) [OF wf] that by simp
    obtain b where b: "b \<in> set (active_of k st)" "gm_role b = Owner" using has_owner [OF g] by blast
    let ?w = "if k = cid then m else b"
    have w: "?w \<in> set (active_of k st)" using m b by simp
    show ?thesis unfolding act
    proof (rule good_remap [OF g g _ w])
      fix y
      assume y: "y \<in> set (active_of k st)"
      have ya: "gm_id y = gm_id a \<longleftrightarrow> y = a" and ym: "gm_id y = gm_id m \<longleftrightarrow> y = m"
        using same_member [OF ids y a(1)] same_member [OF ids y m(1)] by metis+
      have "k = cid" if "y = a \<or> y = m" using y a(1) m(1) that by (auto simp: active_iff)
      show "(gm_role (?h y) = Owner) = (y = ?w)"
      proof (cases "y = m \<or> y = a")
        case True
        with \<open>y = a \<or> y = m \<Longrightarrow> k = cid\<close> have "k = cid" by blast
        moreover have "a \<noteq> m" using am by blast
        ultimately show ?thesis using True am by (auto simp: Let_def)
      next
        case False
        then have "?h y = y" using ya ym by (simp add: Let_def)
        moreover have "b = a" if "k = cid" using sole_owner [OF g b(1) _ b(2) a(2)] a(1) that by simp
        ultimately show ?thesis using owner_only [OF g b y] False by auto
      qed
    qed (simp add: Let_def)
  qed
  show "active_of k (set_member (gm_id m) ?f ?s1) = []" if "live_group k (set_member (gm_id m) ?f ?s1) = None" for k
    using wf_groupsD(2) [OF wf] that by (simp add: act)
qed

text \<open>A member who is not the owner goes.\<close>

lemma wf_depart:
  assumes wf: "wf_groups uu st" and m: "\<And>k. m \<in> set (active_of k st) \<Longrightarrow> gm_role m \<noteq> Owner"
    and stored: "map_of (gmembers st) (gm_id m) = Some m"
    and f: "\<And>m. \<not> activeGroupMember (f m)" "\<And>m. gm_id (f m) = gm_id m" "\<And>m. gm_conv (f m) = gm_conv m"
  shows "wf_groups uu (set_member (gm_id m) f st)"
proof (rule wf_groupsI)
  note ids = wf_groupsD(3) [OF wf]
  show "wf_ids uu (set_member (gm_id m) f st)" by (rule wf_ids_set_member [OF ids f(2,3)])
  have act: "active_of k (set_member (gm_id m) f st) = filter (\<lambda>x. gm_id x \<noteq> gm_id m) (active_of k st)" for k
    by (rule active_filter [OF ids f(1)])
  show "good_members (active_of k (set_member (gm_id m) f st))" if "live_group k (set_member (gm_id m) f st) \<noteq> None" for k
    unfolding act
  proof (rule good_filter)
    show "good_members (active_of k st)" using wf_groupsD(1) [OF wf] that by simp
    show "gm_id x \<noteq> gm_id m" if x: "x \<in> set (active_of k st)" "gm_role x = Owner" for x
    proof
      assume "gm_id x = gm_id m"
      then have "x = m" by (rule stored_unique [OF active_stored [OF ids x(1)] stored])
      with x m show False by blast
    qed
  qed
  show "active_of k (set_member (gm_id m) f st) = []" if "live_group k (set_member (gm_id m) f st) = None" for k
    using wf_groupsD(2) [OF wf] that by (simp add: act)
qed

text \<open>A new membership is appended.\<close>

definition new_member :: "string \<Rightarrow> string \<Rightarrow> string \<Rightarrow> role \<Rightarrow> int \<Rightarrow> gmember" where
  "new_member mid cid u r t =
     \<lparr>gm_id = mid, gm_conv = cid, gm_user = u, gm_role = r, gm_joined = t, gm_left = None, gm_removed = None,
      gm_actor = None, gm_reason = None, gm_created = t, gm_updated = t\<rparr>"

lemma join_fields [simp]:
  "groups (snd (join_group env cid u r t st)) = groups st" "gcalls (snd (join_group env cid u r t st)) = gcalls st"
  "gparts (snd (join_group env cid u r t st)) = gparts st" "uuids (snd (join_group env cid u r t st)) = Suc (uuids st)"
  "fst (join_group env cid u r t st) = fresh_uuid env st"
  by (simp_all add: join_group_def Let_def)

lemma fresh_member_id:
  assumes "inj uu" and "wf_ids uu st"
  shows "uu (uuids st) \<notin> set (map fst (gmembers st))" and "uu (uuids st) \<notin> set (map fst (groups st))"
proof -
  have "uu (uuids st) \<notin> used_ids uu st" using assms(1) by (auto simp: used_ids_def inj_def)
  with assms(2) show "uu (uuids st) \<notin> set (map fst (gmembers st))" "uu (uuids st) \<notin> set (map fst (groups st))"
    using in_keys_map_of [of "uu (uuids st)" "gmembers st"] in_keys_map_of [of "uu (uuids st)" "groups st"]
    by (auto simp: wf_ids_def simp del: set_map)
qed

lemma join_members:
  assumes "inj uu" and "wf_ids uu st" and "g_uuid env = uu"
  shows "gmembers (snd (join_group env cid u r t st)) =
    gmembers st @ [(uu (uuids st), new_member (uu (uuids st)) cid u r t)]"
  using fresh_member_id(1) [OF assms(1,2)] assms(3)
  by (simp add: join_group_def Let_def fresh_uuid_def new_member_def update_fresh)

lemma join_active:
  assumes "inj uu" and "wf_ids uu st" and "g_uuid env = uu"
  shows "active_of k (snd (join_group env cid u r t st)) =
    active_of k st @ (if k = cid then [new_member (uu (uuids st)) cid u r t] else [])"
  unfolding active_of_def join_members [OF assms] by (auto simp: new_member_def activeGroupMember_def)

lemma used_ids_mono: "uuids st \<le> uuids st' \<Longrightarrow> k \<in> used_ids uu st \<Longrightarrow> k \<in> used_ids uu st'"
  by (auto simp: used_ids_def)

lemma join_ids:
  assumes "inj uu" and "wf_ids uu st" and "g_uuid env = uu" and "cid \<in> used_ids uu st"
  shows "wf_ids uu (snd (join_group env cid u r t st))"
proof -
  let ?st = "snd (join_group env cid u r t st)" and ?k = "uu (uuids st)"
  have mono: "k \<in> used_ids uu st \<Longrightarrow> k \<in> used_ids uu ?st" for k by (rule used_ids_mono) simp_all
  have new: "?k \<in> used_ids uu ?st" by (auto simp: used_ids_def)
  have l: "map_of (gmembers ?st) k = (if k = ?k then Some (new_member ?k cid u r t) else map_of (gmembers st) k)" for k
  proof -
    have "map_of (gmembers st) ?k = None" using fresh_member_id(1) [OF assms(1,2)] by (simp add: map_of_eq_None_iff)
    then show ?thesis unfolding join_members [OF assms(1-3)] by (simp add: map_add_def split: option.split)
  qed
  have "distinct (map fst (gmembers ?st))"
    using fresh_member_id(1) [OF assms(1,2)] assms(2) unfolding join_members [OF assms(1-3)] by (simp add: wf_ids_def)
  then show ?thesis
    using assms(2,4) new mono unfolding wf_ids_def l by (auto simp: new_member_def split: if_splits)
qed

lemma live_cong: "groups st' = groups st \<Longrightarrow> live_group k st' = live_group k st"
  by (simp add: live_group_def)

lemma live_used: "wf_ids uu st \<Longrightarrow> live_group cid st \<noteq> None \<Longrightarrow> cid \<in> used_ids uu st"
  by (auto simp: live_group_def wf_ids_def split: option.splits)

lemma wf_join:
  assumes inj: "inj uu" and wf: "wf_groups uu st" and uu: "g_uuid env = uu" and live: "live_group cid st \<noteq> None"
    and u: "u \<notin> set (map gm_user (active_of cid st))" and room: "length (active_of cid st) < MAX_GROUP_MEMBERS"
  shows "wf_groups uu (snd (join_group env cid u Plain t st))"
proof (rule wf_groupsI)
  note ids = wf_groupsD(3) [OF wf]
  let ?st = "snd (join_group env cid u Plain t st)"
  have l: "live_group k ?st = live_group k st" for k by (rule live_cong) simp
  show "wf_ids uu ?st" by (rule join_ids [OF inj ids uu live_used [OF ids live]])
  show "good_members (active_of k ?st)" if "live_group k ?st \<noteq> None" for k
    using wf_groupsD(1) [OF wf, of k] that u room unfolding l join_active [OF inj ids uu]
    by (auto simp: good_members_def new_member_def)
  show "active_of k ?st = []" if "live_group k ?st = None" for k
    using wf_groupsD(2) [OF wf, of k] that live unfolding l join_active [OF inj ids uu] by auto
qed

text \<open>A new group with its owner.\<close>

lemma wf_found:
  assumes inj: "inj uu" and wf: "wf_groups uu st" and uu: "g_uuid env = uu" and g: "gr_deleted g = None"
  defines "st1 \<equiv> st\<lparr>groups := AList.update (fresh_uuid env st) g (groups st), uuids := Suc (uuids st)\<rparr>"
  shows "wf_groups uu (snd (join_group env (fresh_uuid env st) u Owner t st1))"
proof (rule wf_groupsI)
  note ids = wf_groupsD(3) [OF wf]
  let ?k = "fresh_uuid env st" and ?st = "snd (join_group env (fresh_uuid env st) u Owner t st1)"
  have k: "?k = uu (uuids st)" by (simp add: fresh_uuid_def uu)
  have mono: "k \<in> used_ids uu st \<Longrightarrow> k \<in> used_ids uu st1" for k by (rule used_ids_mono) (simp_all add: st1_def)
  have new: "?k \<in> used_ids uu st1" by (auto simp: k used_ids_def st1_def)
  have ids1: "wf_ids uu st1"
    using ids new mono by (auto simp: wf_ids_def st1_def distinct_update)
  have none: "map_of (groups st) ?k = None"
    using fresh_member_id(2) [OF inj ids] by (simp add: k map_of_eq_None_iff)
  have l: "live_group j ?st = (if j = ?k then Some g else live_group j st)" for j
    using g by (simp add: live_group_def st1_def)
  have act1: "active_of j st1 = active_of j st" for j by (simp add: active_of_def st1_def)
  have e: "active_of ?k st = []" by (rule wf_groupsD(2) [OF wf]) (simp add: live_group_def none)
  show "wf_ids uu ?st" by (rule join_ids [OF inj ids1 uu new])
  show "good_members (active_of j ?st)" if "live_group j ?st \<noteq> None" for j
    using wf_groupsD(1) [OF wf, of j] that e unfolding l join_active [OF inj ids1 uu] act1
    by (auto simp: good_members_def new_member_def MAX_GROUP_MEMBERS_def split: if_splits)
  show "active_of j ?st = []" if "live_group j ?st = None" for j
    using wf_groupsD(2) [OF wf, of j] that unfolding l join_active [OF inj ids1 uu] act1 by (simp split: if_splits)
qed

lemma members_groups_commute: "set_member k f (set_group cid h st) = set_group cid h (set_member k f st)"
  by (simp add: set_member_def set_group_def)

text \<open>The last member goes and the group is marked deleted.\<close>

lemma wf_close:
  assumes wf: "wf_groups uu st" and m: "active_of cid st = [m]"
    and f: "\<And>m. \<not> activeGroupMember (f m)" "\<And>m. gm_id (f m) = gm_id m" "\<And>m. gm_conv (f m) = gm_conv m"
    and h: "\<And>g. gr_deleted (h g) \<noteq> None"
  shows "wf_groups uu (set_group cid h (set_member (gm_id m) f st))"
proof (rule wf_groupsI)
  note ids = wf_groupsD(3) [OF wf]
  let ?st = "set_group cid h (set_member (gm_id m) f st)"
  show "wf_ids uu ?st"
    by (rule wf_ids_set_group [OF wf_ids_set_member [OF ids f(2,3)]])
  have l: "live_group k ?st = (if k = cid then None else live_group k st)" for k
    by (simp add: live_set_group live_set_member h split: option.split)
  have act: "active_of k ?st = filter (\<lambda>x. gm_id x \<noteq> gm_id m) (active_of k st)" for k
    using active_filter [OF ids f(1), of k] by (simp add: active_of_def)
  show "good_members (active_of k ?st)" if "live_group k ?st \<noteq> None" for k
  proof -
    have k: "k \<noteq> cid" "live_group k st \<noteq> None" using that by (auto simp: l split: if_splits)
    have "gm_id x \<noteq> gm_id m" if x: "x \<in> set (active_of k st)" for x
    proof
      assume "gm_id x = gm_id m"
      then have "x = m" by (intro same_member [OF ids x, of m cid]) (simp_all add: m)
      moreover have "m \<in> set (active_of cid st)" by (simp add: m)
      ultimately show False using x k(1) by (simp add: active_iff)
    qed
    then have "active_of k ?st = active_of k st" by (simp add: act filter_id_conv)
    with wf_groupsD(1) [OF wf k(2)] show ?thesis by simp
  qed
  show "active_of k ?st = []" if "live_group k ?st = None" for k
    using wf_groupsD(2) [OF wf, of k] that m unfolding act by (cases "k = cid") (simp_all add: l)
qed

text \<open>The owner goes and another active member is the owner.\<close>

lemma wf_hand_over:
  assumes wf: "wf_groups uu st" and m: "m \<in> set (active_of cid st)" "gm_role m = Owner"
    and x: "x \<in> set (active_of cid st)" "x \<noteq> m"
    and f: "\<And>m. \<not> activeGroupMember (f m)" "\<And>m. gm_id (f m) = gm_id m" "\<And>m. gm_conv (f m) = gm_conv m"
  shows "wf_groups uu (set_member (gm_id m) f (set_member (gm_id x) (\<lambda>x. x\<lparr>gm_role := Owner, gm_updated := t\<rparr>) st))"
    (is "wf_groups uu (set_member _ f ?s1)")
proof (rule wf_groupsI)
  note ids = wf_groupsD(3) [OF wf]
  have ids1: "wf_ids uu ?s1" by (rule wf_ids_set_member [OF ids]) simp_all
  show "wf_ids uu (set_member (gm_id m) f ?s1)" by (rule wf_ids_set_member [OF ids1 f(2,3)])
  let ?h = "\<lambda>y. if gm_id y = gm_id x then y\<lparr>gm_role := Owner, gm_updated := t\<rparr> else y"
  have "active_of k (set_member (gm_id m) f ?s1) = filter (\<lambda>y. gm_id y \<noteq> gm_id m) (active_of k ?s1)" for k
    by (rule active_filter [OF ids1 f(1)])
  moreover have "active_of k ?s1 = map ?h (active_of k st)" for k
    by (rule active_map [OF ids]) (simp_all add: activeGroupMember_def)
  moreover have "filter (\<lambda>y. gm_id y \<noteq> gm_id m) (map ?h ms) = map ?h (filter (\<lambda>y. gm_id y \<noteq> gm_id m) ms)" for ms
    by (rule filter_map_same) simp
  ultimately have act: "active_of k (set_member (gm_id m) f ?s1) = map ?h (filter (\<lambda>y. gm_id y \<noteq> gm_id m) (active_of k st))" for k
    by simp
  have xm: "gm_id x \<noteq> gm_id m" using same_member [OF ids x(1) m(1)] x(2) by blast
  show "good_members (active_of k (set_member (gm_id m) f ?s1))"
    if "live_group k (set_member (gm_id m) f ?s1) \<noteq> None" for k
  proof -
    have g: "good_members (active_of k st)" using wf_groupsD(1) [OF wf] that by simp
    let ?ms = "filter (\<lambda>y. gm_id y \<noteq> gm_id m) (active_of k st)"
    obtain w where w: "w \<in> set ?ms" and only: "\<And>y. y \<in> set ?ms \<Longrightarrow> gm_role (?h y) = Owner \<longleftrightarrow> y = w"
    proof (cases "k = cid")
      case True
      have "gm_role (?h y) = Owner \<longleftrightarrow> y = x" if "y \<in> set ?ms" for y
      proof (cases "gm_id y = gm_id x")
        case True
        have "y = x" by (rule same_member [OF ids _ x(1) True, of k]) (use that in simp)
        then show ?thesis by simp
      next
        case False
        then show ?thesis using owner_only [OF g _ m(2), of y] m(1) that \<open>k = cid\<close> by auto
      qed
      with True x(1) xm that show thesis by simp
    next
      case False
      obtain b where b: "b \<in> set (active_of k st)" "gm_role b = Owner" using has_owner [OF g] by blast
      have elsewhere: "gm_id y \<noteq> gm_id z" if y: "y \<in> set (active_of k st)" and z: "z \<in> set (active_of cid st)" for y z
      proof
        assume "gm_id y = gm_id z"
        then have "y = z" by (rule same_member [OF ids y z])
        with y z False show False by (simp add: active_iff)
      qed
      note ne = elsewhere [OF _ m(1)] elsewhere [OF _ x(1)]
      show thesis by (rule that [of b]) (use b ne owner_only [OF g b] in auto)
    qed
    show ?thesis unfolding act
    proof (rule good_map [OF _ _ _ w only])
      show "distinct (map gm_user ?ms)" by (rule distinct_map_filter [OF good_users [OF g]])
      show "length ?ms \<le> MAX_GROUP_MEMBERS" by (rule le_trans [OF length_filter_le good_size [OF g]])
    qed simp_all
  qed
  show "active_of k (set_member (gm_id m) f ?s1) = []" if "live_group k (set_member (gm_id m) f ?s1) = None" for k
    using wf_groupsD(2) [OF wf] that by (simp add: act)
qed

end
