(* ===== verification/GroupProperties.thy ===== *)
theory GroupProperties
  imports GroupInvariants
begin

text \<open>
  Every operation keeps the membership invariant of the group store, and what membership gives access to.
\<close>

section \<open>Operations keep the invariant\<close>

lemma wf_invitations [simp]: "wf_groups uu (st\<lparr>invitations := x\<rparr>) = wf_groups uu st"
proof
  show "wf_groups uu st" if "wf_groups uu (st\<lparr>invitations := x\<rparr>)" by (rule wf_groups_cong [OF _ _ _ that]) simp_all
  show "wf_groups uu (st\<lparr>invitations := x\<rparr>)" if "wf_groups uu st" by (rule wf_groups_cong [OF _ _ _ that]) simp_all
qed

lemma wf_touch: "wf_groups uu st \<Longrightarrow> wf_groups uu (set_group cid (touch_group env) st)"
  by (rule wf_set_group) simp_all

lemma wf_advance: "wf_groups uu st \<Longrightarrow> wf_groups uu (set_group cid (advance t) st)"
  by (rule wf_set_group) simp_all

lemma live_advance [simp]: "(live_group k (set_group cid (advance t) st) = None) = (live_group k st = None)"
  by (auto simp: live_set_group live_group_def split: option.splits)

lemma issue_frame:
  "groups (snd (fold (issue_invitation env cid a t v) us (is, st))) = groups st \<and>
   gmembers (snd (fold (issue_invitation env cid a t v) us (is, st))) = gmembers st \<and>
   uuids st \<le> uuids (snd (fold (issue_invitation env cid a t v) us (is, st)))"
proof (induction us arbitrary: "is" st)
  case Nil
  then show ?case by simp
next
  case (Cons u us)
  let ?s = "issue_invitation env cid a t v u (is, st)"
  have "groups (snd ?s) = groups st \<and> gmembers (snd ?s) = gmembers st \<and> uuids st \<le> uuids (snd ?s)"
    by (simp add: issue_invitation_def Let_def le_trans [OF _ record_event_simps(7)])
  with Cons.IH [of "fst ?s" "snd ?s"] show ?case by simp
qed

lemma wf_issue: "wf_groups uu st \<Longrightarrow> wf_groups uu (snd (fold (issue_invitation env cid a t v) us (is, st)))"
proof -
  assume wf: "wf_groups uu st"
  show ?thesis by (rule wf_groups_cong [OF _ _ _ wf]) (use issue_frame [of env cid a t v us "is" st] in blast)+
qed

lemma wf_invite: "wf_groups uu st \<Longrightarrow> wf_groups uu (snd (invite env cid g a us st))"
  using wf_issue [OF wf_advance]
  by (auto simp: invite_def Let_def case_prod_unfold split: option.split)

lemma wf_accept:
  assumes "inj uu" "g_uuid env = uu" and wf: "wf_groups uu st"
  shows "wf_groups uu (snd (acceptInvitation env cid iid u st))"
proof (cases "\<exists>g i. live_group cid st = Some g \<and> map_of (invitations st) iid = Some i")
  case False
  then show ?thesis using wf by (auto simp: acceptInvitation_def split: option.split)
next
  case True
  then obtain g i where g: "live_group cid st = Some g" and i: "map_of (invitations st) iid = Some i" by blast
  let ?t = "activityTime env g"
  let ?s1 = "st\<lparr>invitations := AList.map_entry iid (\<lambda>i. i\<lparr>iv_accepted := Some ?t\<rparr>) (invitations st)\<rparr>"
  have "wf_groups uu (snd (join_group env cid u Plain ?t ?s1))"
    if "u \<notin> set (map gm_user (listMembers cid st))" "length (listMembers cid st) < MAX_GROUP_MEMBERS"
  proof (rule wf_join [OF assms(1) _ assms(2)])
    have "active_of cid ?s1 = active_of cid st" by (simp add: active_of_def)
    with that show "u \<notin> set (map gm_user (active_of cid ?s1))" "length (active_of cid ?s1) < MAX_GROUP_MEMBERS"
      by (simp_all add: listMembers_active)
    show "live_group cid ?s1 \<noteq> None" using g by (simp add: live_group_def)
  qed (simp add: wf)
  then show ?thesis using wf g i
    by (simp add: acceptInvitation_def Let_def case_prod_unfold wf_advance not_le)
qed

lemma wf_cancel: "wf_groups uu st \<Longrightarrow> wf_groups uu (snd (cancelInvitation env cid iid a st))"
  by (simp add: cancelInvitation_def wf_touch split: sum.split option.split)

lemma wf_setRole:
  assumes "wf_groups uu st" and "r \<noteq> Owner"
  shows "wf_groups uu (snd (setRole env cid a u r st))"
proof -
  have "wf_groups uu (set_member (gm_id m) (\<lambda>m. m\<lparr>gm_role := r, gm_updated := g_now env\<rparr>) st)"
    if "requireActiveMember cid u st = Inr m" "gm_role m \<noteq> Owner" for m
    by (rule wf_set_role [OF assms required_member(2) [OF that(1)] that(2)])
  with assms show ?thesis by (simp add: setRole_def Let_def wf_touch split: sum.split)
qed

lemma wf_transfer:
  assumes "wf_groups uu st"
  shows "wf_groups uu (snd (transferOwnership env cid a u st))"
proof -
  have "wf_groups uu (set_member (gm_id m) (\<lambda>m. m\<lparr>gm_role := Owner, gm_updated := t\<rparr>)
      (set_member (gm_id x) (\<lambda>a. a\<lparr>gm_role := Admin, gm_updated := t\<rparr>) st))"
    if "requireActiveMember cid a st = Inr x" "requireActiveMember cid u st = Inr m" "gm_role x = Owner" "gm_role m = Admin"
    for x m t
    by (rule wf_move_owner [OF assms required_member(2) [OF that(1)] that(3) required_member(2) [OF that(2)]])
      (simp add: that(4))
  with assms show ?thesis by (simp add: transferOwnership_def Let_def wf_touch split: sum.split)
qed

lemma wf_deleteGroup:
  assumes wf: "wf_groups uu st"
  shows "wf_groups uu (snd (deleteGroup env cid a st))"
proof (cases "requireActiveMember cid a st")
  case (Inl e)
  with wf show ?thesis by (simp add: deleteGroup_def)
next
  case (Inr m)
  define t where "t = (case map_of (groups st) cid of Some g \<Rightarrow> activityTime env g | None \<Rightarrow> g_now env)"
  show ?thesis
  proof (cases "gm_role m \<noteq> Owner \<or> length (listMembers cid st) \<noteq> 1")
    case True
    with wf Inr show ?thesis by (simp add: deleteGroup_def)
  next
    case False
    have "length (active_of cid st) = 1" using False by (simp add: listMembers_active)
    then obtain x where x: "active_of cid st = [x]" by (auto simp: length_Suc_conv)
    with required_member(2) [OF Inr] have m: "active_of cid st = [m]" by simp
    have "wf_groups uu (set_group cid (\<lambda>g. (advance t g)\<lparr>gr_deleted := Some t\<rparr>)
        (set_member (gm_id m) (\<lambda>m. m\<lparr>gm_left := Some t, gm_actor := Some a, gm_reason := Some ''group_deleted''\<rparr>) st))"
      by (rule wf_close [OF wf m]) (simp_all add: activeGroupMember_def)
    then show ?thesis using False Inr
      by (simp add: deleteGroup_def Let_def t_def [symmetric])
  qed
qed

lemma wf_create:
  assumes "inj uu" "g_uuid env = uu" and wf: "wf_groups uu st"
  shows "wf_groups uu (snd (create env name c us st))"
proof -
  define g where "g = \<lparr>gr_id = fresh_uuid env st, gr_name = name, gr_creator = c, gr_version = Suc 0, gr_created = g_now env,
    gr_updated = g_now env, gr_deleted = None\<rparr>"
  define s1 where "s1 = snd (join_group env (fresh_uuid env st) c Owner (g_now env)
    (st\<lparr>groups := AList.update (fresh_uuid env st) g (groups st), uuids := Suc (uuids st)\<rparr>))"
  have s1: "wf_groups uu s1" unfolding s1_def by (rule wf_found [OF assms(1) wf assms(2)]) (simp add: g_def)
  then show ?thesis
    using wf wf_invite [OF wf_record_event [OF s1]]
    by (auto simp: create_def Let_def case_prod_unfold g_def [symmetric] s1_def [symmetric] split: option.split sum.split)
qed

lemma wf_updateName: "wf_groups uu st \<Longrightarrow> wf_groups uu (snd (updateName env cid a name st))"
  by (simp add: updateName_def Let_def wf_set_group split: sum.split option.split)

lemma wf_addMembers: "wf_groups uu st \<Longrightarrow> wf_groups uu (snd (addMembers env cid a us st))"
proof -
  assume wf: "wf_groups uu st"
  have "wf_groups uu st1" if "invite env cid g a us st = (r, st1)" for g r st1
    using wf_invite [OF wf, of env cid g a us] that by simp
  with wf show ?thesis by (auto simp: addMembers_def split: sum.split option.split prod.split)
qed

lemma leave_call_frame:
  "groups (snd (leave_call t cid u k (out, st))) = groups st \<and> gmembers (snd (leave_call t cid u k (out, st))) = gmembers st \<and>
   uuids (snd (leave_call t cid u k (out, st))) = uuids st"
  by (simp add: leave_call_def Let_def set_gpart_def set_gcall_def split: option.split)

lemma leave_calls_frame:
  "groups (snd (leave_calls t cid u st)) = groups st \<and> gmembers (snd (leave_calls t cid u st)) = gmembers st \<and>
   uuids (snd (leave_calls t cid u st)) = uuids st"
proof -
  have "groups (snd (fold (leave_call t cid u) ks s)) = groups (snd s) \<and>
      gmembers (snd (fold (leave_call t cid u) ks s)) = gmembers (snd s) \<and>
      uuids (snd (fold (leave_call t cid u) ks s)) = uuids (snd s)" for ks s
  proof (induction ks arbitrary: s)
    case (Cons k ks)
    with leave_call_frame [of t cid u k "fst s" "snd s"] show ?case by simp
  qed simp
  then show ?thesis by (simp add: leave_calls_def)
qed

lemma wf_depart_member:
  assumes wf: "wf_groups uu st" and m: "m \<in> set (active_of cid st)" "gm_role m \<noteq> Owner"
  shows "wf_groups uu (snd (depart env cid g m r ev a reason st))"
proof -
  let ?t = "activityTime env g"
  have "wf_groups uu (set_member (gm_id m) (departed ?t r a reason) st)"
    by (rule wf_depart [OF wf _ active_stored [OF wf_groupsD(3) [OF wf] m(1)]])
      (simp_all add: m(2) departed_def activeGroupMember_def)
  then have "wf_groups uu (record_event env cid ev a (Some (gm_user m)) (Some reason)
      (set_group cid (advance ?t) (set_member (gm_id m) (departed ?t r a reason) st)))" (is "wf_groups uu ?s")
    by (intro wf_record_event wf_advance)
  have "wf_groups uu (snd (leave_calls ?t cid (gm_user m) ?s))"
    by (rule wf_groups_cong [OF _ _ _ \<open>wf_groups uu ?s\<close>]) (simp_all add: leave_calls_frame)
  then show ?thesis by (simp add: depart_def Let_def case_prod_unfold)
qed

lemma wf_remove: "wf_groups uu st \<Longrightarrow> wf_groups uu (snd (removeMember env cid a u reason st))"
  by (auto simp: removeMember_def Let_def case_prod_unfold intro!: wf_depart_member dest!: required_member(2)
      split: sum.split option.split)

lemma wf_leave: "wf_groups uu st \<Longrightarrow> wf_groups uu (snd (leave env cid u st))"
  by (auto simp: leave_def Let_def case_prod_unfold intro!: wf_depart_member dest!: required_member(2)
      split: sum.split option.split)

section \<open>Erasure keeps the invariant\<close>

lemma erased_member_simps [simp]:
  "\<not> activeGroupMember (erased_member t pseud m)" "gm_id (erased_member t pseud m) = gm_id m"
  "gm_conv (erased_member t pseud m) = gm_conv m"
  by (simp_all add: erased_member_def activeGroupMember_def or_some_def split: option.split)

lemma wf_erased:
  assumes wf: "wf_groups uu st" and stored: "map_of (gmembers st) k = Some m"
  shows "wf_groups uu (set_member k (erased_member t pseud) (hand_on t' m st))"
proof -
  note ids = wf_groupsD(3) [OF wf]
  have k: "k = gm_id m" using ids stored by (simp add: wf_ids_def)
  let ?cid = "gm_conv m"
  show ?thesis
  proof (cases "gm_role m = Owner \<and> activeGroupMember m")
    case False
    then have "hand_on t' m st = st" by (auto simp: hand_on_def)
    moreover have "gm_role m \<noteq> Owner" if "m \<in> set (active_of c st)" for c using False that by (auto simp: active_iff)
    ultimately show ?thesis using wf_depart [OF wf, of m "erased_member t pseud"] stored k by simp
  next
    case True
    have m: "m \<in> set (active_of ?cid st)"
      unfolding active_iff using map_of_values [OF stored] True by simp
    have live: "live_group ?cid st \<noteq> None" using wf_groupsD(2) [OF wf, of ?cid] m by (metis empty_iff list.set(1))
    then have stored_group: "map_of (groups st) ?cid \<noteq> None" by (auto simp: live_group_def split: option.splits)
    show ?thesis
    proof (cases "find (\<lambda>x. gm_user x \<noteq> gm_user m) (listMembers ?cid st)")
      case None
      have "x = m" if "x \<in> set (active_of ?cid st)" for x
      proof -
        have "gm_user x = gm_user m" using find_NoneD [OF None] that by (simp add: listMembers_active)
        with good_users [OF wf_groupsD(1) [OF wf live]] m that show ?thesis by (auto simp: distinct_map dest: inj_onD)
      qed
      then have "set (active_of ?cid st) = {m}" using m by blast
      with good_distinct [OF wf_groupsD(1) [OF wf live]] have "active_of ?cid st = [m]" by (rule distinct_singleton)
      from wf_close [OF wf this, of "erased_member t pseud" "\<lambda>g. g\<lparr>gr_deleted := Some t'\<rparr>"]
      have "wf_groups uu (set_group ?cid (\<lambda>g. g\<lparr>gr_deleted := Some t'\<rparr>) (set_member (gm_id m) (erased_member t pseud) st))"
        by simp
      then show ?thesis using True stored_group None by (simp add: hand_on_def k members_groups_commute)
    next
      case (Some x)
      then have x: "x \<in> set (active_of ?cid st)" "x \<noteq> m"
        using find_SomeD [OF Some] by (auto simp: listMembers_active)
      from wf_hand_over [OF wf m _ x, of "erased_member t pseud" t'] True
      have "wf_groups uu (set_member (gm_id m) (erased_member t pseud)
          (set_member (gm_id x) (\<lambda>x. x\<lparr>gm_role := Owner, gm_updated := t'\<rparr>) st))" by simp
      then show ?thesis using True stored_group Some by (simp add: hand_on_def k)
    qed
  qed
qed

lemma wf_eraseMembership: "wf_groups uu st \<Longrightarrow> wf_groups uu (eraseMembership env pseud k st)"
proof -
  assume wf: "wf_groups uu st"
  show ?thesis
  proof (cases "map_of (gmembers st) k")
    case None
    with wf show ?thesis by (simp add: eraseMembership_def)
  next
    case (Some m)
    have "wf_groups uu (set_group (gm_conv m)
        (\<lambda>g. (advance t g)\<lparr>gr_creator := (if gr_creator g = gm_user m then pseud else gr_creator g)\<rparr>)
        (set_member k (erased_member t pseud) (hand_on (g_now env) m st)))" for t
      by (rule wf_set_group [OF wf_erased [OF wf Some]]) simp
    then show ?thesis using wf_erased [OF wf Some] Some
      by (simp add: eraseMembership_def Let_def split: option.split)
  qed
qed

text \<open>Renaming in the members' departure notes.\<close>

lemma wf_anonymizeEvents: "wf_groups uu st \<Longrightarrow> wf_groups uu (anonymizeInvitationsAndEvents u pseud t st)"
proof (rule wf_groupsI)
  assume wf: "wf_groups uu st"
  let ?f = "\<lambda>m. m\<lparr>gm_actor := map_option (rename_user u pseud) (gm_actor m)\<rparr>"
  let ?st = "anonymizeInvitationsAndEvents u pseud t st"
  note ids = wf_groupsD(3) [OF wf]
  have l: "live_group k ?st = live_group k st" for k by (rule live_cong) (simp add: anonymizeInvitationsAndEvents_def)
  have lookup: "map_of (gmembers ?st) k = map_option ?f (map_of (gmembers st) k)" for k
    by (simp add: anonymizeInvitationsAndEvents_def map_of_map [unfolded comp_def])
  have keys: "map fst (gmembers ?st) = map fst (gmembers st)" "groups ?st = groups st" "uuids ?st = uuids st"
    by (simp_all add: anonymizeInvitationsAndEvents_def comp_def case_prod_unfold)
  show "wf_ids uu ?st"
    using ids unfolding wf_ids_def lookup keys used_ids_def by auto
  have "map snd (gmembers ?st) = map ?f (map snd (gmembers st))"
    by (simp add: anonymizeInvitationsAndEvents_def comp_def case_prod_unfold)
  then have act: "active_of k ?st = map ?f (active_of k st)" for k
    unfolding active_of_def by (simp only:) (rule filter_map_same, simp add: activeGroupMember_def)
  show "good_members (active_of k ?st)" if "live_group k ?st \<noteq> None" for k
    using wf_groupsD(1) [OF wf, of k] that unfolding l act
    by (simp add: good_members_def comp_def filter_map)
  show "active_of k ?st = []" if "live_group k ?st = None" for k
    using wf_groupsD(2) [OF wf, of k] that unfolding l act by simp
qed

lemma wf_collect: "wf_groups uu st \<Longrightarrow> wf_groups uu (collectEmptyGroup cid st)"
proof (cases "active_of cid st = []")
  case False
  moreover assume "wf_groups uu st"
  ultimately show ?thesis by (simp add: collectEmptyGroup_def listMembers_active)
next
  case True
  assume wf: "wf_groups uu st"
  let ?st = "collectEmptyGroup cid st"
  note ids = wf_groupsD(3) [OF wf]
  have f: "groups ?st = AList.delete cid (groups st)" "gmembers ?st = filter (\<lambda>(_, m). gm_conv m \<noteq> cid) (gmembers st)"
    "uuids ?st = uuids st"
    using True by (simp_all add: collectEmptyGroup_def listMembers_active Let_def collectGroupCalls_def captureGroupAttachments_def)
  have l: "live_group k ?st = (if k = cid then None else live_group k st)" for k
    by (simp add: live_group_def f)
  have act: "active_of k ?st = (if k = cid then [] else active_of k st)" for k
    unfolding active_of_def f
    by (auto simp: filter_map comp_def case_prod_unfold filter_empty_conv intro!: arg_cong [where f = "map snd"] filter_cong)
  have dist: "distinct (map fst (gmembers ?st))"
    using ids by (auto simp: f wf_ids_def intro: distinct_map_filter)
  have lookup: "map_of (gmembers st) k = Some m" if "map_of (gmembers ?st) k = Some m" for k m
    using that map_of_SomeD [OF that] ids by (auto simp: f wf_ids_def intro: map_of_is_SomeI)
  show ?thesis
  proof (rule wf_groupsI)
    have u: "used_ids uu ?st = used_ids uu st" by (simp add: used_ids_def f(3))
    have m: "gm_id m = k \<and> k \<in> used_ids uu st \<and> gm_conv m \<in> used_ids uu st" if "map_of (gmembers ?st) k = Some m" for k m
      using ids lookup [OF that] by (simp add: wf_ids_def)
    show "wf_ids uu ?st"
      using ids dist m unfolding wf_ids_def u f(1) by (simp add: distinct_delete)
    show "good_members (active_of k ?st)" if "live_group k ?st \<noteq> None" for k
      using wf_groupsD(1) [OF wf, of k] that by (auto simp: l act split: if_splits)
    show "active_of k ?st = []" if "live_group k ?st = None" for k
      using wf_groupsD(2) [OF wf, of k] that by (auto simp: l act split: if_splits)
  qed
qed

lemma wf_anonymizeMemberships: "wf_groups uu st \<Longrightarrow> wf_groups uu (snd (anonymizeMemberships env u pseud st))"
  by (simp add: anonymizeMemberships_def Let_def fold_invariant_pred [where P = "wf_groups uu"] wf_collect
      wf_anonymizeEvents wf_eraseMembership)

section \<open>The other operations\<close>

lemma wf_groups_eq:
  "groups st' = groups st \<Longrightarrow> gmembers st' = gmembers st \<Longrightarrow> uuids st' = uuids st \<Longrightarrow> wf_groups uu st' = wf_groups uu st"
  using wf_groups_cong [of st' st] wf_groups_cong [of st st'] by (metis order_refl)

lemma wf_other_fields [simp]:
  "wf_groups uu (recordMessageChange m ty t st) = wf_groups uu st"
  "wf_groups uu (set_gmessage k f st) = wf_groups uu st"
  "wf_groups uu (set_gcall i h st) = wf_groups uu st"
  "wf_groups uu (set_gpart j p st) = wf_groups uu st"
  "wf_groups uu (change_parts P p st) = wf_groups uu st"
  "wf_groups uu (st\<lparr>gmessages := ms\<rparr>) = wf_groups uu st"
  "wf_groups uu (st\<lparr>gcalls := cs\<rparr>) = wf_groups uu st"
  "wf_groups uu (st\<lparr>gparts := ps\<rparr>) = wf_groups uu st"
  "wf_groups uu (st\<lparr>cleanup := us\<rparr>) = wf_groups uu st"
  by (rule wf_groups_eq; simp add: recordMessageChange_def set_gmessage_def set_gcall_def set_gpart_def change_parts_def)+

lemma wf_set_time [simp]: "wf_groups uu st \<Longrightarrow> wf_groups uu (set_group cid (\<lambda>g. g\<lparr>gr_updated := t\<rparr>) st)"
  by (rule wf_set_group) simp_all

lemma wf_message_ops:
  assumes "wf_groups uu st"
  shows "wf_groups uu (snd (saveGroupMessage env m st))"
    and "wf_groups uu (snd (deleteGroupMessage env cid mid u st))"
    and "wf_groups uu (snd (reactToGroupMessage env cid mid u em act st))"
    and "wf_groups uu (snd (markGroupDelivered cid mid u st))"
  using assms
  by (simp_all add: saveGroupMessage_def deleteGroupMessage_def reactToGroupMessage_def markGroupDelivered_def Let_def
      split: sum.split option.split)

lemma wf_markGroupRead: "wf_groups uu st \<Longrightarrow> wf_groups uu (snd (markGroupRead env cid u st))"
proof -
  assume wf: "wf_groups uu st"
  have "wf_groups uu (snd (fold (mark_group_read cid u me t) ks (n, st)))" for me t ks n
    using wf
  proof (induction ks arbitrary: n st)
    case Nil
    then show ?case by simp
  next
    case (Cons k ks)
    then show ?case by (simp add: mark_group_read_def split: option.split)
  qed
  then show ?thesis using wf by (simp add: markGroupRead_def Let_def case_prod_unfold split: sum.split)
qed

lemma wf_place: "wf_groups uu st \<Longrightarrow> wf_groups uu (snd (place_gcall env a g us st))"
proof -
  assume wf: "wf_groups uu st"
  have "wf_groups uu (st\<lparr>uuids := Suc (uuids st)\<rparr>)" by (rule wf_groups_cong [OF _ _ _ wf]) simp_all
  then show ?thesis by (simp add: place_gcall_def Let_def)
qed

lemma wf_start: "wf_groups uu st \<Longrightarrow> wf_groups uu (snd (startCall env a [] st))"
  by (simp add: startCall_def Let_def case_prod_unfold wf_place split: sum.split option.split)

lemma wf_expire: "wf_groups uu st \<Longrightarrow> wf_groups uu (snd (expireCall k t st))"
  by (simp add: expireCall_def Let_def split: option.split)

lemma wf_transitionGroupCall: "wf_groups uu st \<Longrightarrow> wf_groups uu (snd (transitionGroupCall env k u act st))"
proof -
  assume wf: "wf_groups uu st"
  have "wf_groups uu st1" if "expireCall k (g_now env) st = (r, st1)" for r st1
    using wf_expire [OF wf, of k "g_now env"] that by simp
  with wf show ?thesis by (auto simp: transitionGroupCall_def Let_def split: sum.split option.split prod.split)
qed

lemma wf_settle: "wf_groups uu st \<Longrightarrow> wf_groups uu (anonymizeCalls u pseud t st)"
  unfolding anonymizeCalls_def Let_def
  by (rule fold_invariant_pred [where P = "wf_groups uu"], simp add: settle_call_def,
      rule fold_invariant_pred [where P = "wf_groups uu"]) (simp_all add: rename_part_def)

lemma wf_eraseUserData: "wf_groups uu st \<Longrightarrow> wf_groups uu (snd (eraseUserData env u pseud st))"
  using wf_anonymizeMemberships [of uu st env u pseud]
  by (simp add: eraseUserData_def Let_def case_prod_unfold wf_settle eraseReactions_def)

lemma wf_tombstones:
  "wf_groups uu st \<Longrightarrow> wf_groups uu (snd (snd (fold (tombstone_row t pseud) ks (urls, n, st))))"
proof (induction ks arbitrary: urls n st)
  case Nil
  then show ?case by simp
next
  case (Cons k ks)
  then show ?case by (simp add: tombstone_row_def Let_def split: option.split)
qed

lemma wf_eraseUserMessages: "wf_groups uu st \<Longrightarrow> wf_groups uu (snd (eraseUserMessages env u pseud limit st))"
  by (simp add: eraseUserMessages_def Let_def case_prod_unfold wf_tombstones
      fold_invariant_pred [where P = "wf_groups uu"] wf_collect)

text \<open>Every operation that writes the store, with the clock and the visibility rule of its moment.\<close>

datatype group_op =
    Op_Create string string "string list"
  | Op_Invite string string "string list"
  | Op_Accept string string string
  | Op_Cancel string string string
  | Op_Role string string string bool
  | Op_Transfer string string string
  | Op_Close string string
  | Op_Rename string string string
  | Op_Remove string string string "string option"
  | Op_Leave string string
  | Op_Send gmessage
  | Op_Delete_Message string string string
  | Op_React string string string string react
  | Op_Read string string
  | Op_Delivered string string string
  | Op_Start start_args
  | Op_Call string string call_action
  | Op_Expire string int
  | Op_Erase_User string string
  | Op_Erase_Messages string string "int option"
  | Op_Cleaned string

fun run_group :: "genv \<Rightarrow> group_op \<Rightarrow> group_store \<Rightarrow> group_store" where
  "run_group env (Op_Create name c us) st = snd (create env name c us st)"
| "run_group env (Op_Invite cid a us) st = snd (addMembers env cid a us st)"
| "run_group env (Op_Accept cid i u) st = snd (acceptInvitation env cid i u st)"
| "run_group env (Op_Cancel cid i a) st = snd (cancelInvitation env cid i a st)"
| "run_group env (Op_Role cid a u adm) st = snd (setRole env cid a u (if adm then Admin else Plain) st)"
| "run_group env (Op_Transfer cid a u) st = snd (transferOwnership env cid a u st)"
| "run_group env (Op_Close cid a) st = snd (deleteGroup env cid a st)"
| "run_group env (Op_Rename cid a name) st = snd (updateName env cid a name st)"
| "run_group env (Op_Remove cid a u r) st = snd (removeMember env cid a u r st)"
| "run_group env (Op_Leave cid u) st = snd (leave env cid u st)"
| "run_group env (Op_Send m) st = snd (saveGroupMessage env m st)"
| "run_group env (Op_Delete_Message cid mid u) st = snd (deleteGroupMessage env cid mid u st)"
| "run_group env (Op_React cid mid u em act) st = snd (reactToGroupMessage env cid mid u em act st)"
| "run_group env (Op_Read cid u) st = snd (markGroupRead env cid u st)"
| "run_group env (Op_Delivered cid mid u) st = snd (markGroupDelivered cid mid u st)"
| "run_group env (Op_Start a) st = snd (startCall env a [] st)"
| "run_group env (Op_Call k u act) st = snd (transitionGroupCall env k u act st)"
| "run_group env (Op_Expire k t) st = snd (expireCall k t st)"
| "run_group env (Op_Erase_User u pseud) st = snd (eraseUserData env u pseud st)"
| "run_group env (Op_Erase_Messages u pseud l) st = snd (eraseUserMessages env u pseud l st)"
| "run_group env (Op_Cleaned url) st = acknowledgeAttachmentCleanup url st"

lemmas wf_group_ops = wf_create wf_addMembers wf_accept wf_cancel wf_setRole wf_transfer wf_deleteGroup wf_updateName
  wf_remove wf_leave wf_message_ops wf_markGroupRead wf_start wf_transitionGroupCall wf_expire wf_eraseUserData
  wf_eraseUserMessages

lemma run_group_wf: "inj uu \<Longrightarrow> g_uuid env = uu \<Longrightarrow> wf_groups uu st \<Longrightarrow> wf_groups uu (run_group env op st)"
  by (cases op) (simp_all add: wf_group_ops acknowledgeAttachmentCleanup_def del: start_rounds.simps)

lemma empty_groups_wf: "wf_groups uu empty_group_store"
  by (simp add: wf_groups_def wf_ids_def good_group_def live_group_def active_of_def empty_group_store_def)

definition run_groups :: "(genv \<times> group_op) list \<Rightarrow> group_store" where
  "run_groups steps = fold (\<lambda>(env, op). run_group env op) steps empty_group_store"

lemma run_groups_wf:
  assumes "inj uu" and "\<forall>(env, op) \<in> set steps. g_uuid env = uu"
  shows "wf_groups uu (run_groups steps)"
proof -
  have "wf_groups uu st \<Longrightarrow> \<forall>(env, op) \<in> set steps. g_uuid env = uu \<Longrightarrow>
      wf_groups uu (fold (\<lambda>(env, op). run_group env op) steps st)" for st
  proof (induction steps arbitrary: st)
    case (Cons s steps)
    obtain env op where s: "s = (env, op)" by fastforce
    with Cons.prems have "wf_groups uu (run_group env op st)" by (simp add: run_group_wf [OF assms(1)])
    with Cons s show ?case by simp
  qed simp
  from this [OF empty_groups_wf assms(2)] show ?thesis by (simp add: run_groups_def)
qed

section \<open>Properties\<close>

text \<open>
  C24. Groups stay governed: after any sequence of creations, invitations, acceptances, role changes,
  departures, removals, messages, calls and account erasures, every live group has exactly one owner among
  at most sixteen distinct active members, and a deleted or collected group has no member. Identifiers come
  from a generator that does not repeat.
\<close>

theorem group_membership_invariant:
  assumes "inj uu" and "\<forall>(env, op) \<in> set steps. g_uuid env = uu"
  shows "(live_group cid (run_groups steps) = None \<and> listMembers cid (run_groups steps) = []) \<or>
    (live_group cid (run_groups steps) \<noteq> None \<and>
     distinct (map gm_user (listMembers cid (run_groups steps))) \<and>
     length (listMembers cid (run_groups steps)) \<le> 16 \<and>
     length (filter (\<lambda>m. gm_role m = Owner) (listMembers cid (run_groups steps))) = 1)"
proof -
  note wf = run_groups_wf [OF assms]
  show ?thesis
  proof (cases "live_group cid (run_groups steps)")
    case None
    then show ?thesis using wf_groupsD(2) [OF wf None] by (simp add: listMembers_active)
  next
    case (Some g)
    then have "good_members (listMembers cid (run_groups steps))"
      using wf_groupsD(1) [OF wf, of cid] by (simp add: good_listMembers)
    then show ?thesis using Some by (simp add: good_members_def MAX_GROUP_MEMBERS_def)
  qed
qed

definition demo_uuid :: "nat \<Rightarrow> string" where
  "demo_uuid n = replicate (Suc n) (CHR ''i'')"

definition demo_genv :: "int \<Rightarrow> genv" where
  "demo_genv t = \<lparr>g_now = t, g_uuid = demo_uuid, g_can_invite = (\<lambda>_ _. True)\<rparr>"

lemma demo_uuid_inj: "inj demo_uuid"
proof (rule injI)
  fix x y
  assume "demo_uuid x = demo_uuid y"
  then have "length (demo_uuid x) = length (demo_uuid y)" by simp
  then show "x = y" by (simp add: demo_uuid_def)
qed

text \<open>Ann founds a group, Bob and Cid join, Bob is made an admin and owner, Ann's account is erased.\<close>

definition demo_group_id :: string where "demo_group_id = demo_uuid 0"

definition demo_steps :: "(genv \<times> group_op) list" where
  "demo_steps =
     [(demo_genv 1000, Op_Create ''team'' ''ann'' [''bob'', ''cid'']),
      (demo_genv 2000, Op_Accept demo_group_id (demo_uuid 3) ''bob''),
      (demo_genv 3000, Op_Accept demo_group_id (demo_uuid 5) ''cid'')]"

lemma demo_steps_uuid: "\<forall>(env, op) \<in> set demo_steps. g_uuid env = demo_uuid"
  by (simp add: demo_steps_def demo_genv_def)

theorem group_membership_invariant_witness:
  "map gm_user (listMembers demo_group_id (run_groups demo_steps)) = [''ann'', ''bob'', ''cid''] \<and>
   distinct (map gm_user (listMembers demo_group_id (run_groups demo_steps)))"
proof (rule conjI)
  show users: "map gm_user (listMembers demo_group_id (run_groups demo_steps)) = [''ann'', ''bob'', ''cid'']"
    by code_simp
  then have "listMembers demo_group_id (run_groups demo_steps) \<noteq> []" by auto
  with group_membership_invariant [OF demo_uuid_inj demo_steps_uuid, of demo_group_id]
  show "distinct (map gm_user (listMembers demo_group_id (run_groups demo_steps)))" by blast
qed

end
