(* ===== verification/GroupCallProofs.thy ===== *)
theory GroupCallProofs
  imports GroupProperties
begin

text \<open>
  The invariant of group calls: a call is over exactly when nobody is ringing or joined in it, it carries an
  end time exactly then, and at most four people are joined.
\<close>

section \<open>The invariant\<close>

definition accepted_count :: "string \<Rightarrow> group_store \<Rightarrow> nat" where
  "accepted_count k st = length (filter (accepted_in k) (map snd (gparts st)))"

definition good_gcall :: "string \<Rightarrow> gcall \<Rightarrow> group_store \<Rightarrow> bool" where
  "good_gcall k c st =
     (gc_id c = k \<and> (gc_status c = GC_Ended \<longleftrightarrow> \<not> call_occupied k st) \<and> (gc_ended c = None \<longleftrightarrow> gc_status c \<noteq> GC_Ended) \<and>
      accepted_count k st \<le> MAX_GROUP_CALL_PARTICIPANTS)"

definition wf_parts :: "group_store \<Rightarrow> bool" where
  "wf_parts st =
     (distinct (map fst (gparts st)) \<and> (\<forall>(k, p) \<in> set (gparts st). k = (gp_call p, gp_user p)))"

definition wf_gcalls :: "(nat \<Rightarrow> string) \<Rightarrow> group_store \<Rightarrow> bool" where
  "wf_gcalls uu st =
     (wf_parts st \<and> distinct (map fst (gcalls st)) \<and>
      (\<forall>k c. map_of (gcalls st) k = Some c \<longrightarrow> good_gcall k c st \<and> k \<in> used_ids uu st) \<and>
      (\<forall>p \<in> set (map snd (gparts st)). gp_call p \<in> used_ids uu st))"

lemma wf_gcallsD:
  assumes "wf_gcalls uu st"
  shows "wf_parts st" and "distinct (map fst (gcalls st))" and "map_of (gcalls st) k = Some c \<Longrightarrow> good_gcall k c st"
    and "map_of (gcalls st) k = Some c \<Longrightarrow> k \<in> used_ids uu st"
    and "p \<in> set (map snd (gparts st)) \<Longrightarrow> gp_call p \<in> used_ids uu st"
  using assms by (simp_all add: wf_gcalls_def del: set_map)

lemma wf_gcallsI:
  assumes "wf_parts st" and "distinct (map fst (gcalls st))"
    and "\<And>k c. map_of (gcalls st) k = Some c \<Longrightarrow> good_gcall k c st \<and> k \<in> used_ids uu st"
    and "\<And>p. p \<in> set (map snd (gparts st)) \<Longrightarrow> gp_call p \<in> used_ids uu st"
  shows "wf_gcalls uu st"
  using assms by (simp add: wf_gcalls_def del: set_map)

text \<open>Only calls, participants and the identifiers in use matter.\<close>

lemma good_gcall_cong: "gparts st' = gparts st \<Longrightarrow> good_gcall k c st' = good_gcall k c st"
  by (simp add: good_gcall_def call_occupied_def accepted_count_def)

lemma wf_gcalls_cong:
  assumes "gcalls st' = gcalls st" "gparts st' = gparts st" "uuids st \<le> uuids st'"
  shows "wf_gcalls uu st \<Longrightarrow> wf_gcalls uu st'"
proof -
  assume wf: "wf_gcalls uu st"
  note d = wf_gcallsD [OF wf] and m = used_ids_mono [OF assms(3)]
  show "wf_gcalls uu st'"
    by (rule wf_gcallsI) (use d m in \<open>simp_all add: assms(1,2) wf_parts_def good_gcall_cong [OF assms(2)] del: set_map\<close>)
qed

section \<open>One participant changes\<close>

lemma parts_key: "wf_parts st \<Longrightarrow> map_of (gparts st) k = Some p \<Longrightarrow> k = (gp_call p, gp_user p)"
  by (auto simp: wf_parts_def dest: map_of_SomeD)

lemma wf_parts_set:
  assumes "wf_parts st" and "map_of (gparts st) k = Some p" and "gp_call (f p) = gp_call p" "gp_user (f p) = gp_user p"
  shows "wf_parts (set_gpart k f st)"
proof -
  obtain A B where "gparts st = A @ (k, p) # B" "AList.map_entry k f (gparts st) = A @ (k, f p) # B"
    using map_entry_split [OF assms(2)] by metis
  with assms show ?thesis by (auto simp: wf_parts_def set_gpart_def)
qed

lemma call_occupied_set:
  assumes "map_of (gparts st) k = Some p" and "gp_call (f p) = gp_call p"
  obtains R where "\<And>c. call_occupied c st \<longleftrightarrow> (gp_call p = c \<and> part_live p) \<or> R c"
    and "\<And>c. call_occupied c (set_gpart k f st) \<longleftrightarrow> (gp_call p = c \<and> part_live (f p)) \<or> R c"
proof -
  obtain A B where s: "gparts st = A @ (k, p) # B" "AList.map_entry k f (gparts st) = A @ (k, f p) # B"
    using map_entry_split [OF assms(1)] by metis
  let ?R = "\<lambda>c. \<exists>q \<in> set (map snd A) \<union> set (map snd B). gp_call q = c \<and> part_live q"
  have e: "(\<exists>q \<in> set (map snd (A @ (k, x) # B)). P q) \<longleftrightarrow> P x \<or> (\<exists>q \<in> set (map snd A) \<union> set (map snd B). P q)" for P x
    by auto
  show thesis
  proof (rule that [of ?R])
    show "call_occupied c st \<longleftrightarrow> (gp_call p = c \<and> part_live p) \<or> ?R c" for c
      unfolding call_occupied_def s(1) e by blast
    have "gparts (set_gpart k f st) = A @ (k, f p) # B" by (simp add: set_gpart_def s(2))
    then show "call_occupied c (set_gpart k f st) \<longleftrightarrow> (gp_call p = c \<and> part_live (f p)) \<or> ?R c" for c
      unfolding call_occupied_def by (simp only: e assms(2))
  qed
qed

lemma accepted_count_set:
  assumes "map_of (gparts st) k = Some p"
  shows "accepted_count c (set_gpart k f st) + (if accepted_in c p then 1 else 0) =
    accepted_count c st + (if accepted_in c (f p) then 1 else 0)"
proof -
  obtain A B where s: "gparts st = A @ (k, p) # B" "AList.map_entry k f (gparts st) = A @ (k, f p) # B"
    using map_entry_split [OF assms] by metis
  show ?thesis by (simp add: accepted_count_def set_gpart_def s(2)) (simp add: s(1))
qed

lemma set_gcall_simps [simp]:
  "gparts (set_gcall k f st) = gparts st" "uuids (set_gcall k f st) = uuids st"
  "gcalls (set_gcall k f st) = AList.map_entry k f (gcalls st)" "groups (set_gcall k f st) = groups st"
  by (simp_all add: set_gcall_def)

lemma set_gpart_simps [simp]:
  "gcalls (set_gpart k f st) = gcalls st" "uuids (set_gpart k f st) = uuids st"
  "gparts (set_gpart k f st) = AList.map_entry k f (gparts st)" "groups (set_gpart k f st) = groups st"
  by (simp_all add: set_gpart_def)

text \<open>
  A participant of a running call changes, and the call is settled accordingly: this is what accepting,
  declining, leaving and departing have in common.
\<close>

lemma settled_wf:
  assumes wf: "wf_gcalls uu st" and p: "map_of (gparts st) (k, u) = Some p" and c: "map_of (gcalls st) k = Some c"
    and running: "gc_status c \<noteq> GC_Ended"
    and f: "gp_call (f p) = gp_call p" "gp_user (f p) = gp_user p"
    and room: "accepted_in k (f p) \<Longrightarrow> \<not> accepted_in k p \<Longrightarrow> accepted_count k st < MAX_GROUP_CALL_PARTICIPANTS"
    and s: "s \<noteq> GC_Ended"
  shows "wf_gcalls uu (set_gcall k (\<lambda>c. bump_call t (end_if_empty (call_occupied k (set_gpart (k, u) f st)) t (c\<lparr>gc_status := s\<rparr>)))
    (set_gpart (k, u) f st))" (is "wf_gcalls uu ?st")
proof (rule wf_gcallsI)
  note d = wf_gcallsD [OF wf]
  have key: "gp_call p = k" "gp_user p = u" using parts_key [OF d(1) p] by simp_all
  let ?s1 = "set_gpart (k, u) f st"
  obtain R where R: "\<And>j. call_occupied j st \<longleftrightarrow> (gp_call p = j \<and> part_live p) \<or> R j"
    "\<And>j. call_occupied j ?s1 \<longleftrightarrow> (gp_call p = j \<and> part_live (f p)) \<or> R j"
    using call_occupied_set [where f = f, OF p f(1)] by metis
  note n = accepted_count_set [OF p, where f = f]
  have parts: "gparts ?st = gparts ?s1" by simp
  show "wf_parts ?st" using wf_parts_set [where f = f, OF d(1) p f] by (simp add: wf_parts_def)
  show "distinct (map fst (gcalls ?st))" using d(2) by simp
  show "good_gcall j x ?st \<and> j \<in> used_ids uu ?st" if x: "map_of (gcalls ?st) j = Some x" for j x
  proof (cases "j = k")
    case True
    have g: "good_gcall k c st" by (rule d(3) [OF c])
    have "accepted_count k ?s1 \<le> MAX_GROUP_CALL_PARTICIPANTS"
      using n [of k] g room by (auto simp: good_gcall_def split: if_splits)
    moreover have "x = bump_call t (end_if_empty (call_occupied k ?s1) t (c\<lparr>gc_status := s\<rparr>))"
      using x c True by simp
    ultimately show ?thesis
      using True g s running d(4) [OF c] unfolding good_gcall_cong [OF parts]
      by (simp add: good_gcall_def bump_call_def end_if_empty_def used_ids_def)
  next
    case False
    then have y: "map_of (gcalls st) j = Some x" using x by simp
    have "call_occupied j ?s1 = call_occupied j st" using R key False by simp
    moreover have "accepted_count j ?s1 = accepted_count j st"
      using n [of j] key f False by (simp add: accepted_in_def)
    ultimately show ?thesis using d(3) [OF y] d(4) [OF y] unfolding good_gcall_cong [OF parts]
      by (simp add: good_gcall_def used_ids_def)
  qed
  show "gp_call q \<in> used_ids uu ?st" if "q \<in> set (map snd (gparts ?st))" for q
  proof -
    obtain A B where "gparts st = A @ ((k, u), p) # B" "AList.map_entry (k, u) f (gparts st) = A @ ((k, u), f p) # B"
      using map_entry_split [OF p] by metis
    with that have "q \<in> set (map snd (gparts st)) \<or> gp_call q = gp_call p" using f(1) by auto
    then show ?thesis using d(5) map_of_values [OF p] by (auto simp: used_ids_def simp del: set_map)
  qed
qed

section \<open>Operations\<close>

lemma status_same: "c\<lparr>gc_status := gc_status c\<rparr> = c"
  by simp

lemma set_gcall_cong:
  "map_of (gcalls st) k = Some c \<Longrightarrow> f c = g c \<Longrightarrow> set_gcall k f st = set_gcall k g st"
  by (elim map_entry_split) (simp add: set_gcall_def)

lemma gone_simps [simp]:
  "gp_call (gone s t p) = gp_call p" "gp_user (gone s t p) = gp_user p" "gp_status (gone s t p) = s"
  by (simp_all add: gone_def)

lemma accepted_part_simps [simp]:
  "gp_call (accepted_part t p) = gp_call p" "gp_user (accepted_part t p) = gp_user p"
  "gp_status (accepted_part t p) = GP_Accepted"
  by (simp_all add: accepted_part_def)

lemma calls_leave_call:
  assumes wf: "wf_gcalls uu st"
  shows "wf_gcalls uu (snd (leave_call t cid u k (out, st)))"
proof (cases "map_of (gparts st) k")
  case None
  with wf show ?thesis by (simp add: leave_call_def)
next
  case (Some p)
  have key: "k = (gp_call p, gp_user p)" by (rule parts_key [OF wf_gcallsD(1) [OF wf] Some])
  show ?thesis
  proof (cases "map_of (gcalls st) (gp_call p)")
    case None
    with wf Some show ?thesis by (simp add: leave_call_def)
  next
    case c: (Some c)
    let ?s1 = "set_gpart k (gone GP_Left t) st"
    have "wf_gcalls uu (set_gcall (gp_call p) (\<lambda>c. bump_call t (end_if_empty (call_occupied (gp_call p) ?s1) t c)) ?s1)"
      if "gc_status c \<noteq> GC_Ended"
    proof -
      have "set_gcall (gp_call p) (\<lambda>c. bump_call t (end_if_empty (call_occupied (gp_call p) ?s1) t c)) ?s1 =
          set_gcall (gp_call p) (\<lambda>x. bump_call t (end_if_empty (call_occupied (gp_call p) ?s1) t (x\<lparr>gc_status := gc_status c\<rparr>))) ?s1"
        by (rule set_gcall_cong [of _ _ c]) (simp_all add: c)
      also have "wf_gcalls uu \<dots>" unfolding key
        by (rule settled_wf [OF wf Some [unfolded key] c that]) (simp_all add: accepted_in_def that)
      finally show ?thesis .
    qed
    then show ?thesis using wf Some c by (simp add: leave_call_def Let_def)
  qed
qed

lemma calls_leave_calls: "wf_gcalls uu st \<Longrightarrow> wf_gcalls uu (snd (leave_calls t cid u st))"
proof -
  assume wf: "wf_gcalls uu st"
  have "wf_gcalls uu (snd s) \<Longrightarrow> wf_gcalls uu (snd (fold (leave_call t cid u) ks s))" for ks s
    by (induction ks arbitrary: s) (simp_all, metis calls_leave_call prod.collapse)
  with wf show ?thesis by (simp add: leave_calls_def)
qed

lemma change_parts_simps [simp]:
  "gcalls (change_parts P f st) = gcalls st" "uuids (change_parts P f st) = uuids st" "groups (change_parts P f st) = groups st"
  "map snd (gparts (change_parts P f st)) = map (\<lambda>p. if P p then f p else p) (map snd (gparts st))"
  by (simp_all add: change_parts_def comp_def case_prod_unfold)

lemma wf_parts_change:
  assumes "\<And>p. gp_call (f p) = gp_call p" "\<And>p. gp_user (f p) = gp_user p"
  shows "wf_parts st \<Longrightarrow> wf_parts (change_parts P f st)"
  using assms by (auto simp: wf_parts_def change_parts_def comp_def case_prod_unfold)

lemma occupied_values: "call_occupied k st \<longleftrightarrow> (\<exists>p \<in> set (map snd (gparts st)). gp_call p = k \<and> part_live p)"
  by (simp only: call_occupied_def)

text \<open>The sweep over one call's participants leaves other calls as they were.\<close>

lemma change_parts_other:
  assumes "\<And>p. P p \<Longrightarrow> gp_call p = k" and "\<And>p. gp_call (f p) = gp_call p" and "j \<noteq> k"
  shows "call_occupied j (change_parts P f st) = call_occupied j st"
    and "accepted_count j (change_parts P f st) = accepted_count j st"
proof -
  have same: "(if P p then f p else p) = p" if "gp_call p = j" for p using assms(1,3) that by auto
  have calls: "gp_call (if P p then f p else p) = gp_call p" for p by (simp add: assms(2))
  have "(\<exists>p \<in> (\<lambda>p. if P p then f p else p) ` A. gp_call p = j \<and> part_live p) \<longleftrightarrow> (\<exists>p \<in> A. gp_call p = j \<and> part_live p)" for A
    unfolding bex_simps by (intro bex_cong refl) (use calls same in metis)
  then show "call_occupied j (change_parts P f st) = call_occupied j st"
    unfolding occupied_values change_parts_simps set_map .
  have acc: "accepted_in j (if P p then f p else p) = accepted_in j p" for p
    by (cases "gp_call p = j") (simp_all only: same, simp add: accepted_in_def calls)
  have keep: "(if P p then f p else p) = p" if "accepted_in j p" for p
    using that by (intro same) (simp add: accepted_in_def)
  have "filter (accepted_in j) (map (\<lambda>p. if P p then f p else p) ps) = filter (accepted_in j) ps" for ps
  proof (induction ps)
    case (Cons p ps)
    then show ?case
    proof (cases "accepted_in j p")
      case True
      with Cons show ?thesis by (simp only: list.map keep [OF True] filter.simps if_True)
    next
      case False
      with Cons show ?thesis by (simp only: list.map acc filter.simps if_False)
    qed
  qed simp
  then show "accepted_count j (change_parts P f st) = accepted_count j st"
    by (simp only: accepted_count_def change_parts_simps)
qed

lemma mapped_elem: "x \<in> set (map f xs) \<Longrightarrow> (\<And>y. y \<in> set xs \<Longrightarrow> P (f y)) \<Longrightarrow> P x"
  by auto

lemma length_filter_none: "(\<And>x. x \<in> set xs \<Longrightarrow> \<not> P x) \<Longrightarrow> length (filter P xs) = 0"
  by (simp add: filter_empty_conv)

lemma calls_expire:
  assumes wf: "wf_gcalls uu st"
  shows "wf_gcalls uu (snd (expireCall k t st))"
proof (cases "map_of (gcalls st) k")
  case None
  with wf show ?thesis by (simp add: expireCall_def)
next
  case (Some c)
  show ?thesis
  proof (cases "ring_overdue t c st")
    case False
    with wf Some show ?thesis by (simp add: expireCall_def)
  next
    case True
    note d = wf_gcallsD [OF wf]
    define at where "at = max t (gc_updated c + 1)"
    define st1 where "st1 = change_parts (ringing_in k) (gone GP_Declined at) st"
    define st2 where "st2 = (if gc_status c = GC_Ringing then change_parts (accepted_in k) (gone GP_Left at) st1 else st1)"
    define over where "over = (gc_status c = GC_Ringing \<or> \<not> (\<exists>p \<in> set (map snd (gparts st2)). accepted_in k p))"
    have result: "snd (expireCall k t st) = set_gcall k (\<lambda>c. bump_call at (end_if_empty (\<not> over) at c)) st2"
      using Some True by (simp add: expireCall_def Let_def at_def st1_def st2_def over_def)
    have running: "gc_status c \<noteq> GC_Ended" using True by (simp add: ring_overdue_def)
    have ps: "wf_parts st2" using d(1) by (simp add: st1_def st2_def wf_parts_change)
    have frame: "gcalls st2 = gcalls st" "uuids st2 = uuids st" by (simp_all add: st1_def st2_def)
    define ps where "ps = map snd (gparts st)"
    have v1: "map snd (gparts st1) = map (\<lambda>p. if ringing_in k p then gone GP_Declined at p else p) ps"
      by (simp only: st1_def change_parts_simps ps_def)
    have v2: "map snd (gparts st2) = (if gc_status c = GC_Ringing
        then map (\<lambda>p. if accepted_in k p then gone GP_Left at p else p) (map snd (gparts st1)) else map snd (gparts st1))"
      by (simp only: st2_def change_parts_simps split: if_split) simp
    have none_ringing1: "\<not> ringing_in k p" if "p \<in> set (map snd (gparts st1))" for p
      using that unfolding v1 by (rule mapped_elem) (simp add: ringing_in_def)
    have none_ringing: "\<not> ringing_in k p" if p: "p \<in> set (map snd (gparts st2))" for p
    proof (cases "gc_status c = GC_Ringing")
      case True
      have "p \<in> set (map (\<lambda>p. if accepted_in k p then gone GP_Left at p else p) (map snd (gparts st1)))"
        using p unfolding v2 if_P [OF True] .
      then show ?thesis by (rule mapped_elem) (use none_ringing1 in \<open>simp add: ringing_in_def del: set_map\<close>)
    next
      case False
      show ?thesis using p unfolding v2 if_not_P [OF False] by (rule none_ringing1)
    qed
    have none_accepted: "\<not> accepted_in k p" if p: "p \<in> set (map snd (gparts st2))" and r: "gc_status c = GC_Ringing" for p
      using p unfolding v2 if_P [OF r] by (rule mapped_elem) (simp add: accepted_in_def)
    have occupied: "call_occupied k st2 \<longleftrightarrow> \<not> over"
    proof -
      have live: "(gp_call p = k \<and> part_live p) = accepted_in k p" if "p \<in> set (map snd (gparts st2))" for p
        using none_ringing [OF that] by (auto simp: part_live_def accepted_in_def ringing_in_def)
      have "call_occupied k st2 \<longleftrightarrow> (\<exists>p \<in> set (map snd (gparts st2)). accepted_in k p)"
        unfolding occupied_values by (rule bex_cong [OF refl live])
      then show ?thesis unfolding over_def using none_accepted by blast
    qed
    have count: "accepted_count k st2 \<le> accepted_count k st"
    proof -
      have s1: "accepted_count k st1 = accepted_count k st"
        unfolding accepted_count_def v1 ps_def [symmetric]
        by (induction ps) (auto simp: accepted_in_def ringing_in_def)
      show ?thesis
      proof (cases "gc_status c = GC_Ringing")
        case True
        then have "accepted_count k st2 = 0"
          unfolding accepted_count_def using none_accepted by (intro length_filter_none) blast
        then show ?thesis by simp
      qed (simp add: st2_def s1)
    qed
    have others: "call_occupied j st2 = call_occupied j st" "accepted_count j st2 = accepted_count j st" if "j \<noteq> k" for j
    proof -
      have r: "ringing_in k p \<Longrightarrow> gp_call p = k" and a: "accepted_in k p \<Longrightarrow> gp_call p = k" for p
        by (simp_all add: ringing_in_def accepted_in_def)
      note o1 = change_parts_other [where f = "gone GP_Declined at", OF r _ that]
        and o2 = change_parts_other [where f = "gone GP_Left at", OF a _ that]
      show "call_occupied j st2 = call_occupied j st" by (simp add: st1_def st2_def o1(1) o2(1))
      show "accepted_count j st2 = accepted_count j st" by (simp add: st1_def st2_def o1(2) o2(2))
    qed
    show ?thesis unfolding result
    proof (rule wf_gcallsI)
      let ?st = "set_gcall k (\<lambda>c. bump_call at (end_if_empty (\<not> over) at c)) st2"
      have parts: "gparts ?st = gparts st2" by simp
      show "wf_parts ?st" using ps by (simp add: wf_parts_def)
      show "distinct (map fst (gcalls ?st))" using d(2) by (simp add: frame)
      show "good_gcall j x ?st \<and> j \<in> used_ids uu ?st" if x: "map_of (gcalls ?st) j = Some x" for j x
      proof (cases "j = k")
        case True
        then have "x = bump_call at (end_if_empty (\<not> over) at c)" using x Some by (simp add: frame)
        with True d(3,4) [OF Some] running occupied count show ?thesis unfolding good_gcall_cong [OF parts]
          by (simp add: good_gcall_def bump_call_def end_if_empty_def used_ids_def frame)
      next
        case False
        then have y: "map_of (gcalls st) j = Some x" using x by (simp add: frame)
        from False d(3,4) [OF y] others show ?thesis unfolding good_gcall_cong [OF parts]
          by (simp add: good_gcall_def used_ids_def frame)
      qed
      show "gp_call q \<in> used_ids uu ?st" if q: "q \<in> set (map snd (gparts ?st))" for q
      proof -
        have "\<exists>p \<in> set (map snd (gparts st)). gp_call q = gp_call p"
          using q unfolding set_gcall_simps v2 v1 ps_def [symmetric] by (auto split: if_splits)
        then show ?thesis using d(5) by (auto simp: used_ids_def frame simp del: set_map)
      qed
    qed
  qed
qed

lemma transitioned_participant:
  assumes "transitionGroupCallParticipant k p act t ps = Inr (Some p')" and "gp_call p = k"
  shows "gp_call p' = gp_call p" and "gp_user p' = gp_user p"
    and "accepted_in k p' \<Longrightarrow> act = Accept \<and> length (filter (accepted_in k) ps) < MAX_GROUP_CALL_PARTICIPANTS"
    and "act = Accept \<Longrightarrow> part_live p'"
  using assms by (auto simp: transitionGroupCallParticipant_def assertGroupCallCapacity_def part_live_def accepted_in_def
      split: call_action.splits option.splits if_splits)

lemma calls_transition:
  assumes wf: "wf_gcalls uu st"
  shows "wf_gcalls uu (snd (transitionGroupCall env k u act st))"
proof -
  have expired: "wf_gcalls uu st1" if "expireCall k (g_now env) st = (r, st1)" for r st1
    using calls_expire [OF wf, of k "g_now env"] that by simp
  have moved: "wf_gcalls uu (set_gcall k (\<lambda>c. end_if_empty (call_occupied k (set_gpart (k, u) (\<lambda>_. p') st)) t
        ((bump_call t c)\<lparr>gc_status := (if act = Accept then GC_Active else gc_status c)\<rparr>)) (set_gpart (k, u) (\<lambda>_. p') st))"
    if c: "map_of (gcalls st) k = Some c" "gc_status c \<noteq> GC_Ended" and p: "map_of (gparts st) (k, u) = Some p"
      and p': "transitionGroupCallParticipant k p act t (map snd (gparts st)) = Inr (Some p')" for c p p' t
  proof -
    let ?s1 = "set_gpart (k, u) (\<lambda>_. p') st"
    let ?s = "if act = Accept then GC_Active else gc_status c"
    have key: "gp_call p = k" using parts_key [OF wf_gcallsD(1) [OF wf] p] by simp
    note q = transitioned_participant [OF p' key]
    have "set_gcall k (\<lambda>c. end_if_empty (call_occupied k ?s1) t
        ((bump_call t c)\<lparr>gc_status := (if act = Accept then GC_Active else gc_status c)\<rparr>)) ?s1 =
      set_gcall k (\<lambda>x. bump_call t (end_if_empty (call_occupied k ?s1) t (x\<lparr>gc_status := ?s\<rparr>))) ?s1"
      by (rule set_gcall_cong [of _ _ c]) (simp_all add: c(1) end_if_empty_def bump_call_def)
    also have "wf_gcalls uu \<dots>"
      by (rule settled_wf [OF wf p c]) (use q c(2) in \<open>auto simp: accepted_count_def\<close>)
    finally show ?thesis .
  qed
  show ?thesis
    using wf expired moved
    by (auto simp: transitionGroupCall_def Let_def simp del: map_of_update split: option.split sum.split prod.split)
qed

text \<open>A new call.\<close>

lemma new_parts:
  "distinct us \<Longrightarrow> (\<And>u. u \<in> set us \<Longrightarrow> (k, u) \<notin> set (map fst m)) \<Longrightarrow>
   fold (\<lambda>u. AList.update (k, u) (f u)) us m = m @ map (\<lambda>u. ((k, u), f u)) us"
proof (induction us arbitrary: m)
  case Nil
  then show ?case by simp
next
  case (Cons u us)
  have u: "AList.update (k, u) (f u) m = m @ [((k, u), f u)]" by (rule update_fresh) (use Cons.prems(2) in simp)
  have "fold (\<lambda>u. AList.update (k, u) (f u)) us (m @ [((k, u), f u)]) =
      (m @ [((k, u), f u)]) @ map (\<lambda>u. ((k, u), f u)) us"
    by (rule Cons.IH) (use Cons.prems in force)+
  with u show ?case by simp
qed

lemma calls_place:
  assumes "inj uu" and wf: "wf_gcalls uu st" and uu: "g_uuid env = uu"
    and us: "distinct us" "sa_initiator a \<notin> set us"
  shows "wf_gcalls uu (snd (place_gcall env a g us st))"
proof (rule wf_gcallsI)
  note d = wf_gcallsD [OF wf]
  let ?k = "uu (uuids st)" and ?t = "activityTime env g" and ?all = "sa_initiator a # us"
  let ?st = "snd (place_gcall env a g us st)"
  have fresh: "?k \<notin> used_ids uu st" using assms(1) by (auto simp: used_ids_def inj_def)
  have nopart: "gp_call p \<noteq> ?k" if "p \<in> set (map snd (gparts st))" for p using d(5) [OF that] fresh by auto
  have keys: "(?k, u) \<notin> set (map fst (gparts st))" for u
  proof
    assume "(?k, u) \<in> set (map fst (gparts st))"
    then obtain p where p: "map_of (gparts st) (?k, u) = Some p" using in_keys_map_of by metis
    with nopart [OF map_of_values [OF p]] parts_key [OF d(1) p] show False by simp
  qed
  have parts: "gparts ?st = gparts st @ map (\<lambda>u. ((?k, u), new_gpart a ?k ?t u)) ?all"
    using new_parts [OF _ keys, of ?all] us
    by (simp add: place_gcall_def Let_def fresh_uuid_def uu del: fold.simps)
  have calls: "map_of (gcalls ?st) j = (if j = ?k then Some (new_gcall env a ?k ?t) else map_of (gcalls st) j)" for j
    by (simp add: place_gcall_def Let_def fresh_uuid_def uu)
  have ids: "uuids ?st = Suc (uuids st)" by (simp add: place_gcall_def Let_def)
  have used: "j \<in> used_ids uu ?st" if "j \<in> used_ids uu st \<or> j = ?k" for j
    using that by (auto simp: used_ids_def ids)
  have vals: "map snd (gparts ?st) = map snd (gparts st) @ map (new_gpart a ?k ?t) ?all"
    unfolding parts by (simp add: comp_def)
  have accepted: "accepted_count ?k ?st = 1"
  proof -
    have "filter (accepted_in ?k) (map snd (gparts st)) = []"
      using nopart by (auto simp: filter_empty_conv accepted_in_def simp del: set_map)
    moreover have "filter (accepted_in ?k) (map (new_gpart a ?k ?t) us) = []"
      using us(2) by (auto simp: filter_empty_conv accepted_in_def new_gpart_def)
    moreover have "accepted_in ?k (new_gpart a ?k ?t (sa_initiator a))" by (simp add: accepted_in_def new_gpart_def)
    ultimately show ?thesis unfolding accepted_count_def vals by (simp only: filter_append list.map filter.simps if_True) simp
  qed
  have others: "call_occupied j ?st = call_occupied j st" "accepted_count j ?st = accepted_count j st" if "j \<noteq> ?k" for j
  proof -
    have "filter (accepted_in j) (map (new_gpart a ?k ?t) ?all) = []"
      using that by (auto simp: filter_empty_conv accepted_in_def new_gpart_def)
    then show "accepted_count j ?st = accepted_count j st" unfolding accepted_count_def vals by (simp only: filter_append) simp
    show "call_occupied j ?st = call_occupied j st"
      unfolding call_occupied_def parts using that by (auto simp: new_gpart_def)
  qed
  show "wf_parts ?st"
  proof -
    have "distinct (map fst (gparts ?st))" using d(1) keys us by (auto simp: wf_parts_def parts distinct_map inj_on_def)
    then show ?thesis using d(1) by (auto simp: wf_parts_def parts new_gpart_def)
  qed
  show "distinct (map fst (gcalls ?st))" using d(2) by (simp add: place_gcall_def Let_def distinct_update)
  show "good_gcall j c ?st \<and> j \<in> used_ids uu ?st" if c: "map_of (gcalls ?st) j = Some c" for j c
  proof (cases "j = ?k")
    case True
    have "call_occupied ?k ?st" unfolding call_occupied_def parts by (auto simp: new_gpart_def part_live_def)
    with True c accepted used show ?thesis
      by (auto simp: calls good_gcall_def new_gcall_def MAX_GROUP_CALL_PARTICIPANTS_def)
  next
    case False
    then have "map_of (gcalls st) j = Some c" using c by (simp add: calls)
    with d(3,4) False others used show ?thesis by (simp add: good_gcall_def)
  qed
  show "gp_call p \<in> used_ids uu ?st" if p: "p \<in> set (map snd (gparts ?st))" for p
  proof -
    have "p \<in> set (map snd (gparts st)) \<or> gp_call p = ?k" using p by (auto simp: parts new_gpart_def)
    with d(5) show ?thesis by (auto intro!: used simp del: set_map)
  qed
qed

lemma calls_rounds:
  assumes "inj uu" and uu: "g_uuid env = uu" and keeps: "\<And>f s. f \<in> set fs \<Longrightarrow> wf_groups uu s \<and> wf_gcalls uu s \<Longrightarrow> wf_groups uu (f s) \<and> wf_gcalls uu (f s)"
  shows "wf_groups uu st \<and> wf_gcalls uu st \<Longrightarrow> wf_gcalls uu (snd (start_rounds env a fs st))"
  using keeps
proof (induction fs arbitrary: st)
  case Nil
  have us: "distinct (filter (\<lambda>u. u \<noteq> sa_initiator a) (map gm_user (listMembers (sa_conv a) st)))"
    if "live_group (sa_conv a) st \<noteq> None"
    using wf_groupsD(1) [OF conjunct1 [OF Nil.prems(1)] that] by (simp add: good_members_def listMembers_active)
  show ?case using Nil.prems(1) calls_place [OF assms(1) _ uu us]
    by (auto simp: Let_def case_prod_unfold split: sum.split option.split)
next
  case (Cons f fs)
  let ?s1 = "f st"
  have s1: "wf_groups uu ?s1 \<and> wf_gcalls uu ?s1" using Cons.prems by simp
  have IH: "wf_gcalls uu (snd (start_rounds env a fs ?s1))" by (rule Cons.IH [OF s1]) (use Cons.prems(2) in auto)
  have us: "distinct (filter (\<lambda>u. u \<noteq> sa_initiator a) (map gm_user (listMembers (sa_conv a) st)))"
    if "requireActiveMember (sa_conv a) (sa_initiator a) st = Inr m" for m
    using wf_groupsD(1) [OF conjunct1 [OF Cons.prems(1)] required_member(1) [OF that]]
    by (simp add: good_members_def listMembers_active)
  show ?case using Cons.prems(1) s1 IH calls_place [OF assms(1) _ uu us]
    by (auto simp: Let_def case_prod_unfold simp del: start_rounds.simps
        simp: start_rounds.simps [of env a "f # fs"] split: sum.split option.split)
qed

lemma calls_start: "inj uu \<Longrightarrow> g_uuid env = uu \<Longrightarrow> wf_groups uu st \<Longrightarrow> wf_gcalls uu st \<Longrightarrow> wf_gcalls uu (snd (startCall env a [] st))"
  using calls_rounds [of uu env "[]" st a] by (simp add: startCall_def del: start_rounds.simps split: option.split)

section \<open>Erasure\<close>

lemma filter_update_le: "\<not> P v \<Longrightarrow> length (filter P (map snd (AList.update k v m))) \<le> length (filter P (map snd m))"
  by (induction m) auto

lemma filter_delete_le: "length (filter P (map snd (AList.delete k m))) \<le> length (filter P (map snd m))"
  by (induction m) auto

lemma leave_if_live_simps [simp]:
  "gp_call (leave_if_live t p) = gp_call p" "gp_user (leave_if_live t p) = gp_user p" "\<not> part_live (leave_if_live t p)"
  by (auto simp: leave_if_live_def part_live_def gone_def)

definition renamed :: "string \<Rightarrow> int \<Rightarrow> gparticipant \<Rightarrow> gparticipant" where
  "renamed pseud t p = (leave_if_live t p)\<lparr>gp_user := pseud\<rparr>"

lemma renamed_simps [simp]:
  "gp_call (renamed pseud t p) = gp_call p" "gp_user (renamed pseud t p) = pseud" "\<not> part_live (renamed pseud t p)"
  using leave_if_live_simps(3) [of t p] by (simp_all add: renamed_def part_live_def)

lemma rename_parts: "gparts (rename_part pseud t p st) =
    AList.update (gp_call p, pseud) (renamed pseud t p) (AList.delete (gp_call p, gp_user p) (gparts st))"
  by (simp add: rename_part_def renamed_def)

lemma rename_part_simps [simp]:
  "gcalls (rename_part pseud t p st) = gcalls st" "uuids (rename_part pseud t p st) = uuids st"
  by (simp_all add: rename_part_def)

text \<open>Renaming one participant: fewer people in that call, other calls as they were.\<close>

lemma set_update_le: "set (AList.update k v m) \<subseteq> insert (k, v) (set m)"
  by (induction m) auto

lemma set_delete_le: "set (AList.delete k m) \<subseteq> set m"
  by (auto simp: AList.delete_eq)

lemma rename_wf_parts:
  assumes "wf_parts st"
  shows "wf_parts (rename_part pseud t p st)"
proof -
  have "set (gparts (rename_part pseud t p st)) \<subseteq> insert ((gp_call p, pseud), renamed pseud t p) (set (gparts st))"
    unfolding rename_parts using set_update_le set_delete_le by (rule subset_trans [OF _ insert_mono])
  then have "\<forall>(k, q) \<in> set (gparts (rename_part pseud t p st)). k = (gp_call q, gp_user q)"
    using assms by (auto simp: wf_parts_def)
  moreover have "distinct (map fst (gparts (rename_part pseud t p st)))"
    unfolding rename_parts using assms by (simp add: wf_parts_def distinct_update distinct_delete)
  ultimately show ?thesis by (simp add: wf_parts_def)
qed

lemma rename_values: "set (map snd (gparts (rename_part pseud t p st))) \<subseteq> insert (renamed pseud t p) (set (map snd (gparts st)))"
  unfolding rename_parts using values_update values_delete by (rule subset_trans [OF _ insert_mono])

lemma rename_occupied: "call_occupied k (rename_part pseud t p st) \<Longrightarrow> call_occupied k st"
proof -
  assume "call_occupied k (rename_part pseud t p st)"
  then obtain q where q: "q \<in> set (map snd (gparts (rename_part pseud t p st)))" "gp_call q = k" "part_live q"
    by (auto simp: occupied_values simp del: set_map)
  have "q \<noteq> renamed pseud t p" using q(3) by auto
  with rename_values q show ?thesis unfolding occupied_values by blast
qed

lemma rename_count: "accepted_count k (rename_part pseud t p st) \<le> accepted_count k st"
proof -
  have "\<not> accepted_in k (renamed pseud t p)" using renamed_simps(3) [of pseud t p] by (auto simp: accepted_in_def part_live_def)
  from filter_update_le [of "accepted_in k", OF this] filter_delete_le show ?thesis
    unfolding accepted_count_def rename_parts by (rule order.trans)
qed

lemma rename_other:
  assumes "wf_parts st" and "gp_call p \<noteq> k"
  shows "call_occupied k (rename_part pseud t p st) = call_occupied k st"
proof
  assume "call_occupied k st"
  then obtain q where q: "q \<in> set (map snd (gparts st))" "gp_call q = k" "part_live q"
    by (auto simp: occupied_values simp del: set_map)
  have "map_of (gparts st) (gp_call q, gp_user q) = Some q"
    using map_of_valuesD [OF q(1)] assms(1) parts_key [OF assms(1)] by (auto simp: wf_parts_def)
  then have "map_of (gparts (rename_part pseud t p st)) (gp_call q, gp_user q) = Some q"
    using assms(2) q(2) by (simp add: rename_parts)
  then have "q \<in> set (map snd (gparts (rename_part pseud t p st)))" by (rule map_of_values)
  with q show "call_occupied k (rename_part pseud t p st)" unfolding occupied_values by blast
qed (rule rename_occupied)

lemma renames:
  assumes "wf_parts st"
  shows "wf_parts (fold (rename_part pseud t) ps st)"
    and "gcalls (fold (rename_part pseud t) ps st) = gcalls st" and "uuids (fold (rename_part pseud t) ps st) = uuids st"
    and "call_occupied k (fold (rename_part pseud t) ps st) \<Longrightarrow> call_occupied k st"
    and "accepted_count k (fold (rename_part pseud t) ps st) \<le> accepted_count k st"
    and "k \<notin> set (map gp_call ps) \<Longrightarrow> call_occupied k (fold (rename_part pseud t) ps st) = call_occupied k st"
    and "q \<in> set (map snd (gparts (fold (rename_part pseud t) ps st))) \<Longrightarrow>
      (\<exists>p \<in> set ps. gp_call q = gp_call p) \<or> (\<exists>p \<in> set (map snd (gparts st)). gp_call q = gp_call p)"
proof -
  let ?f = "\<lambda>ps. fold (rename_part pseud t) ps st"
  show wf: "wf_parts (?f ps)" for ps by (rule fold_invariant_pred [where P = wf_parts]) (simp_all add: rename_wf_parts assms)
  show "gcalls (?f ps) = gcalls st" "uuids (?f ps) = uuids st" by (induction ps rule: rev_induct) simp_all
  show "call_occupied k (?f ps) \<Longrightarrow> call_occupied k st"
    by (induction ps rule: rev_induct) (auto dest: rename_occupied)
  show "accepted_count k (?f ps) \<le> accepted_count k st"
    by (induction ps rule: rev_induct) (auto intro: order.trans [OF rename_count])
  show "k \<notin> set (map gp_call ps) \<Longrightarrow> call_occupied k (?f ps) = call_occupied k st"
    by (induction ps rule: rev_induct) (use rename_other [OF wf] in auto)
  show "q \<in> set (map snd (gparts (?f ps))) \<Longrightarrow>
      (\<exists>p \<in> set ps. gp_call q = gp_call p) \<or> (\<exists>p \<in> set (map snd (gparts st)). gp_call q = gp_call p)"
  proof (induction ps rule: rev_induct)
    case (snoc p ps)
    have "q = renamed pseud t p \<or> q \<in> set (map snd (gparts (?f ps)))"
      using snoc.prems rename_values [of pseud t p "?f ps"] by (simp del: set_map) blast
    with snoc.IH show ?case by (auto simp del: set_map)
  next
    case Nil
    then show ?case by (simp del: set_map) blast
  qed
qed

text \<open>Between renaming and settling, the calls in \<open>K\<close> may have emptied without being over.\<close>

definition wf_unsettled :: "(nat \<Rightarrow> string) \<Rightarrow> string set \<Rightarrow> group_store \<Rightarrow> bool" where
  "wf_unsettled uu K st =
     (wf_parts st \<and> distinct (map fst (gcalls st)) \<and>
      (\<forall>k c. map_of (gcalls st) k = Some c \<longrightarrow>
         gc_id c = k \<and> (gc_status c = GC_Ended \<longrightarrow> \<not> call_occupied k st) \<and>
         (k \<notin> K \<longrightarrow> \<not> call_occupied k st \<longrightarrow> gc_status c = GC_Ended) \<and> (gc_ended c = None \<longleftrightarrow> gc_status c \<noteq> GC_Ended) \<and>
         accepted_count k st \<le> MAX_GROUP_CALL_PARTICIPANTS \<and> k \<in> used_ids uu st) \<and>
      (\<forall>p \<in> set (map snd (gparts st)). gp_call p \<in> used_ids uu st))"

lemma wf_unsettled_none: "wf_unsettled uu {} st = wf_gcalls uu st"
  by (auto simp: wf_unsettled_def wf_gcalls_def good_gcall_def simp del: set_map)

lemma settle_call_unsettled:
  assumes wf: "wf_unsettled uu K st"
  shows "wf_unsettled uu (K - {k}) (settle_call t k st)"
proof -
  let ?st = "settle_call t k st"
  have frame: "gparts ?st = gparts st" "uuids ?st = uuids st" "map fst (gcalls ?st) = map fst (gcalls st)"
    by (simp_all add: settle_call_def)
  have same: "call_occupied j ?st = call_occupied j st" "accepted_count j ?st = accepted_count j st"
    "used_ids uu ?st = used_ids uu st" "wf_parts ?st = wf_parts st" for j
    by (simp_all add: call_occupied_def accepted_count_def used_ids_def wf_parts_def frame)
  let ?f = "\<lambda>c. bump_call t (end_if_empty (call_occupied k st) t c)"
  have lookup: "map_of (gcalls ?st) j = (if j = k then map_option ?f (map_of (gcalls st) k) else map_of (gcalls st) j)" for j
    by (simp add: settle_call_def)
  have f: "gc_id (?f c) = gc_id c" "gc_status (?f c) = (if call_occupied k st then gc_status c else GC_Ended)"
    "gc_ended (?f c) = (if call_occupied k st then gc_ended c else Some t)" for c
    by (simp_all add: bump_call_def end_if_empty_def)
  have d: "gc_id c = j" "gc_status c = GC_Ended \<Longrightarrow> \<not> call_occupied j st"
    "j \<notin> K \<Longrightarrow> \<not> call_occupied j st \<Longrightarrow> gc_status c = GC_Ended" "gc_ended c = None \<longleftrightarrow> gc_status c \<noteq> GC_Ended"
    "accepted_count j st \<le> MAX_GROUP_CALL_PARTICIPANTS" "j \<in> used_ids uu st"
    if "map_of (gcalls st) j = Some c" for j c
    using wf that by (simp_all add: wf_unsettled_def del: set_map)
  show ?thesis
    unfolding wf_unsettled_def same frame
  proof (intro conjI allI impI)
    fix j c
    assume "map_of (gcalls ?st) j = Some c"
    then consider (other) "j \<noteq> k" "map_of (gcalls st) j = Some c" | (k) z where "j = k" "map_of (gcalls st) k = Some z" "c = ?f z"
      by (auto simp: lookup split: if_splits)
    note cases = this
    show "gc_id c = j" using cases by cases (simp_all add: d f)
    show "\<not> call_occupied j st" if "gc_status c = GC_Ended" using cases that by cases (auto simp: f dest: d(2))
    show "gc_status c = GC_Ended" if "j \<notin> K - {k}" "\<not> call_occupied j st" using cases that by cases (auto simp: bump_call_def end_if_empty_def dest: d(3))
    show "(gc_ended c = None) = (gc_status c \<noteq> GC_Ended)" using cases by cases (simp_all add: f d(4))
    show "accepted_count j st \<le> MAX_GROUP_CALL_PARTICIPANTS" "j \<in> used_ids uu st" using cases d(5,6) by (cases; blast)+
  qed (use wf in \<open>simp_all add: wf_unsettled_def del: set_map\<close>)
qed

lemma settle_calls_unsettled: "wf_unsettled uu K st \<Longrightarrow> wf_unsettled uu (K - set ks) (fold (settle_call t) ks st)"
proof (induction ks arbitrary: K st)
  case (Cons k ks)
  have "K - set (k # ks) = K - {k} - set ks" by auto
  with Cons.IH [OF settle_call_unsettled [OF Cons.prems], of k t] show ?case by simp
qed simp

lemma calls_anonymize:
  assumes wf: "wf_gcalls uu st"
  shows "wf_gcalls uu (anonymizeCalls u pseud t st)"
proof -
  note d = wf_gcallsD [OF wf]
  let ?g = "\<lambda>c. c\<lparr>gc_initiator := rename_user u pseud (gc_initiator c)\<rparr>"
  let ?st1 = "st\<lparr>gcalls := map (\<lambda>(k, c). (k, ?g c)) (gcalls st)\<rparr>"
  let ?rs = "filter (\<lambda>p. gp_user p = u) (map snd (gparts st))"
  let ?st2 = "fold (rename_part pseud t) ?rs ?st1"
  have parts1: "wf_parts ?st1" using d(1) by (simp add: wf_parts_def)
  note r = renames [OF parts1, where pseud = pseud and t = t and ps = ?rs]
  have lookup: "map_of (gcalls ?st2) k = map_option ?g (map_of (gcalls st) k)" for k
    by (simp add: r(2) map_of_map [unfolded comp_def])
  have same: "call_occupied k ?st1 = call_occupied k st" "accepted_count k ?st1 = accepted_count k st" for k
    by (simp_all add: call_occupied_def accepted_count_def)
  have used: "used_ids uu ?st2 = used_ids uu st" by (simp add: used_ids_def r(3))
  have "wf_unsettled uu (set (map gp_call ?rs)) ?st2"
    unfolding wf_unsettled_def
  proof (intro conjI allI impI ballI)
    show "wf_parts ?st2" by (rule r(1))
    have "map fst (gcalls ?st2) = map fst (gcalls st)" unfolding r(2) by (simp add: comp_def case_prod_unfold)
    then show "distinct (map fst (gcalls ?st2))" using d(2) by simp
    show "gp_call p \<in> used_ids uu ?st2" if "p \<in> set (map snd (gparts ?st2))" for p
      using r(7) [OF that] d(5) by (auto simp: used simp del: set_map)
  next
    fix k c
    assume "map_of (gcalls ?st2) k = Some c"
    then obtain c0 where c0: "map_of (gcalls st) k = Some c0" and c: "c = ?g c0" by (auto simp: lookup)
    note g = d(3) [OF c0, unfolded good_gcall_def] and u = d(4) [OF c0]
    show "gc_id c = k" "(gc_ended c = None) = (gc_status c \<noteq> GC_Ended)" using g by (simp_all add: c)
    show "\<not> call_occupied k ?st2" if "gc_status c = GC_Ended" using g that r(4) [of k] by (auto simp: c same)
    show "gc_status c = GC_Ended" if "k \<notin> set (map gp_call ?rs)" "\<not> call_occupied k ?st2"
      using g that(2) r(6) [OF that(1)] by (simp add: c same)
    show "accepted_count k ?st2 \<le> MAX_GROUP_CALL_PARTICIPANTS" using g order.trans [OF r(5) [of k]] by (simp add: same)
    show "k \<in> used_ids uu ?st2" using u by (simp add: used)
  qed
  from settle_calls_unsettled [OF this,
      of "uniq (map gc_id (filter (\<lambda>c. gc_initiator c = u) (map snd (gcalls st))) @ map gp_call ?rs)" t]
  have "wf_unsettled uu {} (anonymizeCalls u pseud t st)"
    by (simp add: anonymizeCalls_def Let_def Diff_eq_empty_iff [THEN iffD2])
  then show ?thesis by (simp add: wf_unsettled_none)
qed

text \<open>A group is collected with its calls and their participants.\<close>

lemma calls_collect:
  assumes wf: "wf_gcalls uu st"
  shows "wf_gcalls uu (collectEmptyGroup cid st)"
proof (cases "listMembers cid st = []")
  case False
  with wf show ?thesis by (simp add: collectEmptyGroup_def)
next
  case True
  note d = wf_gcallsD [OF wf]
  let ?st = "collectEmptyGroup cid st"
  let ?ids = "set (map gc_id (filter (\<lambda>c. gc_conv c = cid) (map snd (gcalls st))))"
  have f: "gcalls ?st = filter (\<lambda>(k, _). k \<notin> ?ids) (gcalls st)"
    "gparts ?st = filter (\<lambda>(_, p). gp_call p \<notin> ?ids) (gparts st)" "uuids ?st = uuids st"
    using True by (simp_all add: collectEmptyGroup_def collectGroupCalls_def captureGroupAttachments_def Let_def)
  define ids where "ids = ?ids"
  note f' = f [folded ids_def]
  have vals: "map snd (gparts ?st) = filter (\<lambda>p. gp_call p \<notin> ids) (map snd (gparts st))"
    by (simp add: f' filter_map comp_def case_prod_unfold)
  have used: "used_ids uu ?st = used_ids uu st" by (simp add: used_ids_def f(3))
  show ?thesis
  proof (rule wf_gcallsI)
    show "wf_parts ?st" using d(1) by (auto simp: wf_parts_def f' intro: distinct_map_filter)
    show "distinct (map fst (gcalls ?st))" using d(2) by (simp add: f' distinct_map_filter)
    show "good_gcall k c ?st \<and> k \<in> used_ids uu ?st" if kc: "map_of (gcalls ?st) k = Some c" for k c
    proof -
      have k: "k \<notin> ids" and c: "map_of (gcalls st) k = Some c"
        using map_of_SomeD [OF kc] d(2) by (auto simp: f' intro: map_of_is_SomeI)
      have "call_occupied k ?st = call_occupied k st" using k by (auto simp: occupied_values vals simp del: set_map)
      moreover have "accepted_count k ?st = accepted_count k st"
        unfolding accepted_count_def vals filter_filter using k
        by (auto simp: accepted_in_def intro!: arg_cong [where f = length] filter_cong)
      ultimately show ?thesis using d(3) [OF c] d(4) [OF c] by (simp add: good_gcall_def used)
    qed
    show "gp_call p \<in> used_ids uu ?st" if "p \<in> set (map snd (gparts ?st))" for p
      using that d(5) [of p] unfolding vals used by (simp del: set_map)
  qed
qed

end
