(* ===== verification/GroupCallProperties.thy ===== *)
theory GroupCallProperties
  imports GroupCallProofs
begin

text \<open>
  Every operation of the group store keeps the invariant of its calls, and what membership gives access to.
\<close>

section \<open>Operations that do not touch calls\<close>

definition calls_kept :: "group_store \<Rightarrow> group_store \<Rightarrow> bool" where
  "calls_kept st st' = (gcalls st' = gcalls st \<and> gparts st' = gparts st \<and> uuids st \<le> uuids st')"

lemma calls_kept_wf: "calls_kept st st' \<Longrightarrow> wf_gcalls uu st \<Longrightarrow> wf_gcalls uu st'"
  using wf_gcalls_cong by (auto simp: calls_kept_def)

lemma calls_kept_refl [simp, intro]: "calls_kept st st"
  by (simp add: calls_kept_def)

lemma calls_kept_trans: "calls_kept a b \<Longrightarrow> calls_kept b c \<Longrightarrow> calls_kept a c"
  by (auto simp: calls_kept_def)

text \<open>The writers the membership and message operations are built from.\<close>

lemma calls_kept_fields [simp]:
  "calls_kept st (s\<lparr>groups := gs\<rparr>) = calls_kept st s" "calls_kept st (s\<lparr>gmembers := ms\<rparr>) = calls_kept st s"
  "calls_kept st (s\<lparr>gmessages := xs\<rparr>) = calls_kept st s" "calls_kept st (s\<lparr>invitations := is\<rparr>) = calls_kept st s"
  "calls_kept st (s\<lparr>gevents := es\<rparr>) = calls_kept st s" "calls_kept st (s\<lparr>cleanup := us\<rparr>) = calls_kept st s"
  "calls_kept st (set_group cid g s) = calls_kept st s" "calls_kept st (set_member k m s) = calls_kept st s"
  "calls_kept st (set_gmessage j h s) = calls_kept st s"
  "calls_kept st (recordMessageChange x ty t s) = calls_kept st s"
  by (simp_all add: calls_kept_def set_group_def set_member_def set_gmessage_def recordMessageChange_def)

lemma calls_kept_uuids [simp]: "calls_kept st s \<Longrightarrow> uuids s \<le> n \<Longrightarrow> calls_kept st (s\<lparr>uuids := n\<rparr>)"
  by (simp add: calls_kept_def)

lemma calls_kept_event [simp]: "calls_kept st s \<Longrightarrow> calls_kept st (record_event env cid ev a u r s)"
  by (simp add: calls_kept_def record_event_def split: option.split)

lemma calls_kept_join [simp]: "calls_kept st s \<Longrightarrow> calls_kept st (snd (join_group env cid u r t s))"
  by (simp add: join_group_def Let_def calls_kept_def)

lemma calls_kept_issue [simp]:
  "calls_kept st s \<Longrightarrow> calls_kept st (snd (fold (issue_invitation env cid a t v) us (is, s)))"
proof (induction us arbitrary: "is" s)
  case (Cons u us)
  have "calls_kept st (snd (issue_invitation env cid a t v u (is, s)))"
    using Cons.prems by (simp add: issue_invitation_def Let_def)
  from Cons.IH [OF this, of "fst (issue_invitation env cid a t v u (is, s))"] show ?case by simp
qed simp

lemma calls_kept_invite [simp]: "calls_kept st s \<Longrightarrow> calls_kept st (snd (invite env cid g a us s))"
  by (simp add: invite_def Let_def case_prod_unfold split: option.split)

lemma calls_kept_hand_on [simp]: "calls_kept st (hand_on t m s) = calls_kept st s"
  by (simp add: hand_on_def split: option.split)

lemma calls_kept_erase [simp]: "calls_kept st s \<Longrightarrow> calls_kept st (eraseMembership env pseud k s)"
  by (simp add: eraseMembership_def Let_def split: option.split)

lemma calls_kept_anonymize [simp]: "calls_kept st (anonymizeInvitationsAndEvents u pseud t s) = calls_kept st s"
  by (simp add: anonymizeInvitationsAndEvents_def calls_kept_def)

lemma membership_ops_kept:
  "calls_kept st (snd (acceptInvitation env cid i u st))" "calls_kept st (snd (cancelInvitation env cid i a st))"
  "calls_kept st (snd (setRole env cid a u r st))" "calls_kept st (snd (transferOwnership env cid a u st))"
  "calls_kept st (snd (deleteGroup env cid a st))" "calls_kept st (snd (create env name c us st))"
  "calls_kept st (snd (updateName env cid a name st))" "calls_kept st (snd (addMembers env cid a us st))"
  by (simp_all add: acceptInvitation_def cancelInvitation_def setRole_def transferOwnership_def deleteGroup_def create_def
      updateName_def addMembers_def Let_def case_prod_unfold split: sum.split option.split prod.split)

lemma mark_read_kept [simp]:
  "calls_kept st s \<Longrightarrow> calls_kept st (snd (fold (mark_group_read cid u me t) ks (n, s)))"
proof (induction ks arbitrary: n s)
  case (Cons k ks)
  have "calls_kept st (snd (mark_group_read cid u me t k (n, s)))"
    using Cons.prems by (simp add: mark_group_read_def split: option.split)
  from Cons.IH [OF this, of "fst (mark_group_read cid u me t k (n, s))"] show ?case by simp
qed simp

lemma message_ops_kept:
  "calls_kept st (snd (saveGroupMessage env m st))" "calls_kept st (snd (deleteGroupMessage env cid mid u st))"
  "calls_kept st (snd (reactToGroupMessage env cid mid u em act st))" "calls_kept st (snd (markGroupDelivered cid mid u st))"
  "calls_kept st (snd (markGroupRead env cid u st))"
  by (simp_all add: saveGroupMessage_def deleteGroupMessage_def reactToGroupMessage_def markGroupDelivered_def markGroupRead_def
      Let_def case_prod_unfold split: sum.split option.split)

lemma tombstones_kept: "calls_kept st s \<Longrightarrow> calls_kept st (snd (snd (fold (tombstone_row t pseud) ks (urls, n, s))))"
proof (induction ks arbitrary: urls n s)
  case (Cons k ks)
  let ?r = "tombstone_row t pseud k (urls, n, s)"
  have "calls_kept st (snd (snd ?r))" using Cons.prems by (simp add: tombstone_row_def Let_def split: option.split)
  from Cons.IH [OF this, of "fst ?r" "fst (snd ?r)"] show ?case by simp
qed simp

section \<open>Operations that do\<close>

lemma calls_depart: "wf_gcalls uu st \<Longrightarrow> wf_gcalls uu (snd (depart env cid g m r ev a reason st))"
  unfolding depart_def Let_def case_prod_unfold snd_conv
  by (rule calls_leave_calls, rule calls_kept_wf [of st]) simp_all

lemma calls_departures:
  assumes "wf_gcalls uu st"
  shows "wf_gcalls uu (snd (removeMember env cid a u reason st))" and "wf_gcalls uu (snd (leave env cid u st))"
  using assms by (simp_all add: removeMember_def leave_def Let_def case_prod_unfold calls_depart split: sum.split option.split)

lemma calls_anonymizeMemberships: "wf_gcalls uu st \<Longrightarrow> wf_gcalls uu (snd (anonymizeMemberships env u pseud st))"
proof -
  assume wf: "wf_gcalls uu st"
  have "calls_kept st (anonymizeInvitationsAndEvents u pseud t (fold (eraseMembership env pseud) ks st))" for t ks
    by (simp add: fold_invariant_pred [where P = "calls_kept st"])
  from calls_kept_wf [OF this wf] show ?thesis
    by (simp add: anonymizeMemberships_def Let_def fold_invariant_pred [where P = "wf_gcalls uu"] calls_collect)
qed

lemma calls_eraseUserData: "wf_gcalls uu st \<Longrightarrow> wf_gcalls uu (snd (eraseUserData env u pseud st))"
proof -
  assume wf: "wf_gcalls uu st"
  let ?s = "snd (anonymizeMemberships env u pseud st)"
  have "calls_kept ?s (eraseReactions u ?s)" by (simp add: eraseReactions_def)
  from calls_kept_wf [OF this calls_anonymizeMemberships [OF wf]] show ?thesis
    by (simp add: eraseUserData_def Let_def case_prod_unfold calls_anonymize)
qed

lemma calls_eraseUserMessages: "wf_gcalls uu st \<Longrightarrow> wf_gcalls uu (snd (eraseUserMessages env u pseud limit st))"
proof -
  assume wf: "wf_gcalls uu st"
  have "wf_gcalls uu ((snd (snd (fold (tombstone_row t pseud) ks (urls, n, st))))\<lparr>cleanup := us\<rparr>)" for t ks urls n us
    by (rule calls_kept_wf [OF _ wf]) (simp add: tombstones_kept)
  then show ?thesis
    by (simp add: eraseUserMessages_def Let_def case_prod_unfold fold_invariant_pred [where P = "wf_gcalls uu"] calls_collect)
qed

lemma run_group_calls:
  assumes "inj uu" "g_uuid env = uu" and "wf_groups uu st" and wf: "wf_gcalls uu st"
  shows "wf_gcalls uu (run_group env op st)"
proof -
  note kept = membership_ops_kept [THEN calls_kept_wf, OF wf] message_ops_kept [THEN calls_kept_wf, OF wf]
  show ?thesis
    by (cases op)
      (simp_all add: kept calls_departures calls_eraseUserData calls_eraseUserMessages calls_expire calls_transition
        calls_start assms acknowledgeAttachmentCleanup_def calls_kept_wf [OF _ wf] del: start_rounds.simps)
qed

lemma empty_gcalls_wf: "wf_gcalls uu empty_group_store"
  by (simp add: wf_gcalls_def wf_parts_def empty_group_store_def)

lemma run_groups_calls:
  assumes "inj uu" and "\<forall>(env, op) \<in> set steps. g_uuid env = uu"
  shows "wf_gcalls uu (run_groups steps)"
proof -
  have "wf_groups uu st \<Longrightarrow> wf_gcalls uu st \<Longrightarrow> \<forall>(env, op) \<in> set steps. g_uuid env = uu \<Longrightarrow>
      wf_gcalls uu (fold (\<lambda>(env, op). run_group env op) steps st)" for st
  proof (induction steps arbitrary: st)
    case (Cons s steps)
    obtain env op where s: "s = (env, op)" by fastforce
    with Cons.prems have "wf_groups uu (run_group env op st)" "wf_gcalls uu (run_group env op st)"
      by (simp_all add: run_group_wf [OF assms(1)] run_group_calls [OF assms(1)])
    with Cons s show ?case by simp
  qed simp
  from this [OF empty_groups_wf empty_gcalls_wf assms(2)] show ?thesis by (simp add: run_groups_def)
qed

section \<open>Properties\<close>

text \<open>
  C25. A group call is over exactly when nobody is ringing or joined in it: after any sequence of operations
  on the store, erasures and departures included, an ended call has no such participant and an end time, a
  call that is not over has one and no end time, and never more than four people are joined.
\<close>

theorem group_call_invariant:
  assumes "inj uu" and "\<forall>(env, op) \<in> set steps. g_uuid env = uu"
    and "map_of (gcalls (run_groups steps)) k = Some c"
  shows "(gc_status c = GC_Ended) = (\<not> call_occupied k (run_groups steps)) \<and>
    (gc_ended c = None) = (gc_status c \<noteq> GC_Ended) \<and>
    length (filter (accepted_in k) (map snd (gparts (run_groups steps)))) \<le> 4"
  using wf_gcallsD(3) [OF run_groups_calls [OF assms(1,2)] assms(3)]
  by (simp add: good_gcall_def accepted_count_def MAX_GROUP_CALL_PARTICIPANTS_def)

text \<open>Ann calls the group, Bob joins, Ann and Bob leave while Cid is still ringing, Cid declines.\<close>

definition demo_call :: start_args where
  "demo_call = \<lparr>sa_conv = demo_group_id, sa_initiator = ''ann'', sa_video = False, sa_ring_ms = 45000,
     sa_excluded = [], sa_reach = (\<lambda>_. True)\<rparr>"

definition demo_call_id :: string where "demo_call_id = demo_uuid 11"

definition demo_call_steps :: "(genv \<times> group_op) list" where
  "demo_call_steps = demo_steps @
     [(demo_genv 4000, Op_Start demo_call), (demo_genv 5000, Op_Call demo_call_id ''bob'' Accept),
      (demo_genv 6000, Op_Call demo_call_id ''ann'' Leave), (demo_genv 7000, Op_Call demo_call_id ''bob'' Leave),
      (demo_genv 8000, Op_Call demo_call_id ''cid'' Decline)]"

lemma demo_call_uuid: "\<forall>(env, op) \<in> set demo_call_steps. g_uuid env = demo_uuid"
  by (simp add: demo_call_steps_def demo_steps_def demo_genv_def)

lemma demo_call_over:
  "map_of (gcalls (run_groups demo_call_steps)) demo_call_id =
    Some \<lparr>gc_id = demo_call_id, gc_conv = demo_group_id, gc_initiator = ''ann'', gc_video = False, gc_status = GC_Ended,
      gc_version = 5, gc_ring_timeout = Some 49000, gc_created = 4000, gc_updated = 8000, gc_ended = Some 8000\<rparr>"
  by code_simp

theorem group_call_invariant_witness: "\<not> call_occupied demo_call_id (run_groups demo_call_steps)"
  using group_call_invariant [OF demo_uuid_inj demo_call_uuid demo_call_over] by simp

lemma stranger:
  assumes "live_group cid st \<noteq> None" and "u \<notin> set (map gm_user (listMembers cid st))"
  shows "requireActiveMember cid u st = Inl Not_Member"
proof -
  have "member_of cid u st = None"
    using assms(2) by (auto simp: member_of_def find_None_iff simp del: set_sort_cmp)
  then show ?thesis by (simp add: requireActiveMember_def assertActiveGroupMember_def split: option.split)
qed

text \<open>
  A stranger gets nothing from a group: whoever is not an active member of a live group is answered
  \<open>NotMember\<close> by every operation on its messages, its roles, its membership and its calls, and the store
  is left as it was.
\<close>

theorem non_member_refused:
  assumes "live_group cid st \<noteq> None" and "u \<notin> set (map gm_user (listMembers cid st))"
    and "m_conv m = cid" "m_sender m = u" "\<not> is_prefix GROUP_CALL_MESSAGE_PREFIX (m_id m)"
    and "sa_conv a = cid" "sa_initiator a = u"
    and "map_of (gcalls st) k = Some c" "gc_conv c = cid" "gc_status c \<noteq> GC_Ended"
  shows "saveGroupMessage env m st = (Inl Not_Member, st) \<and>
    getGroupMessage cid mid u st = Inl Not_Member \<and>
    listGroupMessages cid u lim cur st = Inl Not_Member \<and>
    deleteGroupMessage env cid mid u st = (Inl Not_Member, st) \<and>
    reactToGroupMessage env cid mid u em act st = (Inl Not_Member, st) \<and>
    markGroupRead env cid u st = (Inl Not_Member, st) \<and>
    markGroupDelivered cid mid u st = (Inl Not_Member, st) \<and>
    listMembershipEvents cid u st = Inl Not_Member \<and>
    setRole env cid u v role st = (Inl Not_Member, st) \<and>
    transferOwnership env cid u v st = (Inl Not_Member, st) \<and>
    cancelInvitation env cid iid u st = (Inl Not_Member, st) \<and>
    deleteGroup env cid u st = (Inl Not_Member, st) \<and>
    updateName env cid u name st = (Inl Not_Member, st) \<and>
    removeMember env cid u v reason st = (Inl Not_Member, st) \<and>
    leave env cid u st = (Inl Not_Member, st) \<and>
    startCall env a fs st = (Inl Not_Member, st) \<and>
    transitionGroupCall env k u ca st = (Inl Not_Member, st)"
proof -
  obtain g where g: "live_group cid st = Some g" using assms(1) by blast
  note refused = stranger [OF assms(1,2)]
  have start: "startCall env a fs st = (Inl Not_Member, st)"
    by (cases fs) (simp_all add: startCall_def assms(6,7) g refused)
  show ?thesis
    by (intro conjI; (rule start)?)
      (simp_all add: saveGroupMessage_def getGroupMessage_def listGroupMessages_def deleteGroupMessage_def
        reactToGroupMessage_def markGroupRead_def markGroupDelivered_def listMembershipEvents_def setRole_def
        transferOwnership_def cancelInvitation_def deleteGroup_def updateName_def removeMember_def leave_def
        transitionGroupCall_def g refused assms(3-10))
qed

definition demo_group_message :: gmessage where
  "demo_group_message = \<lparr>m_id = ''m1'', m_client = None, m_conv = demo_group_id, m_sender = ''eve'', m_recipient = demo_group_id,
     m_body = ''hi'', m_type = ''text'', m_attachment = None, m_reply = None, m_reactions = [], m_deleted = None,
     m_created = 0, m_delivered = [], m_read = None, m_read_by = []\<rparr>"

lemma demo_ringing:
  "map_of (gcalls (run_groups (take 4 demo_call_steps))) demo_call_id =
    Some \<lparr>gc_id = demo_call_id, gc_conv = demo_group_id, gc_initiator = ''ann'', gc_video = False, gc_status = GC_Ringing,
      gc_version = 1, gc_ring_timeout = Some 49000, gc_created = 4000, gc_updated = 4000, gc_ended = None\<rparr>"
  by code_simp

theorem non_member_refused_witness:
  "transitionGroupCall (demo_genv 5000) demo_call_id ''eve'' Accept (run_groups (take 4 demo_call_steps)) =
    (Inl Not_Member, run_groups (take 4 demo_call_steps))"
proof -
  have live: "live_group demo_group_id (run_groups (take 4 demo_call_steps)) \<noteq> None" by code_simp
  have eve: "''eve'' \<notin> set (map gm_user (listMembers demo_group_id (run_groups (take 4 demo_call_steps))))" by code_simp
  have id: "\<not> is_prefix GROUP_CALL_MESSAGE_PREFIX (m_id demo_group_message)" by code_simp
  from non_member_refused [OF live eve _ _ id _ _ demo_ringing,
      where a = "demo_call\<lparr>sa_initiator := ''eve''\<rparr>" and ca = Accept and env = "demo_genv 5000"]
  show ?thesis by (simp add: demo_group_message_def demo_call_def)
qed

text \<open>What a member is served: messages of a group they belong to, not older than their membership.\<close>

definition served_to :: "string \<Rightarrow> group_store \<Rightarrow> gmessage \<Rightarrow> bool" where
  "served_to u st m =
     (\<exists>me \<in> set (listMembers (m_conv m) st). gm_user me = u \<and> gm_joined me \<le> m_created m)"

lemma required_served:
  assumes "requireActiveMember cid u st = Inr me" and "m_conv m = cid" and "gm_joined me \<le> m_created m"
  shows "served_to u st m"
proof -
  have "member_of cid u st = Some me"
    using assms(1) by (auto simp: requireActiveMember_def assertActiveGroupMember_def split: option.splits if_splits)
  from find_SomeD [OF this [unfolded member_of_def]] show ?thesis using assms(2,3) by (auto simp: served_to_def)
qed

lemma readable_served: "group_readable u m st \<Longrightarrow> served_to u st m"
  unfolding group_readable_def member_of_def served_to_def by (auto split: option.splits dest!: find_SomeD)

lemma changes_served:
  assumes "(c, m) \<in> set (List.map_filter (served_change u since cur after st) cs)"
  shows "served_to u st m"
proof -
  obtain c' where "served_change u since cur after st c' = Some (c, m)"
    using assms by (force simp: map_filter_def)
  then show ?thesis by (auto simp: served_change_def readable_served split: option.splits if_splits)
qed

text \<open>
  C26. History stays with those who were there: every message or call entry that listing a group, searching
  or reading changes answers lies in a group the reader is an active member of, and is not older than the
  reader's membership.
\<close>

theorem member_sees_own_interval:
  "(case listGroupMessages cid u lim cur st of Inl _ \<Rightarrow> True | Inr ms \<Rightarrow> list_all (served_to u st) ms) \<and>
   (case searchGroupMessages conv u q lim cur after st of Inl _ \<Rightarrow> True | Inr ms \<Rightarrow> list_all (served_to u st) ms) \<and>
   list_all (\<lambda>(c, m). served_to u st m) (listGroupChanges u since curc after lim st)"
proof (intro conjI)
  show "case listGroupMessages cid u lim cur st of Inl _ \<Rightarrow> True | Inr ms \<Rightarrow> list_all (served_to u st) ms"
    by (auto simp: listGroupMessages_def page_def list_all_iff required_served dest!: in_set_takeD split: sum.split)
  show "case searchGroupMessages conv u q lim cur after st of Inl _ \<Rightarrow> True | Inr ms \<Rightarrow> list_all (served_to u st) ms"
    by (auto simp: searchGroupMessages_def Let_def page_def list_all_iff readable_served dest!: in_set_takeD split: sum.split)
  show "list_all (\<lambda>(c, m). served_to u st m) (listGroupChanges u since curc after lim st)"
    using changes_served by (auto simp: listGroupChanges_def list_all_iff dest!: in_set_takeD)
qed

end
