(* ===== verification/GroupErasure.thy ===== *)
theory GroupErasure
  imports GroupCallProperties
begin

text \<open>
  What erasing an account leaves behind: no membership, invitation, event, call or participant names the
  account any more, and no message carries its reactions or receipts.
\<close>

section \<open>Who the store names\<close>

definition member_names :: "string \<Rightarrow> group_store \<Rightarrow> bool" where
  "member_names u st = (\<exists>m \<in> set (map snd (gmembers st)). gm_user m = u \<or> gm_actor m = Some u)"

definition invitation_names :: "string \<Rightarrow> group_store \<Rightarrow> bool" where
  "invitation_names u st = (\<exists>i \<in> set (map snd (invitations st)). iv_invitee i = u \<or> iv_issuer i = u)"

definition event_names :: "string \<Rightarrow> group_store \<Rightarrow> bool" where
  "event_names u st = (\<exists>e \<in> set (gevents st). ge_actor e = u \<or> ge_user e = Some u)"

definition call_names :: "string \<Rightarrow> group_store \<Rightarrow> bool" where
  "call_names u st =
     ((\<exists>c \<in> set (map snd (gcalls st)). gc_initiator c = u) \<or> (\<exists>p \<in> set (map snd (gparts st)). gp_user p = u))"

definition receipt_names :: "string \<Rightarrow> group_store \<Rightarrow> bool" where
  "receipt_names u st =
     (\<exists>m \<in> set (map snd (gmessages st)).
        u \<in> set (m_read_by m) \<or> u \<in> set (m_delivered m) \<or> (\<exists>(em, us) \<in> set (m_reactions m). u \<in> set us))"

section \<open>Memberships\<close>

lemma rename_user_neq: "u \<noteq> pseud \<Longrightarrow> rename_user u pseud x \<noteq> u"
  by (simp add: rename_user_def)

lemma erase_user:
  assumes "u \<noteq> pseud"
  shows "map_of (gmembers (eraseMembership env pseud k st)) j = Some m \<Longrightarrow> gm_user m = u \<Longrightarrow>
    j \<noteq> k \<and> (\<exists>m'. map_of (gmembers st) j = Some m' \<and> gm_user m' = u)"
proof -
  assume a: "map_of (gmembers (eraseMembership env pseud k st)) j = Some m" "gm_user m = u"
  have hand: "\<exists>m'. map_of (gmembers st) j = Some m' \<and> gm_user m' = gm_user x"
    if "map_of (gmembers (hand_on t y st)) j = Some x" for t y x
    using that by (auto simp: hand_on_def set_member_def set_group_def split: if_splits option.splits)
  show ?thesis
  proof (cases "map_of (gmembers st) k")
    case None
    with a show ?thesis by (auto simp: eraseMembership_def)
  next
    case (Some y)
    let ?t = "case map_of (groups st) (gm_conv y) of Some g \<Rightarrow> activityTime env g | None \<Rightarrow> g_now env"
    have e: "gmembers (eraseMembership env pseud k st) =
        gmembers (set_member k (erased_member ?t pseud) (hand_on (g_now env) y st))"
      by (simp add: eraseMembership_def Some Let_def split: option.split)
    have "gm_user (erased_member ?t pseud x) = pseud" for x by (simp add: erased_member_def)
    with a assms have "j \<noteq> k \<and> map_of (gmembers (hand_on (g_now env) y st)) j = Some m"
      unfolding e by (auto simp: set_member_def split: if_splits)
    with hand [of "g_now env" y m] a(2) show ?thesis by auto
  qed
qed

lemma erase_keys: "map fst (gmembers (eraseMembership env pseud k st)) = map fst (gmembers st)"
  by (simp add: eraseMembership_def Let_def hand_on_def split: option.split)

lemma erase_all:
  assumes "u \<noteq> pseud"
  shows "map_of (gmembers (fold (eraseMembership env pseud) ks st)) j = Some m \<Longrightarrow> gm_user m = u \<Longrightarrow>
    j \<notin> set ks \<and> (\<exists>m'. map_of (gmembers st) j = Some m' \<and> gm_user m' = u)"
proof (induction ks arbitrary: m rule: rev_induct)
  case (snoc k ks)
  from erase_user [OF assms, of env k _ j m] snoc.prems
  obtain m' where "j \<noteq> k" "map_of (gmembers (fold (eraseMembership env pseud) ks st)) j = Some m'" "gm_user m' = u" by auto
  with snoc.IH show ?case by simp
qed simp

lemma members_erased:
  assumes "u \<noteq> pseud" and d: "distinct (map fst (gmembers st))"
  shows "m \<in> set (map snd (gmembers (fold (eraseMembership env pseud) (map fst (filter (\<lambda>(_, m). gm_user m = u) (gmembers st))) st)))
    \<Longrightarrow> gm_user m \<noteq> u"
proof
  let ?ks = "map fst (filter (\<lambda>(_, m). gm_user m = u) (gmembers st))"
  let ?st = "fold (eraseMembership env pseud) ?ks st"
  assume "m \<in> set (map snd (gmembers ?st))" and u: "gm_user m = u"
  moreover have "map fst (gmembers (fold (eraseMembership env pseud) ks st)) = map fst (gmembers st)" for ks
    by (induction ks rule: rev_induct) (simp_all add: erase_keys)
  ultimately obtain j where "map_of (gmembers ?st) j = Some m" using d map_of_valuesD [of m "gmembers ?st"] by metis
  from erase_all [OF assms(1) this u] obtain m' where "j \<notin> set ?ks" "map_of (gmembers st) j = Some m'" "gm_user m' = u" by blast
  with map_of_SomeD show False by force
qed

section \<open>The rest of the erasure\<close>

text \<open>Names only disappear when a group is collected.\<close>

definition member_side :: "string \<Rightarrow> group_store \<Rightarrow> bool" where
  "member_side u st = (member_names u st \<or> invitation_names u st \<or> event_names u st)"

lemma events_anonymized:
  assumes "u \<noteq> pseud" and "\<And>m. m \<in> set (map snd (gmembers st)) \<Longrightarrow> gm_user m \<noteq> u"
  shows "\<not> member_side u (anonymizeInvitationsAndEvents u pseud t st)"
proof -
  let ?st = "anonymizeInvitationsAndEvents u pseud t st"
  have r: "rename_user u pseud x \<noteq> u" for x by (rule rename_user_neq [OF assms(1)])
  have m: "map snd (gmembers ?st) = map (\<lambda>m. m\<lparr>gm_actor := map_option (rename_user u pseud) (gm_actor m)\<rparr>) (map snd (gmembers st))"
    and i: "map snd (invitations ?st) = map (anonymized_invitation u pseud t) (map snd (invitations st))"
    and e: "gevents ?st = map (\<lambda>e. e\<lparr>ge_actor := rename_user u pseud (ge_actor e),
      ge_user := map_option (rename_user u pseud) (ge_user e)\<rparr>) (gevents st)"
    by (simp_all add: anonymizeInvitationsAndEvents_def comp_def case_prod_unfold)
  have "\<not> member_names u ?st"
  proof
    assume "member_names u ?st"
    then obtain m where "m \<in> set (map snd (gmembers st))" "gm_user m = u \<or> map_option (rename_user u pseud) (gm_actor m) = Some u"
      unfolding member_names_def m by (auto simp del: map_map)
    then show False using assms(2) r by (auto simp del: set_map)
  qed
  moreover have "iv_invitee (anonymized_invitation u pseud t x) \<noteq> u \<and> iv_issuer (anonymized_invitation u pseud t x) \<noteq> u" for x
    using r by (simp add: anonymized_invitation_def)
  then have "\<not> invitation_names u ?st" unfolding invitation_names_def i by auto
  moreover have "\<not> event_names u ?st" unfolding event_names_def e using r by auto
  ultimately show ?thesis by (simp add: member_side_def)
qed

lemma collect_fields:
  "set (gmembers (collectEmptyGroup cid st)) \<subseteq> set (gmembers st)"
  "set (invitations (collectEmptyGroup cid st)) \<subseteq> set (invitations st)"
  "set (gevents (collectEmptyGroup cid st)) \<subseteq> set (gevents st)"
  by (auto simp: collectEmptyGroup_def collectGroupCalls_def captureGroupAttachments_def Let_def)

lemma collect_member_side: "\<not> member_side u st \<Longrightarrow> \<not> member_side u (collectEmptyGroup cid st)"
proof -
  assume a: "\<not> member_side u st"
  note f = collect_fields [of cid st]
  from a image_mono [OF f(1), of snd] have "\<not> member_names u (collectEmptyGroup cid st)"
    unfolding member_side_def member_names_def set_map by blast
  moreover from a image_mono [OF f(2), of snd] have "\<not> invitation_names u (collectEmptyGroup cid st)"
    unfolding member_side_def invitation_names_def set_map by blast
  moreover from a f(3) have "\<not> event_names u (collectEmptyGroup cid st)"
    unfolding member_side_def event_names_def by blast
  ultimately show ?thesis by (simp add: member_side_def)
qed

lemma memberships_anonymized:
  assumes "u \<noteq> pseud" and "distinct (map fst (gmembers st))"
  shows "\<not> member_side u (snd (anonymizeMemberships env u pseud st))"
proof -
  let ?st1 = "fold (eraseMembership env pseud) (map fst (filter (\<lambda>(_, m). gm_user m = u) (gmembers st))) st"
  have "\<not> member_side u (anonymizeInvitationsAndEvents u pseud (g_now env) ?st1)"
    by (rule events_anonymized [OF assms(1)]) (rule members_erased [OF assms])
  then show ?thesis
    by (simp add: anonymizeMemberships_def Let_def
        fold_invariant_pred [where P = "\<lambda>st. \<not> member_side u st"] collect_member_side)
qed

text \<open>Calls.\<close>

lemma call_initiators: "map gc_initiator (map snd (gcalls (settle_call t k st))) = map gc_initiator (map snd (gcalls st))"
proof -
  have "map gc_initiator (map snd (AList.map_entry k f cs)) = map gc_initiator (map snd cs)"
    if "\<And>c. gc_initiator (f c) = gc_initiator c" for f and cs :: "(string \<times> gcall) list"
    by (induction cs) (auto simp: that)
  then show ?thesis by (simp add: settle_call_def bump_call_def end_if_empty_def)
qed

lemma calls_forgotten:
  assumes "u \<noteq> pseud" and wf: "wf_parts st"
  shows "\<not> call_names u (anonymizeCalls u pseud t st)"
proof -
  let ?st1 = "st\<lparr>gcalls := map (\<lambda>(k, c). (k, c\<lparr>gc_initiator := rename_user u pseud (gc_initiator c)\<rparr>)) (gcalls st)\<rparr>"
  let ?rs = "filter (\<lambda>p. gp_user p = u) (map snd (gparts st))"
  have parts1: "wf_parts ?st1" using wf by (simp add: wf_parts_def)
  have keys: "map_of (gparts (fold (rename_part pseud t) ps s)) k = Some p \<Longrightarrow> gp_user p = u \<Longrightarrow>
      map_of (gparts s) k = Some p \<and> k \<notin> (\<lambda>p. (gp_call p, gp_user p)) ` set ps" for ps s k p
  proof (induction ps rule: rev_induct)
    case (snoc q ps)
    have "gp_user (renamed pseud t q) \<noteq> u" using assms(1) by simp
    with snoc show ?case by (auto simp: rename_parts split: if_splits)
  qed simp
  have "gp_user p \<noteq> u" if p: "p \<in> set (map snd (gparts (fold (rename_part pseud t) ?rs ?st1)))" for p
  proof
    assume u: "gp_user p = u"
    have "distinct (map fst (gparts (fold (rename_part pseud t) ?rs ?st1)))"
      using renames(1) [OF parts1, where pseud = pseud and t = t and ps = ?rs] by (simp add: wf_parts_def)
    from map_of_valuesD [OF p this]
    obtain k where "map_of (gparts (fold (rename_part pseud t) ?rs ?st1)) k = Some p" ..
    from keys [OF this u] have k: "map_of (gparts st) k = Some p" "k \<notin> (\<lambda>p. (gp_call p, gp_user p)) ` set ?rs" by simp_all
    from parts_key [OF wf k(1)] map_of_values [OF k(1)] u k(2) show False by (auto simp del: set_map)
  qed
  moreover have "gc_initiator c \<noteq> u" if "c \<in> set (map snd (gcalls (fold (rename_part pseud t) ?rs ?st1)))" for c
    using that rename_user_neq [OF assms(1)] by (auto simp: renames(2) [OF parts1] comp_def)
  ultimately have "\<not> call_names u (fold (rename_part pseud t) ?rs ?st1)" unfolding call_names_def by blast
  moreover have "call_names u (fold (settle_call t) ks s) = call_names u s" for ks s
  proof (induction ks rule: rev_induct)
    case (snoc k ks)
    have "call_names u (settle_call t k s') = call_names u s'" for s'
    proof -
      have i: "(\<exists>c \<in> set (map snd (gcalls s)). gc_initiator c = u) = (u \<in> set (map gc_initiator (map snd (gcalls s))))"
        for s :: group_store by auto
      have p: "gparts (settle_call t k s') = gparts s'" by (simp add: settle_call_def)
      show ?thesis unfolding call_names_def i call_initiators p ..
    qed
    with snoc show ?case by simp
  qed simp
  ultimately show ?thesis by (simp add: anonymizeCalls_def Let_def)
qed

lemma receipts_erased: "\<not> receipt_names u (eraseReactions u st)"
proof -
  have "\<not> (u \<in> set (m_read_by (erased_reactions u m)) \<or> u \<in> set (m_delivered (erased_reactions u m)) \<or>
      (\<exists>(em, us) \<in> set (m_reactions (erased_reactions u m)). u \<in> set us))" for m
    by (auto simp: erased_reactions_def)
  moreover have "map snd (gmessages (eraseReactions u st)) = map (erased_reactions u) (map snd (gmessages st))"
    by (simp add: eraseReactions_def comp_def case_prod_unfold)
  ultimately show ?thesis unfolding receipt_names_def by (simp only: set_map) blast
qed

lemma calls_frame:
  "member_side u (anonymizeCalls v pseud t st) = member_side u st"
  "receipt_names u (anonymizeCalls v pseud t st) = receipt_names u st"
proof -
  have f: "gmembers (fold (settle_call t) ks s) = gmembers s \<and> invitations (fold (settle_call t) ks s) = invitations s \<and>
      gevents (fold (settle_call t) ks s) = gevents s \<and> gmessages (fold (settle_call t) ks s) = gmessages s" for ks s
    by (induction ks rule: rev_induct) (simp_all add: settle_call_def set_gcall_def)
  have g: "gmembers (fold (rename_part pseud t) ps s) = gmembers s \<and> invitations (fold (rename_part pseud t) ps s) = invitations s \<and>
      gevents (fold (rename_part pseud t) ps s) = gevents s \<and> gmessages (fold (rename_part pseud t) ps s) = gmessages s" for ps s
    by (induction ps rule: rev_induct) (simp_all add: rename_part_def)
  have fields: "gmembers (anonymizeCalls v pseud t st) = gmembers st" "invitations (anonymizeCalls v pseud t st) = invitations st"
    "gevents (anonymizeCalls v pseud t st) = gevents st" "gmessages (anonymizeCalls v pseud t st) = gmessages st"
    by (simp_all add: anonymizeCalls_def Let_def f g)
  show "member_side u (anonymizeCalls v pseud t st) = member_side u st"
    by (simp add: member_side_def member_names_def invitation_names_def event_names_def fields)
  show "receipt_names u (anonymizeCalls v pseud t st) = receipt_names u st"
    by (simp add: receipt_names_def fields)
qed

section \<open>Properties\<close>

text \<open>
  C31. The group store forgets an erased account: in any state the store can reach, once \<open>eraseUserData\<close> has run under a
  pseudonym, no membership or departure note, no invitation, no event, no call and no participant of the store names
  the account, and no group message carries its reaction, its read mark or its delivery mark. Direct messages, which
  \<open>domain/accountDeletion.ts\<close> erases apart from the groups, are not part of it.
\<close>

theorem eraseUserData_forgets:
  assumes "inj uu" and "\<forall>(env, op) \<in> set steps. g_uuid env = uu" and "u \<noteq> pseud"
  shows "\<not> member_names u (snd (eraseUserData env u pseud (run_groups steps))) \<and>
    \<not> invitation_names u (snd (eraseUserData env u pseud (run_groups steps))) \<and>
    \<not> event_names u (snd (eraseUserData env u pseud (run_groups steps))) \<and>
    \<not> call_names u (snd (eraseUserData env u pseud (run_groups steps))) \<and>
    \<not> receipt_names u (snd (eraseUserData env u pseud (run_groups steps)))"
proof -
  let ?st = "run_groups steps" and ?st1 = "snd (anonymizeMemberships env u pseud (run_groups steps))"
  have "distinct (map fst (gmembers ?st))"
    using wf_groupsD(3) [OF run_groups_wf [OF assms(1,2)]] by (simp add: wf_ids_def)
  from memberships_anonymized [OF assms(3) this, of env]
  have m: "\<not> member_side u (eraseReactions u ?st1)"
    by (simp add: member_side_def member_names_def invitation_names_def event_names_def eraseReactions_def)
  have "wf_gcalls uu ?st1" by (rule calls_anonymizeMemberships [OF run_groups_calls [OF assms(1,2)]])
  then have "wf_parts (eraseReactions u ?st1)" by (simp add: wf_gcalls_def wf_parts_def eraseReactions_def)
  from calls_forgotten [OF assms(3) this]
  have c: "\<not> call_names u (anonymizeCalls u pseud (g_now env) (eraseReactions u ?st1))" .
  have e: "snd (eraseUserData env u pseud ?st) = anonymizeCalls u pseud (g_now env) (eraseReactions u ?st1)"
    by (simp add: eraseUserData_def case_prod_unfold Let_def)
  show ?thesis
    using m c receipts_erased [of u ?st1] calls_frame [of u u pseud "g_now env" "eraseReactions u ?st1"]
    unfolding e by (simp add: member_side_def)
qed

theorem eraseUserData_forgets_witness:
  "\<not> call_names ''ann'' (snd (eraseUserData (demo_genv 9000) ''ann'' ''deleted_1'' (run_groups demo_call_steps))) \<and>
   call_names ''ann'' (run_groups demo_call_steps)"
proof (rule conjI)
  show "\<not> call_names ''ann'' (snd (eraseUserData (demo_genv 9000) ''ann'' ''deleted_1'' (run_groups demo_call_steps)))"
    using eraseUserData_forgets [OF demo_uuid_inj demo_call_uuid, of "''ann''" "''deleted_1''" "demo_genv 9000"] by simp
  show "call_names ''ann'' (run_groups demo_call_steps)"
    using map_of_values [OF demo_call_over] unfolding call_names_def by force
qed

text \<open>Each affected call is settled once.\<close>

lemma settled_once:
  "distinct ks \<Longrightarrow> map_of (gcalls (fold (settle_call t) ks st)) k =
     (if k \<in> set ks then map_option (\<lambda>c. bump_call t (end_if_empty (call_occupied k st) t c)) (map_of (gcalls st) k)
      else map_of (gcalls st) k)"
proof (induction ks rule: rev_induct)
  case (snoc j ks)
  have "gparts (fold (settle_call t) ks st) = gparts st" by (induction ks rule: rev_induct) (simp_all add: settle_call_def)
  then have "call_occupied j (fold (settle_call t) ks st) = call_occupied j st" by (simp add: call_occupied_def)
  moreover have "map_of (gcalls (settle_call t j s)) k =
      (if k = j then map_option (\<lambda>c. bump_call t (end_if_empty (call_occupied j s) t c)) (map_of (gcalls s) j)
       else map_of (gcalls s) k)" for s by (simp add: settle_call_def)
  ultimately show ?case using snoc by auto
qed simp

text \<open>
  Erasure rewrites the end of calls that were already over: erasing the caller of an ended call sets
  its end time and update time to the moment of the erasure and raises its version, although nobody was in
  it and its end had been recorded.
\<close>

theorem anonymizeCalls_reends:
  assumes "wf_gcalls uu st" and "map_of (gcalls st) k = Some c" and "gc_status c = GC_Ended" and "gc_initiator c = u"
  shows "map_of (gcalls (anonymizeCalls u pseud t st)) k =
    Some (c\<lparr>gc_initiator := pseud, gc_ended := Some t, gc_updated := t, gc_version := Suc (gc_version c)\<rparr>)"
proof -
  note d = wf_gcallsD [OF assms(1)]
  let ?st1 = "st\<lparr>gcalls := map (\<lambda>(k, c). (k, c\<lparr>gc_initiator := rename_user u pseud (gc_initiator c)\<rparr>)) (gcalls st)\<rparr>"
  let ?rs = "filter (\<lambda>p. gp_user p = u) (map snd (gparts st))"
  let ?ks = "uniq (map gc_id (filter (\<lambda>c. gc_initiator c = u) (map snd (gcalls st))) @ map gp_call ?rs)"
  have parts1: "wf_parts ?st1" using d(1) by (simp add: wf_parts_def)
  note r = renames [OF parts1, where pseud = pseud and t = t and ps = ?rs]
  have g: "gc_id c = k" "\<not> call_occupied k st" using d(3) [OF assms(2)] assms(3) by (simp_all add: good_gcall_def)
  have k: "k \<in> set ?ks" using map_of_values [OF assms(2)] assms(4) g(1) by force
  have "\<not> call_occupied k (fold (rename_part pseud t) ?rs ?st1)" using r(4) [of k] g(2) by (auto simp: call_occupied_def)
  moreover have "map_of (gcalls (fold (rename_part pseud t) ?rs ?st1)) k = Some (c\<lparr>gc_initiator := pseud\<rparr>)"
    unfolding r(2) using assms(2,4) by (simp add: map_of_map [unfolded comp_def] rename_user_def)
  ultimately show ?thesis
    using k assms(3) by (simp add: anonymizeCalls_def Let_def settled_once bump_call_def end_if_empty_def del: set_uniq)
qed

theorem anonymizeCalls_reends_witness:
  "map_option gc_ended (map_of (gcalls (anonymizeCalls ''ann'' ''deleted_1'' 99000 (run_groups demo_call_steps))) demo_call_id) =
    Some (Some 99000) \<and>
   map_option gc_ended (map_of (gcalls (run_groups demo_call_steps)) demo_call_id) = Some (Some 8000)"
  using anonymizeCalls_reends [OF run_groups_calls [OF demo_uuid_inj demo_call_uuid] demo_call_over _ refl] demo_call_over
  by simp

end
