(* ===== verification/RecoveryEpisode.thy ===== *)
theory RecoveryEpisode
  imports Prelude
begin

text \<open>
  The recovery episode of a client whose media path broke (\<open>call/recoveryEpisode.ts\<close>): a budget that can be
  paused and extended under a ceiling. The closure's variable \<open>episode\<close> is an explicit argument, the clock
  reading of each call is the argument \<open>t\<close>.

  The reference below forgets pauses: it is a budget on a clock that only runs while recovery is possible.
  The refinement lemmas say that the episode is that budget.
\<close>

section \<open>The episode\<close>

datatype trigger = Ice_Disconnected | Ice_Failure | Socket_Disconnect | Socket_Reconnect | Network_Change

datatype pause_reason = No_Connectivity | Socket_Offline

definition CALL_RECOVERY_BUDGET_MS :: int where "CALL_RECOVERY_BUDGET_MS = 30000"

definition CALL_RECOVERY_MAX_EPISODE_MS :: int where
  "CALL_RECOVERY_MAX_EPISODE_MS = CALL_RECOVERY_BUDGET_MS * 3"

record episode_options =
  budgetMs :: int
  maxEpisodeMs :: int

definition default_options :: episode_options where
  "default_options = \<lparr>budgetMs = CALL_RECOVERY_BUDGET_MS, maxEpisodeMs = CALL_RECOVERY_MAX_EPISODE_MS\<rparr>"

record episode =
  ep_trigger :: trigger
  ep_started :: int
  ep_deadline :: int
  ep_ceiling :: int
  ep_attempts :: nat
  ep_extensions :: nat
  ep_paused :: int
  ep_paused_at :: "int option"
  ep_reason :: "pause_reason option"

definition totalPausedMs :: "episode \<Rightarrow> int \<Rightarrow> int" where
  "totalPausedMs e t = (case ep_paused_at e of None \<Rightarrow> ep_paused e | Some p \<Rightarrow> ep_paused e + max 0 (t - p))"

definition reference_time :: "episode \<Rightarrow> int \<Rightarrow> int" where
  "reference_time e t = (case ep_paused_at e of None \<Rightarrow> t | Some p \<Rightarrow> p)"

definition remainingFor :: "episode \<Rightarrow> int \<Rightarrow> int" where
  "remainingFor e t = max 0 (ep_deadline e - reference_time e t)"

datatype note_result = Opened | Extended | Ignored

definition EXTENDING_TRIGGERS :: "trigger list" where
  "EXTENDING_TRIGGERS = [Network_Change, Socket_Reconnect]"

definition note_episode :: "episode_options \<Rightarrow> int \<Rightarrow> trigger \<Rightarrow> episode option \<Rightarrow> note_result \<times> episode option" where
  "note_episode opts t tr eo =
     (case eo of
        None \<Rightarrow>
          (Opened, Some \<lparr>ep_trigger = tr, ep_started = t, ep_deadline = t + budgetMs opts, ep_ceiling = t + maxEpisodeMs opts,
             ep_attempts = 0, ep_extensions = 0, ep_paused = 0, ep_paused_at = None, ep_reason = None\<rparr>)
      | Some e \<Rightarrow>
          if tr \<notin> set EXTENDING_TRIGGERS then (Ignored, eo)
          else
            (let extended = min (reference_time e t + budgetMs opts) (ep_ceiling e)
             in if extended \<le> ep_deadline e then (Ignored, eo)
                else (Extended, Some (e\<lparr>ep_deadline := extended, ep_extensions := Suc (ep_extensions e)\<rparr>))))"

definition pause_episode :: "int \<Rightarrow> pause_reason \<Rightarrow> episode option \<Rightarrow> bool \<times> episode option" where
  "pause_episode t r eo =
     (case eo of
        None \<Rightarrow> (False, None)
      | Some e \<Rightarrow>
          if ep_paused_at e \<noteq> None then (False, eo)
          else (True, Some (e\<lparr>ep_paused_at := Some t, ep_reason := Some r\<rparr>)))"

definition resume_episode :: "int \<Rightarrow> episode option \<Rightarrow> bool \<times> episode option" where
  "resume_episode t eo =
     (case eo of
        None \<Rightarrow> (False, None)
      | Some e \<Rightarrow> (case ep_paused_at e of
          None \<Rightarrow> (False, eo)
        | Some p \<Rightarrow>
            (let d = max 0 (t - p)
             in (True, Some (e\<lparr>ep_paused := ep_paused e + d, ep_deadline := ep_deadline e + d, ep_ceiling := ep_ceiling e + d,
                   ep_paused_at := None, ep_reason := None\<rparr>)))))"

definition record_attempt :: "episode option \<Rightarrow> nat \<times> episode option" where
  "record_attempt eo =
     (case eo of None \<Rightarrow> (0, None) | Some e \<Rightarrow> (Suc (ep_attempts e), Some (e\<lparr>ep_attempts := Suc (ep_attempts e)\<rparr>)))"

definition is_paused :: "episode option \<Rightarrow> bool" where
  "is_paused eo = (case eo of None \<Rightarrow> False | Some e \<Rightarrow> ep_paused_at e \<noteq> None)"

definition remaining_ms :: "int \<Rightarrow> episode option \<Rightarrow> int" where
  "remaining_ms t eo = (case eo of None \<Rightarrow> 0 | Some e \<Rightarrow> remainingFor e t)"

definition has_expired :: "int \<Rightarrow> episode option \<Rightarrow> bool" where
  "has_expired t eo =
     (case eo of None \<Rightarrow> False | Some e \<Rightarrow> ep_paused_at e = None \<and> remainingFor e t \<le> 0)"

definition attempt_count :: "episode option \<Rightarrow> nat" where
  "attempt_count eo = (case eo of None \<Rightarrow> 0 | Some e \<Rightarrow> ep_attempts e)"

record episode_snapshot =
  es_trigger :: trigger
  es_started :: int
  es_deadline :: int
  es_attempts :: nat
  es_extensions :: nat
  es_paused :: int
  es_reason :: "pause_reason option"
  es_remaining :: int

definition describe_episode :: "episode \<Rightarrow> int \<Rightarrow> episode_snapshot" where
  "describe_episode e t =
     \<lparr>es_trigger = ep_trigger e, es_started = ep_started e, es_deadline = ep_deadline e, es_attempts = ep_attempts e,
      es_extensions = ep_extensions e, es_paused = totalPausedMs e t, es_reason = ep_reason e,
      es_remaining = remainingFor e t\<rparr>"

definition snapshot_episode :: "int \<Rightarrow> episode option \<Rightarrow> episode_snapshot option" where
  "snapshot_episode t eo = map_option (\<lambda>e. describe_episode e t) eo"

text \<open>The summary: the snapshot, the outcome and the elapsed time.\<close>

definition close_episode :: "int \<Rightarrow> 'o \<Rightarrow> episode option \<Rightarrow> (episode_snapshot \<times> 'o \<times> int) option \<times> episode option" where
  "close_episode t outcome eo = (map_option (\<lambda>e. (describe_episode e t, outcome, t - ep_started e)) eo, None)"

section \<open>The reference: a budget on the active clock\<close>

record budget =
  bg_limit :: int
  bg_spent :: int
  bg_running :: bool
  bg_attempts :: nat
  bg_extensions :: nat

definition elapse :: "int \<Rightarrow> budget \<Rightarrow> budget" where
  "elapse d b = (if bg_running b then b\<lparr>bg_spent := bg_spent b + d\<rparr> else b)"

datatype episode_op = Note trigger | Pause pause_reason | Resume | Attempt | Close

fun budget_op :: "episode_options \<Rightarrow> episode_op \<Rightarrow> budget option \<Rightarrow> budget option" where
  "budget_op opts (Note tr) None =
     Some \<lparr>bg_limit = budgetMs opts, bg_spent = 0, bg_running = True, bg_attempts = 0, bg_extensions = 0\<rparr>"
| "budget_op opts (Note tr) (Some b) =
     Some (let l = min (bg_spent b + budgetMs opts) (maxEpisodeMs opts)
           in if tr \<in> set EXTENDING_TRIGGERS \<and> bg_limit b < l
              then b\<lparr>bg_limit := l, bg_extensions := Suc (bg_extensions b)\<rparr> else b)"
| "budget_op opts (Pause r) bo = map_option (\<lambda>b. b\<lparr>bg_running := False\<rparr>) bo"
| "budget_op opts Resume bo = map_option (\<lambda>b. b\<lparr>bg_running := True\<rparr>) bo"
| "budget_op opts Attempt bo = map_option (\<lambda>b. b\<lparr>bg_attempts := Suc (bg_attempts b)\<rparr>) bo"
| "budget_op opts Close bo = None"

fun run_episode_op :: "episode_options \<Rightarrow> int \<Rightarrow> episode_op \<Rightarrow> episode option \<Rightarrow> episode option" where
  "run_episode_op opts t (Note tr) eo = snd (note_episode opts t tr eo)"
| "run_episode_op opts t (Pause r) eo = snd (pause_episode t r eo)"
| "run_episode_op opts t Resume eo = snd (resume_episode t eo)"
| "run_episode_op opts t Attempt eo = snd (record_attempt eo)"
| "run_episode_op opts t Close eo = snd (close_episode t () eo)"

section \<open>Refinement\<close>

text \<open>What the episode is at time \<open>t\<close>, on the active clock.\<close>

definition budget_of :: "int \<Rightarrow> episode \<Rightarrow> budget" where
  "budget_of t e =
     \<lparr>bg_limit = ep_deadline e - ep_started e - ep_paused e, bg_spent = reference_time e t - ep_started e - ep_paused e,
      bg_running = (ep_paused_at e = None), bg_attempts = ep_attempts e, bg_extensions = ep_extensions e\<rparr>"

definition wf_episode :: "episode_options \<Rightarrow> int \<Rightarrow> episode \<Rightarrow> bool" where
  "wf_episode opts t e =
     (ep_ceiling e = ep_started e + maxEpisodeMs opts + ep_paused e \<and> ep_deadline e \<le> ep_ceiling e \<and>
      0 \<le> ep_paused e \<and> ep_started e + ep_paused e \<le> reference_time e t \<and> reference_time e t \<le> t \<and>
      budgetMs opts \<le> ep_deadline e - ep_started e - ep_paused e)"

lemma episode_later:
  "t \<le> t' \<Longrightarrow> wf_episode opts t e \<Longrightarrow> wf_episode opts t' e \<and> budget_of t' e = elapse (t' - t) (budget_of t e)"
  by (auto simp: wf_episode_def budget_of_def elapse_def reference_time_def split: option.splits)

lemma episode_step:
  assumes "0 \<le> budgetMs opts" "budgetMs opts \<le> maxEpisodeMs opts" and "pred_option (wf_episode opts t) eo"
  shows "pred_option (wf_episode opts t) (run_episode_op opts t op eo) \<and>
    map_option (budget_of t) (run_episode_op opts t op eo) = budget_op opts op (map_option (budget_of t) eo)"
proof (cases eo)
  case None
  then show ?thesis using assms
    by (cases op) (simp_all add: note_episode_def pause_episode_def resume_episode_def record_attempt_def close_episode_def
        wf_episode_def budget_of_def reference_time_def)
next
  case (Some e)
  have wf: "wf_episode opts t e" using assms(3) Some by simp
  have note': ?thesis if "op = Note tr" for tr
    using wf assms(1,2) Some that
    by (auto simp: note_episode_def Let_def wf_episode_def budget_of_def reference_time_def min_def split: option.split)
  have pause': ?thesis if "op = Pause r" for r
    using wf Some that
    by (auto simp: pause_episode_def wf_episode_def budget_of_def reference_time_def split: option.splits)
  have resume': ?thesis if "op = Resume"
    using wf Some that
    by (auto simp: resume_episode_def Let_def wf_episode_def budget_of_def reference_time_def split: option.splits)
  show ?thesis
    using note' pause' resume' wf Some
    by (cases op) (auto simp: record_attempt_def close_episode_def wf_episode_def budget_of_def reference_time_def)
qed

section \<open>Histories\<close>

text \<open>Operations with the time that passes before each.\<close>

fun episode_history :: "episode_options \<Rightarrow> (int \<times> episode_op) list \<Rightarrow> int \<times> episode option \<Rightarrow> int \<times> episode option" where
  "episode_history opts [] s = s"
| "episode_history opts ((d, op) # ops) (t, eo) = episode_history opts ops (t + d, run_episode_op opts (t + d) op eo)"

fun budget_history :: "episode_options \<Rightarrow> (int \<times> episode_op) list \<Rightarrow> budget option \<Rightarrow> budget option" where
  "budget_history opts [] bo = bo"
| "budget_history opts ((d, op) # ops) bo = budget_history opts ops (budget_op opts op (map_option (elapse d) bo))"

lemma history_refines:
  assumes "0 \<le> budgetMs opts" "budgetMs opts \<le> maxEpisodeMs opts" and "list_all (\<lambda>(d, _). 0 \<le> d) ops"
    and "pred_option (wf_episode opts t) eo"
  shows "(case episode_history opts ops (t, eo) of (t', eo') \<Rightarrow>
      pred_option (wf_episode opts t') eo' \<and>
      map_option (budget_of t') eo' = budget_history opts ops (map_option (budget_of t) eo))"
  using assms(3,4)
proof (induction ops arbitrary: t eo)
  case (Cons x ops)
  obtain d op where x: "x = (d, op)" by fastforce
  have later: "pred_option (wf_episode opts (t + d)) eo"
    "map_option (budget_of (t + d)) eo = map_option (elapse d) (map_option (budget_of t) eo)"
    using Cons.prems episode_later [of t "t + d" opts] by (cases eo; simp add: x)+
  note step = episode_step [OF assms(1,2) later(1), of op, unfolded later(2)]
  from Cons.IH [of "t + d" "run_episode_op opts (t + d) op eo"] Cons.prems step show ?case
    by (simp add: x)
qed simp

lemma budget_observations:
  "remaining_ms t eo = (case map_option (budget_of t) eo of None \<Rightarrow> 0 | Some b \<Rightarrow> max 0 (bg_limit b - bg_spent b))"
  "has_expired t eo = (case map_option (budget_of t) eo of None \<Rightarrow> False | Some b \<Rightarrow> bg_running b \<and> bg_limit b \<le> bg_spent b)"
  "is_paused eo = (case map_option (budget_of t) eo of None \<Rightarrow> False | Some b \<Rightarrow> \<not> bg_running b)"
  "attempt_count eo = (case map_option (budget_of t) eo of None \<Rightarrow> 0 | Some b \<Rightarrow> bg_attempts b)"
  by (auto simp: remaining_ms_def has_expired_def is_paused_def attempt_count_def remainingFor_def budget_of_def
      reference_time_def split: option.split)

section \<open>Properties\<close>

text \<open>
  C32. A recovery episode is a budget on the time in which recovery is possible: whatever symptoms, pauses,
  resumptions, attempts and closings happen at whatever distances, what it answers about its remaining time,
  its expiry, its pause and its attempts is what the reference answers that simply stops its clock while
  paused.
\<close>

theorem episode_refines_budget:
  assumes "0 \<le> budgetMs opts" "budgetMs opts \<le> maxEpisodeMs opts" and "list_all (\<lambda>(d, _). 0 \<le> d) ops"
  shows "(case episode_history opts ops (t, None) of (t', eo) \<Rightarrow>
    remaining_ms t' eo = (case budget_history opts ops None of None \<Rightarrow> 0 | Some b \<Rightarrow> max 0 (bg_limit b - bg_spent b)) \<and>
    has_expired t' eo = (case budget_history opts ops None of None \<Rightarrow> False
                         | Some b \<Rightarrow> bg_running b \<and> bg_limit b \<le> bg_spent b) \<and>
    is_paused eo = (case budget_history opts ops None of None \<Rightarrow> False | Some b \<Rightarrow> \<not> bg_running b) \<and>
    attempt_count eo = (case budget_history opts ops None of None \<Rightarrow> 0 | Some b \<Rightarrow> bg_attempts b))"
proof -
  obtain t' eo where h: "episode_history opts ops (t, None) = (t', eo)" by fastforce
  have r: "map_option (budget_of t') eo = budget_history opts ops None"
    using history_refines [OF assms, of t None] by (simp add: h)
  show ?thesis unfolding h prod.case budget_observations [where t = t'] r by (intro conjI refl)
qed

text \<open>A dip, ten seconds offline after four seconds, and the budget is spent thirty active seconds later.\<close>

definition demo_history :: "(int \<times> episode_op) list" where
  "demo_history = [(0, Note Ice_Disconnected), (4000, Pause No_Connectivity), (10000, Resume), (26000, Attempt)]"

theorem episode_refines_budget_witness:
  "has_expired 40000 (snd (episode_history default_options demo_history (0, None))) \<and>
   remaining_ms 40000 (snd (episode_history default_options demo_history (0, None))) = 0"
proof -
  have "budget_history default_options demo_history None =
      Some \<lparr>bg_limit = 30000, bg_spent = 30000, bg_running = True, bg_attempts = 1, bg_extensions = 0\<rparr>"
    by code_simp
  moreover have "fst (episode_history default_options demo_history (0, None)) = 40000" by code_simp
  moreover have "list_all (\<lambda>(d, _). 0 \<le> d) demo_history" by code_simp
  ultimately show ?thesis
    using episode_refines_budget [of default_options demo_history 0]
    by (simp add: default_options_def CALL_RECOVERY_MAX_EPISODE_MS_def CALL_RECOVERY_BUDGET_MS_def case_prod_unfold)
qed

end
