(* ===== verification/IceRestart.thy ===== *)
theory IceRestart
  imports RecoveryEpisode
begin

text \<open>
  The decisions of the ICE-restart ladder (\<open>call/iceRestartLadder.ts\<close>): when a restart is queued, whether a
  rung that came due may run, and what a spent budget means. Connection states are the strings of WebRTC,
  \<open>None\<close> where the code has \<open>null\<close> or \<open>undefined\<close>.
\<close>

definition ICE_RESTART_BACKOFF_BASE_MS :: int where "ICE_RESTART_BACKOFF_BASE_MS = 1500"
definition ICE_RESTART_BACKOFF_MAX_MS :: int where "ICE_RESTART_BACKOFF_MAX_MS = 8000"
definition ICE_RESTART_PRECONDITION_RETRY_MS :: int where "ICE_RESTART_PRECONDITION_RETRY_MS = 1000"
definition ICE_RESTART_TIEBREAK_MS :: int where "ICE_RESTART_TIEBREAK_MS = 1500"

definition RECOVERED_STATES :: "string list" where "RECOVERED_STATES = [''connected'', ''completed'']"

definition iceRestartBackoffMs :: "nat \<Rightarrow> int" where
  "iceRestartBackoffMs n =
     (if n \<le> 1 then 0 else min (ICE_RESTART_BACKOFF_BASE_MS * 2 ^ (n - 2)) ICE_RESTART_BACKOFF_MAX_MS)"

definition iceRestartTiebreakMs :: "string option \<Rightarrow> string option \<Rightarrow> int" where
  "iceRestartTiebreakMs l r =
     (let x = trim (case l of Some u \<Rightarrow> u | None \<Rightarrow> ''''); y = trim (case r of Some u \<Rightarrow> u | None \<Rightarrow> '''')
      in if x = '''' \<or> y = '''' \<or> x = y then 0 else if x < y then 0 else ICE_RESTART_TIEBREAK_MS)"

definition isRecoveredIceState :: "string option \<Rightarrow> bool" where
  "isRecoveredIceState s = (case s of None \<Rightarrow> False | Some x \<Rightarrow> x \<in> set RECOVERED_STATES)"

section \<open>Queueing a rung\<close>

record episode_view =
  ev_open :: bool
  ev_paused :: bool
  ev_reason :: "pause_reason option"
  ev_expired :: bool

record schedule_input =
  si_active :: bool
  si_pending :: bool
  si_attempt :: nat
  si_episode :: episode_view
  si_consume :: bool
  si_local :: "string option"
  si_remote :: "string option"

datatype skip_reason = No_Active_Call | Already_Pending | Budget_Spent | Paused "pause_reason option"

record rung =
  ru_attempt :: nat
  ru_consume :: bool
  ru_backoff :: int
  ru_tiebreak :: int
  ru_delay :: int

datatype schedule_decision = Skip skip_reason | Schedule rung

definition decideLadderSchedule :: "schedule_input \<Rightarrow> schedule_decision" where
  "decideLadderSchedule i =
     (let e = si_episode i
      in if \<not> si_active i then Skip No_Active_Call
         else if si_pending i then Skip Already_Pending
         else if ev_open e \<and> ev_paused e then Skip (Paused (ev_reason e))
         else if ev_open e \<and> ev_expired e then Skip Budget_Spent
         else
           (let n = (if si_consume i then Suc (si_attempt i) else si_attempt i);
                b = (if si_consume i then iceRestartBackoffMs n else ICE_RESTART_PRECONDITION_RETRY_MS);
                tb = iceRestartTiebreakMs (si_local i) (si_remote i)
            in Schedule \<lparr>ru_attempt = n, ru_consume = si_consume i, ru_backoff = b, ru_tiebreak = tb, ru_delay = b + tb\<rparr>))"

section \<open>Running a rung\<close>

record run_input =
  ri_trigger :: trigger
  ri_active :: bool
  ri_attempt :: nat
  ri_ice :: "string option"
  ri_connected :: bool
  ri_negotiating :: bool

datatype abort_reason = Abort_No_Call | Abort_Recovered
datatype defer_reason = Defer_Offline | Defer_Negotiating
datatype run_decision = Abort abort_reason | Defer defer_reason | Restart

definition decideLadderRun :: "run_input \<Rightarrow> run_decision" where
  "decideLadderRun i =
     (if \<not> ri_active i then Abort Abort_No_Call
      else if \<not> (ri_trigger i = Network_Change \<and> ri_attempt i \<le> 1) \<and> isRecoveredIceState (ri_ice i)
      then Abort Abort_Recovered
      else if \<not> ri_connected i then Defer Defer_Offline
      else if ri_negotiating i then Defer Defer_Negotiating
      else Restart)"

section \<open>Relays, exhaustion and observed states\<close>

definition canReuseIceServers :: "bool option \<Rightarrow> bool" where
  "canReuseIceServers has_turn = (has_turn = Some True)"

datatype fetched_decision = Cache_And_Use | Refetch | Use_Without_Turn

definition decideFetchedIceServers :: "bool \<Rightarrow> bool \<Rightarrow> fetched_decision" where
  "decideFetchedIceServers has_turn refetched =
     (if has_turn then Cache_And_Use else if refetched then Use_Without_Turn else Refetch)"

datatype exhausted_decision = Close_Recovered | Skip_Report | Report_Failure string

definition decideRecoveryExhausted :: "string option \<Rightarrow> bool \<Rightarrow> string \<Rightarrow> exhausted_decision" where
  "decideRecoveryExhausted ice connected worst =
     (if isRecoveredIceState ice then Close_Recovered
      else if \<not> connected then Skip_Report
      else Report_Failure (if worst = ''failed'' then ''failed'' else ''disconnected''))"

datatype observed_decision = Observed_Recovered | Symptom trigger bool | Observed_Ignore

definition decideIceConnectionState :: "string option \<Rightarrow> observed_decision" where
  "decideIceConnectionState s =
     (if isRecoveredIceState s then Observed_Recovered
      else if s = Some ''disconnected'' then Symptom Ice_Disconnected False
      else if s = Some ''failed'' then Symptom Ice_Failure True
      else Observed_Ignore)"

section \<open>Facts\<close>

lemma backoff_bounds: "0 \<le> iceRestartBackoffMs n" "iceRestartBackoffMs n \<le> 8000" "2 \<le> n \<Longrightarrow> 1500 \<le> iceRestartBackoffMs n"
proof -
  have one: "(1::int) \<le> 2 ^ (n - 2)" by simp
  show "0 \<le> iceRestartBackoffMs n" "2 \<le> n \<Longrightarrow> 1500 \<le> iceRestartBackoffMs n" "iceRestartBackoffMs n \<le> 8000"
    using one by (auto simp: iceRestartBackoffMs_def ICE_RESTART_BACKOFF_BASE_MS_def ICE_RESTART_BACKOFF_MAX_MS_def)
qed

lemma tiebreak_bounds: "0 \<le> iceRestartTiebreakMs l r" "iceRestartTiebreakMs l r \<le> 1500"
  by (simp_all add: iceRestartTiebreakMs_def Let_def ICE_RESTART_TIEBREAK_MS_def)

text \<open>Of two peers with different names exactly one waits.\<close>

lemma tiebreak_exclusive:
  "trim x \<noteq> '''' \<Longrightarrow> trim y \<noteq> '''' \<Longrightarrow> trim x \<noteq> trim y \<Longrightarrow>
   (iceRestartTiebreakMs (Some x) (Some y) = 0) = (iceRestartTiebreakMs (Some y) (Some x) \<noteq> 0)"
  by (auto simp: iceRestartTiebreakMs_def Let_def ICE_RESTART_TIEBREAK_MS_def)

end
