(* ===== verification/CallRecovery.thy ===== *)
theory CallRecovery
  imports IceRestart
begin

text \<open>
  The recovery of a running call on the client: the callbacks of \<open>hooks/useCallRecovery.ts\<close> and the handlers
  of \<open>hooks/usePeerConnection.ts\<close> and \<open>hooks/useSignalingSocket.ts\<close> that drive them. The refs of the hook are
  the record \<open>recovery\<close>; what a callback reads of the call, the peer connection and the socket is \<open>renv\<close>; what it
  sends is appended to \<open>rv_out\<close>. A timer is the time it is due. An attempt to restart ends later, by one of
  the operations at the end.
\<close>

section \<open>State\<close>

definition NETWORK_CHANGE_DEBOUNCE_MS :: int where "NETWORK_CHANGE_DEBOUNCE_MS = 800"

record recovery_status =
  rs_trigger :: trigger
  rs_attempts :: nat
  rs_remaining :: int
  rs_paused :: bool
  rs_reason :: "pause_reason option"
  rs_pending :: bool

datatype recovery_effect =
    Report_Connected string string
  | Report_Lost string string
  | Send_Offer string
  | Episode_Closed

record recovery =
  rv_episode :: "episode option"
  rv_deadline :: "int option"
  rv_worst :: string
  rv_connectivity :: bool
  rv_attempt :: nat
  rv_timer :: "(int \<times> trigger) option"
  rv_in_flight :: bool
  rv_relay_cached :: bool
  rv_last_change :: int
  rv_change_timer :: "int option"
  rv_status :: "recovery_status option"
  rv_reconnecting :: bool
  rv_lost :: bool
  rv_reported :: "string option"
  rv_out :: "(int \<times> recovery_effect) list"

definition initial_recovery :: recovery where
  "initial_recovery = \<lparr>rv_episode = None, rv_deadline = None, rv_worst = ''disconnected'', rv_connectivity = True,
     rv_attempt = 0, rv_timer = None, rv_in_flight = False, rv_relay_cached = False, rv_last_change = 0,
     rv_change_timer = None, rv_status = None, rv_reconnecting = False, rv_lost = False, rv_reported = None, rv_out = []\<rparr>"

text \<open>\<open>re_ice\<close> is \<open>pc.iceConnectionState ?? pc.connectionState\<close>; \<open>re_peer\<close> says that the active call names a peer.\<close>

record renv =
  re_now :: int
  re_call :: "string option"
  re_pc :: bool
  re_ice :: "string option"
  re_connected :: bool
  re_negotiating :: bool
  re_local :: "string option"
  re_remote :: "string option"
  re_peer :: bool

definition in_progress :: "renv \<Rightarrow> bool" where
  "in_progress env = (re_call env \<noteq> None \<and> re_pc env)"

definition send_effect :: "renv \<Rightarrow> recovery_effect \<Rightarrow> recovery \<Rightarrow> recovery" where
  "send_effect env x st = st\<lparr>rv_out := rv_out st @ [(re_now env, x)]\<rparr>"

section \<open>The episode and its deadline\<close>

definition publishRecoveryStatus :: "renv \<Rightarrow> recovery \<Rightarrow> recovery" where
  "publishRecoveryStatus env st =
     st\<lparr>rv_status := map_option (\<lambda>s. \<lparr>rs_trigger = es_trigger s, rs_attempts = es_attempts s, rs_remaining = es_remaining s,
          rs_paused = (es_reason s \<noteq> None), rs_reason = es_reason s,
          rs_pending = (rv_timer st \<noteq> None \<or> rv_in_flight st)\<rparr>)
        (snapshot_episode (re_now env) (rv_episode st))\<rparr>"

definition closeRecoveryEpisode :: "renv \<Rightarrow> recovery \<Rightarrow> recovery" where
  "closeRecoveryEpisode env st =
     (let st1 = st\<lparr>rv_deadline := None, rv_relay_cached := False\<rparr>
      in case rv_episode st of
           None \<Rightarrow> st1
         | Some e \<Rightarrow> publishRecoveryStatus env
             ((send_effect env Episode_Closed (st1\<lparr>rv_episode := None\<rparr>))\<lparr>rv_reconnecting := False\<rparr>))"

definition markConnectionLost :: "recovery \<Rightarrow> recovery" where
  "markConnectionLost st = st\<lparr>rv_lost := True\<rparr>"

definition reportRecoveryExhausted :: "renv \<Rightarrow> recovery \<Rightarrow> recovery" where
  "reportRecoveryExhausted env st =
     (case re_call env of
        None \<Rightarrow> st
      | Some k \<Rightarrow>
          if \<not> re_pc env then st
          else (case decideRecoveryExhausted (re_ice env) (re_connected env) (rv_worst st) of
                  Close_Recovered \<Rightarrow> closeRecoveryEpisode env st
                | Skip_Report \<Rightarrow> markConnectionLost st
                | Report_Failure s \<Rightarrow>
                    send_effect env (Report_Lost k s) (closeRecoveryEpisode env (markConnectionLost st))))"

definition armRecoveryDeadline :: "renv \<Rightarrow> recovery \<Rightarrow> recovery" where
  "armRecoveryDeadline env st =
     st\<lparr>rv_deadline := (if rv_episode st = None \<or> is_paused (rv_episode st) then None
                        else Some (re_now env + max 0 (remaining_ms (re_now env) (rv_episode st))))\<rparr>"

text \<open>The callback of the deadline timer.\<close>

definition deadline_fires :: "renv \<Rightarrow> recovery \<Rightarrow> recovery" where
  "deadline_fires env st =
     (let st1 = st\<lparr>rv_deadline := None\<rparr>
      in if rv_episode st1 = None \<or> is_paused (rv_episode st1) then st1
         else if \<not> has_expired (re_now env) (rv_episode st1) then armRecoveryDeadline env st1
         else reportRecoveryExhausted env st1)"

definition pauseRecoveryBudget :: "renv \<Rightarrow> pause_reason \<Rightarrow> recovery \<Rightarrow> recovery" where
  "pauseRecoveryBudget env r st =
     (let (ok, e) = pause_episode (re_now env) r (rv_episode st)
      in if \<not> ok then st
         else publishRecoveryStatus env (armRecoveryDeadline env (st\<lparr>rv_episode := e\<rparr>)))"

definition noteRecoverySymptom :: "renv \<Rightarrow> trigger \<Rightarrow> string option \<Rightarrow> recovery \<Rightarrow> recovery" where
  "noteRecoverySymptom env tr ice st =
     (if re_call env = None then st
      else
        (let st1 = (if str_truthy ice then st\<lparr>rv_worst := the ice\<rparr> else st);
             e1 = snd (note_episode default_options (re_now env) tr (rv_episode st1));
             e2 = (if \<not> rv_connectivity st1 then snd (pause_episode (re_now env) No_Connectivity e1)
                   else if \<not> re_connected env then snd (pause_episode (re_now env) Socket_Offline e1) else e1)
         in publishRecoveryStatus env (armRecoveryDeadline env (st1\<lparr>rv_episode := e2, rv_reconnecting := True\<rparr>))))"

section \<open>The restart ladder\<close>

definition cancelIceRestarts :: "renv \<Rightarrow> recovery \<Rightarrow> recovery" where
  "cancelIceRestarts env st = publishRecoveryStatus env (st\<lparr>rv_timer := None, rv_attempt := 0, rv_in_flight := False\<rparr>)"

definition episode_view_of :: "renv \<Rightarrow> recovery \<Rightarrow> episode_view" where
  "episode_view_of env st =
     \<lparr>ev_open = (rv_episode st \<noteq> None), ev_paused = is_paused (rv_episode st),
      ev_reason = (case rv_episode st of None \<Rightarrow> None | Some e \<Rightarrow> ep_reason e),
      ev_expired = has_expired (re_now env) (rv_episode st)\<rparr>"

text \<open>\<open>scheduleIceRestart\<close> up to the call of \<open>runIceRestart\<close>: whether the rung runs at once, and the state.\<close>

definition queue_rung :: "renv \<Rightarrow> trigger \<Rightarrow> bool \<Rightarrow> recovery \<Rightarrow> bool \<times> recovery" where
  "queue_rung env tr consume st =
     (case decideLadderSchedule \<lparr>si_active = in_progress env, si_pending = (rv_timer st \<noteq> None \<or> rv_in_flight st),
            si_attempt = rv_attempt st, si_episode = episode_view_of env st, si_consume = consume,
            si_local = re_local env, si_remote = re_remote env\<rparr> of
        Skip r \<Rightarrow> (False, st)
      | Schedule r \<Rightarrow>
          (let st1 = st\<lparr>rv_attempt := ru_attempt r,
                 rv_episode := (if ru_consume r then snd (record_attempt (rv_episode st)) else rv_episode st)\<rparr>
           in if ru_delay r \<le> 0 then (True, publishRecoveryStatus env st1)
              else (False, publishRecoveryStatus env (st1\<lparr>rv_timer := Some (re_now env + ru_delay r, tr)\<rparr>))))"

text \<open>
  \<open>runIceRestart\<close> up to its first \<open>await\<close>. A deferred rung is queued again after a delay that is never 0, so
  this does not come back here at once.
\<close>

definition runIceRestart :: "renv \<Rightarrow> trigger \<Rightarrow> recovery \<Rightarrow> recovery" where
  "runIceRestart env tr st =
     (case decideLadderRun \<lparr>ri_trigger = tr, ri_active = in_progress env, ri_attempt = rv_attempt st,
            ri_ice = (if re_pc env then re_ice env else None), ri_connected = re_connected env,
            ri_negotiating = re_negotiating env\<rparr> of
        Abort r \<Rightarrow> cancelIceRestarts env st
      | Defer Defer_Offline \<Rightarrow> snd (queue_rung env tr False (pauseRecoveryBudget env Socket_Offline st))
      | Defer Defer_Negotiating \<Rightarrow> snd (queue_rung env tr False st)
      | Restart \<Rightarrow> if re_peer env then publishRecoveryStatus env (st\<lparr>rv_in_flight := True\<rparr>) else st)"

definition scheduleIceRestart :: "renv \<Rightarrow> trigger \<Rightarrow> bool \<Rightarrow> recovery \<Rightarrow> recovery" where
  "scheduleIceRestart env tr consume st =
     (case queue_rung env tr consume st of (now, st1) \<Rightarrow> if now then runIceRestart env tr st1 else st1)"

text \<open>The callback of the ladder's timer.\<close>

definition rung_fires :: "renv \<Rightarrow> trigger \<Rightarrow> recovery \<Rightarrow> recovery" where
  "rung_fires env tr st = runIceRestart env tr (st\<lparr>rv_timer := None\<rparr>)"

definition beginIceRecovery :: "renv \<Rightarrow> trigger \<Rightarrow> recovery \<Rightarrow> recovery" where
  "beginIceRecovery env tr st =
     scheduleIceRestart env tr True (cancelIceRestarts env (noteRecoverySymptom env tr None st))"

definition resumeRecoveryBudget :: "renv \<Rightarrow> recovery \<Rightarrow> recovery" where
  "resumeRecoveryBudget env st =
     (let (ok, e) = resume_episode (re_now env) (rv_episode st)
      in if \<not> ok then st
         else
           (let st1 = publishRecoveryStatus env (armRecoveryDeadline env (st\<lparr>rv_episode := e\<rparr>))
            in if \<not> in_progress env \<or> isRecoveredIceState (re_ice env) then st1
               else scheduleIceRestart env (case e of Some x \<Rightarrow> ep_trigger x | None \<Rightarrow> Network_Change) False st1))"

section \<open>The end of an attempt\<close>

text \<open>
  The relays a restart uses: \<open>has_turn\<close> says of each fetch whether its answer names a relay, \<open>None\<close> that the
  second fetch failed. The answer is whether a relay is cached.
\<close>

definition fetchIceServersForRestart :: "bool \<Rightarrow> bool option \<Rightarrow> recovery \<Rightarrow> recovery" where
  "fetchIceServersForRestart first second st =
     (if canReuseIceServers (if rv_relay_cached st then Some True else None) then st
      else if decideFetchedIceServers first False = Cache_And_Use then st\<lparr>rv_relay_cached := True\<rparr>
      else if decideFetchedIceServers (case second of Some b \<Rightarrow> b | None \<Rightarrow> first) True = Cache_And_Use
      then st\<lparr>rv_relay_cached := True\<rparr> else st)"

definition restart_sent :: "renv \<Rightarrow> string \<Rightarrow> recovery \<Rightarrow> recovery" where
  "restart_sent env k st = publishRecoveryStatus env ((send_effect env (Send_Offer k) st)\<lparr>rv_in_flight := False\<rparr>)"

definition restart_failed :: "renv \<Rightarrow> trigger \<Rightarrow> recovery \<Rightarrow> recovery" where
  "restart_failed env tr st =
     publishRecoveryStatus env
       ((scheduleIceRestart env tr True (st\<lparr>rv_in_flight := False\<rparr>))\<lparr>rv_in_flight := False\<rparr>)"

definition offer_refused :: "renv \<Rightarrow> trigger \<Rightarrow> recovery \<Rightarrow> recovery" where
  "offer_refused env tr st = scheduleIceRestart env tr True st"

section \<open>What drives it\<close>

definition reportCallConnected :: "renv \<Rightarrow> string \<Rightarrow> recovery \<Rightarrow> recovery" where
  "reportCallConnected env s st =
     (case re_call env of
        None \<Rightarrow> st
      | Some k \<Rightarrow>
          (let st1 = closeRecoveryEpisode env st
           in if rv_reported st1 = Some k then st1
              else send_effect env (Report_Connected k s) (st1\<lparr>rv_reported := Some k\<rparr>)))"

definition connection_state_changed :: "renv \<Rightarrow> string \<Rightarrow> recovery \<Rightarrow> recovery" where
  "connection_state_changed env s st =
     (if s = ''connected'' then reportCallConnected env s st
      else if s = ''disconnected'' \<or> s = ''failed''
      then noteRecoverySymptom env (if s = ''failed'' then Ice_Failure else Ice_Disconnected) (Some s) st
      else st)"

definition ice_state_changed :: "renv \<Rightarrow> string \<Rightarrow> recovery \<Rightarrow> recovery" where
  "ice_state_changed env s st =
     (case decideIceConnectionState (Some s) of
        Observed_Recovered \<Rightarrow> cancelIceRestarts env (reportCallConnected env s st)
      | Observed_Ignore \<Rightarrow> st
      | Symptom tr restart \<Rightarrow>
          (let st1 = noteRecoverySymptom env tr (Some s) st
           in if restart then beginIceRecovery env tr st1 else st1))"

text \<open>\<open>in_call\<close> is \<open>isInCallRef\<close>.\<close>

definition socket_connected :: "renv \<Rightarrow> bool \<Rightarrow> recovery \<Rightarrow> recovery" where
  "socket_connected env in_call st =
     (let st1 = resumeRecoveryBudget env st
      in if \<not> in_call then st1
         else
           (let st2 = st1\<lparr>rv_reconnecting := False\<rparr>
            in if re_pc env then beginIceRecovery env Socket_Reconnect st2 else st2))"

definition socket_disconnected :: "renv \<Rightarrow> bool \<Rightarrow> recovery \<Rightarrow> recovery" where
  "socket_disconnected env in_call st =
     (if in_call
      then pauseRecoveryBudget env Socket_Offline (noteRecoverySymptom env Socket_Disconnect None (st\<lparr>rv_reconnecting := True\<rparr>))
      else st)"

definition restart_now :: "renv \<Rightarrow> recovery \<Rightarrow> recovery" where
  "restart_now env st =
     (if re_call env = None then st else beginIceRecovery env Network_Change (st\<lparr>rv_last_change := re_now env\<rparr>))"

definition network_changed :: "renv \<Rightarrow> recovery \<Rightarrow> recovery" where
  "network_changed env st =
     (let st1 = resumeRecoveryBudget env (st\<lparr>rv_connectivity := True\<rparr>)
      in if \<not> in_progress env then st1
         else if rv_change_timer st1 = None \<and> NETWORK_CHANGE_DEBOUNCE_MS \<le> re_now env - rv_last_change st1
         then restart_now env st1
         else st1\<lparr>rv_change_timer := Some (re_now env + NETWORK_CHANGE_DEBOUNCE_MS)\<rparr>)"

definition change_timer_fires :: "renv \<Rightarrow> recovery \<Rightarrow> recovery" where
  "change_timer_fires env st = restart_now env (st\<lparr>rv_change_timer := None\<rparr>)"

definition connectivity_lost :: "renv \<Rightarrow> recovery \<Rightarrow> recovery" where
  "connectivity_lost env st = pauseRecoveryBudget env No_Connectivity (st\<lparr>rv_connectivity := False\<rparr>)"

definition call_ended :: "renv \<Rightarrow> recovery \<Rightarrow> recovery" where
  "call_ended env st =
     (cancelIceRestarts env (closeRecoveryEpisode env (st\<lparr>rv_lost := False\<rparr>)))\<lparr>rv_reported := None\<rparr>"

end
