(* ===== verification/RecoveryProperties.thy ===== *)
theory RecoveryProperties
  imports CallRecovery
begin

text \<open>
  What the recovery of a running call promises: it opens and extends an episode only as the budget allows,
  reports a failure only when the budget is spent, and its ladder of restarts ends.
\<close>

section \<open>Events\<close>

datatype recovery_event =
    Ev_Ice string
  | Ev_Connection string
  | Ev_Deadline
  | Ev_Rung trigger
  | Ev_Sent string
  | Ev_Failed trigger
  | Ev_Refused trigger
  | Ev_Fetched bool "bool option"
  | Ev_Socket_Up bool
  | Ev_Socket_Down bool
  | Ev_Network
  | Ev_Network_Settled
  | Ev_Network_Lost
  | Ev_Call_Ended

fun recovery_step :: "renv \<Rightarrow> recovery_event \<Rightarrow> recovery \<Rightarrow> recovery" where
  "recovery_step env (Ev_Ice s) st = ice_state_changed env s st"
| "recovery_step env (Ev_Connection s) st = connection_state_changed env s st"
| "recovery_step env Ev_Deadline st = deadline_fires env st"
| "recovery_step env (Ev_Rung tr) st = rung_fires env tr st"
| "recovery_step env (Ev_Sent k) st = restart_sent env k st"
| "recovery_step env (Ev_Failed tr) st = restart_failed env tr st"
| "recovery_step env (Ev_Refused tr) st = offer_refused env tr st"
| "recovery_step env (Ev_Fetched a b) st = fetchIceServersForRestart a b st"
| "recovery_step env (Ev_Socket_Up c) st = socket_connected env c st"
| "recovery_step env (Ev_Socket_Down c) st = socket_disconnected env c st"
| "recovery_step env Ev_Network st = network_changed env st"
| "recovery_step env Ev_Network_Settled st = change_timer_fires env st"
| "recovery_step env Ev_Network_Lost st = connectivity_lost env st"
| "recovery_step env Ev_Call_Ended st = call_ended env st"

text \<open>What an instant can follow: the clock does not run backwards.\<close>

inductive recovery_reachable :: "int \<Rightarrow> recovery \<Rightarrow> bool" where
  start: "recovery_reachable t initial_recovery"
| step: "recovery_reachable t st \<Longrightarrow> t \<le> re_now env \<Longrightarrow> recovery_reachable (re_now env) (recovery_step env ev st)"

section \<open>The fields an operation keeps\<close>

lemma publish_fields [simp]:
  "rv_episode (publishRecoveryStatus env st) = rv_episode st" "rv_out (publishRecoveryStatus env st) = rv_out st"
  "rv_timer (publishRecoveryStatus env st) = rv_timer st" "rv_attempt (publishRecoveryStatus env st) = rv_attempt st"
  "rv_in_flight (publishRecoveryStatus env st) = rv_in_flight st"
  "rv_deadline (publishRecoveryStatus env st) = rv_deadline st"
  "rv_reconnecting (publishRecoveryStatus env st) = rv_reconnecting st"
  by (simp_all add: publishRecoveryStatus_def)

lemma arm_fields [simp]:
  "rv_episode (armRecoveryDeadline env st) = rv_episode st" "rv_out (armRecoveryDeadline env st) = rv_out st"
  "rv_timer (armRecoveryDeadline env st) = rv_timer st" "rv_attempt (armRecoveryDeadline env st) = rv_attempt st"
  "rv_in_flight (armRecoveryDeadline env st) = rv_in_flight st"
  "rv_reconnecting (armRecoveryDeadline env st) = rv_reconnecting st"
  by (simp_all add: armRecoveryDeadline_def)

lemma cancel_fields [simp]:
  "rv_episode (cancelIceRestarts env st) = rv_episode st" "rv_out (cancelIceRestarts env st) = rv_out st"
  "rv_timer (cancelIceRestarts env st) = None" "rv_attempt (cancelIceRestarts env st) = 0"
  "\<not> rv_in_flight (cancelIceRestarts env st)"
  "rv_reconnecting (cancelIceRestarts env st) = rv_reconnecting st"
  by (simp_all add: cancelIceRestarts_def)

lemma close_fields [simp]: "rv_episode (closeRecoveryEpisode env st) = None"
  by (simp add: closeRecoveryEpisode_def Let_def send_effect_def split: option.split)

section \<open>The episode of every reachable state is a running budget\<close>

abbreviation good_episode :: "int \<Rightarrow> episode option \<Rightarrow> bool" where
  "good_episode t eo \<equiv> pred_option (wf_episode default_options t) eo"

lemma default_budget: "0 \<le> budgetMs default_options" "budgetMs default_options \<le> maxEpisodeMs default_options"
  by (simp_all add: default_options_def CALL_RECOVERY_MAX_EPISODE_MS_def CALL_RECOVERY_BUDGET_MS_def)

lemma episode_ops_good:
  assumes "good_episode t eo"
  shows "good_episode t (snd (note_episode default_options t tr eo))" and "good_episode t (snd (pause_episode t r eo))"
    and "good_episode t (snd (resume_episode t eo))" and "good_episode t (snd (record_attempt eo))"
  using episode_step [OF default_budget assms, of "Note tr"] episode_step [OF default_budget assms, of "Pause r"]
    episode_step [OF default_budget assms, of Resume] episode_step [OF default_budget assms, of Attempt] by simp_all

lemma good_later: "t \<le> t' \<Longrightarrow> good_episode t eo \<Longrightarrow> good_episode t' eo"
  using episode_later by (cases eo) auto

lemma pause_good: "good_episode (re_now env) (rv_episode st) \<Longrightarrow> good_episode (re_now env) (rv_episode (pauseRecoveryBudget env r st))"
  using episode_ops_good(2) [of "re_now env" "rv_episode st" r]
  by (simp add: pauseRecoveryBudget_def Let_def case_prod_unfold)

lemma note_good: "good_episode (re_now env) (rv_episode st) \<Longrightarrow> good_episode (re_now env) (rv_episode (noteRecoverySymptom env tr s st))"
  by (simp add: noteRecoverySymptom_def Let_def episode_ops_good)

lemma queue_good: "good_episode (re_now env) (rv_episode st) \<Longrightarrow> good_episode (re_now env) (rv_episode (snd (queue_rung env tr c st)))"
  by (simp add: queue_rung_def Let_def episode_ops_good split: schedule_decision.split)

lemma run_good: "good_episode (re_now env) (rv_episode st) \<Longrightarrow> good_episode (re_now env) (rv_episode (runIceRestart env tr st))"
  by (simp add: runIceRestart_def queue_good pause_good split: run_decision.split defer_reason.split)

lemma schedule_good: "good_episode (re_now env) (rv_episode st) \<Longrightarrow> good_episode (re_now env) (rv_episode (scheduleIceRestart env tr c st))"
  using queue_good [of env st tr c] by (simp add: scheduleIceRestart_def case_prod_unfold run_good)

lemma begin_good: "good_episode (re_now env) (rv_episode st) \<Longrightarrow> good_episode (re_now env) (rv_episode (beginIceRecovery env tr st))"
  by (simp add: beginIceRecovery_def schedule_good note_good)

lemma resume_good: "good_episode (re_now env) (rv_episode st) \<Longrightarrow> good_episode (re_now env) (rv_episode (resumeRecoveryBudget env st))"
  using episode_ops_good(3) [of "re_now env" "rv_episode st"]
  by (simp add: resumeRecoveryBudget_def Let_def case_prod_unfold schedule_good)

lemma connected_good: "good_episode (re_now env) (rv_episode st) \<Longrightarrow> good_episode (re_now env) (rv_episode (reportCallConnected env s st))"
  by (simp add: reportCallConnected_def Let_def send_effect_def split: option.split)

lemma exhausted_good: "good_episode (re_now env) (rv_episode st) \<Longrightarrow> good_episode (re_now env) (rv_episode (reportRecoveryExhausted env st))"
  by (simp add: reportRecoveryExhausted_def send_effect_def markConnectionLost_def split: option.split exhausted_decision.split)

lemma step_good:
  assumes "good_episode (re_now env) (rv_episode st)"
  shows "good_episode (re_now env) (rv_episode (recovery_step env ev st))"
  using assms
  by (cases ev)
    (simp_all add: ice_state_changed_def connection_state_changed_def deadline_fires_def rung_fires_def restart_sent_def
      restart_failed_def offer_refused_def fetchIceServersForRestart_def socket_connected_def socket_disconnected_def
      network_changed_def change_timer_fires_def restart_now_def connectivity_lost_def call_ended_def send_effect_def Let_def
      note_good run_good schedule_good begin_good resume_good connected_good exhausted_good pause_good
      split: observed_decision.split)

lemma reachable_good: "recovery_reachable t st \<Longrightarrow> good_episode t (rv_episode st)"
proof (induction rule: recovery_reachable.induct)
  case (step t st env ev)
  then show ?case using good_later step_good by blast
qed (simp add: initial_recovery_def)

section \<open>Failure reports\<close>

definition lost_reports :: "recovery \<Rightarrow> (int \<times> recovery_effect) list" where
  "lost_reports st = filter (\<lambda>(_, x). case x of Report_Lost _ _ \<Rightarrow> True | _ \<Rightarrow> False) (rv_out st)"

lemma lost_send [simp]:
  "lost_reports (send_effect env x st) =
     lost_reports st @ (case x of Report_Lost _ _ \<Rightarrow> [(re_now env, x)] | _ \<Rightarrow> [])"
  by (cases x) (simp_all add: lost_reports_def send_effect_def)

lemma lost_same: "rv_out st' = rv_out st \<Longrightarrow> lost_reports st' = lost_reports st"
  by (simp add: lost_reports_def)

lemma lost_fields [simp]:
  "lost_reports (publishRecoveryStatus env st) = lost_reports st" "lost_reports (armRecoveryDeadline env st) = lost_reports st"
  "lost_reports (cancelIceRestarts env st) = lost_reports st"
  "lost_reports (pauseRecoveryBudget env r st) = lost_reports st"
  "lost_reports (noteRecoverySymptom env tr s st) = lost_reports st"
  "lost_reports (snd (queue_rung env tr c st)) = lost_reports st"
  by (rule lost_same; simp add: pauseRecoveryBudget_def noteRecoverySymptom_def queue_rung_def Let_def case_prod_unfold
      split: schedule_decision.split)+

lemma lost_updates [simp]:
  "lost_reports (st\<lparr>rv_episode := a\<rparr>) = lost_reports st" "lost_reports (st\<lparr>rv_deadline := b\<rparr>) = lost_reports st"
  "lost_reports (st\<lparr>rv_connectivity := c\<rparr>) = lost_reports st" "lost_reports (st\<lparr>rv_timer := d\<rparr>) = lost_reports st"
  "lost_reports (st\<lparr>rv_in_flight := e\<rparr>) = lost_reports st" "lost_reports (st\<lparr>rv_relay_cached := f\<rparr>) = lost_reports st"
  "lost_reports (st\<lparr>rv_last_change := g\<rparr>) = lost_reports st" "lost_reports (st\<lparr>rv_change_timer := h\<rparr>) = lost_reports st"
  "lost_reports (st\<lparr>rv_reconnecting := i\<rparr>) = lost_reports st" "lost_reports (st\<lparr>rv_lost := j\<rparr>) = lost_reports st"
  "lost_reports (st\<lparr>rv_reported := k\<rparr>) = lost_reports st"
  by (simp_all add: lost_reports_def)

lemma lost_close [simp]: "lost_reports (closeRecoveryEpisode env st) = lost_reports st"
  by (simp add: closeRecoveryEpisode_def Let_def split: option.split)

lemma lost_run [simp]: "lost_reports (runIceRestart env tr st) = lost_reports st"
  by (simp add: runIceRestart_def split: run_decision.split defer_reason.split)

lemma lost_schedule [simp]: "lost_reports (scheduleIceRestart env tr c st) = lost_reports st"
  by (simp add: scheduleIceRestart_def case_prod_unfold)

lemma lost_begin [simp]: "lost_reports (beginIceRecovery env tr st) = lost_reports st"
  by (simp add: beginIceRecovery_def)

lemma lost_resume [simp]: "lost_reports (resumeRecoveryBudget env st) = lost_reports st"
  by (simp add: resumeRecoveryBudget_def Let_def case_prod_unfold)

lemma lost_connected [simp]: "lost_reports (reportCallConnected env s st) = lost_reports st"
  by (simp add: reportCallConnected_def Let_def split: option.split)

text \<open>Only the deadline reports a failure.\<close>

lemma only_deadline_reports:
  "ev \<noteq> Ev_Deadline \<Longrightarrow> lost_reports (recovery_step env ev st) = lost_reports st"
  by (cases ev)
    (simp_all add: ice_state_changed_def connection_state_changed_def rung_fires_def restart_sent_def restart_failed_def
      offer_refused_def fetchIceServersForRestart_def socket_connected_def socket_disconnected_def network_changed_def
      change_timer_fires_def restart_now_def connectivity_lost_def call_ended_def Let_def split: observed_decision.split)

lemma deadline_report:
  assumes "lost_reports (deadline_fires env st) = lost_reports st @ [(t, x)]"
  obtains e k where "rv_episode st = Some e" "ep_paused_at e = None" "ep_deadline e \<le> re_now env"
    "re_call env = Some k" "re_pc env" "re_connected env" "\<not> isRecoveredIceState (re_ice env)"
proof -
  let ?st = "st\<lparr>rv_deadline := None\<rparr>"
  have "\<not> (rv_episode st = None \<or> is_paused (rv_episode st))" "has_expired (re_now env) (rv_episode st)"
    using assms by (auto simp: deadline_fires_def Let_def split: if_splits)
  then obtain e where e: "rv_episode st = Some e" "ep_paused_at e = None" "ep_deadline e \<le> re_now env"
    by (auto simp: is_paused_def has_expired_def remainingFor_def reference_time_def split: option.splits)
  have "lost_reports (reportRecoveryExhausted env ?st) = lost_reports st @ [(t, x)]"
    using assms by (auto simp: deadline_fires_def Let_def split: if_splits)
  then obtain k where "re_call env = Some k" "re_pc env" "re_connected env" "\<not> isRecoveredIceState (re_ice env)"
    by (auto simp: reportRecoveryExhausted_def decideRecoveryExhausted_def markConnectionLost_def split: option.splits if_splits)
  with e that show thesis by blast
qed

section \<open>Properties\<close>

text \<open>
  C33. A client hangs up for lost media only when it has to: in any state the recovery can reach, a step that
  reports the media of a call as failed is the expiry of an open, unpaused episode for the active call, over a
  live socket, with the connection still down, after at least thirty seconds in which recovery was possible;
  and no episode is ever given more than ninety such seconds.
\<close>

theorem failure_report_justified:
  assumes "recovery_reachable t st" and "t \<le> re_now env"
    and "lost_reports (recovery_step env ev st) = lost_reports st @ [(re_now env, Report_Lost k s)]"
  shows "ev = Ev_Deadline \<and> re_call env = Some k \<and> re_connected env \<and> \<not> isRecoveredIceState (re_ice env) \<and>
    (\<exists>e. rv_episode st = Some e \<and> ep_paused_at e = None \<and>
         30000 \<le> re_now env - ep_started e - ep_paused e \<and> ep_deadline e - ep_started e - ep_paused e \<le> 90000)"
proof -
  have ev: "ev = Ev_Deadline" using assms(3) only_deadline_reports [of ev env st] by fastforce
  with assms(3) have lost: "lost_reports (deadline_fires env st) = lost_reports st @ [(re_now env, Report_Lost k s)]" by simp
  from deadline_report [OF this] obtain e k' where e: "rv_episode st = Some e" "ep_paused_at e = None"
    "ep_deadline e \<le> re_now env" and call: "re_call env = Some k'" "re_pc env" "re_connected env"
    "\<not> isRecoveredIceState (re_ice env)" by metis
  have "wf_episode default_options t e" using reachable_good [OF assms(1)] e(1) by simp
  then have "30000 \<le> ep_deadline e - ep_started e - ep_paused e" "ep_deadline e - ep_started e - ep_paused e \<le> 90000"
    by (simp_all add: wf_episode_def default_options_def CALL_RECOVERY_MAX_EPISODE_MS_def CALL_RECOVERY_BUDGET_MS_def)
  moreover have "k' = k"
    using lost call by (auto simp: deadline_fires_def Let_def reportRecoveryExhausted_def markConnectionLost_def
        split: exhausted_decision.splits if_splits)
  ultimately show ?thesis using ev e call by force
qed

definition demo_renv :: "int \<Rightarrow> string \<Rightarrow> renv" where
  "demo_renv t ice = \<lparr>re_now = t, re_call = Some ''c1'', re_pc = True, re_ice = Some ice, re_connected = True,
     re_negotiating = False, re_local = Some ''ann'', re_remote = Some ''bob'', re_peer = True\<rparr>"

definition demo_recovery :: recovery where
  "demo_recovery = recovery_step (demo_renv 1000 ''disconnected'') (Ev_Ice ''disconnected'') initial_recovery"

lemma demo_recovery_reachable: "recovery_reachable 1000 demo_recovery"
  using recovery_reachable.step [OF recovery_reachable.start [of 0], of "demo_renv 1000 ''disconnected''" "Ev_Ice ''disconnected''"]
  by (simp add: demo_recovery_def demo_renv_def)

theorem failure_report_justified_witness:
  "lost_reports (recovery_step (demo_renv 31000 ''failed'') Ev_Deadline demo_recovery) = [(31000, Report_Lost ''c1'' ''disconnected'')] \<and>
   (\<exists>e. rv_episode demo_recovery = Some e \<and> 30000 \<le> 31000 - ep_started e - ep_paused e)"
proof (rule conjI)
  show r: "lost_reports (recovery_step (demo_renv 31000 ''failed'') Ev_Deadline demo_recovery) =
      [(31000, Report_Lost ''c1'' ''disconnected'')]" by code_simp
  have n: "re_now (demo_renv 31000 ''failed'') = 31000" and l: "lost_reports demo_recovery = []" by code_simp+
  have "(1000 :: int) \<le> re_now (demo_renv 31000 ''failed'')" by (simp add: n)
  from failure_report_justified [OF demo_recovery_reachable this, of Ev_Deadline "''c1''" "''disconnected''"]
  show "\<exists>e. rv_episode demo_recovery = Some e \<and> 30000 \<le> 31000 - ep_started e - ep_paused e"
    using r by (auto simp: n l)
qed

text \<open>
  A socket that comes back under healthy media leaves the client reconnecting: the restart is called off
  because the connection is up, but the episode it opened stays open until its deadline.
\<close>

theorem reconnect_keeps_episode:
  "rv_reconnecting (socket_connected (demo_renv 5000 ''connected'') True initial_recovery) \<and>
   rv_timer (socket_connected (demo_renv 5000 ''connected'') True initial_recovery) = None \<and>
   rv_deadline (socket_connected (demo_renv 5000 ''connected'') True initial_recovery) = Some 35000 \<and>
   map_option rs_trigger (rv_status (socket_connected (demo_renv 5000 ''connected'') True initial_recovery)) = Some Socket_Reconnect"
  by code_simp

end
