(* ===== verification/RecoveryLadder.thy ===== *)
theory RecoveryLadder
  imports RecoveryProperties
begin

text \<open>
  An outage nothing helps against: every restart fails, as late as it likes, and the timers of the recovery run,
  the one of the next rung and the one of the deadline, whichever is due first. \<open>until_deadline\<close> follows them to
  the deadline; that it is total is the claim that finitely many rungs come before it. Shown: the failure is
  reported at the deadline, once.
\<close>

section \<open>Where a queued rung comes from\<close>

lemma queue_cases:
  assumes "queue_rung env tr c st = (now, st')"
  obtains (skip) "\<not> now" "st' = st"
    | (run) "now" "c" "rv_timer st' = rv_timer st" "rv_timer st = None" "\<not> rv_in_flight st"
        "rv_episode st' = snd (record_attempt (rv_episode st))" "\<not> has_expired (re_now env) (rv_episode st)" "\<not> rv_in_flight st'"
        "\<not> is_paused (rv_episode st)" "rv_attempt st' = Suc (rv_attempt st)"
    | (queue) d where "\<not> now" "rv_timer st' = Some (re_now env + d, tr)" "1000 \<le> d" "d \<le> 9500" "rv_timer st = None"
        "rv_episode st' = (if c then snd (record_attempt (rv_episode st)) else rv_episode st)"
        "\<not> rv_in_flight st'" "\<not> has_expired (re_now env) (rv_episode st)"
        "\<not> is_paused (rv_episode st)" "c \<Longrightarrow> 0 < rv_attempt st \<Longrightarrow> 1500 \<le> d" "c \<Longrightarrow> rv_attempt st' = Suc (rv_attempt st)"
proof -
  let ?i = "\<lparr>si_active = in_progress env, si_pending = (rv_timer st \<noteq> None \<or> rv_in_flight st),
            si_attempt = rv_attempt st, si_episode = episode_view_of env st, si_consume = c,
            si_local = re_local env, si_remote = re_remote env\<rparr>"
  show thesis
  proof (cases "decideLadderSchedule ?i")
    case (Skip r)
    with assms skip show thesis by (simp add: queue_rung_def)
  next
    case (Schedule r)
    let ?tb = "iceRestartTiebreakMs (re_local env) (re_remote env)"
    have idle: "rv_timer st = None" "\<not> rv_in_flight st" "\<not> is_paused (rv_episode st)"
      using Schedule
      by (cases "rv_timer st"; auto simp: decideLadderSchedule_def Let_def episode_view_of_def is_paused_def
          split: if_splits option.splits)+
    have d: "ru_consume r = c"
      "ru_attempt r = (if c then Suc (rv_attempt st) else rv_attempt st)"
      "ru_delay r = (if c then iceRestartBackoffMs (Suc (rv_attempt st)) else 1000) + ?tb"
      "\<not> has_expired (re_now env) (rv_episode st)"
      using Schedule
      by (auto simp: decideLadderSchedule_def Let_def episode_view_of_def ICE_RESTART_PRECONDITION_RETRY_MS_def
          has_expired_def split: if_splits option.splits)
    have tb: "?tb = 0 \<or> ?tb = 1500"
      by (simp add: iceRestartTiebreakMs_def Let_def ICE_RESTART_TIEBREAK_MS_def)
    note b = backoff_bounds [of "Suc (rv_attempt st)"]
    show thesis
    proof (cases "ru_delay r \<le> 0")
      case True
      then have c using d(3) tb by (auto split: if_splits)
      have eq: "now" "st' = publishRecoveryStatus env (st\<lparr>rv_attempt := ru_attempt r,
          rv_episode := snd (record_attempt (rv_episode st))\<rparr>)"
        using assms Schedule True \<open>c\<close> d(1) by (simp_all add: queue_rung_def Let_def)
      show thesis by (rule run) (use eq \<open>c\<close> d idle in simp_all)
    next
      case False
      have "1000 \<le> ru_delay r"
      proof (cases "c \<and> rv_attempt st = 0")
        case True
        then have "iceRestartBackoffMs (Suc (rv_attempt st)) = 0" by (simp add: iceRestartBackoffMs_def)
        with True False tb d(3) show ?thesis by auto
      next
        case False
        with b(3) tb d(3) show ?thesis by auto
      qed
      moreover have "ru_delay r \<le> 9500" using b(2) tb d(3) by auto
      moreover have "c \<Longrightarrow> 0 < rv_attempt st \<Longrightarrow> 1500 \<le> ru_delay r" using b(3) tb d(3) by auto
      moreover have eq: "\<not> now" "st' = publishRecoveryStatus env (st\<lparr>rv_attempt := ru_attempt r,
          rv_episode := (if c then snd (record_attempt (rv_episode st)) else rv_episode st),
          rv_timer := Some (re_now env + ru_delay r, tr)\<rparr>)"
        using assms Schedule False d(1) by (simp_all add: queue_rung_def Let_def)
      ultimately show thesis using d idle by (intro queue [of "ru_delay r"]) simp_all
    qed
  qed
qed

section \<open>The ladder alone\<close>

definition ladder_deadline :: "recovery \<Rightarrow> int" where
  "ladder_deadline st = (case rv_episode st of None \<Rightarrow> 0 | Some e \<Rightarrow> ep_deadline e)"

text \<open>How far the pending rung or the restart in flight is from the deadline.\<close>

definition ladder_measure :: "renv \<Rightarrow> recovery \<Rightarrow> nat" where
  "ladder_measure env st =
     (if rv_episode st = None then 0
      else (case rv_timer st of
              Some (due, _) \<Rightarrow> 2 + 2 * nat (ladder_deadline st + 10000 - due) + (if rv_in_flight st then 1 else 0)
            | None \<Rightarrow> if rv_in_flight st then Suc (2 * nat (ladder_deadline st + 10000 - re_now env)) else 0))"

definition at_time :: "int \<Rightarrow> renv \<Rightarrow> renv" where
  "at_time t env = env\<lparr>re_now := max t (re_now env)\<rparr>"

lemma at_time_simps [simp]:
  "re_now (at_time t env) = max t (re_now env)" "re_call (at_time t env) = re_call env" "re_pc (at_time t env) = re_pc env"
  "re_ice (at_time t env) = re_ice env" "re_connected (at_time t env) = re_connected env"
  "re_negotiating (at_time t env) = re_negotiating env" "re_peer (at_time t env) = re_peer env"
  "in_progress (at_time t env) = in_progress env"
  by (simp_all add: at_time_def in_progress_def)

text \<open>A new timer is at least a second ahead, and was set before the deadline.\<close>

definition ahead :: "int \<Rightarrow> int \<Rightarrow> recovery \<Rightarrow> bool" where
  "ahead t dl st =
     (rv_episode st = None \<or>
      (case rv_timer st of None \<Rightarrow> True | Some (due, _) \<Rightarrow> t + 1000 \<le> due \<and> t < dl \<and> ladder_deadline st = dl))"

lemma ahead_idle: "rv_timer st = None \<Longrightarrow> ahead t dl st"
  by (simp add: ahead_def)

lemma not_expired_before:
  "\<not> has_expired t (rv_episode st) \<Longrightarrow> \<not> is_paused (rv_episode st) \<Longrightarrow> rv_episode st \<noteq> None \<Longrightarrow> t < ladder_deadline st"
  by (auto simp: has_expired_def is_paused_def ladder_deadline_def remainingFor_def reference_time_def split: option.splits)

lemma record_fields [simp]:
  "(snd (record_attempt eo) = None) = (eo = None)"
  by (simp add: record_attempt_def split: option.split)

lemma record_deadline: "rv_episode st' = snd (record_attempt (rv_episode st)) \<Longrightarrow> ladder_deadline st' = ladder_deadline st"
  by (simp add: ladder_deadline_def record_attempt_def split: option.split)

lemma queue_ahead:
  assumes "queue_rung env tr c st = (now, st')" and "rv_timer st = None"
  shows "ahead (re_now env) (ladder_deadline st) st'"
  using assms(1)
proof (cases rule: queue_cases)
  case skip
  with assms(2) show ?thesis by (simp add: ahead_def)
next
  case run
  then show ?thesis by (simp add: ahead_def)
next
  case (queue d)
  show ?thesis
  proof (cases "rv_episode st")
    case None
    with queue show ?thesis by (simp add: ahead_def)
  next
    case (Some e)
    with queue(9) queue(8) not_expired_before [of "re_now env" st] have "re_now env < ladder_deadline st" by simp
    moreover have "ladder_deadline st' = ladder_deadline st"
      using queue(6) record_deadline [of st' st] by (cases c) (simp_all add: ladder_deadline_def)
    ultimately show ?thesis using queue by (simp add: ahead_def)
  qed
qed

lemma run_ahead:
  assumes "rv_timer st = None" "\<not> rv_in_flight st"
  shows "ahead (re_now env) (ladder_deadline st) (runIceRestart env tr st)"
proof -
  have pause: "rv_timer (pauseRecoveryBudget env r st) = None" "is_paused (rv_episode (pauseRecoveryBudget env r st)) \<or> rv_episode st = None"
    "(rv_episode (pauseRecoveryBudget env r st) = None) = (rv_episode st = None)" for r
    using assms(1) by (auto simp: pauseRecoveryBudget_def pause_episode_def is_paused_def Let_def split: option.split)
  have off: "ahead (re_now env) (ladder_deadline st) (snd (queue_rung env tr False (pauseRecoveryBudget env Socket_Offline st)))"
  proof -
    obtain now st' where q: "queue_rung env tr False (pauseRecoveryBudget env Socket_Offline st) = (now, st')" by fastforce
    show ?thesis
    proof (cases "rv_episode st")
      case None
      from q None pause(3) show ?thesis by (cases rule: queue_cases) (auto simp: q ahead_def)
    next
      case (Some e)
      with q pause(1,2) show ?thesis by (cases rule: queue_cases) (auto simp: q ahead_def)
    qed
  qed
  obtain now st' where q: "queue_rung env tr False st = (now, st')" by fastforce
  from queue_ahead [OF q assms(1)] off assms show ?thesis
    by (auto simp: runIceRestart_def q ahead_idle simp del: if_split split: run_decision.split defer_reason.split)
qed

text \<open>
  The driver. \<open>tr\<close> is what the ladder runs for, and \<open>lat n\<close> how long attempt \<open>n\<close> takes to fail. An attempt in
  flight blocks no timer: the deadline fires over it.
\<close>

definition next_due :: "(nat \<Rightarrow> int) \<Rightarrow> renv \<Rightarrow> recovery \<Rightarrow> int option" where
  "next_due lat env st =
     (if rv_in_flight st then Some (max (re_now env + lat (rv_attempt st)) (re_now env))
      else map_option (\<lambda>(due, _). max due (re_now env)) (rv_timer st))"

function until_deadline :: "(nat \<Rightarrow> int) \<Rightarrow> trigger \<Rightarrow> renv \<Rightarrow> recovery \<Rightarrow> renv \<times> recovery" where
  "until_deadline lat tr env st =
     (case rv_deadline st of
        None \<Rightarrow> (env, st)
      | Some d \<Rightarrow>
          if rv_episode st = None then (env, st)
          else (case next_due lat env st of
                  Some t \<Rightarrow>
                    if d \<le> t then (at_time d env, deadline_fires (at_time d env) st)
                    else if rv_in_flight st then until_deadline lat tr (at_time t env) (restart_failed (at_time t env) tr st)
                    else until_deadline lat tr (at_time t env) (rung_fires (at_time t env) (snd (the (rv_timer st))) st)
                | None \<Rightarrow> (at_time d env, deadline_fires (at_time d env) st)))"
  by pat_completeness auto

lemma schedule_ahead:
  assumes "rv_timer st = None" "\<not> rv_in_flight st"
  shows "ahead (re_now env) (ladder_deadline st) (scheduleIceRestart env tr c st)"
proof -
  obtain now st' where q: "queue_rung env tr c st = (now, st')" by fastforce
  show ?thesis
  proof (cases now)
    case False
    with queue_ahead [OF q assms(1)] show ?thesis by (simp add: scheduleIceRestart_def q)
  next
    case True
    with q assms have "rv_timer st' = None" "\<not> rv_in_flight st'" "ladder_deadline st' = ladder_deadline st"
      by (cases rule: queue_cases; simp add: record_deadline)+
    with run_ahead [of st' env tr] True show ?thesis by (simp add: scheduleIceRestart_def q)
  qed
qed

lemma ahead_measure:
  assumes "ahead t dl st'" and "\<not> rv_in_flight st' \<or> rv_timer st' = None" and "t \<le> re_now env"
    and "rv_in_flight st' \<Longrightarrow> rv_episode st' \<noteq> None \<Longrightarrow> ladder_deadline st' = dl"
  shows "ladder_measure env st' < 2 + 2 * nat (dl + 10000 - t)"
  using assms by (auto simp: ahead_def ladder_measure_def split: option.splits)

lemma ladder_deadline_fields [simp]:
  "ladder_deadline (publishRecoveryStatus env st) = ladder_deadline st"
  "ladder_deadline (st\<lparr>rv_in_flight := b\<rparr>) = ladder_deadline st"
  "ladder_deadline (st\<lparr>rv_timer := x\<rparr>) = ladder_deadline st"
  by (simp_all add: ladder_deadline_def)

lemma ahead_cong:
  assumes "rv_episode st' = rv_episode st" "rv_timer st' = rv_timer st"
  shows "ahead t dl st' = ahead t dl st"
  unfolding ahead_def ladder_deadline_def assms ..

lemma failed_ahead:
  "ahead t dl (restart_failed env tr st) = ahead t dl (scheduleIceRestart env tr True (st\<lparr>rv_in_flight := False\<rparr>))"
  unfolding restart_failed_def by (rule ahead_cong) simp_all

lemma failed_idle: "\<not> rv_in_flight (restart_failed env tr st)"
  by (simp add: restart_failed_def)

lemma failed_measure:
  assumes "rv_in_flight st" "rv_episode st \<noteq> None"
  shows "ladder_measure (at_time t env) (restart_failed (at_time t env) tr st) < ladder_measure env st"
proof (cases "rv_timer st")
  case None
  have "ahead (re_now (at_time t env)) (ladder_deadline st) (restart_failed (at_time t env) tr st)"
    using schedule_ahead [of "st\<lparr>rv_in_flight := False\<rparr>" "at_time t env" tr True] None by (simp add: failed_ahead)
  then have "ahead (re_now env) (ladder_deadline st) (restart_failed (at_time t env) tr st)"
    by (auto simp: ahead_def split: option.splits)
  then show ?thesis
    using assms None failed_idle [of "at_time t env" tr st]
    by (auto simp: ahead_def ladder_measure_def split: option.splits)
next
  case (Some x)
  have "restart_failed (at_time t env) tr st = publishRecoveryStatus (at_time t env) (st\<lparr>rv_in_flight := False\<rparr>)"
    using Some by (simp add: restart_failed_def scheduleIceRestart_def queue_rung_def decideLadderSchedule_def Let_def
        in_progress_def split: if_split)
  then show ?thesis using assms Some
    by (auto simp: ladder_measure_def ladder_deadline_def split: prod.split)
qed

lemma run_in_flight:
  assumes "\<not> rv_in_flight st" "rv_in_flight (runIceRestart env tr st)"
  shows "rv_timer (runIceRestart env tr st) = rv_timer st" "rv_episode (runIceRestart env tr st) = rv_episode st"
proof -
  have "\<not> rv_in_flight (snd (queue_rung env tr False s))" if "\<not> rv_in_flight s" for s
    using that by (simp add: queue_rung_def Let_def split: schedule_decision.split)
  moreover have "rv_in_flight (pauseRecoveryBudget env r st) = rv_in_flight st" for r
    by (simp add: pauseRecoveryBudget_def Let_def case_prod_unfold)
  ultimately have "runIceRestart env tr st = publishRecoveryStatus env (st\<lparr>rv_in_flight := True\<rparr>)"
    using assms by (auto simp: runIceRestart_def simp del: if_split split: run_decision.splits defer_reason.splits)
      (auto split: if_splits)
  then show "rv_timer (runIceRestart env tr st) = rv_timer st" "rv_episode (runIceRestart env tr st) = rv_episode st" by simp_all
qed

lemma fires_measure:
  assumes "\<not> rv_in_flight st" "rv_episode st \<noteq> None" "rv_timer st = Some (due, tr)"
  shows "ladder_measure (at_time due env) (rung_fires (at_time due env) tr st) < ladder_measure env st"
proof -
  let ?s = "st\<lparr>rv_timer := None\<rparr>" and ?e = "at_time due env"
  have a: "ahead (re_now ?e) (ladder_deadline st) (rung_fires ?e tr st)"
    using run_ahead [of ?s ?e tr] assms(1) by (simp add: rung_fires_def ladder_deadline_def)
  show ?thesis
  proof (cases "rv_in_flight (rung_fires ?e tr st)")
    case True
    then have "rv_timer (rung_fires ?e tr st) = None" "rv_episode (rung_fires ?e tr st) = rv_episode st"
      using run_in_flight [of ?s ?e tr] assms(1) by (simp_all add: rung_fires_def)
    with True assms show ?thesis by (simp add: ladder_measure_def ladder_deadline_def)
  next
    case False
    with a assms show ?thesis by (auto simp: ahead_def ladder_measure_def split: option.splits)
  qed
qed

lemma at_time_max [simp]: "at_time (max t (re_now env)) env = at_time t env"
  by (simp add: at_time_def)

termination until_deadline
proof (relation "measure (\<lambda>(lat, tr, env, st). ladder_measure env st)", simp)
  fix lat :: "nat \<Rightarrow> int" and tr env st d t
  assume st: "rv_deadline st = Some d" "rv_episode st \<noteq> None" and t: "next_due lat env st = Some t"
  show "rv_in_flight st \<Longrightarrow>
      ((lat, tr, at_time t env, restart_failed (at_time t env) tr st), lat, tr, env, st) \<in> measure (\<lambda>(lat, tr, env, st). ladder_measure env st)"
    using failed_measure [OF _ st(2)] by simp
  assume idle: "\<not> rv_in_flight st"
  then obtain due tr' where timer: "rv_timer st = Some (due, tr')" "t = max due (re_now env)"
    using t by (auto simp: next_due_def)
  then show "((lat, tr, at_time t env, rung_fires (at_time t env) (snd (the (rv_timer st))) st), lat, tr, env, st) \<in>
      measure (\<lambda>(lat, tr, env, st). ladder_measure env st)"
    using fires_measure [OF idle st(2) timer(1)] by simp
qed

declare until_deadline.simps [simp del]

section \<open>Climbing against a silent peer\<close>

definition hopeless :: "renv \<Rightarrow> bool" where
  "hopeless env =
     (in_progress env \<and> re_connected env \<and> \<not> re_negotiating env \<and> re_peer env \<and> \<not> isRecoveredIceState (re_ice env))"

text \<open>An open episode \<open>e\<close> of call \<open>k\<close> with its deadline armed.\<close>

definition climbing :: "episode \<Rightarrow> recovery \<Rightarrow> bool" where
  "climbing e st =
     (rv_episode st = Some e \<and> ep_paused_at e = None \<and> 0 < rv_attempt st \<and> (rv_in_flight st \<longrightarrow> rv_timer st = None) \<and>
      rv_deadline st = Some (ep_deadline e))"

lemma hopeless_at [simp]: "hopeless (at_time t env) = hopeless env"
  by (simp add: hopeless_def)

lemma hopeless_runs:
  assumes "hopeless env"
  shows "runIceRestart env tr st = publishRecoveryStatus env (st\<lparr>rv_in_flight := True\<rparr>)"
proof -
  have "re_pc env" using assms by (simp add: hopeless_def in_progress_def)
  with assms show ?thesis by (simp add: runIceRestart_def decideLadderRun_def hopeless_def)
qed

text \<open>A restart that fails before the deadline queues the next rung.\<close>

lemma failed_again:
  assumes "hopeless env" "climbing e st" "rv_timer st = None" "re_now env < ep_deadline e"
  obtains d where "1500 \<le> d" "climbing (e\<lparr>ep_attempts := Suc (ep_attempts e)\<rparr>) (restart_failed env tr st)"
    "rv_timer (restart_failed env tr st) = Some (re_now env + d, tr)"
    "rv_attempt (restart_failed env tr st) = Suc (rv_attempt st)" "rv_worst (restart_failed env tr st) = rv_worst st"
    "lost_reports (restart_failed env tr st) = lost_reports st"
proof -
  let ?s = "st\<lparr>rv_in_flight := False\<rparr>"
  have x: "\<not> has_expired (re_now env) (Some e)" "\<not> is_paused (Some e)"
    using assms by (simp_all add: climbing_def has_expired_def remainingFor_def reference_time_def is_paused_def)
  let ?d = "iceRestartBackoffMs (Suc (rv_attempt st)) + iceRestartTiebreakMs (re_local env) (re_remote env)"
  have d: "1500 \<le> ?d"
    using backoff_bounds(3) [of "Suc (rv_attempt st)"] tiebreak_bounds(1) [of "re_local env" "re_remote env"] assms(2)
    by (simp add: climbing_def)
  let ?q = "?s\<lparr>rv_attempt := Suc (rv_attempt st), rv_episode := Some (e\<lparr>ep_attempts := Suc (ep_attempts e)\<rparr>),
      rv_timer := Some (re_now env + ?d, tr)\<rparr>"
  have "queue_rung env tr True ?s = (False, publishRecoveryStatus env ?q)"
    using assms x d
    by (simp add: climbing_def hopeless_def queue_rung_def decideLadderSchedule_def episode_view_of_def Let_def record_attempt_def)
  then have r: "restart_failed env tr st = publishRecoveryStatus env ((publishRecoveryStatus env ?q)\<lparr>rv_in_flight := False\<rparr>)"
    by (simp add: restart_failed_def scheduleIceRestart_def)
  show thesis using that [OF d] assms(2) by (simp add: r climbing_def publishRecoveryStatus_def lost_reports_def)
qed

definition rung_time :: "renv \<Rightarrow> recovery \<Rightarrow> int" where
  "rung_time env st = (case rv_timer st of Some (due, _) \<Rightarrow> due | None \<Rightarrow> re_now env)"

text \<open>At the deadline of an episode the call is given up: one report, nothing open and no deadline armed.\<close>

definition worst_reported :: "string \<Rightarrow> string" where
  "worst_reported w = (if w = ''failed'' then ''failed'' else ''disconnected'')"

lemma expiry:
  assumes "hopeless env" "climbing e st" "ep_deadline e \<le> re_now env" "re_call env = Some k"
  shows "lost_reports (deadline_fires env st) = lost_reports st @ [(re_now env, Report_Lost k (worst_reported (rv_worst st)))]"
    and "rv_episode (deadline_fires env st) = None" "rv_deadline (deadline_fires env st) = None" "rv_lost (deadline_fires env st)"
    and "rv_attempt (deadline_fires env st) = rv_attempt st"
proof -
  let ?s = "markConnectionLost (st\<lparr>rv_deadline := None\<rparr>)"
  have "has_expired (re_now env) (rv_episode st)" "\<not> is_paused (rv_episode st)" "rv_episode st = Some e"
    using assms by (simp_all add: climbing_def has_expired_def remainingFor_def reference_time_def is_paused_def)
  with assms have f: "deadline_fires env st =
      send_effect env (Report_Lost k (worst_reported (rv_worst st))) (closeRecoveryEpisode env ?s)"
    by (simp add: deadline_fires_def Let_def reportRecoveryExhausted_def decideRecoveryExhausted_def hopeless_def
        in_progress_def worst_reported_def markConnectionLost_def)
  have "rv_episode ?s = Some e" using assms(2) by (simp add: markConnectionLost_def climbing_def)
  then have c: "rv_episode (closeRecoveryEpisode env ?s) = None" "rv_deadline (closeRecoveryEpisode env ?s) = None"
    "rv_lost (closeRecoveryEpisode env ?s)" "rv_attempt (closeRecoveryEpisode env ?s) = rv_attempt st"
    by (simp_all add: closeRecoveryEpisode_def send_effect_def publishRecoveryStatus_def markConnectionLost_def)
  show "lost_reports (deadline_fires env st) = lost_reports st @ [(re_now env, Report_Lost k (worst_reported (rv_worst st)))]"
    by (simp add: f markConnectionLost_def)
  show "rv_episode (deadline_fires env st) = None" "rv_deadline (deadline_fires env st) = None" "rv_lost (deadline_fires env st)"
    "rv_attempt (deadline_fires env st) = rv_attempt st"
    using c by (simp_all add: f send_effect_def)
qed

text \<open>
  What the run to the deadline leaves; each further rung costs one and a half seconds of the budget.
\<close>

definition given_up :: "string \<Rightarrow> episode \<Rightarrow> renv \<Rightarrow> recovery \<Rightarrow> renv \<Rightarrow> recovery \<Rightarrow> bool" where
  "given_up k e env st env' st' =
     (re_now env' = ep_deadline e \<and>
      lost_reports st' = lost_reports st @ [(ep_deadline e, Report_Lost k (worst_reported (rv_worst st)))] \<and>
      rv_episode st' = None \<and> rv_deadline st' = None \<and> rv_lost st' \<and>
      1500 * (int (rv_attempt st') - int (rv_attempt st)) \<le> max 0 (ep_deadline e - rung_time env st + 1499))"

lemma given_up_now:
  assumes "hopeless env" "climbing e st" "re_now env \<le> ep_deadline e" "re_call env = Some k"
  shows "given_up k e env st (at_time (ep_deadline e) env) (deadline_fires (at_time (ep_deadline e) env) st)"
  using expiry [of "at_time (ep_deadline e) env" e st k] assms by (simp add: given_up_def)

lemma climb:
  assumes "hopeless env" "climbing e st" "re_now env \<le> ep_deadline e" "re_call env = Some k"
  shows "(case until_deadline lat tr env st of (env', st') \<Rightarrow> given_up k e env st env' st')"
  using assms
proof (induction lat tr env st arbitrary: e rule: until_deadline.induct)
  case (1 lat tr env st)
  have ep: "rv_deadline st = Some (ep_deadline e)" "rv_episode st \<noteq> None" using 1(4) by (simp_all add: climbing_def)
  note here = given_up_now [OF 1(3-6)]
  show ?case
  proof (cases "next_due lat env st")
    case None
    have "until_deadline lat tr env st = (at_time (ep_deadline e) env, deadline_fires (at_time (ep_deadline e) env) st)"
      by (subst until_deadline.simps) (simp add: ep None)
    then show ?thesis using here by simp
  next
    case (Some t)
    show ?thesis
    proof (cases "ep_deadline e \<le> t")
      case True
      have "until_deadline lat tr env st = (at_time (ep_deadline e) env, deadline_fires (at_time (ep_deadline e) env) st)"
        by (subst until_deadline.simps) (simp add: ep Some True)
      then show ?thesis using here by simp
    next
      case False
      let ?env = "at_time t env"
      have t: "re_now env \<le> t" using Some by (auto simp: next_due_def split: if_splits)
      have env: "hopeless ?env" "re_now ?env \<le> ep_deadline e" "re_call ?env = Some k"
        using 1(3,6) False t by simp_all
      show ?thesis
      proof (cases "rv_in_flight st")
        case True
        have u: "until_deadline lat tr env st = until_deadline lat tr ?env (restart_failed ?env tr st)"
          by (subst until_deadline.simps) (simp add: ep Some False True)
        have timer: "rv_timer st = None" using True 1(4) by (simp add: climbing_def)
        have early: "re_now ?env < ep_deadline e" using False t by simp
        let ?e = "e\<lparr>ep_attempts := Suc (ep_attempts e)\<rparr>"
        obtain d where d: "1500 \<le> d" "climbing ?e (restart_failed ?env tr st)"
          "rv_timer (restart_failed ?env tr st) = Some (re_now ?env + d, tr)"
          "rv_attempt (restart_failed ?env tr st) = Suc (rv_attempt st)" "rv_worst (restart_failed ?env tr st) = rv_worst st"
          "lost_reports (restart_failed ?env tr st) = lost_reports st"
          by (rule failed_again [OF env(1) 1(4) timer early, of tr])
        have "case until_deadline lat tr ?env (restart_failed ?env tr st) of
            (env', st') \<Rightarrow> given_up k ?e ?env (restart_failed ?env tr st) env' st'"
          by (rule 1(1) [OF ep Some False True env(1) d(2)]) (use env in simp_all)
        then show ?thesis unfolding u using d t timer early
          by (auto simp: given_up_def rung_time_def split: prod.splits)
      next
        case idle: False
        then obtain due tr' where timer: "rv_timer st = Some (due, tr')" "t = max due (re_now env)"
          using Some by (auto simp: next_due_def)
        have u: "until_deadline lat tr env st = until_deadline lat tr ?env (rung_fires ?env tr' st)"
          by (subst until_deadline.simps) (simp add: ep Some False idle timer(1))
        have f: "rung_fires ?env tr' st = publishRecoveryStatus ?env (st\<lparr>rv_timer := None, rv_in_flight := True\<rparr>)"
          using hopeless_runs [OF env(1), of tr' "st\<lparr>rv_timer := None\<rparr>"] by (simp add: rung_fires_def)
        have c: "climbing e (rung_fires ?env tr' st)" using 1(4) by (simp add: f climbing_def)
        have "case until_deadline lat tr ?env (rung_fires ?env (snd (the (rv_timer st))) st) of
            (env', st') \<Rightarrow> given_up k e ?env (rung_fires ?env (snd (the (rv_timer st))) st) env' st'"
          by (rule 1(2) [OF ep Some False idle env(1) _ env(2,3)]) (use c timer in simp)
        moreover have "rv_attempt (rung_fires ?env tr' st) = rv_attempt st" "rv_worst (rung_fires ?env tr' st) = rv_worst st"
          "lost_reports (rung_fires ?env tr' st) = lost_reports st" "rv_timer (rung_fires ?env tr' st) = None"
          by (simp_all add: f publishRecoveryStatus_def lost_reports_def)
        ultimately show ?thesis unfolding u using timer
          by (auto simp: given_up_def rung_time_def split: prod.splits)
      qed
    qed
  qed
qed

section \<open>Properties\<close>

lemma begin_climbs:
  assumes "hopeless env" "rv_connectivity st" "rv_episode st = None"
  obtains e where "climbing e (beginIceRecovery env tr st)" "ep_deadline e = re_now env + 30000"
    "re_now env \<le> rung_time env (beginIceRecovery env tr st)" "rv_attempt (beginIceRecovery env tr st) = 1"
    "rv_worst (beginIceRecovery env tr st) = rv_worst st"
proof -
  obtain k where k: "re_call env = Some k" "re_pc env" using assms(1) by (auto simp: hopeless_def in_progress_def)
  let ?e = "\<lparr>ep_trigger = tr, ep_started = re_now env, ep_deadline = re_now env + 30000, ep_ceiling = re_now env + 90000,
      ep_attempts = 0, ep_extensions = 0, ep_paused = 0, ep_paused_at = None, ep_reason = None\<rparr>"
  let ?s = "cancelIceRestarts env (noteRecoverySymptom env tr None st)"
  have s: "rv_episode ?s = Some ?e" "rv_timer ?s = None" "\<not> rv_in_flight ?s" "rv_attempt ?s = 0"
    "rv_deadline ?s = Some (re_now env + 30000)" "rv_worst ?s = rv_worst st"
    using assms k
    by (simp_all add: noteRecoverySymptom_def note_episode_def hopeless_def default_options_def Let_def
        CALL_RECOVERY_MAX_EPISODE_MS_def CALL_RECOVERY_BUDGET_MS_def cancelIceRestarts_def publishRecoveryStatus_def
        armRecoveryDeadline_def is_paused_def remaining_ms_def remainingFor_def reference_time_def)
  have view: "\<not> has_expired (re_now env) (Some ?e)" "\<not> is_paused (Some ?e)"
    by (simp_all add: has_expired_def is_paused_def remainingFor_def reference_time_def)
  let ?d = "iceRestartBackoffMs 1 + iceRestartTiebreakMs (re_local env) (re_remote env)"
  let ?s1 = "?s\<lparr>rv_attempt := 1, rv_episode := Some (?e\<lparr>ep_attempts := 1\<rparr>)\<rparr>"
  have q: "queue_rung env tr True ?s =
      (if ?d \<le> 0 then (True, publishRecoveryStatus env ?s1)
       else (False, publishRecoveryStatus env (?s1\<lparr>rv_timer := Some (re_now env + ?d, tr)\<rparr>)))"
    using s view assms(1)
    by (simp add: queue_rung_def decideLadderSchedule_def episode_view_of_def hopeless_def Let_def record_attempt_def)
  have b: "beginIceRecovery env tr st =
      (if ?d \<le> 0 then publishRecoveryStatus env ((publishRecoveryStatus env ?s1)\<lparr>rv_in_flight := True\<rparr>)
       else publishRecoveryStatus env (?s1\<lparr>rv_timer := Some (re_now env + ?d, tr)\<rparr>))"
    by (simp add: beginIceRecovery_def scheduleIceRestart_def q hopeless_runs [OF assms(1)])
  show thesis
    by (rule that [of "?e\<lparr>ep_attempts := 1\<rparr>"])
      (use s in \<open>auto simp: b climbing_def rung_time_def publishRecoveryStatus_def\<close>)
qed

text \<open>
  C34. An outage nothing helps against is given up in time, and said once: from a new outage of a call, with
  connectivity and a socket, however late each restart fails, the run of the timers ends at the deadline thirty
  seconds later, after at most 21 rungs; there it has reported the failure of the call exactly once, at the
  deadline, and left no episode open and no deadline armed, so that the timer's callback reports nothing again; and
  when the server then ends the call, no rung is left queued or in flight.
\<close>

theorem ladder_gives_up:
  assumes "hopeless env" and "rv_connectivity st" and "rv_episode st = None" and "re_call env = Some k"
  shows "(case until_deadline lat tr env (beginIceRecovery env tr st) of (env', st') \<Rightarrow>
    re_now env' = re_now env + 30000 \<and> rv_attempt st' \<le> 21 \<and>
    lost_reports st' = lost_reports st @ [(re_now env + 30000, Report_Lost k (worst_reported (rv_worst st)))] \<and>
    rv_episode st' = None \<and> rv_deadline st' = None \<and> rv_lost st' \<and>
    lost_reports (deadline_fires env2 st') = lost_reports st' \<and>
    rv_timer (call_ended env2 st') = None \<and> \<not> rv_in_flight (call_ended env2 st') \<and>
    lost_reports (call_ended env2 st') = lost_reports st')"
proof -
  obtain e where e: "climbing e (beginIceRecovery env tr st)" "ep_deadline e = re_now env + 30000"
    "re_now env \<le> rung_time env (beginIceRecovery env tr st)" "rv_attempt (beginIceRecovery env tr st) = 1"
    "rv_worst (beginIceRecovery env tr st) = rv_worst st"
    by (rule begin_climbs [OF assms(1-3)])
  have late: "re_now env \<le> ep_deadline e" by (simp add: e(2))
  obtain env' st' where u: "until_deadline lat tr env (beginIceRecovery env tr st) = (env', st')" by (rule prod.exhaust)
  have g: "given_up k e env (beginIceRecovery env tr st) env' st'"
    using climb [OF assms(1) e(1) late assms(4), of lat tr] by (simp add: u)
  have "lost_reports (deadline_fires env2 st') = lost_reports st'"
    using g by (simp add: given_up_def deadline_fires_def)
  moreover have "rv_timer (call_ended env2 st') = None" "\<not> rv_in_flight (call_ended env2 st')"
    "lost_reports (call_ended env2 st') = lost_reports st'"
    by (simp_all add: call_ended_def)
  moreover have "1500 * int (rv_attempt st') - 1500 \<le> 31499" 
  proof -
    have "1500 * (int (rv_attempt st') - 1) \<le> max 0 (re_now env + 30000 - rung_time env (beginIceRecovery env tr st) + 1499)"
      using g [unfolded given_up_def e(2,4)] by simp
    then show ?thesis using e(3) by (simp add: max_def split: if_splits)
  qed
  then have "rv_attempt st' \<le> 21" by linarith
  moreover have "lost_reports (beginIceRecovery env tr st) = lost_reports st" by (rule lost_begin)
  ultimately show ?thesis using g [unfolded given_up_def e(2,5)] by (simp add: u)
qed

theorem ladder_gives_up_witness:
  "(case until_deadline (\<lambda>_. 2000) Ice_Failure (demo_renv 1000 ''failed'') (beginIceRecovery (demo_renv 1000 ''failed'') Ice_Failure initial_recovery)
    of (env', st') \<Rightarrow> lost_reports st' = [(31000, Report_Lost ''c1'' ''disconnected'')])"
proof -
  have "hopeless (demo_renv 1000 ''failed'')" "rv_connectivity initial_recovery" "rv_episode initial_recovery = None"
    "re_call (demo_renv 1000 ''failed'') = Some ''c1''" by code_simp+
  from ladder_gives_up [OF this, where lat = "\<lambda>_. 2000" and tr = Ice_Failure]
  show ?thesis by (auto simp: demo_renv_def initial_recovery_def lost_reports_def worst_reported_def split: prod.splits)
qed

text \<open>
  Until the server ends the call the ladder is not stopped by the report: it closes the episode, and without an
  episode a rung has no budget. A restart in flight at the deadline that fails a minute later queues the next rung.
\<close>

definition after_report :: recovery where
  "after_report = snd (until_deadline (\<lambda>_. 60000) Ice_Failure (demo_renv 1000 ''failed'')
     (beginIceRecovery (demo_renv 1000 ''failed'') Ice_Failure initial_recovery))"

theorem ladder_outlives_report:
  "rv_episode after_report = None \<and> rv_in_flight after_report \<and>
   rv_timer (restart_failed (demo_renv 91000 ''failed'') Ice_Failure after_report) \<noteq> None"
  by code_simp

end
