(* ===== verification/Timestamps.thy ===== *)
theory Timestamps
  imports Prelude
begin

text \<open>
  Timestamp canonicalisation (\<open>shared/time.ts\<close>). The accepted notations are the regular expression of the
  source, taken apart by hand: it is deterministic, because a digit never starts what follows a run of digits.
  A \<open>Date\<close> is a number of milliseconds; its setters roll over and its fields are read back as ECMAScript
  defines them.
\<close>

section \<open>Digits\<close>

definition is_digit :: "char \<Rightarrow> bool" where
  "is_digit c = (48 \<le> (of_char c :: nat) \<and> (of_char c :: nat) \<le> 57)"

definition digit_char :: "int \<Rightarrow> char" where "digit_char d = char_of (48 + nat d)"

definition digit_val :: "char \<Rightarrow> int" where "digit_val c = int (of_char c) - 48"

text \<open>\<open>Number\<close> of a string of digits, and a number in \<open>k\<close> digits.\<close>

definition number :: "string \<Rightarrow> int" where
  "number s = foldl (\<lambda>n c. 10 * n + digit_val c) 0 s"

fun pad :: "nat \<Rightarrow> int \<Rightarrow> string" where
  "pad 0 n = []"
| "pad (Suc k) n = pad k (n div 10) @ [digit_char (n mod 10)]"

section \<open>The calendar\<close>

definition leap :: "int \<Rightarrow> bool" where
  "leap y = (y mod 4 = 0 \<and> (y mod 100 \<noteq> 0 \<or> y mod 400 = 0))"

definition day_from_year :: "int \<Rightarrow> int" where
  "day_from_year y = 365 * (y - 1970) + (y - 1969) div 4 - (y - 1901) div 100 + (y - 1601) div 400"

text \<open>The year of a day: an estimate that is off by one at most.\<close>

definition year_of_day :: "int \<Rightarrow> int" where
  "year_of_day d =
     (let y = d * 400 div 146097 + 1970
      in if d < day_from_year y then y - 1 else if day_from_year (y + 1) \<le> d then y + 1 else y)"

definition month_start :: "bool \<Rightarrow> int \<Rightarrow> int" where
  "month_start lp m =
     (if m \<le> 0 then 0 else if m = 1 then 31 else
        (if lp then 1 else 0) +
        (if m = 2 then 59 else if m = 3 then 90 else if m = 4 then 120 else if m = 5 then 151 else if m = 6 then 181
         else if m = 7 then 212 else if m = 8 then 243 else if m = 9 then 273 else if m = 10 then 304
         else if m = 11 then 334 else 365))"

text \<open>The month, from 0, of a day of the year.\<close>

definition month_of :: "bool \<Rightarrow> int \<Rightarrow> int" where
  "month_of lp n =
     (if n < 31 then 0 else if n < month_start lp 2 then 1 else if n < month_start lp 3 then 2
      else if n < month_start lp 4 then 3 else if n < month_start lp 5 then 4 else if n < month_start lp 6 then 5
      else if n < month_start lp 7 then 6 else if n < month_start lp 8 then 7 else if n < month_start lp 9 then 8
      else if n < month_start lp 10 then 9 else if n < month_start lp 11 then 10 else 11)"

definition make_day :: "int \<Rightarrow> int \<Rightarrow> int \<Rightarrow> int" where
  "make_day y m d = (let y' = y + m div 12 in day_from_year y' + month_start (leap y') (m mod 12) + d - 1)"

definition make_time :: "int \<Rightarrow> int \<Rightarrow> int \<Rightarrow> int \<Rightarrow> int" where
  "make_time h mi s ms = h * 3600000 + mi * 60000 + s * 1000 + ms"

definition ms_per_day :: int where "ms_per_day = 86400000"

definition utc_day :: "int \<Rightarrow> int" where "utc_day t = t div ms_per_day"
definition utc_year :: "int \<Rightarrow> int" where "utc_year t = year_of_day (utc_day t)"

definition day_of_year :: "int \<Rightarrow> int" where
  "day_of_year t = utc_day t - day_from_year (utc_year t)"

definition utc_month :: "int \<Rightarrow> int" where
  "utc_month t = month_of (leap (utc_year t)) (day_of_year t)"

definition utc_date :: "int \<Rightarrow> int" where
  "utc_date t = day_of_year t - month_start (leap (utc_year t)) (utc_month t) + 1"

definition utc_hours :: "int \<Rightarrow> int" where "utc_hours t = t mod ms_per_day div 3600000"
definition utc_minutes :: "int \<Rightarrow> int" where "utc_minutes t = t mod 3600000 div 60000"
definition utc_seconds :: "int \<Rightarrow> int" where "utc_seconds t = t mod 60000 div 1000"
definition utc_ms :: "int \<Rightarrow> int" where "utc_ms t = t mod 1000"

definition year_text :: "int \<Rightarrow> string" where
  "year_text y = (if 0 \<le> y \<and> y \<le> 9999 then pad 4 y else (if y < 0 then CHR ''-'' else CHR ''+'') # pad 6 \<bar>y\<bar>)"

definition toISOString :: "int \<Rightarrow> string" where
  "toISOString t =
     year_text (utc_year t) @ ''-'' @ pad 2 (utc_month t + 1) @ ''-'' @ pad 2 (utc_date t) @ ''T'' @
     pad 2 (utc_hours t) @ '':'' @ pad 2 (utc_minutes t) @ '':'' @ pad 2 (utc_seconds t) @ ''.'' @ pad 3 (utc_ms t) @ ''Z''"

section \<open>Recognising a timestamp\<close>

definition matches :: "char \<Rightarrow> char \<Rightarrow> bool" where
  "matches p c = (if p = CHR ''d'' then is_digit c else c = p)"

definition canonical :: "string \<Rightarrow> bool" where
  "canonical s = list_all2 matches ''dddd-dd-ddTdd:dd:dd.dddZ'' s"

record time_text =
  tt_year :: string
  tt_month :: string
  tt_day :: string
  tt_hour :: string
  tt_minute :: string
  tt_second :: "string option"
  tt_fraction :: "string option"
  tt_zone :: "string option"

definition starts :: "char list \<Rightarrow> string \<Rightarrow> bool" where
  "starts cs s = (case s of [] \<Rightarrow> False | c # _ \<Rightarrow> c \<in> set cs)"

text \<open>Exactly two digits after one of the characters \<open>cs\<close>.\<close>

definition two_after :: "char list \<Rightarrow> string \<Rightarrow> (string \<times> string) option" where
  "two_after cs s =
     (case s of
        c # a # b # r \<Rightarrow> if c \<in> set cs \<and> is_digit a \<and> is_digit b then Some ([a, b], r) else None
      | _ \<Rightarrow> None)"

definition optional :: "(string \<Rightarrow> (string \<times> string) option) \<Rightarrow> string \<Rightarrow> string option \<times> string" where
  "optional p s = (case p s of Some (x, r) \<Rightarrow> (Some x, r) | None \<Rightarrow> (None, s))"

definition fraction_part :: "string \<Rightarrow> (string \<times> string) option" where
  "fraction_part s =
     (case s of
        c # r \<Rightarrow> if c = CHR ''.'' \<and> takeWhile is_digit r \<noteq> [] then Some (takeWhile is_digit r, dropWhile is_digit r) else None
      | [] \<Rightarrow> None)"

definition zone_ok :: "string \<Rightarrow> bool" where
  "zone_ok s =
     (case s of
        [z] \<Rightarrow> z = CHR ''Z'' \<or> z = CHR ''z''
      | sg # a # b # r \<Rightarrow>
          (sg = CHR ''+'' \<or> sg = CHR ''-'') \<and> is_digit a \<and> is_digit b \<and> number [a, b] \<le> 23 \<and>
          (let m = (case r of c # r' \<Rightarrow> if c = CHR '':'' then r' else r | [] \<Rightarrow> [])
           in r = [] \<or> (case m of [c, d] \<Rightarrow> is_digit c \<and> is_digit d \<and> digit_val c \<le> 5 | _ \<Rightarrow> False))
      | _ \<Rightarrow> False)"

definition parse_text :: "string \<Rightarrow> time_text option" where
  "parse_text s =
     (let y = takeWhile is_digit s
      in if length y < 4 then None
         else (case two_after ''-'' (dropWhile is_digit s) of None \<Rightarrow> None
         | Some (mo, r1) \<Rightarrow> (case two_after ''-'' r1 of None \<Rightarrow> None
         | Some (d, r2) \<Rightarrow> (case two_after ''T '' r2 of None \<Rightarrow> None
         | Some (h, r3) \<Rightarrow> (case two_after '':'' r3 of None \<Rightarrow> None
         | Some (mi, r4) \<Rightarrow>
             (let (sec, r5) = optional (two_after '':'') r4; (frac, r6) = optional fraction_part r5
              in if r6 = [] \<or> zone_ok r6
                 then Some \<lparr>tt_year = y, tt_month = mo, tt_day = d, tt_hour = h, tt_minute = mi, tt_second = sec,
                        tt_fraction = frac, tt_zone = (if r6 = [] then None else Some r6)\<rparr>
                 else None))))))"

section \<open>Canonicalisation\<close>

definition fractionToMilliseconds :: "string option \<Rightarrow> int" where
  "fractionToMilliseconds f =
     (case f of None \<Rightarrow> 0 | Some x \<Rightarrow> number (take 3 x @ replicate (3 - length x) (CHR ''0'')))"

definition offsetMinutes :: "string option \<Rightarrow> int" where
  "offsetMinutes z =
     (case z of None \<Rightarrow> 0
      | Some x \<Rightarrow>
          if x = ''Z'' \<or> x = ''z'' then 0
          else
            (let sign = (if starts ''-'' x then - 1 else 1 :: int);
                 digits = filter (\<lambda>c. c \<noteq> CHR '':'') (tl x);
                 hours = number (take 2 digits);
                 minutes = (if 2 < length digits then number (take 2 (drop 2 digits)) else 0)
             in sign * (hours * 60 + minutes)))"

definition MS_PER_MINUTE :: int where "MS_PER_MINUTE = 60000"

text \<open>The largest time value of a \<open>Date\<close>.\<close>

definition max_time :: int where "max_time = 8640000000000000"

definition normalize_text :: "string \<Rightarrow> time_text \<Rightarrow> string" where
  "normalize_text v p =
     (let y = number (tt_year p); mo = number (tt_month p) - 1; d = number (tt_day p); h = number (tt_hour p);
          mi = number (tt_minute p); s = (case tt_second p of Some x \<Rightarrow> number x | None \<Rightarrow> 0);
          t = make_day y mo d * ms_per_day + make_time h mi s (fractionToMilliseconds (tt_fraction p))
      in if utc_year t \<noteq> y \<or> utc_month t \<noteq> mo \<or> utc_date t \<noteq> d \<or> utc_hours t \<noteq> h \<or> utc_minutes t \<noteq> mi \<or>
            utc_seconds t \<noteq> s
         then v
         else
           (let u = t - offsetMinutes (tt_zone p) * MS_PER_MINUTE
            in if max_time < \<bar>u\<bar> then v else if canonical (toISOString u) then toISOString u else v))"

definition normalizeTimestamp :: "string option \<Rightarrow> string option" where
  "normalizeTimestamp value =
     (case value of None \<Rightarrow> None
      | Some v \<Rightarrow>
          if canonical v then Some v
          else (case parse_text v of None \<Rightarrow> Some v | Some p \<Rightarrow> Some (normalize_text v p)))"

text \<open>
  \<open>Date.parse\<close> of the canonical form is fixed by ECMAScript; what an engine makes of any other text is the
  argument \<open>engine\<close>. \<open>None\<close> is \<open>NaN\<close>.
\<close>

definition iso_parse :: "string \<Rightarrow> int option" where
  "iso_parse s =
     (let f = (\<lambda>a n. number (take n (drop a s)));
          y = f 0 4; mo = f 5 2; d = f 8 2; h = f 11 2; mi = f 14 2; sec = f 17 2; ms = f 20 3
      in if 1 \<le> mo \<and> mo \<le> 12 \<and> 1 \<le> d \<and> d \<le> month_start (leap y) mo - month_start (leap y) (mo - 1) \<and>
            (h \<le> 23 \<or> (h = 24 \<and> mi = 0 \<and> sec = 0 \<and> ms = 0)) \<and> mi \<le> 59 \<and> sec \<le> 59
         then Some (make_day y (mo - 1) d * ms_per_day + make_time h mi sec ms) else None)"

definition timestampMs :: "(string \<Rightarrow> int option) \<Rightarrow> string option \<Rightarrow> int option" where
  "timestampMs engine value =
     (case normalizeTimestamp value of
        None \<Rightarrow> None
      | Some s \<Rightarrow> if canonical s then iso_parse s else engine s)"

end
