(* ===== verification/TimestampProperties.thy ===== *)
theory TimestampProperties
  imports Timestamps
begin

text \<open>
  The calendar behind the timestamps, and what canonicalisation promises: the canonical form and the instant
  determine each other, and every accepted notation of an instant becomes its canonical form.
\<close>

section \<open>Digits\<close>

lemma digit_facts:
  assumes "0 \<le> d" "d \<le> 9"
  shows "is_digit (digit_char d)" and "digit_val (digit_char d) = d"
proof -
  have n: "48 + nat d < 256" using assms by simp
  then have "(of_char (digit_char d) :: nat) = 48 + nat d" by (simp add: digit_char_def)
  then show "is_digit (digit_char d)" "digit_val (digit_char d) = d"
    using assms by (simp_all add: is_digit_def digit_val_def)
qed

lemma digit_mod [simp]: "is_digit (digit_char (n mod 10))" "digit_val (digit_char (n mod 10)) = n mod 10"
proof -
  have "0 \<le> n mod 10" "n mod 10 \<le> 9" by (simp, presburger)
  then show "is_digit (digit_char (n mod 10))" "digit_val (digit_char (n mod 10)) = n mod 10" by (rule digit_facts)+
qed

lemma length_pad [simp]: "length (pad k n) = k"
  by (induction k arbitrary: n) simp_all

lemma pad_digits: "list_all is_digit (pad k n)"
  by (induction k arbitrary: n) simp_all

lemma number_append: "number (s @ [c]) = 10 * number s + digit_val c"
  by (simp add: number_def)

lemma number_pad: "0 \<le> n \<Longrightarrow> n < 10 ^ k \<Longrightarrow> number (pad k n) = n"
proof (induction k arbitrary: n)
  case 0
  then show ?case by (simp add: number_def)
next
  case (Suc k)
  have "number (pad k (n div 10)) = n div 10" using Suc.prems by (intro Suc.IH) simp_all
  then show ?case by (simp add: number_append)
qed

section \<open>The calendar\<close>

lemma div_bounds:
  fixes x n :: int
  assumes "0 < n"
  shows "n * (x div n) \<le> x" and "x - n + 1 \<le> n * (x div n)"
  using mult_div_mod_eq [of n x] pos_mod_bound [OF assms, of x] pos_mod_sign [OF assms, of x] by linarith+

lemma div_step:
  fixes x n :: int
  assumes "1 < n"
  shows "(x + 1) div n = x div n + (if (x + 1) mod n = 0 then 1 else 0)"
proof -
  have r: "0 \<le> x mod n" "x mod n < n" using assms by simp_all
  have e: "x + 1 = (x mod n + 1) + n * (x div n)" by simp
  show ?thesis
  proof (cases "x mod n + 1 = n")
    case True
    then have "x + 1 = n * (x div n + 1)" using e by (simp add: algebra_simps)
    then show ?thesis using assms by (simp only:) simp
  next
    case False
    then have "0 \<le> x mod n + 1" "x mod n + 1 < n" using r by simp_all
    with e have "(x + 1) div n = x div n" "(x + 1) mod n = x mod n + 1"
      by (intro int_div_pos_eq [where r = "x mod n + 1"] int_mod_pos_eq [where q = "x div n"]; linarith)+
    then show ?thesis using r by simp
  qed
qed

lemma year_length: "day_from_year (y + 1) = day_from_year y + (if leap y then 366 else 365)"
proof -
  have m: "(y - 1968) mod 4 = y mod 4" "(y - 1900) mod 100 = y mod 100" "(y - 1600) mod 400 = y mod 400"
    using mod_mult_self1 [of y "- 492" 4] mod_mult_self1 [of y "- 19" 100] mod_mult_self1 [of y "- 4" 400] by simp_all
  have s: "(y - 1969 + 1) div 4 = (y - 1969) div 4 + (if y mod 4 = 0 then 1 else 0)"
    "(y - 1901 + 1) div 100 = (y - 1901) div 100 + (if y mod 100 = 0 then 1 else 0)"
    "(y - 1601 + 1) div 400 = (y - 1601) div 400 + (if y mod 400 = 0 then 1 else 0)"
    by (subst div_step; simp add: m)+
  have e: "y + 1 - 1969 = y - 1969 + 1" "y + 1 - 1901 = y - 1901 + 1" "y + 1 - 1601 = y - 1601 + 1" by simp_all
  have sum: "365 * (y + 1 - 1970) + (a + p) - (b + q) + (c + r) = 365 * (y - 1970) + a - b + c + 365 + p - q + r"
    for a b c p q r :: int by simp
  have "day_from_year (y + 1) = day_from_year y + 365 + (if y mod 4 = 0 then 1 else 0) -
      (if y mod 100 = 0 then 1 else 0) + (if y mod 400 = 0 then 1 else 0)"
    unfolding day_from_year_def e s by (rule sum)
  moreover have "y mod 400 = 0 \<Longrightarrow> y mod 100 = 0" "y mod 100 = 0 \<Longrightarrow> y mod 4 = 0"
    unfolding mod_eq_0_iff_dvd by (erule dvd_trans [rotated], simp)+
  ultimately show ?thesis unfolding leap_def by (cases "y mod 400 = 0"; cases "y mod 100 = 0"; cases "y mod 4 = 0") simp_all
qed

lemma day_bounds:
  "400 * day_from_year y \<le> 146097 * (y - 1970) + 589" "146097 * (y - 1970) - 506 \<le> 400 * day_from_year y"
  using div_bounds [of 4 "y - 1969"] div_bounds [of 100 "y - 1901"] div_bounds [of 400 "y - 1601"]
  by (simp_all add: day_from_year_def)

lemma year_of_day: "day_from_year (year_of_day d) \<le> d \<and> d < day_from_year (year_of_day d + 1)"
proof -
  define y where "y = d * 400 div 146097 + 1970"
  have q: "146097 * (y - 1970) \<le> d * 400" "d * 400 < 146097 * (y - 1970) + 146097"
    using div_bounds [of 146097 "d * 400"] by (simp_all add: y_def)
  have "day_from_year (y - 1) \<le> d" using q day_bounds(1) [of "y - 1"] by simp
  moreover have "d < day_from_year (y + 2)" using q day_bounds(2) [of "y + 2"] by simp
  moreover have e: "y + 1 + 1 = y + 2" by simp
  ultimately show ?thesis unfolding year_of_day_def y_def [symmetric] Let_def by (auto simp only: e if_True if_False not_less
      diff_add_cancel split: if_split)
qed

lemma day_mono: "a \<le> b \<Longrightarrow> day_from_year a \<le> day_from_year b"
proof (induction b rule: int_ge_induct)
  case (step i)
  then show ?case by (simp add: year_length)
qed simp

lemma year_unique:
  assumes "day_from_year y \<le> d" "d < day_from_year (y + 1)"
  shows "year_of_day d = y"
proof (rule ccontr)
  assume "year_of_day d \<noteq> y"
  then have "year_of_day d + 1 \<le> y \<or> y + 1 \<le> year_of_day d" by arith
  with day_mono [of "year_of_day d + 1" y] day_mono [of "y + 1" "year_of_day d"] year_of_day [of d] assms show False by auto
qed

definition month_length :: "bool \<Rightarrow> int \<Rightarrow> int" where
  "month_length lp m = month_start lp (m + 1) - month_start lp m"

definition valid_date :: "int \<Rightarrow> int \<Rightarrow> int \<Rightarrow> bool" where
  "valid_date y m d = (0 \<le> m \<and> m \<le> 11 \<and> 1 \<le> d \<and> d \<le> month_length (leap y) m)"

lemma month_cases:
  fixes m :: int
  assumes "0 \<le> m" "m \<le> 11"
  obtains "m = 0" | "m = 1" | "m = 2" | "m = 3" | "m = 4" | "m = 5" | "m = 6" | "m = 7" | "m = 8" | "m = 9" | "m = 10" | "m = 11"
  using assms by atomize_elim presburger

lemma month_of_start:
  assumes "0 \<le> m" "m \<le> 11" "0 \<le> k" "k < month_length lp m"
  shows "month_of lp (month_start lp m + k) = m" and "month_start lp m + k < (if lp then 366 else 365)"
    and "0 \<le> month_start lp m"
  using assms(3,4)
  by (cases rule: month_cases [OF assms(1,2)]; cases lp;
      simp add: month_of_def month_start_def month_length_def)+

lemma month_of_bounds:
  assumes "0 \<le> n" "n < (if lp then 366 else 365)"
  shows "0 \<le> month_of lp n \<and> month_of lp n \<le> 11 \<and> month_start lp (month_of lp n) \<le> n \<and>
    n < month_start lp (month_of lp n + 1)"
  using assms by (cases lp) (simp_all add: month_of_def month_start_def)

lemma make_day_fields:
  assumes "valid_date y m d"
  shows "year_of_day (make_day y m d) = y" and "make_day y m d - day_from_year y = month_start (leap y) m + (d - 1)"
proof -
  have m: "0 \<le> m" "m \<le> 11" "0 \<le> d - 1" "d - 1 < month_length (leap y) m" using assms by (auto simp: valid_date_def)
  then have "m div 12 = 0" "m mod 12 = m" by simp_all
  then show e: "make_day y m d - day_from_year y = month_start (leap y) m + (d - 1)"
    by (simp add: make_day_def Let_def)
  show "year_of_day (make_day y m d) = y"
    by (rule year_unique) (use e month_of_start [OF m] m in \<open>simp_all add: year_length\<close>)
qed

section \<open>Instants and their fields\<close>

definition valid_time :: "int \<Rightarrow> int \<Rightarrow> int \<Rightarrow> int \<Rightarrow> bool" where
  "valid_time h mi s ms = (0 \<le> h \<and> h \<le> 23 \<and> 0 \<le> mi \<and> mi \<le> 59 \<and> 0 \<le> s \<and> s \<le> 59 \<and> 0 \<le> ms \<and> ms \<le> 999)"

definition instant :: "int \<Rightarrow> int \<Rightarrow> int \<Rightarrow> int \<Rightarrow> int \<Rightarrow> int \<Rightarrow> int \<Rightarrow> int" where
  "instant y m d h mi s ms = make_day y m d * ms_per_day + make_time h mi s ms"

lemma instant_fields:
  assumes "valid_date y m d" "valid_time h mi s ms"
  shows "utc_year (instant y m d h mi s ms) = y" and "utc_month (instant y m d h mi s ms) = m"
    and "utc_date (instant y m d h mi s ms) = d" and "utc_hours (instant y m d h mi s ms) = h"
    and "utc_minutes (instant y m d h mi s ms) = mi" and "utc_seconds (instant y m d h mi s ms) = s"
    and "utc_ms (instant y m d h mi s ms) = ms"
proof -
  let ?t = "instant y m d h mi s ms" and ?D = "make_day y m d"
  note v = assms(2) [unfolded valid_time_def]
  have day: "utc_day ?t = ?D" unfolding utc_day_def
    by (rule int_div_pos_eq [where r = "make_time h mi s ms"])
      (use v in \<open>simp_all add: instant_def ms_per_day_def make_time_def\<close>)
  show y: "utc_year ?t = y" using make_day_fields(1) [OF assms(1)] by (simp add: utc_year_def day)
  have m: "0 \<le> m" "m \<le> 11" "0 \<le> d - 1" "d - 1 < month_length (leap y) m" using assms(1) by (auto simp: valid_date_def)
  have n: "day_of_year ?t = month_start (leap y) m + (d - 1)"
    using make_day_fields(2) [OF assms(1)] by (simp add: day_of_year_def day y)
  show mo: "utc_month ?t = m" by (simp add: utc_month_def y n month_of_start(1) [OF m])
  show "utc_date ?t = d" by (simp add: utc_date_def y mo n)
  have "?t mod ms_per_day = make_time h mi s ms"
    by (rule int_mod_pos_eq [where q = ?D]) (use v in \<open>simp_all add: instant_def ms_per_day_def make_time_def\<close>)
  moreover have "make_time h mi s ms div 3600000 = h"
    by (rule int_div_pos_eq [where r = "mi * 60000 + s * 1000 + ms"]) (use v in \<open>simp_all add: make_time_def\<close>)
  ultimately show "utc_hours ?t = h" by (simp add: utc_hours_def)
  have "?t mod 3600000 = mi * 60000 + s * 1000 + ms"
    by (rule int_mod_pos_eq [where q = "?D * 24 + h"]) (use v in \<open>simp_all add: instant_def ms_per_day_def make_time_def\<close>)
  moreover have "(mi * 60000 + s * 1000 + ms) div 60000 = mi"
    by (rule int_div_pos_eq [where r = "s * 1000 + ms"]) (use v in simp_all)
  ultimately show "utc_minutes ?t = mi" by (simp add: utc_minutes_def)
  have "?t mod 60000 = s * 1000 + ms"
    by (rule int_mod_pos_eq [where q = "?D * 1440 + h * 60 + mi"])
      (use v in \<open>simp_all add: instant_def ms_per_day_def make_time_def\<close>)
  moreover have "(s * 1000 + ms) div 1000 = s" by (rule int_div_pos_eq [where r = ms]) (use v in simp_all)
  ultimately show "utc_seconds ?t = s" by (simp add: utc_seconds_def)
  show "utc_ms ?t = ms" unfolding utc_ms_def
    by (rule int_mod_pos_eq [where q = "?D * 86400 + h * 3600 + mi * 60 + s"])
      (use v in \<open>simp_all add: instant_def ms_per_day_def make_time_def\<close>)
qed

lemma fields_valid:
  "valid_date (utc_year t) (utc_month t) (utc_date t)"
  "valid_time (utc_hours t) (utc_minutes t) (utc_seconds t) (utc_ms t)"
proof -
  note y = year_of_day [of "utc_day t", folded utc_year_def]
  have n: "0 \<le> day_of_year t" "day_of_year t < (if leap (utc_year t) then 366 else 365)"
    using y year_length [of "utc_year t"] by (simp_all add: day_of_year_def)
  from month_of_bounds [OF n] show "valid_date (utc_year t) (utc_month t) (utc_date t)"
    by (simp add: valid_date_def utc_date_def utc_month_def month_length_def)
  have q: "0 \<le> x div k" "x div k < j" if "0 \<le> x" "x < k * j" "0 < k" for x k j :: int
  proof -
    have "k * (x div k) < k * j" using div_bounds(1) [OF that(3), of x] that(2) by linarith
    then show "x div k < j" using that(3) by simp
    show "0 \<le> x div k" using that by (simp add: pos_imp_zdiv_nonneg_iff)
  qed
  show "valid_time (utc_hours t) (utc_minutes t) (utc_seconds t) (utc_ms t)"
    unfolding valid_time_def utc_hours_def utc_minutes_def utc_seconds_def utc_ms_def
  proof (intro conjI)
    have a: "0 \<le> t mod ms_per_day" "t mod ms_per_day < 3600000 * 24" by (simp_all add: ms_per_day_def)
    have b: "0 \<le> t mod 3600000" "t mod 3600000 < 60000 * 60" by simp_all
    have c: "0 \<le> t mod 60000" "t mod 60000 < 1000 * 60" by simp_all
    show "0 \<le> t mod ms_per_day div 3600000" "t mod ms_per_day div 3600000 \<le> 23" using q [OF a] by simp_all
    show "0 \<le> t mod 3600000 div 60000" "t mod 3600000 div 60000 \<le> 59" using q [OF b] by simp_all
    show "0 \<le> t mod 60000 div 1000" "t mod 60000 div 1000 \<le> 59" using q [OF c] by simp_all
    show "0 \<le> t mod 1000" by simp
    show "t mod 1000 \<le> 999" using pos_mod_bound [of 1000 t] by simp
  qed
qed

lemma instant_of_fields:
  "instant (utc_year t) (utc_month t) (utc_date t) (utc_hours t) (utc_minutes t) (utc_seconds t) (utc_ms t) = t"
proof -
  have v: "0 \<le> utc_month t" "utc_month t \<le> 11" using fields_valid(1) [of t] by (simp_all add: valid_date_def)
  have d: "make_day (utc_year t) (utc_month t) (utc_date t) = utc_day t"
    using v by (simp add: make_day_def Let_def utc_date_def day_of_year_def)
  have split: "x mod (k * j) = k * (x mod (k * j) div k) + x mod k" if "0 < k" for x k j :: int
    using mult_div_mod_eq [of k "x mod (k * j)"] mod_mod_cancel [of k "k * j" x] by simp
  have "t = ms_per_day * utc_day t + t mod ms_per_day" by (simp add: utc_day_def)
  moreover have "t mod ms_per_day = 3600000 * utc_hours t + t mod 3600000"
    using split [of 3600000 t 24] by (simp add: utc_hours_def ms_per_day_def)
  moreover have "t mod 3600000 = 60000 * utc_minutes t + t mod 60000"
    using split [of 60000 t 60] by (simp add: utc_minutes_def)
  moreover have "t mod 60000 = 1000 * utc_seconds t + utc_ms t"
    using split [of 1000 t 60] by (simp add: utc_seconds_def utc_ms_def)
  ultimately show ?thesis unfolding instant_def d make_time_def ms_per_day_def by linarith
qed

section \<open>The canonical form\<close>

definition canonical_text :: "int \<Rightarrow> int \<Rightarrow> int \<Rightarrow> int \<Rightarrow> int \<Rightarrow> int \<Rightarrow> int \<Rightarrow> string" where
  "canonical_text y m d h mi s ms =
     pad 4 y @ ''-'' @ pad 2 (m + 1) @ ''-'' @ pad 2 d @ ''T'' @ pad 2 h @ '':'' @ pad 2 mi @ '':'' @ pad 2 s @ ''.'' @
     pad 3 ms @ ''Z''"

lemma pad_unroll:
  "pad 2 n = [digit_char (n div 10 mod 10), digit_char (n mod 10)]"
  "pad 3 n = [digit_char (n div 10 div 10 mod 10), digit_char (n div 10 mod 10), digit_char (n mod 10)]"
  "pad 4 n = [digit_char (n div 10 div 10 div 10 mod 10), digit_char (n div 10 div 10 mod 10), digit_char (n div 10 mod 10),
     digit_char (n mod 10)]"
  by (simp_all add: eval_nat_numeral)

lemma canonical_canonical: "canonical (canonical_text y m d h mi s ms)"
  unfolding canonical_def canonical_text_def pad_unroll by (simp add: matches_def)

lemma iso_text: "0 \<le> utc_year t \<Longrightarrow> utc_year t \<le> 9999 \<Longrightarrow> toISOString t =
    canonical_text (utc_year t) (utc_month t) (utc_date t) (utc_hours t) (utc_minutes t) (utc_seconds t) (utc_ms t)"
  by (simp add: toISOString_def year_text_def canonical_text_def)

lemma month_length_bounds: "0 \<le> m \<Longrightarrow> m \<le> 11 \<Longrightarrow> month_length lp m \<le> 31"
  by (auto simp: month_length_def month_start_def)

lemma parse_canonical:
  assumes "0 \<le> y" "y \<le> 9999" "valid_date y m d" "valid_time h mi s ms"
  shows "iso_parse (canonical_text y m d h mi s ms) = Some (instant y m d h mi s ms)"
proof -
  have b: "0 \<le> m" "m \<le> 11" "1 \<le> d" "d \<le> 31" "d \<le> month_length (leap y) m"
    using assms(3) month_length_bounds [of m "leap y"] by (auto simp: valid_date_def)
  note v = assms(4) [unfolded valid_time_def]
  have n: "number (pad 4 y) = y" "number (pad 2 (m + 1)) = m + 1" "number (pad 2 d) = d" "number (pad 2 h) = h"
    "number (pad 2 mi) = mi" "number (pad 2 s) = s" "number (pad 3 ms) = ms"
    using assms(1,2) b v by (auto intro!: number_pad)
  let ?x = "canonical_text y m d h mi s ms"
  have f: "take 4 ?x = pad 4 y" "take 2 (drop 5 ?x) = pad 2 (m + 1)" "take 2 (drop 8 ?x) = pad 2 d"
    "take 2 (drop 11 ?x) = pad 2 h" "take 2 (drop 14 ?x) = pad 2 mi" "take 2 (drop 17 ?x) = pad 2 s"
    "take 3 (drop 20 ?x) = pad 3 ms"
    by (simp_all add: canonical_text_def)
  show ?thesis
    using b v by (simp add: iso_parse_def Let_def f n instant_def month_length_def)
qed

section \<open>Other notations\<close>

text \<open>A zone as Postgres writes it: a sign, the hours and, with or without a colon, the minutes.\<close>

definition zone_text :: "bool \<Rightarrow> int \<Rightarrow> (bool \<times> int) option \<Rightarrow> string" where
  "zone_text neg hh m =
     (if neg then ''-'' else ''+'') @ pad 2 hh @
     (case m of None \<Rightarrow> [] | Some (colon, mm) \<Rightarrow> (if colon then '':'' else []) @ pad 2 mm)"

definition zone_minutes :: "bool \<Rightarrow> int \<Rightarrow> (bool \<times> int) option \<Rightarrow> int" where
  "zone_minutes neg hh m = (if neg then - 1 else 1) * (hh * 60 + (case m of None \<Rightarrow> 0 | Some (_, mm) \<Rightarrow> mm))"

definition zone_range :: "int \<Rightarrow> (bool \<times> int) option \<Rightarrow> bool" where
  "zone_range hh m = (0 \<le> hh \<and> hh \<le> 23 \<and> (case m of None \<Rightarrow> True | Some (_, mm) \<Rightarrow> 0 \<le> mm \<and> mm \<le> 59))"

datatype zone = Zulu bool | Zoneless | Offset bool int "(bool \<times> int) option"

definition text_of_zone :: "zone \<Rightarrow> string" where
  "text_of_zone z =
     (case z of Zulu upper \<Rightarrow> if upper then ''Z'' else ''z'' | Zoneless \<Rightarrow> [] | Offset neg hh m \<Rightarrow> zone_text neg hh m)"

definition minutes_of_zone :: "zone \<Rightarrow> int" where
  "minutes_of_zone z = (case z of Offset neg hh m \<Rightarrow> zone_minutes neg hh m | _ \<Rightarrow> 0)"

definition zone_written :: "zone \<Rightarrow> bool" where
  "zone_written z = (case z of Offset neg hh m \<Rightarrow> zone_range hh m | _ \<Rightarrow> True)"

text \<open>
  A date and time as it may be written: \<open>T\<close> or a space between the two, with seconds or without, a fraction of any
  length or none, and a zone or none. The fields have two digits, but need not name a day or a time that exists.
\<close>

record civil =
  ci_year :: int
  ci_month :: int
  ci_day :: int
  ci_hour :: int
  ci_minute :: int
  ci_second :: "int option"
  ci_fraction :: string
  ci_zone :: zone

definition two_digit :: "int \<Rightarrow> bool" where
  "two_digit n = (0 \<le> n \<and> n < 100)"

definition writable :: "civil \<Rightarrow> bool" where
  "writable c =
     (0 \<le> ci_year c \<and> ci_year c \<le> 9999 \<and> two_digit (ci_month c) \<and> two_digit (ci_day c) \<and> two_digit (ci_hour c) \<and>
      two_digit (ci_minute c) \<and> pred_option two_digit (ci_second c) \<and> list_all is_digit (ci_fraction c) \<and>
      zone_written (ci_zone c))"

definition written :: "char \<Rightarrow> civil \<Rightarrow> string" where
  "written sep c =
     pad 4 (ci_year c) @ ''-'' @ pad 2 (ci_month c) @ ''-'' @ pad 2 (ci_day c) @ sep # pad 2 (ci_hour c) @ '':'' @
     pad 2 (ci_minute c) @ (case ci_second c of None \<Rightarrow> [] | Some x \<Rightarrow> CHR '':'' # pad 2 x) @
     (if ci_fraction c = [] then [] else CHR ''.'' # ci_fraction c) @ text_of_zone (ci_zone c)"

text \<open>Whether the day and the time exist, and the instant they denote; a fraction is cut to milliseconds.\<close>

definition ci_ms :: "civil \<Rightarrow> int" where
  "ci_ms c = number (take 3 (ci_fraction c @ ''000''))"

definition exists_in_calendar :: "civil \<Rightarrow> bool" where
  "exists_in_calendar c =
     (valid_date (ci_year c) (ci_month c - 1) (ci_day c) \<and> ci_hour c \<le> 23 \<and> ci_minute c \<le> 59 \<and>
      pred_option (\<lambda>x. x \<le> 59) (ci_second c))"

definition denoted :: "civil \<Rightarrow> int" where
  "denoted c =
     instant (ci_year c) (ci_month c - 1) (ci_day c) (ci_hour c) (ci_minute c) (case ci_second c of Some x \<Rightarrow> x | None \<Rightarrow> 0) (ci_ms c) -
     minutes_of_zone (ci_zone c) * MS_PER_MINUTE"

lemma two_digits:
  assumes "0 \<le> n" "n < 100"
  obtains a b where "pad 2 n = [a, b]" "is_digit a" "is_digit b" "number [a, b] = n" "digit_val a = n div 10"
proof (rule that)
  show "pad 2 n = [digit_char (n div 10 mod 10), digit_char (n mod 10)]" by (rule pad_unroll)
  show "number [digit_char (n div 10 mod 10), digit_char (n mod 10)] = n"
    using number_pad [of n 2] assms by (simp add: pad_unroll)
  have "n div 10 mod 10 = n div 10" using assms by simp
  with digit_mod(2) [of "n div 10"] show "digit_val (digit_char (n div 10 mod 10)) = n div 10" by metis
qed simp_all

lemma digit_not: "is_digit a \<Longrightarrow> a \<noteq> CHR '':'' \<and> a \<noteq> CHR ''.'' \<and> a \<noteq> CHR ''Z'' \<and> a \<noteq> CHR ''-''"
  by (auto simp: is_digit_def)

lemma zone_text_ok:
  assumes "zone_range hh m"
  shows "zone_ok (zone_text neg hh m)" and "offsetMinutes (Some (zone_text neg hh m)) = zone_minutes neg hh m"
    and "is_digit (last (zone_text neg hh m))"
    and "\<exists>sg r. zone_text neg hh m = sg # r \<and> (sg = CHR ''+'' \<or> sg = CHR ''-'')"
proof -
  have h: "0 \<le> hh" "hh < 100" "hh \<le> 23" using assms by (simp_all add: zone_range_def)
  obtain a b where ab: "pad 2 hh = [a, b]" "is_digit a" "is_digit b" "number [a, b] = hh" by (rule two_digits [OF h(1,2)])
  note n = digit_not [OF ab(2)] digit_not [OF ab(3)]
  have "zone_ok (zone_text neg hh m) \<and> offsetMinutes (Some (zone_text neg hh m)) = zone_minutes neg hh m \<and>
      is_digit (last (zone_text neg hh m))"
  proof (cases m)
    case None
    then show ?thesis using ab n h
      by (simp add: zone_text_def zone_ok_def offsetMinutes_def zone_minutes_def starts_def Let_def)
  next
    case (Some p)
    obtain colon mm where p: "p = (colon, mm)" by (cases p)
    have mm: "0 \<le> mm" "mm < 100" "mm \<le> 59" using assms Some p by (simp_all add: zone_range_def)
    obtain c d where cd: "pad 2 mm = [c, d]" "is_digit c" "is_digit d" "number [c, d] = mm" "digit_val c = mm div 10"
      by (rule two_digits [OF mm(1,2)])
    note n' = digit_not [OF cd(2)] digit_not [OF cd(3)]
    have "mm div 10 \<le> 5" using mm by simp
    with ab cd n n' h mm show ?thesis
      by (simp add: Some p zone_text_def zone_ok_def offsetMinutes_def zone_minutes_def starts_def Let_def)
  qed
  then show "zone_ok (zone_text neg hh m)" "offsetMinutes (Some (zone_text neg hh m)) = zone_minutes neg hh m"
    "is_digit (last (zone_text neg hh m))" by simp_all
  show "\<exists>sg r. zone_text neg hh m = sg # r \<and> (sg = CHR ''+'' \<or> sg = CHR ''-'')" by (simp add: zone_text_def)
qed

lemma digits_prefix:
  "list_all is_digit x \<Longrightarrow> r = [] \<or> \<not> is_digit (hd r) \<Longrightarrow> takeWhile is_digit (x @ r) = x \<and> dropWhile is_digit (x @ r) = r"
  by (induction x) (cases r; simp)+

lemma two_after_pad:
  assumes "0 \<le> n" "n < 100" and "c \<in> set cs"
  shows "two_after cs (c # pad 2 n @ r) = Some (pad 2 n, r)"
proof -
  obtain a b where "pad 2 n = [a, b]" "is_digit a" "is_digit b" by (rule two_digits [OF assms(1,2)])
  then show ?thesis using assms(3) by (simp add: two_after_def)
qed

lemma zone_facts:
  assumes "zone_written z"
  shows "text_of_zone z = [] \<or> zone_ok (text_of_zone z)"
    and "offsetMinutes (if text_of_zone z = [] then None else Some (text_of_zone z)) = minutes_of_zone z"
    and "text_of_zone z = [] \<or> (\<exists>sg r. text_of_zone z = sg # r \<and> \<not> is_digit sg \<and> sg \<noteq> CHR ''.'' \<and> sg \<noteq> CHR '':'')"
    and "last (text_of_zone z) = CHR ''Z'' \<Longrightarrow> text_of_zone z \<noteq> [] \<Longrightarrow> z = Zulu True"
proof -
  have "(text_of_zone z = [] \<or> zone_ok (text_of_zone z)) \<and>
      offsetMinutes (if text_of_zone z = [] then None else Some (text_of_zone z)) = minutes_of_zone z \<and>
      (text_of_zone z = [] \<or> (\<exists>sg r. text_of_zone z = sg # r \<and> \<not> is_digit sg \<and> sg \<noteq> CHR ''.'' \<and> sg \<noteq> CHR '':'')) \<and>
      (last (text_of_zone z) = CHR ''Z'' \<longrightarrow> text_of_zone z \<noteq> [] \<longrightarrow> z = Zulu True)"
  proof (cases z)
    case (Zulu upper)
    then show ?thesis
      by (simp add: text_of_zone_def minutes_of_zone_def zone_ok_def offsetMinutes_def is_digit_def)
  next
    case Zoneless
    then show ?thesis by (simp add: text_of_zone_def minutes_of_zone_def offsetMinutes_def)
  next
    case (Offset neg hh m)
    then have r: "zone_range hh m" using assms by (simp add: zone_written_def)
    obtain sg q where z: "zone_text neg hh m = sg # q" "sg = CHR ''+'' \<or> sg = CHR ''-''" using zone_text_ok(4) [OF r] by blast
    have l: "last (zone_text neg hh m) \<noteq> CHR ''Z''" using digit_not [OF zone_text_ok(3) [OF r, of neg]] by simp
    have s: "\<not> is_digit sg \<and> sg \<noteq> CHR ''.'' \<and> sg \<noteq> CHR '':''" using z(2) by (auto simp: is_digit_def)
    have e: "text_of_zone z = sg # q" by (simp add: Offset text_of_zone_def z(1))
    show ?thesis
      using zone_text_ok(1,2) [OF r, of neg] s l unfolding e z(1) by (simp add: Offset minutes_of_zone_def)
  qed
  then show "text_of_zone z = [] \<or> zone_ok (text_of_zone z)"
    "offsetMinutes (if text_of_zone z = [] then None else Some (text_of_zone z)) = minutes_of_zone z"
    "text_of_zone z = [] \<or> (\<exists>sg r. text_of_zone z = sg # r \<and> \<not> is_digit sg \<and> sg \<noteq> CHR ''.'' \<and> sg \<noteq> CHR '':'')"
    "last (text_of_zone z) = CHR ''Z'' \<Longrightarrow> text_of_zone z \<noteq> [] \<Longrightarrow> z = Zulu True" by blast+
qed

text \<open>Every text so written is recognised, field by field.\<close>

lemma parse_written:
  assumes "sep = CHR ''T'' \<or> sep = CHR '' ''" and "writable c"
  shows "parse_text (written sep c) =
    Some \<lparr>tt_year = pad 4 (ci_year c), tt_month = pad 2 (ci_month c), tt_day = pad 2 (ci_day c), tt_hour = pad 2 (ci_hour c),
      tt_minute = pad 2 (ci_minute c), tt_second = map_option (pad 2) (ci_second c),
      tt_fraction = (if ci_fraction c = [] then None else Some (ci_fraction c)),
      tt_zone = (if text_of_zone (ci_zone c) = [] then None else Some (text_of_zone (ci_zone c)))\<rparr>"
proof -
  let ?z = "text_of_zone (ci_zone c)"
  let ?fz = "(if ci_fraction c = [] then [] else CHR ''.'' # ci_fraction c) @ ?z"
  have w: "two_digit (ci_month c)" "two_digit (ci_day c)" "two_digit (ci_hour c)" "two_digit (ci_minute c)"
    "pred_option two_digit (ci_second c)" "list_all is_digit (ci_fraction c)" "zone_written (ci_zone c)"
    using assms(2) by (simp_all add: writable_def)
  note z = zone_facts(1,3) [OF w(7)]
  have year: "takeWhile is_digit (pad 4 (ci_year c) @ CHR ''-'' # x) = pad 4 (ci_year c) \<and>
      dropWhile is_digit (pad 4 (ci_year c) @ CHR ''-'' # x) = CHR ''-'' # x" for x
    by (rule digits_prefix) (simp_all add: pad_digits is_digit_def)
  have head: "?z = [] \<or> \<not> is_digit (hd ?z)" using z(2) by auto
  have frac: "optional fraction_part ?fz = (if ci_fraction c = [] then None else Some (ci_fraction c), ?z)"
    using digits_prefix [OF w(6) head] z(2) by (auto simp: optional_def fraction_part_def)
  have colon: "two_after '':'' ?fz = None"
    using z(2) by (auto simp: two_after_def split: list.split)
  have sec: "optional (two_after '':'') ((case ci_second c of None \<Rightarrow> [] | Some x \<Rightarrow> CHR '':'' # pad 2 x) @ ?fz) =
      (map_option (pad 2) (ci_second c), ?fz)"
  proof (cases "ci_second c")
    case None
    then show ?thesis by (simp add: optional_def colon)
  next
    case (Some x)
    then have "0 \<le> x" "x < 100" using w(5) by (simp_all add: two_digit_def)
    then show ?thesis using Some by (simp add: optional_def two_after_pad)
  qed
  have two: "two_digit n \<Longrightarrow> x \<in> set cs \<Longrightarrow> two_after cs (x # pad 2 n @ r) = Some (pad 2 n, r)" for n x cs r
    by (simp add: two_digit_def two_after_pad)
  show ?thesis
    unfolding parse_text_def written_def append.simps append_assoc
    using assms(1) z(1) by (simp add: Let_def year two w(1-4) sec [simplified] frac [simplified])
qed

lemma canonical_last:
  assumes "canonical s"
  shows "last s = CHR ''Z''"
proof -
  from assms have "list_all2 matches (rev ''dddd-dd-ddTdd:dd:dd.dddZ'') (rev s)" unfolding canonical_def by (subst list_all2_rev)
  then show ?thesis by (auto simp: list_all2_Cons1 matches_def last_rev [of "rev s", simplified])
qed

lemma year_in_range:
  assumes "0 \<le> utc_year t" "utc_year t \<le> 9999"
  shows "\<bar>t\<bar> \<le> max_time"
proof -
  have "day_from_year 0 \<le> utc_day t"
    using day_mono [OF assms(1)] year_of_day [of "utc_day t"] by (simp add: utc_year_def)
  moreover have "utc_day t < day_from_year 10000"
    using day_mono [of "utc_year t + 1" 10000] assms(2) year_of_day [of "utc_day t"] by (simp add: utc_year_def)
  ultimately have "- 719528 \<le> utc_day t" "utc_day t < 2932897" by (simp_all add: day_from_year_def)
  then have "- 719528 * ms_per_day \<le> t" "t < 2932897 * ms_per_day"
    unfolding utc_day_def ms_per_day_def by linarith+
  then show ?thesis by (simp add: ms_per_day_def max_time_def)
qed


section \<open>What becomes of a text\<close>

lemma digit_char_val:
  assumes "is_digit a"
  shows "digit_char (digit_val a) = a"
proof -
  have "48 + nat (digit_val a) = (of_char a :: nat)" using assms unfolding digit_val_def is_digit_def by arith
  then show ?thesis unfolding digit_char_def by (simp only: char_of_char)
qed

lemma digit_val_range: "is_digit a \<Longrightarrow> 0 \<le> digit_val a \<and> digit_val a \<le> 9"
  by (simp add: digit_val_def is_digit_def)

lemma digits_number: "list_all is_digit x \<Longrightarrow> 0 \<le> number x \<and> number x < 10 ^ length x \<and> pad (length x) (number x) = x"
proof (induction x rule: rev_induct)
  case Nil
  then show ?case by (simp add: number_def)
next
  case (snoc a x)
  have d: "digit_char (digit_val a) = a" "0 \<le> digit_val a" "digit_val a \<le> 9"
    using snoc.prems digit_char_val digit_val_range by auto
  then have "(10 * number x + digit_val a) div 10 = number x" "(10 * number x + digit_val a) mod 10 = digit_val a" by simp_all
  with snoc d show ?case by (simp add: number_append)
qed

lemma fraction_ms:
  "fractionToMilliseconds (if ci_fraction c = [] then None else Some (ci_fraction c)) = ci_ms c"
proof -
  have "number ''000'' = 0" by (simp add: number_def digit_val_def)
  moreover have "k \<le> 3 \<Longrightarrow> take k ''000'' = replicate k CHR ''0''" for k
    by (cases "k = 0"; cases "k = 1"; cases "k = 2"; cases "k = 3") (simp_all add: eval_nat_numeral)
  moreover have "replicate 3 CHR ''0'' = ''000''" by (simp add: eval_nat_numeral)
  ultimately show ?thesis by (simp add: fractionToMilliseconds_def ci_ms_def)
qed

lemma ci_ms_range: "writable c \<Longrightarrow> 0 \<le> ci_ms c \<and> ci_ms c \<le> 999"
proof -
  assume "writable c"
  then have "list_all is_digit (take 3 (ci_fraction c @ ''000''))"
    by (auto simp: writable_def list_all_iff is_digit_def dest: in_set_takeD)
  moreover have "length (take 3 (ci_fraction c @ ''000'')) = 3" by simp
  ultimately show ?thesis using digits_number [of "take 3 (ci_fraction c @ ''000'')"] unfolding ci_ms_def by simp
qed

lemma far_year: "\<not> (0 \<le> utc_year t \<and> utc_year t \<le> 9999) \<Longrightarrow> \<not> canonical (toISOString t)"
  by (auto simp: toISOString_def year_text_def canonical_def matches_def is_digit_def)

lemma iso_instant:
  assumes "0 \<le> y" "y \<le> 9999" "valid_date y m d" "valid_time h mi s ms"
  shows "toISOString (instant y m d h mi s ms) = canonical_text y m d h mi s ms"
  using assms by (subst iso_text) (simp_all add: instant_fields [OF assms(3,4)])

text \<open>A text that is canonical already is that of the instant it denotes.\<close>

lemma canonical_written:
  assumes "writable c" and can: "canonical (written sep c)" and "exists_in_calendar c"
  shows "written sep c = toISOString (denoted c)" and "utc_year (denoted c) = ci_year c"
proof -
  have w: "list_all is_digit (ci_fraction c)" "zone_written (ci_zone c)" "0 \<le> ci_year c" "ci_year c \<le> 9999"
    using assms(1) by (simp_all add: writable_def)
  have from_sep: "list_all2 matches (drop 10 ''dddd-dd-ddTdd:dd:dd.dddZ'') (drop 10 (written sep c))"
    and from_sec: "list_all2 matches (drop 16 ''dddd-dd-ddTdd:dd:dd.dddZ'') (drop 16 (written sep c))"
    using can unfolding canonical_def by (blast intro: list_all2_dropI)+
  have sep: "sep = CHR ''T''" using from_sep by (simp add: written_def matches_def)
  let ?tail = "(case ci_second c of None \<Rightarrow> [] | Some x \<Rightarrow> CHR '':'' # pad 2 x) @
     (if ci_fraction c = [] then [] else CHR ''.'' # ci_fraction c) @ text_of_zone (ci_zone c)"
  have tail: "list_all2 matches '':dd.dddZ'' ?tail" using from_sec by (simp add: written_def)
  have z: "text_of_zone (ci_zone c) \<noteq> []"
  proof
    assume "text_of_zone (ci_zone c) = []"
    then have "is_digit (last (written sep c))"
      using w(1) pad_digits [of 2 "ci_minute c"] pad_digits [of 2 "the (ci_second c)"]
      by (auto simp: written_def list_all_iff last_append pad_unroll split: option.split)
    with canonical_last [OF can] show False by (simp add: is_digit_def)
  qed
  then have "last (text_of_zone (ci_zone c)) = CHR ''Z''"
    using canonical_last [OF can] by (simp add: written_def)
  then have zone: "ci_zone c = Zulu True" using zone_facts(4) [OF w(2)] z by blast
  obtain x where x: "ci_second c = Some x"
    using tail by (cases "ci_second c") (auto simp: matches_def zone text_of_zone_def split: if_splits)
  have frac: "length (ci_fraction c) = 3"
    using list_all2_lengthD [OF tail] by (simp add: x zone text_of_zone_def split: if_splits)
  then have ms: "pad 3 (ci_ms c) = ci_fraction c" using digits_number [OF w(1)] by (simp add: ci_ms_def)
  have valid: "valid_date (ci_year c) (ci_month c - 1) (ci_day c)" "valid_time (ci_hour c) (ci_minute c) x (ci_ms c)"
    using assms(1,3) ci_ms_range [OF assms(1)]
    by (simp_all add: exists_in_calendar_def writable_def two_digit_def valid_time_def x)
  have den: "denoted c = instant (ci_year c) (ci_month c - 1) (ci_day c) (ci_hour c) (ci_minute c) x (ci_ms c)"
    by (simp add: denoted_def x zone minutes_of_zone_def)
  show "written sep c = toISOString (denoted c)"
    unfolding den iso_instant [OF w(3,4) valid]
    using frac by (auto simp: written_def canonical_text_def sep x zone text_of_zone_def ms)
  show "utc_year (denoted c) = ci_year c" unfolding den by (rule instant_fields(1) [OF valid])
qed

lemma normalize_written:
  assumes "sep = CHR ''T'' \<or> sep = CHR '' ''" and "writable c" and "\<not> canonical (written sep c)"
  shows "normalizeTimestamp (Some (written sep c)) =
    Some (if exists_in_calendar c \<and> 0 \<le> utc_year (denoted c) \<and> utc_year (denoted c) \<le> 9999
          then toISOString (denoted c) else written sep c)"
proof -
  let ?s = "case ci_second c of Some x \<Rightarrow> x | None \<Rightarrow> 0"
  let ?t = "instant (ci_year c) (ci_month c - 1) (ci_day c) (ci_hour c) (ci_minute c) ?s (ci_ms c)"
  have w: "0 \<le> ci_year c" "ci_year c \<le> 9999" "two_digit (ci_month c)" "two_digit (ci_day c)" "two_digit (ci_hour c)"
    "two_digit (ci_minute c)" "pred_option two_digit (ci_second c)" "zone_written (ci_zone c)"
    using assms(2) by (simp_all add: writable_def)
  have n: "number (pad 4 (ci_year c)) = ci_year c" "number (pad 2 (ci_month c)) = ci_month c" "number (pad 2 (ci_day c)) = ci_day c"
    "number (pad 2 (ci_hour c)) = ci_hour c" "number (pad 2 (ci_minute c)) = ci_minute c"
    "(case ci_second c of Some x \<Rightarrow> (number \<circ> pad 2) x | None \<Rightarrow> 0) = ?s"
    using w by (auto simp: two_digit_def number_pad split: option.split)
  have den: "denoted c = ?t - minutes_of_zone (ci_zone c) * MS_PER_MINUTE" by (simp add: denoted_def)
  have known: "(utc_year ?t = ci_year c \<and> utc_month ?t = ci_month c - 1 \<and> utc_date ?t = ci_day c \<and> utc_hours ?t = ci_hour c \<and>
      utc_minutes ?t = ci_minute c \<and> utc_seconds ?t = ?s) \<longleftrightarrow> exists_in_calendar c"
  proof
    assume e: "exists_in_calendar c"
    have "valid_time (ci_hour c) (ci_minute c) ?s (ci_ms c)"
      using e w ci_ms_range [OF assms(2)] by (auto simp: exists_in_calendar_def valid_time_def two_digit_def split: option.splits)
    moreover have "valid_date (ci_year c) (ci_month c - 1) (ci_day c)" using e by (simp add: exists_in_calendar_def)
    ultimately show "utc_year ?t = ci_year c \<and> utc_month ?t = ci_month c - 1 \<and> utc_date ?t = ci_day c \<and> utc_hours ?t = ci_hour c \<and>
        utc_minutes ?t = ci_minute c \<and> utc_seconds ?t = ?s" by (simp add: instant_fields)
  next
    assume "utc_year ?t = ci_year c \<and> utc_month ?t = ci_month c - 1 \<and> utc_date ?t = ci_day c \<and> utc_hours ?t = ci_hour c \<and>
        utc_minutes ?t = ci_minute c \<and> utc_seconds ?t = ?s"
    with fields_valid [of ?t] show "exists_in_calendar c"
      by (auto simp: exists_in_calendar_def valid_time_def split: option.splits)
  qed
  have "normalizeTimestamp (Some (written sep c)) =
      Some (if \<not> exists_in_calendar c then written sep c
            else if max_time < \<bar>denoted c\<bar> then written sep c
            else if canonical (toISOString (denoted c)) then toISOString (denoted c) else written sep c)"
  proof -
    define t where "t = ?t"
    have t: "make_day (ci_year c) (ci_month c - 1) (ci_day c) * ms_per_day + make_time (ci_hour c) (ci_minute c) ?s (ci_ms c) = t"
      by (simp add: t_def instant_def)
    show ?thesis
      unfolding den known [folded t_def, symmetric] t_def [symmetric]
      by (simp add: normalizeTimestamp_def assms(3) parse_written [OF assms(1,2)] normalize_text_def Let_def n fraction_ms
          zone_facts(2) [OF w(8)] t)
  qed
  moreover have "canonical (toISOString (denoted c))" "\<not> max_time < \<bar>denoted c\<bar>"
    if "0 \<le> utc_year (denoted c)" "utc_year (denoted c) \<le> 9999"
    using year_in_range [OF that] by (simp_all add: iso_text [OF that] canonical_canonical)
  ultimately show ?thesis using far_year [of "denoted c"] by auto
qed

lemma iso_parse_instant: "0 \<le> utc_year t \<Longrightarrow> utc_year t \<le> 9999 \<Longrightarrow> iso_parse (toISOString t) = Some t"
  by (simp add: iso_text) (subst parse_canonical; simp add: fields_valid instant_of_fields)

text \<open>
  C40. One instant, one text: whatever the notation a timestamp of a four-digit year comes in, with \<open>T\<close> or a space, with
  seconds or without, with a fraction of any length, with \<open>Z\<close>, an offset as \<open>+HH\<close>, \<open>+HHMM\<close> or \<open>+HH:MM\<close> of either sign, or
  no zone, it is rewritten to the canonical form of the instant it denotes, cut to milliseconds, and reads as that
  instant; and it is returned untouched when its day or time does not exist or when the instant is not in the years 0
  to 9999.
\<close>

theorem timestamp_normalised:
  assumes "sep = CHR ''T'' \<or> sep = CHR '' ''" and "writable c"
  shows "if exists_in_calendar c \<and> 0 \<le> utc_year (denoted c) \<and> utc_year (denoted c) \<le> 9999
    then normalizeTimestamp (Some (written sep c)) = Some (toISOString (denoted c)) \<and> canonical (toISOString (denoted c)) \<and>
         timestampMs engine (Some (written sep c)) = Some (denoted c)
    else normalizeTimestamp (Some (written sep c)) = Some (written sep c)"
proof -
  have norm: "normalizeTimestamp (Some (written sep c)) =
      Some (if exists_in_calendar c \<and> 0 \<le> utc_year (denoted c) \<and> utc_year (denoted c) \<le> 9999
            then toISOString (denoted c) else written sep c)"
  proof (cases "canonical (written sep c)")
    case True
    then show ?thesis using canonical_written [OF assms(2) True, symmetric] by (auto simp: normalizeTimestamp_def)
  next
    case False
    then show ?thesis by (rule normalize_written [OF assms])
  qed
  moreover have "canonical (toISOString t) \<and> iso_parse (toISOString t) = Some t" if "0 \<le> utc_year t \<and> utc_year t \<le> 9999" for t
    using that iso_parse_instant [of t] by (simp add: iso_text canonical_canonical)
  ultimately show ?thesis by (auto simp: timestampMs_def)
qed

definition demo_civil :: civil where
  "demo_civil = \<lparr>ci_year = 2000, ci_month = 2, ci_day = 29, ci_hour = 5, ci_minute = 30, ci_second = Some 0,
     ci_fraction = ''1239'', ci_zone = Offset False 5 (Some (True, 30))\<rparr>"

theorem timestamp_normalised_witness:
  "normalizeTimestamp (Some ''2000-02-29 05:30:00.1239+05:30'') = Some ''2000-02-29T00:00:00.123Z'' \<and>
   normalizeTimestamp (Some ''2000-02-30 05:30:00.1239+05:30'') = Some ''2000-02-30 05:30:00.1239+05:30''"
proof (rule conjI)
  let ?bad = "demo_civil\<lparr>ci_day := 30\<rparr>"
  have sep: "CHR '' '' = CHR ''T'' \<or> CHR '' '' = CHR '' ''" by simp
  have w: "writable demo_civil" "writable ?bad"
    by (simp_all add: writable_def demo_civil_def two_digit_def zone_written_def zone_range_def is_digit_def)
  have "valid_date 2000 1 29" "\<not> valid_date 2000 1 30" by code_simp+
  then have e: "exists_in_calendar demo_civil" "\<not> exists_in_calendar ?bad" by (simp_all add: exists_in_calendar_def demo_civil_def)
  have y: "0 \<le> utc_year (denoted demo_civil)" "utc_year (denoted demo_civil) \<le> 9999" by code_simp+
  have t: "written (CHR '' '') demo_civil = ''2000-02-29 05:30:00.1239+05:30''" "written (CHR '' '') ?bad = ''2000-02-30 05:30:00.1239+05:30''"
    "toISOString (denoted demo_civil) = ''2000-02-29T00:00:00.123Z''" by code_simp+
  show "normalizeTimestamp (Some ''2000-02-29 05:30:00.1239+05:30'') = Some ''2000-02-29T00:00:00.123Z''"
    using timestamp_normalised [OF sep w(1)] e(1) y t by simp
  show "normalizeTimestamp (Some ''2000-02-30 05:30:00.1239+05:30'') = Some ''2000-02-30 05:30:00.1239+05:30''"
    using timestamp_normalised [OF sep w(2)] e(2) t by simp
qed

end
