(* ===== verification/IncomingPush.thy ===== *)
theory IncomingPush
  imports Calls
begin

text \<open>
  Incoming-call pushes (\<open>server/src/domain/notifications.ts\<close>): for each call the devices that
  acknowledged it, were pushed it and were told of its end, and the timers that wait for the
  acknowledgement of a connected device. \<open>og_pushes\<close> lists what is handed to the push service; the
  outcome of a delivery comes back through \<open>pruneDeadDevice\<close> and is not part of this state.
\<close>

section \<open>State\<close>

record push_entry =
  pe_acked :: "string list"
  pe_pushed :: "string list"
  pe_cancelled :: "string list"
  pe_timers :: "(string \<times> int \<times> string) list"   \<comment> \<open>device, due time, user\<close>

definition empty_entry :: push_entry where
  "empty_entry = \<lparr>pe_acked = [], pe_pushed = [], pe_cancelled = [], pe_timers = []\<rparr>"

datatype push =
    Incoming_Push string channel media_type string "stamp option"
    \<comment> \<open>call, channel, media type, caller, ring timeout\<close>
  | Cancelled_Push string channel "string option"

datatype call_notice =
    State_Changed "call_status option" call_status "string option" "string option" call_record
    \<comment> \<open>previous status, status, actor, reason, call\<close>
  | Call_Event string "string option" "string option" call_record
  | Call_Incoming call_record
  | Call_Ringing string call_record
  | Participant_Joined string string   \<comment> \<open>call, user; only to sockets of the current protocol\<close>
  | Participant_Left string string participant_state

record bus_message =
  bm_call :: string
  bm_previous :: call_status
  bm_status :: call_status
  bm_actor :: "string option"
  bm_reason :: "string option"

text \<open>What leaves the instance: pushes, socket events by receiving user, messages on the bus.\<close>

record outgoing =
  og_entries :: "(string \<times> push_entry) list"
  og_pushes :: "push list"
  og_notices :: "(string \<times> call_notice) list"
  og_bus :: "bus_message list"

definition nothing_sent :: outgoing where
  "nothing_sent = \<lparr>og_entries = [], og_pushes = [], og_notices = [], og_bus = []\<rparr>"

definition entry_of :: "string \<Rightarrow> outgoing \<Rightarrow> push_entry" where
  "entry_of cid og = (case map_of (og_entries og) cid of Some e \<Rightarrow> e | None \<Rightarrow> empty_entry)"

definition put_entry :: "string \<Rightarrow> push_entry \<Rightarrow> outgoing \<Rightarrow> outgoing" where
  "put_entry cid e og = og\<lparr>og_entries := AList.update cid e (og_entries og)\<rparr>"

text \<open>\<open>getIncomingCallPushStateForCall\<close> creates the entry it does not find.\<close>

definition getIncomingCallPushStateForCall :: "string \<Rightarrow> outgoing \<Rightarrow> push_entry \<times> outgoing" where
  "getIncomingCallPushStateForCall cid og = (entry_of cid og, put_entry cid (entry_of cid og) og)"

definition clearIncomingCallPushState :: "string \<Rightarrow> outgoing \<Rightarrow> outgoing" where
  "clearIncomingCallPushState cid og = og\<lparr>og_entries := AList.delete cid (og_entries og)\<rparr>"

definition hasIncomingCallPushBeenDispatched :: "string \<Rightarrow> string \<Rightarrow> outgoing \<Rightarrow> bool \<times> outgoing" where
  "hasIncomingCallPushBeenDispatched cid d og =
     (let (e, og1) = getIncomingCallPushStateForCall cid og in (d \<in> set (pe_pushed e), og1))"

definition markIncomingCallPushDispatched :: "string \<Rightarrow> string \<Rightarrow> outgoing \<Rightarrow> outgoing" where
  "markIncomingCallPushDispatched cid d og =
     (let (e, og1) = getIncomingCallPushStateForCall cid og
      in put_entry cid (e\<lparr>pe_pushed := set_add d (pe_pushed e)\<rparr>) og1)"

definition hasIncomingCallBeenAcknowledged :: "string \<Rightarrow> string \<Rightarrow> outgoing \<Rightarrow> bool \<times> outgoing" where
  "hasIncomingCallBeenAcknowledged cid d og =
     (let (e, og1) = getIncomingCallPushStateForCall cid og in (d \<in> set (pe_acked e), og1))"

definition markIncomingCallAcknowledged :: "string option \<Rightarrow> string option \<Rightarrow> outgoing \<Rightarrow> bool \<times> outgoing" where
  "markIncomingCallAcknowledged cid d og =
     (if \<not> str_truthy cid \<or> \<not> str_truthy d then (False, og)
      else
        (let (e, og1) = getIncomingCallPushStateForCall (the cid) og
         in (True, put_entry (the cid) (e\<lparr>pe_acked := set_add (the d) (pe_acked e),
                                          pe_timers := AList.delete (the d) (pe_timers e)\<rparr>) og1)))"

section \<open>Sending a push\<close>

definition channel_device :: "channel \<Rightarrow> string" where
  "channel_device ch = (case ch of Push d _ _ \<Rightarrow> d | Websocket _ d _ \<Rightarrow> d)"

definition attemptIncomingCallPush :: "call_record \<Rightarrow> channel \<Rightarrow> string \<Rightarrow> outgoing \<Rightarrow> outgoing" where
  "attemptIncomingCallPush c ch u og =
     (case hasIncomingCallPushBeenDispatched (c_id c) (channel_device ch) og of
        (True, og1) \<Rightarrow> og1
      | (False, og1) \<Rightarrow>
          (let og2 = markIncomingCallPushDispatched (c_id c) (channel_device ch) og1
           in og2\<lparr>og_pushes := og_pushes og2 @
                [Incoming_Push (c_id c) ch (case c_media c of Some m \<Rightarrow> m | None \<Rightarrow> Video) (c_caller c)
                   (coalesce (Option.bind (find_participant c u) p_ring_timeout) (c_ring_timeout c))]\<rparr>))"

definition DEFAULT_INCOMING_CALL_ACK_TIMEOUT_MS :: int where
  "DEFAULT_INCOMING_CALL_ACK_TIMEOUT_MS = 2000"

text \<open>\<open>configured\<close> is the setting \<open>INCOMING_CALL_ACK_TIMEOUT_MS\<close> as a number.\<close>

definition ack_timeout_ms :: "int option \<Rightarrow> int" where
  "ack_timeout_ms configured =
     (case configured of Some n \<Rightarrow> if 0 < n then n else DEFAULT_INCOMING_CALL_ACK_TIMEOUT_MS
      | None \<Rightarrow> DEFAULT_INCOMING_CALL_ACK_TIMEOUT_MS)"

definition scheduleIncomingCallAckTimeout ::
  "int \<Rightarrow> int option \<Rightarrow> call_record \<Rightarrow> string \<Rightarrow> string \<Rightarrow> outgoing \<Rightarrow> outgoing" where
  "scheduleIncomingCallAckTimeout nw configured c d u og =
     (let (e, og1) = getIncomingCallPushStateForCall (c_id c) og
      in if map_of (pe_timers e) d \<noteq> None then og1
         else put_entry (c_id c) (e\<lparr>pe_timers := AList.update d (nw + ack_timeout_ms configured, u) (pe_timers e)\<rparr>) og1)"

definition is_push :: "channel \<Rightarrow> bool" where
  "is_push ch = (case ch of Push _ _ _ \<Rightarrow> True | Websocket _ _ _ \<Rightarrow> False)"

text \<open>A connected device first gets the time to acknowledge over its socket.\<close>

definition dispatchIncomingCallPushes ::
  "env \<Rightarrow> int option \<Rightarrow> stores \<Rightarrow> call_record \<Rightarrow> string \<Rightarrow> outgoing \<Rightarrow> outgoing" where
  "dispatchIncomingCallPushes e configured st c u og =
     fold (\<lambda>ch og. if channel_device ch \<in> set (connected_device_ids st u)
                   then scheduleIncomingCallAckTimeout (now e) configured c (channel_device ch) u og
                   else attemptIncomingCallPush c ch u og)
       (filter is_push (resolveReachableChannels (max_push e) st u)) og"

definition findPushChannelForDevice :: "stores \<Rightarrow> string \<Rightarrow> string \<Rightarrow> channel option" where
  "findPushChannelForDevice st u d =
     (case map_of (devices st) d of
        None \<Rightarrow> None
      | Some r \<Rightarrow>
          if d_user r \<noteq> u \<or> \<not> str_truthy (d_provider r) \<or> \<not> str_truthy (d_token r) then None
          else Some (Push d (the (d_provider r)) (the (d_token r))))"

definition hasLiveConnectionForDevice :: "stores \<Rightarrow> string \<Rightarrow> string \<Rightarrow> bool" where
  "hasLiveConnectionForDevice st u d = (\<exists>cn \<in> set (map snd (connections_of st u)). cn_device cn = d)"

text \<open>The first guard of a push that comes later: the call rings, or it rings for this user.\<close>

definition still_rings :: "call_record \<Rightarrow> string \<Rightarrow> bool" where
  "still_rings c u = (c_status c = Ringing \<or> map_option p_state (find_participant c u) = Some P_Ringing)"

definition dispatchIncomingCallPushToDevice ::
  "int \<Rightarrow> stores \<Rightarrow> call_record \<Rightarrow> string \<Rightarrow> bool \<Rightarrow> string \<Rightarrow> outgoing \<Rightarrow> outgoing" where
  "dispatchIncomingCallPushToDevice nw st c d allowConnected u og =
     (if \<not> still_rings c u then og
      else
        (let at = coalesce (Option.bind (find_participant c u) p_ring_timeout) (c_ring_timeout c);
             ms = (if stamp_truthy at then Some (Option.bind at date_parse) else None)
         in if ms = Some None then og
            else if (case ms of Some (Some t) \<Rightarrow> t \<le> nw | _ \<Rightarrow> False) then og
            else (case hasIncomingCallBeenAcknowledged (c_id c) d og of
                    (True, og1) \<Rightarrow> og1
                  | (False, og1) \<Rightarrow>
                      if \<not> allowConnected \<and> hasLiveConnectionForDevice st u d then og1
                      else (case findPushChannelForDevice st u d of
                              None \<Rightarrow> og1
                            | Some ch \<Rightarrow> attemptIncomingCallPush c ch u og1))))"

text \<open>
  The callback of the acknowledgement timer. \<open>c\<close> is the record the timer was armed with, as it is now: a
  later transition on this instance has changed it, a record adopted from the shared store has replaced
  it in the registry and left it as it was.
\<close>

definition ack_timeout_fires :: "int \<Rightarrow> stores \<Rightarrow> call_record \<Rightarrow> string \<Rightarrow> string \<Rightarrow> outgoing \<Rightarrow> outgoing" where
  "ack_timeout_fires nw st c d u og =
     (let e = entry_of (c_id c) og;
          og1 = put_entry (c_id c) (e\<lparr>pe_timers := AList.delete d (pe_timers e)\<rparr>) og
      in if \<not> still_rings c u then og1
         else (case hasIncomingCallBeenAcknowledged (c_id c) d og1 of
                 (True, og2) \<Rightarrow> og2
               | (False, og2) \<Rightarrow> dispatchIncomingCallPushToDevice nw st c d True u og2))"

definition notifyRingingCallsForDisconnectedDevice ::
  "int \<Rightarrow> server_state \<Rightarrow> string option \<Rightarrow> string option \<Rightarrow> outgoing \<Rightarrow> outgoing" where
  "notifyRingingCallsForDisconnectedDevice nw s u d og =
     (if \<not> str_truthy u \<or> \<not> str_truthy d then og
      else fold (\<lambda>c og.
          if (c_status c \<noteq> Ringing \<and> \<not> (\<exists>p \<in> set (or_empty (c_parts c)). p_state p = P_Ringing)) \<or>
             \<not> (\<exists>p \<in> set (or_empty (c_parts c)). p_user p = the u \<and> p_state p = P_Ringing)
          then og
          else dispatchIncomingCallPushToDevice nw (stores s) c (the d) False (the u) og)
        (map snd (calls s)) og)"

section \<open>Cancelling the pushes\<close>

definition push_owner :: "stores \<Rightarrow> call_record \<Rightarrow> string \<Rightarrow> string" where
  "push_owner st c d = (case map_of (devices st) d of Some r \<Rightarrow> d_user r | None \<Rightarrow> c_callee c)"

definition cancel_visit ::
  "stores \<Rightarrow> call_record \<Rightarrow> string option \<Rightarrow> string option \<Rightarrow> string \<Rightarrow> outgoing \<Rightarrow> outgoing" where
  "cancel_visit st c reason recipient d og =
     (let owner = push_owner st c d; e = entry_of (c_id c) og
      in if str_truthy recipient \<and> recipient \<noteq> Some owner then og
         else if d \<in> set (pe_cancelled e) then og
         else
           (let og1 = put_entry (c_id c) (e\<lparr>pe_cancelled := set_add d (pe_cancelled e)\<rparr>) og
            in case findPushChannelForDevice st owner d of
                 None \<Rightarrow> og1
               | Some ch \<Rightarrow> og1\<lparr>og_pushes := og_pushes og1 @ [Cancelled_Push (c_id c) ch reason]\<rparr>))"

definition dispatchCallCancelledPushes ::
  "stores \<Rightarrow> call_record \<Rightarrow> string option \<Rightarrow> string option \<Rightarrow> outgoing \<Rightarrow> outgoing" where
  "dispatchCallCancelledPushes st c reason recipient og =
     (case map_of (og_entries og) (c_id c) of
        None \<Rightarrow> og
      | Some e \<Rightarrow> fold (cancel_visit st c reason recipient) (pe_pushed e) og)"

definition updateCallPushState ::
  "stores \<Rightarrow> call_record \<Rightarrow> call_status option \<Rightarrow> string option \<Rightarrow> outgoing \<Rightarrow> outgoing" where
  "updateCallPushState st c previous reason og =
     (if c_status c = Ringing then og
      else
        (let og1 = (if previous = Some Ringing \<and> terminal (c_status c)
                    then dispatchCallCancelledPushes st c (coalesce reason (c_end_reason c)) None og else og);
             rings = (\<exists>p \<in> set (or_empty (c_parts c)). p_state p = P_Ringing \<or> p_state p = P_Invited)
         in if \<not> rings \<or> terminal (c_status c) then clearIncomingCallPushState (c_id c) og1 else og1))"

end
