(* ===== verification/CallNotices.thy ===== *)
theory CallNotices
  imports IncomingPush
begin

text \<open>
  What clients are told about a call (\<open>server/src/domain/notifications.ts\<close>): the socket events of a new
  call and of every transition, the message on the bus, and the pushes that go with them. Telemetry and
  logging have no part in it.
\<close>

section \<open>Envelopes\<close>

definition bare_participant :: "string \<Rightarrow> participant_state \<Rightarrow> participant" where
  "bare_participant u ps = \<lparr>p_user = u, p_state = ps, p_ring_timeout = None, p_joined = None, p_left = None, p_device = None\<rparr>"

definition callWithParticipants :: "call_record \<Rightarrow> call_record" where
  "callWithParticipants c =
     (if or_empty (c_parts c) \<noteq> [] then c
      else
        (let over = terminal (c_status c);
             callee = (if c_status c = Ringing then P_Ringing else if c_status c = Declined then P_Declined
                       else if over then P_Left else P_Joined)
         in c\<lparr>c_parts := Some [bare_participant (c_caller c) (if over then P_Left else P_Joined),
                                bare_participant (c_callee c) callee]\<rparr>))"

definition getCallTransitionEventName :: "call_status \<Rightarrow> string option \<Rightarrow> string option" where
  "getCallTransitionEventName st reason =
     (case st of
        Accepted \<Rightarrow> Some ''call.accept''
      | Declined \<Rightarrow> Some ''call.decline''
      | Ended \<Rightarrow> Some (if reason = Some ''cancelled'' then ''call.cancel'' else ''call.end'')
      | _ \<Rightarrow> None)"

definition tell :: "string list \<Rightarrow> call_notice \<Rightarrow> outgoing \<Rightarrow> outgoing" where
  "tell us x og = og\<lparr>og_notices := og_notices og @ map (\<lambda>u. (u, x)) us\<rparr>"

section \<open>A transition\<close>

definition call_recipients :: "call_record \<Rightarrow> string list" where
  "call_recipients c = uniq (case c_parts c of Some ps \<Rightarrow> map p_user ps | None \<Rightarrow> [c_caller c, c_callee c])"

definition departed_state :: "participant_state \<Rightarrow> bool" where
  "departed_state ps = (ps = P_Left \<or> ps = P_Declined \<or> ps = P_Missed)"

definition notifyParticipantChanges ::
  "stores \<Rightarrow> call_record \<Rightarrow> string option \<Rightarrow> string option \<Rightarrow> call_status option \<Rightarrow> string list \<Rightarrow> outgoing \<Rightarrow> outgoing" where
  "notifyParticipantChanges st c actor reason previous us og =
     (case Option.bind actor (find_participant c) of
        None \<Rightarrow> og
      | Some p \<Rightarrow>
          (let og1 = (if departed_state (p_state p)
                      then dispatchCallCancelledPushes st c (coalesce reason (Some (participant_text (p_state p)))) (Some (p_user p)) og
                      else og)
           in if p_state p = P_Joined \<and> previous \<noteq> None
              then tell us (Participant_Joined (c_id c) (p_user p)) og1
              else if \<not> departed_state (p_state p) \<or> previous = None \<or> terminal (c_status c) then og1
              else tell us (Participant_Left (c_id c) (p_user p) (p_state p)) og1))"

definition gone_participants :: "call_record \<Rightarrow> (string \<times> participant_state) list" where
  "gone_participants c =
     (case c_parts c of
        Some ps \<Rightarrow> map (\<lambda>p. (p_user p, p_state p)) (filter (\<lambda>p. departed_state (p_state p)) ps)
      | None \<Rightarrow> [(c_callee c, if c_status c = Declined then P_Declined else P_Left), (c_caller c, P_Left)])"

definition notifyTerminalParticipantLeaves :: "call_record \<Rightarrow> string list \<Rightarrow> outgoing \<Rightarrow> outgoing" where
  "notifyTerminalParticipantLeaves c us og =
     fold (\<lambda>(u, ps). tell us (Participant_Left (c_id c) u ps)) (gone_participants c) og"

definition publishCallTransition ::
  "bool \<Rightarrow> call_record \<Rightarrow> call_status option \<Rightarrow> string option \<Rightarrow> string option \<Rightarrow> outgoing \<Rightarrow> outgoing" where
  "publishCallTransition bus c previous actor reason og =
     (case previous of
        Some prev \<Rightarrow>
          if bus then og\<lparr>og_bus := og_bus og @
            [\<lparr>bm_call = c_id c, bm_previous = prev, bm_status = c_status c, bm_actor = actor, bm_reason = reason\<rparr>]\<rparr>
          else og
      | None \<Rightarrow> og)"

definition notifyCallTransition ::
  "server_state \<Rightarrow> call_record \<Rightarrow> call_status option \<Rightarrow> string option \<Rightarrow> string option \<Rightarrow> outgoing \<Rightarrow> outgoing" where
  "notifyCallTransition s c previous actor reason og =
     (let why = coalesce reason (c_end_reason c);
          us = call_recipients c;
          og1 = updateCallPushState (stores s) c previous reason og;
          og2 = tell us (State_Changed previous (c_status c) actor why (callWithParticipants c)) og1;
          og3 = notifyParticipantChanges (stores s) c actor reason previous us og2;
          og4 = (if terminal (c_status c) then notifyTerminalParticipantLeaves c us og3 else og3);
          og5 = publishCallTransition (message_bus s) c previous actor why og4
      in case getCallTransitionEventName (c_status c) why of
           None \<Rightarrow> og5
         | Some ev \<Rightarrow> tell us (Call_Event ev actor why (callWithParticipants c)) og5)"

section \<open>A new call\<close>

definition describeCallDelivery :: "stores \<Rightarrow> call_record \<Rightarrow> string" where
  "describeCallDelivery st c = (if connections_of st (c_callee c) \<noteq> [] then ''ringing'' else ''push'')"

definition notifyCallRinging :: "stores \<Rightarrow> call_record \<Rightarrow> outgoing \<Rightarrow> outgoing" where
  "notifyCallRinging st c og =
     (if c_status c \<noteq> Ringing then og
      else tell [c_caller c] (Call_Ringing (describeCallDelivery st c) (callWithParticipants c)) og)"

definition ringing_invitees :: "call_record \<Rightarrow> string list" where
  "ringing_invitees c =
     (case c_parts c of
        Some ps \<Rightarrow> map p_user (filter (\<lambda>p. p_user p \<noteq> c_caller c \<and> p_state p = P_Ringing) ps)
      | None \<Rightarrow> [c_callee c])"

definition notifyCallCreated ::
  "env \<Rightarrow> int option \<Rightarrow> server_state \<Rightarrow> call_record \<Rightarrow> outgoing \<Rightarrow> outgoing" where
  "notifyCallCreated e configured s c og =
     (let og1 = (if c_status c = Ringing
                 then notifyCallRinging (stores s) c
                   (fold (\<lambda>u og. dispatchIncomingCallPushes e configured (stores s) c u
                                    (tell [u] (Call_Incoming (callWithParticipants c)) og))
                      (ringing_invitees c) og)
                 else clearIncomingCallPushState (c_id c) og)
      in notifyCallTransition s c None (Some (c_caller c)) (c_end_reason c) og1)"

definition notifyIncomingCallAcknowledged ::
  "server_state \<Rightarrow> string option \<Rightarrow> string option \<Rightarrow> outgoing \<Rightarrow> outgoing" where
  "notifyIncomingCallAcknowledged s cid u og =
     (if \<not> str_truthy cid then og
      else (case get_call s (the cid) of
              None \<Rightarrow> og
            | Some c \<Rightarrow>
                if c_status c \<noteq> Ringing then og
                else if \<not> str_truthy u \<or>
                  \<not> (case c_parts c of Some ps \<Rightarrow> \<exists>p \<in> set ps. p_user p = the u | None \<Rightarrow> c_callee c = the u)
                then og
                else tell [c_caller c] (Call_Ringing ''ringing'' (callWithParticipants c)) og))"

end
