(* ===== verification/PushProperties.thy ===== *)
theory PushProperties
  imports CallNotices CallProperties
begin

text \<open>
  What the notices and pushes of a call promise: while a call rings a device gets one incoming-call push
  and one cancellation at most, and a transition is told to the participants of the call, once each.
\<close>

section \<open>Runs\<close>

datatype push_op =
    Ring env "int option" stores call_record string
  | Acknowledge "string option" "string option"
  | Timer_Fires int stores call_record string string
  | Device_Gone int server_state "string option" "string option"
  | Cancel_Pushes stores call_record "string option" "string option"
  | Settle stores call_record "call_status option" "string option"

fun push_step :: "push_op \<Rightarrow> outgoing \<Rightarrow> outgoing" where
  "push_step (Ring e cfg st c u) = dispatchIncomingCallPushes e cfg st c u"
| "push_step (Acknowledge cid d) = (\<lambda>og. snd (markIncomingCallAcknowledged cid d og))"
| "push_step (Timer_Fires nw st c d u) = ack_timeout_fires nw st c d u"
| "push_step (Device_Gone nw s u d) = notifyRingingCallsForDisconnectedDevice nw s u d"
| "push_step (Cancel_Pushes st c reason recipient) = dispatchCallCancelledPushes st c reason recipient"
| "push_step (Settle st c previous reason) = updateCallPushState st c previous reason"

text \<open>The call is settled: nobody rings any more, its push state is dropped.\<close>

fun settles :: "string \<Rightarrow> push_op \<Rightarrow> bool" where
  "settles cid (Settle st c previous reason) =
     (c_id c = cid \<and> c_status c \<noteq> Ringing \<and>
      (terminal (c_status c) \<or> \<not> (\<exists>p \<in> set (or_empty (c_parts c)). p_state p = P_Ringing \<or> p_state p = P_Invited)))"
| "settles cid _ = False"

fun incoming_to :: "string \<Rightarrow> string \<Rightarrow> push \<Rightarrow> bool" where
  "incoming_to cid d (Incoming_Push k ch m u t) = (k = cid \<and> channel_device ch = d)"
| "incoming_to cid d (Cancelled_Push k ch r) = False"

fun cancelled_to :: "string \<Rightarrow> string \<Rightarrow> push \<Rightarrow> bool" where
  "cancelled_to cid d (Incoming_Push k ch m u t) = False"
| "cancelled_to cid d (Cancelled_Push k ch r) = (k = cid \<and> channel_device ch = d)"

definition incoming_count :: "string \<Rightarrow> string \<Rightarrow> outgoing \<Rightarrow> nat" where
  "incoming_count cid d og = length (filter (incoming_to cid d) (og_pushes og))"

definition cancelled_count :: "string \<Rightarrow> string \<Rightarrow> outgoing \<Rightarrow> nat" where
  "cancelled_count cid d og = length (filter (cancelled_to cid d) (og_pushes og))"

text \<open>The pushes sent for a call are the ones its entry remembers.\<close>

definition remembered :: "string \<Rightarrow> outgoing \<Rightarrow> bool" where
  "remembered cid og =
     ((\<forall>d. incoming_count cid d og = (if d \<in> set (pe_pushed (entry_of cid og)) then 1 else 0)) \<and>
      (\<forall>d. cancelled_count cid d og \<le> (if d \<in> set (pe_cancelled (entry_of cid og)) then 1 else 0)) \<and>
      set (pe_cancelled (entry_of cid og)) \<subseteq> set (pe_pushed (entry_of cid og)))"

lemma rememberedI:
  assumes "\<And>d. incoming_count cid d og = (if d \<in> set (pe_pushed (entry_of cid og)) then 1 else 0)"
    and "\<And>d. cancelled_count cid d og \<le> (if d \<in> set (pe_cancelled (entry_of cid og)) then 1 else 0)"
    and "set (pe_cancelled (entry_of cid og)) \<subseteq> set (pe_pushed (entry_of cid og))"
  shows "remembered cid og"
  using assms by (simp add: remembered_def)

lemma rememberedD:
  assumes "remembered cid og"
  shows "incoming_count cid d og = (if d \<in> set (pe_pushed (entry_of cid og)) then 1 else 0)"
    and "cancelled_count cid d og \<le> (if d \<in> set (pe_cancelled (entry_of cid og)) then 1 else 0)"
    and "set (pe_cancelled (entry_of cid og)) \<subseteq> set (pe_pushed (entry_of cid og))"
  using assms unfolding remembered_def by blast+

lemma entry_put [simp]: "entry_of k (put_entry cid e og) = (if k = cid then e else entry_of k og)"
  by (simp add: entry_of_def put_entry_def)

lemma put_frame [simp]:
  "og_pushes (put_entry cid e og) = og_pushes og" "og_notices (put_entry cid e og) = og_notices og"
  "og_bus (put_entry cid e og) = og_bus og"
  by (simp_all add: put_entry_def)

lemma entry_pushes [simp]: "entry_of k (og\<lparr>og_pushes := ps\<rparr>) = entry_of k og"
  by (simp add: entry_of_def)

lemma count_put [simp]:
  "incoming_count k d (put_entry cid e og) = incoming_count k d og"
  "cancelled_count k d (put_entry cid e og) = cancelled_count k d og"
  by (simp_all add: incoming_count_def cancelled_count_def)

lemma count_send [simp]:
  "incoming_count k d (og\<lparr>og_pushes := og_pushes og' @ [p]\<rparr>) = incoming_count k d og' + (if incoming_to k d p then 1 else 0)"
  "cancelled_count k d (og\<lparr>og_pushes := og_pushes og' @ [p]\<rparr>) = cancelled_count k d og' + (if cancelled_to k d p then 1 else 0)"
  by (simp_all add: incoming_count_def cancelled_count_def)

text \<open>An operation that sends nothing and changes neither list.\<close>

lemma remembered_quiet:
  assumes "remembered cid og" and "og_pushes og' = og_pushes og"
    and "pe_pushed (entry_of cid og') = pe_pushed (entry_of cid og)"
    and "pe_cancelled (entry_of cid og') = pe_cancelled (entry_of cid og)"
  shows "remembered cid og'"
  using assms by (simp add: remembered_def incoming_count_def cancelled_count_def)

lemma remembered_put:
  assumes "remembered cid og" and "pe_pushed e = pe_pushed (entry_of k og)" "pe_cancelled e = pe_cancelled (entry_of k og)"
  shows "remembered cid (put_entry k e og)"
  by (rule remembered_quiet [OF assms(1)]) (simp_all add: assms(2,3))

lemma remembered_touch: "remembered cid og \<Longrightarrow> remembered cid (snd (getIncomingCallPushStateForCall k og))"
  by (simp add: getIncomingCallPushStateForCall_def remembered_put)

section \<open>One operation\<close>

lemma remembered_attempt:
  assumes "remembered cid og"
  shows "remembered cid (attemptIncomingCallPush c ch u og)"
proof (cases "channel_device ch \<in> set (pe_pushed (entry_of (c_id c) og))")
  case True
  then show ?thesis
    using assms by (simp add: attemptIncomingCallPush_def hasIncomingCallPushBeenDispatched_def
        getIncomingCallPushStateForCall_def remembered_put)
next
  case False
  then have e: "attemptIncomingCallPush c ch u og =
      (let og1 = put_entry (c_id c) ((entry_of (c_id c) og)\<lparr>pe_pushed := set_add (channel_device ch) (pe_pushed (entry_of (c_id c) og))\<rparr>)
         (put_entry (c_id c) (entry_of (c_id c) og) (put_entry (c_id c) (entry_of (c_id c) og) og))
       in og1\<lparr>og_pushes := og_pushes og1 @ [Incoming_Push (c_id c) ch (case c_media c of Some m \<Rightarrow> m | None \<Rightarrow> Video) (c_caller c)
         (coalesce (Option.bind (find_participant c u) p_ring_timeout) (c_ring_timeout c))]\<rparr>)"
    by (simp add: attemptIncomingCallPush_def hasIncomingCallPushBeenDispatched_def getIncomingCallPushStateForCall_def
        markIncomingCallPushDispatched_def)
  note r = rememberedD [OF assms]
  show ?thesis
  proof (rule rememberedI)
    fix d
    show "incoming_count cid d (attemptIncomingCallPush c ch u og) =
        (if d \<in> set (pe_pushed (entry_of cid (attemptIncomingCallPush c ch u og))) then 1 else 0)"
      using r(1) [of d] False by (auto simp: e Let_def)
    show "cancelled_count cid d (attemptIncomingCallPush c ch u og) \<le>
        (if d \<in> set (pe_cancelled (entry_of cid (attemptIncomingCallPush c ch u og))) then 1 else 0)"
      using r(2) [of d] by (auto simp: e Let_def)
  qed (use r(3) in \<open>auto simp: e Let_def\<close>)
qed

lemma remembered_schedule: "remembered cid og \<Longrightarrow> remembered cid (scheduleIncomingCallAckTimeout nw cfg c d u og)"
  by (simp add: scheduleIncomingCallAckTimeout_def getIncomingCallPushStateForCall_def remembered_put)

lemma remembered_acknowledge: "remembered cid og \<Longrightarrow> remembered cid (snd (markIncomingCallAcknowledged k d og))"
  by (simp add: markIncomingCallAcknowledged_def getIncomingCallPushStateForCall_def remembered_put)

lemma remembered_dispatch:
  assumes "remembered cid og"
  shows "remembered cid (dispatchIncomingCallPushes e cfg st c u og)"
  unfolding dispatchIncomingCallPushes_def
  by (rule fold_invariant [where P = "remembered cid" and Q = "\<lambda>_. True"])
    (simp_all add: assms remembered_schedule remembered_attempt)

lemma remembered_acked:
  assumes "remembered cid og" and "hasIncomingCallBeenAcknowledged k d og = (b, og1)"
  shows "remembered cid og1"
  using assms by (auto simp: hasIncomingCallBeenAcknowledged_def getIncomingCallPushStateForCall_def remembered_put)

lemma remembered_later:
  assumes "remembered cid og"
  shows "remembered cid (dispatchIncomingCallPushToDevice nw st c d ok u og)"
proof -
  obtain b og1 where a: "hasIncomingCallBeenAcknowledged (c_id c) d og = (b, og1)" by fastforce
  from remembered_acked [OF assms a] show ?thesis
    by (simp add: dispatchIncomingCallPushToDevice_def Let_def a assms remembered_attempt split: bool.split option.split)
qed

lemma remembered_timer:
  assumes "remembered cid og"
  shows "remembered cid (ack_timeout_fires nw st c d u og)"
proof -
  let ?og = "put_entry (c_id c) ((entry_of (c_id c) og)\<lparr>pe_timers := AList.delete d (pe_timers (entry_of (c_id c) og))\<rparr>) og"
  have r: "remembered cid ?og" by (rule remembered_put [OF assms]) simp_all
  obtain b og1 where a: "hasIncomingCallBeenAcknowledged (c_id c) d ?og = (b, og1)" by fastforce
  from remembered_acked [OF r a] r show ?thesis
    by (simp add: ack_timeout_fires_def Let_def a remembered_later split: bool.split)
qed

lemma remembered_gone:
  assumes "remembered cid og"
  shows "remembered cid (notifyRingingCallsForDisconnectedDevice nw s u d og)"
proof -
  have "remembered cid (fold (\<lambda>c og. if b c then og else dispatchIncomingCallPushToDevice nw st c d' ok u' og) cs og)"
    for b st d' ok u' cs
    by (rule fold_invariant [where P = "remembered cid" and Q = "\<lambda>_. True"]) (simp_all add: assms remembered_later)
  with assms show ?thesis by (simp add: notifyRingingCallsForDisconnectedDevice_def)
qed

section \<open>Cancelling\<close>

lemma channel_found: "findPushChannelForDevice st u d = Some ch \<Longrightarrow> channel_device ch = d"
  by (auto simp: findPushChannelForDevice_def channel_device_def split: option.splits if_splits)

lemma remembered_cancel_visit:
  assumes "remembered cid og" and "c_id c = cid \<Longrightarrow> d \<in> set (pe_pushed (entry_of cid og))"
  shows "remembered cid (cancel_visit st c reason recipient d og)" (is ?r)
    and "pe_pushed (entry_of cid (cancel_visit st c reason recipient d og)) = pe_pushed (entry_of cid og)" (is ?p)
proof -
  let ?e = "entry_of (c_id c) og"
  let ?og = "put_entry (c_id c) (?e\<lparr>pe_cancelled := set_add d (pe_cancelled ?e)\<rparr>) og"
  note r = rememberedD [OF assms(1)]
  have q: "remembered cid ?og"
  proof (rule rememberedI)
    fix d'
    show "incoming_count cid d' ?og = (if d' \<in> set (pe_pushed (entry_of cid ?og)) then 1 else 0)"
      using r(1) [of d'] by auto
    show "cancelled_count cid d' ?og \<le> (if d' \<in> set (pe_cancelled (entry_of cid ?og)) then 1 else 0)"
      using r(2) [of d'] by (auto split: if_splits)
  qed (use r(3) assms(2) in auto)
  have s: "remembered cid (?og\<lparr>og_pushes := og_pushes ?og @ [Cancelled_Push (c_id c) ch reason]\<rparr>)"
    if "channel_device ch = d" "d \<notin> set (pe_cancelled ?e)" for ch
  proof (rule rememberedI)
    fix d'
    let ?og2 = "?og\<lparr>og_pushes := og_pushes ?og @ [Cancelled_Push (c_id c) ch reason]\<rparr>"
    show "incoming_count cid d' ?og2 = (if d' \<in> set (pe_pushed (entry_of cid ?og2)) then 1 else 0)"
      using r(1) [of d'] by auto
    show "cancelled_count cid d' ?og2 \<le> (if d' \<in> set (pe_cancelled (entry_of cid ?og2)) then 1 else 0)"
      using r(2) [of d'] that by (auto split: if_splits)
  qed (use r(3) assms(2) in auto)
  show ?r
    using assms(1) q s channel_found [of st "push_owner st c d" d]
    by (auto simp: cancel_visit_def Let_def split: option.split)
  show ?p by (simp add: cancel_visit_def Let_def split: option.split)
qed

lemma remembered_cancel_fold:
  assumes "remembered cid og" and "c_id c = cid \<Longrightarrow> set ds \<subseteq> set (pe_pushed (entry_of cid og))"
  shows "remembered cid (fold (cancel_visit st c reason recipient) ds og)"
  using assms
proof (induction ds arbitrary: og)
  case (Cons d ds)
  have "c_id c = cid \<Longrightarrow> d \<in> set (pe_pushed (entry_of cid og))" using Cons.prems(2) by simp
  note v = remembered_cancel_visit [OF Cons.prems(1) this]
  show ?case by (simp, rule Cons.IH) (use Cons.prems(2) v in auto)
qed simp

lemma remembered_cancel: "remembered cid og \<Longrightarrow> remembered cid (dispatchCallCancelledPushes st c reason recipient og)"
  by (auto simp: dispatchCallCancelledPushes_def entry_of_def intro!: remembered_cancel_fold split: option.split)

lemma clear_frame [simp]:
  "og_pushes (clearIncomingCallPushState k og) = og_pushes og"
  "k \<noteq> cid \<Longrightarrow> entry_of cid (clearIncomingCallPushState k og) = entry_of cid og"
  by (simp_all add: clearIncomingCallPushState_def entry_of_def)

lemma remembered_step: "remembered cid og \<Longrightarrow> \<not> settles cid op \<Longrightarrow> remembered cid (push_step op og)"
proof (cases op)
  case (Settle st c previous reason)
  assume r: "remembered cid og" and n: "\<not> settles cid op"
  let ?og = "if previous = Some Ringing \<and> terminal (c_status c)
             then dispatchCallCancelledPushes st c (coalesce reason (c_end_reason c)) None og else og"
  have "remembered cid ?og" using r by (simp add: remembered_cancel)
  moreover have "remembered cid (clearIncomingCallPushState (c_id c) ?og)" if "c_id c \<noteq> cid"
    by (rule remembered_quiet [OF \<open>remembered cid ?og\<close>]) (simp_all add: that)
  ultimately show ?thesis
    using n r by (auto simp: Settle updateCallPushState_def Let_def)
qed (simp_all add: remembered_dispatch remembered_acknowledge remembered_timer remembered_gone remembered_cancel)

lemma remembered_run:
  "remembered cid og \<Longrightarrow> \<forall>op \<in> set ops. \<not> settles cid op \<Longrightarrow> remembered cid (fold push_step ops og)"
  by (induction ops arbitrary: og) (auto simp: remembered_step)

text \<open>Settling a call may still send its cancellations, but no incoming push, and each of them once.\<close>

lemma settle_counts:
  assumes "remembered cid og"
  shows "incoming_count cid d (push_step op og) \<le> 1 \<and> cancelled_count cid d (push_step op og) \<le> incoming_count cid d (push_step op og)"
proof -
  have le: "incoming_count cid d og' \<le> 1 \<and> cancelled_count cid d og' \<le> incoming_count cid d og'" if "remembered cid og'" for og'
    using rememberedD(1,2) [OF that, of d] rememberedD(3) [OF that] by (auto split: if_splits)
  show ?thesis
  proof (cases "settles cid op")
    case False
    with assms show ?thesis by (intro le remembered_step)
  next
    case True
    then obtain st c previous reason where op: "op = Settle st c previous reason" by (cases op) auto
    let ?og = "if previous = Some Ringing \<and> terminal (c_status c)
               then dispatchCallCancelledPushes st c (coalesce reason (c_end_reason c)) None og else og"
    have "remembered cid ?og" using assms by (simp add: remembered_cancel)
    from le [OF this] assms le [OF assms] show ?thesis
      by (auto simp: op updateCallPushState_def Let_def incoming_count_def cancelled_count_def)
  qed
qed

text \<open>
  C11. While a call rings, whatever happens to its sockets, timers and acknowledgements and up to the moment
  it is settled, every device is sent the incoming-call push at most once, and a cancellation at most once
  and only if it was sent the push.
\<close>

theorem incoming_push_once:
  assumes "entry_of cid og = empty_entry" and "\<And>d. incoming_count cid d og = 0 \<and> cancelled_count cid d og = 0"
    and "\<forall>op \<in> set ops. \<not> settles cid op"
  shows "incoming_count cid d (fold push_step (ops @ [op]) og) \<le> 1 \<and>
    cancelled_count cid d (fold push_step (ops @ [op]) og) \<le> incoming_count cid d (fold push_step (ops @ [op]) og)"
proof -
  have "remembered cid og" using assms(1,2) by (simp add: remembered_def empty_entry_def)
  from settle_counts [OF remembered_run [OF this assms(3)], of d op] show ?thesis by simp
qed

definition demo_tablet :: device_record where
  "demo_tablet = \<lparr>d_id = ''tablet'', d_user = ''bob'', d_platform = None, d_session = None, d_provider = Some ''fcm'',
     d_token = Some ''tok'', d_registered = None, d_unregistered = None, d_revoked = None, d_updated = None\<rparr>"

definition demo_stores :: stores where
  "demo_stores = empty_stores\<lparr>devices := [(''tablet'', demo_tablet)], user_devices := [(''bob'', [''tablet''])]\<rparr>"

definition demo_push_ops :: "push_op list" where
  "demo_push_ops = [Ring demo_env None demo_stores demo_call ''bob'', Timer_Fires 1002000 demo_stores demo_call ''tablet'' ''bob'',
     Device_Gone 1003000 (demo_ringing\<lparr>stores := demo_stores\<rparr>) (Some ''bob'') (Some ''tablet'')]"

theorem incoming_push_once_witness:
  "incoming_count ''id-'' ''tablet'' (fold push_step (demo_push_ops @ [Settle demo_stores demo_ended (Some Ringing) None]) nothing_sent) = 1 \<and>
   cancelled_count ''id-'' ''tablet'' (fold push_step (demo_push_ops @ [Settle demo_stores demo_ended (Some Ringing) None]) nothing_sent) \<le> 1"
proof -
  have h: "entry_of ''id-'' nothing_sent = empty_entry"
    "\<And>d. incoming_count ''id-'' d nothing_sent = 0 \<and> cancelled_count ''id-'' d nothing_sent = 0"
    by (simp_all add: nothing_sent_def entry_of_def incoming_count_def cancelled_count_def)
  have n: "\<forall>op \<in> set demo_push_ops. \<not> settles ''id-'' op" by (simp add: demo_push_ops_def)
  have "incoming_count ''id-'' ''tablet'' (fold push_step (demo_push_ops @ [Settle demo_stores demo_ended (Some Ringing) None]) nothing_sent) = 1"
    by code_simp
  with incoming_push_once [OF h n, of "''tablet''" "Settle demo_stores demo_ended (Some Ringing) None"] show ?thesis by simp
qed

section \<open>Notices\<close>

lemma tell_frame [simp]:
  "og_notices (tell us x og) = og_notices og @ map (\<lambda>u. (u, x)) us" "og_bus (tell us x og) = og_bus og"
  by (simp_all add: tell_def)

lemma cancel_visit_notices [simp]:
  "og_notices (cancel_visit st c reason recipient d og) = og_notices og" "og_bus (cancel_visit st c reason recipient d og) = og_bus og"
  by (simp_all add: cancel_visit_def Let_def split: option.split)

lemma cancel_notices [simp]:
  "og_notices (dispatchCallCancelledPushes st c reason recipient og) = og_notices og"
  "og_bus (dispatchCallCancelledPushes st c reason recipient og) = og_bus og"
proof -
  have "og_notices (fold (cancel_visit st c reason recipient) ds og) = og_notices og \<and>
      og_bus (fold (cancel_visit st c reason recipient) ds og) = og_bus og" for ds
    by (induction ds arbitrary: og) simp_all
  then show "og_notices (dispatchCallCancelledPushes st c reason recipient og) = og_notices og"
    "og_bus (dispatchCallCancelledPushes st c reason recipient og) = og_bus og"
    by (simp_all add: dispatchCallCancelledPushes_def split: option.split)
qed

lemma settle_notices [simp]:
  "og_notices (updateCallPushState st c previous reason og) = og_notices og"
  "og_bus (updateCallPushState st c previous reason og) = og_bus og"
  by (simp_all add: updateCallPushState_def Let_def clearIncomingCallPushState_def)

lemma leaves_notices [simp]:
  "og_notices (notifyTerminalParticipantLeaves c us og) =
     og_notices og @ concat (map (\<lambda>(v, ps). map (\<lambda>u. (u, Participant_Left (c_id c) v ps)) us) (gone_participants c))"
  "og_bus (notifyTerminalParticipantLeaves c us og) = og_bus og"
proof -
  have "og_notices (fold (\<lambda>(v, ps). tell us (Participant_Left (c_id c) v ps)) xs og) =
      og_notices og @ concat (map (\<lambda>(v, ps). map (\<lambda>u. (u, Participant_Left (c_id c) v ps)) us) xs) \<and>
      og_bus (fold (\<lambda>(v, ps). tell us (Participant_Left (c_id c) v ps)) xs og) = og_bus og" for xs
    by (induction xs arbitrary: og) auto
  then show "og_notices (notifyTerminalParticipantLeaves c us og) =
     og_notices og @ concat (map (\<lambda>(v, ps). map (\<lambda>u. (u, Participant_Left (c_id c) v ps)) us) (gone_participants c))"
    "og_bus (notifyTerminalParticipantLeaves c us og) = og_bus og"
    by (simp_all add: notifyTerminalParticipantLeaves_def)
qed

fun is_state_change :: "string \<times> call_notice \<Rightarrow> bool" where
  "is_state_change (u, State_Changed p st a r c) = True"
| "is_state_change (u, _) = False"

text \<open>What \<open>x\<close> appends: notices to \<open>us\<close> only, none of them a state change.\<close>

definition adds_no_change :: "string list \<Rightarrow> outgoing \<Rightarrow> outgoing \<Rightarrow> bool" where
  "adds_no_change us og og' =
     (\<exists>new. og_notices og' = og_notices og @ new \<and> fst ` set new \<subseteq> set us \<and> filter is_state_change new = [])"

lemma adds_no_changeI:
  "og_notices og' = og_notices og @ new \<Longrightarrow> (\<And>u x. (u, x) \<in> set new \<Longrightarrow> u \<in> set us \<and> \<not> is_state_change (u, x)) \<Longrightarrow>
   adds_no_change us og og'"
  by (auto simp: adds_no_change_def filter_empty_conv)

lemma adds_no_change_trans: "adds_no_change us a b \<Longrightarrow> adds_no_change us b c \<Longrightarrow> adds_no_change us a c"
proof -
  assume "adds_no_change us a b" "adds_no_change us b c"
  then obtain x y where "og_notices c = og_notices a @ (x @ y)" "fst ` set x \<subseteq> set us" "fst ` set y \<subseteq> set us"
    "filter is_state_change x = []" "filter is_state_change y = []" by (auto simp: adds_no_change_def)
  then show ?thesis unfolding adds_no_change_def by (intro exI [where x = "x @ y"]) (simp add: image_Un)
qed

lemma participant_changes_notices:
  "adds_no_change us og (notifyParticipantChanges st c actor reason previous us og)"
  "og_bus (notifyParticipantChanges st c actor reason previous us og) = og_bus og"
proof -
  have 1: "adds_no_change us og og" for og by (rule adds_no_changeI [where new = "[]"]) simp_all
  have 2: "adds_no_change us og (tell us (Participant_Joined k u) og')"
    "adds_no_change us og (tell us (Participant_Left k u ps) og')" if "og_notices og' = og_notices og" for og' k u ps
    by (rule adds_no_changeI, simp add: that, auto)+
  have 3: "adds_no_change us og og'" if "og_notices og' = og_notices og" for og'
    by (rule adds_no_changeI [where new = "[]"]) (simp_all add: that)
  show "adds_no_change us og (notifyParticipantChanges st c actor reason previous us og)"
    by (cases "Option.bind actor (find_participant c)") (simp_all add: notifyParticipantChanges_def Let_def 1 2 3)
  show "og_bus (notifyParticipantChanges st c actor reason previous us og) = og_bus og"
    by (cases "Option.bind actor (find_participant c)") (simp_all add: notifyParticipantChanges_def Let_def)
qed

text \<open>
  A transition is told to the participants of the call and to nobody else: each of them, whatever its
  devices, is sent exactly one state change, with the status, the reason and the record as they now are;
  and the other instances get one message on the bus when there is one and the call is not new.
\<close>

theorem transition_told:
  "\<exists>new. og_notices (notifyCallTransition s c previous actor reason og) = og_notices og @ new \<and>
     fst ` set new \<subseteq> set (call_recipients c) \<and> distinct (call_recipients c) \<and>
     filter is_state_change new = map (\<lambda>u. (u, State_Changed previous (c_status c) actor (coalesce reason (c_end_reason c))
       (callWithParticipants c))) (call_recipients c) \<and>
     og_bus (notifyCallTransition s c previous actor reason og) = og_bus og @
       (if message_bus s \<and> previous \<noteq> None
        then [\<lparr>bm_call = c_id c, bm_previous = the previous, bm_status = c_status c, bm_actor = actor,
               bm_reason = coalesce reason (c_end_reason c)\<rparr>] else [])"
proof -
  let ?us = "call_recipients c" and ?why = "coalesce reason (c_end_reason c)"
  let ?change = "State_Changed previous (c_status c) actor ?why (callWithParticipants c)"
  let ?og2 = "tell ?us ?change (updateCallPushState (stores s) c previous reason og)"
  let ?og3 = "notifyParticipantChanges (stores s) c actor reason previous ?us ?og2"
  let ?og4 = "if terminal (c_status c) then notifyTerminalParticipantLeaves c ?us ?og3 else ?og3"
  let ?og5 = "publishCallTransition (message_bus s) c previous actor ?why ?og4"
  let ?og6 = "notifyCallTransition s c previous actor reason og"
  have "adds_no_change ?us ?og3 ?og4"
    by (cases "terminal (c_status c)") (auto intro!: adds_no_changeI [where new = "[]"] adds_no_changeI [OF leaves_notices(1)])
  moreover have "adds_no_change ?us ?og4 ?og5"
    by (rule adds_no_changeI [where new = "[]"]) (simp_all add: publishCallTransition_def split: option.split)
  moreover have "adds_no_change ?us ?og5 ?og6"
    by (cases "getCallTransitionEventName (c_status c) ?why")
      (auto simp: notifyCallTransition_def Let_def intro!: adds_no_changeI [where new = "[]"] adds_no_changeI [OF tell_frame(1)])
  ultimately have "adds_no_change ?us ?og2 ?og6"
    using participant_changes_notices(1) by (blast intro: adds_no_change_trans)
  then obtain new where new: "og_notices ?og6 = og_notices og @ map (\<lambda>u. (u, ?change)) ?us @ new"
    "fst ` set new \<subseteq> set ?us" "filter is_state_change new = []"
    by (auto simp: adds_no_change_def)
  have "og_bus ?og6 = og_bus ?og5"
    by (simp add: notifyCallTransition_def Let_def split: option.split)
  then have bus: "og_bus ?og6 = og_bus og @ (if message_bus s \<and> previous \<noteq> None
      then [\<lparr>bm_call = c_id c, bm_previous = the previous, bm_status = c_status c, bm_actor = actor, bm_reason = ?why\<rparr>] else [])"
    by (auto simp: publishCallTransition_def participant_changes_notices(2) split: option.split)
  have d: "distinct ?us" by (simp add: call_recipients_def)
  have f: "filter is_state_change (map (\<lambda>u. (u, ?change)) us) = map (\<lambda>u. (u, ?change)) us" for us
    by (induction us) simp_all
  show ?thesis
    by (rule exI [where x = "map (\<lambda>u. (u, ?change)) ?us @ new"]) (use new bus d f in auto)
qed

end
