(* ===== verification/GroupSignaling.thy ===== *)
theory GroupSignaling
  imports GroupMembership
begin

text \<open>
  Relay of media signals inside a group call: \<open>relayGroupCallSignal\<close> of
  \<open>server/src/signaling/callHandlers.ts\<close> and \<open>shared/signaling/groupNegotiation.ts\<close>. A negotiation
  identifier is the JSON text of two pairs; the model keeps the pairs.
\<close>

type_synonym negotiation = "(string \<times> int option) list"

definition groupNegotiationId :: "gparticipant list \<Rightarrow> string \<Rightarrow> string \<Rightarrow> negotiation" where
  "groupNegotiationId ps a b =
     map (\<lambda>u. (u, Option.bind (find (\<lambda>p. gp_user p = u) ps) gp_accepted)) (if a \<le> b then [a, b] else [b, a])"

datatype group_relay = Group_Refused string | Group_Relay string negotiation

definition accepted_participant :: "gparticipant list \<Rightarrow> string \<Rightarrow> bool" where
  "accepted_participant ps u = (map_option gp_status (find (\<lambda>p. gp_user p = u) ps) = Some GP_Accepted)"

text \<open>\<open>None\<close>: the call is not a group call. \<open>peer\<close> is \<open>normaliseId(parsed.peerId)\<close>.\<close>

definition relayGroupCallSignal ::
  "string \<Rightarrow> string \<Rightarrow> string option \<Rightarrow> negotiation option \<Rightarrow> group_store \<Rightarrow> group_relay option" where
  "relayGroupCallSignal k u peer negotiation st =
     (case callChange k st of
        None \<Rightarrow> None
      | Some (c, ps) \<Rightarrow>
          (case peer of
             None \<Rightarrow> Some (Group_Refused ''sender and peer must be active call participants'')
           | Some v \<Rightarrow>
               if v = u \<or> gc_status c \<noteq> GC_Active \<or> \<not> accepted_participant ps u \<or> \<not> accepted_participant ps v \<or>
                  getMember (gc_conv c) u st = None \<or> getMember (gc_conv c) v st = None
               then Some (Group_Refused ''sender and peer must be active call participants'')
               else if negotiation \<noteq> Some (groupNegotiationId ps u v)
               then Some (Group_Refused ''stale group negotiation; refresh call membership'')
               else Some (Group_Relay v (groupNegotiationId ps u v))))"

text \<open>Both peers compute one identifier, and it changes with the admission of either.\<close>

lemma groupNegotiationId_sym: "groupNegotiationId ps a b = groupNegotiationId ps b a"
  by (auto simp: groupNegotiationId_def)

lemma groupNegotiationId_epoch:
  assumes "groupNegotiationId ps a b = groupNegotiationId ps' a b"
  shows "Option.bind (find (\<lambda>p. gp_user p = a) ps) gp_accepted = Option.bind (find (\<lambda>p. gp_user p = a) ps') gp_accepted"
  using assms by (auto simp: groupNegotiationId_def split: if_splits)

end
