(* ===== verification/SignalingHandlers.thy ===== *)
theory SignalingHandlers
  imports SharedCalls CallNotices GroupSignaling
begin

text \<open>
  The socket handlers of calls (\<open>server/src/signaling/callHandlers.ts\<close>, \<open>ack.ts\<close>, the call events of
  \<open>connection/registerSocketHandlers.ts\<close>). A handler takes the request, the instance with the shared store
  and what the instance sends, and gives the acknowledgement with the changed state. The schema of a
  payload is not modelled: \<open>rq_parsed\<close> is its verdict, a message or the fields it lets through. The rate
  limiters, the block list and the database write of a statistics sample are arguments.
\<close>

section \<open>Acknowledgements and guards\<close>

datatype ack_data =
    Ack_Call call_record
  | Ack_Relayed string
  | Ack_Buffered string nat
  | Ack_Device string "string option"
  | Ack_State "string list" "call_description list"

text \<open>A refusal carries the code and the message of \<open>acknowledgeError\<close>.\<close>

datatype reply = Done ack_data | Refused string string

record socket_identity =
  si_user :: string
  si_session :: "string option"
  si_device :: "string option"

record 'p request =
  rq_version :: "int option"
  rq_parsed :: "string + 'p"

definition SUPPORTED_SIGNALING_VERSIONS :: "int list" where "SUPPORTED_SIGNALING_VERSIONS = [2, 3]"

definition guard_refusal :: "socket_identity \<Rightarrow> 'p request \<Rightarrow> reply option" where
  "guard_refusal sk rq =
     (if \<not> str_truthy (si_session sk) then Some (Refused ''unauthorized'' ''a valid session is required'')
      else if \<not> (case rq_version rq of Some v \<Rightarrow> v \<in> set SUPPORTED_SIGNALING_VERSIONS | None \<Rightarrow> False)
      then Some (Refused ''unsupported_version'' ''supported versions are 2, 3'')
      else None)"

text \<open>\<open>requireSocketSession\<close>, \<open>validateSignalingVersion\<close> and \<open>parseInboundPayload\<close>, in this order.\<close>

definition admitted :: "socket_identity \<Rightarrow> 'p request \<Rightarrow> reply + 'p" where
  "admitted sk rq =
     (case guard_refusal sk rq of
        Some r \<Rightarrow> Inl r
      | None \<Rightarrow> (case rq_parsed rq of Inl msg \<Rightarrow> Inl (Refused ''bad_request'' msg) | Inr p \<Rightarrow> Inr p))"

definition normaliseId :: "string option \<Rightarrow> string option" where
  "normaliseId v = (case v of None \<Rightarrow> None | Some x \<Rightarrow> if trim x = '''' then None else Some (trim x))"

type_synonym hub = "node \<times> outgoing"

section \<open>Transitions\<close>

record call_payload =
  cp_call :: string
  cp_ice :: "string option"

text \<open>What distinguishes the events that share \<open>handleSocketCallTransition\<close>.\<close>

record transition_options =
  to_authorize :: "call_record \<Rightarrow> string \<Rightarrow> string option \<Rightarrow> (string \<times> string) option"
  to_resolve :: "call_payload \<Rightarrow> call_status \<times> string option"
  to_success :: "call_record \<Rightarrow> string option \<Rightarrow> server_state \<Rightarrow> server_state"

definition handleSocketCallTransition ::
  "env \<Rightarrow> transition_options \<Rightarrow> socket_identity \<Rightarrow> call_payload request \<Rightarrow> hub \<Rightarrow> reply \<times> hub" where
  "handleSocketCallTransition e opt sk rq = (\<lambda>((s0, r0), og).
     case admitted sk rq of
       Inl refusal \<Rightarrow> (refusal, ((s0, r0), og))
     | Inr p \<Rightarrow>
         (case hydrateCallFromShared e (cp_call p) DEFAULT_CALL_STATE_FRESHNESS_MS (s0, r0) of
            (None, s) \<Rightarrow> (Refused ''call_not_found'' ''call not found'', ((s, r0), og))
          | (Some c, s) \<Rightarrow>
              (let u = si_user sk; dev = normaliseId (si_device sk)
               in case to_authorize opt c u dev of
                    Some (code, msg) \<Rightarrow> (Refused code msg, ((s, r0), og))
                  | None \<Rightarrow>
                      (let (to, reason) = to_resolve opt p
                       in case transitionCallWithShared e (cp_call p) to (Some u) reason dev (s, r0) of
                            (Inl f, n) \<Rightarrow>
                              (Refused (if f_error f = ''stale_call_state'' then ''stale_call_state'' else ''invalid_state'')
                                 (if str_truthy (f_message f) then the (f_message f) else f_error f), (n, og))
                          | (Inr (c', stale), (s1, r1)) \<Rightarrow>
                              (let og1 = (if \<not> stale \<and> c_status c \<noteq> c_status c'
                                          then notifyCallTransition s1 c' (Some (c_status c)) (Some u) reason og else og);
                                   s2 = snd (flushBufferedRtcSignals (cp_call p) (c_status c') s1);
                                   s3 = to_success opt c' reason s2
                               in (Done (Ack_Call (callWithParticipants c')), ((s3, r1), og1)))))))"

definition joined_or_party :: "call_record \<Rightarrow> string \<Rightarrow> bool" where
  "joined_or_party c u =
     (case c_parts c of
        Some ps \<Rightarrow> \<exists>p \<in> set ps. p_user p = u \<and> p_state p = P_Joined
      | None \<Rightarrow> c_caller c = u \<or> c_callee c = u)"

text \<open>\<open>call.cancel\<close> and \<open>call.connected\<close>.\<close>

definition cancel_options :: transition_options where
  "cancel_options =
     \<lparr>to_authorize = (\<lambda>c u dev.
        if c_caller c \<noteq> u then Some (''forbidden'', ''only the caller can cancel a call'')
        else if isCallOwnedByAnotherDevice c u dev then Some (''forbidden'', ''this call is active on another device'')
        else None),
      to_resolve = (\<lambda>_. (Ended, Some ''cancelled'')),
      to_success = (\<lambda>_ _ s. s)\<rparr>"

definition connected_options :: "env \<Rightarrow> socket_identity \<Rightarrow> transition_options" where
  "connected_options e sk =
     \<lparr>to_authorize = (\<lambda>c u _.
        if \<not> joined_or_party c u then Some (''forbidden'', ''not a participant in this call'')
        else if isCallOwnedByAnotherDevice c u (si_device sk)
        then Some (''forbidden'', ''this call is active on another device'')
        else None),
      to_resolve = (\<lambda>p. let ice = (case cp_ice p of Some x \<Rightarrow> x | None \<Rightarrow> ''connected'')
                        in if ice = ''disconnected'' \<or> ice = ''failed'' then (Ended, Some ''media_failed'') else (In_Call, None)),
      to_success = (\<lambda>c reason s. if reason \<noteq> Some ''media_failed'' then snd (recordCallHeartbeat (c_id c) (now e) s) else s)\<rparr>"

definition handleCallConnected :: "env \<Rightarrow> socket_identity \<Rightarrow> call_payload request \<Rightarrow> hub \<Rightarrow> reply \<times> hub" where
  "handleCallConnected e sk = handleSocketCallTransition e (connected_options e sk) sk"

definition handleCallCancel :: "env \<Rightarrow> socket_identity \<Rightarrow> call_payload request \<Rightarrow> hub \<Rightarrow> reply \<times> hub" where
  "handleCallCancel e sk = handleSocketCallTransition e cancel_options sk"

section \<open>Participant actions\<close>

definition rejectActionFromNonOwnerDevice ::
  "participant_action \<Rightarrow> call_record \<Rightarrow> string \<Rightarrow> string option \<Rightarrow> bool" where
  "rejectActionFromNonOwnerDevice act c u dev = (act \<noteq> Decline \<and> isCallOwnedByAnotherDevice c u dev)"

fun action_reason :: "participant_action \<Rightarrow> string option" where
  "action_reason Decline = Some ''declined''"
| "action_reason Leave = Some ''user_hangup''"
| "action_reason Join = None"

definition handleSocketParticipantAction ::
  "env \<Rightarrow> participant_action \<Rightarrow> socket_identity \<Rightarrow> call_payload request \<Rightarrow> hub \<Rightarrow> reply \<times> hub" where
  "handleSocketParticipantAction e act sk rq = (\<lambda>((s0, r0), og).
     case admitted sk rq of
       Inl refusal \<Rightarrow> (refusal, ((s0, r0), og))
     | Inr p \<Rightarrow>
         (let u = si_user sk; dev = normaliseId (si_device sk)
          in case hydrateCallFromShared e (cp_call p) DEFAULT_CALL_STATE_FRESHNESS_MS (s0, r0) of
               (None, s) \<Rightarrow> (Refused ''call_not_found'' ''call not found'', ((s, r0), og))
             | (Some c, s) \<Rightarrow>
                 if rejectActionFromNonOwnerDevice act c u dev
                 then (Refused ''answered_elsewhere'' ''this call is active on another device'', ((s, r0), og))
                 else (case participantActionWithShared e (cp_call p) u act dev (s, r0) of
                         (Inl f, n) \<Rightarrow>
                           (Refused (if f_status f = 403 then ''forbidden'' else ''invalid_state'')
                              (case f_message f of Some m \<Rightarrow> m | None \<Rightarrow> f_error f), (n, og))
                       | (Inr (c', stale), (s1, r1)) \<Rightarrow>
                           if stale then (Done (Ack_Call (callWithParticipants c')), ((s1, r1), og))
                           else (Done (Ack_Call (callWithParticipants c')),
                                 ((snd (flushBufferedRtcSignals (cp_call p) (c_status c') s1), r1),
                                  notifyCallTransition s1 c' (Some (c_status c)) (Some u) (action_reason act) og)))))"

section \<open>Media signals\<close>

text \<open>\<open>rp_negotiation\<close> is the identifier the request names, when it is one.\<close>

record rtc_payload =
  rp_call :: string
  rp_peer :: "string option"
  rp_value :: string
  rp_heartbeat :: bool
  rp_negotiation :: "negotiation option"

record rtc_options =
  ro_event :: string
  ro_key :: string
  ro_beats :: bool

definition all_members :: "call_record \<Rightarrow> string list" where
  "all_members c = (case c_parts c of Some ps \<Rightarrow> map p_user ps | None \<Rightarrow> [c_caller c, c_callee c])"

definition active_members :: "call_record \<Rightarrow> string list" where
  "active_members c =
     (case c_parts c of Some ps \<Rightarrow> map p_user (filter (\<lambda>p. active_state (p_state p)) ps) | None \<Rightarrow> all_members c)"

definition isRtcPeerAllowed :: "call_record \<Rightarrow> string \<Rightarrow> string option \<Rightarrow> bool" where
  "isRtcPeerAllowed c u peer =
     (u \<in> set (all_members c) \<and> str_truthy peer \<and> peer \<noteq> Some u \<and> the peer \<in> set (all_members c) \<and>
      (terminal (c_status c) \<or> the peer \<in> set (active_members c)))"

definition resolveCallPeerId :: "call_record \<Rightarrow> string \<Rightarrow> string option \<Rightarrow> string option" where
  "resolveCallPeerId c u requested =
     (let peer = coalesce requested
                   (find (\<lambda>v. v \<noteq> u) (if terminal (c_status c) then all_members c else active_members c))
      in if isRtcPeerAllowed c u peer then peer else None)"

text \<open>The first signal of an accepted call moves it on and releases what was buffered.\<close>

definition promoteToConnectingMedia :: "env \<Rightarrow> string \<Rightarrow> string \<Rightarrow> hub \<Rightarrow> hub" where
  "promoteToConnectingMedia e cid u = (\<lambda>(n, og).
     case transitionCallWithShared e cid Connecting_Media (Some u) None None n of
       (Inl f, n1) \<Rightarrow> (n1, og)
     | (Inr (c', stale), (s1, r1)) \<Rightarrow>
         ((snd (flushBufferedRtcSignals cid (c_status c') s1), r1),
          if \<not> stale \<and> c_status c' \<noteq> Accepted then notifyCallTransition s1 c' (Some Accepted) (Some u) None og else og))"

definition relayRtcSignalToPeer :: "rtc_options \<Rightarrow> string \<Rightarrow> string \<Rightarrow> string \<Rightarrow> string \<Rightarrow> server_state \<Rightarrow> server_state" where
  "relayRtcSignalToPeer opt cid u peer v s =
     emit [Relay_Signal peer cid \<lparr>sg_event = ro_event opt, sg_data_key = ro_key opt, sg_from = u, sg_to = peer, sg_value = v\<rparr>] s"

text \<open>
  \<open>allowed\<close> is the verdict of the rate limiter, \<open>gst\<close> the conversation store. A signal inside a group call
  leaves the two stores of direct calls alone; what it relays is the answer of \<open>relayGroupCallSignal\<close>.
\<close>

definition handleRtcRelay ::
  "env \<Rightarrow> bool \<Rightarrow> group_store \<Rightarrow> rtc_options \<Rightarrow> socket_identity \<Rightarrow> rtc_payload request \<Rightarrow> hub \<Rightarrow> reply \<times> hub" where
  "handleRtcRelay e allowed gst opt sk rq = (\<lambda>((s0, r0), og).
     case guard_refusal sk rq of
       Some refusal \<Rightarrow> (refusal, ((s0, r0), og))
     | None \<Rightarrow>
         if \<not> allowed then (Refused ''rate_limited'' ''too many signaling events'', ((s0, r0), og))
         else (case rq_parsed rq of
           Inl msg \<Rightarrow> (Refused ''bad_request'' msg, ((s0, r0), og))
         | Inr p \<Rightarrow>
             (case hydrateCallFromShared e (rp_call p) DEFAULT_CALL_STATE_FRESHNESS_MS (s0, r0) of
                (None, s) \<Rightarrow>
                  ((case relayGroupCallSignal (rp_call p) (si_user sk) (normaliseId (rp_peer p)) (rp_negotiation p) gst of
                      None \<Rightarrow> Refused ''call_not_found'' ''call not found''
                    | Some (Group_Refused msg) \<Rightarrow> Refused ''forbidden'' msg
                    | Some (Group_Relay peer n) \<Rightarrow> Done (Ack_Relayed (rp_call p))), ((s, r0), og))
              | (Some c, s) \<Rightarrow>
                  (case resolveCallPeerId c (si_user sk) (rp_peer p) of
                     None \<Rightarrow> (Refused ''forbidden'' ''sender or peer is not a participant in this call'', ((s, r0), og))
                   | Some peer \<Rightarrow>
                       (let (current, s1) =
                              (if c_status c \<in> set RTC_ACTIVE_CALL_STATES then (c, s)
                               else (case hydrateCallFromShared e (rp_call p) 0 (s, r0) of
                                       (fresh, s') \<Rightarrow> (case fresh of Some c' \<Rightarrow> c' | None \<Rightarrow> c, s')))
                        in if c_status current \<notin> set RTC_ACTIVE_CALL_STATES
                           then (case holdOrRejectRtcSignal (ro_event opt) (ro_key opt) (si_user sk) (rp_value p) current (rp_call p) s1 of
                                   (Some n, s2) \<Rightarrow> (Done (Ack_Buffered (rp_call p) n), ((s2, r0), og))
                                 | (None, s2) \<Rightarrow>
                                     (Refused ''stale_call_state''
                                        (''call is not ready for RTC in state: '' @ status_text (c_status current)), ((s2, r0), og)))
                           else
                             (let ((s2, r2), og2) = (if c_status current = Accepted
                                    then promoteToConnectingMedia e (rp_call p) (si_user sk) ((s1, r0), og)
                                    else ((s1, r0), og));
                                  s3 = (if ro_beats opt \<and> rp_heartbeat p
                                        then snd (recordCallHeartbeat (rp_call p) (now e) s2) else s2)
                              in (Done (Ack_Relayed (rp_call p)),
                                  ((relayRtcSignalToPeer opt (rp_call p) (si_user sk) peer (rp_value p) s3, r2), og2))))))))"

section \<open>Statistics, acknowledgements and reports\<close>

text \<open>\<open>stored\<close> says whether the sample could be written.\<close>

definition handleCallStats ::
  "env \<Rightarrow> bool \<Rightarrow> bool \<Rightarrow> socket_identity \<Rightarrow> call_payload request \<Rightarrow> hub \<Rightarrow> reply \<times> hub" where
  "handleCallStats e allowed stored sk rq = (\<lambda>((s0, r0), og).
     case guard_refusal sk rq of
       Some refusal \<Rightarrow> (refusal, ((s0, r0), og))
     | None \<Rightarrow>
         if \<not> allowed then (Refused ''rate_limited'' ''too many call statistics reports'', ((s0, r0), og))
         else (case rq_parsed rq of
           Inl msg \<Rightarrow> (Refused ''bad_request'' msg, ((s0, r0), og))
         | Inr p \<Rightarrow>
             (case hydrateCallFromShared e (cp_call p) DEFAULT_CALL_STATE_FRESHNESS_MS (s0, r0) of
                (None, s) \<Rightarrow> (Refused ''call_not_found'' ''call not found'', ((s, r0), og))
              | (Some c, s) \<Rightarrow>
                  ((if \<not> joined_or_party c (si_user sk) then Refused ''forbidden'' ''not a participant in this call''
                    else if c_status c \<notin> set RTC_ACTIVE_CALL_STATES then Refused ''forbidden'' ''call is not active''
                    else if \<not> stored then Refused ''internal_error'' ''could not record call statistics''
                    else Done (Ack_Relayed (c_id c))), ((s, r0), og)))))"

record ack_payload =
  ap_call :: string
  ap_device :: "string option"

definition handleIncomingAck :: "socket_identity \<Rightarrow> ack_payload request \<Rightarrow> hub \<Rightarrow> reply \<times> hub" where
  "handleIncomingAck sk rq = (\<lambda>((s, r), og).
     case admitted sk rq of
       Inl refusal \<Rightarrow> (refusal, ((s, r), og))
     | Inr p \<Rightarrow>
         (let dev = (if str_truthy (normaliseId (ap_device p)) then normaliseId (ap_device p) else si_device sk);
              og1 = snd (markIncomingCallAcknowledged (Some (ap_call p)) dev og)
          in (Done (Ack_Device (ap_call p) dev),
              ((s, r), notifyIncomingCallAcknowledged s (Some (ap_call p)) (Some (si_user sk)) og1))))"

text \<open>\<open>onTransition\<close> runs inside the loops; each of its calls is an effect of the loop.\<close>

fun run_callback :: "server_state \<Rightarrow> string option \<Rightarrow> effect \<Rightarrow> outgoing \<Rightarrow> outgoing" where
  "run_callback s actor (Notify_Transition c previous reason) og = notifyCallTransition s c (Some previous) actor (Some reason) og"
| "run_callback s actor _ og = og"

definition run_callbacks :: "server_state \<Rightarrow> server_state \<Rightarrow> string option \<Rightarrow> outgoing \<Rightarrow> outgoing" where
  "run_callbacks before after actor og = fold (run_callback after actor) (drop (length (outbox before)) (outbox after)) og"

text \<open>\<open>call.state_report\<close>: \<open>claimed\<close> are the identifiers of \<open>normaliseReportedActiveCallIds\<close>.\<close>

definition normaliseReportedActiveCallIds :: "string list option \<Rightarrow> string option \<Rightarrow> string list" where
  "normaliseReportedActiveCallIds ids single =
     List.map_filter normaliseId (case ids of Some xs \<Rightarrow> map Some xs | None \<Rightarrow> [single])"

record report_payload =
  rt_ids :: "string list option"
  rt_single :: "string option"

definition handleStateReport :: "env \<Rightarrow> socket_identity \<Rightarrow> report_payload request \<Rightarrow> hub \<Rightarrow> reply \<times> hub" where
  "handleStateReport e sk rq = (\<lambda>((s, r), og).
     case admitted sk rq of
       Inl refusal \<Rightarrow> (refusal, ((s, r), og))
     | Inr p \<Rightarrow>
         (let u = si_user sk;
              (s1, cleared) = reconcileClientCallState e u (normaliseReportedActiveCallIds (rt_ids p) (rt_single p)) (si_device sk) s
          in (Done (Ack_State (map c_id cleared) (describeActiveCallsForUser (now e) (now e) u s1)),
              ((s1, r), run_callbacks s s1 (Some u) og))))"

section \<open>Placing a call\<close>

record initiate_payload =
  ip_callee :: string
  ip_media :: media_type

text \<open>
  \<open>blocked\<close> is the callee's block list, \<open>allowed\<close> the rate limiter, \<open>ok\<close> which refreshes of the shared
  store succeed and \<open>ringing\<close> the ring window. The acknowledgement goes out before the notices.
\<close>

definition handleCallInitiate ::
  "env \<Rightarrow> int option \<Rightarrow> bool \<Rightarrow> bool \<Rightarrow> (string \<Rightarrow> bool) \<Rightarrow> int \<Rightarrow> socket_identity \<Rightarrow> initiate_payload request \<Rightarrow> hub \<Rightarrow>
   (string + reply) \<times> hub" where
  "handleCallInitiate e configured blocked allowed ok ringing sk rq = (\<lambda>((s, r), og).
     case admitted sk rq of
       Inl refusal \<Rightarrow> (Inr refusal, ((s, r), og))
     | Inr p \<Rightarrow>
         if ip_callee p = si_user sk then (Inr (Refused ''bad_request'' ''cannot call yourself''), ((s, r), og))
         else if blocked then (Inr (Refused ''blocked'' ''you are blocked by this user''), ((s, r), og))
         else if \<not> allowed then (Inr (Refused ''rate_limited'' ''too many call attempts''), ((s, r), og))
         else
           (case placeCallWithShared e ok \<lparr>pa_caller = si_user sk, pa_callee = ip_callee p, pa_callees = None,
                   pa_ringing_ms = ringing, pa_device = si_device sk, pa_media = ip_media p\<rparr> (s, r) of
              (Inl err, (s1, r1)) \<Rightarrow> (Inl err, ((s1, r1), run_callbacks s s1 (Some (si_user sk)) og))
            | (Inr (Call_In_Progress c peer), n1) \<Rightarrow>
                (Inr (Refused ''call_in_progress'' ''you are already in a call''), (n1, og))
            | (Inr (Placed c superseded), (s1, r1)) \<Rightarrow>
                (Inr (Done (Ack_Call (callWithParticipants c))),
                 ((s1, r1), notifyCallCreated e configured s1 c (run_callbacks s s1 (Some (si_user sk)) og)))))"

section \<open>A lost socket\<close>

text \<open>The disconnection and, after the grace period, its callback.\<close>

definition handleDisconnect :: "int \<Rightarrow> string \<Rightarrow> string \<Rightarrow> string option \<Rightarrow> hub \<Rightarrow> hub" where
  "handleDisconnect nw u socket dev = (\<lambda>((s, r), og).
     let s1 = s\<lparr>stores := removeConnection nw u socket (stores s)\<rparr>
     in ((s1, r), notifyRingingCallsForDisconnectedDevice nw s1 (Some u) dev og))"

definition disconnect_grace_over :: "env \<Rightarrow> string \<Rightarrow> hub \<Rightarrow> hub" where
  "disconnect_grace_over e u = (\<lambda>((s, r), og).
     let s1 = fst (endCallsForDisconnectedParticipant e u ''participant_disconnected'' s)
     in ((s1, r), run_callbacks s s1 None og))"

end
