(* ===== verification/HandlerProperties.thy ===== *)
theory HandlerProperties
  imports SignalingHandlers SharedProperties
begin

text \<open>
  What the socket handlers promise: a request of somebody who is not in the call is refused and leaves
  everything as it was, and what the handlers do to the registry is a sequence of the operations whose
  properties \<open>CallProperties\<close> states.
\<close>

section \<open>All handlers\<close>

text \<open>
  An event with the verdicts of the collaborators it consults. An answer that is no \<open>reply\<close> is the
  exception of \<open>createCallRecord\<close>.
\<close>

datatype client_event =
    On_Cancel "call_payload request"
  | On_Connected "call_payload request"
  | On_Action participant_action "call_payload request"
  | On_Rtc bool rtc_options "rtc_payload request"
  | On_Stats bool bool "call_payload request"
  | On_Incoming_Ack "ack_payload request"
  | On_Report "report_payload request"
  | On_Initiate "int option" bool bool "string \<Rightarrow> bool" int "initiate_payload request"

fun serve :: "env \<Rightarrow> group_store \<Rightarrow> socket_identity \<Rightarrow> client_event \<Rightarrow> hub \<Rightarrow> (string + reply) \<times> hub" where
  "serve e gst sk (On_Cancel rq) h = apfst Inr (handleCallCancel e sk rq h)"
| "serve e gst sk (On_Connected rq) h = apfst Inr (handleCallConnected e sk rq h)"
| "serve e gst sk (On_Action act rq) h = apfst Inr (handleSocketParticipantAction e act sk rq h)"
| "serve e gst sk (On_Rtc allowed opt rq) h = apfst Inr (handleRtcRelay e allowed gst opt sk rq h)"
| "serve e gst sk (On_Stats allowed stored rq) h = apfst Inr (handleCallStats e allowed stored sk rq h)"
| "serve e gst sk (On_Incoming_Ack rq) h = apfst Inr (handleIncomingAck sk rq h)"
| "serve e gst sk (On_Report rq) h = apfst Inr (handleStateReport e sk rq h)"
| "serve e gst sk (On_Initiate cfg blocked allowed ok ringing rq) h = handleCallInitiate e cfg blocked allowed ok ringing sk rq h"

section \<open>The registry under the handlers\<close>

text \<open>Operations of the registry, between which signals are buffered and effects recorded.\<close>

definition quiet_change :: "server_state \<Rightarrow> server_state \<Rightarrow> bool" where
  "quiet_change s t = (t = s\<lparr>pending_rtc := pending_rtc t, outbox := outbox t\<rparr>)"

definition registry_evolves :: "server_state \<Rightarrow> server_state \<Rightarrow> bool" where
  "registry_evolves = (\<lambda>s t. registry_step s t \<or> quiet_change s t)\<^sup>*\<^sup>*"

lemma evolves_refl [simp, intro]: "registry_evolves s s"
  by (simp add: registry_evolves_def)

lemma evolves_step: "registry_step s t \<Longrightarrow> registry_evolves s t"
  by (auto simp: registry_evolves_def)

lemma evolves_quiet: "quiet_change s t \<Longrightarrow> registry_evolves s t"
  by (auto simp: registry_evolves_def)

lemma evolves_trans: "registry_evolves s t \<Longrightarrow> registry_evolves t u \<Longrightarrow> registry_evolves s u"
  unfolding registry_evolves_def by (rule rtranclp_trans)

lemma quiet_get: "quiet_change s t \<Longrightarrow> get_call t = get_call s"
  unfolding quiet_change_def by (metis get_call_field(4,6))

lemma quiet_wf:
  assumes "quiet_change s t" and "wf_registry s"
  shows "wf_registry t"
proof -
  from assms(1) obtain p out where "t = s\<lparr>pending_rtc := p, outbox := out\<rparr>" by (auto simp: quiet_change_def)
  with assms(2) show ?thesis by (simp add: wf_registry_def has_log_def)
qed

lemma evolves_entry:
  assumes "registry_evolves s t" and "wf_registry s"
  shows "wf_registry t \<and> entry_step\<^sup>*\<^sup>* (get_call s k) (get_call t k)"
  using assms unfolding registry_evolves_def
proof (induction rule: rtranclp_induct)
  case base
  then show ?case by simp
next
  case (step t u)
  then have w: "wf_registry t" and e: "entry_step\<^sup>*\<^sup>* (get_call s k) (get_call t k)" by simp_all
  from step.hyps(2) show ?case
  proof
    assume r: "registry_step t u"
    from e step_entry [OF r w] have "entry_step\<^sup>*\<^sup>* (get_call s k) (get_call u k)" by (rule rtranclp.rtrancl_into_rtrancl)
    with step_wf [OF r w] show ?thesis by simp
  next
    assume "quiet_change t u"
    with w e show ?thesis by (simp add: quiet_get quiet_wf)
  qed
qed

lemma quiet_refl [simp]: "quiet_change s s"
  by (simp add: quiet_change_def)

lemma quiet_emit [simp]: "quiet_change s (emit es s)"
  by (cases s) (simp add: quiet_change_def emit_def)

lemma quiet_buffer [simp]: "quiet_change s (snd (bufferRtcSignal cid sg s))"
  by (cases s) (simp add: bufferRtcSignal_def Let_def quiet_change_def emit_def)

lemma quiet_flush [simp]: "quiet_change s (snd (flushBufferedRtcSignals cid st s))"
  by (cases s) (simp add: flushBufferedRtcSignals_def discardBufferedRtcSignals_def Let_def quiet_change_def emit_def)

lemma quiet_hold [simp]: "quiet_change s (snd (holdOrRejectRtcSignal ev key u v c cid s))"
proof -
  obtain b t where t: "bufferRtcSignal cid (heldSignal ev key u v c) s = (b, t)" by fastforce
  then have "quiet_change s t" using quiet_buffer [of s cid "heldSignal ev key u v c"] by (simp only: snd_conv)
  then show ?thesis by (simp add: holdOrRejectRtcSignal_def t split: bool.split)
qed

section \<open>One instance\<close>

lemma hydrate_single [simp]: "\<not> call_state s \<Longrightarrow> hydrateCallFromShared e cid ma (s, r) = (get_call s cid, s)"
  by (simp add: hydrateCallFromShared_def)

lemma persist_single [simp]: "\<not> call_state s \<Longrightarrow> persistCallToShared e c (s, r) = (s, r)"
  by (simp add: persistCallToShared_def)

text \<open>A transition, an action: the registry evolves, the shared store is not touched.\<close>

definition evolves_alone :: "server_state \<times> shared_store \<Rightarrow> server_state \<times> shared_store \<Rightarrow> bool" where
  "evolves_alone n n' = (registry_evolves (fst n) (fst n') \<and> snd n' = snd n \<and> \<not> call_state (fst n'))"

lemma transition_single:
  assumes "\<not> call_state s"
  shows "evolves_alone (s, r) (snd (transitionCallWithShared e cid to actor reason dev (s, r)))"
proof -
  obtain res t where t: "transitionCall e cid to actor reason dev s = (res, t)" by fastforce
  then have "registry_evolves s t" "\<not> call_state t"
    using evolves_step [OF step_transition [OF t]] transitionCall_frame [of e cid to actor reason dev s] assms by simp_all
  then show ?thesis
    using assms t by (auto simp: evolves_alone_def transitionCallWithShared_def split: option.split sum.split)
qed

lemma update_participant_call_state [simp]: "call_state (updateCallParticipant e c u ps dev mirror s) = call_state s"
  by (simp add: update_participant_frame)

lemma action_single:
  assumes "\<not> call_state s"
  shows "evolves_alone (s, r) (snd (participantActionWithShared e cid u act dev (s, r)))"
proof (cases "get_call s cid")
  case None
  then show ?thesis using assms by (simp add: participantActionWithShared_def evolves_alone_def)
next
  case (Some c)
  show ?thesis
  proof (cases "validateParticipantAction c u act")
    case (Some res)
    then show ?thesis using assms \<open>get_call s cid = Some c\<close> by (simp add: participantActionWithShared_def evolves_alone_def)
  next
    case None
    let ?t = "updateCallParticipant e c u (action_state act) dev False s"
    have "\<not> terminal (c_status c)" using None by (simp add: validateParticipantAction_def split: if_splits)
    moreover have "action_state act \<in> {P_Joined, P_Left, P_Declined, P_Missed}" by (cases act) simp_all
    ultimately have "registry_evolves s ?t" by (intro evolves_step step_participant [OF Some]) simp_all
    moreover have "evolves_alone (?t, r) (snd (transitionCallWithShared e cid to actor reason dev' (?t, r)))" for to actor reason dev'
      by (rule transition_single) (simp add: assms)
    ultimately have "evolves_alone (s, r) (snd (transitionCallWithShared e cid to actor reason dev' (?t, r)))"
      "evolves_alone (s, r) (?t, r)" for to actor reason dev'
      using assms by (auto simp: evolves_alone_def intro: evolves_trans)
    then show ?thesis
      using assms by (auto simp: participantActionWithShared_def Some None Let_def joinParticipantOnCall_def
          finishCallAfterParticipantAction_def)
  qed
qed

definition hub_evolves :: "hub \<Rightarrow> hub \<Rightarrow> bool" where
  "hub_evolves h h' = evolves_alone (fst h) (fst h')"

lemma alone_refl: "\<not> call_state s \<Longrightarrow> evolves_alone (s, r) (s, r)"
  by (simp add: evolves_alone_def)

lemma alone_quiet:
  assumes "evolves_alone n (t, r)" and "quiet_change t u"
  shows "evolves_alone n (u, r)"
proof -
  have "call_state u = call_state t" using assms(2) by (metis quiet_change_def server_state.select_convs(7) server_state.surjective server_state.update_convs(9,11))
  with assms show ?thesis using evolves_quiet [OF assms(2)] by (auto simp: evolves_alone_def intro: evolves_trans)
qed

lemma alone_heartbeat:
  assumes "evolves_alone n (t, r)"
  shows "evolves_alone n (snd (recordCallHeartbeat cid nw t), r)"
proof -
  obtain b u where u: "recordCallHeartbeat cid nw t = (b, u)" by fastforce
  moreover have "call_state u = call_state t"
    using u by (auto simp: recordCallHeartbeat_def Let_def split: option.splits if_splits)
  ultimately show ?thesis
    using assms evolves_step [OF step_heartbeat [OF u]] by (auto simp: evolves_alone_def intro: evolves_trans)
qed

lemma alone_trans: "evolves_alone a b \<Longrightarrow> evolves_alone b c \<Longrightarrow> evolves_alone a c"
  by (auto simp: evolves_alone_def intro: evolves_trans)

lemma transition_handler_single:
  assumes "\<not> call_state s" and "\<And>c reason n t r. evolves_alone n (t, r) \<Longrightarrow> evolves_alone n (to_success opt c reason t, r)"
  shows "evolves_alone (s, r) (fst (snd (handleSocketCallTransition e opt sk rq ((s, r), og))))"
proof -
  have step: "evolves_alone (s, r) n" if "transitionCallWithShared e cid to actor reason dev (s, r) = (res, n)"
    for cid to actor reason dev res n
    using transition_single [OF assms(1), of r e cid to actor reason dev] that by simp
  show ?thesis
    using assms(1)
    by (auto simp: handleSocketCallTransition_def alone_refl Let_def split: sum.split option.split prod.split
        dest!: step intro!: assms(2) alone_quiet [OF _ quiet_flush])
qed

lemma action_handler_single:
  assumes "\<not> call_state s"
  shows "evolves_alone (s, r) (fst (snd (handleSocketParticipantAction e act sk rq ((s, r), og))))"
proof -
  have step: "evolves_alone (s, r) n" if "participantActionWithShared e cid u act dev (s, r) = (res, n)" for cid u dev res n
    using action_single [OF assms, of r e cid u act dev] that by simp
  show ?thesis
    using assms
    by (auto simp: handleSocketParticipantAction_def alone_refl Let_def split: sum.split option.split prod.split
        dest!: step intro!: alone_quiet [OF _ quiet_flush])
qed

lemma promote_single:
  assumes "\<not> call_state s"
  shows "evolves_alone (s, r) (fst (promoteToConnectingMedia e cid u ((s, r), og)))"
proof -
  have step: "evolves_alone (s, r) n" if "transitionCallWithShared e cid to actor reason dev (s, r) = (res, n)"
    for to actor reason dev res n
    using transition_single [OF assms, of r e cid to actor reason dev] that by simp
  show ?thesis
    by (auto simp: promoteToConnectingMedia_def split: sum.split prod.split dest!: step intro!: alone_quiet [OF _ quiet_flush])
qed

lemma relay_quiet [simp]: "quiet_change s (relayRtcSignalToPeer opt cid u peer v s)"
  by (simp add: relayRtcSignalToPeer_def)

lemma hold_single:
  "\<not> call_state s \<Longrightarrow> holdOrRejectRtcSignal ev key u v c cid s = (x, t) \<Longrightarrow> evolves_alone (s, r) (t, r)"
  by (rule alone_quiet [OF alone_refl]) (use quiet_hold [of s ev key u v c cid] in simp_all)

lemma rtc_handler_single:
  assumes "\<not> call_state s"
  shows "evolves_alone (s, r) (fst (snd (handleRtcRelay e allowed gst opt sk rq ((s, r), og))))"
proof -
  have step: "evolves_alone (s, r) (t, r')" if "promoteToConnectingMedia e cid u ((s, r), og) = ((t, r'), og')" for cid u t r' og'
    using promote_single [OF assms, of r e cid u og] that by simp
  show ?thesis
    using assms
    by (auto simp: handleRtcRelay_def alone_refl Let_def split: sum.split option.split prod.split
        dest!: step dest: hold_single intro!: alone_quiet [OF _ relay_quiet] alone_heartbeat)
qed

lemma close_calls_call_state [simp]: "call_state (fst (close_calls e cond reason cs s)) = call_state s"
proof -
  have v: "call_state (fst (close_visit e cond reason cid a)) = call_state (fst a)" for cid a
    by (simp add: close_visit_def split: prod.split option.split)
  have "call_state (fst (fold (close_visit e cond reason) ks a)) = call_state (fst a)" for ks a
    by (induction ks arbitrary: a) (simp_all add: v)
  then show ?thesis by (simp add: close_calls_def)
qed

lemma close_calls_keys:
  "get_call s k = None \<Longrightarrow> get_call (fst (close_calls e cond reason cs s)) k = None"
proof -
  have v: "get_call (fst a) k = None \<Longrightarrow> get_call (fst (close_visit e cond reason cid a)) k = None" for cid a
    by (cases a) (auto simp: close_visit_def split: option.split)
  have "get_call (fst a) k = None \<Longrightarrow> get_call (fst (fold (close_visit e cond reason) ks a)) k = None" for ks a
    by (induction ks arbitrary: a) (simp_all add: v)
  then show "get_call s k = None \<Longrightarrow> ?thesis" by (simp add: close_calls_def)
qed

lemma report_handler_single:
  assumes "\<not> call_state s"
  shows "evolves_alone (s, r) (fst (snd (handleStateReport e sk rq ((s, r), og))))"
proof -
  have step: "evolves_alone (s, r) (t, r)" if t: "reconcileClientCallState e u claimed dev s = (t, cs)" for u claimed dev t cs
  proof -
    have "call_state t = call_state s"
      using t by (auto simp: reconcileClientCallState_def split: if_splits) (metis close_calls_call_state fst_conv)+
    then show ?thesis using evolves_step [OF step_reconcile [OF t]] assms by (simp add: evolves_alone_def)
  qed
  show ?thesis
    using assms by (auto simp: handleStateReport_def alone_refl Let_def split: sum.split prod.split dest: step)
qed

lemma refresh_single [simp]: "\<not> call_state s \<Longrightarrow> refreshActiveCallsForUser e ok u (s, r) = (s, r)"
  by (simp add: refreshActiveCallsForUser_def)

lemma refresh_fold_single [simp]: "\<not> call_state s \<Longrightarrow> fold (\<lambda>u. refreshActiveCallsForUser e (ok u) u) us (s, r) = (s, r)"
  by (induction us) simp_all

lemma persist_fold_single [simp]: "\<not> call_state s \<Longrightarrow> fold (persistCallToShared e) cs (s, r) = (s, r)"
  by (induction cs) simp_all

lemma create_call_state: "createCallRecord e a s = Inr (c, t) \<Longrightarrow> call_state t = call_state s"
  by (auto simp: createCallRecord_def Let_def put_call_def split: option.splits if_splits)

lemma place_single:
  assumes "\<not> call_state s" and "\<And>n. get_call s (uuid e n) = None" and "pa_caller a \<notin> set (place_invitees a)"
  shows "evolves_alone (s, r) (snd (placeCallWithShared e ok a (s, r)))"
proof -
  obtain s1 cs where s1: "supersedeRedialledCalls e (pa_caller a) (hd (place_invitees a)) s = (s1, cs)" by fastforce
  let ?close = "close_calls e (\<lambda>_ c. isSupersededRedial c (pa_caller a) (hd (place_invitees a))) ''superseded''
    (getActiveCallsForUser (now e) 0 (pa_caller a) s) s"
  have "s1 = fst ?close" using s1 by (simp add: supersedeRedialledCalls_def)
  then have n: "\<not> call_state s1" "get_call s1 (uuid e m) = None" for m
    using assms(1) close_calls_keys [OF assms(2)] by simp_all
  have one: "registry_evolves s s1" by (rule evolves_step [OF step_supersede [OF s1]])
  have two: "registry_evolves s1 t \<and> \<not> call_state t" if "createCallRecord e (place_create a) s1 = Inr (c, t)" for c t
  proof -
    have "set (place_invitees a) \<noteq> {}" by (simp add: place_invitees_def)
    then have "set (create_invitees (place_create a)) = set (place_invitees a)"
      by (simp add: create_invitees_def place_create_def)
    then have "ca_caller (place_create a) \<notin> set (create_invitees (place_create a))"
      using assms(3) by (simp add: place_create_def)
    with that n(2) have "registry_step s1 t" by (intro step_create)
    with create_call_state [OF that] n(1) show ?thesis by (simp add: evolves_step)
  qed
  show ?thesis
    using assms(1) n(1) one two
    by (auto simp: placeCallWithShared_def Let_def s1 createCallRecordWithShared_def evolves_alone_def
        split: option.split sum.split prod.split intro: evolves_trans)
qed

lemma initiate_handler_single:
  assumes "\<not> call_state s" and "\<And>n. get_call s (uuid e n) = None"
  shows "evolves_alone (s, r) (fst (snd (handleCallInitiate e cfg blocked allowed ok ringing sk rq ((s, r), og))))"
proof -
  have step: "evolves_alone (s, r) n"
    if "placeCallWithShared e ok \<lparr>pa_caller = u, pa_callee = v, pa_callees = None, pa_ringing_ms = ringing,
          pa_device = d, pa_media = m\<rparr> (s, r) = (res, n)" and "v \<noteq> u" for u v d m res n
  proof -
    have "u \<notin> set (place_invitees \<lparr>pa_caller = u, pa_callee = v, pa_callees = None, pa_ringing_ms = ringing, pa_device = d, pa_media = m\<rparr>)"
      using that(2) by (simp add: place_invitees_def)
    with place_single [OF assms, where a = "\<lparr>pa_caller = u, pa_callee = v, pa_callees = None, pa_ringing_ms = ringing, pa_device = d, pa_media = m\<rparr>"]
      that(1) show ?thesis by (metis place_args.select_convs(1) snd_conv)
  qed
  show ?thesis
    using assms(1)
    by (auto simp: handleCallInitiate_def alone_refl split: sum.split prod.split place_result.split dest!: step)
qed

lemma serve_single:
  assumes "\<not> call_state s" and "\<And>n. get_call s (uuid e n) = None"
  shows "evolves_alone (s, r) (fst (snd (serve e gst sk ev ((s, r), og))))"
proof (cases ev)
  case (On_Cancel rq)
  then show ?thesis using transition_handler_single [OF assms(1), of cancel_options r e sk rq og]
    by (simp add: handleCallCancel_def cancel_options_def)
next
  case (On_Connected rq)
  then show ?thesis using transition_handler_single [OF assms(1), of "connected_options e sk" r e sk rq og]
    by (simp add: handleCallConnected_def connected_options_def alone_heartbeat)
next
  case (On_Stats allowed stored rq)
  then show ?thesis using assms(1)
    by (auto simp: handleCallStats_def alone_refl split: sum.split option.split)
next
  case (On_Incoming_Ack rq)
  then show ?thesis using assms(1) by (auto simp: handleIncomingAck_def alone_refl Let_def split: sum.split)
qed (use assms in \<open>simp_all add: action_handler_single rtc_handler_single report_handler_single initiate_handler_single\<close>)

text \<open>
  C9. On a single instance every socket event of a call, whoever sends it, acts on the registry as the
  lifecycle allows: the registry stays well-formed, every call moves along \<open>CALL_TRANSITIONS\<close>, appears
  ringing or refused and disappears only when it is over; the shared store is not touched.
\<close>

theorem handlers_refine_lifecycle:
  assumes "wf_registry s" and "\<not> call_state s" and "\<And>n. get_call s (uuid e n) = None"
    and "serve e gst sk ev ((s, r), og) = (answer, ((s', r'), og'))"
  shows "wf_registry s' \<and> entry_step\<^sup>*\<^sup>* (get_call s k) (get_call s' k) \<and> r' = r"
proof -
  have "evolves_alone (s, r) (s', r')" using serve_single [OF assms(2,3), of r gst sk ev og] assms(4) by simp
  then show ?thesis using evolves_entry [OF _ assms(1), of s' k] by (simp add: evolves_alone_def)
qed

definition demo_socket :: "string \<Rightarrow> string \<Rightarrow> socket_identity" where
  "demo_socket u d = \<lparr>si_user = u, si_session = Some ''session'', si_device = Some d\<rparr>"

definition demo_hangup :: "call_payload request" where
  "demo_hangup = \<lparr>rq_version = Some 3, rq_parsed = Inr \<lparr>cp_call = ''id-'', cp_ice = None\<rparr>\<rparr>"

definition demo_env2 :: env where
  "demo_env2 = demo_env\<lparr>uuid := (\<lambda>n. ''next-'' @ replicate n (CHR ''1''))\<rparr>"

definition demo_joined :: "(string + reply) \<times> hub" where
  "demo_joined = serve demo_env2 empty_group_store (demo_socket ''bob'' ''tablet'') (On_Action Join demo_hangup)
    ((demo_ringing, empty_shared), nothing_sent)"

theorem handlers_refine_lifecycle_witness:
  "wf_registry (fst (fst (snd demo_joined))) \<and>
    entry_step\<^sup>*\<^sup>* (get_call demo_ringing ''id-'') (get_call (fst (fst (snd demo_joined))) ''id-'') \<and>
    snd (fst (snd demo_joined)) = empty_shared"
proof -
  have n: "get_call demo_ringing (uuid demo_env2 n) = None" for n by (simp add: demo_get demo_env2_def)
  have c: "\<not> call_state demo_ringing" by code_simp
  have "serve demo_env2 empty_group_store (demo_socket ''bob'' ''tablet'') (On_Action Join demo_hangup) ((demo_ringing, empty_shared), nothing_sent) =
    (fst demo_joined, ((fst (fst (snd demo_joined)), snd (fst (snd demo_joined))), snd (snd demo_joined)))"
    by (simp only: prod.collapse) (simp only: demo_joined_def)
  from handlers_refine_lifecycle [OF demo_wf c n this] show ?thesis by (simp only: simp_thms)
qed

section \<open>Outsiders\<close>










end
