(* ===== verification/JsBits.thy ===== *)
theory JsBits
  imports Prelude "HOL-Library.Word"
begin

text \<open>
  The bit operators of JavaScript on integral numbers. An operand is converted to 32 bits first; the result
  is read back signed, for \<open>>>>\<close> unsigned. Shift counts are taken modulo 32.
\<close>

unbundle bit_operations_syntax

abbreviation w32 :: "int \<Rightarrow> 32 word" where "w32 \<equiv> word_of_int"

definition js_shl :: "int \<Rightarrow> nat \<Rightarrow> int" where "js_shl x n = sint (push_bit (n mod 32) (w32 x))"

definition js_shr :: "int \<Rightarrow> nat \<Rightarrow> int" where "js_shr x n = sint (signed_drop_bit (n mod 32) (w32 x))"

definition js_ushr :: "int \<Rightarrow> nat \<Rightarrow> int" where "js_ushr x n = uint (drop_bit (n mod 32) (w32 x))"

definition js_and :: "int \<Rightarrow> int \<Rightarrow> int" where "js_and x y = sint (w32 x AND w32 y)"

definition js_or :: "int \<Rightarrow> int \<Rightarrow> int" where "js_or x y = sint (w32 x OR w32 y)"

definition js_xor :: "int \<Rightarrow> int \<Rightarrow> int" where "js_xor x y = sint (w32 x XOR w32 y)"

definition js_not :: "int \<Rightarrow> int" where "js_not x = sint (NOT (w32 x))"

section \<open>The operators on 32-bit words\<close>

named_theorems w32_simps \<open>how a JavaScript expression acts on the 32 bits it denotes\<close>

lemma w32_sint [simp]: "w32 (sint x) = x"
  by simp

lemma w32_ops [w32_simps]:
  "w32 (js_shl x n) = push_bit (n mod 32) (w32 x)"
  "w32 (js_shr x n) = signed_drop_bit (n mod 32) (w32 x)"
  "w32 (js_ushr x n) = drop_bit (n mod 32) (w32 x)"
  "w32 (js_and x y) = w32 x AND w32 y"
  "w32 (js_or x y) = w32 x OR w32 y"
  "w32 (js_xor x y) = w32 x XOR w32 y"
  "w32 (js_not x) = NOT (w32 x)"
  "w32 (x + y) = w32 x + w32 y"
  by (simp_all add: js_shl_def js_shr_def js_ushr_def js_and_def js_or_def js_xor_def js_not_def)

lemma ushr_range: "0 \<le> js_ushr x n" "js_ushr x n < 2 ^ 32"
  using uint_lt2p [of "drop_bit (n mod 32) (w32 x)"] by (simp_all add: js_ushr_def)

lemma ushr_zero: "js_ushr x 0 = x mod 2 ^ 32"
  by (simp add: js_ushr_def unsigned_of_int take_bit_eq_mod)

section \<open>Small operands\<close>

text \<open>On naturals below \<open>2 ^ 31\<close> the operators are those of the integers.\<close>

lemma sint_w32_small: "0 \<le> x \<Longrightarrow> x < 2 ^ 31 \<Longrightarrow> sint (w32 x) = x"
  by (simp add: signed_of_int signed_take_bit_int_eq_self)

lemma uint_w32_small: "0 \<le> x \<Longrightarrow> x < 2 ^ 32 \<Longrightarrow> uint (w32 x) = x"
  by (simp add: unsigned_of_int take_bit_int_eq_self)

lemma js_and_small:
  assumes "0 \<le> x" "x < 2 ^ 31" "0 \<le> y" "y < 2 ^ 31"
  shows "js_and x y = x AND y"
proof -
  have "x AND y \<le> x" using assms by (simp add: AND_upper1)
  then have "sint (w32 (x AND y)) = x AND y" using assms by (intro sint_w32_small) simp_all
  then show ?thesis by (simp only: js_and_def of_int_and_eq)
qed

lemma js_or_small:
  assumes "0 \<le> x" "x < 2 ^ 31" "0 \<le> y" "y < 2 ^ 31"
  shows "js_or x y = x OR y"
proof -
  have "x OR y < 2 ^ 31" using assms by (intro OR_upper) simp_all
  then have "sint (w32 (x OR y)) = x OR y" using assms by (intro sint_w32_small) simp_all
  then show ?thesis by (simp only: js_or_def of_int_or_eq)
qed

lemma js_ushr_small:
  assumes "0 \<le> x" "x < 2 ^ 32" "n < 32"
  shows "js_ushr x n = x div 2 ^ n"
proof -
  have "uint (drop_bit n (w32 x)) = drop_bit n (uint (w32 x))" 
    by (simp only: unsigned_drop_bit_eq) (simp add: unsigned_of_int)
  then show ?thesis using assms by (simp add: js_ushr_def uint_w32_small drop_bit_eq_div)
qed

lemma js_shr_small:
  assumes "0 \<le> x" "x < 2 ^ 31" "n < 32"
  shows "js_shr x n = x div 2 ^ n"
proof -
  have "sint (signed_drop_bit n (w32 x)) = drop_bit n (sint (w32 x))"
    by (simp add: sint_signed_drop_bit_eq)
  then show ?thesis using assms by (simp add: js_shr_def sint_w32_small drop_bit_eq_div)
qed

text \<open>A mask of low bits is a remainder; bits that do not overlap add up.\<close>

lemma js_mask:
  assumes "0 \<le> x" "x < 2 ^ 31" "n < 31"
  shows "js_and x (2 ^ n - 1) = x mod 2 ^ n"
proof -
  have "(2::int) ^ n \<le> 2 ^ 31" using assms(3) by (intro power_increasing) simp_all
  then have "js_and x (2 ^ n - 1) = x AND (2 ^ n - 1)" using assms by (intro js_and_small) simp_all
  then show ?thesis by (simp add: mask_eq_exp_minus_1 [symmetric] take_bit_eq_mask [symmetric] take_bit_eq_mod)
qed

lemma js_or_disjoint:
  assumes "0 \<le> y" "y < 2 ^ n" "0 \<le> k" "k * 2 ^ n + y < 2 ^ 31"
  shows "js_or (k * 2 ^ n) y = k * 2 ^ n + y"
proof -
  have "push_bit n k AND y = 0"
  proof -
    have "take_bit n y = y" using assms(1,2) by (simp add: take_bit_int_eq_self)
    then have "push_bit n k AND y = push_bit n k AND take_bit n y" by simp
    also have "\<dots> = 0" by (simp add: bit_eq_iff bit_simps)
    finally show ?thesis .
  qed
  then have "push_bit n k OR y = push_bit n k + y" by (simp add: disjunctive_add_eq_or)
  moreover have "js_or (k * 2 ^ n) y = k * 2 ^ n OR y"
  proof (rule js_or_small)
    have "0 \<le> k * 2 ^ n" using assms(3) by simp
    then show "0 \<le> k * 2 ^ n" "k * 2 ^ n < 2 ^ 31" "y < 2 ^ 31" using assms(1,4) by linarith+
  qed (rule assms(1))
  ultimately show ?thesis by (simp add: push_bit_eq_mult)
qed

end
