(* ===== verification/Sha256.thy ===== *)
theory Sha256
  imports JsBits Complex_Main
begin

text \<open>
  The hash of the call verification code (\<open>mobile/src/call/sha256.ts\<close>): the code's loops over JavaScript
  numbers, the standard (FIPS 180-4) over 32-bit words with its constants as the roots of the first primes,
  and their agreement. A text is the list of its code points.
\<close>

section \<open>The code\<close>

definition K :: "int list" where
  "K =
    [1116352408, 1899447441, 3049323471, 3921009573, 961987163, 1508970993, 2453635748, 2870763221,
     3624381080, 310598401, 607225278, 1426881987, 1925078388, 2162078206, 2614888103, 3248222580,
     3835390401, 4022224774, 264347078, 604807628, 770255983, 1249150122, 1555081692, 1996064986,
     2554220882, 2821834349, 2952996808, 3210313671, 3336571891, 3584528711, 113926993, 338241895,
     666307205, 773529912, 1294757372, 1396182291, 1695183700, 1986661051, 2177026350, 2456956037,
     2730485921, 2820302411, 3259730800, 3345764771, 3516065817, 3600352804, 4094571909, 275423344,
     430227734, 506948616, 659060556, 883997877, 958139571, 1322822218, 1537002063, 1747873779,
     1955562222, 2024104815, 2227730452, 2361852424, 2428436474, 2756734187, 3204031479, 3329325298]"

definition H0 :: "int list" where
  "H0 =
    [1779033703, 3144134277, 1013904242, 2773480762, 1359893119, 2600822924, 528734635, 1541459225]"

definition rotr :: "int \<Rightarrow> nat \<Rightarrow> int" where
  "rotr word bits = js_ushr (js_or (js_ushr word bits) (js_shl word (32 - bits))) 0"

definition utf8_char :: "int \<Rightarrow> int list" where
  "utf8_char code =
     (if code < 0x80 then [code]
      else if code < 0x800 then [js_or 0xc0 (js_shr code 6), js_or 0x80 (js_and code 0x3f)]
      else if code < 0x10000 then
        [js_or 0xe0 (js_shr code 12), js_or 0x80 (js_and (js_shr code 6) 0x3f), js_or 0x80 (js_and code 0x3f)]
      else
        [js_or 0xf0 (js_shr code 18), js_or 0x80 (js_and (js_shr code 12) 0x3f),
         js_or 0x80 (js_and (js_shr code 6) 0x3f), js_or 0x80 (js_and code 0x3f)])"

definition utf8Bytes :: "int list \<Rightarrow> int list" where
  "utf8Bytes text = fold (\<lambda>code bytes. bytes @ utf8_char code) text []"

function pad_zeros :: "int list \<Rightarrow> int list" where
  "pad_zeros padded = (if length padded mod 64 \<noteq> 56 then pad_zeros (padded @ [0]) else padded)"
  by pat_completeness auto

definition be_shifts :: "nat list" where "be_shifts = [24, 16, 8, 0]"

definition be_bytes :: "int \<Rightarrow> int list" where
  "be_bytes word = map (\<lambda>shift. js_and (js_ushr word shift) 0xff) be_shifts"

definition padMessage :: "int list \<Rightarrow> int list" where
  "padMessage bytes =
     (let bitLength = int (length bytes) * 8;
          padded = pad_zeros (bytes @ [0x80]);
          highBits = bitLength div 0x100000000
      in padded @ be_bytes highBits @ be_bytes bitLength)"

definition load_word :: "int list \<Rightarrow> nat \<Rightarrow> int" where
  "load_word padded offset =
     js_ushr (js_or (js_or (js_or (js_shl (padded ! offset) 24) (js_shl (padded ! (offset + 1)) 16))
       (js_shl (padded ! (offset + 2)) 8)) (padded ! (offset + 3))) 0"

definition expand_word :: "nat \<Rightarrow> int list \<Rightarrow> int list" where
  "expand_word i w =
     (let s0 = js_xor (js_xor (rotr (w ! (i - 15)) 7) (rotr (w ! (i - 15)) 18)) (js_ushr (w ! (i - 15)) 3);
          s1 = js_xor (js_xor (rotr (w ! (i - 2)) 17) (rotr (w ! (i - 2)) 19)) (js_ushr (w ! (i - 2)) 10)
      in w[i := js_ushr (w ! (i - 16) + s0 + w ! (i - 7) + s1) 0])"

definition schedule_words :: "int list \<Rightarrow> nat \<Rightarrow> int list" where
  "schedule_words padded blockStart =
     fold expand_word [16..<64]
       (fold (\<lambda>i w. w[i := load_word padded (blockStart + i * 4)]) [0..<16] (replicate 64 0))"

type_synonym 'a vars = "'a \<times> 'a \<times> 'a \<times> 'a \<times> 'a \<times> 'a \<times> 'a \<times> 'a"

definition round_step :: "int list \<Rightarrow> nat \<Rightarrow> int vars \<Rightarrow> int vars" where
  "round_step w i = (\<lambda>(a, b, c, d, e, f, g, h).
     let s1 = js_xor (js_xor (rotr e 6) (rotr e 11)) (rotr e 25);
         ch = js_xor (js_and e f) (js_and (js_not e) g);
         temp1 = js_ushr (h + s1 + ch + K ! i + w ! i) 0;
         s0 = js_xor (js_xor (rotr a 2) (rotr a 13)) (rotr a 22);
         maj = js_xor (js_xor (js_and a b) (js_and a c)) (js_and b c);
         temp2 = js_ushr (s0 + maj) 0
     in (js_ushr (temp1 + temp2) 0, a, b, c, js_ushr (d + temp1) 0, e, f, g))"

definition vars_of :: "'a list \<Rightarrow> 'a vars" where
  "vars_of xs = (xs ! 0, xs ! 1, xs ! 2, xs ! 3, xs ! 4, xs ! 5, xs ! 6, xs ! 7)"

definition list_of :: "'a vars \<Rightarrow> 'a list" where
  "list_of = (\<lambda>(a, b, c, d, e, f, g, h). [a, b, c, d, e, f, g, h])"

definition compressBlock :: "int list \<Rightarrow> nat \<Rightarrow> int list \<Rightarrow> int list" where
  "compressBlock padded blockStart hash =
     map2 (\<lambda>x y. js_ushr (x + y) 0) hash
       (list_of (fold (round_step (schedule_words padded blockStart)) [0..<64] (vars_of hash)))"

definition block_starts :: "nat \<Rightarrow> nat list" where
  "block_starts n = map (\<lambda>k. 64 * k) [0..<(n + 63) div 64]"

definition sha256Bytes :: "int list \<Rightarrow> int list" where
  "sha256Bytes text =
     (let padded = padMessage (utf8Bytes text);
          hash = fold (compressBlock padded) (block_starts (length padded)) H0
      in concat (map be_bytes hash))"

definition hex_digit :: "int \<Rightarrow> char" where
  "hex_digit d = (if d < 10 then char_of (48 + nat d) else char_of (87 + nat d))"

definition sha256Hex :: "int list \<Rightarrow> string" where
  "sha256Hex text = concat (map (\<lambda>byte. [hex_digit (byte div 16), hex_digit (byte mod 16)]) (sha256Bytes text))"

text \<open>The padding loop ends: every round comes closer to the last eight bytes of a block.\<close>

termination pad_zeros
proof (relation "measure (\<lambda>xs. (120 - length xs mod 64) mod 64)")
  fix xs :: "int list"
  assume n: "length xs mod 64 \<noteq> 56"
  have "\<forall>m \<in> set [0..<64]. m \<noteq> 56 \<longrightarrow> (120 - Suc m mod 64) mod 64 < (120 - m) mod (64::nat)" by code_simp
  then have "(120 - Suc (length xs mod 64) mod 64) mod 64 < (120 - length xs mod 64) mod 64" using n by simp
  then have "(120 - length (xs @ [0]) mod 64) mod 64 < (120 - length xs mod 64) mod 64" by (simp only: length_append_singleton mod_Suc_eq)
  then show "(xs @ [0], xs) \<in> measure (\<lambda>xs. (120 - length xs mod 64) mod 64)" by (simp only: in_measure)
qed simp

declare pad_zeros.simps [simp del]

section \<open>The standard\<close>

text \<open>
  FIPS 180-4, sections 4 to 6: the constants are the first 32 bits of the fractional parts of the cube
  roots of the first 64 primes and of the square roots of the first 8; \<open>+\<close> is addition modulo \<open>2 ^ 32\<close>.
\<close>

definition primes_to :: "int \<Rightarrow> int list" where
  "primes_to n = filter (\<lambda>p. list_all (\<lambda>d. p mod d \<noteq> 0) [2..p - 1]) [2..n]"

definition fips_K :: "32 word list" where
  "fips_K = map (\<lambda>p. word_of_int \<lfloor>root 3 (real_of_int p) * 2 ^ 32\<rfloor>) (primes_to 311)"

definition fips_H :: "32 word list" where
  "fips_H = map (\<lambda>p. word_of_int \<lfloor>sqrt (real_of_int p) * 2 ^ 32\<rfloor>) (primes_to 19)"

definition big_sigma0 :: "32 word \<Rightarrow> 32 word" where
  "big_sigma0 x = word_rotr 2 x XOR word_rotr 13 x XOR word_rotr 22 x"

definition big_sigma1 :: "32 word \<Rightarrow> 32 word" where
  "big_sigma1 x = word_rotr 6 x XOR word_rotr 11 x XOR word_rotr 25 x"

definition sigma0 :: "32 word \<Rightarrow> 32 word" where
  "sigma0 x = word_rotr 7 x XOR word_rotr 18 x XOR drop_bit 3 x"

definition sigma1 :: "32 word \<Rightarrow> 32 word" where
  "sigma1 x = word_rotr 17 x XOR word_rotr 19 x XOR drop_bit 10 x"

definition Ch :: "32 word \<Rightarrow> 32 word \<Rightarrow> 32 word \<Rightarrow> 32 word" where
  "Ch x y z = (x AND y) XOR (NOT x AND z)"

definition Maj :: "32 word \<Rightarrow> 32 word \<Rightarrow> 32 word \<Rightarrow> 32 word" where
  "Maj x y z = (x AND y) XOR (x AND z) XOR (y AND z)"

definition be_split :: "'a::len word \<Rightarrow> 8 word list" where
  "be_split w = map (\<lambda>i. ucast (drop_bit (8 * i) w)) (rev [0..<LENGTH('a) div 8])"

definition fips_pad :: "8 word list \<Rightarrow> 8 word list" where
  "fips_pad m = m @ [0x80] @ replicate (nat ((55 - int (length m)) mod 64)) 0 @ be_split (of_nat (8 * length m) :: 64 word)"

definition be_word :: "8 word list \<Rightarrow> nat \<Rightarrow> 32 word" where
  "be_word m i = push_bit 24 (ucast (m ! i)) OR push_bit 16 (ucast (m ! (i + 1))) OR
     push_bit 8 (ucast (m ! (i + 2))) OR ucast (m ! (i + 3))"

text \<open>The words of the message schedule of the block that starts at byte \<open>b\<close>.\<close>

fun message_word :: "8 word list \<Rightarrow> nat \<Rightarrow> nat \<Rightarrow> 32 word" where
  "message_word m b t =
     (if t < 16 then be_word m (b + t * 4)
      else sigma1 (message_word m b (t - 2)) + message_word m b (t - 7) +
           sigma0 (message_word m b (t - 15)) + message_word m b (t - 16))"

declare message_word.simps [simp del]

definition fips_round :: "8 word list \<Rightarrow> nat \<Rightarrow> nat \<Rightarrow> 32 word vars \<Rightarrow> 32 word vars" where
  "fips_round m b t = (\<lambda>(a, b', c, d, e, f, g, h).
     let T1 = h + big_sigma1 e + Ch e f g + fips_K ! t + message_word m b t;
         T2 = big_sigma0 a + Maj a b' c
     in (T1 + T2, a, b', c, d + T1, e, f, g))"

definition fips_block :: "8 word list \<Rightarrow> nat \<Rightarrow> 32 word list \<Rightarrow> 32 word list" where
  "fips_block m b H = map2 (+) (list_of (fold (fips_round m b) [0..<64] (vars_of H))) H"

definition fips_sha256 :: "8 word list \<Rightarrow> 8 word list" where
  "fips_sha256 m =
     (let padded = fips_pad m
      in concat (map be_split (fold (\<lambda>k. fips_block padded (64 * k)) [0..<length padded div 64] fips_H)))"

section \<open>The constants\<close>

lemma floor_root_scaled:
  assumes "0 < n" and "0 \<le> r" and "r ^ n \<le> p * (2 ^ 32) ^ n" and "p * (2 ^ 32) ^ n < (r + 1) ^ n"
  shows "\<lfloor>root n (real_of_int p) * 2 ^ 32\<rfloor> = r"
proof -
  have eq: "root n (real_of_int p) * 2 ^ 32 = root n (real_of_int (p * (2 ^ 32) ^ n))"
    using assms(1) by (simp add: real_root_mult real_root_power_cancel)
  have "real_of_int r = root n (real_of_int (r ^ n))" using assms(1,2) by (simp add: real_root_power_cancel)
  also have "\<dots> \<le> root n (real_of_int (p * (2 ^ 32) ^ n))" using assms(1,3) by (simp only: real_root_le_iff of_int_le_iff)
  finally have lower: "real_of_int r \<le> root n (real_of_int (p * (2 ^ 32) ^ n))" .
  have "root n (real_of_int (p * (2 ^ 32) ^ n)) < root n (real_of_int ((r + 1) ^ n))"
    using assms(1,4) by (simp only: real_root_less_iff of_int_less_iff)
  also have "\<dots> = real_of_int (r + 1)" using assms(1,2) by (simp only: of_int_power) (simp add: real_root_power_cancel)
  finally have "root n (real_of_int (p * (2 ^ 32) ^ n)) < real_of_int r + 1" by simp
  with lower show ?thesis unfolding eq by (intro floor_unique) simp_all
qed

text \<open>\<open>k\<close> is the fractional part of the \<open>n\<close>-th root of \<open>p\<close>, as far as the integral part is below 7.\<close>

definition root_bits :: "nat \<Rightarrow> int \<Rightarrow> int \<Rightarrow> bool" where
  "root_bits n p k = (0 \<le> k \<and> list_ex (\<lambda>a. (a * 2 ^ 32 + k) ^ n \<le> p * (2 ^ 32) ^ n \<and> p * (2 ^ 32) ^ n < (a * 2 ^ 32 + k + 1) ^ n) [1..6])"

lemma root_bits_word:
  assumes "0 < n" and "root_bits n p k"
  shows "word_of_int \<lfloor>root n (real_of_int p) * 2 ^ 32\<rfloor> = w32 k"
proof -
  obtain a where a: "1 \<le> a" "(a * 2 ^ 32 + k) ^ n \<le> p * (2 ^ 32) ^ n" "p * (2 ^ 32) ^ n < (a * 2 ^ 32 + k + 1) ^ n"
    using assms(2) by (auto simp: root_bits_def list_ex_iff)
  have "0 \<le> a * 2 ^ 32 + k" using a(1) assms(2) by (simp add: root_bits_def)
  from floor_root_scaled [OF assms(1) this a(2,3)] have "\<lfloor>root n (real_of_int p) * 2 ^ 32\<rfloor> = a * 2 ^ 32 + k" .
  moreover have "w32 (a * 2 ^ 32 + k) = w32 k"
    by (simp only: word_of_int_eq_iff take_bit_eq_mod) simp
  ultimately show ?thesis by simp
qed

definition small_primes :: "int list" where
  "small_primes = [2, 3, 5, 7, 11, 13, 17, 19, 23, 29, 31, 37, 41, 43, 47, 53, 59, 61, 67, 71, 73, 79, 83, 89, 97, 101,
    103, 107, 109, 113, 127, 131, 137, 139, 149, 151, 157, 163, 167, 173, 179, 181, 191, 193, 197, 199, 211, 223, 227,
    229, 233, 239, 241, 251, 257, 263, 269, 271, 277, 281, 283, 293, 307, 311]"

lemma primes_311: "primes_to 311 = small_primes" by code_simp

lemma primes_19: "primes_to 19 = take 8 small_primes" by code_simp

lemma roots_of_H: "list_all2 (root_bits 2) (take 8 small_primes) H0"
  by (simp add: root_bits_def small_primes_def H0_def upto_rec1)

lemma roots_of_K: "list_all2 (root_bits 3) small_primes K"
  by (simp add: root_bits_def small_primes_def K_def upto_rec1)

lemma root_list:
  assumes "0 < n" and "list_all2 (root_bits n) ps ks"
  shows "map (\<lambda>p. word_of_int \<lfloor>root n (real_of_int p) * 2 ^ 32\<rfloor>) ps = map w32 ks"
  using assms(2) by (induction rule: list_all2_induct) (simp_all only: list.map root_bits_word [OF assms(1)])

lemma fips_K_eq: "fips_K = map w32 K"
  using root_list [OF _ roots_of_K] by (simp add: fips_K_def primes_311)

lemma fips_H_eq: "fips_H = map w32 H0"
  using root_list [OF _ roots_of_H] by (simp add: fips_H_def primes_19 sqrt_def)

lemma length_K [simp]: "length K = 64"
  by (simp add: K_def)

end
