(* ===== verification/Sha256Properties.thy ===== *)
theory Sha256Properties
  imports Sha256
begin

text \<open>
  The code of \<open>sha256.ts\<close> computes the hash of the standard, and its encoding of a text can be read back.
\<close>

section \<open>The code's operators are those of the standard\<close>

lemma shift_or_rotr:
  assumes "0 < n" "n < 32"
  shows "drop_bit n w OR push_bit (32 - n) w = (word_rotr n w :: 32 word)"
proof (rule bit_word_eqI)
  fix i :: nat
  assume i: "i < LENGTH(32)"
  then have "(i + n) mod 32 = (if i + n < 32 then i + n else i + n - 32)" using assms by (simp add: mod_if)
  then show "bit (drop_bit n w OR push_bit (32 - n) w) i = bit (word_rotr n w) i"
    using i assms by (auto simp: bit_simps add.commute dest: bit_imp_le_length)
qed

lemma w32_rotr [w32_simps]: "0 < n \<Longrightarrow> n < 32 \<Longrightarrow> w32 (rotr x n) = word_rotr n (w32 x)"
  by (simp add: rotr_def w32_simps shift_or_rotr)

lemma w32_ushr_zero [simp]: "w32 (js_ushr x 0) = w32 x"
  by (simp add: w32_simps)

lemma w32_and_byte: "js_and x 0xff = uint (ucast (w32 x) :: 8 word)"
proof -
  have "w32 x AND 0xff = w32 x AND mask 8" by (simp add: mask_eq_exp_minus_1)
  then have "w32 x AND 0xff = ucast (ucast (w32 x) :: 8 word)" by (simp add: take_bit_eq_mask [symmetric] unsigned_ucast_eq)
  then have "js_and x 0xff = sint (ucast (ucast (w32 x) :: 8 word) :: 32 word)" by (simp add: js_and_def)
  also have "\<dots> = uint (ucast (w32 x) :: 8 word)" 
  proof -
    have "- 2147483648 \<le> uint (ucast (w32 x) :: 8 word)" using uint_ge_0 [of "ucast (w32 x) :: 8 word"] by linarith
    moreover have "uint (ucast (w32 x) :: 8 word) < 2 ^ 31" using uint_lt2p [of "ucast (w32 x) :: 8 word"] by simp
    ultimately show ?thesis by (simp add: signed_ucast_eq signed_take_bit_int_eq_self)
  qed
  finally show ?thesis .
qed

lemma be_bytes_split: "be_bytes x = map uint (be_split (w32 x))"
  by (simp add: be_bytes_def be_shifts_def be_split_def w32_and_byte w32_simps upt_rec)

lemma length_split_64: "be_bytes (n div 2 ^ 32) @ be_bytes n = map uint (be_split (word_of_int n :: 64 word))"
proof -
  have low: "(ucast (drop_bit k (w32 n)) :: 8 word) = ucast (drop_bit k (word_of_int n :: 64 word))" if "k \<le> 24" for k
    using that by (intro bit_word_eqI) (simp add: bit_simps)
  have high: "(ucast (drop_bit k (w32 (n div 2 ^ 32))) :: 8 word) = ucast (drop_bit (k + 32) (word_of_int n :: 64 word))" if "k \<le> 24" for k
  proof (rule bit_word_eqI)
    fix i :: nat
    assume "i < LENGTH(8)"
    moreover have "bit (n div 2 ^ 32) (k + i) = bit n (k + 32 + i)" 
      by (simp only: drop_bit_eq_div [symmetric] bit_drop_bit_eq comp_apply) (simp only: ac_simps)
    ultimately show "bit (ucast (drop_bit k (w32 (n div 2 ^ 32))) :: 8 word) i = bit (ucast (drop_bit (k + 32) (word_of_int n :: 64 word)) :: 8 word) i"
      using that by (simp add: bit_simps)
  qed
  show ?thesis
    using low [of 0] low [of 8] low [of 16] low [of 24] high [of 0] high [of 8] high [of 16] high [of 24]
    by (simp only: be_bytes_split) (simp add: be_split_def upt_rec)
qed

section \<open>Padding\<close>

abbreviation octets :: "int list \<Rightarrow> bool" where "octets bs \<equiv> (\<forall>x \<in> set bs. 0 \<le> x \<and> x < 256)"

abbreviation to_words :: "int list \<Rightarrow> 8 word list" where "to_words \<equiv> map word_of_int"

lemma residue_of_difference: "(c - m) mod (64::int) = (if m mod 64 \<le> c then c - m mod 64 else c - m mod 64 + 64)" if "0 \<le> c" "c < 64"
proof -
  have m: "0 \<le> m mod 64" "m mod 64 < 64" by simp_all
  have "(c - m) mod 64 = (c - m mod 64) mod 64" by (simp only: mod_diff_right_eq)
  also have "\<dots> = (if m mod 64 \<le> c then c - m mod 64 else c - m mod 64 + 64)"
    using that m mod_add_self2 [of "c - m mod 64" 64] by (auto simp del: mod_add_self2 mod_add_self1 intro: mod_pos_pos_trivial simp: mod_pos_pos_trivial [of "c - m mod 64 + 64" 64])
  finally show ?thesis .
qed

lemma pad_zeros_eq: "pad_zeros xs = xs @ replicate (nat ((56 - int (length xs)) mod 64)) 0"
proof (induction xs rule: pad_zeros.induct)
  case (1 xs)
  let ?m = "int (length xs)"
  have m: "int (length xs mod 64) = ?m mod 64" by (simp add: of_nat_mod)
  show ?case
  proof (cases "length xs mod 64 = 56")
    case True
    with m have "(56 - ?m) mod 64 = 0" by (simp add: residue_of_difference)
    with True show ?thesis by (subst pad_zeros.simps) simp
  next
    case False
    with m have "?m mod 64 \<noteq> 56" by linarith
    then have "(56 - ?m) mod 64 = 1 + (55 - ?m) mod 64" by (auto simp: residue_of_difference)
    then have "nat ((56 - ?m) mod 64) = Suc (nat ((56 - int (length (xs @ [0]))) mod 64))"
      by (simp add: nat_add_distrib)
    with False 1 show ?thesis by (subst pad_zeros.simps) simp
  qed
qed

lemma uint_octet: "0 \<le> x \<Longrightarrow> x < 256 \<Longrightarrow> uint (word_of_int x :: 8 word) = x"
  by (simp add: unsigned_of_int take_bit_int_eq_self)

lemma to_words_uint [simp]: "to_words (map uint ws) = ws"
  by (simp add: comp_def)

lemma padMessage_words: "to_words (padMessage bs) = fips_pad (to_words bs)"
proof -
  have "padMessage bs = pad_zeros (bs @ [0x80]) @ map uint (be_split (word_of_int (int (length bs) * 8) :: 64 word))"
    using length_split_64 [of "int (length bs) * 8"] by (simp add: padMessage_def Let_def)
  moreover have "(word_of_int (int (length bs) * 8) :: 64 word) = of_nat (8 * length bs)" by simp
  ultimately show ?thesis by (simp only: map_append to_words_uint) (simp add: pad_zeros_eq fips_pad_def)
qed

lemma octets_uint: "octets (map uint (ws :: 8 word list))"
  using uint_lt2p [where 'a = 8] by auto

lemma octets_pad:
  assumes "octets bs"
  shows "octets (padMessage bs)"
proof -
  have "octets (be_bytes x)" for x using octets_uint [of "be_split (w32 x)"] by (simp only: be_bytes_split)
  then show ?thesis using assms by (auto simp: padMessage_def Let_def pad_zeros_eq)
qed

lemma length_padded: "length (padMessage bs) mod 64 = 0"
proof -
  have "length (padMessage bs) = length bs + 1 + nat ((55 - int (length bs)) mod 64) + 8"
    by (simp add: padMessage_def Let_def pad_zeros_eq be_bytes_def be_shifts_def)
  then have "int (length (padMessage bs)) = int (length bs) + 9 + (55 - int (length bs)) mod 64" by simp
  then have "int (length (padMessage bs)) mod 64 = (int (length bs) + 9 + (55 - int (length bs))) mod 64" by (simp only: mod_add_right_eq)
  then have "int (length (padMessage bs) mod 64) = 0" by (simp add: of_nat_mod)
  then show ?thesis by simp
qed

section \<open>The message schedule\<close>

lemma w32_octet: "0 \<le> x \<Longrightarrow> x < 256 \<Longrightarrow> w32 x = ucast (word_of_int x :: 8 word)"
proof -
  assume "0 \<le> x" "x < 256"
  then have "w32 x = w32 (uint (word_of_int x :: 8 word))" by (simp only: uint_octet)
  also have "\<dots> = ucast (word_of_int x :: 8 word)" by transfer simp
  finally show ?thesis .
qed

lemma w32_load_word:
  assumes "octets bs" and "off + 3 < length bs"
  shows "w32 (load_word bs off) = be_word (to_words bs) off"
proof -
  have "w32 (bs ! k) = ucast (to_words bs ! k)" if "k \<le> off + 3" for k
    using assms that by (simp add: w32_octet)
  then show ?thesis by (simp add: load_word_def be_word_def w32_simps or.assoc)
qed

definition schedule_upto :: "int list \<Rightarrow> nat \<Rightarrow> nat \<Rightarrow> int list \<Rightarrow> bool" where
  "schedule_upto bs b k w = (length w = 64 \<and> (\<forall>i < k. w32 (w ! i) = message_word (to_words bs) b i))"

lemma schedule_loaded:
  assumes "octets bs" and "b + 64 \<le> length bs" and "k \<le> 16"
  shows "schedule_upto bs b k (fold (\<lambda>i w. w[i := load_word bs (b + i * 4)]) [0..<k] (replicate 64 0))"
  using assms(3)
proof (induction k)
  case 0
  then show ?case by (simp add: schedule_upto_def)
next
  case (Suc k)
  have "w32 (load_word bs (b + k * 4)) = message_word (to_words bs) b k"
    using assms(2) Suc.prems w32_load_word [OF assms(1), of "b + k * 4"] by (subst message_word.simps) simp
  with Suc show ?case by (auto simp: schedule_upto_def less_Suc_eq nth_list_update)
qed

lemma w32_sigma:
  "w32 (js_xor (js_xor (rotr x 7) (rotr x 18)) (js_ushr x 3)) = sigma0 (w32 x)"
  "w32 (js_xor (js_xor (rotr x 17) (rotr x 19)) (js_ushr x 10)) = sigma1 (w32 x)"
  "w32 (js_xor (js_xor (rotr x 2) (rotr x 13)) (rotr x 22)) = big_sigma0 (w32 x)"
  "w32 (js_xor (js_xor (rotr x 6) (rotr x 11)) (rotr x 25)) = big_sigma1 (w32 x)"
  by (simp_all add: w32_simps sigma0_def sigma1_def big_sigma0_def big_sigma1_def xor.assoc)

lemma schedule_expand:
  assumes "schedule_upto bs b i w" and "16 \<le> i" and "i < 64"
  shows "schedule_upto bs b (Suc i) (expand_word i w)"
proof -
  have w: "w32 (w ! j) = message_word (to_words bs) b j" if "j < i" for j using assms(1) that by (simp add: schedule_upto_def)
  have "w32 (expand_word i w ! i) = message_word (to_words bs) b i"
    using assms by (subst message_word.simps)
      (simp add: expand_word_def Let_def schedule_upto_def w32_sigma w32_ops(8) w)
  then show ?thesis
    using assms(1,3) by (auto simp: schedule_upto_def less_Suc_eq expand_word_def Let_def)
qed

lemma schedule_filled:
  assumes "octets bs" and "b + 64 \<le> length bs"
  shows "schedule_upto bs b 64 (schedule_words bs b)"
proof -
  have "schedule_upto bs b (16 + k) (fold expand_word [16..<16 + k] w)" if "schedule_upto bs b 16 w" "k \<le> 48" for k w
    using that
  proof (induction k)
    case (Suc k)
    then have "schedule_upto bs b (16 + k) (fold expand_word [16..<16 + k] w)" by simp
    moreover have "[16..<16 + Suc k] = [16..<16 + k] @ [16 + k]" by (simp only: add_Suc_right upt_Suc) simp
    ultimately show ?case using schedule_expand [of bs b "16 + k"] Suc.prems by (simp only: fold_append) simp
  qed simp
  from this [OF schedule_loaded [OF assms], of 48] show ?thesis by (simp add: schedule_words_def)
qed

section \<open>Rounds and blocks\<close>

definition vars_map :: "('a \<Rightarrow> 'b) \<Rightarrow> 'a vars \<Rightarrow> 'b vars" where
  "vars_map f = (\<lambda>(a, b, c, d, e, g, h, i). (f a, f b, f c, f d, f e, f g, f h, f i))"

lemma vars_cases:
  obtains a b c d e f g h where "v = (a, b, c, d, e, f, g, h)"
  by (cases v rule: prod_cases7) (metis surj_pair)

lemma round_step_fips:
  assumes "w32 (w ! i) = message_word m b i" and "i < 64"
  shows "vars_map w32 (round_step w i v) = fips_round m b i (vars_map w32 v)"
proof -
  have k: "fips_K ! i = w32 (K ! i)" using assms(2) by (simp add: fips_K_eq)
  obtain a b' c d e f g h where v: "v = (a, b', c, d, e, f, g, h)" by (rule vars_cases)
  show ?thesis
    by (simp add: v vars_map_def round_step_def fips_round_def Let_def w32_simps big_sigma0_def big_sigma1_def
        assms(1) k Ch_def Maj_def xor.assoc)
qed

lemma rounds_fips:
  assumes "schedule_upto bs b 64 w" and "n \<le> 64"
  shows "vars_map w32 (fold (round_step w) [0..<n] v) = fold (fips_round (to_words bs) b) [0..<n] (vars_map w32 v)"
  using assms(2)
proof (induction n)
  case (Suc n)
  have "w32 (w ! n) = message_word (to_words bs) b n" using assms(1) Suc.prems by (simp add: schedule_upto_def)
  with Suc round_step_fips [OF this] show ?case by simp
qed simp

lemma vars_of_map: "length xs = 8 \<Longrightarrow> vars_of (map f xs) = vars_map f (vars_of xs)"
  by (simp add: vars_of_def vars_map_def)

lemma list_of_map: "list_of (vars_map f v) = map f (list_of v)"
  by (cases v rule: vars_cases) (simp add: list_of_def vars_map_def)

lemma length_list_of [simp]: "length (list_of v) = 8"
  by (cases v rule: vars_cases) (simp add: list_of_def)

lemma compressBlock_fips:
  assumes "octets bs" and "b + 64 \<le> length bs" and "length hash = 8"
  shows "map w32 (compressBlock bs b hash) = fips_block (to_words bs) b (map w32 hash)"
proof -
  let ?v = "fold (round_step (schedule_words bs b)) [0..<64] (vars_of hash)"
  have "fold (fips_round (to_words bs) b) [0..<64] (vars_of (map w32 hash)) = vars_map w32 ?v"
    using rounds_fips [OF schedule_filled [OF assms(1,2)]] assms(3) by (simp only: vars_of_map order_refl)
  then show ?thesis
    by (simp add: compressBlock_def fips_block_def list_of_map list_eq_iff_nth_eq w32_ops(8) add.commute)
qed

lemma length_compressBlock [simp]: "length hash = 8 \<Longrightarrow> length (compressBlock bs b hash) = 8"
  by (simp add: compressBlock_def)

lemma blocks_fips:
  assumes "octets bs" and "n * 64 \<le> length bs"
  shows "map w32 (fold (compressBlock bs) (map (\<lambda>k. 64 * k) [0..<n]) H0) = fold (\<lambda>k. fips_block (to_words bs) (64 * k)) [0..<n] fips_H \<and>
    length (fold (compressBlock bs) (map (\<lambda>k. 64 * k) [0..<n]) H0) = 8"
  using assms(2)
proof (induction n)
  case 0
  then show ?case by (simp add: fips_H_eq H0_def)
next
  case (Suc n)
  then show ?case using compressBlock_fips [OF assms(1), of "64 * n"] by simp
qed

section \<open>Texts as bytes\<close>

abbreviation code_point :: "int \<Rightarrow> bool" where "code_point c \<equiv> 0 \<le> c \<and> c < 0x110000"

lemma continuation_byte: "0 \<le> x \<Longrightarrow> x < 2 ^ 31 \<Longrightarrow> js_or 0x80 (js_and x 0x3f) = 0x80 + x mod 64"
  using js_mask [of x 6] js_or_disjoint [of "x mod 64" 6 2] by simp

lemma lead_bytes:
  "0 \<le> x \<Longrightarrow> x < 32 \<Longrightarrow> js_or 0xc0 x = 0xc0 + x"
  "0 \<le> x \<Longrightarrow> x < 16 \<Longrightarrow> js_or 0xe0 x = 0xe0 + x"
  "0 \<le> x \<Longrightarrow> x < 8 \<Longrightarrow> js_or 0xf0 x = 0xf0 + x"
  using js_or_disjoint [of x 5 6] js_or_disjoint [of x 4 14] js_or_disjoint [of x 3 30] by simp_all

lemma code_point_div:
  assumes "code_point c"
  shows "0 \<le> c div 64" "c div 64 < 2 ^ 31" "0 \<le> c div 4096" "c div 4096 < 2 ^ 31" "0 \<le> c div 262144" "c div 262144 < 8"
    "c < 0x10000 \<Longrightarrow> c div 4096 < 16" "c < 0x800 \<Longrightarrow> c div 64 < 32"
proof -
  have c: "0 \<le> c" "c < 0x110000" using assms by simp_all
  have up: "c div k < n" if "c < n * k" "0 < k" for k n
  proof (rule ccontr)
    assume "\<not> c div k < n"
    then have "n * k \<le> c div k * k" using that(2) by simp
    moreover have "c div k * k \<le> c" using that(2) pos_mod_sign [of k c] by (simp add: minus_mod_eq_div_mult [symmetric])
    ultimately show False using that(1) by linarith
  qed
  show "c div 64 < 2 ^ 31" "c div 4096 < 2 ^ 31" "c div 262144 < 8" using c by (intro up; simp)+
  show "c < 0x10000 \<Longrightarrow> c div 4096 < 16" "c < 0x800 \<Longrightarrow> c div 64 < 32" by (intro up; simp)+
  show "0 \<le> c div 64" "0 \<le> c div 4096" "0 \<le> c div 262144" using c(1) by (simp_all only: pos_imp_zdiv_nonneg_iff zero_less_numeral)
qed

lemma utf8_char_arith:
  assumes "code_point c"
  shows "utf8_char c =
    (if c < 0x80 then [c]
     else if c < 0x800 then [0xc0 + c div 64, 0x80 + c mod 64]
     else if c < 0x10000 then [0xe0 + c div 4096, 0x80 + c div 64 mod 64, 0x80 + c mod 64]
     else [0xf0 + c div 262144, 0x80 + c div 4096 mod 64, 0x80 + c div 64 mod 64, 0x80 + c mod 64])"
proof -
  have shifts: "js_shr c 6 = c div 64" "js_shr c 12 = c div 4096" "js_shr c 18 = c div 262144"
    using assms js_shr_small [of c 6] js_shr_small [of c 12] js_shr_small [of c 18] by simp_all
  have low: "js_or 0x80 (js_and c 0x3f) = 0x80 + c mod 64"
    "js_or 0x80 (js_and (c div 64) 0x3f) = 0x80 + c div 64 mod 64"
    "js_or 0x80 (js_and (c div 4096) 0x3f) = 0x80 + c div 4096 mod 64"
    using assms by (simp_all add: continuation_byte code_point_div(1-4) [OF assms, simplified] del: js_mask)
  have high: "c < 0x800 \<Longrightarrow> js_or 0xc0 (c div 64) = 0xc0 + c div 64"
    "c < 0x10000 \<Longrightarrow> js_or 0xe0 (c div 4096) = 0xe0 + c div 4096"
    "js_or 0xf0 (c div 262144) = 0xf0 + c div 262144"
    by (simp_all add: lead_bytes code_point_div [OF assms])
  show ?thesis by (simp add: utf8_char_def shifts low high)
qed

lemma utf8Bytes_concat: "utf8Bytes cs = concat (map utf8_char cs)"
proof -
  have "fold (\<lambda>c bs. bs @ utf8_char c) cs bs = bs @ concat (map utf8_char cs)" for bs
    by (induction cs arbitrary: bs) simp_all
  then show ?thesis by (simp add: utf8Bytes_def)
qed

lemma octets_utf8_char: "code_point c \<Longrightarrow> octets (utf8_char c)"
proof -
  assume c: "code_point c"
  have low: "0 \<le> 0x80 + x mod (64::int)" "0x80 + x mod 64 < (256::int)" for x
  proof -
    have "0 \<le> x mod 64" "x mod 64 < 64" by simp_all
    moreover have "0 \<le> 0x80 + y \<and> 0x80 + y < 256" if "0 \<le> y" "y < 64" for y :: int using that by simp
    ultimately show "0 \<le> 0x80 + x mod (64::int)" "0x80 + x mod 64 < (256::int)" by blast+
  qed
  have lead: "c < 0x800 \<Longrightarrow> 0xc0 + c div 64 < 256" "c < 0x10000 \<Longrightarrow> 0xe0 + c div 4096 < 256" "0xf0 + c div 262144 < 256"
    "0 \<le> 0xc0 + c div 64" "0 \<le> 0xe0 + c div 4096" "0 \<le> 0xf0 + c div 262144" "0 \<le> c" "c < 0x80 \<Longrightarrow> c < 256"
    using code_point_div(1,3,5,6,7,8) [OF c] c by simp_all
  show ?thesis
    by (simp only: utf8_char_arith [OF c] list.set ball_simps low lead split: if_split) (use lead in blast)
qed

lemma octets_utf8: "\<forall>c \<in> set cs. code_point c \<Longrightarrow> octets (utf8Bytes cs)"
  using octets_utf8_char by (auto simp: utf8Bytes_concat)

text \<open>A decoder: the first byte says how many continuation bytes follow.\<close>

fun utf8_decode :: "int list \<Rightarrow> int list option" where
  "utf8_decode [] = Some []"
| "utf8_decode (b # bs) =
     (if b < 0x80 then map_option (Cons b) (utf8_decode bs)
      else if b < 0xe0 then
        (case bs of c1 # bs' \<Rightarrow> map_option (Cons ((b - 0xc0) * 64 + (c1 - 0x80))) (utf8_decode bs') | _ \<Rightarrow> None)
      else if b < 0xf0 then
        (case bs of c1 # c2 # bs' \<Rightarrow> map_option (Cons ((b - 0xe0) * 4096 + (c1 - 0x80) * 64 + (c2 - 0x80))) (utf8_decode bs') | _ \<Rightarrow> None)
      else
        (case bs of c1 # c2 # c3 # bs' \<Rightarrow>
           map_option (Cons ((b - 0xf0) * 262144 + (c1 - 0x80) * 4096 + (c2 - 0x80) * 64 + (c3 - 0x80))) (utf8_decode bs')
         | _ \<Rightarrow> None))"

lemma utf8_decode_lead:
  "b < 0x80 \<Longrightarrow> utf8_decode (b # bs) = map_option (Cons b) (utf8_decode bs)"
  "0 \<le> x \<Longrightarrow> x < 32 \<Longrightarrow> utf8_decode ((0xc0 + x) # (0x80 + y) # bs) = map_option (Cons (x * 64 + y)) (utf8_decode bs)"
  "0 \<le> x \<Longrightarrow> x < 16 \<Longrightarrow> utf8_decode ((0xe0 + x) # (0x80 + y) # (0x80 + z) # bs) =
    map_option (Cons (x * 4096 + y * 64 + z)) (utf8_decode bs)"
  "0 \<le> x \<Longrightarrow> utf8_decode ((0xf0 + x) # (0x80 + y) # (0x80 + z) # (0x80 + v) # bs) =
    map_option (Cons (x * 262144 + y * 4096 + z * 64 + v)) (utf8_decode bs)"
  by (simp_all add: add.assoc)

lemma base_64:
  fixes c :: int
  shows "c div 64 * 64 + c mod 64 = c" "c div 4096 * 4096 + c div 64 mod 64 * 64 + c mod 64 = c"
    "c div 262144 * 262144 + c div 4096 mod 64 * 4096 + c div 64 mod 64 * 64 + c mod 64 = c"
proof -
  have two: "q2 * 4096 + r2 * 64 + r1 = x" if "q1 * 64 + r1 = x" "q2 * 64 + r2 = q1" for x q1 q2 r1 r2 :: int
    using that by auto
  have three: "q3 * 262144 + r3 * 4096 + r2 * 64 + r1 = x" if "q1 * 64 + r1 = x" "q2 * 64 + r2 = q1" "q3 * 64 + r3 = q2"
    for x q1 q2 q3 r1 r2 r3 :: int using that by auto
  have one: "x div 64 * 64 + x mod 64 = x" for x :: int by simp
  have div: "c div 4096 = c div 64 div 64" "c div 262144 = c div 64 div 64 div 64" by (simp_all add: zdiv_zmult2_eq [symmetric])
  show "c div 64 * 64 + c mod 64 = c" by (rule one)
  show "c div 4096 * 4096 + c div 64 mod 64 * 64 + c mod 64 = c" unfolding div by (rule two [OF one one])
  show "c div 262144 * 262144 + c div 4096 mod 64 * 4096 + c div 64 mod 64 * 64 + c mod 64 = c"
    unfolding div by (rule three [OF one one one])
qed

lemma utf8_decode_char:
  assumes "code_point c"
  shows "utf8_decode (utf8_char c @ bs) = map_option (Cons c) (utf8_decode bs)"
  using assms code_point_div [OF assms]
  by (simp only: utf8_char_arith [OF assms] append.simps utf8_decode_lead split: if_split) (simp add: base_64)

text \<open>
  The bytes of a text determine it: a decoder that follows the lead bytes reads the text back.
\<close>

theorem utf8_roundtrip:
  assumes "\<forall>c \<in> set cs. 0 \<le> c \<and> c < 0x110000"
  shows "utf8_decode (utf8Bytes cs) = Some cs"
  using assms by (induction cs) (simp_all add: utf8Bytes_concat utf8_decode_char)

theorem utf8_roundtrip_witness:
  "utf8_decode (utf8Bytes [0x41, 0xe9, 0x20ac, 0x1f600]) = Some [0x41, 0xe9, 0x20ac, 0x1f600]"
  by (rule utf8_roundtrip) simp

section \<open>The hash\<close>

lemma digest_bytes: "concat (map be_bytes hash) = map uint (concat (map be_split (map w32 hash)))"
  by (induction hash) (simp_all add: be_bytes_split del: map_map)

text \<open>
  C35. On every input \<open>sha256Bytes\<close> is the SHA-256 of the standard, byte for byte: the round constants are
  the roots of the primes, the JavaScript operators stay within 32 bits, and the padding and the loops are
  those of the standard.
\<close>

theorem sha256_is_fips:
  assumes "\<forall>c \<in> set cs. 0 \<le> c \<and> c < 0x110000"
  shows "sha256Bytes cs = map uint (fips_sha256 (map word_of_int (utf8Bytes cs)))"
proof -
  let ?padded = "padMessage (utf8Bytes cs)"
  let ?n = "length ?padded div 64"
  have n: "length ?padded = 64 * ?n" using length_padded [of "utf8Bytes cs"] by (metis dvd_mult_div_cancel mod_0_imp_dvd)
  then have "(length ?padded + 63) div 64 = ?n" by linarith
  then have starts: "block_starts (length ?padded) = map (\<lambda>k. 64 * k) [0..<?n]" by (simp add: block_starts_def)
  have o: "octets ?padded" by (rule octets_pad [OF octets_utf8 [OF assms]])
  let ?hash = "fold (compressBlock ?padded) (map (\<lambda>k. 64 * k) [0..<?n]) H0"
  have "map w32 ?hash = fold (\<lambda>k. fips_block (to_words ?padded) (64 * k)) [0..<?n] fips_H"
    using blocks_fips [OF o, of ?n] n by simp
  then have "sha256Bytes cs = map uint (concat (map be_split
      (fold (\<lambda>k. fips_block (to_words ?padded) (64 * k)) [0..<?n] fips_H)))"
    by (simp only: sha256Bytes_def Let_def starts digest_bytes)
  moreover have "length (fips_pad (to_words (utf8Bytes cs))) = length ?padded"
    by (simp add: padMessage_words [symmetric])
  ultimately show ?thesis by (simp add: fips_sha256_def Let_def padMessage_words)
qed

theorem sha256_is_fips_witness:
  "sha256Bytes [0x61, 0x62, 0x63] = map uint (fips_sha256 (map word_of_int (utf8Bytes [0x61, 0x62, 0x63])))"
  by (rule sha256_is_fips) simp

end
