(* ===== verification/CallSecurity.thy ===== *)
theory CallSecurity
  imports Sha256Properties
begin

text \<open>
  The verification code of a call: \<open>mobile/src/call/sas.ts\<close>, \<open>sasWords.ts\<close>, \<open>callFingerprints.ts\<close>,
  \<open>mobile/src/hooks/useCallSecurity.ts\<close> and the verification log of \<open>settingsStorage.ts\<close>. The hook is a
  state with one operation per effect and callback; the file is the list of its entries, \<open>None\<close> for a value
  that is no complete record.
\<close>

section \<open>Fingerprints\<close>

definition SAS_WORD_COUNT :: nat where "SAS_WORD_COUNT = 4"

definition SAS_DOMAIN :: string where "SAS_DOMAIN = ''wetalk-sas-v1''"

definition SAS_WORDS :: "string list" where
  "SAS_WORDS =
    [''acorn'', ''actor'', ''agent'', ''album'', ''alien'', ''alpha'', ''amber'', ''anchor'',
     ''angle'', ''ankle'', ''apple'', ''april'', ''arena'', ''armor'', ''arrow'', ''artist'',
     ''aspect'', ''atlas'', ''attic'', ''author'', ''autumn'', ''avocado'', ''awake'', ''bacon'',
     ''badge'', ''bagel'', ''baker'', ''balcony'', ''bamboo'', ''banjo'', ''barrel'', ''basil'',
     ''basket'', ''beacon'', ''beaver'', ''bench'', ''berry'', ''bicycle'', ''bishop'', ''bison'',
     ''blanket'', ''blossom'', ''bobcat'', ''bonus'', ''border'', ''bottle'', ''boulder'', ''bracket'',
     ''branch'', ''bridge'', ''bronze'', ''brush'', ''bubble'', ''bucket'', ''buffalo'', ''bundle'',
     ''bunker'', ''burger'', ''butler'', ''button'', ''cabin'', ''cactus'', ''camel'', ''candle'',
     ''canvas'', ''canyon'', ''carbon'', ''cargo'', ''carpet'', ''carrot'', ''castle'', ''cavern'',
     ''cedar'', ''cello'', ''cement'', ''census'', ''chapel'', ''cherry'', ''chimney'', ''cinema'',
     ''circus'', ''clover'', ''cobra'', ''cocoa'', ''coffee'', ''collar'', ''comet'', ''compass'',
     ''copper'', ''coral'', ''cotton'', ''cougar'', ''cousin'', ''cowboy'', ''crater'', ''cricket'',
     ''crystal'', ''cupcake'', ''curtain'', ''cushion'', ''cymbal'', ''dagger'', ''dahlia'', ''dancer'',
     ''delta'', ''denim'', ''dentist'', ''desert'', ''diamond'', ''diesel'', ''dinner'', ''dolphin'',
     ''domino'', ''donkey'', ''dragon'', ''drummer'', ''eagle'', ''eclipse'', ''elbow'', ''elder'',
     ''elephant'', ''elmwood'', ''ember'', ''emerald'', ''engine'', ''envelope'', ''escort'', ''fabric'',
     ''falcon'', ''farmer'', ''feather'', ''fender'', ''ferry'', ''fiddle'', ''finger'', ''flamingo'',
     ''flannel'', ''flask'', ''flute'', ''forest'', ''fossil'', ''fountain'', ''fragment'', ''freezer'',
     ''frost'', ''galaxy'', ''gallery'', ''garlic'', ''gazelle'', ''gecko'', ''ginger'', ''glacier'',
     ''glider'', ''granite'', ''grape'', ''gravel'', ''guitar'', ''hamlet'', ''hammer'', ''hamster'',
     ''harbor'', ''harvest'', ''hazel'', ''helmet'', ''heron'', ''hickory'', ''hollow'', ''honey'',
     ''hornet'', ''hostel'', ''hubcap'', ''hunter'', ''iceberg'', ''igloo'', ''impala'', ''indigo'',
     ''insect'', ''island'', ''ivory'', ''jacket'', ''jaguar'', ''jasmine'', ''jersey'', ''jigsaw'',
     ''jockey'', ''journal'', ''juniper'', ''kayak'', ''kettle'', ''kitten'', ''koala'', ''ladder'',
     ''lagoon'', ''lantern'', ''laptop'', ''lasso'', ''laundry'', ''lemon'', ''leopard'', ''lettuce'',
     ''lilac'', ''lobster'', ''locket'', ''lumber'', ''magnet'', ''mailbox'', ''mammoth'', ''mandolin'',
     ''mango'', ''maple'', ''marble'', ''marina'', ''market'', ''meadow'', ''melon'', ''meteor'',
     ''mimosa'', ''mirror'', ''mitten'', ''monkey'', ''moose'', ''mosaic'', ''muffin'', ''mustard'',
     ''napkin'', ''nectar'', ''needle'', ''nickel'', ''nutmeg'', ''oatmeal'', ''observer'', ''octopus'',
     ''olive'', ''onion'', ''orbit'', ''orchard'', ''ostrich'', ''otter'', ''oxygen'', ''oyster'',
     ''paddle'', ''palace'', ''pancake'', ''panther'', ''papaya'', ''parrot'', ''pasta'', ''peanut'',
     ''pebble'', ''pelican'', ''pepper'', ''phantom'', ''piano'', ''pigeon'', ''pilot'', ''pirate'']"

record fingerprints =
  fp_local :: string
  fp_remote :: string

datatype fingerprint_change = First_Contact | Unchanged | Rotated | Remote_Changed

datatype security_status = Sec_Unavailable | Sec_Unverified | Sec_Verified | Sec_Changed

record security_state =
  sec_status :: security_status
  sec_words :: "string list option"
  sec_fingerprints :: "fingerprints option"
  sec_change :: "fingerprint_change option"

definition UNAVAILABLE_CALL_SECURITY :: security_state where
  "UNAVAILABLE_CALL_SECURITY =
     \<lparr>sec_status = Sec_Unavailable, sec_words = None, sec_fingerprints = None, sec_change = None\<rparr>"

record peer_verification =
  pv_local :: string
  pv_remote :: string
  pv_sas :: string
  pv_at :: int

definition normalizeFingerprint :: "string \<Rightarrow> string \<Rightarrow> string" where
  "normalizeFingerprint algorithm value = map lower_char algorithm @ '' '' @ map upper_char value"

definition hex_or_colon :: "char \<Rightarrow> bool" where
  "hex_or_colon ch = (ch \<in> set ''0123456789abcdefABCDEF:'')"

text \<open>\<open>FINGERPRINT_LINE.exec\<close> on a trimmed line: the two groups.\<close>

definition FINGERPRINT_LINE :: "string \<Rightarrow> (string \<times> string) option" where
  "FINGERPRINT_LINE line =
     (let prefix = ''a=fingerprint:''; rest = drop (length prefix) line;
          algorithm = takeWhile (\<lambda>ch. \<not> space_char ch) rest;
          gap = dropWhile (\<lambda>ch. \<not> space_char ch) rest;
          value = dropWhile space_char gap
      in if take (length prefix) line = prefix \<and> algorithm \<noteq> [] \<and> gap \<noteq> [] \<and> value \<noteq> [] \<and> list_all hex_or_colon value
         then Some (algorithm, value) else None)"

text \<open>\<open>split(/\r\n|\r|\n/)\<close>.\<close>

fun sdp_lines :: "string \<Rightarrow> string list" where
  "sdp_lines [] = [[]]"
| "sdp_lines (ch # cs) =
     (if of_char ch = (13::nat) then
        (case cs of
           ch' # cs' \<Rightarrow> if of_char ch' = (10::nat) then [] # sdp_lines cs' else [] # sdp_lines cs
         | [] \<Rightarrow> [] # sdp_lines cs)
      else if of_char ch = (10::nat) then [] # sdp_lines cs
      else (case sdp_lines cs of l # ls \<Rightarrow> (ch # l) # ls | [] \<Rightarrow> [[ch]]))"

fun scan_lines :: "string list \<Rightarrow> string option \<Rightarrow> string option" where
  "scan_lines [] found = found"
| "scan_lines (line # ls) found =
     (case FINGERPRINT_LINE (trim line) of
        None \<Rightarrow> scan_lines ls found
      | Some (algorithm, value) \<Rightarrow>
          (let fingerprint = normalizeFingerprint algorithm value
           in if str_truthy found \<and> found \<noteq> Some fingerprint then None else scan_lines ls (Some fingerprint)))"

definition parseSdpFingerprint :: "string option \<Rightarrow> string option" where
  "parseSdpFingerprint sdp = (if \<not> str_truthy sdp then None else scan_lines (sdp_lines (the sdp)) None)"

text \<open>The descriptions of the peer connection; \<open>None\<close> when there is no connection.\<close>

definition readCallFingerprints :: "(string option \<times> string option) option \<Rightarrow> fingerprints option" where
  "readCallFingerprints pc =
     (case pc of
        None \<Rightarrow> None
      | Some (local_sdp, remote_sdp) \<Rightarrow>
          (let l = parseSdpFingerprint local_sdp; r = parseSdpFingerprint remote_sdp
           in if \<not> str_truthy l \<or> \<not> str_truthy r \<or> l = r then None
              else Some \<lparr>fp_local = the l, fp_remote = the r\<rparr>))"

section \<open>The code and what may be claimed\<close>

definition sas_text :: "fingerprints \<Rightarrow> int list" where
  "sas_text f =
     (let (x, y) = (if fp_local f \<le> fp_remote f then (fp_local f, fp_remote f) else (fp_remote f, fp_local f))
      in map of_char (SAS_DOMAIN @ ''|'' @ x @ ''|'' @ y))"

definition deriveSasWords :: "fingerprints \<Rightarrow> string list" where
  "deriveSasWords f = map (\<lambda>byte. SAS_WORDS ! nat byte) (take SAS_WORD_COUNT (sha256Bytes (sas_text f)))"

fun join_words :: "string list \<Rightarrow> string" where
  "join_words [] = []"
| "join_words [w] = w"
| "join_words (w # ws) = w @ '' '' @ join_words ws"

definition formatSasWords :: "string list option \<Rightarrow> string" where
  "formatSasWords ws = join_words (or_empty ws)"

definition classifyFingerprintChange :: "peer_verification option \<Rightarrow> fingerprints \<Rightarrow> fingerprint_change" where
  "classifyFingerprintChange previous current =
     (case previous of
        None \<Rightarrow> First_Contact
      | Some p \<Rightarrow>
          (let local_matches = (pv_local p = fp_local current); remote_matches = (pv_remote p = fp_remote current)
           in if local_matches \<and> remote_matches then Unchanged
              else if \<not> local_matches then Rotated else Remote_Changed))"

definition describeCallSecurity :: "fingerprints option \<Rightarrow> peer_verification option \<Rightarrow> security_state" where
  "describeCallSecurity fp previous =
     (case fp of
        None \<Rightarrow> UNAVAILABLE_CALL_SECURITY
      | Some f \<Rightarrow>
          (let change = classifyFingerprintChange previous f
           in \<lparr>sec_status = (if change = Unchanged then Sec_Verified
                             else if change = Remote_Changed then Sec_Changed else Sec_Unverified),
               sec_words = Some (deriveSasWords f), sec_fingerprints = Some f, sec_change = Some change\<rparr>))"

definition describeCallSecurityBadge :: "security_status \<Rightarrow> string" where
  "describeCallSecurityBadge st =
     (case st of
        Sec_Verified \<Rightarrow> ''Verified''
      | Sec_Changed \<Rightarrow> ''Key changed''
      | Sec_Unverified \<Rightarrow> ''Verify code''
      | Sec_Unavailable \<Rightarrow> ''Code unavailable'')"

section \<open>The verification log\<close>

definition MAX_CALL_VERIFICATION_ENTRIES :: nat where "MAX_CALL_VERIFICATION_ENTRIES = 200"

type_synonym verification_map = "(string \<times> peer_verification) list"

type_synonym verification_file = "(string \<times> peer_verification option) list option"

text \<open>
  \<open>None\<close>: the file is missing, unreadable or no JSON object. The identifiers of peers are taken not to be
  numerals, which an object would move to the front.
\<close>

definition loadPeerVerifications :: "verification_file \<Rightarrow> verification_map" where
  "loadPeerVerifications file =
     take MAX_CALL_VERIFICATION_ENTRIES
       (List.map_filter (\<lambda>(peer, v). if peer = [] then None else map_option (Pair peer) v) (or_empty file))"

text \<open>\<open>writable\<close> says whether the write succeeds.\<close>

definition savePeerVerifications :: "bool \<Rightarrow> verification_map \<Rightarrow> verification_file \<Rightarrow> bool \<times> verification_file" where
  "savePeerVerifications writable m file =
     (if writable then (True, Some (map (\<lambda>(peer, v). (peer, Some v)) (take MAX_CALL_VERIFICATION_ENTRIES m)))
      else (False, file))"

section \<open>The hook\<close>

definition FINGERPRINT_POLL_ATTEMPTS :: nat where "FINGERPRINT_POLL_ATTEMPTS = 10"

record security_hook =
  sh_fingerprints :: "fingerprints option"
  sh_verifications :: verification_map
  sh_peer :: "string option"
  sh_attempts :: nat
  sh_polling :: bool   \<comment> \<open>a timer for the next read is running\<close>
  sh_file :: verification_file

definition fresh_hook :: "verification_file \<Rightarrow> security_hook" where
  "fresh_hook file = \<lparr>sh_fingerprints = None, sh_verifications = [], sh_peer = None, sh_attempts = 0,
     sh_polling = False, sh_file = file\<rparr>"

definition log_loaded :: "security_hook \<Rightarrow> security_hook" where
  "log_loaded h = h\<lparr>sh_verifications := loadPeerVerifications (sh_file h)\<rparr>"

definition readOnce :: "(string option \<times> string option) option \<Rightarrow> security_hook \<Rightarrow> security_hook" where
  "readOnce pc h =
     (case readCallFingerprints pc of
        None \<Rightarrow> h\<lparr>sh_attempts := sh_attempts h - 1, sh_polling := 0 < sh_attempts h - 1\<rparr>
      | Some f \<Rightarrow> h\<lparr>sh_fingerprints := Some f, sh_polling := False\<rparr>)"

text \<open>The effect of \<open>isInCall\<close>: the polling starts with the call and ends with it.\<close>

definition in_call_changed :: "bool \<Rightarrow> (string option \<times> string option) option \<Rightarrow> security_hook \<Rightarrow> security_hook" where
  "in_call_changed in_call pc h =
     (if \<not> in_call then h\<lparr>sh_fingerprints := None, sh_polling := False\<rparr>
      else readOnce pc (h\<lparr>sh_attempts := FINGERPRINT_POLL_ATTEMPTS, sh_polling := False\<rparr>))"

definition poll_timer_fires :: "(string option \<times> string option) option \<Rightarrow> security_hook \<Rightarrow> security_hook" where
  "poll_timer_fires pc h = (if sh_polling h then readOnce pc h else h)"

definition peer_changed :: "string option \<Rightarrow> security_hook \<Rightarrow> security_hook" where
  "peer_changed peer h = h\<lparr>sh_peer := peer\<rparr>"

definition callSecurity :: "security_hook \<Rightarrow> security_state" where
  "callSecurity h =
     describeCallSecurity (sh_fingerprints h)
       (if str_truthy (sh_peer h) then map_of (sh_verifications h) (the (sh_peer h)) else None)"

definition confirmCallSecurity :: "int \<Rightarrow> bool \<Rightarrow> security_hook \<Rightarrow> bool \<times> security_hook" where
  "confirmCallSecurity nw writable h =
     (case sh_fingerprints h of
        Some f \<Rightarrow>
          if \<not> str_truthy (sh_peer h) then (False, h)
          else
            (let peer = the (sh_peer h);
                 entry = \<lparr>pv_local = fp_local f, pv_remote = fp_remote f, pv_sas = formatSasWords (Some (deriveSasWords f)), pv_at = nw\<rparr>;
                 nxt = (peer, entry) # filter (\<lambda>(p, _). p \<noteq> peer) (sh_verifications h);
                 (ok, file) = savePeerVerifications writable nxt (sh_file h)
             in (ok, h\<lparr>sh_verifications := nxt, sh_file := file\<rparr>))
      | None \<Rightarrow> (False, h))"

end
