(* ===== verification/CallSecurityProperties.thy ===== *)
theory CallSecurityProperties
  imports CallSecurity
begin

text \<open>
  What the verification code promises: both ends show the same words, a code is shown for one key only, and a
  call is called verified only when a user confirmed this very pair of keys with this very peer.
\<close>

section \<open>The words\<close>

lemma sha256_digest: "length (sha256Bytes cs) = 32" "octets (sha256Bytes cs)"
proof -
  have len: "length (fold (compressBlock p) bs hash) = 8" if "length hash = 8" for p bs hash
    using that by (induction bs arbitrary: hash) simp_all
  have words: "length (concat (map be_bytes hash)) = 4 * length hash" for hash
    by (induction hash) (simp_all add: be_bytes_def be_shifts_def)
  have h: "length H0 = 8" by (simp add: H0_def)
  show "length (sha256Bytes cs) = 32" by (simp only: sha256Bytes_def Let_def words len [OF h])
  show "octets (sha256Bytes cs)" unfolding sha256Bytes_def Let_def digest_bytes by (rule octets_uint)
qed

lemma length_SAS_WORDS: "length SAS_WORDS = 256"
  by (simp add: SAS_WORDS_def)

text \<open>The vocabulary is in alphabetical order.\<close>

lemma sorted_SAS_WORDS: "successively (<) SAS_WORDS"
  by code_simp

lemma distinct_SAS_WORDS: "distinct SAS_WORDS"
  using sorted_SAS_WORDS by (simp add: successively_conv_sorted_wrt transp_on_less strict_sorted_iff)

lemma sas_word_inj:
  assumes "0 \<le> x" "x < 256" "0 \<le> y" "y < 256" and "SAS_WORDS ! nat x = SAS_WORDS ! nat y"
  shows "x = y"
proof -
  have "nat x < 256" "nat y < 256" using assms(2,4) by simp_all
  with assms(5) have "nat x = nat y" by (intro iffD1 [OF nth_eq_iff_index_eq [OF distinct_SAS_WORDS]]) (simp_all only: length_SAS_WORDS)
  then show ?thesis using assms(1,3) by simp
qed

lemma sas_words_inj:
  assumes "octets xs" "octets ys" and "map (\<lambda>b. SAS_WORDS ! nat b) xs = map (\<lambda>b. SAS_WORDS ! nat b) ys"
  shows "xs = ys"
  using assms
proof (induction xs arbitrary: ys)
  case (Cons x xs)
  then obtain y ys' where ys: "ys = y # ys'" by (cases ys) simp_all
  have "x = y" using Cons.prems by (intro sas_word_inj) (simp_all add: ys)
  moreover have "xs = ys'" using Cons.prems by (intro Cons.IH) (simp_all add: ys)
  ultimately show ?case by (simp add: ys)
qed simp

lemma octets_take: "octets xs \<Longrightarrow> octets (take n xs)"
  by (meson in_set_takeD)

text \<open>
  The code of a call is four words of the vocabulary. The two handsets, which disagree about which
  fingerprint is the local one, show the same code; and two pairs of keys show the same code only if the first
  32 bits of their hashes agree.
\<close>

theorem sas_code:
  "length (deriveSasWords f) = 4 \<and> set (deriveSasWords f) \<subseteq> set SAS_WORDS \<and>
   deriveSasWords \<lparr>fp_local = fp_remote f, fp_remote = fp_local f\<rparr> = deriveSasWords f \<and>
   (deriveSasWords f = deriveSasWords g \<longleftrightarrow> take 4 (sha256Bytes (sas_text f)) = take 4 (sha256Bytes (sas_text g)))"
proof (intro conjI)
  let ?d = "\<lambda>f. take 4 (sha256Bytes (sas_text f))"
  have d: "deriveSasWords f = map (\<lambda>b. SAS_WORDS ! nat b) (?d f)" for f by (simp add: deriveSasWords_def SAS_WORD_COUNT_def)
  have o: "octets (?d f)" for f by (rule octets_take [OF sha256_digest(2)])
  show "length (deriveSasWords f) = 4" by (simp add: d sha256_digest(1))
  show "set (deriveSasWords f) \<subseteq> set SAS_WORDS"
  proof -
    have "SAS_WORDS ! nat b \<in> set SAS_WORDS" if "0 \<le> b" "b < 256" for b
      using that by (intro nth_mem) (simp add: length_SAS_WORDS)
    with o [of f] show ?thesis by (auto simp: d)
  qed
  have "sas_text \<lparr>fp_local = fp_remote f, fp_remote = fp_local f\<rparr> = sas_text f" by (auto simp: sas_text_def)
  then show "deriveSasWords \<lparr>fp_local = fp_remote f, fp_remote = fp_local f\<rparr> = deriveSasWords f" by (simp add: deriveSasWords_def)
  show "(deriveSasWords f = deriveSasWords g) = (?d f = ?d g)"
    using sas_words_inj [OF o o] by (auto simp: d)
qed

section \<open>One key per description\<close>

definition line_key :: "string \<Rightarrow> string option" where
  "line_key line = map_option (\<lambda>(a, v). normalizeFingerprint a v) (FINGERPRINT_LINE (trim line))"

definition sdp_keys :: "string \<Rightarrow> string list" where
  "sdp_keys sdp = List.map_filter line_key (sdp_lines sdp)"

text \<open>The scan of the keys alone.\<close>

fun pin :: "string list \<Rightarrow> string option \<Rightarrow> string option" where
  "pin [] found = found"
| "pin (k # ks) found = (if str_truthy found \<and> found \<noteq> Some k then None else pin ks (Some k))"

lemma scan_lines_pin: "scan_lines ls found = pin (List.map_filter line_key ls) found"
  by (induction ls arbitrary: found) (auto simp: List.map_filter_simps line_key_def Let_def split: option.split)

lemma pin_Some: "[] \<notin> set ks \<Longrightarrow> k \<noteq> [] \<Longrightarrow> pin ks (Some k) = (if set ks \<subseteq> {k} then Some k else None)"
  by (induction ks arbitrary: k) auto

lemma set_map_filter_image: "set (List.map_filter f xs) = {y. \<exists>x \<in> set xs. f x = Some y}"
  by (force simp: List.map_filter_def)

lemma line_key_not_Nil: "line_key line \<noteq> Some []"
  by (auto simp: line_key_def normalizeFingerprint_def)

text \<open>
  A description has a fingerprint exactly when all the fingerprint lines it has, and at least one, name
  the same key, however they spell it.
\<close>

theorem sdp_pins_one_key:
  "parseSdpFingerprint (Some sdp) = Some f \<longleftrightarrow> set (sdp_keys sdp) = {f}"
proof -
  have n: "[] \<notin> set (sdp_keys sdp)" using line_key_not_Nil by (auto simp: sdp_keys_def set_map_filter_image)
  then have "pin (sdp_keys sdp) None = Some f \<longleftrightarrow> set (sdp_keys sdp) = {f}"
    by (cases "sdp_keys sdp") (auto simp: pin_Some split: if_splits)
  then have "scan_lines (sdp_lines sdp) None = Some f \<longleftrightarrow> set (sdp_keys sdp) = {f}"
    by (simp add: scan_lines_pin sdp_keys_def)
  moreover have "sdp_keys [] = []" by code_simp
  ultimately show ?thesis by (auto simp: parseSdpFingerprint_def)
qed

section \<open>Verified means confirmed\<close>

datatype hook_event =
    Log_Loaded
  | In_Call bool "(string option \<times> string option) option"
  | Poll_Timer "(string option \<times> string option) option"
  | Peer_Changed "string option"
  | Confirm int bool

fun hook_step :: "hook_event \<Rightarrow> security_hook \<Rightarrow> security_hook" where
  "hook_step Log_Loaded h = log_loaded h"
| "hook_step (In_Call b pc) h = in_call_changed b pc h"
| "hook_step (Poll_Timer pc) h = poll_timer_fires pc h"
| "hook_step (Peer_Changed p) h = peer_changed p h"
| "hook_step (Confirm nw w) h = snd (confirmCallSecurity nw w h)"

definition hook_run :: "verification_file \<Rightarrow> hook_event list \<Rightarrow> security_hook" where
  "hook_run saved evs = fold hook_step evs (fresh_hook saved)"

text \<open>The user confirmed the pair \<open>l\<close>, \<open>r\<close> with the peer, in this session or in the log it started from.\<close>

definition confirmed :: "verification_file \<Rightarrow> hook_event list \<Rightarrow> string \<Rightarrow> string \<Rightarrow> string \<Rightarrow> bool" where
  "confirmed saved evs peer l r =
     ((\<exists>v. (peer, Some v) \<in> set (or_empty saved) \<and> pv_local v = l \<and> pv_remote v = r) \<or>
      (\<exists>before nw w rest. evs = before @ Confirm nw w # rest \<and> sh_peer (hook_run saved before) = Some peer \<and>
         sh_fingerprints (hook_run saved before) = Some \<lparr>fp_local = l, fp_remote = r\<rparr>))"

lemma confirmed_later: "confirmed saved evs peer l r \<Longrightarrow> confirmed saved (evs @ [ev]) peer l r"
  unfolding confirmed_def by (metis append_Cons append_assoc)

definition log_confirmed :: "verification_file \<Rightarrow> hook_event list \<Rightarrow> security_hook \<Rightarrow> bool" where
  "log_confirmed saved evs h =
     ((\<forall>(peer, v) \<in> set (sh_verifications h). confirmed saved evs peer (pv_local v) (pv_remote v)) \<and>
      (\<forall>(peer, v) \<in> set (or_empty (sh_file h)). \<forall>x. v = Some x \<longrightarrow> confirmed saved evs peer (pv_local x) (pv_remote x)))"

lemma log_confirmed_later: "log_confirmed saved evs h \<Longrightarrow> log_confirmed saved (evs @ [ev]) h"
  by (fastforce simp: log_confirmed_def intro: confirmed_later)

lemma log_confirmed_cong:
  "sh_verifications h' = sh_verifications h \<Longrightarrow> sh_file h' = sh_file h \<Longrightarrow> log_confirmed saved evs h' = log_confirmed saved evs h"
  by (simp add: log_confirmed_def)

lemma readOnce_log [simp]: "sh_verifications (readOnce pc h) = sh_verifications h" "sh_file (readOnce pc h) = sh_file h"
  by (simp_all add: readOnce_def split: option.split)

lemma log_confirmed_loaded: "log_confirmed saved evs h \<Longrightarrow> log_confirmed saved evs (log_loaded h)"
  by (fastforce simp: log_confirmed_def log_loaded_def loadPeerVerifications_def set_map_filter_image
      dest!: in_set_takeD split: if_splits)

lemma log_confirmed_confirm:
  assumes "log_confirmed saved evs (hook_run saved evs)"
  shows "log_confirmed saved (evs @ [Confirm nw w]) (snd (confirmCallSecurity nw w (hook_run saved evs)))"
proof -
  let ?h = "hook_run saved evs"
  have later: "log_confirmed saved (evs @ [Confirm nw w]) ?h" by (rule log_confirmed_later [OF assms])
  show ?thesis
  proof (cases "sh_fingerprints ?h = None \<or> \<not> str_truthy (sh_peer ?h)")
    case True
    then show ?thesis using later by (auto simp: confirmCallSecurity_def split: option.split)
  next
    case False
    then obtain f peer where f: "sh_fingerprints ?h = Some f" and p: "sh_peer ?h = Some peer" "peer \<noteq> []"
      by (auto simp: str_truthy_iff)
    have new: "confirmed saved (evs @ [Confirm nw w]) peer (fp_local f) (fp_remote f)"
      unfolding confirmed_def using f p by (intro disjI2 exI [of _ evs]) simp
    then show ?thesis using later f p
      by (fastforce simp: confirmCallSecurity_def Let_def savePeerVerifications_def log_confirmed_def dest!: in_set_takeD)
  qed
qed

lemma run_log_confirmed: "log_confirmed saved evs (hook_run saved evs)"
proof (induction evs rule: rev_induct)
  case Nil
  then show ?case by (auto simp: log_confirmed_def hook_run_def fresh_hook_def confirmed_def)
next
  case (snoc ev evs)
  have run: "hook_run saved (evs @ [ev]) = hook_step ev (hook_run saved evs)" by (simp add: hook_run_def)
  have "log_confirmed saved (evs @ [ev]) (hook_step ev (hook_run saved evs))"
  proof (cases ev)
    case Log_Loaded
    then show ?thesis using log_confirmed_loaded [OF log_confirmed_later [OF snoc]] by simp
  next
    case (Confirm nw w)
    then show ?thesis using log_confirmed_confirm [OF snoc] by simp
  qed (use log_confirmed_later [OF snoc] in
      \<open>simp_all add: log_confirmed_def in_call_changed_def poll_timer_fires_def peer_changed_def\<close>)
  then show ?case by (simp only: run)
qed

text \<open>
  C36. Whatever happens to the calls, the polling and the log, the chrome says \<open>verified\<close> only while the
  fingerprints of the call are known and the user confirmed exactly this pair with exactly this peer, in this
  session or in the log on disk.
\<close>

theorem verified_means_confirmed:
  assumes "sec_status (callSecurity (hook_run saved evs)) = Sec_Verified"
  shows "\<exists>peer f. sh_peer (hook_run saved evs) = Some peer \<and> sh_fingerprints (hook_run saved evs) = Some f \<and>
    confirmed saved evs peer (fp_local f) (fp_remote f)"
proof -
  let ?h = "hook_run saved evs"
  obtain f where f: "sh_fingerprints ?h = Some f"
    and c: "classifyFingerprintChange (if str_truthy (sh_peer ?h) then map_of (sh_verifications ?h) (the (sh_peer ?h)) else None) f = Unchanged"
    using assms by (auto simp: callSecurity_def describeCallSecurity_def UNAVAILABLE_CALL_SECURITY_def Let_def split: option.splits if_splits)
  from c obtain peer v where p: "sh_peer ?h = Some peer" "map_of (sh_verifications ?h) peer = Some v"
    and v: "pv_local v = fp_local f" "pv_remote v = fp_remote f"
    by (auto simp: classifyFingerprintChange_def Let_def str_truthy_iff split: option.splits if_splits)
  have "confirmed saved evs peer (pv_local v) (pv_remote v)"
    using run_log_confirmed [of saved evs] map_of_SomeD [OF p(2)] by (auto simp: log_confirmed_def)
  with f p v show ?thesis by auto
qed

definition demo_sdp :: "string \<Rightarrow> string option" where
  "demo_sdp key = Some (''v=0'' @ [char_of (13::nat), char_of (10::nat)] @ ''a=fingerprint:sha-256 '' @ key)"

definition demo_security :: "hook_event list" where
  "demo_security = [Peer_Changed (Some ''bob''), In_Call True (Some (demo_sdp ''aa:01'', demo_sdp ''BB:02'')), Confirm 5 True]"

theorem verified_means_confirmed_witness:
  "\<exists>peer f. sh_peer (hook_run None demo_security) = Some peer \<and> sh_fingerprints (hook_run None demo_security) = Some f \<and>
    confirmed None demo_security peer (fp_local f) (fp_remote f)"
proof (rule verified_means_confirmed)
  have "sh_fingerprints (hook_run None (butlast demo_security)) = Some \<lparr>fp_local = ''sha-256 AA:01'', fp_remote = ''sha-256 BB:02''\<rparr> \<and>
    sh_peer (hook_run None (butlast demo_security)) = Some ''bob'' \<and> sh_verifications (hook_run None (butlast demo_security)) = []"
    by code_simp
  moreover have "demo_security = butlast demo_security @ [Confirm 5 True]" by (simp add: demo_security_def)
  then have "hook_run None demo_security = snd (confirmCallSecurity 5 True (hook_run None (butlast demo_security)))"
    by (metis (no_types) fold_append fold_simps(1) fold_simps(2) comp_apply hook_run_def hook_step.simps(5))
  ultimately show "sec_status (callSecurity (hook_run None demo_security)) = Sec_Verified"
    by (simp add: confirmCallSecurity_def Let_def savePeerVerifications_def callSecurity_def describeCallSecurity_def classifyFingerprintChange_def)
qed

end
