(* ===== verification/ChatTimeline.thy ===== *)
theory ChatTimeline
  imports Timestamps
begin

text \<open>
  The message history a client holds: \<open>mobile/src/messaging/messageIdentity.ts\<close>, \<open>messageHistory.ts\<close>,
  \<open>messageSyncCursor.ts\<close> and \<open>receivePipeline.ts\<close>. An entry of the timeline is the JavaScript object: a map
  from the fields it has to their values, so that \<open>{...a, ...b}\<close> is \<open>a ++ b\<close>. \<open>engine\<close> is what \<open>Date.parse\<close>
  makes of a text that is not in the canonical form. The functions that promise to return the same object when
  nothing changed return an equal one.
\<close>

section \<open>Entries\<close>

datatype field =
    F_message | F_call | F_client | F_sender | F_recipient | F_conversation | F_created | F_client_created | F_read
  | F_deleted | F_sync | F_pending | F_failed | F_reply | F_body | F_attachment | F_reactions | F_delivered
  | F_other string

text \<open>\<open>Obj\<close> is an object nothing looks into, \<open>Rec\<close> one whose fields are.\<close>

datatype jsval =
    Null | Undefined | Str string | Flag bool | Names "string list" | Obj string | Rec "(string \<times> string) list"

type_synonym entry = "field \<rightharpoonup> jsval"

type_synonym messages_by_peer = "(string \<times> entry list) list"

text \<open>A field that is absent, \<open>undefined\<close> or \<open>null\<close> is \<open>None\<close>.\<close>

definition str :: "entry \<Rightarrow> field \<Rightarrow> string option" where
  "str m f = (case m f of Some (Str s) \<Rightarrow> Some s | _ \<Rightarrow> None)"

definition timelineEntryId :: "entry \<Rightarrow> string option" where
  "timelineEntryId m =
     (if str_truthy (str m F_client) \<and> str_truthy (str m F_sender)
      then Some (''client:'' @ the (str m F_sender) @ '':'' @ the (str m F_client))
      else coalesce (str m F_message) (str m F_call))"

definition timelineSortId :: "entry \<Rightarrow> string" where
  "timelineSortId m =
     (if str_truthy (str m F_call) then ''call:'' @ the (str m F_call)
      else ''message:'' @ (case str m F_message of Some s \<Rightarrow> s | None \<Rightarrow> []))"

definition awaiting_delivery :: "entry \<Rightarrow> bool" where
  "awaiting_delivery m = (str m F_sync = Some ''pending'' \<or> str m F_sync = Some ''failed'')"

definition timelineSortTime :: "(string \<Rightarrow> int option) \<Rightarrow> entry \<Rightarrow> int option" where
  "timelineSortTime engine m =
     (let clientCreatedAt = timestampMs engine (str m F_client_created)
      in if awaiting_delivery m \<and> clientCreatedAt \<noteq> None then clientCreatedAt
         else (let createdAt = timestampMs engine (str m F_created)
               in if createdAt \<noteq> None then createdAt else clientCreatedAt))"

definition newestFirst :: "(string \<Rightarrow> int option) \<Rightarrow> entry \<Rightarrow> entry \<Rightarrow> int" where
  "newestFirst engine a b =
     (let aTime = timelineSortTime engine a; bTime = timelineSortTime engine b;
          aId = timelineSortId a; bId = timelineSortId b
      in if aTime \<noteq> None \<and> bTime \<noteq> None \<and> aTime \<noteq> bTime then the bTime - the aTime
         else if (aTime \<noteq> None) \<noteq> (bTime \<noteq> None) then (if aTime \<noteq> None then -1 else 1)
         else if aId = bId then 0 else if aId < bId then 1 else -1)"

section \<open>Timestamps of an entry\<close>

definition TIMESTAMP_FIELDS :: "field list" where
  "TIMESTAMP_FIELDS = [F_created, F_client_created, F_read, F_deleted]"

definition normalize_field :: "field \<Rightarrow> entry \<Rightarrow> entry" where
  "normalize_field f m =
     (case str m f of Some v \<Rightarrow> m(f := map_option Str (normalizeTimestamp (Some v))) | None \<Rightarrow> m)"

definition normalizeEntryTimestamps :: "entry \<Rightarrow> entry" where
  "normalizeEntryTimestamps m = fold normalize_field TIMESTAMP_FIELDS m"

definition entryTime :: "(string \<Rightarrow> int option) \<Rightarrow> entry \<Rightarrow> int option" where
  "entryTime engine m = timestampMs engine (str m F_created)"

definition pageWindow :: "(string \<Rightarrow> int option) \<Rightarrow> entry list \<Rightarrow> (int \<times> int) option" where
  "pageWindow engine page =
     fold (\<lambda>m w. case entryTime engine m of
             None \<Rightarrow> w
           | Some t \<Rightarrow> (case w of None \<Rightarrow> Some (t, t) | Some (oldest, newest) \<Rightarrow> Some (min t oldest, max t newest)))
       page None"

definition nextLocalCreatedAt :: "(string \<Rightarrow> int option) \<Rightarrow> entry list \<Rightarrow> int \<Rightarrow> int \<Rightarrow> string" where
  "nextLocalCreatedAt engine existing nowMs previousLocalMs =
     (let floor_ms = fold (\<lambda>m fl. case entryTime engine m of Some t \<Rightarrow> if fl < t then t else fl | None \<Rightarrow> fl)
            existing previousLocalMs
      in toISOString (if floor_ms < nowMs then nowMs else floor_ms + 1))"

section \<open>Reconciliation\<close>

definition synced :: "entry \<Rightarrow> entry" where
  "synced m = m(F_sync \<mapsto> Str ''synced'', F_pending \<mapsto> Flag False, F_failed \<mapsto> Flag False)"

text \<open>The copy of an entry under which \<open>dedupeAndSort\<close> files it.\<close>

definition prepared :: "entry \<Rightarrow> entry" where
  "prepared raw =
     (let m = normalizeEntryTimestamps raw
      in if str_truthy (str m F_client) \<and> str m F_message \<noteq> str m F_client then synced m else m)"

definition awaits_identity :: "entry \<Rightarrow> entry \<Rightarrow> bool" where
  "awaits_identity previous m =
     (str_truthy (str m F_client) \<and> str m F_message = str m F_client \<and> str previous F_message \<noteq> str m F_client)"

definition mergeTimelineCopy :: "entry option \<Rightarrow> entry \<Rightarrow> entry" where
  "mergeTimelineCopy previous m =
     (case previous of
        None \<Rightarrow> m
      | Some p \<Rightarrow>
          if str p F_sync = Some ''synced'' \<and> (awaiting_delivery m \<or> awaits_identity p m) then m ++ p else p ++ m)"

definition file_entry :: "entry \<Rightarrow> (string \<times> entry) list \<times> entry list \<Rightarrow> (string \<times> entry) list \<times> entry list" where
  "file_entry raw = (\<lambda>(byId, unidentified).
     let m = prepared raw
     in if \<not> str_truthy (timelineEntryId m) then (byId, unidentified @ [m])
        else (AList.update (the (timelineEntryId m)) (mergeTimelineCopy (map_of byId (the (timelineEntryId m))) m) byId,
              unidentified))"

definition provisional :: "entry \<Rightarrow> bool" where
  "provisional m = (str_truthy (str m F_client) \<and> str m F_message = str m F_client)"

definition server_ids :: "(string \<times> entry) list \<Rightarrow> entry list \<Rightarrow> (string \<times> string option) list" where
  "server_ids byId entries =
     fold (\<lambda>m ids.
         if \<not> provisional m then ids
         else (case Option.bind (timelineEntryId m) (map_of byId) of
                 None \<Rightarrow> ids
               | Some persisted \<Rightarrow>
                   if str persisted F_message \<noteq> str m F_message
                   then AList.update (the (str m F_message)) (str persisted F_message) ids else ids))
       entries []"

definition redirect_reply :: "(string \<times> string option) list \<Rightarrow> entry \<Rightarrow> entry" where
  "redirect_reply ids m =
     (if \<not> str_truthy (str m F_reply) then m
      else (case map_of ids (the (str m F_reply)) of None \<Rightarrow> m | Some v \<Rightarrow> m(F_reply := map_option Str v)))"

definition dedupeAndSort :: "(string \<Rightarrow> int option) \<Rightarrow> entry list \<Rightarrow> entry list" where
  "dedupeAndSort engine entries =
     (let (byId, unidentified) = fold file_entry entries ([], []);
          messages = map snd byId @ unidentified
      in sort_cmp (newestFirst engine) (map (redirect_reply (server_ids byId entries)) messages))"

section \<open>Changing a history\<close>

definition entries_of :: "messages_by_peer \<Rightarrow> string \<Rightarrow> entry list" where
  "entries_of state peer = or_empty (map_of state peer)"

definition patchMessage ::
  "(string \<Rightarrow> int option) \<Rightarrow> messages_by_peer \<Rightarrow> string \<Rightarrow> string \<Rightarrow> (entry \<Rightarrow> entry) \<Rightarrow> string option \<Rightarrow> messages_by_peer" where
  "patchMessage engine state peer mid update sender =
     (case map_of state peer of
        None \<Rightarrow> state
      | Some existing \<Rightarrow>
          (let hit = (\<lambda>m. \<not> (str_truthy sender \<and> str m F_sender \<noteq> sender) \<and>
                 (str m F_message = Some mid \<or> (str_truthy sender \<and> str m F_sender = sender \<and> str m F_client = Some mid)))
           in if list_ex hit existing
              then AList.update peer (dedupeAndSort engine
                     (filter provisional existing @ map (\<lambda>m. if hit m then update m else m) existing)) state
              else state))"

definition patch_visit ::
  "(string \<Rightarrow> int option) \<Rightarrow> string \<Rightarrow> (entry \<Rightarrow> entry) \<Rightarrow> string \<times> entry list \<Rightarrow> bool \<times> messages_by_peer \<Rightarrow> bool \<times> messages_by_peer" where
  "patch_visit engine mid update = (\<lambda>(peer, messages) (changed, acc).
     let updated = map (\<lambda>m. if str m F_message = Some mid then update m else m) messages;
         changed' = (changed \<or> list_ex (\<lambda>m. str m F_message = Some mid) messages)
     in (changed', acc @ [(peer, if changed' then dedupeAndSort engine updated else updated)]))"

definition patchMessageEverywhere ::
  "(string \<Rightarrow> int option) \<Rightarrow> messages_by_peer \<Rightarrow> string \<Rightarrow> (entry \<Rightarrow> entry) \<Rightarrow> messages_by_peer" where
  "patchMessageEverywhere engine state mid update =
     (let (changed, nxt) = fold (patch_visit engine mid update) state (False, []) in if changed then nxt else state)"

definition removeMessage :: "messages_by_peer \<Rightarrow> string \<Rightarrow> string \<Rightarrow> messages_by_peer" where
  "removeMessage state peer mid =
     (case map_of state peer of
        None \<Rightarrow> state
      | Some existing \<Rightarrow>
          (let nxt = filter (\<lambda>m. str m F_message \<noteq> Some mid) existing
           in if length nxt = length existing then state else AList.update peer nxt state))"

definition prependMessage :: "(string \<Rightarrow> int option) \<Rightarrow> messages_by_peer \<Rightarrow> string \<Rightarrow> entry \<Rightarrow> messages_by_peer" where
  "prependMessage engine state peer m = AList.update peer (dedupeAndSort engine (m # entries_of state peer)) state"

definition upsertTimelineEntry :: "(string \<Rightarrow> int option) \<Rightarrow> messages_by_peer \<Rightarrow> string \<Rightarrow> entry \<Rightarrow> messages_by_peer" where
  "upsertTimelineEntry engine state peer m =
     (if \<not> str_truthy (timelineEntryId m) then state
      else AList.update peer (dedupeAndSort engine (entries_of state peer @ [m])) state)"

section \<open>Merging a page\<close>

definition held_marks :: "entry list \<Rightarrow> (string \<times> string) list \<times> (string \<times> entry) list" where
  "held_marks existing =
     fold (\<lambda>m (local_times, tombs).
         let i = timelineEntryId m;
             tombs' = (if str_truthy i \<and> str_truthy (str m F_deleted) then AList.update (the i) m tombs else tombs)
         in if \<not> str_truthy i \<or> \<not> str_truthy (str m F_client_created) then (local_times, tombs')
            else (AList.update (the i) (the (str m F_client_created)) local_times, tombs'))
       existing ([], [])"

definition carryLocalCreatedAt :: "entry list \<Rightarrow> entry list \<Rightarrow> entry list" where
  "carryLocalCreatedAt existing page =
     (let (local_times, tombs) = held_marks existing
      in if local_times = [] \<and> tombs = [] then page
         else map (\<lambda>m.
             let i = timelineEntryId m;
                 tombstone = (if str_truthy i then map_of tombs (the i) else None);
                 created = (if str_truthy i then map_of local_times (the i) else None)
             in case tombstone of
                  Some tb \<Rightarrow> if str_truthy (str m F_deleted)
                             then (if str_truthy created then m(F_client_created \<mapsto> Str (the created)) else m) else tb
                | None \<Rightarrow> (if str_truthy created then m(F_client_created \<mapsto> Str (the created)) else m)) page)"

definition page_copies :: "entry list \<Rightarrow> entry list \<Rightarrow> entry list" where
  "page_copies held page =
     map (\<lambda>m. if str_truthy (str m F_client) then synced m else m) (carryLocalCreatedAt held page)"

definition kept_outside :: "(string \<Rightarrow> int option) \<Rightarrow> (int \<times> int) option \<Rightarrow> entry \<Rightarrow> bool" where
  "kept_outside engine window m =
     (awaiting_delivery m \<or>
      (case window of
         None \<Rightarrow> True
       | Some (oldest, newest) \<Rightarrow> (case entryTime engine m of None \<Rightarrow> True | Some t \<Rightarrow> newest < t \<or> t < oldest)))"

definition mergeHistoryPage ::
  "(string \<Rightarrow> int option) \<Rightarrow> entry list option \<Rightarrow> entry list \<Rightarrow> string option \<Rightarrow> entry list" where
  "mergeHistoryPage engine existing page before =
     (let held = or_empty existing;
          copies = page_copies held page
      in if str_truthy before then dedupeAndSort engine (held @ copies)
         else (let ids = map timelineEntryId copies;
                   matched = filter (\<lambda>m. timelineEntryId m \<in> set ids) held;
                   kept = filter (\<lambda>m. timelineEntryId m \<notin> set ids \<and> kept_outside engine (pageWindow engine copies) m) held
               in dedupeAndSort engine (matched @ kept @ copies)))"

section \<open>The socket's watermark\<close>

record socket_cursor =
  sc_created :: string
  sc_message :: string

definition advanceSocketMessageCursor ::
  "(string \<Rightarrow> int option) \<Rightarrow> socket_cursor option \<Rightarrow> string option \<times> string option \<Rightarrow> socket_cursor option" where
  "advanceSocketMessageCursor engine current = (\<lambda>(mid, created).
     if \<not> str_truthy mid \<or> \<not> str_truthy created then current
     else (let createdAt = the (normalizeTimestamp created); nextTime = timestampMs engine (Some createdAt);
               nxt = \<lparr>sc_created = createdAt, sc_message = the mid\<rparr>
           in case nextTime of
                None \<Rightarrow> current
              | Some t \<Rightarrow>
                  (case current of
                     None \<Rightarrow> Some nxt
                   | Some cur \<Rightarrow>
                       (case timestampMs engine (Some (sc_created cur)) of
                          None \<Rightarrow> Some nxt
                        | Some t' \<Rightarrow> if t < t' \<or> (t = t' \<and> the mid \<le> sc_message cur) then current else Some nxt))))"

section \<open>Inbound events\<close>

text \<open>\<open>nw\<close> is the text of the current time.\<close>

definition tombstoneOf :: "string \<Rightarrow> entry \<Rightarrow> entry option \<Rightarrow> entry" where
  "tombstoneOf nw m tombstone =
     (case tombstone of Some t \<Rightarrow> t | None \<Rightarrow> Map.empty)
       (F_body \<mapsto> Str [], F_attachment \<mapsto> Null, F_reactions \<mapsto> Obj [],
        F_deleted \<mapsto> Str (the (coalesce (Option.bind tombstone (\<lambda>t. str t F_deleted)) (coalesce (str m F_deleted) (Some nw)))))"

definition applyIncomingMessage :: "(string \<Rightarrow> int option) \<Rightarrow> messages_by_peer \<Rightarrow> entry \<Rightarrow> messages_by_peer" where
  "applyIncomingMessage engine state m =
     (let sender = the (str m F_sender)
      in if list_ex (\<lambda>x. timelineEntryId x = timelineEntryId m \<and> str x F_message = str m F_message) (entries_of state sender)
         then state else upsertTimelineEntry engine state sender (m(F_sync \<mapsto> Str ''synced'')))"

definition names_of :: "entry \<Rightarrow> string list" where
  "names_of m = (case m F_delivered of Some (Names ns) \<Rightarrow> ns | _ \<Rightarrow> [])"

definition receipt_copy :: "entry \<Rightarrow> entry \<Rightarrow> entry" where
  "receipt_copy held m =
     (synced (held ++ m))
       (F_delivered \<mapsto> Names (uniq (names_of held @ names_of m)),
        F_read \<mapsto> (case coalesce (str m F_read) (str held F_read) of Some t \<Rightarrow> Str t | None \<Rightarrow> Null))"

definition applyDeliveryReceipt :: "(string \<Rightarrow> int option) \<Rightarrow> messages_by_peer \<Rightarrow> entry \<Rightarrow> messages_by_peer" where
  "applyDeliveryReceipt engine state m =
     (let peer = the (str m F_recipient); existing = entries_of state peer
      in case find (\<lambda>x. timelineEntryId x = timelineEntryId m) existing of
           None \<Rightarrow> upsertTimelineEntry engine state peer (synced m)
         | Some held \<Rightarrow>
             (let nxt = update_first (\<lambda>x. timelineEntryId x = timelineEntryId m) (\<lambda>x. receipt_copy x m) existing
              in upsertTimelineEntry engine (AList.update peer nxt state) peer (receipt_copy held m)))"

definition applyReadReceipt :: "string \<Rightarrow> messages_by_peer \<Rightarrow> string \<Rightarrow> string option \<Rightarrow> string \<Rightarrow> messages_by_peer" where
  "applyReadReceipt nw state reader readAt me =
     (case map_of state reader of
        None \<Rightarrow> state
      | Some existing \<Rightarrow>
          (let unread = (\<lambda>m. str m F_sender = Some me \<and> \<not> str_truthy (str m F_read))
           in if list_ex unread existing
              then AList.update reader (map (\<lambda>m. if unread m
                     then m(F_read \<mapsto> Str (case readAt of Some t \<Rightarrow> t | None \<Rightarrow> nw)) else m) existing) state
              else state))"

definition applyServerTombstone ::
  "(string \<Rightarrow> int option) \<Rightarrow> string \<Rightarrow> messages_by_peer \<Rightarrow> string \<Rightarrow> entry option \<Rightarrow> messages_by_peer" where
  "applyServerTombstone engine nw state mid tombstone =
     patchMessageEverywhere engine state mid (\<lambda>m. m ++ tombstoneOf nw m tombstone)"

definition applyReactions :: "(string \<Rightarrow> int option) \<Rightarrow> messages_by_peer \<Rightarrow> string \<Rightarrow> string \<Rightarrow> messages_by_peer" where
  "applyReactions engine state mid reactions =
     patchMessageEverywhere engine state mid (\<lambda>m. m(F_reactions \<mapsto> Obj reactions))"

end
