(* ===== verification/DeltaSync.thy ===== *)
theory DeltaSync
  imports ChatTimeline
begin

text \<open>
  How a client catches up with the server: \<open>mobile/src/messaging/deltaSync.ts\<close> (one conversation from its
  persisted cursor) and \<open>messageBackfill.ts\<close> (the whole account from its checkpoint), and what the database of
  \<open>mobile/src/storage/chatDb.ts\<close> keeps of the histories they save. The server, the success of a write and the changes
  of the account's scope are arguments: each page of a run comes with what they did. An exception is the left of a
  sum.
\<close>

section \<open>What the database keeps\<close>

definition MAX_MESSAGES_PER_CONVERSATION :: nat where "MAX_MESSAGES_PER_CONVERSATION = 200"
definition MAX_CONVERSATIONS :: nat where "MAX_CONVERSATIONS = 100"

definition numbered :: "'a list \<Rightarrow> (nat \<times> 'a) list" where
  "numbered xs = zip [0..<length xs] xs"

definition pruneMessages :: "(string \<Rightarrow> int option) \<Rightarrow> entry list \<Rightarrow> entry list" where
  "pruneMessages engine ms =
     map snd (filter (\<lambda>(i, e). i < MAX_MESSAGES_PER_CONVERSATION \<or> awaiting_delivery e)
       (numbered (sort_cmp (newestFirst engine) ms)))"

text \<open>The time of a conversation is that of the first entry of its history, 0 when there is none to read.\<close>

definition conversation_time :: "(string \<Rightarrow> int option) \<Rightarrow> string \<times> entry list \<Rightarrow> int" where
  "conversation_time engine h =
     (case snd h of
        [] \<Rightarrow> 0
      | e # _ \<Rightarrow> (case timestampMs engine (str e F_created) of Some t \<Rightarrow> t | None \<Rightarrow> 0))"

text \<open>\<open>pinned\<close>: the recipients of the outbox and the peers with a draft.\<close>

definition prunePeerHistories :: "(string \<Rightarrow> int option) \<Rightarrow> string list \<Rightarrow> messages_by_peer \<Rightarrow> messages_by_peer" where
  "prunePeerHistories engine pinned histories =
     (if length histories \<le> MAX_CONVERSATIONS then histories
      else map snd (filter (\<lambda>(i, p, es). i < MAX_CONVERSATIONS \<or> p \<in> set pinned \<or> (\<exists>e \<in> set es. awaiting_delivery e))
        (numbered (sort_cmp (\<lambda>a b. conversation_time engine b - conversation_time engine a) histories))))"

text \<open>The histories \<open>saveChatSnapshot\<close> keeps of those it is given; a flush writes these, in one transaction.\<close>

definition save_messages :: "(string \<Rightarrow> int option) \<Rightarrow> string list \<Rightarrow> messages_by_peer \<Rightarrow> messages_by_peer" where
  "save_messages engine pinned histories =
     prunePeerHistories engine pinned (map (\<lambda>(p, es). (p, pruneMessages engine es)) histories)"

section \<open>One conversation\<close>

definition MAX_DELTA_PAGES :: nat where "MAX_DELTA_PAGES = 20"

text \<open>A change reports a message, or none.\<close>

definition in_conversation :: "string \<Rightarrow> string \<Rightarrow> entry \<Rightarrow> bool" where
  "in_conversation user peer m =
     ((str m F_sender = Some user \<and> str m F_recipient = Some peer) \<or>
      (str m F_sender = Some peer \<and> str m F_recipient = Some user))"

definition relevant_change :: "string \<Rightarrow> string \<Rightarrow> entry option \<Rightarrow> bool" where
  "relevant_change user peer ch =
     (case ch of Some m \<Rightarrow> str_truthy (str m F_message) \<and> in_conversation user peer m | None \<Rightarrow> False)"

definition server_copy :: "string \<Rightarrow> entry \<Rightarrow> entry" where
  "server_copy nw m = (if str_truthy (str m F_deleted) then m ++ tombstoneOf nw m (Some m) else m)"

definition server_copies :: "string \<Rightarrow> string \<Rightarrow> string \<Rightarrow> entry option list \<Rightarrow> entry list" where
  "server_copies nw user peer changes =
     map (\<lambda>ch. server_copy nw (the ch)) (filter (relevant_change user peer) changes)"

definition mergeDeltaChanges ::
  "(string \<Rightarrow> int option) \<Rightarrow> string \<Rightarrow> entry list \<Rightarrow> entry option list \<Rightarrow> string \<Rightarrow> string \<Rightarrow> entry list \<times> nat \<times> string list" where
  "mergeDeltaChanges engine nw existing changes user peer =
     (let copies = server_copies nw user peer changes;
          tombstoned = map (\<lambda>m. the (str m F_message))
            (filter (\<lambda>m. str_truthy (str m F_deleted)) (map the (filter (relevant_change user peer) changes)))
      in if copies = [] then (existing, 0, tombstoned)
         else (dedupeAndSort engine (existing @ copies), length copies, tombstoned))"

record delta_page =
  dp_changes :: "entry option list"
  dp_cursor :: "string option"
  dp_more :: bool

text \<open>
  What the surroundings do during a page: whether the account is still the current one at the three points
  the code asks, the answer of the server, the conversations pinned in the database, and whether it flushes and
  stores the cursor.
\<close>

record delta_step =
  st_current :: bool
  st_answer :: "string + delta_page"
  st_fetched :: bool
  st_pinned :: "string list"
  st_flush :: bool
  st_before_write :: bool
  st_write :: bool

text \<open>
  The histories in memory, the database's cache of them, and what is on disk. The three may differ: the cache is
  pruned, and a flush that failed leaves the disk behind.
\<close>

record delta_state =
  ds_messages :: messages_by_peer
  ds_cache :: messages_by_peer
  ds_disk :: messages_by_peer
  ds_cursor :: "string option"   \<comment> \<open>as persisted\<close>
  ds_deleted :: "string list"

definition applyDeltaPage ::
  "(string \<Rightarrow> int option) \<Rightarrow> string \<Rightarrow> string \<Rightarrow> string \<Rightarrow> string list \<Rightarrow> bool \<Rightarrow> entry option list \<Rightarrow> delta_state \<Rightarrow> (string + nat) \<times> delta_state" where
  "applyDeltaPage engine nw user peer pinned flush_ok changes s =
     (let (messages, applied, tombstoned) = mergeDeltaChanges engine nw (entries_of (ds_messages s) peer) changes user peer
      in if applied = 0 then (Inr 0, s)
         else (let nxt = AList.update peer messages (ds_messages s);
                   s1 = s\<lparr>ds_messages := nxt, ds_deleted := ds_deleted s @ tombstoned, ds_cache := save_messages engine pinned nxt\<rparr>
               in if flush_ok then (Inr applied, s1\<lparr>ds_disk := ds_cache s1\<rparr>) else (Inl ''flush failed'', s1)))"

definition nextDeltaCursor :: "string option \<Rightarrow> delta_page \<Rightarrow> string + string option" where
  "nextDeltaCursor cursor data =
     (let nxt = (if str_truthy (dp_cursor data) then dp_cursor data else cursor)
      in if dp_more data \<and> (\<not> str_truthy nxt \<or> nxt = cursor) then Inl ''delta sync cursor did not advance'' else Inr nxt)"

text \<open>The loop: \<open>pages\<close> are the surroundings of the rounds that are left.\<close>

fun delta_loop ::
  "(string \<Rightarrow> int option) \<Rightarrow> string \<Rightarrow> string \<Rightarrow> string \<Rightarrow> delta_step list \<Rightarrow> string option \<Rightarrow> nat \<Rightarrow> delta_state \<Rightarrow>
   (string + nat) \<times> delta_state" where
  "delta_loop engine nw user peer [] cursor applied s = (Inr applied, s)"
| "delta_loop engine nw user peer (st # pages) cursor applied s =
     (if \<not> st_current st then (Inr applied, s)
      else (case st_answer st of
              Inl err \<Rightarrow> (Inl err, s)
            | Inr data \<Rightarrow>
                if \<not> st_fetched st then (Inr applied, s)
                else (case applyDeltaPage engine nw user peer (st_pinned st) (st_flush st) (dp_changes data) s of
                        (Inl err, s1) \<Rightarrow> (Inl err, s1)
                      | (Inr n, s1) \<Rightarrow>
                          (case nextDeltaCursor cursor data of
                             Inl err \<Rightarrow> (Inl err, s1)
                           | Inr nxt \<Rightarrow>
                               if str_truthy nxt \<and> nxt \<noteq> cursor \<and> st_before_write st then
                                 (if \<not> st_write st then (Inl ''write failed'', s1)
                                  else (let s2 = s1\<lparr>ds_cursor := nxt\<rparr>
                                        in if dp_more data then delta_loop engine nw user peer pages nxt (applied + n) s2
                                           else (Inr (applied + n), s2)))
                               else if dp_more data then delta_loop engine nw user peer pages cursor (applied + n) s1
                               else (Inr (applied + n), s1)))))"

definition syncConversationDelta ::
  "(string \<Rightarrow> int option) \<Rightarrow> string \<Rightarrow> string \<Rightarrow> string \<Rightarrow> string \<Rightarrow> (nat \<Rightarrow> delta_step) \<Rightarrow> delta_state \<Rightarrow> (string + nat) \<times> delta_state" where
  "syncConversationDelta engine nw scope user peer surroundings s =
     (if scope = [] \<or> peer = [] then (Inr 0, s)
      else delta_loop engine nw user peer (map surroundings [0..<MAX_DELTA_PAGES]) (ds_cursor s) 0 s)"

section \<open>The whole account\<close>

definition MESSAGE_SYNC_SINCE :: string where "MESSAGE_SYNC_SINCE = ''1970-01-01T00:00:00.000Z''"

record checkpoint =
  cp_since :: string
  cp_cursor :: "string option"
  cp_complete :: bool
  cp_synced :: nat

definition first_checkpoint :: checkpoint where
  "first_checkpoint = \<lparr>cp_since = MESSAGE_SYNC_SINCE, cp_cursor = None, cp_complete = False, cp_synced = 0\<rparr>"

definition nextCheckpoint :: "checkpoint \<Rightarrow> string option \<Rightarrow> bool \<Rightarrow> nat \<Rightarrow> string + checkpoint" where
  "nextCheckpoint current nextCursor hasMore n =
     (let cursor = (if str_truthy nextCursor then nextCursor else None)
      in if hasMore \<and> (cursor = None \<or> cursor = cp_cursor current) then Inl ''message sync cursor did not advance''
         else Inr \<lparr>cp_since = (if cp_since current = [] then MESSAGE_SYNC_SINCE else cp_since current),
                   cp_cursor = cursor, cp_complete = (\<not> hasMore), cp_synced = cp_synced current + n\<rparr>)"

definition apply_change ::
  "(string \<Rightarrow> int option) \<Rightarrow> string \<Rightarrow> entry option \<Rightarrow> messages_by_peer \<times> nat \<times> string list \<Rightarrow> messages_by_peer \<times> nat \<times> string list" where
  "apply_change engine user ch = (\<lambda>(messages, applied, deleted).
     case ch of
       None \<Rightarrow> (messages, applied, deleted)
     | Some m \<Rightarrow>
         if \<not> str_truthy (str m F_message) \<or> \<not> str_truthy (str m F_sender) \<or> \<not> str_truthy (str m F_recipient) \<or>
            (str m F_sender \<noteq> Some user \<and> str m F_recipient \<noteq> Some user)
         then (messages, applied, deleted)
         else (let peer = the (if str m F_sender = Some user then str m F_recipient else str m F_sender)
               in (upsertTimelineEntry engine messages peer m, Suc applied,
                   if str_truthy (str m F_deleted) then deleted @ [the (str m F_message)] else deleted)))"

definition applyChanges ::
  "(string \<Rightarrow> int option) \<Rightarrow> entry option list \<Rightarrow> string \<Rightarrow> messages_by_peer \<Rightarrow> messages_by_peer \<times> nat \<times> string list" where
  "applyChanges engine changes user messages = fold (apply_change engine user) changes (messages, 0, [])"

record backfill_state =
  bf_messages :: messages_by_peer
  bf_disk :: messages_by_peer
  bf_stored :: "checkpoint option"
  bf_deleted :: "string list"

text \<open>
  The rounds of \<open>while (isCurrentScope() && getSessionId())\<close>: the list ends where the account or its session
  is gone. The flush is skipped when no change was applied.
\<close>

fun backfill_loop ::
  "(string \<Rightarrow> int option) \<Rightarrow> string \<Rightarrow> delta_step list \<Rightarrow> checkpoint \<Rightarrow> backfill_state \<Rightarrow> (string + unit) \<times> backfill_state" where
  "backfill_loop engine user [] cp s = (Inr (), s)"
| "backfill_loop engine user (st # rounds) cp s =
     (if \<not> st_current st then (Inr (), s)
      else (case st_answer st of
              Inl err \<Rightarrow> (Inl err, s)
            | Inr data \<Rightarrow>
                if \<not> st_fetched st then (Inr (), s)
                else (let (messages, applied, deleted) = applyChanges engine (dp_changes data) user (bf_messages s);
                          s1 = s\<lparr>bf_messages := messages, bf_deleted := bf_deleted s @ deleted\<rparr>;
                          s2 = (if applied = 0 then s1 else s1\<lparr>bf_disk := save_messages engine (st_pinned st) messages\<rparr>)
                      in if applied \<noteq> 0 \<and> \<not> st_flush st then (Inl ''flush failed'', s1)
                         else (case nextCheckpoint cp (dp_cursor data) (dp_more data) applied of
                                 Inl err \<Rightarrow> (Inl err, s2)
                               | Inr cp' \<Rightarrow>
                                   if \<not> st_write st then (Inl ''write failed'', s2)
                                   else (let s3 = s2\<lparr>bf_stored := Some cp'\<rparr>
                                         in if cp_complete cp' then (Inr (), s3)
                                            else backfill_loop engine user rounds cp' s3)))))"

definition resumeMessageBackfill ::
  "(string \<Rightarrow> int option) \<Rightarrow> string \<Rightarrow> delta_step list \<Rightarrow> backfill_state \<Rightarrow> (string + unit) \<times> backfill_state" where
  "resumeMessageBackfill engine user rounds s =
     (let cp = (case bf_stored s of Some c \<Rightarrow> c | None \<Rightarrow> first_checkpoint)
      in if cp_complete cp then (Inr (), s) else backfill_loop engine user rounds cp s)"

end
