(* ===== verification/TimelineProperties.thy ===== *)
theory TimelineProperties
  imports ChatTimeline "HOL-Library.Product_Lexorder"
begin

text \<open>
  The history a client holds: whatever copies of its entries arrive in whatever order, each entry is shown
  once, newest first; a page removes exactly what the server no longer has; a late delivery does not move the
  socket's watermark back.
\<close>

section \<open>Order\<close>

definition recency :: "(string \<Rightarrow> int option) \<Rightarrow> entry \<Rightarrow> bool \<times> int \<times> string" where
  "recency engine m =
     (case timelineSortTime engine m of Some t \<Rightarrow> (True, t, timelineSortId m) | None \<Rightarrow> (False, 0, timelineSortId m))"

lemma newest_first_recency: "newestFirst engine a b \<le> 0 \<longleftrightarrow> recency engine b \<le> recency engine a"
  by (auto simp: newestFirst_def recency_def Let_def less_eq_prod_def split: option.splits)

lemma insort_cmp_sorted:
  assumes "\<And>a b. cmp a b \<le> 0 \<longleftrightarrow> (f b :: 'b :: linorder) \<le> f a" and "sorted_wrt (\<lambda>a b. f b \<le> f a) xs"
  shows "sorted_wrt (\<lambda>a b. f b \<le> f a) (insort_cmp cmp x xs)"
  using assms(2) by (induction xs) (auto simp: assms(1))

lemma sort_cmp_sorted:
  assumes "\<And>a b. cmp a b \<le> 0 \<longleftrightarrow> (f b :: 'b :: linorder) \<le> f a"
  shows "sorted_wrt (\<lambda>a b. f b \<le> f a) (sort_cmp cmp xs)"
  by (induction xs) (simp_all add: sort_cmp_def insort_cmp_sorted [OF assms])

lemma sort_cmp_fixed: "sorted_wrt (\<lambda>a b. cmp a b \<le> 0) xs \<Longrightarrow> sort_cmp cmp xs = xs"
proof (induction xs)
  case (Cons x xs)
  then have "sort_cmp cmp (x # xs) = insort_cmp cmp x xs" by (simp add: sort_cmp_def)
  then show ?case using Cons.prems by (cases xs) simp_all
qed (simp add: sort_cmp_def)

lemma timeline_sorted: "sorted_wrt (\<lambda>a b. newestFirst engine a b \<le> 0) (sort_cmp (newestFirst engine) xs)"
  unfolding newest_first_recency by (rule sort_cmp_sorted) (rule newest_first_recency)

section \<open>Identity\<close>

text \<open>
  What the server and the composer produce: a message that has a client identifier has a sender, and no
  identifier of a message or a call looks like the client form.
\<close>

definition client_form :: "string option \<Rightarrow> bool" where
  "client_form i = (\<exists>s. i = Some (''client:'' @ s))"

definition well_identified :: "entry \<Rightarrow> bool" where
  "well_identified m =
     ((str_truthy (str m F_client) \<longrightarrow> str_truthy (str m F_sender)) \<and>
      \<not> client_form (str m F_message) \<and> \<not> client_form (str m F_call))"

definition identified :: "entry \<Rightarrow> bool" where "identified m = str_truthy (timelineEntryId m)"

definition ids_of :: "entry list \<Rightarrow> string list" where
  "ids_of ms = map (\<lambda>m. the (timelineEntryId m)) (filter identified ms)"

lemma ids_of_append [simp]: "ids_of (xs @ ys) = ids_of xs @ ids_of ys"
  by (simp add: ids_of_def)

lemma ids_of_Cons: "ids_of (m # ms) = (if identified m then the (timelineEntryId m) # ids_of ms else ids_of ms)"
  by (simp add: ids_of_def)

lemma ids_of_Nil [simp]: "ids_of [] = []"
  by (simp add: ids_of_def)

lemma in_ids_of: "i \<in> set (ids_of ms) \<longleftrightarrow> i \<noteq> [] \<and> (\<exists>m \<in> set ms. timelineEntryId m = Some i)"
  by (force simp: ids_of_def identified_def str_truthy_iff)

text \<open>Identity and order look at a few fields only.\<close>

lemma id_cong:
  assumes "\<And>f. f \<in> {F_message, F_call, F_client, F_sender} \<Longrightarrow> str m f = str n f"
  shows "timelineEntryId m = timelineEntryId n" "well_identified m = well_identified n"
  using assms by (simp_all add: timelineEntryId_def well_identified_def)

lemma recency_cong:
  assumes "\<And>f. f \<in> {F_message, F_call, F_client_created, F_created, F_sync} \<Longrightarrow> str m f = str n f"
  shows "recency engine m = recency engine n"
proof -
  have e: "str m F_message = str n F_message" "str m F_call = str n F_call" "str m F_client_created = str n F_client_created"
    "str m F_created = str n F_created" "str m F_sync = str n F_sync" by (simp_all add: assms)
  show ?thesis by (simp only: recency_def timelineSortTime_def timelineSortId_def awaiting_delivery_def e)
qed

lemma str_upd [simp]: "str (m(f := v)) g = (if g = f then (case v of Some (Str s) \<Rightarrow> Some s | _ \<Rightarrow> None) else str m g)"
  by (simp add: str_def)

lemma str_absent: "m f = None \<Longrightarrow> str m f = None"
  by (simp add: str_def)

lemma str_present: "str_truthy (str m f) \<Longrightarrow> m f \<noteq> None"
  by (cases "m f") (simp_all add: str_def)

lemma str_add: "str (p ++ m) f = (if m f = None then str p f else str m f)"
  by (simp add: str_def map_add_def split: option.split)

lemma str_normalize_field [simp]:
  "str (normalize_field g m) f = (if f = g then normalizeTimestamp (str m f) else str m f)"
  by (auto simp: normalize_field_def normalizeTimestamp_def split: option.split)

lemma str_normalize:
  "str (normalizeEntryTimestamps m) f = (if f \<in> set TIMESTAMP_FIELDS then normalizeTimestamp (str m f) else str m f)"
  by (simp add: normalizeEntryTimestamps_def TIMESTAMP_FIELDS_def)

lemma str_synced: "f \<notin> {F_sync, F_pending, F_failed} \<Longrightarrow> str (synced m) f = str m f"
  by (simp add: synced_def)

lemma prepared_id [simp]:
  "timelineEntryId (prepared m) = timelineEntryId m" "well_identified (prepared m) = well_identified m"
  "identified (prepared m) = identified m"
proof -
  have "str (prepared m) f = str m f" if "f \<in> {F_message, F_call, F_client, F_sender}" for f
    using that by (auto simp: prepared_def Let_def str_synced str_normalize TIMESTAMP_FIELDS_def)
  from id_cong [OF this] show "timelineEntryId (prepared m) = timelineEntryId m" "well_identified (prepared m) = well_identified m"
    by blast+
  then show "identified (prepared m) = identified m" by (simp add: identified_def)
qed

lemma redirect_same: "f \<noteq> F_reply \<Longrightarrow> redirect_reply ids m f = m f"
  by (simp add: redirect_reply_def split: option.split)

lemma redirect_str: "f \<noteq> F_reply \<Longrightarrow> str (redirect_reply ids m) f = str m f"
  by (simp add: str_def redirect_same)

lemma redirect_id [simp]:
  "timelineEntryId (redirect_reply ids m) = timelineEntryId m" "well_identified (redirect_reply ids m) = well_identified m"
  "identified (redirect_reply ids m) = identified m"
proof -
  have e: "str (redirect_reply ids m) f = str m f" if "f \<in> {F_message, F_call, F_client, F_sender}" for f
    using that by (auto intro: redirect_str)
  from id_cong [OF e] show "timelineEntryId (redirect_reply ids m) = timelineEntryId m"
    "well_identified (redirect_reply ids m) = well_identified m" by blast+
  then show "identified (redirect_reply ids m) = identified m" by (simp add: identified_def)
qed

lemma coalesce_same: "coalesce x x = x"
  by (cases x) simp_all

text \<open>Two copies of an entry merge into one entry of the same identity.\<close>

lemma client_form_id: "str_truthy (str m F_client) \<Longrightarrow> str_truthy (str m F_sender) \<Longrightarrow> client_form (timelineEntryId m)"
  by (simp add: timelineEntryId_def client_form_def)

lemma plain_id:
  "well_identified m \<Longrightarrow> \<not> str_truthy (str m F_client) \<Longrightarrow>
    timelineEntryId m = coalesce (str m F_message) (str m F_call) \<and> \<not> client_form (timelineEntryId m)"
  by (cases "str m F_message") (auto simp: timelineEntryId_def well_identified_def)

lemma same_kind:
  assumes "well_identified p" "well_identified m" "timelineEntryId p = timelineEntryId m"
  shows "str_truthy (str p F_client) = str_truthy (str m F_client)"
  using assms client_form_id plain_id by (metis well_identified_def)

lemma merge_id:
  assumes wf: "well_identified p" "well_identified m" and same: "timelineEntryId p = timelineEntryId m"
  shows "timelineEntryId (p ++ m) = timelineEntryId m \<and> well_identified (p ++ m)"
proof (cases "str_truthy (str m F_client)")
  case True
  then have s: "str_truthy (str m F_sender)" using wf(2) by (simp add: well_identified_def)
  have "str (p ++ m) F_client = str m F_client" "str (p ++ m) F_sender = str m F_sender"
    using str_present [OF True] str_present [OF s] by (auto simp: str_add)
  then show ?thesis using True s wf by (auto simp: timelineEntryId_def well_identified_def str_add)
next
  case False
  then have f: "\<not> str_truthy (str p F_client)" using same_kind [OF wf same] by simp
  then have c: "\<not> str_truthy (str (p ++ m) F_client)" using False by (simp add: str_add)
  have w: "well_identified (p ++ m)" using wf c by (auto simp: well_identified_def str_add)
  have "coalesce (str p F_message) (str p F_call) = coalesce (str m F_message) (str m F_call)"
    using plain_id [OF wf(1) f] plain_id [OF wf(2) False] same by simp
  then have "coalesce (str (p ++ m) F_message) (str (p ++ m) F_call) = coalesce (str m F_message) (str m F_call)"
    by (cases "str m F_message"; cases "str p F_message"; cases "m F_message"; cases "m F_call") (auto simp: str_add str_absent coalesce_same)
  then show ?thesis using w plain_id [OF w c] plain_id [OF wf(2) False] by simp
qed

lemma normalizeTimestamp_idem: "normalizeTimestamp (normalizeTimestamp v) = normalizeTimestamp v"
proof (cases v)
  case (Some x)
  show ?thesis
  proof (cases "canonical x \<or> parse_text x = None")
    case True
    then show ?thesis by (auto simp: Some normalizeTimestamp_def)
  next
    case False
    then obtain p where p: "\<not> canonical x" "parse_text x = Some p" by auto
    have "normalize_text x p = x \<or> canonical (normalize_text x p)" by (auto simp: normalize_text_def Let_def)
    then show ?thesis using p by (auto simp: Some normalizeTimestamp_def)
  qed
qed (simp add: normalizeTimestamp_def)

text \<open>An entry that \<open>prepared\<close> leaves alone.\<close>

definition settled :: "entry \<Rightarrow> bool" where
  "settled m =
     ((\<forall>f \<in> set TIMESTAMP_FIELDS. normalizeTimestamp (str m f) = str m f) \<and>
      (str_truthy (str m F_client) \<and> str m F_message \<noteq> str m F_client \<longrightarrow>
        m F_sync = Some (Str ''synced'') \<and> m F_pending = Some (Flag False) \<and> m F_failed = Some (Flag False)))"

lemma normalize_field_fixed: "normalizeTimestamp (str m f) = str m f \<Longrightarrow> normalize_field f m = m"
  by (auto simp: normalize_field_def str_def fun_upd_idem_iff split: option.splits jsval.splits)

lemma settled_prepared: "settled m \<Longrightarrow> prepared m = m"
proof -
  assume s: "settled m"
  then have "normalizeEntryTimestamps m = m"
    by (simp add: settled_def normalizeEntryTimestamps_def TIMESTAMP_FIELDS_def normalize_field_fixed)
  moreover have "synced m = m" if "str_truthy (str m F_client)" "str m F_message \<noteq> str m F_client"
    using s that by (simp add: settled_def synced_def fun_upd_idem)
  ultimately show "prepared m = m" by (simp add: prepared_def Let_def)
qed

lemma prepared_settled: "settled (prepared m)"
proof -
  let ?n = "normalizeEntryTimestamps m"
  have n: "normalizeTimestamp (str ?n f) = str ?n f" if "f \<in> set TIMESTAMP_FIELDS" for f
    using that by (simp add: str_normalize normalizeTimestamp_idem)
  show ?thesis
  proof (cases "str_truthy (str ?n F_client) \<and> str ?n F_message \<noteq> str ?n F_client")
    case True
    then have "prepared m = synced ?n" by (simp add: prepared_def Let_def)
    then show ?thesis using n by (auto simp: settled_def TIMESTAMP_FIELDS_def synced_def)
  next
    case False
    then have "prepared m = ?n" by (auto simp: prepared_def Let_def)
    then show ?thesis using n False by (auto simp: settled_def)
  qed
qed

lemma settled_merge:
  assumes s: "settled p" "settled m" and w: "well_identified p" "well_identified m" and same: "timelineEntryId p = timelineEntryId m"
  shows "settled (p ++ m)"
proof -
  have t: "normalizeTimestamp (str (p ++ m) f) = str (p ++ m) f" if "f \<in> set TIMESTAMP_FIELDS" for f
    using that s by (simp add: settled_def str_add)
  have "m F_sync = Some (Str ''synced'') \<and> m F_pending = Some (Flag False) \<and> m F_failed = Some (Flag False) \<or>
      p F_sync = Some (Str ''synced'') \<and> p F_pending = Some (Flag False) \<and> p F_failed = Some (Flag False) \<and>
      m F_sync = None \<and> m F_pending = None \<and> m F_failed = None"
    if "str_truthy (str (p ++ m) F_client)" "str (p ++ m) F_message \<noteq> str (p ++ m) F_client"
  proof -
    have k: "str_truthy (str m F_client)"
      using that(1) same_kind [OF w same] by (auto simp: str_add split: if_splits)
    then have present: "m F_client \<noteq> None" by (rule str_present)
    have "str m F_message \<noteq> str m F_client"
      using that(2) present k by (auto simp: str_add str_def split: if_splits option.splits)
    then show ?thesis using s(2) k by (simp add: settled_def)
  qed
  then show ?thesis using t by (auto simp: settled_def map_add_def)
qed

lemma mergeTimelineCopy_id:
  assumes "well_identified p" "well_identified m" "timelineEntryId p = timelineEntryId m"
  shows "timelineEntryId (mergeTimelineCopy (Some p) m) = timelineEntryId m \<and> well_identified (mergeTimelineCopy (Some p) m)"
    "settled p \<Longrightarrow> settled m \<Longrightarrow> settled (mergeTimelineCopy (Some p) m)"
  using merge_id [OF assms] merge_id [OF assms(2,1) assms(3) [symmetric]] assms(3)
    settled_merge [OF _ _ assms] settled_merge [OF _ _ assms(2,1) assms(3) [symmetric]] by (simp_all add: mergeTimelineCopy_def)

section \<open>Filing the entries\<close>

definition filed_well :: "entry list \<Rightarrow> (string \<times> entry) list \<times> entry list \<Rightarrow> bool" where
  "filed_well seen = (\<lambda>(byId, un).
     distinct (map fst byId) \<and> set (map fst byId) = set (ids_of seen) \<and>
     (\<forall>(k, m) \<in> set byId. timelineEntryId m = Some k \<and> k \<noteq> [] \<and> well_identified m \<and> settled m) \<and>
     un = map prepared (filter (\<lambda>m. \<not> identified m) seen))"

lemma file_entry_well:
  assumes f: "filed_well seen acc" and w: "well_identified m"
  shows "filed_well (seen @ [m]) (file_entry m acc)"
proof -
  obtain byId un where acc: "acc = (byId, un)" by fastforce
  show ?thesis
  proof (cases "identified m")
    case False
    then show ?thesis using f by (simp add: acc filed_well_def file_entry_def Let_def identified_def ids_of_Cons prepared_id(1) [of m])
  next
    case True
    then obtain i where i: "timelineEntryId m = Some i" "i \<noteq> []" by (auto simp: identified_def str_truthy_iff)
    let ?e = "mergeTimelineCopy (map_of byId i) (prepared m)"
    have "timelineEntryId ?e = Some i \<and> well_identified ?e \<and> settled ?e"
    proof (cases "map_of byId i")
      case None
      then show ?thesis using i w by (simp add: mergeTimelineCopy_def prepared_settled)
    next
      case (Some p)
      then have "(i, p) \<in> set byId" by (rule map_of_SomeD)
      then have "timelineEntryId p = Some i" "well_identified p" "settled p" using f by (auto simp: acc filed_well_def)
      then show ?thesis using mergeTimelineCopy_id [of p "prepared m"] i w Some by (simp add: prepared_settled)
    qed
    moreover have "file_entry m acc = (AList.update i ?e byId, un)"
      using i by (simp add: acc file_entry_def Let_def)
    moreover have "(k, x) \<in> set (AList.update i ?e byId) \<Longrightarrow> (k = i \<and> x = ?e) \<or> (k, x) \<in> set byId" for k x
      by (induction byId) (auto split: if_splits)
    ultimately show ?thesis
      using f i True by (fastforce simp: acc filed_well_def dom_update distinct_update ids_of_Cons)
  qed
qed

lemma filed_all:
  assumes "\<forall>m \<in> set entries. well_identified m"
  shows "filed_well entries (fold file_entry entries ([], []))"
  using assms
proof (induction entries rule: rev_induct)
  case Nil
  then show ?case by (simp add: filed_well_def ids_of_def)
next
  case (snoc m ms)
  then show ?case using file_entry_well [of ms "fold file_entry ms ([], [])" m] by simp
qed

lemma ids_of_sort [simp]: "set (ids_of (sort_cmp cmp xs)) = set (ids_of xs)"
  by (auto simp: in_ids_of)

lemma mset_ids_of: "mset (ids_of xs) = image_mset (\<lambda>m. the (timelineEntryId m)) (filter_mset identified (mset xs))"
  by (simp add: ids_of_def)

lemma distinct_ids_sort [simp]: "distinct (ids_of (sort_cmp cmp xs)) = distinct (ids_of xs)"
  by (rule mset_eq_imp_distinct_iff) (simp add: mset_ids_of)

lemma ids_of_map: "(\<And>m. timelineEntryId (g m) = timelineEntryId m) \<Longrightarrow> ids_of (map g xs) = ids_of xs"
  by (induction xs) (simp_all add: ids_of_def identified_def)

lemma ids_of_filed:
  "\<forall>(k, m) \<in> set byId. timelineEntryId m = Some k \<and> k \<noteq> [] \<Longrightarrow> ids_of (map snd byId) = map fst byId"
  by (induction byId) (auto simp: ids_of_def identified_def)

lemma ids_of_unidentified: "ids_of (map prepared (filter (\<lambda>m. \<not> identified m) xs)) = []"
  by (induction xs) (simp_all add: ids_of_def)

text \<open>The history before it is sorted.\<close>

lemma dedupeAndSort_shape:
  assumes "\<forall>m \<in> set entries. well_identified m"
  obtains byId un where "fold file_entry entries ([], []) = (byId, un)" and "filed_well entries (byId, un)"
    and "dedupeAndSort engine entries =
      sort_cmp (newestFirst engine) (map (redirect_reply (server_ids byId entries)) (map snd byId @ un))"
    and "ids_of (map (redirect_reply (server_ids byId entries)) (map snd byId @ un)) = map fst byId"
proof -
  obtain byId un where f: "fold file_entry entries ([], []) = (byId, un)" by fastforce
  have w: "filed_well entries (byId, un)" using filed_all [OF assms] f by simp
  then have "ids_of (map snd byId) = map fst byId" by (intro ids_of_filed) (auto simp: filed_well_def)
  then have "ids_of (map (redirect_reply (server_ids byId entries)) (map snd byId @ un)) = map fst byId"
    using w by (subst ids_of_map) (simp_all add: filed_well_def ids_of_unidentified)
  then show ?thesis using that [OF f w] by (simp add: dedupeAndSort_def f)
qed

lemma dedupe_ids:
  assumes "\<forall>m \<in> set entries. well_identified m"
  shows "distinct (ids_of (dedupeAndSort engine entries))"
    "set (ids_of (dedupeAndSort engine entries)) = set (ids_of entries)"
    "m \<in> set (dedupeAndSort engine entries) \<Longrightarrow> well_identified m"
proof -
  obtain byId un where w: "filed_well entries (byId, un)" and d: "dedupeAndSort engine entries =
      sort_cmp (newestFirst engine) (map (redirect_reply (server_ids byId entries)) (map snd byId @ un))"
    and i: "ids_of (map (redirect_reply (server_ids byId entries)) (map snd byId @ un)) = map fst byId"
    by (rule dedupeAndSort_shape [OF assms])
  show "distinct (ids_of (dedupeAndSort engine entries))" "set (ids_of (dedupeAndSort engine entries)) = set (ids_of entries)"
    using w unfolding d distinct_ids_sort ids_of_sort i by (simp_all add: filed_well_def)
  show "m \<in> set (dedupeAndSort engine entries) \<Longrightarrow> well_identified m"
    using w assms by (auto simp: d filed_well_def)
qed

text \<open>
  C37. The history is canonical: however many copies of its entries arrive and in whatever order, every
  identified entry is shown exactly once, entries without an identity are all kept, and the whole is sorted
  newest first.
\<close>

theorem timeline_canonical:
  assumes "\<forall>m \<in> set entries. well_identified m"
  shows "distinct (ids_of (dedupeAndSort engine entries)) \<and>
    set (ids_of (dedupeAndSort engine entries)) = set (ids_of entries) \<and>
    length (filter (\<lambda>m. \<not> identified m) (dedupeAndSort engine entries)) = length (filter (\<lambda>m. \<not> identified m) entries) \<and>
    sorted_wrt (\<lambda>a b. newestFirst engine a b \<le> 0) (dedupeAndSort engine entries)"
proof -
  obtain byId un where w: "filed_well entries (byId, un)" and d: "dedupeAndSort engine entries =
      sort_cmp (newestFirst engine) (map (redirect_reply (server_ids byId entries)) (map snd byId @ un))"
    and i: "ids_of (map (redirect_reply (server_ids byId entries)) (map snd byId @ un)) = map fst byId"
    by (rule dedupeAndSort_shape [OF assms])
  have "filter (\<lambda>m. \<not> identified m) (map snd byId) = []"
    using w by (auto simp: filed_well_def identified_def filter_empty_conv)
  moreover have "length (filter (\<lambda>m. \<not> identified m) un) = length (filter (\<lambda>m. \<not> identified m) entries)"
    using w by (simp add: filed_well_def filter_map comp_def)
  ultimately have "length (filter (\<lambda>m. \<not> identified m) (dedupeAndSort engine entries)) = length (filter (\<lambda>m. \<not> identified m) entries)"
    by (simp add: d filter_map comp_def)
  moreover have "sorted_wrt (\<lambda>a b. newestFirst engine a b \<le> 0) (dedupeAndSort engine entries)"
    unfolding d by (rule timeline_sorted)
  ultimately show ?thesis using dedupe_ids [OF assms] by blast
qed

definition demo_entry :: "string \<Rightarrow> string \<Rightarrow> string \<Rightarrow> entry" where
  "demo_entry mid sender created =
     [F_message \<mapsto> Str mid, F_sender \<mapsto> Str sender, F_created \<mapsto> Str created, F_body \<mapsto> Str ''hi'']"

definition demo_history :: "entry list" where
  "demo_history =
     [demo_entry ''m1'' ''bob'' ''2024-05-01T10:00:00.000Z'', demo_entry ''m2'' ''ann'' ''2024-05-01 10:01:00+00'',
      (demo_entry ''m2'' ''ann'' ''2024-05-01T10:01:00.000Z'')(F_body \<mapsto> Str ''edited'')]"

theorem timeline_canonical_witness:
  "distinct (ids_of (dedupeAndSort (\<lambda>_. None) demo_history)) \<and>
   map (\<lambda>m. (str m F_message, str m F_body)) (dedupeAndSort (\<lambda>_. None) demo_history) =
     [(Some ''m2'', Some ''edited''), (Some ''m1'', Some ''hi'')]"
proof -
  have w: "\<forall>m \<in> set demo_history. well_identified m"
    by (simp add: demo_history_def demo_entry_def well_identified_def client_form_def str_def)
  have "map (\<lambda>m. (str m F_message, str m F_body)) (dedupeAndSort (\<lambda>_. None) demo_history) =
     [(Some ''m2'', Some ''edited''), (Some ''m1'', Some ''hi'')]" by code_simp
  with timeline_canonical [OF w, of "\<lambda>_. None"] show ?thesis by blast
qed

section \<open>Merging twice\<close>

lemma file_settled:
  assumes "identified m" "settled m" "the (timelineEntryId m) \<notin> set (map fst byId)"
  shows "file_entry m (byId, un) = (byId @ [(the (timelineEntryId m), m)], un)"
proof -
  have "map_of byId (the (timelineEntryId m)) = None" using assms(3) by (simp add: map_of_eq_None_iff)
  moreover have "AList.update k v xs = xs @ [(k, v)]" if "k \<notin> set (map fst xs)" for k and v :: entry and xs
    using that by (induction xs) auto
  ultimately show ?thesis
    using assms by (simp add: file_entry_def settled_prepared Let_def identified_def mergeTimelineCopy_def)
qed

lemma file_all_settled:
  assumes "\<forall>m \<in> set ms. identified m \<and> settled m" and "distinct (map fst byId @ ids_of ms)"
  shows "fold file_entry ms (byId, un) = (byId @ map (\<lambda>m. (the (timelineEntryId m), m)) ms, un)"
  using assms
proof (induction ms arbitrary: byId)
  case (Cons m ms)
  then have "file_entry m (byId, un) = (byId @ [(the (timelineEntryId m), m)], un)"
    by (intro file_settled) (auto simp: ids_of_Cons)
  with Cons show ?case by (simp add: ids_of_Cons)
qed simp

lemma server_ids_settled:
  assumes "\<forall>m \<in> set ms. identified m" and "distinct (ids_of ms)"
  shows "server_ids (map (\<lambda>m. (the (timelineEntryId m), m)) ms) ms = []"
proof -
  let ?by = "map (\<lambda>m. (the (timelineEntryId m), m)) ms"
  have "Option.bind (timelineEntryId m) (map_of ?by) = Some m" if "m \<in> set ms" for m
  proof -
    have "filter identified ms = ms" using assms(1) by (simp add: filter_id_conv)
    then have "distinct (map fst ?by)" using assms(2) by (simp add: ids_of_def comp_def)
    moreover have "(the (timelineEntryId m), m) \<in> set ?by" using that by simp
    ultimately have "map_of ?by (the (timelineEntryId m)) = Some m" by (rule map_of_is_SomeI)
    moreover have "timelineEntryId m \<noteq> None" using assms(1) that by (auto simp: identified_def str_truthy_iff)
    ultimately show ?thesis by auto
  qed
  then have "fold (\<lambda>m ids. if \<not> provisional m then ids
         else (case Option.bind (timelineEntryId m) (map_of ?by) of
                 None \<Rightarrow> ids
               | Some persisted \<Rightarrow>
                   if str persisted F_message \<noteq> str m F_message
                   then AList.update (the (str m F_message)) (str persisted F_message) ids else ids)) xs [] = []"
    if "set xs \<subseteq> set ms" for xs using that by (induction xs) auto
  then show ?thesis by (simp add: server_ids_def)
qed

lemma redirect_settled: "settled m \<Longrightarrow> settled (redirect_reply ids m)"
  by (simp add: settled_def TIMESTAMP_FIELDS_def redirect_str redirect_same)

lemma redirect_none [simp]: "redirect_reply [] m = m"
  by (simp add: redirect_reply_def)

lemma redirect_all_none [simp]: "map (redirect_reply []) ms = ms"
  by (induction ms) simp_all

lemma dedupe_settled:
  assumes "\<forall>m \<in> set entries. well_identified m \<and> identified m" and "m \<in> set (dedupeAndSort engine entries)"
  shows "identified m" "settled m"
proof -
  obtain byId un where w: "filed_well entries (byId, un)" and d: "dedupeAndSort engine entries =
      sort_cmp (newestFirst engine) (map (redirect_reply (server_ids byId entries)) (map snd byId @ un))"
    using assms(1) by (auto intro: dedupeAndSort_shape [of entries engine])
  have "un = []" using w assms(1) by (simp add: filed_well_def)
  then show "identified m" "settled m"
    using assms(2) w unfolding d by (auto simp: filed_well_def identified_def redirect_settled)
qed

lemma dedupe_fixed:
  assumes "\<forall>m \<in> set ms. identified m \<and> settled m" and "distinct (ids_of ms)"
    and "sorted_wrt (\<lambda>a b. newestFirst engine a b \<le> 0) ms"
  shows "dedupeAndSort engine ms = ms"
proof -
  have f: "fold file_entry ms ([], []) = (map (\<lambda>m. (the (timelineEntryId m), m)) ms, [])"
    using file_all_settled [of ms "[]" "[]"] assms(1,2) by simp
  have "map (redirect_reply []) (map snd (map (\<lambda>m. (the (timelineEntryId m), m)) ms)) = ms" by (simp add: comp_def)
  then show ?thesis
    using assms f server_ids_settled [of ms] by (simp add: dedupeAndSort_def sort_cmp_fixed del: map_map)
qed

text \<open>
  Reconciling a history once more changes nothing: page and delta merges can be repeated.
\<close>

theorem dedupe_idempotent:
  assumes "\<forall>m \<in> set entries. well_identified m \<and> identified m"
  shows "dedupeAndSort engine (dedupeAndSort engine entries) = dedupeAndSort engine entries"
proof (rule dedupe_fixed)
  show "\<forall>m \<in> set (dedupeAndSort engine entries). identified m \<and> settled m" using dedupe_settled [OF assms] by blast
  show "distinct (ids_of (dedupeAndSort engine entries))" using assms by (intro dedupe_ids) simp
  show "sorted_wrt (\<lambda>a b. newestFirst engine a b \<le> 0) (dedupeAndSort engine entries)"
    by (simp add: dedupeAndSort_def timeline_sorted split: prod.split)
qed

theorem dedupe_idempotent_witness:
  "dedupeAndSort (\<lambda>_. None) (dedupeAndSort (\<lambda>_. None) demo_history) = dedupeAndSort (\<lambda>_. None) demo_history"
  by (rule dedupe_idempotent)
    (simp add: demo_history_def demo_entry_def well_identified_def client_form_def identified_def timelineEntryId_def str_def)

section \<open>Pages\<close>

lemma id_upd:
  assumes "f \<notin> {F_message, F_call, F_client, F_sender}"
  shows "timelineEntryId (m(f := v)) = timelineEntryId m" "well_identified (m(f := v)) = well_identified m"
  using assms by (auto simp: timelineEntryId_def well_identified_def)

lemma synced_id: "timelineEntryId (synced m) = timelineEntryId m" "well_identified (synced m) = well_identified m"
  by (simp_all add: synced_def id_upd)

text \<open>The tombstones of a held history are entries of it, filed under their identity.\<close>

lemma held_marks_tombs:
  "(i, tb) \<in> set (snd (held_marks existing)) \<Longrightarrow> tb \<in> set existing \<and> timelineEntryId tb = Some i"
proof -
  have upd: "(k, x) \<in> set (AList.update i v ps) \<Longrightarrow> (k = i \<and> x = v) \<or> (k, x) \<in> set ps" for k x i and v :: entry and ps
    by (induction ps) (auto split: if_splits)
  show "(i, tb) \<in> set (snd (held_marks existing)) \<Longrightarrow> tb \<in> set existing \<and> timelineEntryId tb = Some i"
  proof (induction existing rule: rev_induct)
    case (snoc m ms)
    obtain local_times tombs where h: "held_marks ms = (local_times, tombs)" by fastforce
    then have "snd (held_marks (ms @ [m])) = (if str_truthy (timelineEntryId m) \<and> str_truthy (str m F_deleted)
        then AList.update (the (timelineEntryId m)) m tombs else tombs)"
      by (simp add: held_marks_def Let_def)
    then show ?case using snoc h by (auto simp: str_truthy_iff split: if_splits dest!: upd)
  qed (simp add: held_marks_def)
qed

definition carried :: "(string \<times> string) list \<Rightarrow> (string \<times> entry) list \<Rightarrow> entry \<Rightarrow> entry" where
  "carried local_times tombs m =
     (let i = timelineEntryId m;
          tombstone = (if str_truthy i then map_of tombs (the i) else None);
          created = (if str_truthy i then map_of local_times (the i) else None);
          dated = (if str_truthy created then m(F_client_created \<mapsto> Str (the created)) else m)
      in case tombstone of Some tb \<Rightarrow> if str_truthy (str m F_deleted) then dated else tb | None \<Rightarrow> dated)"

lemma carryLocalCreatedAt_map:
  assumes "held_marks existing = (local_times, tombs)"
  shows "carryLocalCreatedAt existing page = map (carried local_times tombs) page"
proof (cases "local_times = [] \<and> tombs = []")
  case True
  then have "carried local_times tombs = (\<lambda>m. m)" by (simp add: carried_def Let_def fun_eq_iff)
  with True show ?thesis by (simp add: carryLocalCreatedAt_def assms)
next
  case False
  then show ?thesis by (auto simp: carryLocalCreatedAt_def assms carried_def [abs_def] Let_def)
qed

lemma carried_id:
  assumes "held_marks existing = (local_times, tombs)" and "\<forall>m \<in> set existing. well_identified m"
  shows "timelineEntryId (carried local_times tombs m) = timelineEntryId m \<and> (well_identified m \<longrightarrow> well_identified (carried local_times tombs m))"
proof -
  have "timelineEntryId tb = Some i \<and> well_identified tb" if "map_of tombs i = Some tb" for i tb
    using held_marks_tombs [of i tb existing] map_of_SomeD [OF that] assms by auto
  then have tomb: "timelineEntryId tb = timelineEntryId m \<and> well_identified tb"
    if "map_of tombs (the (timelineEntryId m)) = Some tb" "str_truthy (timelineEntryId m)" for tb
    using that by (auto simp: str_truthy_iff)
  show ?thesis
    by (simp add: carried_def Let_def id_upd split: option.split) (metis tomb)
qed

lemma page_copies_ids:
  assumes "\<forall>m \<in> set held. well_identified m" and "\<forall>m \<in> set page. well_identified m"
  shows "map timelineEntryId (page_copies held page) = map timelineEntryId page"
    "\<forall>m \<in> set (page_copies held page). well_identified m"
proof -
  obtain local_times tombs where h: "held_marks held = (local_times, tombs)" by fastforce
  show "map timelineEntryId (page_copies held page) = map timelineEntryId page"
    "\<forall>m \<in> set (page_copies held page). well_identified m"
    using assms(2) carried_id [OF h assms(1)] by (auto simp: page_copies_def carryLocalCreatedAt_map [OF h] synced_id)
qed

text \<open>
  The first page of a conversation replaces what it covers and nothing else: afterwards the history has
  exactly the entries of the page and those held entries that still wait for delivery, have no readable time or
  lie outside the span the page reports on. Older pages only add.
\<close>

theorem history_page_window:
  assumes "\<forall>m \<in> set held. well_identified m" and "\<forall>m \<in> set page. well_identified m"
  shows "set (ids_of (mergeHistoryPage engine (Some held) page None)) =
      set (ids_of page) \<union> set (ids_of (filter (kept_outside engine (pageWindow engine (page_copies held page))) held)) \<and>
    (b \<noteq> [] \<longrightarrow> set (ids_of (mergeHistoryPage engine (Some held) page (Some b))) = set (ids_of held) \<union> set (ids_of page))"
proof -
  let ?copies = "page_copies held page"
  let ?kept = "kept_outside engine (pageWindow engine ?copies)"
  let ?ids = "set (map timelineEntryId ?copies)"
  have ids: "map timelineEntryId ?copies = map timelineEntryId page" and w: "\<forall>m \<in> set ?copies. well_identified m"
    using page_copies_ids [OF assms] by blast+
  have page: "set (ids_of ?copies) = set (ids_of page)"
  proof -
    have "(\<exists>m \<in> set xs. timelineEntryId m = Some i) \<longleftrightarrow> Some i \<in> set (map timelineEntryId xs)" for xs i by force
    from this [of ?copies] this [of page] show ?thesis by (auto simp only: in_ids_of ids)
  qed
  have all: "\<forall>m \<in> set (filter (\<lambda>m. timelineEntryId m \<in> ?ids) held @
      filter (\<lambda>m. timelineEntryId m \<notin> ?ids \<and> ?kept m) held @ ?copies). well_identified m"
    using assms(1) w by auto
  have "set (ids_of (mergeHistoryPage engine (Some held) page None)) =
      set (ids_of (filter (\<lambda>m. timelineEntryId m \<in> ?ids) held)) \<union>
      set (ids_of (filter (\<lambda>m. timelineEntryId m \<notin> ?ids \<and> ?kept m) held)) \<union> set (ids_of page)"
    using dedupe_ids(2) [OF all, of engine] by (simp add: mergeHistoryPage_def Let_def page Un_assoc)
  also have "\<dots> = set (ids_of page) \<union> set (ids_of (filter ?kept held))"
  proof -
    have "set (ids_of (filter (\<lambda>m. timelineEntryId m \<in> ?ids) held)) \<subseteq> set (ids_of page)"
      by (fastforce simp: in_ids_of ids)
    moreover have "set (ids_of (filter ?kept held)) \<subseteq> set (ids_of page) \<union> set (ids_of (filter (\<lambda>m. timelineEntryId m \<notin> ?ids \<and> ?kept m) held))"
      by (auto simp: in_ids_of ids image_iff) metis
    moreover have "set (ids_of (filter (\<lambda>m. timelineEntryId m \<notin> ?ids \<and> ?kept m) held)) \<subseteq> set (ids_of (filter ?kept held))"
      by (auto simp: in_ids_of)
    ultimately show ?thesis by blast
  qed
  finally have first: "set (ids_of (mergeHistoryPage engine (Some held) page None)) =
      set (ids_of page) \<union> set (ids_of (filter ?kept held))" .
  have "\<forall>m \<in> set (held @ ?copies). well_identified m" using assms(1) w by auto
  from dedupe_ids(2) [OF this, of engine]
  have "b \<noteq> [] \<longrightarrow> set (ids_of (mergeHistoryPage engine (Some held) page (Some b))) = set (ids_of held) \<union> set (ids_of page)"
    by (simp add: mergeHistoryPage_def Let_def page)
  with first show ?thesis by blast
qed

definition demo_page :: "entry list" where
  "demo_page = [demo_entry ''m4'' ''bob'' ''2024-05-01T10:05:00.000Z'', demo_entry ''m2'' ''ann'' ''2024-05-01T10:01:00.000Z'']"

definition demo_held :: "entry list" where
  "demo_held = [demo_entry ''m5'' ''bob'' ''2024-05-01T10:06:00.000Z'', demo_entry ''m3'' ''bob'' ''2024-05-01T10:03:00.000Z'',
     demo_entry ''m1'' ''bob'' ''2024-05-01T10:00:00.000Z'']"

theorem history_page_window_witness:
  "set (ids_of (mergeHistoryPage (\<lambda>_. None) (Some demo_held) demo_page None)) = {''m4'', ''m2'', ''m5'', ''m1''} \<and>
   ''m3'' \<notin> set (ids_of (mergeHistoryPage (\<lambda>_. None) (Some demo_held) demo_page None))"
proof -
  have w: "\<forall>m \<in> set demo_held. well_identified m" "\<forall>m \<in> set demo_page. well_identified m"
    by (simp_all add: demo_held_def demo_page_def demo_entry_def well_identified_def client_form_def str_def)
  have "ids_of demo_page = [''m4'', ''m2'']"
    "ids_of (filter (kept_outside (\<lambda>_. None) (pageWindow (\<lambda>_. None) (page_copies demo_held demo_page))) demo_held) = [''m5'', ''m1'']"
    by code_simp+
  with history_page_window [OF w, of "\<lambda>_. None" "''x''"] show ?thesis by auto
qed

section \<open>The watermark\<close>

definition watermark :: "(string \<Rightarrow> int option) \<Rightarrow> socket_cursor option \<Rightarrow> nat \<times> int \<times> string" where
  "watermark engine c =
     (case c of
        None \<Rightarrow> (0, 0, [])
      | Some cur \<Rightarrow> (case timestampMs engine (Some (sc_created cur)) of
                       None \<Rightarrow> (1, 0, []) | Some t \<Rightarrow> (2, t, sc_message cur)))"

definition delivery_mark :: "(string \<Rightarrow> int option) \<Rightarrow> string option \<times> string option \<Rightarrow> nat \<times> int \<times> string" where
  "delivery_mark engine = (\<lambda>(mid, created).
     if \<not> str_truthy mid \<or> \<not> str_truthy created then (0, 0, [])
     else (case timestampMs engine created of None \<Rightarrow> (0, 0, []) | Some t \<Rightarrow> (2, t, the mid)))"

lemma timestampMs_normalized:
  "timestampMs engine (normalizeTimestamp v) = timestampMs engine v"
  by (simp add: timestampMs_def normalizeTimestamp_idem)

lemma advance_watermark:
  "watermark engine (advanceSocketMessageCursor engine c d) = max (watermark engine c) (delivery_mark engine d)"
proof -
  obtain mid created where d: "d = (mid, created)" by fastforce
  show ?thesis
  proof (cases "str_truthy mid \<and> str_truthy created")
    case False
    then show ?thesis
      by (auto simp: d advanceSocketMessageCursor_def delivery_mark_def watermark_def max_def less_eq_prod_def split: option.splits)
  next
    case True
    then obtain cr where cr: "created = Some cr" by (auto simp: str_truthy_iff)
    then obtain n where n: "normalizeTimestamp created = Some n" by (cases "normalizeTimestamp created") (auto simp: normalizeTimestamp_def split: option.splits if_splits)
    then have t: "timestampMs engine (Some n) = timestampMs engine created" by (metis timestampMs_normalized)
    show ?thesis
      using True
      by (auto simp: d n t advanceSocketMessageCursor_def delivery_mark_def watermark_def Let_def max_def less_eq_prod_def
          split: option.splits)
  qed
qed

text \<open>
  Deliveries of a conversation may arrive in any order, repeated or not: the watermark they leave is the
  same, is never behind where it was, and covers each of them.
\<close>

theorem watermark_converges:
  assumes "set ds = set ds'"
  shows "watermark engine (fold (\<lambda>d c. advanceSocketMessageCursor engine c d) ds c) =
      watermark engine (fold (\<lambda>d c. advanceSocketMessageCursor engine c d) ds' c) \<and>
    watermark engine c \<le> watermark engine (fold (\<lambda>d c. advanceSocketMessageCursor engine c d) ds c) \<and>
    (\<forall>d \<in> set ds. delivery_mark engine d \<le> watermark engine (fold (\<lambda>d c. advanceSocketMessageCursor engine c d) ds c))"
proof -
  have run: "watermark engine (fold (\<lambda>d c. advanceSocketMessageCursor engine c d) ds c) =
      Max (insert (watermark engine c) (delivery_mark engine ` set ds))" for ds
  proof (induction ds arbitrary: c)
    case (Cons d ds)
    then show ?case
      by (cases "ds = []") (simp_all add: advance_watermark max.assoc max.left_commute max.commute Max.insert_remove [symmetric] insert_commute)
  qed simp
  show ?thesis unfolding run using assms by (auto intro: Max_ge)
qed

theorem watermark_converges_witness:
  "watermark (\<lambda>_. None) (fold (\<lambda>d c. advanceSocketMessageCursor (\<lambda>_. None) c d)
      [(Some ''b'', Some ''2024-05-01T10:00:00.000Z''), (Some ''a'', Some ''2024-05-01T10:00:00.000Z'')] None) =
   watermark (\<lambda>_. None) (fold (\<lambda>d c. advanceSocketMessageCursor (\<lambda>_. None) c d)
      [(Some ''a'', Some ''2024-05-01T10:00:00.000Z''), (Some ''b'', Some ''2024-05-01T10:00:00.000Z''),
       (Some ''a'', Some ''2024-05-01T10:00:00.000Z'')] None)"
  by (rule conjunct1 [OF watermark_converges]) auto

end
