(* ===== verification/DeltaProperties.thy ===== *)
theory DeltaProperties
  imports DeltaSync TimelineProperties
begin

text \<open>
  The merge rules of the delta sync: the server wins on content, local rows stay, deleted messages lose their
  content; and the cursor passes a page only once the history with it is saved, whatever fails.
\<close>

section \<open>Merging changes\<close>

lemma server_copy_upd:
  "(server_copy nw m = m \<and> \<not> str_truthy (str m F_deleted)) \<or> (\<exists>d. server_copy nw m = m(F_body \<mapsto> Str [], F_attachment \<mapsto> Null, F_reactions \<mapsto> Obj [], F_deleted \<mapsto> Str d) \<and>
    str m F_deleted = Some d \<and> d \<noteq> [])"
proof (cases "str_truthy (str m F_deleted)")
  case True
  then obtain d where d: "str m F_deleted = Some d" "d \<noteq> []" by (auto simp: str_truthy_iff)
  then have "server_copy nw m = m(F_body \<mapsto> Str [], F_attachment \<mapsto> Null, F_reactions \<mapsto> Obj [], F_deleted \<mapsto> Str d)"
    by (auto simp: server_copy_def tombstoneOf_def map_add_def fun_eq_iff split: option.split)
  with d show ?thesis by blast
qed (simp add: server_copy_def)

lemma server_copy_id [simp]:
  "timelineEntryId (server_copy nw m) = timelineEntryId m" "well_identified (server_copy nw m) = well_identified m"
  using server_copy_upd [of nw m] by (auto simp: id_upd)

lemma server_copy_purged:
  "str_truthy (str (server_copy nw m) F_deleted) \<Longrightarrow>
    server_copy nw m F_body = Some (Str []) \<and> server_copy nw m F_attachment = Some Null \<and> server_copy nw m F_reactions = Some (Obj [])"
  using server_copy_upd [of nw m] by auto

lemma copies_well:
  assumes "\<forall>m. Some m \<in> set changes \<longrightarrow> well_identified m"
  shows "\<forall>m \<in> set (server_copies nw user peer changes). well_identified m"
  using assms by (auto simp: server_copies_def relevant_change_def split: option.splits)

lemma merge_keeps_server_fields:
  assumes "\<not> awaiting_delivery m" "\<not> awaits_identity p m"
  shows "m f = Some v \<Longrightarrow> mergeTimelineCopy (Some p) m f = Some v"
  using assms by (simp add: mergeTimelineCopy_def)

lemma file_other:
  "fst (file_entry m (byId, un)) = byId \<or> (identified m \<and>
    (\<exists>e. fst (file_entry m (byId, un)) = AList.update (the (timelineEntryId m)) e byId))"
  by (auto simp: file_entry_def Let_def identified_def prepared_id)

lemma filed_unchanged:
  "i \<notin> set (ids_of ms) \<Longrightarrow> map_of (fst (fold file_entry ms acc)) i = map_of (fst acc) i"
proof (induction ms arbitrary: acc)
  case (Cons m ms)
  have "i \<notin> set (ids_of ms)" "\<not> (identified m \<and> the (timelineEntryId m) = i)" using Cons.prems by (auto simp: ids_of_Cons split: if_splits)
  moreover have "map_of (fst (file_entry m acc)) i = map_of (fst acc) i"
    using file_other [of m "fst acc" "snd acc"] calculation(2) by auto
  ultimately show ?case using Cons.IH by simp
qed simp

lemma last_copy_filed:
  assumes c: "timelineEntryId c = Some i" "i \<noteq> []" "\<not> awaiting_delivery c" "\<not> provisional c" and B: "i \<notin> set (ids_of B)"
  shows "\<exists>e. map_of (fst (fold file_entry (A @ c # B) ([], []))) i = Some e \<and> (\<forall>f v. prepared c f = Some v \<longrightarrow> e f = Some v)"
proof -
  obtain byId un where acc: "fold file_entry A ([], []) = (byId, un)" by fastforce
  let ?e = "mergeTimelineCopy (map_of byId i) (prepared c)"
  have "fst (file_entry c (byId, un)) = AList.update i ?e byId"
    using c(1,2) by (simp add: file_entry_def Let_def)
  then have "map_of (fst (fold file_entry (A @ c # B) ([], []))) i = Some ?e"
    using filed_unchanged [OF B] by (simp add: acc)
  moreover have "?e f = Some v" if v: "prepared c f = Some v" for f v
  proof -
    have keep: "str (prepared c) g = str c g" if "g \<in> {F_message, F_client}" for g
      using that by (auto simp: prepared_def Let_def str_synced str_normalize TIMESTAMP_FIELDS_def)
    have "\<not> awaits_identity p (prepared c)" for p using c(4) keep by (auto simp: awaits_identity_def provisional_def)
    moreover have "\<not> awaiting_delivery (prepared c)"
      using c(3) by (auto simp: awaiting_delivery_def prepared_def Let_def synced_def str_normalize TIMESTAMP_FIELDS_def)
    ultimately show ?thesis using v merge_keeps_server_fields by (cases "map_of byId i") (simp_all add: mergeTimelineCopy_def)
  qed
  ultimately show ?thesis by blast
qed

text \<open>
  C38. A page of changes is laid over the local history. No row is lost and no row appears that neither side
  has; the last copy the server sent of a message is what the history shows of it, except for the redirection
  of a reply; and the content of a message deleted on the server is gone.
\<close>

theorem delta_server_wins:
  assumes "\<forall>m \<in> set existing. well_identified m" and "\<forall>m. Some m \<in> set changes \<longrightarrow> well_identified m"
    and "server_copies nw user peer changes = A @ c # B"
    and "timelineEntryId c = Some i" "i \<noteq> []" "i \<notin> set (ids_of B)" "\<not> awaiting_delivery c" "\<not> provisional c"
  shows "set (ids_of (fst (mergeDeltaChanges engine nw existing changes user peer))) = set (ids_of existing) \<union> set (ids_of (A @ c # B)) \<and>
    (\<exists>r \<in> set (fst (mergeDeltaChanges engine nw existing changes user peer)). timelineEntryId r = Some i \<and>
       (\<forall>f v. f \<noteq> F_reply \<longrightarrow> prepared c f = Some v \<longrightarrow> r f = Some v) \<and>
       (str_truthy (str c F_deleted) \<longrightarrow> str r F_body = Some [] \<and> r F_attachment = Some Null))"
proof -
  let ?R = "fst (mergeDeltaChanges engine nw existing changes user peer)"
  have R: "?R = dedupeAndSort engine (existing @ A @ c # B)"
    by (simp add: mergeDeltaChanges_def assms(3) Let_def)
  have w: "\<forall>m \<in> set (existing @ A @ c # B). well_identified m"
    using assms(1) copies_well [OF assms(2), of nw user peer] by (auto simp: assms(3))
  obtain byId un where f: "fold file_entry (existing @ A @ c # B) ([], []) = (byId, un)"
    and fw: "filed_well (existing @ A @ c # B) (byId, un)"
    and d: "dedupeAndSort engine (existing @ A @ c # B) = sort_cmp (newestFirst engine)
      (map (redirect_reply (server_ids byId (existing @ A @ c # B))) (map snd byId @ un))"
    by (rule dedupeAndSort_shape [OF w])
  obtain e where e: "map_of byId i = Some e" and fields: "\<And>f v. prepared c f = Some v \<Longrightarrow> e f = Some v"
    using last_copy_filed [OF assms(4,5,7,8,6), of "existing @ A"] f by auto
  let ?r = "redirect_reply (server_ids byId (existing @ A @ c # B)) e"
  have "(i, e) \<in> set byId" using e by (rule map_of_SomeD)
  then have "timelineEntryId ?r = Some i" using fw by (auto simp: filed_well_def)
  moreover have "?r \<in> set ?R" unfolding R d set_sort_cmp using \<open>(i, e) \<in> set byId\<close> by (force simp: image_iff)
  moreover have "\<forall>f v. f \<noteq> F_reply \<longrightarrow> prepared c f = Some v \<longrightarrow> ?r f = Some v" using fields by (simp add: redirect_same)
  moreover have "str_truthy (str c F_deleted) \<longrightarrow> str ?r F_body = Some [] \<and> ?r F_attachment = Some Null"
  proof
    assume del: "str_truthy (str c F_deleted)"
    have "c \<in> set (server_copies nw user peer changes)" by (simp add: assms(3))
    then obtain m where "c = server_copy nw m" by (auto simp: server_copies_def)
    then have "c F_body = Some (Str [])" "c F_attachment = Some Null" using server_copy_purged del by blast+
    moreover have "prepared c g = c g" if "g \<in> {F_body, F_attachment}" for g
      using that by (auto simp: prepared_def Let_def synced_def normalizeEntryTimestamps_def TIMESTAMP_FIELDS_def normalize_field_def
          split: option.split)
    ultimately have "e F_body = Some (Str [])" "e F_attachment = Some Null" using fields by simp_all
    then show "str ?r F_body = Some [] \<and> ?r F_attachment = Some Null" by (simp add: redirect_same str_def)
  qed
  moreover have "set (ids_of ?R) = set (ids_of existing) \<union> set (ids_of (A @ c # B))"
    unfolding R dedupe_ids(2) [OF w] by (simp only: ids_of_append set_append)
  ultimately show ?thesis by blast
qed

definition demo_changes :: "entry option list" where
  "demo_changes =
     [Some ((demo_entry ''m2'' ''ann'' ''2024-05-01T10:01:00.000Z'')(F_recipient \<mapsto> Str ''bob'', F_body \<mapsto> Str ''new'')),
      None,
      Some ((demo_entry ''m1'' ''bob'' ''2024-05-01T10:00:00.000Z'')
        (F_recipient \<mapsto> Str ''ann'', F_deleted \<mapsto> Str ''2024-05-02T08:00:00.000Z''))]"

theorem delta_server_wins_witness:
  "\<exists>r \<in> set (fst (mergeDeltaChanges (\<lambda>_. None) ''now'' demo_history demo_changes ''ann'' ''bob'')).
     timelineEntryId r = Some ''m1'' \<and> str r F_body = Some []"
proof -
  let ?c = "server_copies ''now'' ''ann'' ''bob'' demo_changes ! 1"
  have copies: "server_copies ''now'' ''ann'' ''bob'' demo_changes = [server_copies ''now'' ''ann'' ''bob'' demo_changes ! 0] @ ?c # []"
    by (simp add: server_copies_def demo_changes_def relevant_change_def in_conversation_def demo_entry_def str_def)
  have w: "\<forall>m \<in> set demo_history. well_identified m" "\<forall>m. Some m \<in> set demo_changes \<longrightarrow> well_identified m"
    by (auto simp: demo_history_def demo_changes_def demo_entry_def well_identified_def client_form_def str_def)
  have c: "timelineEntryId ?c = Some ''m1''" "\<not> awaiting_delivery ?c" "\<not> provisional ?c" "str_truthy (str ?c F_deleted)" by code_simp+
  have "''m1'' \<noteq> []" "''m1'' \<notin> set (ids_of [])" by simp_all
  from delta_server_wins [OF w copies c(1) this c(2,3), of "\<lambda>_. None"] c(4) show ?thesis by blast
qed

section \<open>The cursor\<close>

definition page_data :: "delta_step list \<Rightarrow> nat \<Rightarrow> delta_page" where
  "page_data pages k = projr (st_answer (pages ! k))"

definition apply_pages ::
  "(string \<Rightarrow> int option) \<Rightarrow> string \<Rightarrow> string \<Rightarrow> string \<Rightarrow> entry option list list \<Rightarrow> entry list \<Rightarrow> entry list" where
  "apply_pages engine nw user peer css ms = fold (\<lambda>ch ms. fst (mergeDeltaChanges engine nw ms ch user peer)) css ms"

text \<open>Whether the first \<open>m\<close> pages say anything of the conversation, and the histories with them merged in.\<close>

definition pages_of :: "delta_step list \<Rightarrow> nat \<Rightarrow> entry option list list" where
  "pages_of pages m = map (\<lambda>k. dp_changes (page_data pages k)) [0..<m]"

definition silent :: "string \<Rightarrow> string \<Rightarrow> entry option list list \<Rightarrow> bool" where
  "silent user peer css = (\<forall>ch \<in> set css. filter (relevant_change user peer) ch = [])"

definition merged_histories ::
  "(string \<Rightarrow> int option) \<Rightarrow> string \<Rightarrow> string \<Rightarrow> string \<Rightarrow> entry option list list \<Rightarrow> messages_by_peer \<Rightarrow> messages_by_peer" where
  "merged_histories engine nw user peer css h = AList.update peer (apply_pages engine nw user peer css (entries_of h peer)) h"

text \<open>
  Of a run from \<open>s\<close> to \<open>s'\<close>: some first \<open>m\<close> pages were merged and, if they say anything, saved together, so that the
  disk holds what the database keeps of the histories with all of them; and the cursor is the old one or that
  of one of these pages.
\<close>

definition cursor_covered ::
  "(string \<Rightarrow> int option) \<Rightarrow> string \<Rightarrow> string \<Rightarrow> string \<Rightarrow> delta_step list \<Rightarrow> delta_state \<Rightarrow> delta_state \<Rightarrow> nat \<Rightarrow> bool" where
  "cursor_covered engine nw user peer pages s s' m =
     (m \<le> length pages \<and> (\<forall>k < m. \<exists>d. st_answer (pages ! k) = Inr d) \<and>
      (ds_cursor s' = ds_cursor s \<or> (\<exists>k < m. ds_cursor s' = dp_cursor (page_data pages k))) \<and>
      (if silent user peer (pages_of pages m) then ds_disk s' = ds_disk s
       else \<exists>k < m. ds_disk s' =
              save_messages engine (st_pinned (pages ! k)) (merged_histories engine nw user peer (pages_of pages m) (ds_messages s))))"

lemma pages_of_Suc [simp]: "st_answer st = Inr d \<Longrightarrow> pages_of (st # pages) (Suc m) = dp_changes d # pages_of pages m"
  by (simp add: pages_of_def upt_conv_Cons map_Suc_upt [symmetric] page_data_def comp_def del: upt_Suc)

lemma silent_simps [simp]:
  "silent user peer []" "silent user peer (ch # css) \<longleftrightarrow> filter (relevant_change user peer) ch = [] \<and> silent user peer css"
  by (simp_all add: silent_def)

lemma no_copies [simp]: "server_copies nw user peer ch = [] \<longleftrightarrow> filter (relevant_change user peer) ch = []"
  by (simp add: server_copies_def)

lemma update_again: "AList.update k v (AList.update k w xs) = AList.update k v xs"
  by (induction xs) auto

lemma merge_silent: "filter (relevant_change user peer) ch = [] \<Longrightarrow> fst (mergeDeltaChanges engine nw ms ch user peer) = ms"
  by (simp add: mergeDeltaChanges_def Let_def server_copies_def)

lemma apply_silent: "silent user peer css \<Longrightarrow> apply_pages engine nw user peer css ms = ms"
  by (induction css arbitrary: ms) (simp_all add: apply_pages_def merge_silent)

lemma merged_Cons:
  "merged_histories engine nw user peer (ch # css) h = merged_histories engine nw user peer css (merged_histories engine nw user peer [ch] h)"
  by (simp add: merged_histories_def apply_pages_def entries_of_def update_again)

lemma merged_silent:
  "silent user peer css \<Longrightarrow>
   merged_histories engine nw user peer css (merged_histories engine nw user peer [ch] h) = merged_histories engine nw user peer [ch] h"
  by (simp add: merged_histories_def apply_silent entries_of_def update_again)

lemma covered_here: "ds_disk s' = ds_disk s \<Longrightarrow> ds_cursor s' = ds_cursor s \<Longrightarrow> cursor_covered engine nw user peer pages s s' 0"
  by (simp add: cursor_covered_def pages_of_def)

lemma applyDeltaPage_cases:
  assumes "applyDeltaPage engine nw user peer pinned ok changes s = (res, s')"
  obtains (nothing) "res = Inr 0" "s' = s" "server_copies nw user peer changes = []"
    | (failed) err where "res = Inl err" "ds_cursor s' = ds_cursor s" "ds_disk s' = ds_disk s"
    | (saved) n where "res = Inr n" "ds_cursor s' = ds_cursor s" "server_copies nw user peer changes \<noteq> []"
        "ds_messages s' = merged_histories engine nw user peer [changes] (ds_messages s)"
        "ds_disk s' = save_messages engine pinned (ds_messages s')"
  using assms
  by (auto simp: applyDeltaPage_def mergeDeltaChanges_def Let_def merged_histories_def apply_pages_def split: if_splits)

text \<open>One page more in front: the history with it is on disk, and the cursor may have moved to it.\<close>

lemma covered_step:
  assumes d: "st_answer st = Inr d"
    and page: "(server_copies nw user peer (dp_changes d) = [] \<and> ds_disk s1 = ds_disk s \<and> ds_messages s1 = ds_messages s) \<or>
      (server_copies nw user peer (dp_changes d) \<noteq> [] \<and>
       ds_messages s1 = merged_histories engine nw user peer [dp_changes d] (ds_messages s) \<and>
       ds_disk s1 = save_messages engine (st_pinned st) (ds_messages s1))"
    and cur: "ds_cursor s1 = ds_cursor s \<or> ds_cursor s1 = dp_cursor d"
    and rest: "cursor_covered engine nw user peer pages s1 s' m"
  shows "cursor_covered engine nw user peer (st # pages) s s' (Suc m)"
proof -
  note r = rest [unfolded cursor_covered_def]
  have "\<forall>k < Suc m. \<exists>d. st_answer ((st # pages) ! k) = Inr d" using r d by (auto simp: less_Suc_eq_0_disj)
  moreover have "ds_cursor s' = ds_cursor s \<or> (\<exists>k < Suc m. ds_cursor s' = dp_cursor (page_data (st # pages) k))"
    using r cur by (auto simp: Ex_less_Suc2 page_data_def d)
  moreover have "if silent user peer (pages_of (st # pages) (Suc m)) then ds_disk s' = ds_disk s
     else \<exists>k < Suc m. ds_disk s' = save_messages engine (st_pinned ((st # pages) ! k))
            (merged_histories engine nw user peer (pages_of (st # pages) (Suc m)) (ds_messages s))"
  proof (cases "silent user peer (pages_of pages m)")
    case True
    then have same: "ds_disk s' = ds_disk s1" using r by simp
    show ?thesis using page
    proof
      assume "server_copies nw user peer (dp_changes d) = [] \<and> ds_disk s1 = ds_disk s \<and> ds_messages s1 = ds_messages s"
      then show ?thesis using True same d by simp
    next
      assume n: "server_copies nw user peer (dp_changes d) \<noteq> [] \<and>
        ds_messages s1 = merged_histories engine nw user peer [dp_changes d] (ds_messages s) \<and>
        ds_disk s1 = save_messages engine (st_pinned st) (ds_messages s1)"
      then have "ds_disk s' = save_messages engine (st_pinned st)
          (merged_histories engine nw user peer (pages_of (st # pages) (Suc m)) (ds_messages s))"
        unfolding pages_of_Suc [OF d] merged_Cons [of engine nw user peer "dp_changes d" "pages_of pages m"] merged_silent [OF True]
        using same by simp
      then show ?thesis using n d by auto
    qed
  next
    case False
    then obtain k where k: "k < m"
      "ds_disk s' = save_messages engine (st_pinned (pages ! k)) (merged_histories engine nw user peer (pages_of pages m) (ds_messages s1))"
      using r by auto
    have "merged_histories engine nw user peer (pages_of pages m) (ds_messages s1) =
        merged_histories engine nw user peer (pages_of (st # pages) (Suc m)) (ds_messages s)"
      using page
    proof
      assume "server_copies nw user peer (dp_changes d) = [] \<and> ds_disk s1 = ds_disk s \<and> ds_messages s1 = ds_messages s"
      then show ?thesis using d by (simp add: merged_histories_def apply_pages_def merge_silent)
    next
      assume n: "server_copies nw user peer (dp_changes d) \<noteq> [] \<and>
        ds_messages s1 = merged_histories engine nw user peer [dp_changes d] (ds_messages s) \<and>
        ds_disk s1 = save_messages engine (st_pinned st) (ds_messages s1)"
      show ?thesis unfolding pages_of_Suc [OF d]
        using n merged_Cons [of engine nw user peer "dp_changes d" "pages_of pages m" "ds_messages s"] by simp
    qed
    then show ?thesis using False k d by (auto simp: Ex_less_Suc2)
  qed
  ultimately show ?thesis using r unfolding cursor_covered_def by simp
qed

lemma delta_loop_covered:
  assumes "ds_cursor s = cursor"
  shows "\<exists>m. cursor_covered engine nw user peer pages s (snd (delta_loop engine nw user peer pages cursor applied s)) m"
  using assms
proof (induction pages arbitrary: cursor applied s)
  case Nil
  have "cursor_covered engine nw user peer [] s s 0" by (rule covered_here) simp_all
  then show ?case by auto
next
  case (Cons st pages)
  have here: "ds_disk s' = ds_disk s \<Longrightarrow> ds_cursor s' = ds_cursor s \<Longrightarrow> \<exists>m. cursor_covered engine nw user peer (st # pages) s s' m" for s'
    by (rule exI) (rule covered_here)
  show ?case
  proof (cases "st_current st \<and> st_fetched st \<and> (\<exists>d. st_answer st = Inr d)")
    case False
    then show ?thesis using here [of s] by (auto split: sum.split)
  next
    case True
    then obtain d where st: "st_current st" "st_fetched st" "st_answer st = Inr d" by auto
    obtain res s1 where p: "applyDeltaPage engine nw user peer (st_pinned st) (st_flush st) (dp_changes d) s = (res, s1)" by fastforce
    show ?thesis
    proof (cases res)
      case (Inl err)
      have "ds_cursor s1 = ds_cursor s" "ds_disk s1 = ds_disk s" using p Inl by (cases rule: applyDeltaPage_cases; simp)+
      then show ?thesis using st p Inl here [of s1] by simp
    next
      case (Inr n)
      have page: "(server_copies nw user peer (dp_changes d) = [] \<and> ds_disk s1 = ds_disk s \<and> ds_messages s1 = ds_messages s) \<or>
          (server_copies nw user peer (dp_changes d) \<noteq> [] \<and>
           ds_messages s1 = merged_histories engine nw user peer [dp_changes d] (ds_messages s) \<and>
           ds_disk s1 = save_messages engine (st_pinned st) (ds_messages s1))"
        and same: "ds_cursor s1 = ds_cursor s"
        using p Inr by (cases rule: applyDeltaPage_cases; simp)+
      have on: "\<exists>m. cursor_covered engine nw user peer (st # pages) s s' m"
        if "\<exists>m. cursor_covered engine nw user peer pages s1 s' m" for s'
        using covered_step [OF st(3) page disjI1 [OF same]] that by blast
      have stop: "\<exists>m. cursor_covered engine nw user peer (st # pages) s s1 m"
        by (rule on, rule exI, rule covered_here) simp_all
      show ?thesis
      proof (cases "nextDeltaCursor cursor d")
        case (Inl err)
        then show ?thesis using st p \<open>res = Inr n\<close> stop by simp
      next
        case (Inr nxt)
        let ?s2 = "s1\<lparr>ds_cursor := nxt\<rparr>"
        have new: "nxt = dp_cursor d" if "nxt \<noteq> cursor"
          using Inr that by (cases "str_truthy (dp_cursor d)") (simp_all add: nextDeltaCursor_def Let_def split: if_splits)
        have moved: "\<exists>m. cursor_covered engine nw user peer (st # pages) s s' m"
          if ne: "nxt \<noteq> cursor" and ex: "\<exists>m. cursor_covered engine nw user peer pages ?s2 s' m" for s'
        proof -
          obtain m where m: "cursor_covered engine nw user peer pages ?s2 s' m" using ex by blast
          have "cursor_covered engine nw user peer (st # pages) s s' (Suc m)"
            by (rule covered_step [OF st(3) _ _ m]) (use page new [OF ne] in simp_all)
          then show ?thesis by blast
        qed
        have ends: "\<exists>m. cursor_covered engine nw user peer pages ?s2 ?s2 m" by (rule exI, rule covered_here) simp_all
        show ?thesis
          using st p \<open>res = Inr n\<close> Inr stop on moved ends Cons.IH [of s1 cursor] Cons.IH [of ?s2 nxt] same Cons.prems
          by (simp add: Let_def)
      qed
    qed
  qed
qed

section \<open>What the database drops\<close>

lemma no_later_count:
  assumes "sorted_wrt R xs" "i < length xs" "R (xs ! i) (xs ! i)"
  shows "i < length (filter (\<lambda>x. R x (xs ! i)) xs)"
proof -
  have "filter (\<lambda>x. R x (xs ! i)) (take (Suc i) xs) = take (Suc i) xs"
    using assms by (auto simp: filter_id_conv in_set_conv_nth sorted_wrt_iff_nth_less less_Suc_eq)
  then have "length (filter (\<lambda>x. R x (xs ! i)) (take (Suc i) xs)) = Suc i" using assms(2) by simp
  then show ?thesis by (metis append_take_drop_id filter_append length_append less_add_Suc1 add_Suc)
qed

lemma in_numbered: "(i, x) \<in> set (numbered xs) \<longleftrightarrow> i < length xs \<and> xs ! i = x"
  by (force simp: numbered_def set_zip)

lemma map_snd_numbered [simp]: "map snd (numbered xs) = xs"
  by (simp add: numbered_def)

lemma pruneMessages_keeps:
  assumes "e \<in> set ms" "e \<notin> set (pruneMessages engine ms)"
  shows "\<not> awaiting_delivery e \<and> MAX_MESSAGES_PER_CONVERSATION < length (filter (\<lambda>x. newestFirst engine x e \<le> 0) ms)"
proof -
  let ?ms = "sort_cmp (newestFirst engine) ms"
  obtain i where i: "i < length ?ms" "?ms ! i = e" using assms(1) by (metis in_set_conv_nth set_sort_cmp)
  have "(i, e) \<in> set (numbered ?ms)" using i by (simp add: in_numbered)
  then have out: "\<not> awaiting_delivery e" "MAX_MESSAGES_PER_CONVERSATION \<le> i"
    using assms(2) by (force simp: pruneMessages_def)+
  have "i < length (filter (\<lambda>x. newestFirst engine x (?ms ! i) \<le> 0) ?ms)"
    by (rule no_later_count [OF timeline_sorted i(1)]) (simp add: newest_first_recency)
  then show ?thesis using out i(2) by simp
qed

lemma conversations_sorted:
  "sorted_wrt (\<lambda>a b. conversation_time engine b \<le> conversation_time engine a)
     (sort_cmp (\<lambda>a b. conversation_time engine b - conversation_time engine a) h)"
proof -
  have "sort_cmp (\<lambda>a b. conversation_time engine b - conversation_time engine a) h = sort_key (\<lambda>a. - conversation_time engine a) h"
    by (rule sort_cmp_key) simp
  moreover have "sorted_wrt (\<lambda>a b. - conversation_time engine a \<le> - conversation_time engine b) (sort_key (\<lambda>a. - conversation_time engine a) h)"
    using sorted_sort_key [of "\<lambda>a. - conversation_time engine a" h] by (simp add: sorted_map)
  ultimately show ?thesis by simp
qed

lemma prunePeerHistories_keeps:
  assumes "(p, es) \<in> set h" "(p, es) \<notin> set (prunePeerHistories engine pinned h)"
  shows "p \<notin> set pinned \<and> (\<forall>e \<in> set es. \<not> awaiting_delivery e) \<and>
    MAX_CONVERSATIONS < length (filter (\<lambda>q. conversation_time engine (p, es) \<le> conversation_time engine q) h)"
proof -
  let ?h = "sort_cmp (\<lambda>a b. conversation_time engine b - conversation_time engine a) h"
  obtain i where i: "i < length ?h" "?h ! i = (p, es)" using assms(1) by (metis in_set_conv_nth set_sort_cmp)
  have "(i, p, es) \<in> set (numbered ?h)" using i by (simp add: in_numbered)
  then have out: "p \<notin> set pinned" "\<forall>e \<in> set es. \<not> awaiting_delivery e" "MAX_CONVERSATIONS \<le> i"
    using assms by (force simp: prunePeerHistories_def split: if_splits)+
  have "i < length (filter (\<lambda>q. conversation_time engine (?h ! i) \<le> conversation_time engine q) ?h)"
    by (rule no_later_count [OF conversations_sorted i(1)]) simp
  then show ?thesis using out i(2) by simp
qed

lemma prunePeerHistories_subset:
  assumes "distinct (map fst h)"
  shows "distinct (map fst (prunePeerHistories engine pinned h))"
proof -
  let ?h = "sort_cmp (\<lambda>a b. conversation_time engine b - conversation_time engine a) h"
  have "distinct (map fst (map snd (filter P (numbered ?h))))" for P
  proof -
    have "distinct (map (fst \<circ> snd) (numbered ?h))"
      using assms by (simp flip: map_map)
    then show ?thesis unfolding map_map by (rule distinct_map_filter)
  qed
  with assms show ?thesis by (simp add: prunePeerHistories_def)
qed

text \<open>
  A row is missing from what is saved only when it is not waiting to be sent and either more than the newest 200 of
  its conversation are at least as new, or more than 100 conversations are at least as recent as its own, which
  nothing pins.
\<close>

definition pruned_away :: "(string \<Rightarrow> int option) \<Rightarrow> string list \<Rightarrow> messages_by_peer \<Rightarrow> string \<Rightarrow> entry \<Rightarrow> bool" where
  "pruned_away engine pinned h p e =
     (\<not> awaiting_delivery e \<and>
      (MAX_MESSAGES_PER_CONVERSATION < length (filter (\<lambda>x. newestFirst engine x e \<le> 0) (entries_of h p)) \<or>
       p \<notin> set pinned \<and>
       MAX_CONVERSATIONS < length (filter (\<lambda>q. conversation_time engine (p, pruneMessages engine (entries_of h p)) \<le> conversation_time engine q)
         (map (\<lambda>(p, es). (p, pruneMessages engine es)) h))))"

lemma save_keeps:
  assumes "distinct (map fst h)" "e \<in> set (entries_of h p)"
  shows "e \<in> set (entries_of (save_messages engine pinned h) p) \<or> pruned_away engine pinned h p e"
proof (rule disjCI)
  assume kept: "\<not> pruned_away engine pinned h p e"
  let ?h = "map (\<lambda>(p, es). (p, pruneMessages engine es)) h"
  obtain es where es: "map_of h p = Some es" "e \<in> set es" using assms(2) by (cases "map_of h p") (auto simp: entries_of_def)
  have d: "distinct (map fst ?h)" using assms(1) by (simp add: comp_def case_prod_unfold)
  have "e \<in> set (pruneMessages engine es)"
    using pruneMessages_keeps [OF es(2)] kept es(1) by (auto simp: pruned_away_def entries_of_def)
  moreover have "(p, pruneMessages engine es) \<in> set (prunePeerHistories engine pinned ?h)"
  proof (rule ccontr)
    assume out: "\<not> ?thesis"
    have "(p, pruneMessages engine es) \<in> set ?h" using map_of_SomeD [OF es(1)] by force
    from prunePeerHistories_keeps [OF this out] calculation kept es(1) show False
      by (auto simp: pruned_away_def entries_of_def)
  qed
  ultimately show "e \<in> set (entries_of (save_messages engine pinned h) p)"
    using prunePeerHistories_subset [OF d] by (simp add: save_messages_def entries_of_def)
qed

lemma distinct_merged: "distinct (map fst h) \<Longrightarrow> distinct (map fst (merged_histories engine nw user peer css h))"
  by (simp add: merged_histories_def distinct_update)

text \<open>
  C39. The cursor of a conversation passes a page only when the history with that page is saved: whatever a run starts
  from, also what a failed flush of an earlier run left, and however it ends, by a failed request, flush or write, by
  a change of account or after all its pages, there is a number of first pages such that the stored cursor is the old
  one or that of one of them, and, unless they say nothing of the conversation, the disk holds what the database
  keeps of the histories in memory with all of them merged in. Of the conversation with them merged in every
  row is then on disk, but for those the database drops by design.
\<close>

theorem delta_cursor_safe:
  assumes "distinct (map fst (ds_messages s))"
    and "snd (syncConversationDelta engine nw scope user peer surroundings s) = s'"
  shows "\<exists>m. cursor_covered engine nw user peer (map surroundings [0..<MAX_DELTA_PAGES]) s s' m \<and>
    (\<not> silent user peer (pages_of (map surroundings [0..<MAX_DELTA_PAGES]) m) \<longrightarrow>
      (\<exists>k < m. \<forall>e \<in> set (apply_pages engine nw user peer (pages_of (map surroundings [0..<MAX_DELTA_PAGES]) m) (entries_of (ds_messages s) peer)).
         e \<in> set (entries_of (ds_disk s') peer) \<or>
         pruned_away engine (st_pinned (surroundings k))
           (merged_histories engine nw user peer (pages_of (map surroundings [0..<MAX_DELTA_PAGES]) m) (ds_messages s)) peer e))"
proof -
  let ?pages = "map surroundings [0..<MAX_DELTA_PAGES]"
  have "\<exists>m. cursor_covered engine nw user peer ?pages s s' m"
  proof (cases "scope = [] \<or> peer = []")
    case True
    then have "cursor_covered engine nw user peer ?pages s s' 0"
      using assms(2) by (intro covered_here) (simp_all add: syncConversationDelta_def)
    then show ?thesis by blast
  next
    case False
    then show ?thesis
      using delta_loop_covered [of s "ds_cursor s" engine nw user peer ?pages 0] assms(2) by (simp add: syncConversationDelta_def)
  qed
  then obtain m where m: "cursor_covered engine nw user peer ?pages s s' m" by blast
  let ?h = "merged_histories engine nw user peer (pages_of ?pages m) (ds_messages s)"
  have "\<exists>k < m. \<forall>e \<in> set (apply_pages engine nw user peer (pages_of ?pages m) (entries_of (ds_messages s) peer)).
      e \<in> set (entries_of (ds_disk s') peer) \<or> pruned_away engine (st_pinned (surroundings k)) ?h peer e"
    if news: "\<not> silent user peer (pages_of ?pages m)"
  proof -
    obtain k where k: "k < m" "ds_disk s' = save_messages engine (st_pinned (?pages ! k)) ?h"
      using m unfolding cursor_covered_def if_not_P [OF news] by blast
    have "?pages ! k = surroundings k" using m k(1) by (auto simp: cursor_covered_def)
    moreover have "apply_pages engine nw user peer (pages_of ?pages m) (entries_of (ds_messages s) peer) = entries_of ?h peer"
      by (simp add: merged_histories_def entries_of_def)
    ultimately show ?thesis using save_keeps [OF distinct_merged [OF assms(1)]] k by metis
  qed
  then show ?thesis using m by blast
qed

text \<open>A run after one whose flush failed: memory and disk differ when it starts.\<close>

definition demo_delta :: "nat \<Rightarrow> delta_step" where
  "demo_delta k = \<lparr>st_current = True,
     st_answer = (if k = 0 then Inr \<lparr>dp_changes = demo_changes, dp_cursor = Some ''c1'', dp_more = True\<rparr> else Inl ''HTTP 503''),
     st_fetched = True, st_pinned = [], st_flush = True, st_before_write = True, st_write = True\<rparr>"

definition demo_local :: delta_state where
  "demo_local = \<lparr>ds_messages = [(''bob'', demo_history)], ds_cache = [(''bob'', demo_history)], ds_disk = [], ds_cursor = None, ds_deleted = []\<rparr>"

theorem delta_cursor_safe_witness:
  "(\<exists>m. cursor_covered (\<lambda>_. None) ''now'' ''ann'' ''bob'' (map demo_delta [0..<MAX_DELTA_PAGES]) demo_local
     (snd (syncConversationDelta (\<lambda>_. None) ''now'' ''acct'' ''ann'' ''bob'' demo_delta demo_local)) m) \<and>
   ds_cursor (snd (syncConversationDelta (\<lambda>_. None) ''now'' ''acct'' ''ann'' ''bob'' demo_delta demo_local)) = Some ''c1''"
proof -
  have "ds_cursor (snd (syncConversationDelta (\<lambda>_. None) ''now'' ''acct'' ''ann'' ''bob'' demo_delta demo_local)) = Some ''c1''"
    by code_simp
  moreover have "distinct (map fst (ds_messages demo_local))" by (simp add: demo_local_def)
  from delta_cursor_safe [OF this refl, where engine = "\<lambda>_. None" and nw = "''now''" and scope = "''acct''" and user = "''ann''"
      and peer = "''bob''" and surroundings = demo_delta]
  have "\<exists>m. cursor_covered (\<lambda>_. None) ''now'' ''ann'' ''bob'' (map demo_delta [0..<MAX_DELTA_PAGES]) demo_local
     (snd (syncConversationDelta (\<lambda>_. None) ''now'' ''acct'' ''ann'' ''bob'' demo_delta demo_local)) m" by blast
  ultimately show ?thesis by blast
qed

end
