(* ===== verification/Security.thy ===== *)
theory Security
  imports Prelude
begin

text \<open>
  Hardening of the signaling server (\<open>server/src/security.ts\<close>, \<open>server/src/stores/security.ts\<close>): the
  fixed-window rate limiter of one instance, the script that keeps the same window in Redis, block lists and
  the audit log. A key in Redis lives until its expiry; the outcome of the script is an argument of the limiter
  that uses it, \<open>None\<close> when the command fails or times out.
\<close>

section \<open>The limiter of an instance\<close>

record bucket =
  bk_start :: int
  bk_count :: int

type_synonym buckets = "(string \<times> bucket) list"

record limit_result =
  lr_allowed :: bool
  lr_remaining :: int
  lr_reset :: int

definition expired_bucket :: "int \<Rightarrow> int \<Rightarrow> bucket \<Rightarrow> bool" where
  "expired_bucket window nw b = (window \<le> nw - bk_start b)"

definition sweep_buckets :: "int \<Rightarrow> int \<Rightarrow> buckets \<Rightarrow> buckets" where
  "sweep_buckets window nw bs = filter (\<lambda>(k, b). \<not> expired_bucket window nw b) bs"

definition open_bucket :: "int \<Rightarrow> int \<Rightarrow> string \<Rightarrow> buckets \<Rightarrow> bucket" where
  "open_bucket window nw k bs =
     (case map_of bs k of
        Some b \<Rightarrow> if expired_bucket window nw b then \<lparr>bk_start = nw, bk_count = 0\<rparr> else b
      | None \<Rightarrow> \<lparr>bk_start = nw, bk_count = 0\<rparr>)"

definition check_limit :: "int \<Rightarrow> int \<Rightarrow> string \<Rightarrow> int \<Rightarrow> buckets \<Rightarrow> limit_result \<times> buckets" where
  "check_limit maxRequests window k nw bs =
     (let b = open_bucket window nw k bs; bs1 = AList.update k b bs
      in if maxRequests \<le> bk_count b
         then (\<lparr>lr_allowed = False, lr_remaining = 0, lr_reset = bk_start b + window\<rparr>, bs1)
         else (let b' = b\<lparr>bk_count := bk_count b + 1\<rparr>
               in (\<lparr>lr_allowed = True, lr_remaining = maxRequests - bk_count b', lr_reset = bk_start b + window\<rparr>,
                   AList.update k b' bs1)))"

definition reset_limit :: "string option \<Rightarrow> buckets \<Rightarrow> buckets" where
  "reset_limit k bs = (case k of None \<Rightarrow> [] | Some x \<Rightarrow> AList.delete x bs)"

definition size_limit :: "buckets \<Rightarrow> nat" where "size_limit bs = length bs"

section \<open>The limiter in Redis\<close>

text \<open>A key holds its count and its expiry.\<close>

type_synonym redis_counts = "(string \<times> int \<times> int) list"

definition redis_live :: "int \<Rightarrow> string \<Rightarrow> redis_counts \<Rightarrow> (int \<times> int) option" where
  "redis_live nw k rs = (case map_of rs k of Some (n, ex) \<Rightarrow> if nw < ex then Some (n, ex) else None | None \<Rightarrow> None)"

definition rate_limit_lua :: "int \<Rightarrow> int \<Rightarrow> string \<Rightarrow> int \<Rightarrow> redis_counts \<Rightarrow> (int \<times> int \<times> int) \<times> redis_counts" where
  "rate_limit_lua maxRequests window k nw rs =
     (if maxRequests \<le> 0 then ((0, 0, window), rs)
      else (case redis_live nw k rs of
              None \<Rightarrow> ((1, maxRequests - 1, window), AList.update k (1, nw + window) rs)
            | Some (n, ex) \<Rightarrow>
                if n = 0 then ((1, maxRequests - 1, window), AList.update k (1, nw + window) rs)
                else if maxRequests \<le> n then ((0, 0, ex - nw), rs)
                else ((1, maxRequests - n - 1, ex - nw), AList.update k (n + 1, ex) rs)))"

text \<open>What \<open>check\<close> of \<open>createRedisSecurity\<close> makes of the triple: \<open>None\<close> for one that is not valid.\<close>

definition limiter_reply :: "int \<Rightarrow> int \<times> int \<times> int \<Rightarrow> limit_result option" where
  "limiter_reply nw = (\<lambda>(allowed, remaining, ttl).
     if allowed \<notin> {0, 1} \<or> remaining < 0 \<or> ttl < 0 then None
     else Some \<lparr>lr_allowed = (allowed = 1), lr_remaining = remaining, lr_reset = nw + ttl\<rparr>)"

text \<open>\<open>createSharedRateLimiter\<close>: the shared verdict, or that of the instance when there is none.\<close>

definition check_shared :: "int \<Rightarrow> int \<Rightarrow> limit_result option option \<Rightarrow> string \<Rightarrow> int \<Rightarrow> buckets \<Rightarrow> limit_result \<times> buckets" where
  "check_shared maxRequests window security k nw bs =
     (case security of Some (Some r) \<Rightarrow> (r, bs) | _ \<Rightarrow> check_limit maxRequests window k nw bs)"

section \<open>Block lists\<close>

type_synonym block_map = "(string \<times> string list) list"

definition isBlocked :: "block_map \<Rightarrow> string \<Rightarrow> string \<Rightarrow> bool" where
  "isBlocked bl blocker target = (case map_of bl blocker of Some us \<Rightarrow> target \<in> set us | None \<Rightarrow> False)"

definition isDirectoryVisible :: "block_map \<Rightarrow> string \<Rightarrow> string \<Rightarrow> bool" where
  "isDirectoryVisible bl viewer candidate = (\<not> isBlocked bl viewer candidate \<and> \<not> isBlocked bl candidate viewer)"

definition addBlock :: "string \<Rightarrow> string \<Rightarrow> block_map \<Rightarrow> block_map" where
  "addBlock blocker blocked bl = AList.update blocker (set_add blocked (or_empty (map_of bl blocker))) bl"

definition removeBlock :: "string \<Rightarrow> string \<Rightarrow> block_map \<Rightarrow> bool \<times> block_map" where
  "removeBlock blocker blocked bl =
     (case map_of bl blocker of
        None \<Rightarrow> (False, bl)
      | Some us \<Rightarrow>
          (let us' = removeAll blocked us
           in (blocked \<in> set us, if us' = [] then AList.delete blocker bl else AList.update blocker us' bl)))"

definition listBlocks :: "block_map \<Rightarrow> string \<Rightarrow> string list" where
  "listBlocks bl blocker = or_empty (map_of bl blocker)"

text \<open>
  The shared store of blocks, \<open>None\<close> where none is configured: what a lookup gives, \<open>None\<close> when it throws.
\<close>

record privacy =
  pv_blocks :: block_map
  pv_shared :: bool   \<comment> \<open>\<open>stateAffinity\<close> is \<open>shared\<close>\<close>
  pv_lookup :: "(string \<Rightarrow> string \<Rightarrow> bool option) option"
  pv_list :: "string \<Rightarrow> bool \<Rightarrow> string list option"

definition isBlockedAsync :: "privacy \<Rightarrow> string \<Rightarrow> string \<Rightarrow> bool" where
  "isBlockedAsync pv blocker target =
     (case pv_lookup pv of
        None \<Rightarrow> pv_shared pv \<or> isBlocked (pv_blocks pv) blocker target
      | Some look \<Rightarrow> (case look blocker target of Some b \<Rightarrow> b | None \<Rightarrow> True))"

definition isDirectoryVisibleAsync :: "privacy \<Rightarrow> string \<Rightarrow> string \<Rightarrow> bool" where
  "isDirectoryVisibleAsync pv viewer candidate =
     (\<not> isBlockedAsync pv viewer candidate \<and> \<not> isBlockedAsync pv candidate viewer)"

definition filterVisible :: "('a \<Rightarrow> bool) \<Rightarrow> 'a list \<Rightarrow> 'a list" where
  "filterVisible visible items = map fst (filter snd (zip items (map visible items)))"

text \<open>\<open>Inl\<close> is the error it throws.\<close>

definition listBlocksAsync :: "privacy \<Rightarrow> string \<Rightarrow> bool \<Rightarrow> string + string list" where
  "listBlocksAsync pv u bothDirections =
     (if pv_lookup pv \<noteq> None
      then (case pv_list pv u bothDirections of Some us \<Rightarrow> Inr us | None \<Rightarrow> Inl ''block store failed'')
      else if pv_shared pv then Inl ''shared block store unavailable''
      else Inr (fold set_add
             (if bothDirections then map fst (filter (\<lambda>(_, us). u \<in> set us) (pv_blocks pv)) else [])
             (listBlocks (pv_blocks pv) u)))"

section \<open>The audit log\<close>

definition MAX_AUDIT_LOG_SIZE :: nat where "MAX_AUDIT_LOG_SIZE = 1000"

record audit_entry =
  au_id :: string
  au_time :: int
  au_event :: string
  au_actor :: "string option"
  au_target :: "string option"
  au_outcome :: string
  au_details :: string

definition audit :: "audit_entry \<Rightarrow> audit_entry list \<Rightarrow> audit_entry list" where
  "audit e log = (if MAX_AUDIT_LOG_SIZE \<le> length log then tl log else log) @ [e]"

definition audit_of_user :: "string \<Rightarrow> audit_entry list \<Rightarrow> audit_entry list" where
  "audit_of_user u log = filter (\<lambda>e. au_actor e = Some u \<or> au_target e = Some u) log"

end
