(* ===== verification/SecurityProperties.thy ===== *)
theory SecurityProperties
  imports Security
begin

text \<open>
  The limiter of an instance lets no key through more often than its windows allow, sweeps included, and
  gives the verdicts of the Redis script; block lists and the audit log.
\<close>

section \<open>Runs of a limiter\<close>

datatype limit_event = Check string int | Sweep int

fun event_time :: "limit_event \<Rightarrow> int" where
  "event_time (Check k t) = t"
| "event_time (Sweep t) = t"

text \<open>How often the key \<open>k\<close> is let through.\<close>

fun run_limiter :: "int \<Rightarrow> int \<Rightarrow> string \<Rightarrow> limit_event list \<Rightarrow> buckets \<Rightarrow> int" where
  "run_limiter cap window k [] bs = 0"
| "run_limiter cap window k (Check x t # es) bs =
     (let (r, bs') = check_limit cap window x t bs
      in (if x = k \<and> lr_allowed r then 1 else 0) + run_limiter cap window k es bs')"
| "run_limiter cap window k (Sweep t # es) bs = run_limiter cap window k es (sweep_buckets window t bs)"

fun limiter_after :: "int \<Rightarrow> int \<Rightarrow> limit_event list \<Rightarrow> buckets \<Rightarrow> buckets" where
  "limiter_after cap window [] bs = bs"
| "limiter_after cap window (Check x t # es) bs = limiter_after cap window es (snd (check_limit cap window x t bs))"
| "limiter_after cap window (Sweep t # es) bs = limiter_after cap window es (sweep_buckets window t bs)"

definition asked :: "string \<Rightarrow> limit_event list \<Rightarrow> int" where
  "asked k es = int (length (filter (\<lambda>ev. \<exists>t. ev = Check k t) es))"

text \<open>Whether a window of the key is open.\<close>

definition window_open :: "int \<Rightarrow> string \<Rightarrow> int \<Rightarrow> buckets \<Rightarrow> bool" where
  "window_open window k t bs = (case map_of bs k of None \<Rightarrow> False | Some b \<Rightarrow> \<not> expired_bucket window t b)"

lemma check_limit_bucket:
  "map_of (snd (check_limit cap w x t bs)) k =
     (if x = k then Some (let b = open_bucket w t k bs
                          in if lr_allowed (fst (check_limit cap w x t bs)) then b\<lparr>bk_count := bk_count b + 1\<rparr> else b)
      else map_of bs k)"
  "lr_allowed (fst (check_limit cap w x t bs)) \<longleftrightarrow> bk_count (open_bucket w t x bs) < cap"
  by (auto simp: check_limit_def Let_def map_of_update)

lemma swept_bucket:
  "distinct (map fst bs) \<Longrightarrow> map_of (sweep_buckets w t bs) k =
     (case map_of bs k of Some b \<Rightarrow> if expired_bucket w t b then None else Some b | None \<Rightarrow> None)"
  by (induction bs) (auto simp: sweep_buckets_def map_of_eq_None_iff split: option.splits)

lemma check_limit_keys: "distinct (map fst bs) \<Longrightarrow> distinct (map fst (snd (check_limit cap w x t bs)))"
  by (simp add: check_limit_def Let_def distinct_update)

lemma sweep_keys: "distinct (map fst bs) \<Longrightarrow> distinct (map fst (sweep_buckets w t bs))"
  by (simp add: sweep_buckets_def distinct_map_filter)

text \<open>A state of the limiter at a time: buckets that are not from the future, and not beyond the cap.\<close>

definition sound_buckets :: "int \<Rightarrow> int \<Rightarrow> buckets \<Rightarrow> bool" where
  "sound_buckets cap t bs \<longleftrightarrow>
     distinct (map fst bs) \<and> (\<forall>k b. map_of bs k = Some b \<longrightarrow> bk_start b \<le> t \<and> 0 \<le> bk_count b \<and> bk_count b \<le> cap)"

lemma sound_later: "sound_buckets cap t bs \<Longrightarrow> t \<le> t' \<Longrightarrow> sound_buckets cap t' bs"
  unfolding sound_buckets_def by (meson order_trans)

lemma opened_sound:
  assumes "sound_buckets cap t bs" and "0 \<le> cap"
  shows "bk_start (open_bucket w t k bs) \<le> t \<and> 0 \<le> bk_count (open_bucket w t k bs) \<and> bk_count (open_bucket w t k bs) \<le> cap"
proof (cases "map_of bs k")
  case (Some b)
  then have "bk_start b \<le> t \<and> 0 \<le> bk_count b \<and> bk_count b \<le> cap" using assms(1) by (simp add: sound_buckets_def)
  then show ?thesis using Some assms(2) by (simp add: open_bucket_def)
qed (use assms(2) in \<open>simp add: open_bucket_def\<close>)

lemma sound_check:
  assumes "sound_buckets cap t bs" and "0 \<le> cap"
  shows "sound_buckets cap t (snd (check_limit cap w x t bs))"
  unfolding sound_buckets_def
proof (intro conjI allI impI)
  show "distinct (map fst (snd (check_limit cap w x t bs)))"
    using assms(1) by (simp add: sound_buckets_def check_limit_keys)
  fix k b
  assume b: "map_of (snd (check_limit cap w x t bs)) k = Some b"
  have "bk_start b \<le> t \<and> 0 \<le> bk_count b \<and> bk_count b \<le> cap"
  proof (cases "x = k")
    case True
    then show ?thesis using b opened_sound [OF assms, of w k] by (auto simp: check_limit_bucket Let_def split: if_splits)
  next
    case False
    then show ?thesis using b assms(1) by (simp add: check_limit_bucket sound_buckets_def)
  qed
  then show "bk_start b \<le> t" "0 \<le> bk_count b" "bk_count b \<le> cap" by simp_all
qed

lemma sound_sweep:
  assumes "sound_buckets cap t bs"
  shows "sound_buckets cap t (sweep_buckets w t bs)"
proof -
  have d: "distinct (map fst bs)" using assms by (simp add: sound_buckets_def)
  show ?thesis using assms by (auto simp: sound_buckets_def swept_bucket [OF d] sweep_keys split: option.splits if_splits)
qed

lemma sound_after:
  "sound_buckets cap t bs \<Longrightarrow> 0 \<le> cap \<Longrightarrow> sorted (t # map event_time es) \<Longrightarrow>
   sound_buckets cap (last (t # map event_time es)) (limiter_after cap w es bs)"
proof (induction es arbitrary: t bs)
  case (Cons ev es)
  have le: "t \<le> event_time ev" and so: "sorted (event_time ev # map event_time es)" using Cons.prems(3) by simp_all
  note later = sound_later [OF Cons.prems(1) le]
  show ?case
  proof (cases ev)
    case (Check x t')
    then have "sound_buckets cap (event_time ev) (snd (check_limit cap w x t' bs))"
      using later Cons.prems(2) by (simp add: sound_check)
    from Cons.IH [OF this Cons.prems(2) so] show ?thesis by (simp add: Check)
  next
    case (Sweep t')
    then have "sound_buckets cap (event_time ev) (sweep_buckets w t' bs)" using later by (simp add: sound_sweep)
    from Cons.IH [OF this Cons.prems(2) so] show ?thesis by (simp add: Sweep)
  qed
qed simp

section \<open>What a window lets through\<close>

text \<open>
  What the bucket of the key still lets through between \<open>t0\<close> and the end of the window that opens there: a bucket
  opened since stays; an older one is followed by one new bucket, once it has expired.
\<close>

definition left_over :: "int \<Rightarrow> int \<Rightarrow> string \<Rightarrow> int \<Rightarrow> int \<Rightarrow> buckets \<Rightarrow> int" where
  "left_over cap w k t0 t bs =
     (case map_of bs k of
        None \<Rightarrow> cap
      | Some b \<Rightarrow> if t0 \<le> bk_start b then cap - bk_count b else if expired_bucket w t b then cap else 2 * cap - bk_count b)"

lemma left_over_later:
  "sound_buckets cap t bs \<Longrightarrow> t \<le> t' \<Longrightarrow> left_over cap w k t0 t' bs \<le> left_over cap w k t0 t bs"
  by (auto simp: left_over_def sound_buckets_def expired_bucket_def split: option.split)

lemma left_over_check:
  assumes "sound_buckets cap t bs" and "0 \<le> cap" "0 < w" "t0 \<le> t" "t < t0 + w"
  shows "(if x = k \<and> lr_allowed (fst (check_limit cap w x t bs)) then 1 else 0) +
    left_over cap w k t0 t (snd (check_limit cap w x t bs)) \<le> left_over cap w k t0 t bs"
  using assms(2-5)
  by (auto simp: left_over_def check_limit_bucket Let_def open_bucket_def expired_bucket_def split: option.split)

lemma left_over_sweep:
  assumes "sound_buckets cap t bs" and "t < t0 + w"
  shows "left_over cap w k t0 t (sweep_buckets w t bs) \<le> left_over cap w k t0 t bs"
proof -
  have d: "distinct (map fst bs)" using assms(1) by (simp add: sound_buckets_def)
  show ?thesis using assms(2) by (auto simp: left_over_def swept_bucket [OF d] expired_bucket_def split: option.split)
qed

lemma run_left_over:
  assumes "sound_buckets cap t bs" and "0 \<le> cap" "0 < w" "t0 \<le> t" and "sorted (t # map event_time es)"
    and "\<forall>ev \<in> set es. event_time ev < t0 + w"
  shows "run_limiter cap w k es bs \<le> left_over cap w k t0 t bs"
  using assms
proof (induction es arbitrary: t bs)
  case Nil
  show ?case
  proof (cases "map_of bs k")
    case (Some b)
    then have "bk_count b \<le> cap" using Nil.prems(1) by (simp add: sound_buckets_def)
    then show ?thesis using Some Nil.prems(2) by (simp add: left_over_def)
  qed (use Nil.prems(2) in \<open>simp add: left_over_def\<close>)
next
  case (Cons ev es)
  have le: "t \<le> event_time ev" and so: "sorted (event_time ev # map event_time es)" using Cons.prems(5) by simp_all
  have t0: "t0 \<le> event_time ev" using le Cons.prems(4) by simp
  have lt: "event_time ev < t0 + w" and rest: "\<forall>ev \<in> set es. event_time ev < t0 + w" using Cons.prems(6) by simp_all
  note later = sound_later [OF Cons.prems(1) le] and less = left_over_later [OF Cons.prems(1) le, of w k t0]
  show ?case
  proof (cases ev)
    case (Check x t')
    have c: "sound_buckets cap t' (snd (check_limit cap w x t' bs))" using later Cons.prems(2) Check by (simp add: sound_check)
    have "run_limiter cap w k es (snd (check_limit cap w x t' bs)) \<le> left_over cap w k t0 t' (snd (check_limit cap w x t' bs))"
      using Cons.IH [OF c Cons.prems(2,3)] t0 so rest Check by simp
    moreover note left_over_check [of cap t' bs w t0 x k]
    ultimately show ?thesis using later less lt t0 Cons.prems(2,3) Check by (simp add: split_beta Let_def)
  next
    case (Sweep t')
    have c: "sound_buckets cap t' (sweep_buckets w t' bs)" using later Sweep by (simp add: sound_sweep)
    have "run_limiter cap w k es (sweep_buckets w t' bs) \<le> left_over cap w k t0 t' (sweep_buckets w t' bs)"
      using Cons.IH [OF c Cons.prems(2,3)] t0 so rest Sweep by simp
    with left_over_sweep [of cap t' bs t0 w k] show ?thesis using later less lt Sweep by simp
  qed
qed

text \<open>With no window open, the requests of the key are let through up to the cap, and no more.\<close>

definition used_since :: "string \<Rightarrow> int \<Rightarrow> buckets \<Rightarrow> int" where
  "used_since k t0 bs = (case map_of bs k of None \<Rightarrow> 0 | Some b \<Rightarrow> if t0 \<le> bk_start b then bk_count b else 0)"

definition fresh_since :: "int \<Rightarrow> string \<Rightarrow> int \<Rightarrow> buckets \<Rightarrow> bool" where
  "fresh_since w k t0 bs = (\<forall>b. map_of bs k = Some b \<longrightarrow> t0 \<le> bk_start b \<or> expired_bucket w t0 b)"

lemma fresh_check:
  assumes "fresh_since w k t0 bs" and "0 < w" "t0 \<le> t" "t < t0 + w"
  shows "fresh_since w k t0 (snd (check_limit cap w x t bs))"
    "used_since k t0 (snd (check_limit cap w x t bs)) =
       used_since k t0 bs + (if x = k \<and> used_since k t0 bs < cap then 1 else 0)"
    "x = k \<Longrightarrow> lr_allowed (fst (check_limit cap w x t bs)) \<longleftrightarrow> used_since k t0 bs < cap"
proof -
  have live: "open_bucket w t k bs = (case map_of bs k of
      Some b \<Rightarrow> if t0 \<le> bk_start b then b else \<lparr>bk_start = t, bk_count = 0\<rparr> | None \<Rightarrow> \<lparr>bk_start = t, bk_count = 0\<rparr>)"
    using assms by (auto simp: open_bucket_def fresh_since_def expired_bucket_def split: option.split)
  show "fresh_since w k t0 (snd (check_limit cap w x t bs))"
    using assms(1,3) by (auto simp: fresh_since_def check_limit_bucket live Let_def split: option.splits if_splits)
  have ok: "lr_allowed (fst (check_limit cap w k t bs)) \<longleftrightarrow> used_since k t0 bs < cap"
    by (simp add: check_limit_bucket(2) live used_since_def split: option.split)
  then show "x = k \<Longrightarrow> lr_allowed (fst (check_limit cap w x t bs)) \<longleftrightarrow> used_since k t0 bs < cap" by simp
  show "used_since k t0 (snd (check_limit cap w x t bs)) =
      used_since k t0 bs + (if x = k \<and> used_since k t0 bs < cap then 1 else 0)"
  proof (cases "x = k")
    case True
    have "used_since k t0 bs = bk_count (open_bucket w t k bs)" "t0 \<le> bk_start (open_bucket w t k bs)"
      using assms(3) by (auto simp: live used_since_def split: option.split)
    then show ?thesis using True ok by (simp add: used_since_def [of k t0 "snd _"] check_limit_bucket(1) Let_def)
  qed (simp add: used_since_def check_limit_bucket(1))
qed

lemma fresh_sweep:
  assumes "fresh_since w k t0 bs" and "distinct (map fst bs)" "t < t0 + w"
  shows "fresh_since w k t0 (sweep_buckets w t bs)" "used_since k t0 (sweep_buckets w t bs) = used_since k t0 bs"
  using assms(1,3)
  by (auto simp: fresh_since_def used_since_def swept_bucket [OF assms(2)] expired_bucket_def split: option.splits if_splits)

lemma run_fresh:
  assumes "fresh_since w k t0 bs" and "distinct (map fst bs)" "0 < w" and "used_since k t0 bs \<le> cap"
    and "\<forall>ev \<in> set es. t0 \<le> event_time ev \<and> event_time ev < t0 + w"
  shows "run_limiter cap w k es bs = min (cap - used_since k t0 bs) (asked k es)"
  using assms
proof (induction es arbitrary: bs)
  case (Cons ev es)
  have t: "t0 \<le> event_time ev" "event_time ev < t0 + w" and rest: "\<forall>ev \<in> set es. t0 \<le> event_time ev \<and> event_time ev < t0 + w"
    using Cons.prems(5) by simp_all
  show ?case
  proof (cases ev)
    case (Check x t')
    note c = fresh_check [OF Cons.prems(1,3), where t = t' and x = x and cap = cap]
    have "run_limiter cap w k es (snd (check_limit cap w x t' bs)) =
        min (cap - used_since k t0 (snd (check_limit cap w x t' bs))) (asked k es)"
      using Cons.prems(2-4) c t rest Check by (intro Cons.IH) (simp_all add: check_limit_keys)
    then show ?thesis using c t Check Cons.prems(4) by (auto simp: split_beta Let_def asked_def)
  next
    case (Sweep t')
    note f = fresh_sweep [OF Cons.prems(1,2), of t']
    have "run_limiter cap w k es (sweep_buckets w t' bs) = min (cap - used_since k t0 (sweep_buckets w t' bs)) (asked k es)"
      using Cons.prems(2-4) f t rest Sweep by (intro Cons.IH) (simp_all add: sweep_keys)
    then show ?thesis using f t Sweep by (simp add: asked_def)
  qed
qed (simp add: asked_def)

text \<open>
  C18. Rate limiting, whatever checks and sweeps came before, with a clock that does not go back. When no window of a key
  is open at \<open>t\<close>, then of its requests in the window's length from \<open>t\<close> on, the first \<open>maxRequests\<close> are let through and no
  other. And in any stretch of time shorter than a window, wherever it begins, at most twice that many are.
\<close>

theorem rate_limit_bound:
  assumes "0 < window" and "0 \<le> maxRequests" and "sorted (map event_time before @ t # map event_time es)"
    and "\<forall>ev \<in> set es. event_time ev < t + window" and "bs = limiter_after maxRequests window before []"
  shows "(\<not> window_open window k t bs \<longrightarrow> run_limiter maxRequests window k es bs = min maxRequests (asked k es)) \<and>
    run_limiter maxRequests window k es bs \<le> 2 * maxRequests"
proof -
  have so: "sorted (t # map event_time es)" "sorted (map event_time before)" "\<forall>x \<in> set (map event_time before). x \<le> t"
    using assms(3) by (auto simp: sorted_append)
  have sound: "sound_buckets maxRequests t bs"
  proof (cases before)
    case Nil
    then show ?thesis using assms(5) by (simp add: sound_buckets_def)
  next
    case (Cons ev rest)
    have "sound_buckets maxRequests (event_time ev) []" by (simp add: sound_buckets_def)
    from sound_after [OF this assms(2), of before window] so(2) Cons
    have "sound_buckets maxRequests (last (event_time ev # map event_time before)) bs" by (simp add: assms(5))
    moreover have "last (event_time ev # map event_time before) \<le> t"
      using so(3) last_in_set [of "map event_time before"] unfolding Cons by (simp only: last.simps(1) list.map list.simps) auto
    ultimately show ?thesis by (rule sound_later)
  qed
  have times: "\<forall>ev \<in> set es. t \<le> event_time ev \<and> event_time ev < t + window" using so(1) assms(4) by auto
  have "run_limiter maxRequests window k es bs \<le> left_over maxRequests window k t t bs"
    by (rule run_left_over [OF sound assms(2,1) order_refl so(1) assms(4)])
  also have "\<dots> \<le> 2 * maxRequests"
  proof (cases "map_of bs k")
    case (Some b)
    then have "0 \<le> bk_count b" using sound by (simp add: sound_buckets_def)
    then show ?thesis using Some assms(2) by (simp add: left_over_def)
  qed (use assms(2) in \<open>simp add: left_over_def\<close>)
  finally have "run_limiter maxRequests window k es bs \<le> 2 * maxRequests" .
  moreover have "run_limiter maxRequests window k es bs = min maxRequests (asked k es)" if "\<not> window_open window k t bs"
  proof -
    have no: "fresh_since window k t bs" "used_since k t bs = 0"
      using that assms(1) by (auto simp: window_open_def fresh_since_def used_since_def expired_bucket_def split: option.splits)
    have "distinct (map fst bs)" using sound by (simp add: sound_buckets_def)
    from run_fresh [OF no(1) this assms(1) _ times] no(2) assms(2) show ?thesis by simp
  qed
  ultimately show ?thesis by blast
qed

text \<open>
  A window of a second allows two: ann's five attempts, from a time at which her window is closed, give two, and the
  unused allowance of the time before is not carried over.
\<close>

definition demo_before :: "limit_event list" where
  "demo_before = [Check ''ann'' 0, Check ''bob'' 300, Sweep 1000]"

definition demo_attempts :: "limit_event list" where
  "demo_attempts = [Check ''ann'' 1200, Check ''ann'' 1210, Check ''bob'' 1220, Check ''ann'' 1230, Sweep 1300, Check ''ann'' 2100,
     Check ''ann'' 2190]"

theorem rate_limit_bound_witness:
  "run_limiter 2 1000 ''ann'' demo_attempts (limiter_after 2 1000 demo_before []) = 2"
proof -
  let ?bs = "limiter_after 2 1000 demo_before []"
  have "sorted (map event_time demo_before @ 1200 # map event_time demo_attempts)"
    by (simp add: demo_before_def demo_attempts_def)
  moreover have "\<forall>ev \<in> set demo_attempts. event_time ev < 1200 + 1000" by (simp add: demo_attempts_def)
  moreover have "\<not> window_open 1000 ''ann'' 1200 ?bs" by code_simp
  ultimately have "run_limiter 2 1000 ''ann'' demo_attempts ?bs = min 2 (asked ''ann'' demo_attempts)"
    using rate_limit_bound [of 1000 2 demo_before 1200 demo_attempts ?bs "''ann''"] by simp
  also have "asked ''ann'' demo_attempts = 5" by (simp add: asked_def demo_attempts_def)
  finally show ?thesis by simp
qed

section \<open>The limiter of an instance and the one in Redis\<close>

fun run_checks :: "int \<Rightarrow> int \<Rightarrow> (string \<times> int) list \<Rightarrow> buckets \<Rightarrow> limit_result option list" where
  "run_checks cap window [] bs = []"
| "run_checks cap window ((k, t) # qs) bs =
     (let (r, bs') = check_limit cap window k t bs in Some r # run_checks cap window qs bs')"

fun run_scripts :: "int \<Rightarrow> int \<Rightarrow> (string \<times> int) list \<Rightarrow> redis_counts \<Rightarrow> limit_result option list" where
  "run_scripts cap window [] rs = []"
| "run_scripts cap window ((k, t) # qs) rs =
     (let (r, rs') = rate_limit_lua cap window k t rs in limiter_reply t r # run_scripts cap window qs rs')"

definition same_window :: "int \<Rightarrow> int \<Rightarrow> buckets \<Rightarrow> redis_counts \<Rightarrow> bool" where
  "same_window w t bs rs =
     (\<forall>k. redis_live t k rs =
        (case map_of bs k of
           Some b \<Rightarrow> if expired_bucket w t b then None else Some (bk_count b, bk_start b + w)
         | None \<Rightarrow> None) \<and>
      (case map_of bs k of Some b \<Rightarrow> 0 < bk_count b | None \<Rightarrow> True))"

lemma same_window_later:
  assumes "same_window w t bs rs" and "t \<le> t'"
  shows "same_window w t' bs rs"
proof -
  have "redis_live t' k rs = (case map_of bs k of
      Some b \<Rightarrow> if expired_bucket w t' b then None else Some (bk_count b, bk_start b + w) | None \<Rightarrow> None) \<and>
    (case map_of bs k of Some b \<Rightarrow> 0 < bk_count b | None \<Rightarrow> True)" for k
    using assms(2) spec [OF assms(1) [unfolded same_window_def], of k]
    by (auto simp: redis_live_def expired_bucket_def split: option.splits if_splits prod.splits)
  then show ?thesis by (simp add: same_window_def)
qed

lemma script_agrees:
  assumes "same_window w t bs rs" and "0 < w" "0 < cap"
  shows "limiter_reply t (fst (rate_limit_lua cap w k t rs)) = Some (fst (check_limit cap w k t bs)) \<and>
    same_window w t (snd (check_limit cap w k t bs)) (snd (rate_limit_lua cap w k t rs))"
proof -
  have k: "redis_live t k rs = (case map_of bs k of
      Some b \<Rightarrow> if expired_bucket w t b then None else Some (bk_count b, bk_start b + w) | None \<Rightarrow> None)"
    "case map_of bs k of Some b \<Rightarrow> 0 < bk_count b | None \<Rightarrow> True"
    using assms(1) by (auto simp: same_window_def)
  have other: "redis_live t j (AList.update k v rs) = redis_live t j rs" if "j \<noteq> k" for j v
    using that by (simp add: redis_live_def map_of_update)
  have at_k: "redis_live t k (AList.update k (n, ex) rs) = (if t < ex then Some (n, ex) else None)" for n ex
    by (simp add: redis_live_def map_of_update)
  have sw: "same_window w t bs' rs'"
    if "\<And>j. j \<noteq> k \<Longrightarrow> map_of bs' j = map_of bs j" "\<And>j. j \<noteq> k \<Longrightarrow> redis_live t j rs' = redis_live t j rs"
      "map_of bs' k = Some b" "0 < bk_count b" "\<not> expired_bucket w t b" "redis_live t k rs' = Some (bk_count b, bk_start b + w)"
    for bs' rs' b
    unfolding same_window_def
  proof
    fix j
    show "redis_live t j rs' = (case map_of bs' j of
        Some b \<Rightarrow> if expired_bucket w t b then None else Some (bk_count b, bk_start b + w) | None \<Rightarrow> None) \<and>
      (case map_of bs' j of Some b \<Rightarrow> 0 < bk_count b | None \<Rightarrow> True)"
      using that spec [OF assms(1) [unfolded same_window_def], of j] by (cases "j = k") simp_all
  qed
  let ?b = "open_bucket w t k bs"
  have ex: "\<not> expired_bucket w t ?b" using assms(2) by (auto simp: open_bucket_def expired_bucket_def split: option.splits)
  show ?thesis
  proof (cases "redis_live t k rs")
    case None
    then have b: "?b = \<lparr>bk_start = t, bk_count = 0\<rparr>"
      using k by (auto simp: open_bucket_def split: option.splits if_splits)
    show ?thesis using None b assms(2,3)
      by (auto simp: rate_limit_lua_def check_limit_def limiter_reply_def Let_def map_of_update expired_bucket_def
          other at_k intro!: sw)
  next
    case (Some e)
    then obtain b0 where b: "map_of bs k = Some b0" "\<not> expired_bucket w t b0" "e = (bk_count b0, bk_start b0 + w)" "?b = b0"
      using k by (auto simp: open_bucket_def split: option.splits if_splits)
    moreover have "0 < bk_count b0" using k(2) b(1) by simp
    moreover have "t < bk_start b0 + w" using b(2) by (simp add: expired_bucket_def)
    ultimately show ?thesis using Some assms(2,3)
      by (auto simp: rate_limit_lua_def check_limit_def limiter_reply_def Let_def map_of_update expired_bucket_def
          other at_k intro!: sw)
  qed
qed

lemma runs_agree:
  assumes "same_window w t bs rs" and "0 < w" "0 < cap" and "sorted (t # map snd qs)"
  shows "run_scripts cap w qs rs = run_checks cap w qs bs"
  using assms
proof (induction qs arbitrary: t bs rs)
  case (Cons q qs)
  obtain k t' where q: "q = (k, t')" by fastforce
  have l: "same_window w t' bs rs" using Cons.prems(1,4) q by (auto intro: same_window_later)
  note step = script_agrees [OF l Cons.prems(2,3), of k]
  have "run_scripts cap w qs (snd (rate_limit_lua cap w k t' rs)) = run_checks cap w qs (snd (check_limit cap w k t' bs))"
    using Cons.IH [OF conjunct2 [OF step] Cons.prems(2,3)] Cons.prems(4) q by simp
  then show ?case using step q by (simp add: split_beta Let_def)
qed simp

text \<open>
  The two limiters are one: for a positive allowance and a clock that does not go back, the Redis script
  gives every request the verdict, the rest of the allowance and the end of the window that the limiter of a
  single instance gives it.
\<close>

theorem redis_limiter_agrees:
  assumes "0 < window" and "0 < maxRequests" and "sorted (map snd requests)"
  shows "run_scripts maxRequests window requests [] = run_checks maxRequests window requests []"
proof (cases requests)
  case (Cons q qs)
  have "same_window window (snd q) [] []" by (simp add: same_window_def redis_live_def)
  from runs_agree [OF this assms(1,2), of requests] show ?thesis using assms(3) Cons by simp
qed simp

theorem redis_limiter_agrees_witness:
  "run_scripts 1 1000 [(''ann'', 0), (''ann'', 999), (''ann'', 1000)] [] =
     [Some \<lparr>lr_allowed = True, lr_remaining = 0, lr_reset = 1000\<rparr>,
      Some \<lparr>lr_allowed = False, lr_remaining = 0, lr_reset = 1000\<rparr>,
      Some \<lparr>lr_allowed = True, lr_remaining = 0, lr_reset = 2000\<rparr>]"
proof -
  have "run_checks 1 1000 [(''ann'', 0), (''ann'', 999), (''ann'', 1000)] [] =
     [Some \<lparr>lr_allowed = True, lr_remaining = 0, lr_reset = 1000\<rparr>,
      Some \<lparr>lr_allowed = False, lr_remaining = 0, lr_reset = 1000\<rparr>,
      Some \<lparr>lr_allowed = True, lr_remaining = 0, lr_reset = 2000\<rparr>]" by code_simp
  then show ?thesis
    using redis_limiter_agrees [of 1000 1 "[(''ann'', 0), (''ann'', 999), (''ann'', 1000)]"] by simp
qed

section \<open>Blocks\<close>

text \<open>No blocker is kept without a block, and every list is a set.\<close>

definition wf_blocks :: "block_map \<Rightarrow> bool" where
  "wf_blocks bl = (distinct (map fst bl) \<and> (\<forall>(k, us) \<in> set bl. us \<noteq> [] \<and> distinct us))"

lemma isBlocked_add: "isBlocked (addBlock a b bl) x y \<longleftrightarrow> (x = a \<and> y = b) \<or> isBlocked bl x y"
  by (auto simp: isBlocked_def addBlock_def map_of_update split: option.splits)

lemma isBlocked_remove:
  assumes "distinct (map fst bl)"
  shows "isBlocked (snd (removeBlock a b bl)) x y \<longleftrightarrow> isBlocked bl x y \<and> \<not> (x = a \<and> y = b)"
    and "fst (removeBlock a b bl) \<longleftrightarrow> isBlocked bl a b"
  using assms
  by (auto simp: isBlocked_def removeBlock_def Let_def map_of_update map_of_delete removeAll_Nil split: option.splits)

text \<open>A store that fails or that is missing on a fleet shows nobody.\<close>

lemma visible_needs_store:
  assumes "isDirectoryVisibleAsync pv a b"
  shows "isDirectoryVisibleAsync pv b a" and "pv_lookup pv = None \<Longrightarrow> \<not> pv_shared pv"
    and "pv_lookup pv = Some look \<Longrightarrow> look a b = Some False \<and> look b a = Some False"
  using assms by (auto simp: isDirectoryVisibleAsync_def isBlockedAsync_def split: option.splits)

lemma filterVisible_filter: "filterVisible p xs = filter p xs"
  by (induction xs) (simp_all add: filterVisible_def)

lemma audit_bounded: "length log \<le> MAX_AUDIT_LOG_SIZE \<Longrightarrow> length (audit e log) \<le> MAX_AUDIT_LOG_SIZE"
  by (auto simp: audit_def MAX_AUDIT_LOG_SIZE_def)

end
