(* ===== verification/ChatList.thy ===== *)
theory ChatList
  imports ChatTimeline
begin

text \<open>
  The conversation list and its unread accounting (\<open>mobile/src/messaging/conversations.ts\<close>). An optional
  field of a row that is absent is \<open>None\<close>; of a group record only the member ids are used, the rest of it
  and the local name and read tables are opaque.
\<close>

record chat_group =
  gi_members :: "string list"
  gi_rest :: string

record chat_row =
  cr_conversation :: "string option"
  cr_peer :: string
  cr_last :: "entry option"
  cr_activity :: "entry option"
  cr_unread :: "nat option"
  cr_group :: "chat_group option"
  cr_profiles :: "string option"
  cr_mock :: "bool option"
  cr_left :: "bool option"
  cr_read_by :: "string option"

definition no_row :: "string option \<Rightarrow> string \<Rightarrow> chat_row" where
  "no_row conv peer =
     \<lparr>cr_conversation = conv, cr_peer = peer, cr_last = None, cr_activity = None, cr_unread = Some 0, cr_group = None,
      cr_profiles = None, cr_mock = None, cr_left = None, cr_read_by = None\<rparr>"

definition unread_of :: "chat_row \<Rightarrow> nat" where
  "unread_of row = (case cr_unread row of Some n \<Rightarrow> n | None \<Rightarrow> 0)"

definition totalUnread :: "chat_row list \<Rightarrow> nat" where
  "totalUnread rows = sum_list (map unread_of rows)"

text \<open>\<open>{...row, ...authoritative}\<close> on the optional fields.\<close>

definition overlay :: "chat_row \<Rightarrow> chat_row \<Rightarrow> chat_row" where
  "overlay row auth =
     \<lparr>cr_conversation = coalesce (cr_conversation auth) (cr_conversation row), cr_peer = cr_peer auth,
      cr_last = cr_last auth, cr_activity = cr_activity auth, cr_unread = coalesce (cr_unread auth) (cr_unread row),
      cr_group = coalesce (cr_group auth) (cr_group row), cr_profiles = coalesce (cr_profiles auth) (cr_profiles row),
      cr_mock = coalesce (cr_mock auth) (cr_mock row), cr_left = coalesce (cr_left auth) (cr_left row),
      cr_read_by = coalesce (cr_read_by auth) (cr_read_by row)\<rparr>"

definition row_of :: "chat_row list \<Rightarrow> string \<Rightarrow> chat_row option" where
  "row_of rows peer = find (\<lambda>r. cr_peer r = peer) rows"

text \<open>A \<open>Map\<close> built from the rows holds the last one of a peer.\<close>

definition authoritative_row :: "chat_row list \<Rightarrow> chat_row \<Rightarrow> chat_row" where
  "authoritative_row remote row =
     (case row_of (rev remote) (cr_peer row) of
        None \<Rightarrow> row
      | Some auth \<Rightarrow>
          if cr_group row = None \<or> cr_mock row = Some True \<or> cr_group auth = None then row
          else (overlay row auth)\<lparr>cr_last := cr_last row, cr_activity := cr_activity row,
                  cr_unread := (if cr_left auth = Some True then Some 0 else cr_unread row)\<rparr>)"

definition mergePendingConversations :: "chat_row list \<Rightarrow> chat_row list \<Rightarrow> string list \<Rightarrow> chat_row list" where
  "mergePendingConversations remote locals pendingPeers =
     (let pending = map (authoritative_row remote)
            (filter (\<lambda>r. cr_mock r = Some True \<or> cr_peer r \<in> set pendingPeers) locals)
      in if pending = [] then remote
         else pending @ filter (\<lambda>r. cr_peer r \<notin> set (map cr_peer pending)) remote)"

definition conversationIdForPeer :: "chat_row list \<Rightarrow> string \<Rightarrow> string option" where
  "conversationIdForPeer rows peer = Option.bind (row_of rows peer) cr_conversation"

text \<open>The list with the first row of \<open>peer\<close> taken out.\<close>

fun without_first :: "string \<Rightarrow> chat_row list \<Rightarrow> chat_row list" where
  "without_first peer [] = []"
| "without_first peer (r # rs) = (if cr_peer r = peer then rs else r # without_first peer rs)"

definition withMessage :: "chat_row list \<Rightarrow> entry \<Rightarrow> string \<Rightarrow> bool \<Rightarrow> chat_row list" where
  "withMessage rows m peer incrementUnread =
     (let existing = row_of rows peer;
          base = (case existing of Some r \<Rightarrow> r | None \<Rightarrow> no_row (str m F_conversation) peer)
      in base\<lparr>cr_last := Some m, cr_activity := Some (m(F_other ''type'' \<mapsto> Str ''text'')),
              cr_unread := Some ((case existing of Some r \<Rightarrow> unread_of r | None \<Rightarrow> 0) + (if incrementUnread then 1 else 0))\<rparr>
         # without_first peer rows)"

definition group_row :: "chat_row list \<Rightarrow> entry \<Rightarrow> chat_row option" where
  "group_row rows m = find (\<lambda>r. cr_group r \<noteq> None \<and> cr_conversation r = str m F_conversation) rows"

definition withIncomingMessage :: "chat_row list \<Rightarrow> entry \<Rightarrow> bool \<Rightarrow> chat_row list" where
  "withIncomingMessage rows m incrementUnread =
     withMessage rows m (case group_row rows m of Some r \<Rightarrow> cr_peer r | None \<Rightarrow> the (str m F_sender)) incrementUnread"

definition withOutgoingMessage :: "chat_row list \<Rightarrow> entry \<Rightarrow> chat_row list" where
  "withOutgoingMessage rows m =
     (if \<not> str_truthy (str m F_recipient) then rows else withMessage rows m (the (str m F_recipient)) False)"

definition matchesAcknowledgedMessage :: "entry option \<Rightarrow> string \<Rightarrow> entry \<Rightarrow> bool" where
  "matchesAcknowledgedMessage activity localId m =
     (case activity of
        None \<Rightarrow> False
      | Some a \<Rightarrow>
          a F_call = None \<and> str a F_sender = str m F_sender \<and>
          (str a F_message = Some localId \<or> (str_truthy (str m F_client) \<and> str a F_client = str m F_client)))"

definition withReconciledMessage :: "chat_row list \<Rightarrow> string \<Rightarrow> string \<Rightarrow> entry option \<Rightarrow> chat_row list" where
  "withReconciledMessage rows peer localId confirmed =
     (case confirmed of
        None \<Rightarrow> rows
      | Some m \<Rightarrow>
          map (\<lambda>r. if cr_peer r \<noteq> peer \<or> \<not> matchesAcknowledgedMessage (cr_last r) localId m then r
                   else r\<lparr>cr_last := Some m,
                          cr_activity := (if matchesAcknowledgedMessage (cr_activity r) localId m then Some m else cr_activity r)\<rparr>)
            rows)"

definition withCallActivity :: "chat_row list \<Rightarrow> string \<Rightarrow> entry \<Rightarrow> chat_row list" where
  "withCallActivity rows peer activity =
     (if peer = [] \<or> \<not> str_truthy (str activity F_call) then rows
      else
        (let existing = row_of rows peer;
             base = (case existing of Some r \<Rightarrow> r | None \<Rightarrow> no_row (str activity F_conversation) peer)
         in base\<lparr>cr_activity := Some activity,
                 cr_unread := Some (case existing of Some r \<Rightarrow> unread_of r | None \<Rightarrow> 0)\<rparr> # without_first peer rows))"

definition withConversationRead :: "chat_row list \<Rightarrow> string \<Rightarrow> chat_row list" where
  "withConversationRead rows peer = map (\<lambda>r. if cr_peer r = peer then r\<lparr>cr_unread := Some 0\<rparr> else r) rows"

end
