(* ===== verification/MessageWire.thy ===== *)
theory MessageWire
  imports Prelude
begin

text \<open>
  What a chat client asks of the server: the payloads of \<open>message.send\<close>, \<open>message.delete\<close>,
  \<open>message.react\<close> and \<open>message.typing\<close> as \<open>shared/signaling/schemas.ts\<close> lets them through. An absent or
  null field is \<open>None\<close>; an attachment is the list of its fields.
\<close>

type_synonym attachment = "(string \<times> string) list"

record send_payload =
  sp_conversation :: "string option"
  sp_recipient :: "string option"
  sp_body :: string
  sp_type :: "string option"
  sp_attachment :: "attachment option"
  sp_reply :: "string option"
  sp_client :: "string option"
  sp_message :: "string option"

record delete_payload =
  dp_conversation :: "string option"
  dp_peer :: "string option"
  dp_message :: string

record 'a react_payload =
  rx_conversation :: "string option"
  rx_peer :: "string option"
  rx_message :: string
  rx_emoji :: string
  rx_action :: 'a

record typing_payload =
  ty_conversation :: "string option"
  ty_recipient :: "string option"
  ty_typing :: bool

end
