(* ===== verification/Outbox.thy ===== *)
theory Outbox
  imports ChatList MessageWire Complex_Main
begin

text \<open>
  Sending: the pure half of the pipeline (\<open>mobile/src/messaging/sendPipeline.ts\<close>), what the chat shows of a
  queued message (\<open>deliveryState.ts\<close>), and the worker that drains the durable outbox
  (\<open>mobile/src/hooks/useMessaging.ts\<close>). The clock is a component of the client; a step of the outside
  world (a request, an upload, a clean-up) may change the client, as the user can act while it is awaited.
\<close>

section \<open>Rows of the outbox\<close>

datatype row_state = Row_Pending | Row_Failed

text \<open>The progress is the number as text; the parts already uploaded are not looked into.\<close>

record upload =
  up_uri :: string
  up_key :: "string option"
  up_progress :: string
  up_completed :: bool

record outbox_item =
  ob_message :: string
  ob_client :: "string option"
  ob_recipient :: string
  ob_conversation :: "string option"
  ob_group :: bool          \<comment> \<open>\<open>targetKind\<close>\<close>
  ob_mock :: bool
  ob_body :: "string option"
  ob_type :: "string option"
  ob_attachment :: "attachment option"
  ob_reply :: "string option"
  ob_reply_local :: "string option"
  ob_created :: "string option"
  ob_attempts :: "nat option"
  ob_last_attempt :: "string option"
  ob_last_error :: "string option"
  ob_state :: "row_state option"
  ob_next :: "int option"
  ob_upload :: "upload option"
  ob_discarded :: bool

definition OUTBOX_MAX_ATTEMPTS :: nat where "OUTBOX_MAX_ATTEMPTS = 5"
definition OUTBOX_BASE_RETRY_MS :: int where "OUTBOX_BASE_RETRY_MS = 1000"
definition OUTBOX_MAX_RETRY_MS :: int where "OUTBOX_MAX_RETRY_MS = 60000"

definition attempts_of :: "outbox_item \<Rightarrow> nat" where
  "attempts_of i = (case ob_attempts i of Some n \<Rightarrow> n | None \<Rightarrow> 0)"

definition isRetryable :: "outbox_item \<Rightarrow> bool" where
  "isRetryable i = (ob_discarded i \<or> (ob_state i \<noteq> Some Row_Failed \<and> attempts_of i < OUTBOX_MAX_ATTEMPTS))"

definition isPermanentSendError :: "string option \<Rightarrow> bool" where
  "isPermanentSendError code =
     (\<exists>c \<in> set [''bad_request'', ''blocked'', ''forbidden'', ''not_found'', ''unauthorized'', ''unsupported_version''].
        code = Some c)"

text \<open>\<open>jitter\<close> is in 0..1.\<close>

definition nextDrainDelayMs :: "nat \<Rightarrow> rat \<Rightarrow> rat" where
  "nextDrainDelayMs attempt jitter =
     (let ceil = min (OUTBOX_BASE_RETRY_MS * 2 ^ attempt) OUTBOX_MAX_RETRY_MS
      in of_int ceil / 2 + jitter * (of_int ceil / 2))"

text \<open>A comparator that gives \<open>NaN\<close>, for a row without a time, counts as equal.\<close>

definition byOldestFirst :: "(string \<Rightarrow> int option) \<Rightarrow> outbox_item \<Rightarrow> outbox_item \<Rightarrow> int" where
  "byOldestFirst engine a b =
     (case (timestampMs engine (ob_created a), timestampMs engine (ob_created b)) of (Some t, Some t') \<Rightarrow> t - t' | _ \<Rightarrow> 0)"

definition by_drain :: "(string \<Rightarrow> int option) \<Rightarrow> outbox_item \<Rightarrow> outbox_item \<Rightarrow> int" where
  "by_drain engine a b =
     (if ob_discarded a \<noteq> ob_discarded b then (if ob_discarded a then - 1 else 1) else byOldestFirst engine a b)"

definition drainOrder :: "(string \<Rightarrow> int option) \<Rightarrow> outbox_item list \<Rightarrow> outbox_item list" where
  "drainOrder engine rows = sort_cmp (by_drain engine) (filter isRetryable rows)"

definition deadline_step :: "int \<Rightarrow> outbox_item \<Rightarrow> string list \<times> int option \<Rightarrow> string list \<times> int option" where
  "deadline_step nw i = (\<lambda>(peers, deadline).
     if \<not> ob_discarded i \<and> ob_recipient i \<in> set peers then (peers, deadline)
     else (let due = max nw (case ob_next i of Some t \<Rightarrow> t | None \<Rightarrow> nw)
           in (if ob_discarded i then peers else ob_recipient i # peers,
               Some (case deadline of None \<Rightarrow> due | Some d \<Rightarrow> min d due))))"

definition nextOutboxDeadline :: "(string \<Rightarrow> int option) \<Rightarrow> int \<Rightarrow> outbox_item list \<Rightarrow> int option" where
  "nextOutboxDeadline engine nw rows = snd (fold (deadline_step nw) (drainOrder engine rows) ([], None))"

definition withoutMessage :: "outbox_item list \<Rightarrow> string \<Rightarrow> outbox_item list" where
  "withoutMessage rows mid = filter (\<lambda>i. ob_message i \<noteq> mid) rows"

definition map_row :: "string \<Rightarrow> (outbox_item \<Rightarrow> outbox_item) \<Rightarrow> outbox_item list \<Rightarrow> outbox_item list" where
  "map_row mid f rows = map (\<lambda>i. if ob_message i = mid then f i else i) rows"

definition withAttemptRecorded ::
  "outbox_item list \<Rightarrow> string \<Rightarrow> nat \<Rightarrow> string option \<Rightarrow> string \<Rightarrow> row_state option \<Rightarrow> int option \<Rightarrow> outbox_item list" where
  "withAttemptRecorded rows mid attempts lastError lastAttemptAt state nextAttemptAt =
     map_row mid (\<lambda>i. i\<lparr>ob_attempts := Some attempts, ob_last_attempt := Some lastAttemptAt, ob_last_error := lastError,
         ob_state := Some (case state of Some s \<Rightarrow> s
           | None \<Rightarrow> if OUTBOX_MAX_ATTEMPTS \<le> attempts then Row_Failed else Row_Pending),
         ob_next := nextAttemptAt\<rparr>) rows"

definition withAttemptsReset :: "outbox_item list \<Rightarrow> string \<Rightarrow> outbox_item list" where
  "withAttemptsReset rows mid =
     map_row mid (\<lambda>i. i\<lparr>ob_attempts := Some 0, ob_last_error := None, ob_last_attempt := None,
         ob_state := Some Row_Pending, ob_next := None\<rparr>) rows"

section \<open>The optimistic message\<close>

abbreviation F_upload :: field where "F_upload \<equiv> F_other ''uploadState''"
abbreviation F_progress :: field where "F_progress \<equiv> F_other ''uploadProgress''"
abbreviation F_upload_error :: field where "F_upload_error \<equiv> F_other ''uploadError''"

record optimistic =
  oi_message :: string
  oi_client :: "string option"
  oi_conversation :: "string option"
  oi_sender :: string
  oi_recipient :: string
  oi_created :: string
  oi_body :: "string option"
  oi_type :: "string option"
  oi_attachment :: "attachment option"
  oi_reply :: "string option"
  oi_reply_local :: "string option"
  oi_group :: bool
  oi_mock :: bool

definition or_null :: "string option \<Rightarrow> jsval" where
  "or_null v = (case v of Some s \<Rightarrow> Str s | None \<Rightarrow> Null)"

definition attachment_val :: "attachment option \<Rightarrow> jsval" where
  "attachment_val a = (case a of Some x \<Rightarrow> Rec x | None \<Rightarrow> Null)"

definition text_or :: "string option \<Rightarrow> string \<Rightarrow> string" where
  "text_or v d = (case v of Some s \<Rightarrow> s | None \<Rightarrow> d)"

definition buildOptimisticMessage :: "optimistic \<Rightarrow> entry" where
  "buildOptimisticMessage oi =
     (let base =
        [F_message \<mapsto> Str (oi_message oi), F_conversation \<mapsto> or_null (oi_conversation oi), F_sender \<mapsto> Str (oi_sender oi),
         F_recipient \<mapsto> Str (oi_recipient oi), F_body \<mapsto> Str (text_or (oi_body oi) []),
         F_other ''type'' \<mapsto> Str (text_or (oi_type oi) ''text''), F_attachment \<mapsto> attachment_val (oi_attachment oi),
         F_reply \<mapsto> or_null (oi_reply oi), F_reactions \<mapsto> Obj [], F_deleted \<mapsto> Null, F_created \<mapsto> Str (oi_created oi),
         F_delivered \<mapsto> Names [], F_read \<mapsto> Null, F_client_created \<mapsto> Str (oi_created oi), F_pending \<mapsto> Flag True,
         F_sync \<mapsto> Str ''pending'']
      in if str_truthy (oi_client oi) then base(F_client \<mapsto> Str (the (oi_client oi))) else base)"

text \<open>The progress is the number as text.\<close>

definition buildUploadingMessage :: "optimistic \<Rightarrow> entry" where
  "buildUploadingMessage oi =
     (buildOptimisticMessage oi)(F_failed \<mapsto> Flag False, F_upload \<mapsto> Str ''uploading'', F_progress \<mapsto> Obj ''0'', F_upload_error \<mapsto> Null)"

definition buildOutboxItem :: "optimistic \<Rightarrow> outbox_item" where
  "buildOutboxItem oi =
     \<lparr>ob_message = oi_message oi, ob_client = (if str_truthy (oi_client oi) then oi_client oi else None),
      ob_recipient = oi_recipient oi, ob_conversation = oi_conversation oi, ob_group = oi_group oi,
      ob_mock = (oi_group oi \<and> oi_mock oi), ob_body = Some (text_or (oi_body oi) []),
      ob_type = Some (text_or (oi_type oi) ''text''), ob_attachment = oi_attachment oi, ob_reply = oi_reply oi,
      ob_reply_local = (if str_truthy (oi_reply_local oi) then oi_reply_local oi else None),
      ob_created = Some (oi_created oi), ob_attempts = Some 0, ob_last_attempt = None, ob_last_error = None,
      ob_state = Some Row_Pending, ob_next = None, ob_upload = None, ob_discarded = False\<rparr>"

text \<open>The error text of the throw, or what is emitted.\<close>

definition outboxSendPayload :: "outbox_item \<Rightarrow> string + send_payload" where
  "outboxSendPayload i =
     (if ob_group i \<and> \<not> str_truthy (ob_conversation i) then Inl ''Missing group conversation''
      else Inr \<lparr>sp_conversation = (if ob_group i then ob_conversation i else None),
                sp_recipient = (if ob_group i then None else Some (ob_recipient i)),
                sp_body = text_or (ob_body i) [],
                sp_type = (if str_truthy (ob_type i) \<and> ob_type i \<noteq> Some ''text'' then ob_type i else None),
                sp_attachment = ob_attachment i,
                sp_reply = (if str_truthy (ob_reply i) then ob_reply i else None),
                sp_client = (if str_truthy (ob_client i) then ob_client i else None),
                sp_message = (if str_truthy (ob_client i) then None else Some (ob_message i))\<rparr>)"

section \<open>Replies to a message that is still queued\<close>

definition unsettled :: "entry \<Rightarrow> bool" where
  "unsettled m = (awaiting_delivery m \<or> str_truthy (str m F_upload))"

definition quoted_entry :: "outbox_item \<Rightarrow> entry list \<Rightarrow> string \<Rightarrow> entry option" where
  "quoted_entry i ms sender =
     coalesce (find (\<lambda>m. str m F_message = ob_reply i) ms)
       (find (\<lambda>m. str m F_sender = Some sender \<and> str m F_client = ob_reply i) ms)"

definition resolveOutboxReply :: "outbox_item \<Rightarrow> entry list \<Rightarrow> string \<Rightarrow> outbox_item option" where
  "resolveOutboxReply i ms sender =
     (if \<not> str_truthy (ob_reply i) then Some i
      else (case quoted_entry i ms sender of
              None \<Rightarrow> (if str_truthy (ob_reply_local i) then None else Some i)
            | Some q \<Rightarrow>
                if unsettled q then None
                else if provisional q \<and> str q F_sync \<noteq> Some ''synced'' then None
                else if str q F_message \<noteq> ob_reply i \<or> str_truthy (ob_reply_local i)
                then Some (i\<lparr>ob_reply := str q F_message, ob_reply_local := None\<rparr>) else Some i))"

definition optimisticReplyKey :: "string option \<Rightarrow> entry list \<Rightarrow> string \<Rightarrow> string option" where
  "optimisticReplyKey replyTo ms sender =
     (case find (\<lambda>m. str m F_sender = Some sender \<and> replyTo \<noteq> None \<and> str m F_message = replyTo) ms of
        Some q \<Rightarrow> if unsettled q then str q F_message else None
      | None \<Rightarrow> None)"

definition unavailableReplyReason :: "outbox_item \<Rightarrow> entry list \<Rightarrow> outbox_item list \<Rightarrow> string \<Rightarrow> string option" where
  "unavailableReplyReason i ms rows sender =
     (let key = coalesce (ob_reply_local i) (ob_reply i);
          parent = find (\<lambda>m. str m F_sender = Some sender \<and> key \<noteq> None \<and> (str m F_message = key \<or> str m F_client = key)) ms;
          queued = find (\<lambda>q. ob_recipient q = ob_recipient i \<and> Some (ob_message q) = key) rows
      in if (case parent of Some p \<Rightarrow> str p F_sync = Some ''failed'' \<or> str p F_upload = Some ''failed'' | None \<Rightarrow> False) \<or>
            (case queued of Some q \<Rightarrow> \<not> isRetryable q | None \<Rightarrow> False)
         then Some ''The message being replied to failed. Retry that message first.''
         else if parent = None \<and> queued = None then Some ''The message being replied to is no longer available.'' else None)"

definition withResolvedReplies :: "outbox_item list \<Rightarrow> string \<Rightarrow> string option \<Rightarrow> outbox_item list" where
  "withResolvedReplies rows localId serverId =
     (if \<not> str_truthy serverId then rows
      else map (\<lambda>i. if ob_reply i = Some localId then i\<lparr>ob_reply := serverId, ob_reply_local := None\<rparr> else i) rows)"

section \<open>What the user sees\<close>

definition date_parse :: "(string \<Rightarrow> int option) \<Rightarrow> string \<Rightarrow> int option" where
  "date_parse engine s = (if canonical s then iso_parse s else engine s)"

definition validTimestamp :: "(string \<Rightarrow> int option) \<Rightarrow> string option \<Rightarrow> string option" where
  "validTimestamp engine v =
     (case v of Some s \<Rightarrow> if date_parse engine s \<noteq> None then Some s else None | None \<Rightarrow> None)"

definition asSent :: "(string \<Rightarrow> int option) \<Rightarrow> entry \<Rightarrow> entry option \<Rightarrow> entry" where
  "asSent engine m confirmed =
     (let clientCreatedAt = coalesce (str m F_client_created) (validTimestamp engine (str m F_created));
          c = (case confirmed of Some x \<Rightarrow> x | None \<Rightarrow> Map.empty);
          m1 = (m ++ c)(F_delivered \<mapsto> Names (uniq (names_of m @ names_of c)),
                        F_read \<mapsto> or_null (coalesce (str c F_read) (str m F_read)));
          m2 = (if str_truthy (str m F_deleted)
                then m1(F_deleted \<mapsto> Str (the (str m F_deleted)), F_body \<mapsto> Str [], F_attachment \<mapsto> Null, F_reactions \<mapsto> Obj [])
                else m1);
          m3 = (if str_truthy clientCreatedAt then m2(F_client_created \<mapsto> Str (the clientCreatedAt)) else m2)
      in m3(F_pending \<mapsto> Flag False, F_failed \<mapsto> Flag False, F_sync \<mapsto> Str ''synced''))"

definition asFailed :: "entry \<Rightarrow> entry" where
  "asFailed m = m(F_pending \<mapsto> Flag False, F_failed \<mapsto> Flag True, F_sync \<mapsto> Str ''failed'')"

definition asQueued :: "entry \<Rightarrow> entry" where
  "asQueued m = m(F_pending \<mapsto> Flag True, F_failed \<mapsto> Flag False, F_sync \<mapsto> Str ''pending'')"

definition asUploaded :: "entry \<Rightarrow> attachment \<Rightarrow> entry" where
  "asUploaded m a = (asQueued m)(F_attachment \<mapsto> Rec a, F_upload \<mapsto> Undefined, F_progress \<mapsto> Undefined, F_upload_error \<mapsto> Null)"

definition asUploadFailed :: "entry \<Rightarrow> string option \<Rightarrow> entry" where
  "asUploadFailed m err = (asFailed m)(F_upload \<mapsto> Str ''failed'', F_upload_error \<mapsto> or_null err)"

datatype delivery = Queued | Sending | Sent_State | Delivered_State | Read_State | Failed_State

definition deriveDeliveryState :: "entry \<Rightarrow> string list \<Rightarrow> outbox_item option \<Rightarrow> bool \<Rightarrow> delivery" where
  "deriveDeliveryState m readBy row inFlight =
     (if str m F_upload = Some ''failed'' then Failed_State
      else (case row of
        Some i \<Rightarrow> (if \<not> isRetryable i then Failed_State else if inFlight then Sending else Queued)
      | None \<Rightarrow>
          if str_truthy (str m F_read) \<or> (\<exists>u \<in> set readBy. Some u \<noteq> str m F_sender) then Read_State
          else if (if str_truthy (str m F_recipient) then the (str m F_recipient) \<in> set (names_of m) else names_of m \<noteq> [])
          then Delivered_State
          else if m F_failed = Some (Flag True) \<or> str m F_sync = Some ''failed'' then Failed_State
          else if m F_pending = Some (Flag True) \<or> str m F_sync = Some ''pending'' \<or> str m F_upload = Some ''uploading''
          then Queued else Sent_State))"

section \<open>After a restart\<close>

definition row_matches :: "string \<Rightarrow> outbox_item \<Rightarrow> entry \<Rightarrow> bool" where
  "row_matches sender i m =
     (str m F_message = Some (ob_message i) \<or>
      (str_truthy (ob_client i) \<and> str m F_sender = Some sender \<and> str m F_client = ob_client i))"

definition restore_upload :: "outbox_item \<Rightarrow> entry \<Rightarrow> entry" where
  "restore_upload i m =
     (case ob_upload i of
        None \<Rightarrow> m
      | Some u \<Rightarrow>
          if up_completed u
          then m(F_attachment \<mapsto> Rec (case up_key u of
                    Some k \<Rightarrow> AList.update ''url'' k (or_empty (ob_attachment i)) | None \<Rightarrow> or_empty (ob_attachment i)),
                 F_upload \<mapsto> Undefined, F_progress \<mapsto> Undefined, F_upload_error \<mapsto> Null)
          else m(F_upload \<mapsto> Str (if isRetryable i then ''uploading'' else ''failed''), F_progress \<mapsto> Obj (up_progress u)))"

definition restored_entry :: "outbox_item \<Rightarrow> entry \<Rightarrow> entry" where
  "restored_entry i m = restore_upload i (if isRetryable i then m else asFailed m)"

definition optimistic_of :: "string \<Rightarrow> outbox_item \<Rightarrow> optimistic" where
  "optimistic_of sender i =
     \<lparr>oi_message = ob_message i, oi_client = ob_client i, oi_conversation = ob_conversation i, oi_sender = sender,
      oi_recipient = ob_recipient i, oi_created = text_or (ob_created i) (toISOString 0), oi_body = ob_body i,
      oi_type = ob_type i, oi_attachment = ob_attachment i, oi_reply = ob_reply i, oi_reply_local = ob_reply_local i,
      oi_group = ob_group i, oi_mock = ob_mock i\<rparr>"

definition restore_row :: "(string \<Rightarrow> int option) \<Rightarrow> string \<Rightarrow> outbox_item \<Rightarrow> messages_by_peer \<Rightarrow> messages_by_peer" where
  "restore_row engine sender i restored =
     (let peer = ob_recipient i; hit = row_matches sender i
      in if ob_discarded i then AList.update peer (filter (\<lambda>m. \<not> hit m) (entries_of restored peer)) restored
         else if list_ex hit (entries_of restored peer)
         then AList.update peer (map (\<lambda>m. if hit m then restored_entry i m else m) (entries_of restored peer)) restored
         else prependMessage engine restored peer (restored_entry i (buildOptimisticMessage (optimistic_of sender i))))"

definition restoreOutboxMessages ::
  "(string \<Rightarrow> int option) \<Rightarrow> messages_by_peer \<Rightarrow> outbox_item list \<Rightarrow> string \<Rightarrow> messages_by_peer" where
  "restoreOutboxMessages engine ms rows sender = fold (restore_row engine sender) rows ms"

end
