(* ===== verification/SendWorker.thy ===== *)
theory SendWorker
  imports Outbox
begin

text \<open>
  The worker of the durable outbox (\<open>drainOutbox\<close>, \<open>sendOutboxItem\<close> and what the user does to a queued
  message, \<open>mobile/src/hooks/useMessaging.ts\<close>). What lies outside is the record \<open>outside\<close>, over a world of
  any type: it answers requests, uploads attachments, cleans discarded uploads up, and may change the client
  meanwhile. The account and the generation of the worker stay the same while it drains.
\<close>

section \<open>The client\<close>

record client =
  cl_now :: int
  cl_user :: string
  cl_outbox :: "outbox_item list"
  cl_messages :: messages_by_peer
  cl_chats :: "chat_row list"

text \<open>Why a request fails: the code of the refusal, an HTTP status, the wait it asks for, the text.\<close>

record failure =
  fl_code :: "string option"
  fl_status :: "int option"
  fl_retry_after :: "int option"
  fl_text :: string

definition plain_failure :: "string \<Rightarrow> failure" where
  "plain_failure msg = \<lparr>fl_code = None, fl_status = None, fl_retry_after = None, fl_text = msg\<rparr>"

datatype send_result = Sent | Unsent | Waiting | Unavailable

text \<open>An acknowledgement may carry the stored message. An upload that was given up is \<open>None\<close>.\<close>

record 'w outside =
  os_engine :: "string \<Rightarrow> int option"
  os_connected :: "'w \<Rightarrow> bool"
  os_flush :: "client \<times> 'w \<Rightarrow> bool \<times> client \<times> 'w"
  os_storage_error :: failure
  os_request :: "send_payload \<Rightarrow> client \<times> 'w \<Rightarrow> (failure + entry option) \<times> client \<times> 'w"
  os_upload :: "outbox_item \<Rightarrow> client \<times> 'w \<Rightarrow> (failure + outbox_item option) \<times> client \<times> 'w"
  os_cleanup :: "outbox_item \<Rightarrow> client \<times> 'w \<Rightarrow> (failure + send_result) \<times> client \<times> 'w"
  os_mock :: "outbox_item \<Rightarrow> chat_row option \<Rightarrow> failure + entry"
  os_jitter :: "'w \<Rightarrow> rat"

definition put_outbox :: "outbox_item list \<Rightarrow> client \<Rightarrow> client" where
  "put_outbox rows c = c\<lparr>cl_outbox := rows\<rparr>"

definition queued_row :: "client \<Rightarrow> string \<Rightarrow> outbox_item option" where
  "queued_row c mid = find (\<lambda>i. ob_message i = mid) (cl_outbox c)"

text \<open>\<open>resolveQueuedMessage\<close>: the local message and the row that an id names.\<close>

definition resolveQueuedMessage :: "string \<Rightarrow> string \<Rightarrow> client \<Rightarrow> entry option \<times> outbox_item option" where
  "resolveQueuedMessage peer mid c =
     (let own = filter (\<lambda>m. str m F_sender = Some (cl_user c)) (entries_of (cl_messages c) peer);
          m0 = find (\<lambda>m. str m F_message = Some mid \<or> str m F_client = Some mid) own;
          ids = [Some mid] @ (case m0 of Some m \<Rightarrow> [str m F_message, str m F_client] | None \<Rightarrow> []);
          row = find (\<lambda>i. ob_recipient i = peer \<and>
                  (Some (ob_message i) \<in> set ids \<or> (str_truthy (ob_client i) \<and> ob_client i \<in> set ids))) (cl_outbox c);
          m1 = (case m0 of Some m \<Rightarrow> Some m | None \<Rightarrow>
                  (case row of None \<Rightarrow> None | Some i \<Rightarrow>
                     find (\<lambda>m. str m F_message = Some (ob_message i) \<or>
                             (str_truthy (ob_client i) \<and> str m F_client = ob_client i)) own))
      in (m1, row))"

definition patch_local :: "(string \<Rightarrow> int option) \<Rightarrow> string \<Rightarrow> string \<Rightarrow> (entry \<Rightarrow> entry) \<Rightarrow> client \<Rightarrow> client" where
  "patch_local engine peer mid f c =
     (let mid' = text_or (Option.bind (fst (resolveQueuedMessage peer mid c)) (\<lambda>m. str m F_message)) mid
      in c\<lparr>cl_messages := patchMessage engine (cl_messages c) peer mid' f (Some (cl_user c))\<rparr>)"

section \<open>One row\<close>

text \<open>\<open>prepareOutboxReply\<close>: \<open>Inl\<close> is the status of a row that cannot go out.\<close>

definition prepareOutboxReply :: "'w outside \<Rightarrow> outbox_item \<Rightarrow> client \<Rightarrow> (send_result + outbox_item) \<times> client" where
  "prepareOutboxReply os i c =
     (let ms = entries_of (cl_messages c) (ob_recipient i)
      in case resolveOutboxReply i ms (cl_user c) of
           Some i' \<Rightarrow> (Inr i', c)
         | None \<Rightarrow>
             (case unavailableReplyReason i ms (cl_outbox c) (cl_user c) of
                None \<Rightarrow> (Inl Waiting, c)
              | Some reason \<Rightarrow>
                  (let c1 = patch_local (os_engine os) (ob_recipient i) (ob_message i) asFailed c
                   in (Inl Unavailable,
                       put_outbox (withAttemptRecorded (cl_outbox c1) (ob_message i) OUTBOX_MAX_ATTEMPTS (Some reason)
                         (toISOString (cl_now c1)) None None) c1))))"

definition recordSendFailure :: "'w outside \<Rightarrow> outbox_item \<Rightarrow> failure \<Rightarrow> client \<times> 'w \<Rightarrow> send_result \<times> client \<times> 'w" where
  "recordSendFailure os i f = (\<lambda>(c, w).
     case queued_row c (ob_message i) of
       None \<Rightarrow> (Sent, c, w)
     | Some latest \<Rightarrow>
         if ob_discarded latest \<and> \<not> ob_discarded i then (Waiting, c, w)
         else
           (let rateLimited = (fl_status f = Some 429);
                attempts = attempts_of latest + (if rateLimited then 0 else 1);
                failed = (\<not> ob_discarded i \<and> (isPermanentSendError (fl_code f) \<or> OUTBOX_MAX_ATTEMPTS \<le> attempts));
                bubble = (\<lambda>m. case ob_upload i of
                            Some u \<Rightarrow> if up_completed u then asFailed m else asUploadFailed m (Some (fl_text f))
                          | None \<Rightarrow> asFailed m);
                c1 = (if failed then patch_local (os_engine os) (ob_recipient i) (ob_message i) bubble c else c);
                wait = (if rateLimited then max 1000 (case fl_retry_after f of Some t \<Rightarrow> t | None \<Rightarrow> 60000)
                        else \<lceil>nextDrainDelayMs (attempts - 1) (os_jitter os w)\<rceil>);
                c2 = put_outbox (withAttemptRecorded (cl_outbox c1) (ob_message i) attempts (Some (fl_text f))
                       (toISOString (cl_now c)) (Some (if failed then Row_Failed else Row_Pending))
                       (if failed then None else Some (cl_now c + wait))) c1
            in (if failed then Unavailable else Unsent, snd (os_flush os (c2, w)))))"

definition left_group :: "chat_group \<Rightarrow> chat_row \<Rightarrow> string \<Rightarrow> bool" where
  "left_group g r me = (cr_left r = Some True \<or> me \<notin> set (gi_members g))"

definition outside_group :: "chat_row option \<Rightarrow> string \<Rightarrow> bool" where
  "outside_group row me =
     (case row of
        None \<Rightarrow> True
      | Some r \<Rightarrow> (case cr_group r of None \<Rightarrow> True | Some g \<Rightarrow> left_group g r me))"

text \<open>A result that stands once it is on the disk; the write may fail.\<close>

definition committed :: "'w outside \<Rightarrow> failure + 'a \<Rightarrow> client \<times> 'w \<Rightarrow> (failure + 'a) \<times> client \<times> 'w" where
  "committed os a s = (case os_flush os s of (ok, s') \<Rightarrow> (if ok then a else Inl (os_storage_error os), s'))"

text \<open>\<open>prepareOutboxSend\<close>. It fails for a group the user is no longer in, and when the disk does.\<close>

definition prepareOutboxSend ::
  "'w outside \<Rightarrow> outbox_item \<Rightarrow> client \<times> 'w \<Rightarrow> (failure + (send_result + outbox_item)) \<times> client \<times> 'w" where
  "prepareOutboxSend os i = (\<lambda>(c, w).
     if ob_group i \<and> outside_group (row_of (cl_chats c) (ob_recipient i)) (cl_user c)
     then (Inl (plain_failure ''You are no longer a group member''\<lparr>fl_code := Some ''forbidden''\<rparr>), c, w)
     else
       (case prepareOutboxReply os i c of
          (Inl st, c1) \<Rightarrow> if st = Unavailable then committed os (Inr (Inl st)) (c1, w) else (Inr (Inl st), c1, w)
        | (Inr i', c1) \<Rightarrow>
            if i' \<noteq> i
            then committed os (Inr (Inr i')) (put_outbox (map_row (ob_message i) (\<lambda>_. i') (cl_outbox c1)) c1, w)
            else (Inr (Inr i'), c1, w)))"

definition confirmOutboxSend :: "'w outside \<Rightarrow> outbox_item \<Rightarrow> entry option \<Rightarrow> client \<times> 'w \<Rightarrow> send_result \<times> client \<times> 'w" where
  "confirmOutboxSend os i confirmed = (\<lambda>(c, w).
     case queued_row c (ob_message i) of
       None \<Rightarrow> (Sent, c, w)
     | Some latest \<Rightarrow>
         if ob_discarded latest then (Waiting, c, w)
         else
           (let c1 = patch_local (os_engine os) (ob_recipient i) (ob_message i) (\<lambda>m. asSent (os_engine os) m confirmed) c;
                c2 = c1\<lparr>cl_chats := withReconciledMessage (cl_chats c1) (ob_recipient i) (ob_message i) confirmed\<rparr>;
                c3 = put_outbox (withoutMessage (withResolvedReplies (cl_outbox c2) (ob_message i)
                       (Option.bind confirmed (\<lambda>m. str m F_message))) (ob_message i)) c2
            in case os_flush os (c3, w) of
                 (ok, s) \<Rightarrow> if ok then (Sent, s) else recordSendFailure os i (os_storage_error os) s))"

text \<open>The request of a row, or the stand-in for a local group.\<close>

definition emit_row :: "'w outside \<Rightarrow> outbox_item \<Rightarrow> client \<times> 'w \<Rightarrow> (failure + entry option) \<times> client \<times> 'w" where
  "emit_row os i = (\<lambda>(c, w).
     if ob_mock i
     then (case os_mock os i (row_of (cl_chats c) (ob_recipient i)) of Inl f \<Rightarrow> (Inl f, c, w) | Inr m \<Rightarrow> (Inr (Some m), c, w))
     else (case outboxSendPayload i of
             Inl msg \<Rightarrow> (Inl (plain_failure msg), c, w)
           | Inr p \<Rightarrow> os_request os p (c, w)))"

definition send_uploaded :: "'w outside \<Rightarrow> outbox_item \<Rightarrow> client \<times> 'w \<Rightarrow> send_result \<times> client \<times> 'w" where
  "send_uploaded os i = (\<lambda>(c, w).
     if \<not> os_connected os w \<or> \<not> (\<exists>r \<in> set (cl_outbox c). ob_message r = ob_message i \<and> \<not> ob_discarded r) then (Waiting, c, w)
     else (case emit_row os i (c, w) of
             (Inl f, s) \<Rightarrow> recordSendFailure os i f s
           | (Inr confirmed, s) \<Rightarrow> confirmOutboxSend os i confirmed s))"

definition send_prepared :: "'w outside \<Rightarrow> outbox_item \<Rightarrow> client \<times> 'w \<Rightarrow> send_result \<times> client \<times> 'w" where
  "send_prepared os i = (\<lambda>(c, w).
     if \<not> os_connected os w then (Unsent, c, w)
     else if ob_upload i = None then send_uploaded os i (c, w)
     else (case os_upload os i (c, w) of
             (Inl f, s) \<Rightarrow> recordSendFailure os i f s
           | (Inr None, s) \<Rightarrow> (Waiting, s)
           | (Inr (Some i'), s) \<Rightarrow> send_uploaded os i' s))"

text \<open>The row \<open>i\<close> as it stands after the commit.\<close>

definition send_latest :: "'w outside \<Rightarrow> outbox_item \<Rightarrow> client \<times> 'w \<Rightarrow> send_result \<times> client \<times> 'w" where
  "send_latest os i = (\<lambda>(c, w).
     if \<not> isRetryable i then (Unavailable, c, w)
     else if cl_now c < (case ob_next i of Some t \<Rightarrow> t | None \<Rightarrow> 0) then (Waiting, c, w)
     else if ob_discarded i
     then (case os_cleanup os i (c, w) of (Inl f, s) \<Rightarrow> recordSendFailure os i f s | (Inr r, s) \<Rightarrow> (r, s))
     else (case prepareOutboxSend os i (c, w) of
             (Inl f, s) \<Rightarrow> recordSendFailure os i f s
           | (Inr (Inl st), s) \<Rightarrow> (st, s)
           | (Inr (Inr i'), s) \<Rightarrow> send_prepared os i' s))"

definition sendOutboxItem :: "'w outside \<Rightarrow> outbox_item \<Rightarrow> client \<times> 'w \<Rightarrow> send_result \<times> client \<times> 'w" where
  "sendOutboxItem os i = (\<lambda>(c, w).
     if \<not> os_connected os w then (Unsent, c, w)
     else (case os_flush os (c, w) of
             (False, s) \<Rightarrow> (Unsent, s)
           | (True, (c1, w1)) \<Rightarrow>
               (case queued_row c1 (ob_message i) of
                  None \<Rightarrow> (Unsent, c1, w1)
                | Some latest \<Rightarrow> send_latest os latest (c1, w1))))"

section \<open>The queue\<close>

text \<open>
  \<open>drainQueuedMessages\<close>, over a sender and a clock of any state. It gives whether everything went out.
\<close>

fun drain_rows ::
  "('s \<Rightarrow> int) \<Rightarrow> (outbox_item \<Rightarrow> 's \<Rightarrow> send_result \<times> 's) \<Rightarrow> outbox_item list \<Rightarrow> string list \<Rightarrow> bool \<Rightarrow> 's \<Rightarrow> bool \<times> 's" where
  "drain_rows clock send [] waiting allSent s = (allSent, s)"
| "drain_rows clock send (i # rows) waiting allSent s =
     (if ob_recipient i \<in> set waiting then drain_rows clock send rows waiting allSent s
      else if clock s < (case ob_next i of Some t \<Rightarrow> t | None \<Rightarrow> 0)
      then drain_rows clock send rows (if ob_discarded i then waiting else ob_recipient i # waiting) False s
      else (case send i s of
              (r, s') \<Rightarrow>
                if r = Sent then drain_rows clock send rows waiting allSent s'
                else drain_rows clock send rows
                  (if \<not> ob_discarded i \<and> (r = Waiting \<or> r = Unsent) then ob_recipient i # waiting else waiting) False s'))"

definition drainQueuedMessages ::
  "('s \<Rightarrow> int) \<Rightarrow> (outbox_item \<Rightarrow> 's \<Rightarrow> send_result \<times> 's) \<Rightarrow> outbox_item list \<Rightarrow> 's \<Rightarrow> bool \<times> 's" where
  "drainQueuedMessages clock send queue s = drain_rows clock send queue [] True s"

definition drainOutbox :: "'w outside \<Rightarrow> client \<times> 'w \<Rightarrow> client \<times> 'w" where
  "drainOutbox os = (\<lambda>(c, w).
     let queue = drainOrder (os_engine os) (cl_outbox c)
     in if queue = [] \<or> \<not> os_connected os w then (c, w)
        else snd (drainQueuedMessages (cl_now \<circ> fst) (sendOutboxItem os) queue (c, w)))"

section \<open>What the user does\<close>

text \<open>\<open>sendMessage\<close> up to the commit; \<open>fresh\<close> is the minted id, \<open>prev\<close> the last local time.\<close>

definition in_group :: "string \<Rightarrow> client \<Rightarrow> chat_row option" where
  "in_group peer c = find (\<lambda>r. cr_peer r = peer \<and> cr_group r \<noteq> None) (cl_chats c)"

definition outgoing_of ::
  "(string \<Rightarrow> int option) \<Rightarrow> string \<Rightarrow> int \<Rightarrow> string \<Rightarrow> string \<Rightarrow> string \<Rightarrow> attachment option \<Rightarrow> string option \<Rightarrow> client \<Rightarrow> optimistic" where
  "outgoing_of engine fresh prev peer body ty att replyTo c =
     \<lparr>oi_message = fresh, oi_client = Some fresh, oi_conversation = conversationIdForPeer (cl_chats c) peer,
      oi_sender = cl_user c, oi_recipient = peer,
      oi_created = nextLocalCreatedAt engine (entries_of (cl_messages c) peer) (cl_now c) prev,
      oi_body = Some body, oi_type = Some ty, oi_attachment = att, oi_reply = replyTo,
      oi_reply_local = optimisticReplyKey replyTo (entries_of (cl_messages c) peer) (cl_user c),
      oi_group = (in_group peer c \<noteq> None),
      oi_mock = (case in_group peer c of Some r \<Rightarrow> cr_mock r = Some True | None \<Rightarrow> False)\<rparr>"

definition attachment_type :: "string \<Rightarrow> bool" where
  "attachment_type ty = (ty \<in> set [''image'', ''file'', ''voice''])"

definition queueMessage ::
  "(string \<Rightarrow> int option) \<Rightarrow> string \<Rightarrow> int \<Rightarrow> string \<Rightarrow> string \<Rightarrow> string \<Rightarrow> attachment option \<Rightarrow> string option \<Rightarrow> client \<Rightarrow>
   string option \<times> client" where
  "queueMessage engine fresh prev peerId text0 ty att0 replyTo c =
     (let peer = trim peerId; body = trim text0; att = (if attachment_type ty then att0 else None)
      in if peer = [] then (None, c)
         else if (case att of Some a \<Rightarrow> \<not> str_truthy (map_of a ''url'') | None \<Rightarrow> body = []) then (None, c)
         else if in_group peer c \<noteq> None \<and> outside_group (in_group peer c) (cl_user c) then (None, c)
         else
           (let oi = outgoing_of engine fresh prev peer body ty att replyTo c; m = buildOptimisticMessage oi
            in (Some fresh,
                c\<lparr>cl_outbox := cl_outbox c @ [buildOutboxItem oi],
                  cl_messages := prependMessage engine (cl_messages c) peer m,
                  cl_chats := withOutgoingMessage (cl_chats c) m\<rparr>)))"

text \<open>\<open>retryMessage\<close> up to the commit.\<close>

definition requeueMessage :: "(string \<Rightarrow> int option) \<Rightarrow> string \<Rightarrow> string \<Rightarrow> client \<Rightarrow> client" where
  "requeueMessage engine peerId mid c =
     (let peer = trim peerId
      in if peer = [] \<or> mid = [] then c
         else if in_group peer c \<noteq> None \<and> outside_group (in_group peer c) (cl_user c) then c
         else (case resolveQueuedMessage peer mid c of
                 (m, Some i) \<Rightarrow>
                   if ob_discarded i then c
                   else
                     (let shown = (case ob_upload i of
                            Some u \<Rightarrow> if up_completed u then asQueued
                                      else (\<lambda>x. (asQueued x)(F_upload \<mapsto> Str ''uploading'', F_progress \<mapsto> Obj (up_progress u), F_upload_error \<mapsto> Null))
                          | None \<Rightarrow> asQueued);
                          c1 = patch_local engine peer (text_or (Option.bind m (\<lambda>x. str x F_message)) mid) shown c
                      in put_outbox (update_first (\<lambda>r. r = i) (\<lambda>r. hd (withAttemptsReset [r] (ob_message r))) (cl_outbox c1)) c1)
               | (_, None) \<Rightarrow> c))"

definition discardMessage :: "string \<Rightarrow> string \<Rightarrow> client \<Rightarrow> client" where
  "discardMessage peerId mid c =
     (let peer = trim peerId
      in if peer = [] \<or> mid = [] then c
         else
           (let (m, row) = resolveQueuedMessage peer mid c
            in if (case row of Some i \<Rightarrow> ob_discarded i | None \<Rightarrow> False) then c
               else
                 (let c1 = c\<lparr>cl_messages := removeMessage (cl_messages c) peer
                               (text_or (Option.bind m (\<lambda>x. str x F_message)) mid)\<rparr>
                  in case row of
                       None \<Rightarrow> c1
                     | Some i \<Rightarrow>
                         if ob_upload i \<noteq> None
                         then put_outbox (update_first (\<lambda>r. r = i) (\<lambda>r. r\<lparr>ob_discarded := True, ob_state := Some Row_Pending,
                                ob_attempts := Some 0, ob_next := None\<rparr>) (cl_outbox c1)) c1
                         else put_outbox (removeAll i (cl_outbox c1)) c1)))"

text \<open>Leaving a group: its bubbles and rows stay, as failed.\<close>

definition failQueuedOfGroup :: "string \<Rightarrow> client \<Rightarrow> client" where
  "failQueuedOfGroup gid c =
     c\<lparr>cl_messages := AList.update gid (map (\<lambda>m. if m F_pending = Some (Flag True) then asFailed m else m)
                         (entries_of (cl_messages c) gid)) (cl_messages c),
       cl_outbox := map (\<lambda>i. if ob_recipient i = gid
           then i\<lparr>ob_state := Some Row_Failed, ob_next := None, ob_attempts := Some OUTBOX_MAX_ATTEMPTS, ob_last_error := Some ''Left group''\<rparr>
           else i) (cl_outbox c)\<rparr>"

end
