(* ===== verification/OutboxProperties.thy ===== *)
theory OutboxProperties
  imports SendWorker
begin

text \<open>
  Draining keeps the order of each conversation: once a message of it has to wait, no later one is tried.
\<close>

section \<open>Order\<close>

text \<open>A sender that also records what it was given and the result.\<close>

definition logged ::
  "(outbox_item \<Rightarrow> 's \<Rightarrow> send_result \<times> 's) \<Rightarrow> outbox_item \<Rightarrow> 's \<times> (outbox_item \<times> send_result) list \<Rightarrow>
   send_result \<times> 's \<times> (outbox_item \<times> send_result) list" where
  "logged send i = (\<lambda>(s, lg). case send i s of (r, s') \<Rightarrow> (r, s', lg @ [(i, r)]))"

definition drain_log ::
  "('s \<Rightarrow> int) \<Rightarrow> (outbox_item \<Rightarrow> 's \<Rightarrow> send_result \<times> 's) \<Rightarrow> outbox_item list \<Rightarrow> 's \<Rightarrow> (outbox_item \<times> send_result) list" where
  "drain_log clock send queue s = snd (snd (drainQueuedMessages (clock \<circ> fst) (logged send) queue (s, [])))"

abbreviation rest_log where
  "rest_log clock send queue W b sl \<equiv> snd (snd (drain_rows clock (logged send) queue W b sl))"

lemma logged_step: "logged send i (s, lg) = (fst (send i s), snd (send i s), lg @ [(i, fst (send i s))])"
  by (simp add: logged_def split_beta)

text \<open>One row of the queue: it is passed over, or attempted.\<close>

lemma drain_step:
  obtains (skipped) W' b' where
      "rest_log clock send (i # queue) W b (s, lg) = rest_log clock send queue W' b' (s, lg)"
      "set W \<subseteq> set W'" "ob_discarded i \<or> ob_recipient i \<in> set W'"
  | (tried) W' b' where
      "rest_log clock send (i # queue) W b (s, lg) = rest_log clock send queue W' b' (snd (send i s), lg @ [(i, fst (send i s))])"
      "set W \<subseteq> set W'" "ob_recipient i \<notin> set W"
      "ob_discarded i \<or> fst (send i s) = Sent \<or> fst (send i s) = Unavailable \<or> ob_recipient i \<in> set W'"
proof (cases "ob_recipient i \<in> set W")
  case True
  then show thesis by (intro skipped [of W b]) simp_all
next
  case W: False
  show thesis
  proof (cases "clock (s, lg) < (case ob_next i of Some t \<Rightarrow> t | None \<Rightarrow> 0)")
    case True
    then show thesis
      using W by (intro skipped [of "if ob_discarded i then W else ob_recipient i # W" False]) auto
  next
    case False
    let ?r = "fst (send i s)"
    show thesis
    proof (cases "?r = Sent")
      case True
      then show thesis using W False by (intro tried [of W b]) (simp_all add: logged_step)
    next
      case u: False
      then show thesis using W False
        by (intro tried [of "if \<not> ob_discarded i \<and> (?r = Waiting \<or> ?r = Unsent) then ob_recipient i # W else W" False])
          (auto simp: logged_step intro: send_result.exhaust [of ?r])
    qed
  qed
qed

text \<open>What is attempted comes from the queue, and never from a conversation that waits.\<close>

lemma attempted:
  assumes "(j, r) \<in> set (rest_log clock send queue W b (s, lg))"
  shows "(j, r) \<in> set lg \<or> (j \<in> set queue \<and> ob_recipient j \<notin> set W)"
  using assms
proof (induction queue arbitrary: W b s lg)
  case (Cons i queue)
  show ?case
  proof (rule drain_step [of clock send i queue W b s lg])
    fix W' b' assume "rest_log clock send (i # queue) W b (s, lg) = rest_log clock send queue W' b' (s, lg)" "set W \<subseteq> set W'"
    then show ?thesis using Cons.IH [of W' b' s lg] Cons.prems by auto
  next
    fix W' b'
    assume "rest_log clock send (i # queue) W b (s, lg) = rest_log clock send queue W' b' (snd (send i s), lg @ [(i, fst (send i s))])"
      and "set W \<subseteq> set W'" "ob_recipient i \<notin> set W"
    then show ?thesis using Cons.IH [of W' b' "snd (send i s)" "lg @ [(i, fst (send i s))]"] Cons.prems by auto
  qed
qed simp

lemma log_grows: "set lg \<subseteq> set (rest_log clock send queue W b (s, lg))"
proof (induction queue arbitrary: W b s lg)
  case (Cons i queue)
  show ?case
  proof (rule drain_step [of clock send i queue W b s lg])
    fix W' b' assume "rest_log clock send (i # queue) W b (s, lg) = rest_log clock send queue W' b' (s, lg)"
    then show ?thesis using Cons.IH [of lg W' b' s] by simp
  next
    fix W' b'
    assume "rest_log clock send (i # queue) W b (s, lg) = rest_log clock send queue W' b' (snd (send i s), lg @ [(i, fst (send i s))])"
    then show ?thesis using Cons.IH [of "lg @ [(i, fst (send i s))]" W' b' "snd (send i s)"] by auto
  qed
qed simp

lemma order_kept:
  assumes "(j, r) \<in> set (rest_log clock send (xs @ i # ys) W b (s, lg))" and "(j, r) \<notin> set lg"
    and "j \<notin> set xs" "j \<noteq> i" and "ob_recipient j = ob_recipient i" "\<not> ob_discarded i"
  shows "(i, Sent) \<in> set (rest_log clock send (xs @ i # ys) W b (s, lg)) \<or>
    (i, Unavailable) \<in> set (rest_log clock send (xs @ i # ys) W b (s, lg))"
  using assms(1-3)
proof (induction xs arbitrary: W b s lg)
  case Nil
  show ?case
  proof (rule drain_step [of clock send i ys W b s lg])
    fix W' b' assume "rest_log clock send (i # ys) W b (s, lg) = rest_log clock send ys W' b' (s, lg)"
      and "ob_discarded i \<or> ob_recipient i \<in> set W'"
    then show ?thesis using attempted [of j r clock send ys W' b' s lg] Nil.prems assms(5,6) by auto
  next
    fix W' b'
    let ?lg = "lg @ [(i, fst (send i s))]"
    assume "rest_log clock send (i # ys) W b (s, lg) = rest_log clock send ys W' b' (snd (send i s), ?lg)"
      and "ob_discarded i \<or> fst (send i s) = Sent \<or> fst (send i s) = Unavailable \<or> ob_recipient i \<in> set W'"
    then show ?thesis
      using attempted [of j r clock send ys W' b' "snd (send i s)" ?lg] log_grows [of ?lg clock send ys W' b' "snd (send i s)"]
        Nil.prems assms(4-6) by auto
  qed
next
  case (Cons x xs)
  show ?case
  proof (rule drain_step [of clock send x "xs @ i # ys" W b s lg])
    fix W' b' assume "rest_log clock send (x # xs @ i # ys) W b (s, lg) = rest_log clock send (xs @ i # ys) W' b' (s, lg)"
    then show ?thesis using Cons.IH [of W' b' s lg] Cons.prems by simp
  next
    fix W' b'
    assume "rest_log clock send (x # xs @ i # ys) W b (s, lg) =
      rest_log clock send (xs @ i # ys) W' b' (snd (send x s), lg @ [(x, fst (send x s))])"
    then show ?thesis
      using Cons.IH [of W' b' "snd (send x s)" "lg @ [(x, fst (send x s))]"] Cons.prems by auto
  qed
qed

text \<open>
  C17. Conversations keep their order: whatever the clock and the sender do, a drain attempts a queued message
  only after every earlier message of the same conversation was attempted and either went out or failed for
  good. A message that waits, or that may be retried, holds the later ones of its conversation back.
\<close>

theorem drain_keeps_order:
  assumes "distinct (xs @ i # ys)" and "\<not> ob_discarded i" and "j \<in> set ys" and "ob_recipient j = ob_recipient i"
    and "(j, r) \<in> set (drain_log clock send (xs @ i # ys) s)"
  shows "(i, Sent) \<in> set (drain_log clock send (xs @ i # ys) s) \<or>
    (i, Unavailable) \<in> set (drain_log clock send (xs @ i # ys) s)"
  unfolding drain_log_def drainQueuedMessages_def
  by (rule order_kept [where j = j and r = r])
    (use assms in \<open>auto simp: drain_log_def drainQueuedMessages_def\<close>)

text \<open>Two messages to bob and one to cid; the first of bob's is not due before time 50.\<close>

definition demo_row :: "string \<Rightarrow> string \<Rightarrow> int option \<Rightarrow> outbox_item" where
  "demo_row mid peer due =
     \<lparr>ob_message = mid, ob_client = Some mid, ob_recipient = peer, ob_conversation = None, ob_group = False,
      ob_mock = False, ob_body = Some ''hi'', ob_type = Some ''text'', ob_attachment = None, ob_reply = None,
      ob_reply_local = None, ob_created = None, ob_attempts = Some 0, ob_last_attempt = None, ob_last_error = None,
      ob_state = Some Row_Pending, ob_next = due, ob_upload = None, ob_discarded = False\<rparr>"

definition demo_queue :: "int option \<Rightarrow> outbox_item list" where
  "demo_queue due = [demo_row ''m1'' ''bob'' due, demo_row ''m2'' ''cid'' None, demo_row ''m3'' ''bob'' None]"

definition demo_send :: "outbox_item \<Rightarrow> int \<Rightarrow> send_result \<times> int" where
  "demo_send i t = (Sent, t + 10)"

theorem drain_keeps_order_witness:
  "map (ob_message \<circ> fst) (drain_log id demo_send (demo_queue None) 0) = [''m1'', ''m2'', ''m3''] \<and>
   map (ob_message \<circ> fst) (drain_log id demo_send (demo_queue (Some 50)) 0) = [''m2''] \<and>
   ((demo_row ''m1'' ''bob'' None, Sent) \<in> set (drain_log id demo_send (demo_queue None) 0) \<or>
    (demo_row ''m1'' ''bob'' None, Unavailable) \<in> set (drain_log id demo_send (demo_queue None) 0))"
proof -
  have q: "demo_queue None = [] @ demo_row ''m1'' ''bob'' None # [demo_row ''m2'' ''cid'' None, demo_row ''m3'' ''bob'' None]"
    by (simp add: demo_queue_def)
  have "(demo_row ''m3'' ''bob'' None, Sent) \<in> set (drain_log id demo_send (demo_queue None) 0)" by code_simp
  then have "(demo_row ''m1'' ''bob'' None, Sent) \<in> set (drain_log id demo_send (demo_queue None) 0) \<or>
    (demo_row ''m1'' ''bob'' None, Unavailable) \<in> set (drain_log id demo_send (demo_queue None) 0)"
    unfolding q by (rule drain_keeps_order [rotated 4]) (simp_all add: demo_row_def)
  moreover have "map (ob_message \<circ> fst) (drain_log id demo_send (demo_queue None) 0) = [''m1'', ''m2'', ''m3'']" by code_simp
  moreover have "map (ob_message \<circ> fst) (drain_log id demo_send (demo_queue (Some 50)) 0) = [''m2'']" by code_simp
  ultimately show ?thesis by blast
qed

end
