(* ===== verification/OutboxDelivery.thy ===== *)
theory OutboxDelivery
  imports OutboxProperties
begin

text \<open>
  The outbox accounts for every message: whatever happens to the requests, a queued message is still in the
  outbox or the service holds it. The service is the interface \<open>delivery_service\<close>: requests and the disk leave
  the outbox alone, what the service holds it keeps, and it acknowledges only what it holds.
\<close>

section \<open>What no attempt changes\<close>

definition essence :: "outbox_item \<Rightarrow> outbox_item" where
  "essence i = i\<lparr>ob_reply := None, ob_reply_local := None, ob_attempts := None, ob_last_attempt := None,
     ob_last_error := None, ob_state := None, ob_next := None\<rparr>"

abbreviation essences :: "client \<Rightarrow> outbox_item list" where "essences c \<equiv> map essence (cl_outbox c)"

named_theorems essence_simps \<open>operations that keep the essence of the rows\<close>

lemma essence_fields [simp]:
  "ob_message (essence i) = ob_message i" "ob_upload (essence i) = ob_upload i" "ob_mock (essence i) = ob_mock i"
  "ob_discarded (essence i) = ob_discarded i" "ob_recipient (essence i) = ob_recipient i" "essence (essence i) = essence i"
  by (simp_all add: essence_def)

lemma essence_fieldD:
  assumes "essence i = essence j"
  shows "ob_message i = ob_message j" "ob_upload i = ob_upload j" "ob_mock i = ob_mock j" "ob_discarded i = ob_discarded j"
  using assms by (metis essence_fields(1), metis essence_fields(2), metis essence_fields(3), metis essence_fields(4))

lemma essence_map_row [essence_simps]:
  assumes "\<And>i. essence (f i) = essence i"
  shows "map essence (map_row mid f rows) = map essence rows"
  using assms by (simp add: map_row_def)

lemma essence_attempt [essence_simps]: "map essence (withAttemptRecorded rows mid n er t st nx) = map essence rows"
  by (simp add: withAttemptRecorded_def essence_map_row essence_def)

lemma essence_reset [essence_simps]: "map essence (withAttemptsReset rows mid) = map essence rows"
  by (simp add: withAttemptsReset_def essence_map_row essence_def)

lemma essence_replies [essence_simps]: "map essence (withResolvedReplies rows mid sid) = map essence rows"
  by (simp add: withResolvedReplies_def essence_def)

lemma essence_without: "map essence (withoutMessage rows mid) = filter (\<lambda>i. ob_message i \<noteq> mid) (map essence rows)"
  by (simp add: withoutMessage_def filter_map comp_def)

lemma essence_resolved: "resolveOutboxReply i ms u = Some i' \<Longrightarrow> essence i' = essence i"
  by (auto simp: resolveOutboxReply_def essence_def split: if_splits option.splits)

lemma patch_outbox [simp]:
  "cl_outbox (patch_local engine peer mid f c) = cl_outbox c" "cl_now (patch_local engine peer mid f c) = cl_now c"
  by (simp_all add: patch_local_def Let_def)

lemma put_outbox_rows [simp]: "cl_outbox (put_outbox rows c) = rows"
  by (simp add: put_outbox_def)

lemma payload_essence:
  "outboxSendPayload i = Inr p \<Longrightarrow> outboxSendPayload (essence i) = Inr (p\<lparr>sp_reply := None\<rparr>)"
  by (auto simp: outboxSendPayload_def essence_def split: if_splits)

text \<open>A row that names its message once and needs nothing but the request: no upload, no clean-up, no local group.\<close>

definition plain_row :: "outbox_item \<Rightarrow> bool" where
  "plain_row i = (ob_upload i = None \<and> \<not> ob_discarded i \<and> \<not> ob_mock i)"

definition good_rows :: "outbox_item list \<Rightarrow> bool" where
  "good_rows rows = (distinct (map ob_message rows) \<and> (\<forall>i \<in> set rows. plain_row i))"

lemma plain_essence [simp]: "plain_row (essence i) = plain_row i"
  by (simp add: plain_row_def)

lemma good_essences: "good_rows (map essence rows) = good_rows rows"
  by (simp add: good_rows_def comp_def)

lemma good_rows_filter: "good_rows rows \<Longrightarrow> good_rows (filter P rows)"
  by (auto simp: good_rows_def distinct_map_filter)

lemma good_same:
  assumes "good_rows rows" "i \<in> set rows" "j \<in> set rows" "ob_message i = ob_message j"
  shows "i = j"
  using assms by (auto simp: good_rows_def distinct_map inj_on_def)

section \<open>The service\<close>

locale delivery_service =
  fixes os :: "'w outside" and holds :: "send_payload \<Rightarrow> 'w \<Rightarrow> bool" and fine :: "'w \<Rightarrow> bool"
  assumes flush_fine: "fine w \<Longrightarrow> fine (snd (snd (os_flush os (c, w))))"
    and request_fine: "fine w \<Longrightarrow> fine (snd (snd (os_request os p (c, w))))"
    and flush_rows: "cl_outbox (fst (snd (os_flush os (c, w)))) = cl_outbox c"
    and flush_holds: "holds p w \<Longrightarrow> holds p (snd (snd (os_flush os (c, w))))"
    and request_rows: "cl_outbox (fst (snd (os_request os p (c, w)))) = cl_outbox c"
    and request_holds: "fine w \<Longrightarrow> holds q w \<Longrightarrow> holds q (snd (snd (os_request os p (c, w))))"
    and request_acked: "fine w \<Longrightarrow> fst (os_request os p (c, w)) = Inr m \<Longrightarrow> holds (p\<lparr>sp_reply := None\<rparr>) (snd (snd (os_request os p (c, w))))"
begin

definition held :: "outbox_item \<Rightarrow> 'w \<Rightarrow> bool" where
  "held i w = (\<exists>p. outboxSendPayload (essence i) = Inr p \<and> holds p w)"

text \<open>
  A step about the row \<open>i\<close>: what is held stays held, and the rows keep their essence, or all of them but \<open>i\<close>
  do, which is then held.
\<close>

definition step_of :: "outbox_item \<Rightarrow> client \<times> 'w \<Rightarrow> client \<times> 'w \<Rightarrow> bool" where
  "step_of i s s' =
     (fine (snd s) \<longrightarrow>
        fine (snd s') \<and> (\<forall>p. holds p (snd s) \<longrightarrow> holds p (snd s')) \<and>
        (essences (fst s') = essences (fst s) \<or>
         (essences (fst s') = filter (\<lambda>j. ob_message j \<noteq> ob_message i) (essences (fst s)) \<and> held i (snd s'))))"

definition quiet :: "client \<times> 'w \<Rightarrow> client \<times> 'w \<Rightarrow> bool" where
  "quiet s s' =
     (essences (fst s') = essences (fst s) \<and>
      (fine (snd s) \<longrightarrow> fine (snd s') \<and> (\<forall>p. holds p (snd s) \<longrightarrow> holds p (snd s'))))"

lemma quiet_same [simp]: "quiet s s"
  by (simp add: quiet_def)

lemma quiet_trans: "quiet s t \<Longrightarrow> quiet t u \<Longrightarrow> quiet s u"
  by (simp add: quiet_def)

lemma quiet_step: "quiet s t \<Longrightarrow> step_of i t u \<Longrightarrow> step_of i s u"
  by (auto simp: quiet_def step_of_def)

lemma quiet_is_step: "quiet s t \<Longrightarrow> step_of i s t"
  by (simp add: quiet_def step_of_def)

lemma flush_quiet: "quiet (c, w) (snd (os_flush os (c, w)))"
  by (simp add: quiet_def flush_rows flush_holds flush_fine)

lemma flush_rows_quiet: "essences c' = essences c \<Longrightarrow> quiet (c, w) (snd (os_flush os (c', w)))"
  by (simp add: quiet_def flush_rows flush_holds flush_fine)

lemma request_quiet: "quiet (c, w) (snd (os_request os p (c, w)))"
  by (simp add: quiet_def request_rows request_holds request_fine)

lemma committed_quiet: "essences c' = essences c \<Longrightarrow> quiet (c, w) (snd (committed os a (c', w)))"
  using flush_rows_quiet by (simp add: committed_def split_beta)

lemma failure_quiet: "quiet s (snd (recordSendFailure os i f s))"
proof -
  obtain c w where s: "s = (c, w)" by fastforce
  show ?thesis
    by (auto simp: s recordSendFailure_def Let_def essence_simps intro!: flush_rows_quiet split: option.splits)
qed

lemma reply_quiet:
  "essences (snd (prepareOutboxReply os i c)) = essences c"
  "fst (prepareOutboxReply os i c) = Inr i' \<Longrightarrow> essence i' = essence i \<and> snd (prepareOutboxReply os i c) = c"
  by (auto simp: prepareOutboxReply_def Let_def essence_simps essence_resolved split: option.splits)

text \<open>A row of the outbox replaced by one of the same essence.\<close>

lemma replaced_essences:
  assumes "good_rows (cl_outbox c)" and "i \<in> set (cl_outbox c)" and "essence i' = essence i"
  shows "map essence (map_row (ob_message i) (\<lambda>_. i') (cl_outbox c)) = essences c"
  using assms good_same [OF assms(1,2)] by (fastforce simp: map_row_def)

lemma prepare_quiet:
  assumes "good_rows (cl_outbox c)" and "i \<in> set (cl_outbox c)"
  shows "quiet (c, w) (snd (prepareOutboxSend os i (c, w)))"
    and "fst (prepareOutboxSend os i (c, w)) = Inr (Inr i') \<Longrightarrow> essence i' = essence i"
proof -
  obtain a c1 where r: "prepareOutboxReply os i c = (a, c1)" by fastforce
  have c1: "essences c1 = essences c" using reply_quiet(1) [of i c] r by simp
  have ready: "essence i' = essence i \<and> c1 = c" if "a = Inr i'" for i' using reply_quiet(2) [of i c i'] r that by simp
  show "quiet (c, w) (snd (prepareOutboxSend os i (c, w)))"
  proof (cases a)
    case (Inl st)
    then show ?thesis using r c1
      by (auto simp: prepareOutboxSend_def intro!: committed_quiet) (simp_all add: quiet_def)
  next
    case (Inr i')
    then show ?thesis using r ready [OF Inr] replaced_essences [OF assms]
      by (auto simp: prepareOutboxSend_def intro!: committed_quiet)
  qed
  show "essence i' = essence i" if "fst (prepareOutboxSend os i (c, w)) = Inr (Inr i')"
    using that r ready by (auto simp: prepareOutboxSend_def committed_def split: if_splits sum.splits prod.splits)
qed

lemma step_quiet: "step_of i s t \<Longrightarrow> quiet t u \<Longrightarrow> step_of i s u"
  by (auto simp: quiet_def step_of_def held_def)

lemma confirm_step:
  assumes "fine w \<Longrightarrow> held i w"
  shows "step_of i (c, w) (snd (confirmOutboxSend os i m (c, w)))"
proof -
  have step: "step_of i (c, w) (snd (os_flush os (c', w)))"
    if "essences c' = filter (\<lambda>j. ob_message j \<noteq> ob_message i) (essences c)" for c'
    using that assms by (auto simp: step_of_def held_def flush_rows flush_holds flush_fine)
  have "step_of i (c, w) (snd (case os_flush os (c', w) of
      (ok, s) \<Rightarrow> if ok then (Sent, s) else recordSendFailure os i (os_storage_error os) s))"
    if "essences c' = filter (\<lambda>j. ob_message j \<noteq> ob_message i) (essences c)" for c'
    using step [OF that] step_quiet [OF step [OF that] failure_quiet] by (simp add: split_beta)
  then show ?thesis
    by (auto simp: confirmOutboxSend_def Let_def essence_without essence_simps intro: quiet_is_step split: option.splits)
qed

lemma uploaded_step:
  assumes "plain_row i"
  shows "step_of i s (snd (send_uploaded os i s))"
proof -
  obtain c w where s: "s = (c, w)" by fastforce
  have mock: "\<not> ob_mock i" using assms by (simp add: plain_row_def)
  show ?thesis
  proof (cases "\<not> os_connected os w \<or> \<not> (\<exists>r \<in> set (cl_outbox c). ob_message r = ob_message i \<and> \<not> ob_discarded r)")
    case True
    then show ?thesis by (auto simp: s send_uploaded_def intro: quiet_is_step)
  next
    case on: False
    show ?thesis
    proof (cases "outboxSendPayload i")
      case (Inl msg)
      then have "snd (send_uploaded os i s) = snd (recordSendFailure os i (plain_failure msg) (c, w))"
        using on mock by (auto simp: s send_uploaded_def emit_row_def)
      then show ?thesis using failure_quiet by (simp add: s quiet_is_step)
    next
      case (Inr p)
      obtain a c1 w1 where rq: "os_request os p (c, w) = (a, c1, w1)" by (metis prod_cases3)
      have q: "quiet s (c1, w1)" using request_quiet [of c w p] rq by (simp add: s)
      show ?thesis
      proof (cases a)
        case (Inl f)
        then have "snd (send_uploaded os i s) = snd (recordSendFailure os i f (c1, w1))"
          using on mock Inr rq by (auto simp: s send_uploaded_def emit_row_def)
        then show ?thesis using quiet_trans [OF q failure_quiet] by (simp add: quiet_is_step)
      next
        case ack: (Inr m)
        have same: "snd (send_uploaded os i s) = snd (confirmOutboxSend os i m (c1, w1))"
          using on mock Inr rq ack by (auto simp: s send_uploaded_def emit_row_def)
        show ?thesis
        proof (cases "fine w")
          case True
          then have "held i w1"
            using request_acked [of w p c m] rq ack payload_essence [OF Inr] by (auto simp: held_def)
          then show ?thesis using quiet_step [OF q confirm_step] same by simp
        qed (simp add: s step_of_def)
      qed
    qed
  qed
qed

lemma step_cong:
  assumes "essence i = essence j" and "step_of i s s'"
  shows "step_of j s s'"
  using assms essence_fieldD(1) [OF assms(1)] by (simp add: step_of_def held_def)

lemma latest_step:
  assumes "good_rows (cl_outbox c)" and "i \<in> set (cl_outbox c)"
  shows "step_of i (c, w) (snd (send_latest os i (c, w)))"
proof -
  have plain: "plain_row i" using assms by (simp add: good_rows_def)
  obtain a s1 where p: "prepareOutboxSend os i (c, w) = (a, s1)" by (rule prod.exhaust)
  have q: "quiet (c, w) s1" using prepare_quiet(1) [OF assms, of w] p by simp
  have "step_of i (c, w) (snd (case a of Inl f \<Rightarrow> recordSendFailure os i f s1 | Inr (Inl st) \<Rightarrow> (st, s1)
      | Inr (Inr i') \<Rightarrow> send_prepared os i' s1))"
  proof (cases a)
    case (Inl f)
    then show ?thesis using quiet_trans [OF q failure_quiet] by (simp add: quiet_is_step)
  next
    case (Inr b)
    show ?thesis
    proof (cases b)
      case (Inl st)
      then show ?thesis using Inr q by (simp add: quiet_is_step)
    next
      case ready: (Inr i')
      have e: "essence i' = essence i" using prepare_quiet(2) [OF assms, of w i'] p Inr ready by simp
      have plain': "plain_row i'" using plain essence_fieldD [OF e] by (simp add: plain_row_def)
      have "step_of i' s1 (snd (send_prepared os i' s1))"
        using uploaded_step [OF plain'] plain'
        by (cases s1) (auto simp: send_prepared_def plain_row_def intro: quiet_is_step)
      then show ?thesis using quiet_step [OF q] step_cong [OF e] Inr ready by simp
    qed
  qed
  then show ?thesis
    using plain p by (auto simp: send_latest_def plain_row_def quiet_is_step split: sum.splits)
qed

text \<open>A message that was queued is still queued, or held.\<close>

definition accounted :: "outbox_item \<Rightarrow> client \<times> 'w \<Rightarrow> bool" where
  "accounted r s = (fine (snd s) \<and> good_rows (cl_outbox (fst s)) \<and> (essence r \<in> set (essences (fst s)) \<or> held r (snd s)))"

lemma quiet_accounts:
  assumes "quiet s s'" and "accounted r s"
  shows "accounted r s'"
proof -
  have "good_rows (cl_outbox (fst s'))" using assms by (metis quiet_def accounted_def good_essences)
  then show ?thesis using assms by (auto simp: quiet_def accounted_def held_def)
qed

lemma step_accounts:
  assumes "step_of j s s'" and "j \<in> set (cl_outbox (fst s))" and "accounted r s"
  shows "accounted r s'"
proof (cases "essences (fst s') = essences (fst s)")
  case True
  then have "quiet s s'" using assms(1) by (auto simp: step_of_def quiet_def)
  then show ?thesis using assms(3) by (rule quiet_accounts)
next
  case False
  moreover have "fine (snd s)" using assms(3) by (simp add: accounted_def)
  ultimately have ok: "fine (snd s')" and gone: "essences (fst s') = filter (\<lambda>k. ob_message k \<noteq> ob_message j) (essences (fst s))" "held j (snd s')"
    and mono: "\<forall>p. holds p (snd s) \<longrightarrow> holds p (snd s')" using assms(1) by (auto simp: step_of_def)
  have g: "good_rows (cl_outbox (fst s))" using assms(3) by (simp add: accounted_def)
  have "good_rows (essences (fst s'))" unfolding gone(1) using g by (simp add: good_rows_filter good_essences)
  then have good: "good_rows (cl_outbox (fst s'))" by (simp only: good_essences)
  have "essence r \<in> set (essences (fst s')) \<or> held r (snd s')"
  proof (cases "held r (snd s)")
    case True
    then show ?thesis using mono by (auto simp: held_def)
  next
    case False
    then obtain k where k: "k \<in> set (cl_outbox (fst s))" "essence r = essence k"
      using assms(3) by (auto simp: accounted_def)
    show ?thesis
    proof (cases "ob_message k = ob_message j")
      case True
      then have "k = j" using good_same [OF g k(1) assms(2)] by simp
      then show ?thesis using gone(2) k(2) by (simp add: held_def)
    next
      case False
      then show ?thesis using gone(1) k by auto
    qed
  qed
  then show ?thesis using good ok by (simp add: accounted_def)
qed

lemma send_accounts:
  assumes "accounted r s"
  shows "accounted r (snd (sendOutboxItem os i s))"
proof -
  obtain c w where s: "s = (c, w)" by (rule prod.exhaust)
  obtain b c1 w1 where f: "os_flush os (c, w) = (b, c1, w1)" by (metis prod_cases3)
  have "quiet s (c1, w1)" using flush_quiet [of c w] f s by simp
  then have acc: "accounted r (c1, w1)" using assms by (rule quiet_accounts)
  then have g: "good_rows (cl_outbox c1)" by (simp add: accounted_def)
  show ?thesis
  proof (cases "queued_row c1 (ob_message i)")
    case None
    then show ?thesis using f acc assms s by (cases b) (auto simp: sendOutboxItem_def)
  next
    case (Some j)
    then have j: "j \<in> set (cl_outbox c1)" using find_SomeD [OF Some [unfolded queued_row_def]] by simp
    have "accounted r (snd (send_latest os j (c1, w1)))"
      by (rule step_accounts [OF latest_step [OF g j] _ acc]) (simp add: j)
    then show ?thesis using f acc assms Some s by (cases b) (auto simp: sendOutboxItem_def)
  qed
qed

lemma rows_account:
  assumes "accounted r s"
  shows "accounted r (snd (drain_rows clock (sendOutboxItem os) queue W b s))"
  using assms
proof (induction queue arbitrary: W b s)
  case (Cons i queue)
  have "accounted r (snd (sendOutboxItem os i s))" using Cons.prems by (rule send_accounts)
  then show ?case using Cons.IH Cons.prems by (simp add: split_beta)
qed simp

lemma drain_accounts: "accounted r s \<Longrightarrow> accounted r (drainOutbox os s)"
  by (cases s) (simp add: drainOutbox_def drainQueuedMessages_def Let_def rows_account)

lemma drains_account: "accounted r s \<Longrightarrow> accounted r ((drainOutbox os ^^ n) s)"
  by (induction n) (simp_all add: drain_accounts)

end

end
