(* ===== verification/MessageSending.thy ===== *)
theory MessageSending
  imports MessageWire Messages GroupMessages Security SignalingHandlers
begin

text \<open>
  The chat handlers of the server (\<open>server/src/signaling/messageHandlers/\<close>: \<open>send.ts\<close>,
  \<open>validation.ts\<close>, \<open>delivery.ts\<close>, \<open>index.ts\<close>) on one instance with the in-process stores, whose
  operations do not fail. The caches, the telemetry and the bytes of an attachment are left out; the check of an
  attachment and the emoji test are arguments. A refusal carries its code; its text is left out.
\<close>

section \<open>State\<close>

datatype chat_event =
    Chat_Received message
  | Chat_Delivered message
  | Chat_Deleted string string string message           \<comment> \<open>conversation, message, by\<close>
  | Chat_Reaction string string reactions string string react
  | Chat_Typing string string bool

record chat_server =
  cs_messages :: message_store
  cs_groups :: group_store
  cs_presence :: stores
  cs_privacy :: privacy
  cs_limits :: buckets
  cs_audit :: "audit_entry list"
  cs_events :: "(string \<times> chat_event) list"
  cs_pushes :: "(channel \<times> message \<times> string option) list"

text \<open>
  The clock, the id \<open>randomUUID\<close> would mint, the verdict of the shared limiter, what is stored for an
  attachment of a type (\<open>None\<close>: refused), and which texts are emoji.
\<close>

record chat_env =
  ce_now :: int
  ce_uuid :: string
  ce_group :: genv
  ce_max_push :: int
  ce_limit :: "int \<times> int"
  ce_security :: "limit_result option option"
  ce_attachment :: "string \<Rightarrow> attachment \<Rightarrow> string option"
  ce_emoji :: "string \<Rightarrow> bool"

datatype 'a answer = Answered 'a | Rejected string

section \<open>Validation\<close>

definition MAX_MESSAGE_BODY_LENGTH :: nat where "MAX_MESSAGE_BODY_LENGTH = 4000"

definition isAttachmentMessageType :: "string \<Rightarrow> bool" where
  "isAttachmentMessageType t = (t \<in> set [''image'', ''file'', ''voice''])"

definition validateBody :: "string \<Rightarrow> bool \<Rightarrow> string option" where
  "validateBody body allowEmpty =
     (let trimmed = trim body
      in if trimmed = [] \<and> \<not> allowEmpty then None
         else if MAX_MESSAGE_BODY_LENGTH < length trimmed then None else Some trimmed)"

definition validateMessageType :: "string option \<Rightarrow> string option" where
  "validateMessageType v =
     (case v of
        None \<Rightarrow> Some DEFAULT_MESSAGE_TYPE
      | Some t \<Rightarrow> if \<not> isSupportedMessageType (Some t) \<or> t = ''system'' then None else Some t)"

text \<open>\<open>/^[A-Za-z0-9_-]{1,128}$/\<close> and the pattern of a UUID.\<close>

definition url_safe_char :: "char \<Rightarrow> bool" where "url_safe_char ch = (word_char ch \<or> ch = CHR ''-'')"

definition parseClientMessageId :: "string option \<Rightarrow> string option" where
  "parseClientMessageId v =
     (case normaliseId v of
        None \<Rightarrow> None
      | Some x \<Rightarrow> if length x \<le> 128 \<and> list_all url_safe_char x then Some x else None)"

definition hex_char :: "char \<Rightarrow> bool" where
  "hex_char ch = (let n = of_char ch :: nat in (48 \<le> n \<and> n \<le> 57) \<or> (97 \<le> n \<and> n \<le> 102) \<or> (65 \<le> n \<and> n \<le> 70))"

definition is_uuid :: "string \<Rightarrow> bool" where
  "is_uuid s =
     list_all2 (\<lambda>p ch. if p = CHR ''-'' then ch = CHR ''-'' else hex_char ch) ''xxxxxxxx-xxxx-xxxx-xxxx-xxxxxxxxxxxx'' s"

text \<open>The key of a retry: the client's id, or the id of an older client.\<close>

definition validateOptionalMessageId :: "send_payload \<Rightarrow> (string option \<times> string option) option" where
  "validateOptionalMessageId p =
     (case sp_client p of
        Some k \<Rightarrow> if is_uuid k then Some (Some (map lower_char k), None) else None
      | None \<Rightarrow> (case sp_message p of
          None \<Rightarrow> Some (None, None)
        | Some mid \<Rightarrow> (case parseClientMessageId (Some mid) of None \<Rightarrow> None | Some x \<Rightarrow> Some (None, Some x))))"

record validated =
  va_recipient :: string
  va_type :: string
  va_body :: string
  va_attachment :: "string option"
  va_reply :: "string option"
  va_client :: "string option"
  va_legacy :: "string option"

text \<open>The verdict on an attachment: \<open>None\<close> refuses it.\<close>

definition validateAttachmentPayload :: "chat_env \<Rightarrow> string \<Rightarrow> attachment option \<Rightarrow> string option option" where
  "validateAttachmentPayload e ty a =
     (if \<not> isAttachmentMessageType ty then (if a = None then Some None else None)
      else (case a of None \<Rightarrow> None | Some x \<Rightarrow> map_option Some (ce_attachment e ty x)))"

definition validateReplyTo :: "string option \<Rightarrow> string option option" where
  "validateReplyTo v = (case v of None \<Rightarrow> Some None | Some _ \<Rightarrow> map_option Some (parseClientMessageId v))"

definition validateMessagePayload :: "chat_env \<Rightarrow> string \<Rightarrow> send_payload \<Rightarrow> validated option" where
  "validateMessagePayload e sender p =
     (let recipient = (case normaliseId (sp_conversation p) of
            Some c \<Rightarrow> Some c
          | None \<Rightarrow> (case normaliseId (sp_recipient p) of
              Some r \<Rightarrow> if r = sender then None else Some r | None \<Rightarrow> None))
      in Option.bind recipient (\<lambda>r.
         Option.bind (validateMessageType (sp_type p)) (\<lambda>ty.
         Option.bind (validateBody (sp_body p) (isAttachmentMessageType ty)) (\<lambda>body.
         Option.bind (validateAttachmentPayload e ty (sp_attachment p)) (\<lambda>att.
         Option.bind (validateReplyTo (sp_reply p)) (\<lambda>reply.
         Option.bind (validateOptionalMessageId p) (\<lambda>(client, legacy).
           Some \<lparr>va_recipient = r, va_type = ty, va_body = body, va_attachment = att, va_reply = reply,
                 va_client = client, va_legacy = legacy\<rparr>)))))))"

section \<open>The target of a message\<close>

text \<open>A group target carries the name of the group.\<close>

record target =
  tg_conversation :: string
  tg_recipient :: string
  tg_recipients :: "string list"
  tg_group :: "string option"

definition resolveMessageTarget :: "group_store \<Rightarrow> string \<Rightarrow> string \<Rightarrow> string option \<Rightarrow> target option" where
  "resolveMessageTarget gst sender recipient conversation =
     (case conversation of
        Some cid \<Rightarrow>
          if CHR '':'' \<notin> set cid
          then (case get_group cid (Some sender) gst of
                  Inr (Some sn) \<Rightarrow> Some \<lparr>tg_conversation = cid, tg_recipient = cid,
                      tg_recipients = filter (\<lambda>u. u \<noteq> sender) (sn_members sn), tg_group = Some (gr_name (sn_group sn))\<rparr>
                | _ \<Rightarrow> None)
          else
            (let parts = split_on (CHR '':'') cid;
                 r = (case find (\<lambda>u. u \<noteq> sender) parts of Some x \<Rightarrow> x | None \<Rightarrow> [])
             in if length parts \<noteq> 2 \<or> sender \<notin> set parts \<or> r = [] \<or> deriveConversationId sender r \<noteq> cid then None
                else Some \<lparr>tg_conversation = cid, tg_recipient = r, tg_recipients = [r], tg_group = None\<rparr>)
      | None \<Rightarrow> Some \<lparr>tg_conversation = deriveConversationId sender recipient, tg_recipient = recipient,
                      tg_recipients = [recipient], tg_group = None\<rparr>)"

section \<open>Acceptance\<close>

text \<open>The shape of a full record as the input of the store.\<close>

definition as_input :: "message \<Rightarrow> new_message" where
  "as_input m =
     \<lparr>n_id = Some (m_id m), n_client = m_client m, n_conv = Some (m_conv m), n_sender = m_sender m,
      n_recipient = m_recipient m, n_body = m_body m, n_type = Some (m_type m), n_attachment = m_attachment m,
      n_reply = m_reply m, n_reactions = m_reactions m, n_deleted = m_deleted m, n_created = Some (m_created m),
      n_delivered = Some (m_delivered m), n_read = m_read m\<rparr>"

definition as_group_row :: "message \<Rightarrow> gmessage" where
  "as_group_row m = message.extend m \<lparr>m_read_by = []\<rparr>"

text \<open>
  Whether a stored row and an accepted send are one message. An attachment is compared as a whole: the fields
  \<open>differingAttachmentField\<close> compares are all it has.
\<close>

definition differingAcceptedSendField :: "message \<Rightarrow> message \<Rightarrow> string option" where
  "differingAcceptedSendField a b =
     (if m_sender a \<noteq> m_sender b then Some ''senderId''
      else if m_recipient a \<noteq> m_recipient b then Some ''recipientId''
      else if m_conv a \<noteq> m_conv b then Some ''conversationId''
      else if m_deleted a \<noteq> None \<and> str_truthy (m_client a) \<and> m_client a = m_client b
      then (if m_type a \<noteq> m_type b then Some ''type'' else if m_reply a \<noteq> m_reply b then Some ''replyTo'' else None)
      else if m_body a \<noteq> m_body b then Some ''body''
      else if m_type a \<noteq> m_type b then Some ''type''
      else if m_reply a \<noteq> m_reply b then Some ''replyTo''
      else if m_attachment a \<noteq> m_attachment b then Some ''attachment'' else None)"

definition put_messages :: "message_store \<Rightarrow> chat_server \<Rightarrow> chat_server" where
  "put_messages st cs = cs\<lparr>cs_messages := st\<rparr>"

definition put_groups :: "group_store \<Rightarrow> chat_server \<Rightarrow> chat_server" where
  "put_groups st cs = cs\<lparr>cs_groups := st\<rparr>"

definition emit :: "string \<Rightarrow> chat_event \<Rightarrow> chat_server \<Rightarrow> chat_server" where
  "emit u ev cs = cs\<lparr>cs_events := cs_events cs @ [(u, ev)]\<rparr>"

definition online :: "chat_server \<Rightarrow> string \<Rightarrow> bool" where
  "online cs u = (connections_of (cs_presence cs) u \<noteq> [])"

text \<open>\<open>saveTargetMessage\<close>: the stored row, whether it is new, and the recipients.\<close>

definition saveTargetMessage ::
  "chat_env \<Rightarrow> message \<Rightarrow> target \<Rightarrow> chat_server \<Rightarrow> (message \<times> bool \<times> string list) option \<times> chat_server" where
  "saveTargetMessage e m tg cs =
     (if tg_group tg \<noteq> None
      then (case saveGroupMessage (ce_group e) (as_group_row m) (cs_groups cs) of
              (Inl _, st) \<Rightarrow> (None, put_groups st cs)
            | (Inr (saved, us, inserted), st) \<Rightarrow>
                (Some (message.truncate saved, inserted, filter (\<lambda>u. u \<noteq> m_sender m) us), put_groups st cs))
      else (case saveMessageWithStatus (ce_now e) (ce_uuid e) (as_input m) (cs_messages cs) of
              ((saved, inserted), st) \<Rightarrow> (Some (saved, inserted, tg_recipients tg), put_messages st cs)))"

text \<open>
  \<open>persistAcceptedMessage\<close>: \<open>Inl\<close> is the code of the refusal, that of a reused key depending on whether the
  key was explicit.
\<close>

definition persistAcceptedMessage ::
  "chat_env \<Rightarrow> message \<Rightarrow> bool \<Rightarrow> target \<Rightarrow> chat_server \<Rightarrow> (string + message \<times> bool \<times> string list) \<times> chat_server" where
  "persistAcceptedMessage e m recipientWasOnline tg cs =
     (case saveTargetMessage e m tg cs of
        (None, cs1) \<Rightarrow> (Inl ''forbidden'', cs1)
      | (Some (saved, inserted, us), cs1) \<Rightarrow>
          if differingAcceptedSendField saved m \<noteq> None
          then (Inl (if str_truthy (m_client m) \<or> tg_group tg \<noteq> None then ''bad_request'' else ''internal_error''), cs1)
          else (Inr (saved, inserted, us),
                if recipientWasOnline \<and> inserted \<and> tg_group tg = None
                then put_messages (enqueueDeliveryReceipt (m_id m) (m_recipient m) (cs_messages cs1)) cs1 else cs1))"

section \<open>Delivery\<close>

text \<open>\<open>mayDeliver\<close> of the fan-out, for an event that names a message or carries one.\<close>

definition may_deliver :: "group_store \<Rightarrow> string \<Rightarrow> message option \<Rightarrow> string option \<Rightarrow> string \<Rightarrow> bool" where
  "may_deliver gst cid m mid u =
     (case assertActiveGroupMember (getMember cid u gst) of
        Inl _ \<Rightarrow> False
      | Inr me \<Rightarrow>
          \<not> (case m of Some x \<Rightarrow> m_created x < gm_joined me | None \<Rightarrow> False) \<and>
          (case mid of None \<Rightarrow> True
           | Some i \<Rightarrow> str_truthy mid \<longrightarrow> (case getGroupMessage cid i u gst of Inr (Some _) \<Rightarrow> True | _ \<Rightarrow> False)))"

definition fanoutConversationEvent ::
  "string \<Rightarrow> message option \<Rightarrow> string option \<Rightarrow> chat_event \<Rightarrow> string list \<Rightarrow> chat_server \<Rightarrow> chat_server" where
  "fanoutConversationEvent cid m mid ev us cs =
     fold (\<lambda>u. emit u ev) (filter (\<lambda>u. u \<noteq> [] \<and> may_deliver (cs_groups cs) cid m mid u) (uniq us)) cs"

definition push_message :: "message \<Rightarrow> string option \<Rightarrow> channel \<Rightarrow> chat_server \<Rightarrow> chat_server" where
  "push_message m groupName ch cs = cs\<lparr>cs_pushes := cs_pushes cs @ [(ch, m, groupName)]\<rparr>"

definition notifyMember :: "chat_env \<Rightarrow> message \<Rightarrow> string list \<Rightarrow> string option \<Rightarrow> string \<Rightarrow> chat_server \<Rightarrow> chat_server" where
  "notifyMember e m onlineMembers groupName u cs =
     (let channels = resolveOfflinePushChannels (ce_max_push e) (cs_presence cs) u
      in if groupName = None then fold (push_message m None) channels cs
         else (case getGroupMessage (m_conv m) (m_id m) u (cs_groups cs) of
                 Inr (Some _) \<Rightarrow>
                   if u \<in> set onlineMembers
                   then put_groups (snd (markGroupDelivered (m_conv m) (m_id m) u (cs_groups cs))) cs
                   else if isBlockedAsync (cs_privacy cs) u (m_sender m) then cs
                   else fold (push_message m groupName) (take 1 channels) cs
               | _ \<Rightarrow> cs))"

definition deliverMessage :: "chat_env \<Rightarrow> message \<Rightarrow> string list \<Rightarrow> string option \<Rightarrow> chat_server \<Rightarrow> chat_server" where
  "deliverMessage e m us groupName cs =
     (let recipients = filter (\<lambda>u. u \<noteq> m_sender m) (uniq us);
          cs1 = (if groupName \<noteq> None
                 then fanoutConversationEvent (m_conv m) (Some m) None (Chat_Received m) recipients cs
                 else fold (\<lambda>u. emit u (Chat_Received m)) recipients cs);
          onlineMembers = (if groupName \<noteq> None then filter (online cs) recipients else [])
      in fold (notifyMember e m onlineMembers groupName) recipients cs1)"

section \<open>message.send\<close>

definition blocked_pair :: "chat_server \<Rightarrow> string \<Rightarrow> string \<Rightarrow> bool" where
  "blocked_pair cs a b = (isBlockedAsync (cs_privacy cs) b a \<or> isBlockedAsync (cs_privacy cs) a b)"

definition audit_blocked :: "chat_env \<Rightarrow> string \<Rightarrow> string \<Rightarrow> chat_server \<Rightarrow> chat_server" where
  "audit_blocked e sender recipient cs =
     cs\<lparr>cs_audit := audit \<lparr>au_id = ce_uuid e, au_time = ce_now e, au_event = ''message.blocked'', au_actor = Some sender,
        au_target = Some recipient, au_outcome = ''rejected'', au_details = ''via websocket''\<rparr> (cs_audit cs)\<rparr>"

text \<open>The record of an accepted send, stamped by the generator of the store's module.\<close>

definition accepted_record :: "chat_env \<Rightarrow> string \<Rightarrow> validated \<Rightarrow> target \<Rightarrow> chat_server \<Rightarrow> message \<times> chat_server" where
  "accepted_record e sender v tg cs =
     (let stamp = nextTimestamp (ce_now e) (last_ms (cs_messages cs))
      in (createMessageRecord (ce_uuid e) stamp
            \<lparr>n_id = va_legacy v, n_client = va_client v, n_conv = Some (tg_conversation tg), n_sender = sender,
             n_recipient = tg_recipient tg, n_body = va_body v, n_type = Some (va_type v),
             n_attachment = va_attachment v, n_reply = va_reply v, n_reactions = [], n_deleted = None,
             n_created = None, n_delivered = None, n_read = None\<rparr>,
          put_messages ((cs_messages cs)\<lparr>last_ms := stamp\<rparr>) cs))"

definition announce_sent :: "bool \<Rightarrow> target \<Rightarrow> message \<Rightarrow> string \<Rightarrow> chat_server \<Rightarrow> chat_server" where
  "announce_sent recipientWasOnline tg m sender cs =
     emit sender (Chat_Delivered (if recipientWasOnline \<and> tg_group tg = None
       then m\<lparr>m_delivered := uniq (m_delivered m @ [tg_recipient tg])\<rparr> else m)) cs"

definition handleMessageSend :: "chat_env \<Rightarrow> string \<Rightarrow> send_payload \<Rightarrow> chat_server \<Rightarrow> message answer \<times> chat_server" where
  "handleMessageSend e sender p cs =
     (case validateMessagePayload e sender p of
        None \<Rightarrow> (Rejected ''bad_request'', cs)
      | Some v \<Rightarrow>
          (case resolveMessageTarget (cs_groups cs) sender (va_recipient v) (normaliseId (sp_conversation p)) of
             None \<Rightarrow> (Rejected ''forbidden'', cs)
           | Some tg \<Rightarrow>
               if tg_group tg = None \<and> blocked_pair cs sender (tg_recipient tg)
               then (Rejected ''forbidden'', audit_blocked e sender (tg_recipient tg) cs)
               else
                 (let (m, cs1) = accepted_record e sender v tg cs; there = online cs (tg_recipient tg)
                  in case persistAcceptedMessage e m there tg cs1 of
                       (Inl code, cs2) \<Rightarrow> (Rejected code, cs2)
                     | (Inr (saved, inserted, us), cs2) \<Rightarrow>
                         (let cs3 = (if inserted then deliverMessage e saved us (tg_group tg) cs2 else cs2)
                          in (Answered saved, announce_sent there tg saved sender cs3)))))"

text \<open>The guards in front of every chat request: session, protocol version, allowance, schema.\<close>

definition chat_admitted :: "chat_env \<Rightarrow> socket_identity \<Rightarrow> 'p request \<Rightarrow> chat_server \<Rightarrow> (string + 'p) \<times> chat_server" where
  "chat_admitted e sk rq cs =
     (case guard_refusal sk rq of
        Some (Refused code _) \<Rightarrow> (Inl code, cs)
      | Some (Done _) \<Rightarrow> (Inl [], cs)
      | None \<Rightarrow>
          (case check_shared (fst (ce_limit e)) (snd (ce_limit e)) (ce_security e) (si_user sk) (ce_now e) (cs_limits cs) of
             (r, bs) \<Rightarrow>
               (if \<not> lr_allowed r then Inl ''rate_limited''
                else (case rq_parsed rq of Inl _ \<Rightarrow> Inl ''bad_request'' | Inr p \<Rightarrow> Inr p),
                cs\<lparr>cs_limits := bs\<rparr>)))"

definition on_message_send :: "chat_env \<Rightarrow> socket_identity \<Rightarrow> send_payload request \<Rightarrow> chat_server \<Rightarrow> message answer \<times> chat_server" where
  "on_message_send e sk rq cs =
     (case chat_admitted e sk rq cs of
        (Inl code, cs1) \<Rightarrow> (Rejected code, cs1)
      | (Inr p, cs1) \<Rightarrow> handleMessageSend e (si_user sk) p cs1)"

section \<open>message.delete\<close>

text \<open>An acknowledgement names the message and its conversation.\<close>

definition store_code :: "store_error \<Rightarrow> string" where
  "store_code x = (if x = Not_Member then ''forbidden'' else ''internal_error'')"

definition handleGroupMessageDelete ::
  "chat_env \<Rightarrow> string \<Rightarrow> string \<Rightarrow> string \<Rightarrow> chat_server \<Rightarrow> (string \<times> string) answer \<times> chat_server" where
  "handleGroupMessageDelete e u cid rawId cs =
     (case parseClientMessageId (Some rawId) of
        None \<Rightarrow> (Rejected ''bad_request'', cs)
      | Some mid \<Rightarrow>
          (case assertActiveGroupMember (getMember cid u (cs_groups cs)) of
             Inl x \<Rightarrow> (Rejected (store_code x), cs)
           | Inr _ \<Rightarrow>
               (case getGroupMessage cid mid u (cs_groups cs) of
                  Inl x \<Rightarrow> (Rejected (store_code x), cs)
                | Inr None \<Rightarrow> (Rejected ''not_found'', cs)
                | Inr (Some existing) \<Rightarrow>
                    if m_deleted existing \<noteq> None then (Rejected ''not_found'', cs)
                    else if m_sender existing \<noteq> u then (Rejected ''forbidden'', cs)
                    else (case deleteGroupMessage (ce_group e) cid mid u (cs_groups cs) of
                            (Inl x, st) \<Rightarrow> (Rejected (store_code x), put_groups st cs)
                          | (Inr None, st) \<Rightarrow> (Rejected ''not_found'', put_groups st cs)
                          | (Inr (Some (m, us)), st) \<Rightarrow>
                              (Answered (mid, cid),
                               fanoutConversationEvent cid (Some (message.truncate m)) (Some mid)
                                 (Chat_Deleted cid mid u (message.truncate m)) us (put_groups st cs))))))"

definition ensureCanDeleteMessage :: "message_store \<Rightarrow> string \<Rightarrow> string \<Rightarrow> string \<Rightarrow> string option" where
  "ensureCanDeleteMessage st u conv mid =
     (case getMessage conv mid st of
        None \<Rightarrow> Some ''not_found''
      | Some m \<Rightarrow> if m_deleted m \<noteq> None then Some ''not_found'' else if m_sender m \<noteq> u then Some ''forbidden'' else None)"

definition handleDirectDelete :: "chat_env \<Rightarrow> string \<Rightarrow> delete_payload \<Rightarrow> chat_server \<Rightarrow> (string \<times> string) answer \<times> chat_server" where
  "handleDirectDelete e u p cs =
     (case (normaliseId (dp_peer p), parseClientMessageId (Some (dp_message p))) of
        (Some peer, Some mid) \<Rightarrow>
          if peer = u then (Rejected ''bad_request'', cs)
          else
            (let conv = deriveConversationId u peer
             in case ensureCanDeleteMessage (cs_messages cs) u conv mid of
                  Some code \<Rightarrow> (Rejected code, cs)
                | None \<Rightarrow>
                    (case deleteMessage (ce_now e) conv mid u (cs_messages cs) of
                       (None, st) \<Rightarrow> (Rejected ''not_found'', put_messages st cs)
                     | (Some m, st) \<Rightarrow>
                         (Answered (mid, conv),
                          emit u (Chat_Deleted conv mid u m) (emit peer (Chat_Deleted conv mid u m) (put_messages st cs)))))
      | _ \<Rightarrow> (Rejected ''bad_request'', cs))"

definition on_message_delete ::
  "chat_env \<Rightarrow> socket_identity \<Rightarrow> delete_payload request \<Rightarrow> chat_server \<Rightarrow> (string \<times> string) answer \<times> chat_server" where
  "on_message_delete e sk rq cs =
     (case chat_admitted e sk rq cs of
        (Inl code, cs1) \<Rightarrow> (Rejected code, cs1)
      | (Inr p, cs1) \<Rightarrow>
          (case normaliseId (dp_conversation p) of
             Some cid \<Rightarrow> handleGroupMessageDelete e (si_user sk) cid (dp_message p) cs1
           | None \<Rightarrow> handleDirectDelete e (si_user sk) p cs1))"

section \<open>message.react\<close>

definition MAX_REACTION_LENGTH :: nat where "MAX_REACTION_LENGTH = 16"

definition validateReactionEmoji :: "chat_env \<Rightarrow> string \<Rightarrow> string option" where
  "validateReactionEmoji e v =
     (let t = trim v in if t = [] \<or> MAX_REACTION_LENGTH < length t then None else if ce_emoji e t then Some t else None)"

definition handleGroupMessageReaction ::
  "chat_env \<Rightarrow> string \<Rightarrow> string \<Rightarrow> react react_payload \<Rightarrow> chat_server \<Rightarrow> reactions answer \<times> chat_server" where
  "handleGroupMessageReaction e u cid p cs =
     (case (parseClientMessageId (Some (rx_message p)), validateReactionEmoji e (rx_emoji p)) of
        (Some mid, Some em) \<Rightarrow>
          (case assertActiveGroupMember (getMember cid u (cs_groups cs)) of
             Inl x \<Rightarrow> (Rejected (store_code x), cs)
           | Inr _ \<Rightarrow>
               (case reactToGroupMessage (ce_group e) cid mid u em (rx_action p) (cs_groups cs) of
                  (Inl x, st) \<Rightarrow> (Rejected (store_code x), put_groups st cs)
                | (Inr None, st) \<Rightarrow> (Rejected ''not_found'', put_groups st cs)
                | (Inr (Some (m, us)), st) \<Rightarrow>
                    (Answered (m_reactions m),
                     fanoutConversationEvent cid None (Some mid)
                       (Chat_Reaction cid mid (m_reactions m) u em (rx_action p)) us (put_groups st cs))))
      | _ \<Rightarrow> (Rejected ''bad_request'', cs))"

definition handleDirectReaction ::
  "chat_env \<Rightarrow> string \<Rightarrow> react react_payload \<Rightarrow> chat_server \<Rightarrow> reactions answer \<times> chat_server" where
  "handleDirectReaction e u p cs =
     (case (normaliseId (rx_peer p), parseClientMessageId (Some (rx_message p)), validateReactionEmoji e (rx_emoji p)) of
        (Some peer, Some mid, Some em) \<Rightarrow>
          if peer = u then (Rejected ''bad_request'', cs)
          else if blocked_pair cs u peer then (Rejected ''forbidden'', cs)
          else
            (let conv = deriveConversationId u peer
             in case reactToMessage (ce_now e) conv mid u em (rx_action p) (cs_messages cs) of
                  (None, st) \<Rightarrow> (Rejected ''not_found'', put_messages st cs)
                | (Some m, st) \<Rightarrow>
                    (let ev = Chat_Reaction conv mid (m_reactions m) u em (rx_action p)
                     in (Answered (m_reactions m), emit u ev (emit peer ev (put_messages st cs)))))
      | _ \<Rightarrow> (Rejected ''bad_request'', cs))"

definition on_message_react ::
  "chat_env \<Rightarrow> socket_identity \<Rightarrow> react react_payload request \<Rightarrow> chat_server \<Rightarrow> reactions answer \<times> chat_server" where
  "on_message_react e sk rq cs =
     (case chat_admitted e sk rq cs of
        (Inl code, cs1) \<Rightarrow> (Rejected code, cs1)
      | (Inr p, cs1) \<Rightarrow>
          (case normaliseId (rx_conversation p) of
             Some cid \<Rightarrow> handleGroupMessageReaction e (si_user sk) cid p cs1
           | None \<Rightarrow> handleDirectReaction e (si_user sk) p cs1))"

section \<open>message.typing\<close>

text \<open>Neither acknowledged nor limited; a payload that is refused changes nothing.\<close>

definition on_message_typing :: "socket_identity \<Rightarrow> typing_payload request \<Rightarrow> chat_server \<Rightarrow> chat_server" where
  "on_message_typing sk rq cs =
     (if guard_refusal sk rq \<noteq> None then cs
      else (case rq_parsed rq of
              Inl _ \<Rightarrow> cs
            | Inr p \<Rightarrow>
                (let u = si_user sk
                 in case normaliseId (ty_conversation p) of
                      Some cid \<Rightarrow>
                        (case assertActiveGroupMember (getMember cid u (cs_groups cs)) of
                           Inl _ \<Rightarrow> cs
                         | Inr _ \<Rightarrow> fanoutConversationEvent cid None None (Chat_Typing cid u (ty_typing p))
                             (filter (\<lambda>v. v \<noteq> u) (map gm_user (listMembers cid (cs_groups cs)))) cs)
                    | None \<Rightarrow>
                        (case normaliseId (ty_recipient p) of
                           None \<Rightarrow> cs
                         | Some r \<Rightarrow> if r = u then cs
                             else emit r (Chat_Typing (deriveConversationId u r) u (ty_typing p)) cs))))"

end
