(* ===== verification/MessageSendingProperties.thy ===== *)
theory MessageSendingProperties
  imports MessageSending MessageHistory
begin

text \<open>
  What a chat request does to the stored messages: rows are never lost, an answered send is stored, and a
  refused or blocked one leaves no trace for the other side.
\<close>

section \<open>Rows persist\<close>

text \<open>A row as it may be found later: the same message, or its tombstone.\<close>

definition grown :: "message \<Rightarrow> message \<Rightarrow> bool" where
  "grown m m' =
     (m_id m' = m_id m \<and> m_conv m' = m_conv m \<and> m_sender m' = m_sender m \<and> m_recipient m' = m_recipient m \<and>
      m_client m' = m_client m \<and> m_type m' = m_type m \<and> m_reply m' = m_reply m \<and>
      (m_deleted m' \<noteq> None \<or> (m_deleted m = None \<and> m_body m' = m_body m \<and> m_attachment m' = m_attachment m)))"

definition persists :: "message_store \<Rightarrow> message_store \<Rightarrow> bool" where
  "persists st st' = (\<forall>m \<in> set (msgs st). \<exists>m' \<in> set (msgs st'). grown m m')"

lemma grown_refl [simp]: "grown m m"
  by (auto simp: grown_def)

lemma grown_trans: "grown a b \<Longrightarrow> grown b c \<Longrightarrow> grown a c"
  by (auto simp: grown_def)

lemma persists_refl [simp]: "persists st st"
  unfolding persists_def using grown_refl by blast

lemma persists_trans: "persists a b \<Longrightarrow> persists b c \<Longrightarrow> persists a c"
  unfolding persists_def by (meson grown_trans)

lemma persists_append: "msgs st' = msgs st @ ms \<Longrightarrow> persists st st'"
  unfolding persists_def using grown_refl by fastforce

lemma persists_same: "msgs st' = msgs st \<Longrightarrow> persists st st'"
  unfolding persists_def using grown_refl by fastforce

lemma persists_map:
  assumes "msgs st' = map f (msgs st)" and "\<And>m. grown m (f m)"
  shows "persists st st'"
  using assms by (auto simp: persists_def)

lemma persists_update:
  assumes "msgs st' = update_first P f (msgs st)" and "\<And>m. P m \<Longrightarrow> grown m (f m)"
  shows "persists st st'"
proof -
  have "\<exists>m' \<in> set (update_first P f ms). grown m m'" if "m \<in> set ms" for m ms
    using that
  proof (induction ms)
    case (Cons x ms)
    show ?case
    proof (cases "m = x")
      case True
      then show ?thesis using assms(2) [of x] grown_refl [of x] by auto
    next
      case False
      then have m: "m \<in> set ms" using Cons.prems by simp
      show ?thesis
      proof (cases "P x")
        case True
        show ?thesis by (rule bexI [of _ m]) (simp_all add: True m)
      qed (use Cons.IH m in simp)
    qed
  qed simp
  then show ?thesis using assms(1) by (simp add: persists_def)
qed

lemma grown_delivery: "grown m (with_delivery u m)"
  by (simp add: grown_def with_delivery_def) (cases "m_deleted m"; simp)

lemma save_persists: "persists st (snd (saveMessageWithStatus clock fresh n st))"
  by (rule persists_append [where ms = "case find (same_message (createMessageRecord fresh (nextTimestamp clock (last_ms st)) n)) (msgs st) of
        Some _ \<Rightarrow> [] | None \<Rightarrow> [createMessageRecord fresh (nextTimestamp clock (last_ms st)) n]"])
    (simp add: saved_rows split: option.splits)

lemma receipt_persists: "persists st (enqueueDeliveryReceipt mid u st)"
  by (rule persists_update [where P = "\<lambda>m. m_id m = mid" and f = "with_delivery u"])
    (simp_all add: enqueueDeliveryReceipt_def grown_delivery)

lemma delivered_persists: "persists st (snd (markDelivered mid u st))"
  by (rule persists_update [where P = "\<lambda>m. m_id m = mid" and f = "with_delivery u"])
    (simp_all add: markDelivered_def Let_def grown_delivery)

lemma delete_persists: "persists st (snd (deleteMessage clock conv mid u st))"
proof (cases "find (deletable conv mid u) (msgs st)")
  case (Some m)
  then show ?thesis
    by (intro persists_update [where P = "deletable conv mid u" and f = "applyTombstone (nextTimestamp clock (last_ms st))"])
      (simp_all add: deleteMessage_def Let_def grown_def applyTombstone_def)
qed (simp add: deleteMessage_def)

lemma react_persists: "persists st (snd (reactToMessage clock conv mid u em act st))"
proof (cases "find (reactable conv mid) (msgs st)")
  case (Some m)
  let ?rs = "applyReaction em u act (m_reactions m)"
  show ?thesis
  proof (cases "?rs = m_reactions m")
    case False
    then show ?thesis using Some
      by (intro persists_update [where P = "reactable conv mid" and f = "\<lambda>m. m\<lparr>m_reactions := ?rs\<rparr>"])
        (simp_all add: reactToMessage_def Let_def grown_def reactable_def)
  qed (simp add: reactToMessage_def Some)
qed (simp add: reactToMessage_def)

text \<open>Every operation of the store but closing it.\<close>

lemma run_persists: "op \<noteq> Close \<Longrightarrow> persists st (run_message op st)"
proof (cases op)
  case (Read clock conv u)
  show ?thesis
    by (rule persists_map [where f = "\<lambda>m. if unread_in conv u m then read_row u (nextTimestamp clock (last_ms st)) m else m"])
      (auto simp: Read markRead_effect(2) grown_def with_delivery_def)
qed (simp_all add: save_persists receipt_persists delivered_persists delete_persists react_persists)

section \<open>The handler and the store\<close>

lemma emit_fields [simp]:
  "cs_messages (emit u ev cs) = cs_messages cs" "cs_groups (emit u ev cs) = cs_groups cs" "cs_privacy (emit u ev cs) = cs_privacy cs"
  "cs_presence (emit u ev cs) = cs_presence cs" "cs_pushes (emit u ev cs) = cs_pushes cs"
  "cs_events (emit u ev cs) = cs_events cs @ [(u, ev)]"
  by (simp_all add: emit_def)

lemma put_fields [simp]:
  "cs_messages (put_messages st cs) = st" "cs_messages (put_groups gst cs) = cs_messages cs"
  "cs_groups (put_groups gst cs) = gst" "cs_groups (put_messages st cs) = cs_groups cs"
  "cs_events (put_messages st cs) = cs_events cs" "cs_events (put_groups gst cs) = cs_events cs"
  "cs_pushes (put_messages st cs) = cs_pushes cs" "cs_pushes (put_groups gst cs) = cs_pushes cs"
  "cs_privacy (put_messages st cs) = cs_privacy cs" "cs_privacy (put_groups gst cs) = cs_privacy cs"
  by (simp_all add: put_messages_def put_groups_def)

lemma fold_keeps: "(\<And>x s. f (g x s) = f s) \<Longrightarrow> f (fold g xs s) = f s"
  by (induction xs arbitrary: s) simp_all

lemma fanout_messages [simp]: "cs_messages (fanoutConversationEvent cid m mid ev us cs) = cs_messages cs"
  by (simp add: fanoutConversationEvent_def fold_keeps)

lemma pushes_messages [simp]: "cs_messages (fold (push_message m g) chs cs) = cs_messages cs"
  by (rule fold_keeps) (simp add: push_message_def)

lemma notify_messages [simp]: "cs_messages (notifyMember e m us g u cs) = cs_messages cs"
  by (auto simp: notifyMember_def Let_def split: sum.splits option.splits)

lemma deliver_messages [simp]: "cs_messages (deliverMessage e m us g cs) = cs_messages cs"
  by (simp add: deliverMessage_def Let_def fold_keeps)

lemma announce_messages [simp]: "cs_messages (announce_sent there tg m u cs) = cs_messages cs"
  by (simp add: announce_sent_def)

lemma as_input_reset:
  "m_reactions m = [] \<Longrightarrow> m_deleted m = None \<Longrightarrow> (as_input m)\<lparr>n_reactions := [], n_deleted := None\<rparr> = as_input m"
  by (simp add: as_input_def)

lemma accepted_fields:
  assumes "accepted_record e u v tg cs = (m, cs1)"
  shows "m_reactions m = []" "m_deleted m = None" "m_sender m = u" "m_recipient m = tg_recipient tg" "m_body m = va_body v"
    "m_client m = (if str_truthy (va_client v) then va_client v else None)" "m_id m = or_else (va_legacy v) (ce_uuid e)"
    "m_type m = (if isSupportedMessageType (Some (va_type v)) then va_type v else DEFAULT_MESSAGE_TYPE)"
    "msgs (cs_messages cs1) = msgs (cs_messages cs)" "wf_messages (cs_messages cs) \<Longrightarrow> wf_messages (cs_messages cs1)"
    "cs_groups cs1 = cs_groups cs"
  using assms
  by (auto simp: accepted_record_def Let_def createMessageRecord_def normaliseReactions_def wf_messages_def)

lemma save_target_store:
  assumes "saveTargetMessage e m tg cs = (r, cs1)" and "m_reactions m = []" "m_deleted m = None"
  shows "persists (cs_messages cs) (cs_messages cs1)" and "wf_messages (cs_messages cs) \<Longrightarrow> wf_messages (cs_messages cs1)"
proof -
  let ?s = "saveMessageWithStatus (ce_now e) (ce_uuid e) (as_input m) (cs_messages cs)"
  have c: "cs_messages cs1 = cs_messages cs \<or> cs_messages cs1 = snd ?s"
    using assms(1) by (auto simp: saveTargetMessage_def split: if_splits prod.splits sum.splits)
  then show "persists (cs_messages cs) (cs_messages cs1)" using save_persists by auto
  show "wf_messages (cs_messages cs1)" if "wf_messages (cs_messages cs)"
    using c that saveMessage_wf [OF that, of "ce_now e" "ce_uuid e" "as_input m"] by (auto simp: as_input_reset [OF assms(2,3)])
qed

lemma persist_store:
  assumes "persistAcceptedMessage e m there tg cs = (r, cs1)" and "m_reactions m = []" "m_deleted m = None"
  shows "persists (cs_messages cs) (cs_messages cs1)" and "wf_messages (cs_messages cs) \<Longrightarrow> wf_messages (cs_messages cs1)"
proof -
  obtain a cs2 where s: "saveTargetMessage e m tg cs = (a, cs2)" by (rule prod.exhaust)
  note st = save_target_store [OF s assms(2,3)]
  have c: "cs_messages cs1 = cs_messages cs2 \<or> cs_messages cs1 = enqueueDeliveryReceipt (m_id m) (m_recipient m) (cs_messages cs2)"
    using assms(1) s by (auto simp: persistAcceptedMessage_def split: option.splits prod.splits if_splits)
  then show "persists (cs_messages cs) (cs_messages cs1)"
    using st(1) persists_trans [OF st(1) receipt_persists] by auto
  show "wf_messages (cs_messages cs1)" if "wf_messages (cs_messages cs)"
    using c st(2) [OF that] delivered_wf(2) by auto
qed

lemma send_store:
  "persists (cs_messages cs) (cs_messages (snd (handleMessageSend e u p cs)))"
  "wf_messages (cs_messages cs) \<Longrightarrow> wf_messages (cs_messages (snd (handleMessageSend e u p cs)))"
proof -
  have both: "persists (cs_messages cs) (cs_messages (snd (handleMessageSend e u p cs))) \<and>
      (wf_messages (cs_messages cs) \<longrightarrow> wf_messages (cs_messages (snd (handleMessageSend e u p cs))))"
  proof (cases "\<exists>v tg. validateMessagePayload e u p = Some v \<and>
      resolveMessageTarget (cs_groups cs) u (va_recipient v) (normaliseId (sp_conversation p)) = Some tg \<and>
      \<not> (tg_group tg = None \<and> blocked_pair cs u (tg_recipient tg))")
    case False
    then show ?thesis
      by (auto simp: handleMessageSend_def audit_blocked_def split: option.splits)
  next
    case True
    then obtain v tg where v: "validateMessagePayload e u p = Some v"
      "resolveMessageTarget (cs_groups cs) u (va_recipient v) (normaliseId (sp_conversation p)) = Some tg"
      "\<not> (tg_group tg = None \<and> blocked_pair cs u (tg_recipient tg))" by blast
    obtain m cs1 where m: "accepted_record e u v tg cs = (m, cs1)" by (rule prod.exhaust)
    obtain r cs2 where r: "persistAcceptedMessage e m (online cs (tg_recipient tg)) tg cs1 = (r, cs2)" by (rule prod.exhaust)
    note f = accepted_fields [OF m]
    have "cs_messages (snd (handleMessageSend e u p cs)) = cs_messages cs2"
      using v m r by (auto simp: handleMessageSend_def Let_def split: sum.splits)
    then show ?thesis
      using persist_store [OF r f(1,2)] f(10) persists_trans [OF persists_same [OF f(9)]] by auto
  qed
  then show "persists (cs_messages cs) (cs_messages (snd (handleMessageSend e u p cs)))"
    "wf_messages (cs_messages cs) \<Longrightarrow> wf_messages (cs_messages (snd (handleMessageSend e u p cs)))" by simp_all
qed

section \<open>An answered send is stored\<close>

text \<open>The row of a direct send with a key: its sender, recipient, key and type, and its body unless deleted.\<close>

definition stored_send :: "string \<Rightarrow> send_payload \<Rightarrow> message \<Rightarrow> bool" where
  "stored_send u p m =
     (m_sender m = u \<and> m_client m = map_option (map lower_char) (sp_client p) \<and>
      Some (m_recipient m) = normaliseId (sp_recipient p) \<and> Some (m_type m) = validateMessageType (sp_type p) \<and>
      (m_deleted m \<noteq> None \<or> m_body m = trim (sp_body p)))"

lemma stored_grown: "stored_send u p m \<Longrightarrow> grown m m' \<Longrightarrow> stored_send u p m'"
  by (auto simp: stored_send_def grown_def)

lemma validated_direct:
  assumes "validateMessagePayload e u p = Some v" and "sp_conversation p = None" and "sp_client p = Some k"
  shows "Some (va_recipient v) = normaliseId (sp_recipient p)" "Some (va_type v) = validateMessageType (sp_type p)"
    "va_body v = trim (sp_body p)" "va_client v = Some (map lower_char k)" "va_legacy v = None" "k \<noteq> []"
    "isSupportedMessageType (Some (va_type v))"
proof -
  show "Some (va_recipient v) = normaliseId (sp_recipient p)" "Some (va_type v) = validateMessageType (sp_type p)"
    "va_body v = trim (sp_body p)" "va_client v = Some (map lower_char k)" "va_legacy v = None" "k \<noteq> []"
    using assms
    by (auto simp: validateMessagePayload_def normaliseId_def validateOptionalMessageId_def validateBody_def Let_def is_uuid_def
        split: option.splits if_splits bind_splits)
  then show "isSupportedMessageType (Some (va_type v))"
    by (auto simp: validateMessageType_def isSupportedMessageType_def KNOWN_MESSAGE_TYPES_def DEFAULT_MESSAGE_TYPE_def
        split: option.splits if_splits)
qed

text \<open>A send that is answered with a row was saved under its own key, or found under it.\<close>

lemma saved_row:
  assumes "saveMessageWithStatus clock fresh (as_input m) st = ((saved, inserted), st1)"
    and "m_client m = Some k" "k \<noteq> []" "m_id m \<noteq> []" "m_id m \<notin> m_id ` set (msgs st)" and "differingAcceptedSendField saved m = None"
    and "isSupportedMessageType (Some (m_type m))" "m_deleted m = None"
  shows "saved \<in> set (msgs st1)" and "m_sender saved = m_sender m" "m_recipient saved = m_recipient m"
    "m_client saved = m_client m" "m_type saved = m_type m" "m_deleted saved \<noteq> None \<or> m_body saved = m_body m"
proof -
  let ?n = "as_input m" and ?r = "createMessageRecord fresh (nextTimestamp clock (last_ms st)) (as_input m)"
  have n: "str_truthy (n_client ?n)" "or_else (n_id ?n) fresh = m_id m" "n_client ?n = m_client m" "n_sender ?n = m_sender m"
    using assms(2-4) by (simp_all add: as_input_def str_truthy_iff or_else_def)
  have fr: "or_else (n_id ?n) fresh \<notin> m_id ` set (msgs st)" using n(2) assms(5) by simp
  have fnd: "find (same_message ?r) (msgs st) = find (\<lambda>c. m_sender c = m_sender m \<and> m_client c = m_client m) (msgs st)"
    using find_created [OF n(1) fr] n(3,4) by simp
  note rows = saved_rows [of clock fresh "as_input m" st, unfolded assms(1) fnd fst_conv snd_conv]
  have "saved \<in> set (msgs st1) \<and> m_client saved = m_client m"
  proof (cases "find (\<lambda>c. m_sender c = m_sender m \<and> m_client c = m_client m) (msgs st)")
    case None
    then show ?thesis using rows n(1,3) by (simp add: createMessageRecord_def)
  next
    case (Some x)
    then show ?thesis using rows find_SomeD [OF Some] by simp
  qed
  then show "saved \<in> set (msgs st1)" "m_client saved = m_client m" by simp_all
  show "m_sender saved = m_sender m" "m_recipient saved = m_recipient m" "m_type saved = m_type m"
    "m_deleted saved \<noteq> None \<or> m_body saved = m_body m"
    using assms(6) by (auto simp: differingAcceptedSendField_def split: if_splits)
qed

text \<open>How a direct send with a key that is answered runs.\<close>

definition direct_target :: "string \<Rightarrow> validated \<Rightarrow> target" where
  "direct_target u v = \<lparr>tg_conversation = deriveConversationId u (va_recipient v), tg_recipient = va_recipient v,
     tg_recipients = [va_recipient v], tg_group = None\<rparr>"

lemma direct_run:
  assumes "validateMessagePayload e u p = Some v" and "sp_conversation p = None" and "\<not> blocked_pair cs u (va_recipient v)"
    and "accepted_record e u v (direct_target u v) cs = (m, cs1)"
    and "saveMessageWithStatus (ce_now e) (ce_uuid e) (as_input m) (cs_messages cs1) = ((saved, inserted), st)"
    and "differingAcceptedSendField saved m = None"
  defines "there \<equiv> online cs (va_recipient v)"
  defines "cs2 \<equiv> put_messages (if there \<and> inserted then enqueueDeliveryReceipt (m_id m) (m_recipient m) st else st) cs1"
  shows "handleMessageSend e u p cs = (Answered saved,
    announce_sent there (direct_target u v) saved u (if inserted then deliverMessage e saved [va_recipient v] None cs2 else cs2))"
proof -
  have "resolveMessageTarget (cs_groups cs) u (va_recipient v) (normaliseId (sp_conversation p)) = Some (direct_target u v)"
    by (simp add: resolveMessageTarget_def assms(2) normaliseId_def direct_target_def)
  moreover have "tg_group (direct_target u v) = None" "tg_recipient (direct_target u v) = va_recipient v"
    "tg_recipients (direct_target u v) = [va_recipient v]" by (simp_all add: direct_target_def)
  ultimately show ?thesis
    using assms(1,3-6)
    by (simp add: handleMessageSend_def Let_def persistAcceptedMessage_def saveTargetMessage_def cs2_def there_def put_messages_def)
qed

lemma direct_answered:
  assumes "handleMessageSend e u p cs = (Answered saved, cs')" and "sp_conversation p = None"
  obtains v m cs1 inserted st where "validateMessagePayload e u p = Some v" "\<not> blocked_pair cs u (va_recipient v)"
    "accepted_record e u v (direct_target u v) cs = (m, cs1)"
    "saveMessageWithStatus (ce_now e) (ce_uuid e) (as_input m) (cs_messages cs1) = ((saved, inserted), st)"
    "differingAcceptedSendField saved m = None"
    "cs_messages cs' = st \<or> cs_messages cs' = enqueueDeliveryReceipt (m_id m) (m_recipient m) st"
proof -
  obtain v where v: "validateMessagePayload e u p = Some v"
    using assms(1) by (auto simp: handleMessageSend_def split: option.splits)
  have tg: "resolveMessageTarget (cs_groups cs) u (va_recipient v) (normaliseId (sp_conversation p)) = Some (direct_target u v)"
    "tg_group (direct_target u v) = None" "tg_recipient (direct_target u v) = va_recipient v"
    by (simp_all add: resolveMessageTarget_def assms(2) normaliseId_def direct_target_def)
  have free: "\<not> blocked_pair cs u (va_recipient v)" using assms(1) v tg by (auto simp: handleMessageSend_def)
  obtain m cs1 where m: "accepted_record e u v (direct_target u v) cs = (m, cs1)" by (rule prod.exhaust)
  obtain x inserted st where sv: "saveMessageWithStatus (ce_now e) (ce_uuid e) (as_input m) (cs_messages cs1) = ((x, inserted), st)"
    by (metis prod_cases3 prod.exhaust)
  show thesis
    by (rule that [OF v free m])
      (use assms(1) v tg free m sv in
        \<open>auto simp: handleMessageSend_def Let_def persistAcceptedMessage_def saveTargetMessage_def split: if_splits\<close>)
qed

text \<open>The record made for a send has the key of the send, an id of its own when that is new, and the fields given.\<close>

lemma direct_record:
  assumes "validateMessagePayload e u p = Some v" and "sp_conversation p = None" and "sp_client p = Some k"
    and "accepted_record e u v (direct_target u v) cs = (m, cs1)"
  shows "m_client m = Some (map lower_char k)" "map lower_char k \<noteq> []" "m_id m = ce_uuid e" "m_type m = va_type v"
    "isSupportedMessageType (Some (m_type m))" "m_recipient m = va_recipient v"
  using accepted_fields [OF assms(4)] validated_direct [OF assms(1-3)]
  by (simp_all add: str_truthy_iff or_else_def direct_target_def)

lemma answered_stored:
  assumes "handleMessageSend e u p cs = (Answered saved, cs')" and "sp_conversation p = None" and "sp_client p = Some k"
    and "ce_uuid e \<noteq> []" and "ce_uuid e \<notin> m_id ` set (msgs (cs_messages cs))"
  shows "\<exists>m \<in> set (msgs (cs_messages cs')). stored_send u p m"
proof -
  obtain v m cs1 inserted st where d: "validateMessagePayload e u p = Some v" "\<not> blocked_pair cs u (va_recipient v)"
    "accepted_record e u v (direct_target u v) cs = (m, cs1)"
    "saveMessageWithStatus (ce_now e) (ce_uuid e) (as_input m) (cs_messages cs1) = ((saved, inserted), st)"
    "differingAcceptedSendField saved m = None"
    "cs_messages cs' = st \<or> cs_messages cs' = enqueueDeliveryReceipt (m_id m) (m_recipient m) st"
    by (rule direct_answered [OF assms(1,2)])
  note f = accepted_fields [OF d(3)] and vd = validated_direct [OF d(1) assms(2,3)] and row = direct_record [OF d(1) assms(2,3) d(3)]
  note sr = saved_row [OF d(4) row(1,2) _ _ d(5) row(5) f(2)]
  have "saved \<in> set (msgs st) \<and> stored_send u p saved"
    using sr f(2-9) vd row assms(3-5) by (simp add: stored_send_def)
  moreover have "persists st (cs_messages cs')" using d(6) receipt_persists by auto
  ultimately show ?thesis unfolding persists_def using stored_grown by blast
qed

section \<open>A repeated send\<close>

lemma find_update_first:
  assumes "\<And>x. P (f x) = P x" and "find P xs = Some x"
  shows "\<exists>y. find P (update_first Q f xs) = Some y \<and> (y = x \<or> y = f x)"
  using assms(2)
proof (induction xs)
  case (Cons z zs)
  then show ?case using assms(1) [of z] by (cases "Q z"; cases "P z") auto
qed simp

lemma fold_emit:
  "cs_events (fold (\<lambda>u. emit u ev) us cs) = cs_events cs @ map (\<lambda>u. (u, ev)) us" "cs_privacy (fold (\<lambda>u. emit u ev) us cs) = cs_privacy cs"
  by (induction us arbitrary: cs) simp_all

lemma privacy_kept [simp]:
  "cs_privacy (fold (push_message m g) chs cs) = cs_privacy cs" "cs_privacy (notifyMember e m us g u cs) = cs_privacy cs"
  "cs_privacy (deliverMessage e m vs g cs) = cs_privacy cs"
proof -
  have p: "cs_privacy (fold (push_message m g) chs cs) = cs_privacy cs" for m g chs cs
    by (rule fold_keeps) (simp add: push_message_def)
  then show "cs_privacy (fold (push_message m g) chs cs) = cs_privacy cs" .
  have n: "cs_privacy (notifyMember e m us g u cs) = cs_privacy cs" for u cs us
    by (auto simp: notifyMember_def Let_def p split: sum.splits option.splits)
  then show "cs_privacy (notifyMember e m us g u cs) = cs_privacy cs" .
  show "cs_privacy (deliverMessage e m vs g cs) = cs_privacy cs"
    by (simp add: deliverMessage_def Let_def fold_keeps n fanoutConversationEvent_def fold_emit)
qed

text \<open>What the comparison of a stored row looks at.\<close>

definition send_fields :: "message \<Rightarrow> _" where
  "send_fields m = (m_sender m, m_recipient m, m_conv m, m_client m, m_type m, m_reply m, m_body m, m_attachment m, m_deleted m)"

lemma differing_cong:
  assumes "send_fields a = send_fields a'" and "send_fields b = send_fields b'"
  shows "differingAcceptedSendField a b = differingAcceptedSendField a' b'"
proof -
  have a: "m_sender a = m_sender a'" "m_recipient a = m_recipient a'" "m_conv a = m_conv a'" "m_client a = m_client a'"
    "m_type a = m_type a'" "m_reply a = m_reply a'" "m_body a = m_body a'" "m_attachment a = m_attachment a'" "m_deleted a = m_deleted a'"
    using assms(1) by (simp_all add: send_fields_def)
  have b: "m_sender b = m_sender b'" "m_recipient b = m_recipient b'" "m_conv b = m_conv b'" "m_client b = m_client b'"
    "m_type b = m_type b'" "m_reply b = m_reply b'" "m_body b = m_body b'" "m_attachment b = m_attachment b'"
    using assms(2) by (simp_all add: send_fields_def)
  show ?thesis by (simp only: differingAcceptedSendField_def a b)
qed

lemma delivery_fields [simp]: "send_fields (with_delivery u m) = send_fields m" "m_id (with_delivery u m) = m_id m"
  by (simp_all add: send_fields_def with_delivery_def)

lemma accepted_send_fields:
  assumes "accepted_record e u v tg cs = (m, cs1)" and "accepted_record e' u v tg cs' = (m', cs1')"
  shows "send_fields m = send_fields m'"
  using assms by (auto simp: accepted_record_def Let_def createMessageRecord_def send_fields_def or_else_def)

lemma accepted_rest:
  assumes "accepted_record e u v tg cs = (m, cs1)"
  shows "cs_events cs1 = cs_events cs" "cs_pushes cs1 = cs_pushes cs" "changes (cs_messages cs1) = changes (cs_messages cs)"
    "cs_privacy cs1 = cs_privacy cs"
  using assms by (auto simp: accepted_record_def Let_def)

lemma save_target_privacy: "cs_privacy (snd (saveTargetMessage e m tg cs)) = cs_privacy cs"
  by (simp add: saveTargetMessage_def split: prod.splits sum.splits)

lemma persist_privacy: "cs_privacy (snd (persistAcceptedMessage e m there tg cs)) = cs_privacy cs"
  using save_target_privacy [of e m tg cs] by (auto simp: persistAcceptedMessage_def split: prod.splits option.splits)

lemma send_privacy: "cs_privacy (snd (handleMessageSend e u p cs)) = cs_privacy cs"
proof (cases "\<exists>v tg. validateMessagePayload e u p = Some v \<and>
    resolveMessageTarget (cs_groups cs) u (va_recipient v) (normaliseId (sp_conversation p)) = Some tg \<and>
    \<not> (tg_group tg = None \<and> blocked_pair cs u (tg_recipient tg))")
  case False
  then show ?thesis by (auto simp: handleMessageSend_def audit_blocked_def split: option.splits)
next
  case True
  then obtain v tg where v: "validateMessagePayload e u p = Some v"
    "resolveMessageTarget (cs_groups cs) u (va_recipient v) (normaliseId (sp_conversation p)) = Some tg"
    "\<not> (tg_group tg = None \<and> blocked_pair cs u (tg_recipient tg))" by blast
  obtain m cs1 where m: "accepted_record e u v tg cs = (m, cs1)" by (rule prod.exhaust)
  obtain r cs2 where r: "persistAcceptedMessage e m (online cs (tg_recipient tg)) tg cs1 = (r, cs2)" by (rule prod.exhaust)
  have "cs_privacy cs2 = cs_privacy cs"
    using persist_privacy [of e m "online cs (tg_recipient tg)" tg cs1] r accepted_rest(4) [OF m] by simp
  then show ?thesis
    using v m r by (auto simp: handleMessageSend_def Let_def announce_sent_def split: sum.splits)
qed

text \<open>After a save, the row is the first one under its key.\<close>

lemma found_saved:
  assumes "saveMessageWithStatus clock fresh (as_input m) st = ((saved, inserted), st1)"
    and "m_client m = Some k" "k \<noteq> []" "m_id m \<noteq> []" "m_id m \<notin> m_id ` set (msgs st)"
  shows "find (\<lambda>c. m_sender c = m_sender m \<and> m_client c = m_client m) (msgs st1) = Some saved"
proof -
  let ?n = "as_input m" and ?r = "createMessageRecord fresh (nextTimestamp clock (last_ms st)) (as_input m)"
  have n: "str_truthy (n_client ?n)" "or_else (n_id ?n) fresh = m_id m" "n_client ?n = m_client m" "n_sender ?n = m_sender m"
    using assms(2-4) by (simp_all add: as_input_def str_truthy_iff or_else_def)
  have fr: "or_else (n_id ?n) fresh \<notin> m_id ` set (msgs st)" using n(2) assms(5) by simp
  have fnd: "find (same_message ?r) (msgs st) = find (\<lambda>c. m_sender c = m_sender m \<and> m_client c = m_client m) (msgs st)"
    using find_created [OF n(1) fr] n(3,4) by simp
  have r: "m_sender ?r = m_sender m" "m_client ?r = m_client m" using n(1,3,4) by (simp_all add: createMessageRecord_def)
  show ?thesis
    using saved_rows [of clock fresh "as_input m" st, unfolded assms(1) fnd fst_conv snd_conv] r
    by (simp add: find_append split: option.splits)
qed

text \<open>
  What may happen between two sends: requests of anybody, operations of the store, and anything that leaves the stored
  messages alone (connections, blocks, budgets, groups).
\<close>

inductive meanwhile :: "chat_server \<Rightarrow> chat_server \<Rightarrow> bool" where
  nothing: "meanwhile cs cs"
| sends: "meanwhile cs cs' \<Longrightarrow> meanwhile cs (snd (handleMessageSend e u p cs'))"
| stores: "meanwhile cs cs' \<Longrightarrow> op \<noteq> Close \<Longrightarrow> meanwhile cs (put_messages (run_message op (cs_messages cs')) cs')"
| elsewhere: "meanwhile cs cs' \<Longrightarrow> cs_messages cs'' = cs_messages cs' \<Longrightarrow> meanwhile cs cs''"

lemma meanwhile_store:
  "meanwhile cs cs' \<Longrightarrow> persists (cs_messages cs) (cs_messages cs') \<and> (wf_messages (cs_messages cs) \<longrightarrow> wf_messages (cs_messages cs'))"
proof (induction rule: meanwhile.induct)
  case (sends cs cs' e u p)
  then show ?case using persists_trans [OF _ send_store(1)] send_store(2) by blast
next
  case (stores cs cs' op)
  then show ?case using persists_trans [OF _ run_persists [OF stores(2)]] run_message_wf by simp
qed simp_all

lemma key_unique:
  assumes "wf_messages st" and "x \<in> set (msgs st)" "y \<in> set (msgs st)" and "client_key x = client_key y" "str_truthy (m_client y)"
  shows "x = y"
proof -
  have "distinct (map client_key (filter (\<lambda>m. str_truthy (m_client m)) (msgs st)))" by (rule wf_messagesD(2) [OF assms(1)])
  then have "inj_on client_key {m \<in> set (msgs st). str_truthy (m_client m)}" by (simp add: distinct_map)
  moreover have "str_truthy (m_client x)" using assms(4,5) by (simp add: client_key_def)
  ultimately show ?thesis using assms(2-5) by (auto dest: inj_onD)
qed

lemma differing_grown:
  assumes "differingAcceptedSendField m r = None" and "grown m y" and "send_fields r = send_fields r'"
    and "m_client m = m_client r" "str_truthy (m_client m)"
  shows "differingAcceptedSendField y r' = None"
proof (cases "m_deleted y = None")
  case True
  then have "send_fields y = send_fields m" using assms(2) by (auto simp: grown_def send_fields_def)
  from differing_cong [OF this assms(3) [symmetric]] assms(1) show ?thesis by simp
next
  case False
  have "m_sender m = m_sender r" "m_recipient m = m_recipient r" "m_conv m = m_conv r" "m_type m = m_type r" "m_reply m = m_reply r"
    using assms(1) by (auto simp: differingAcceptedSendField_def split: if_splits)
  then show ?thesis using False assms(2-5)
    by (auto simp: differingAcceptedSendField_def grown_def send_fields_def)
qed

lemma find_only:
  assumes "y \<in> set xs" and "P y" and only: "\<And>x. x \<in> set xs \<Longrightarrow> P x \<Longrightarrow> x = y"
  shows "find P xs = Some y"
proof (cases "find P xs")
  case None
  with assms(1,2) show ?thesis unfolding find_None_iff by blast
next
  case (Some x)
  then show ?thesis using only [of x] find_SomeD [OF Some] by blast
qed

lemma sent_row:
  assumes "handleMessageSend e u p cs = (Answered m, cs1)" and "sp_conversation p = None" and "sp_client p = Some k"
    and "ce_uuid e \<noteq> []" "ce_uuid e \<notin> m_id ` set (msgs (cs_messages cs))"
  obtains v r cs' where "validateMessagePayload e u p = Some v" "accepted_record e u v (direct_target u v) cs = (r, cs')"
    "differingAcceptedSendField m r = None" "client_key m = (u, Some (map lower_char k))" "m_client r = Some (map lower_char k)"
    "k \<noteq> []" "\<exists>y \<in> set (msgs (cs_messages cs1)). grown m y"
proof -
  obtain v r cs' inserted st where d: "validateMessagePayload e u p = Some v" "\<not> blocked_pair cs u (va_recipient v)"
    "accepted_record e u v (direct_target u v) cs = (r, cs')"
    "saveMessageWithStatus (ce_now e) (ce_uuid e) (as_input r) (cs_messages cs') = ((m, inserted), st)"
    "differingAcceptedSendField m r = None"
    "cs_messages cs1 = st \<or> cs_messages cs1 = enqueueDeliveryReceipt (m_id r) (m_recipient r) st"
    by (rule direct_answered [OF assms(1,2)])
  note row = direct_record [OF d(1) assms(2,3) d(3)] and f = accepted_fields [OF d(3)]
  have "find (\<lambda>c. m_sender c = u \<and> m_client c = Some (map lower_char k)) (msgs st) = Some m"
    using found_saved [OF d(4) row(1,2)] row(1,3) f(3,9) assms(4,5) by simp
  then have m: "m \<in> set (msgs st)" "client_key m = (u, Some (map lower_char k))"
    using find_SomeD by (fastforce simp: client_key_def)+
  moreover have "persists st (cs_messages cs1)" using d(6) receipt_persists by auto
  ultimately have "\<exists>y \<in> set (msgs (cs_messages cs1)). grown m y" by (auto simp: persists_def)
  then show thesis using that d(1,3,5) m(2) row(1,2) by simp
qed

text \<open>
  C16. A repeated send is silent: once a direct send with a key is answered, sending it again, at any time and whatever
  happened in between, adds no row and no change and pushes nobody. It is answered with the same message, as it is
  by then (delivered, read, reacted to or deleted), and the only event goes to the sender; or it is refused, when
  one of the two blocks the other by then.
\<close>

theorem resend_is_silent:
  assumes "handleMessageSend e u p cs = (Answered m, cs1)" and "sp_conversation p = None" and "sp_client p = Some k"
    and "wf_messages (cs_messages cs)" and "ce_uuid e \<noteq> []" "ce_uuid e \<notin> m_id ` set (msgs (cs_messages cs))"
    and "meanwhile cs1 cs'" and "i \<noteq> []" "i \<notin> m_id ` set (msgs (cs_messages cs'))"
    and "handleMessageSend (e\<lparr>ce_now := t, ce_uuid := i\<rparr>) u p cs' = (a, cs2)"
  shows "msgs (cs_messages cs2) = msgs (cs_messages cs') \<and> changes (cs_messages cs2) = changes (cs_messages cs') \<and>
    cs_pushes cs2 = cs_pushes cs' \<and>
    ((\<exists>m' x. a = Answered m' \<and> grown m m' \<and> cs_events cs2 = cs_events cs' @ [(u, Chat_Delivered x)] \<and> m_id x = m_id m) \<or>
     (\<exists>v. Some v = normaliseId (sp_recipient p) \<and> blocked_pair cs' u v \<and> a = Rejected ''forbidden'' \<and> cs_events cs2 = cs_events cs'))"
proof -
  let ?e = "e\<lparr>ce_now := t, ce_uuid := i\<rparr>" and ?key = "\<lambda>c. m_sender c = u \<and> m_client c = Some (map lower_char k)"
  obtain v r c where d: "validateMessagePayload e u p = Some v" "accepted_record e u v (direct_target u v) cs = (r, c)"
    "differingAcceptedSendField m r = None" "client_key m = (u, Some (map lower_char k))" "m_client r = Some (map lower_char k)"
    "k \<noteq> []" "\<exists>y \<in> set (msgs (cs_messages cs1)). grown m y"
    by (rule sent_row [OF assms(1-3,5,6)])
  have key: "m_sender m = u" "m_client m = Some (map lower_char k)" using d(4) by (simp_all add: client_key_def)
  have wf: "wf_messages (cs_messages cs')"
    using meanwhile_store [OF assms(7)] send_store(2) [OF assms(4), of e u p] assms(1) by simp
  obtain y where y: "y \<in> set (msgs (cs_messages cs'))" "grown m y"
    using d(7) meanwhile_store [OF assms(7)] grown_trans unfolding persists_def by blast
  then have ky: "?key y" using key by (simp add: grown_def)
  have "x = y" if "x \<in> set (msgs (cs_messages cs'))" "?key x" for x
    using key_unique [OF wf that(1) y(1)] that(2) ky d(6) by (simp add: client_key_def str_truthy_iff)
  then have found: "find ?key (msgs (cs_messages cs')) = Some y"
    using y(1) ky by (intro find_only)
  have v: "validateMessagePayload ?e u p = Some v"
    using d(1) by (simp add: validateMessagePayload_def validateAttachmentPayload_def cong: option.case_cong if_cong)
  have to: "Some (va_recipient v) = normaliseId (sp_recipient p)" by (rule validated_direct(1) [OF d(1) assms(2,3)])
  show ?thesis
  proof (cases "blocked_pair cs' u (va_recipient v)")
    case True
    have "resolveMessageTarget (cs_groups cs') u (va_recipient v) (normaliseId (sp_conversation p)) = Some (direct_target u v)"
      by (simp add: resolveMessageTarget_def assms(2) normaliseId_def direct_target_def)
    then have "handleMessageSend ?e u p cs' = (Rejected ''forbidden'', audit_blocked ?e u (va_recipient v) cs')"
      using v True by (simp add: handleMessageSend_def direct_target_def)
    then have "a = Rejected ''forbidden''" "cs2 = audit_blocked ?e u (va_recipient v) cs'" using assms(10) by simp_all
    then show ?thesis using True to by (auto simp: audit_blocked_def)
  next
    case False
    obtain r2 c2 where r2: "accepted_record ?e u v (direct_target u v) cs' = (r2, c2)" by (rule prod.exhaust)
    note row2 = direct_record [OF v assms(2,3) r2] and f2 = accepted_fields [OF r2]
    have n2: "str_truthy (n_client (as_input r2))" "or_else (n_id (as_input r2)) i = i"
      using row2(1-3) assms(8) by (simp_all add: as_input_def str_truthy_iff or_else_def)
    have "find (same_message (createMessageRecord i (nextTimestamp t (last_ms (cs_messages c2))) (as_input r2))) (msgs (cs_messages c2)) = Some y"
      using find_created [OF n2(1), of i "msgs (cs_messages c2)"] n2(2) f2(3,9) row2(1) assms(9) found by (simp add: as_input_def)
    note ex = save_existing [OF this]
    obtain st2 where st2: "saveMessageWithStatus t i (as_input r2) (cs_messages c2) = ((y, False), st2)"
      "msgs st2 = msgs (cs_messages cs')" "changes st2 = changes (cs_messages cs')"
      using ex f2(9) accepted_rest(3) [OF r2] by (metis prod.collapse)
    have "differingAcceptedSendField y r2 = None"
      by (rule differing_grown [OF d(3) y(2) accepted_send_fields [OF d(2) r2]]) (simp_all add: key d(5,6) str_truthy_iff)
    from direct_run [OF v assms(2) False r2 _ this, where inserted = False and st = st2] st2(1)
    have run: "handleMessageSend ?e u p cs' = (Answered y,
        announce_sent (online cs' (va_recipient v)) (direct_target u v) y u (put_messages st2 c2))" by simp
    have a: "a = Answered y" and cs2: "cs2 = announce_sent (online cs' (va_recipient v)) (direct_target u v) y u (put_messages st2 c2)"
      using assms(10) run by simp_all
    obtain x where x: "cs2 = emit u (Chat_Delivered x) (put_messages st2 c2)" "m_id x = m_id y"
      by (rule that [OF cs2 [unfolded announce_sent_def]]) simp
    have "m_id y = m_id m" using y(2) by (simp add: grown_def)
    then show ?thesis using a x y(2) by (auto simp: st2(2,3) accepted_rest [OF r2])
  qed
qed

text \<open>Bob is connected: the first send reaches him, the second only answers ann.\<close>

definition demo_chat :: chat_server where
  "demo_chat =
     \<lparr>cs_messages = empty_message_store, cs_groups = empty_group_store,
      cs_presence = addConnection \<lparr>cn_user = ''bob'', cn_socket = ''s1'', cn_device = ''d1'', cn_session = None\<rparr> empty_stores,
      cs_privacy = \<lparr>pv_blocks = [], pv_shared = False, pv_lookup = None, pv_list = (\<lambda>_ _. None)\<rparr>,
      cs_limits = [], cs_audit = [], cs_events = [], cs_pushes = []\<rparr>"

definition demo_chat_env :: chat_env where
  "demo_chat_env =
     \<lparr>ce_now = 50, ce_uuid = ''id1'', ce_group = \<lparr>g_now = 50, g_uuid = (\<lambda>_. []), g_can_invite = (\<lambda>_ _. True)\<rparr>, ce_max_push = 3,
      ce_limit = (30, 60000), ce_security = None, ce_attachment = (\<lambda>_ _. None), ce_emoji = (\<lambda>_. True)\<rparr>"

definition demo_payload :: send_payload where
  "demo_payload =
     \<lparr>sp_conversation = None, sp_recipient = Some ''bob'', sp_body = ''hi'', sp_type = None, sp_attachment = None, sp_reply = None,
      sp_client = Some ''0a1b2c3d-0000-4000-8000-0123456789ab'', sp_message = None\<rparr>"

definition demo_read :: "chat_server \<Rightarrow> chat_server" where
  "demo_read cs = put_messages (run_message (Read 70 ''ann:bob'' ''bob'') (cs_messages cs)) cs"

theorem resend_is_silent_witness:
  "let cs1 = demo_read (snd (handleMessageSend demo_chat_env ''ann'' demo_payload demo_chat));
       cs2 = snd (handleMessageSend (demo_chat_env\<lparr>ce_now := 90, ce_uuid := ''id2''\<rparr>) ''ann'' demo_payload cs1)
   in map fst (cs_events cs1) = [''bob'', ''ann''] \<and> map fst (cs_events cs2) = [''bob'', ''ann'', ''ann''] \<and>
      msgs (cs_messages cs2) = msgs (cs_messages cs1)"
proof -
  let ?r1 = "handleMessageSend demo_chat_env ''ann'' demo_payload demo_chat"
  let ?cs = "demo_read (snd ?r1)"
  let ?r2 = "handleMessageSend (demo_chat_env\<lparr>ce_now := 90, ce_uuid := ''id2''\<rparr>) ''ann'' demo_payload ?cs"
  have first: "map fst (cs_events ?cs) = [''bob'', ''ann'']" "''id2'' \<notin> set (map m_id (msgs (cs_messages ?cs)))"
    "case fst ?r1 of Answered _ \<Rightarrow> True | Rejected _ \<Rightarrow> False" "\<not> blocked_pair ?cs ''ann'' ''bob''" by code_simp+
  then obtain m where m: "?r1 = (Answered m, snd ?r1)" by (cases "fst ?r1") (metis prod.collapse, simp)
  have "meanwhile (snd ?r1) ?cs" unfolding demo_read_def by (rule meanwhile.stores [OF meanwhile.nothing]) simp
  note silent = resend_is_silent [OF m _ _ _ _ _ this _ _ prod.collapse [symmetric],
      where k = "''0a1b2c3d-0000-4000-8000-0123456789ab''" and i = "''id2''" and t = 90]
  from silent have "msgs (cs_messages (snd ?r2)) = msgs (cs_messages ?cs) \<and>
    ((\<exists>x. cs_events (snd ?r2) = cs_events ?cs @ [(''ann'', Chat_Delivered x)]) \<or>
     (\<exists>v. Some v = normaliseId (sp_recipient demo_payload) \<and> blocked_pair ?cs ''ann'' v))"
    using first(2) by (simp add: demo_payload_def demo_chat_env_def demo_chat_def empty_messages_wf) (auto simp: empty_message_store_def)
  moreover have "normaliseId (sp_recipient demo_payload) = Some ''bob''" by code_simp
  ultimately show ?thesis using first(1,4) by (auto simp: Let_def)
qed

end
