(* ===== verification/MessageDelivery.thy ===== *)
theory MessageDelivery
  imports OutboxDelivery MessageSendingProperties
begin

text \<open>
  A client's outbox against the server over a network that loses requests and acknowledgements. The worker of
  \<open>SendWorker\<close> runs over the handler of \<open>MessageSending\<close>; the interface between them is \<open>delivery_service\<close>.
\<close>

section \<open>The network\<close>

text \<open>
  One exchange: what other clients and devices do first, what becomes of the request, and the surroundings of
  the handler. The request times out when either message is lost.
\<close>

datatype link = Link_Ok | Ack_Lost | Request_Lost

record exchange =
  ex_others :: "message_op list"
  ex_link :: link
  ex_env :: chat_env

text \<open>
  The exchanges to come, and how the next writes to the disk go: whether they succeed, and the time that passes.
  Without a further exchange the socket is down.
\<close>

record wire =
  wd_server :: chat_server
  wd_plan :: "exchange list"
  wd_disk :: "(bool \<times> int) list"

definition rows_of :: "wire \<Rightarrow> message list" where "rows_of w = msgs (cs_messages (wd_server w))"

text \<open>\<open>randomUUID\<close>: an id that no stored message has.\<close>

definition fresh_id :: "message_store \<Rightarrow> string" where
  "fresh_id st = replicate (Suc (foldr max (map (length \<circ> m_id) (msgs st)) 0)) (CHR ''x'')"

definition others_act :: "message_op list \<Rightarrow> chat_server \<Rightarrow> chat_server" where
  "others_act ops cs = put_messages (fold run_message (filter (\<lambda>op. op \<noteq> Close) ops) (cs_messages cs)) cs"

definition iso_text :: "int \<Rightarrow> jsval" where "iso_text t = Str (toISOString t)"

text \<open>The message of an acknowledgement, as the client reads it; its attachment and reactions are opaque.\<close>

definition wire_entry :: "message \<Rightarrow> entry" where
  "wire_entry m =
     [F_message \<mapsto> Str (m_id m), F_client \<mapsto> or_null (m_client m), F_conversation \<mapsto> Str (m_conv m), F_sender \<mapsto> Str (m_sender m),
      F_recipient \<mapsto> Str (m_recipient m), F_body \<mapsto> Str (m_body m), F_other ''type'' \<mapsto> Str (m_type m),
      F_attachment \<mapsto> (case m_attachment m of Some a \<Rightarrow> Obj a | None \<Rightarrow> Null), F_reply \<mapsto> or_null (m_reply m),
      F_reactions \<mapsto> Obj [], F_deleted \<mapsto> (case m_deleted m of Some t \<Rightarrow> iso_text t | None \<Rightarrow> Null),
      F_created \<mapsto> iso_text (m_created m), F_delivered \<mapsto> Names (m_delivered m),
      F_read \<mapsto> (case m_read m of Some t \<Rightarrow> iso_text t | None \<Rightarrow> Null)]"

definition ack_timeout :: failure where "ack_timeout = plain_failure ''socket ack timeout''"

definition serve :: "socket_identity \<Rightarrow> exchange \<Rightarrow> send_payload \<Rightarrow> chat_server \<Rightarrow> message answer \<times> chat_server" where
  "serve sk x p cs =
     (let cs1 = others_act (ex_others x) cs
      in on_message_send ((ex_env x)\<lparr>ce_uuid := fresh_id (cs_messages cs1)\<rparr>) sk \<lparr>rq_version = Some 3, rq_parsed = Inr p\<rparr> cs1)"

definition net_request :: "socket_identity \<Rightarrow> send_payload \<Rightarrow> client \<times> wire \<Rightarrow> (failure + entry option) \<times> client \<times> wire" where
  "net_request sk p = (\<lambda>(c, w).
     case wd_plan w of
       [] \<Rightarrow> (Inl ack_timeout, c, w)
     | x # xs \<Rightarrow>
         if ex_link x = Request_Lost
         then (Inl ack_timeout, c, w\<lparr>wd_server := others_act (ex_others x) (wd_server w), wd_plan := xs\<rparr>)
         else (case serve sk x p (wd_server w) of
                 (ans, cs) \<Rightarrow>
                   (if ex_link x = Ack_Lost then Inl ack_timeout
                    else (case ans of
                            Answered m \<Rightarrow> Inr (Some (wire_entry m))
                          | Rejected code \<Rightarrow> Inl (plain_failure ''server error''\<lparr>fl_code := Some code\<rparr>)),
                    c, w\<lparr>wd_server := cs, wd_plan := xs\<rparr>)))"

definition net_flush :: "client \<times> wire \<Rightarrow> bool \<times> client \<times> wire" where
  "net_flush = (\<lambda>(c, w).
     case wd_disk w of
       [] \<Rightarrow> (True, c, w)
     | (ok, t) # ds \<Rightarrow> (ok, c\<lparr>cl_now := cl_now c + t\<rparr>, w\<lparr>wd_disk := ds\<rparr>))"

definition network :: "(string \<Rightarrow> int option) \<Rightarrow> socket_identity \<Rightarrow> wire outside" where
  "network engine sk =
     \<lparr>os_engine = engine, os_connected = (\<lambda>w. wd_plan w \<noteq> []), os_flush = net_flush,
      os_storage_error = plain_failure ''disk full'', os_request = net_request sk,
      os_upload = (\<lambda>i s. (Inr None, s)), os_cleanup = (\<lambda>i s. (Inr Waiting, s)),
      os_mock = (\<lambda>i row. Inl (plain_failure ''You are no longer a group member'')), os_jitter = (\<lambda>w. 0)\<rparr>"

section \<open>The server is a delivery service\<close>

text \<open>The service holds a direct send with a key when a row of that send is stored.\<close>

definition net_holds :: "socket_identity \<Rightarrow> send_payload \<Rightarrow> wire \<Rightarrow> bool" where
  "net_holds sk p w =
     (sp_conversation p \<noteq> None \<or> sp_client p = None \<or> (\<exists>m \<in> set (rows_of w). stored_send (si_user sk) p m))"

definition net_fine :: "wire \<Rightarrow> bool" where "net_fine w = wf_messages (cs_messages (wd_server w))"

lemma fresh_id_fresh: "fresh_id st \<noteq> []" "fresh_id st \<notin> m_id ` set (msgs st)"
proof -
  have "length (m_id m) \<le> foldr max (map (length \<circ> m_id) ms) 0" if "m \<in> set ms" for m ms
    using that by (induction ms) auto
  then have "length (m_id m) < length (fresh_id st)" if "m \<in> set (msgs st)" for m
    using that by (simp add: fresh_id_def less_Suc_eq_le)
  then show "fresh_id st \<notin> m_id ` set (msgs st)" by fastforce
qed (simp add: fresh_id_def)

lemma others_store:
  "persists (cs_messages cs) (cs_messages (others_act ops cs))"
  "wf_messages (cs_messages cs) \<Longrightarrow> wf_messages (cs_messages (others_act ops cs))"
proof -
  have "persists st (fold run_message (filter (\<lambda>op. op \<noteq> Close) ops) st)" for st
  proof (induction ops arbitrary: st)
    case (Cons op ops)
    show ?case
    proof (cases "op = Close")
      case False
      then show ?thesis using persists_trans [OF run_persists [OF False] Cons.IH] by simp
    qed (use Cons.IH in simp)
  qed simp
  then show "persists (cs_messages cs) (cs_messages (others_act ops cs))" by (simp add: others_act_def)
  have "wf_messages st \<Longrightarrow> wf_messages (fold run_message os st)" for st os
    by (induction os arbitrary: st) (simp_all add: run_message_wf)
  then show "wf_messages (cs_messages cs) \<Longrightarrow> wf_messages (cs_messages (others_act ops cs))" by (simp add: others_act_def)
qed

lemma admitted_store [simp]: "cs_messages (snd (chat_admitted e sk rq cs)) = cs_messages cs"
  by (simp add: chat_admitted_def split: option.splits reply.splits prod.splits)

lemma served_store:
  "persists (cs_messages cs) (cs_messages (snd (serve sk x p cs)))"
  "wf_messages (cs_messages cs) \<Longrightarrow> wf_messages (cs_messages (snd (serve sk x p cs)))"
proof -
  let ?cs = "others_act (ex_others x) cs"
  let ?e = "(ex_env x)\<lparr>ce_uuid := fresh_id (cs_messages ?cs)\<rparr>" and ?rq = "\<lparr>rq_version = Some 3, rq_parsed = Inr p\<rparr>"
  obtain a cs1 where a: "chat_admitted ?e sk ?rq ?cs = (a, cs1)" by (rule prod.exhaust)
  have m: "cs_messages cs1 = cs_messages ?cs" using admitted_store [of ?e sk ?rq ?cs] a by simp
  have s: "cs_messages (snd (serve sk x p cs)) = cs_messages cs1 \<or>
      (\<exists>q. cs_messages (snd (serve sk x p cs)) = cs_messages (snd (handleMessageSend ?e (si_user sk) q cs1)))"
    using a by (cases a) (auto simp: serve_def on_message_send_def Let_def)
  show "persists (cs_messages cs) (cs_messages (snd (serve sk x p cs)))"
    using s m others_store(1) [of cs "ex_others x"] persists_trans [OF others_store(1) [of cs "ex_others x"]]
      send_store(1) [of cs1 ?e "si_user sk"] by auto
  show "wf_messages (cs_messages (snd (serve sk x p cs)))" if "wf_messages (cs_messages cs)"
    using s m others_store(2) [OF that, of "ex_others x"] send_store(2) [of cs1 ?e "si_user sk"] by auto
qed

lemma served_holds:
  assumes "serve sk x p cs = (Answered m, cs')" and "sp_conversation p = None" and "sp_client p = Some k"
  shows "\<exists>m \<in> set (msgs (cs_messages cs')). stored_send (si_user sk) p m"
proof -
  let ?cs = "others_act (ex_others x) cs"
  let ?e = "(ex_env x)\<lparr>ce_uuid := fresh_id (cs_messages ?cs)\<rparr>" and ?rq = "\<lparr>rq_version = Some 3, rq_parsed = Inr p\<rparr>"
  obtain a cs1 where a: "chat_admitted ?e sk ?rq ?cs = (a, cs1)" by (rule prod.exhaust)
  have m: "cs_messages cs1 = cs_messages ?cs" using admitted_store [of ?e sk ?rq ?cs] a by simp
  have "q = p" if "a = Inr q" for q
    using a that by (auto simp: chat_admitted_def split: option.splits reply.splits prod.splits if_splits)
  then have "handleMessageSend ?e (si_user sk) p cs1 = (Answered m, cs')"
    using assms(1) a by (cases a) (auto simp: serve_def on_message_send_def Let_def)
  then show ?thesis
    by (rule answered_stored [OF _ assms(2,3)]) (simp_all add: m fresh_id_fresh)
qed

lemma holds_persist:
  assumes "persists (cs_messages (wd_server w)) (cs_messages (wd_server w'))" and "net_holds sk p w"
  shows "net_holds sk p w'"
  using assms stored_grown unfolding net_holds_def rows_of_def persists_def by blast

lemma net_request_spec:
  obtains a w' where "net_request sk p (c, w) = (a, c, w')"
    "persists (cs_messages (wd_server w)) (cs_messages (wd_server w'))" "net_fine w \<Longrightarrow> net_fine w'"
    "\<And>m. a = Inr m \<Longrightarrow> net_holds sk (p\<lparr>sp_reply := None\<rparr>) w'"
proof (cases "wd_plan w")
  case Nil
  then show ?thesis using that [of "Inl ack_timeout" w] by (simp add: net_request_def)
next
  case (Cons x xs)
  show ?thesis
  proof (cases "ex_link x = Request_Lost")
    case True
    then show ?thesis
      using Cons that [of "Inl ack_timeout" "w\<lparr>wd_server := others_act (ex_others x) (wd_server w), wd_plan := xs\<rparr>"]
      by (simp add: net_request_def net_fine_def others_store)
  next
    case False
    obtain ans cs where s: "serve sk x p (wd_server w) = (ans, cs)" by (rule prod.exhaust)
    let ?w = "w\<lparr>wd_server := cs, wd_plan := xs\<rparr>"
    have store: "persists (cs_messages (wd_server w)) (cs_messages (wd_server ?w))" "net_fine w \<Longrightarrow> net_fine ?w"
      using served_store [of "wd_server w" sk x p] s by (simp_all add: net_fine_def)
    have held: "net_holds sk (p\<lparr>sp_reply := None\<rparr>) ?w" if "ans = Answered m" for m
    proof (cases "sp_conversation p = None \<and> sp_client p \<noteq> None")
      case True
      then obtain k where "sp_conversation p = None" "sp_client p = Some k" by blast
      from served_holds [OF s [unfolded that] this] show ?thesis by (auto simp: net_holds_def rows_of_def stored_send_def)
    qed (auto simp: net_holds_def)
    let ?a = "if ex_link x = Ack_Lost then Inl ack_timeout else case ans of Answered m \<Rightarrow> Inr (Some (wire_entry m))
      | Rejected code \<Rightarrow> Inl (plain_failure ''server error''\<lparr>fl_code := Some code\<rparr>)"
    have "net_request sk p (c, w) = (?a, c, ?w)" using Cons False s by (simp add: net_request_def)
    moreover have "net_holds sk (p\<lparr>sp_reply := None\<rparr>) ?w" if "?a = Inr m" for m
      using that held by (cases ans) (auto split: if_splits)
    ultimately show ?thesis using that [of ?a ?w] store by blast
  qed
qed

interpretation net: delivery_service "network engine sk" "net_holds sk" net_fine
proof
  fix w :: wire and c :: client and p q :: send_payload and m :: "entry option"
  show "cl_outbox (fst (snd (os_flush (network engine sk) (c, w)))) = cl_outbox c"
    by (auto simp: network_def net_flush_def split: list.splits)
  show "net_holds sk p w \<Longrightarrow> net_holds sk p (snd (snd (os_flush (network engine sk) (c, w))))"
    by (auto simp: network_def net_flush_def net_holds_def rows_of_def split: list.splits)
  show "net_fine w \<Longrightarrow> net_fine (snd (snd (os_flush (network engine sk) (c, w))))"
    by (auto simp: network_def net_flush_def net_fine_def split: list.splits)
  obtain a w' where r: "os_request (network engine sk) p (c, w) = (a, c, w')"
    "persists (cs_messages (wd_server w)) (cs_messages (wd_server w'))" "net_fine w \<Longrightarrow> net_fine w'"
    "\<And>m. a = Inr m \<Longrightarrow> net_holds sk (p\<lparr>sp_reply := None\<rparr>) w'"
    by (rule net_request_spec [of sk p c w]) (simp add: network_def)
  show "net_fine w \<Longrightarrow> net_fine (snd (snd (os_request (network engine sk) p (c, w))))" using r by simp
  show "cl_outbox (fst (snd (os_request (network engine sk) p (c, w)))) = cl_outbox c" using r by simp
  show "net_holds sk q w \<Longrightarrow> net_holds sk q (snd (snd (os_request (network engine sk) p (c, w))))"
    using r holds_persist [OF r(2)] by simp
  show "fst (os_request (network engine sk) p (c, w)) = Inr m \<Longrightarrow>
      net_holds sk (p\<lparr>sp_reply := None\<rparr>) (snd (snd (os_request (network engine sk) p (c, w))))"
    using r by simp
qed

section \<open>Exactly once\<close>

text \<open>The stored messages of a user under the key of a row.\<close>

definition copies_of :: "string \<Rightarrow> outbox_item \<Rightarrow> wire \<Rightarrow> message list" where
  "copies_of u r w = filter (\<lambda>m. m_sender m = u \<and> m_client m = map_option (map lower_char) (ob_client r)) (rows_of w)"

lemma distinct_key_filter: "distinct (map f xs) \<Longrightarrow> length (filter (\<lambda>x. f x = k) xs) \<le> 1"
proof (induction xs)
  case (Cons a xs)
  have "f a = k \<Longrightarrow> filter (\<lambda>x. f x = k) xs = []" using Cons.prems by (auto simp: filter_empty_conv image_iff)
  then show ?case using Cons by auto
qed simp

lemma one_copy:
  assumes "net_fine w" and "str_truthy (ob_client r)"
  shows "length (copies_of u r w) \<le> 1"
proof -
  let ?k = "(u, map_option (map lower_char) (ob_client r))"
  have t: "str_truthy (snd ?k)" using assms(2) by (auto simp: str_truthy_iff)
  let ?keyed = "filter (\<lambda>m. str_truthy (m_client m)) (rows_of w)"
  have "copies_of u r w = filter (\<lambda>m. client_key m = ?k) ?keyed"
    unfolding copies_of_def filter_filter using t by (intro filter_cong) (auto simp: client_key_def)
  moreover have "distinct (map client_key ?keyed)"
    using wf_messagesD(2) assms(1) by (simp add: net_fine_def rows_of_def)
  ultimately show ?thesis using distinct_key_filter [of client_key ?keyed ?k] by (simp only:)
qed

text \<open>
  C15. Exactly once: let any requests and acknowledgements be lost, let the disk fail and other devices act in
  between, and drain the outbox any number of times. A text message that was queued for a user is then still
  queued, unchanged, or stored on the server with its sender, recipient, type and text; and the server never
  holds two copies of it.
\<close>

theorem sent_exactly_once:
  assumes "wf_messages (cs_messages (wd_server w))" and "good_rows (cl_outbox c)" and "r \<in> set (cl_outbox c)"
    and "\<not> ob_group r" and "str_truthy (ob_client r)"
    and "(drainOutbox (network engine sk) ^^ n) (c, w) = (c', w')"
  shows "length (copies_of (si_user sk) r w') \<le> 1 \<and>
    ((\<exists>q \<in> set (cl_outbox c'). essence q = essence r) \<or>
     (\<exists>m p. outboxSendPayload (essence r) = Inr p \<and> copies_of (si_user sk) r w' = [m] \<and> stored_send (si_user sk) p m))"
proof -
  have "net.accounted sk r (c, w)"
    using assms(1-3) by (simp add: net.accounted_def net_fine_def)
  from net.drains_account [OF this, of n engine] have acc: "net.accounted sk r (c', w')" using assms(6) by simp
  then have one: "length (copies_of (si_user sk) r w') \<le> 1" using one_copy assms(5) by (simp add: net.accounted_def)
  show ?thesis
  proof (cases "\<exists>q \<in> set (cl_outbox c'). essence q = essence r")
    case False
    then have "net.held sk r w'" using acc by (force simp: net.accounted_def)
    then obtain p where p: "outboxSendPayload (essence r) = Inr p" "net_holds sk p w'" by (auto simp: net.held_def)
    have k: "sp_conversation p = None" "sp_client p = ob_client r"
      using p(1) assms(4,5) by (auto simp: outboxSendPayload_def essence_def split: if_splits)
    then obtain m where m: "m \<in> set (rows_of w')" "stored_send (si_user sk) p m"
      using p(2) assms(5) by (auto simp: net_holds_def str_truthy_iff)
    then have "m \<in> set (copies_of (si_user sk) r w')" using k by (simp add: copies_of_def stored_send_def)
    then have "copies_of (si_user sk) r w' = [m]"
      using one by (cases "copies_of (si_user sk) r w'") auto
    then show ?thesis using one p(1) m(2) by blast
  qed (use one in blast)
qed

text \<open>The first acknowledgement is lost, the second attempt succeeds.\<close>

definition demo_env :: chat_env where
  "demo_env =
     \<lparr>ce_now = 50, ce_uuid = [], ce_group = \<lparr>g_now = 50, g_uuid = (\<lambda>_. []), g_can_invite = (\<lambda>_ _. True)\<rparr>, ce_max_push = 3,
      ce_limit = (30, 60000), ce_security = None, ce_attachment = (\<lambda>_ _. None), ce_emoji = (\<lambda>_. True)\<rparr>"

definition demo_server :: chat_server where
  "demo_server =
     \<lparr>cs_messages = empty_message_store, cs_groups = empty_group_store, cs_presence = empty_stores,
      cs_privacy = \<lparr>pv_blocks = [], pv_shared = False, pv_lookup = None, pv_list = (\<lambda>_ _. None)\<rparr>,
      cs_limits = [], cs_audit = [], cs_events = [], cs_pushes = []\<rparr>"

definition demo_wire :: wire where
  "demo_wire =
     \<lparr>wd_server = demo_server,
      wd_plan = [\<lparr>ex_others = [], ex_link = Ack_Lost, ex_env = demo_env\<rparr>, \<lparr>ex_others = [], ex_link = Link_Ok, ex_env = demo_env\<rparr>],
      wd_disk = [(True, 0), (True, 1000)]\<rparr>"

definition demo_message :: outbox_item where
  "demo_message = (demo_row ''m1'' ''bob'' None)\<lparr>ob_client := Some ''0a1b2c3d-0000-4000-8000-0123456789ab''\<rparr>"

definition demo_client :: client where
  "demo_client = \<lparr>cl_now = 0, cl_user = ''ann'', cl_outbox = [demo_message], cl_messages = [], cl_chats = []\<rparr>"

definition demo_socket :: socket_identity where
  "demo_socket = \<lparr>si_user = ''ann'', si_session = Some ''s'', si_device = None\<rparr>"

definition demo_drained :: "nat \<Rightarrow> client \<times> wire" where
  "demo_drained n = (drainOutbox (network (\<lambda>_. None) demo_socket) ^^ n) (demo_client, demo_wire)"

theorem sent_exactly_once_witness:
  "map ob_attempts (cl_outbox (fst (demo_drained 1))) = [Some 1] \<and> cl_outbox (fst (demo_drained 2)) = [] \<and>
   (\<exists>m. copies_of ''ann'' demo_message (snd (demo_drained 2)) = [m])"
proof -
  have wf: "wf_messages (cs_messages (wd_server demo_wire))"
    by (simp add: demo_wire_def demo_server_def empty_messages_wf)
  have "map ob_attempts (cl_outbox (fst (demo_drained 1))) = [Some 1]" by code_simp
  moreover have gone: "cl_outbox (fst (demo_drained 2)) = []" by code_simp
  moreover have "\<exists>m. copies_of ''ann'' demo_message (snd (demo_drained 2)) = [m]"
  proof -
    have d: "(drainOutbox (network (\<lambda>_. None) demo_socket) ^^ 2) (demo_client, demo_wire) = (fst (demo_drained 2), snd (demo_drained 2))"
      by (simp add: demo_drained_def)
    show ?thesis
      using sent_exactly_once [OF wf _ _ _ _ d, of demo_message] gone
      by (simp add: demo_client_def demo_message_def demo_row_def good_rows_def plain_row_def demo_socket_def) blast
  qed
  ultimately show ?thesis by blast
qed

end
