(* ===== verification/Schema.thy ===== *)
theory Schema
  imports Prelude Complex_Main
begin

text \<open>
  Payload validation (\<open>shared/schema.ts\<close>). A value is JSON or \<open>undefined\<close>; a number that is not finite is
  \<open>J_Number None\<close>, and the fields of an object are in insertion order. A schema is a function from a value and
  its path to the accepted value or to the message and the path of the failure. Texts are Latin-1, and no key is
  a name of \<open>Object.prototype\<close>.
\<close>

section \<open>Values and results\<close>

datatype json =
    J_Undefined | J_Null | J_Bool bool | J_Number "rat option" | J_String string
  | J_Array "json list" | J_Object "(string \<times> json) list"

type_synonym fields = "(string \<times> json) list"
type_synonym parse_failure = "string \<times> string"
type_synonym parser = "json \<Rightarrow> string \<Rightarrow> parse_failure + json"

record schema =
  sc_optional :: bool
  sc_parse :: parser

definition fail :: "string \<Rightarrow> string \<Rightarrow> parse_failure + 'a" where
  "fail path msg = Inl (if path \<noteq> [] then path @ '': '' @ msg else msg, path)"

definition joinPath :: "string \<Rightarrow> string \<Rightarrow> string" where
  "joinPath path key = (if path \<noteq> [] then path @ ''.'' @ key else key)"

function decimal :: "int \<Rightarrow> string" where
  "decimal n = (if n < 10 then [char_of (nat (48 + n))] else decimal (n div 10) @ [char_of (nat (48 + n mod 10))])"
  by auto
termination by (relation "measure nat") auto

fun isPlainObject :: "json \<Rightarrow> bool" where
  "isPlainObject (J_Object _) = True"
| "isPlainObject _ = False"

definition field_of :: "string \<Rightarrow> fields \<Rightarrow> json" where
  "field_of k fs = (case map_of fs k of Some v \<Rightarrow> v | None \<Rightarrow> J_Undefined)"

definition safeParse :: "schema \<Rightarrow> json \<Rightarrow> parse_failure + json" where
  "safeParse s v = sc_parse s v []"

text \<open>\<open>parse\<close>: \<open>Inl\<close> is the message of the error it throws.\<close>

definition parse :: "schema \<Rightarrow> json \<Rightarrow> string + json" where
  "parse s v = (case sc_parse s v [] of Inl (msg, _) \<Rightarrow> Inl msg | Inr d \<Rightarrow> Inr d)"

section \<open>Modifiers\<close>

definition createSchema :: "parser \<Rightarrow> schema" where
  "createSchema p = \<lparr>sc_optional = False, sc_parse = p\<rparr>"

definition optional :: "schema \<Rightarrow> schema" where
  "optional s = \<lparr>sc_optional = True, sc_parse = (\<lambda>v path. if v = J_Undefined then Inr J_Undefined else sc_parse s v path)\<rparr>"

definition nullable :: "schema \<Rightarrow> schema" where
  "nullable s = s\<lparr>sc_parse := (\<lambda>v path. if v = J_Null then Inr J_Null else sc_parse s v path)\<rparr>"

section \<open>Scalars\<close>

definition unknown_schema :: schema where "unknown_schema = \<lparr>sc_optional = True, sc_parse = (\<lambda>v path. Inr v)\<rparr>"

definition MAX_SAFE_INTEGER :: int where "MAX_SAFE_INTEGER = 9007199254740991"

definition string_schema :: "int \<Rightarrow> int \<Rightarrow> bool \<Rightarrow> schema" where
  "string_schema mn mx trims = createSchema (\<lambda>v path.
     case v of
       J_String x \<Rightarrow>
         (let parsed = (if trims then trim x else x)
          in if int (length parsed) < mn then fail path (''expected at least '' @ decimal mn @ '' character(s)'')
             else if mx < int (length parsed) then fail path (''expected at most '' @ decimal mx @ '' character(s)'')
             else Inr (J_String parsed))
     | _ \<Rightarrow> fail path ''expected a string'')"

definition id_schema :: "int \<Rightarrow> schema" where "id_schema mx = string_schema 1 mx True"

definition integral :: "rat \<Rightarrow> bool" where "integral q = (snd (quotient_of q) = 1)"

text \<open>A bound \<open>None\<close> is infinite. The schemas use whole bounds.\<close>

definition number_schema :: "int option \<Rightarrow> int option \<Rightarrow> bool \<Rightarrow> schema" where
  "number_schema mn mx whole = createSchema (\<lambda>v path.
     case v of
       J_Number (Some q) \<Rightarrow>
         if whole \<and> \<not> integral q then fail path ''expected an integer''
         else if (case mn of Some n \<Rightarrow> q < of_int n | None \<Rightarrow> False) then fail path (''expected >= '' @ decimal (the mn))
         else if (case mx of Some n \<Rightarrow> of_int n < q | None \<Rightarrow> False) then fail path (''expected <= '' @ decimal (the mx))
         else Inr v
     | _ \<Rightarrow> fail path ''expected a finite number'')"

definition boolean_schema :: schema where
  "boolean_schema = createSchema (\<lambda>v path. case v of J_Bool b \<Rightarrow> Inr v | _ \<Rightarrow> fail path ''expected a boolean'')"

text \<open>\<open>JSON.stringify\<close> of the literals in use: natural numbers and plain words.\<close>

fun stringify :: "json \<Rightarrow> string" where
  "stringify (J_Number (Some q)) = decimal \<lfloor>q\<rfloor>"
| "stringify (J_String x) = [CHR 0x22] @ x @ [CHR 0x22]"
| "stringify _ = []"

definition literal :: "json \<Rightarrow> schema" where
  "literal expected = createSchema (\<lambda>v path. if v = expected then Inr v else fail path (''expected '' @ stringify expected))"

fun join_names :: "string list \<Rightarrow> string" where
  "join_names [] = []"
| "join_names [x] = x"
| "join_names (x # xs) = x @ '', '' @ join_names xs"

definition enumOf :: "string list \<Rightarrow> schema" where
  "enumOf values = createSchema (\<lambda>v path.
     case v of
       J_String x \<Rightarrow> if x \<in> set values then Inr v else fail path (''expected one of '' @ join_names (uniq values))
     | _ \<Rightarrow> fail path (''expected one of '' @ join_names (uniq values)))"

definition opaque :: schema where
  "opaque = createSchema (\<lambda>v path. if isPlainObject v then Inr v else fail path ''expected an object'')"

section \<open>Arrays, objects, records, unions\<close>

fun parse_items :: "schema \<Rightarrow> string \<Rightarrow> nat \<Rightarrow> json list \<Rightarrow> parse_failure + json list" where
  "parse_items item path i [] = Inr []"
| "parse_items item path i (v # vs) =
     (case sc_parse item v (joinPath path (''['' @ decimal (int i) @ '']'')) of
        Inl e \<Rightarrow> Inl e
      | Inr d \<Rightarrow> (case parse_items item path (Suc i) vs of Inl e \<Rightarrow> Inl e | Inr ds \<Rightarrow> Inr (d # ds)))"

definition array_schema :: "schema \<Rightarrow> schema" where
  "array_schema item = createSchema (\<lambda>v path.
     case v of
       J_Array vs \<Rightarrow> map_sum id J_Array (parse_items item path 0 vs)
     | _ \<Rightarrow> fail path ''expected an array'')"

text \<open>The loop over \<open>Object.entries(shape)\<close>; a field that is absent and parses to \<open>undefined\<close> stays absent.\<close>

fun parse_fields :: "(string \<times> schema) list \<Rightarrow> fields \<Rightarrow> string \<Rightarrow> fields \<Rightarrow> parse_failure + fields" where
  "parse_fields [] fs path parsed = Inr parsed"
| "parse_fields ((k, s) # shape) fs path parsed =
     (case sc_parse s (field_of k fs) (joinPath path k) of
        Inl e \<Rightarrow> Inl e
      | Inr d \<Rightarrow> parse_fields shape fs path (if d \<noteq> J_Undefined \<or> k \<in> fst ` set fs then AList.update k d parsed else parsed))"

definition given :: "string \<Rightarrow> fields \<Rightarrow> bool" where "given k fs = (field_of k fs \<noteq> J_Undefined)"

definition object_schema :: "(string \<times> schema) list \<Rightarrow> bool \<Rightarrow> (string \<times> string) list \<Rightarrow> schema" where
  "object_schema shape passthrough exclusive = createSchema (\<lambda>v path.
     case v of
       J_Object fs \<Rightarrow>
         (case parse_fields shape fs path (if passthrough then fs else []) of
            Inl e \<Rightarrow> Inl e
          | Inr parsed \<Rightarrow>
              (case find (\<lambda>(l, r). given l fs = given r fs) exclusive of
                 Some (l, r) \<Rightarrow> fail path (''exactly one of '' @ l @ '' or '' @ r @ '' is required'')
               | None \<Rightarrow> Inr (J_Object parsed)))
     | _ \<Rightarrow> fail path ''expected an object'')"

fun parse_entries :: "schema \<Rightarrow> fields \<Rightarrow> string \<Rightarrow> fields \<Rightarrow> parse_failure + fields" where
  "parse_entries s [] path parsed = Inr parsed"
| "parse_entries s ((k, v) # fs) path parsed =
     (case sc_parse s v (joinPath path k) of
        Inl e \<Rightarrow> Inl e
      | Inr d \<Rightarrow> parse_entries s fs path (AList.update k d parsed))"

definition record_schema :: "schema \<Rightarrow> schema" where
  "record_schema s = createSchema (\<lambda>v path.
     case v of
       J_Object fs \<Rightarrow> map_sum id J_Object (parse_entries s fs path [])
     | _ \<Rightarrow> fail path ''expected an object'')"

fun parse_options :: "schema list \<Rightarrow> parser" where
  "parse_options [] v path = fail path ''did not match any allowed variant''"
| "parse_options (s # ss) v path = (case sc_parse s v path of Inr d \<Rightarrow> Inr d | Inl _ \<Rightarrow> parse_options ss v path)"

definition union_schema :: "schema list \<Rightarrow> schema" where "union_schema options = createSchema (parse_options options)"

end
