(* ===== verification/EventSchemas.thy ===== *)
theory EventSchemas
  imports Schema Messages
begin

text \<open>
  The contract of every signaling event (\<open>shared/signaling/schemas.ts\<close>): which payloads the server takes from a
  client and a client from the server. The event names are those of \<open>events.ts\<close>.
\<close>

section \<open>Shared pieces\<close>

definition SIGNALING_VERSION :: int where "SIGNALING_VERSION = 3"
definition LEGACY_SIGNALING_VERSION :: int where "LEGACY_SIGNALING_VERSION = 2"

definition version_literal :: "int \<Rightarrow> schema" where "version_literal n = literal (J_Number (Some (of_int n)))"

definition legacyVersionField :: schema where "legacyVersionField = version_literal LEGACY_SIGNALING_VERSION"
definition currentVersionField :: schema where "currentVersionField = version_literal SIGNALING_VERSION"
definition versionField :: schema where "versionField = union_schema [legacyVersionField, currentVersionField]"
definition inboundVersionField :: schema where "inboundVersionField = optional versionField"

definition idField :: schema where "idField = id_schema 128"
definition optionalId :: schema where "optionalId = nullable (optional idField)"

text \<open>\<open>s.string({ min, max })\<close> without and with trimming, unbounded text, and the modifiers in both orders.\<close>

definition any_text :: schema where "any_text = string_schema 0 MAX_SAFE_INTEGER False"
definition some_text :: schema where "some_text = string_schema 1 MAX_SAFE_INTEGER False"
definition short_text :: "int \<Rightarrow> schema" where "short_text mx = string_schema 1 mx True"
definition maybe :: "schema \<Rightarrow> schema" where "maybe s = nullable (optional s)"

definition whole_from :: "int \<Rightarrow> schema" where "whole_from n = number_schema (Some n) None True"
definition number_upto :: "int \<Rightarrow> schema" where "number_upto n = number_schema (Some 0) (Some n) False"

definition plain :: "(string \<times> schema) list \<Rightarrow> schema" where "plain shape = object_schema shape False []"
definition passing :: "(string \<times> schema) list \<Rightarrow> schema" where "passing shape = object_schema shape True []"

section \<open>Records\<close>

definition callParticipant :: schema where
  "callParticipant = plain
     [(''userId'', idField),
      (''state'', enumOf [''invited'', ''ringing'', ''joined'', ''left'', ''declined'', ''missed'', ''busy'', ''unreachable'']),
      (''ringTimeoutAt'', maybe any_text), (''joinedAt'', maybe any_text), (''leftAt'', maybe any_text),
      (''deviceId'', optionalId)]"

definition mediaType :: schema where "mediaType = enumOf [''audio'', ''video'']"

definition callRecord :: schema where
  "callRecord = passing
     [(''callId'', idField), (''mediaType'', optional mediaType), (''callerId'', optional idField),
      (''calleeId'', optional idField), (''participants'', optional (array_schema callParticipant)),
      (''status'', optional some_text)]"

definition attachmentRecord :: schema where
  "attachmentRecord = passing
     [(''url'', short_text 2048), (''mimeType'', short_text 255), (''sizeBytes'', optional (whole_from 0)),
      (''name'', maybe (string_schema 0 255 False)), (''width'', maybe (whole_from 0)), (''height'', maybe (whole_from 0)),
      (''durationMs'', maybe (whole_from 0)), (''thumbnailUrl'', maybe (string_schema 0 2048 False)),
      (''waveform'', maybe (array_schema (number_upto 1)))]"

definition reactionsField :: schema where "reactionsField = record_schema (array_schema idField)"

definition messageRecord :: schema where
  "messageRecord = passing
     [(''messageId'', idField), (''clientMessageId'', optional idField), (''conversationId'', optional idField),
      (''senderId'', idField), (''recipientId'', idField), (''body'', any_text),
      (''type'', optional (string_schema 0 32 False)), (''attachment'', maybe attachmentRecord),
      (''replyTo'', maybe (string_schema 0 128 False)), (''reactions'', maybe reactionsField),
      (''deletedAt'', maybe any_text), (''readBy'', optional (array_schema idField))]"

definition conversationRecord :: schema where
  "conversationRecord = passing
     [(''conversationId'', idField), (''name'', short_text 128), (''creatorId'', idField), (''ownerId'', optional idField),
      (''memberIds'', array_schema idField), (''membershipVersion'', whole_from 1)]"

section \<open>Client to server\<close>

definition MAX_BODY :: int where "MAX_BODY = 4000"
definition MAX_EMOJI :: int where "MAX_EMOJI = 16"

definition negotiationField :: schema where "negotiationField = optional (string_schema 1 1024 False)"

text \<open>The fields all events of a call share, and those of a negotiated signal.\<close>

definition of_call :: "(string \<times> schema) list" where "of_call = [(''version'', versionField), (''callId'', idField)]"
definition of_conversation :: "(string \<times> schema) list" where
  "of_conversation = [(''version'', versionField), (''conversationId'', idField)]"
definition negotiated :: "schema \<Rightarrow> (string \<times> schema) list" where
  "negotiated version = [(''version'', version), (''callId'', idField), (''peerId'', idField), (''negotiationId'', negotiationField)]"

definition client_description :: schema where
  "client_description = union_schema
     [plain [(''version'', legacyVersionField), (''callId'', idField), (''sdp'', opaque)],
      plain (negotiated currentVersionField @ [(''sdp'', opaque)])]"

definition messageSend :: schema where
  "messageSend = object_schema
     [(''version'', versionField), (''conversationId'', optional idField), (''recipientId'', optional idField),
      (''body'', string_schema 0 MAX_BODY True), (''type'', optional (enumOf KNOWN_MESSAGE_TYPES)),
      (''attachment'', maybe attachmentRecord), (''replyTo'', optionalId), (''clientMessageId'', optional idField),
      (''messageId'', optional idField)] False [(''conversationId'', ''recipientId'')]"

definition messageDelete :: schema where
  "messageDelete = object_schema
     [(''version'', versionField), (''conversationId'', optional idField), (''peerId'', optional idField), (''messageId'', idField)]
     False [(''conversationId'', ''peerId'')]"

definition messageReact :: schema where
  "messageReact = object_schema
     [(''version'', versionField), (''conversationId'', optional idField), (''peerId'', optional idField), (''messageId'', idField),
      (''emoji'', short_text MAX_EMOJI), (''action'', enumOf [''add'', ''remove''])]
     False [(''conversationId'', ''peerId'')]"

definition messageTyping :: schema where
  "messageTyping = object_schema
     [(''version'', versionField), (''conversationId'', optional idField), (''recipientId'', optional idField),
      (''isTyping'', boolean_schema)] False [(''conversationId'', ''recipientId'')]"

definition CLIENT_EVENT_SCHEMAS :: "(string \<times> schema) list" where
  "CLIENT_EVENT_SCHEMAS =
     [(''call.initiate'', plain [(''version'', versionField), (''calleeId'', idField), (''mediaType'', optional mediaType)]),
      (''call.incoming.ack'', plain (of_call @ [(''deviceId'', optional idField)])),
      (''call.accept'', plain of_call),
      (''call.decline'', plain of_call),
      (''call.cancel'', plain of_call),
      (''call.end'', plain (of_call @ [(''reason'', optional (enumOf [''user_hangup'']))])),
      (''call.connected'', plain (of_call @
         [(''iceState'', optional (enumOf [''connected'', ''completed'', ''disconnected'', ''failed'']))])),
      (''call.state.report'', plain
         [(''version'', versionField), (''activeCallIds'', optional (array_schema idField)), (''callId'', optionalId)]),
      (''call.stats'', plain (of_call @
         [(''rttMs'', number_upto 60000), (''jitterMs'', number_upto 10000), (''packetLossPercent'', number_upto 100),
          (''bitrateBps'', number_upto 1000000000), (''codec'', short_text 64)])),
      (''rtc.offer'', client_description),
      (''rtc.answer'', client_description),
      (''rtc.candidate'', plain [(''version'', legacyVersionField), (''callId'', idField), (''candidate'', opaque)]),
      (''rtc.ice'', plain (negotiated currentVersionField @ [(''candidate'', opaque)])),
      (''call.media-state'', plain (of_call @ [(''mediaState'', opaque)])),
      (''message.send'', messageSend),
      (''message.delete'', messageDelete),
      (''message.react'', messageReact),
      (''message.typing'', messageTyping),
      (''conversation.create'', plain
         [(''version'', versionField), (''name'', short_text 128), (''inviteeIds'', array_schema idField)]),
      (''conversation.update'', plain (of_conversation @ [(''name'', short_text 128)])),
      (''conversation.member.add'', plain (of_conversation @ [(''userIds'', array_schema idField)])),
      (''conversation.member.remove'', plain (of_conversation @ [(''userId'', idField)])),
      (''conversation.leave'', plain of_conversation),
      (''conversation.call.start'', plain (of_conversation @ [(''mediaType'', optional mediaType)])),
      (''conversation.call.accept'', plain of_call),
      (''conversation.call.decline'', plain of_call),
      (''conversation.call.leave'', plain of_call),
      (''group.call.restart-request'', plain (negotiated currentVersionField)),
      (''group.call.media-state'', plain (negotiated currentVersionField @ [(''mediaState'', opaque)]))]"

section \<open>Server to client\<close>

definition inbound :: "(string \<times> schema) list" where "inbound = [(''version'', inboundVersionField)]"

definition server_description :: schema where
  "server_description = union_schema
     [plain [(''version'', optional legacyVersionField), (''callId'', idField), (''fromUserId'', optional idField), (''sdp'', opaque)],
      plain (negotiated currentVersionField @ [(''fromUserId'', optional idField), (''sdp'', opaque)])]"

definition optionalText :: schema where "optionalText = optional (nullable any_text)"

definition groupCallRecord :: schema where
  "groupCallRecord = passing
     [(''callId'', idField), (''conversationId'', idField), (''initiatorId'', idField), (''mediaType'', mediaType),
      (''status'', enumOf [''ringing'', ''active'', ''ended'']), (''stateVersion'', whole_from 1), (''ringTimeoutAt'', maybe any_text)]"

definition groupCallParticipant :: schema where
  "groupCallParticipant = passing
     [(''callId'', idField), (''userId'', idField), (''status'', enumOf [''ringing'', ''accepted'', ''declined'', ''left'']),
      (''invitedAt'', any_text), (''acceptedAt'', maybe any_text), (''leftAt'', maybe any_text)]"

definition SERVER_EVENT_SCHEMAS :: "(string \<times> schema) list" where
  "SERVER_EVENT_SCHEMAS =
     [(''call.incoming'', plain (inbound @ [(''callId'', optional idField), (''call'', callRecord)])),
      (''call.ringing'', plain (inbound @
         [(''callId'', optional idField), (''call'', callRecord), (''delivery'', optional (enumOf [''ringing'', ''push'']))])),
      (''call.state_changed'', plain (inbound @
         [(''callId'', optionalId), (''previousStatus'', optionalText), (''status'', some_text), (''actor'', optionalText),
          (''reason'', optionalText), (''call'', maybe callRecord)])),
      (''call.participant.joined'', plain
         [(''version'', currentVersionField), (''callId'', idField), (''participantId'', idField), (''state'', literal (J_String ''joined''))]),
      (''call.participant.left'', plain
         [(''version'', currentVersionField), (''callId'', idField), (''participantId'', idField),
          (''state'', enumOf [''left'', ''declined'', ''missed''])]),
      (''rtc.offer'', server_description),
      (''rtc.answer'', server_description),
      (''rtc.candidate'', plain
         [(''version'', optional legacyVersionField), (''callId'', idField), (''fromUserId'', optional idField), (''candidate'', opaque)]),
      (''rtc.ice'', plain (negotiated currentVersionField @ [(''fromUserId'', optional idField), (''candidate'', opaque)])),
      (''call.media-state'', plain (inbound @ [(''callId'', idField), (''fromUserId'', optional idField), (''mediaState'', opaque)])),
      (''message.received'', plain (inbound @ [(''conversationId'', optional idField), (''message'', messageRecord)])),
      (''message.delivered'', plain (inbound @
         [(''conversationId'', optional idField), (''messageId'', optional idField), (''message'', messageRecord)])),
      (''message.deleted'', plain (inbound @
         [(''conversationId'', optional idField), (''messageId'', idField), (''deletedBy'', idField), (''message'', maybe messageRecord)])),
      (''message.reaction'', plain (inbound @
         [(''conversationId'', optional idField), (''messageId'', idField), (''reactions'', reactionsField), (''actorId'', idField),
          (''emoji'', some_text), (''action'', enumOf [''add'', ''remove''])])),
      (''message.read'', plain (inbound @ [(''conversationId'', optional idField), (''readerId'', idField), (''readAt'', some_text)])),
      (''message.typing'', plain (inbound @
         [(''conversationId'', optional idField), (''senderId'', idField), (''isTyping'', boolean_schema)])),
      (''conversation.updated'', plain (inbound @ [(''conversation'', conversationRecord), (''updatedBy'', idField)])),
      (''conversation.call.updated'', plain (inbound @
         [(''conversationId'', idField), (''callId'', idField), (''call'', groupCallRecord),
          (''participants'', array_schema groupCallParticipant)])),
      (''group.call.restart-request'', plain (negotiated inboundVersionField @ [(''fromUserId'', idField)])),
      (''group.call.media-state'', plain (negotiated inboundVersionField @ [(''fromUserId'', idField), (''mediaState'', opaque)])),
      (''session.invalid'', plain [(''sessionId'', maybe any_text)]),
      (''server.draining'', plain [(''reason'', optional any_text), (''ts'', optional any_text)]),
      (''signaling.error'', passing
         [(''ok'', boolean_schema), (''version'', inboundVersionField), (''event'', some_text),
          (''error'', plain [(''code'', some_text), (''message'', any_text)])])]"

definition CALL_TRANSITION_NOTIFICATION :: schema where
  "CALL_TRANSITION_NOTIFICATION = plain
     (of_call @ [(''actor'', optionalText), (''reason'', optionalText), (''call'', callRecord)])"

definition ACK_SCHEMA :: schema where
  "ACK_SCHEMA = passing
     [(''ok'', boolean_schema), (''version'', versionField), (''event'', some_text),
      (''error'', optional (passing [(''code'', some_text), (''message'', any_text)]))]"

section \<open>Lookup\<close>

datatype direction = From_Client | From_Server

definition getEventSchema :: "string \<Rightarrow> direction \<Rightarrow> schema option" where
  "getEventSchema event d = map_of (if d = From_Server then SERVER_EVENT_SCHEMAS else CLIENT_EVENT_SCHEMAS) event"

text \<open>An event without a contract passes through.\<close>

definition parseEventPayload :: "string \<Rightarrow> json \<Rightarrow> direction \<Rightarrow> parse_failure + json" where
  "parseEventPayload event payload d =
     (case getEventSchema event d of None \<Rightarrow> Inr payload | Some s \<Rightarrow> safeParse s payload)"

end
