(* ===== verification/SchemaProperties.thy ===== *)
theory SchemaProperties
  imports EventSchemas
begin

text \<open>
  What validation promises: an accepted payload is accepted again, unchanged, on the other edge, and a handler
  finds the fields it reads with the types it expects, and no others.
\<close>

section \<open>Stable schemas\<close>

text \<open>What it lets through it lets through again, wherever it stands; and only \<open>undefined\<close> becomes \<open>undefined\<close>.\<close>

definition stable :: "schema \<Rightarrow> bool" where
  "stable s = (\<forall>v p d. sc_parse s v p = Inr d \<longrightarrow> (d = J_Undefined \<longleftrightarrow> v = J_Undefined) \<and> (\<forall>p'. sc_parse s d p' = Inr d))"

named_theorems stable_intros \<open>schemas whose accepted values are accepted again\<close>

lemma stableI:
  assumes "\<And>v p d. sc_parse s v p = Inr d \<Longrightarrow> d = J_Undefined \<longleftrightarrow> v = J_Undefined"
    and "\<And>v p d p'. sc_parse s v p = Inr d \<Longrightarrow> sc_parse s d p' = Inr d"
  shows "stable s"
  using assms by (simp add: stable_def)

lemma stableD:
  assumes "stable s" and "sc_parse s v p = Inr d"
  shows "d = J_Undefined \<longleftrightarrow> v = J_Undefined" and "sc_parse s d p' = Inr d"
  using assms by (simp_all add: stable_def)

lemma fail_not_Inr [simp]: "fail p m \<noteq> Inr d" "fail p m = Inl e \<longleftrightarrow> e = (if p \<noteq> [] then p @ '': '' @ m else m, p)"
  by (auto simp: fail_def)

lemma case_fail [simp]: "(case fail p m of Inl x \<Rightarrow> f x | Inr d \<Rightarrow> g d) = f (if p \<noteq> [] then p @ '': '' @ m else m, p)"
  by (simp add: fail_def)

lemma createSchema_parse [simp]: "sc_parse (createSchema f) = f"
  by (simp add: createSchema_def)

lemma trim_ends: "trim x \<noteq> [] \<Longrightarrow> \<not> space_char (hd (trim x)) \<and> \<not> space_char (last (trim x))"
proof -
  let ?y = "dropWhile space_char x"
  let ?z = "dropWhile space_char (rev ?y)"
  assume "trim x \<noteq> []"
  then have z: "?z \<noteq> []" by (simp add: trim_def)
  then have "?y \<noteq> []" by (metis dropWhile.simps(1) rev.simps(1))
  have "rev ?y = takeWhile space_char (rev ?y) @ ?z" by simp
  then have "last ?z = last (rev ?y)" using z by (metis last_appendR)
  also have "\<dots> = hd ?y" using \<open>?y \<noteq> []\<close> by (simp add: last_rev)
  finally have "\<not> space_char (last ?z)" using hd_dropWhile [of space_char x] \<open>?y \<noteq> []\<close> by simp
  then show ?thesis using z hd_dropWhile [of space_char "rev ?y"] by (simp add: trim_def hd_rev last_rev)
qed

lemma trim_idem [simp]: "trim (trim x) = trim x"
proof (cases "trim x = []")
  case True
  have "trim [] = []" by (simp add: trim_def)
  then show ?thesis using True by (simp only:)
next
  case False
  then have e: "\<not> space_char (hd (trim x))" "\<not> space_char (last (trim x))" using trim_ends by blast+
  then have "dropWhile space_char (trim x) = trim x" "dropWhile space_char (rev (trim x)) = rev (trim x)"
    using False by (simp_all add: dropWhile_eq_self_iff hd_rev)
  then show ?thesis unfolding trim_def [of "trim x"] by simp
qed

lemma stable_string [stable_intros]: "stable (string_schema mn mx tr)"
  by (rule stableI) (auto simp: string_schema_def Let_def split: json.splits if_splits)

lemma stable_id [stable_intros]: "stable (id_schema mx)"
  by (simp add: id_schema_def stable_string)

lemma stable_number [stable_intros]: "stable (number_schema mn mx whole)"
  by (rule stableI) (auto simp: number_schema_def split: json.splits option.splits if_splits)

lemma stable_boolean [stable_intros]: "stable boolean_schema"
  by (rule stableI) (auto simp: boolean_schema_def split: json.splits)

lemma stable_literal [stable_intros]: "stable (literal x)"
  by (rule stableI) (auto simp: literal_def split: if_splits)

lemma stable_enum [stable_intros]: "stable (enumOf xs)"
  by (rule stableI) (auto simp: enumOf_def split: json.splits if_splits)

lemma stable_opaque [stable_intros]: "stable opaque"
  by (rule stableI) (auto simp: opaque_def split: if_splits)

lemma stable_unknown [stable_intros]: "stable unknown_schema"
  by (simp add: stable_def unknown_schema_def)

lemma stable_optional [stable_intros]: "stable s \<Longrightarrow> stable (optional s)"
  by (auto simp: stable_def optional_def)

lemma stable_nullable [stable_intros]: "stable s \<Longrightarrow> stable (nullable s)"
  by (auto simp: stable_def nullable_def)

subsection \<open>Arrays and records\<close>

lemma items_stable:
  assumes "stable s" and "parse_items s p i vs = Inr ds"
  shows "parse_items s p' j ds = Inr ds"
  using assms(2)
proof (induction vs arbitrary: i j ds)
  case (Cons v vs)
  then show ?case using stableD(2) [OF assms(1)] by (auto split: sum.splits)
qed simp

lemma stable_array [stable_intros]:
  assumes "stable s"
  shows "stable (array_schema s)"
  by (rule stableI)
    (auto simp: array_schema_def map_sum_def items_stable [OF assms] split: json.splits sum.splits)

lemma set_updateD: "(k', d') \<in> set (AList.update k d al) \<Longrightarrow> (k', d') = (k, d) \<or> (k', d') \<in> set al"
  by (induction al) (auto split: if_splits)

lemma entries_accept:
  assumes "stable s" and "parse_entries s fs p acc = Inr ds" and "distinct (map fst acc)"
    and "\<forall>(k, d) \<in> set acc. \<forall>p'. sc_parse s d p' = Inr d"
  shows "distinct (map fst ds) \<and> (\<forall>(k, d) \<in> set ds. \<forall>p'. sc_parse s d p' = Inr d)"
  using assms(2-)
proof (induction fs arbitrary: acc)
  case (Cons kv fs)
  obtain k v where kv: "kv = (k, v)" by fastforce
  then obtain d where d: "sc_parse s v (joinPath p k) = Inr d" "parse_entries s fs p (AList.update k d acc) = Inr ds"
    using Cons.prems(1) by (auto split: sum.splits)
  have "\<forall>(k', d') \<in> set (AList.update k d acc). \<forall>p'. sc_parse s d' p' = Inr d'"
    using Cons.prems(3) stableD(2) [OF assms(1) d(1)] by (auto dest!: set_updateD)
  then show ?case using Cons.IH [OF d(2)] Cons.prems(2) by (simp add: distinct_update)
qed simp

lemma entries_again:
  assumes "distinct (map fst (acc @ fs))" and "\<forall>(k, d) \<in> set fs. \<forall>p'. sc_parse s d p' = Inr d"
  shows "parse_entries s fs p acc = Inr (acc @ fs)"
  using assms
proof (induction fs arbitrary: acc)
  case (Cons kv fs)
  obtain k v where kv: "kv = (k, v)" by fastforce
  then have "AList.update k v acc = acc @ [(k, v)]" using Cons.prems(1) by (simp add: update_fresh)
  then show ?case using Cons kv by (simp add: Cons.IH [of "acc @ [(k, v)]"])
qed simp

lemma stable_record [stable_intros]:
  assumes "stable s"
  shows "stable (record_schema s)"
proof (rule stableI)
  fix v p d p'
  assume *: "sc_parse (record_schema s) v p = Inr d"
  then obtain fs ds where v: "v = J_Object fs" "d = J_Object ds" "parse_entries s fs p [] = Inr ds"
    by (auto simp: record_schema_def map_sum_def split: json.splits sum.splits)
  then show "d = J_Undefined \<longleftrightarrow> v = J_Undefined" by simp
  have "parse_entries s ds p' [] = Inr ds"
    using entries_again [of "[]" ds s p'] entries_accept [OF assms v(3)] by simp
  then show "sc_parse (record_schema s) d p' = Inr d" by (simp add: record_schema_def v)
qed

subsection \<open>Objects\<close>

text \<open>The fields \<open>g\<close> has of a shape, in its order.\<close>

fun picked :: "(string \<times> schema) list \<Rightarrow> (string \<Rightarrow> json option) \<Rightarrow> fields" where
  "picked [] g = []"
| "picked ((k, s) # shape) g = (case g k of Some d \<Rightarrow> (k, d) # picked shape g | None \<Rightarrow> picked shape g)"

lemma picked_key: "(k, d) \<in> set (picked shape g) \<Longrightarrow> k \<in> fst ` set shape \<and> g k = Some d"
  by (induction shape) (auto split: option.splits)

lemma picked_map_of: "k \<in> fst ` set shape \<Longrightarrow> map_of (picked shape g) k = g k"
proof (induction shape)
  case (Cons ks shape)
  have "map_of (picked shape g) k = None" if "k \<notin> fst ` set shape"
    using that by (auto simp: map_of_eq_None_iff dest: picked_key)
  then show ?case using Cons by (cases ks; cases "k \<in> fst ` set shape") (auto split: option.splits)
qed simp

lemma picked_cong: "\<forall>k \<in> fst ` set shape. g k = g' k \<Longrightarrow> picked shape g = picked shape g'"
  by (induction shape) (auto split: option.splits)

definition undefined_or :: "json option \<Rightarrow> json" where
  "undefined_or x = (case x of Some d \<Rightarrow> d | None \<Rightarrow> J_Undefined)"

lemma field_of_undefined: "field_of k fs = undefined_or (map_of fs k)"
  by (simp add: field_of_def undefined_or_def)

text \<open>The results of the loop over the shape: of each field the value \<open>g\<close> gives, or nothing.\<close>

definition field_parse :: "schema \<Rightarrow> fields \<Rightarrow> string \<Rightarrow> json option \<Rightarrow> bool" where
  "field_parse s fs k x =
     (\<exists>p d. sc_parse s (field_of k fs) p = Inr d \<and> x = (if d \<noteq> J_Undefined \<or> k \<in> fst ` set fs then Some d else None))"

definition fields_parse :: "(string \<times> schema) list \<Rightarrow> fields \<Rightarrow> (string \<Rightarrow> json option) \<Rightarrow> bool" where
  "fields_parse shape fs g = (\<forall>(k, s) \<in> set shape. field_parse s fs k (g k))"

lemma stripped_fields:
  assumes "parse_fields shape fs p acc = Inr parsed" and "distinct (map fst acc @ map fst shape)"
  shows "\<exists>g. parsed = acc @ picked shape g \<and> fields_parse shape fs g"
  using assms
proof (induction shape arbitrary: acc)
  case (Cons ks shape)
  obtain k s where ks: "ks = (k, s)" by fastforce
  then obtain d where d: "sc_parse s (field_of k fs) (joinPath p k) = Inr d"
    and rest: "parse_fields shape fs p (if d \<noteq> J_Undefined \<or> k \<in> fst ` set fs then AList.update k d acc else acc) = Inr parsed"
    using Cons.prems(1) by (auto split: sum.splits)
  let ?v = "if d \<noteq> J_Undefined \<or> k \<in> fst ` set fs then Some d else None"
  let ?acc = "acc @ (case ?v of Some d \<Rightarrow> [(k, d)] | None \<Rightarrow> [])"
  have "parse_fields shape fs p ?acc = Inr parsed"
    using rest Cons.prems(2) ks by (cases "d = J_Undefined \<and> k \<notin> fst ` set fs") (simp_all add: update_fresh)
  moreover have "distinct (map fst ?acc @ map fst shape)" using Cons.prems(2) ks by auto
  ultimately obtain g where g: "parsed = ?acc @ picked shape g" "fields_parse shape fs g"
    using Cons.IH by blast
  have k: "k \<notin> fst ` set shape" using Cons.prems(2) ks by auto
  define x where "x = ?v"
  let ?g = "g(k := x)"
  have "picked shape ?g = picked shape g" using k by (intro picked_cong) auto
  then have "parsed = acc @ picked (ks # shape) ?g"
    using g(1) ks by (cases "d = J_Undefined \<and> k \<notin> fst ` set fs") (simp_all add: x_def)
  moreover have "fields_parse (ks # shape) fs ?g"
  proof -
    have "field_parse t fs j (?g j)" if "(j, t) \<in> set shape" for j t
    proof -
      have "j \<noteq> k" using that k by force
      then show ?thesis using g(2) that by (auto simp: fields_parse_def)
    qed
    moreover have "field_parse s fs k (?g k)"
      using d unfolding field_parse_def x_def by (intro exI [of _ "joinPath p k"] exI [of _ d]) simp
    ultimately show ?thesis unfolding fields_parse_def ks by (auto simp del: fun_upd_apply)
  qed
  ultimately show ?case by blast
qed (simp add: fields_parse_def)

lemma stripped_again:
  assumes "distinct (map fst acc @ map fst shape)"
    and "\<forall>(k, s) \<in> set shape. field_of k fs = undefined_or (g k) \<and> (k \<in> fst ` set fs \<longleftrightarrow> g k \<noteq> None) \<and>
      (\<forall>p. sc_parse s (undefined_or (g k)) p = Inr (undefined_or (g k)))"
  shows "parse_fields shape fs p acc = Inr (acc @ picked shape g)"
  using assms
proof (induction shape arbitrary: acc)
  case (Cons ks shape)
  obtain k s where ks: "ks = (k, s)" by fastforce
  let ?acc = "acc @ (case g k of Some d \<Rightarrow> [(k, d)] | None \<Rightarrow> [])"
  have "parse_fields shape fs p ?acc = Inr (?acc @ picked shape g)"
    using Cons.prems ks by (intro Cons.IH) (auto split: option.splits)
  then show ?case
    using Cons.prems ks by (auto simp: update_fresh undefined_or_def split: option.splits)
qed simp

lemma stripped_stable:
  assumes "parse_fields shape fs p [] = Inr parsed" and "distinct (map fst shape)" and "\<forall>(k, s) \<in> set shape. stable s"
  shows "parse_fields shape parsed p' [] = Inr parsed"
    and "k \<in> fst ` set shape \<Longrightarrow> given k parsed = given k fs"
    and "fst ` set parsed \<subseteq> fst ` set shape"
    and "(k, s) \<in> set shape \<Longrightarrow> sc_parse s (field_of k parsed) p' = Inr (field_of k parsed)"
proof -
  obtain g where g: "parsed = picked shape g" "fields_parse shape fs g"
    using stripped_fields [OF assms(1)] assms(2) by auto
  have field: "field_of k parsed = undefined_or (g k) \<and> (k \<in> fst ` set parsed \<longleftrightarrow> g k \<noteq> None) \<and>
      (undefined_or (g k) = J_Undefined \<longleftrightarrow> field_of k fs = J_Undefined) \<and>
      (\<forall>p. sc_parse s (undefined_or (g k)) p = Inr (undefined_or (g k)))" if k: "(k, s) \<in> set shape" for k s
  proof -
    have m: "map_of parsed k = g k" using picked_map_of [of k shape g] k g(1) by force
    obtain q d where d: "sc_parse s (field_of k fs) q = Inr d" "g k = (if d \<noteq> J_Undefined \<or> k \<in> fst ` set fs then Some d else None)"
      using g(2) k unfolding fields_parse_def field_parse_def by blast
    have "undefined_or (g k) = d" using d(2) by (simp add: undefined_or_def)
    moreover have "k \<in> fst ` set parsed \<longleftrightarrow> g k \<noteq> None" using m by (metis map_of_eq_None_iff)
    moreover have "stable s" using assms(3) k by blast
    ultimately show ?thesis using stableD [OF _ d(1)] m by (simp add: field_of_undefined)
  qed
  have "\<forall>(k, s) \<in> set shape. field_of k parsed = undefined_or (g k) \<and> (k \<in> fst ` set parsed \<longleftrightarrow> g k \<noteq> None) \<and>
      (\<forall>p. sc_parse s (undefined_or (g k)) p = Inr (undefined_or (g k)))"
    using field by blast
  then show "parse_fields shape parsed p' [] = Inr parsed"
    using stripped_again [of "[]" shape parsed g p'] assms(2) g(1) by simp
  show "k \<in> fst ` set shape \<Longrightarrow> given k parsed = given k fs"
    using field by (fastforce simp: given_def)
  show "fst ` set parsed \<subseteq> fst ` set shape" using g(1) picked_key by fastforce
  show "(k, s) \<in> set shape \<Longrightarrow> sc_parse s (field_of k parsed) p' = Inr (field_of k parsed)"
    using field by force
qed

text \<open>With \<open>passthrough\<close> the fields are overwritten where they stand.\<close>

lemma update_stored: "map_of al k = Some v \<Longrightarrow> AList.update k v al = al"
  by (induction al) (auto split: if_splits)

lemma keys_update: "fst ` set (AList.update k v al) = insert k (fst ` set al)"
  by (induction al) auto

lemma passed_fields:
  assumes "parse_fields shape fs p acc = Inr parsed" and "distinct (map fst shape)" and "\<forall>(k, s) \<in> set shape. stable s"
    and "\<forall>k \<in> fst ` set shape. k \<in> fst ` set acc \<longleftrightarrow> k \<in> fst ` set fs"
  shows "(\<forall>k. k \<notin> fst ` set shape \<longrightarrow> map_of parsed k = map_of acc k) \<and>
    (\<forall>(k, s) \<in> set shape. (k \<in> fst ` set fs \<longrightarrow> k \<in> fst ` set parsed) \<and>
      (field_of k parsed = J_Undefined \<longleftrightarrow> field_of k fs = J_Undefined) \<and>
      (\<forall>p'. sc_parse s (field_of k parsed) p' = Inr (field_of k parsed)))"
  using assms
proof (induction shape arbitrary: acc)
  case (Cons ks shape)
  obtain k s where ks: "ks = (k, s)" by fastforce
  then obtain d where d: "sc_parse s (field_of k fs) (joinPath p k) = Inr d"
    and rest: "parse_fields shape fs p (if d \<noteq> J_Undefined \<or> k \<in> fst ` set fs then AList.update k d acc else acc) = Inr parsed"
    using Cons.prems(1) by (auto split: sum.splits)
  let ?acc = "if d \<noteq> J_Undefined \<or> k \<in> fst ` set fs then AList.update k d acc else acc"
  have k: "k \<notin> fst ` set shape" "stable s" using Cons.prems(2,3) ks by auto
  have "\<forall>k \<in> fst ` set shape. k \<in> fst ` set ?acc \<longleftrightarrow> k \<in> fst ` set fs"
    using Cons.prems(4) k(1) ks by (auto simp: keys_update)
  note IH = Cons.IH [OF rest _ _ this]
  have ih: "(\<forall>j. j \<notin> fst ` set shape \<longrightarrow> map_of parsed j = map_of ?acc j) \<and>
    (\<forall>(j, t) \<in> set shape. (j \<in> fst ` set fs \<longrightarrow> j \<in> fst ` set parsed) \<and>
      (field_of j parsed = J_Undefined \<longleftrightarrow> field_of j fs = J_Undefined) \<and>
      (\<forall>p'. sc_parse t (field_of j parsed) p' = Inr (field_of j parsed)))"
    using IH Cons.prems(2,3) ks by simp
  then have m: "map_of parsed k = map_of ?acc k" using k(1) by blast
  have acc: "k \<notin> fst ` set fs \<Longrightarrow> map_of acc k = None" using Cons.prems(4) ks by (auto simp: map_of_eq_None_iff)
  have f: "field_of k parsed = d \<and> (k \<in> fst ` set fs \<longrightarrow> k \<in> fst ` set parsed)"
  proof (cases "d = J_Undefined \<and> k \<notin> fst ` set fs")
    case True
    then show ?thesis using m acc by (simp add: field_of_def)
  next
    case False
    then have "map_of parsed k = Some d" using m by (simp add: update_conv)
    then show ?thesis by (simp add: field_of_def) (metis map_of_eq_None_iff option.distinct(1))
  qed
  have "(k \<in> fst ` set fs \<longrightarrow> k \<in> fst ` set parsed) \<and> (field_of k parsed = J_Undefined \<longleftrightarrow> field_of k fs = J_Undefined) \<and>
      (\<forall>p'. sc_parse s (field_of k parsed) p' = Inr (field_of k parsed))"
    using f stableD [OF k(2) d] by simp
  moreover have "\<forall>j. j \<notin> fst ` set (ks # shape) \<longrightarrow> map_of parsed j = map_of acc j"
    using ih ks by (auto simp: update_conv)
  ultimately show ?case using ih ks by simp
qed simp

lemma passed_again:
  assumes "\<forall>(k, s) \<in> set shape. sc_parse s (field_of k parsed) (joinPath p k) = Inr (field_of k parsed)"
  shows "parse_fields shape parsed p parsed = Inr parsed"
  using assms
proof (induction shape)
  case (Cons ks shape)
  obtain k s where ks: "ks = (k, s)" by fastforce
  have "(if field_of k parsed \<noteq> J_Undefined \<or> k \<in> fst ` set parsed then AList.update k (field_of k parsed) parsed else parsed) = parsed"
  proof (cases "map_of parsed k")
    case None
    then have "k \<notin> fst ` set parsed" by (simp add: map_of_eq_None_iff)
    then show ?thesis using None by (simp add: field_of_def)
  next
    case (Some v)
    then show ?thesis by (simp add: field_of_def update_stored)
  qed
  then show ?case using Cons ks by simp
qed simp

definition stable_shape :: "(string \<times> schema) list \<Rightarrow> bool" where
  "stable_shape shape = (distinct (map fst shape) \<and> list_all (\<lambda>(k, s). stable s) shape)"

lemma object_fields:
  assumes "stable_shape shape" and "parse_fields shape fs p (if pass then fs else []) = Inr parsed"
  shows "parse_fields shape parsed p' (if pass then parsed else []) = Inr parsed"
    and "k \<in> fst ` set shape \<Longrightarrow> given k parsed = given k fs"
    and "(k, s) \<in> set shape \<Longrightarrow> sc_parse s (field_of k parsed) p' = Inr (field_of k parsed)"
    and "\<not> pass \<Longrightarrow> fst ` set parsed \<subseteq> fst ` set shape"
proof -
  have d: "distinct (map fst shape)" and st: "\<forall>(k, s) \<in> set shape. stable s"
    using assms(1) by (auto simp: stable_shape_def list_all_iff)
  have plain: "parse_fields shape fs p [] = Inr parsed" if "\<not> pass" using assms(2) that by simp
  have over: "(\<forall>k. k \<notin> fst ` set shape \<longrightarrow> map_of parsed k = map_of fs k) \<and>
    (\<forall>(k, s) \<in> set shape. (k \<in> fst ` set fs \<longrightarrow> k \<in> fst ` set parsed) \<and>
      (field_of k parsed = J_Undefined \<longleftrightarrow> field_of k fs = J_Undefined) \<and>
      (\<forall>p'. sc_parse s (field_of k parsed) p' = Inr (field_of k parsed)))" if pass
    using passed_fields [of shape fs p fs parsed] assms(2) d st that by simp
  have gv: "given k parsed = given k fs" if k: "k \<in> fst ` set shape" for k
  proof (cases pass)
    case True
    obtain s where "(k, s) \<in> set shape" using k by force
    then show ?thesis using over [OF True] by (fastforce simp: given_def)
  next
    case False
    from stripped_stable(2) [OF plain [OF False] d st k] show ?thesis .
  qed
  have ks: "sc_parse s (field_of k parsed) p' = Inr (field_of k parsed)" if k: "(k, s) \<in> set shape" for k s p'
  proof (cases pass)
    case True
    then show ?thesis using over k by blast
  next
    case False
    from stripped_stable(4) [OF plain [OF False] d st k] show ?thesis .
  qed
  show "k \<in> fst ` set shape \<Longrightarrow> given k parsed = given k fs"
    and "(k, s) \<in> set shape \<Longrightarrow> sc_parse s (field_of k parsed) p' = Inr (field_of k parsed)" by (simp_all add: gv ks)
  show "\<not> pass \<Longrightarrow> fst ` set parsed \<subseteq> fst ` set shape" using stripped_stable(3) [OF plain d st] by simp
  show "parse_fields shape parsed p' (if pass then parsed else []) = Inr parsed"
    using stripped_stable(1) [OF plain d st] passed_again [of shape parsed p'] ks by (cases pass) auto
qed

lemma object_accepted:
  assumes "sc_parse (object_schema shape pass exclusive) v p = Inr d"
  obtains raw fs where "v = J_Object raw" "d = J_Object fs" "parse_fields shape raw p (if pass then raw else []) = Inr fs"
    "find (\<lambda>(l, r). given l raw = given r raw) exclusive = None"
  using assms that by (auto simp: object_schema_def split: json.splits sum.splits option.splits)

lemma stable_object [stable_intros]:
  assumes "stable_shape shape" and "list_all (\<lambda>(l, r). l \<in> fst ` set shape \<and> r \<in> fst ` set shape) exclusive"
  shows "stable (object_schema shape pass exclusive)"
proof (rule stableI)
  fix v p d p'
  assume "sc_parse (object_schema shape pass exclusive) v p = Inr d"
  then obtain fs parsed where v: "v = J_Object fs" "d = J_Object parsed"
      "parse_fields shape fs p (if pass then fs else []) = Inr parsed"
    and none: "find (\<lambda>(l, r). given l fs = given r fs) exclusive = None"
    by (rule object_accepted)
  show "d = J_Undefined \<longleftrightarrow> v = J_Undefined" using v by simp
  have "find (\<lambda>(l, r). given l parsed = given r parsed) exclusive = None"
    using none assms(2)
  proof (induction exclusive)
    case (Cons lr rest)
    then show ?case using object_fields(2) [OF assms(1) v(3)] by (cases lr) (auto split: if_splits)
  qed simp
  then show "sc_parse (object_schema shape pass exclusive) d p' = Inr d"
    using object_fields(1) [OF assms(1) v(3)] by (simp add: object_schema_def v(2))
qed

lemma stable_plain [stable_intros]: "stable_shape shape \<Longrightarrow> stable (plain shape)"
  and stable_passing [stable_intros]: "stable_shape shape \<Longrightarrow> stable (passing shape)"
  by (simp_all add: plain_def passing_def stable_object)

lemma stable_shape_simps [stable_intros]:
  "stable_shape []"
  "stable_shape ((k, s) # shape) = (stable s \<and> k \<notin> set (map fst shape) \<and> stable_shape shape)"
  by (auto simp: stable_shape_def)

lemma stable_union:
  assumes "stable s" and "stable t" and "\<And>v p d p'. sc_parse t v p = Inr d \<Longrightarrow> \<exists>e. sc_parse s d p' = Inl e"
  shows "stable (union_schema [s, t])"
proof (rule stableI)
  fix v p d p'
  assume "sc_parse (union_schema [s, t]) v p = Inr d"
  then have c: "sc_parse s v p = Inr d \<or> sc_parse t v p = Inr d" by (auto simp: union_schema_def split: sum.splits)
  then show "d = J_Undefined \<longleftrightarrow> v = J_Undefined" using stableD(1) assms(1,2) by blast
  from c show "sc_parse (union_schema [s, t]) d p' = Inr d"
  proof
    assume "sc_parse s v p = Inr d"
    from stableD(2) [OF assms(1) this] show ?thesis by (simp add: union_schema_def)
  next
    assume t: "sc_parse t v p = Inr d"
    obtain e where "sc_parse s d p' = Inl e" using assms(3) [OF t] by blast
    with stableD(2) [OF assms(2) t] show ?thesis by (simp add: union_schema_def)
  qed
qed

section \<open>The events\<close>

lemma stable_version [stable_intros]: "stable legacyVersionField" "stable currentVersionField" "stable versionField"
proof -
  show l: "stable legacyVersionField" and c: "stable currentVersionField"
    by (simp_all add: legacyVersionField_def currentVersionField_def version_literal_def stable_literal)
  show "stable versionField"
    unfolding versionField_def
    by (rule stable_union [OF l c])
      (auto simp: legacyVersionField_def currentVersionField_def version_literal_def literal_def
        LEGACY_SIGNALING_VERSION_def SIGNALING_VERSION_def split: if_splits)
qed

text \<open>What the current form of a signal lets through the old form refuses.\<close>

lemma current_not_legacy:
  assumes "stable_shape shape" and "(''version'', currentVersionField) \<in> set shape" and "sc_parse (plain shape) v p = Inr d"
    and "s = legacyVersionField \<or> s = optional legacyVersionField"
  shows "\<exists>e. sc_parse (plain ((''version'', s) # rest)) d p' = Inl e"
proof -
  obtain fs parsed where v: "d = J_Object parsed" "parse_fields shape fs p (if False then fs else []) = Inr parsed"
    using assms(3) by (auto simp: plain_def elim!: object_accepted)
  have "sc_parse currentVersionField (field_of ''version'' parsed) p' = Inr (field_of ''version'' parsed)"
    using object_fields(3) [OF assms(1) v(2) assms(2)] by simp
  then have f: "field_of ''version'' parsed = J_Number (Some 3)"
    by (auto simp: currentVersionField_def version_literal_def literal_def SIGNALING_VERSION_def split: if_splits)
  have "\<exists>e. sc_parse s (J_Number (Some 3)) q = Inl e" for q
    using assms(4) by (auto simp: optional_def legacyVersionField_def version_literal_def literal_def LEGACY_SIGNALING_VERSION_def)
  then obtain e where "sc_parse s (J_Number (Some 3)) (joinPath p' ''version'') = Inl e" by blast
  then show ?thesis using f v(1) by (simp add: plain_def object_schema_def)
qed

lemma stable_pieces [stable_intros]:
  "stable idField" "stable optionalId" "stable any_text" "stable some_text" "stable (short_text n)" "stable (whole_from n)"
  "stable (number_upto n)" "stable mediaType" "stable inboundVersionField" "stable negotiationField" "stable optionalText"
  "stable r \<Longrightarrow> stable (maybe r)"
  by (simp_all add: idField_def optionalId_def any_text_def some_text_def short_text_def whole_from_def number_upto_def
      mediaType_def inboundVersionField_def negotiationField_def optionalText_def maybe_def stable_intros)

lemma stable_records [stable_intros]:
  "stable callParticipant" "stable attachmentRecord" "stable reactionsField" "stable conversationRecord"
  "stable groupCallRecord" "stable groupCallParticipant"
  by (simp_all add: callParticipant_def attachmentRecord_def reactionsField_def conversationRecord_def
      groupCallRecord_def groupCallParticipant_def stable_intros)

lemma stable_call_message [stable_intros]: "stable callRecord" "stable messageRecord"
  by (simp_all add: callRecord_def messageRecord_def stable_intros)

lemma stable_descriptions [stable_intros]: "stable client_description" "stable server_description"
proof -
  have s: "stable_shape (negotiated currentVersionField @ [(''sdp'', opaque)])"
    "stable_shape (negotiated currentVersionField @ [(''fromUserId'', optional idField), (''sdp'', opaque)])"
    by (simp_all add: negotiated_def stable_intros)
  show "stable client_description" unfolding client_description_def
  proof (rule stable_union)
    fix v p d p'
    assume "sc_parse (plain (negotiated currentVersionField @ [(''sdp'', opaque)])) v p = Inr d"
    then show "\<exists>e. sc_parse (plain [(''version'', legacyVersionField), (''callId'', idField), (''sdp'', opaque)]) d p' = Inl e"
      by (rule current_not_legacy [OF s(1), rotated]) (simp_all add: negotiated_def)
  qed (simp_all add: s stable_intros)
  show "stable server_description" unfolding server_description_def
  proof (rule stable_union)
    fix v p d p'
    assume "sc_parse (plain (negotiated currentVersionField @ [(''fromUserId'', optional idField), (''sdp'', opaque)])) v p = Inr d"
    then show "\<exists>e. sc_parse (plain [(''version'', optional legacyVersionField), (''callId'', idField),
        (''fromUserId'', optional idField), (''sdp'', opaque)]) d p' = Inl e"
      by (rule current_not_legacy [OF s(2), rotated]) (simp_all add: negotiated_def)
  qed (simp_all add: s stable_intros)
qed

lemma stable_chat [stable_intros]: "stable messageSend" "stable messageDelete" "stable messageReact" "stable messageTyping"
  by (simp_all add: messageSend_def messageDelete_def messageReact_def messageTyping_def stable_intros)

lemma stable_client_events: "list_all (\<lambda>(ev, s). stable s) CLIENT_EVENT_SCHEMAS"
  by (simp add: CLIENT_EVENT_SCHEMAS_def of_call_def of_conversation_def negotiated_def stable_intros)

lemma stable_server_events: "list_all (\<lambda>(ev, s). stable s) SERVER_EVENT_SCHEMAS"
  by (simp add: SERVER_EVENT_SCHEMAS_def inbound_def negotiated_def stable_intros)

lemma stable_acks: "stable ACK_SCHEMA" "stable CALL_TRANSITION_NOTIFICATION"
  by (simp_all add: ACK_SCHEMA_def CALL_TRANSITION_NOTIFICATION_def of_call_def stable_intros)

lemma stable_event: "getEventSchema ev d = Some s \<Longrightarrow> stable s"
  using stable_client_events stable_server_events
  by (auto simp: getEventSchema_def list_all_iff dest!: map_of_SomeD split: if_splits)

text \<open>
  C19. Validation is idempotent: whatever payload of whatever event one edge accepts, trimmed and stripped, the
  same contract accepts again and leaves as it is. So checking at both edges never loses or changes a message.
\<close>

theorem accepted_again:
  assumes "parseEventPayload ev payload d = Inr x"
  shows "parseEventPayload ev x d = Inr x"
proof (cases "getEventSchema ev d")
  case (Some s)
  then show ?thesis
    using assms stableD(2) [OF stable_event [OF Some]] by (simp add: parseEventPayload_def safeParse_def)
qed (use assms in \<open>simp add: parseEventPayload_def\<close>)

text \<open>An untrimmed message with a field the contract does not have.\<close>

definition demo_raw :: json where
  "demo_raw = J_Object [(''version'', J_Number (Some 3)), (''recipientId'', J_String '' bob ''), (''body'', J_String ''hi ''), (''admin'', J_Bool True)]"

definition demo_parsed :: json where
  "demo_parsed = J_Object [(''version'', J_Number (Some 3)), (''recipientId'', J_String ''bob''), (''body'', J_String ''hi'')]"

lemma demo_accepted: "parseEventPayload ''message.send'' demo_raw From_Client = Inr demo_parsed"
  by code_simp

theorem accepted_again_witness:
  "parseEventPayload ''message.send'' demo_raw From_Client = Inr demo_parsed \<and>
   parseEventPayload ''message.send'' demo_parsed From_Client = Inr demo_parsed"
  using demo_accepted accepted_again [OF demo_accepted] by blast

section \<open>What a handler may rely on\<close>

definition is_id :: "json \<Rightarrow> bool" where
  "is_id v = (\<exists>x. v = J_String x \<and> trim x = x \<and> 0 < length x \<and> length x \<le> 128)"

lemma accepted_id: "sc_parse idField v p = Inr v \<longleftrightarrow> is_id v"
  by (auto simp: idField_def id_schema_def string_schema_def Let_def is_id_def less_eq_int_code split: json.splits if_splits)

lemma accepted_optional: "sc_parse (optional s) v p = Inr v \<longleftrightarrow> v = J_Undefined \<or> sc_parse s v p = Inr v"
  by (auto simp: optional_def)

lemma accepted_maybe: "sc_parse (maybe s) v p = Inr v \<longleftrightarrow> v = J_Null \<or> v = J_Undefined \<or> sc_parse s v p = Inr v"
  by (auto simp: maybe_def nullable_def optional_def)

lemma accepted_version: "sc_parse versionField v p = Inr v \<longleftrightarrow> v \<in> {J_Number (Some 2), J_Number (Some 3)}"
  by (auto simp: versionField_def union_schema_def legacyVersionField_def currentVersionField_def version_literal_def
      literal_def LEGACY_SIGNALING_VERSION_def SIGNALING_VERSION_def)

lemma accepted_enum: "sc_parse (enumOf xs) v p = Inr v \<longleftrightarrow> v \<in> J_String ` set xs"
  by (auto simp: enumOf_def split: json.splits)

lemma accepted_text: "sc_parse (string_schema 0 mx True) v p = Inr v \<longleftrightarrow> (\<exists>x. v = J_String x \<and> trim x = x \<and> int (length x) \<le> mx)"
  by (auto simp: string_schema_def Let_def split: json.splits)

lemmas accepted_simps = accepted_id accepted_optional accepted_maybe accepted_version accepted_enum accepted_text

text \<open>
  C20. The contract of \<open>message.send\<close>: whatever a client sends, the handler gets an object with no field outside
  the contract, a supported version, either a conversation or a recipient but not both, identifiers (the keys for
  retries and the message replied to among them) of 1 to 128 characters and a text of at most 4000, both without
  surrounding space, a known type if any, and an attachment, if any, as the schema of attachments leaves it.
\<close>

theorem send_contract:
  assumes "parseEventPayload ''message.send'' payload From_Client = Inr d"
  shows "\<exists>fs. d = J_Object fs \<and>
    fst ` set fs \<subseteq> set [''version'', ''conversationId'', ''recipientId'', ''body'', ''type'', ''attachment'', ''replyTo'', ''clientMessageId'', ''messageId''] \<and>
    field_of ''version'' fs \<in> {J_Number (Some 2), J_Number (Some 3)} \<and>
    ((is_id (field_of ''conversationId'' fs) \<and> field_of ''recipientId'' fs = J_Undefined) \<or>
     (field_of ''conversationId'' fs = J_Undefined \<and> is_id (field_of ''recipientId'' fs))) \<and>
    (\<exists>b. field_of ''body'' fs = J_String b \<and> trim b = b \<and> length b \<le> 4000) \<and>
    field_of ''type'' fs \<in> insert J_Undefined (J_String ` set KNOWN_MESSAGE_TYPES) \<and>
    (is_id (field_of ''replyTo'' fs) \<or> field_of ''replyTo'' fs \<in> {J_Null, J_Undefined}) \<and>
    (is_id (field_of ''clientMessageId'' fs) \<or> field_of ''clientMessageId'' fs = J_Undefined) \<and>
    (is_id (field_of ''messageId'' fs) \<or> field_of ''messageId'' fs = J_Undefined) \<and>
    sc_parse (maybe attachmentRecord) (field_of ''attachment'' fs) [] = Inr (field_of ''attachment'' fs)"
proof -
  let ?shape = "[(''version'', versionField), (''conversationId'', optional idField), (''recipientId'', optional idField),
      (''body'', string_schema 0 MAX_BODY True), (''type'', optional (enumOf KNOWN_MESSAGE_TYPES)),
      (''attachment'', maybe attachmentRecord), (''replyTo'', optionalId), (''clientMessageId'', optional idField),
      (''messageId'', optional idField)]"
  have st: "stable_shape ?shape" by (simp add: stable_intros)
  have "getEventSchema ''message.send'' From_Client = Some messageSend"
    by (simp add: getEventSchema_def CLIENT_EVENT_SCHEMAS_def)
  then have "sc_parse (object_schema ?shape False [(''conversationId'', ''recipientId'')]) payload [] = Inr d"
    using assms by (simp only: parseEventPayload_def safeParse_def messageSend_def option.case)
  then obtain raw fs where v: "d = J_Object fs" "parse_fields ?shape raw [] (if False then raw else []) = Inr fs"
    and none: "find (\<lambda>(l, r). given l raw = given r raw) [(''conversationId'', ''recipientId'')] = None"
    by (rule object_accepted)
  have one: "given ''conversationId'' raw \<noteq> given ''recipientId'' raw" using none by (simp split: if_splits)
  note kept = object_fields(3) [OF st v(2), where p' = "[]"]
  have "given ''conversationId'' fs \<noteq> given ''recipientId'' fs"
    using one object_fields(2) [OF st v(2), of "''conversationId''"] object_fields(2) [OF st v(2), of "''recipientId''"] by simp
  moreover have "is_id (field_of ''conversationId'' fs) \<or> field_of ''conversationId'' fs = J_Undefined"
    "is_id (field_of ''recipientId'' fs) \<or> field_of ''recipientId'' fs = J_Undefined"
    using kept [of "''conversationId''" "optional idField"] kept [of "''recipientId''" "optional idField"]
    by (auto simp: accepted_simps)
  moreover have "\<not> is_id J_Undefined" by (simp add: is_id_def)
  ultimately have target: "(is_id (field_of ''conversationId'' fs) \<and> field_of ''recipientId'' fs = J_Undefined) \<or>
     (field_of ''conversationId'' fs = J_Undefined \<and> is_id (field_of ''recipientId'' fs))"
    unfolding given_def by metis
  have "fst ` set fs \<subseteq> set (map fst ?shape)" using object_fields(4) [OF st v(2)] by simp
  then have names: "fst ` set fs \<subseteq> set [''version'', ''conversationId'', ''recipientId'', ''body'', ''type'', ''attachment'', ''replyTo'',
      ''clientMessageId'', ''messageId'']" by simp
  have "field_of ''version'' fs \<in> {J_Number (Some 2), J_Number (Some 3)}"
    using kept [of "''version''" versionField] by (simp add: accepted_version)
  moreover have "\<exists>b. field_of ''body'' fs = J_String b \<and> trim b = b \<and> length b \<le> 4000"
    using kept [of "''body''" "string_schema 0 MAX_BODY True"] by (simp add: accepted_text MAX_BODY_def)
  moreover have "field_of ''type'' fs \<in> insert J_Undefined (J_String ` set KNOWN_MESSAGE_TYPES)"
    using kept [of "''type''" "optional (enumOf KNOWN_MESSAGE_TYPES)"] by (simp add: accepted_optional accepted_enum)
  moreover have "is_id (field_of ''replyTo'' fs) \<or> field_of ''replyTo'' fs \<in> {J_Null, J_Undefined}"
    using kept [of "''replyTo''" optionalId] by (simp add: optionalId_def maybe_def [symmetric] accepted_maybe accepted_id) blast
  moreover have "is_id (field_of ''clientMessageId'' fs) \<or> field_of ''clientMessageId'' fs = J_Undefined"
    using kept [of "''clientMessageId''" "optional idField"] by (simp add: accepted_simps) blast
  moreover have "is_id (field_of ''messageId'' fs) \<or> field_of ''messageId'' fs = J_Undefined"
    using kept [of "''messageId''" "optional idField"] by (simp add: accepted_simps) blast
  moreover have "sc_parse (maybe attachmentRecord) (field_of ''attachment'' fs) [] = Inr (field_of ''attachment'' fs)"
    using kept [of "''attachment''" "maybe attachmentRecord"] by simp
  ultimately show ?thesis using v(1) names target by (intro exI [of _ fs] conjI)
qed

theorem send_contract_witness:
  "\<exists>fs. demo_parsed = J_Object fs \<and> is_id (field_of ''recipientId'' fs) \<and> ''admin'' \<notin> fst ` set fs"
  using send_contract [OF demo_accepted] by (auto simp: demo_parsed_def field_of_def is_id_def)

end
