(* ===== verification/ConversationFanout.thy ===== *)
theory ConversationFanout
  imports MessageSending
begin

text \<open>
  The fan-out of conversation events: \<open>server/src/domain/conversationFanout.ts\<close>. An instance delivers an event to
  the recipients it may reach, and lets a call's state through only when its version is newer than the last one
  it let through. Events reach an instance from its own handlers, from other instances or from the bus, in any
  order and any number of times, also while the recipients of an earlier event are still being served: each
  recipient is an \<open>await\<close>. Shown: no interleaving tells a user a state of a call twice or leaves out the newest one,
  and what a user is told only moves forward when deliveries do not overlap.
\<close>

section \<open>Events\<close>

text \<open>
  Of a payload the fan-out reads the call's id and version (present when they are a string and a safe integer),
  the time of its message (present when it parses) and \<open>messageId\<close>.
\<close>

record 'p fan_payload =
  fp_call :: "(string \<times> int) option"
  fp_created :: "int option"
  fp_message :: "string option"
  fp_body :: 'p

record 'p fanout_event =
  fe_conv :: string
  fe_name :: string
  fe_payload :: "'p fan_payload"
  fe_to :: "string list"

definition CONVERSATION_UPDATED :: string where "CONVERSATION_UPDATED = ''conversation.updated''"
definition CONVERSATION_CALL_UPDATED :: string where "CONVERSATION_CALL_UPDATED = ''conversation.call.updated''"

definition ALLOWED_FANOUT_EVENTS :: "string list" where
  "ALLOWED_FANOUT_EVENTS =
     [CONVERSATION_UPDATED, CONVERSATION_CALL_UPDATED, ''message.received'', ''message.deleted'', ''message.reaction'',
      ''message.typing'', ''message.read'']"

section \<open>Delivery by one instance\<close>

definition CALL_VERSION_CACHE_LIMIT :: nat where "CALL_VERSION_CACHE_LIMIT = 4096"

definition call_version :: "'p fanout_event \<Rightarrow> (string \<times> int) option" where
  "call_version ev = (if fe_name ev = CONVERSATION_CALL_UPDATED then fp_call (fe_payload ev) else None)"

definition isNewCallVersion :: "'p fanout_event \<Rightarrow> (string \<times> int) list \<Rightarrow> bool \<times> (string \<times> int) list" where
  "isNewCallVersion ev vs =
     (case call_version ev of
        None \<Rightarrow> (True, vs)
      | Some (k, v) \<Rightarrow>
          if (case map_of vs k of Some previous \<Rightarrow> v \<le> previous | None \<Rightarrow> False) then (False, vs)
          else (let vs1 = AList.delete k vs @ [(k, v)]
                in (True, if CALL_VERSION_CACHE_LIMIT < length vs1 then tl vs1 else vs1)))"

text \<open>\<open>requireGroupMember\<close> is \<open>assertActiveGroupMember\<close> of \<open>getMember\<close>.\<close>

definition mayDeliver :: "group_store \<Rightarrow> 'p fanout_event \<Rightarrow> string \<Rightarrow> bool" where
  "mayDeliver gst ev u =
     (if fe_name ev = CONVERSATION_UPDATED \<or> fe_name ev = CONVERSATION_CALL_UPDATED then True
      else (case assertActiveGroupMember (getMember (fe_conv ev) u gst) of
              Inl _ \<Rightarrow> False
            | Inr me \<Rightarrow>
                if (case fp_created (fe_payload ev) of Some t \<Rightarrow> t < gm_joined me | None \<Rightarrow> False) then False
                else if str_truthy (fp_message (fe_payload ev))
                then (case getGroupMessage (fe_conv ev) (the (fp_message (fe_payload ev))) u gst of
                        Inr (Some _) \<Rightarrow> True | _ \<Rightarrow> False)
                else True))"

record 'p fanout_state =
  fo_versions :: "(string \<times> int) list"
  fo_emitted :: "(string \<times> 'p fanout_event) list"
  fo_published :: "'p fanout_event list"

definition empty_fanout :: "'p fanout_state" where
  "empty_fanout = \<lparr>fo_versions = [], fo_emitted = [], fo_published = []\<rparr>"

text \<open>
  \<open>emitLocally\<close> up to its first \<open>await\<close>: the recipients it will serve. Then one turn of its loop, from the \<open>await\<close> of
  \<open>mayDeliver\<close> to the emission. The two together are what happens when nothing comes in between.
\<close>

definition admit :: "'p fanout_event \<Rightarrow> 'p fanout_state \<Rightarrow> string list \<times> 'p fanout_state" where
  "admit ev fs =
     (case isNewCallVersion ev (fo_versions fs) of
        (new, vs) \<Rightarrow> (if new then uniq (fe_to ev) else [], fs\<lparr>fo_versions := vs\<rparr>))"

definition deliver_to :: "group_store \<Rightarrow> 'p fanout_event \<Rightarrow> string \<Rightarrow> 'p fanout_state \<Rightarrow> 'p fanout_state" where
  "deliver_to gst ev u fs =
     (if u = [] \<or> \<not> mayDeliver gst ev u then fs else fs\<lparr>fo_emitted := fo_emitted fs @ [(u, ev)]\<rparr>)"

definition emitLocally :: "group_store \<Rightarrow> 'p fanout_event \<Rightarrow> 'p fanout_state \<Rightarrow> 'p fanout_state" where
  "emitLocally gst ev fs = (case admit ev fs of (us, fs1) \<Rightarrow> fold (deliver_to gst ev) us fs1)"

text \<open>
  The deliveries of an instance side by side: those begun, each with the recipients it has still to serve. \<open>Arrives\<close>
  begins one, \<open>Advances i\<close> takes one turn of the loop of the \<open>i\<close>-th, against the store of that moment.
\<close>

type_synonym 'p deliveries = "(string list \<times> 'p fanout_event) list"

datatype 'p fan_op = Arrives "'p fanout_event" | Advances nat group_store

fun fan_step :: "'p fan_op \<Rightarrow> 'p fanout_state \<times> 'p deliveries \<Rightarrow> 'p fanout_state \<times> 'p deliveries" where
  "fan_step (Arrives ev) (fs, ds) = (case admit ev fs of (us, fs1) \<Rightarrow> (fs1, ds @ [(us, ev)]))"
| "fan_step (Advances i gst) (fs, ds) =
     (if length ds \<le> i then (fs, ds)
      else (case ds ! i of
              ([], ev) \<Rightarrow> (fs, ds)
            | (u # us, ev) \<Rightarrow> (deliver_to gst ev u fs, ds[i := (us, ev)])))"

definition run_fan :: "'p fan_op list \<Rightarrow> 'p fanout_state \<times> 'p deliveries" where
  "run_fan ops = fold fan_step ops (empty_fanout, [])"

definition all_served :: "'p deliveries \<Rightarrow> bool" where
  "all_served ds = (\<forall>d \<in> set ds. fst d = [])"

section \<open>Between instances\<close>

text \<open>
  What arrives on the channel is unchecked: \<open>None\<close> stands for a field of another type. \<open>transport\<close> says how
  instances are connected: by the adapter of the socket server, by the bus (and whether publishing works), or not.
\<close>

record 'p raw_event =
  rw_conv :: "string option"
  rw_name :: "string option"
  rw_payload :: "'p fan_payload option"
  rw_to :: "string option list option"

definition parseFanout :: "'p raw_event \<Rightarrow> 'p fanout_event option" where
  "parseFanout r =
     (case (rw_conv r, rw_name r, rw_payload r, rw_to r) of
        (Some cid, Some n, Some p, Some us) \<Rightarrow>
          if n \<notin> set ALLOWED_FANOUT_EVENTS \<or> 16 < length us \<or> (\<exists>u \<in> set us. u = None \<or> u = Some []) then None
          else Some \<lparr>fe_conv = cid, fe_name = n, fe_payload = p, fe_to = map the us\<rparr>
      | _ \<Rightarrow> None)"

definition as_raw :: "'p fanout_event \<Rightarrow> 'p raw_event" where
  "as_raw ev = \<lparr>rw_conv = Some (fe_conv ev), rw_name = Some (fe_name ev), rw_payload = Some (fe_payload ev),
                rw_to = Some (map Some (fe_to ev))\<rparr>"

definition receive_fanout :: "group_store \<Rightarrow> 'p raw_event \<Rightarrow> 'p fanout_state \<Rightarrow> 'p fanout_state" where
  "receive_fanout gst r fs = (case parseFanout r of Some ev \<Rightarrow> emitLocally gst ev fs | None \<Rightarrow> fs)"

datatype transport = Adapter | Bus bool | Alone

definition fanoutToInstances :: "transport \<Rightarrow> group_store \<Rightarrow> 'p fanout_event \<Rightarrow> 'p fanout_state \<Rightarrow> 'p fanout_state" where
  "fanoutToInstances tr gst ev fs =
     (case tr of
        Adapter \<Rightarrow> emitLocally gst ev (fs\<lparr>fo_published := fo_published fs @ [ev]\<rparr>)
      | Alone \<Rightarrow> emitLocally gst ev fs
      | Bus True \<Rightarrow> fs\<lparr>fo_published := fo_published fs @ [ev]\<rparr>
      | Bus False \<Rightarrow> emitLocally gst ev fs)"

text \<open>A well-formed event survives the channel; the rule for messages is the one their delivery uses.\<close>

lemma parseFanout_as_raw:
  "fe_name ev \<in> set ALLOWED_FANOUT_EVENTS \<Longrightarrow> length (fe_to ev) \<le> 16 \<Longrightarrow> [] \<notin> set (fe_to ev) \<Longrightarrow>
   parseFanout (as_raw ev) = Some ev"
  by (auto simp: parseFanout_def as_raw_def comp_def)

lemma mayDeliver_message:
  assumes "fe_name ev \<noteq> CONVERSATION_UPDATED" "fe_name ev \<noteq> CONVERSATION_CALL_UPDATED"
    and "fp_created (fe_payload ev) = map_option m_created m"
  shows "mayDeliver gst ev u = may_deliver gst (fe_conv ev) m (fp_message (fe_payload ev)) u"
  using assms unfolding mayDeliver_def may_deliver_def
  by (auto simp: str_truthy_iff split: option.splits sum.splits)

section \<open>Versions\<close>

text \<open>The versions of one call among events.\<close>

definition version_of :: "string \<Rightarrow> 'p fanout_event \<Rightarrow> int option" where
  "version_of k ev = (case call_version ev of Some (k', v) \<Rightarrow> if k' = k then Some v else None | None \<Rightarrow> None)"

definition versions :: "string \<Rightarrow> 'p fanout_event list \<Rightarrow> int list" where
  "versions k evs = List.map_filter (version_of k) evs"

definition told :: "string \<Rightarrow> string \<Rightarrow> 'p fanout_state \<Rightarrow> int list" where
  "told u k fs = versions k (map snd (filter (\<lambda>x. fst x = u) (fo_emitted fs)))"

text \<open>What deliveries under way will still tell a user.\<close>

definition to_tell :: "string \<Rightarrow> string \<Rightarrow> 'p deliveries \<Rightarrow> int list" where
  "to_tell u k ds = versions k (map snd (filter (\<lambda>d. u \<in> set (fst d)) ds))"

definition calls_named :: "'p fanout_event list \<Rightarrow> string set" where
  "calls_named evs = set (List.map_filter (\<lambda>ev. map_option fst (call_version ev)) evs)"

definition arrivals :: "'p fan_op list \<Rightarrow> 'p fanout_event list" where
  "arrivals ops = List.map_filter (\<lambda>x. case x of Arrives ev \<Rightarrow> Some ev | Advances i gst \<Rightarrow> None) ops"

text \<open>No event arrives while another one has recipients to serve.\<close>

fun one_by_one :: "'p fan_op list \<Rightarrow> 'p fanout_state \<times> 'p deliveries \<Rightarrow> bool" where
  "one_by_one [] s = True"
| "one_by_one (x # ops) s =
     ((case x of Arrives ev \<Rightarrow> all_served (snd s) | Advances i gst \<Rightarrow> True) \<and> one_by_one ops (fan_step x s))"

lemma versions_append [simp]: "versions k (xs @ ys) = versions k xs @ versions k ys"
  by (simp add: versions_def map_filter_def)

lemma versions_Nil [simp]: "versions k [] = []"
  by (simp add: versions_def map_filter_def)

lemma versions_single: "versions k [ev] = (case version_of k ev of Some v \<Rightarrow> [v] | None \<Rightarrow> [])"
  by (simp add: versions_def map_filter_def split: option.split)

lemma version_of_Some: "version_of k ev = Some v \<longleftrightarrow> call_version ev = Some (k, v)"
  by (auto simp: version_of_def split: option.splits)

lemma call_version_delivered: "call_version ev = Some x \<Longrightarrow> mayDeliver gst ev u"
  by (simp add: call_version_def mayDeliver_def split: if_splits)

lemma to_tell_append [simp]: "to_tell u k (ds @ ds') = to_tell u k ds @ to_tell u k ds'"
  by (simp add: to_tell_def)

lemma to_tell_single: "to_tell u k [(us, ev)] = (if u \<in> set us then versions k [ev] else [])"
  by (simp add: to_tell_def)

lemma to_tell_served: "all_served ds \<Longrightarrow> to_tell u k ds = []"
proof -
  assume "all_served ds"
  then have "filter (\<lambda>d. u \<in> set (fst d)) ds = []" by (simp add: all_served_def filter_empty_conv)
  then show ?thesis by (simp add: to_tell_def)
qed

lemma arrivals_snoc: "arrivals (ops @ [x]) = arrivals ops @ (case x of Arrives ev \<Rightarrow> [ev] | Advances i gst \<Rightarrow> [])"
  by (simp add: arrivals_def map_filter_def split: fan_op.split)

lemma one_by_one_snoc:
  "one_by_one (ops @ [x]) s \<longleftrightarrow>
     one_by_one ops s \<and> (case x of Arrives ev \<Rightarrow> all_served (snd (fold fan_step ops s)) | Advances i gst \<Rightarrow> True)"
  by (induction ops arbitrary: s) (simp_all split: fan_op.split)

text \<open>A turn moves what it tells from the deliveries to what has been told.\<close>

lemma told_deliver:
  "told u k (deliver_to gst ev w fs) = told u k fs @ (if w = u \<and> u \<noteq> [] then versions k [ev] else [])"
proof -
  have "versions k [ev] = [] \<or> mayDeliver gst ev u"
    by (auto simp: versions_single version_of_Some intro: call_version_delivered split: option.splits)
  then show ?thesis by (auto simp: deliver_to_def told_def)
qed

lemma admit_simps [simp]:
  "told u k (snd (admit ev fs)) = told u k fs" "fo_versions (snd (admit ev fs)) = snd (isNewCallVersion ev (fo_versions fs))"
  "fst (admit ev fs) = (if fst (isNewCallVersion ev (fo_versions fs)) then uniq (fe_to ev) else [])"
  by (simp_all add: admit_def told_def split_beta)

lemma deliver_versions [simp]: "fo_versions (deliver_to gst ev u fs) = fo_versions fs"
  by (simp add: deliver_to_def)

text \<open>\<open>emitLocally\<close> is its delivery begun and taken to its end, with nothing in between.\<close>

lemma turns_end:
  "fold fan_step (replicate (length us) (Advances (length ds) gst)) (fs, ds @ [(us, ev)]) =
   (fold (deliver_to gst ev) us fs, ds @ [([], ev)])"
  by (induction us arbitrary: fs) (simp_all add: nth_append)

lemma emitLocally_alone:
  "fold fan_step (Arrives ev # replicate (length (fst (admit ev fs))) (Advances (length ds) gst)) (fs, ds) =
   (emitLocally gst ev fs, ds @ [([], ev)])"
  using turns_end [of "fst (admit ev fs)" ds gst "snd (admit ev fs)" ev] by (simp add: emitLocally_def split_beta)

text \<open>The cache while it is large enough for the calls there are.\<close>

lemma isNewCallVersion_roomy:
  assumes "call_version ev = Some (k, v)" and "distinct (map fst vs)" and "insert k (set (map fst vs)) \<subseteq> C"
    and "finite C" "card C \<le> CALL_VERSION_CACHE_LIMIT"
  shows "isNewCallVersion ev vs =
    (if \<exists>p. map_of vs k = Some p \<and> v \<le> p then (False, vs) else (True, AList.delete k vs @ [(k, v)]))"
proof -
  let ?vs = "AList.delete k vs @ [(k, v)]"
  have d: "distinct (map fst ?vs)"
    using assms(2) by (simp add: delete_keys distinct_removeAll)
  have "set (map fst ?vs) \<subseteq> C" using assms(3) by (auto simp: delete_keys)
  then have "card (set (map fst ?vs)) \<le> card C" by (rule card_mono [OF assms(4)])
  then have "\<not> CALL_VERSION_CACHE_LIMIT < length ?vs" using distinct_card [OF d] assms(5) by simp
  then show ?thesis using assms(1) by (auto simp: isNewCallVersion_def Let_def split: option.split)
qed

section \<open>What an instance lets through moves forward\<close>

definition newest :: "int list \<Rightarrow> int option" where
  "newest vs = (if vs = [] then None else Some (Max (set vs)))"

lemma newest_snoc:
  "newest (vs @ [v]) = Some (case newest vs of Some n \<Rightarrow> max v n | None \<Rightarrow> v)"
  by (auto simp: newest_def max.commute)

text \<open>After the events \<open>evs\<close> about calls of \<open>C\<close> the cache holds the newest version of each.\<close>

definition newest_cached :: "string set \<Rightarrow> 'p fanout_event list \<Rightarrow> (string \<times> int) list \<Rightarrow> bool" where
  "newest_cached C evs vs \<longleftrightarrow>
     distinct (map fst vs) \<and> set (map fst vs) \<subseteq> C \<and> (\<forall>k. map_of vs k = newest (versions k evs))"

lemma arrival:
  assumes inv: "newest_cached C evs vs" and C: "finite C" "card C \<le> CALL_VERSION_CACHE_LIMIT"
    and named: "calls_named [ev] \<subseteq> C"
  shows "newest_cached C (evs @ [ev]) (snd (isNewCallVersion ev vs))"
    and "version_of k ev = Some v \<Longrightarrow>
      fst (isNewCallVersion ev vs) \<longleftrightarrow> (case newest (versions k evs) of Some n \<Rightarrow> n < v | None \<Rightarrow> True)"
proof -
  note inv' = inv [unfolded newest_cached_def]
  have cache: "map_of vs k' = newest (versions k' evs)" for k' using inv' by blast
  have sub: "insert k' (set (map fst vs)) \<subseteq> C" if "call_version ev = Some (k', v')" for k' v'
    using inv' named that by (simp add: calls_named_def map_filter_def)
  show "newest_cached C (evs @ [ev]) (snd (isNewCallVersion ev vs))"
  proof (cases "call_version ev")
    case None
    then show ?thesis using inv' unfolding newest_cached_def
      by (simp add: isNewCallVersion_def versions_single version_of_def)
  next
    case (Some x)
    obtain k' v' where ev: "call_version ev = Some (k', v')" using Some by (cases x) simp
    note new = isNewCallVersion_roomy [OF ev conjunct1 [OF inv'] sub [OF ev] C]
    have one: "versions c [ev] = (if c = k' then [v'] else [])" for c
      by (simp add: versions_single version_of_def ev)
    show ?thesis
    proof (cases "\<exists>p. map_of vs k' = Some p \<and> v' \<le> p")
      case True
      then obtain p where p: "newest (versions k' evs) = Some p" "v' \<le> p" using cache by auto
      have "newest (versions c (evs @ [ev])) = newest (versions c evs)" for c
        using p by (simp add: one newest_snoc)
      then show ?thesis using inv' True unfolding newest_cached_def by (simp add: new)
    next
      case False
      have vs: "snd (isNewCallVersion ev vs) = AList.delete k' vs @ [(k', v')]"
        by (simp only: new if_not_P [OF False] snd_conv)
      have "newest (versions k' (evs @ [ev])) = Some v'"
        using False cache [of k'] by (cases "newest (versions k' evs)") (simp_all add: one newest_snoc)
      moreover have "c \<noteq> k' \<Longrightarrow> newest (versions c (evs @ [ev])) = newest (versions c evs)" for c by (simp add: one)
      ultimately have "map_of (AList.delete k' vs @ [(k', v')]) c = newest (versions c (evs @ [ev]))" for c
        using cache [of c] by (cases "c = k'") (simp_all add: map_add_def split: option.split)
      then show ?thesis unfolding newest_cached_def vs using inv' sub [OF ev]
        by (auto simp: delete_keys distinct_removeAll)
    qed
  qed
  assume "version_of k ev = Some v"
  then have ev: "call_version ev = Some (k, v)" by (simp add: version_of_Some)
  show "fst (isNewCallVersion ev vs) \<longleftrightarrow> (case newest (versions k evs) of Some n \<Rightarrow> n < v | None \<Rightarrow> True)"
    using isNewCallVersion_roomy [OF ev conjunct1 [OF inv'] sub [OF ev] C]
    by (auto simp: cache not_le split: option.split)
qed

section \<open>What a user is told\<close>

text \<open>
  Of call \<open>k\<close> after the events \<open>evs\<close>: what the user was told and will be told has no version twice, no version that
  did not arrive, and the newest one if every state was addressed to the user.
\<close>

definition told_once :: "string \<Rightarrow> string \<Rightarrow> 'p fanout_event list \<Rightarrow> 'p fanout_state \<times> 'p deliveries \<Rightarrow> bool" where
  "told_once u k evs s \<longleftrightarrow>
     (let vs = told u k (fst s) @ to_tell u k (snd s)
      in distinct vs \<and> set vs \<subseteq> set (versions k evs) \<and>
         ((\<forall>ev \<in> set evs. version_of k ev \<noteq> None \<longrightarrow> u \<in> set (fe_to ev)) \<longrightarrow>
          (\<forall>n. newest (versions k evs) = Some n \<longrightarrow> n \<in> set vs))) \<and>
     (\<forall>d \<in> set (snd s). distinct (fst d))"

lemma turn_moves:
  assumes "i < length ds" "ds ! i = (w # us, ev)" "distinct (w # us)" "u \<noteq> []"
  obtains A B where "to_tell u k ds = A @ (if w = u then versions k [ev] else to_tell u k [(us, ev)]) @ B"
    and "told u k (deliver_to gst ev w fs) = told u k fs @ (if w = u then versions k [ev] else [])"
    and "to_tell u k (ds[i := (us, ev)]) = A @ (if w = u then [] else to_tell u k [(us, ev)]) @ B"
    and "A = to_tell u k (take i ds)"
proof -
  let ?A = "to_tell u k (take i ds)" and ?B = "to_tell u k (drop (Suc i) ds)"
  have "ds = take i ds @ [(w # us, ev)] @ drop (Suc i) ds" using assms(1,2) id_take_nth_drop [of i ds] by simp
  then have "to_tell u k ds = ?A @ to_tell u k [(w # us, ev)] @ ?B" by (metis to_tell_append)
  moreover have "to_tell u k [(w # us, ev)] = (if w = u then versions k [ev] else to_tell u k [(us, ev)])"
    by (simp add: to_tell_single)
  ultimately have a: "to_tell u k ds = ?A @ (if w = u then versions k [ev] else to_tell u k [(us, ev)]) @ ?B" by simp
  have b: "told u k (deliver_to gst ev w fs) = told u k fs @ (if w = u then versions k [ev] else [])"
    using assms(4) by (simp add: told_deliver)
  have "ds[i := (us, ev)] = take i ds @ [(us, ev)] @ drop (Suc i) ds" using assms(1) by (simp add: upd_conv_take_nth_drop)
  then have "to_tell u k (ds[i := (us, ev)]) = ?A @ to_tell u k [(us, ev)] @ ?B" by (metis to_tell_append)
  then have c: "to_tell u k (ds[i := (us, ev)]) = ?A @ (if w = u then [] else to_tell u k [(us, ev)]) @ ?B"
    using assms(3) by (auto simp: to_tell_single)
  show thesis by (rule that [OF a b c refl])
qed

text \<open>Of a turn only the order of what is told can change; nothing changes when no earlier delivery has something to tell.\<close>

lemma turn_permutes:
  assumes "i < length ds" "ds ! i = (w # us, ev)" "distinct (w # us)" "u \<noteq> []"
  shows "mset (told u k (deliver_to gst ev w fs) @ to_tell u k (ds[i := (us, ev)])) = mset (told u k fs @ to_tell u k ds)"
    and "to_tell u k (take i ds) = [] \<Longrightarrow>
      told u k (deliver_to gst ev w fs) @ to_tell u k (ds[i := (us, ev)]) = told u k fs @ to_tell u k ds"
  by (rule turn_moves [OF assms, of k gst fs]; auto)+

lemma newest_bound: "v \<in> set vs \<Longrightarrow> \<exists>n. newest vs = Some n \<and> v \<le> n"
  by (auto simp: newest_def)

lemma told_once_step:
  assumes inv: "told_once u k evs (fs, ds)" and cached: "newest_cached C evs (fo_versions fs)"
    and C: "finite C" "card C \<le> CALL_VERSION_CACHE_LIMIT" and named: "calls_named (arrivals [x]) \<subseteq> C" and u: "u \<noteq> []"
  shows "told_once u k (evs @ arrivals [x]) (fan_step x (fs, ds))"
proof (cases x)
  case (Advances i gst)
  have evs: "evs @ arrivals [x] = evs" by (simp add: Advances arrivals_def map_filter_def)
  consider (skip) "fan_step x (fs, ds) = (fs, ds)"
    | (turn) w us ev where "i < length ds" "ds ! i = (w # us, ev)" "fan_step x (fs, ds) = (deliver_to gst ev w fs, ds[i := (us, ev)])"
    by (cases "i < length ds"; cases "ds ! i"; cases "fst (ds ! i)") (auto simp: Advances)
  then show ?thesis
  proof cases
    case skip
    then show ?thesis using inv by (simp only: evs)
  next
    case turn
    have d: "\<forall>d \<in> set ds. distinct (fst d)" using inv by (simp add: told_once_def)
    then have w: "distinct (w # us)" using turn(1,2) nth_mem by fastforce
    note m = turn_permutes(1) [OF turn(1,2) w u, of k gst fs]
    have "\<forall>d \<in> set (ds[i := (us, ev)]). distinct (fst d)"
      using d w set_update_subset_insert [of ds i "(us, ev)"] by auto
    then show ?thesis
      using inv mset_eq_imp_distinct_iff [OF m] mset_eq_setD [OF m]
      unfolding told_once_def evs turn(3) Let_def fst_conv snd_conv by simp
  qed
next
  case (Arrives ev)
  have evs: "evs @ arrivals [x] = evs @ [ev]" by (simp add: Arrives arrivals_def map_filter_def)
  have named': "calls_named [ev] \<subseteq> C" using named by (simp add: Arrives arrivals_def map_filter_def)
  let ?new = "fst (isNewCallVersion ev (fo_versions fs))"
  let ?vs = "told u k fs @ to_tell u k ds"
  have step: "told u k (fst (fan_step x (fs, ds))) @ to_tell u k (snd (fan_step x (fs, ds))) =
      ?vs @ (if ?new \<and> u \<in> set (fe_to ev) then versions k [ev] else [])"
    "\<forall>d \<in> set (snd (fan_step x (fs, ds))). distinct (fst d)"
    using inv by (auto simp: Arrives split_beta to_tell_single told_once_def)
  note i = inv [unfolded told_once_def Let_def fst_conv snd_conv]
  show ?thesis
  proof (cases "version_of k ev")
    case None
    then show ?thesis using i step(2) unfolding told_once_def Let_def step(1) evs by (simp add: versions_single)
  next
    case (Some v)
    have one: "versions k [ev] = [v]" using Some by (simp add: versions_single)
    have new: "?new \<longleftrightarrow> (case newest (versions k evs) of Some n \<Rightarrow> n < v | None \<Rightarrow> True)"
      by (rule arrival(2) [OF cached C named' Some])
    have fresh: "v \<notin> set ?vs" if ?new
    proof
      assume "v \<in> set ?vs"
      then have "v \<in> set (versions k evs)" using i by blast
      from newest_bound [OF this] that new show False by auto
    qed
    show ?thesis
      using i step(2) fresh new Some unfolding told_once_def Let_def step(1) evs
      by (auto simp: one newest_snoc split: option.splits if_splits)
  qed
qed

text \<open>And in order, while deliveries do not overlap: at most one of them has anybody left to serve.\<close>

definition told_in_order :: "string \<Rightarrow> string \<Rightarrow> 'p fanout_state \<times> 'p deliveries \<Rightarrow> bool" where
  "told_in_order u k s \<longleftrightarrow>
     sorted_wrt (<) (told u k (fst s) @ to_tell u k (snd s)) \<and> (\<exists>ds d. snd s = ds @ d \<and> all_served ds \<and> length d \<le> 1)"

lemma told_in_order_step:
  assumes inv: "told_once u k evs (fs, ds)" and ord: "told_in_order u k (fs, ds)" and cached: "newest_cached C evs (fo_versions fs)"
    and C: "finite C" "card C \<le> CALL_VERSION_CACHE_LIMIT" and named: "calls_named (arrivals [x]) \<subseteq> C" and u: "u \<noteq> []"
    and idle: "case x of Arrives ev \<Rightarrow> all_served ds | Advances i gst \<Rightarrow> True"
  shows "told_in_order u k (fan_step x (fs, ds))"
proof (cases x)
  case (Advances i gst)
  consider (skip) "fan_step x (fs, ds) = (fs, ds)"
    | (turn) w us ev where "i < length ds" "ds ! i = (w # us, ev)" "fan_step x (fs, ds) = (deliver_to gst ev w fs, ds[i := (us, ev)])"
    by (cases "i < length ds"; cases "ds ! i"; cases "fst (ds ! i)") (auto simp: Advances)
  then show ?thesis
  proof cases
    case skip
    then show ?thesis using ord by simp
  next
    case turn
    obtain A d where A: "ds = A @ d" "all_served A" "length d \<le> 1" using ord by (auto simp: told_in_order_def)
    have "\<not> i < length A"
    proof
      assume "i < length A"
      then have "fst (ds ! i) = []" using A nth_mem [of i A] by (simp add: all_served_def nth_append)
      with turn(2) show False by simp
    qed
    then have i: "i = length A" "length d = 1" using turn(1) A by auto
    have w: "distinct (w # us)" using inv turn(1,2) nth_mem [of i ds] by (auto simp: told_once_def)
    have "to_tell u k (take i ds) = []" using A i by (simp add: to_tell_served)
    from turn_permutes(2) [OF turn(1,2) w u this, of gst fs] ord
    have "sorted_wrt (<) (told u k (deliver_to gst ev w fs) @ to_tell u k (ds[i := (us, ev)]))"
      by (simp add: told_in_order_def)
    moreover have "ds[i := (us, ev)] = A @ d[0 := (us, ev)]" using A(1) i(1) by (simp add: list_update_append)
    then have "\<exists>A d'. ds[i := (us, ev)] = A @ d' \<and> all_served A \<and> length d' \<le> 1"
      using A by (intro exI [of _ A] exI [of _ "d[0 := (us, ev)]"]) simp
    ultimately show ?thesis unfolding told_in_order_def turn(3) fst_conv snd_conv by (rule conjI)
  qed
next
  case (Arrives ev)
  have served: "all_served ds" using idle Arrives by simp
  have named': "calls_named [ev] \<subseteq> C" using named by (simp add: Arrives arrivals_def map_filter_def)
  let ?new = "fst (isNewCallVersion ev (fo_versions fs))"
  have step: "told u k (fst (fan_step x (fs, ds))) @ to_tell u k (snd (fan_step x (fs, ds))) =
      told u k fs @ (if ?new \<and> u \<in> set (fe_to ev) then versions k [ev] else [])"
    "snd (fan_step x (fs, ds)) = ds @ [(if ?new then uniq (fe_to ev) else [], ev)]"
    using to_tell_served [OF served] by (auto simp: Arrives split_beta to_tell_single)
  have shape: "\<exists>A d. snd (fan_step x (fs, ds)) = A @ d \<and> all_served A \<and> length d \<le> 1"
    unfolding step(2) using served by (intro exI [of _ ds] exI [of _ "[(if ?new then uniq (fe_to ev) else [], ev)]"]) simp
  have s: "sorted_wrt (<) (told u k fs)" "set (told u k fs) \<subseteq> set (versions k evs)"
    using ord inv to_tell_served [OF served] by (simp_all add: told_in_order_def told_once_def Let_def)
  have "sorted_wrt (<) (told u k fs @ (if ?new \<and> u \<in> set (fe_to ev) then versions k [ev] else []))"
  proof (cases "?new \<and> version_of k ev \<noteq> None")
    case True
    then obtain v where v: "version_of k ev = Some v" by auto
    have above: "w < v" if "w \<in> set (told u k fs)" for w

    proof -
      have "w \<in> set (versions k evs)" using s(2) that by blast
      then obtain n where n: "newest (versions k evs) = Some n" "w \<le> n" using newest_bound by blast
      have "n < v" using True arrival(2) [OF cached C named' v] n(1) by simp
      with n(2) show ?thesis by simp
    qed
    show ?thesis using s(1) above v by (simp add: sorted_wrt_append versions_single)
  next
    case False
    then show ?thesis using s(1) by (auto simp: versions_single)
  qed
  then show ?thesis unfolding told_in_order_def step(1) using shape by blast
qed

lemma run_fan_snoc: "run_fan (ops @ [x]) = fan_step x (run_fan ops)"
  by (simp add: run_fan_def)

lemma run_fan_forward:
  assumes C: "finite C" "card C \<le> CALL_VERSION_CACHE_LIMIT" and "calls_named (arrivals ops) \<subseteq> C" and u: "u \<noteq> []"
  shows "newest_cached C (arrivals ops) (fo_versions (fst (run_fan ops))) \<and> told_once u k (arrivals ops) (run_fan ops) \<and>
    (one_by_one ops (empty_fanout, []) \<longrightarrow> told_in_order u k (run_fan ops))"
  using assms(3)
proof (induction ops rule: rev_induct)
  case Nil
  show ?case
    by (simp add: run_fan_def arrivals_def map_filter_def newest_cached_def told_once_def told_in_order_def empty_fanout_def
        newest_def told_def to_tell_def all_served_def)
next
  case (snoc x ops)
  obtain fs ds where s: "run_fan ops = (fs, ds)" by (rule prod.exhaust)
  have "arrivals (ops @ [x]) = arrivals ops @ arrivals [x]" by (simp add: arrivals_def map_filter_def)
  then have named: "calls_named (arrivals ops) \<subseteq> C" "calls_named (arrivals [x]) \<subseteq> C"
    and split: "arrivals (ops @ [x]) = arrivals ops @ arrivals [x]"
    using snoc.prems by (simp_all add: calls_named_def map_filter_def)
  note IH = snoc.IH [OF named(1), unfolded s fst_conv]
  have a: "newest_cached C (arrivals ops @ arrivals [x]) (fo_versions (fst (fan_step x (fs, ds))))"
  proof (cases x)
    case (Arrives ev)
    have "calls_named [ev] \<subseteq> C" using named(2) by (simp add: Arrives arrivals_def map_filter_def)
    from arrival(1) [OF conjunct1 [OF IH] C this] show ?thesis
      by (simp add: Arrives arrivals_def map_filter_def split_beta)
  next
    case (Advances i gst)
    have "fo_versions (fst (fan_step x (fs, ds))) = fo_versions fs"
      by (simp add: Advances split: prod.split list.split)
    then show ?thesis using IH by (simp add: Advances arrivals_def map_filter_def)
  qed
  have b: "told_once u k (arrivals ops @ arrivals [x]) (fan_step x (fs, ds))"
    by (rule told_once_step [OF _ _ C named(2) u]) (use IH in simp_all)
  have c: "told_in_order u k (fan_step x (fs, ds))" if o: "one_by_one (ops @ [x]) (empty_fanout, [])"
  proof (rule told_in_order_step [where evs = "arrivals ops", OF _ _ _ C named(2) u])
    have "fold fan_step ops (empty_fanout, []) = (fs, ds)" using s by (simp add: run_fan_def)
    then show "case x of Arrives ev \<Rightarrow> all_served ds | Advances i gst \<Rightarrow> True" 
      using o by (cases x) (simp_all add: one_by_one_snoc)
  qed (use IH o in \<open>simp_all add: one_by_one_snoc\<close>)
  show ?case unfolding run_fan_snoc s split using a b c by blast
qed

text \<open>
  C30. No interleaving of an instance's deliveries tells a user a state of a group call twice, one that was never
  published, or not the newest: for states in any order, late or repeated, arriving also while others are being
  delivered, the versions a user is told are distinct and among those that arrived; when every delivery has served
  its recipients and every state of the call was addressed to the user, the newest of them is among what the user was
  told; and they strictly increase if no state arrives while another is being delivered. For an instance that has
  seen the states of at most \<open>CALL_VERSION_CACHE_LIMIT\<close> calls: beyond that it forgets the versions of the oldest.
\<close>

theorem call_states_move_forward:
  assumes "card (calls_named (arrivals ops)) \<le> CALL_VERSION_CACHE_LIMIT" and "u \<noteq> []" and "run_fan ops = (fs, ds)"
  shows "distinct (told u k fs) \<and> set (told u k fs) \<subseteq> set (versions k (arrivals ops)) \<and>
    (all_served ds \<and> (\<forall>ev \<in> set (arrivals ops). version_of k ev \<noteq> None \<longrightarrow> u \<in> set (fe_to ev)) \<longrightarrow>
       newest (told u k fs) = newest (versions k (arrivals ops))) \<and>
    (one_by_one ops (empty_fanout, []) \<longrightarrow> sorted_wrt (<) (told u k fs))"
proof -
  have "finite (calls_named (arrivals ops))" by (simp add: calls_named_def)
  from run_fan_forward [OF this assms(1) subset_refl assms(2), of k]
  have once: "told_once u k (arrivals ops) (fs, ds)"
    and order: "one_by_one ops (empty_fanout, []) \<longrightarrow> told_in_order u k (fs, ds)" by (simp_all add: assms(3))
  note o = once [unfolded told_once_def Let_def fst_conv snd_conv]
  have "newest (told u k fs) = newest (versions k (arrivals ops))"
    if "all_served ds" and "\<forall>ev \<in> set (arrivals ops). version_of k ev \<noteq> None \<longrightarrow> u \<in> set (fe_to ev)"
  proof -
    have sub: "set (told u k fs) \<subseteq> set (versions k (arrivals ops))" using o by simp
    have none_left: "to_tell u k ds = []" by (rule to_tell_served [OF that(1)])
    have top: "newest (versions k (arrivals ops)) = Some n \<Longrightarrow> n \<in> set (told u k fs)" for n
      using mp [OF conjunct2 [OF conjunct2 [OF conjunct1 [OF o]]] that(2)] by (simp add: none_left)
    show ?thesis
    proof (cases "versions k (arrivals ops) = []")
      case True
      then show ?thesis using sub by (simp add: newest_def)
    next
      case False
      then have "Max (set (versions k (arrivals ops))) \<in> set (told u k fs)" using top by (simp add: newest_def)
      moreover from this sub have "Max (set (told u k fs)) = Max (set (versions k (arrivals ops)))"
        by (intro Max_eqI) (auto intro: Max_ge)
      ultimately show ?thesis using False by (auto simp: newest_def)
    qed
  qed
  then show ?thesis using o order by (auto simp: told_in_order_def sorted_wrt_append)
qed

text \<open>Three states of a call that arrive as 2, 1, 2, 3, the last while the first is being delivered.\<close>

definition demo_state :: "int \<Rightarrow> string list \<Rightarrow> nat fanout_event" where
  "demo_state v us =
     \<lparr>fe_conv = ''g'', fe_name = CONVERSATION_CALL_UPDATED,
      fe_payload = \<lparr>fp_call = Some (''k'', v), fp_created = None, fp_message = None, fp_body = 0\<rparr>, fe_to = us\<rparr>"

definition demo_fan :: "nat fan_op list" where
  "demo_fan =
     [Arrives (demo_state 2 [''ann'', ''bob'']), Arrives (demo_state 1 [''ann'', ''bob'']), Advances 0 empty_group_store,
      Arrives (demo_state 2 [''ann'', ''bob'']), Arrives (demo_state 3 [''ann'', ''bob'']), Advances 3 empty_group_store,
      Advances 0 empty_group_store, Advances 3 empty_group_store]"

theorem call_states_move_forward_witness:
  "told ''bob'' ''k'' (fst (run_fan demo_fan)) = [2, 3] \<and> newest (told ''bob'' ''k'' (fst (run_fan demo_fan))) = Some 3"
proof -
  have room: "card (calls_named (arrivals demo_fan)) \<le> CALL_VERSION_CACHE_LIMIT"
    by (simp add: calls_named_def map_filter_def call_version_def demo_state_def demo_fan_def arrivals_def CALL_VERSION_CACHE_LIMIT_def)
  obtain fs ds where r: "run_fan demo_fan = (fs, ds)" by (rule prod.exhaust)
  have "all_served (snd (run_fan demo_fan))" by code_simp
  moreover have "\<forall>ev \<in> set (arrivals demo_fan). ''bob'' \<in> set (fe_to ev)"
    by (simp add: demo_state_def demo_fan_def arrivals_def map_filter_def)
  ultimately have "newest (told ''bob'' ''k'' fs) = newest (versions ''k'' (arrivals demo_fan))"
    using call_states_move_forward [OF room _ r, of "''bob''" "''k''"] r by simp
  moreover have "newest (versions ''k'' (arrivals demo_fan)) = Some 3" by code_simp
  moreover have "told ''bob'' ''k'' (fst (run_fan demo_fan)) = [2, 3]" by code_simp
  ultimately show ?thesis using r by simp
qed

text \<open>
  Deliveries that overlap can change the order: the check of the version comes before the waits. A state that arrives
  while an older one is still at an earlier recipient overtakes it.
\<close>

theorem overlapping_deliveries_reorder:
  "told ''bob'' ''k'' (fst (run_fan [Arrives (demo_state 1 [''ann'', ''bob'']), Arrives (demo_state 2 [''bob'']),
     Advances 0 empty_group_store, Advances 1 empty_group_store, Advances 0 empty_group_store])) = [2, 1]"
  by code_simp

end
