(* ===== verification/ConversationHandlers.thy ===== *)
theory ConversationHandlers
  imports ConversationFanout GroupCalls
begin

text \<open>
  The conversation requests of a socket: \<open>server/src/signaling/conversationHandlers.ts\<close> and
  \<open>domain/groupAdmission.ts\<close>. They run the operations of the group store (\<open>GroupMembership\<close>, \<open>GroupCalls\<close>) behind
  their own checks and budgets, write the audit log and tell the members (\<open>ConversationFanout\<close>).
\<close>

section \<open>State\<close>

datatype conv_payload = Updated snapshot string | Call_Updated gcall "gparticipant list"

text \<open>A signal between two participants of a group call, as its receiver gets it.\<close>

datatype relay_kind = Restart_Request | Media_State

record group_signal =
  gs_kind :: relay_kind
  gs_call :: string
  gs_from :: string
  gs_negotiation :: negotiation
  gs_media :: "string option"

record conv_server =
  cv_groups :: group_store
  cv_privacy :: privacy
  cv_audit :: "audit_entry list"
  cv_audited :: nat
  cv_creates :: buckets
  cv_invites :: buckets
  cv_calls :: buckets
  cv_signals :: buckets
  cv_fanout :: "conv_payload fanout_state"
  cv_snapshots :: "(gcall \<times> gparticipant list) list"
  cv_relayed :: "(string \<times> group_signal) list"

text \<open>
  The clock, the ids of audit entries, the limits of the four limiters with the verdicts of the shared ones (the
  budgets of admission are those of the process), the ring timeout and how instances are connected.
\<close>

record conv_env =
  ve_now :: int
  ve_group :: genv
  ve_audit_id :: "nat \<Rightarrow> string"
  ve_create :: "int \<times> int"
  ve_invite :: "int \<times> int"
  ve_call :: "int \<times> int"
  ve_signal :: "int \<times> int"
  ve_call_security :: "limit_result option option"
  ve_signal_security :: "limit_result option option"
  ve_ring_ms :: int
  ve_transport :: transport

text \<open>What a success acknowledges.\<close>

datatype conv_ack =
    Ack_Group snapshot "invitation list"
  | Ack_Conversation snapshot
  | Ack_Group_Call gcall "gparticipant list"
  | Ack_Peer string string

definition put_conv :: "group_store \<Rightarrow> conv_server \<Rightarrow> conv_server" where
  "put_conv st cs = cs\<lparr>cv_groups := st\<rparr>"

definition record_audit ::
  "conv_env \<Rightarrow> string \<Rightarrow> string \<Rightarrow> string option \<Rightarrow> string \<Rightarrow> conv_server \<Rightarrow> conv_server" where
  "record_audit env event actor target details cs =
     cs\<lparr>cv_audit := audit \<lparr>au_id = ve_audit_id env (cv_audited cs), au_time = ve_now env, au_event = event,
          au_actor = Some actor, au_target = target, au_outcome = ''success'', au_details = details\<rparr> (cv_audit cs),
        cv_audited := Suc (cv_audited cs)\<rparr>"

definition fan_out :: "conv_env \<Rightarrow> conv_payload fanout_event \<Rightarrow> conv_server \<Rightarrow> conv_server" where
  "fan_out env ev cs = cs\<lparr>cv_fanout := fanoutToInstances (ve_transport env) (cv_groups cs) ev (cv_fanout cs)\<rparr>"

definition conversation_updated :: "string \<Rightarrow> snapshot \<Rightarrow> string \<Rightarrow> string list \<Rightarrow> conv_payload fanout_event" where
  "conversation_updated cid sn u us =
     \<lparr>fe_conv = cid, fe_name = CONVERSATION_UPDATED,
      fe_payload = \<lparr>fp_call = None, fp_created = None, fp_message = None, fp_body = Updated sn u\<rparr>, fe_to = us\<rparr>"

definition call_updated :: "string \<Rightarrow> gcall \<times> gparticipant list \<Rightarrow> conv_payload fanout_event" where
  "call_updated cid ch =
     \<lparr>fe_conv = cid, fe_name = CONVERSATION_CALL_UPDATED,
      fe_payload = \<lparr>fp_call = Some (gc_id (fst ch), int (gc_version (fst ch))), fp_created = None, fp_message = None,
                    fp_body = Call_Updated (fst ch) (snd ch)\<rparr>,
      fe_to = map gp_user (snd ch)\<rparr>"

text \<open>\<open>rejectStoreError\<close>: the code of a refusal by the store.\<close>

definition reject_code :: "store_error \<Rightarrow> string" where
  "reject_code e = (if e = Not_Member \<or> e = Forbidden then ''forbidden'' else ''bad_request'')"

section \<open>Admission\<close>

fun check_invites :: "conv_env \<Rightarrow> string \<Rightarrow> nat \<Rightarrow> conv_server \<Rightarrow> limit_result option \<times> conv_server" where
  "check_invites env u 0 cs = (None, cs)"
| "check_invites env u (Suc n) cs =
     (case check_limit (fst (ve_invite env)) (snd (ve_invite env)) u (ve_now env) (cv_invites cs) of
        (r, bs) \<Rightarrow>
          if \<not> lr_allowed r then (Some r, cs\<lparr>cv_invites := bs\<rparr>) else check_invites env u n (cs\<lparr>cv_invites := bs\<rparr>))"

definition checkGroupAdmissionRate ::
  "conv_env \<Rightarrow> string \<Rightarrow> bool \<Rightarrow> nat \<Rightarrow> conv_server \<Rightarrow> limit_result option \<times> conv_server" where
  "checkGroupAdmissionRate env u creating n cs =
     (if creating
      then (case check_limit (fst (ve_create env)) (snd (ve_create env)) u (ve_now env) (cv_creates cs) of
              (r, bs) \<Rightarrow>
                if \<not> lr_allowed r then (Some r, cs\<lparr>cv_creates := bs\<rparr>)
                else check_invites env u n (cs\<lparr>cv_creates := bs\<rparr>))
      else check_invites env u (max 1 n) cs)"

definition all_visible :: "conv_server \<Rightarrow> string \<Rightarrow> string list \<Rightarrow> bool" where
  "all_visible cs u us = (length (filterVisible (isDirectoryVisibleAsync (cv_privacy cs) u) us) = length us)"

definition valid_ids :: "string list \<Rightarrow> string list" where
  "valid_ids raw = List.map_filter (\<lambda>i. normaliseId (Some i)) raw"

section \<open>Groups\<close>

definition handleCreate :: "conv_env \<Rightarrow> string \<Rightarrow> string \<Rightarrow> string list \<Rightarrow> conv_server \<Rightarrow> conv_ack answer \<times> conv_server" where
  "handleCreate env u name raw cs =
     (let us = valid_ids raw
      in if length us \<noteq> length raw \<or> u \<in> set us \<or> length (uniq us) \<noteq> length us \<or> us = [] \<or> 15 < length us
         then (Rejected ''bad_request'', cs)
         else (case checkGroupAdmissionRate env u True (length us) cs of
                 (Some _, cs1) \<Rightarrow> (Rejected ''rate_limited'', cs1)
               | (None, cs1) \<Rightarrow>
                   if \<not> all_visible cs1 u us then (Rejected ''forbidden'', cs1)
                   else (case create (ve_group env) name u us (cv_groups cs1) of
                           (Inl e, st) \<Rightarrow> (Rejected (reject_code e), put_conv st cs1)
                         | (Inr None, st) \<Rightarrow> (Rejected ''internal_error'', put_conv st cs1)
                         | (Inr (Some ch), st) \<Rightarrow>
                             (let sn = cg_snapshot ch; cid = gr_id (sn_group sn);
                                  cs2 = fold (\<lambda>m. record_audit env ''conversation.membership.created'' u (Some (gm_user m))
                                          (cid @ '' '' @ role_name (gm_role m))) (cg_members ch) (put_conv st cs1)
                              in (Answered (Ack_Group sn (cg_invitations ch)),
                                  fan_out env (conversation_updated cid sn u (sn_members sn)) cs2)))))"

definition handleUpdate :: "conv_env \<Rightarrow> string \<Rightarrow> string \<Rightarrow> string \<Rightarrow> conv_server \<Rightarrow> conv_ack answer \<times> conv_server" where
  "handleUpdate env u conv name cs =
     (case normaliseId (Some conv) of
        None \<Rightarrow> (Rejected ''bad_request'', cs)
      | Some cid \<Rightarrow>
          (case updateName (ve_group env) cid u name (cv_groups cs) of
             (Inl e, st) \<Rightarrow> (Rejected (reject_code e), put_conv st cs)
           | (Inr None, st) \<Rightarrow> (Rejected ''not_found'', put_conv st cs)
           | (Inr (Some ch), st) \<Rightarrow>
               (let sn = cg_snapshot ch
                in (Answered (Ack_Conversation sn),
                    fan_out env (conversation_updated cid sn u (sn_members sn))
                      (record_audit env ''conversation.updated'' u (Some cid) (gr_name (sn_group sn)) (put_conv st cs))))))"

definition handleMemberAdd ::
  "conv_env \<Rightarrow> string \<Rightarrow> string \<Rightarrow> string list \<Rightarrow> conv_server \<Rightarrow> conv_ack answer \<times> conv_server" where
  "handleMemberAdd env u conv raw cs =
     (let us = valid_ids raw
      in if normaliseId (Some conv) = None \<or> length us \<noteq> length raw \<or> 15 < length us \<or> u \<in> set us \<or>
            length (uniq us) \<noteq> length us
         then (Rejected ''bad_request'', cs)
         else (case checkGroupAdmissionRate env u False (length us) cs of
                 (Some _, cs1) \<Rightarrow> (Rejected ''rate_limited'', cs1)
               | (None, cs1) \<Rightarrow>
                   if \<not> all_visible cs1 u us then (Rejected ''forbidden'', cs1)
                   else
                     (let cid = the (normaliseId (Some conv))
                      in case addMembers (ve_group env) cid u us (cv_groups cs1) of
                           (Inl e, st) \<Rightarrow> (Rejected (reject_code e), put_conv st cs1)
                         | (Inr None, st) \<Rightarrow> (Rejected ''not_found'', put_conv st cs1)
                         | (Inr (Some ch), st) \<Rightarrow>
                             (let sn = cg_snapshot ch;
                                  cs2 = fold (\<lambda>v. record_audit env ''conversation.membership.created'' u (Some v)
                                          (cid @ '' member'')) us (put_conv st cs1)
                              in (Answered (Ack_Group sn (cg_invitations ch)),
                                  fan_out env (conversation_updated cid sn u (sn_members sn)) cs2)))))"

text \<open>The group and its calls, as they are after a departure.\<close>

definition tell_departure ::
  "conv_env \<Rightarrow> string \<Rightarrow> string \<Rightarrow> group_change \<Rightarrow> string list \<Rightarrow> conv_server \<Rightarrow> conv_server" where
  "tell_departure env cid u ch us cs =
     fold (\<lambda>c. fan_out env (call_updated cid c)) (cg_calls ch)
       (fan_out env (conversation_updated cid (cg_snapshot ch) u us) cs)"

definition handleMemberRemove ::
  "conv_env \<Rightarrow> string \<Rightarrow> string \<Rightarrow> string \<Rightarrow> conv_server \<Rightarrow> conv_ack answer \<times> conv_server" where
  "handleMemberRemove env u conv user cs =
     (case (normaliseId (Some conv), normaliseId (Some user)) of
        (Some cid, Some v) \<Rightarrow>
          (case removeMember (ve_group env) cid u v None (cv_groups cs) of
             (Inl e, st) \<Rightarrow> (Rejected (reject_code e), put_conv st cs)
           | (Inr None, st) \<Rightarrow> (Rejected ''not_found'', put_conv st cs)
           | (Inr (Some ch), st) \<Rightarrow>
               (Answered (Ack_Conversation (cg_snapshot ch)),
                tell_departure env cid u ch (sn_members (cg_snapshot ch) @ [v])
                  (record_audit env ''conversation.membership.removed'' u (Some v) cid (put_conv st cs))))
      | _ \<Rightarrow> (Rejected ''bad_request'', cs))"

text \<open>No \<open>leave\<close> of a store answers with \<open>previousOwnerId\<close>, so nothing is recorded of a transfer.\<close>

definition handleLeave :: "conv_env \<Rightarrow> string \<Rightarrow> string \<Rightarrow> conv_server \<Rightarrow> conv_ack answer \<times> conv_server" where
  "handleLeave env u conv cs =
     (case normaliseId (Some conv) of
        None \<Rightarrow> (Rejected ''bad_request'', cs)
      | Some cid \<Rightarrow>
          (case leave (ve_group env) cid u (cv_groups cs) of
             (Inl e, st) \<Rightarrow> (Rejected (reject_code e), put_conv st cs)
           | (Inr None, st) \<Rightarrow> (Rejected ''not_found'', put_conv st cs)
           | (Inr (Some ch), st) \<Rightarrow>
               (Answered (Ack_Conversation (cg_snapshot ch)),
                tell_departure env cid u ch (sn_members (cg_snapshot ch))
                  (record_audit env ''conversation.membership.left'' u (Some cid) '''' (put_conv st cs)))))"

section \<open>Calls of a group\<close>

definition take_snapshot :: "gcall \<times> gparticipant list \<Rightarrow> conv_server \<Rightarrow> conv_server" where
  "take_snapshot ch cs = cs\<lparr>cv_snapshots := cv_snapshots cs @ [ch]\<rparr>"

definition start_request :: "conv_env \<Rightarrow> string \<Rightarrow> string \<Rightarrow> string option \<Rightarrow> conv_server \<Rightarrow> start_args" where
  "start_request env u cid media cs =
     \<lparr>sa_conv = cid, sa_initiator = u, sa_video = (case media of Some m \<Rightarrow> m = ''video'' | None \<Rightarrow> True),
      sa_ring_ms = ve_ring_ms env, sa_excluded = [], sa_reach = isDirectoryVisibleAsync (cv_privacy cs) u\<rparr>"

definition handleCallStart ::
  "conv_env \<Rightarrow> string \<Rightarrow> string \<Rightarrow> string option \<Rightarrow> conv_server \<Rightarrow> conv_ack answer \<times> conv_server" where
  "handleCallStart env u conv media cs =
     (case normaliseId (Some conv) of
        None \<Rightarrow> (Rejected ''bad_request'', cs)
      | Some cid \<Rightarrow>
          (case check_shared (fst (ve_call env)) (snd (ve_call env)) (ve_call_security env) u (ve_now env) (cv_calls cs) of
             (r, bs) \<Rightarrow>
               let cs1 = cs\<lparr>cv_calls := bs\<rparr>
               in if \<not> lr_allowed r then (Rejected ''rate_limited'', cs1)
                  else (case startCall (ve_group env) (start_request env u cid media cs1) [] (cv_groups cs1) of
                          (Inl e, st) \<Rightarrow> (Rejected (reject_code e), put_conv st cs1)
                        | (Inr None, st) \<Rightarrow> (Rejected ''not_found'', put_conv st cs1)
                        | (Inr (Some ch), st) \<Rightarrow>
                            (Answered (Ack_Group_Call (fst ch) (snd ch)),
                             fan_out env (call_updated cid ch)
                               (record_audit env ''conversation.call.started'' u (Some cid) (gc_id (fst ch))
                                 (take_snapshot ch (put_conv st cs1)))))))"

fun act_event :: "call_action \<Rightarrow> string" where
  "act_event Accept = ''conversation.call.accepted''"
| "act_event Decline = ''conversation.call.declined''"
| "act_event Leave = ''conversation.call.left''"

definition handleCallAct ::
  "conv_env \<Rightarrow> string \<Rightarrow> call_action \<Rightarrow> string \<Rightarrow> conv_server \<Rightarrow> conv_ack answer \<times> conv_server" where
  "handleCallAct env u act call cs =
     (case normaliseId (Some call) of
        None \<Rightarrow> (Rejected ''bad_request'', cs)
      | Some k \<Rightarrow>
          (case transitionGroupCall (ve_group env) k u act (cv_groups cs) of
             (Inl e, st) \<Rightarrow> (Rejected (reject_code e), put_conv st cs)
           | (Inr None, st) \<Rightarrow> (Rejected ''not_found'', put_conv st cs)
           | (Inr (Some (ch, expired)), st) \<Rightarrow>
               (let cid = gc_conv (fst ch); cs1 = take_snapshot ch (put_conv st cs)
                in if expired then (Rejected ''bad_request'', fan_out env (call_updated cid ch) cs1)
                   else (Answered (Ack_Group_Call (fst ch) (snd ch)),
                         fan_out env (call_updated cid ch) (record_audit env (act_event act) u (Some cid) k cs1)))))"

text \<open>\<open>call.restart-request\<close> and \<open>call.media-state\<close> of a group call.\<close>

definition may_signal :: "group_store \<Rightarrow> string \<Rightarrow> string \<Rightarrow> gcall \<times> gparticipant list \<Rightarrow> bool" where
  "may_signal st u peer ch \<longleftrightarrow>
     gc_status (fst ch) = GC_Active \<and> accepted_participant (snd ch) u \<and> accepted_participant (snd ch) peer \<and>
     getMember (gc_conv (fst ch)) u st \<noteq> None \<and> getMember (gc_conv (fst ch)) peer st \<noteq> None"

definition handleGroupSignal ::
  "conv_env \<Rightarrow> string \<Rightarrow> relay_kind \<Rightarrow> string \<Rightarrow> string \<Rightarrow> negotiation option \<Rightarrow> string option \<Rightarrow> conv_server \<Rightarrow>
   conv_ack answer \<times> conv_server" where
  "handleGroupSignal env u kind call peerId negotiation media cs =
     (case (normaliseId (Some call), normaliseId (Some peerId)) of
        (Some k, Some peer) \<Rightarrow>
          if peer = u then (Rejected ''bad_request'', cs)
          else (case check_shared (fst (ve_signal env)) (snd (ve_signal env)) (ve_signal_security env) u (ve_now env)
                       (cv_signals cs) of
                  (r, bs) \<Rightarrow>
                    let cs1 = cs\<lparr>cv_signals := bs\<rparr>
                    in if \<not> lr_allowed r then (Rejected ''rate_limited'', cs1)
                       else (case callChange k (cv_groups cs1) of
                               None \<Rightarrow> (Rejected ''forbidden'', cs1)
                             | Some ch \<Rightarrow>
                                 if \<not> may_signal (cv_groups cs1) u peer ch then (Rejected ''forbidden'', cs1)
                                 else
                                   (let n = groupNegotiationId (snd ch) u peer
                                    in if negotiation \<noteq> Some n then (Rejected ''forbidden'', cs1)
                                       else (Answered (Ack_Peer k peer),
                                             cs1\<lparr>cv_relayed := cv_relayed cs1 @
                                               [(peer, \<lparr>gs_kind = kind, gs_call = k, gs_from = u, gs_negotiation = n,
                                                        gs_media = (if kind = Media_State then media else None)\<rparr>)]\<rparr>))))
      | _ \<Rightarrow> (Rejected ''bad_request'', cs))"

section \<open>Requests\<close>

datatype conv_request =
    Rq_Create string "string list"
  | Rq_Update string string
  | Rq_Add string "string list"
  | Rq_Remove string string
  | Rq_Leave string
  | Rq_Start string "string option"
  | Rq_Act call_action string
  | Rq_Signal relay_kind string string "negotiation option" "string option"

fun dispatch :: "conv_env \<Rightarrow> string \<Rightarrow> conv_request \<Rightarrow> conv_server \<Rightarrow> conv_ack answer \<times> conv_server" where
  "dispatch env u (Rq_Create name us) cs = handleCreate env u name us cs"
| "dispatch env u (Rq_Update cid name) cs = handleUpdate env u cid name cs"
| "dispatch env u (Rq_Add cid us) cs = handleMemberAdd env u cid us cs"
| "dispatch env u (Rq_Remove cid v) cs = handleMemberRemove env u cid v cs"
| "dispatch env u (Rq_Leave cid) cs = handleLeave env u cid cs"
| "dispatch env u (Rq_Start cid media) cs = handleCallStart env u cid media cs"
| "dispatch env u (Rq_Act act k) cs = handleCallAct env u act k cs"
| "dispatch env u (Rq_Signal kind k peer n media) cs = handleGroupSignal env u kind k peer n media cs"

definition on_conversation ::
  "conv_env \<Rightarrow> socket_identity \<Rightarrow> conv_request request \<Rightarrow> conv_server \<Rightarrow> conv_ack answer \<times> conv_server" where
  "on_conversation env sk rq cs =
     (case admitted sk rq of
        Inl (Refused code _) \<Rightarrow> (Rejected code, cs)
      | Inl (Done _) \<Rightarrow> (Rejected [], cs)
      | Inr r \<Rightarrow> dispatch env (si_user sk) r cs)"

end
