(* ===== verification/ConversationProperties.thy ===== *)
theory ConversationProperties
  imports ConversationHandlers GroupCallProperties
begin

text \<open>
  The conversation requests of sockets against the group store: a request acts on the store as one operation in its
  sender's name, a stranger to a group is refused without any effect, invitations respect blocks, and adding a user
  only invites.
\<close>

section \<open>What a request touches\<close>

lemma record_audit_fields [simp]:
  "cv_groups (record_audit env ev u t d cs) = cv_groups cs" "cv_privacy (record_audit env ev u t d cs) = cv_privacy cs"
  by (simp_all add: record_audit_def)

lemma fan_out_fields [simp]:
  "cv_groups (fan_out env ev cs) = cv_groups cs" "cv_audit (fan_out env ev cs) = cv_audit cs"
  by (simp_all add: fan_out_def)

lemma audits_groups [simp]: "cv_groups (fold (\<lambda>x. record_audit env ev u (f x) (g x)) xs cs) = cv_groups cs"
  by (induction xs arbitrary: cs) simp_all

lemma tell_departure_groups [simp]: "cv_groups (tell_departure env cid u ch us cs) = cv_groups cs"
proof -
  have "cv_groups (fold (\<lambda>c. fan_out env (call_updated cid c)) xs s) = cv_groups s" for xs s
    by (induction xs arbitrary: s) simp_all
  then show ?thesis by (simp add: tell_departure_def)
qed

lemma put_conv_groups [simp]: "cv_groups (put_conv st cs) = st"
  by (simp add: put_conv_def)

lemma take_snapshot_groups [simp]: "cv_groups (take_snapshot ch cs) = cv_groups cs"
  by (simp add: take_snapshot_def)

text \<open>Budgets: a check of admission writes the two limiters of admission only.\<close>

definition charged_only :: "conv_server \<Rightarrow> conv_server \<Rightarrow> bool" where
  "charged_only cs cs' \<longleftrightarrow> (\<exists>bs bs'. cs' = cs\<lparr>cv_creates := bs, cv_invites := bs'\<rparr>)"

lemma charged_only_fields:
  assumes "charged_only cs cs'"
  shows "cv_groups cs' = cv_groups cs" "cv_privacy cs' = cv_privacy cs" "cv_audit cs' = cv_audit cs"
    "cv_fanout cs' = cv_fanout cs" "cv_snapshots cs' = cv_snapshots cs" "cv_relayed cs' = cv_relayed cs"
  using assms by (auto simp: charged_only_def)

lemma charged_only_invites: "charged_only cs (cs\<lparr>cv_invites := bs\<rparr>)"
proof -
  have "cs\<lparr>cv_invites := bs\<rparr> = cs\<lparr>cv_creates := cv_creates cs, cv_invites := bs\<rparr>" by simp
  then show ?thesis unfolding charged_only_def by blast
qed

lemma charged_only_trans:
  assumes "charged_only a b" and "charged_only b c"
  shows "charged_only a c"
proof -
  obtain bs bs' where "c = b\<lparr>cv_creates := bs, cv_invites := bs'\<rparr>" using assms(2) by (auto simp: charged_only_def)
  then have "c = a\<lparr>cv_creates := bs, cv_invites := bs'\<rparr>" using assms(1) by (auto simp: charged_only_def)
  then show ?thesis unfolding charged_only_def by blast
qed

lemma check_invites_charges: "check_invites env u n cs = (r, cs') \<Longrightarrow> charged_only cs cs'"
proof (induction n arbitrary: cs)
  case 0
  then show ?case using charged_only_invites [of cs "cv_invites cs"] by simp
next
  case (Suc n)
  obtain l bs where lim: "check_limit (fst (ve_invite env)) (snd (ve_invite env)) u (ve_now env) (cv_invites cs) = (l, bs)"
    by (rule prod.exhaust)
  show ?case
  proof (cases "lr_allowed l")
    case True
    then have "check_invites env u n (cs\<lparr>cv_invites := bs\<rparr>) = (r, cs')" using Suc.prems lim by simp
    then show ?thesis using charged_only_trans [OF charged_only_invites Suc.IH] by blast
  next
    case False
    then show ?thesis using Suc.prems lim charged_only_invites by auto
  qed
qed

lemma charged_only_creates: "charged_only cs (cs\<lparr>cv_creates := bs\<rparr>)"
proof -
  have "cs\<lparr>cv_creates := bs\<rparr> = cs\<lparr>cv_creates := bs, cv_invites := cv_invites cs\<rparr>" by simp
  then show ?thesis unfolding charged_only_def by blast
qed

lemma admission_charges:
  assumes "checkGroupAdmissionRate env u creating n cs = (r, cs')"
  shows "charged_only cs cs'"
proof (cases creating)
  case True
  obtain l bs where lim: "check_limit (fst (ve_create env)) (snd (ve_create env)) u (ve_now env) (cv_creates cs) = (l, bs)"
    by (rule prod.exhaust)
  show ?thesis using assms True lim charged_only_creates [of cs bs]
    by (auto simp: checkGroupAdmissionRate_def split: if_splits dest!: check_invites_charges intro: charged_only_trans)
next
  case False
  then show ?thesis using assms by (auto simp: checkGroupAdmissionRate_def dest: check_invites_charges)
qed

lemmas admission_fields = charged_only_fields [OF admission_charges]

section \<open>One operation of the store per request\<close>

text \<open>The operations a conversation request may stand for, in the name of \<open>u\<close>.\<close>

fun op_by :: "string \<Rightarrow> group_op \<Rightarrow> bool" where
  "op_by u (Op_Create name c us) = (c = u)"
| "op_by u (Op_Invite cid a us) = (a = u)"
| "op_by u (Op_Rename cid a name) = (a = u)"
| "op_by u (Op_Remove cid a v r) = (a = u)"
| "op_by u (Op_Leave cid v) = (v = u)"
| "op_by u (Op_Start a) = (sa_initiator a = u)"
| "op_by u (Op_Call k v act) = (v = u)"
| "op_by u _ = False"

definition acts_as :: "conv_env \<Rightarrow> string \<Rightarrow> conv_server \<Rightarrow> conv_server \<Rightarrow> bool" where
  "acts_as env u cs cs' \<longleftrightarrow>
     cv_groups cs' = cv_groups cs \<or> (\<exists>op. op_by u op \<and> cv_groups cs' = run_group (ve_group env) op (cv_groups cs))"

lemma acts_as_same: "cv_groups cs' = cv_groups cs \<Longrightarrow> acts_as env u cs cs'"
  by (simp add: acts_as_def)

lemma acts_as_op: "op_by u op \<Longrightarrow> cv_groups cs' = run_group (ve_group env) op (cv_groups cs) \<Longrightarrow> acts_as env u cs cs'"
  by (auto simp: acts_as_def)

text \<open>Running the operation, then reporting what it answers.\<close>

lemma create_acts: "acts_as env u cs (snd (handleCreate env u name raw cs))"
proof -
  obtain r cs1 where rate: "checkGroupAdmissionRate env u True (length (valid_ids raw)) cs = (r, cs1)" by (rule prod.exhaust)
  note groups = admission_fields(1) [OF rate]
  obtain a st where op: "create (ve_group env) name u (valid_ids raw) (cv_groups cs) = (a, st)" by (rule prod.exhaust)
  have "acts_as env u cs (put_conv st cs)"
    by (rule acts_as_op [of u "Op_Create name u (valid_ids raw)"]) (simp_all add: op)
  then show ?thesis
    unfolding handleCreate_def Let_def rate by (simp add: groups op acts_as_def split: option.split sum.split)
qed

lemma add_acts: "acts_as env u cs (snd (handleMemberAdd env u conv raw cs))"
proof -
  let ?cid = "the (normaliseId (Some conv))"
  obtain r cs1 where rate: "checkGroupAdmissionRate env u False (length (valid_ids raw)) cs = (r, cs1)" by (rule prod.exhaust)
  note groups = admission_fields(1) [OF rate]
  obtain a st where op: "addMembers (ve_group env) ?cid u (valid_ids raw) (cv_groups cs) = (a, st)" by (rule prod.exhaust)
  have "acts_as env u cs (put_conv st cs)"
    by (rule acts_as_op [of u "Op_Invite ?cid u (valid_ids raw)"]) (simp_all add: op)
  then show ?thesis
    unfolding handleMemberAdd_def Let_def rate by (simp add: groups op acts_as_def split: option.split sum.split)
qed

lemma update_acts: "acts_as env u cs (snd (handleUpdate env u conv name cs))"
proof (cases "normaliseId (Some conv)")
  case (Some cid)
  show ?thesis
    by (rule acts_as_op [of u "Op_Rename cid u name"])
      (simp_all add: handleUpdate_def Some Let_def split: prod.split sum.split option.split)
qed (simp add: handleUpdate_def acts_as_def)

lemma remove_acts: "acts_as env u cs (snd (handleMemberRemove env u conv user cs))"
proof (cases "normaliseId (Some conv) = None \<or> normaliseId (Some user) = None")
  case True
  then show ?thesis by (auto simp: handleMemberRemove_def intro: acts_as_same split: option.split)
next
  case False
  then obtain cid v where ids: "normaliseId (Some conv) = Some cid" "normaliseId (Some user) = Some v" by auto
  show ?thesis
    by (rule acts_as_op [of u "Op_Remove cid u v None"])
      (simp_all add: handleMemberRemove_def ids split: prod.split sum.split option.split)
qed

lemma leave_acts: "acts_as env u cs (snd (handleLeave env u conv cs))"
proof (cases "normaliseId (Some conv)")
  case (Some cid)
  show ?thesis
    by (rule acts_as_op [of u "Op_Leave cid u"])
      (simp_all add: handleLeave_def Some split: prod.split sum.split option.split)
qed (simp add: handleLeave_def acts_as_def)

lemma act_acts: "acts_as env u cs (snd (handleCallAct env u act call cs))"
proof (cases "normaliseId (Some call)")
  case (Some k)
  show ?thesis
    by (rule acts_as_op [of u "Op_Call k u act"])
      (simp_all add: handleCallAct_def Some Let_def split: prod.split sum.split option.split)
qed (simp add: handleCallAct_def acts_as_def)

lemma start_acts: "acts_as env u cs (snd (handleCallStart env u conv media cs))"
proof (cases "normaliseId (Some conv)")
  case (Some cid)
  obtain r bs where lim: "check_shared (fst (ve_call env)) (snd (ve_call env)) (ve_call_security env) u (ve_now env) (cv_calls cs) = (r, bs)"
    by (rule prod.exhaust)
  let ?a = "start_request env u cid media (cs\<lparr>cv_calls := bs\<rparr>)"
  obtain a st where op: "startCall (ve_group env) ?a [] (cv_groups cs) = (a, st)" by (rule prod.exhaust)
  have "acts_as env u cs (put_conv st cs)"
  proof (rule acts_as_op [of u "Op_Start ?a"])
    show "op_by u (Op_Start ?a)" by (simp add: start_request_def)
  qed (simp add: op)
  then show ?thesis
    by (simp add: handleCallStart_def Some Let_def lim op acts_as_def split: option.split sum.split)
qed (simp add: handleCallStart_def acts_as_def)

lemma signal_acts: "acts_as env u cs (snd (handleGroupSignal env u kind call peer n media cs))"
  by (rule acts_as_same) (simp add: handleGroupSignal_def Let_def split: option.split prod.split)

lemma dispatch_acts: "acts_as env u cs (snd (dispatch env u r cs))"
  by (cases r) (simp_all only: dispatch.simps create_acts update_acts add_acts remove_acts leave_acts start_acts act_acts
    signal_acts)

text \<open>Requests served one after the other, each with the clock and limits of its moment.\<close>

definition serve_conversations ::
  "(conv_env \<times> socket_identity \<times> conv_request request) list \<Rightarrow> conv_server \<Rightarrow> conv_server" where
  "serve_conversations rs cs = fold (\<lambda>(env, sk, rq) cs. snd (on_conversation env sk rq cs)) rs cs"

lemma serve_Cons: "serve_conversations ((env, sk, rq) # rs) cs = serve_conversations rs (snd (on_conversation env sk rq cs))"
  by (simp add: serve_conversations_def)

definition asked_by :: "(conv_env \<times> socket_identity \<times> conv_request request) list \<Rightarrow> genv \<times> group_op \<Rightarrow> bool" where
  "asked_by rs step =
     list_ex (\<lambda>(env, sk, rq). fst step = ve_group env \<and> str_truthy (si_session sk) \<and> op_by (si_user sk) (snd step)) rs"

lemma on_conversation_acts:
  "cv_groups (snd (on_conversation env sk rq cs)) = cv_groups cs \<or>
   str_truthy (si_session sk) \<and> acts_as env (si_user sk) cs (snd (on_conversation env sk rq cs))"
proof (cases "admitted sk rq")
  case (Inl r)
  then show ?thesis by (cases r) (simp_all add: on_conversation_def)
next
  case (Inr r)
  then have "str_truthy (si_session sk)"
    by (simp add: admitted_def guard_refusal_def split: if_splits)
  then show ?thesis using dispatch_acts Inr by (simp add: on_conversation_def)
qed

lemma asked_by_Cons: "asked_by rs step \<Longrightarrow> asked_by (r # rs) step"
  by (simp add: asked_by_def)

text \<open>
  Whatever conversation requests sockets make, in any order, the groups are those that operations of the store
  explain, each one asked for by a user with a session in that user's own name: no request acts for another user or
  does more than one operation.
\<close>

lemma requests_are_operations:
  "\<exists>steps. length steps \<le> length rs \<and> list_all (asked_by rs) steps \<and>
     cv_groups (serve_conversations rs cs) = fold (\<lambda>(env, op). run_group env op) steps (cv_groups cs)"
proof (induction rs arbitrary: cs)
  case Nil
  show ?case by (rule exI [of _ "[]"]) (simp add: serve_conversations_def)
next
  case (Cons r rs)
  obtain env sk rq where r: "r = (env, sk, rq)" by (cases r) auto
  let ?cs = "snd (on_conversation env sk rq cs)"
  obtain steps where IH: "length steps \<le> length rs" "list_all (asked_by rs) steps"
    "cv_groups (serve_conversations rs ?cs) = fold (\<lambda>(env, op). run_group env op) steps (cv_groups ?cs)"
    using Cons.IH by blast
  have later: "list_all (asked_by (r # rs)) steps" using IH(2) by (auto simp: list_all_iff asked_by_Cons)
  consider "cv_groups ?cs = cv_groups cs"
    | op where "str_truthy (si_session sk)" "op_by (si_user sk) op"
        "cv_groups ?cs = run_group (ve_group env) op (cv_groups cs)"
    using on_conversation_acts [of env sk rq cs] by (auto simp: acts_as_def)
  then show ?case
  proof cases
    case 1
    then show ?thesis using IH later by (intro exI [of _ steps]) (simp add: r serve_Cons)
  next
    case 2
    have "asked_by (r # rs) (ve_group env, op)" using 2 by (simp add: asked_by_def r)
    then show ?thesis using 2 IH later by (intro exI [of _ "(ve_group env, op) # steps"]) (simp add: r serve_Cons)
  qed
qed

text \<open>With the invariants of the store: every sequence of requests keeps groups and group calls well-formed.\<close>

lemma run_all_wf:
  assumes "inj uu"
  shows "list_all (\<lambda>step. g_uuid (fst step) = uu) steps \<Longrightarrow> wf_groups uu st \<Longrightarrow> wf_gcalls uu st \<Longrightarrow>
    wf_groups uu (fold (\<lambda>(env, op). run_group env op) steps st) \<and> wf_gcalls uu (fold (\<lambda>(env, op). run_group env op) steps st)"
proof (induction steps arbitrary: st)
  case (Cons step steps)
  obtain env op where step: "step = (env, op)" by (rule prod.exhaust)
  have "wf_groups uu (run_group env op st)" "wf_gcalls uu (run_group env op st)"
    using Cons.prems by (simp_all add: step run_group_wf [OF assms] run_group_calls [OF assms])
  then show ?case using Cons.IH Cons.prems(1) by (simp add: step)
qed simp

lemma requests_keep_groups:
  assumes "inj uu" and "list_all (\<lambda>(env, sk, rq). g_uuid (ve_group env) = uu) rs"
    and "wf_groups uu (cv_groups cs)" "wf_gcalls uu (cv_groups cs)"
  shows "wf_groups uu (cv_groups (serve_conversations rs cs)) \<and> wf_gcalls uu (cv_groups (serve_conversations rs cs))"
proof -
  obtain steps where steps: "list_all (asked_by rs) steps"
    "cv_groups (serve_conversations rs cs) = fold (\<lambda>(env, op). run_group env op) steps (cv_groups cs)"
    using requests_are_operations by blast
  have "asked_by rs step \<Longrightarrow> g_uuid (fst step) = uu" for step
    using assms(2) by (auto simp: asked_by_def list_all_iff list_ex_iff)
  then have "list_all (\<lambda>step. g_uuid (fst step) = uu) steps" using steps(1) by (simp add: list_all_iff)
  from run_all_wf [OF assms(1) this assms(3,4)] show ?thesis by (simp add: steps(2))
qed

section \<open>Strangers\<close>

text \<open>The request concerns the group: it names it, or a call of it.\<close>

definition call_in :: "group_store \<Rightarrow> string \<Rightarrow> string \<Rightarrow> bool" where
  "call_in st cid call =
     (case normaliseId (Some call) of
        None \<Rightarrow> False
      | Some k \<Rightarrow> (case map_of (gcalls st) k of Some c \<Rightarrow> gc_conv c = cid | None \<Rightarrow> False))"

fun concerns :: "group_store \<Rightarrow> string \<Rightarrow> conv_request \<Rightarrow> bool" where
  "concerns st cid (Rq_Create name us) = False"
| "concerns st cid (Rq_Update c name) = (normaliseId (Some c) = Some cid)"
| "concerns st cid (Rq_Add c us) = (normaliseId (Some c) = Some cid)"
| "concerns st cid (Rq_Remove c v) = (normaliseId (Some c) = Some cid)"
| "concerns st cid (Rq_Leave c) = (normaliseId (Some c) = Some cid)"
| "concerns st cid (Rq_Start c media) = (normaliseId (Some c) = Some cid)"
| "concerns st cid (Rq_Act act k) = call_in st cid k"
| "concerns st cid (Rq_Signal kind k peer n media) = call_in st cid k"

definition no_effect :: "conv_server \<Rightarrow> conv_server \<Rightarrow> bool" where
  "no_effect cs cs' \<longleftrightarrow>
     cv_groups cs' = cv_groups cs \<and> cv_audit cs' = cv_audit cs \<and> cv_fanout cs' = cv_fanout cs \<and>
     cv_snapshots cs' = cv_snapshots cs \<and> cv_relayed cs' = cv_relayed cs"

definition rejected :: "'a answer \<Rightarrow> bool" where
  "rejected a = (case a of Rejected _ \<Rightarrow> True | Answered _ \<Rightarrow> False)"

abbreviation turned_away :: "conv_server \<Rightarrow> 'a answer \<times> conv_server \<Rightarrow> bool" where
  "turned_away cs r \<equiv> rejected (fst r) \<and> no_effect cs (snd r)"

lemma rejected_simps [simp]: "rejected (Rejected c)" "\<not> rejected (Answered x)"
  by (simp_all add: rejected_def)

lemma no_effect_refl [simp]: "no_effect cs cs" "no_effect cs (put_conv (cv_groups cs) cs)"
  "no_effect cs (cs\<lparr>cv_calls := bs\<rparr>)" "no_effect cs (cs\<lparr>cv_signals := bs\<rparr>)"
  "no_effect cs (put_conv (cv_groups cs) (cs\<lparr>cv_calls := bs\<rparr>))"
  by (simp_all add: no_effect_def put_conv_def)

lemma charged_no_effect: "charged_only cs cs' \<Longrightarrow> no_effect cs cs' \<and> no_effect cs (put_conv (cv_groups cs) cs')"
  by (auto simp: no_effect_def put_conv_def charged_only_def)

lemma stranger_dispatch:
  assumes live: "live_group cid (cv_groups cs) \<noteq> None"
    and out: "u \<notin> set (map gm_user (listMembers cid (cv_groups cs)))" and "concerns (cv_groups cs) cid r"
  shows "turned_away cs (dispatch env u r cs)"
proof -
  obtain g where g: "live_group cid (cv_groups cs) = Some g" using live by blast
  note refused = stranger [OF live out]
  have none: "getMember cid u (cv_groups cs) = None"
    using out by (auto simp: getMember_def g member_of_def find_None_iff simp del: set_sort_cmp)
  show ?thesis
  proof (cases r)
    case (Rq_Add c us)
    have cid: "normaliseId (Some c) = Some cid" using assms(3) Rq_Add by simp
    obtain l cs1 where rate: "checkGroupAdmissionRate env u False (length (valid_ids us)) cs = (l, cs1)" by (rule prod.exhaust)
    note same = charged_no_effect [OF admission_charges [OF rate]]
    have "\<exists>e. addMembers (ve_group env) cid u (valid_ids us) (cv_groups cs) = (Inl e, cv_groups cs)"
      by (simp add: addMembers_def g refused split: option.split)
    then obtain e where "addMembers (ve_group env) cid u (valid_ids us) (cv_groups cs) = (Inl e, cv_groups cs)" by blast
    then show ?thesis unfolding Rq_Add dispatch.simps handleMemberAdd_def Let_def rate cid
      using same by (simp add: admission_fields(1) [OF rate] split: option.split)
  next
    case (Rq_Start c media)
    have cid: "normaliseId (Some c) = Some cid" using assms(3) Rq_Start by simp
    have "startCall (ve_group env) (start_request env u cid media s) [] (cv_groups cs) = (Inl Not_Member, cv_groups cs)" for s
      by (simp add: startCall_def start_request_def g refused)
    then show ?thesis by (simp add: Rq_Start handleCallStart_def cid Let_def split: prod.split)
  next
    case (Rq_Act act k)
    then obtain k' c where c: "normaliseId (Some k) = Some k'" "map_of (gcalls (cv_groups cs)) k' = Some c" "gc_conv c = cid"
      using assms(3) by (auto simp: call_in_def split: option.splits)
    have "transitionGroupCall env k' u act (cv_groups cs) =
        (if gc_status c = GC_Ended then Inr None else Inl Not_Member, cv_groups cs)" for env
      by (simp add: transitionGroupCall_def c refused)
    then show ?thesis by (simp add: Rq_Act handleCallAct_def c)
  next
    case (Rq_Signal kind k peer n media)
    then show ?thesis using assms(3)
      by (auto simp: handleGroupSignal_def call_in_def callChange_def may_signal_def none Let_def split: option.splits prod.splits)
  qed (use assms(3) in \<open>auto simp: handleUpdate_def handleMemberRemove_def handleLeave_def updateName_def removeMember_def
    leave_def g refused split: option.split\<close>)
qed

text \<open>
  C27. Whoever is no active member of a group is refused on every conversation request that names the group or a call
  of it, before or after any guard: the group store, the audit log, the events and the signals stay as they are.
\<close>

theorem conversation_outsider_refused:
  assumes "live_group cid (cv_groups cs) \<noteq> None"
    and "si_user sk \<notin> set (map gm_user (listMembers cid (cv_groups cs)))"
    and "rq_parsed rq = Inr r" and "concerns (cv_groups cs) cid r"
  shows "rejected (fst (on_conversation env sk rq cs)) \<and> no_effect cs (snd (on_conversation env sk rq cs))"
proof (cases "guard_refusal sk rq")
  case None
  then show ?thesis using stranger_dispatch [OF assms(1,2,4)] assms(3) by (simp add: on_conversation_def admitted_def)
next
  case (Some x)
  then show ?thesis by (cases x) (simp_all add: on_conversation_def admitted_def)
qed

section \<open>Invitations\<close>

text \<open>Only issuing writes invitations; what is issued names the issuer and somebody who was asked for.\<close>

definition issued_by :: "string \<Rightarrow> string set \<Rightarrow> group_store \<Rightarrow> group_store \<Rightarrow> bool" where
  "issued_by u us st st' \<longleftrightarrow>
     (\<forall>i \<in> set (map snd (invitations st')). i \<in> set (map snd (invitations st)) \<or> iv_issuer i = u \<and> iv_invitee i \<in> us)"

lemma issued_by_same: "invitations st' = invitations st \<Longrightarrow> issued_by u us st st'"
  by (simp add: issued_by_def)

lemma invitations_kept [simp]:
  "invitations (set_gcall k c st) = invitations st" "invitations (set_gpart kp p st) = invitations st"
  "invitations (change_parts P h st) = invitations st"
  "invitations (snd (join_group env cid x ro t st)) = invitations st"
  by (simp_all add: set_group_def set_member_def set_gcall_def set_gpart_def change_parts_def record_event_def
    join_group_def Let_def split: option.split)

lemma issue_issued:
  "issued_by u us st s \<Longrightarrow> set vs \<subseteq> us \<Longrightarrow>
   issued_by u us st (snd (fold (issue_invitation env cid u t n) vs (is, s)))"
proof (induction vs arbitrary: "is" s)
  case (Cons v vs)
  let ?s = "issue_invitation env cid u t n v (is, s)"
  let ?i = "\<lparr>iv_id = fresh_uuid env s, iv_conv = cid, iv_invitee = v, iv_issuer = u, iv_version = n, iv_created = t,
              iv_expires = t + INVITATION_TTL_MS, iv_accepted = None, iv_cancelled = None\<rparr>"
  have "set (map snd (invitations (snd ?s))) \<subseteq> insert ?i (set (map snd (invitations s)))"
    using values_update [of "iv_id ?i" ?i "invitations s"] by (simp add: issue_invitation_def Let_def)
  moreover have "iv_issuer ?i = u \<and> iv_invitee ?i \<in> us" using Cons.prems(2) by simp
  ultimately have "issued_by u us st (snd ?s)" using Cons.prems(1) unfolding issued_by_def by blast
  from Cons.IH [OF this, of "fst ?s"] show ?case using Cons.prems(2) by simp
qed simp

lemma invite_issued: "issued_by u us st s \<Longrightarrow> set vs \<subseteq> us \<Longrightarrow> issued_by u us st (snd (invite env cid g u vs s))"
  using issue_issued [of u us st "set_group cid (advance (activityTime env g)) s" vs env cid]
  by (simp add: invite_def Let_def case_prod_unfold issued_by_def split: option.split)

lemma create_issued: "issued_by u (set vs) st (snd (create env name u vs st))"
proof -
  have "issued_by u (set vs) st (snd (invite env cid g u vs (record_event env cid e u w r (snd (join_group env cid u ro t
      (st\<lparr>groups := gs, uuids := n\<rparr>))))))" for cid g e w r ro t gs n
    by (rule invite_issued) (simp_all add: issued_by_def)
  then show ?thesis
    by (simp add: create_def Let_def case_prod_unfold issued_by_same split: option.split sum.split prod.split)
qed

lemma add_issued: "issued_by u (set vs) st (snd (addMembers env cid u vs st))"
proof -
  have inv: "issued_by u (set vs) st (snd (invite env cid g u vs st))" for g
    by (rule invite_issued) (simp_all add: issued_by_same)
  show ?thesis by (simp add: addMembers_def case_prod_unfold inv issued_by_same split: option.split sum.split)
qed

lemma leave_calls_invitations: "invitations (snd (leave_calls t cid u st)) = invitations st"
proof -
  have "invitations (snd (fold (leave_call t cid u) ks (xs, st))) = invitations st" for ks xs
    by (rule fold_invariant_pred [where P = "\<lambda>x. invitations (snd x) = invitations st"])
      (auto simp: leave_call_def Let_def split: option.splits prod.splits if_splits)
  then show ?thesis by (simp add: leave_calls_def)
qed

lemma operations_invitations:
  "invitations (snd (updateName env cid u name st)) = invitations st"
  "invitations (snd (removeMember env cid u v r st)) = invitations st"
  "invitations (snd (leave env cid u st)) = invitations st"
  "invitations (snd (startCall env a [] st)) = invitations st"
  "invitations (snd (transitionGroupCall env k u act st)) = invitations st"
proof -
  have depart: "invitations (snd (depart env cid g m b e w r st)) = invitations st" for g m b e w r
    using leave_calls_invitations by (simp add: depart_def Let_def case_prod_unfold)
  have expire: "invitations (snd (expireCall k t st)) = invitations st" for t
    by (simp add: expireCall_def Let_def split: option.split)
  have place: "invitations (snd (place_gcall env a g us st)) = invitations st" for g us
    by (simp add: place_gcall_def Let_def)
  show "invitations (snd (updateName env cid u name st)) = invitations st"
    by (simp add: updateName_def Let_def split: option.split sum.split)
  show "invitations (snd (removeMember env cid u v r st)) = invitations st"
    by (simp add: removeMember_def Let_def case_prod_unfold depart split: option.split sum.split)
  show "invitations (snd (leave env cid u st)) = invitations st"
    by (simp add: leave_def Let_def case_prod_unfold depart split: option.split sum.split)
  show "invitations (snd (startCall env a [] st)) = invitations st"
    by (simp add: startCall_def Let_def case_prod_unfold place split: option.split sum.split)
  show "invitations (snd (transitionGroupCall env k u act st)) = invitations st"
    using expire by (simp add: transitionGroupCall_def Let_def case_prod_unfold split: option.split sum.split prod.split)
qed

lemma all_visible_iff: "all_visible cs u us \<longleftrightarrow> (\<forall>v \<in> set us. isDirectoryVisibleAsync (cv_privacy cs) u v)"
proof -
  have "filterVisible p us = filter p us" for p :: "string \<Rightarrow> bool"
    by (induction us) (simp_all add: filterVisible_def)
  then show ?thesis by (simp add: all_visible_def) (metis filter_True length_filter_less less_irrefl)
qed

lemma issued_by_visible:
  assumes "issued_by u us st st'" and "\<And>v. v \<in> us \<Longrightarrow> P v"
  shows "\<forall>i \<in> set (map snd (invitations st')). i \<in> set (map snd (invitations st)) \<or> iv_issuer i = u \<and> P (iv_invitee i)"
  using assms unfolding issued_by_def by blast

text \<open>A request that writes the groups writes invitations only to users its sender and they let see each other.\<close>

definition invites_visible :: "conv_server \<Rightarrow> string \<Rightarrow> conv_server \<Rightarrow> bool" where
  "invites_visible cs u cs' \<longleftrightarrow>
     (\<forall>i \<in> set (map snd (invitations (cv_groups cs'))).
        i \<in> set (map snd (invitations (cv_groups cs))) \<or>
        iv_issuer i = u \<and> isDirectoryVisibleAsync (cv_privacy cs) u (iv_invitee i))"

lemma invites_visible_same: "invitations (cv_groups cs') = invitations (cv_groups cs) \<Longrightarrow> invites_visible cs u cs'"
  by (simp add: invites_visible_def)

lemma create_visible: "invites_visible cs u (snd (handleCreate env u name raw cs))"
proof -
  let ?us = "valid_ids raw"
  obtain r cs1 where rate: "checkGroupAdmissionRate env u True (length ?us) cs = (r, cs1)" by (rule prod.exhaust)
  note kept = admission_fields(1,2) [OF rate]
  obtain a st where op: "create (ve_group env) name u ?us (cv_groups cs) = (a, st)" by (rule prod.exhaust)
  have issued: "issued_by u (set ?us) (cv_groups cs) st"
    using create_issued [of u ?us "cv_groups cs" "ve_group env" name] by (simp add: op)
  have "invites_visible cs u (put_conv st cs)" if "all_visible cs1 u ?us"
    using issued_by_visible [OF issued, of "isDirectoryVisibleAsync (cv_privacy cs) u"] that
    by (simp add: invites_visible_def all_visible_iff kept)
  then show ?thesis unfolding handleCreate_def Let_def rate
    by (simp add: kept op invites_visible_def split: option.split sum.split)
qed

lemma add_visible: "invites_visible cs u (snd (handleMemberAdd env u conv raw cs))"
proof -
  let ?us = "valid_ids raw" and ?cid = "the (normaliseId (Some conv))"
  obtain r cs1 where rate: "checkGroupAdmissionRate env u False (length ?us) cs = (r, cs1)" by (rule prod.exhaust)
  note kept = admission_fields(1,2) [OF rate]
  obtain a st where op: "addMembers (ve_group env) ?cid u ?us (cv_groups cs) = (a, st)" by (rule prod.exhaust)
  have issued: "issued_by u (set ?us) (cv_groups cs) st"
    using add_issued [of u ?us "cv_groups cs" "ve_group env" ?cid] by (simp add: op)
  have "invites_visible cs u (put_conv st cs)" if "all_visible cs1 u ?us"
    using issued_by_visible [OF issued, of "isDirectoryVisibleAsync (cv_privacy cs) u"] that
    by (simp add: invites_visible_def all_visible_iff kept)
  then show ?thesis unfolding handleMemberAdd_def Let_def rate
    by (simp add: kept op invites_visible_def split: option.split sum.split)
qed

lemma other_visible:
  "invites_visible cs u (snd (handleUpdate env u conv name cs))"
  "invites_visible cs u (snd (handleMemberRemove env u conv user cs))"
  "invites_visible cs u (snd (handleLeave env u conv cs))"
  "invites_visible cs u (snd (handleCallStart env u conv media cs))"
  "invites_visible cs u (snd (handleCallAct env u act call cs))"
  "invites_visible cs u (snd (handleGroupSignal env u kind call peer n media cs))"
proof -
  have same: "op s = (a, st) \<Longrightarrow> invitations (snd (op s)) = invitations s \<Longrightarrow> invitations st = invitations s"
    for op :: "group_store \<Rightarrow> 'b \<times> group_store" and s a st by simp
  note op = operations_invitations [THEN same [rotated]]
  show "invites_visible cs u (snd (handleUpdate env u conv name cs))"
    by (rule invites_visible_same) (auto simp: handleUpdate_def Let_def op split: option.split sum.split prod.split)
  show "invites_visible cs u (snd (handleMemberRemove env u conv user cs))"
    by (rule invites_visible_same) (auto simp: handleMemberRemove_def op split: option.split sum.split prod.split)
  show "invites_visible cs u (snd (handleLeave env u conv cs))"
    by (rule invites_visible_same) (auto simp: handleLeave_def op split: option.split sum.split prod.split)
  show "invites_visible cs u (snd (handleCallStart env u conv media cs))"
    by (rule invites_visible_same) (auto simp: handleCallStart_def Let_def op split: option.split sum.split prod.split)
  show "invites_visible cs u (snd (handleCallAct env u act call cs))"
    by (rule invites_visible_same) (auto simp: handleCallAct_def Let_def op split: option.split sum.split prod.split)
  show "invites_visible cs u (snd (handleGroupSignal env u kind call peer n media cs))"
    by (rule invites_visible_same) (simp add: handleGroupSignal_def Let_def split: option.split prod.split)
qed

lemma dispatch_visible: "invites_visible cs u (snd (dispatch env u r cs))"
  by (cases r) (simp_all only: dispatch.simps create_visible add_visible other_visible)

text \<open>
  C28. An invitation that a conversation request writes is issued by its sender, to a user who does not block the
  sender and whom the sender does not block, by the shared block store where there is one.
\<close>

theorem invitations_respect_blocks: "invites_visible cs (si_user sk) (snd (on_conversation env sk rq cs))"
proof (cases "admitted sk rq")
  case (Inl r)
  then show ?thesis by (cases r) (simp_all add: on_conversation_def invites_visible_same)
next
  case (Inr r)
  then show ?thesis by (simp add: on_conversation_def dispatch_visible)
qed

section \<open>Adding is inviting\<close>

text \<open>The last entries of the log survive its bound.\<close>

lemma audit_suffix:
  assumes "length xs < MAX_AUDIT_LOG_SIZE"
  shows "\<exists>pre'. audit e (pre @ xs) = pre' @ xs @ [e]"
proof (cases "MAX_AUDIT_LOG_SIZE \<le> length (pre @ xs)")
  case True
  then have "pre \<noteq> []" using assms by auto
  then show ?thesis using True by (auto simp: audit_def)
qed (auto simp: audit_def)

lemma audits_logged:
  assumes "length us < MAX_AUDIT_LOG_SIZE"
  shows "\<exists>pre ys. cv_audit (fold (\<lambda>v. record_audit env ev u (f v) (g v)) us cs) = pre @ ys \<and> map au_target ys = map f us \<and>
    list_all (\<lambda>e. au_event e = ev \<and> au_actor e = Some u) ys"
  using assms
proof (induction us rule: rev_induct)
  case (snoc v us)
  let ?cs = "fold (\<lambda>v. record_audit env ev u (f v) (g v)) us cs"
  obtain pre ys where IH: "cv_audit ?cs = pre @ ys" "map au_target ys = map f us"
    "list_all (\<lambda>e. au_event e = ev \<and> au_actor e = Some u) ys"
    using snoc by auto
  let ?e = "\<lparr>au_id = ve_audit_id env (cv_audited ?cs), au_time = ve_now env, au_event = ev, au_actor = Some u,
             au_target = f v, au_outcome = ''success'', au_details = g v\<rparr>"
  have "length ys = length us" using arg_cong [OF IH(2), of length] by simp
  then obtain pre' where "audit ?e (pre @ ys) = pre' @ ys @ [?e]"
    using audit_suffix [of ys ?e pre] snoc.prems by auto
  then have "cv_audit (fold (\<lambda>v. record_audit env ev u (f v) (g v)) (us @ [v]) cs) = pre' @ ys @ [?e]"
    by (simp add: record_audit_def IH(1))
  then show ?case using IH(2,3) by (intro exI [of _ pre'] exI [of _ "ys @ [?e]"]) simp
qed (simp add: exI [of _ "[]"])

lemma invitees_issued:
  "map iv_invitee (fst (fold (issue_invitation env cid a t n) us (is, st))) = map iv_invitee is @ us"
proof (induction us arbitrary: "is" st)
  case (Cons v us)
  obtain is' st' where v: "issue_invitation env cid a t n v (is, st) = (is', st')" by (rule prod.exhaust)
  have "map iv_invitee is' = map iv_invitee is @ [v]" using v by (auto simp: issue_invitation_def Let_def)
  then show ?case using Cons.IH [of is' st'] by (simp add: v)
qed simp

lemma invite_answer:
  assumes "invite env cid g a us st = (Inr is, st')"
  shows "map iv_invitee is = us \<and> gmembers st' = gmembers st \<and> set us \<inter> set (map gm_user (listMembers cid st)) = {}"
proof -
  let ?t = "activityTime env g"
  let ?f = "fold (issue_invitation env cid a ?t (Suc (gr_version g))) us ([], set_group cid (advance ?t) st)"
  have out: "?f = (is, st')" and new: "set us \<inter> set (map gm_user (listMembers cid st)) = {}"
    using assms by (auto simp: invite_def Let_def case_prod_unfold split: option.splits if_splits)
  have "map iv_invitee (fst ?f) = us" by (simp add: invitees_issued)
  moreover have "gmembers (snd ?f) = gmembers st" using issue_frame by simp
  ultimately show ?thesis using out new by simp
qed

lemma addMembers_answer:
  assumes "addMembers env cid a us st = (Inr (Some ch), st')"
  shows "map iv_invitee (cg_invitations ch) = us \<and> listMembers cid st' = listMembers cid st \<and>
    set us \<inter> set (map gm_user (listMembers cid st)) = {} \<and> length us \<le> 15"
proof -
  obtain g js where "invite env cid g a us st = (Inr js, st')" and ch: "cg_invitations ch = js"
    using assms by (auto simp: addMembers_def split: option.splits sum.splits prod.splits if_splits)
  moreover have "length us \<le> 15"
    using assms by (auto simp: addMembers_def validateInvitees_def split: if_splits)
  ultimately show ?thesis using invite_answer [of env cid g a us st js st'] by (simp add: listMembers_def)
qed

lemma add_answer:
  assumes "handleMemberAdd env u conv raw cs = (Answered (Ack_Group sn issued), cs')" and cid: "normaliseId (Some conv) = Some cid"
  shows "map iv_invitee issued = valid_ids raw \<and> listMembers cid (cv_groups cs') = listMembers cid (cv_groups cs) \<and>
    set (valid_ids raw) \<inter> set (map gm_user (listMembers cid (cv_groups cs))) = {} \<and>
    (\<exists>pre ys. cv_audit cs' = pre @ ys \<and> map au_target ys = map Some (valid_ids raw) \<and>
       list_all (\<lambda>e. au_event e = ''conversation.membership.created'' \<and> au_actor e = Some u) ys)"
proof -
  let ?us = "valid_ids raw"
  obtain r cs1 where rate: "checkGroupAdmissionRate env u False (length ?us) cs = (r, cs1)" by (rule prod.exhaust)
  obtain a st where op: "addMembers (ve_group env) cid u ?us (cv_groups cs) = (a, st)" by (rule prod.exhaust)
  obtain ch where a: "a = Inr (Some ch)" and issued: "issued = cg_invitations ch"
    and cs': "cv_groups cs' = st" "cv_audit cs' = cv_audit (fold (\<lambda>v. record_audit env ''conversation.membership.created'' u (Some v)
      (cid @ '' member'')) ?us (put_conv st cs1))"
    using assms(1) unfolding handleMemberAdd_def Let_def rate cid option.sel
    by (auto simp: admission_fields(1) [OF rate] op split: option.splits sum.splits if_splits)
  note answer = addMembers_answer [OF op [unfolded a]]
  have "length ?us < MAX_AUDIT_LOG_SIZE" using answer by (simp add: MAX_AUDIT_LOG_SIZE_def)
  from audits_logged [OF this] show ?thesis using answer by (simp add: issued cs')
qed

text \<open>
  C29. Adding users to a group invites them and nothing more: a successful \<open>conversation.member.add\<close> issues one
  invitation to each user of the request, in its order, none of whom was a member, and the members stay as they
  were. The audit log says otherwise: it ends with an entry \<open>conversation.membership.created\<close> for each of them.
\<close>

theorem adding_only_invites:
  assumes "on_conversation env sk rq cs = (Answered (Ack_Group sn issued), cs')"
    and "rq_parsed rq = Inr (Rq_Add conv raw)" and "normaliseId (Some conv) = Some cid"
  shows "map iv_invitee issued = valid_ids raw \<and> listMembers cid (cv_groups cs') = listMembers cid (cv_groups cs) \<and>
    set (valid_ids raw) \<inter> set (map gm_user (listMembers cid (cv_groups cs))) = {} \<and>
    (\<exists>pre ys. cv_audit cs' = pre @ ys \<and> map au_target ys = map Some (valid_ids raw) \<and>
       list_all (\<lambda>e. au_event e = ''conversation.membership.created'' \<and> au_actor e = Some (si_user sk)) ys)"
proof (rule add_answer [OF _ assms(3)])
  show "handleMemberAdd env (si_user sk) conv raw cs = (Answered (Ack_Group sn issued), cs')"
    using assms(1,2) by (simp add: on_conversation_def admitted_def split: option.splits reply.splits)
qed

section \<open>A concrete server\<close>

text \<open>The group of Ann, Bob and Cid; Ann adds Dan and Eve, Mallory renames it.\<close>

definition demo_server :: conv_server where
  "demo_server =
     \<lparr>cv_groups = run_groups demo_steps,
      cv_privacy = \<lparr>pv_blocks = [], pv_shared = False, pv_lookup = None, pv_list = (\<lambda>_ _. None)\<rparr>,
      cv_audit = [], cv_audited = 0, cv_creates = [], cv_invites = [], cv_calls = [], cv_signals = [],
      cv_fanout = empty_fanout, cv_snapshots = [], cv_relayed = []\<rparr>"

definition demo_conv_env :: conv_env where
  "demo_conv_env =
     \<lparr>ve_now = 9000, ve_group = demo_genv 9000, ve_audit_id = demo_uuid, ve_create = (5, 3600000),
      ve_invite = (30, 3600000), ve_call = (10, 60000), ve_signal = (600, 60000), ve_call_security = None,
      ve_signal_security = None, ve_ring_ms = 45000, ve_transport = Alone\<rparr>"

definition demo_socket :: "string \<Rightarrow> socket_identity" where
  "demo_socket u = \<lparr>si_user = u, si_session = Some ''s'', si_device = None\<rparr>"

definition demo_add :: "conv_request request" where
  "demo_add = \<lparr>rq_version = Some 3, rq_parsed = Inr (Rq_Add demo_group_id [''dan'', ''eve''])\<rparr>"

definition demo_rename :: "conv_request request" where
  "demo_rename = \<lparr>rq_version = Some 3, rq_parsed = Inr (Rq_Update demo_group_id ''ours'')\<rparr>"

definition demo_answer :: "conv_ack answer \<times> conv_server" where
  "demo_answer = on_conversation demo_conv_env (demo_socket ''ann'') demo_add demo_server"

theorem adding_only_invites_witness:
  "(case fst demo_answer of Answered (Ack_Group sn issued) \<Rightarrow> map iv_invitee issued | _ \<Rightarrow> []) = [''dan'', ''eve''] \<and>
   map gm_user (listMembers demo_group_id (cv_groups (snd demo_answer))) = [''ann'', ''bob'', ''cid'']"
proof -
  have id: "normaliseId (Some demo_group_id) = Some demo_group_id" by code_simp
  have "case fst demo_answer of Answered (Ack_Group sn issued) \<Rightarrow> True | _ \<Rightarrow> False" by code_simp
  then obtain sn issued where "fst demo_answer = Answered (Ack_Group sn issued)"
    by (auto split: answer.splits conv_ack.splits)
  then have answer: "demo_answer = (Answered (Ack_Group sn issued), snd demo_answer)" by (metis prod.collapse)
  have "map iv_invitee issued = valid_ids [''dan'', ''eve''] \<and>
      listMembers demo_group_id (cv_groups (snd demo_answer)) = listMembers demo_group_id (cv_groups demo_server)"
    using adding_only_invites [OF answer [unfolded demo_answer_def], of demo_group_id "[''dan'', ''eve'']" demo_group_id] id
    unfolding demo_answer_def [symmetric] by (simp add: demo_add_def)
  moreover have "valid_ids [''dan'', ''eve''] = [''dan'', ''eve'']" by code_simp
  moreover have "map gm_user (listMembers demo_group_id (cv_groups demo_server)) = [''ann'', ''bob'', ''cid'']" by code_simp
  ultimately show ?thesis by (subst answer) simp
qed

theorem conversation_outsider_refused_witness:
  "rejected (fst (on_conversation demo_conv_env (demo_socket ''mallory'') demo_rename demo_server)) \<and>
   no_effect demo_server (snd (on_conversation demo_conv_env (demo_socket ''mallory'') demo_rename demo_server))"
proof (rule conversation_outsider_refused)
  show "live_group demo_group_id (cv_groups demo_server) \<noteq> None" by code_simp
  show "si_user (demo_socket ''mallory'') \<notin> set (map gm_user (listMembers demo_group_id (cv_groups demo_server)))" by code_simp
  show "rq_parsed demo_rename = Inr (Rq_Update demo_group_id ''ours'')" by (simp add: demo_rename_def)
  show "concerns (cv_groups demo_server) demo_group_id (Rq_Update demo_group_id ''ours'')" by code_simp
qed

end
