(* ===== verification/CallScreen.thy ===== *)
theory CallScreen
  imports Prelude
begin

text \<open>
  What the screens of the client show of a call: \<open>mobile/src/call/callStateMachine.ts\<close>, the machine of the one call
  and the map of the participants of a group call. Shown: between two calls the machine passes through \<open>ended\<close>, and
  participants do not touch each other. A map is an association list in the order of insertion; keys named like a
  member of \<open>Object.prototype\<close> are left out.
\<close>

section \<open>The machine\<close>

datatype screen = S_Idle | S_Outgoing | S_Incoming | S_In_Call | S_Ended

datatype screen_event = E_Place | E_Receive | E_Connect | E_End | E_Reset

definition SCREEN_TRANSITIONS :: "(screen \<times> (screen_event \<times> screen) list) list" where
  "SCREEN_TRANSITIONS =
     [(S_Idle, [(E_Place, S_Outgoing), (E_Receive, S_Incoming), (E_Connect, S_In_Call)]),
      (S_Outgoing, [(E_Connect, S_In_Call), (E_End, S_Ended)]),
      (S_Incoming, [(E_Connect, S_In_Call), (E_End, S_Ended)]),
      (S_In_Call, [(E_End, S_Ended)]),
      (S_Ended, [(E_Reset, S_Idle)])]"

definition callStateReducer :: "screen \<Rightarrow> screen_event \<Rightarrow> screen" where
  "callStateReducer s e =
     (case Option.bind (map_of SCREEN_TRANSITIONS s) (\<lambda>m. map_of m e) of Some s' \<Rightarrow> s' | None \<Rightarrow> s)"

definition isRingingState :: "screen \<Rightarrow> bool" where
  "isRingingState s = (s = S_Outgoing \<or> s = S_Incoming)"

definition isCallActiveState :: "screen \<Rightarrow> bool" where
  "isCallActiveState s = (s \<noteq> S_Idle \<and> s \<noteq> S_Ended)"

section \<open>Participants\<close>

datatype connection_state = PC_New | PC_Connecting | PC_Connected | PC_Disconnected | PC_Failed | PC_Closed

datatype peer_quality = Q_Good | Q_Connecting | Q_Poor | Q_Offline

record 's peer =
  pe_user :: string
  pe_connection :: connection_state
  pe_stream :: "'s option"
  pe_muted :: "bool option"
  pe_video :: "bool option"
  pe_screen :: "bool option"
  pe_quality :: peer_quality
  pe_speaking :: bool

text \<open>The flags of \<open>media\<close> may be absent; \<open>isScreenSharing\<close> may also be present without a value.\<close>

datatype 's peer_event =
    Peer_Join string
  | Peer_Leave string
  | Peer_Connection string connection_state
  | Peer_Stream string "'s option"
  | Peer_Media string "bool option" "bool option" "bool option option"
  | Peer_Quality string peer_quality
  | Peer_Speaker string bool
  | Peer_Reset

fun peer_event_user :: "'s peer_event \<Rightarrow> string" where
  "peer_event_user (Peer_Join u) = u"
| "peer_event_user (Peer_Leave u) = u"
| "peer_event_user (Peer_Connection u c) = u"
| "peer_event_user (Peer_Stream u s) = u"
| "peer_event_user (Peer_Media u m v x) = u"
| "peer_event_user (Peer_Quality u q) = u"
| "peer_event_user (Peer_Speaker u b) = u"
| "peer_event_user Peer_Reset = []"

definition createInitialPeer :: "string \<Rightarrow> 's peer" where
  "createInitialPeer u =
     \<lparr>pe_user = u, pe_connection = PC_New, pe_stream = None, pe_muted = None, pe_video = None, pe_screen = None,
      pe_quality = Q_Connecting, pe_speaking = False\<rparr>"

fun qualityForConnection :: "connection_state \<Rightarrow> peer_quality" where
  "qualityForConnection PC_Connected = Q_Good"
| "qualityForConnection PC_Failed = Q_Offline"
| "qualityForConnection PC_Closed = Q_Offline"
| "qualityForConnection PC_Disconnected = Q_Poor"
| "qualityForConnection c = Q_Connecting"

text \<open>\<open>{ ...current, ...update }\<close> with the update of \<open>updateForPeerEvent\<close>.\<close>

fun updateForPeerEvent :: "'s peer_event \<Rightarrow> 's peer \<Rightarrow> 's peer" where
  "updateForPeerEvent (Peer_Connection u c) p = p\<lparr>pe_connection := c, pe_quality := qualityForConnection c\<rparr>"
| "updateForPeerEvent (Peer_Stream u s) p = p\<lparr>pe_stream := s\<rparr>"
| "updateForPeerEvent (Peer_Media u m v x) p =
     p\<lparr>pe_muted := (case m of None \<Rightarrow> pe_muted p | Some b \<Rightarrow> Some b),
       pe_video := (case v of None \<Rightarrow> pe_video p | Some b \<Rightarrow> Some b),
       pe_screen := (case x of None \<Rightarrow> pe_screen p | Some b \<Rightarrow> Some (b = Some True))\<rparr>"
| "updateForPeerEvent (Peer_Quality u q) p = p\<lparr>pe_quality := q\<rparr>"
| "updateForPeerEvent (Peer_Speaker u b) p = p\<lparr>pe_speaking := b\<rparr>"
| "updateForPeerEvent _ p = p"

definition matchesPeerUpdate :: "'s peer \<Rightarrow> 's peer_event \<Rightarrow> bool" where
  "matchesPeerUpdate p ev = (updateForPeerEvent ev p = p)"

type_synonym 's peers = "(string \<times> 's peer) list"

definition callPeerMapReducer :: "'s peers \<Rightarrow> 's peer_event \<Rightarrow> 's peers" where
  "callPeerMapReducer peers ev =
     (case ev of
        Peer_Reset \<Rightarrow> []
      | _ \<Rightarrow>
          (let u = trim (peer_event_user ev)
           in if u = [] then peers
              else (case ev of
                      Peer_Leave _ \<Rightarrow> if map_of peers u = None then peers else AList.delete u peers
                    | Peer_Join _ \<Rightarrow>
                        if map_of peers u \<noteq> None then peers else AList.update u (createInitialPeer u) peers
                    | _ \<Rightarrow>
                        (case map_of peers u of
                           None \<Rightarrow> peers
                         | Some current \<Rightarrow>
                             if matchesPeerUpdate current ev then peers
                             else AList.update u (updateForPeerEvent ev current) peers))))"

section \<open>Between two calls\<close>

lemma callStateReducer_table:
  "callStateReducer s e =
     (case (s, e) of
        (S_Idle, E_Place) \<Rightarrow> S_Outgoing | (S_Idle, E_Receive) \<Rightarrow> S_Incoming | (S_Ended, E_Reset) \<Rightarrow> S_Idle
      | (S_Idle, E_Connect) \<Rightarrow> S_In_Call | (S_Outgoing, E_Connect) \<Rightarrow> S_In_Call | (S_Incoming, E_Connect) \<Rightarrow> S_In_Call
      | (S_Outgoing, E_End) \<Rightarrow> S_Ended | (S_Incoming, E_End) \<Rightarrow> S_Ended | (S_In_Call, E_End) \<Rightarrow> S_Ended
      | _ \<Rightarrow> s)"
  by (cases s; cases e) (simp_all add: callStateReducer_def SCREEN_TRANSITIONS_def)

text \<open>A call leaves the screen only by an end, and the machine is idle again only after a reset of it.\<close>

lemma call_left_by_end:
  "isCallActiveState s \<Longrightarrow> \<not> isCallActiveState (callStateReducer s e) \<Longrightarrow> e = E_End \<and> callStateReducer s e = S_Ended"
  "s \<noteq> S_Idle \<Longrightarrow> callStateReducer s e = S_Idle \<Longrightarrow> s = S_Ended \<and> e = E_Reset"
  by (cases s; cases e; simp add: callStateReducer_table isCallActiveState_def)+

section \<open>Participants are independent\<close>

text \<open>One participant on its own: what its events make of it.\<close>

definition peer_alone :: "string \<Rightarrow> 's peer option \<Rightarrow> 's peer_event \<Rightarrow> 's peer option" where
  "peer_alone u p ev =
     (case ev of
        Peer_Reset \<Rightarrow> None
      | _ \<Rightarrow>
          if u = [] \<or> trim (peer_event_user ev) \<noteq> u then p
          else (case ev of
                  Peer_Leave _ \<Rightarrow> None
                | Peer_Join _ \<Rightarrow> Some (case p of Some q \<Rightarrow> q | None \<Rightarrow> createInitialPeer u)
                | _ \<Rightarrow> map_option (updateForPeerEvent ev) p))"

lemma reducer_alone: "map_of (callPeerMapReducer peers ev) u = peer_alone u (map_of peers u) ev"
  by (cases ev) (auto simp: callPeerMapReducer_def peer_alone_def Let_def matchesPeerUpdate_def split: option.split)

text \<open>
  The participants of a group call are independent: whatever events arrive, in any order, the entry of a user is
  what that user's own events make of it. In particular the failure or the departure of one leaves every other as
  it is, and a late event of a participant who left brings nobody back.
\<close>

theorem peers_independent:
  "map_of (foldl callPeerMapReducer peers evs) u = foldl (peer_alone u) (map_of peers u) evs"
  by (induction evs arbitrary: peers) (simp_all add: reducer_alone)

end
