(* ===== verification/CallDecisions.thy ===== *)
theory CallDecisions
  imports Prelude
begin

text \<open>
  The decisions of the client about calls, as pure functions: \<open>mobile/src/call/callDecisions.ts\<close>,
  \<open>sessionLifecycle.ts\<close>, \<open>answerPath.ts\<close> and \<open>pushRehydration.ts\<close>. Names that the server uses too have the suffix
  \<open>_client\<close>. Texts for the user that are not ASCII are left out.
\<close>

section \<open>Calls as a client sees them\<close>

record client_call =
  cl_id :: "string option"
  cl_status :: "string option"
  cl_caller :: "string option"
  cl_callee :: "string option"
  cl_caller_device :: "string option"
  cl_callee_device :: "string option"
  cl_end_reason :: "string option"

definition LIVE_CALL_STATUSES :: "string list" where
  "LIVE_CALL_STATUSES = [''accepted'', ''connecting_media'', ''in_call'']"

definition TERMINAL_CALL_STATUSES :: "string list" where
  "TERMINAL_CALL_STATUSES = [''ended'', ''declined'', ''missed'', ''busy'', ''unreachable'']"

definition TERMINAL_ICE_STATES :: "string list" where "TERMINAL_ICE_STATES = [''disconnected'', ''failed'']"

definition SUMMARISED_END_REASONS :: "string list" where
  "SUMMARISED_END_REASONS = [''media_failed'', ''failed'', ''missed'', ''timeout'', ''busy'', ''unreachable'']"

definition MISSED_END_REASONS :: "string list" where "MISSED_END_REASONS = [''missed'', ''timeout'']"

definition ANSWERED_CALL_HISTORY_LIMIT :: nat where "ANSWERED_CALL_HISTORY_LIMIT = 20"

definition among :: "string option \<Rightarrow> string list \<Rightarrow> bool" where
  "among x xs = (case x of Some s \<Rightarrow> s \<in> set xs | None \<Rightarrow> False)"

definition isLiveCallStatus :: "string option \<Rightarrow> bool" where
  "isLiveCallStatus s = among s LIVE_CALL_STATUSES"

definition isTerminalCallStatus :: "string option \<Rightarrow> bool" where
  "isTerminalCallStatus s = among s TERMINAL_CALL_STATUSES"

definition isTerminalIceState :: "string option \<Rightarrow> bool" where
  "isTerminalIceState s = among s TERMINAL_ICE_STATES"

datatype ring_delivery = Via_Ringing | Via_Push

definition classifyCallDelivery :: "string option \<Rightarrow> ring_delivery" where
  "classifyCallDelivery d = (if d = Some ''push'' then Via_Push else Via_Ringing)"

section \<open>Answering\<close>

definition rememberAnsweredCallId :: "string list \<Rightarrow> string \<Rightarrow> string list" where
  "rememberAnsweredCallId history k =
     (if k \<in> set history then history
      else if ANSWERED_CALL_HISTORY_LIMIT < length (history @ [k]) then tl (history @ [k]) else history @ [k])"

definition shouldResetReplayGuard :: "nat \<Rightarrow> bool" where
  "shouldResetReplayGuard n = (ANSWERED_CALL_HISTORY_LIMIT \<le> n)"

datatype offer_decision = Negotiate | Ignore_Unknown_Call | Ignore_Glare

definition decideIncomingOffer :: "string option \<Rightarrow> string option \<Rightarrow> bool \<Rightarrow> offer_decision" where
  "decideIncomingOffer k active isNegotiating =
     (if k \<noteq> active then Ignore_Unknown_Call else if isNegotiating then Ignore_Glare else Negotiate)"

datatype accept_decision = Do_Accept | Skip_In_Flight | Skip_Already | Dismiss_Ended

definition decideAcceptIncomingCall :: "string \<Rightarrow> string option \<Rightarrow> string option \<Rightarrow> string list \<Rightarrow> accept_decision" where
  "decideAcceptIncomingCall k status inFlight answered =
     (if inFlight = Some k then Skip_In_Flight
      else if k \<in> set answered then Skip_Already
      else if str_truthy status \<and> status \<noteq> Some ''ringing'' then Dismiss_Ended
      else Do_Accept)"

text \<open>\<open>answerPath.ts\<close>: the canonical reasons of a fallback and of a failure.\<close>

definition ANSWER_SOCKET_WAIT_MS :: int where "ANSWER_SOCKET_WAIT_MS = 5000"
definition ANSWER_SOCKET_ATTEMPTS :: nat where "ANSWER_SOCKET_ATTEMPTS = 2"

definition describeAnswerFallback :: "bool \<Rightarrow> string" where
  "describeAnswerFallback hasSocket = (if hasSocket then ''socket_accept_failed'' else ''socket_not_connected'')"

record http_response =
  hr_ok :: bool
  hr_status :: int

definition classifyHttpAccept :: "http_response option \<Rightarrow> string + http_response" where
  "classifyHttpAccept r =
     (case r of
        None \<Rightarrow> Inl ''no_session''
      | Some x \<Rightarrow> if \<not> hr_ok x then Inl ''http_accept_failed'' else Inr x)"

definition describeDegradedMedia :: "bool \<Rightarrow> string list option \<Rightarrow> string option \<Rightarrow> (string \<times> string) option" where
  "describeDegradedMedia hasStream missing message =
     (if hasStream then None
      else
        (let denied = (or_empty missing \<noteq> [])
         in Some (if denied then ''media_permission_denied'' else ''local_media_unavailable'',
                  if denied \<and> str_truthy message then the message @ ''. Call connected without local media.''
                  else ''Call connected, but the camera/microphone is unavailable.'')))"

section \<open>Push rehydration\<close>

datatype rehydration = R_Deferred | R_Ringing | R_Group_Call | R_Terminal | R_Not_Found | R_Error | R_Ignored

definition isRehydratableCallId :: "string option \<Rightarrow> bool" where
  "isRehydratableCallId k = str_truthy k"

definition blank :: "string option \<Rightarrow> bool" where
  "blank s = (case s of Some x \<Rightarrow> trim x = [] | None \<Rightarrow> True)"

definition shouldDeferRehydration :: "string option \<Rightarrow> string option \<Rightarrow> bool" where
  "shouldDeferRehydration u url = (blank u \<or> blank url)"

text \<open>\<open>None\<close>: to be thrown.\<close>

definition classifyLookupFailure :: "int \<Rightarrow> string option" where
  "classifyLookupFailure status = (if status = 404 then Some ''Call no longer available'' else None)"

definition TERMINAL_PUSH_MESSAGES :: "(string \<times> string) list" where
  "TERMINAL_PUSH_MESSAGES =
     [(''missed'', ''Missed call''), (''declined'', ''Call was declined''), (''ended'', ''Call ended''),
      (''busy'', ''Line was busy''), (''unreachable'', ''Call unreachable'')]"

text \<open>\<open>None\<close>: the call still rings.\<close>

definition describeRehydratedCall :: "string option \<Rightarrow> string option" where
  "describeRehydratedCall status =
     (if status = Some ''ringing'' then None
      else Some (case Option.bind status (map_of TERMINAL_PUSH_MESSAGES) of
                   Some m \<Rightarrow> m | None \<Rightarrow> ''Call no longer active''))"

datatype replay = Replay_Wait | Replay_Ignore | Replay_Dismiss | Replay_Unavailable

definition decideQueuedAnswerReplay ::
  "rehydration option \<Rightarrow> string \<Rightarrow> string option \<Rightarrow> string option \<Rightarrow> replay" where
  "decideQueuedAnswerReplay outcome k queued known =
     (if outcome = Some R_Deferred then Replay_Wait
      else if queued \<noteq> Some k \<or> known = Some k then Replay_Ignore
      else if outcome = Some R_Terminal \<or> outcome = Some R_Not_Found then Replay_Dismiss
      else Replay_Unavailable)"

section \<open>How a call ended\<close>

definition callDurationSeconds :: "int option \<Rightarrow> int \<Rightarrow> int option" where
  "callDurationSeconds connectedAt nw =
     (case connectedAt of Some t \<Rightarrow> if t = 0 then None else Some ((nw - t) div 1000) | None \<Rightarrow> None)"

definition resolveCallEndReason :: "bool \<Rightarrow> string option \<Rightarrow> string option \<Rightarrow> string option" where
  "resolveCallEndReason lost requested recorded =
     (if lost then Some ''media_failed'' else case requested of Some r \<Rightarrow> Some r | None \<Rightarrow> recorded)"

definition shouldSummariseCall :: "bool \<Rightarrow> string option \<Rightarrow> bool" where
  "shouldSummariseCall hasConnected reason = (hasConnected \<or> among reason SUMMARISED_END_REASONS)"

record end_summary =
  es_duration :: "int option"
  es_quality :: string
  es_reason :: "string option"
  es_status :: "string option"
  es_outgoing :: bool
  es_peer :: "string option"

definition buildCallEndSummary ::
  "int option \<Rightarrow> string option \<Rightarrow> string option \<Rightarrow> bool \<Rightarrow> client_call option \<Rightarrow> end_summary" where
  "buildCallEndSummary duration label reason isCaller c =
     \<lparr>es_duration = duration, es_quality = (if str_truthy label then the label else ''No link''), es_reason = reason,
      es_status = Option.bind c cl_status, es_outgoing = isCaller,
      es_peer = Option.bind c (if isCaller then cl_callee else cl_caller)\<rparr>"

definition isMissedCall :: "string option \<Rightarrow> string option \<Rightarrow> bool" where
  "isMissedCall reason status = (among reason MISSED_END_REASONS \<or> status = Some ''missed'')"

definition resolveKnownCallId :: "string option \<Rightarrow> client_call option \<Rightarrow> client_call option \<Rightarrow> string option" where
  "resolveKnownCallId activeId active incoming =
     (case activeId of Some k \<Rightarrow> Some k | None \<Rightarrow>
        (case Option.bind active cl_id of Some k \<Rightarrow> Some k | None \<Rightarrow> Option.bind incoming cl_id))"

definition isStateChangeForOtherCall :: "string option \<Rightarrow> string option \<Rightarrow> bool" where
  "isStateChangeForOtherCall ev known = (str_truthy ev \<and> str_truthy known \<and> ev \<noteq> known)"

text \<open>The message, its severity and the end reason; \<open>None\<close>: the status does not end the call.\<close>

definition describeCallStateEnding :: "string \<Rightarrow> string option \<Rightarrow> (string \<times> string \<times> string) option" where
  "describeCallStateEnding status reason =
     (if status = ''declined'' then Some (''Call declined'', ''info'', ''declined'')
      else if status = ''missed'' then Some (''Call not answered'', ''error'', ''missed'')
      else if status = ''busy'' then Some (''Callee is busy'', ''error'', ''busy'')
      else if status = ''unreachable'' then Some (''Callee is unreachable'', ''error'', ''unreachable'')
      else if status = ''ended''
      then Some (if reason = Some ''cancelled'' then ''Call cancelled'' else ''Call ended'', ''info'',
                 case reason of Some r \<Rightarrow> r | None \<Rightarrow> ''ended'')
      else None)"

definition shouldReportEmptyCallState :: "string option \<Rightarrow> string option \<Rightarrow> string option \<Rightarrow> bool" where
  "shouldReportEmptyCallState ev activeId incomingId =
     (\<not> (\<exists>k \<in> set [activeId, incomingId]. str_truthy k \<and> k \<noteq> ev))"

section \<open>Placing a call, and other devices\<close>

text \<open>\<open>Inl\<close> is what to tell the user.\<close>

definition trimmed :: "string option \<Rightarrow> string" where
  "trimmed s = (case s of Some x \<Rightarrow> trim x | None \<Rightarrow> [])"

definition resolveOutgoingCallee :: "string option \<Rightarrow> string option \<Rightarrow> string option \<Rightarrow> string + string" where
  "resolveOutgoingCallee explicit typed u =
     (let callee = (if trimmed explicit \<noteq> [] then trimmed explicit else trimmed typed)
      in if callee = [] then Inl ''Enter a callee ID to call''
         else if trimmed u = [] then Inl ''Enter your user ID first''
         else Inr callee)"

definition callPeerId_client :: "client_call \<Rightarrow> string option \<Rightarrow> string option" where
  "callPeerId_client c u =
     (if trimmed u = [] then None
      else if cl_caller c = Some (trimmed u) then cl_callee c
      else if cl_callee c = Some (trimmed u) then cl_caller c
      else None)"

definition callOwnerDeviceId :: "client_call \<Rightarrow> string option \<Rightarrow> string option" where
  "callOwnerDeviceId c u =
     (if trimmed u = [] then None
      else if cl_caller c = Some (trimmed u) then cl_caller_device c
      else if cl_callee c = Some (trimmed u) then cl_callee_device c
      else None)"

definition isCallOwnedByAnotherDevice_client :: "client_call option \<Rightarrow> string option \<Rightarrow> string option \<Rightarrow> bool" where
  "isCallOwnedByAnotherDevice_client call u dev =
     (case call of
        None \<Rightarrow> False
      | Some c \<Rightarrow>
          if \<not> str_truthy (cl_id c) \<or> trimmed dev = [] \<or> \<not> str_truthy (callPeerId_client c u) then False
          else str_truthy (callOwnerDeviceId c u) \<and> callOwnerDeviceId c u \<noteq> Some (trimmed dev))"

record call_elsewhere =
  el_call :: string
  el_peer :: string
  el_status :: string

definition evaluateCallOnAnotherDevice ::
  "client_call option \<Rightarrow> string option \<Rightarrow> string option \<Rightarrow> bool \<times> call_elsewhere option" where
  "evaluateCallOnAnotherDevice call u dev =
     (case call of
        None \<Rightarrow> (False, None)
      | Some c \<Rightarrow>
          if \<not> str_truthy (cl_id c) \<or> trimmed dev = [] then (False, None)
          else if \<not> str_truthy (callPeerId_client c u) then (False, None)
          else
            (let owned = (str_truthy (callOwnerDeviceId c u) \<and> callOwnerDeviceId c u \<noteq> Some (trimmed dev))
             in (owned,
                 if owned \<and> str_truthy (cl_status c) \<and> \<not> isTerminalCallStatus (cl_status c)
                 then Some \<lparr>el_call = the (cl_id c), el_peer = the (callPeerId_client c u), el_status = the (cl_status c)\<rparr>
                 else None)))"

definition describeCallOnAnotherDevice ::
  "client_call option \<Rightarrow> string option \<Rightarrow> string option \<Rightarrow> call_elsewhere option" where
  "describeCallOnAnotherDevice call u dev = snd (evaluateCallOnAnotherDevice call u dev)"

definition describeDialBlocked ::
  "client_call option \<Rightarrow> call_elsewhere option \<Rightarrow> client_call option \<Rightarrow> string option" where
  "describeDialBlocked active elsewhere incoming =
     (if str_truthy (Option.bind incoming cl_id) then Some ''Answer or decline the incoming call first''
      else if str_truthy (Option.bind active cl_id) \<and> \<not> isTerminalCallStatus (Option.bind active cl_status)
      then Some ''End the current call before placing another''
      else map_option (\<lambda>e. ''You are in a call with '' @ el_peer e @ '' on another device'') elsewhere)"

section \<open>Sessions\<close>

definition SESSION_REFRESH_INTERVAL_MS :: int where "SESSION_REFRESH_INTERVAL_MS = 50 * 60 * 1000"
definition SESSION_REMINT_ATTEMPTS :: nat where "SESSION_REMINT_ATTEMPTS = 3"
definition SESSION_REMINT_RETRY_MS :: int where "SESSION_REMINT_RETRY_MS = 1000"

definition shouldScheduleSessionRefresh :: "string \<Rightarrow> string \<Rightarrow> bool" where
  "shouldScheduleSessionRefresh u url = (trim u \<noteq> [] \<and> trim url \<noteq> [])"

definition sessionRemintAttempts :: "bool \<Rightarrow> nat" where
  "sessionRemintAttempts inCall = (if inCall then SESSION_REMINT_ATTEMPTS else 1)"

text \<open>
  The acknowledgement of \<open>call.state.report\<close>: \<open>activeCalls\<close> is \<open>None\<close> when it is no array, and the id of a call
  \<open>None\<close> when it has none.
\<close>

record report_ack =
  ra_ok :: bool
  ra_cleared :: "string list option"
  ra_active :: "string option list option"

record state_report =
  sr_cleared :: "string list"
  sr_active :: "string list option"

definition parseCallStateReportAck :: "report_ack option \<Rightarrow> state_report option" where
  "parseCallStateReportAck ack =
     (case ack of
        None \<Rightarrow> None
      | Some a \<Rightarrow>
          if \<not> ra_ok a then None
          else Some \<lparr>sr_cleared = or_empty (ra_cleared a),
                     sr_active = map_option (\<lambda>cs. map the (filter str_truthy cs)) (ra_active a)\<rparr>)"

definition shouldTearDownAfterResync :: "string option \<Rightarrow> state_report \<Rightarrow> bool" where
  "shouldTearDownAfterResync current r =
     (if \<not> str_truthy current then False
      else if the current \<in> set (sr_cleared r) then True
      else (case sr_active r of Some ks \<Rightarrow> the current \<notin> set ks | None \<Rightarrow> False))"

end
