(* ===== verification/AnswerFlow.thy ===== *)
theory AnswerFlow
  imports CallDecisions CallScreen
begin

text \<open>
  The calls of one device: the queue of answered calls of \<open>mobile/src/callKeep.ts\<close>, the answer path of
  \<open>hooks/useAnswerPath.ts\<close>, and the handlers of \<open>hooks/useCallFlow.ts\<close> and \<open>hooks/useSignalingSocket.ts\<close> that write
  the same refs. A ref and the state set with it are one field. What waits for a network answer is two steps: the
  part before the wait, and the part after it with the answer as an argument; other events come in between. The
  effect that replays an answer runs when \<open>incomingCall\<close> is set, as React runs it before further events. Messages
  for the user that name a person or an error are left out, as are media, sounds, haptics, telemetry and timers.
\<close>

section \<open>State\<close>

text \<open>What leaves the device, in order: requests, receipts, and what the user is told.\<close>

datatype phone_effect =
    Fx_Incoming_Ack string
  | Fx_Accept string
  | Fx_Decline string
  | Fx_Cancel string
  | Fx_End string
  | Fx_Initiate string
  | Fx_Report "string list"
  | Fx_Offer string
  | Fx_Receipt string string "string option"
  | Fx_End_Ui string
  | Fx_Connected string
  | Fx_Summary end_summary
  | Fx_History client_call "string option" bool
  | Fx_Status string

text \<open>
  \<open>isPlacingCallRef\<close>, and how far the placement has come: the callee, and whether this is the second request.
\<close>

datatype placing = Not_Placing | Preparing string | Asked string bool

record phone =
  ph_user :: "string option"
  ph_device :: "string option"
  ph_active_id :: "string option"
  ph_active :: "client_call option"
  ph_incoming :: "client_call option"
  ph_caller :: bool
  ph_in_flight :: "string option"
  ph_answered :: "string list"
  ph_replayed :: "string list"
  ph_pending :: "string option"
  ph_attached :: bool
  ph_elsewhere :: "call_elsewhere option"
  ph_connected_at :: "int option"
  ph_lost :: bool
  ph_quality :: "string option"
  ph_screen :: screen
  ph_waiting :: "client_call list"
  ph_placing :: placing
  ph_releasing :: "(string \<times> string) list"
  ph_ui_asked :: "string list"
  ph_ui_waiting :: "client_call list"
  ph_displayed :: "(string \<times> string option) list"
  ph_fx :: "phone_effect list"

definition fresh_phone :: "string \<Rightarrow> string \<Rightarrow> phone" where
  "fresh_phone u dev =
     \<lparr>ph_user = Some u, ph_device = Some dev, ph_active_id = None, ph_active = None, ph_incoming = None,
      ph_caller = False, ph_in_flight = None, ph_answered = [], ph_replayed = [], ph_pending = None, ph_attached = False,
      ph_elsewhere = None, ph_connected_at = None, ph_lost = False, ph_quality = None, ph_screen = S_Idle,
      ph_waiting = [], ph_placing = Not_Placing, ph_releasing = [], ph_ui_asked = [], ph_ui_waiting = [],
      ph_displayed = [], ph_fx = []\<rparr>"

definition fx :: "phone_effect \<Rightarrow> phone \<Rightarrow> phone" where
  "fx e ph = ph\<lparr>ph_fx := ph_fx ph @ [e]\<rparr>"

definition incoming_id :: "phone \<Rightarrow> string option" where
  "incoming_id ph = Option.bind (ph_incoming ph) cl_id"

definition dispatchCallEvent :: "screen_event \<Rightarrow> phone \<Rightarrow> phone" where
  "dispatchCallEvent e ph = ph\<lparr>ph_screen := callStateReducer (ph_screen ph) e\<rparr>"

text \<open>\<open>reportAnswerStage\<close>; a null call id is not reported.\<close>

definition reportAnswerStage :: "string option \<Rightarrow> string \<Rightarrow> string option \<Rightarrow> phone \<Rightarrow> phone" where
  "reportAnswerStage k stage reason ph =
     (if str_truthy k then fx (Fx_Receipt (the k) stage reason) ph else ph)"

section \<open>The queue of answered calls\<close>

definition recordPendingAnswer :: "string \<Rightarrow> phone \<Rightarrow> bool \<times> phone" where
  "recordPendingAnswer k ph = (if k = [] then (False, ph) else (True, ph\<lparr>ph_pending := Some k\<rparr>))"

definition consumePendingAnswer :: "string option \<Rightarrow> phone \<Rightarrow> string option \<times> phone" where
  "consumePendingAnswer k ph =
     (if \<not> str_truthy (ph_pending ph) then (None, ph)
      else if str_truthy k \<and> ph_pending ph \<noteq> k then (None, ph)
      else (ph_pending ph, ph\<lparr>ph_pending := None\<rparr>))"

definition clearPendingAnswer :: "string option \<Rightarrow> phone \<Rightarrow> phone" where
  "clearPendingAnswer k ph =
     (if \<not> str_truthy (ph_pending ph) then ph
      else if str_truthy k \<and> ph_pending ph \<noteq> k then ph
      else ph\<lparr>ph_pending := None\<rparr>)"

section \<open>The system call screen\<close>

text \<open>
  \<open>ph_displayed\<close> holds the displayed calls with their callers, \<open>ph_ui_asked\<close> the calls whose screen was asked for
  (\<open>displayedIncomingCallIdsRef\<close>), and \<open>ph_ui_waiting\<close> those that still wait for the profile of the caller.
\<close>

definition endCall :: "string \<Rightarrow> phone \<Rightarrow> phone" where
  "endCall k ph = (if k = [] then ph else fx (Fx_End_Ui k) (ph\<lparr>ph_displayed := AList.delete k (ph_displayed ph)\<rparr>))"

definition clearDisplayedCall :: "string \<Rightarrow> phone \<Rightarrow> phone" where
  "clearDisplayedCall k ph = ph\<lparr>ph_displayed := AList.delete k (ph_displayed ph)\<rparr>"

definition forget_ui :: "string \<Rightarrow> phone \<Rightarrow> phone" where
  "forget_ui k ph = ph\<lparr>ph_ui_asked := removeAll k (ph_ui_asked ph)\<rparr>"

definition dismissStaleCallsFromCaller :: "string \<Rightarrow> string option \<Rightarrow> phone \<Rightarrow> phone" where
  "dismissStaleCallsFromCaller k caller ph =
     (if \<not> str_truthy caller then ph
      else fold (\<lambda>(j, x) p. if j = k \<or> x \<noteq> caller then p else clearPendingAnswer (Some j) (endCall j p))
             (ph_displayed ph) ph)"

text \<open>How far a display comes: no native module or no set-up; no phone account, or an exception; shown.\<close>

datatype display_outcome = No_Telecom | Telecom_Refused | Shown

definition displayIncomingCall :: "string \<Rightarrow> string option \<Rightarrow> display_outcome \<Rightarrow> phone \<Rightarrow> phone" where
  "displayIncomingCall k caller outcome ph =
     (if k = [] \<or> k \<in> fst ` set (ph_displayed ph) then ph
      else (case outcome of
              No_Telecom \<Rightarrow> ph
            | Telecom_Refused \<Rightarrow> dismissStaleCallsFromCaller k caller ph
            | Shown \<Rightarrow>
                (let ph1 = dismissStaleCallsFromCaller k caller ph
                 in ph1\<lparr>ph_displayed := AList.update k caller (ph_displayed ph1)\<rparr>)))"

text \<open>\<open>showIncomingCallUi\<close> up to the profile it waits for, and what follows.\<close>

definition showIncomingCallUi :: "client_call \<Rightarrow> phone \<Rightarrow> phone" where
  "showIncomingCallUi c ph =
     (case cl_id c of
        None \<Rightarrow> ph
      | Some k \<Rightarrow>
          if k = [] \<or> k \<in> set (ph_ui_asked ph) then ph
          else ph\<lparr>ph_ui_asked := ph_ui_asked ph @ [k], ph_ui_waiting := ph_ui_waiting ph @ [c]\<rparr>)"

definition profile_fetched :: "client_call \<Rightarrow> display_outcome \<Rightarrow> phone \<Rightarrow> phone" where
  "profile_fetched c outcome ph0 =
     (let ph = ph0\<lparr>ph_ui_waiting := remove1 c (ph_ui_waiting ph0)\<rparr>
      in if incoming_id ph \<noteq> cl_id c then ph
         else displayIncomingCall (the (cl_id c)) (cl_caller c) outcome ph)"

definition handleCallCancelledPush :: "string \<Rightarrow> phone \<Rightarrow> phone" where
  "handleCallCancelledPush k ph = (if k = [] then ph else endCall k (clearPendingAnswer (Some k) ph))"

section \<open>The end of a call\<close>

definition call_over :: "phone \<Rightarrow> phone" where
  "call_over ph =
     dispatchCallEvent E_End
       (ph\<lparr>ph_connected_at := None, ph_lost := False, ph_active_id := None, ph_caller := False, ph_active := None,
           ph_incoming := None\<rparr>)"

definition endActiveCall :: "int \<Rightarrow> string \<Rightarrow> string option \<Rightarrow> phone \<Rightarrow> phone" where
  "endActiveCall nw message endReason ph =
     (let c = (case ph_active ph of Some x \<Rightarrow> Some x | None \<Rightarrow> ph_incoming ph);
          k = Option.bind c cl_id;
          ph1 = (if str_truthy k then forget_ui (the k) (endCall (the k) ph) else ph);
          reason = resolveCallEndReason (ph_lost ph) endReason (Option.bind c cl_end_reason);
          ph2 = (if shouldSummariseCall (ph_connected_at ph \<noteq> None \<and> ph_connected_at ph \<noteq> Some 0) reason
                 then fx (Fx_Summary (buildCallEndSummary (callDurationSeconds (ph_connected_at ph) nw) (ph_quality ph)
                                        reason (ph_caller ph) c)) ph1
                 else ph1);
          ph3 = (if str_truthy k
                 then fx (Fx_History (the c) reason (isMissedCall reason (Option.bind c cl_status))) ph2 else ph2);
          ph4 = call_over ph3
      in if message = [] then ph4 else fx (Fx_Status message) ph4)"

definition dismissIncomingCallElsewhere :: "string \<Rightarrow> phone \<Rightarrow> phone" where
  "dismissIncomingCallElsewhere k ph =
     (let ph1 = endCall k (forget_ui k (clearPendingAnswer (Some k) ph));
          ph2 = dispatchCallEvent E_End (ph1\<lparr>ph_incoming := None\<rparr>)
      in fx (Fx_Status ''Answered on another device'') ph2)"

section \<open>Answering\<close>

text \<open>
  \<open>sendCallAccept\<close>: the outcomes of the attempts over the socket, when one is connected, then that of the HTTP
  request. A failure carries whether another device has answered and the canonical reason.
\<close>

datatype accept_error = Accept_Error bool string

fun socket_attempts :: "nat \<Rightarrow> (accept_error + client_call option) list \<Rightarrow> (accept_error + client_call option) option" where
  "socket_attempts (Suc n) (r # rs) =
     (case r of
        Inr c \<Rightarrow> Some (Inr c)
      | Inl (Accept_Error elsewhere reason) \<Rightarrow>
          if elsewhere then Some (Inl (Accept_Error elsewhere reason)) else socket_attempts n rs)"
| "socket_attempts n rs = None"

definition sendCallAccept ::
  "(accept_error + client_call option) list option \<Rightarrow> accept_error + client_call option \<Rightarrow>
   accept_error + client_call option" where
  "sendCallAccept socket http =
     (case Option.bind socket (socket_attempts ANSWER_SOCKET_ATTEMPTS) of Some r \<Rightarrow> r | None \<Rightarrow> http)"

text \<open>
  \<open>acceptIncomingCall\<close> up to the media and the request it waits for. Nothing that happens while the media are
  acquired keeps the request back, so it is recorded here.
\<close>

definition acceptIncomingCall :: "phone \<Rightarrow> phone" where
  "acceptIncomingCall ph =
     (if \<not> str_truthy (incoming_id ph)
      then fx (Fx_Status ''No incoming call to answer'')
             (reportAnswerStage (ph_pending ph) ''answer_failed'' (Some ''no_incoming_call'') ph)
      else
        (let c = the (ph_incoming ph); k = the (cl_id c)
         in case decideAcceptIncomingCall k (cl_status c) (ph_in_flight ph) (ph_answered ph) of
              Skip_In_Flight \<Rightarrow> reportAnswerStage (Some k) ''answer_skipped_duplicate'' (Some ''accept_in_flight'') ph
            | Skip_Already \<Rightarrow> reportAnswerStage (Some k) ''answer_skipped_duplicate'' (Some ''already_accepted'') ph
            | Dismiss_Ended \<Rightarrow>
                endCall k
                  (clearPendingAnswer (Some k) (reportAnswerStage (Some k) ''accept_tapped'' (Some ''call_already_ended'') ph))
            | Do_Accept \<Rightarrow>
                fx (Fx_Accept k)
                  ((reportAnswerStage (Some k) ''answer_attempted'' None ph)
                     \<lparr>ph_in_flight := Some k, ph_caller := False, ph_active_id := Some k,
                      ph_waiting := ph_waiting ph @ [c]\<rparr>)))"

text \<open>What follows the answer to it; the last lines are the \<open>finally\<close>.\<close>

definition accept_answered :: "int \<Rightarrow> client_call \<Rightarrow> accept_error + client_call option \<Rightarrow> phone \<Rightarrow> phone" where
  "accept_answered nw c r ph0 =
     (let k = the (cl_id c);
          ph = ph0\<lparr>ph_waiting := remove1 c (ph_waiting ph0)\<rparr>;
          ph' =
            (case r of
               Inr accepted \<Rightarrow>
                 fx (Fx_Receipt k ''answer_accepted'' None)
                   (fx (Fx_Connected k)
                     (clearPendingAnswer (Some k)
                       (ph\<lparr>ph_answered := rememberAnsweredCallId (ph_answered ph) k,
                           ph_active := Some (case accepted of Some x \<Rightarrow> x | None \<Rightarrow> c), ph_incoming := None\<rparr>)))
             | Inl (Accept_Error elsewhere reason) \<Rightarrow>
                 (let ph1 = clearPendingAnswer (Some k) (reportAnswerStage (Some k) ''answer_failed'' (Some reason) ph)
                  in if elsewhere then dismissIncomingCallElsewhere k (ph1\<lparr>ph_active_id := None\<rparr>)
                     else if isLiveCallStatus (Option.bind (ph_active ph1) cl_status)
                     then fx (Fx_Status ''Call already answered'') ph1
                     else endActiveCall nw ''Call ended'' None (fx (Fx_Status ''Failed to accept call'') ph1)))
      in if ph_in_flight ph' = Some k then ph'\<lparr>ph_in_flight := None\<rparr> else ph')"

definition declineCallById :: "string \<Rightarrow> phone \<Rightarrow> phone" where
  "declineCallById k ph = (if k = [] then ph else fx (Fx_Decline k) (clearPendingAnswer (Some k) ph))"

text \<open>
  A decline or a cancellation waits for the server; the call that is then current is ended with the message and the
  reason kept here.
\<close>

definition await_release :: "string \<times> string \<Rightarrow> phone \<Rightarrow> phone" where
  "await_release m ph = ph\<lparr>ph_releasing := ph_releasing ph @ [m]\<rparr>"

definition release_answered :: "int \<Rightarrow> string \<times> string \<Rightarrow> phone \<Rightarrow> phone" where
  "release_answered nw m ph =
     endActiveCall nw (fst m) (Some (snd m)) (ph\<lparr>ph_releasing := remove1 m (ph_releasing ph)\<rparr>)"

definition declineIncomingCall :: "phone \<Rightarrow> phone" where
  "declineIncomingCall ph =
     (case ph_incoming ph of
        None \<Rightarrow> ph
      | Some c \<Rightarrow>
          await_release (''Call declined'', ''declined'')
            (declineCallById (case cl_id c of Some k \<Rightarrow> k | None \<Rightarrow> []) ph))"

section \<open>Incoming calls and replay\<close>

text \<open>The effect on \<open>incomingCall\<close>.\<close>

definition replay_answer :: "phone \<Rightarrow> phone" where
  "replay_answer ph =
     (case incoming_id ph of
        None \<Rightarrow> ph
      | Some k \<Rightarrow>
          if k = [] \<or> k \<in> set (ph_replayed ph) then ph
          else (case consumePendingAnswer (Some k) ph of
                  (None, ph1) \<Rightarrow> ph1
                | (Some _, ph1) \<Rightarrow>
                    acceptIncomingCall
                      (ph1\<lparr>ph_replayed :=
                         (if shouldResetReplayGuard (length (ph_replayed ph1)) then [] else ph_replayed ph1) @ [k]\<rparr>)))"

definition show_incoming :: "client_call \<Rightarrow> phone \<Rightarrow> phone" where
  "show_incoming c ph =
     replay_answer (showIncomingCallUi c (dispatchCallEvent E_Receive (ph\<lparr>ph_incoming := Some c\<rparr>)))"

definition on_call_incoming :: "client_call \<Rightarrow> phone \<Rightarrow> phone" where
  "on_call_incoming c ph =
     show_incoming c (case cl_id c of Some k \<Rightarrow> fx (Fx_Incoming_Ack k) ph | None \<Rightarrow> ph)"

text \<open>
  \<open>queueAnswerForReplay\<close>: the tap is queued and the call looked up; \<open>answer_looked_up\<close> is what follows. A lookup
  that finds the call ringing shows it first.
\<close>

definition queueAnswerForReplay :: "string \<Rightarrow> phone \<Rightarrow> phone" where
  "queueAnswerForReplay k ph = (if k = [] then ph else snd (recordPendingAnswer k ph))"

definition rehydrateCallFromPush :: "rehydration \<Rightarrow> client_call option \<Rightarrow> phone \<Rightarrow> phone" where
  "rehydrateCallFromPush outcome c ph =
     (case (outcome, c) of (R_Ringing, Some x) \<Rightarrow> show_incoming x ph | _ \<Rightarrow> ph)"

definition answer_looked_up :: "string \<Rightarrow> rehydration \<Rightarrow> client_call option \<Rightarrow> phone \<Rightarrow> phone" where
  "answer_looked_up k outcome c ph0 =
     (let ph = rehydrateCallFromPush outcome c ph0
      in case decideQueuedAnswerReplay (Some outcome) k (ph_pending ph) (incoming_id ph) of
           Replay_Wait \<Rightarrow> ph
         | Replay_Ignore \<Rightarrow> ph
         | Replay_Dismiss \<Rightarrow>
             endCall k
               (clearPendingAnswer (Some k) (reportAnswerStage (Some k) ''accept_tapped'' (Some ''call_already_ended'') ph))
         | Replay_Unavailable \<Rightarrow>
             clearPendingAnswer (Some k) (reportAnswerStage (Some k) ''answer_failed'' (Some ''call_unavailable'') ph))"

text \<open>The look-up itself fails, with a reason.\<close>

definition answer_lookup_failed :: "string \<Rightarrow> string \<Rightarrow> phone \<Rightarrow> phone" where
  "answer_lookup_failed k reason ph =
     endCall k (clearPendingAnswer (Some k) (reportAnswerStage (Some k) ''answer_failed'' (Some reason) ph))"

text \<open>The action of a notification that was tapped before the app ran: an answer, or a decline.\<close>

definition persisted_action :: "bool \<Rightarrow> bool \<Rightarrow> string \<Rightarrow> phone \<Rightarrow> phone" where
  "persisted_action accepting connectionLive k ph =
     (let reason = Some (if connectionLive then ''connection_live'' else ''connection_missing'')
      in if k = [] then ph
         else if accepting then queueAnswerForReplay k (reportAnswerStage (Some k) ''accept_tapped'' reason ph)
         else declineCallById k (reportAnswerStage (Some k) ''decline_tapped'' reason ph))"

text \<open>The system call UI: answered, ended, and the attachment of the call flow.\<close>

definition onAnswer :: "string \<Rightarrow> phone \<Rightarrow> phone" where
  "onAnswer k ph = (if k \<noteq> [] \<and> incoming_id ph \<noteq> Some k then queueAnswerForReplay k ph else acceptIncomingCall ph)"

definition onEnd :: "string \<Rightarrow> phone \<Rightarrow> phone" where
  "onEnd k ph =
     (let ph1 = clearPendingAnswer (Some k) ph
      in if incoming_id ph1 = Some k then declineIncomingCall ph1 else ph1)"

definition answerHandler :: "string \<Rightarrow> phone \<Rightarrow> phone" where
  "answerHandler k ph = (if ph_attached ph then onAnswer k ph else snd (recordPendingAnswer k ph))"

definition endHandler :: "string \<Rightarrow> phone \<Rightarrow> phone" where
  "endHandler k ph =
     (let ph1 = (if ph_pending ph = Some k then clearPendingAnswer (Some k) ph else ph)
      in if ph_attached ph1 then onEnd k ph1 else clearDisplayedCall k ph1)"

definition setCallActionHandlers :: "phone \<Rightarrow> phone" where
  "setCallActionHandlers ph =
     (let ph1 = ph\<lparr>ph_attached := True\<rparr>
      in if \<not> str_truthy (ph_pending ph1) then ph1
         else (case consumePendingAnswer None ph1 of
                 (Some k, ph2) \<Rightarrow> onAnswer k ph2
               | (None, ph2) \<Rightarrow> ph2))"

definition detach_handlers :: "phone \<Rightarrow> phone" where
  "detach_handlers ph = ph\<lparr>ph_attached := False\<rparr>"

section \<open>Transitions told by the server\<close>

definition on_call_ringing :: "client_call \<Rightarrow> phone \<Rightarrow> phone" where
  "on_call_ringing c ph = ph\<lparr>ph_active := Some c\<rparr>"

definition known_call :: "phone \<Rightarrow> string option" where
  "known_call ph = resolveKnownCallId (ph_active_id ph) (ph_active ph) (ph_incoming ph)"

text \<open>Whether the transition is consumed, and the device after it.\<close>

definition consumeForeignDeviceCallEvent ::
  "client_call option \<Rightarrow> string option \<Rightarrow> string option \<Rightarrow> phone \<Rightarrow> bool \<times> phone" where
  "consumeForeignDeviceCallEvent c ev known ph =
     (case evaluateCallOnAnotherDevice c (ph_user ph) (ph_device ph) of
        (owned, Some elsewhere) \<Rightarrow>
          (True,
           let ph1 = ph\<lparr>ph_elsewhere := Some elsewhere\<rparr>
           in if incoming_id ph1 = Some (el_call elsewhere) then dismissIncomingCallElsewhere (el_call elsewhere) ph1 else ph1)
      | (owned, None) \<Rightarrow>
          (\<not> str_truthy known \<and> owned,
           if map_option el_call (ph_elsewhere ph) = ev then ph\<lparr>ph_elsewhere := None\<rparr> else ph))"

definition state_change ::
  "int \<Rightarrow> string \<Rightarrow> client_call option \<Rightarrow> string option \<Rightarrow> string option \<Rightarrow> string option \<Rightarrow> phone \<Rightarrow> phone" where
  "state_change nw status c reason ev known ph =
     (let ph1 = (if status = ''busy'' \<and> shouldReportEmptyCallState ev (ph_active_id ph) (incoming_id ph)
                 then fx (Fx_Report []) ph else ph)
      in case consumeForeignDeviceCallEvent c ev known ph1 of
           (True, ph2) \<Rightarrow> ph2
         | (False, ph2) \<Rightarrow>
             (let ph3 = (case c of Some x \<Rightarrow> ph2\<lparr>ph_active := Some x\<rparr> | None \<Rightarrow> ph2)
              in if status = ''accepted''
                 then (case c of
                         Some x \<Rightarrow>
                           if ph_caller ph3
                           then (let ph4 = ph3\<lparr>ph_active_id := cl_id x\<rparr>
                                 in case cl_id x of Some k \<Rightarrow> fx (Fx_Offer k) ph4 | None \<Rightarrow> ph4)
                           else ph3
                       | None \<Rightarrow> ph3)
                 else (case describeCallStateEnding status reason of
                         Some (message, _, endReason) \<Rightarrow> endActiveCall nw message (Some endReason) ph3
                       | None \<Rightarrow> ph3)))"

definition on_state_changed :: "int \<Rightarrow> string \<Rightarrow> client_call option \<Rightarrow> string option \<Rightarrow> phone \<Rightarrow> phone" where
  "on_state_changed nw status c reason ph =
     (let ev = Option.bind c cl_id; known = known_call ph;
          ph1 = (if str_truthy ev \<and> isTerminalCallStatus (Some status)
                 then endCall (the ev) (forget_ui (the ev) (clearPendingAnswer ev ph)) else ph)
      in if isStateChangeForOtherCall ev known then ph1 else state_change nw status c reason ev known ph1)"

section \<open>Outgoing calls\<close>

text \<open>
  \<open>placeCall\<close> up to the local preview and the socket it waits for, then the request and its answers. The second
  request of \<open>requestCallPlacement\<close> follows the acknowledgement of the report; nothing that happens before it keeps
  it back, so the two are recorded together.
\<close>

definition placeCall :: "string option \<Rightarrow> string option \<Rightarrow> phone \<Rightarrow> phone" where
  "placeCall explicit typed ph =
     (if ph_placing ph \<noteq> Not_Placing then ph
      else (case describeDialBlocked (ph_active ph) (ph_elsewhere ph) (ph_incoming ph) of
              Some message \<Rightarrow> fx (Fx_Status message) ph
            | None \<Rightarrow>
                (case resolveOutgoingCallee explicit typed (ph_user ph) of
                   Inl message \<Rightarrow> fx (Fx_Status message) ph
                 | Inr callee \<Rightarrow> ph\<lparr>ph_placing := Preparing callee\<rparr>)))"

definition placement_failed :: "int \<Rightarrow> phone \<Rightarrow> phone" where
  "placement_failed nw ph = (endActiveCall nw [] None ph)\<lparr>ph_placing := Not_Placing\<rparr>"

datatype preparation = No_Preview | No_Connection | Prepared

definition place_prepared :: "int \<Rightarrow> preparation \<Rightarrow> phone \<Rightarrow> phone" where
  "place_prepared nw outcome ph =
     (case ph_placing ph of
        Preparing callee \<Rightarrow>
          (case outcome of
             No_Preview \<Rightarrow> ph\<lparr>ph_placing := Not_Placing\<rparr>
           | No_Connection \<Rightarrow> placement_failed nw ph
           | Prepared \<Rightarrow> fx (Fx_Initiate callee) (ph\<lparr>ph_placing := Asked callee False\<rparr>))
      | _ \<Rightarrow> ph)"

text \<open>
  The answer to a request. A refusal says whether it is because of a call in progress; such a refusal of the first
  request, with no call known on another device, is followed by a report that no call is held here and a second one.
\<close>

definition request_refused :: "int \<Rightarrow> bool \<Rightarrow> string \<Rightarrow> bool \<Rightarrow> phone \<Rightarrow> phone" where
  "request_refused nw inProgress callee again ph =
     (if again \<or> \<not> inProgress \<or> ph_elsewhere ph \<noteq> None then placement_failed nw ph
      else fx (Fx_Initiate callee) (fx (Fx_Report []) (ph\<lparr>ph_placing := Asked callee True\<rparr>)))"

definition request_accepted :: "int \<Rightarrow> client_call \<Rightarrow> phone \<Rightarrow> phone" where
  "request_accepted nw c ph =
     (let ph1 = dispatchCallEvent E_Place (ph\<lparr>ph_caller := True, ph_active_id := cl_id c, ph_active := Some c\<rparr>)
      in (case describeCallStateEnding (case cl_status c of Some s \<Rightarrow> s | None \<Rightarrow> []) (cl_end_reason c) of
            Some (message, _, endReason) \<Rightarrow> endActiveCall nw message (Some endReason) ph1
          | None \<Rightarrow> ph1)\<lparr>ph_placing := Not_Placing\<rparr>)"

definition place_answered :: "int \<Rightarrow> bool + client_call \<Rightarrow> phone \<Rightarrow> phone" where
  "place_answered nw r ph =
     (case ph_placing ph of
        Asked callee again \<Rightarrow>
          (case r of
             Inl inProgress \<Rightarrow> request_refused nw inProgress callee again ph
           | Inr c \<Rightarrow> request_accepted nw c ph)
      | _ \<Rightarrow> ph)"

text \<open>A call is given up: cancelled before it is answered, or hung up. Over the socket or by HTTP is all one here.\<close>

definition releaseCallOnServer :: "string \<Rightarrow> bool \<Rightarrow> phone \<Rightarrow> phone" where
  "releaseCallOnServer k hangup ph = (if k = [] then ph else fx (if hangup then Fx_End k else Fx_Cancel k) ph)"

definition release_current :: "int \<Rightarrow> bool \<Rightarrow> string \<times> string \<Rightarrow> phone \<Rightarrow> phone" where
  "release_current nw hangup m ph =
     (if str_truthy (ph_active_id ph) then await_release m (releaseCallOnServer (the (ph_active_id ph)) hangup ph)
      else endActiveCall nw (fst m) (Some (snd m)) ph)"

definition cancelOutgoingCall :: "int \<Rightarrow> phone \<Rightarrow> phone" where
  "cancelOutgoingCall nw ph = release_current nw False (''Call cancelled'', ''cancelled'') ph"

definition handleEndCall :: "int \<Rightarrow> phone \<Rightarrow> phone" where
  "handleEndCall nw ph = release_current nw True (''Call ended'', ''ended'') ph"

section \<open>After a reconnect\<close>

text \<open>The report \<open>resyncCallState\<close> sends, and what its answer does; the current call is read when it arrives.\<close>

definition resyncCallState :: "phone \<Rightarrow> phone" where
  "resyncCallState ph =
     (if str_truthy (ph_active_id ph) then fx (Fx_Report [the (ph_active_id ph)]) ph else ph)"

definition resync_answered :: "int \<Rightarrow> report_ack option \<Rightarrow> phone \<Rightarrow> phone" where
  "resync_answered nw ack ph =
     (case parseCallStateReportAck ack of
        None \<Rightarrow> ph
      | Some r \<Rightarrow>
          if shouldTearDownAfterResync (ph_active_id ph) r then endActiveCall nw ''Call ended'' (Some ''ended'') ph else ph)"

section \<open>Events\<close>

definition markCallConnected :: "int \<Rightarrow> phone \<Rightarrow> phone" where
  "markCallConnected nw ph =
     (if ph_connected_at ph \<noteq> None \<and> ph_connected_at ph \<noteq> Some 0 then ph else ph\<lparr>ph_connected_at := Some nw\<rparr>)"

definition screen_acknowledged :: "phone \<Rightarrow> phone" where
  "screen_acknowledged ph = (if ph_screen ph = S_Ended then dispatchCallEvent E_Reset ph else ph)"

datatype phone_event =
    Ev_Incoming client_call
  | Ev_Profile client_call display_outcome
  | Ev_Push_Call string "string option" display_outcome
  | Ev_Push_Cancelled string
  | Ev_Ringing client_call
  | Ev_State_Changed int string "client_call option" "string option"
  | Ev_Accept
  | Ev_Accept_Answered int client_call "accept_error + client_call option"
  | Ev_Decline
  | Ev_Released int "string \<times> string"
  | Ev_System_Answer string
  | Ev_System_End string
  | Ev_Persisted bool bool string
  | Ev_Attach
  | Ev_Detach
  | Ev_Looked_Up string rehydration "client_call option"
  | Ev_Lookup_Failed string string
  | Ev_Place "string option" "string option"
  | Ev_Place_Prepared int preparation
  | Ev_Place_Answered int "bool + client_call"
  | Ev_Cancel int
  | Ev_End int
  | Ev_Resync
  | Ev_Resync_Answered int "report_ack option"
  | Ev_Connected int
  | Ev_Negotiated
  | Ev_Acknowledged

text \<open>An answer arrives only for a request that waits for one.\<close>

fun phone_step :: "phone_event \<Rightarrow> phone \<Rightarrow> phone" where
  "phone_step (Ev_Incoming c) ph = on_call_incoming c ph"
| "phone_step (Ev_Profile c outcome) ph = (if c \<in> set (ph_ui_waiting ph) then profile_fetched c outcome ph else ph)"
| "phone_step (Ev_Push_Call k caller outcome) ph = displayIncomingCall k caller outcome ph"
| "phone_step (Ev_Push_Cancelled k) ph = handleCallCancelledPush k ph"
| "phone_step (Ev_Ringing c) ph = on_call_ringing c ph"
| "phone_step (Ev_State_Changed nw s c r) ph = on_state_changed nw s c r ph"
| "phone_step Ev_Accept ph = acceptIncomingCall ph"
| "phone_step (Ev_Accept_Answered nw c r) ph = (if c \<in> set (ph_waiting ph) then accept_answered nw c r ph else ph)"
| "phone_step Ev_Decline ph = declineIncomingCall ph"
| "phone_step (Ev_Released nw m) ph = (if m \<in> set (ph_releasing ph) then release_answered nw m ph else ph)"
| "phone_step (Ev_System_Answer k) ph = answerHandler k ph"
| "phone_step (Ev_System_End k) ph = endHandler k ph"
| "phone_step (Ev_Persisted accepting live k) ph = persisted_action accepting live k ph"
| "phone_step Ev_Attach ph = setCallActionHandlers ph"
| "phone_step Ev_Detach ph = detach_handlers ph"
| "phone_step (Ev_Looked_Up k outcome c) ph = answer_looked_up k outcome c ph"
| "phone_step (Ev_Lookup_Failed k reason) ph = answer_lookup_failed k reason ph"
| "phone_step (Ev_Place explicit typed) ph = placeCall explicit typed ph"
| "phone_step (Ev_Place_Prepared nw outcome) ph = place_prepared nw outcome ph"
| "phone_step (Ev_Place_Answered nw r) ph = place_answered nw r ph"
| "phone_step (Ev_Cancel nw) ph = cancelOutgoingCall nw ph"
| "phone_step (Ev_End nw) ph = handleEndCall nw ph"
| "phone_step Ev_Resync ph = resyncCallState ph"
| "phone_step (Ev_Resync_Answered nw ack) ph = resync_answered nw ack ph"
| "phone_step (Ev_Connected nw) ph = markCallConnected nw ph"
| "phone_step Ev_Negotiated ph = dispatchCallEvent E_Connect ph"
| "phone_step Ev_Acknowledged ph = screen_acknowledged ph"

definition run_phone :: "phone_event list \<Rightarrow> phone \<Rightarrow> phone" where
  "run_phone evs ph = fold phone_step evs ph"

end
