(* ===== verification/AnswerProperties.thy ===== *)
theory AnswerProperties
  imports AnswerFlow
begin

text \<open>
  The answer path keeps two promises: an answer given before the app knows the call is not lost, and a call that was
  answered is not answered again.
\<close>

section \<open>Frames\<close>

text \<open>The part of a device the promises are about.\<close>

definition answer_view :: "phone \<Rightarrow> string option \<times> string option \<times> string list \<times> string list \<times> client_call list" where
  "answer_view ph = (ph_pending ph, ph_in_flight ph, ph_replayed ph, ph_answered ph, ph_waiting ph)"

lemma answer_view_eq:
  "answer_view a = answer_view b \<longleftrightarrow>
     ph_pending a = ph_pending b \<and> ph_in_flight a = ph_in_flight b \<and> ph_replayed a = ph_replayed b \<and>
     ph_answered a = ph_answered b \<and> ph_waiting a = ph_waiting b"
  by (simp add: answer_view_def)

lemma fx_view [simp]:
  "answer_view (fx e ph) = answer_view ph" "ph_incoming (fx e ph) = ph_incoming ph" "ph_active (fx e ph) = ph_active ph"
  "ph_active_id (fx e ph) = ph_active_id ph" "ph_fx (fx e ph) = ph_fx ph @ [e]" "ph_attached (fx e ph) = ph_attached ph"
  "ph_elsewhere (fx e ph) = ph_elsewhere ph"
  by (simp_all add: fx_def answer_view_def)

lemma dispatch_view [simp]:
  "answer_view (dispatchCallEvent e ph) = answer_view ph" "ph_incoming (dispatchCallEvent e ph) = ph_incoming ph"
  "ph_fx (dispatchCallEvent e ph) = ph_fx ph" "ph_active_id (dispatchCallEvent e ph) = ph_active_id ph"
  "ph_attached (dispatchCallEvent e ph) = ph_attached ph"
  by (simp_all add: dispatchCallEvent_def answer_view_def)

lemma stage_view [simp]:
  "answer_view (reportAnswerStage k s r ph) = answer_view ph" "ph_incoming (reportAnswerStage k s r ph) = ph_incoming ph"
  "ph_active (reportAnswerStage k s r ph) = ph_active ph"
  by (simp_all add: reportAnswerStage_def)

lemma setters_view [simp]:
  "answer_view (ph\<lparr>ph_active_id := a\<rparr>) = answer_view ph" "answer_view (ph\<lparr>ph_active := b\<rparr>) = answer_view ph"
  "answer_view (ph\<lparr>ph_incoming := b\<rparr>) = answer_view ph" "answer_view (ph\<lparr>ph_caller := c\<rparr>) = answer_view ph"
  "answer_view (ph\<lparr>ph_elsewhere := d\<rparr>) = answer_view ph" "answer_view (ph\<lparr>ph_attached := c\<rparr>) = answer_view ph"
  "answer_view (ph\<lparr>ph_connected_at := t\<rparr>) = answer_view ph" "answer_view (ph\<lparr>ph_lost := c\<rparr>) = answer_view ph"
  "answer_view (ph\<lparr>ph_placing := g\<rparr>) = answer_view ph" "answer_view (ph\<lparr>ph_releasing := ms\<rparr>) = answer_view ph"
  by (simp_all add: answer_view_def)

lemma ui_view [simp]:
  "answer_view (endCall k ph) = answer_view ph" "ph_incoming (endCall k ph) = ph_incoming ph"
  "ph_active (endCall k ph) = ph_active ph" "ph_active_id (endCall k ph) = ph_active_id ph"
  "ph_elsewhere (endCall k ph) = ph_elsewhere ph" "ph_attached (endCall k ph) = ph_attached ph"
  "answer_view (forget_ui k ph) = answer_view ph" "ph_incoming (forget_ui k ph) = ph_incoming ph"
  "ph_active (forget_ui k ph) = ph_active ph" "ph_active_id (forget_ui k ph) = ph_active_id ph"
  "ph_elsewhere (forget_ui k ph) = ph_elsewhere ph" "ph_attached (forget_ui k ph) = ph_attached ph"
  "answer_view (clearDisplayedCall k ph) = answer_view ph" "ph_incoming (clearDisplayedCall k ph) = ph_incoming ph"
  "answer_view (showIncomingCallUi c ph) = answer_view ph" "ph_incoming (showIncomingCallUi c ph) = ph_incoming ph"
  by (simp_all add: endCall_def forget_ui_def clearDisplayedCall_def showIncomingCallUi_def answer_view_def fx_def
    split: option.split)

lemma ui_fields [simp]:
  "ph_pending (showIncomingCallUi c ph) = ph_pending ph" "ph_replayed (showIncomingCallUi c ph) = ph_replayed ph"
  "ph_in_flight (showIncomingCallUi c ph) = ph_in_flight ph" "ph_answered (showIncomingCallUi c ph) = ph_answered ph"
  "ph_waiting (showIncomingCallUi c ph) = ph_waiting ph" "ph_pending (endCall k ph) = ph_pending ph"
  by (simp_all add: showIncomingCallUi_def endCall_def fx_def split: option.split)

lemma call_over_view [simp]: "answer_view (call_over ph) = answer_view ph" "ph_incoming (call_over ph) = None"
  "ph_fx (call_over ph) = ph_fx ph" "ph_active_id (call_over ph) = None"
  by (simp_all add: call_over_def)

lemma end_view [simp]: "answer_view (endActiveCall nw m r ph) = answer_view ph" "ph_incoming (endActiveCall nw m r ph) = None"
  "ph_active_id (endActiveCall nw m r ph) = None"
  by (simp_all add: endActiveCall_def Let_def)

text \<open>Requests to accept, and that effects are only appended.\<close>

definition accepts :: "phone \<Rightarrow> string list" where
  "accepts ph = List.map_filter (\<lambda>e. case e of Fx_Accept k \<Rightarrow> Some k | _ \<Rightarrow> None) (ph_fx ph)"

lemma accepts_fx [simp]: "accepts (fx e ph) = accepts ph @ (case e of Fx_Accept k \<Rightarrow> [k] | _ \<Rightarrow> [])"
  by (cases e) (simp_all add: accepts_def map_filter_def)

lemma accepts_cong: "ph_fx a = ph_fx b \<Longrightarrow> accepts a = accepts b"
  by (simp add: accepts_def)

lemma accepts_kept [simp]:
  "accepts (dispatchCallEvent e ph) = accepts ph" "accepts (call_over ph) = accepts ph"
  "accepts (ph\<lparr>ph_pending := p\<rparr>) = accepts ph" "accepts (ph\<lparr>ph_active_id := p\<rparr>) = accepts ph"
  "accepts (ph\<lparr>ph_active := b\<rparr>) = accepts ph" "accepts (ph\<lparr>ph_incoming := b\<rparr>) = accepts ph"
  "accepts (ph\<lparr>ph_caller := c\<rparr>) = accepts ph" "accepts (ph\<lparr>ph_elsewhere := d\<rparr>) = accepts ph"
  "accepts (ph\<lparr>ph_attached := c\<rparr>) = accepts ph" "accepts (ph\<lparr>ph_connected_at := t\<rparr>) = accepts ph"
  "accepts (ph\<lparr>ph_in_flight := p\<rparr>) = accepts ph" "accepts (ph\<lparr>ph_waiting := w\<rparr>) = accepts ph"
  "accepts (ph\<lparr>ph_replayed := xs\<rparr>) = accepts ph" "accepts (ph\<lparr>ph_answered := xs\<rparr>) = accepts ph"
  "accepts (ph\<lparr>ph_placing := g\<rparr>) = accepts ph" "accepts (ph\<lparr>ph_releasing := ms\<rparr>) = accepts ph"
  by (simp_all add: accepts_def)

lemma accepts_stage [simp]: "accepts (reportAnswerStage k s r ph) = accepts ph"
  by (simp add: reportAnswerStage_def)

lemma accepts_ui [simp]:
  "accepts (endCall k ph) = accepts ph" "accepts (forget_ui k ph) = accepts ph"
  "accepts (clearDisplayedCall k ph) = accepts ph" "accepts (showIncomingCallUi c ph) = accepts ph"
  by (simp_all add: accepts_def endCall_def forget_ui_def clearDisplayedCall_def showIncomingCallUi_def fx_def map_filter_def
    split: option.split)

lemma accepts_end [simp]: "accepts (endActiveCall nw m r ph) = accepts ph"
  by (simp add: endActiveCall_def Let_def)

lemma accepts_clear [simp]: "accepts (clearPendingAnswer k ph) = accepts ph"
  by (simp add: clearPendingAnswer_def)

lemma accepts_dismiss [simp]: "accepts (dismissIncomingCallElsewhere k ph) = accepts ph"
  by (simp add: dismissIncomingCallElsewhere_def Let_def)

lemma clear_view:
  "answer_view (clearPendingAnswer k ph) =
     (if str_truthy (ph_pending ph) \<and> (\<not> str_truthy k \<or> ph_pending ph = k) then None else ph_pending ph,
      snd (answer_view ph))"
  by (simp add: clearPendingAnswer_def answer_view_def)

lemma clear_fields [simp]:
  "ph_incoming (clearPendingAnswer k ph) = ph_incoming ph" "ph_active (clearPendingAnswer k ph) = ph_active ph"
  "ph_elsewhere (clearPendingAnswer k ph) = ph_elsewhere ph" "ph_active_id (clearPendingAnswer k ph) = ph_active_id ph"
  by (simp_all add: clearPendingAnswer_def)

text \<open>A display takes no answer but that of an earlier call of the same caller.\<close>

lemma dismiss_stale_frame:
  "accepts (dismissStaleCallsFromCaller k caller ph) = accepts ph"
  "snd (answer_view (dismissStaleCallsFromCaller k caller ph)) = snd (answer_view ph)"
  "ph_incoming (dismissStaleCallsFromCaller k caller ph) = ph_incoming ph"
proof -
  let ?f = "\<lambda>(j, x) p. if j = k \<or> x \<noteq> caller then p else clearPendingAnswer (Some j) (endCall j p)"
  have "accepts (fold ?f xs p) = accepts p \<and> snd (answer_view (fold ?f xs p)) = snd (answer_view p) \<and>
      ph_incoming (fold ?f xs p) = ph_incoming p" for xs p
    by (induction xs arbitrary: p) (auto simp: clear_view)
  then show "accepts (dismissStaleCallsFromCaller k caller ph) = accepts ph"
    "snd (answer_view (dismissStaleCallsFromCaller k caller ph)) = snd (answer_view ph)"
    "ph_incoming (dismissStaleCallsFromCaller k caller ph) = ph_incoming ph"
    by (simp_all add: dismissStaleCallsFromCaller_def)
qed

lemma dismiss_stale_pending:
  assumes "\<forall>(i, x) \<in> set (ph_displayed ph). i \<noteq> [] \<and> (i = j \<longrightarrow> i \<noteq> k \<longrightarrow> x \<noteq> caller)" and "ph_pending ph = Some j"
  shows "ph_pending (dismissStaleCallsFromCaller k caller ph) = Some j"
proof -
  let ?f = "\<lambda>(i, x) p. if i = k \<or> x \<noteq> caller then p else clearPendingAnswer (Some i) (endCall i p)"
  have pending: "ph_pending (endCall i p) = ph_pending p" for i p by (simp add: endCall_def fx_def)
  have "ph_pending p = Some j \<Longrightarrow> \<forall>(i, x) \<in> set xs. i \<noteq> [] \<and> (i = j \<longrightarrow> i \<noteq> k \<longrightarrow> x \<noteq> caller) \<Longrightarrow>
      ph_pending (fold ?f xs p) = Some j" for xs p
  proof (induction xs arbitrary: p)
    case (Cons y ys)
    obtain i x where y: "y = (i, x)" by (cases y)
    have "ph_pending (?f y p) = Some j" using Cons.prems by (auto simp: y clearPendingAnswer_def pending)
    with Cons show ?case by simp
  qed simp
  then show ?thesis using assms by (auto simp: dismissStaleCallsFromCaller_def)
qed

section \<open>A queued answer\<close>

text \<open>The answer of \<open>k\<close> waits for a call that the device does not know yet and has not answered.\<close>

definition queued :: "string \<Rightarrow> phone \<Rightarrow> bool" where
  "queued k ph \<longleftrightarrow>
     ph_pending ph = Some k \<and> incoming_id ph \<noteq> Some k \<and> ph_in_flight ph \<noteq> Some k \<and> k \<notin> set (ph_replayed ph) \<and>
     k \<notin> set (ph_answered ph) \<and> (\<forall>c \<in> set (ph_waiting ph). str_truthy (cl_id c) \<and> cl_id c \<noteq> Some k)"

lemma queued_view:
  "answer_view ph' = answer_view ph \<Longrightarrow> incoming_id ph' = incoming_id ph \<or> ph_incoming ph' = None \<Longrightarrow> queued k ph \<Longrightarrow> queued k ph'"
  by (auto simp: queued_def answer_view_eq incoming_id_def)

lemma queued_clear: "queued k ph \<Longrightarrow> str_truthy j \<Longrightarrow> j \<noteq> Some k \<Longrightarrow> clearPendingAnswer j ph = ph"
  by (auto simp: queued_def clearPendingAnswer_def)

lemma queued_accept:
  assumes "queued k ph"
  shows "queued k (acceptIncomingCall ph)"
proof (cases "str_truthy (incoming_id ph)")
  case False
  then show ?thesis by (simp add: acceptIncomingCall_def queued_view [OF _ _ assms] incoming_id_def)
next
  case True
  obtain c j where c: "ph_incoming ph = Some c" "cl_id c = Some j" and j: "j \<noteq> []"
    using True by (auto simp: incoming_id_def str_truthy_iff split: bind_splits)
  have other: "j \<noteq> k" using assms c by (simp add: queued_def incoming_id_def)
  have clear: "clearPendingAnswer (Some j) (reportAnswerStage s st r ph) = reportAnswerStage s st r ph" for s st r
    using queued_view [OF _ _ assms, of "reportAnswerStage s st r ph"] other j
    by (intro queued_clear) (simp_all add: incoming_id_def)
  show ?thesis
  proof (cases "decideAcceptIncomingCall j (cl_status c) (ph_in_flight ph) (ph_answered ph)")
    case Do_Accept
    then show ?thesis using assms other j
      by (auto simp: acceptIncomingCall_def incoming_id_def c queued_def reportAnswerStage_def fx_def)
  qed (simp_all add: acceptIncomingCall_def incoming_id_def c j clear queued_view [OF _ _ assms])
qed

lemma queued_dismiss: "queued k ph \<Longrightarrow> j \<noteq> [] \<Longrightarrow> j \<noteq> k \<Longrightarrow> queued k (dismissIncomingCallElsewhere j ph)"
  unfolding dismissIncomingCallElsewhere_def Let_def
  by (simp add: queued_clear) (erule queued_view [rotated 2]; simp add: incoming_id_def)

lemma queued_end: "queued k ph \<Longrightarrow> queued k (endActiveCall nw m r ph)"
  by (erule queued_view [rotated 2]) simp_all

lemma queued_fx [simp]: "queued k (fx e ph) = queued k ph"
  by (simp add: queued_def fx_def incoming_id_def)

lemma queued_ui [simp]:
  "queued k (endCall j ph) = queued k ph" "queued k (forget_ui j ph) = queued k ph"
  "queued k (clearDisplayedCall j ph) = queued k ph"
  by (simp_all add: queued_def incoming_id_def endCall_def forget_ui_def clearDisplayedCall_def fx_def)

lemma queued_kept [simp]:
  "queued k (ph\<lparr>ph_placing := g\<rparr>) = queued k ph" "queued k (ph\<lparr>ph_releasing := ms\<rparr>) = queued k ph"
  "queued k (reportAnswerStage j st r ph) = queued k ph"
  by (simp_all add: queued_def incoming_id_def reportAnswerStage_def fx_def)

lemma queued_show:
  assumes "queued k ph" and "cl_id c \<noteq> Some k"
  shows "queued k (show_incoming c ph)"
proof -
  let ?ph = "showIncomingCallUi c (dispatchCallEvent E_Receive (ph\<lparr>ph_incoming := Some c\<rparr>))"
  have "queued k (dispatchCallEvent E_Receive (ph\<lparr>ph_incoming := Some c\<rparr>))"
    using assms by (simp add: queued_def incoming_id_def dispatchCallEvent_def)
  then have q: "queued k ?ph" by (rule queued_view [rotated 2]) (simp_all add: incoming_id_def)
  have "replay_answer ?ph = ?ph"
    using q by (auto simp: replay_answer_def queued_def consumePendingAnswer_def split: option.split)
  then show ?thesis using q by (simp add: show_incoming_def)
qed

lemma queued_answered:
  assumes q: "queued k ph" and c: "c \<in> set (ph_waiting ph)"
  shows "queued k (accept_answered nw c r ph)"
proof -
  obtain j where j: "cl_id c = Some j" "j \<noteq> []" "j \<noteq> k" using q c by (auto simp: queued_def str_truthy_iff)
  let ?ph = "ph\<lparr>ph_waiting := remove1 c (ph_waiting ph)\<rparr>"
  have rest: "queued k ?ph" using q set_remove1_subset [of c "ph_waiting ph"] by (auto simp: queued_def incoming_id_def)
  have settle: "queued k p \<Longrightarrow> queued k (if ph_in_flight p = Some j then p\<lparr>ph_in_flight := None\<rparr> else p)" for p
    by (simp add: queued_def incoming_id_def)
  have stage: "queued k (reportAnswerStage (Some j) st rs ?ph)" for st rs
    by (rule queued_view [OF _ _ rest]) (simp_all add: incoming_id_def)
  show ?thesis
  proof (cases r)
    case (Inr accepted)
    have "k \<notin> set (rememberAnsweredCallId (ph_answered ph) j)"
      using q j(3) by (auto simp: queued_def rememberAnsweredCallId_def dest: list.set_sel(2) [rotated] split: list.splits)
    then have "queued k (?ph\<lparr>ph_answered := rememberAnsweredCallId (ph_answered ?ph) j,
        ph_active := Some (case accepted of Some x \<Rightarrow> x | None \<Rightarrow> c), ph_incoming := None\<rparr>)"
      using rest by (simp add: queued_def incoming_id_def)
    then show ?thesis unfolding accept_answered_def Let_def j option.sel
      by (intro settle) (simp add: Inr queued_clear j)
  next
    case (Inl e)
    obtain elsewhere reason where e: "e = Accept_Error elsewhere reason" by (cases e)
    have "queued k ((reportAnswerStage (Some j) ''answer_failed'' (Some reason) ?ph)\<lparr>ph_active_id := None\<rparr>)"
      by (rule queued_view [OF _ _ stage]) (simp_all add: incoming_id_def)
    then show ?thesis unfolding accept_answered_def Let_def j option.sel
      by (intro settle) (simp add: Inl e queued_clear [OF stage] j queued_dismiss queued_end rest)
  qed
qed

lemma queued_decline_id: "queued k ph \<Longrightarrow> j = [] \<or> j \<noteq> k \<Longrightarrow> queued k (declineCallById j ph)"
  by (auto simp: declineCallById_def queued_clear)

lemma queued_decline:
  assumes "queued k ph"
  shows "queued k (declineIncomingCall ph)"
  using assms queued_decline_id [OF assms]
  by (auto simp: declineIncomingCall_def await_release_def queued_def [of k ph] incoming_id_def split: option.split)

lemma queued_attach:
  assumes q: "queued k ph" and "k \<noteq> []"
  shows "queued k (setCallActionHandlers ph)"
  using assms
  by (auto simp: setCallActionHandlers_def consumePendingAnswer_def queued_def onAnswer_def incoming_id_def
    queueAnswerForReplay_def recordPendingAnswer_def)

text \<open>Transitions: the call of the event is not \<open>k\<close>, or goes on.\<close>

lemma queued_foreign:
  assumes q: "queued k ph"
  shows "queued k (snd (consumeForeignDeviceCallEvent c ev known ph))"
proof -
  have same: "queued k (ph\<lparr>ph_elsewhere := e\<rparr>)" for e by (rule queued_view [OF _ _ q]) (simp_all add: incoming_id_def)
  have id: "incoming_id (ph\<lparr>ph_elsewhere := e\<rparr>) = incoming_id ph" for e by (simp add: incoming_id_def)
  obtain owned el where v: "evaluateCallOnAnotherDevice c (ph_user ph) (ph_device ph) = (owned, el)" by (rule prod.exhaust)
  show ?thesis
  proof (cases el)
    case None
    then show ?thesis using same q by (simp add: consumeForeignDeviceCallEvent_def v)
  next
    case (Some e)
    have "el_call e \<noteq> []"
      using v Some by (auto simp: evaluateCallOnAnotherDevice_def Let_def str_truthy_iff split: option.splits if_splits)
    moreover have "incoming_id ph = Some (el_call e) \<Longrightarrow> el_call e \<noteq> k" using q by (auto simp: queued_def)
    ultimately show ?thesis using same
      by (simp add: consumeForeignDeviceCallEvent_def v Some Let_def id queued_dismiss)
  qed
qed

lemma queued_state_change: "queued k ph \<Longrightarrow> queued k (state_change nw status c reason ev known ph)"
proof -
  assume q: "queued k ph"
  let ?ph = "if status = ''busy'' \<and> shouldReportEmptyCallState ev (ph_active_id ph) (incoming_id ph)
             then fx (Fx_Report []) ph else ph"
  obtain consumed ph2 where f: "consumeForeignDeviceCallEvent c ev known ?ph = (consumed, ph2)" by (rule prod.exhaust)
  have "queued k ?ph" using q by simp
  from queued_foreign [OF this, of c ev known] have q2: "queued k ph2" by (simp add: f)
  have kept: "queued k (ph2\<lparr>ph_active := a, ph_active_id := i\<rparr>)" "queued k (ph2\<lparr>ph_active := a\<rparr>)"
    "queued k (ph2\<lparr>ph_active_id := i\<rparr>)" for a i
    by (rule queued_view [OF _ _ q2]; simp add: incoming_id_def)+
  show ?thesis unfolding state_change_def Let_def f
    using q2 kept by (cases consumed) (auto intro: queued_end split: option.split)
qed

section \<open>The callers of displayed calls\<close>

text \<open>Displayed calls have an id; if \<open>k\<close> is displayed with a caller, the caller is \<open>p\<close>.\<close>

definition from_caller :: "string \<Rightarrow> string \<Rightarrow> phone \<Rightarrow> bool" where
  "from_caller k p ph \<longleftrightarrow> (\<forall>(j, x) \<in> set (ph_displayed ph). j \<noteq> [] \<and> (j = k \<longrightarrow> x = None \<or> x = Some p))"

lemma caller_same: "ph_displayed a = ph_displayed b \<Longrightarrow> from_caller k p a = from_caller k p b"
  by (simp add: from_caller_def)

lemma set_delete: "set (AList.delete j xs) = {x \<in> set xs. fst x \<noteq> j}"
  by (auto simp: AList.delete_eq)

lemma set_update: "set (AList.update j y xs) \<subseteq> insert (j, y) (set xs)"
  by (induction xs) auto

lemma caller_kept [simp]:
  "from_caller k p (fx e ph) = from_caller k p ph" "from_caller k p (dispatchCallEvent ev ph) = from_caller k p ph"
  "from_caller k p (reportAnswerStage rk st rs ph) = from_caller k p ph" "from_caller k p (forget_ui j ph) = from_caller k p ph"
  "from_caller k p (showIncomingCallUi c ph) = from_caller k p ph" "from_caller k p (clearPendingAnswer q ph) = from_caller k p ph"
  "from_caller k p (call_over ph) = from_caller k p ph"
  by (rule caller_same; simp add: fx_def dispatchCallEvent_def reportAnswerStage_def forget_ui_def showIncomingCallUi_def
    clearPendingAnswer_def call_over_def split: option.split)+

lemma caller_fields [simp]:
  "from_caller k p (ph\<lparr>ph_pending := a\<rparr>) = from_caller k p ph" "from_caller k p (ph\<lparr>ph_active_id := a\<rparr>) = from_caller k p ph"
  "from_caller k p (ph\<lparr>ph_active := b\<rparr>) = from_caller k p ph" "from_caller k p (ph\<lparr>ph_incoming := b\<rparr>) = from_caller k p ph"
  "from_caller k p (ph\<lparr>ph_caller := c\<rparr>) = from_caller k p ph" "from_caller k p (ph\<lparr>ph_elsewhere := d\<rparr>) = from_caller k p ph"
  "from_caller k p (ph\<lparr>ph_attached := c\<rparr>) = from_caller k p ph" "from_caller k p (ph\<lparr>ph_connected_at := t\<rparr>) = from_caller k p ph"
  "from_caller k p (ph\<lparr>ph_in_flight := a\<rparr>) = from_caller k p ph" "from_caller k p (ph\<lparr>ph_waiting := w\<rparr>) = from_caller k p ph"
  "from_caller k p (ph\<lparr>ph_replayed := xs\<rparr>) = from_caller k p ph" "from_caller k p (ph\<lparr>ph_answered := xs\<rparr>) = from_caller k p ph"
  "from_caller k p (ph\<lparr>ph_placing := g\<rparr>) = from_caller k p ph" "from_caller k p (ph\<lparr>ph_releasing := ms\<rparr>) = from_caller k p ph"
  "from_caller k p (ph\<lparr>ph_ui_waiting := w\<rparr>) = from_caller k p ph" "from_caller k p (ph\<lparr>ph_lost := c\<rparr>) = from_caller k p ph"
  by (rule caller_same; simp)+

lemma caller_removed [simp]:
  "from_caller k p ph \<Longrightarrow> from_caller k p (endCall j ph)" "from_caller k p ph \<Longrightarrow> from_caller k p (clearDisplayedCall j ph)"
  by (auto simp: from_caller_def endCall_def clearDisplayedCall_def fx_def set_delete)

lemma caller_ended [simp]:
  "from_caller k p ph \<Longrightarrow> from_caller k p (endActiveCall nw m r ph)"
  "from_caller k p ph \<Longrightarrow> from_caller k p (dismissIncomingCallElsewhere j ph)"
  by (simp_all add: endActiveCall_def dismissIncomingCallElsewhere_def Let_def)

lemma caller_accept [simp]: "from_caller k p ph \<Longrightarrow> from_caller k p (acceptIncomingCall ph)"
  by (simp add: acceptIncomingCall_def Let_def split: accept_decision.split)

lemma caller_shown [simp]: "from_caller k p ph \<Longrightarrow> from_caller k p (show_incoming c ph)"
  by (auto simp: show_incoming_def replay_answer_def consumePendingAnswer_def split: option.split)

lemma caller_answer [simp]: "from_caller k p ph \<Longrightarrow> from_caller k p (onAnswer j ph)"
  by (simp add: onAnswer_def queueAnswerForReplay_def recordPendingAnswer_def)

lemma caller_decline [simp]:
  "from_caller k p ph \<Longrightarrow> from_caller k p (declineCallById j ph)" "from_caller k p ph \<Longrightarrow> from_caller k p (declineIncomingCall ph)"
  by (simp_all add: declineIncomingCall_def declineCallById_def await_release_def split: option.split)

lemma caller_attach [simp]: "from_caller k p ph \<Longrightarrow> from_caller k p (setCallActionHandlers ph)"
  by (auto simp: setCallActionHandlers_def consumePendingAnswer_def Let_def split: option.split)

lemma caller_answered [simp]: "from_caller k p ph \<Longrightarrow> from_caller k p (accept_answered nw c r ph)"
  by (auto simp: accept_answered_def Let_def split: sum.split accept_error.split)

lemma caller_foreign: "from_caller k p ph \<Longrightarrow> from_caller k p (snd (consumeForeignDeviceCallEvent c ev known ph))"
  by (simp add: consumeForeignDeviceCallEvent_def Let_def split: prod.split option.split)

lemma caller_state_change [simp]: "from_caller k p ph \<Longrightarrow> from_caller k p (state_change nw s c r ev known ph)"
proof -
  assume q: "from_caller k p ph"
  let ?ph = "if s = ''busy'' \<and> shouldReportEmptyCallState ev (ph_active_id ph) (incoming_id ph)
             then fx (Fx_Report []) ph else ph"
  obtain consumed ph2 where f: "consumeForeignDeviceCallEvent c ev known ?ph = (consumed, ph2)" by (rule prod.exhaust)
  have "from_caller k p ph2" using caller_foreign [of k p ?ph c ev known] q by (simp add: f)
  then show ?thesis unfolding state_change_def Let_def f by (cases consumed) (auto split: option.split)
qed

lemma caller_looked_up [simp]: "from_caller k p ph \<Longrightarrow> from_caller k p (answer_looked_up j outcome c ph)"
  by (simp add: answer_looked_up_def rehydrateCallFromPush_def Let_def split: replay.split rehydration.split option.split)

lemma caller_placed [simp]:
  "from_caller k p ph \<Longrightarrow> from_caller k p (placeCall explicit typed ph)"
  "from_caller k p ph \<Longrightarrow> from_caller k p (place_prepared nw outcome ph)"
  "from_caller k p ph \<Longrightarrow> from_caller k p (place_answered nw r ph)"
  by (simp_all add: placeCall_def place_prepared_def place_answered_def request_refused_def request_accepted_def
    placement_failed_def Let_def split: option.split sum.split placing.split preparation.split)

lemma caller_dismiss_stale: "from_caller k p ph \<Longrightarrow> from_caller k p (dismissStaleCallsFromCaller j caller ph)"
proof -
  let ?f = "\<lambda>(i, x) p. if i = j \<or> x \<noteq> caller then p else clearPendingAnswer (Some i) (endCall i p)"
  have "from_caller k p q \<Longrightarrow> from_caller k p (fold ?f xs q)" for xs q
    by (induction xs arbitrary: q) auto
  then show "from_caller k p ph \<Longrightarrow> ?thesis" by (simp add: dismissStaleCallsFromCaller_def)
qed

text \<open>A displayed call other than \<open>k\<close> has another caller; \<open>k\<close> itself has the caller \<open>p\<close>, if any is told.\<close>

definition other_caller :: "string \<Rightarrow> string \<Rightarrow> string \<Rightarrow> string option \<Rightarrow> bool" where
  "other_caller k p j caller = (if j = k then caller = None \<or> caller = Some p else caller \<noteq> Some p)"

lemma caller_display:
  assumes "from_caller k p ph" and "other_caller k p j caller"
  shows "from_caller k p (displayIncomingCall j caller outcome ph)"
proof -
  let ?ph = "dismissStaleCallsFromCaller j caller ph"
  have "from_caller k p ?ph" by (rule caller_dismiss_stale [OF assms(1)])
  moreover from this have "from_caller k p (?ph\<lparr>ph_displayed := AList.update j caller (ph_displayed ?ph)\<rparr>)"
    if "j \<noteq> []"
    using assms(2) that set_update [of j caller "ph_displayed ?ph"]
    by (fastforce simp: from_caller_def other_caller_def split: if_splits)
  ultimately show ?thesis using assms(1)
    by (cases outcome) (simp_all add: displayIncomingCall_def Let_def)
qed

lemma queued_display:
  assumes q: "queued k ph" and "from_caller k p ph" and "other_caller k p j caller"
  shows "queued k (displayIncomingCall j caller outcome ph)"
proof -
  let ?ph = "dismissStaleCallsFromCaller j caller ph"
  have "ph_pending ?ph = Some k"
  proof (cases "str_truthy caller")
    case True
    then show ?thesis using assms
      by (intro dismiss_stale_pending) (auto simp: from_caller_def other_caller_def queued_def str_truthy_iff split: if_splits)
  next
    case False
    then show ?thesis using q by (simp add: dismissStaleCallsFromCaller_def queued_def)
  qed
  then have "answer_view ?ph = answer_view ph"
    using dismiss_stale_frame(2) [of j caller ph] q by (simp add: answer_view_def queued_def)
  then have "queued k ?ph" by (rule queued_view [OF _ _ q]) (simp add: incoming_id_def dismiss_stale_frame)
  moreover from this have "queued k (?ph\<lparr>ph_displayed := d\<rparr>)" for d by (simp add: queued_def incoming_id_def)
  ultimately show ?thesis using q by (cases outcome) (simp_all add: displayIncomingCall_def Let_def)
qed

text \<open>
  Events that leave the queued answer of \<open>k\<close>, a call of \<open>p\<close>, alone: whatever concerns another call, unless it answers it
  or shows a call of the same caller on the system call screen; and of the call itself all but its end, its
  appearance, and a look-up that fails, or finds it gone or out of reach.
\<close>

fun harmless :: "string \<Rightarrow> string \<Rightarrow> phone_event \<Rightarrow> bool" where
  "harmless k p (Ev_Incoming c) = (cl_id c \<noteq> Some k)"
| "harmless k p (Ev_Profile c outcome) = (cl_id c = Some k \<or> (\<exists>j. cl_id c = Some j \<and> other_caller k p j (cl_caller c)))"
| "harmless k p (Ev_Push_Call j caller outcome) = other_caller k p j caller"
| "harmless k p (Ev_Push_Cancelled j) = (j \<noteq> k)"
| "harmless k p (Ev_State_Changed nw s c r) = (Option.bind c cl_id \<noteq> Some k \<or> \<not> isTerminalCallStatus (Some s))"
| "harmless k p (Ev_System_Answer j) = (j = k)"
| "harmless k p (Ev_System_End j) = (j \<noteq> [] \<and> j \<noteq> k)"
| "harmless k p (Ev_Persisted accepting live j) = (if accepting then j = k else j \<noteq> k)"
| "harmless k p (Ev_Lookup_Failed j reason) = (j \<noteq> [] \<and> j \<noteq> k)"
| "harmless k p (Ev_Looked_Up j outcome c) =
     (if j = k then outcome = R_Deferred else Option.bind c cl_id \<noteq> Some k)"
| "harmless k p _ = True"

lemma queued_looked_up:
  assumes q: "queued k ph" and ok: "harmless k p (Ev_Looked_Up j outcome c)"
  shows "queued k (answer_looked_up j outcome c ph)"
proof -
  let ?ph = "rehydrateCallFromPush outcome c ph"
  have "queued k ?ph"
    using q ok by (auto simp: rehydrateCallFromPush_def intro: queued_show split: rehydration.split option.split if_splits)
  moreover from this have "decideQueuedAnswerReplay (Some outcome) j (ph_pending ?ph) (incoming_id ?ph) \<in> {Replay_Wait, Replay_Ignore}"
    using ok by (auto simp: queued_def decideQueuedAnswerReplay_def split: if_splits)
  ultimately show ?thesis by (auto simp: answer_looked_up_def Let_def)
qed

lemma queued_step:
  assumes q: "queued k ph" and k: "k \<noteq> []" and ok: "harmless k p ev" and p: "from_caller k p ph"
  shows "queued k (phone_step ev ph)"
proof (cases ev)
  case (Ev_Profile c outcome)
  let ?ph = "ph\<lparr>ph_ui_waiting := remove1 c (ph_ui_waiting ph)\<rparr>"
  have "queued k ?ph" using q by (simp add: queued_def incoming_id_def)
  moreover have "cl_id c \<noteq> Some k" if "incoming_id ?ph = cl_id c" using that q by (auto simp: queued_def incoming_id_def)
  ultimately show ?thesis using q ok queued_display [of k ?ph p] p
    by (auto simp: Ev_Profile profile_fetched_def Let_def)
next
  case (Ev_Push_Call j caller outcome)
  then show ?thesis using ok queued_display [OF q p] by simp
next
  case (Ev_Push_Cancelled j)
  then show ?thesis using ok q queued_clear [OF q, of "Some j"] by (auto simp: handleCallCancelledPush_def)
next
  case (Ev_Incoming c)
  then show ?thesis using ok q
    by (auto simp: on_call_incoming_def intro: queued_show split: option.split)
next
  case (Ev_State_Changed nw s c r)
  let ?ev = "Option.bind c cl_id"
  have "str_truthy ?ev \<Longrightarrow> isTerminalCallStatus (Some s) \<Longrightarrow> clearPendingAnswer ?ev ph = ph"
    using ok Ev_State_Changed by (intro queued_clear [OF q]) auto
  then show ?thesis using q by (simp add: Ev_State_Changed on_state_changed_def Let_def queued_state_change)
next
  case (Ev_Accept_Answered nw c r)
  then show ?thesis using q by (simp add: queued_answered)
next
  case (Ev_System_Answer j)
  then show ?thesis using ok q k
    by (auto simp: answerHandler_def onAnswer_def queueAnswerForReplay_def recordPendingAnswer_def queued_def incoming_id_def)
next
  case (Ev_System_End j)
  then have "clearPendingAnswer (Some j) ph = ph" "ph_pending ph \<noteq> Some j"
    using ok queued_clear [OF q, of "Some j"] q by (auto simp: queued_def)
  then show ?thesis using q by (simp add: Ev_System_End endHandler_def onEnd_def Let_def queued_decline)
next
  case (Ev_Looked_Up j outcome c)
  then show ?thesis using ok q by (simp add: queued_looked_up)
next
  case (Ev_Persisted accepting live j)
  have again: "queued k (queueAnswerForReplay k p)" if "queued k p" for p
    using that k by (simp add: queueAnswerForReplay_def recordPendingAnswer_def queued_def incoming_id_def)
  show ?thesis using ok q k
    by (cases accepting) (simp_all add: Ev_Persisted persisted_action_def Let_def again queued_decline_id)
next
  case (Ev_Lookup_Failed j reason)
  then show ?thesis using ok q queued_clear [of k _ "Some j"] by (auto simp: answer_lookup_failed_def)
next
  case (Ev_Released nw m)
  then show ?thesis using q by (simp add: release_answered_def queued_end)
next
  case (Ev_Place explicit typed)
  then show ?thesis using q by (simp add: placeCall_def split: option.split sum.split)
next
  case (Ev_Place_Prepared nw outcome)
  then show ?thesis using q
    by (simp add: place_prepared_def placement_failed_def queued_end split: placing.split preparation.split)
next
  case (Ev_Place_Answered nw r)
  have kept: "queued k (dispatchCallEvent E_Place (ph\<lparr>ph_caller := True, ph_active_id := i, ph_active := a\<rparr>))" for i a
    by (rule queued_view [OF _ _ q]) (simp_all add: incoming_id_def)
  then show ?thesis using q
    by (simp add: Ev_Place_Answered place_answered_def request_refused_def request_accepted_def placement_failed_def Let_def
      queued_end split: placing.split sum.split option.split)
next
  case (Ev_Resync_Answered nw ack)
  then show ?thesis using q by (simp add: resync_answered_def queued_end split: option.split)
qed (use q k in \<open>auto simp: on_call_ringing_def detach_handlers_def cancelOutgoingCall_def handleEndCall_def release_current_def releaseCallOnServer_def
  await_release_def resyncCallState_def
  markCallConnected_def screen_acknowledged_def queued_accept queued_decline queued_attach
  intro: queued_end queued_view [OF _ _ q] simp: incoming_id_def\<close>)

lemma caller_step:
  assumes p: "from_caller k p ph" and ok: "harmless k p ev" and q: "queued k ph"
  shows "from_caller k p (phone_step ev ph)"
proof (cases ev)
  case (Ev_Profile c outcome)
  let ?ph = "ph\<lparr>ph_ui_waiting := remove1 c (ph_ui_waiting ph)\<rparr>"
  have "cl_id c \<noteq> Some k" if "incoming_id ?ph = cl_id c" using that q by (auto simp: queued_def incoming_id_def)
  then show ?thesis using p ok caller_display [of k p ?ph]
    by (auto simp: Ev_Profile profile_fetched_def Let_def)
next
  case (Ev_Push_Call j caller outcome)
  then show ?thesis using ok caller_display [OF p] by simp
qed (use p in \<open>auto simp: handleCallCancelledPush_def on_call_incoming_def on_call_ringing_def detach_handlers_def
  cancelOutgoingCall_def handleEndCall_def release_current_def releaseCallOnServer_def await_release_def resyncCallState_def
  markCallConnected_def screen_acknowledged_def on_state_changed_def Let_def release_answered_def answerHandler_def
  recordPendingAnswer_def endHandler_def onEnd_def persisted_action_def queueAnswerForReplay_def answer_lookup_failed_def
  resync_answered_def split: option.split\<close>)

lemma caller_tap: "from_caller k p ph \<Longrightarrow> from_caller k p (phone_step (Ev_System_Answer j) ph)"
  by (simp add: answerHandler_def recordPendingAnswer_def)

lemma queued_run:
  "queued k ph \<Longrightarrow> k \<noteq> [] \<Longrightarrow> list_all (harmless k p) evs \<Longrightarrow> from_caller k p ph \<Longrightarrow> queued k (run_phone evs ph)"
proof (induction evs arbitrary: ph)
  case (Cons ev evs)
  then have "harmless k p ev" by simp
  from Cons.IH [OF queued_step [OF Cons.prems(1,2) this Cons.prems(4)] Cons.prems(2) _ caller_step [OF Cons.prems(4) this Cons.prems(1)]]
    Cons.prems(3) show ?case by (simp add: run_phone_def)
qed (simp add: run_phone_def)

text \<open>The call appears, and it rings.\<close>

definition rings :: "string \<Rightarrow> client_call \<Rightarrow> bool" where
  "rings k c = (cl_id c = Some k \<and> (cl_status c = None \<or> cl_status c = Some [] \<or> cl_status c = Some ''ringing''))"

fun appears :: "string \<Rightarrow> phone_event \<Rightarrow> bool" where
  "appears k (Ev_Incoming c) = rings k c"
| "appears k (Ev_Looked_Up j R_Ringing (Some c)) = rings k c"
| "appears k _ = False"

lemma accept_ringing:
  assumes "ph_incoming ph = Some c" "rings k c" "k \<noteq> []" "ph_in_flight ph \<noteq> Some k" "k \<notin> set (ph_answered ph)"
  shows "accepts (acceptIncomingCall ph) = accepts ph @ [k]"
proof -
  have "decideAcceptIncomingCall k (cl_status c) (ph_in_flight ph) (ph_answered ph) = Do_Accept"
    using assms by (auto simp: decideAcceptIncomingCall_def rings_def)
  then show ?thesis using assms by (simp add: acceptIncomingCall_def incoming_id_def rings_def)
qed

lemma queued_shown:
  assumes "queued k ph" and "k \<noteq> []" "rings k c"
  shows "accepts (show_incoming c ph) = accepts ph @ [k] \<and> ph_pending (show_incoming c ph) = None"
proof -
  let ?ph = "showIncomingCallUi c (dispatchCallEvent E_Receive (ph\<lparr>ph_incoming := Some c\<rparr>))"
  let ?ph1 = "?ph\<lparr>ph_pending := None, ph_replayed := (if shouldResetReplayGuard (length (ph_replayed ph)) then [] else ph_replayed ph) @ [k]\<rparr>"
  have "show_incoming c ph = acceptIncomingCall ?ph1"
    using assms by (simp add: show_incoming_def replay_answer_def incoming_id_def rings_def queued_def
      consumePendingAnswer_def dispatchCallEvent_def)
  moreover have "accepts (acceptIncomingCall ?ph1) = accepts ?ph1 @ [k]"
    using assms by (intro accept_ringing) (simp_all add: queued_def dispatchCallEvent_def)
  moreover have "ph_pending (acceptIncomingCall ?ph1) = None"
    by (auto simp: acceptIncomingCall_def Let_def clearPendingAnswer_def reportAnswerStage_def fx_def split: accept_decision.split)
  ultimately show ?thesis by simp
qed

lemma queued_appears:
  assumes q: "queued k ph" and k: "k \<noteq> []" and ev: "appears k ev"
  shows "accepts (phone_step ev ph) = accepts ph @ [k]"
proof (cases ev)
  case (Ev_Incoming c)
  then have c: "rings k c" "cl_id c = Some k" using ev by (simp_all add: rings_def)
  have "queued k (fx e ph)" for e using q by simp
  then show ?thesis using queued_shown [OF _ k c(1)] by (simp add: Ev_Incoming on_call_incoming_def c(2))
next
  case (Ev_Looked_Up j outcome x)
  then obtain c where c: "outcome = R_Ringing" "x = Some c" "rings k c"
    using ev by (cases outcome; cases x) simp_all
  then show ?thesis using queued_shown [OF q k c(3)]
    by (simp add: Ev_Looked_Up answer_looked_up_def Let_def rehydrateCallFromPush_def decideQueuedAnswerReplay_def)
qed (use ev in simp_all)

text \<open>The device has neither answered the call nor begun to.\<close>

definition unanswered :: "string \<Rightarrow> phone \<Rightarrow> bool" where
  "unanswered k ph = queued k (ph\<lparr>ph_pending := Some k\<rparr>)"

lemma answer_queues: "unanswered k ph \<Longrightarrow> k \<noteq> [] \<Longrightarrow> queued k (phone_step (Ev_System_Answer k) ph)"
  by (auto simp: unanswered_def answerHandler_def onAnswer_def queueAnswerForReplay_def recordPendingAnswer_def
    queued_def incoming_id_def)

text \<open>
  C12. An answer is not lost: when the user answers a call the app does not know yet, from the system's call screen and
  possibly before the app has started, then the moment the call appears it is accepted, exactly once. In between
  anything may happen but what makes the code drop the answer: the call ends or is declined or cancelled, another call
  is answered, the look-up of the call fails or finds it gone or out of reach, or a call of the same caller is
  shown in its place.
\<close>

theorem queued_answer_replayed:
  assumes "unanswered k ph" and "k \<noteq> []" and "from_caller k p ph" and "list_all (harmless k p) evs" and "appears k ev"
  shows "accepts (run_phone (Ev_System_Answer k # evs @ [ev]) ph) =
    accepts (run_phone (Ev_System_Answer k # evs) ph) @ [k]"
proof -
  have "queued k (run_phone (Ev_System_Answer k # evs) ph)"
    using queued_run [OF answer_queues [OF assms(1,2)] assms(2,4) caller_tap [OF assms(3)]] by (simp add: run_phone_def)
  from queued_appears [OF this assms(2,5)] show ?thesis by (simp add: run_phone_def)
qed

text \<open>The app is started by the answer, another call comes and is declined, the look-up waits for the identity.\<close>

definition demo_ring :: "string \<Rightarrow> client_call" where
  "demo_ring k =
     \<lparr>cl_id = Some k, cl_status = Some ''ringing'', cl_caller = Some ''ann'', cl_callee = Some ''bob'',
      cl_caller_device = Some ''d1'', cl_callee_device = None, cl_end_reason = None\<rparr>"

definition demo_wait :: "phone_event list" where
  "demo_wait = [Ev_Push_Call ''k'' (Some ''ann'') Shown, Ev_Attach, Ev_Looked_Up ''k'' R_Deferred None,
     Ev_Incoming ((demo_ring ''j'')\<lparr>cl_caller := Some ''eve''\<rparr>),
     Ev_Profile ((demo_ring ''j'')\<lparr>cl_caller := Some ''eve''\<rparr>) Shown, Ev_Decline,
     Ev_Released 1000 (''Call declined'', ''declined'')]"

theorem queued_answer_replayed_witness:
  "accepts (run_phone (Ev_System_Answer ''k'' # demo_wait @ [Ev_Incoming (demo_ring ''k'')]) (fresh_phone ''bob'' ''d2'')) = [''k'']"
proof -
  have "unanswered ''k'' (fresh_phone ''bob'' ''d2'')" by code_simp
  moreover have "from_caller ''k'' ''ann'' (fresh_phone ''bob'' ''d2'')" by (simp add: from_caller_def fresh_phone_def)
  moreover have "list_all (harmless ''k'' ''ann'') demo_wait"
    by (simp add: demo_wait_def demo_ring_def other_caller_def)
  moreover have "appears ''k'' (Ev_Incoming (demo_ring ''k''))" by code_simp
  ultimately have "accepts (run_phone (Ev_System_Answer ''k'' # demo_wait @ [Ev_Incoming (demo_ring ''k'')]) (fresh_phone ''bob'' ''d2'')) =
      accepts (run_phone (Ev_System_Answer ''k'' # demo_wait) (fresh_phone ''bob'' ''d2'')) @ [''k'']"
    by (intro queued_answer_replayed) simp_all
  moreover have "accepts (run_phone (Ev_System_Answer ''k'' # demo_wait) (fresh_phone ''bob'' ''d2'')) = []" by code_simp
  ultimately show ?thesis by simp
qed

text \<open>
  A redial takes the answer with it: \<open>ann\<close> calls again while the answer of her first call waits, and when the first call
  then appears, nothing is accepted.
\<close>

lemma redial_drops_the_answer:
  "accepts (run_phone [Ev_Push_Call ''k'' (Some ''ann'') Shown, Ev_System_Answer ''k'', Ev_Push_Call ''j'' (Some ''ann'') Shown,
     Ev_Incoming (demo_ring ''k'')] (fresh_phone ''bob'' ''d2'')) = []"
  by code_simp

end
