(* ===== verification/AnswerOnce.thy ===== *)
theory AnswerOnce
  imports AnswerProperties
begin

text \<open>
  A call that was answered is not answered again, and while an answer is under way no second one is sent, however
  many taps, replays and system events arrive.
\<close>

definition core :: "phone \<Rightarrow> string option \<times> string list \<times> client_call list" where
  "core ph = (ph_in_flight ph, ph_answered ph, ph_waiting ph)"

lemma core_view: "answer_view a = answer_view b \<Longrightarrow> core a = core b"
  by (simp add: core_def answer_view_eq)

lemma core_simps [simp]:
  "core (fx e ph) = core ph" "core (dispatchCallEvent ev ph) = core ph" "core (reportAnswerStage k s r ph) = core ph"
  "core (endActiveCall nw m w ph) = core ph" "core (ph\<lparr>ph_active_id := a\<rparr>) = core ph" "core (ph\<lparr>ph_active := b\<rparr>) = core ph"
  "core (ph\<lparr>ph_incoming := b\<rparr>) = core ph" "core (ph\<lparr>ph_elsewhere := d\<rparr>) = core ph" "core (ph\<lparr>ph_attached := c\<rparr>) = core ph"
  "core (ph\<lparr>ph_caller := c\<rparr>) = core ph" "core (ph\<lparr>ph_connected_at := t\<rparr>) = core ph"
  "core (ph\<lparr>ph_placing := g\<rparr>) = core ph" "core (ph\<lparr>ph_releasing := ms\<rparr>) = core ph"
  "core (endCall i ph) = core ph" "core (forget_ui i ph) = core ph" "core (clearDisplayedCall i ph) = core ph"
  "core (showIncomingCallUi x ph) = core ph"
  by (rule core_view; simp)+

lemma core_queue [simp]:
  "core (ph\<lparr>ph_pending := p\<rparr>) = core ph" "core (ph\<lparr>ph_replayed := xs\<rparr>) = core ph" "core (clearPendingAnswer q ph) = core ph"
  by (simp_all add: core_def clearPendingAnswer_def)

lemma core_dismiss [simp]: "core (dismissIncomingCallElsewhere k ph) = core ph"
  by (simp add: dismissIncomingCallElsewhere_def Let_def)













text \<open>The other handlers send no accept.\<close>

lemma decline_core [simp]:
  "core (declineCallById j ph) = core ph" "accepts (declineCallById j ph) = accepts ph"
  "core (declineIncomingCall ph) = core ph" "accepts (declineIncomingCall ph) = accepts ph"
  by (simp_all add: declineIncomingCall_def declineCallById_def await_release_def split: option.split)

lemma foreign_core [simp]:
  "core (snd (consumeForeignDeviceCallEvent c ev known ph)) = core ph"
  "accepts (snd (consumeForeignDeviceCallEvent c ev known ph)) = accepts ph"
  by (simp_all add: consumeForeignDeviceCallEvent_def Let_def split: prod.split option.split)

lemma state_change_core [simp]:
  "core (state_change nw s c r ev known ph) = core ph \<and> accepts (state_change nw s c r ev known ph) = accepts ph"
proof -
  let ?ph = "if s = ''busy'' \<and> shouldReportEmptyCallState ev (ph_active_id ph) (incoming_id ph)
             then fx (Fx_Report []) ph else ph"
  obtain consumed ph2 where f: "consumeForeignDeviceCallEvent c ev known ?ph = (consumed, ph2)" by (rule prod.exhaust)
  have "core ph2 = core ph" "accepts ph2 = accepts ph"
    using foreign_core [of c ev known ?ph] by (simp_all add: f)
  then show ?thesis unfolding state_change_def Let_def f by (cases consumed) (auto split: option.split)
qed

lemma place_core [simp]:
  "core (placeCall explicit typed ph) = core ph" "accepts (placeCall explicit typed ph) = accepts ph"
  "core (place_prepared nw outcome ph) = core ph" "accepts (place_prepared nw outcome ph) = accepts ph"
  by (simp_all add: placeCall_def place_prepared_def placement_failed_def
    split: option.split sum.split placing.split preparation.split)

lemma placed_core [simp]:
  "core (place_answered nw r ph) = core ph" "accepts (place_answered nw r ph) = accepts ph"
  by (simp_all add: place_answered_def request_refused_def request_accepted_def placement_failed_def Let_def
    split: option.split sum.split placing.split)

lemma tap_core [simp]:
  "core (persisted_action accepting live j ph) = core ph" "accepts (persisted_action accepting live j ph) = accepts ph"
  "core (answer_lookup_failed j reason ph) = core ph" "accepts (answer_lookup_failed j reason ph) = accepts ph"
  "core (release_answered nw m ph) = core ph" "accepts (release_answered nw m ph) = accepts ph"
  "core (cancelOutgoingCall nw ph) = core ph" "accepts (cancelOutgoingCall nw ph) = accepts ph"
  "core (handleEndCall nw ph) = core ph" "accepts (handleEndCall nw ph) = accepts ph"
  by (simp_all add: persisted_action_def Let_def queueAnswerForReplay_def recordPendingAnswer_def answer_lookup_failed_def
    release_answered_def cancelOutgoingCall_def handleEndCall_def release_current_def releaseCallOnServer_def await_release_def)

lemma display_core [simp]:
  "core (displayIncomingCall j caller outcome ph) = core ph" "accepts (displayIncomingCall j caller outcome ph) = accepts ph"
  "core (profile_fetched c outcome ph) = core ph" "accepts (profile_fetched c outcome ph) = accepts ph"
  "core (handleCallCancelledPush j ph) = core ph" "accepts (handleCallCancelledPush j ph) = accepts ph"
proof -
  have stale: "core (dismissStaleCallsFromCaller j caller p) = core p" for j caller p
    using dismiss_stale_frame(2) [of j caller p] by (simp add: answer_view_def core_def)
  have fields: "core (p\<lparr>ph_displayed := d\<rparr>) = core p" "core (p\<lparr>ph_ui_waiting := w\<rparr>) = core p"
    "accepts (p\<lparr>ph_displayed := d\<rparr>) = accepts p" "accepts (p\<lparr>ph_ui_waiting := w\<rparr>) = accepts p" for p d w
    by (simp_all add: core_def accepts_def)
  have display: "core (displayIncomingCall j caller outcome p) = core p" "accepts (displayIncomingCall j caller outcome p) = accepts p"
    for j caller outcome p
    by (simp_all add: displayIncomingCall_def Let_def stale fields dismiss_stale_frame(1) split: display_outcome.split)
  show "core (displayIncomingCall j caller outcome ph) = core ph" "accepts (displayIncomingCall j caller outcome ph) = accepts ph"
    "core (profile_fetched c outcome ph) = core ph" "accepts (profile_fetched c outcome ph) = accepts ph"
    "core (handleCallCancelledPush j ph) = core ph" "accepts (handleCallCancelledPush j ph) = accepts ph"
    by (simp_all add: display fields profile_fetched_def handleCallCancelledPush_def Let_def)
qed















text \<open>
  The guard holds the id of one request only: when another call is answered in between, a second request for the
  first call is sent while one is under way.
\<close>

lemma guard_holds_one_id:
  "accepts (run_phone [Ev_Incoming (demo_ring ''k''), Ev_Accept, Ev_Incoming (demo_ring ''j''), Ev_Accept,
     Ev_Incoming (demo_ring ''k''), Ev_Accept] (fresh_phone ''bob'' ''d2'')) = [''k'', ''j'', ''k'']"
  by code_simp

text \<open>
  When the server answers a decline late, the call that rings by then is taken off this device, though it was not
  declined and rings on.
\<close>

lemma late_release_drops_the_next_ring:
  "let ph = run_phone [Ev_Incoming (demo_ring ''k''), Ev_Decline,
       Ev_State_Changed 500 ''declined'' (Some ((demo_ring ''k'')\<lparr>cl_status := Some ''declined''\<rparr>)) None,
       Ev_Acknowledged, Ev_Incoming (demo_ring ''j''), Ev_Released 1000 (''Call declined'', ''declined'')]
       (fresh_phone ''bob'' ''d2'')
   in ph_incoming ph = None \<and> Fx_End_Ui ''j'' \<in> set (ph_fx ph) \<and> Fx_Decline ''j'' \<notin> set (ph_fx ph)"
  by code_simp

end
