(* ===== verification/ResyncProperties.thy ===== *)
theory ResyncProperties
  imports AnswerOnce CallProperties SignalingHandlers
begin

text \<open>
  The two sides of a reconnect together: the report of the client (\<open>AnswerFlow\<close>), what the server makes of it
  (\<open>SignalingHandlers\<close>, \<open>CallSweeps\<close>) and what the client makes of the answer (\<open>CallDecisions\<close>).
\<close>

text \<open>The acknowledgement of \<open>call.state.report\<close> as the client reads it.\<close>

definition ack_of :: "reply \<Rightarrow> report_ack" where
  "ack_of a =
     (case a of
        Done (Ack_State shut ds) \<Rightarrow>
          \<lparr>ra_ok = True, ra_cleared = Some shut, ra_active = Some (map (\<lambda>d. Some (cd_id d)) ds)\<rparr>
      | _ \<Rightarrow> \<lparr>ra_ok = False, ra_cleared = None, ra_active = None\<rparr>)"

lemma closed_ids:
  assumes "\<And>st c. cond st c \<Longrightarrow> c_id c \<noteq> k"
  shows "k \<notin> set (map c_id (snd (close_calls e cond reason cs s)))"
proof -
  have "k \<notin> set (map c_id (snd (fold (close_visit e cond reason) ks (s, []))))" for ks
    by (rule fold_invariant_pred [where P = "\<lambda>a. k \<notin> set (map c_id (snd a))"])
      (use assms in \<open>fastforce simp: close_visit_def split: option.splits if_splits\<close>, simp)
  then show ?thesis by (simp add: close_calls_def)
qed

lemma described_ids: "map cd_id (describeActiveCallsForUser clock nw u s) = map c_id (getActiveCallsForUser clock 0 u s)"
  by (simp add: describeActiveCallsForUser_def)

text \<open>A report that claims \<open>k\<close>, and a report that claims nothing.\<close>

lemma reconcile_claimed:
  assumes wf: "wf_registry s" and u: "u \<noteq> []" and k: "k \<in> set claimed"
  shows "get_call (fst (reconcileClientCallState e u claimed dev s)) k = get_call s k"
    and "k \<notin> set (map c_id (snd (reconcileClientCallState e u claimed dev s)))"
proof -
  show "get_call (fst (reconcileClientCallState e u claimed dev s)) k = get_call s k"
    using u k wf_registryD [OF wf, of k]
    by (cases "get_call s k") (auto simp: reconcileClientCallState_def close_active_get [OF wf] reconcilable_def)
  show "k \<notin> set (map c_id (snd (reconcileClientCallState e u claimed dev s)))"
    using u k unfolding reconcileClientCallState_def if_not_P [OF u] by (intro closed_ids) (auto simp: reconcilable_def)
qed

lemma reconcile_wf: "wf_registry s \<Longrightarrow> wf_registry (fst (reconcileClientCallState e u claimed dev s))"
  by (simp add: reconcileClientCallState_def close_calls_wf)

text \<open>
  C14. After a reconnect the two sides agree. The client reports the call it is in; when the server's answer arrives
  the call is still the current one exactly if the server holds it as a live call of this user, and the report
  itself has not touched it. A call the server ended meanwhile is torn down, and no other.
\<close>

theorem resync_agrees_with_server:
  assumes "registry_reachable s" and "si_user sk \<noteq> []" and "admitted sk rq = Inr p"
    and "rt_ids p = Some [k]" and "normaliseId (Some k) = Some k"
    and "handleStateReport e sk rq ((s, r), og) = (a, ((s', r'), og'))" and "ph_active_id ph = Some k"
  shows "get_call s' k = get_call s k \<and>
    ph_active_id (resync_answered nw (Some (ack_of a)) ph) =
      (if \<exists>c. get_call s k = Some c \<and> active_for (now e) 0 (si_user sk) c then Some k else None)"
proof -
  note wf = reachable_wf [OF assms(1)]
  let ?u = "si_user sk"
  obtain s1 shut where rec: "reconcileClientCallState e ?u [k] (si_device sk) s = (s1, shut)" by (rule prod.exhaust)
  have claimed: "normaliseReportedActiveCallIds (rt_ids p) (rt_single p) = [k]"
    using assms(4,5) by (simp add: normaliseReportedActiveCallIds_def map_filter_def)
  have out: "s' = s1" "a = Done (Ack_State (map c_id shut) (describeActiveCallsForUser (now e) (now e) ?u s1))"
    using assms(6) by (auto simp: handleStateReport_def assms(3) claimed rec Let_def)
  have k: "k \<noteq> []" using assms(5) by (auto simp: normaliseId_def trim_def split: if_splits)
  have same: "get_call s1 k = get_call s k" and quiet: "k \<notin> set (map c_id shut)"
    using reconcile_claimed [OF wf assms(2), of k "[k]" e "si_device sk"] by (simp_all add: rec)
  have wf1: "wf_registry s1" using reconcile_wf [OF wf, of e ?u "[k]" "si_device sk"] by (simp add: rec)
  let ?live = "\<exists>c. get_call s k = Some c \<and> active_for (now e) 0 ?u c"
  let ?ds = "describeActiveCallsForUser (now e) (now e) ?u s1"
  have live: "k \<in> set (map cd_id ?ds) \<longleftrightarrow> ?live"
    unfolding described_ids active_ids_iff [OF wf1] same ..
  have parsed: "parseCallStateReportAck (Some (ack_of a)) =
      Some \<lparr>sr_cleared = map c_id shut, sr_active = Some (filter (\<lambda>i. i \<noteq> []) (map cd_id ?ds))\<rparr>"
    by (simp add: out parseCallStateReportAck_def ack_of_def filter_map comp_def)
  have "shouldTearDownAfterResync (Some k) \<lparr>sr_cleared = map c_id shut, sr_active = Some (filter (\<lambda>i. i \<noteq> []) (map cd_id ?ds))\<rparr>
      \<longleftrightarrow> \<not> ?live"
    using quiet k live by (simp add: shouldTearDownAfterResync_def)
  then show ?thesis using same assms(7) by (simp add: out(1) resync_answered_def parsed del: set_map)
qed

text \<open>
  bob's phone reports the ringing call and keeps it; after the call ended, the same report ends it on the phone.
\<close>

definition demo_claim :: "report_payload request" where
  "demo_claim = \<lparr>rq_version = Some 3, rq_parsed = Inr \<lparr>rt_ids = Some [''id-''], rt_single = None\<rparr>\<rparr>"

definition demo_phone :: phone where
  "demo_phone = (fresh_phone ''bob'' ''phone'')\<lparr>ph_active_id := Some ''id-''\<rparr>"

definition bob_phone :: socket_identity where
  "bob_phone = \<lparr>si_user = ''bob'', si_session = Some ''session'', si_device = Some ''phone''\<rparr>"

definition demo_resync :: "server_state \<Rightarrow> reply \<times> hub" where
  "demo_resync s = handleStateReport demo_env bob_phone demo_claim ((s, empty_shared), nothing_sent)"

lemma demo_claim_reads:
  "admitted bob_phone demo_claim = Inr \<lparr>rt_ids = Some [''id-''], rt_single = None\<rparr>"
  "si_user bob_phone = ''bob''" "normaliseId (Some ''id-'') = Some ''id-''"
  "ph_active_id demo_phone = Some ''id-''"
  by code_simp+

lemma demo_claim_live: "active_for (now demo_env) 0 ''bob'' demo_call" by code_simp

theorem resync_agrees_with_server_witness:
  "ph_active_id (resync_answered 1 (Some (ack_of (fst (demo_resync demo_ringing)))) demo_phone) = Some ''id-'' \<and>
   ph_active_id (resync_answered 1 (Some (ack_of (fst (demo_resync demo_over)))) demo_phone) = None"
proof -
  have run: "ph_active_id (resync_answered 1 (Some (ack_of (fst (demo_resync s)))) demo_phone) =
      (if \<exists>c. get_call s ''id-'' = Some c \<and> active_for (now demo_env) 0 ''bob'' c then Some ''id-'' else None)"
    if "registry_reachable s" for s
  proof -
    obtain a s' r' og' where h: "demo_resync s = (a, ((s', r'), og'))" by (metis prod.exhaust)
    from resync_agrees_with_server [OF that _ demo_claim_reads(1) _ demo_claim_reads(3) h [unfolded demo_resync_def]
        demo_claim_reads(4)]
    show ?thesis by (simp add: h demo_claim_reads(2))
  qed
  have "\<not> active_for (now demo_env) 0 ''bob'' demo_ended" using demo_over_get(2) by (simp add: active_for_def)
  then show ?thesis using run [OF demo_reachable] run [OF demo_over_reachable] demo_claim_live
    by (simp add: demo_get demo_over_get(1))
qed

end
