(* ===== verification/CallTimeline.thy ===== *)
theory CallTimeline
  imports Calls Messages Timestamps
begin

text \<open>
  Calls as part of a conversation: \<open>server/src/domain/callTimeline.ts\<close> over the calls an instance holds, and the
  history route of \<open>routes/messages.routes.ts\<close> that pages them together with the messages. The reads of the database
  and the cache of first pages are left out; of the acknowledgement in the database only the ids it returns are used.
\<close>

section \<open>Order of timestamps\<close>

text \<open>\<open>timestampMs\<close> of a timestamp that may be absent; a text it cannot read has no instant.\<close>

definition instant :: "stamp option \<Rightarrow> int option" where
  "instant x =
     (case x of
        None \<Rightarrow> None
      | Some (At t) \<Rightarrow> Some t
      | Some (Text s) \<Rightarrow> timestampMs (\<lambda>_. None) (Some s))"

definition compareNewestFirst :: "stamp option \<Rightarrow> stamp option \<Rightarrow> int" where
  "compareNewestFirst a b =
     (case (instant a, instant b) of
        (Some x, Some y) \<Rightarrow> if x = y then 0 else if x < y then 1 else - 1
      | (None, None) \<Rightarrow> 0
      | (Some _, None) \<Rightarrow> - 1
      | (None, Some _) \<Rightarrow> 1)"

section \<open>Entries\<close>

record timeline_call =
  ce_call :: string
  ce_conv :: string
  ce_outgoing :: bool
  ce_status :: string
  ce_reason :: "string option"
  ce_duration :: "int option"
  ce_created :: stamp

definition toCallTimelineEntry :: "call_record \<Rightarrow> string \<Rightarrow> timeline_call" where
  "toCallTimelineEntry c u =
     \<lparr>ce_call = c_id c, ce_conv = deriveConversationId (c_caller c) (c_callee c), ce_outgoing = (c_caller c = u),
      ce_status = (if status_text (c_status c) = ''ended'' \<and> c_end_reason c = Some ''cancelled'' then ''cancelled''
                   else status_text (c_status c)),
      ce_reason = c_end_reason c, ce_duration = c_duration c, ce_created = c_created c\<rparr>"

definition between :: "string \<Rightarrow> string \<Rightarrow> call_record \<Rightarrow> bool" where
  "between u p c = (c_caller c = u \<and> c_callee c = p \<or> c_caller c = p \<and> c_callee c = u)"

definition call_before :: "stamp option \<Rightarrow> string option \<Rightarrow> bool \<Rightarrow> call_record \<Rightarrow> bool" where
  "call_before before beforeCallId includeAt c =
     (if \<not> stamp_truthy before then True
      else (let order = compareNewestFirst (Some (c_created c)) before
            in 0 < order \<or> order = 0 \<and> (includeAt \<or> str_truthy beforeCallId \<and> c_id c < the beforeCallId)))"

definition by_newest_call :: "call_record \<Rightarrow> call_record \<Rightarrow> int" where
  "by_newest_call a b =
     (let order = compareNewestFirst (Some (c_created a)) (Some (c_created b))
      in if order \<noteq> 0 then order else if c_id a = c_id b then 0 else if c_id a < c_id b then 1 else - 1)"

definition listCallsBetween ::
  "server_state \<Rightarrow> string \<Rightarrow> string \<Rightarrow> stamp option \<Rightarrow> string option \<Rightarrow> bool \<Rightarrow> call_record list" where
  "listCallsBetween s u p before beforeCallId includeAt =
     sort_cmp by_newest_call
       (filter (\<lambda>c. between u p c \<and> call_before before beforeCallId includeAt c) (map snd (calls s)))"

text \<open>An entry of the timeline: a message with its type filled in, or a call.\<close>

datatype timeline_item = Message_Entry message | Call_Entry timeline_call

definition messageTypeOf :: "message \<Rightarrow> string" where
  "messageTypeOf m = (if m_type m = [] then DEFAULT_MESSAGE_TYPE else m_type m)"

fun entry_created :: "timeline_item \<Rightarrow> stamp" where
  "entry_created (Message_Entry m) = At (m_created m)"
| "entry_created (Call_Entry c) = ce_created c"

text \<open>A message whose type says that it is a call has no call id.\<close>

fun timelineSortId_server :: "timeline_item \<Rightarrow> string" where
  "timelineSortId_server (Message_Entry m) = (if m_type m = ''call'' then ''call:'' else ''message:'' @ m_id m)"
| "timelineSortId_server (Call_Entry c) = ''call:'' @ ce_call c"

definition by_newest_entry :: "timeline_item \<Rightarrow> timeline_item \<Rightarrow> int" where
  "by_newest_entry a b =
     (let order = compareNewestFirst (Some (entry_created a)) (Some (entry_created b))
      in if order \<noteq> 0 then order
         else if timelineSortId_server a = timelineSortId_server b then 0
         else if timelineSortId_server a < timelineSortId_server b then 1 else - 1)"

definition message_entry :: "message \<Rightarrow> timeline_item" where
  "message_entry m = Message_Entry (m\<lparr>m_type := messageTypeOf m\<rparr>)"

definition mergeTimeline :: "message list \<Rightarrow> timeline_call list \<Rightarrow> nat \<Rightarrow> timeline_item list" where
  "mergeTimeline ms cs limit = take limit (sort_cmp by_newest_entry (map message_entry ms @ map Call_Entry cs))"

section \<open>Missed calls\<close>

definition isUnreadMissedCall :: "call_record \<Rightarrow> string \<Rightarrow> bool" where
  "isUnreadMissedCall c u = (c_callee c = u \<and> status_text (c_status c) = ''missed'' \<and> \<not> stamp_truthy (c_missed_read c))"

text \<open>One resident call: the ids acknowledged so far, and the state.\<close>

definition ack_missed ::
  "int \<Rightarrow> string \<Rightarrow> string \<Rightarrow> string \<Rightarrow> string list \<times> server_state \<Rightarrow> string list \<times> server_state" where
  "ack_missed nw u p k = (\<lambda>(acked, s).
     case get_call s k of
       None \<Rightarrow> (acked, s)
     | Some c \<Rightarrow>
         if c_caller c \<noteq> p \<or> c_callee c \<noteq> u \<or> \<not> isUnreadMissedCall c u then (acked, s)
         else (let c' = c\<lparr>c_missed_read := Some (At nw)\<rparr>
               in (set_add (c_id c) acked, persistCallRecord c' (store_call c' s))))"

text \<open>\<open>rows\<close>: the ids the database returns, \<open>None\<close> when its statement fails.\<close>

definition markMissedCallsRead ::
  "int \<Rightarrow> string \<Rightarrow> string \<Rightarrow> string list option \<Rightarrow> server_state \<Rightarrow> nat \<times> server_state" where
  "markMissedCallsRead nw u p rows s =
     (let (acked, s1) = fold (ack_missed nw u p) (map fst (calls s)) ([], s);
          acked1 = (if has_db s then fold set_add (or_empty rows) acked else acked)
      in (length acked1, if 0 < length acked1 then invalidateCallHistoryCache [u] s1 else s1))"

section \<open>The chat list\<close>

record activity =
  ac_entry :: timeline_call
  ac_unread :: nat

definition isUserCall :: "call_record \<Rightarrow> string \<Rightarrow> bool" where
  "isUserCall c u = (c_caller c = u \<or> c_callee c = u)"

definition call_peer :: "string \<Rightarrow> call_record \<Rightarrow> string" where
  "call_peer u c = (if c_caller c = u then c_callee c else c_caller c)"

definition addCallActivity ::
  "string \<Rightarrow> call_record \<Rightarrow> (string \<times> activity) list \<Rightarrow> (string \<times> activity) list" where
  "addCallActivity u c byPeer =
     (let p = call_peer u c; e = toCallTimelineEntry c u; unread = isUnreadMissedCall c u
      in case map_of byPeer p of
           None \<Rightarrow> AList.update p \<lparr>ac_entry = e, ac_unread = (if unread then 1 else 0)\<rparr> byPeer
         | Some a \<Rightarrow>
             AList.update p
               \<lparr>ac_entry = (if compareNewestFirst (Some (ce_created e)) (Some (ce_created (ac_entry a))) < 0 then e else ac_entry a),
                ac_unread = (if unread then Suc (ac_unread a) else ac_unread a)\<rparr> byPeer)"

definition collectCallActivityByPeer :: "server_state \<Rightarrow> string \<Rightarrow> (string \<times> activity) list" where
  "collectCallActivityByPeer s u =
     fold (\<lambda>c acc. if isUserCall c u then addCallActivity u c acc else acc) (map snd (calls s)) []"

record conversation_row =
  cr_conv :: string
  cr_peer :: string
  cr_last :: "message option"
  cr_unread :: nat

record activity_row = conversation_row +
  cr_activity :: "timeline_item option"

definition latestConversationActivity :: "activity option \<Rightarrow> message option \<Rightarrow> timeline_item option" where
  "latestConversationActivity a lastMessage =
     (case (a, lastMessage) of
        (None, _) \<Rightarrow> map_option Message_Entry lastMessage
      | (Some x, None) \<Rightarrow> Some (Call_Entry (ac_entry x))
      | (Some x, Some m) \<Rightarrow>
          Some (if compareNewestFirst (Some (ce_created (ac_entry x))) (Some (At (m_created m))) < 0
                then Call_Entry (ac_entry x) else Message_Entry m))"

definition mergeConversationCallActivity :: "conversation_row \<Rightarrow> activity option \<Rightarrow> activity_row" where
  "mergeConversationCallActivity r a =
     \<lparr>cr_conv = cr_conv r, cr_peer = cr_peer r, cr_last = cr_last r,
      cr_unread = cr_unread r + (case a of Some x \<Rightarrow> ac_unread x | None \<Rightarrow> 0),
      cr_activity = latestConversationActivity a (map_option (\<lambda>m. m\<lparr>m_type := messageTypeOf m\<rparr>) (cr_last r))\<rparr>"

definition appendCallOnlyConversations ::
  "string \<Rightarrow> (string \<times> activity) list \<Rightarrow> activity_row list \<Rightarrow> activity_row list" where
  "appendCallOnlyConversations u byPeer merged =
     merged @ map (\<lambda>(p, a). \<lparr>cr_conv = deriveConversationId u p, cr_peer = p, cr_last = None, cr_unread = ac_unread a,
                             cr_activity = Some (Call_Entry (ac_entry a))\<rparr>) byPeer"

definition sortConversationsByActivity :: "activity_row list \<Rightarrow> activity_row list" where
  "sortConversationsByActivity rows =
     sort_cmp (\<lambda>a b. compareNewestFirst (map_option entry_created (cr_activity a)) (map_option entry_created (cr_activity b))) rows"

text \<open>The rows in order; each takes the activity of its peer.\<close>

fun merge_rows ::
  "conversation_row list \<Rightarrow> (string \<times> activity) list \<Rightarrow> activity_row list \<times> (string \<times> activity) list" where
  "merge_rows [] byPeer = ([], byPeer)"
| "merge_rows (r # rs) byPeer =
     (let (merged, rest) = merge_rows rs (AList.delete (cr_peer r) byPeer)
      in (mergeConversationCallActivity r (map_of byPeer (cr_peer r)) # merged, rest))"

definition augmentConversationsWithCalls :: "server_state \<Rightarrow> string \<Rightarrow> conversation_row list \<Rightarrow> activity_row list" where
  "augmentConversationsWithCalls s u rows =
     (let (merged, rest) = merge_rows rows (collectCallActivityByPeer s u)
      in sortConversationsByActivity (appendCallOnlyConversations u rest merged))"

section \<open>The history route\<close>

datatype cursor_type = At_Message | At_Call

record timeline_cursor =
  tc_before :: stamp
  tc_type :: "cursor_type option"
  tc_message :: "string option"
  tc_call :: "string option"

record history_page =
  hp_conv :: string
  hp_entries :: "timeline_item list"
  hp_limit :: nat
  hp_next :: "timeline_cursor option"
  hp_more :: bool

definition cursorForEntry :: "timeline_item \<Rightarrow> timeline_cursor option" where
  "cursorForEntry e =
     (if \<not> stamp_truthy (Some (entry_created e)) then None
      else Some (case e of
        Call_Entry c \<Rightarrow> \<lparr>tc_before = ce_created c, tc_type = Some At_Call, tc_message = None, tc_call = Some (ce_call c)\<rparr>
      | Message_Entry m \<Rightarrow>
          if m_type m = ''call''
          then \<lparr>tc_before = At (m_created m), tc_type = Some At_Call, tc_message = None, tc_call = None\<rparr>
          else \<lparr>tc_before = At (m_created m), tc_type = Some At_Message, tc_message = Some (m_id m), tc_call = None\<rparr>))"

definition pageResponse :: "string \<Rightarrow> timeline_item list \<Rightarrow> nat \<Rightarrow> history_page" where
  "pageResponse conv entries limit =
     (let shown = take limit entries;
          following = (if limit < length entries \<and> shown \<noteq> [] then cursorForEntry (last shown) else None)
      in \<lparr>hp_conv = conv, hp_entries = shown, hp_limit = length shown, hp_next = following, hp_more = (following \<noteq> None)\<rparr>)"

definition readMessagePage :: "message_store \<Rightarrow> string \<Rightarrow> timeline_cursor option \<Rightarrow> int \<Rightarrow> message list" where
  "readMessagePage st conv cursor readLimit =
     listMessages conv (Some readLimit)
       (Option.bind cursor (\<lambda>c. map_option (\<lambda>t. (t, tc_message c)) (instant (Some (tc_before c))))) True st"

text \<open>\<open>visible\<close>: neither side has blocked the other. \<open>Inl\<close> is the status and the error of a refusal.\<close>

definition buildHistoryResponse ::
  "message_store \<Rightarrow> server_state \<Rightarrow> bool \<Rightarrow> string \<Rightarrow> string \<Rightarrow> string \<Rightarrow> timeline_cursor option \<Rightarrow> bool \<Rightarrow> int \<Rightarrow>
   (int \<times> string) + history_page" where
  "buildHistoryResponse st s visible u p conv cursor includeCalls limit =
     (let readLimit = limit + 1;
          messages = readMessagePage st conv cursor readLimit;
          own = filter (\<lambda>m. m_sender m = u \<or> m_recipient m = u) messages
      in if length own \<noteq> length messages then Inl (403, ''not a participant in this conversation'')
         else if \<not> includeCalls then Inr (pageResponse conv (map Message_Entry own) (nat limit))
         else (let callEntries =
                     (if \<not> visible then []
                      else map (\<lambda>c. toCallTimelineEntry c u)
                             (listCallsBetween s u p (map_option tc_before cursor) (Option.bind cursor tc_call)
                                (Option.bind cursor tc_type = Some At_Message)))
               in Inr (pageResponse conv (mergeTimeline own callEntries (nat readLimit)) (nat limit))))"

definition get_messages ::
  "message_store \<Rightarrow> server_state \<Rightarrow> bool \<Rightarrow> string \<Rightarrow> string \<Rightarrow> timeline_cursor option \<Rightarrow> bool \<Rightarrow> int option \<Rightarrow>
   (int \<times> string) + history_page" where
  "get_messages st s visible u p cursor includeCalls limit =
     (if trim p = [] then Inl (400, ''peerId is required'')
      else if trim p = u then Inl (400, ''peerId must be another user'')
      else if \<exists>c. cursor = Some c \<and> instant (Some (tc_before c)) = None
      then Inl (400, ''before cursor must be an ISO timestamp'')
      else buildHistoryResponse st s visible u (trim p) (deriveConversationId u (trim p)) cursor includeCalls (clampLimit limit))"

end
