(* ===== verification/HistoryPages.thy ===== *)
theory HistoryPages
  imports CallTimeline MessageHistory CallProperties
begin

text \<open>
  A client that reads a conversation with its calls page by page gets the whole timeline: every message and every
  call once, newest first. The pages come from two lists that are cut on their own and merged.
\<close>

section \<open>Cutting and merging\<close>

lemma take_insort:
  "sorted (map f xs) \<Longrightarrow> take n (insort_key f x (take n xs)) = take n (insort_key f x xs)"
proof (induction xs arbitrary: n)
  case (Cons y ys)
  then show ?case by (cases n) (simp_all add: take_Cons')
qed simp

lemma take_foldr_insort:
  "sorted (map f xs) \<Longrightarrow> take n (foldr (insort_key f) ys (take n xs)) = take n (foldr (insort_key f) ys xs)"
proof (induction ys)
  case (Cons y ys)
  have s: "sorted (map f (foldr (insort_key f) zs ws))" if "sorted (map f ws)" for zs ws
    using that by (induction zs) (simp_all add: sorted_insort_key)
  have "take n (insort_key f y (foldr (insort_key f) ys (take n xs))) =
      take n (insort_key f y (take n (foldr (insort_key f) ys (take n xs))))"
    using Cons.prems by (intro take_insort [symmetric] s) (simp add: take_map [symmetric] sorted_wrt_take)
  also have "\<dots> = take n (insort_key f y (take n (foldr (insort_key f) ys xs)))" using Cons by simp
  also have "\<dots> = take n (insort_key f y (foldr (insort_key f) ys xs))"
    using Cons.prems by (intro take_insort s)
  finally show ?case by simp
qed simp

lemma sort_key_as_foldr: "sorted (map f xs) \<Longrightarrow> sort_key f (ys @ xs) = foldr (insort_key f) ys xs"
  by (induction ys) (simp_all add: sort_key_id_if_sorted)

text \<open>Only the first \<open>n\<close> of a part matter for the first \<open>n\<close> of the whole.\<close>

lemma take_sort_cut:
  assumes "inj_on f (set xs \<union> set ys)" and "mset zs = mset ys"
  shows "take n (sort_key f (take n (sort_key f xs) @ zs)) = take n (sort_key f (xs @ ys))"
proof -
  have part: "set (take n (sort_key f xs)) \<subseteq> set xs" using set_take_subset [of n "sort_key f xs"] by simp
  have swap: "sort_key f (vs @ zs) = sort_key f (ys @ vs)" if "set vs \<subseteq> set xs" for vs
  proof (rule sort_key_inj_key_eq)
    show "mset (vs @ zs) = mset (sort_key f (ys @ vs))" using assms(2) by (simp add: union_commute)
    have "set zs = set ys" using assms(2) by (metis set_mset_mset)
    then show "inj_on f (set (vs @ zs))" using assms(1) that by (auto intro: inj_on_subset)
  qed simp
  have "sort_key f (xs @ ys) = sort_key f (ys @ sort_key f xs)"
    by (rule sort_key_inj_key_eq) (use assms(1) in \<open>simp_all add: union_commute\<close>)
  moreover have "take n (sort_key f (ys @ take n (sort_key f xs))) = take n (sort_key f (ys @ sort_key f xs))"
    by (simp add: sort_key_as_foldr take_map [symmetric] sorted_wrt_take take_foldr_insort)
  ultimately show ?thesis by (simp add: swap [OF part])
qed

lemma map_insort:
  "(\<And>y. y \<in> set xs \<Longrightarrow> f x \<le> f y \<longleftrightarrow> h (g x) \<le> h (g y)) \<Longrightarrow> map g (insort_key f x xs) = insort_key h (g x) (map g xs)"
  by (induction xs) simp_all

lemma map_sort:
  "(\<And>x y. x \<in> set xs \<Longrightarrow> y \<in> set xs \<Longrightarrow> f x \<le> f y \<longleftrightarrow> h (g x) \<le> h (g y)) \<Longrightarrow> map g (sort_key f xs) = sort_key h (map g xs)"
proof (induction xs)
  case (Cons x xs)
  then have "map g (insort_key f x (sort_key f xs)) = insort_key h (g x) (map g (sort_key f xs))"
    by (intro map_insort) simp
  with Cons show ?case by simp
qed simp

section \<open>The order of the timeline\<close>

definition entry_key :: "timeline_item \<Rightarrow> newest" where
  "entry_key e = Newest (case entry_created e of At t \<Rightarrow> t | Text s \<Rightarrow> 0) (timelineSortId_server e)"

lemma sort_ids [simp]:
  "(''call:'' @ i < ''call:'' @ j) = (i < j)" "(''message:'' @ i < ''message:'' @ j) = (i < j)"
  "(''call:'' @ i < ''message:'' @ j) = True" "(''message:'' @ i < ''call:'' @ j) = False"
  "(''call:'' @ i \<le> ''call:'' @ j) = (i \<le> j)" "(''message:'' @ i \<le> ''message:'' @ j) = (i \<le> j)"
  by (simp_all add: less_char_def)

definition dated :: "timeline_item \<Rightarrow> bool" where
  "dated e = (\<exists>t. entry_created e = At t)"

lemma by_newest_key:
  assumes "dated a" and "dated b"
  shows "by_newest_entry a b \<le> 0 \<longleftrightarrow> entry_key a \<le> entry_key b"
proof -
  obtain x y where "entry_created a = At x" "entry_created b = At y" using assms by (auto simp: dated_def)
  then show ?thesis
    by (auto simp: by_newest_entry_def compareNewestFirst_def instant_def entry_key_def Let_def not_less)
qed

lemma sort_entries: "(\<And>e. e \<in> set es \<Longrightarrow> dated e) \<Longrightarrow> sort_cmp by_newest_entry es = sort_key entry_key es"
  by (intro sort_cmp_key by_newest_key)

section \<open>The whole timeline\<close>

text \<open>What the two users share: their messages, and their calls unless one has blocked the other.\<close>

definition shared_messages :: "message_store \<Rightarrow> string \<Rightarrow> message list" where
  "shared_messages st conv = filter (\<lambda>m. m_conv m = conv) (msgs st)"

definition shared_calls :: "server_state \<Rightarrow> bool \<Rightarrow> string \<Rightarrow> string \<Rightarrow> call_record list" where
  "shared_calls s visible u p = (if visible then filter (between u p) (map snd (calls s)) else [])"

definition call_entry_of :: "string \<Rightarrow> call_record \<Rightarrow> timeline_item" where
  "call_entry_of u c = Call_Entry (toCallTimelineEntry c u)"

definition whole_timeline :: "message_store \<Rightarrow> server_state \<Rightarrow> bool \<Rightarrow> string \<Rightarrow> string \<Rightarrow> timeline_item list" where
  "whole_timeline st s visible u p =
     sort_cmp by_newest_entry
       (map message_entry (shared_messages st (deriveConversationId u p)) @ map (call_entry_of u) (shared_calls s visible u p))"

text \<open>The conversation holds messages of its two users only, none of them typed as a call, and dated calls.\<close>

definition readable :: "message_store \<Rightarrow> server_state \<Rightarrow> string \<Rightarrow> string \<Rightarrow> bool" where
  "readable st s u p \<longleftrightarrow>
     (\<forall>m \<in> set (shared_messages st (deriveConversationId u p)). is_party u m \<and> m_type m \<noteq> ''call'') \<and>
     (\<forall>c \<in> set (shared_calls s True u p). \<exists>t. c_created c = At t)"

lemma entry_keys:
  "m_type m \<noteq> ''call'' \<Longrightarrow> entry_key (message_entry m) = Newest (m_created m) (''message:'' @ m_id m)"
  "c_created c = At t \<Longrightarrow> entry_key (call_entry_of u c) = Newest t (''call:'' @ c_id c)"
  by (auto simp: entry_key_def message_entry_def messageTypeOf_def DEFAULT_MESSAGE_TYPE_def call_entry_of_def
    toCallTimelineEntry_def)

lemma registry_ids:
  assumes "wf_registry s"
  shows "distinct (map c_id (map snd (calls s)))"
proof -
  have "c_id c = k" if "(k, c) \<in> set (calls s)" for k c
    using that keyedD [OF wf_registry_keyed [OF assms], of k c] wf_registry_distinct [OF assms]
    by (simp add: get_call_def)
  then have "map c_id (map snd (calls s)) = map fst (calls s)" by (auto simp: comp_def intro!: map_cong)
  then show ?thesis using wf_registry_distinct [OF assms] by metis
qed

definition shared_entries :: "message_store \<Rightarrow> server_state \<Rightarrow> bool \<Rightarrow> string \<Rightarrow> string \<Rightarrow> timeline_item list" where
  "shared_entries st s visible u p =
     map message_entry (shared_messages st (deriveConversationId u p)) @ map (call_entry_of u) (shared_calls s visible u p)"

lemma readable_entries:
  assumes "readable st s u p"
  shows "m \<in> set (shared_messages st (deriveConversationId u p)) \<Longrightarrow> is_party u m \<and> m_type m \<noteq> ''call''"
    and "c \<in> set (shared_calls s visible u p) \<Longrightarrow> \<exists>t. c_created c = At t"
  using assms by (auto simp: readable_def shared_calls_def split: if_splits)

lemma shared_dated:
  assumes "readable st s u p" and "e \<in> set (shared_entries st s visible u p)"
  shows "dated e"
  using assms readable_entries [OF assms(1)]
  by (auto simp: shared_entries_def dated_def message_entry_def call_entry_of_def toCallTimelineEntry_def)

lemma shared_keys:
  assumes wf: "wf_messages st" "wf_registry s" and ok: "readable st s u p"
  shows "distinct (map entry_key (shared_entries st s visible u p))"
proof -
  let ?M = "shared_messages st (deriveConversationId u p)" and ?C = "shared_calls s visible u p"
  have mk: "entry_key (message_entry m) = Newest (m_created m) (''message:'' @ m_id m)" if "m \<in> set ?M" for m
    using readable_entries(1) [OF ok that] by (simp add: entry_keys)
  have "distinct ?M" "inj_on newest_key (set ?M)"
    using wf_messages_keys [OF wf(1), of "deriveConversationId u p"] by (simp_all add: distinct_map shared_messages_def)
  then have left: "distinct (map (entry_key \<circ> message_entry) ?M)"
    by (auto simp: distinct_map inj_on_def mk newest_key_def)
  have ids: "distinct (map c_id ?C)"
    using registry_ids [OF wf(2)] by (simp add: shared_calls_def distinct_map_filter)
  have ck: "\<exists>t. entry_key (call_entry_of u c) = Newest t (''call:'' @ c_id c)" if "c \<in> set ?C" for c
    using readable_entries(2) [OF ok that] entry_keys(2) by blast
  have "inj_on (entry_key \<circ> call_entry_of u) (set ?C)"
  proof (rule inj_onI)
    fix a b
    assume ab: "a \<in> set ?C" "b \<in> set ?C" "(entry_key \<circ> call_entry_of u) a = (entry_key \<circ> call_entry_of u) b"
    then have "c_id a = c_id b" using ck [OF ab(1)] ck [OF ab(2)] by auto
    then show "a = b" using ids ab(1,2) by (auto simp: distinct_map inj_on_def)
  qed
  then have right: "distinct (map (entry_key \<circ> call_entry_of u) ?C)" using ids by (simp add: distinct_map)
  have "entry_key (message_entry m) \<noteq> entry_key (call_entry_of u c)" if "m \<in> set ?M" "c \<in> set ?C" for m c
    using mk [OF that(1)] ck [OF that(2)] by auto
  then show ?thesis using left right by (fastforce simp: shared_entries_def comp_def)
qed

text \<open>Two lists cut at a cursor, one of them also at the page, give a page of the whole.\<close>

lemma merged_page:
  assumes wf: "wf_messages st" "wf_registry s" and ok: "readable st s u p"
    and P: "\<And>m. m \<in> set (shared_messages st (deriveConversationId u p)) \<Longrightarrow> P m \<longleftrightarrow> R (message_entry m)"
    and Q: "\<And>c. c \<in> set (shared_calls s visible u p) \<Longrightarrow> Q c \<longleftrightarrow> R (call_entry_of u c)"
  shows "mergeTimeline (take n (sort_cmp byNewestFirst (filter P (shared_messages st (deriveConversationId u p)))))
      (map (\<lambda>c. toCallTimelineEntry c u) (sort_cmp by_newest_call (filter Q (shared_calls s visible u p)))) n =
    take n (filter R (whole_timeline st s visible u p))"
proof -
  let ?M = "filter P (shared_messages st (deriveConversationId u p))" and ?C = "filter Q (shared_calls s visible u p)"
  let ?E = "shared_entries st s visible u p"
  let ?c = "map (call_entry_of u) (sort_cmp by_newest_call ?C)"
  have all: "map message_entry ?M @ map (call_entry_of u) ?C = filter R ?E"
    using P Q by (simp add: shared_entries_def filter_map comp_def cong: filter_cong)
  have "map message_entry (sort_key newest_key ?M) = sort_key entry_key (map message_entry ?M)"
    using readable_entries(1) [OF ok] by (intro map_sort) (auto simp: entry_keys newest_key_def)
  then have cut: "map message_entry (take n (sort_cmp byNewestFirst ?M)) = take n (sort_key entry_key (map message_entry ?M))"
    by (simp only: sort_newest take_map [symmetric])
  have "mergeTimeline (take n (sort_cmp byNewestFirst ?M)) (map (\<lambda>c. toCallTimelineEntry c u) (sort_cmp by_newest_call ?C)) n =
      take n (sort_cmp by_newest_entry (take n (sort_key entry_key (map message_entry ?M)) @ ?c))"
    unfolding mergeTimeline_def cut by (simp add: call_entry_of_def [abs_def] comp_def)
  also have "\<dots> = take n (sort_key entry_key (take n (sort_key entry_key (map message_entry ?M)) @ ?c))"
  proof -
    have "dated e" if "e \<in> set (take n (sort_key entry_key (map message_entry ?M)) @ ?c)" for e
    proof (rule shared_dated [OF ok])
      show "e \<in> set ?E" using that set_take_subset [of n "sort_key entry_key (map message_entry ?M)"]
        by (auto simp: shared_entries_def)
    qed
    then show ?thesis by (intro arg_cong [where f = "take n"] sort_entries) blast
  qed
  also have "\<dots> = take n (sort_key entry_key (map message_entry ?M @ map (call_entry_of u) ?C))"
  proof (rule take_sort_cut)
    have "inj_on entry_key (set ?E)" using shared_keys [OF wf ok] by (simp add: distinct_map)
    then show "inj_on entry_key (set (map message_entry ?M) \<union> set (map (call_entry_of u) ?C))"
      by (rule inj_on_subset) (auto simp: shared_entries_def)
    show "mset ?c = mset (map (call_entry_of u) ?C)" by simp
  qed
  also have "\<dots> = take n (filter R (sort_key entry_key ?E))" unfolding all by (simp add: filter_sort)
  also have "sort_key entry_key ?E = whole_timeline st s visible u p"
    unfolding whole_timeline_def shared_entries_def [symmetric]
    by (rule sort_entries [symmetric]) (rule shared_dated [OF ok])
  finally show ?thesis .
qed

section \<open>Pages of the route\<close>

lemma history_response:
  assumes wf: "wf_messages st" "wf_registry s" and ok: "readable st s u p"
    and peer: "trim p = p" "p \<noteq> []" "p \<noteq> u"
    and cur: "\<And>c. cursor = Some c \<Longrightarrow> \<exists>t. instant (Some (tc_before c)) = Some t"
    and P: "\<And>m. m \<in> set (shared_messages st (deriveConversationId u p)) \<Longrightarrow>
      before_cursor (Option.bind cursor (\<lambda>c. map_option (\<lambda>t. (t, tc_message c)) (instant (Some (tc_before c))))) m \<longleftrightarrow>
      R (message_entry m)"
    and Q: "\<And>c. c \<in> set (shared_calls s visible u p) \<Longrightarrow>
      call_before (map_option tc_before cursor) (Option.bind cursor tc_call) (Option.bind cursor tc_type = Some At_Message) c \<longleftrightarrow>
      R (call_entry_of u c)"
  shows "get_messages st s visible u p cursor True limit =
    Inr (pageResponse (deriveConversationId u p)
      (take (Suc (nat (clampLimit limit))) (filter R (whole_timeline st s visible u p))) (nat (clampLimit limit)))"
proof -
  let ?conv = "deriveConversationId u p" and ?n = "Suc (nat (clampLimit limit))"
  let ?cur = "Option.bind cursor (\<lambda>c. map_option (\<lambda>t. (t, tc_message c)) (instant (Some (tc_before c))))"
  let ?q = "call_before (map_option tc_before cursor) (Option.bind cursor tc_call) (Option.bind cursor tc_type = Some At_Message)"
  have cap: "clampExportReadLimit (Some (clampLimit limit + 1)) = clampLimit limit + 1" "nat (clampLimit limit + 1) = ?n"
    using clampLimit_bounds [of limit] by (simp_all add: clampExportReadLimit_def MAX_MESSAGE_EXPORT_READ_LIMIT_def nat_add_distrib)
  have read: "readMessagePage st ?conv cursor (clampLimit limit + 1) =
      take ?n (sort_cmp byNewestFirst (filter (before_cursor ?cur) (shared_messages st ?conv)))"
    by (simp add: readMessagePage_def listMessages_def page_def cap shared_messages_def)
  have own: "filter (\<lambda>m. m_sender m = u \<or> m_recipient m = u) (readMessagePage st ?conv cursor (clampLimit limit + 1)) =
      readMessagePage st ?conv cursor (clampLimit limit + 1)"
    using readable_entries(1) [OF ok] unfolding read filter_id_conv is_party_def
    by (fastforce dest!: in_set_takeD)
  have calls_read: "(if \<not> visible then [] else map (\<lambda>c. toCallTimelineEntry c u)
        (listCallsBetween s u p (map_option tc_before cursor) (Option.bind cursor tc_call)
           (Option.bind cursor tc_type = Some At_Message))) =
      map (\<lambda>c. toCallTimelineEntry c u) (sort_cmp by_newest_call (filter ?q (shared_calls s visible u p)))"
    by (simp add: listCallsBetween_def shared_calls_def conj_commute)
  have "get_messages st s visible u p cursor True limit =
      buildHistoryResponse st s visible u p ?conv cursor True (clampLimit limit)"
    using peer cur by (auto simp: get_messages_def)
  also have "\<dots> = Inr (pageResponse ?conv (take ?n (filter R (whole_timeline st s visible u p))) (nat (clampLimit limit)))"
    unfolding buildHistoryResponse_def Let_def own calls_read cap(2)
    using merged_page [OF wf ok P Q, where n = ?n] by (simp add: read)
  finally show ?thesis .
qed

text \<open>The cursor of an entry stands right after it.\<close>

lemma cursor_of_entry:
  assumes ok: "readable st s u p" and x: "x \<in> set (shared_entries st s visible u p)"
  obtains c t where "cursorForEntry x = Some c" and "tc_before c = At t"
    and "\<And>m. m \<in> set (shared_messages st (deriveConversationId u p)) \<Longrightarrow>
      before_cursor (Some (t, tc_message c)) m \<longleftrightarrow> entry_key x < entry_key (message_entry m)"
    and "\<And>d. d \<in> set (shared_calls s visible u p) \<Longrightarrow>
      call_before (Some (At t)) (tc_call c) (tc_type c = Some At_Message) d \<longleftrightarrow> entry_key x < entry_key (call_entry_of u d)"
proof -
  have mk: "m_type m \<noteq> ''call''" if "m \<in> set (shared_messages st (deriveConversationId u p))" for m
    using readable_entries(1) [OF ok that] by simp
  have order: "compareNewestFirst (Some (At a)) (Some (At b)) = (if a = b then 0 else if a < b then 1 else - 1)" for a b
    by (simp add: compareNewestFirst_def instant_def)
  consider (message) m where "x = message_entry m" "m \<in> set (shared_messages st (deriveConversationId u p))"
    | (call) d where "x = call_entry_of u d" "d \<in> set (shared_calls s visible u p)"
    using x by (auto simp: shared_entries_def)
  then show thesis
  proof cases
    case message
    let ?c = "\<lparr>tc_before = At (m_created m), tc_type = Some At_Message, tc_message = Some (m_id m), tc_call = None\<rparr>"
    have "m_type m \<noteq> ''call''" using mk message(2) by simp
    then have c: "cursorForEntry x = Some ?c"
      by (auto simp: cursorForEntry_def message(1) message_entry_def messageTypeOf_def DEFAULT_MESSAGE_TYPE_def)
    show ?thesis
    proof (rule that [OF c])
      show "tc_before ?c = At (m_created m)" by simp
      show "before_cursor (Some (m_created m, tc_message ?c)) m' \<longleftrightarrow> entry_key x < entry_key (message_entry m')"
        if "m' \<in> set (shared_messages st (deriveConversationId u p))" for m'
        using mk [OF that] mk [OF message(2)] by (auto simp: message(1) entry_keys before_cursor_def)
      show "call_before (Some (At (m_created m))) (tc_call ?c) (tc_type ?c = Some At_Message) d \<longleftrightarrow>
          entry_key x < entry_key (call_entry_of u d)" if d: "d \<in> set (shared_calls s visible u p)" for d
      proof -
        obtain t where "c_created d = At t" using readable_entries(2) [OF ok d] by blast
        then show ?thesis using mk [OF message(2)]
          by (auto simp: message(1) entry_keys call_before_def order Let_def)
      qed
    qed
  next
    case call
    obtain t where t: "c_created d = At t" using readable_entries(2) [OF ok call(2)] by blast
    let ?c = "\<lparr>tc_before = At t, tc_type = Some At_Call, tc_message = None, tc_call = Some (c_id d)\<rparr>"
    have c: "cursorForEntry x = Some ?c"
      by (simp add: cursorForEntry_def call(1) call_entry_of_def toCallTimelineEntry_def t)
    show ?thesis
    proof (rule that [OF c])
      show "tc_before ?c = At t" by simp
      show "before_cursor (Some (t, tc_message ?c)) m' \<longleftrightarrow> entry_key x < entry_key (message_entry m')"
        if "m' \<in> set (shared_messages st (deriveConversationId u p))" for m'
        using mk [OF that] by (auto simp: call(1) entry_keys entry_keys(2) [OF t] before_cursor_def)
      show "call_before (Some (At t)) (tc_call ?c) (tc_type ?c = Some At_Message) d' \<longleftrightarrow>
          entry_key x < entry_key (call_entry_of u d')" if d': "d' \<in> set (shared_calls s visible u p)" for d'
      proof -
        obtain t' where "c_created d' = At t'" using readable_entries(2) [OF ok d'] by blast
        then show ?thesis
          by (auto simp: call(1) entry_keys(2) [OF t] entry_keys call_before_def order Let_def str_truthy_iff)
      qed
    qed
  qed
qed

section \<open>Walking\<close>

text \<open>A client that follows \<open>nextCursor\<close> until there is none.\<close>

fun walk_history ::
  "nat \<Rightarrow> (timeline_cursor option \<Rightarrow> (int \<times> string) + history_page) \<Rightarrow> timeline_cursor option \<Rightarrow> timeline_item list" where
  "walk_history 0 read cur = []"
| "walk_history (Suc k) read cur =
     (case read cur of
        Inl _ \<Rightarrow> []
      | Inr r \<Rightarrow> hp_entries r @ (case hp_next r of None \<Rightarrow> [] | Some c \<Rightarrow> walk_history k read (Some c)))"

lemma walk_after:
  assumes l: "0 < l"
    and after: "\<And>i. i < length es \<Longrightarrow>
      \<exists>c. cursorForEntry (es ! i) = Some c \<and> read (Some c) = Inr (pageResponse conv (take (Suc l) (drop (Suc i) es)) l)"
  shows "read cur = Inr (pageResponse conv (take (Suc l) (drop n es)) l) \<Longrightarrow> length es - n < k \<Longrightarrow>
    walk_history k read cur = drop n es"
proof (induction k arbitrary: n cur)
  case (Suc k)
  have short: "take l (take (Suc l) (drop n es)) = take l (drop n es)" by simp
  show ?case
  proof (cases "l + n < length es")
    case False
    then have "\<not> l < length (take (Suc l) (drop n es))" by simp
    then show ?thesis using Suc.prems(1) False by (simp add: pageResponse_def Let_def)
  next
    case True
    define i where "i = n + length (take l (drop n es)) - 1"
    have n: "n < length es" using True by simp
    note shown = page_last [OF l n, folded i_def]
    obtain c where c: "cursorForEntry (es ! i) = Some c"
      "read (Some c) = Inr (pageResponse conv (take (Suc l) (drop (Suc i) es)) l)"
      using after [OF shown(3)] by blast
    have "l < length (take (Suc l) (drop n es))" "take l (drop n es) \<noteq> []" using True l by auto
    then have "hp_next (pageResponse conv (take (Suc l) (drop n es)) l) = Some c"
      "hp_entries (pageResponse conv (take (Suc l) (drop n es)) l) = take l (drop n es)"
      using shown(1) c(1) by (simp_all add: pageResponse_def Let_def)
    moreover have "length es - Suc i < k" using Suc.prems(2) shown(2,3) by simp
    from Suc.IH [OF c(2) this] have "walk_history k read (Some c) = drop (Suc i) es" .
    ultimately show ?thesis using Suc.prems(1) shown(4) by simp
  qed
qed simp

text \<open>
  C22. The timeline of a conversation is complete: a client that asks for the newest page of messages and calls and
  follows the cursors gets every message of the conversation and every call the instance holds between its two users
  exactly once, newest first, whatever the page size, also where messages and calls share a millisecond.
\<close>

theorem timeline_pages_cover:
  assumes "wf_messages st" and "wf_registry s" and "readable st s u p"
    and "trim p = p" and "p \<noteq> []" and "p \<noteq> u" and "length (whole_timeline st s visible u p) < k"
  shows "walk_history k (\<lambda>cur. get_messages st s visible u p cur True limit) None = whole_timeline st s visible u p"
proof -
  let ?es = "whole_timeline st s visible u p" and ?l = "nat (clampLimit limit)" and ?conv = "deriveConversationId u p"
  have l: "0 < ?l" using clampLimit_bounds [of limit] by simp
  have es: "?es = sort_key entry_key (shared_entries st s visible u p)"
    unfolding whole_timeline_def shared_entries_def [symmetric] by (rule sort_entries) (rule shared_dated [OF assms(3)])
  have keys: "sorted (map entry_key ?es)" "distinct (map entry_key ?es)"
    using shared_keys [OF assms(1-3), of visible] by (simp_all add: es distinct_map)
  have first: "get_messages st s visible u p None True limit = Inr (pageResponse ?conv (take (Suc ?l) (drop 0 ?es)) ?l)"
    using history_response [OF assms(1-6), of None "\<lambda>_. True" visible limit] by (simp add: before_cursor_def call_before_def)
  have after: "\<exists>c. cursorForEntry (?es ! i) = Some c \<and>
      get_messages st s visible u p (Some c) True limit = Inr (pageResponse ?conv (take (Suc ?l) (drop (Suc i) ?es)) ?l)"
    if i: "i < length ?es" for i
  proof -
    have "?es ! i \<in> set (shared_entries st s visible u p)" using nth_mem [OF i] by (simp add: es)
    from cursor_of_entry [OF assms(3) this] obtain c t where c: "cursorForEntry (?es ! i) = Some c" "tc_before c = At t"
      and m: "\<And>m. m \<in> set (shared_messages st ?conv) \<Longrightarrow>
        before_cursor (Some (t, tc_message c)) m \<longleftrightarrow> entry_key (?es ! i) < entry_key (message_entry m)"
      and d: "\<And>d. d \<in> set (shared_calls s visible u p) \<Longrightarrow>
        call_before (Some (At t)) (tc_call c) (tc_type c = Some At_Message) d \<longleftrightarrow> entry_key (?es ! i) < entry_key (call_entry_of u d)"
      by blast
    have "get_messages st s visible u p (Some c) True limit =
        Inr (pageResponse ?conv (take (Suc ?l) (filter (\<lambda>e. entry_key (?es ! i) < entry_key e) ?es)) ?l)"
      by (rule history_response [OF assms(1-6)]) (simp_all add: c(2) instant_def m d)
    then show ?thesis using c(1) sorted_distinct_after [OF keys i] by simp
  qed
  show ?thesis using walk_after [OF l after first, of k] assms(7) by simp
qed

text \<open>Two messages, the second in the millisecond of a call; one entry per page.\<close>

definition alice_says :: "string \<Rightarrow> new_message" where
  "alice_says key = (hello key ''hi'')\<lparr>n_sender := ''alice''\<rparr>"

definition demo_talk :: message_store where
  "demo_talk = fold run_message [Save 999999 ''m1'' (alice_says ''k1''), Save 1000000 ''m2'' (alice_says ''k2'')]
     empty_message_store"

theorem timeline_pages_cover_witness:
  "walk_history 4 (\<lambda>cur. get_messages demo_talk demo_ringing True ''bob'' ''alice'' cur True (Some 1)) None =
     whole_timeline demo_talk demo_ringing True ''bob'' ''alice'' \<and>
   map timelineSortId_server (whole_timeline demo_talk demo_ringing True ''bob'' ''alice'') =
     [''message:m2'', ''call:id-'', ''message:m1'']"
proof -
  have ids: "map timelineSortId_server (whole_timeline demo_talk demo_ringing True ''bob'' ''alice'') =
      [''message:m2'', ''call:id-'', ''message:m1'']" by code_simp
  have "wf_messages demo_talk" unfolding demo_talk_def by (rule fold_run_wf)
  moreover have "readable demo_talk demo_ringing ''bob'' ''alice''"
  proof -
    have "list_all (\<lambda>m. is_party ''bob'' m \<and> m_type m \<noteq> ''call'') (shared_messages demo_talk (deriveConversationId ''bob'' ''alice''))"
      by code_simp
    moreover have "shared_calls demo_ringing True ''bob'' ''alice'' = [demo_call]" by code_simp
    ultimately show ?thesis by (simp add: readable_def list_all_iff demo_call_def)
  qed
  moreover have "length (whole_timeline demo_talk demo_ringing True ''bob'' ''alice'') < 4"
    using arg_cong [OF ids, of length] by simp
  moreover have "trim ''alice'' = ''alice''" by code_simp
  ultimately show ?thesis using timeline_pages_cover [OF _ demo_wf] ids by simp
qed

end
