(* ===== verification/MissedCalls.thy ===== *)
theory MissedCalls
  imports CallTimeline CallProperties
begin

text \<open>
  The badge of the chat list: it counts the missed calls of each peer, and opening a conversation clears those of its
  peer and no others.
\<close>

section \<open>Counting\<close>

definition unread_of :: "string \<Rightarrow> (string \<times> activity) list \<Rightarrow> nat" where
  "unread_of q acc = (case map_of acc q of None \<Rightarrow> 0 | Some a \<Rightarrow> ac_unread a)"

definition missed_from :: "string \<Rightarrow> string \<Rightarrow> call_record \<Rightarrow> bool" where
  "missed_from u q c = (isUserCall c u \<and> call_peer u c = q \<and> isUnreadMissedCall c u)"

lemma unread_add:
  "unread_of q (addCallActivity u c acc) = unread_of q acc + (if call_peer u c = q \<and> isUnreadMissedCall c u then 1 else 0)"
  by (simp add: addCallActivity_def Let_def unread_of_def split: option.split)

lemma unread_fold:
  "unread_of q (fold (\<lambda>c acc. if isUserCall c u then addCallActivity u c acc else acc) cs acc) =
     unread_of q acc + length (filter (missed_from u q) cs)"
  by (induction cs arbitrary: acc) (simp_all add: unread_add missed_from_def)

lemma collected_unread: "unread_of q (collectCallActivityByPeer s u) = length (filter (missed_from u q) (map snd (calls s)))"
  by (simp add: collectCallActivityByPeer_def unread_fold unread_of_def [of q "[]"])

lemma collected_distinct: "distinct (map fst (collectCallActivityByPeer s u))"
proof -
  have "distinct (map fst (fold (\<lambda>c acc. if isUserCall c u then addCallActivity u c acc else acc) cs acc))"
    if "distinct (map fst acc)" for cs acc
    using that
    by (induction cs arbitrary: acc) (simp_all add: addCallActivity_def Let_def distinct_update split: option.split)
  then show ?thesis by (simp add: collectCallActivityByPeer_def)
qed

section \<open>The chat list\<close>

text \<open>The number a list shows for a peer.\<close>

definition badge :: "'a conversation_row_scheme list \<Rightarrow> string \<Rightarrow> nat" where
  "badge rows q = (case map_of (map (\<lambda>r. (cr_peer r, cr_unread r)) rows) q of None \<Rightarrow> 0 | Some n \<Rightarrow> n)"

lemma badge_Cons: "badge (r # rs) q = (if cr_peer r = q then cr_unread r else badge rs q)"
  by (simp add: badge_def)

lemma badge_append:
  "badge (xs @ ys) q = (if q \<in> cr_peer ` set xs then badge xs q else badge ys q)"
  by (induction xs) (auto simp: badge_Cons)

lemma badge_sorted:
  assumes "distinct (map cr_peer rows)"
  shows "badge (sort_cmp cmp rows) q = badge rows q"
proof -
  have "distinct (map cr_peer (sort_cmp cmp rows))" using assms by simp
  then have "map_of (map (\<lambda>r. (cr_peer r, cr_unread r)) (sort_cmp cmp rows)) =
      map_of (map (\<lambda>r. (cr_peer r, cr_unread r)) rows)"
    using assms by (subst map_of_inject_set) (simp_all add: comp_def)
  then show ?thesis by (simp add: badge_def)
qed

lemma merged_rows:
  "distinct (map cr_peer rows) \<Longrightarrow> distinct (map fst acc) \<Longrightarrow> merge_rows rows acc = (merged, rest) \<Longrightarrow>
   map cr_peer merged = map cr_peer rows \<and>
   distinct (map fst rest) \<and> (\<forall>q. map_of rest q = (if q \<in> cr_peer ` set rows then None else map_of acc q)) \<and>
   (\<forall>q \<in> cr_peer ` set rows. badge merged q = badge rows q + unread_of q acc)"
proof (induction rows arbitrary: acc merged rest)
  case (Cons r rs)
  obtain ms rest' where m: "merge_rows rs (AList.delete (cr_peer r) acc) = (ms, rest')" by (rule prod.exhaust)
  have d: "distinct (map fst (AList.delete (cr_peer r) acc))" using Cons.prems(2) by (rule distinct_delete)
  have out: "merged = mergeConversationCallActivity r (map_of acc (cr_peer r)) # ms" "rest = rest'"
    using Cons.prems(3) by (auto simp: m)
  have row: "cr_peer (mergeConversationCallActivity r a) = cr_peer r"
    "cr_unread (mergeConversationCallActivity r a) = cr_unread r + (case a of Some x \<Rightarrow> ac_unread x | None \<Rightarrow> 0)" for a
    by (simp_all add: mergeConversationCallActivity_def)
  have other: "unread_of q (AList.delete (cr_peer r) acc) = unread_of q acc" if "q \<noteq> cr_peer r" for q
    using that by (simp add: unread_of_def delete_conv')
  note IH = Cons.IH [OF _ d m]
  have ds: "distinct (map cr_peer rs)" "cr_peer r \<notin> cr_peer ` set rs" using Cons.prems(1) by simp_all
  show ?case using IH [OF ds(1)] ds(2)
    by (auto simp: out row badge_Cons other unread_of_def delete_conv' split: option.split)
qed simp

lemma appended_badge:
  "badge (map (\<lambda>(p, a). \<lparr>cr_conv = f p, cr_peer = p, cr_last = None, cr_unread = ac_unread a, cr_activity = g a\<rparr>) acc) q =
     unread_of q acc"
  by (induction acc) (auto simp: badge_Cons unread_of_def badge_def)

lemma augmented_badge:
  assumes "distinct (map cr_peer rows)"
  shows "badge (augmentConversationsWithCalls s u rows) q = badge rows q + unread_of q (collectCallActivityByPeer s u)"
proof -
  obtain merged rest where m: "merge_rows rows (collectCallActivityByPeer s u) = (merged, rest)" by (rule prod.exhaust)
  note parts = merged_rows [OF assms collected_distinct m]
  let ?all = "appendCallOnlyConversations u rest merged"
  have peers: "map cr_peer ?all = map cr_peer rows @ map fst rest"
    using parts by (auto simp: appendCallOnlyConversations_def comp_def split_beta)
  have "fst ` set rest \<inter> cr_peer ` set rows = {}"
  proof -
    have "map_of rest x = None" if "x \<in> cr_peer ` set rows" for x using parts that by simp
    then show ?thesis by (auto simp: map_of_eq_None_iff)
  qed
  then have "distinct (map cr_peer ?all)" unfolding peers using assms parts by auto
  then have "badge (augmentConversationsWithCalls s u rows) q = badge ?all q"
    by (simp add: augmentConversationsWithCalls_def m sortConversationsByActivity_def badge_sorted)
  moreover have "cr_peer ` set merged = cr_peer ` set rows" using parts by (metis list.set_map)
  moreover have "badge rows q = 0" if "q \<notin> cr_peer ` set rows"
    using that by (induction rows) (auto simp: badge_Cons badge_def [of "[]"])
  moreover have "unread_of q rest = unread_of q (collectCallActivityByPeer s u)" if "q \<notin> cr_peer ` set rows"
    using parts that by (simp add: unread_of_def)
  ultimately show ?thesis using parts
    by (auto simp: appendCallOnlyConversations_def badge_append appended_badge)
qed

section \<open>Acknowledging\<close>

definition acknowledged :: "int \<Rightarrow> string \<Rightarrow> string \<Rightarrow> call_record \<Rightarrow> call_record" where
  "acknowledged nw u p c =
     (if c_caller c = p \<and> isUnreadMissedCall c u then c\<lparr>c_missed_read := Some (At nw)\<rparr> else c)"

lemma persist_calls [simp]: "calls (persistCallRecord c s) = calls s" "calls (invalidateCallHistoryCache us s) = calls s"
  by (simp_all add: persistCallRecord_def invalidateCallHistoryCache_def emit_def Let_def)

lemma get_ack:
  assumes "keyed (snd a)"
  shows "get_call (snd (ack_missed nw u p k a)) k' =
    (if k' = k then map_option (acknowledged nw u p) (get_call (snd a) k) else get_call (snd a) k')"
  using keyedD [OF assms, of k]
  by (cases a) (auto simp: ack_missed_def Let_def acknowledged_def isUnreadMissedCall_def get_call_def store_call_def
    map_of_map_entry split: option.split)

lemma acknowledged_id [simp]: "c_id (acknowledged nw u p c) = c_id c"
  by (simp add: acknowledged_def)

lemma ack_keyed: "keyed (snd a) \<Longrightarrow> keyed (snd (ack_missed nw u p k a))"
  unfolding keyed_def [of "snd (ack_missed nw u p k a)"]
  by (auto simp: get_ack keyedD split: if_splits)

interpretation acknowledging: keyed_sweep
  "\<lambda>a. keyed (snd a)" "\<lambda>a. get_call (snd a)" "\<lambda>a. ()" "ack_missed nw u p" for nw u p
  by unfold_locales (simp_all add: ack_keyed get_ack)

lemma ack_keys: "map fst (calls (snd (fold (ack_missed nw u p) ks a))) = map fst (calls (snd a))"
proof (induction ks arbitrary: a)
  case (Cons k ks)
  have "map fst (calls (snd (ack_missed nw u p k a))) = map fst (calls (snd a))"
    by (cases a) (simp add: ack_missed_def Let_def store_call_def fst_map_entry split: option.split)
  with Cons show ?case by simp
qed simp

lemma marked_keys: "map fst (calls (snd (markMissedCallsRead nw u p rows s))) = map fst (calls s)"
  using ack_keys [of nw u p "map fst (calls s)" "([], s)"]
  by (auto simp: markMissedCallsRead_def Let_def split: prod.split)

lemma marked_get:
  assumes "wf_registry s"
  shows "get_call (snd (markMissedCallsRead nw u p rows s)) k = map_option (acknowledged nw u p) (get_call s k)"
proof -
  obtain acked s1 where f: "fold (ack_missed nw u p) (map fst (calls s)) ([], s) = (acked, s1)" by (rule prod.exhaust)
  have "get_call s1 k = map_option (acknowledged nw u p) (get_call s k)"
    using acknowledging.sweep_entry [of "([], s)" "map fst (calls s)" nw u p k] wf_registry_keyed [OF assms]
      wf_registry_distinct [OF assms] get_call_keys [of s k]
    by (cases "get_call s k") (simp_all add: f get_ack)
  then show ?thesis by (simp add: markMissedCallsRead_def f Let_def get_call_def)
qed

text \<open>A registry is determined by its keys and entries.\<close>

lemma calls_by_key: "distinct (map fst xs) \<Longrightarrow> map snd xs = map (\<lambda>k. the (map_of xs k)) (map fst xs)"
  unfolding list.map_comp by (rule map_cong) auto

lemma marked_calls:
  assumes "wf_registry s"
  shows "map snd (calls (snd (markMissedCallsRead nw u p rows s))) = map (acknowledged nw u p) (map snd (calls s))"
proof -
  let ?s = "snd (markMissedCallsRead nw u p rows s)"
  have d: "distinct (map fst (calls s))" by (rule wf_registry_distinct [OF assms])
  have "map snd (calls ?s) = map (\<lambda>k. the (get_call ?s k)) (map fst (calls s))"
    using calls_by_key [of "calls ?s"] d by (simp add: marked_keys get_call_def)
  also have "\<dots> = map (\<lambda>k. acknowledged nw u p (the (get_call s k))) (map fst (calls s))"
  proof (rule map_cong [OF refl])
    fix k
    assume "k \<in> set (map fst (calls s))"
    then obtain c where "get_call s k = Some c" using get_call_keys [of s k] by auto
    then show "the (get_call ?s k) = acknowledged nw u p (the (get_call s k))" by (simp add: marked_get [OF assms])
  qed
  also have "\<dots> = map (acknowledged nw u p) (map snd (calls s))"
    using calls_by_key [OF d] by (simp add: get_call_def comp_def)
  finally show ?thesis .
qed

text \<open>
  C21. Opening a conversation clears its missed calls and nothing else: the chat list then shows for that peer the
  unread messages only, and for every other peer what it showed before; of the calls, the unread missed calls from
  the peer get a time of reading, and every other call stays as it was.
\<close>

theorem opening_clears_missed_calls:
  assumes "wf_registry s" and "p \<noteq> u" and "distinct (map cr_peer rows)"
    and "s' = snd (markMissedCallsRead nw u p ids s)"
  shows "badge (augmentConversationsWithCalls s' u rows) q =
      (if q = p then badge rows q else badge (augmentConversationsWithCalls s u rows) q) \<and>
    get_call s' k = map_option (\<lambda>c. if c_caller c = p \<and> isUnreadMissedCall c u then c\<lparr>c_missed_read := Some (At nw)\<rparr> else c)
      (get_call s k)"
proof -
  have after: "missed_from u q (acknowledged nw u p c) \<longleftrightarrow> q \<noteq> p \<and> missed_from u q c" for c
    using assms(2) by (auto simp: missed_from_def acknowledged_def isUnreadMissedCall_def isUserCall_def call_peer_def)
  have "unread_of q (collectCallActivityByPeer s' u) =
      length (filter (\<lambda>c. q \<noteq> p \<and> missed_from u q c) (map snd (calls s)))"
    unfolding collected_unread assms(4) marked_calls [OF assms(1)] by (simp add: filter_map comp_def after)
  then have "unread_of q (collectCallActivityByPeer s' u) = (if q = p then 0 else unread_of q (collectCallActivityByPeer s u))"
    by (simp add: collected_unread)
  then show ?thesis
    by (simp add: augmented_badge [OF assms(3)] marked_get [OF assms(1)] assms(4) acknowledged_def [abs_def])
qed

text \<open>alice's call to bob was missed; bob has two unread messages of carol.\<close>

definition demo_missed :: server_state where
  "demo_missed = snd (transitionCall (demo_later 60000) ''id-'' Missed (Some ''alice'') None None demo_ringing)"

definition demo_rows :: "conversation_row list" where
  "demo_rows = [\<lparr>cr_conv = ''bob:carol'', cr_peer = ''carol'', cr_last = None, cr_unread = 2\<rparr>]"

definition demo_opened :: server_state where
  "demo_opened = snd (markMissedCallsRead 2000000 ''bob'' ''alice'' None demo_missed)"

theorem opening_clears_missed_calls_witness:
  "badge (augmentConversationsWithCalls demo_missed ''bob'' demo_rows) ''alice'' = 1 \<and>
   badge (augmentConversationsWithCalls demo_opened ''bob'' demo_rows) ''alice'' = 0 \<and>
   badge (augmentConversationsWithCalls demo_opened ''bob'' demo_rows) ''carol'' = 2"
proof -
  have "registry_reachable demo_missed"
    by (rule registry_reachable.run [OF demo_reachable],
        rule registry_step.step_transition [where e = "demo_later 60000" and cid = "''id-''" and to = Missed])
      (simp add: demo_missed_def prod_eq_iff)
  then have wf: "wf_registry demo_missed" by (rule reachable_wf)
  have rows: "distinct (map cr_peer demo_rows)" by code_simp
  have opened: "badge (augmentConversationsWithCalls demo_opened ''bob'' demo_rows) q =
      (if q = ''alice'' then badge demo_rows q else badge (augmentConversationsWithCalls demo_missed ''bob'' demo_rows) q)" for q
    using opening_clears_missed_calls [OF wf _ rows demo_opened_def] by (rule conjunct1) simp
  have "badge demo_rows ''alice'' = 0" by code_simp
  moreover have "badge (augmentConversationsWithCalls demo_missed ''bob'' demo_rows) ''alice'' = 1" by code_simp
  moreover have "badge (augmentConversationsWithCalls demo_missed ''bob'' demo_rows) ''carol'' = 2" by code_simp
  ultimately show ?thesis by (simp add: opened)
qed

end
