(* ===== verification/InstanceRuns.thy ===== *)
theory InstanceRuns
  imports MissedCalls
begin

text \<open>
  Everything an instance does to the calls it holds: the operations of \<open>domain/calls.ts\<close>, opening a conversation
  (\<open>markMissedCallsRead\<close>) and erasing an account (\<open>eraseCallHistoryFromMemory\<close> of \<open>domain/accountDeletion.ts\<close>).
  The runs here are those of an instance that starts with no call and shares none: reading calls back from the
  database at boot and adopting them from a shared store are apart.
\<close>

section \<open>Erasing an account\<close>

definition takes_part :: "string \<Rightarrow> call_record \<Rightarrow> bool" where
  "takes_part u c = (case c_parts c of
     Some ps \<Rightarrow> (\<exists>p \<in> set ps. p_user p = u)
   | None \<Rightarrow> c_caller c = u \<or> c_callee c = u)"

definition remaining_parts :: "string \<Rightarrow> call_record \<Rightarrow> participant list" where
  "remaining_parts u c = filter (\<lambda>p. p_user p \<noteq> u) (or_empty (c_parts c))"

definition without_user :: "string \<Rightarrow> call_record \<Rightarrow> call_record" where
  "without_user u c =
     (let ids = map p_user (remaining_parts u c);
          caller = (if c_caller c = u then hd ids else c_caller c)
      in c\<lparr>c_parts := Some (remaining_parts u c), c_caller := caller,
           c_callee := (if c_callee c = u
                        then (case find (\<lambda>i. i \<noteq> caller) ids of Some i \<Rightarrow> i | None \<Rightarrow> hd ids)
                        else c_callee c)\<rparr>)"

text \<open>The actor of an event gets a pseudonym of its own.\<close>

fun rename_actors :: "env \<Rightarrow> string \<Rightarrow> call_event list \<Rightarrow> nat \<Rightarrow> call_event list \<times> nat" where
  "rename_actors e u [] n = ([], n)"
| "rename_actors e u (ev # evs) n =
     (if ev_actor ev = Some u
      then (let (evs', n') = rename_actors e u evs (Suc n)
            in (ev\<lparr>ev_actor := Some (''deleted-'' @ uuid e n)\<rparr> # evs', n'))
      else (let (evs', n') = rename_actors e u evs n in (ev # evs', n')))"

text \<open>
  \<open>eraseOneCallFromMemory\<close> of one entry of the map; the state carries the removed ids, the surviving calls and the
  surviving users.
\<close>

record call_erasure =
  er_removed :: "string list"
  er_surviving :: "call_record list"
  er_users :: "string list"

definition eraseOneCallFromMemory ::
  "env \<Rightarrow> string \<Rightarrow> string \<Rightarrow> server_state \<times> call_erasure \<Rightarrow> server_state \<times> call_erasure" where
  "eraseOneCallFromMemory e u k = (\<lambda>(s, r).
     case get_call s k of
       None \<Rightarrow> (s, r)
     | Some c \<Rightarrow>
         if \<not> takes_part u c then (s, r)
         else if remaining_parts u c = [] then (evictCall k s, r\<lparr>er_removed := er_removed r @ [k]\<rparr>)
         else (let (evs, n) = rename_actors e u (case map_of (call_events s) k of Some evs \<Rightarrow> evs | None \<Rightarrow> []) (uuid_count s);
                   c' = without_user u c;
                   s1 = s\<lparr>calls := AList.map_entry k (\<lambda>_. c') (calls s),
                          call_events := AList.map_entry k (\<lambda>_. evs) (call_events s), uuid_count := n\<rparr>
               in (s1, r\<lparr>er_surviving := er_surviving r @ [c'],
                         er_users := fold set_add (map p_user (remaining_parts u c)) (er_users r)\<rparr>)))"

definition eraseCallHistoryFromMemory :: "env \<Rightarrow> string \<Rightarrow> server_state \<Rightarrow> server_state \<times> call_erasure" where
  "eraseCallHistoryFromMemory e u s =
     fold (eraseOneCallFromMemory e u) (map fst (calls s)) (s, \<lparr>er_removed = [], er_surviving = [], er_users = []\<rparr>)"

section \<open>What erasing does to one call\<close>

definition erased :: "string \<Rightarrow> call_record \<Rightarrow> call_record option" where
  "erased u c =
     (if \<not> takes_part u c then Some c else if remaining_parts u c = [] then None else Some (without_user u c))"

lemma erase_visit_get:
  "keyed (fst a) \<Longrightarrow> get_call (fst (eraseOneCallFromMemory e u k a)) k' =
     (if k' = k then Option.bind (get_call (fst a) k) (erased u) else get_call (fst a) k')"
  by (cases a) (auto simp: eraseOneCallFromMemory_def erased_def evictCall_def get_call_def map_of_map_entry delete_conv'
    Let_def split: option.split prod.split)

lemma erased_id: "erased u c = Some d \<Longrightarrow> c_id d = c_id c"
  by (auto simp: erased_def without_user_def Let_def split: if_splits)

lemma erase_visit_keyed: "keyed (fst a) \<Longrightarrow> keyed (fst (eraseOneCallFromMemory e u k a))"
  unfolding keyed_def [of "fst (eraseOneCallFromMemory e u k a)"]
  by (auto simp: erase_visit_get keyedD dest: erased_id split: if_splits bind_splits)

interpretation erasing: keyed_sweep
  "\<lambda>a. keyed (fst a)" "\<lambda>a. get_call (fst a)" "\<lambda>a. ()" "eraseOneCallFromMemory e u" for e u
  by unfold_locales (simp_all add: erase_visit_keyed erase_visit_get)

lemma erase_get:
  assumes "wf_registry s"
  shows "get_call (fst (eraseCallHistoryFromMemory e u s)) k = Option.bind (get_call s k) (erased u)"
proof -
  note wf = wf_registry_keyed [OF assms] wf_registry_distinct [OF assms]
  let ?a = "(s, \<lparr>er_removed = [], er_surviving = [], er_users = []\<rparr>)"
  show ?thesis
    using erasing.sweep_entry [of ?a "map fst (calls s)" e u k] wf get_call_keys [of s k]
    by (cases "get_call s k") (simp_all add: eraseCallHistoryFromMemory_def erase_visit_get)
qed

lemma erase_distinct:
  "distinct (map fst (calls (fst a))) \<Longrightarrow> distinct (map fst (calls (fst (fold (eraseOneCallFromMemory e u) ks a))))"
proof (induction ks arbitrary: a)
  case (Cons k ks)
  have "distinct (map fst (calls (fst (eraseOneCallFromMemory e u k a))))" using Cons.prems
    by (cases a) (auto simp: eraseOneCallFromMemory_def evictCall_def distinct_delete fst_map_entry Let_def
      split: option.split prod.split)
  with Cons.IH show ?case by simp
qed simp

lemma erase_visit_logs:
  "has_log (fst a) k' \<Longrightarrow> get_call (fst (eraseOneCallFromMemory e u k a)) k' \<noteq> None \<Longrightarrow>
   has_log (fst (eraseOneCallFromMemory e u k a)) k'"
  by (cases a) (auto simp: eraseOneCallFromMemory_def evictCall_def has_log_def get_call_def map_of_map_entry delete_conv'
    Let_def split: option.splits prod.splits if_splits)

lemma erase_logs:
  "keyed (fst a) \<Longrightarrow> \<forall>k. get_call (fst a) k \<noteq> None \<longrightarrow> has_log (fst a) k \<Longrightarrow>
   get_call (fst (fold (eraseOneCallFromMemory e u) ks a)) k \<noteq> None \<longrightarrow> has_log (fst (fold (eraseOneCallFromMemory e u) ks a)) k"
proof (induction ks arbitrary: a)
  case (Cons j ks)
  have "\<forall>k. get_call (fst (eraseOneCallFromMemory e u j a)) k \<noteq> None \<longrightarrow> has_log (fst (eraseOneCallFromMemory e u j a)) k"
  proof (intro allI impI)
    fix k
    assume k: "get_call (fst (eraseOneCallFromMemory e u j a)) k \<noteq> None"
    then have "get_call (fst a) k \<noteq> None" using Cons.prems(1) by (cases "get_call (fst a) k") (auto simp: erase_visit_get split: if_splits)
    with Cons.prems(2) erase_visit_logs [OF _ k] show "has_log (fst (eraseOneCallFromMemory e u j a)) k" by blast
  qed
  with Cons.IH [OF erase_visit_keyed [OF Cons.prems(1)]] show ?case by simp
qed simp

lemma remaining_wf:
  assumes "wf_call c" and "remaining_parts u c \<noteq> []"
  shows "wf_call (without_user u c)"
proof -
  obtain ps where ps: "c_parts c = Some ps" using assms(2) by (cases "c_parts c") (simp_all add: remaining_parts_def)
  have "distinct (map p_user (filter (\<lambda>p. p_user p \<noteq> u) ps))"
    using assms(1) ps by (simp add: wf_call_def call_participants_def distinct_map_filter)
  then show ?thesis
    using assms(1) ps by (simp add: wf_call_def call_participants_def without_user_def remaining_parts_def Let_def)
qed

lemma erased_wf: "wf_call c \<Longrightarrow> erased u c = Some d \<Longrightarrow> wf_call d"
  using remaining_wf [of c u] by (auto simp: erased_def split: if_splits)

lemma erase_wf: "wf_registry s \<Longrightarrow> wf_registry (fst (eraseCallHistoryFromMemory e u s))"
proof (rule wf_registryI)
  assume wf: "wf_registry s"
  show "distinct (map fst (calls (fst (eraseCallHistoryFromMemory e u s))))"
    unfolding eraseCallHistoryFromMemory_def by (rule erase_distinct) (simp add: wf_registry_distinct [OF wf])
  fix k d
  assume d: "get_call (fst (eraseCallHistoryFromMemory e u s)) k = Some d"
  then obtain c where c: "get_call s k = Some c" "erased u c = Some d"
    unfolding erase_get [OF wf] by (auto split: bind_splits)
  have "has_log (fst (eraseCallHistoryFromMemory e u s)) k"
    using erase_logs [of "(s, \<lparr>er_removed = [], er_surviving = [], er_users = []\<rparr>)" e u "map fst (calls s)" k]
      wf_registry_keyed [OF wf] wf_registryD [OF wf] d
    by (auto simp: eraseCallHistoryFromMemory_def)
  with c wf_registryD [OF wf c(1)] show "c_id d = k \<and> wf_call d \<and> has_log (fst (eraseCallHistoryFromMemory e u s)) k"
    by (auto simp: erased_id erased_wf)
qed

lemma acknowledged_wf: "wf_call c \<Longrightarrow> wf_call (acknowledged nw u p c)"
  by (cases "c_parts c") (auto simp: acknowledged_def wf_call_def call_participants_def default_participants_def)

lemma marked_wf: "wf_registry s \<Longrightarrow> wf_registry (snd (markMissedCallsRead nw u p rows s))"
proof -
  assume wf: "wf_registry s"
  have "call_events (snd (ack_missed nw u p k a)) = call_events (snd a)" for k a
    by (cases a) (simp add: ack_missed_def Let_def store_call_def persistCallRecord_def emit_def split: option.split)
  then have "call_events (snd (fold (ack_missed nw u p) ks a)) = call_events (snd a)" for ks a
    by (induction ks arbitrary: a) simp_all
  from this [of "map fst (calls s)" "([], s)"]
  have logs: "has_log (snd (markMissedCallsRead nw u p rows s)) = has_log s"
    by (auto simp: markMissedCallsRead_def Let_def has_log_def fun_eq_iff invalidateCallHistoryCache_def emit_def
      split: prod.split)
  show ?thesis
  proof (rule wf_registryI)
    show "distinct (map fst (calls (snd (markMissedCallsRead nw u p rows s))))"
      by (simp add: marked_keys wf_registry_distinct [OF wf])
    fix k d
    assume "get_call (snd (markMissedCallsRead nw u p rows s)) k = Some d"
    then obtain c where "get_call s k = Some c" "d = acknowledged nw u p c" unfolding marked_get [OF wf] by auto
    with wf_registryD [OF wf] show "c_id d = k \<and> wf_call d \<and> has_log (snd (markMissedCallsRead nw u p rows s)) k"
      by (simp add: logs acknowledged_wf)
  qed
qed

section \<open>Runs\<close>

inductive instance_step :: "server_state \<Rightarrow> server_state \<Rightarrow> bool" where
  operates: "registry_step s t \<Longrightarrow> instance_step s t"
| opens: "markMissedCallsRead nw u p rows s = (n, t) \<Longrightarrow> instance_step s t"
| erases: "eraseCallHistoryFromMemory e u s = (t, r) \<Longrightarrow> instance_step s t"

inductive instance_reachable :: "server_state \<Rightarrow> bool" where
  boots: "instance_reachable (initial_state bus db cache shared)"
| runs: "instance_reachable s \<Longrightarrow> instance_step s t \<Longrightarrow> instance_reachable t"

lemma instance_step_wf: "instance_step s t \<Longrightarrow> wf_registry s \<Longrightarrow> wf_registry t"
  by (induction rule: instance_step.induct) (use step_wf marked_wf erase_wf in \<open>metis fst_conv snd_conv\<close>)+

lemma instance_wf: "instance_reachable s \<Longrightarrow> wf_registry s"
  by (induction rule: instance_reachable.induct) (simp_all add: initial_registry_wf instance_step_wf)

lemma registry_instance: "registry_reachable s \<Longrightarrow> instance_reachable s"
  by (induction rule: registry_reachable.induct) (blast intro: boots runs operates)+

text \<open>The life of an entry: as the lifecycle allows, read by the callee, or left by a participant.\<close>

inductive entry_life :: "call_record option \<Rightarrow> call_record option \<Rightarrow> bool" where
  lives: "entry_step x y \<Longrightarrow> entry_life x y"
| is_read: "c_status c = Missed \<Longrightarrow> \<not> stamp_truthy (c_missed_read c) \<Longrightarrow>
     entry_life (Some c) (Some (c\<lparr>c_missed_read := Some (At nw)\<rparr>))"
| is_left: "u \<in> set (map p_user (or_empty (c_parts c))) \<Longrightarrow>
     ps = filter (\<lambda>p. p_user p \<noteq> u) (or_empty (c_parts c)) \<Longrightarrow> ps \<noteq> [] \<Longrightarrow>
     {x, y} \<subseteq> {c_caller c, c_callee c} - {u} \<union> p_user ` set ps \<Longrightarrow>
     entry_life (Some c) (Some (c\<lparr>c_parts := Some ps, c_caller := x, c_callee := y\<rparr>))"
| is_forgotten: "\<forall>p \<in> set (or_empty (c_parts c)). p_user p = u \<Longrightarrow> takes_part u c \<Longrightarrow> entry_life (Some c) None"

inductive_simps entry_life_Some: "entry_life (Some c) y"

lemma status_missed: "wf_call c \<Longrightarrow> status_text (c_status c) = ''missed'' \<longleftrightarrow> c_status c = Missed"
  by (auto simp: wf_call_def)

lemma acknowledged_life: "wf_call c \<Longrightarrow> entry_life (Some c) (Some (acknowledged nw u p c))"
  by (auto simp: acknowledged_def isUnreadMissedCall_def status_missed intro: lives stays is_read)

lemma erased_life: "entry_life (Some c) (erased u c)"
proof -
  consider "\<not> takes_part u c" | "takes_part u c" "remaining_parts u c = []" | "takes_part u c" "remaining_parts u c \<noteq> []"
    by blast
  then show ?thesis
  proof cases
    case 2
    then have "\<forall>p \<in> set (or_empty (c_parts c)). p_user p = u"
      by (auto simp: remaining_parts_def filter_empty_conv)
    with 2 show ?thesis by (auto simp: erased_def intro: is_forgotten)
  next
    case 3
    obtain ps where ps: "c_parts c = Some ps" using 3 by (cases "c_parts c") (simp_all add: remaining_parts_def)
    let ?ids = "map p_user (remaining_parts u c)"
    have "hd ?ids \<in> set ?ids" using 3 by (intro hd_in_set) simp
    moreover have "i \<in> set ?ids" if "find P ?ids = Some i" for P i
      using find_SomeD [OF that] by simp
    ultimately have users: "c_caller (without_user u c) \<in> {c_caller c} - {u} \<union> set ?ids"
      "c_callee (without_user u c) \<in> {c_callee c} - {u} \<union> set ?ids"
      by (auto simp: without_user_def Let_def simp del: set_map split: option.split)
    have "u \<in> set (map p_user (or_empty (c_parts c)))" using 3(1) ps by (auto simp: takes_part_def)
    from is_left [OF this refl, of "c_caller (without_user u c)" "c_callee (without_user u c)"] 3 users
    show ?thesis by (auto simp: erased_def remaining_parts_def without_user_def Let_def)
  qed (simp add: erased_def lives stays)
qed

lemma instance_entry:
  assumes "instance_step s t" and wf: "wf_registry s"
  shows "entry_life (get_call s k) (get_call t k)"
  using assms(1)
proof cases
  case operates
  then show ?thesis by (blast intro: lives step_entry [OF _ wf])
next
  case (opens nw u p rows n)
  then have "t = snd (markMissedCallsRead nw u p rows s)" by simp
  then show ?thesis
    using wf_registry_call [OF wf, of k]
    by (cases "get_call s k") (simp_all add: marked_get [OF wf] acknowledged_life lives stays)
next
  case (erases e u r)
  then have "t = fst (eraseCallHistoryFromMemory e u s)" by simp
  then show ?thesis by (cases "get_call s k") (simp_all add: erase_get [OF wf] erased_life lives stays)
qed

section \<open>The properties\<close>

text \<open>
  C1. An instance that starts with no call and shares none keeps its registry well-formed, whatever it runs: the
  operations on calls, the timers, opening conversations and erasing accounts. Every call is filed once, under its own id
  and with an event log; a finished call has a duration and no ring left, a running call has neither duration nor end
  reason, a connected call was answered, and no user takes part twice.
\<close>

theorem registry_invariant: "instance_reachable s \<Longrightarrow> wf_registry s"
  by (rule instance_wf)

lemma registry_invariant_witness:
  "wf_registry (fst (eraseCallHistoryFromMemory (demo_later 70000) ''alice'' demo_opened))"
proof (rule registry_invariant)
  have "instance_reachable demo_missed"
  proof (rule runs [OF registry_instance [OF demo_reachable]], rule operates)
    show "registry_step demo_ringing demo_missed"
      by (rule registry_step.step_transition [where e = "demo_later 60000" and cid = "''id-''" and to = Missed])
        (simp add: demo_missed_def prod_eq_iff)
  qed
  then have "instance_reachable demo_opened"
    by (rule runs) (rule opens [of 2000000 "''bob''" "''alice''" None], simp add: demo_opened_def prod_eq_iff)
  then show "instance_reachable (fst (eraseCallHistoryFromMemory (demo_later 70000) ''alice'' demo_opened))"
    by (rule runs) (rule erases, simp add: prod_eq_iff)
qed

text \<open>
  C2. Refinement of the lifecycle, on the same instances: whatever is done acts on every entry as its life allows. An
  entry appears ringing or already refused, keeps its id and creation time, moves along \<open>CALL_TRANSITIONS\<close> only (timeouts,
  disconnects and reconciliations included, which bypass the table in the code) and is evicted only once over; apart
  from that a missed call is read, and a participant whose account is erased leaves the call, which is forgotten when
  nobody else took part.
\<close>

theorem lifecycle_refinement:
  assumes "instance_reachable s" and "instance_step s t"
  shows "entry_life (get_call s k) (get_call t k)"
  by (rule instance_entry [OF assms(2) instance_wf [OF assms(1)]])

lemma lifecycle_refinement_witness: "entry_life (Some demo_call) (Some demo_ended)"
proof -
  have "registry_step demo_ringing demo_over"
    by (rule registry_step.step_transition [where e = "demo_later 60000" and cid = "''id-''" and to = Ended])
      (simp add: demo_over_def prod_eq_iff)
  from lifecycle_refinement [OF registry_instance [OF demo_reachable] operates [OF this], of "''id-''"] show ?thesis
    by (simp add: demo_get demo_over_get)
qed

text \<open>
  C3. A call that is over stays as it ended, on the same instances: it is dropped or keeps its status, its end reason, its
  times, its duration, its owner devices and its kind. What may still change is the time at which a missed call was
  read, set once, and who took part, when the account of a participant is erased; then the entries of the
  others are as before.
\<close>

theorem terminal_call_frozen:
  assumes "instance_reachable s" and "instance_step s t" and "get_call s k = Some c" and "terminal (c_status c)"
    and "get_call t k = Some d"
  shows "d = c\<lparr>c_missed_read := c_missed_read d, c_parts := c_parts d, c_caller := c_caller d, c_callee := c_callee d\<rparr> \<and>
    (c_missed_read d = c_missed_read c \<or> c_status c = Missed \<and> \<not> stamp_truthy (c_missed_read c)) \<and>
    ((c_parts d, c_caller d, c_callee d) = (c_parts c, c_caller c, c_callee c) \<or>
     (\<exists>u \<in> p_user ` set (or_empty (c_parts c)). c_parts d = Some (filter (\<lambda>p. p_user p \<noteq> u) (or_empty (c_parts c)))))"
  using instance_entry [OF assms(2) instance_wf [OF assms(1)], of k] assms(3-5)
  by (auto simp: entry_life_Some entry_step_Some)

lemma terminal_call_frozen_witness:
  "\<exists>d. get_call (snd (markMissedCallsRead 2000000 ''bob'' ''alice'' None demo_over)) ''id-'' = Some d \<and>
     c_status d = Ended \<and> c_duration d = Some 0 \<and> c_missed_read d = None"
proof -
  let ?t = "snd (markMissedCallsRead 2000000 ''bob'' ''alice'' None demo_over)"
  have "map_option (\<lambda>_. ()) (get_call ?t ''id-'') = Some ()" by code_simp
  then obtain d where d: "get_call ?t ''id-'' = Some d" by auto
  have "instance_step demo_over ?t" by (rule opens [of 2000000 "''bob''" "''alice''" None]) (simp add: prod_eq_iff)
  note frozen = terminal_call_frozen [OF registry_instance [OF demo_over_reachable] this demo_over_get d]
  have ended: "c_status demo_ended = Ended" "c_duration demo_ended = Some 0" "c_missed_read demo_ended = None" by code_simp+
  from frozen [THEN conjunct1, THEN arg_cong, of c_status] frozen [THEN conjunct1, THEN arg_cong, of c_duration]
    frozen [THEN conjunct2, THEN conjunct1] ended
  show ?thesis by (intro exI [of _ d]) (simp add: d)
qed

end
