(* ===== verification/Spec2Isabelle.thy ===== *)
theory Spec2Isabelle
  imports CallProperties SharedProperties PresenceProperties RtcBuffer MessageHistory GroupErasure RecoveryLadder TimestampProperties PushProperties HandlerProperties CallSecurityProperties DeltaProperties SecurityProperties MessageDelivery SchemaProperties ConversationProperties CallScreen ResyncProperties HistoryPages InstanceRuns
begin

text \<open>
  A verification development of a calling and messaging system: a signaling server (\<open>server/src\<close>), the
  contract it shares with its clients (\<open>shared\<close>) and the client's own logic (\<open>mobile/src\<close>). The definitions
  follow the TypeScript function by function and keep its names; the theorems are about them.

  \<^bold>\<open>The program.\<close> An instance of the server keeps devices, sessions and connections in memory, a registry of
  calls with the log of their events, and the stores of messages and groups. Sockets ask it to place, answer and
  end calls, to relay media signals, to send, delete and react to messages, and to run groups and their calls. Calls are swept by timers, told
  to their participants, pushed to devices that are offline, and shared between instances through Redis. A client
  places and answers calls, queues what its user sends in a durable outbox, keeps the history of every conversation, catches up by pages of
  changes, repairs the media path of a running call, and shows a code by which two users verify each other.

  \<^bold>\<open>Theories and code.\<close>

  \<^item> \<open>Prelude\<close>: truthiness and null coalescing of JavaScript, insertion-ordered maps and sets as association lists
    and distinct lists, the stable sort, sweeps over a map (the locale \<open>keyed_sweep\<close>), hints.
  \<^item> \<open>Presence\<close>, \<open>PresenceProperties\<close>: \<open>server/src/lib/state.ts\<close>. The locale \<open>owner_index\<close> is the contract of an
    index of entries by owner.
  \<^item> \<open>CallState\<close>, \<open>Calls\<close>, \<open>CallSweeps\<close>: \<open>domain/calls.ts\<close> with the records of \<open>stores/contracts.ts\<close>; \<open>CallInvariants\<close>,
    \<open>CallRetention\<close>, \<open>CallProperties\<close>: the invariant of the registry, the abstract lifecycle (\<open>entry_step\<close>) and the
    step relation of the operations of the module (\<open>registry_step\<close>). \<open>InstanceRuns\<close> adds what other modules do to the calls an
    instance holds, opening a conversation and the erasure of an account (\<open>domain/accountDeletion.ts\<close>), and runs them from
    the empty registry (\<open>instance_reachable\<close>).
  \<^item> \<open>SharedStore\<close>, \<open>SharedCalls\<close>, \<open>SharedProperties\<close>: the scripts of \<open>stores/redis.ts\<close> and the operations of
    \<open>domain/sharedCalls.ts\<close> and \<open>domain/callSync.ts\<close> on an instance and the store; the locale \<open>shared_registry\<close> is
    what the instances rely on.
  \<^item> \<open>RtcBuffer\<close>: \<open>signaling/rtcBuffer.ts\<close>; the locale \<open>bounded_queues\<close>.
  \<^item> \<open>CallNotices\<close>, \<open>IncomingPush\<close>, \<open>PushProperties\<close>: \<open>domain/notifications.ts\<close>.
  \<^item> \<open>SignalingHandlers\<close>, \<open>GroupSignaling\<close>, \<open>HandlerProperties\<close>: \<open>signaling/callHandlers.ts\<close>, \<open>ack.ts\<close> and the call events
    of \<open>signaling/connection/\<close>. They run the operations of \<open>Calls\<close> and the notices of \<open>CallNotices\<close>.
  \<^item> \<open>Messages\<close>, \<open>MessageProperties\<close>, \<open>MessageHistory\<close>: the in-process store of \<open>server/src/messageStore/\<close>.
  \<^item> \<open>GroupStore\<close>, \<open>GroupMembership\<close>, \<open>GroupMessages\<close>, \<open>GroupCalls\<close>: the in-process store of
    \<open>server/src/conversationStore/\<close>; \<open>GroupInvariants\<close>, \<open>GroupProperties\<close>, \<open>GroupCallProofs\<close>, \<open>GroupCallProperties\<close>,
    \<open>GroupErasure\<close>: its invariants, access rules and the erasure of an account.
  \<^item> \<open>Security\<close>, \<open>SecurityProperties\<close>: \<open>server/src/security.ts\<close> and the script of \<open>stores/security.ts\<close>.
  \<^item> \<open>Schema\<close>, \<open>EventSchemas\<close>, \<open>SchemaProperties\<close>: the validation library \<open>shared/schema.ts\<close> and the contract of every
    event, in both directions, of \<open>shared/signaling/schemas.ts\<close>.
  \<^item> \<open>ConversationFanout\<close>, \<open>ConversationHandlers\<close>, \<open>ConversationProperties\<close>: \<open>domain/conversationFanout.ts\<close>,
    \<open>domain/groupAdmission.ts\<close> and \<open>signaling/conversationHandlers.ts\<close>: the requests of sockets on groups and their calls
    over the group store, \<open>Security\<close> and the fan-out to the members.
  \<^item> \<open>CallTimeline\<close>, \<open>HistoryPages\<close>, \<open>MissedCalls\<close>: \<open>domain/callTimeline.ts\<close> over \<open>Calls\<close> and \<open>Messages\<close>, and the history
    route of \<open>routes/messages.routes.ts\<close> that pages calls and messages together.
  \<^item> \<open>MessageWire\<close>, \<open>MessageSending\<close>, \<open>MessageSendingProperties\<close>: the payloads of messages and the handlers of \<open>signaling/messageHandlers/\<close> over \<open>Messages\<close>, \<open>GroupMessages\<close>, \<open>Security\<close> and \<open>Presence\<close>.
  \<^item> \<open>ChatList\<close>, \<open>Outbox\<close>, \<open>SendWorker\<close>, \<open>OutboxProperties\<close>, \<open>OutboxDelivery\<close>: \<open>mobile/src/messaging/conversations.ts\<close>,
    \<open>sendPipeline.ts\<close>, \<open>deliveryState.ts\<close> and the queue of \<open>hooks/useMessaging.ts\<close>. The worker relies on the locale
    \<open>delivery_service\<close>; \<open>MessageDelivery\<close> interprets it by the server's handler behind a lossy network.
  \<^item> \<open>ChatTimeline\<close>, \<open>TimelineProperties\<close>, \<open>DeltaSync\<close>, \<open>DeltaProperties\<close>: the history a client holds and how it catches
    up (\<open>messageIdentity.ts\<close>, \<open>messageHistory.ts\<close>, \<open>receivePipeline.ts\<close>, \<open>messageSyncCursor.ts\<close>, \<open>deltaSync.ts\<close>,
    \<open>messageBackfill.ts\<close>, and what \<open>storage/chatDb.ts\<close> keeps of the histories). A message is a map from fields to values, as in an object that is merged by spreading.
  \<^item> \<open>RecoveryEpisode\<close>, \<open>IceRestart\<close>, \<open>CallRecovery\<close>, \<open>RecoveryProperties\<close>, \<open>RecoveryLadder\<close>: \<open>mobile/src/call/\<close> and the
    hook \<open>useCallRecovery.ts\<close> with the handlers of other hooks that drive it.
  \<^item> \<open>JsBits\<close>, \<open>Sha256\<close>, \<open>Sha256Properties\<close>, \<open>CallSecurity\<close>, \<open>CallSecurityProperties\<close>: \<open>sha256.ts\<close>, \<open>sas.ts\<close>, \<open>sasWords.ts\<close>,
    \<open>callFingerprints.ts\<close>, \<open>useCallSecurity.ts\<close> and the log of verified peers. The bit operators of JavaScript act on
    32 bits and read the result back signed; the reference is the hash of FIPS 180-4 on 32-bit words.
  \<^item> \<open>CallScreen\<close>, \<open>CallDecisions\<close>: \<open>mobile/src/call/callStateMachine.ts\<close>, \<open>callDecisions.ts\<close>, \<open>answerPath.ts\<close>,
    \<open>pushRehydration.ts\<close> and \<open>sessionLifecycle.ts\<close>. \<open>AnswerFlow\<close>: the queue of answered calls of \<open>callKeep.ts\<close>, the hook
    \<open>useAnswerPath.ts\<close>, the system's call screen with its redials (\<open>pushNotifications.ts\<close>), and the handlers of
    \<open>useCallFlow.ts\<close> and \<open>useSignalingSocket.ts\<close> that place, answer and end calls, as steps of one device (\<open>phone_step\<close>). \<open>AnswerProperties\<close>, \<open>AnswerOnce\<close>: runs of a device; \<open>ResyncProperties\<close>: the
    report of a device after a reconnect, with the handler of the server that answers it.
  \<^item> \<open>Timestamps\<close>, \<open>TimestampProperties\<close>: \<open>shared/time.ts\<close> over the calendar of ECMAScript.

  \<^bold>\<open>Conventions.\<close> A class, a closure or a module with variables is a record that operations take and return. A
  thrown error or an error answer is \<open>Inl\<close>, or \<open>None\<close> where it carries nothing. Effects that leave the program
  (socket events, pushes, messages on the bus, writes) are appended to lists of the state, in order. The clock, fresh
  identifiers, jitter and verdicts of collaborators are arguments. Times are integers of milliseconds. A function
  that waits runs to its end as one step, unless the theory says that others act in between; \<open>SharedProperties\<close>,
  \<open>MessageDelivery\<close> and \<open>AnswerFlow\<close> put the steps of several parties in sequence, and \<open>ConversationFanout\<close> interleaves
  the deliveries of an instance recipient by recipient.

  \<^bold>\<open>What is shown.\<close> Calls: in the runs of an instance that starts with no call and shares none the registry is
  well-formed and every call follows the lifecycle, through the handlers too; a call that is over stays as it is but for what the
  erasure of an account and the opening of a conversation do to it; who may see, end or signal in a call; one push per device. Fleet: one
  winner of concurrent transitions, a complete index, agreement of instance and store, and the transitions where
  they part. Messages and groups: invariants of both stores, paging of messages
  and calls together, the badge of missed calls, deletion, membership, capacity, erasure. Requests on groups
  act as operations of their sender, leave a stranger without effect and respect blocks; no interleaving tells a
  user a state of a group call twice or leaves out the newest. Payloads: an accepted one is accepted again unchanged, and the contract of a send.
  Sending: over a network that loses either direction a queued text is queued or stored once, a repeated send has no
  second effect, conversations keep their order, and limits bound what passes. Client: one canonical history, no
  lost local message, a cursor that passes only pages saved with their history, a recovery that respects its budget and
  reports its failure once, an answer that is neither lost nor repeated under the conditions the claims name, one text for every
  notation of an instant, a call that is kept after a reconnect only if the server holds it, a hash that is
  SHA-256, and a code that is shown as verified only for keys the user confirmed.

  \<^bold>\<open>Bounds and fuel.\<close> The loop over delta pages ends after \<open>MAX_DELTA_PAGES\<close> as in the code; the loop of the
  backfill, which the code leaves unbounded, runs over the list of the answers it gets, which ends with the session.
  Nothing else needs fuel: recursion is over lists, or comes with a measure, as the padding of SHA-256 and the
  ladder of restarts up to its deadline (\<open>until_deadline\<close>) do. Counts, lengths and times are exact integers, as the numbers of JavaScript
  are below two to the fifty-third; 32-bit operators are applied to words. History, outbox, groups and stores have
  no bound but those of the code.

  \<^bold>\<open>Not modelled.\<close> The PostgreSQL stores (the in-process stores have the same interface), calls read back from the database at boot and
  the transactions of account deletion, the HTTP routes but that of the history,
  authentication, object storage, push providers, telemetry, caches and logs; that a handler runs validation, whose
  verdict is an argument of it; the adapter and the bus, which carry events in any order; uploads of
  attachments and their clean-up, which the worker of the outbox takes as arguments; rendering, native modules, media
  tracks and the state of screens but that of the call. Letters outside ASCII, locale collation, and \<open>Date.parse\<close> of other notations are left to
  the engine.
\<close>

end
